(* ===== verification/Prelude.thy ===== *)
theory Prelude
  imports Main
begin

text \<open>
  Shared vocabulary of the development: the result type that models Go's
  \<open>(value, error)\<close> returns, the byte-string helpers of Go's package \<open>strings\<close>
  that the source uses, the \<open>sql.Scanner\<close> input values, and an interface for the
  upper-case string enums that most \<open>datatype\<close> packages of the backend declare.
  Strings are byte strings over ASCII: case folding and trimming follow Go's
  package \<open>strings\<close> on that alphabet.
\<close>

named_theorems handler_defs \<open>definitions of command handlers\<close>
named_theorems frame_simps \<open>what an operation leaves unchanged\<close>
named_theorems guard_dests \<open>what a successful operation says about its guards\<close>

section \<open>Results\<close>

text \<open>
  \<open>bind_res\<close> is the Go idiom \<open>if err != nil { return err }\<close>; \<open>require\<close> is a guard
  that returns an error.
\<close>

type_synonym ('e, 'a) result = "'e + 'a"

definition bind_res :: "('e, 'a) result \<Rightarrow> ('a \<Rightarrow> ('e, 'b) result) \<Rightarrow> ('e, 'b) result" where
  "bind_res m k = (case m of Inl e \<Rightarrow> Inl e | Inr x \<Rightarrow> k x)"

definition require :: "bool \<Rightarrow> 'e \<Rightarrow> ('e, 'b) result \<Rightarrow> ('e, 'b) result" where
  "require c e k = (if c then k else Inl e)"

lemma bind_res_simps [simp]:
  "bind_res (Inl e) k = Inl e"
  "bind_res (Inr x) k = k x"
  by (simp_all add: bind_res_def)

lemma require_simps [simp]:
  "require True e k = k"
  "require False e k = Inl e"
  by (simp_all add: require_def)

lemma bind_res_Inr_iff: "bind_res m k = Inr y \<longleftrightarrow> (\<exists>x. m = Inr x \<and> k x = Inr y)"
  by (cases m) auto

lemma require_Inr_iff: "require c e k = Inr y \<longleftrightarrow> c \<and> k = Inr y"
  by (simp add: require_def)

lemma bind_res_Inl_iff:
  "bind_res m k = Inl e \<longleftrightarrow> m = Inl e \<or> (\<exists>x. m = Inr x \<and> k x = Inl e)"
  by (cases m) auto

lemma require_Inl_iff: "require c e k = Inl e' \<longleftrightarrow> (\<not> c \<and> e = e') \<or> (c \<and> k = Inl e')"
  by (auto simp: require_def)

lemma bind_res_assoc: "bind_res (bind_res m f) g = bind_res m (\<lambda>x. bind_res (f x) g)"
  by (cases m) auto

lemmas result_iffs = bind_res_Inr_iff require_Inr_iff

section \<open>Byte strings\<close>

definition upper_char :: "char \<Rightarrow> char" where
  "upper_char c = (let n = (of_char c :: nat) in if 97 \<le> n \<and> n \<le> 122 then char_of (n - 32) else c)"

definition lower_char :: "char \<Rightarrow> char" where
  "lower_char c = (let n = (of_char c :: nat) in if 65 \<le> n \<and> n \<le> 90 then char_of (n + 32) else c)"

text \<open>\<open>strings.ToUpper\<close> and \<open>strings.ToLower\<close> on ASCII input.\<close>

definition to_upper :: "string \<Rightarrow> string" where
  "to_upper = map upper_char"

definition to_lower :: "string \<Rightarrow> string" where
  "to_lower = map lower_char"

definition is_space :: "char \<Rightarrow> bool" where
  "is_space c = (let n = (of_char c :: nat) in n = 32 \<or> (9 \<le> n \<and> n \<le> 13))"

text \<open>\<open>strings.TrimSpace\<close>, \<open>strings.TrimPrefix\<close>, \<open>strings.HasPrefix\<close>,
  \<open>strings.HasSuffix\<close>, \<open>strings.TrimRight\<close> of one character.\<close>

definition trim_space :: "string \<Rightarrow> string" where
  "trim_space s = rev (dropWhile is_space (rev (dropWhile is_space s)))"

fun has_prefix :: "string \<Rightarrow> string \<Rightarrow> bool" where
  "has_prefix s [] = True"
| "has_prefix [] (p # ps) = False"
| "has_prefix (c # cs) (p # ps) = (c = p \<and> has_prefix cs ps)"

definition has_suffix :: "string \<Rightarrow> string \<Rightarrow> bool" where
  "has_suffix s p = has_prefix (rev s) (rev p)"

definition trim_prefix :: "string \<Rightarrow> string \<Rightarrow> string" where
  "trim_prefix s p = (if has_prefix s p then drop (length p) s else s)"

definition trim_right_char :: "char \<Rightarrow> string \<Rightarrow> string" where
  "trim_right_char c s = rev (dropWhile (\<lambda>x. x = c) (rev s))"

text \<open>\<open>strings.Split(s, sep)\<close> for a one-byte separator: never the empty list.\<close>

fun split_on :: "char \<Rightarrow> string \<Rightarrow> string list" where
  "split_on d [] = [[]]"
| "split_on d (c # cs) =
     (if c = d then [] # split_on d cs
      else (case split_on d cs of [] \<Rightarrow> [[c]] | w # ws \<Rightarrow> (c # w) # ws))"

fun join_on :: "char \<Rightarrow> string list \<Rightarrow> string" where
  "join_on d [] = []"
| "join_on d [w] = w"
| "join_on d (w # v # ws) = w @ d # join_on d (v # ws)"

text \<open>\<open>strings.Contains(s, p)\<close>.\<close>

fun contains_str :: "string \<Rightarrow> string \<Rightarrow> bool" where
  "contains_str [] p = (p = [])"
| "contains_str (c # cs) p = (has_prefix (c # cs) p \<or> contains_str cs p)"

lemma of_char_less: "(of_char c :: nat) < 256"
  by (rule nat_of_char_less_256)

lemma of_char_char_of_less [simp]: "n < 256 \<Longrightarrow> of_char (char_of n :: char) = (n::nat)"
  by simp

lemma upper_char_idem [simp]: "upper_char (upper_char c) = upper_char c"
  by (auto simp: upper_char_def Let_def)

lemma lower_char_idem [simp]: "lower_char (lower_char c) = lower_char c"
  by (auto simp: lower_char_def Let_def)

lemma upper_lower_char [simp]: "upper_char (lower_char c) = upper_char c"
  by (auto simp: upper_char_def lower_char_def Let_def)

lemma lower_upper_char [simp]: "lower_char (upper_char c) = lower_char c"
  by (auto simp: upper_char_def lower_char_def Let_def)

lemma to_upper_idem [simp]: "to_upper (to_upper s) = to_upper s"
  by (simp add: to_upper_def)

lemma to_lower_idem [simp]: "to_lower (to_lower s) = to_lower s"
  by (simp add: to_lower_def)

lemma to_upper_to_lower [simp]: "to_upper (to_lower s) = to_upper s"
  by (simp add: to_upper_def to_lower_def)

lemma to_lower_to_upper [simp]: "to_lower (to_upper s) = to_lower s"
  by (simp add: to_upper_def to_lower_def)

lemma to_lower_append [simp]: "to_lower (s @ t) = to_lower s @ to_lower t"
  by (simp add: to_lower_def)

lemma to_lower_eq_Nil [simp]: "to_lower s = [] \<longleftrightarrow> s = []"
  by (simp add: to_lower_def)

lemma length_to_lower [simp]: "length (to_lower s) = length s"
  by (simp add: to_lower_def)

lemma has_prefix_iff: "has_prefix s p \<longleftrightarrow> (\<exists>t. s = p @ t)"
  by (induction s p rule: has_prefix.induct) auto

lemma has_prefix_append [simp]: "has_prefix (p @ s) p"
  by (auto simp: has_prefix_iff)

lemma trim_prefix_append [simp]: "trim_prefix (p @ s) p = s"
  by (simp add: trim_prefix_def)

lemma split_on_neq_Nil [simp]: "split_on d s \<noteq> []"
  by (induction s) (auto split: list.splits)

lemma join_split: "join_on d (split_on d s) = s"
proof (induction s)
  case Nil
  then show ?case by simp
next
  case (Cons c cs)
  obtain w ws where s: "split_on d cs = w # ws"
    by (cases "split_on d cs") auto
  with Cons show ?case by (cases ws) auto
qed

lemma split_on_no_sep: "d \<notin> set s \<Longrightarrow> split_on d s = [s]"
  by (induction s) auto

lemma split_on_append: "d \<notin> set w \<Longrightarrow> split_on d (w @ d # s) = w # split_on d s"
  by (induction w) auto

lemma split_join:
  "ws \<noteq> [] \<Longrightarrow> (\<forall>w\<in>set ws. d \<notin> set w) \<Longrightarrow> split_on d (join_on d ws) = ws"
  by (induction ws rule: join_on.induct) (auto simp: split_on_no_sep split_on_append)

lemma split_on_parts: "w \<in> set (split_on d s) \<Longrightarrow> d \<notin> set w"
proof (induction s arbitrary: w)
  case Nil
  then show ?case by simp
next
  case (Cons c cs)
  obtain v vs where s: "split_on d cs = v # vs"
    by (cases "split_on d cs") auto
  with Cons show ?case by (auto split: if_splits)
qed

lemma trim_space_idem: "trim_space (trim_space s) = trim_space s"
proof -
  have drop_rev: "dropWhile P (rev (dropWhile P (rev t))) = rev (dropWhile P (rev t))"
    if "dropWhile P t = t" for P and t :: string
  proof (cases t)
    case Nil
    then show ?thesis by simp
  next
    case (Cons c cs)
    have "length (dropWhile P cs) \<le> length cs"
      by (rule length_dropWhile_le)
    with that Cons have c: "\<not> P c"
      by (auto split: if_splits)
    then have "rev (dropWhile P (rev t)) = c # rev (dropWhile P (rev cs))"
      using Cons by (auto simp: dropWhile_append)
    with c show ?thesis by simp
  qed
  show ?thesis
    by (simp add: trim_space_def drop_rev)
qed

section \<open>Deduplicating collection\<close>

text \<open>The Go idiom \<open>if !seen[x] { seen[x] = true; out = append(out, x) }\<close> keeps the
  first occurrence of every element.\<close>

fun nub_seen :: "'a list \<Rightarrow> 'a list \<Rightarrow> 'a list" where
  "nub_seen seen [] = []"
| "nub_seen seen (x # xs) =
     (if x \<in> set seen then nub_seen seen xs else x # nub_seen (x # seen) xs)"

lemma set_nub_seen: "set (nub_seen seen xs) = set xs - set seen"
  by (induction seen xs rule: nub_seen.induct) auto

lemma distinct_nub_seen: "distinct (nub_seen seen xs)"
  by (induction seen xs rule: nub_seen.induct) (auto simp: set_nub_seen)

section \<open>String enums\<close>

text \<open>
  A \<open>datatype\<close> package declares string constants, a map of the valid ones, a
  constructor \<open>New...\<close> that folds its input to upper case, and the
  \<open>sql.Scanner\<close> that reads a column. \<open>show_enum\<close> is \<open>String()\<close>, \<open>parse_enum\<close>
  the constructor.
\<close>

datatype sql_value = SqlNull | SqlText string | SqlBytes string | SqlOther

definition new_enum :: "'a list \<Rightarrow> ('a \<Rightarrow> string) \<Rightarrow> string \<Rightarrow> 'a option" where
  "new_enum vals shw s = find (\<lambda>x. shw x = to_upper s) vals"

definition enum_is_valid :: "'a list \<Rightarrow> ('a \<Rightarrow> string) \<Rightarrow> string \<Rightarrow> bool" where
  "enum_is_valid vals shw s = (to_upper s \<in> set (map shw vals))"

definition scan_enum :: "(string \<Rightarrow> 'a option) \<Rightarrow> sql_value \<Rightarrow> 'a option" where
  "scan_enum parse v = (case v of SqlText s \<Rightarrow> parse s | SqlBytes s \<Rightarrow> parse s | _ \<Rightarrow> None)"

locale string_enum =
  fixes show_enum :: "'a \<Rightarrow> string"
    and parse_enum :: "string \<Rightarrow> 'a option"
  assumes parse_show: "parse_enum (show_enum x) = Some x"
    and parse_fold: "parse_enum s = Some x \<Longrightarrow> to_upper s = show_enum x"
    and parse_case: "parse_enum (to_upper s) = parse_enum s"
begin

lemma show_inj: "show_enum x = show_enum y \<longleftrightarrow> x = y"
  by (metis option.inject parse_show)

lemma show_upper: "to_upper (show_enum x) = show_enum x"
  using parse_fold [OF parse_show] .

lemma parse_iff: "parse_enum s = Some x \<longleftrightarrow> to_upper s = show_enum x"
  by (metis parse_case parse_fold parse_show)

lemma parse_case_insensitive: "to_upper s = to_upper t \<Longrightarrow> parse_enum s = parse_enum t"
  by (metis parse_case)

lemma scan_show: "scan_enum parse_enum (SqlText (show_enum x)) = Some x"
  by (simp add: scan_enum_def parse_show)

end

lemma new_enum_Some: "new_enum vals shw s = Some x \<Longrightarrow> to_upper s = shw x"
  by (auto simp: new_enum_def find_Some_iff)

lemma new_enum_case: "new_enum vals shw (to_upper s) = new_enum vals shw s"
  by (simp add: new_enum_def)

lemma new_enum_None_iff: "new_enum vals shw s = None \<longleftrightarrow> \<not> enum_is_valid vals shw s"
  by (simp add: new_enum_def enum_is_valid_def find_None_iff image_iff) metis

end
