(* ===== verification/Contract_State.thy ===== *)
theory Contract_State
  imports Prelude
begin

text \<open>
  The contract lifecycle of
  \<open>backend/internal/contractworkflowengine/datatype/contractstate\<close>
  (\<open>contractstate.go\<close>, \<open>transition.go\<close>): the states and events, their spelling,
  the transition table and the four checks built on it. A locale states what any
  workflow table promises (closed, live from every state but the final ones);
  the contract table interprets it.
\<close>

section \<open>States\<close>

datatype contract_state =
    Draft | Offered | Rejected | Withdrawn | Negotiation | Submitted
  | Reviewed | Approved | Signed | Active | Revoked | Terminated | Expired

fun state_string :: "contract_state \<Rightarrow> string" where
  "state_string Draft = ''DRAFT''"
| "state_string Offered = ''OFFERED''"
| "state_string Rejected = ''REJECTED''"
| "state_string Withdrawn = ''WITHDRAWN''"
| "state_string Negotiation = ''NEGOTIATION''"
| "state_string Submitted = ''SUBMITTED''"
| "state_string Reviewed = ''REVIEWED''"
| "state_string Approved = ''APPROVED''"
| "state_string Signed = ''SIGNED''"
| "state_string Active = ''ACTIVE''"
| "state_string Revoked = ''REVOKED''"
| "state_string Terminated = ''TERMINATED''"
| "state_string Expired = ''EXPIRED''"

definition AllStates :: "contract_state list" where
  "AllStates = [Draft, Offered, Rejected, Withdrawn, Negotiation, Submitted,
     Reviewed, Approved, Signed, Active, Revoked, Terminated, Expired]"

definition NewContractState :: "string \<Rightarrow> contract_state option" where
  "NewContractState = new_enum AllStates state_string"

definition ContractState_IsValid :: "string \<Rightarrow> bool" where
  "ContractState_IsValid = enum_is_valid AllStates state_string"

definition ContractState_Scan :: "sql_value \<Rightarrow> contract_state option" where
  "ContractState_Scan = scan_enum NewContractState"

text \<open>\<open>Value()\<close> writes the string as it stands once it is valid in any case.\<close>

definition ContractState_Value :: "string \<Rightarrow> string option" where
  "ContractState_Value s = (if ContractState_IsValid s then Some s else None)"

section \<open>Events and the transition table\<close>

datatype contract_event =
    EventOffer | EventWithdraw | EventSubmit
  | EventNegotiate | EventAcceptNegotiation | EventRejectNegotiation
  | EventApprove | EventReject | EventTerminate | EventSign | EventDeploy
  | EventRevoke | EventUpdate

text \<open>\<open>Transitions\<close>: \<open>None\<close> is a missing key of the inner or the outer map.\<close>

definition Transitions :: "contract_state \<Rightarrow> contract_event \<Rightarrow> contract_state list option" where
  "Transitions from evt =
    (case from of
       Draft \<Rightarrow>
         (case evt of
            EventOffer \<Rightarrow> Some [Offered]
          | EventSubmit \<Rightarrow> Some [Negotiation]
          | EventUpdate \<Rightarrow> Some [Draft]
          | EventTerminate \<Rightarrow> Some [Terminated]
          | _ \<Rightarrow> None)
     | Rejected \<Rightarrow>
         (case evt of
            EventSubmit \<Rightarrow> Some [Negotiation]
          | EventTerminate \<Rightarrow> Some [Terminated]
          | _ \<Rightarrow> None)
     | Offered \<Rightarrow>
         (case evt of
            EventSubmit \<Rightarrow> Some [Negotiation]
          | EventNegotiate \<Rightarrow> Some [Negotiation]
          | EventWithdraw \<Rightarrow> Some [Withdrawn]
          | EventTerminate \<Rightarrow> Some [Terminated]
          | _ \<Rightarrow> None)
     | Negotiation \<Rightarrow>
         (case evt of
            EventSubmit \<Rightarrow> Some [Negotiation, Submitted]
          | EventWithdraw \<Rightarrow> Some [Withdrawn]
          | EventNegotiate \<Rightarrow> Some [Negotiation]
          | EventAcceptNegotiation \<Rightarrow> Some [Negotiation]
          | EventRejectNegotiation \<Rightarrow> Some [Negotiation]
          | EventTerminate \<Rightarrow> Some [Terminated]
          | _ \<Rightarrow> None)
     | Submitted \<Rightarrow>
         (case evt of
            EventSubmit \<Rightarrow> Some [Reviewed, Negotiation, Submitted]
          | EventWithdraw \<Rightarrow> Some [Withdrawn]
          | EventTerminate \<Rightarrow> Some [Terminated]
          | _ \<Rightarrow> None)
     | Reviewed \<Rightarrow>
         (case evt of
            EventSubmit \<Rightarrow> Some [Submitted]
          | EventApprove \<Rightarrow> Some [Approved]
          | EventReject \<Rightarrow> Some [Rejected]
          | EventWithdraw \<Rightarrow> Some [Withdrawn]
          | EventTerminate \<Rightarrow> Some [Terminated]
          | _ \<Rightarrow> None)
     | Approved \<Rightarrow>
         (case evt of
            EventSign \<Rightarrow> Some [Signed]
          | EventTerminate \<Rightarrow> Some [Terminated]
          | _ \<Rightarrow> None)
     | Signed \<Rightarrow>
         (case evt of
            EventSign \<Rightarrow> Some [Signed]
          | EventDeploy \<Rightarrow> Some [Active]
          | EventRevoke \<Rightarrow> Some [Revoked]
          | EventTerminate \<Rightarrow> Some [Terminated]
          | _ \<Rightarrow> None)
     | Active \<Rightarrow>
         (case evt of
            EventDeploy \<Rightarrow> Some [Active]
          | EventRevoke \<Rightarrow> Some [Revoked]
          | EventTerminate \<Rightarrow> Some [Terminated]
          | _ \<Rightarrow> None)
     | Revoked \<Rightarrow>
         (case evt of
            EventApprove \<Rightarrow> Some [Approved]
          | EventTerminate \<Rightarrow> Some [Terminated]
          | _ \<Rightarrow> None)
     | Withdrawn \<Rightarrow>
         (case evt of
            EventTerminate \<Rightarrow> Some [Terminated]
          | _ \<Rightarrow> None)
     | Expired \<Rightarrow>
         (case evt of
            EventTerminate \<Rightarrow> Some [Terminated]
          | _ \<Rightarrow> None)
     | Terminated \<Rightarrow> None)"

definition EventAllowed :: "contract_state \<Rightarrow> contract_event \<Rightarrow> bool" where
  "EventAllowed from evt = (case Transitions from evt of None \<Rightarrow> False | Some _ \<Rightarrow> True)"

definition IsAllowed :: "contract_state \<Rightarrow> contract_event \<Rightarrow> contract_state \<Rightarrow> bool" where
  "IsAllowed from evt to =
     (if from = to then True
      else case Transitions from evt of
             None \<Rightarrow> False
           | Some outcomes \<Rightarrow> list_ex (\<lambda>outcome. outcome = to) outcomes)"

datatype transition_error =
    ErrEvent contract_state contract_event
  | ErrOutcome contract_state contract_event contract_state

definition ValidateTransition :: "contract_state \<Rightarrow> contract_event \<Rightarrow> (transition_error, unit) result" where
  "ValidateTransition from evt =
     (if \<not> EventAllowed from evt then Inl (ErrEvent from evt) else Inr ())"

definition ValidateOutcome ::
    "contract_state \<Rightarrow> contract_event \<Rightarrow> contract_state \<Rightarrow> (transition_error, unit) result" where
  "ValidateOutcome from evt to =
     (if \<not> IsAllowed from evt to then Inl (ErrOutcome from evt to) else Inr ())"

section \<open>Basic facts\<close>

lemma AllStates_complete: "s \<in> set AllStates"
  by (cases s) (simp_all add: AllStates_def)

lemma NewContractState_state_string: "NewContractState (state_string s) = Some s"
  by (cases s)
    (simp_all add: NewContractState_def new_enum_def AllStates_def to_upper_def upper_char_def)

interpretation contract_state_enum: string_enum state_string NewContractState
proof unfold_locales
  show "NewContractState (state_string x) = Some x" for x
    by (rule NewContractState_state_string)
  show "to_upper s = state_string x" if "NewContractState s = Some x" for s x
    using that by (simp add: NewContractState_def new_enum_Some)
  show "NewContractState (to_upper s) = NewContractState s" for s
    by (simp add: NewContractState_def new_enum_case)
qed

lemma EventAllowed_iff: "EventAllowed from evt \<longleftrightarrow> Transitions from evt \<noteq> None"
  by (auto simp: EventAllowed_def split: option.splits)

lemma IsAllowed_iff:
  "IsAllowed from evt to \<longleftrightarrow>
     from = to \<or> (\<exists>outs. Transitions from evt = Some outs \<and> to \<in> set outs)"
  by (auto simp: IsAllowed_def list_ex_iff split: option.splits)

lemma ValidateTransition_Inr_iff [simp]: "ValidateTransition from evt = Inr u \<longleftrightarrow> EventAllowed from evt"
  by (simp add: ValidateTransition_def)

lemma ValidateOutcome_Inr_iff [simp]: "ValidateOutcome from evt to = Inr u \<longleftrightarrow> IsAllowed from evt to"
  by (simp add: ValidateOutcome_def)

lemma EventAllowed_from:
  "EventAllowed from EventOffer \<longleftrightarrow> from = Draft"
  "EventAllowed from EventUpdate \<longleftrightarrow> from = Draft"
  "EventAllowed from EventReject \<longleftrightarrow> from = Reviewed"
  "EventAllowed from EventApprove \<longleftrightarrow> from \<in> {Reviewed, Revoked}"
  "EventAllowed from EventWithdraw \<longleftrightarrow> from \<in> {Offered, Negotiation, Submitted, Reviewed}"
  "EventAllowed from EventNegotiate \<longleftrightarrow> from \<in> {Offered, Negotiation}"
  "EventAllowed from EventAcceptNegotiation \<longleftrightarrow> from = Negotiation"
  "EventAllowed from EventRejectNegotiation \<longleftrightarrow> from = Negotiation"
  "EventAllowed from EventSign \<longleftrightarrow> from \<in> {Approved, Signed}"
  "EventAllowed from EventDeploy \<longleftrightarrow> from \<in> {Signed, Active}"
  "EventAllowed from EventRevoke \<longleftrightarrow> from \<in> {Signed, Active}"
  "EventAllowed from EventTerminate \<longleftrightarrow> from \<noteq> Terminated"
  "EventAllowed from EventSubmit \<longleftrightarrow>
     from \<in> {Draft, Offered, Rejected, Negotiation, Submitted, Reviewed}"
  by (cases "from"; simp add: EventAllowed_def Transitions_def)+

section \<open>Workflow tables\<close>

text \<open>
  What a component that drives a resource through a transition table relies on:
  every declared outcome list is non-empty, a final state declares no event, and
  every other state can be left for a final one.
\<close>

locale workflow_table =
  fixes table :: "'s \<Rightarrow> 'e \<Rightarrow> 's list option"
    and final :: "'s \<Rightarrow> bool"
  assumes outcomes_nonempty: "table s e = Some outs \<Longrightarrow> outs \<noteq> []"
    and final_stuck: "final s \<Longrightarrow> table s e = None"
    and exit_event: "\<not> final s \<Longrightarrow> \<exists>e outs t. table s e = Some outs \<and> t \<in> set outs \<and> final t"
begin

definition step :: "'s \<Rightarrow> 's \<Rightarrow> bool" where
  "step s t \<longleftrightarrow> (\<exists>e outs. table s e = Some outs \<and> t \<in> set outs)"

lemma step_not_final: "step s t \<Longrightarrow> \<not> final s"
  using final_stuck by (fastforce simp: step_def)

lemma final_absorbing: "step\<^sup>*\<^sup>* s t \<Longrightarrow> final s \<Longrightarrow> t = s"
  by (induction rule: converse_rtranclp_induct) (auto dest: step_not_final)

lemma always_terminable: "\<exists>t. final t \<and> step\<^sup>*\<^sup>* s t"
proof (cases "final s")
  case True
  then show ?thesis by blast
next
  case False
  from exit_event [OF False] obtain t where "step s t" and "final t"
    by (auto simp: step_def)
  then show ?thesis by blast
qed

lemma step_reachable_closed:
  assumes closed: "\<And>s t. P s \<Longrightarrow> step s t \<Longrightarrow> P t"
  shows "step\<^sup>*\<^sup>* s t \<Longrightarrow> P s \<Longrightarrow> P t"
  by (induction rule: rtranclp_induct) (auto dest: closed)

end

interpretation contract_table: workflow_table Transitions "\<lambda>s. s = Terminated"
proof unfold_locales
  show "outs \<noteq> []" if "Transitions s e = Some outs" for s e outs
    using that by (cases s; cases e) (auto simp: Transitions_def)
  show "Transitions s e = None" if "s = Terminated" for s e
    using that by (simp add: Transitions_def)
  show "\<exists>e outs t. Transitions s e = Some outs \<and> t \<in> set outs \<and> t = Terminated"
    if "s \<noteq> Terminated" for s
    using that by (cases s) (auto simp: Transitions_def intro!: exI [of _ EventTerminate])
qed

text \<open>One workflow step of a contract: an event and one of its declared outcomes.\<close>

definition contract_step :: "contract_state \<Rightarrow> contract_state \<Rightarrow> bool" where
  "contract_step s t = (\<exists>e outs. Transitions s e = Some outs \<and> t \<in> set outs)"

lemma contract_step_eq: "contract_step = contract_table.step"
  by (intro ext) (simp add: contract_step_def contract_table.step_def)

lemma contract_step_cases:
  "contract_step s t \<longleftrightarrow>
    (case s of
       Draft \<Rightarrow> t \<in> {Offered, Negotiation, Draft, Terminated}
     | Offered \<Rightarrow> t \<in> {Negotiation, Withdrawn, Terminated}
     | Rejected \<Rightarrow> t \<in> {Negotiation, Terminated}
     | Withdrawn \<Rightarrow> t = Terminated
     | Negotiation \<Rightarrow> t \<in> {Negotiation, Submitted, Withdrawn, Terminated}
     | Submitted \<Rightarrow> t \<in> {Reviewed, Negotiation, Submitted, Withdrawn, Terminated}
     | Reviewed \<Rightarrow> t \<in> {Submitted, Approved, Rejected, Withdrawn, Terminated}
     | Approved \<Rightarrow> t \<in> {Signed, Terminated}
     | Signed \<Rightarrow> t \<in> {Signed, Active, Revoked, Terminated}
     | Active \<Rightarrow> t \<in> {Active, Revoked, Terminated}
     | Revoked \<Rightarrow> t \<in> {Approved, Terminated}
     | Terminated \<Rightarrow> False
     | Expired \<Rightarrow> t = Terminated)" (is "_ \<longleftrightarrow> ?cases s t")
proof
  assume "contract_step s t"
  then obtain e outs where "Transitions s e = Some outs" "t \<in> set outs"
    by (auto simp: contract_step_def)
  then show "?cases s t"
    by (cases s; cases e) (auto simp: Transitions_def)
next
  assume c: "?cases s t"
  have "\<exists>e\<in>{EventTerminate, EventSubmit, EventWithdraw, EventOffer, EventUpdate, EventApprove,
      EventReject, EventSign, EventDeploy, EventRevoke}.
      case Transitions s e of None \<Rightarrow> False | Some outs \<Rightarrow> t \<in> set outs"
    using c by (cases s; simp only: contract_state.case Transitions_def; simp; blast?)
  then obtain e where "case Transitions s e of None \<Rightarrow> False | Some outs \<Rightarrow> t \<in> set outs"
    by (rule bexE)
  then show "contract_step s t"
    by (cases "Transitions s e") (auto simp: contract_step_def)
qed

lemma IsAllowed_step: "IsAllowed s e t \<Longrightarrow> s = t \<or> contract_step s t"
  by (auto simp: IsAllowed_iff contract_step_def)

section \<open>Properties\<close>

text \<open>
  The transition table has one end and no trap.  From every state some sequence of
  declared transitions leads to TERMINATED, and TERMINATED has no way out.
\<close>

theorem table_terminates:
  "contract_step\<^sup>*\<^sup>* s Terminated \<and> (contract_step\<^sup>*\<^sup>* Terminated t \<longleftrightarrow> t = Terminated)"
proof -
  have "contract_step\<^sup>*\<^sup>* s Terminated"
    using contract_table.always_terminable [of s] by (simp add: contract_step_eq)
  then show ?thesis
    using contract_table.final_absorbing [of Terminated t] by (auto simp: contract_step_eq)
qed

text \<open>
  No signature without approval, no deployment without signature.  Along declared
  transitions a contract that starts as a draft is SIGNED, ACTIVE or REVOKED only
  after it was APPROVED, and ACTIVE or REVOKED only after it was SIGNED: a path that
  avoids APPROVED (SIGNED) never gets there.
\<close>

theorem table_needs_approval_and_signature:
  "((\<lambda>a b. contract_step a b \<and> b \<noteq> Approved)\<^sup>*\<^sup>* Draft t \<longrightarrow> t \<notin> {Approved, Signed, Active, Revoked})
   \<and> ((\<lambda>a b. contract_step a b \<and> b \<noteq> Signed)\<^sup>*\<^sup>* Draft t \<longrightarrow> t \<notin> {Signed, Active, Revoked})"
proof (intro conjI impI)
  assume "(\<lambda>a b. contract_step a b \<and> b \<noteq> Approved)\<^sup>*\<^sup>* Draft t"
  then show "t \<notin> {Approved, Signed, Active, Revoked}"
    by induction (auto simp: contract_step_cases split: contract_state.split_asm)
next
  assume "(\<lambda>a b. contract_step a b \<and> b \<noteq> Signed)\<^sup>*\<^sup>* Draft t"
  then show "t \<notin> {Signed, Active, Revoked}"
    by induction (auto simp: contract_step_cases split: contract_state.split_asm)
qed

theorem table_needs_approval_and_signature_witness:
  "(\<lambda>a b. contract_step a b \<and> b \<noteq> Approved)\<^sup>*\<^sup>* Draft Submitted
   \<and> Submitted \<notin> {Approved, Signed, Active, Revoked}"
proof -
  have "(\<lambda>a b. contract_step a b \<and> b \<noteq> Approved)\<^sup>*\<^sup>* Draft Submitted"
    by (rule rtranclp.rtrancl_into_rtrancl [OF r_into_rtranclp, of _ _ Negotiation])
       (simp_all add: contract_step_cases)
  with table_needs_approval_and_signature [of Submitted] show ?thesis by blast
qed

text \<open>
  the table decides.  A transition is refused with an error exactly when the table
  does not declare it: the event check passes exactly for the declared events of the
  state, the outcome check exactly for the declared outcomes and for staying put, and
  every declared event has a declared outcome.
\<close>

theorem table_decides:
  "(ValidateTransition s evt = Inr () \<longleftrightarrow> (\<exists>outs. Transitions s evt = Some outs \<and> outs \<noteq> []))
   \<and> (ValidateTransition s evt \<noteq> Inr () \<longleftrightarrow> ValidateTransition s evt = Inl (ErrEvent s evt))
   \<and> (ValidateOutcome s evt t = Inr () \<longleftrightarrow> s = t \<or> (\<exists>outs. Transitions s evt = Some outs \<and> t \<in> set outs))"
  using contract_table.outcomes_nonempty [of s evt]
  by (auto simp: EventAllowed_iff IsAllowed_iff ValidateTransition_def)

text \<open>
  states survive their text form.  Parsing is insensitive to case and gives a state
  exactly for the spellings of its name, a stored state is read back as itself, and
  a text that is accepted for storage is one that parses.
\<close>

theorem state_text_roundtrip:
  "(NewContractState text = Some s \<longleftrightarrow> to_upper text = state_string s)
   \<and> ContractState_Scan (SqlText (state_string s)) = Some s
   \<and> (ContractState_Value text \<noteq> None \<longleftrightarrow> (\<exists>s. NewContractState text = Some s))"
proof (intro conjI)
  show "NewContractState text = Some s \<longleftrightarrow> to_upper text = state_string s"
    by (rule contract_state_enum.parse_iff)
  show "ContractState_Scan (SqlText (state_string s)) = Some s"
    by (simp add: ContractState_Scan_def contract_state_enum.scan_show)
  show "ContractState_Value text \<noteq> None \<longleftrightarrow> (\<exists>s. NewContractState text = Some s)"
    unfolding not_None_eq [symmetric] NewContractState_def new_enum_None_iff
    by (simp add: ContractState_Value_def ContractState_IsValid_def)
qed

end
