(* ===== verification/Task_State.thy ===== *)
theory Task_State
  imports Prelude
begin

text \<open>
  The small string enums of the contract workflow engine
  (\<open>backend/internal/contractworkflowengine/datatype\<close>: \<open>actionflag\<close>,
  \<open>approvaltaskstate\<close>, \<open>reviewtaskstate\<close>, \<open>negotiationtaskstate\<close>,
  \<open>negotiationactionflag\<close>, \<open>expirationpolicy\<close>). Every one interprets the
  enum interface of the prelude, so parsing, printing and column scans agree.
\<close>

section \<open>\<open>action_flag\<close>\<close>

datatype action_flag = AfApproval | AfReject

fun action_flag_string :: "action_flag \<Rightarrow> string" where
  "action_flag_string AfApproval = ''APPROVAL''"
| "action_flag_string AfReject = ''REJECT''"

definition action_flag_valid :: "action_flag list" where
  "action_flag_valid = [AfApproval, AfReject]"

definition NewActionFlag :: "string \<Rightarrow> action_flag option" where
  "NewActionFlag = new_enum action_flag_valid action_flag_string"

definition action_flag_IsValid :: "string \<Rightarrow> bool" where
  "action_flag_IsValid = enum_is_valid action_flag_valid action_flag_string"

interpretation action_flag_enum: string_enum action_flag_string NewActionFlag
proof unfold_locales
  show "NewActionFlag (action_flag_string x) = Some x" for x
    by (cases x)
      (simp_all add: NewActionFlag_def new_enum_def action_flag_valid_def to_upper_def upper_char_def)
  show "to_upper s = action_flag_string x" if "NewActionFlag s = Some x" for s x
    using that by (simp add: NewActionFlag_def new_enum_Some)
  show "NewActionFlag (to_upper s) = NewActionFlag s" for s
    by (simp add: NewActionFlag_def new_enum_case)
qed

section \<open>\<open>approval_task_state\<close>\<close>

datatype approval_task_state = AtOpen | AtRejected | AtApproved

fun approval_task_state_string :: "approval_task_state \<Rightarrow> string" where
  "approval_task_state_string AtOpen = ''OPEN''"
| "approval_task_state_string AtRejected = ''REJECTED''"
| "approval_task_state_string AtApproved = ''APPROVED''"

definition approval_task_state_valid :: "approval_task_state list" where
  "approval_task_state_valid = [AtOpen, AtRejected, AtApproved]"

definition NewApprovalTaskState :: "string \<Rightarrow> approval_task_state option" where
  "NewApprovalTaskState = new_enum approval_task_state_valid approval_task_state_string"

definition approval_task_state_IsValid :: "string \<Rightarrow> bool" where
  "approval_task_state_IsValid = enum_is_valid approval_task_state_valid approval_task_state_string"

definition approval_task_state_Scan :: "sql_value \<Rightarrow> approval_task_state option" where
  "approval_task_state_Scan = scan_enum NewApprovalTaskState"

definition approval_task_state_Value :: "string \<Rightarrow> string option" where
  "approval_task_state_Value s = (if approval_task_state_IsValid s then Some s else None)"

interpretation approval_task_state_enum: string_enum approval_task_state_string NewApprovalTaskState
proof unfold_locales
  show "NewApprovalTaskState (approval_task_state_string x) = Some x" for x
    by (cases x)
      (simp_all add: NewApprovalTaskState_def new_enum_def approval_task_state_valid_def to_upper_def upper_char_def)
  show "to_upper s = approval_task_state_string x" if "NewApprovalTaskState s = Some x" for s x
    using that by (simp add: NewApprovalTaskState_def new_enum_Some)
  show "NewApprovalTaskState (to_upper s) = NewApprovalTaskState s" for s
    by (simp add: NewApprovalTaskState_def new_enum_case)
qed

section \<open>\<open>review_task_state\<close>\<close>

datatype review_task_state = RtOpen | RtRejected | RtApproved

fun review_task_state_string :: "review_task_state \<Rightarrow> string" where
  "review_task_state_string RtOpen = ''OPEN''"
| "review_task_state_string RtRejected = ''REJECTED''"
| "review_task_state_string RtApproved = ''APPROVED''"

definition review_task_state_valid :: "review_task_state list" where
  "review_task_state_valid = [RtOpen, RtRejected, RtApproved]"

definition NewReviewTaskState :: "string \<Rightarrow> review_task_state option" where
  "NewReviewTaskState = new_enum review_task_state_valid review_task_state_string"

definition review_task_state_IsValid :: "string \<Rightarrow> bool" where
  "review_task_state_IsValid = enum_is_valid review_task_state_valid review_task_state_string"

definition review_task_state_Scan :: "sql_value \<Rightarrow> review_task_state option" where
  "review_task_state_Scan = scan_enum NewReviewTaskState"

definition review_task_state_Value :: "string \<Rightarrow> string option" where
  "review_task_state_Value s = (if review_task_state_IsValid s then Some s else None)"

interpretation review_task_state_enum: string_enum review_task_state_string NewReviewTaskState
proof unfold_locales
  show "NewReviewTaskState (review_task_state_string x) = Some x" for x
    by (cases x)
      (simp_all add: NewReviewTaskState_def new_enum_def review_task_state_valid_def to_upper_def upper_char_def)
  show "to_upper s = review_task_state_string x" if "NewReviewTaskState s = Some x" for s x
    using that by (simp add: NewReviewTaskState_def new_enum_Some)
  show "NewReviewTaskState (to_upper s) = NewReviewTaskState s" for s
    by (simp add: NewReviewTaskState_def new_enum_case)
qed

section \<open>\<open>negotiation_task_state\<close>\<close>

datatype negotiation_task_state = NtOpen | NtAccepted

fun negotiation_task_state_string :: "negotiation_task_state \<Rightarrow> string" where
  "negotiation_task_state_string NtOpen = ''OPEN''"
| "negotiation_task_state_string NtAccepted = ''ACCEPTED''"

definition negotiation_task_state_valid :: "negotiation_task_state list" where
  "negotiation_task_state_valid = [NtOpen, NtAccepted]"

definition NewNegotiationTaskState :: "string \<Rightarrow> negotiation_task_state option" where
  "NewNegotiationTaskState = new_enum negotiation_task_state_valid negotiation_task_state_string"

definition negotiation_task_state_IsValid :: "string \<Rightarrow> bool" where
  "negotiation_task_state_IsValid = enum_is_valid negotiation_task_state_valid negotiation_task_state_string"

definition negotiation_task_state_Scan :: "sql_value \<Rightarrow> negotiation_task_state option" where
  "negotiation_task_state_Scan = scan_enum NewNegotiationTaskState"

definition negotiation_task_state_Value :: "string \<Rightarrow> string option" where
  "negotiation_task_state_Value s = (if negotiation_task_state_IsValid s then Some s else None)"

interpretation negotiation_task_state_enum: string_enum negotiation_task_state_string NewNegotiationTaskState
proof unfold_locales
  show "NewNegotiationTaskState (negotiation_task_state_string x) = Some x" for x
    by (cases x)
      (simp_all add: NewNegotiationTaskState_def new_enum_def negotiation_task_state_valid_def to_upper_def upper_char_def)
  show "to_upper s = negotiation_task_state_string x" if "NewNegotiationTaskState s = Some x" for s x
    using that by (simp add: NewNegotiationTaskState_def new_enum_Some)
  show "NewNegotiationTaskState (to_upper s) = NewNegotiationTaskState s" for s
    by (simp add: NewNegotiationTaskState_def new_enum_case)
qed

section \<open>\<open>negotiation_action_flag\<close>\<close>

datatype negotiation_action_flag = NaAccepting | NaRejecting

fun negotiation_action_flag_string :: "negotiation_action_flag \<Rightarrow> string" where
  "negotiation_action_flag_string NaAccepting = ''ACCEPTING''"
| "negotiation_action_flag_string NaRejecting = ''REJECTING''"

definition negotiation_action_flag_valid :: "negotiation_action_flag list" where
  "negotiation_action_flag_valid = [NaAccepting, NaRejecting]"

definition NewNegotiationActionFlag :: "string \<Rightarrow> negotiation_action_flag option" where
  "NewNegotiationActionFlag = new_enum negotiation_action_flag_valid negotiation_action_flag_string"

definition negotiation_action_flag_IsValid :: "string \<Rightarrow> bool" where
  "negotiation_action_flag_IsValid = enum_is_valid negotiation_action_flag_valid negotiation_action_flag_string"

interpretation negotiation_action_flag_enum: string_enum negotiation_action_flag_string NewNegotiationActionFlag
proof unfold_locales
  show "NewNegotiationActionFlag (negotiation_action_flag_string x) = Some x" for x
    by (cases x)
      (simp_all add: NewNegotiationActionFlag_def new_enum_def negotiation_action_flag_valid_def to_upper_def upper_char_def)
  show "to_upper s = negotiation_action_flag_string x" if "NewNegotiationActionFlag s = Some x" for s x
    using that by (simp add: NewNegotiationActionFlag_def new_enum_Some)
  show "NewNegotiationActionFlag (to_upper s) = NewNegotiationActionFlag s" for s
    by (simp add: NewNegotiationActionFlag_def new_enum_case)
qed

section \<open>\<open>expiration_policy\<close>\<close>

datatype expiration_policy = EpRenewal | EpTermination | EpArchiving

fun expiration_policy_string :: "expiration_policy \<Rightarrow> string" where
  "expiration_policy_string EpRenewal = ''RENEWAL''"
| "expiration_policy_string EpTermination = ''TERMINATION''"
| "expiration_policy_string EpArchiving = ''ARCHIVING''"

definition expiration_policy_valid :: "expiration_policy list" where
  "expiration_policy_valid = [EpRenewal, EpTermination, EpArchiving]"

definition NewExpirationPolicy :: "string \<Rightarrow> expiration_policy option" where
  "NewExpirationPolicy = new_enum expiration_policy_valid expiration_policy_string"

definition expiration_policy_IsValid :: "string \<Rightarrow> bool" where
  "expiration_policy_IsValid = enum_is_valid expiration_policy_valid expiration_policy_string"

interpretation expiration_policy_enum: string_enum expiration_policy_string NewExpirationPolicy
proof unfold_locales
  show "NewExpirationPolicy (expiration_policy_string x) = Some x" for x
    by (cases x)
      (simp_all add: NewExpirationPolicy_def new_enum_def expiration_policy_valid_def to_upper_def upper_char_def)
  show "to_upper s = expiration_policy_string x" if "NewExpirationPolicy s = Some x" for s x
    using that by (simp add: NewExpirationPolicy_def new_enum_Some)
  show "NewExpirationPolicy (to_upper s) = NewExpirationPolicy s" for s
    by (simp add: NewExpirationPolicy_def new_enum_case)
qed

end
