(* ===== verification/Json_Value.thy ===== *)
theory Json_Value
  imports Prelude "HOL-Library.AList"
begin

text \<open>
  JSON documents as the backend handles them: \<open>datatype.JSON\<close>
  (\<open>backend/internal/base/datatype/jsontype.go\<close>) after decoding.  An object is an
  association list, read like a Go map (\<open>obj_get\<close>) and written like one
  (\<open>obj_set\<close>); a number keeps its literal.  A value of Go type \<open>*datatype.JSON\<close> is
  a \<open>json option\<close>: \<open>None\<close> stands for a nil pointer, an empty raw message and a raw
  message that does not decode, which \<open>IsNotNullValue\<close> treats alike.
  Resource identifiers (\<open>backend/internal/base/resourceiri.go\<close>) and the audit filter
  on event names (\<open>auditfilter.go\<close>) are here as well.
\<close>

datatype json =
    JNull | JBool bool | JNum string | JStr string
  | JArr "json list" | JObj "(string \<times> json) list"

type_synonym json_map = "(string \<times> json) list"

definition IsNotNullValue :: "json option \<Rightarrow> bool" where
  "IsNotNullValue j = (case j of None \<Rightarrow> False | Some v \<Rightarrow> v \<noteq> JNull)"

definition obj_get :: "json_map \<Rightarrow> string \<Rightarrow> json option" where
  "obj_get o' k = map_of o' k"

definition obj_set :: "json_map \<Rightarrow> string \<Rightarrow> json \<Rightarrow> json_map" where
  "obj_set o' k v = AList.update k v o'"

text \<open>The comma-ok assertions of the source: \<open>x, _ := v.(string)\<close> and its like.\<close>

definition jstr :: "json option \<Rightarrow> string" where
  "jstr v = (case v of Some (JStr s) \<Rightarrow> s | _ \<Rightarrow> '''')"

definition jarr :: "json option \<Rightarrow> json list" where
  "jarr v = (case v of Some (JArr xs) \<Rightarrow> xs | _ \<Rightarrow> [])"

definition jmap :: "json \<Rightarrow> json_map option" where
  "jmap v = (case v of JObj m \<Rightarrow> Some m | _ \<Rightarrow> None)"

text \<open>
  \<open>json.Unmarshal\<close> into a \<open>map[string]any\<close>: JSON \<open>null\<close> leaves the map nil (the
  inner \<open>None\<close>), anything but an object is an error.
\<close>

definition decode_map :: "json \<Rightarrow> json_map option option" where
  "decode_map v = (case v of JObj m \<Rightarrow> Some (Some m) | JNull \<Rightarrow> Some None | _ \<Rightarrow> None)"

text \<open>The string under a key of a node, empty when the node is no object.\<close>

definition node_str :: "string \<Rightarrow> json \<Rightarrow> string" where
  "node_str k v = (case v of JObj m \<Rightarrow> jstr (obj_get m k) | _ \<Rightarrow> '''')"

lemma obj_get_set [simp]: "obj_get (obj_set m k v) k' = (if k' = k then Some v else obj_get m k')"
  by (simp add: obj_get_def obj_set_def update_conv')

lemma jarr_JArr [simp]: "jarr (Some (JArr xs)) = xs"
  by (simp add: jarr_def)

lemma jstr_JStr [simp]: "jstr (Some (JStr s)) = s" "jstr None = ''''"
  by (simp_all add: jstr_def)

lemma node_str_JObj [simp]: "node_str k (JObj m) = jstr (obj_get m k)"
  by (simp add: node_str_def)

lemma IsNotNullValue_simps [simp]:
  "IsNotNullValue None = False"
  "IsNotNullValue (Some v) \<longleftrightarrow> v \<noteq> JNull"
  by (simp_all add: IsNotNullValue_def)

section \<open>Resource identifiers\<close>

definition is_absolute_key :: "string \<Rightarrow> bool" where
  "is_absolute_key key =
    (contains_str key ''://'' \<or> has_prefix key ''did:'' \<or> has_prefix key ''urn:'')"

definition ResourceIRI :: "string \<Rightarrow> string \<Rightarrow> string \<Rightarrow> string" where
  "ResourceIRI publicURL kind key =
    (if is_absolute_key key then key
     else trim_right_char (CHR ''/'') (trim_space publicURL) @ ''/'' @ kind @ ''/'' @ key)"

definition after_last_slash :: "string \<Rightarrow> string" where
  "after_last_slash s = rev (takeWhile (\<lambda>c. c \<noteq> CHR ''/'') (rev s))"

definition ResourceKey :: "string \<Rightarrow> string" where
  "ResourceKey iri =
    (if \<not> contains_str iri ''://'' \<and> \<not> has_prefix iri ''/'' then iri
     else after_last_slash (trim_right_char (CHR ''/'') iri))"

text \<open>\<open>IsAuditVisibleEventType\<close>.\<close>

definition IsAuditVisibleEventType :: "string \<Rightarrow> bool" where
  "IsAuditVisibleEventType eventType =
    (let normalized = to_upper (trim_space eventType)
     in normalized = '''' \<or>
        (\<not> has_prefix normalized ''RETRIEVE_'' \<and> \<not> has_prefix normalized ''SEARCH_''))"

lemma after_last_slash_append:
  "CHR ''/'' \<notin> set key \<Longrightarrow> after_last_slash (p @ CHR ''/'' # key) = key"
proof -
  assume "CHR ''/'' \<notin> set key"
  then have "takeWhile (\<lambda>c. c \<noteq> CHR ''/'') (rev key @ CHR ''/'' # rev p) = rev key"
    by (subst takeWhile_append2) auto
  then show ?thesis by (simp add: after_last_slash_def)
qed

lemma contains_str_append: "contains_str s p \<Longrightarrow> contains_str (s @ t) p"
proof (induction s)
  case Nil
  then show ?case by (cases t) (auto simp: has_prefix_iff)
next
  case (Cons c s)
  have "has_prefix (c # s @ t) p" if "has_prefix (c # s) p"
    using that unfolding has_prefix_iff by (metis append_Cons append_assoc)
  with Cons show ?case by auto
qed

lemma trim_right_char_noop: "s = [] \<or> last s \<noteq> c \<Longrightarrow> trim_right_char c s = s"
  by (cases s rule: rev_cases) (simp_all add: trim_right_char_def)

lemma trim_right_char_last: "trim_right_char c s = [] \<or> last (trim_right_char c s) \<noteq> c"
proof (cases "rev (trim_right_char c s)")
  case (Cons a as)
  then have "dropWhile (\<lambda>x. x = c) (rev s) = a # as" by (simp add: trim_right_char_def)
  then have "a \<noteq> c" using hd_dropWhile [of "\<lambda>x. x = c" "rev s"] by force
  with Cons show ?thesis by (metis last_rev list.sel(1) rev_rev_ident)
qed simp

text \<open>
  A resource identity is reversible.  For a bare key (not an identifier of its
  own, no slash) the key read back from the identity that \<open>ResourceIRI\<close> builds is
  the key it was built from, whatever the public origin of the instance is, as
  long as that origin is unset or an absolute URL.
\<close>

theorem ResourceKey_ResourceIRI:
  assumes "\<not> is_absolute_key key" "key \<noteq> ''''" "CHR ''/'' \<notin> set key"
    and "origin = trim_right_char (CHR ''/'') (trim_space publicURL)"
    and "origin = '''' \<or> contains_str origin ''://''"
  shows "ResourceKey (ResourceIRI publicURL kind key) = key"
proof -
  let ?iri = "origin @ ''/'' @ kind @ ''/'' @ key"
  have iri: "ResourceIRI publicURL kind key = ?iri"
    using assms(1,4) by (simp add: ResourceIRI_def)
  have "contains_str ?iri ''://'' \<or> has_prefix ?iri ''/''"
    using assms(5) contains_str_append by (auto simp: has_prefix_iff)
  moreover have "trim_right_char (CHR ''/'') ?iri = ?iri"
    using assms(2,3) by (intro trim_right_char_noop) (auto simp: last_append dest: last_in_set)
  moreover have "after_last_slash ?iri = key"
    using after_last_slash_append [OF assms(3), of "origin @ ''/'' @ kind"] by simp
  ultimately show ?thesis unfolding iri ResourceKey_def by auto
qed

theorem ResourceKey_ResourceIRI_witness:
  "ResourceKey (ResourceIRI ''https://dcs.example/'' ''contract'' ''c-1'') = ''c-1''"
  by (rule ResourceKey_ResourceIRI [of "''c-1''" "''https://dcs.example''"])
     (simp_all add: is_absolute_key_def trim_right_char_def trim_space_def is_space_def)

end
