(* ===== verification/Contract_Document.thy ===== *)
theory Contract_Document
  imports Json_Value
begin

text \<open>
  The functions that read and extend the JSON-LD contract document:
  the declared signature fields (\<open>base/validation/signaturefields.go\<close>), the seeding of
  party nodes and signature fields (\<open>command/create.go\<close>, \<open>command/negotiate.go\<close>), the
  binding of the originator, the pending rule targets, and the reference to a
  parent contract (\<open>command/update.go\<close>).  The truncated SHA-256 in the identifier of
  a seeded field is the argument \<open>digest8\<close>, the \<open>%s\<close> verb of package \<open>fmt\<close> on a decoded
  value the argument \<open>fmt_s\<close>, and the absolute-URI test of package \<open>net/url\<close> the
  argument \<open>is_abs\<close>.
\<close>

datatype doc_error = DocDecode | DocNilMap | InvalidOriginatorRole

text \<open>
  A document that is to be changed: decoding fails unless it is an object or
  \<open>null\<close>; writing into the nil map that \<open>null\<close> decodes to panics.
\<close>

definition write_map :: "json_map option \<Rightarrow> string \<Rightarrow> json \<Rightarrow> (doc_error, json) result" where
  "write_map doc k v = (case doc of None \<Rightarrow> Inl DocNilMap | Some m \<Rightarrow> Inr (JObj (obj_set m k v)))"

definition doc_get :: "json_map option \<Rightarrow> string \<Rightarrow> json option" where
  "doc_get doc k = (case doc of None \<Rightarrow> None | Some m \<Rightarrow> obj_get m k)"

section \<open>Declared signature fields\<close>

definition first_array :: "json_map option \<Rightarrow> string \<Rightarrow> string \<Rightarrow> json list" where
  "first_array doc k k' =
    (case doc_get doc k of Some (JArr xs) \<Rightarrow> xs | _ \<Rightarrow> jarr (doc_get doc k'))"

definition either_str :: "string \<Rightarrow> string \<Rightarrow> json \<Rightarrow> string" where
  "either_str k k' node = (let s = node_str k node in if s = '''' then node_str k' node else s)"

definition field_name :: "json \<Rightarrow> string" where
  "field_name node = trim_space (either_str ''dcs:signatoryName'' ''signatoryName'' node)"

definition is_node :: "json \<Rightarrow> bool" where
  "is_node v = (case v of JObj _ \<Rightarrow> True | _ \<Rightarrow> False)"

fun field_names_loop :: "string list \<Rightarrow> json list \<Rightarrow> string list" where
  "field_names_loop seen [] = []"
| "field_names_loop seen (item # rest) =
     (if \<not> is_node item then field_names_loop seen rest
      else (let name = field_name item
            in if name = '''' \<or> name \<in> set seen then field_names_loop seen rest
               else name # field_names_loop (name # seen) rest))"

definition RequiredSignatureFields :: "json \<Rightarrow> string list" where
  "RequiredSignatureFields contractData =
    (case decode_map contractData of
       None \<Rightarrow> []
     | Some doc \<Rightarrow> field_names_loop [] (first_array doc ''dcs:signatureFields'' ''signatureFields''))"

fun credential_loop :: "string \<Rightarrow> json list \<Rightarrow> string" where
  "credential_loop field [] = ''AES''"
| "credential_loop field (item # rest) =
     (if \<not> is_node item \<or> field_name item \<noteq> field then credential_loop field rest
      else (let level = to_upper (trim_space
                  (either_str ''dcs:requiredCredentialType'' ''requiredCredentialType'' item))
            in if level = '''' then ''AES'' else level))"

definition RequiredCredentialType :: "json \<Rightarrow> string \<Rightarrow> string" where
  "RequiredCredentialType contractData field =
    (case decode_map contractData of
       None \<Rightarrow> ''AES''
     | Some doc \<Rightarrow>
         credential_loop field (first_array doc ''dcs:signatureFields'' ''signatureFields''))"

section \<open>Seeding\<close>

definition signature_field :: "(string \<Rightarrow> string) \<Rightarrow> string \<Rightarrow> string \<Rightarrow> json" where
  "signature_field digest8 docID did =
    JObj [(''@id'', JStr (docID @ ''#signature-field-'' @ digest8 did)),
          (''@type'', JStr ''dcs:SignatureField''),
          (''dcs:signatoryName'', JStr did)]"

fun seed_fields_loop ::
  "(string \<Rightarrow> string) \<Rightarrow> string \<Rightarrow> string list \<Rightarrow> json list \<Rightarrow> string list \<Rightarrow> json list" where
  "seed_fields_loop digest8 docID present fields [] = fields"
| "seed_fields_loop digest8 docID present fields (did # dids) =
     (if did \<in> set present then seed_fields_loop digest8 docID present fields dids
      else seed_fields_loop digest8 docID (did # present)
             (fields @ [signature_field digest8 docID did]) dids)"

definition SeedSignatureFields ::
  "(string \<Rightarrow> string) \<Rightarrow> json \<Rightarrow> string list \<Rightarrow> (doc_error, json \<times> bool) result" where
  "SeedSignatureFields digest8 raw instanceDIDs =
    (case decode_map raw of
       None \<Rightarrow> Inl DocDecode
     | Some doc \<Rightarrow>
         if jarr (doc_get doc ''dcs:signatureFields'') \<noteq> [] then Inr (raw, False)
         else (let fields = seed_fields_loop digest8 (jstr (doc_get doc ''@id'')) [] [] instanceDIDs
               in if fields = [] then Inr (raw, False)
                  else bind_res (write_map doc ''dcs:signatureFields'' (JArr fields))
                         (\<lambda>d. Inr (d, True))))"

definition declared_iris :: "json list \<Rightarrow> string list" where
  "declared_iris nodes = filter (\<lambda>iri. iri \<noteq> '''') (map (node_str ''@id'') nodes)"

definition party_node :: "string \<Rightarrow> json" where
  "party_node did = JObj [(''@id'', JStr did), (''@type'', JStr ''dcs:CompanyParty'')]"

fun seed_parties_loop :: "string list \<Rightarrow> json list \<Rightarrow> string list \<Rightarrow> json list" where
  "seed_parties_loop declared nodes [] = nodes"
| "seed_parties_loop declared nodes (did # dids) =
     (if did = '''' \<or> did \<in> set declared then seed_parties_loop declared nodes dids
      else seed_parties_loop (did # declared) (nodes @ [party_node did]) dids)"

definition SeedContractParties ::
  "json \<Rightarrow> string list \<Rightarrow> (doc_error, json \<times> bool) result" where
  "SeedContractParties raw partyDIDs =
    (case decode_map raw of
       None \<Rightarrow> Inl DocDecode
     | Some doc \<Rightarrow>
         (let nodes = jarr (doc_get doc ''dcs:parties'');
              nodes' = seed_parties_loop (declared_iris nodes) nodes partyDIDs
          in if length nodes' = length nodes then Inr (raw, False)
             else bind_res (write_map doc ''dcs:parties'' (JArr nodes')) (\<lambda>d. Inr (d, True))))"

definition SeedPartiesAndSignatureFields ::
  "(string \<Rightarrow> string) \<Rightarrow> json \<Rightarrow> string list \<Rightarrow> (doc_error, json \<times> bool) result" where
  "SeedPartiesAndSignatureFields digest8 raw partyDIDs =
    bind_res (SeedContractParties raw partyDIDs) (\<lambda>(withParties, partiesChanged).
    bind_res (SeedSignatureFields digest8 withParties partyDIDs) (\<lambda>(seeded, fieldsChanged).
      Inr (seeded, partiesChanged \<or> fieldsChanged)))"

section \<open>The originator, the pending targets, the parent\<close>

fun dec :: "nat \<Rightarrow> string" where
  "dec n = (if n < 10 then [char_of (48 + n)] else dec (n div 10) @ [char_of (48 + n mod 10)])"

declare dec.simps [simp del]

definition attachContractParties ::
  "(json option \<Rightarrow> string) \<Rightarrow> json \<Rightarrow> string list \<Rightarrow> (doc_error, json) result" where
  "attachContractParties fmt_s raw parties =
    (case decode_map raw of
       None \<Rightarrow> Inl DocDecode
     | Some doc \<Rightarrow>
         write_map doc ''dcs:parties''
           (JArr (jarr (doc_get doc ''dcs:parties'') @
              map (\<lambda>(index, name).
                 JObj [(''@id'', JStr (fmt_s (doc_get doc ''@id'') @ ''#party-'' @ dec index)),
                       (''@type'', JStr ''dcs:CompanyParty''), (''dcs:legalName'', JStr name)])
                (enumerate 0 parties))))"

definition pendingTargetURN :: string where
  "pendingTargetURN = ''urn:uuid:pending-target''"

definition is_pending_target :: "string \<Rightarrow> bool" where
  "is_pending_target iri = (has_suffix iri ''#pending-target'' \<or> iri = pendingTargetURN)"

definition resolve_rule :: "string \<Rightarrow> json \<Rightarrow> json" where
  "resolve_rule contractIRI rawRule =
    (case rawRule of
       JObj rule \<Rightarrow>
         (case obj_get rule ''odrl:target'' of
            Some (JObj target) \<Rightarrow>
              if is_pending_target (jstr (obj_get target ''@id''))
              then JObj (obj_set rule ''odrl:target'' (JObj (obj_set target ''@id'' (JStr contractIRI))))
              else rawRule
          | _ \<Rightarrow> rawRule)
     | _ \<Rightarrow> rawRule)"

definition resolve_bucket :: "string \<Rightarrow> json_map \<Rightarrow> string \<Rightarrow> json_map" where
  "resolve_bucket contractIRI policies bucket =
    (case obj_get policies bucket of
       Some (JArr rules) \<Rightarrow> obj_set policies bucket (JArr (map (resolve_rule contractIRI) rules))
     | _ \<Rightarrow> policies)"

definition resolvePendingTargets :: "json \<Rightarrow> (doc_error, json) result" where
  "resolvePendingTargets raw =
    (case decode_map raw of
       None \<Rightarrow> Inl DocDecode
     | Some doc \<Rightarrow>
         (let contractIRI = jstr (doc_get doc ''@id'')
          in if trim_space contractIRI = '''' then Inr raw
             else (case doc_get doc ''dcs:policies'' of
                     Some (JObj policies) \<Rightarrow>
                       write_map doc ''dcs:policies''
                         (JObj (fold (\<lambda>bucket ps. resolve_bucket contractIRI ps bucket)
                            [''odrl:permission'', ''odrl:prohibition'', ''odrl:obligation''] policies))
                   | _ \<Rightarrow> Inr raw)))"

text \<open>\<open>replaceNodeIRI\<close>: every \<open>@id\<close> equal to the old value, at any depth.\<close>

fun replaceNodeIRI :: "string \<Rightarrow> string \<Rightarrow> json \<Rightarrow> json" where
  "replaceNodeIRI old new (JObj m) =
     JObj (map (\<lambda>(k, v).
        if k = ''@id'' \<and> v = JStr old then (k, JStr new) else (k, replaceNodeIRI old new v)) m)"
| "replaceNodeIRI old new (JArr xs) = JArr (map (replaceNodeIRI old new) xs)"
| "replaceNodeIRI old new v = v"

fun partyPlaceholderIRI :: "json list \<Rightarrow> string \<Rightarrow> string" where
  "partyPlaceholderIRI [] role = ''''"
| "partyPlaceholderIRI (node # nodes) role =
     (if is_node node \<and> node_str ''dcs:role'' node = role then node_str ''@id'' node
      else partyPlaceholderIRI nodes role)"

fun set_legal_name_loop :: "string \<Rightarrow> string \<Rightarrow> json list \<Rightarrow> json list" where
  "set_legal_name_loop iri legalName [] = []"
| "set_legal_name_loop iri legalName (node # nodes) =
     (case node of
        JObj m \<Rightarrow>
          if jstr (obj_get m ''@id'') \<noteq> iri then node # set_legal_name_loop iri legalName nodes
          else (if jstr (obj_get m ''dcs:legalName'') = ''''
                then JObj (obj_set m ''dcs:legalName'' (JStr legalName)) else node) # nodes
      | _ \<Rightarrow> node # set_legal_name_loop iri legalName nodes)"

definition setPartyLegalName :: "json_map \<Rightarrow> string \<Rightarrow> string \<Rightarrow> json_map" where
  "setPartyLegalName doc iri legalName =
    (if legalName = '''' then doc
     else (case obj_get doc ''dcs:parties'' of
             Some (JArr nodes) \<Rightarrow>
               obj_set doc ''dcs:parties'' (JArr (set_legal_name_loop iri legalName nodes))
           | _ \<Rightarrow> doc))"

definition bindOriginatorParty ::
  "json \<Rightarrow> string \<Rightarrow> string \<Rightarrow> string \<Rightarrow> (doc_error, json) result" where
  "bindOriginatorParty raw originDID role legalName =
    (case decode_map raw of
       None \<Rightarrow> Inl DocDecode
     | Some doc \<Rightarrow>
         (let placeholder = partyPlaceholderIRI (jarr (doc_get doc ''dcs:parties'')) role
          in if placeholder \<noteq> '''' then
               (case doc of
                  None \<Rightarrow> Inl DocNilMap
                | Some m \<Rightarrow>
                    (case replaceNodeIRI placeholder originDID (JObj m) of
                       JObj m' \<Rightarrow> Inr (JObj (setPartyLegalName m' originDID legalName))
                     | v \<Rightarrow> Inr v))
             else write_map doc ''dcs:parties''
               (JArr (jarr (doc_get doc ''dcs:parties'') @
                  [JObj ([(''@id'', JStr originDID), (''@type'', JStr ''dcs:CompanyParty''),
                          (''dcs:role'', JStr role)]
                         @ (if legalName \<noteq> '''' then [(''dcs:legalName'', JStr legalName)] else []))]))))"

definition isAbsoluteRoleURI :: "(string \<Rightarrow> bool) \<Rightarrow> string \<Rightarrow> bool" where
  "isAbsoluteRoleURI is_abs role =
    (is_abs role \<and> list_all (\<lambda>c. c \<notin> {CHR '' '', CHR 0x09, CHR 0x0D, CHR 0x0A}) role)"

definition party_roles :: "json list \<Rightarrow> string list" where
  "party_roles nodes = filter (\<lambda>r. r \<noteq> '''') (map (node_str ''dcs:role'') nodes)"

definition validateOriginatorRole ::
  "(string \<Rightarrow> bool) \<Rightarrow> json \<Rightarrow> string \<Rightarrow> (doc_error, unit) result" where
  "validateOriginatorRole is_abs raw originatorRole =
    require (isAbsoluteRoleURI is_abs originatorRole) InvalidOriginatorRole
    (case decode_map raw of
       None \<Rightarrow> Inl InvalidOriginatorRole
     | Some doc \<Rightarrow>
         (let roles = party_roles (jarr (doc_get doc ''dcs:parties''))
          in require (list_all (isAbsoluteRoleURI is_abs) roles) InvalidOriginatorRole
            (require (length (remdups roles) = 2 \<and> originatorRole \<in> set roles)
              InvalidOriginatorRole (Inr ()))))"

definition extractParentContractDID :: "json option \<Rightarrow> string" where
  "extractParentContractDID data =
    (case data of
       Some (JObj doc) \<Rightarrow>
         (case obj_get doc ''dcs:parentContract'' of
            Some (JObj typed) \<Rightarrow> ResourceKey (jstr (obj_get typed ''@id''))
          | Some (JArr (JObj first # _)) \<Rightarrow> ResourceKey (jstr (obj_get first ''@id''))
          | _ \<Rightarrow> '''')
     | _ \<Rightarrow> '''')"

section \<open>What seeding achieves\<close>

definition doc_parties :: "json \<Rightarrow> json list" where
  "doc_parties raw = (case decode_map raw of None \<Rightarrow> [] | Some doc \<Rightarrow> jarr (doc_get doc ''dcs:parties''))"

definition doc_fields :: "json \<Rightarrow> json list" where
  "doc_fields raw =
    (case decode_map raw of None \<Rightarrow> [] | Some doc \<Rightarrow> jarr (doc_get doc ''dcs:signatureFields''))"

lemma node_str_party_node [simp]: "node_str ''@id'' (party_node did) = did"
  by (simp add: party_node_def obj_get_def)

lemma declared_iris_append [simp]: "declared_iris (xs @ ys) = declared_iris xs @ declared_iris ys"
  by (simp add: declared_iris_def)

lemma declared_iris_single [simp]:
  "did \<noteq> '''' \<Longrightarrow> declared_iris [party_node did] = [did]"
  by (simp add: declared_iris_def)

lemma seed_parties_loop_spec:
  assumes "set declared = set (declared_iris nodes)"
  shows "\<exists>added. seed_parties_loop declared nodes dids = nodes @ map party_node added
      \<and> set added = {did \<in> set dids. did \<noteq> '''' \<and> did \<notin> set declared} \<and> distinct added"
  using assms
proof (induction dids arbitrary: declared nodes)
  case (Cons did dids)
  show ?case
  proof (cases "did = '''' \<or> did \<in> set declared")
    case True
    with Cons.IH [OF Cons.prems] show ?thesis by auto
  next
    case False
    then have "set (did # declared) = set (declared_iris (nodes @ [party_node did]))"
      using Cons.prems by auto
    from Cons.IH [OF this] obtain added where
      *: "seed_parties_loop (did # declared) (nodes @ [party_node did]) dids
           = (nodes @ [party_node did]) @ map party_node added"
         "set added = {d \<in> set dids. d \<noteq> '''' \<and> d \<notin> set (did # declared)}" "distinct added"
      by blast
    show ?thesis
      by (rule exI [of _ "did # added"]) (use * False in auto)
  qed
qed simp

lemma seed_fields_loop_spec:
  "\<exists>added. seed_fields_loop digest8 docID present fields dids
      = fields @ map (signature_field digest8 docID) added
    \<and> set added = set dids - set present \<and> distinct added"
proof (induction dids arbitrary: present fields)
  case (Cons did dids)
  show ?case
  proof (cases "did \<in> set present")
    case True
    with Cons [of present fields] show ?thesis by auto
  next
    case False
    from Cons [of "did # present" "fields @ [signature_field digest8 docID did]"]
    obtain added where *: "seed_fields_loop digest8 docID (did # present)
        (fields @ [signature_field digest8 docID did]) dids
      = (fields @ [signature_field digest8 docID did]) @ map (signature_field digest8 docID) added"
      "set added = set dids - set (did # present)" "distinct added" by blast
    show ?thesis by (rule exI [of _ "did # added"]) (use * False in auto)
  qed
qed simp

lemma decode_write_map:
  "write_map doc k v = Inr d \<Longrightarrow> decode_map d = Some (Some (obj_set (the doc) k v)) \<and> doc \<noteq> None"
  by (auto simp: write_map_def decode_map_def split: option.splits)

lemma doc_get_write_map:
  "write_map doc k v = Inr d \<Longrightarrow> decode_map d = Some doc' \<Longrightarrow>
   doc_get doc' k' = (if k' = k then Some v else doc_get doc k')"
  by (auto dest!: decode_write_map simp: doc_get_def split: option.splits)

text \<open>
  One run of \<open>SeedContractParties\<close>: the nodes already there stay, in front; what is
  appended is one node per missing party.
\<close>

lemma SeedContractParties_spec:
  assumes "SeedContractParties raw dids = Inr (d, changed)"
  obtains added where
    "doc_parties d = doc_parties raw @ map party_node added"
    "set added = {did \<in> set dids. did \<noteq> '''' \<and> did \<notin> set (declared_iris (doc_parties raw))}"
    "distinct added" "changed \<longleftrightarrow> added \<noteq> []" "\<not> changed \<Longrightarrow> d = raw"
    "doc_fields d = doc_fields raw"
proof -
  obtain doc where doc: "decode_map raw = Some doc"
    using assms by (auto simp: SeedContractParties_def split: option.splits)
  let ?nodes = "jarr (doc_get doc ''dcs:parties'')"
  obtain added where a: "seed_parties_loop (declared_iris ?nodes) ?nodes dids = ?nodes @ map party_node added"
      "set added = {did \<in> set dids. did \<noteq> '''' \<and> did \<notin> set (declared_iris ?nodes)}" "distinct added"
    using seed_parties_loop_spec by blast
  have raw: "doc_parties raw = ?nodes" by (simp add: doc_parties_def doc)
  show thesis
  proof (cases "added = []")
    case True
    then have "d = raw" "\<not> changed"
      using assms a by (auto simp: SeedContractParties_def doc Let_def)
    then show thesis using that [of added] True a raw by simp
  next
    case False
    then obtain d' where w: "write_map doc ''dcs:parties'' (JArr (?nodes @ map party_node added)) = Inr d'"
        "d = d'" "changed"
      using assms a by (auto simp: SeedContractParties_def doc Let_def bind_res_Inr_iff)
    obtain doc' where doc': "decode_map d = Some doc'" using decode_write_map w by blast
    note get = doc_get_write_map [OF w(1) [folded w(2)] doc']
    have "doc_parties d = ?nodes @ map party_node added" "doc_fields d = doc_fields raw"
      by (simp_all add: doc_parties_def doc_fields_def doc doc' get)
    then show thesis using that [of added] False a raw w by simp
  qed
qed

lemma SeedSignatureFields_spec:
  assumes "SeedSignatureFields digest8 raw dids = Inr (d, changed)"
  obtains added docID where
    "doc_fields d = doc_fields raw @ map (signature_field digest8 docID) added"
    "set added = (if doc_fields raw = [] then set dids else {})" "distinct added"
    "changed \<longleftrightarrow> added \<noteq> []" "\<not> changed \<Longrightarrow> d = raw" "doc_parties d = doc_parties raw"
proof -
  obtain doc where doc: "decode_map raw = Some doc"
    using assms by (auto simp: SeedSignatureFields_def split: option.splits)
  have raw: "doc_fields raw = jarr (doc_get doc ''dcs:signatureFields'')"
    by (simp add: doc_fields_def doc)
  show thesis
  proof (cases "doc_fields raw = []")
    case False
    then have "d = raw" "\<not> changed" using assms raw by (auto simp: SeedSignatureFields_def doc)
    then show thesis using that [of "''''" "[]"] False by simp
  next
    case True
    let ?id = "jstr (doc_get doc ''@id'')"
    obtain added where a: "seed_fields_loop digest8 ?id [] [] dids = map (signature_field digest8 ?id) added"
        "set added = set dids" "distinct added"
      using seed_fields_loop_spec [of digest8 ?id "[]" "[]" dids] by auto
    show thesis
    proof (cases "added = []")
      case ne: True
      then have "d = raw" "\<not> changed"
        using assms a raw True by (auto simp: SeedSignatureFields_def doc Let_def)
      then show thesis using that [of ?id added] True ne a by simp
    next
      case ne: False
      then obtain d' where w: "write_map doc ''dcs:signatureFields''
          (JArr (map (signature_field digest8 ?id) added)) = Inr d'" "d = d'" "changed"
        using assms a raw True
        by (auto simp: SeedSignatureFields_def doc Let_def bind_res_Inr_iff split: if_splits)
      obtain doc' where doc': "decode_map d = Some doc'" using decode_write_map w by blast
      note get = doc_get_write_map [OF w(1) [folded w(2)] doc']
      have "doc_fields d = map (signature_field digest8 ?id) added" "doc_parties d = doc_parties raw"
        by (simp_all add: doc_parties_def doc_fields_def doc doc' get)
      then show thesis using that [of ?id added] True ne a w by simp
    qed
  qed
qed

lemma set_field_names_loop:
  "set (field_names_loop seen items) =
     {field_name x | x. x \<in> set items \<and> is_node x \<and> field_name x \<noteq> ''''} - set seen"
proof (induction items arbitrary: seen)
  case (Cons x items)
  show ?case
  proof (cases "is_node x \<and> field_name x \<noteq> '''' \<and> field_name x \<notin> set seen")
    case True
    then have eq: "set (field_names_loop seen (x # items))
        = insert (field_name x) (set (field_names_loop (field_name x # seen) items))"
      by (simp add: Let_def)
    show ?thesis unfolding eq Cons.IH using True by auto
  next
    case False
    then have eq: "field_names_loop seen (x # items) = field_names_loop seen items"
      by (auto simp: Let_def)
    show ?thesis unfolding eq Cons.IH using False by auto
  qed
qed simp

lemma distinct_field_names_loop:
  "distinct (field_names_loop seen items)"
proof (induction items arbitrary: seen)
  case (Cons x items)
  then show ?case
    using set_field_names_loop [of "field_name x # seen" items] by (auto simp: Let_def)
qed simp

lemma signature_field_names [simp]:
  "is_node (signature_field h i did)" "field_name (signature_field h i did) = trim_space did"
  "node_str ''dcs:signatoryName'' (signature_field h i did) = did"
  by (auto simp: signature_field_def is_node_def field_name_def either_str_def obj_get_def Let_def
      trim_space_def)

lemma SeedContractParties_again:
  assumes "SeedContractParties raw dids = Inr (d, changed)" "doc_parties d' = doc_parties d"
    "decode_map d' \<noteq> None"
  shows "SeedContractParties d' dids = Inr (d', False)"
proof -
  obtain added where
    *: "doc_parties d = doc_parties raw @ map party_node added"
       "set added = {did \<in> set dids. did \<noteq> '''' \<and> did \<notin> set (declared_iris (doc_parties raw))}"
    by (rule SeedContractParties_spec [OF assms(1)]) (rule that, assumption+)
  have decl: "set (declared_iris (map party_node added)) = set added"
    using *(2) by (force simp: declared_iris_def)
  obtain doc where doc: "decode_map d' = Some doc" using assms(3) by auto
  let ?nodes = "jarr (doc_get doc ''dcs:parties'')"
  have nodes: "?nodes = doc_parties d" using assms(2) by (simp add: doc_parties_def doc)
  from seed_parties_loop_spec [of "declared_iris ?nodes" ?nodes dids] obtain more where
    m: "seed_parties_loop (declared_iris ?nodes) ?nodes dids = ?nodes @ map party_node more"
       "set more = {did \<in> set dids. did \<noteq> '''' \<and> did \<notin> set (declared_iris ?nodes)}"
    by blast
  have "set more = {}" unfolding m(2) nodes using * decl by auto
  then show ?thesis using m(1) by (simp add: SeedContractParties_def doc Let_def)
qed

lemma seeded_decodes:
  "SeedContractParties raw dids = Inr (d, c) \<Longrightarrow> decode_map d \<noteq> None"
  "SeedSignatureFields h raw dids = Inr (d, c) \<Longrightarrow> decode_map d \<noteq> None"
  by (auto simp: SeedContractParties_def SeedSignatureFields_def Let_def bind_res_Inr_iff
      dest!: decode_write_map split: option.splits if_splits)

text \<open>
  C28: seeding the signable structure.  After \<open>SeedPartiesAndSignatureFields\<close> every
  contract party has a party node, the nodes the document already had are kept in
  place, an explicit declaration of signature fields is left alone and otherwise
  there is exactly one field naming each party, and running the seeding again
  changes nothing.
\<close>

theorem seeding_complete_and_idempotent:
  assumes "SeedPartiesAndSignatureFields h raw dids = Inr (d, changed)"
  shows "{p \<in> set dids. p \<noteq> ''''} \<subseteq> set (declared_iris (doc_parties d))
       \<and> (\<exists>added. doc_parties d = doc_parties raw @ map party_node added)
       \<and> (if doc_fields raw \<noteq> [] then doc_fields d = doc_fields raw
          else distinct (map (node_str ''dcs:signatoryName'') (doc_fields d))
             \<and> set (map (node_str ''dcs:signatoryName'') (doc_fields d)) = set dids)
       \<and> SeedPartiesAndSignatureFields h d dids = Inr (d, False)"
proof -
  obtain d1 c1 c2 where p: "SeedContractParties raw dids = Inr (d1, c1)"
      and f: "SeedSignatureFields h d1 dids = Inr (d, c2)"
    using assms by (auto simp: SeedPartiesAndSignatureFields_def bind_res_Inr_iff)
  obtain added where a: "doc_parties d1 = doc_parties raw @ map party_node added"
      "set added = {did \<in> set dids. did \<noteq> '''' \<and> did \<notin> set (declared_iris (doc_parties raw))}"
      "doc_fields d1 = doc_fields raw"
    by (rule SeedContractParties_spec [OF p]) (rule that, assumption+)
  obtain fs i where fl: "doc_fields d = doc_fields d1 @ map (signature_field h i) fs"
      "set fs = (if doc_fields d1 = [] then set dids else {})" "distinct fs"
      "doc_parties d = doc_parties d1"
    by (rule SeedSignatureFields_spec [OF f]) (rule that, assumption+)
  have decl: "set (declared_iris (map party_node added)) = set added"
    using a(2) by (force simp: declared_iris_def)
  have dec: "decode_map d \<noteq> None" using seeded_decodes(2) [OF f] .
  have again_p: "SeedContractParties d dids = Inr (d, False)"
    using SeedContractParties_again [OF p fl(4) dec] .
  have "doc_fields d \<noteq> [] \<or> dids = []" using fl by (cases "doc_fields d1 = []") auto
  then have again_f: "SeedSignatureFields h d dids = Inr (d, False)"
    using dec by (auto simp: SeedSignatureFields_def doc_fields_def)
  have "map (node_str ''dcs:signatoryName'') (map (signature_field h i) fs) = fs"
    by (simp add: map_idI)
  then show ?thesis
    using a fl decl again_p again_f by (auto simp: SeedPartiesAndSignatureFields_def)
qed

theorem seeding_complete_and_idempotent_witness:
  "SeedPartiesAndSignatureFields (\<lambda>_. ''x'') (JObj [(''@id'', JStr ''c'')]) [''did:web:a''] =
     Inr (JObj [(''@id'', JStr ''c''), (''dcs:parties'', JArr [party_node ''did:web:a'']),
       (''dcs:signatureFields'', JArr [signature_field (\<lambda>_. ''x'') ''c'' ''did:web:a''])], True)
   \<and> {p \<in> set [''did:web:a'']. p \<noteq> ''''} \<subseteq> set (declared_iris (doc_parties
       (JObj [(''@id'', JStr ''c''), (''dcs:parties'', JArr [party_node ''did:web:a'']),
         (''dcs:signatureFields'', JArr [signature_field (\<lambda>_. ''x'') ''c'' ''did:web:a''])])))"
proof -
  let ?d = "JObj [(''@id'', JStr ''c''), (''dcs:parties'', JArr [party_node ''did:web:a'']),
       (''dcs:signatureFields'', JArr [signature_field (\<lambda>_. ''x'') ''c'' ''did:web:a''])]"
  have run: "SeedPartiesAndSignatureFields (\<lambda>_. ''x'') (JObj [(''@id'', JStr ''c'')]) [''did:web:a'']
      = Inr (?d, True)"
    by (simp add: SeedPartiesAndSignatureFields_def SeedContractParties_def SeedSignatureFields_def
        decode_map_def doc_get_def obj_get_def write_map_def obj_set_def jarr_def declared_iris_def Let_def)
  then show ?thesis using seeding_complete_and_idempotent [OF run] by blast
qed

end
