(* ===== verification/Contract_Store.thy ===== *)
theory Contract_Store
  imports Contract_State Task_State Contract_Document
begin

text \<open>
  The tables the contract workflow engine writes and the repositories over them
  (\<open>backend/internal/contractworkflowengine/db\<close> and \<open>db/pg\<close>).  A table with a primary
  key is a map, a table read in bulk is a list of rows; the effect of an \<open>UPDATE\<close>
  or \<open>INSERT\<close> statement of a repository function is written as a function of the
  store.  The views \<open>contracts_effective\<close> (a contract past its expiry date reads as
  EXPIRED) and the two \<open>BEFORE UPDATE\<close> triggers that keep \<open>updated_at\<close> and
  \<open>content_updated_at\<close> monotonic are part of the model.  All time values are integers in
  nanoseconds; the clock of a statement is the argument \<open>now\<close>.  Generated UUIDs
  come from the argument \<open>uuid\<close>, indexed by a counter in the store.
\<close>

section \<open>Rows\<close>

record responsible =
  resp_creator :: string
  resp_approvers :: "string list"
  resp_reviewers :: "string list"
  resp_negotiators :: "string list"
  resp_counterparty :: string

definition GetParties :: "responsible \<Rightarrow> string list" where
  "GetParties r =
    fold (\<lambda>did parties. if did \<noteq> '''' \<and> did \<notin> set parties then parties @ [did] else parties)
      [resp_creator r, resp_counterparty r] []"

record pdf_state =
  pdf_ipfs_cid :: string
  pdf_renderer_version :: string
  pdf_c2pa_state :: string
  pdf_payload_hash :: string

record contract =
  c_did :: string
  c_origin :: string
  c_version :: int
  c_state :: contract_state
  c_created_by :: string
  c_created_at :: int
  c_updated_at :: int
  c_content_updated_at :: int
  c_start_date :: "int option"
  c_exp_date :: "int option"
  c_exp_policy :: "string option"
  c_exp_notice_period :: "int option"
  c_name :: "string option"
  c_description :: "string option"
  c_responsible :: "responsible option"
  c_data :: "json option"
  c_template_did :: string
  c_template_version :: int
  c_target_id :: "string option"
  c_pdf :: pdf_state

record 'st task =
  task_id :: string
  task_did :: string
  task_state :: 'st
  task_owner :: string
  task_created_by :: string
  task_created_at :: int

record negotiation_task =
  nt_id :: string
  nt_did :: string
  nt_version :: int
  nt_state :: negotiation_task_state
  nt_negotiator :: string
  nt_created_by :: string
  nt_created_at :: int

record supersession =
  sup_negotiation_id :: string
  sup_superseded_by :: string
  sup_fields :: "string list"

record negotiation =
  n_id :: string
  n_did :: string
  n_version :: int
  n_change_request :: "json option"
  n_created_by :: string
  n_created_at :: int
  n_superseded_by :: "supersession list option"

datatype decision = DAccepted | DRejected | DClosed

record decision_row =
  d_id :: string
  d_negotiation_id :: string
  d_negotiator :: string
  d_decision :: "decision option"
  d_rejection_reason :: "string option"

record settlement =
  st_did :: string
  st_from_peer :: string
  st_to_peer :: string
  st_version :: int
  st_digest :: string
  st_settled_at :: int
  st_signature :: string
  st_delivered :: "int option"

record withdrawal =
  w_did :: string
  w_from_peer :: string
  w_to_peer :: string
  w_digest :: string
  w_withdrawn_at :: int
  w_delivered :: bool

record publication =
  q_did :: string
  q_status :: string
  q_reason :: string
  q_effective_at :: int

text \<open>
  The domain events of \<open>event/event.go\<close> that the modelled handlers put into the
  outbox, with the fields that identify what happened.
\<close>

datatype cwe_event =
    CreateEvent string string string
  | OfferEvent string int string
  | SubmitEvent string int string contract_state "contract_state option" "action_flag option"
  | SupersededEvent string int int "supersession list" string
  | IncreaseContractVersionEvent string int int string
  | NegotiationEvent string int "json option" string "string list"
  | AcceptOfferEvent string int string
  | AcceptNegotiationEvent string int string
  | RejectNegotiationEvent string int string "string option"
  | ApproveEvent string int string
  | RejectEvent string int string string
  | WithdrawEvent string int string
  | TerminateEvent string int string string
  | ReviewEvent string string
  | UpdateEvent string string "json option" "json option"
  | ContractExpired string int contract_state expiration_policy
  | RenewEvent string string string int

fun GetDID :: "cwe_event \<Rightarrow> string" where
  "GetDID (CreateEvent did _ _) = did"
| "GetDID (OfferEvent did _ _) = did"
| "GetDID (SubmitEvent did _ _ _ _ _) = did"
| "GetDID (SupersededEvent did _ _ _ _) = did"
| "GetDID (IncreaseContractVersionEvent did _ _ _) = did"
| "GetDID (NegotiationEvent did _ _ _ _) = did"
| "GetDID (AcceptOfferEvent did _ _) = did"
| "GetDID (AcceptNegotiationEvent did _ _) = did"
| "GetDID (RejectNegotiationEvent did _ _ _) = did"
| "GetDID (ApproveEvent did _ _) = did"
| "GetDID (RejectEvent did _ _ _) = did"
| "GetDID (WithdrawEvent did _ _) = did"
| "GetDID (TerminateEvent did _ _ _) = did"
| "GetDID (ReviewEvent did _) = did"
| "GetDID (UpdateEvent did _ _ _) = did"
| "GetDID (ContractExpired did _ _ _) = did"
| "GetDID (RenewEvent did _ _ _) = did"

record store =
  contracts :: "string \<Rightarrow> contract option"
  history :: "contract list"
  review_tasks :: "review_task_state task list"
  approval_tasks :: "approval_task_state task list"
  negotiation_tasks :: "negotiation_task list"
  negotiations :: "negotiation list"
  decisions :: "decision_row list"
  drafts :: "string \<times> string \<Rightarrow> (json option \<times> int) option"
  settlements :: "settlement list"
  withdrawals :: "withdrawal list"
  publications :: "publication list"
  outbox :: "cwe_event list"
  next_uuid :: nat

section \<open>Errors\<close>

datatype cwe_error =
    ContractNotFound string
  | NoLocalPeer
  | UpdatedElsewhere bool
  | InvalidTransition transition_error
  | InvalidUserPermission
  | InvalidParticipant
  | InvalidUser
  | NotAParty
  | ConflictOfInterest
  | NegotiationNotSettled
  | OpenNegotiations
  | NoMatchingDecision
  | NoTask
  | ActionFlagMissing
  | ContractDataNotSubmittable
  | AgreementSettled
  | OwnAgreementSettled
  | NoFieldsToUpdate
  | EmptyDID
  | SemanticValidationFailed
  | HubConformanceFailed
  | ContractNotClosed
  | PolicyNotSatisfied
  | NoContractData
  | NormalizationFailed
  | CarryBundleFailed
  | MaterializationFailed
  | DigestFailed
  | DocumentError doc_error
  | BadChangeRequest
  | NilPointer
  | BadDate
  | NotCanonical
  | NotOwnerPeer
  | HierarchyCycle
  | WalkDiverges
  | DatesInvalid
  | UnknownExpirationPolicy
  | DuplicateContract string

definition lift_transition :: "(transition_error, 'a) result \<Rightarrow> (cwe_error, 'a) result" where
  "lift_transition m = (case m of Inl e \<Rightarrow> Inl (InvalidTransition e) | Inr x \<Rightarrow> Inr x)"

definition lift_doc :: "(doc_error, 'a) result \<Rightarrow> (cwe_error, 'a) result" where
  "lift_doc m = (case m of Inl e \<Rightarrow> Inl (DocumentError e) | Inr x \<Rightarrow> Inr x)"

definition of_option :: "cwe_error \<Rightarrow> 'a option \<Rightarrow> (cwe_error, 'a) result" where
  "of_option e m = (case m of None \<Rightarrow> Inl e | Some x \<Rightarrow> Inr x)"

lemma lift_transition_Inr [simp]: "lift_transition m = Inr x \<longleftrightarrow> m = Inr x"
  by (auto simp: lift_transition_def split: sum.splits)

lemma lift_doc_Inr [simp]: "lift_doc m = Inr x \<longleftrightarrow> m = Inr x"
  by (auto simp: lift_doc_def split: sum.splits)

lemma of_option_Inr [simp]: "of_option e m = Inr x \<longleftrightarrow> m = Some x"
  by (auto simp: of_option_def split: option.splits)

section \<open>The contract table\<close>

definition never_expires :: "contract_state list" where
  "never_expires = [Terminated, Rejected, Expired, Withdrawn, Revoked]"

definition effective_state :: "int \<Rightarrow> contract \<Rightarrow> contract_state" where
  "effective_state now c =
    (case c_exp_date c of
       None \<Rightarrow> c_state c
     | Some e \<Rightarrow> if e \<le> now \<and> c_state c \<notin> set never_expires then Expired else c_state c)"

text \<open>
  The two triggers: a changed document moves \<open>content_updated_at\<close>, any change outside
  the artifact columns moves \<open>updated_at\<close>; both strictly forward.
\<close>

definition microsecond :: int where
  "microsecond = 1000"

definition content_trigger :: "int \<Rightarrow> contract \<Rightarrow> contract \<Rightarrow> contract" where
  "content_trigger now old new =
    (if c_data new \<noteq> c_data old
     then new\<lparr>c_content_updated_at := max now (c_content_updated_at old + microsecond)\<rparr> else new)"

definition revision_relevant :: "contract \<Rightarrow> contract \<Rightarrow> bool" where
  "revision_relevant old new =
    (new\<lparr>c_updated_at := c_updated_at old, c_pdf := c_pdf old\<rparr> \<noteq> old)"

definition revision_trigger :: "int \<Rightarrow> contract \<Rightarrow> contract \<Rightarrow> contract" where
  "revision_trigger now old new =
    (if c_updated_at new \<noteq> c_updated_at old
     then new\<lparr>c_updated_at := max (c_updated_at new)
                (max (c_content_updated_at new) (c_updated_at old + microsecond))\<rparr>
     else if revision_relevant old new
     then new\<lparr>c_updated_at := max now
                (max (c_content_updated_at new) (c_updated_at old + microsecond))\<rparr>
     else new)"

definition update_row :: "int \<Rightarrow> string \<Rightarrow> (contract \<Rightarrow> contract) \<Rightarrow> store \<Rightarrow> store" where
  "update_row now did f s =
    (case contracts s did of
       None \<Rightarrow> s
     | Some c \<Rightarrow>
         s\<lparr>contracts := (contracts s)(did \<mapsto>
             revision_trigger now c (content_trigger now c (f c)))\<rparr>)"

definition ReadDataByDID :: "int \<Rightarrow> string \<Rightarrow> store \<Rightarrow> (cwe_error, contract) result" where
  "ReadDataByDID now did s =
    (case contracts s did of
       None \<Rightarrow> Inl (ContractNotFound did)
     | Some c \<Rightarrow> Inr (c\<lparr>c_state := effective_state now c\<rparr>))"

definition ReadProcessDataByDID :: "int \<Rightarrow> string \<Rightarrow> store \<Rightarrow> (cwe_error, contract) result" where
  "ReadProcessDataByDID now did s =
    (case contracts s did of
       None \<Rightarrow> Inl (ContractNotFound did)
     | Some c \<Rightarrow> Inr (c\<lparr>c_state := effective_state now c\<rparr>))"

definition ReadPDFState :: "string \<Rightarrow> store \<Rightarrow> (cwe_error, pdf_state) result" where
  "ReadPDFState did s =
    (case contracts s did of None \<Rightarrow> Inl (ContractNotFound did) | Some c \<Rightarrow> Inr (c_pdf c))"

text \<open>
  The \<open>INSERT\<close> of a contract names eleven columns; the others get the defaults of the
  table: version 1, both clocks at the time of the statement, no term, no target and
  no artifact.  The table refuses an empty key and a key it has.
\<close>

definition Contract_Create :: "int \<Rightarrow> contract \<Rightarrow> store \<Rightarrow> (cwe_error, store) result" where
  "Contract_Create now c s =
    require (c_did c \<noteq> '''') EmptyDID
    (case contracts s (c_did c) of
       Some _ \<Rightarrow> Inl (DuplicateContract (c_did c))
     | None \<Rightarrow> Inr (s\<lparr>contracts := (contracts s)(c_did c \<mapsto>
         c\<lparr>c_version := 1, c_updated_at := now, c_content_updated_at := now,
           c_start_date := None, c_exp_date := None, c_exp_policy := None,
           c_exp_notice_period := None, c_target_id := None,
           c_pdf := \<lparr>pdf_ipfs_cid = '''', pdf_renderer_version = '''', pdf_c2pa_state = '''',
             pdf_payload_hash = ''''\<rparr>\<rparr>)\<rparr>))"

definition UpdateState :: "int \<Rightarrow> string \<Rightarrow> contract_state \<Rightarrow> store \<Rightarrow> store" where
  "UpdateState now did st = update_row now did (\<lambda>c. c\<lparr>c_state := st\<rparr>)"

definition UpdatePDFState :: "int \<Rightarrow> string \<Rightarrow> pdf_state \<Rightarrow> store \<Rightarrow> store" where
  "UpdatePDFState now did p = update_row now did (\<lambda>c. c\<lparr>c_pdf := p\<rparr>)"

definition CreateHistoryEntryForDID :: "int \<Rightarrow> string \<Rightarrow> store \<Rightarrow> store" where
  "CreateHistoryEntryForDID now did s =
    (case contracts s did of
       None \<Rightarrow> s
     | Some c \<Rightarrow> s\<lparr>history := history s @ [c\<lparr>c_state := effective_state now c\<rparr>]\<rparr>)"

text \<open>\<open>createQuery\<close>: the columns an update sets, in the order of the statement.\<close>

record contract_update =
  u_did :: string
  u_state :: "contract_state option"
  u_name :: "string option"
  u_description :: "string option"
  u_version :: int
  u_data :: "json option"
  u_start_date :: "int option"
  u_exp_date :: "int option"
  u_exp_policy :: "string option"
  u_exp_notice_period :: "int option"
  u_responsible :: "responsible option"

definition no_update :: "string \<Rightarrow> contract_update" where
  "no_update did = \<lparr>u_did = did, u_state = None, u_name = None, u_description = None, u_version = 0,
     u_data = None, u_start_date = None, u_exp_date = None, u_exp_policy = None,
     u_exp_notice_period = None, u_responsible = None\<rparr>"

datatype column =
    ColVersion int | ColState contract_state | ColName string | ColDescription string
  | ColData json | ColStartDate int | ColExpDate int | ColExpPolicy string
  | ColExpNoticePeriod int | ColResponsible responsible

definition opt_col :: "('a \<Rightarrow> column) \<Rightarrow> 'a option \<Rightarrow> column list" where
  "opt_col f v = (case v of None \<Rightarrow> [] | Some x \<Rightarrow> [f x])"

definition createQuery :: "contract_update \<Rightarrow> (cwe_error, column list) result" where
  "createQuery data =
    (let columns =
       (if u_version data > 0 then [ColVersion (u_version data)] else [])
       @ opt_col ColState (u_state data)
       @ opt_col ColName (u_name data)
       @ opt_col ColDescription (u_description data)
       @ (if IsNotNullValue (u_data data) then opt_col ColData (u_data data) else [])
       @ opt_col ColStartDate (u_start_date data)
       @ opt_col ColExpDate (u_exp_date data)
       @ opt_col ColExpPolicy (u_exp_policy data)
       @ opt_col ColExpNoticePeriod (u_exp_notice_period data)
       @ opt_col ColResponsible (u_responsible data)
     in if columns = [] then Inl NoFieldsToUpdate else Inr columns)"

fun set_column :: "column \<Rightarrow> contract \<Rightarrow> contract" where
  "set_column (ColVersion v) c = c\<lparr>c_version := v\<rparr>"
| "set_column (ColState st) c = c\<lparr>c_state := st\<rparr>"
| "set_column (ColName n) c = c\<lparr>c_name := Some n\<rparr>"
| "set_column (ColDescription d) c = c\<lparr>c_description := Some d\<rparr>"
| "set_column (ColData d) c = c\<lparr>c_data := Some d\<rparr>"
| "set_column (ColStartDate d) c = c\<lparr>c_start_date := Some d\<rparr>"
| "set_column (ColExpDate d) c = c\<lparr>c_exp_date := Some d\<rparr>"
| "set_column (ColExpPolicy p) c = c\<lparr>c_exp_policy := Some p\<rparr>"
| "set_column (ColExpNoticePeriod n) c = c\<lparr>c_exp_notice_period := Some n\<rparr>"
| "set_column (ColResponsible r) c = c\<lparr>c_responsible := Some r\<rparr>"

definition Update :: "int \<Rightarrow> contract_update \<Rightarrow> store \<Rightarrow> (cwe_error, store) result" where
  "Update now data s =
    bind_res (createQuery data) (\<lambda>columns.
      Inr (update_row now (u_did data) (fold set_column columns) s))"

text \<open>The contracts the expiry job picks up.\<close>

definition expiry_due :: "int \<Rightarrow> contract \<Rightarrow> bool" where
  "expiry_due now c =
    (case c_exp_date c of
       None \<Rightarrow> False
     | Some e \<Rightarrow> e < now \<and>
         c_state c \<notin> set [Draft, Terminated, Rejected, Expired, Withdrawn, Revoked])"

section \<open>The outbox and the status queue\<close>

definition event_Create :: "cwe_event \<Rightarrow> store \<Rightarrow> (cwe_error, store) result" where
  "event_Create evt s =
    (if GetDID evt = '''' then Inl EmptyDID else Inr (s\<lparr>outbox := outbox s @ [evt]\<rparr>))"

definition EnqueueTx :: "string \<Rightarrow> string \<Rightarrow> string \<Rightarrow> int \<Rightarrow> store \<Rightarrow> store" where
  "EnqueueTx did status reason effectiveAt s =
    (if list_ex (\<lambda>q. q_did q = did \<and> q_status q = status) (publications s) then s
     else s\<lparr>publications := publications s @
       [\<lparr>q_did = did, q_status = status, q_reason = reason, q_effective_at = effectiveAt\<rparr>]\<rparr>)"

section \<open>Basic facts\<close>

lemma content_trigger_fields [simp]:
  "c_did (content_trigger now c d) = c_did d"
  "c_origin (content_trigger now c d) = c_origin d"
  "c_state (content_trigger now c d) = c_state d"
  "c_version (content_trigger now c d) = c_version d"
  "c_data (content_trigger now c d) = c_data d"
  "c_created_by (content_trigger now c d) = c_created_by d"
  "c_responsible (content_trigger now c d) = c_responsible d"
  "c_exp_date (content_trigger now c d) = c_exp_date d"
  "c_pdf (content_trigger now c d) = c_pdf d"
  "c_updated_at (content_trigger now c d) = c_updated_at d"
  by (simp_all add: content_trigger_def)

lemma revision_trigger_fields [simp]:
  "c_did (revision_trigger now c d) = c_did d"
  "c_origin (revision_trigger now c d) = c_origin d"
  "c_state (revision_trigger now c d) = c_state d"
  "c_version (revision_trigger now c d) = c_version d"
  "c_data (revision_trigger now c d) = c_data d"
  "c_created_by (revision_trigger now c d) = c_created_by d"
  "c_responsible (revision_trigger now c d) = c_responsible d"
  "c_exp_date (revision_trigger now c d) = c_exp_date d"
  "c_pdf (revision_trigger now c d) = c_pdf d"
  "c_content_updated_at (revision_trigger now c d) = c_content_updated_at d"
  by (simp_all add: revision_trigger_def)

lemma triggers_monotone:
  assumes "c_updated_at d = c_updated_at c" "c_content_updated_at d = c_content_updated_at c"
  shows "c_updated_at c \<le> c_updated_at (revision_trigger now c (content_trigger now c d))
       \<and> c_content_updated_at c \<le> c_content_updated_at (revision_trigger now c (content_trigger now c d))
       \<and> (c_data d \<noteq> c_data c \<longrightarrow>
            c_content_updated_at c < c_content_updated_at (revision_trigger now c (content_trigger now c d)))"
  using assms by (auto simp: revision_trigger_def content_trigger_def microsecond_def)

end
