(* ===== verification/Task_Repo.thy ===== *)
theory Task_Repo
  imports Contract_Store "HOL-Library.List_Lexorder"
begin

text \<open>
  The task and negotiation repositories of the contract workflow engine
  (\<open>db/pg/reviewtaskrepository.go\<close>, \<open>approvaltaskrepository.go\<close>,
  \<open>negotiationrtaskrepository.go\<close>, \<open>negotiationrepository.go\<close>) and the settlement rows
  of the DCS-to-DCS store (\<open>dcstodcs/db/pg/syncrepository.go\<close>).  The locale
  \<open>task_repo\<close> is what the command handlers rely on when they ask a task table
  whether everybody has answered; the three task repositories interpret it.
\<close>

section \<open>The contract of a task repository\<close>

locale task_table =
  fixes is_valid :: "string \<Rightarrow> string \<Rightarrow> 'ts \<Rightarrow> bool"
    and update_state :: "string \<Rightarrow> string \<Rightarrow> 'st \<Rightarrow> 'ts \<Rightarrow> ('e, 'ts) result"
    and reopen :: "string \<Rightarrow> 'ts \<Rightarrow> 'ts"
    and in_state :: "string \<Rightarrow> string \<Rightarrow> 'st \<Rightarrow> 'ts \<Rightarrow> bool"
    and opened :: 'st
  assumes valid_iff: "is_valid did owner ts \<longleftrightarrow> (\<exists>st. in_state did owner st ts)"
    and update_state_iff: "(\<exists>ts'. update_state did owner st ts = Inr ts') \<longleftrightarrow> is_valid did owner ts"
    and update_state_in: "update_state did owner st ts = Inr ts' \<Longrightarrow>
        in_state did' owner' st' ts' \<longleftrightarrow>
          (if did' = did \<and> owner' = owner then st' = st else in_state did' owner' st' ts)"
    and reopen_in: "in_state did' owner st (reopen did ts) \<longleftrightarrow>
        (if did' = did then st = opened \<and> is_valid did owner ts else in_state did' owner st ts)"
begin

lemma answer_keeps_owners:
  assumes "update_state did owner st ts = Inr ts'"
  shows "is_valid did' owner' ts' \<longleftrightarrow> is_valid did' owner' ts"
  using update_state_iff [of did owner st ts] assms
  by (auto simp: valid_iff update_state_in [OF assms])

lemma answer_needs_task: "update_state did owner st ts = Inr ts' \<Longrightarrow> is_valid did owner ts"
  using update_state_iff by blast

lemma reopen_keeps_owners: "is_valid did' owner (reopen did ts) \<longleftrightarrow> is_valid did' owner ts"
  by (auto simp: valid_iff reopen_in)

end

text \<open>
  The tables that also answer whether any task of a document is in given states.
\<close>

locale task_repo = task_table is_valid update_state reopen in_state opened
  for is_valid :: "string \<Rightarrow> string \<Rightarrow> 'ts \<Rightarrow> bool"
    and update_state :: "string \<Rightarrow> string \<Rightarrow> 'st \<Rightarrow> 'ts \<Rightarrow> ('e, 'ts) result"
    and reopen :: "string \<Rightarrow> 'ts \<Rightarrow> 'ts"
    and in_state :: "string \<Rightarrow> string \<Rightarrow> 'st \<Rightarrow> 'ts \<Rightarrow> bool"
    and opened :: 'st +
  fixes any_in_state :: "string \<Rightarrow> 'st list \<Rightarrow> 'ts \<Rightarrow> bool"
  assumes any_iff: "any_in_state did sts ts \<longleftrightarrow> (\<exists>owner. \<exists>st\<in>set sts. in_state did owner st ts)"
begin

text \<open>
  The quorum reading of the open-task check: after one owner has answered, an open
  task is left exactly when another owner still has one.
\<close>

lemma open_after_answer:
  assumes "update_state did owner st ts = Inr ts'" "st \<noteq> opened"
  shows "any_in_state did [opened] ts' \<longleftrightarrow> (\<exists>other. other \<noteq> owner \<and> in_state did other opened ts)"
  using assms(2) by (auto simp: any_iff update_state_in [OF assms(1)])

lemma all_open_after_reopen:
  assumes "is_valid did owner ts"
  shows "in_state did owner opened (reopen did ts) \<and> any_in_state did [opened] (reopen did ts)"
  using assms by (auto simp: any_iff reopen_in)

lemma closed_means_all_answered:
  assumes "\<not> any_in_state did [opened] ts" "is_valid did owner ts"
  shows "\<exists>st. st \<noteq> opened \<and> in_state did owner st ts"
  using assms by (auto simp: any_iff valid_iff)

end

section \<open>Review and approval tasks\<close>

definition task_of :: "string \<Rightarrow> string \<Rightarrow> 'st task \<Rightarrow> bool" where
  "task_of did owner t = (task_did t = did \<and> task_owner t = owner)"

definition set_task_state :: "string \<Rightarrow> string \<Rightarrow> 'st \<Rightarrow> 'st task list \<Rightarrow> 'st task list" where
  "set_task_state did owner st ts =
    map (\<lambda>t. if task_of did owner t then t\<lparr>task_state := st\<rparr> else t) ts"

definition reopen_tasks :: "'st \<Rightarrow> string \<Rightarrow> 'st task list \<Rightarrow> 'st task list" where
  "reopen_tasks st did ts = map (\<lambda>t. if task_did t = did then t\<lparr>task_state := st\<rparr> else t) ts"

definition ReviewTask_Create ::
  "(nat \<Rightarrow> string) \<Rightarrow> int \<Rightarrow> string \<Rightarrow> string \<Rightarrow> review_task_state \<Rightarrow> string \<Rightarrow> store \<Rightarrow> store" where
  "ReviewTask_Create uuid now did reviewer st createdBy s =
    s\<lparr>review_tasks := review_tasks s @
        [\<lparr>task_id = uuid (next_uuid s), task_did = did, task_state = st, task_owner = reviewer,
          task_created_by = createdBy, task_created_at = now\<rparr>],
      next_uuid := next_uuid s + 1\<rparr>"

definition IsValidReviewer :: "string \<Rightarrow> string \<Rightarrow> store \<Rightarrow> bool" where
  "IsValidReviewer did reviewer s = list_ex (task_of did reviewer) (review_tasks s)"

definition ReviewTask_ReopenTasks :: "string \<Rightarrow> store \<Rightarrow> store" where
  "ReviewTask_ReopenTasks did s = s\<lparr>review_tasks := reopen_tasks RtOpen did (review_tasks s)\<rparr>"

definition ReviewTask_UpdateState ::
  "string \<Rightarrow> string \<Rightarrow> review_task_state \<Rightarrow> store \<Rightarrow> (cwe_error, store) result" where
  "ReviewTask_UpdateState did reviewer st s =
    (if \<not> list_ex (task_of did reviewer) (review_tasks s) then Inl NoTask
     else Inr (s\<lparr>review_tasks := set_task_state did reviewer st (review_tasks s)\<rparr>))"

definition ReviewTask_AnyTasksInState :: "string \<Rightarrow> review_task_state list \<Rightarrow> store \<Rightarrow> bool" where
  "ReviewTask_AnyTasksInState did states s =
    list_ex (\<lambda>t. task_did t = did \<and> task_state t \<in> set states) (review_tasks s)"

definition ReviewTask_TaskExistsInState ::
  "string \<Rightarrow> string \<Rightarrow> review_task_state \<Rightarrow> store \<Rightarrow> bool" where
  "ReviewTask_TaskExistsInState did reviewer st s =
    list_ex (\<lambda>t. task_of did reviewer t \<and> task_state t = st) (review_tasks s)"

definition ApprovalTask_Create ::
  "(nat \<Rightarrow> string) \<Rightarrow> int \<Rightarrow> string \<Rightarrow> string \<Rightarrow> approval_task_state \<Rightarrow> string \<Rightarrow> store \<Rightarrow> store" where
  "ApprovalTask_Create uuid now did approver st createdBy s =
    s\<lparr>approval_tasks := approval_tasks s @
        [\<lparr>task_id = uuid (next_uuid s), task_did = did, task_state = st, task_owner = approver,
          task_created_by = createdBy, task_created_at = now\<rparr>],
      next_uuid := next_uuid s + 1\<rparr>"

definition IsValidApprover :: "string \<Rightarrow> string \<Rightarrow> store \<Rightarrow> bool" where
  "IsValidApprover did approver s = list_ex (task_of did approver) (approval_tasks s)"

definition ApprovalTask_ReopenTasks :: "string \<Rightarrow> store \<Rightarrow> store" where
  "ApprovalTask_ReopenTasks did s = s\<lparr>approval_tasks := reopen_tasks AtOpen did (approval_tasks s)\<rparr>"

definition ApprovalTask_UpdateState ::
  "string \<Rightarrow> string \<Rightarrow> approval_task_state \<Rightarrow> store \<Rightarrow> (cwe_error, store) result" where
  "ApprovalTask_UpdateState did approver st s =
    (if \<not> list_ex (task_of did approver) (approval_tasks s) then Inl NoTask
     else Inr (s\<lparr>approval_tasks := set_task_state did approver st (approval_tasks s)\<rparr>))"

definition ApprovalTask_AnyTasksInState :: "string \<Rightarrow> approval_task_state list \<Rightarrow> store \<Rightarrow> bool" where
  "ApprovalTask_AnyTasksInState did states s =
    list_ex (\<lambda>t. task_did t = did \<and> task_state t \<in> set states) (approval_tasks s)"

definition ApprovalTask_TaskExistsInState ::
  "string \<Rightarrow> string \<Rightarrow> approval_task_state \<Rightarrow> store \<Rightarrow> bool" where
  "ApprovalTask_TaskExistsInState did approver st s =
    list_ex (\<lambda>t. task_of did approver t \<and> task_state t = st) (approval_tasks s)"

section \<open>Negotiation tasks\<close>

definition nt_of :: "string \<Rightarrow> string \<Rightarrow> int \<Rightarrow> negotiation_task \<Rightarrow> bool" where
  "nt_of did negotiator v t = (nt_did t = did \<and> nt_negotiator t = negotiator \<and> nt_version t = v)"

text \<open>\<open>Create\<close>: the unique index on (did, negotiator, version) absorbs a repeated mint.\<close>

definition NegotiationTask_Create ::
  "(nat \<Rightarrow> string) \<Rightarrow> int \<Rightarrow> string \<Rightarrow> int \<Rightarrow> string \<Rightarrow> negotiation_task_state \<Rightarrow> string \<Rightarrow> store \<Rightarrow> store"
where
  "NegotiationTask_Create uuid now did v negotiator st createdBy s =
    (if list_ex (nt_of did negotiator v) (negotiation_tasks s) then s
     else s\<lparr>negotiation_tasks := negotiation_tasks s @
        [\<lparr>nt_id = uuid (next_uuid s), nt_did = did, nt_version = v, nt_state = st,
          nt_negotiator = negotiator, nt_created_by = createdBy, nt_created_at = now\<rparr>],
      next_uuid := next_uuid s + 1\<rparr>)"

definition IsValidNegotiator :: "string \<Rightarrow> string \<Rightarrow> int \<Rightarrow> store \<Rightarrow> bool" where
  "IsValidNegotiator did negotiator v s = list_ex (nt_of did negotiator v) (negotiation_tasks s)"

definition NegotiationTask_ReopenTasks :: "string \<Rightarrow> int \<Rightarrow> store \<Rightarrow> store" where
  "NegotiationTask_ReopenTasks did v s =
    s\<lparr>negotiation_tasks := map (\<lambda>t. if nt_did t = did \<and> nt_version t = v
        then t\<lparr>nt_state := NtOpen\<rparr> else t) (negotiation_tasks s)\<rparr>"

definition RollForward :: "string \<Rightarrow> int \<Rightarrow> int \<Rightarrow> store \<Rightarrow> store" where
  "RollForward did fromVersion toVersion s =
    s\<lparr>negotiation_tasks := map (\<lambda>t. if nt_did t = did \<and> nt_version t = fromVersion
        then t\<lparr>nt_version := toVersion, nt_state := NtOpen\<rparr> else t) (negotiation_tasks s)\<rparr>"

definition ReadNegotiatorsForDID :: "string \<Rightarrow> store \<Rightarrow> string list" where
  "ReadNegotiatorsForDID did s =
    remdups (map nt_negotiator (filter (\<lambda>t. nt_did t = did) (negotiation_tasks s)))"

definition NegotiationTask_UpdateState ::
  "string \<Rightarrow> string \<Rightarrow> int \<Rightarrow> negotiation_task_state \<Rightarrow> store \<Rightarrow> (cwe_error, store) result" where
  "NegotiationTask_UpdateState did negotiator v st s =
    (if \<not> list_ex (nt_of did negotiator v) (negotiation_tasks s) then Inl NoTask
     else Inr (s\<lparr>negotiation_tasks := map (\<lambda>t. if nt_of did negotiator v t
        then t\<lparr>nt_state := st\<rparr> else t) (negotiation_tasks s)\<rparr>))"

definition NegotiationTask_AnyTasksInState ::
  "string \<Rightarrow> int \<Rightarrow> negotiation_task_state list \<Rightarrow> store \<Rightarrow> bool" where
  "NegotiationTask_AnyTasksInState did v states s =
    list_ex (\<lambda>t. nt_did t = did \<and> nt_version t = v \<and> nt_state t \<in> set states) (negotiation_tasks s)"

definition nt_in_state :: "string \<Rightarrow> string \<Rightarrow> int \<Rightarrow> negotiation_task_state \<Rightarrow> store \<Rightarrow> bool" where
  "nt_in_state did negotiator v st s =
    list_ex (\<lambda>t. nt_of did negotiator v t \<and> nt_state t = st) (negotiation_tasks s)"

section \<open>Negotiations and decisions\<close>

fun create_decisions :: "(nat \<Rightarrow> string) \<Rightarrow> string \<Rightarrow> string list \<Rightarrow> store \<Rightarrow> store" where
  "create_decisions uuid nid [] s = s"
| "create_decisions uuid nid (negotiator # rest) s =
     create_decisions uuid nid rest
       (s\<lparr>decisions := decisions s @ [\<lparr>d_id = uuid (next_uuid s), d_negotiation_id = nid,
            d_negotiator = negotiator, d_decision = None, d_rejection_reason = None\<rparr>],
          next_uuid := next_uuid s + 1\<rparr>)"

definition Negotiation_Create ::
  "(nat \<Rightarrow> string) \<Rightarrow> int \<Rightarrow> string \<Rightarrow> int \<Rightarrow> json option \<Rightarrow> string \<Rightarrow> string list \<Rightarrow> store \<Rightarrow> store"
where
  "Negotiation_Create uuid now did v changeRequest createdBy negotiators s =
    (let nid = uuid (next_uuid s)
     in create_decisions uuid nid negotiators
          (s\<lparr>negotiations := negotiations s @ [\<lparr>n_id = nid, n_did = did, n_version = v,
               n_change_request = changeRequest, n_created_by = createdBy, n_created_at = now,
               n_superseded_by = None\<rparr>],
             next_uuid := next_uuid s + 1\<rparr>))"

definition UpsertDraft :: "int \<Rightarrow> string \<Rightarrow> string \<Rightarrow> json option \<Rightarrow> store \<Rightarrow> store" where
  "UpsertDraft now did savedBy changeRequest s =
    s\<lparr>drafts := (drafts s)((did, savedBy) \<mapsto> (changeRequest, now))\<rparr>"

definition ReadDraft :: "string \<Rightarrow> string \<Rightarrow> store \<Rightarrow> (json option \<times> int) option" where
  "ReadDraft did savedBy s = drafts s (did, savedBy)"

definition DeleteDraft :: "string \<Rightarrow> string \<Rightarrow> store \<Rightarrow> store" where
  "DeleteDraft did savedBy s = s\<lparr>drafts := (drafts s)((did, savedBy) := None)\<rparr>"

text \<open>
  \<open>Accept\<close> and \<open>Reject\<close> touch the decisions of an existing negotiation only (the join
  with \<open>contract_negotiations\<close>), and only undecided ones.
\<close>

definition open_decision :: "store \<Rightarrow> string \<Rightarrow> decision_row \<Rightarrow> bool" where
  "open_decision s nid d =
    (d_negotiation_id d = nid \<and> d_decision d = None \<and> list_ex (\<lambda>n. n_id n = nid) (negotiations s))"

definition Negotiation_Accept :: "string \<Rightarrow> string \<Rightarrow> store \<Rightarrow> (cwe_error, store) result" where
  "Negotiation_Accept nid acceptedBy s =
    (let hit = (\<lambda>d. open_decision s nid d \<and> d_negotiator d = acceptedBy)
     in if \<not> list_ex hit (decisions s) then Inl NoMatchingDecision
        else Inr (s\<lparr>decisions := map (\<lambda>d. if hit d then d\<lparr>d_decision := Some DAccepted\<rparr> else d)
               (decisions s)\<rparr>))"

definition Negotiation_Reject ::
  "string \<Rightarrow> string \<Rightarrow> string option \<Rightarrow> store \<Rightarrow> (cwe_error, store) result" where
  "Negotiation_Reject nid rejectedBy reason s =
    (if \<not> list_ex (open_decision s nid) (decisions s) then Inl NoMatchingDecision
     else Inr (s\<lparr>decisions := map (\<lambda>d. if open_decision s nid d
            then (if d_negotiator d = rejectedBy
                  then d\<lparr>d_decision := Some DRejected, d_rejection_reason := reason\<rparr>
                  else d\<lparr>d_decision := Some DClosed, d_rejection_reason := None\<rparr>)
            else d) (decisions s)\<rparr>))"

definition ReadCreatedByByNegotiationID :: "string \<Rightarrow> store \<Rightarrow> (cwe_error, string) result" where
  "ReadCreatedByByNegotiationID nid s =
    (case filter (\<lambda>n. n_id n = nid) (negotiations s) of
       [] \<Rightarrow> Inl NoMatchingDecision
     | n # _ \<Rightarrow> Inr (n_created_by n))"

definition decisions_of :: "store \<Rightarrow> string \<Rightarrow> decision_row list" where
  "decisions_of s nid = filter (\<lambda>d. d_negotiation_id d = nid) (decisions s)"

text \<open>
  The accepted change requests of a round: an inner join, so a request without a
  decision row does not count; grouped, all decisions accepted.  The \<open>ORDER BY\<close> of
  the statement is made once more by the consumer (\<open>MergeChangeRequests\<close>), which is
  where the model sorts.
\<close>

definition ReadAllAcceptedByContractDIDAndVersion :: "string \<Rightarrow> int \<Rightarrow> store \<Rightarrow> negotiation list" where
  "ReadAllAcceptedByContractDIDAndVersion did v s =
    filter (\<lambda>n. n_did n = did \<and> n_version n = v \<and> decisions_of s (n_id n) \<noteq> []
              \<and> list_all (\<lambda>d. d_decision d = Some DAccepted) (decisions_of s (n_id n)))
      (negotiations s)"

definition HasOpenNegotiationDecisions ::
  "string \<Rightarrow> int \<Rightarrow> string \<Rightarrow> string \<Rightarrow> store \<Rightarrow> bool" where
  "HasOpenNegotiationDecisions did v negotiator caller s =
    list_ex (\<lambda>n. n_did n = did \<and> n_version n = v
        \<and> list_ex (\<lambda>d. d_decision d = None \<and> d_negotiator d = negotiator) (decisions_of s (n_id n))
        \<and> (caller = '''' \<or> n_created_by n \<noteq> caller))
      (negotiations s)"

definition HasNegotiationForContractVersion :: "string \<Rightarrow> int \<Rightarrow> store \<Rightarrow> bool" where
  "HasNegotiationForContractVersion did v s =
    list_ex (\<lambda>n. n_did n = did \<and> n_version n = v \<and> decisions_of s (n_id n) \<noteq> []) (negotiations s)"

text \<open>
  \<open>MarkSuperseded\<close>: the records are grouped per losing request; a request that does
  not exist is an error.
\<close>

fun mark_loop :: "supersession list \<Rightarrow> string list \<Rightarrow> store \<Rightarrow> (cwe_error, store) result" where
  "mark_loop sups [] s = Inr s"
| "mark_loop sups (nid # rest) s =
     (if \<not> list_ex (\<lambda>n. n_id n = nid) (negotiations s) then Inl NoMatchingDecision
      else mark_loop sups rest
        (s\<lparr>negotiations := map (\<lambda>n. if n_id n = nid
             then n\<lparr>n_superseded_by := Some (filter (\<lambda>u. sup_negotiation_id u = nid) sups)\<rparr> else n)
             (negotiations s)\<rparr>))"

definition MarkSuperseded :: "supersession list \<Rightarrow> store \<Rightarrow> (cwe_error, store) result" where
  "MarkSuperseded sups s = mark_loop sups (nub_seen [] (map sup_negotiation_id sups)) s"

section \<open>Settlements\<close>

definition settled_by :: "string \<Rightarrow> string \<Rightarrow> settlement \<Rightarrow> bool" where
  "settled_by did peer t = (st_did t = did \<and> st_from_peer t = peer)"

text \<open>\<open>ORDER BY settled_at DESC LIMIT 1\<close>.\<close>

definition newest :: "settlement list \<Rightarrow> settlement option" where
  "newest ts = (case ts of [] \<Rightarrow> None
     | t # rest \<Rightarrow> Some (fold (\<lambda>x best. if st_settled_at x > st_settled_at best then x else best) rest t))"

definition GetSettlement :: "string \<Rightarrow> string \<Rightarrow> store \<Rightarrow> settlement option" where
  "GetSettlement did peer s = newest (filter (settled_by did peer) (settlements s))"

definition GetSettlementsBy :: "string \<Rightarrow> string \<Rightarrow> store \<Rightarrow> settlement list" where
  "GetSettlementsBy did peer s =
    sort_key (\<lambda>t. map (of_char :: char \<Rightarrow> nat) (st_to_peer t)) (filter (settled_by did peer) (settlements s))"

definition DeleteSettlementsBy :: "string \<Rightarrow> string \<Rightarrow> store \<Rightarrow> store" where
  "DeleteSettlementsBy did peer s =
    s\<lparr>settlements := filter (\<lambda>t. \<not> settled_by did peer t) (settlements s)\<rparr>"

definition same_withdrawal :: "withdrawal \<Rightarrow> withdrawal \<Rightarrow> bool" where
  "same_withdrawal w w' =
    (w_did w = w_did w' \<and> w_from_peer w = w_from_peer w' \<and> w_to_peer w = w_to_peer w')"

definition UpsertSettlementWithdrawal :: "withdrawal \<Rightarrow> store \<Rightarrow> store" where
  "UpsertSettlementWithdrawal w s =
    s\<lparr>withdrawals := filter (\<lambda>x. \<not> same_withdrawal w x) (withdrawals s) @ [w\<lparr>w_delivered := False\<rparr>]\<rparr>"

section \<open>The repositories keep the contract\<close>

lemma task_of_update [simp]: "task_of did owner (t\<lparr>task_state := st\<rparr>) = task_of did owner t"
  by (simp add: task_of_def)

lemma list_ex_map_iff: "list_ex P (map f xs) \<longleftrightarrow> (\<exists>x\<in>set xs. P (f x))"
  by (induction xs) auto

lemma list_ex_map_cong:
  "(\<And>x. x \<in> set xs \<Longrightarrow> P (f x) \<longleftrightarrow> Q x) \<Longrightarrow> list_ex P (map f xs) \<longleftrightarrow> list_ex Q xs"
  by (induction xs) auto

lemma list_ex_conj_const: "list_ex (\<lambda>x. b \<and> P x) xs \<longleftrightarrow> b \<and> list_ex P xs"
  by (induction xs) auto

lemma set_task_state_ex:
  assumes "list_ex (task_of did owner) ts"
  shows "list_ex (\<lambda>t. task_of did' owner' t \<and> task_state t = st') (set_task_state did owner st ts)
    \<longleftrightarrow> (if did' = did \<and> owner' = owner then st' = st
         else list_ex (\<lambda>t. task_of did' owner' t \<and> task_state t = st') ts)"
proof (cases "did' = did \<and> owner' = owner")
  case True
  have "list_ex (\<lambda>t. task_of did' owner' t \<and> task_state t = st') (set_task_state did owner st ts)
    \<longleftrightarrow> list_ex (\<lambda>t. st' = st \<and> task_of did owner t) ts"
    unfolding set_task_state_def using True by (intro list_ex_map_cong) auto
  with True assms show ?thesis by (simp add: list_ex_conj_const)
next
  case False
  have "list_ex (\<lambda>t. task_of did' owner' t \<and> task_state t = st') (set_task_state did owner st ts)
    \<longleftrightarrow> list_ex (\<lambda>t. task_of did' owner' t \<and> task_state t = st') ts"
    unfolding set_task_state_def using False by (intro list_ex_map_cong) (auto simp: task_of_def)
  with False show ?thesis by auto
qed

lemma reopen_tasks_ex:
  "list_ex (\<lambda>t. task_of did' owner t \<and> task_state t = st') (reopen_tasks st did ts)
    \<longleftrightarrow> (if did' = did then st' = st \<and> list_ex (task_of did owner) ts
         else list_ex (\<lambda>t. task_of did' owner t \<and> task_state t = st') ts)"
proof -
  have "list_ex (\<lambda>t. task_of did' owner t \<and> task_state t = st') (reopen_tasks st did ts)
    \<longleftrightarrow> list_ex (\<lambda>t. if did' = did then st' = st \<and> task_of did owner t
          else task_of did' owner t \<and> task_state t = st') ts"
    unfolding reopen_tasks_def by (intro list_ex_map_cong) (auto simp: task_of_def)
  then show ?thesis by (simp add: list_ex_conj_const)
qed

interpretation review_repo: task_repo IsValidReviewer ReviewTask_UpdateState
  ReviewTask_ReopenTasks ReviewTask_TaskExistsInState RtOpen ReviewTask_AnyTasksInState
proof unfold_locales
  show "IsValidReviewer did owner ts \<longleftrightarrow> (\<exists>st. ReviewTask_TaskExistsInState did owner st ts)" for did owner ts
    by (auto simp: IsValidReviewer_def ReviewTask_TaskExistsInState_def list_ex_iff)
  show "(\<exists>ts'. ReviewTask_UpdateState did owner st ts = Inr ts') \<longleftrightarrow> IsValidReviewer did owner ts" for did owner st ts
    by (simp add: IsValidReviewer_def ReviewTask_UpdateState_def)
  show "ReviewTask_TaskExistsInState did' owner' st' ts' \<longleftrightarrow>
      (if did' = did \<and> owner' = owner then st' = st
       else ReviewTask_TaskExistsInState did' owner' st' ts)"
    if "ReviewTask_UpdateState did owner st ts = Inr ts'" for did owner st ts ts' did' owner' st'
    using that set_task_state_ex [of did owner "review_tasks ts"]
    by (auto simp: ReviewTask_UpdateState_def ReviewTask_TaskExistsInState_def split: if_splits)
  show "ReviewTask_AnyTasksInState did sts ts \<longleftrightarrow>
      (\<exists>owner. \<exists>st\<in>set sts. ReviewTask_TaskExistsInState did owner st ts)" for did sts ts
    by (auto simp: ReviewTask_AnyTasksInState_def ReviewTask_TaskExistsInState_def list_ex_iff task_of_def)
  show "ReviewTask_TaskExistsInState did' owner st (ReviewTask_ReopenTasks did ts) \<longleftrightarrow>
      (if did' = did then st = RtOpen \<and> IsValidReviewer did owner ts
       else ReviewTask_TaskExistsInState did' owner st ts)" for did did' owner st ts
    by (simp add: IsValidReviewer_def ReviewTask_TaskExistsInState_def ReviewTask_ReopenTasks_def reopen_tasks_ex)
qed

interpretation approval_repo: task_repo IsValidApprover ApprovalTask_UpdateState
  ApprovalTask_ReopenTasks ApprovalTask_TaskExistsInState AtOpen ApprovalTask_AnyTasksInState
proof unfold_locales
  show "IsValidApprover did owner ts \<longleftrightarrow> (\<exists>st. ApprovalTask_TaskExistsInState did owner st ts)" for did owner ts
    by (auto simp: IsValidApprover_def ApprovalTask_TaskExistsInState_def list_ex_iff)
  show "(\<exists>ts'. ApprovalTask_UpdateState did owner st ts = Inr ts') \<longleftrightarrow> IsValidApprover did owner ts" for did owner st ts
    by (simp add: IsValidApprover_def ApprovalTask_UpdateState_def)
  show "ApprovalTask_TaskExistsInState did' owner' st' ts' \<longleftrightarrow>
      (if did' = did \<and> owner' = owner then st' = st
       else ApprovalTask_TaskExistsInState did' owner' st' ts)"
    if "ApprovalTask_UpdateState did owner st ts = Inr ts'" for did owner st ts ts' did' owner' st'
    using that set_task_state_ex [of did owner "approval_tasks ts"]
    by (auto simp: ApprovalTask_UpdateState_def ApprovalTask_TaskExistsInState_def split: if_splits)
  show "ApprovalTask_AnyTasksInState did sts ts \<longleftrightarrow>
      (\<exists>owner. \<exists>st\<in>set sts. ApprovalTask_TaskExistsInState did owner st ts)" for did sts ts
    by (auto simp: ApprovalTask_AnyTasksInState_def ApprovalTask_TaskExistsInState_def list_ex_iff task_of_def)
  show "ApprovalTask_TaskExistsInState did' owner st (ApprovalTask_ReopenTasks did ts) \<longleftrightarrow>
      (if did' = did then st = AtOpen \<and> IsValidApprover did owner ts
       else ApprovalTask_TaskExistsInState did' owner st ts)" for did did' owner st ts
    by (simp add: IsValidApprover_def ApprovalTask_TaskExistsInState_def ApprovalTask_ReopenTasks_def reopen_tasks_ex)
qed

lemma nt_update_in:
  assumes "NegotiationTask_UpdateState did owner v st s = Inr s'"
  shows "nt_in_state did' owner' v st' s' \<longleftrightarrow>
      (if did' = did \<and> owner' = owner then st' = st else nt_in_state did' owner' v st' s)"
proof -
  obtain t where t: "t \<in> set (negotiation_tasks s)" "nt_of did owner v t"
    and s': "s' = s\<lparr>negotiation_tasks := map (\<lambda>t. if nt_of did owner v t then t\<lparr>nt_state := st\<rparr> else t)
        (negotiation_tasks s)\<rparr>"
    using assms by (auto simp: NegotiationTask_UpdateState_def list_ex_iff split: if_splits)
  let ?P = "\<lambda>t. nt_of did' owner' v t \<and> nt_state t = st'"
  have "nt_in_state did' owner' v st' s' \<longleftrightarrow>
      list_ex (\<lambda>t. if nt_of did owner v t then did' = did \<and> owner' = owner \<and> st' = st else ?P t)
        (negotiation_tasks s)"
    unfolding s' nt_in_state_def by (simp, intro list_ex_map_cong) (auto simp: nt_of_def)
  also have "\<dots> \<longleftrightarrow> (if did' = did \<and> owner' = owner then st' = st else list_ex ?P (negotiation_tasks s))"
    using t by (auto simp: list_ex_iff nt_of_def)
  finally show ?thesis by (simp add: nt_in_state_def)
qed

lemma nt_reopen_in:
  "nt_in_state did' owner v st (NegotiationTask_ReopenTasks did v s) \<longleftrightarrow>
      (if did' = did then st = NtOpen \<and> IsValidNegotiator did owner v s
       else nt_in_state did' owner v st s)"
proof -
  have "nt_in_state did' owner v st (NegotiationTask_ReopenTasks did v s) \<longleftrightarrow>
      list_ex (\<lambda>t. if did' = did then st = NtOpen \<and> nt_of did owner v t
        else nt_of did' owner v t \<and> nt_state t = st) (negotiation_tasks s)"
    unfolding nt_in_state_def NegotiationTask_ReopenTasks_def
    by (simp, intro list_ex_map_cong) (auto simp: nt_of_def)
  then show ?thesis by (simp add: list_ex_conj_const nt_in_state_def IsValidNegotiator_def)
qed

interpretation negotiation_repo: task_repo "\<lambda>did owner. IsValidNegotiator did owner v"
  "\<lambda>did owner. NegotiationTask_UpdateState did owner v"
  "\<lambda>did. NegotiationTask_ReopenTasks did v" "\<lambda>did owner. nt_in_state did owner v" NtOpen
  "\<lambda>did. NegotiationTask_AnyTasksInState did v"
  for v
proof unfold_locales
  show "IsValidNegotiator did owner v ts \<longleftrightarrow> (\<exists>st. nt_in_state did owner v st ts)" for did owner ts
    by (auto simp: IsValidNegotiator_def nt_in_state_def list_ex_iff)
  show "(\<exists>ts'. NegotiationTask_UpdateState did owner v st ts = Inr ts') \<longleftrightarrow> IsValidNegotiator did owner v ts"
    for did owner st ts
    by (simp add: IsValidNegotiator_def NegotiationTask_UpdateState_def)
  show "nt_in_state did' owner' v st' ts' \<longleftrightarrow>
      (if did' = did \<and> owner' = owner then st' = st else nt_in_state did' owner' v st' ts)"
    if "NegotiationTask_UpdateState did owner v st ts = Inr ts'" for did owner st ts ts' did' owner' st'
    by (rule nt_update_in [OF that])
  show "NegotiationTask_AnyTasksInState did v sts ts \<longleftrightarrow>
      (\<exists>owner. \<exists>st\<in>set sts. nt_in_state did owner v st ts)" for did sts ts
    by (auto simp: NegotiationTask_AnyTasksInState_def nt_in_state_def list_ex_iff nt_of_def)
  show "nt_in_state did' owner v st (NegotiationTask_ReopenTasks did v ts) \<longleftrightarrow>
      (if did' = did then st = NtOpen \<and> IsValidNegotiator did owner v ts
       else nt_in_state did' owner v st ts)" for did did' owner st ts
    by (rule nt_reopen_in)
qed

section \<open>Frame facts\<close>

text \<open>
  What an operation of one table leaves alone; the handlers' proofs use these as
  simplification rules.
\<close>

lemma contracts_task_ops [frame_simps, simp]:
  "contracts (ReviewTask_Create u n d r t c s) = contracts s"
  "contracts (ReviewTask_ReopenTasks d s) = contracts s"
  "contracts (ApprovalTask_Create u n d r ta c s) = contracts s"
  "contracts (ApprovalTask_ReopenTasks d s) = contracts s"
  "contracts (NegotiationTask_Create u n d v g tn c s) = contracts s"
  "contracts (NegotiationTask_ReopenTasks d v s) = contracts s"
  "contracts (RollForward d v v' s) = contracts s"
  "contracts (UpsertDraft n d b j s) = contracts s"
  "contracts (DeleteDraft d b s) = contracts s"
  "contracts (DeleteSettlementsBy d p s) = contracts s"
  "contracts (UpsertSettlementWithdrawal w s) = contracts s"
  "contracts (EnqueueTx d st r e s) = contracts s"
  "contracts (CreateHistoryEntryForDID n d s) = contracts s"
  by (simp_all add: ReviewTask_Create_def ReviewTask_ReopenTasks_def ApprovalTask_Create_def
      ApprovalTask_ReopenTasks_def NegotiationTask_Create_def NegotiationTask_ReopenTasks_def
      RollForward_def UpsertDraft_def DeleteDraft_def DeleteSettlementsBy_def
      UpsertSettlementWithdrawal_def EnqueueTx_def CreateHistoryEntryForDID_def split: option.splits)

lemma contracts_create_decisions [frame_simps, simp]:
  "contracts (create_decisions uuid nid ns s) = contracts s"
  by (induction ns arbitrary: s) simp_all

lemma contracts_Negotiation_Create [frame_simps, simp]:
  "contracts (Negotiation_Create u n d v j b ns s) = contracts s"
  by (simp add: Negotiation_Create_def Let_def)

lemma contracts_result_ops [frame_simps]:
  "ReviewTask_UpdateState d r t s = Inr s' \<Longrightarrow> contracts s' = contracts s"
  "ApprovalTask_UpdateState d r ta s = Inr s' \<Longrightarrow> contracts s' = contracts s"
  "NegotiationTask_UpdateState d r v tn s = Inr s' \<Longrightarrow> contracts s' = contracts s"
  "Negotiation_Accept i b s = Inr s' \<Longrightarrow> contracts s' = contracts s"
  "Negotiation_Reject i b rr s = Inr s' \<Longrightarrow> contracts s' = contracts s"
  "event_Create e s = Inr s' \<Longrightarrow> contracts s' = contracts s"
  by (auto simp: ReviewTask_UpdateState_def ApprovalTask_UpdateState_def
      NegotiationTask_UpdateState_def Negotiation_Accept_def Negotiation_Reject_def event_Create_def
      Let_def split: if_splits)

lemma contracts_mark_loop: "mark_loop sups ids s = Inr s' \<Longrightarrow> contracts s' = contracts s"
  by (induction sups ids s rule: mark_loop.induct) (auto split: if_splits)

lemma contracts_MarkSuperseded [frame_simps]:
  "MarkSuperseded sups s = Inr s' \<Longrightarrow> contracts s' = contracts s"
  by (auto simp: MarkSuperseded_def dest: contracts_mark_loop)

text \<open>
  A row operation touches one row: the row of another contract stays as it is, the
  row itself keeps its identity and only moves its clocks forward.
\<close>

lemma contracts_update_row:
  "contracts (update_row now did f s) did' =
     (if did' = did then map_option (\<lambda>c. revision_trigger now c (content_trigger now c (f c))) (contracts s did)
      else contracts s did')"
  by (auto simp: update_row_def split: option.splits)

lemma UpdateState_state:
  "map_option c_state (contracts (UpdateState now did st s) did') =
     (if did' = did then map_option (\<lambda>_. st) (contracts s did) else map_option c_state (contracts s did'))"
  by (simp add: UpdateState_def contracts_update_row option.map_comp comp_def)

lemma UpdateState_keeps:
  "map_option c_data (contracts (UpdateState now did st s) did') = map_option c_data (contracts s did')"
  "map_option c_version (contracts (UpdateState now did st s) did') = map_option c_version (contracts s did')"
  by (simp_all add: UpdateState_def contracts_update_row option.map_comp comp_def)

lemma set_columns_keeps:
  "c_pdf (fold set_column cols c) = c_pdf c"
  "c_did (fold set_column cols c) = c_did c"
  "c_origin (fold set_column cols c) = c_origin c"
  "c_created_by (fold set_column cols c) = c_created_by c"
  "c_updated_at (fold set_column cols c) = c_updated_at c"
  "c_content_updated_at (fold set_column cols c) = c_content_updated_at c"
proof -
  have one: "c_pdf (set_column x c) = c_pdf c \<and> c_did (set_column x c) = c_did c
    \<and> c_origin (set_column x c) = c_origin c \<and> c_created_by (set_column x c) = c_created_by c
    \<and> c_updated_at (set_column x c) = c_updated_at c
    \<and> c_content_updated_at (set_column x c) = c_content_updated_at c" for x c
    by (cases x) simp_all
  show "c_pdf (fold set_column cols c) = c_pdf c"
    "c_did (fold set_column cols c) = c_did c"
    "c_origin (fold set_column cols c) = c_origin c"
    "c_created_by (fold set_column cols c) = c_created_by c"
    "c_updated_at (fold set_column cols c) = c_updated_at c"
    "c_content_updated_at (fold set_column cols c) = c_content_updated_at c"
    by (induction cols arbitrary: c) (simp_all add: one)
qed

end
