(* ===== verification/Engine_Env.thy ===== *)
theory Engine_Env
  imports Task_Repo
begin

text \<open>
  The collaborators of the command handlers that the development does not model
  itself, collected in one record: every handler takes it as its first argument and
  every theorem holds for all its values.  A field that may fail is an option, a
  check is a Boolean (the check passes).

  \<^item> \<open>local_peer\<close>: \<open>identity.DIDDocument.GetID\<close>;
  \<^item> \<open>uuid\<close>: \<open>gen_random_uuid()\<close> of the database, by call number;
  \<^item> \<open>digest8\<close>: the hexadecimal first eight bytes of a SHA-256;
  \<^item> \<open>parse_rfc3339\<close>: \<open>time.Parse(time.RFC3339, _)\<close>;
  \<^item> \<open>normalize\<close>: \<open>validation.NormalizeContractDataForPersistence\<close>;
  \<^item> \<open>carry_bundle\<close>: \<open>validation.CarrySemanticBundle\<close>;
  \<^item> \<open>semantics_ok\<close>: \<open>validation.ValidateContractSemantics\<close>;
  \<^item> \<open>hub_ok\<close>: \<open>validation.RequireHubConformance\<close>;
  \<^item> \<open>closed_ok\<close>: \<open>validation.ValidateContractClosed\<close>;
  \<^item> \<open>policy_ok\<close>: \<open>validation.ValidateContractPolicySatisfaction\<close>;
  \<^item> \<open>materialize\<close>: \<open>semanticmapper.BuildContractJSONLD\<close>;
  \<^item> \<open>document_digest\<close>: \<open>jades.ContractDocumentDigest\<close>.
\<close>

record env =
  local_peer :: "string option"
  uuid :: "nat \<Rightarrow> string"
  digest8 :: "string \<Rightarrow> string"
  parse_rfc3339 :: "string \<Rightarrow> int option"
  normalize :: "json \<Rightarrow> string \<Rightarrow> bool \<Rightarrow> json option"
  carry_bundle :: "json option \<Rightarrow> json \<Rightarrow> json option"
  semantics_ok :: "json option \<Rightarrow> bool"
  hub_ok :: "json option \<Rightarrow> bool"
  closed_ok :: "json \<Rightarrow> bool"
  policy_ok :: "json \<Rightarrow> bool"
  materialize :: "contract \<Rightarrow> json option"
  document_digest :: "json option \<Rightarrow> string option"

definition GetID :: "env \<Rightarrow> (cwe_error, string) result" where
  "GetID e = of_option NoLocalPeer (local_peer e)"

lemma GetID_Inr [simp]: "GetID e = Inr p \<longleftrightarrow> local_peer e = Some p"
  by (simp add: GetID_def)

text \<open>A concrete environment on which the properties are exercised.\<close>

definition demo_env :: env where
  "demo_env = \<lparr>local_peer = Some ''did:web:a'', uuid = (\<lambda>n. CHR ''u'' # dec n),
     digest8 = (\<lambda>_. ''00''), parse_rfc3339 = (\<lambda>_. None),
     normalize = (\<lambda>j _ _. Some j), carry_bundle = (\<lambda>_ j. Some j),
     semantics_ok = (\<lambda>_. True), hub_ok = (\<lambda>_. True), closed_ok = (\<lambda>_. True),
     policy_ok = (\<lambda>_. True), materialize = (\<lambda>c. c_data c),
     document_digest = (\<lambda>_. Some ''digest'')\<rparr>"

end
