(* ===== verification/Negotiation_Merge.thy ===== *)
theory Negotiation_Merge
  imports Engine_Env "HOL-Library.Product_Lexorder" "HOL-Library.Multiset"
begin

text \<open>
  The fold of a negotiation round into a new contract version
  (\<open>negotiationmerging/mergechangerequests.go\<close>): accepted change requests are applied
  oldest first, a later one overwrites an earlier one field by field, and a log
  records which accepted request lost which field to which other request.
\<close>

section \<open>Change requests\<close>

record change_request =
  cr_name :: "string option"
  cr_description :: "string option"
  cr_data :: "json option"
  cr_start_date :: "string option"
  cr_exp_date :: "string option"
  cr_exp_notice_period :: "int option"
  cr_exp_policy :: "string option"

definition empty_change :: change_request where
  "empty_change = \<lparr>cr_name = None, cr_description = None, cr_data = None, cr_start_date = None,
     cr_exp_date = None, cr_exp_notice_period = None, cr_exp_policy = None\<rparr>"

definition digit_value :: "char \<Rightarrow> int option" where
  "digit_value c = (let n = (of_char c :: int) in if 48 \<le> n \<and> n \<le> 57 then Some (n - 48) else None)"

fun digits_value :: "int \<Rightarrow> string \<Rightarrow> int option" where
  "digits_value acc [] = Some acc"
| "digits_value acc (c # cs) =
     (case digit_value c of None \<Rightarrow> None | Some d \<Rightarrow> digits_value (10 * acc + d) cs)"

text \<open>\<open>strconv.ParseInt\<close> on a JSON number literal, into a 64-bit \<open>int\<close>.\<close>

definition parse_int :: "string \<Rightarrow> int option" where
  "parse_int s =
    (case (case s of
             CHR ''-'' # (c # cs) \<Rightarrow> map_option uminus (digits_value 0 (c # cs))
           | [] \<Rightarrow> None
           | _ \<Rightarrow> digits_value 0 s) of
       None \<Rightarrow> None
     | Some n \<Rightarrow> if - (2 ^ 63) \<le> n \<and> n < 2 ^ 63 then Some n else None)"

text \<open>A JSON value into a Go pointer: \<open>null\<close> is nil, a type mismatch an error.\<close>

definition to_string_ptr :: "json \<Rightarrow> string option option" where
  "to_string_ptr v = (case v of JNull \<Rightarrow> Some None | JStr s \<Rightarrow> Some (Some s) | _ \<Rightarrow> None)"

definition to_int_ptr :: "json \<Rightarrow> int option option" where
  "to_int_ptr v = (case v of JNull \<Rightarrow> Some None
     | JNum l \<Rightarrow> (case parse_int l of None \<Rightarrow> None | Some n \<Rightarrow> Some (Some n)) | _ \<Rightarrow> None)"

definition to_raw_ptr :: "json \<Rightarrow> json option" where
  "to_raw_ptr v = (case v of JNull \<Rightarrow> None | _ \<Rightarrow> Some v)"

text \<open>One key of the object: package \<open>encoding/json\<close> matches field names without regard to case.\<close>

definition decode_field :: "string \<Rightarrow> json \<Rightarrow> change_request \<Rightarrow> change_request option" where
  "decode_field k v c =
    (let key = to_lower k
     in if key = ''name'' then map_option (\<lambda>x. c\<lparr>cr_name := x\<rparr>) (to_string_ptr v)
        else if key = ''description'' then map_option (\<lambda>x. c\<lparr>cr_description := x\<rparr>) (to_string_ptr v)
        else if key = ''contract_data'' then Some (c\<lparr>cr_data := to_raw_ptr v\<rparr>)
        else if key = ''start_date'' then map_option (\<lambda>x. c\<lparr>cr_start_date := x\<rparr>) (to_string_ptr v)
        else if key = ''exp_date'' then map_option (\<lambda>x. c\<lparr>cr_exp_date := x\<rparr>) (to_string_ptr v)
        else if key = ''exp_notice_period''
        then map_option (\<lambda>x. c\<lparr>cr_exp_notice_period := x\<rparr>) (to_int_ptr v)
        else if key = ''exp_policy'' then map_option (\<lambda>x. c\<lparr>cr_exp_policy := x\<rparr>) (to_string_ptr v)
        else Some c)"

fun decode_fields :: "json_map \<Rightarrow> change_request \<Rightarrow> change_request option" where
  "decode_fields [] c = Some c"
| "decode_fields ((k, v) # m) c =
     (case decode_field k v c of None \<Rightarrow> None | Some c' \<Rightarrow> decode_fields m c')"

definition decode_change :: "json \<Rightarrow> change_request option" where
  "decode_change j =
    (case j of JNull \<Rightarrow> Some empty_change | JObj m \<Rightarrow> decode_fields m empty_change | _ \<Rightarrow> None)"

definition fieldsSetBy :: "change_request \<Rightarrow> string list" where
  "fieldsSetBy change =
    (if cr_name change \<noteq> None then [''name''] else [])
    @ (if cr_description change \<noteq> None then [''description''] else [])
    @ (if cr_start_date change \<noteq> None then [''start_date''] else [])
    @ (if cr_exp_date change \<noteq> None then [''exp_date''] else [])
    @ (if cr_exp_notice_period change \<noteq> None then [''exp_notice_period''] else [])
    @ (if cr_exp_policy change \<noteq> None then [''exp_policy''] else [])
    @ (if cr_data change \<noteq> None then [''contract_data''] else [])"

section \<open>The discard log\<close>

record discard_log =
  dl_holder :: "(string \<times> string) list"
  dl_entries :: "supersession list"

definition newDiscardLog :: discard_log where
  "newDiscardLog = \<lparr>dl_holder = [], dl_entries = []\<rparr>"

definition is_entry :: "string \<Rightarrow> string \<Rightarrow> supersession \<Rightarrow> bool" where
  "is_entry loser winner e = (sup_negotiation_id e = loser \<and> sup_superseded_by e = winner)"

definition add_entry :: "string \<Rightarrow> string \<Rightarrow> string \<Rightarrow> supersession list \<Rightarrow> supersession list" where
  "add_entry loser winner field es =
    (if list_ex (is_entry loser winner) es
     then map (\<lambda>e. if is_entry loser winner e then e\<lparr>sup_fields := sup_fields e @ [field]\<rparr> else e) es
     else es @ [\<lparr>sup_negotiation_id = loser, sup_superseded_by = winner, sup_fields = [field]\<rparr>])"

fun claim :: "string \<Rightarrow> string list \<Rightarrow> discard_log \<Rightarrow> discard_log" where
  "claim nid [] d = d"
| "claim nid (field # rest) d =
     claim nid rest
       (d\<lparr>dl_entries := (case map_of (dl_holder d) field of
              Some previous \<Rightarrow> if previous \<noteq> nid then add_entry previous nid field (dl_entries d)
                else dl_entries d
            | None \<Rightarrow> dl_entries d),
          dl_holder := AList.update field nid (dl_holder d)\<rparr>)"

definition records :: "discard_log \<Rightarrow> supersession list" where
  "records d = dl_entries d"

section \<open>The fold\<close>

definition mergeContractDataChange :: "json_map \<Rightarrow> json \<Rightarrow> (cwe_error, json_map) result" where
  "mergeContractDataChange contractData rawChange =
    (case decode_map rawChange of
       None \<Rightarrow> Inl BadChangeRequest
     | Some None \<Rightarrow> Inr contractData
     | Some (Some changeData) \<Rightarrow>
         require (obj_get changeData ''dcs:documentStructure'' \<noteq> None) NotCanonical (Inr changeData))"

definition date_field ::
  "env \<Rightarrow> string option \<Rightarrow> int option \<Rightarrow> (cwe_error, int option) result" where
  "date_field e raw old =
    (case raw of None \<Rightarrow> Inr old
     | Some s \<Rightarrow> (case parse_rfc3339 e s of None \<Rightarrow> Inl BadDate | Some t \<Rightarrow> Inr (Some t)))"

definition first_some :: "'a option \<Rightarrow> 'a option \<Rightarrow> 'a option" where
  "first_some x y = (case x of None \<Rightarrow> y | Some _ \<Rightarrow> x)"

definition apply_change ::
  "env \<Rightarrow> string \<Rightarrow> change_request \<Rightarrow> contract_update \<times> json_map
     \<Rightarrow> (cwe_error, contract_update \<times> json_map) result" where
  "apply_change e did change st =
    (case st of (u, contractData) \<Rightarrow>
      bind_res (date_field e (cr_start_date change) (u_start_date u)) (\<lambda>sDate.
      bind_res (date_field e (cr_exp_date change) (u_exp_date u)) (\<lambda>eDate.
        (let u' = u\<lparr>u_name := first_some (cr_name change) (u_name u),
                    u_description := first_some (cr_description change) (u_description u),
                    u_start_date := sDate, u_exp_date := eDate,
                    u_exp_notice_period := first_some (cr_exp_notice_period change) (u_exp_notice_period u),
                    u_exp_policy := first_some (cr_exp_policy change) (u_exp_policy u)\<rparr>
         in case cr_data change of
              None \<Rightarrow> Inr (u', contractData)
            | Some raw \<Rightarrow>
                bind_res (mergeContractDataChange contractData raw) (\<lambda>updated.
                bind_res (of_option NormalizationFailed (normalize e (JObj updated) did True)) (\<lambda>norm.
                  Inr (u'\<lparr>u_data := Some norm\<rparr>, updated)))))))"

fun merge_loop ::
  "env \<Rightarrow> string \<Rightarrow> negotiation list \<Rightarrow> contract_update \<times> json_map \<Rightarrow> discard_log
     \<Rightarrow> (cwe_error, contract_update \<times> discard_log) result" where
  "merge_loop e did [] st log = Inr (fst st, log)"
| "merge_loop e did (n # ns) st log =
     (case n_change_request n of
        None \<Rightarrow> Inl NilPointer
      | Some raw \<Rightarrow>
          bind_res (of_option BadChangeRequest (decode_change raw)) (\<lambda>change.
          bind_res (apply_change e did change st) (\<lambda>st'.
            merge_loop e did ns st' (claim (n_id n) (fieldsSetBy change) log))))"

text \<open>\<open>slices.SortStableFunc\<close> by proposal time, then by identifier (byte order).\<close>

definition proposal_key :: "negotiation \<Rightarrow> int \<times> nat list" where
  "proposal_key n = (n_created_at n, map of_char (n_id n))"

definition or_empty :: "json_map option \<Rightarrow> json_map" where
  "or_empty doc = (case doc of None \<Rightarrow> [] | Some m \<Rightarrow> m)"

definition MergeChangeRequests ::
  "env \<Rightarrow> int \<Rightarrow> string \<Rightarrow> int \<Rightarrow> store
     \<Rightarrow> (cwe_error, contract_update \<times> supersession list) result" where
  "MergeChangeRequests e now did v s =
    bind_res (ReadDataByDID now did s) (\<lambda>contract.
    bind_res (of_option NilPointer (c_data contract)) (\<lambda>raw.
      (case decode_map raw of
         None \<Rightarrow> Inl BadChangeRequest
       | Some doc \<Rightarrow>
           bind_res (merge_loop e (c_did contract)
                (sort_key proposal_key (ReadAllAcceptedByContractDIDAndVersion did v s))
                (no_update (c_did contract), or_empty doc) newDiscardLog)
             (\<lambda>(u, log). Inr (u, records log)))))"

section \<open>The discard log is exact\<close>

definition superseded :: "supersession list \<Rightarrow> string \<Rightarrow> string \<Rightarrow> string \<Rightarrow> bool" where
  "superseded es loser winner field =
    list_ex (\<lambda>e. is_entry loser winner e \<and> field \<in> set (sup_fields e)) es"

lemma is_entry_fields [simp]:
  "is_entry a b (e\<lparr>sup_fields := fs\<rparr>) = is_entry a b e"
  by (simp add: is_entry_def)

lemma superseded_add_entry:
  "superseded (add_entry l w f es) l' w' f' \<longleftrightarrow>
     superseded es l' w' f' \<or> (l' = l \<and> w' = w \<and> f' = f)"
proof (cases "list_ex (is_entry l w) es")
  case True
  then obtain e where e: "e \<in> set es" "is_entry l w e" by (auto simp: list_ex_iff)
  have "superseded (add_entry l w f es) l' w' f' \<longleftrightarrow>
      list_ex (\<lambda>x. is_entry l' w' x \<and> (f' \<in> set (sup_fields x) \<or> (is_entry l w x \<and> f' = f))) es"
    unfolding superseded_def add_entry_def using True by (simp, intro list_ex_map_cong) auto
  also have "\<dots> \<longleftrightarrow> superseded es l' w' f' \<or> (l' = l \<and> w' = w \<and> f' = f)"
    using e by (fastforce simp: superseded_def is_entry_def list_ex_iff)
  finally show ?thesis .
next
  case False
  then show ?thesis by (auto simp: superseded_def add_entry_def is_entry_def)
qed

lemma claim_holder:
  "map_of (dl_holder (claim nid fs d)) f = (if f \<in> set fs then Some nid else map_of (dl_holder d) f)"
  by (induction nid fs d rule: claim.induct) (auto simp: update_conv')

lemma claim_superseded:
  assumes "distinct fs"
  shows "superseded (dl_entries (claim nid fs d)) a b f \<longleftrightarrow>
     superseded (dl_entries d) a b f \<or>
     (f \<in> set fs \<and> map_of (dl_holder d) f = Some a \<and> a \<noteq> nid \<and> b = nid)"
  using assms
proof (induction nid fs d rule: claim.induct)
  case (2 nid f' fs d)
  then show ?case
    by (auto simp: superseded_add_entry update_conv' split: option.splits)
qed simp

lemma distinct_fieldsSetBy: "distinct (fieldsSetBy change)"
  by (simp add: fieldsSetBy_def)

text \<open>The requests of a list that set a field, and the pairs that follow one another.\<close>

definition sets_field :: "string \<Rightarrow> negotiation \<Rightarrow> bool" where
  "sets_field f n =
    (case n_change_request n of None \<Rightarrow> False
     | Some raw \<Rightarrow> (case decode_change raw of None \<Rightarrow> False | Some c \<Rightarrow> f \<in> set (fieldsSetBy c)))"

definition setters :: "string \<Rightarrow> negotiation list \<Rightarrow> string list" where
  "setters f ns = map n_id (filter (sets_field f) ns)"

definition follows :: "'a list \<Rightarrow> 'a \<Rightarrow> 'a \<Rightarrow> bool" where
  "follows xs a b = (\<exists>us vs. xs = us @ a # b # vs)"

lemma follows_snoc: "follows (xs @ [x]) a b \<longleftrightarrow> follows xs a b \<or> (xs \<noteq> [] \<and> last xs = a \<and> b = x)"
proof
  assume "follows (xs @ [x]) a b"
  then obtain us vs where *: "xs @ [x] = us @ a # b # vs" by (auto simp: follows_def)
  show "follows xs a b \<or> (xs \<noteq> [] \<and> last xs = a \<and> b = x)"
  proof (cases vs rule: rev_cases)
    case Nil
    with * have "xs @ [x] = (us @ [a]) @ [b]" by simp
    then show ?thesis by (simp only: append1_eq_conv) simp
  next
    case (snoc ws w)
    with * have "xs @ [x] = (us @ a # b # ws) @ [w]" by simp
    then have "xs = us @ a # b # ws" by (simp only: append1_eq_conv)
    then show ?thesis by (auto simp: follows_def)
  qed
next
  assume "follows xs a b \<or> (xs \<noteq> [] \<and> last xs = a \<and> b = x)"
  then show "follows (xs @ [x]) a b"
  proof
    assume "follows xs a b"
    then obtain us vs where "xs = us @ a # b # vs" by (auto simp: follows_def)
    then have "xs @ [x] = us @ a # b # (vs @ [x])" by simp
    then show ?thesis unfolding follows_def by blast
  next
    assume *: "xs \<noteq> [] \<and> last xs = a \<and> b = x"
    then have "butlast xs @ [a] = xs" by auto
    then have "xs @ [x] = butlast xs @ a # b # []" using * by (metis append_Cons append_Nil append_assoc)
    then show ?thesis unfolding follows_def by blast
  qed
qed

text \<open>The log after a prefix \<open>done\<close> of the round has been folded.\<close>

definition log_ok :: "negotiation list \<Rightarrow> discard_log \<Rightarrow> bool" where
  "log_ok ns d =
    ((\<forall>f. map_of (dl_holder d) f = (if setters f ns = [] then None else Some (last (setters f ns))))
     \<and> (\<forall>a b f. superseded (dl_entries d) a b f \<longleftrightarrow> follows (setters f ns) a b))"

lemma log_ok_claim:
  assumes "log_ok ns d" "n_change_request n = Some raw" "decode_change raw = Some c"
    and "n_id n \<notin> n_id ` set ns"
  shows "log_ok (ns @ [n]) (claim (n_id n) (fieldsSetBy c) d)"
proof -
  have set: "setters f (ns @ [n]) = setters f ns @ (if f \<in> set (fieldsSetBy c) then [n_id n] else [])" for f
    using assms(2,3) by (simp add: setters_def sets_field_def)
  have fresh: "setters f ns \<noteq> [] \<Longrightarrow> last (setters f ns) \<noteq> n_id n" for f
    using assms(4) last_in_set [of "setters f ns"] by (auto simp: setters_def)
  show ?thesis
    unfolding log_ok_def
  proof (intro conjI allI)
    fix f
    show "map_of (dl_holder (claim (n_id n) (fieldsSetBy c) d)) f =
        (if setters f (ns @ [n]) = [] then None else Some (last (setters f (ns @ [n]))))"
      using assms(1) by (simp add: claim_holder set log_ok_def)
  next
    fix a b f
    show "superseded (dl_entries (claim (n_id n) (fieldsSetBy c) d)) a b f \<longleftrightarrow>
        follows (setters f (ns @ [n])) a b"
      using assms(1) fresh [of f]
      by (auto simp: claim_superseded [OF distinct_fieldsSetBy] set follows_snoc log_ok_def split: if_splits)
  qed
qed

lemma merge_loop_log:
  assumes "merge_loop e did ns st d = Inr (u, d')" "log_ok pre d"
    and "distinct (map n_id (pre @ ns))"
  shows "log_ok (pre @ ns) d'"
  using assms
proof (induction ns arbitrary: pre st d)
  case (Cons n ns)
  from Cons.prems(1) obtain raw c st' where
    r: "n_change_request n = Some raw" "decode_change raw = Some c"
       "merge_loop e did ns st' (claim (n_id n) (fieldsSetBy c) d) = Inr (u, d')"
    by (auto simp: bind_res_Inr_iff split: option.splits)
  have "log_ok (pre @ [n]) (claim (n_id n) (fieldsSetBy c) d)"
    using Cons.prems r by (intro log_ok_claim) auto
  from Cons.IH [OF r(3) this] Cons.prems(3) show ?case by simp
qed simp

lemma log_ok_new: "log_ok [] newDiscardLog"
  by (auto simp: log_ok_def newDiscardLog_def setters_def superseded_def follows_def)

section \<open>The last accepted value stands\<close>

lemma apply_change_fields:
  assumes "apply_change e did c st = Inr st'"
  shows "u_name (fst st') = first_some (cr_name c) (u_name (fst st))"
    and "cr_data c = None \<Longrightarrow> u_data (fst st') = u_data (fst st)"
    and "cr_data c = Some (JObj m) \<Longrightarrow>
           u_data (fst st') = normalize e (JObj m) did True \<and> obj_get m ''dcs:documentStructure'' \<noteq> None"
proof -
  obtain u cd where st: "st = (u, cd)" by fastforce
  note defs = apply_change_def st bind_res_Inr_iff Let_def
  show "u_name (fst st') = first_some (cr_name c) (u_name (fst st))"
    using assms by (cases "cr_data c") (auto simp: defs)
  show "u_data (fst st') = u_data (fst st)" if "cr_data c = None"
    using assms that by (auto simp: defs)
  show "u_data (fst st') = normalize e (JObj m) did True \<and> obj_get m ''dcs:documentStructure'' \<noteq> None"
    if "cr_data c = Some (JObj m)"
    using assms that by (auto simp: defs mergeContractDataChange_def decode_map_def require_Inr_iff)
qed

lemma fieldsSetBy_iff:
  "''name'' \<in> set (fieldsSetBy c) \<longleftrightarrow> cr_name c \<noteq> None"
  "''contract_data'' \<in> set (fieldsSetBy c) \<longleftrightarrow> cr_data c \<noteq> None"
  by (auto simp: fieldsSetBy_def)

lemma merge_loop_untouched:
  assumes "merge_loop e did ns st d = Inr (u, d')"
  shows "\<forall>m\<in>set ns. \<not> sets_field ''name'' m \<Longrightarrow> u_name u = u_name (fst st)"
    and "\<forall>m\<in>set ns. \<not> sets_field ''contract_data'' m \<Longrightarrow> u_data u = u_data (fst st)"
proof -
  show "u_name u = u_name (fst st)" if "\<forall>m\<in>set ns. \<not> sets_field ''name'' m"
    using assms that
    by (induction ns arbitrary: st d)
      (fastforce simp: bind_res_Inr_iff sets_field_def fieldsSetBy_iff first_some_def
        dest!: apply_change_fields(1) split: option.splits)+
  show "u_data u = u_data (fst st)" if "\<forall>m\<in>set ns. \<not> sets_field ''contract_data'' m"
    using assms that
    by (induction ns arbitrary: st d)
      (fastforce simp: bind_res_Inr_iff sets_field_def fieldsSetBy_iff
        dest!: apply_change_fields(2) split: option.splits)+
qed

lemma merge_loop_from:
  assumes "merge_loop e did (us @ n # vs) st d = Inr (u, d')"
    and "n_change_request n = Some raw" "decode_change raw = Some c"
  obtains st1 st2 d2 where "apply_change e did c st1 = Inr st2" "merge_loop e did vs st2 d2 = Inr (u, d')"
  using assms
proof (induction us arbitrary: st d thesis)
  case (Cons m us)
  then show ?case by (fastforce simp: bind_res_Inr_iff split: option.splits)
qed (auto simp: bind_res_Inr_iff)

lemma sort_key_mset_cong:
  assumes "mset xs = mset ys" "inj_on f (set xs)"
  shows "sort_key f xs = sort_key f ys"
  by (rule sort_key_inj_key_eq) (use assms in simp_all)

lemma inj_on_proposal_key: "distinct (map n_id ns) \<Longrightarrow> inj_on proposal_key (set ns)"
  by (auto simp: proposal_key_def inj_on_def distinct_map
      dest!: map_injective [OF _ inj_of_char])

lemma distinct_accepted:
  "distinct (map n_id (negotiations s)) \<Longrightarrow>
   distinct (map n_id (ReadAllAcceptedByContractDIDAndVersion did v s))"
  by (simp add: ReadAllAcceptedByContractDIDAndVersion_def distinct_map_filter)

text \<open>The accepted requests of a round in the order the fold applies them.\<close>

definition round_of :: "string \<Rightarrow> int \<Rightarrow> store \<Rightarrow> negotiation list" where
  "round_of did v s = sort_key proposal_key (ReadAllAcceptedByContractDIDAndVersion did v s)"

lemma MergeChangeRequests_loop:
  assumes "MergeChangeRequests e now did v s = Inr (u, sups)"
  obtains c m log where "contracts s did = Some c"
    "merge_loop e (c_did c) (round_of did v s) (no_update (c_did c), m) newDiscardLog = Inr (u, log)"
    "sups = dl_entries log"
  using assms
  by (auto simp: MergeChangeRequests_def ReadDataByDID_def round_of_def records_def bind_res_Inr_iff
      split: option.splits prod.splits)

text \<open>
  C19: the discard record is exact.  After folding a round, a field of an accepted
  request is reported as superseded by another accepted request exactly when both
  set the field and the second is the next one, in proposal order, to set it: no
  overwritten value goes unreported and no value that stands is reported.
\<close>

theorem merge_discard_exact:
  assumes "MergeChangeRequests e now did v s = Inr (u, sups)"
    and "distinct (map n_id (negotiations s))"
  shows "superseded sups a b f \<longleftrightarrow> follows (setters f (round_of did v s)) a b"
proof -
  obtain c :: contract and m log where run: "merge_loop e (c_did c) (round_of did v s)
      (no_update (c_did c), m) newDiscardLog = Inr (u, log)" "sups = dl_entries log"
    by (rule MergeChangeRequests_loop [OF assms(1)]) (rule that, assumption+)
  have "distinct (map n_id ([] @ round_of did v s))"
    using distinct_accepted [OF assms(2)]
    by (auto simp: round_of_def distinct_map)
  from merge_loop_log [OF run(1) log_ok_new this] run(2) show ?thesis
    by (simp add: log_ok_def)
qed

text \<open>
  The merged version does not depend on the order in which the database returns
  the accepted rows: any two stores that hold the same contract and the same
  accepted requests of the round, in whatever order, give the same update and the
  same discard record, or the same error.
\<close>

theorem merge_row_order_irrelevant:
  assumes "contracts s did = contracts t did"
    and "mset (ReadAllAcceptedByContractDIDAndVersion did v s)
       = mset (ReadAllAcceptedByContractDIDAndVersion did v t)"
    and "distinct (map n_id (negotiations s))"
  shows "MergeChangeRequests e now did v s = MergeChangeRequests e now did v t"
proof -
  have rows: "sort_key proposal_key (ReadAllAcceptedByContractDIDAndVersion did v s)
      = sort_key proposal_key (ReadAllAcceptedByContractDIDAndVersion did v t)"
    by (rule sort_key_mset_cong [OF assms(2)])
       (rule inj_on_proposal_key [OF distinct_accepted [OF assms(3)]])
  show ?thesis unfolding MergeChangeRequests_def ReadDataByDID_def assms(1) rows ..
qed

text \<open>
  Last accepted wins.  If a request of the round sets the name (the document) and
  no later request of the round does, the merged update carries that name (the
  normalized form of that document, which has the canonical envelope).
\<close>

theorem merge_last_accepted_wins:
  assumes "MergeChangeRequests e now did v s = Inr (u, sups)"
    and "round_of did v s = us @ n # vs"
    and "n_change_request n = Some raw" "decode_change raw = Some c"
  shows "(cr_name c = Some x \<longrightarrow> (\<forall>m\<in>set vs. \<not> sets_field ''name'' m) \<longrightarrow> u_name u = Some x)
       \<and> (cr_data c = Some (JObj doc) \<longrightarrow> (\<forall>m\<in>set vs. \<not> sets_field ''contract_data'' m) \<longrightarrow>
            (\<exists>row. contracts s did = Some row \<and> u_data u = normalize e (JObj doc) (c_did row) True)
            \<and> obj_get doc ''dcs:documentStructure'' \<noteq> None)"
proof -
  obtain c' :: contract and m log where row: "contracts s did = Some c'" and run: "merge_loop e (c_did c') (us @ n # vs)
      (no_update (c_did c'), m) newDiscardLog = Inr (u, log)"
    by (rule MergeChangeRequests_loop [OF assms(1), unfolded assms(2)]) (rule that, assumption+)
  obtain st1 st2 d2 where st: "apply_change e (c_did c') c st1 = Inr st2"
      "merge_loop e (c_did c') vs st2 d2 = Inr (u, log)"
    by (rule merge_loop_from [OF run assms(3,4)]) (rule that, assumption+)
  note keep = merge_loop_untouched [OF st(2)]
  have "u_name u = Some x" if "cr_name c = Some x" "\<forall>m\<in>set vs. \<not> sets_field ''name'' m"
    using keep(1) [OF that(2)] apply_change_fields(1) [OF st(1)] that(1) by (simp add: first_some_def)
  moreover have "u_data u = normalize e (JObj doc) (c_did c') True
      \<and> obj_get doc ''dcs:documentStructure'' \<noteq> None"
    if "cr_data c = Some (JObj doc)" "\<forall>m\<in>set vs. \<not> sets_field ''contract_data'' m"
    using keep(2) [OF that(2)] apply_change_fields(3) [OF st(1) that(1)] by simp
  ultimately show ?thesis using row by blast
qed

end
