(* ===== verification/User_Role.thy ===== *)
theory User_Role
  imports Prelude
begin

text \<open>
  The end-user roles of \<open>backend/internal/base/datatype/userrole/userrole.go\<close>:
  the role constants, their spelling, the validity and human/system
  classification, and the check \<open>UserRoles.HasRoles\<close> that the command handlers use.
\<close>

datatype user_role =
    TemplateCreator | TemplateReviewer | TemplateApprover | TemplateManager
  | ContractCreator | ContractReviewer | ContractApprover | ContractManager
  | ContractNegotiator | ContractSigner | ContractObserver
  | ArchiveManager | Auditor | SystemAdministrator | ComplianceOfficer | IntegrationManager
  | SystemContractCreator | SystemContractReviewer | SystemContractApprover
  | SystemContractManager | SystemContractSigner | ContractTargetSystem | SystemAuditor

fun role_string :: "user_role \<Rightarrow> string" where
  "role_string TemplateCreator = ''Template Creator''"
| "role_string TemplateReviewer = ''Template Reviewer''"
| "role_string TemplateApprover = ''Template Approver''"
| "role_string TemplateManager = ''Template Manager''"
| "role_string ContractCreator = ''Contract Creator''"
| "role_string ContractReviewer = ''Contract Reviewer''"
| "role_string ContractApprover = ''Contract Approver''"
| "role_string ContractManager = ''Contract Manager''"
| "role_string ContractNegotiator = ''Contract Negotiator''"
| "role_string ContractSigner = ''Contract Signer''"
| "role_string ContractObserver = ''Contract Observer''"
| "role_string ArchiveManager = ''Archive Manager''"
| "role_string Auditor = ''Auditor''"
| "role_string SystemAdministrator = ''Sys. Administrator''"
| "role_string ComplianceOfficer = ''Compliance Officer''"
| "role_string IntegrationManager = ''Integration Manager''"
| "role_string SystemContractCreator = ''Sys. Contract Creator''"
| "role_string SystemContractReviewer = ''Sys. Contract Reviewer''"
| "role_string SystemContractApprover = ''Sys. Contract Approver''"
| "role_string SystemContractManager = ''Sys. Contract Manager''"
| "role_string SystemContractSigner = ''Sys. Contract Signer''"
| "role_string ContractTargetSystem = ''Contract Target System''"
| "role_string SystemAuditor = ''Sys. Auditor''"

definition role_valid_list :: "user_role list" where
  "role_valid_list =
    [TemplateCreator, TemplateReviewer, TemplateApprover, TemplateManager,
     ContractCreator, ContractReviewer, ContractApprover, ContractManager,
     ContractNegotiator, ContractSigner, ContractObserver,
     ArchiveManager, Auditor, SystemAdministrator, ComplianceOfficer, IntegrationManager,
     SystemContractCreator, SystemContractReviewer, SystemContractApprover,
     SystemContractManager, SystemContractSigner, ContractTargetSystem,
     SystemAuditor]"

text \<open>\<open>NewUserRole\<close>: unlike the state enums, role names are compared exactly.\<close>

definition NewUserRole :: "string \<Rightarrow> user_role option" where
  "NewUserRole s = find (\<lambda>r. role_string r = s) role_valid_list"

fun IsSystemRole :: "user_role \<Rightarrow> bool" where
  "IsSystemRole SystemContractCreator = True"
| "IsSystemRole SystemContractReviewer = True"
| "IsSystemRole SystemContractApprover = True"
| "IsSystemRole SystemContractManager = True"
| "IsSystemRole SystemContractSigner = True"
| "IsSystemRole ContractTargetSystem = True"
| "IsSystemRole SystemAuditor = True"
| "IsSystemRole _ = False"

definition IsHumanRole :: "user_role \<Rightarrow> bool" where
  "IsHumanRole r = (r \<in> set role_valid_list \<and> \<not> IsSystemRole r)"

text \<open>\<open>UserRoles.HasRoles\<close>: two nested loops, true at the first role the caller holds.\<close>

fun HasRoles :: "user_role list \<Rightarrow> user_role list \<Rightarrow> bool" where
  "HasRoles roles [] = False"
| "HasRoles roles (required # rest) =
     (if list_ex (\<lambda>role. role = required) roles then True else HasRoles roles rest)"

lemma HasRoles_iff: "HasRoles roles required \<longleftrightarrow> set roles \<inter> set required \<noteq> {}"
  by (induction roles required rule: HasRoles.induct) (auto simp: list_ex_iff)

lemma HasRoles_mono: "set roles \<subseteq> set roles' \<Longrightarrow> HasRoles roles req \<Longrightarrow> HasRoles roles' req"
  by (auto simp: HasRoles_iff)

lemma role_valid_all: "r \<in> set role_valid_list"
  by (cases r) (simp_all add: role_valid_list_def)

lemma NewUserRole_role_string: "NewUserRole (role_string r) = Some r"
  by (cases r) (simp_all add: NewUserRole_def role_valid_list_def)

lemma NewUserRole_Some_iff: "NewUserRole s = Some r \<longleftrightarrow> s = role_string r"
  using NewUserRole_role_string [of r]
  by (auto simp: NewUserRole_def find_Some_iff)

lemma role_human_or_system: "IsHumanRole r \<longleftrightarrow> \<not> IsSystemRole r"
  by (simp add: IsHumanRole_def role_valid_all)

text \<open>
  the role gate.  A role check passes exactly when the caller holds one of the
  required roles, whatever other roles are listed; a role name parses exactly when it
  is the name of a role, and every role is either human or system.
\<close>

theorem role_gate:
  "(HasRoles roles required \<longleftrightarrow> (\<exists>r. r \<in> set roles \<and> r \<in> set required))
   \<and> (NewUserRole text = Some r \<longleftrightarrow> text = role_string r)
   \<and> (IsHumanRole r \<longleftrightarrow> \<not> IsSystemRole r)"
  by (auto simp: HasRoles_iff NewUserRole_Some_iff role_human_or_system)

end
