(* ===== verification/Did_Web.thy ===== *)
theory Did_Web
  imports Prelude
begin

text \<open>
  Peer identifiers: \<open>DIDWebPath\<close> and \<open>didWebAuthority\<close> of
  \<open>backend/internal/base/identity/did.go\<close>, and the comparison and normalisation
  of \<open>didweb_same.go\<close>. A refused identifier is \<open>None\<close>.
\<close>

section \<open>Parsing\<close>

definition is_digit :: "char \<Rightarrow> bool" where
  "is_digit c = (let n = (of_char c :: nat) in 48 \<le> n \<and> n \<le> 57)"

definition is_alpha :: "char \<Rightarrow> bool" where
  "is_alpha c = (let n = (of_char c :: nat) in (65 \<le> n \<and> n \<le> 90) \<or> (97 \<le> n \<and> n \<le> 122))"

definition hex_value :: "char \<Rightarrow> nat option" where
  "hex_value c = (let n = (of_char c :: nat) in
     if 48 \<le> n \<and> n \<le> 57 then Some (n - 48)
     else if 65 \<le> n \<and> n \<le> 70 then Some (n - 55)
     else if 97 \<le> n \<and> n \<le> 102 then Some (n - 87)
     else None)"

text \<open>\<open>url.PathUnescape\<close>: every percent sign must start a two-digit hex escape.\<close>

fun path_unescape :: "string \<Rightarrow> string option" where
  "path_unescape [] = Some []"
| "path_unescape (c # cs) =
     (if c \<noteq> CHR ''%'' then map_option (Cons c) (path_unescape cs)
      else case cs of
             a # b # rest \<Rightarrow>
               (case (hex_value a, hex_value b) of
                  (Some x, Some y) \<Rightarrow> map_option (Cons (char_of (16 * x + y))) (path_unescape rest)
                | _ \<Rightarrow> None)
           | _ \<Rightarrow> None)"

text \<open>The loop of \<open>didWebAuthority\<close>: only \<open>%3A\<close> may be escaped in the authority.\<close>

fun decode_authority :: "string \<Rightarrow> string option" where
  "decode_authority [] = Some []"
| "decode_authority (c # cs) =
     (if c \<noteq> CHR ''%'' then map_option (Cons c) (decode_authority cs)
      else case cs of
             a # b # rest \<Rightarrow>
               (if a = CHR ''3'' \<and> (b = CHR ''a'' \<or> b = CHR ''A'')
                then map_option (Cons (CHR '':'')) (decode_authority rest)
                else None)
           | _ \<Rightarrow> None)"

text \<open>The regular expression \<open>didWebHost\<close>: a host name and at most a numeric port.\<close>

definition host_char :: "char \<Rightarrow> bool" where
  "host_char c = (is_alpha c \<or> is_digit c \<or> c = CHR ''.'' \<or> c = CHR ''_'' \<or> c = CHR ''-'')"

definition didWebHost :: "string \<Rightarrow> bool" where
  "didWebHost h =
    (let name = takeWhile (\<lambda>c. c \<noteq> CHR '':'') h; rest = dropWhile (\<lambda>c. c \<noteq> CHR '':'') h
     in name \<noteq> [] \<and> list_all host_char name \<and>
        (case rest of [] \<Rightarrow> True
         | _ # port \<Rightarrow> 1 \<le> length port \<and> length port \<le> 5 \<and> list_all is_digit port))"

definition didWebAuthority :: "string \<Rightarrow> string option" where
  "didWebAuthority raw =
    (if raw = [] then None
     else case decode_authority raw of
            None \<Rightarrow> None
          | Some decoded \<Rightarrow>
              (let host = to_lower decoded in if didWebHost host then Some host else None))"

text \<open>One path segment: decoded, non-empty, and no separator or traversal.\<close>

definition did_segment :: "string \<Rightarrow> string option" where
  "did_segment raw =
    (case path_unescape raw of
       None \<Rightarrow> None
     | Some segment \<Rightarrow>
         if segment = [] then None
         else if list_ex (\<lambda>c. c \<in> set ''/?#'' \<or> c = CHR 0x5C) segment
                 \<or> segment = ''.'' \<or> segment = ''..'' then None
         else Some segment)"

fun did_segments :: "string list \<Rightarrow> string list option" where
  "did_segments [] = Some []"
| "did_segments (raw # raws) =
     (case did_segment raw of
        None \<Rightarrow> None
      | Some segment \<Rightarrow> map_option (Cons segment) (did_segments raws))"

definition DIDWebPath :: "string \<Rightarrow> (string \<times> string list) option" where
  "DIDWebPath did =
    (if \<not> has_prefix did ''did:web:'' then None
     else (let parts = split_on (CHR '':'') (trim_prefix did ''did:web:'')
           in case didWebAuthority (hd parts) of
                None \<Rightarrow> None
              | Some host \<Rightarrow>
                  (case did_segments (tl parts) of
                     None \<Rightarrow> None
                   | Some segments \<Rightarrow> Some (host, segments))))"

definition DIDWebDocumentPath :: "string list \<Rightarrow> string" where
  "DIDWebDocumentPath segments =
    (if segments = [] then ''/.well-known/did.json''
     else CHR ''/'' # join_on (CHR ''/'') segments @ ''/did.json'')"

section \<open>Comparison and normalisation\<close>

definition SameDIDWeb :: "string \<Rightarrow> string \<Rightarrow> bool" where
  "SameDIDWeb a b =
    (if a = b then True
     else case DIDWebPath a of
            None \<Rightarrow> False
          | Some (aHost, aSegments) \<Rightarrow>
              (case DIDWebPath b of
                 None \<Rightarrow> False
               | Some (bHost, bSegments) \<Rightarrow>
                   if aHost \<noteq> bHost \<or> length aSegments \<noteq> length bSegments then False
                   else list_all2 (=) aSegments bSegments))"

fun replace_3a :: "string \<Rightarrow> string" where
  "replace_3a [] = []"
| "replace_3a (c # cs) =
     (case cs of
        a # b # rest \<Rightarrow>
          (if c = CHR ''%'' \<and> a = CHR ''3'' \<and> b = CHR ''a'' then ''%3A'' @ replace_3a rest
           else c # replace_3a cs)
      | _ \<Rightarrow> c # replace_3a cs)"

definition NormalizeDIDWeb :: "string \<Rightarrow> string" where
  "NormalizeDIDWeb did =
    (case DIDWebPath did of
       None \<Rightarrow> did
     | Some _ \<Rightarrow>
         (let parts = split_on (CHR '':'') (trim_prefix (trim_space did) ''did:web:'')
          in ''did:web:'' @ join_on (CHR '':'') (replace_3a (to_lower (hd parts)) # tl parts)))"

section \<open>Facts\<close>

lemma SameDIDWeb_iff:
  "SameDIDWeb a b \<longleftrightarrow> a = b \<or> (\<exists>p. DIDWebPath a = Some p \<and> DIDWebPath b = Some p)"
  by (auto simp: SameDIDWeb_def list.rel_eq split: option.splits)

lemma SameDIDWeb_refl [simp]: "SameDIDWeb a a"
  by (simp add: SameDIDWeb_def)

lemma SameDIDWeb_sym: "SameDIDWeb a b \<Longrightarrow> SameDIDWeb b a"
  by (auto simp: SameDIDWeb_iff)

lemma SameDIDWeb_trans: "SameDIDWeb a b \<Longrightarrow> SameDIDWeb b c \<Longrightarrow> SameDIDWeb a c"
  by (auto simp: SameDIDWeb_iff)

lemma lower_char_special [simp]:
  "lower_char c = CHR ''%'' \<longleftrightarrow> c = CHR ''%''"
  "lower_char c = CHR '':'' \<longleftrightarrow> c = CHR '':''"
  "lower_char c = CHR ''3'' \<longleftrightarrow> c = CHR ''3''"
proof -
  have eq: "lower_char c = d \<longleftrightarrow> c = d"
    if "\<not> (65 \<le> (of_char d :: nat) \<and> of_char d \<le> (90 :: nat))"
      and "\<not> (97 \<le> (of_char d :: nat) \<and> of_char d \<le> (122 :: nat))" for d
  proof
    assume l: "lower_char c = d"
    show "c = d"
    proof (cases "65 \<le> (of_char c :: nat) \<and> of_char c \<le> (90 :: nat)")
      case True
      with l have "d = char_of (of_char c + 32 :: nat)"
        by (simp add: lower_char_def Let_def)
      then have "of_char d = (of_char c + 32 :: nat)"
        using True by simp
      with that True show ?thesis by simp
    next
      case False
      with l show ?thesis by (simp add: lower_char_def Let_def split: if_splits)
    qed
  next
    assume "c = d"
    with that show "lower_char c = d"
      by (auto simp: lower_char_def Let_def)
  qed
  show "lower_char c = CHR ''%'' \<longleftrightarrow> c = CHR ''%''"
    by (rule eq) simp_all
  show "lower_char c = CHR '':'' \<longleftrightarrow> c = CHR '':''"
    by (rule eq) simp_all
  show "lower_char c = CHR ''3'' \<longleftrightarrow> c = CHR ''3''"
    by (rule eq) simp_all
qed

lemma lower_char_a: "b = CHR ''a'' \<or> b = CHR ''A'' \<Longrightarrow> lower_char b = CHR ''a''"
proof -
  have "lower_char CHR ''a'' = CHR ''a''" "lower_char CHR ''A'' = CHR ''a''"
    by code_simp+
  then show "b = CHR ''a'' \<or> b = CHR ''A'' \<Longrightarrow> lower_char b = CHR ''a''"
    by blast
qed

lemma replace_3a_Cons: "c \<noteq> CHR ''%'' \<Longrightarrow> replace_3a (c # cs) = c # replace_3a cs"
  by (simp split: list.split)

lemma replace_3a_escape:
  "replace_3a (CHR ''%'' # CHR ''3'' # CHR ''a'' # cs) = ''%3A'' @ replace_3a cs"
  by simp

lemma replace_3a_eq_Nil [simp]: "replace_3a p = [] \<longleftrightarrow> p = []"
  by (cases p) (auto split: list.splits)

lemma set_replace_3a: "set (replace_3a p) \<subseteq> set p \<union> {CHR ''A''}"
proof (induction p rule: measure_induct_rule [where f = length])
  case (less p)
  show ?case
  proof (cases p)
    case Nil
    then show ?thesis by simp
  next
    case p: (Cons c cs)
    show ?thesis
    proof (cases "\<exists>rest. c = CHR ''%'' \<and> cs = CHR ''3'' # CHR ''a'' # rest")
      case True
      then obtain rest where c: "c = CHR ''%''" and cs: "cs = CHR ''3'' # CHR ''a'' # rest"
        by blast
      have "set (replace_3a rest) \<subseteq> set rest \<union> {CHR ''A''}"
        by (rule less) (simp add: p cs)
      then show ?thesis
        unfolding p c cs replace_3a_escape by auto
    next
      case False
      then have "replace_3a (c # cs) = c # replace_3a cs"
        by (auto split: list.splits)
      moreover have "set (replace_3a cs) \<subseteq> set cs \<union> {CHR ''A''}"
        by (rule less) (simp add: p)
      ultimately show ?thesis using p by auto
    qed
  qed
qed

declare replace_3a.simps(2) [simp del]

lemma decode_replace_lower:
  "decode_authority p = Some h \<Longrightarrow> decode_authority (replace_3a (to_lower p)) = Some (to_lower h)"
proof (induction p arbitrary: h rule: decode_authority.induct)
  case 1
  then show ?case by (simp add: to_lower_def)
next
  case (2 c cs)
  show ?case
  proof (cases "c = CHR ''%''")
    case False
    with "2.prems" obtain h' where h': "decode_authority cs = Some h'" "h = c # h'"
      by auto
    with False "2.IH"(1) show ?thesis
      by (simp add: to_lower_def replace_3a_Cons)
  next
    case True
    with "2.prems" obtain a b rest h' where
      cs: "cs = a # b # rest" and ab: "a = CHR ''3''" "b = CHR ''a'' \<or> b = CHR ''A''"
      and h': "decode_authority rest = Some h'" "h = CHR '':'' # h'"
      by (auto split: list.splits if_splits)
    then have IH: "decode_authority (replace_3a (to_lower rest)) = Some (to_lower h')"
      using True "2.IH"(2) by simp
    have l: "lower_char CHR ''%'' = CHR ''%''" "lower_char CHR ''3'' = CHR ''3''"
      "lower_char CHR '':'' = CHR '':''"
      by simp_all
    have "replace_3a (to_lower (c # cs)) = ''%3A'' @ replace_3a (to_lower rest)"
      using True cs ab(1)
      by (simp add: to_lower_def l lower_char_a [OF ab(2)] replace_3a_escape del: append.simps)
    with IH h'(2) show ?thesis
      by (simp add: to_lower_def l)
  qed
qed

lemma replace_3a_colon:
  assumes "CHR '':'' \<notin> set p"
  shows "CHR '':'' \<notin> set (replace_3a (to_lower p))"
proof
  assume "CHR '':'' \<in> set (replace_3a (to_lower p))"
  then have "CHR '':'' \<in> set (to_lower p) \<union> {CHR ''A''}"
    using set_replace_3a [of "to_lower p"] by blast
  then have "CHR '':'' \<in> lower_char ` set p"
    by (simp add: to_lower_def)
  then obtain c where "CHR '':'' = lower_char c" and "c \<in> set p"
    by (rule imageE)
  with assms show False
    using lower_char_special(2) [of c] by simp
qed

lemma didWebAuthority_normalize:
  "didWebAuthority p = Some h \<Longrightarrow> didWebAuthority (replace_3a (to_lower p)) = Some h"
  by (auto simp: didWebAuthority_def Let_def decode_replace_lower
      split: if_splits option.splits dest: decode_replace_lower)

text \<open>A parsed identifier is its prefix and a list of colon-free parts.\<close>

lemma DIDWebPath_parts:
  assumes "DIDWebPath did = Some (host, segments)"
  obtains p0 ps where "did = ''did:web:'' @ join_on (CHR '':'') (p0 # ps)"
    and "split_on (CHR '':'') (trim_prefix did ''did:web:'') = p0 # ps"
    and "didWebAuthority p0 = Some host" and "did_segments ps = Some segments"
    and "\<forall>p\<in>set (p0 # ps). CHR '':'' \<notin> set p"
proof -
  from assms have pre: "has_prefix did ''did:web:''"
    by (auto simp: DIDWebPath_def split: if_splits)
  then obtain rest where did: "did = ''did:web:'' @ rest"
    by (auto simp: has_prefix_iff)
  obtain p0 ps where parts: "split_on (CHR '':'') rest = p0 # ps"
    by (cases "split_on (CHR '':'') rest") auto
  have j: "rest = join_on (CHR '':'') (p0 # ps)"
    using join_split [of "CHR '':''" rest] parts by simp
  have c: "\<forall>p\<in>set (p0 # ps). CHR '':'' \<notin> set p"
    using split_on_parts [of _ "CHR '':''" rest] parts by simp
  have tp: "trim_prefix did ''did:web:'' = rest"
    unfolding did by (rule trim_prefix_append)
  show thesis
  proof (rule that [of p0 ps])
    show "did = ''did:web:'' @ join_on (CHR '':'') (p0 # ps)"
      using did j by simp
    show "split_on (CHR '':'') (trim_prefix did ''did:web:'') = p0 # ps"
      using tp parts by simp
    show "didWebAuthority p0 = Some host" "did_segments ps = Some segments"
      using assms pre tp parts by (auto simp: DIDWebPath_def split: option.splits)
    show "\<forall>p\<in>set (p0 # ps). CHR '':'' \<notin> set p" by (rule c)
  qed
qed

lemma DIDWebPath_build:
  assumes "didWebAuthority p0 = Some host" and "did_segments ps = Some segments"
    and "\<forall>p\<in>set (p0 # ps). CHR '':'' \<notin> set p"
  shows "DIDWebPath (''did:web:'' @ join_on (CHR '':'') (p0 # ps)) = Some (host, segments)"
proof -
  let ?d = "''did:web:'' @ join_on (CHR '':'') (p0 # ps)"
  have "split_on (CHR '':'') (trim_prefix ?d ''did:web:'') = p0 # ps"
    by (simp only: trim_prefix_append) (rule split_join; use assms(3) in simp)
  moreover have "has_prefix ?d ''did:web:''"
    by (rule has_prefix_append)
  ultimately show ?thesis
    using assms(1,2) by (simp only: DIDWebPath_def Let_def) simp
qed

text \<open>Normalising keeps the host and every path segment of an identifier without
  surrounding white space.\<close>

lemma DIDWebPath_normalize:
  assumes path: "DIDWebPath did = Some (host, segments)" and trimmed: "trim_space did = did"
  shows "DIDWebPath (NormalizeDIDWeb did) = Some (host, segments)"
proof -
  obtain p0 ps where
    did: "did = ''did:web:'' @ join_on (CHR '':'') (p0 # ps)"
    and sp: "split_on (CHR '':'') (trim_prefix did ''did:web:'') = p0 # ps"
    and auth: "didWebAuthority p0 = Some host" and segs: "did_segments ps = Some segments"
    and colon: "\<forall>p\<in>set (p0 # ps). CHR '':'' \<notin> set p"
    using path by (rule DIDWebPath_parts)
  have "NormalizeDIDWeb did
      = ''did:web:'' @ join_on (CHR '':'') (replace_3a (to_lower p0) # ps)"
    using path trimmed sp by (simp add: NormalizeDIDWeb_def)
  moreover have "\<forall>p\<in>set (replace_3a (to_lower p0) # ps). CHR '':'' \<notin> set p"
    using colon replace_3a_colon [of p0] by simp
  ultimately show ?thesis
    using DIDWebPath_build [OF didWebAuthority_normalize [OF auth] segs] by simp
qed

section \<open>Properties\<close>

text \<open>
  The identity of a peer is an equivalence.  Comparing DIDs never lets two
  identifiers pass as the same peer unless they are equal or resolve to the same
  lower-case authority and the same decoded path, and the comparison is reflexive,
  symmetric and transitive, so that parties can be grouped by it.
\<close>

theorem same_did_equivalence:
  "equivp SameDIDWeb
   \<and> SameDIDWeb a b = (a = b \<or> (\<exists>host segments. DIDWebPath a = Some (host, segments)
        \<and> DIDWebPath b = Some (host, segments)))"
proof
  show "equivp SameDIDWeb"
    by (intro equivpI reflpI sympI transpI)
       (simp, erule SameDIDWeb_sym, erule SameDIDWeb_trans, assumption)
  show "SameDIDWeb a b = (a = b \<or> (\<exists>host segments. DIDWebPath a = Some (host, segments)
        \<and> DIDWebPath b = Some (host, segments)))"
    by (simp add: SameDIDWeb_iff)
qed

lemma did_segment_safe:
  "did_segment raw = Some s \<Longrightarrow> s \<noteq> [] \<and> CHR ''/'' \<notin> set s \<and> CHR ''?'' \<notin> set s \<and> CHR ''#'' \<notin> set s
     \<and> CHR 0x5C \<notin> set s \<and> s \<noteq> ''.'' \<and> s \<noteq> ''..''"
  by (auto simp: did_segment_def list_ex_iff split: option.split_asm if_split_asm)

lemma did_segments_safe: "did_segments raws = Some ss \<Longrightarrow> s \<in> set ss \<Longrightarrow> \<exists>raw. did_segment raw = Some s"
  by (induction raws arbitrary: ss) (auto split: option.split_asm)

text \<open>
  A DID cannot steer the resolver outside its path.  Whatever percent-encoding an
  accepted identifier uses, the path its document is fetched from consists of exactly
  the decoded segments followed by the document name: no segment is empty or a dot
  segment, none adds a separator, a query or a fragment, and the authority it names
  is a plain host name.
\<close>

theorem did_path_is_contained:
  assumes "DIDWebPath did = Some (host, segments)" "segments \<noteq> []"
  shows "split_on (CHR ''/'') (DIDWebDocumentPath segments) = [] # segments @ [''did.json'']
       \<and> (\<forall>s\<in>set segments. s \<noteq> [] \<and> s \<noteq> ''.'' \<and> s \<noteq> ''..'' \<and> CHR ''?'' \<notin> set s \<and> CHR ''#'' \<notin> set s
            \<and> CHR 0x5C \<notin> set s)
       \<and> didWebHost host \<and> CHR ''/'' \<notin> set host \<and> CHR ''@'' \<notin> set host"
proof -
  obtain p0 ps where parts: "didWebAuthority p0 = Some host" "did_segments ps = Some segments"
    by (rule DIDWebPath_parts [OF assms(1)]) (rule that, assumption+)
  have safe: "s \<noteq> [] \<and> CHR ''/'' \<notin> set s \<and> CHR ''?'' \<notin> set s \<and> CHR ''#'' \<notin> set s
     \<and> CHR 0x5C \<notin> set s \<and> s \<noteq> ''.'' \<and> s \<noteq> ''..''" if "s \<in> set segments" for s
    using did_segments_safe [OF parts(2) that] did_segment_safe by blast
  have split: "split_on (CHR ''/'') (join_on (CHR ''/'') ws @ CHR ''/'' # t) = ws @ split_on (CHR ''/'') t"
    if "ws \<noteq> []" "\<forall>w\<in>set ws. CHR ''/'' \<notin> set w" for ws t
    using that by (induction ws rule: join_on.induct) (auto simp: split_on_append)
  have "split_on (CHR ''/'') (DIDWebDocumentPath segments)
      = [] # segments @ split_on (CHR ''/'') ''did.json''"
    using split [OF assms(2), of "''did.json''"] safe assms(2) by (simp add: DIDWebDocumentPath_def)
  moreover have "split_on (CHR ''/'') ''did.json'' = [''did.json'']" by code_simp
  moreover have host: "didWebHost host"
    using parts(1) by (auto simp: didWebAuthority_def Let_def split: option.split_asm if_split_asm)
  moreover have "c \<noteq> CHR ''/'' \<and> c \<noteq> CHR ''@''" if "c \<in> set host" for c
  proof -
    have "set host = set (takeWhile (\<lambda>c. c \<noteq> CHR '':'') host) \<union> set (dropWhile (\<lambda>c. c \<noteq> CHR '':'') host)"
      by (metis set_append takeWhile_dropWhile_id)
    then have "host_char c \<or> c = CHR '':'' \<or> is_digit c"
      using host that
      by (auto simp: didWebHost_def Let_def list_all_iff dropWhile_eq_Cons_conv split: list.split_asm)
    then show ?thesis by (auto simp: host_char_def is_alpha_def is_digit_def)
  qed
  ultimately show ?thesis using safe by auto
qed

theorem did_path_is_contained_witness:
  "split_on (CHR ''/'') (DIDWebDocumentPath [''org'', ''a b'']) = ['''', ''org'', ''a b'', ''did.json'']"
proof -
  have "DIDWebPath ''did:web:Example.com%3A8443:org:a%20b'' = Some (''example.com:8443'', [''org'', ''a b''])"
    by code_simp
  from did_path_is_contained [OF this] show ?thesis by simp
qed

text \<open>
  Normalising a DID keeps the peer.  For an accepted identifier without surrounding
  white space, the normalised form is accepted and denotes the same peer.
\<close>

theorem normalize_keeps_peer:
  assumes "trim_space did = did"
  shows "SameDIDWeb did (NormalizeDIDWeb did)"
proof (cases "DIDWebPath did")
  case None
  then show ?thesis by (simp add: NormalizeDIDWeb_def)
next
  case (Some p)
  then show ?thesis
    using DIDWebPath_normalize [of did "fst p" "snd p"] assms by (auto simp: SameDIDWeb_iff)
qed

theorem normalize_keeps_peer_witness:
  "SameDIDWeb ''did:web:Example.com%3a8443:Org'' (NormalizeDIDWeb ''did:web:Example.com%3a8443:Org'')"
proof -
  have "trim_space ''did:web:Example.com%3a8443:Org'' = ''did:web:Example.com%3a8443:Org''" by code_simp
  from normalize_keeps_peer [OF this] show ?thesis .
qed

text \<open>
  Normalisation and comparison disagree on trailing white space.  Two accepted
  identifiers that the comparison tells apart have the same normal form, so a party
  indexed by the normal form is found under another party's identifier.
\<close>

theorem normalize_collision:
  "NormalizeDIDWeb ''did:web:h:x '' = NormalizeDIDWeb ''did:web:h:x''
   \<and> \<not> SameDIDWeb ''did:web:h:x '' ''did:web:h:x''"
  by code_simp

end
