(* ===== verification/Lifecycle.thy ===== *)
theory Lifecycle
  imports Contract_State Did_Web
begin

text \<open>
  The lifecycle a stored artifact asserts,
  \<open>backend/internal/pdfgeneration/provenance/lifecycle.go\<close>: the mapping of a
  workflow state to the C2PA vocabulary, the name tokenizer of the PDF scanner,
  the test whether a PDF already carries a PAdES signature, and the state filed
  for an artifact. A PDF is its byte string.
\<close>

section \<open>Vocabulary\<close>

definition MapCWEStateToC2PA :: "string \<Rightarrow> string option" where
  "MapCWEStateToC2PA cweState =
    (let s = to_upper cweState in
     if s = ''DRAFT'' then Some ''draft''
     else if s \<in> set [''OFFERED'', ''NEGOTIATION'', ''SUBMITTED'', ''REVIEWED'', ''APPROVED'']
     then Some ''draft''
     else if s \<in> set [''REJECTED'', ''WITHDRAWN''] then Some ''draft''
     else if s \<in> set [''SIGNED'', ''ACTIVE''] then Some ''active''
     else if s = ''REVOKED'' then Some ''suspended''
     else if s = ''REGISTERED'' then Some ''active''
     else if s = ''TERMINATED'' then Some ''terminated''
     else if s = ''EXPIRED'' then Some ''expired''
     else if s = ''SUSPENDED'' then Some ''suspended''
     else if s = ''REPLACED'' then Some ''replaced''
     else (let lower = to_lower cweState in
           if lower \<in> set [''draft'', ''active'', ''amended'', ''suspended'', ''terminated'',
                            ''expired'', ''replaced'']
           then Some lower else None))"

definition IsFrozenC2PAState :: "string \<Rightarrow> bool" where
  "IsFrozenC2PAState c2paState = (c2paState \<noteq> [] \<and> c2paState \<noteq> ''draft'')"

definition ArtifactCarriesSignature :: "string \<Rightarrow> bool" where
  "ArtifactCarriesSignature c2paState = (c2paState = ''active'')"

section \<open>PDF names\<close>

definition isPDFWhitespaceByte :: "char \<Rightarrow> bool" where
  "isPDFWhitespaceByte b = ((of_char b :: nat) \<in> set [0, 9, 10, 12, 13, 32])"

definition isPDFDelimiterByte :: "char \<Rightarrow> bool" where
  "isPDFDelimiterByte b = (b \<in> set ''()<>[]{}/%'')"

definition isPDFSpace :: "string \<Rightarrow> bool" where
  "isPDFSpace b = list_all isPDFWhitespaceByte b"

record pdf_name_token =
  tok_text :: string
  tok_start :: nat
  tok_end :: nat

text \<open>The inner loop of \<open>pdfNameTokens\<close>: the decoded name, its end, and what follows.\<close>

function scan_name :: "nat \<Rightarrow> string \<Rightarrow> string \<times> nat \<times> string" where
  "scan_name pos [] = ([], pos, [])"
| "scan_name pos (c # cs) =
     (if isPDFWhitespaceByte c \<or> isPDFDelimiterByte c then ([], pos, c # cs)
      else (case (if c = CHR ''#'' \<and> length cs \<ge> 2
                  then (case (hex_value (cs ! 0), hex_value (cs ! 1)) of
                          (Some x, Some y) \<Rightarrow> Some (char_of (16 * x + y)) | _ \<Rightarrow> None)
                  else None) of
              Some decoded \<Rightarrow>
                (case scan_name (pos + 3) (drop 2 cs) of (t, e, r) \<Rightarrow> (decoded # t, e, r))
            | None \<Rightarrow> (case scan_name (pos + 1) cs of (t, e, r) \<Rightarrow> (c # t, e, r))))"
  by pat_completeness auto
termination
  by (relation "measure (\<lambda>(pos, cs). length cs)") auto

declare scan_name.simps [simp del]

lemma scan_name_length: "scan_name pos cs = (t, e, r) \<Longrightarrow> length r \<le> length cs"
proof (induction "length cs" arbitrary: pos cs t e r rule: less_induct)
  case less
  show ?case
  proof (cases cs)
    case Nil
    with less.prems show ?thesis by (simp add: scan_name.simps)
  next
    case (Cons c cs')
    from less.prems consider
        (stop) "r = cs"
      | (plain) t' where "scan_name (pos + 1) cs' = (t', e, r)"
      | (escape) t' where "scan_name (pos + 3) (drop 2 cs') = (t', e, r)"
      unfolding Cons by (auto simp: scan_name.simps(2) split: if_splits option.splits prod.splits)
    then show ?thesis
    proof cases
      case plain
      from less.hyps [OF _ plain] show ?thesis by (simp add: Cons)
    next
      case escape
      have "length (drop 2 cs') < length cs" by (simp add: Cons)
      from less.hyps [OF this escape] show ?thesis by (simp add: Cons)
    qed simp
  qed
qed

function name_tokens :: "nat \<Rightarrow> string \<Rightarrow> pdf_name_token list" where
  "name_tokens pos [] = []"
| "name_tokens pos (c # cs) =
     (if c \<noteq> CHR ''/'' then name_tokens (pos + 1) cs
      else (case scan_name (pos + 1) cs of
              (t, e, r) \<Rightarrow>
                \<lparr>tok_text = CHR ''/'' # t, tok_start = pos, tok_end = e\<rparr> # name_tokens e r))"
  by pat_completeness auto
termination
  by (relation "measure (\<lambda>(pos, cs). length cs)")
     (auto dest!: scan_name_length [OF sym] simp: less_Suc_eq_le)

definition pdfNameTokens :: "string \<Rightarrow> pdf_name_token list" where
  "pdfNameTokens pdf = name_tokens 0 pdf"

definition byte_slice :: "string \<Rightarrow> nat \<Rightarrow> nat \<Rightarrow> string" where
  "byte_slice pdf a b = take (b - a) (drop a pdf)"

text \<open>\<open>/Type\<close> directly followed, white space apart, by \<open>/Sig\<close>.\<close>

definition type_sig :: "string \<Rightarrow> pdf_name_token \<Rightarrow> pdf_name_token list \<Rightarrow> bool" where
  "type_sig pdf name rest =
    (case rest of
       [] \<Rightarrow> False
     | next # _ \<Rightarrow> tok_text next = ''/Sig'' \<and>
         isPDFSpace (byte_slice pdf (tok_end name) (tok_start next)))"

fun pades_loop :: "string \<Rightarrow> bool \<Rightarrow> bool \<Rightarrow> pdf_name_token list \<Rightarrow> bool" where
  "pades_loop pdf byteRange sigType [] = False"
| "pades_loop pdf byteRange sigType (name # rest) =
     (let byteRange' = (byteRange \<or> tok_text name = ''/ByteRange'');
          sigType' = (sigType \<or> (tok_text name = ''/Type'' \<and> type_sig pdf name rest))
      in if byteRange' \<and> sigType' then True else pades_loop pdf byteRange' sigType' rest)"

definition CarriesPAdESSignature :: "string \<Rightarrow> bool" where
  "CarriesPAdESSignature pdf = pades_loop pdf False False (pdfNameTokens pdf)"

definition ArtifactC2PAState :: "string \<Rightarrow> string \<Rightarrow> string option" where
  "ArtifactC2PAState contractState pdf =
    (case MapCWEStateToC2PA contractState of
       None \<Rightarrow> None
     | Some state \<Rightarrow>
         if IsFrozenC2PAState state \<or> \<not> CarriesPAdESSignature pdf then Some state
         else MapCWEStateToC2PA ''SIGNED'')"

section \<open>Facts\<close>

lemma MapCWEStateToC2PA_state:
  "MapCWEStateToC2PA (state_string s) =
    Some (case s of Signed \<Rightarrow> ''active'' | Active \<Rightarrow> ''active'' | Revoked \<Rightarrow> ''suspended''
          | Terminated \<Rightarrow> ''terminated'' | Expired \<Rightarrow> ''expired'' | _ \<Rightarrow> ''draft'')"
  by (cases s) (simp_all add: MapCWEStateToC2PA_def Let_def to_upper_def upper_char_def)

lemma MapCWEStateToC2PA_SIGNED: "MapCWEStateToC2PA ''SIGNED'' = Some ''active''"
  using MapCWEStateToC2PA_state [of Signed] by simp

text \<open>The two things the PDF scanner looks for, over the whole token list.\<close>

definition has_byte_range :: "pdf_name_token list \<Rightarrow> bool" where
  "has_byte_range names = list_ex (\<lambda>n. tok_text n = ''/ByteRange'') names"

fun has_type_sig :: "string \<Rightarrow> pdf_name_token list \<Rightarrow> bool" where
  "has_type_sig pdf [] = False"
| "has_type_sig pdf (name # rest) =
     ((tok_text name = ''/Type'' \<and> type_sig pdf name rest) \<or> has_type_sig pdf rest)"

lemma pades_loop_iff:
  "names \<noteq> [] \<Longrightarrow> pades_loop pdf br st names \<longleftrightarrow>
     (br \<or> has_byte_range names) \<and> (st \<or> has_type_sig pdf names)"
proof (induction pdf br st names rule: pades_loop.induct)
  case (2 pdf br st name rest)
  show ?case
  proof (cases "rest = []")
    case True
    then show ?thesis by (auto simp: Let_def has_byte_range_def)
  next
    case False
    then show ?thesis
      using "2.IH" [OF refl refl]
      by (auto simp: Let_def has_byte_range_def simp del: has_type_sig.simps(1))
  qed
qed simp

lemma CarriesPAdESSignature_iff:
  "CarriesPAdESSignature pdf \<longleftrightarrow>
     has_byte_range (pdfNameTokens pdf) \<and> has_type_sig pdf (pdfNameTokens pdf)"
  by (cases "pdfNameTokens pdf = []")
    (auto simp: CarriesPAdESSignature_def pades_loop_iff has_byte_range_def)

section \<open>The frozen artifact\<close>

text \<open>
  The verdict of the regeneration path (\<open>subscriber.go\<close>): \<open>carriesSignature\<close> is the
  outcome of the query for a committed signature, which may fail.
\<close>

datatype verdict_error = QueryFailed | SignedWithoutArtifact

definition frozenArtifactVerdict ::
  "string \<Rightarrow> string \<Rightarrow> string \<Rightarrow> bool option \<Rightarrow> (verdict_error, bool) result" where
  "frozenArtifactVerdict storedCID storedC2PAState targetC2PAState carriesSignature =
    bind_res
      (if \<not> IsFrozenC2PAState storedC2PAState \<and> IsFrozenC2PAState targetC2PAState
       then (case carriesSignature of None \<Rightarrow> Inl QueryFailed | Some signed \<Rightarrow> Inr signed)
       else Inr (IsFrozenC2PAState storedC2PAState)) (\<lambda>frozen.
    if \<not> frozen then Inr False
    else if storedCID = [] then Inl SignedWithoutArtifact else Inr True)"

text \<open>
  A signed document is never rendered again.  A received document with a PAdES
  signature is recorded with a state other than draft whatever the workflow state of
  the contract is, and from such a record the regeneration path never gets permission
  for a fresh render, whatever state it aims at and whatever the signature query says.
\<close>

theorem signed_artifact_is_frozen:
  assumes "CarriesPAdESSignature pdf" "ArtifactC2PAState (state_string s) pdf = Some stored"
  shows "stored \<noteq> ''draft'' \<and> frozenArtifactVerdict cid stored target q \<noteq> Inr False"
proof -
  have "IsFrozenC2PAState stored"
    using assms by (auto simp: ArtifactC2PAState_def MapCWEStateToC2PA_state MapCWEStateToC2PA_SIGNED
        IsFrozenC2PAState_def split: if_split_asm contract_state.split_asm)
  then show ?thesis
    by (auto simp: frozenArtifactVerdict_def IsFrozenC2PAState_def bind_res_def)
qed

theorem signed_artifact_is_frozen_witness:
  "ArtifactC2PAState ''DRAFT'' ''/ByteRange /Type /Sig'' = Some ''active''
   \<and> frozenArtifactVerdict ''cid'' ''active'' ''draft'' None \<noteq> Inr False"
proof -
  have c: "CarriesPAdESSignature ''/ByteRange /Type /Sig''" by code_simp
  have a: "ArtifactC2PAState (state_string Draft) ''/ByteRange /Type /Sig'' = Some ''active''" by code_simp
  from signed_artifact_is_frozen [OF c a] a show ?thesis by simp
qed

end
