(* ===== verification/Contract_Commands.thy ===== *)
theory Contract_Commands
  imports Negotiation_Merge User_Role Lifecycle
begin

text \<open>
  The command handlers of the contract workflow engine
  (\<open>backend/internal/contractworkflowengine/command\<close>), except creation.  A handler maps
  the environment, the clock, its command and the store to an error or a new store;
  an error rolls the transaction back, so the store it leaves is the one it found.
  Reads come before writes in the order of the source; every guard and early return
  is a branch.  The structs of the source share their common fields in the record
  \<open>command\<close>; the fields that only decorate an event (holder, comments, notes) are left
  out, as is the clock a handler reads again for \<open>OccurredAt\<close>.
\<close>

section \<open>Commands\<close>

record command =
  cmd_did :: string
  cmd_updated_at :: int
  cmd_by :: string
  cmd_roles :: "user_role list"
  cmd_causer :: string

record submit_cmd = command +
  sub_action_flag :: "action_flag option"
  sub_data :: "json option"

record reason_cmd = command +
  cmd_reason :: string

record negotiation_cmd = command +
  neg_change_request :: "json option"

record respond_cmd = command +
  resp_id :: string
  resp_reason :: "string option"

record update_cmd = command +
  upd_start_date :: "int option"
  upd_exp_date :: "int option"
  upd_exp_policy :: "expiration_policy option"
  upd_exp_notice_period :: "int option"
  upd_name :: "string option"
  upd_description :: "string option"
  upd_data :: "json option"

section \<open>Shared steps\<close>

definition unix_seconds :: "int \<Rightarrow> int" where
  "unix_seconds t = t div 1000000000"

text \<open>The optimistic lock: the caller's view must not be older than the stored revision.\<close>

definition check_updated_at :: "string \<Rightarrow> int \<Rightarrow> ('a command_scheme) \<Rightarrow> (cwe_error, unit) result" where
  "check_updated_at localPeer stored cmd =
    (if unix_seconds (cmd_updated_at cmd) < unix_seconds stored
     then Inl (UpdatedElsewhere (localPeer \<noteq> cmd_causer cmd)) else Inr ())"

definition mintNegotiationTask ::
  "env \<Rightarrow> int \<Rightarrow> string \<Rightarrow> string \<Rightarrow> string \<Rightarrow> int \<Rightarrow> store \<Rightarrow> store" where
  "mintNegotiationTask e now did negotiator createdBy v s =
    NegotiationTask_Create (uuid e) now did v negotiator NtOpen createdBy s"

definition reseedPartiesAndSignatureFields ::
  "env \<Rightarrow> int \<Rightarrow> string \<Rightarrow> store \<Rightarrow> (cwe_error, store) result" where
  "reseedPartiesAndSignatureFields e now did s =
    bind_res (ReadDataByDID now did s) (\<lambda>contract.
      case (c_data contract, c_responsible contract) of
        (Some raw, Some resp) \<Rightarrow>
          if raw = JNull then Inr s
          else bind_res (lift_doc (SeedPartiesAndSignatureFields (digest8 e) raw (GetParties resp)))
            (\<lambda>(seeded, changed).
              if \<not> changed then Inr s
              else Update now ((no_update did)\<lparr>u_data := Some seeded\<rparr>) s)
      | _ \<Rightarrow> Inr s)"

section \<open>The settlement gate\<close>

definition ownSettlementCoversStoredDocument ::
  "env \<Rightarrow> int \<Rightarrow> string \<Rightarrow> string \<Rightarrow> store \<Rightarrow> (cwe_error, bool) result" where
  "ownSettlementCoversStoredDocument e now localPeer did s =
    (case GetSettlement did localPeer s of
       None \<Rightarrow> Inr False
     | Some own \<Rightarrow>
         bind_res (ReadDataByDID now did s) (\<lambda>contract.
         bind_res (of_option DigestFailed (document_digest e
                    (if IsNotNullValue (c_data contract) then c_data contract else None))) (\<lambda>digest.
           Inr (digest = st_digest own))))"

definition requireUnsettledAgreement ::
  "env \<Rightarrow> int \<Rightarrow> string \<Rightarrow> string \<Rightarrow> store \<Rightarrow> (cwe_error, unit) result" where
  "requireUnsettledAgreement e now localPeer did s =
    bind_res (ReadPDFState did s) (\<lambda>pdfState.
    require (\<not> ArtifactCarriesSignature (pdf_c2pa_state pdfState)) AgreementSettled
    (bind_res (ownSettlementCoversStoredDocument e now localPeer did s) (\<lambda>settled.
      require (\<not> settled) OwnAgreementSettled (Inr ()))))"

definition withdrawOwnSettlement :: "int \<Rightarrow> string \<Rightarrow> string \<Rightarrow> store \<Rightarrow> store" where
  "withdrawOwnSettlement now localPeer did s =
    DeleteSettlementsBy did localPeer
      (fold (\<lambda>t. UpsertSettlementWithdrawal
           \<lparr>w_did = did, w_from_peer = localPeer, w_to_peer = st_to_peer t, w_digest = st_digest t,
            w_withdrawn_at = now - now mod microsecond, w_delivered = False\<rparr>)
        (GetSettlementsBy did localPeer s) s)"

section \<open>Offer, withdraw, terminate, review\<close>

definition validateOfferReady :: "env \<Rightarrow> json option \<Rightarrow> (cwe_error, unit) result" where
  "validateOfferReady e contractData =
    (case contractData of
       None \<Rightarrow> Inl ContractNotClosed
     | Some data \<Rightarrow>
         require (semantics_ok e (Some data)) SemanticValidationFailed
         (require (closed_ok e data) ContractNotClosed
         (require (hub_ok e (Some data)) HubConformanceFailed (Inr ()))))"

definition Offer :: "env \<Rightarrow> int \<Rightarrow> command \<Rightarrow> store \<Rightarrow> (cwe_error, store) result" where
  "Offer e now cmd s =
    bind_res (ReadProcessDataByDID now (cmd_did cmd) s) (\<lambda>p.
    bind_res (GetID e) (\<lambda>localPeer.
    bind_res (check_updated_at localPeer (c_updated_at p) cmd) (\<lambda>_.
    require (HasRoles (cmd_roles cmd) [ContractCreator, SystemContractCreator]) InvalidUserPermission
    (require (\<not> (cmd_causer cmd = localPeer \<and> cmd_by cmd \<noteq> c_created_by p)) InvalidParticipant
    (bind_res (lift_transition (ValidateTransition (c_state p) EventOffer)) (\<lambda>_.
    bind_res (ReadDataByDID now (cmd_did cmd) s) (\<lambda>contract.
    bind_res (validateOfferReady e (c_data contract)) (\<lambda>_.
      event_Create (OfferEvent (cmd_did cmd) (c_version p) (cmd_by cmd))
        (UpdateState now (cmd_did cmd) Offered s)))))))))"

definition Withdraw :: "env \<Rightarrow> int \<Rightarrow> command \<Rightarrow> store \<Rightarrow> (cwe_error, store) result" where
  "Withdraw e now cmd s =
    bind_res (ReadProcessDataByDID now (cmd_did cmd) s) (\<lambda>p.
    bind_res (GetID e) (\<lambda>localPeer.
    bind_res (check_updated_at localPeer (c_updated_at p) cmd) (\<lambda>_.
    require (HasRoles (cmd_roles cmd) [ContractCreator, SystemContractCreator]) InvalidUserPermission
    (require (\<not> (cmd_causer cmd = localPeer \<and> cmd_by cmd \<noteq> c_created_by p)) InvalidParticipant
    (bind_res (lift_transition (ValidateTransition (c_state p) EventWithdraw)) (\<lambda>_.
      event_Create (WithdrawEvent (cmd_did cmd) (c_version p) (cmd_by cmd))
        (UpdateState now (cmd_did cmd) Withdrawn s)))))))"

definition Terminate :: "env \<Rightarrow> int \<Rightarrow> reason_cmd \<Rightarrow> store \<Rightarrow> (cwe_error, store) result" where
  "Terminate e now cmd s =
    bind_res (ReadProcessDataByDID now (cmd_did cmd) s) (\<lambda>p.
    bind_res (GetID e) (\<lambda>localPeer.
    bind_res (check_updated_at localPeer (c_updated_at p) cmd) (\<lambda>_.
    bind_res (lift_transition (ValidateTransition (c_state p) EventTerminate)) (\<lambda>_.
    bind_res (event_Create (TerminateEvent (cmd_did cmd) (c_version p) (cmd_by cmd) (cmd_reason cmd))
        (UpdateState now (cmd_did cmd) Terminated s)) (\<lambda>s1.
      Inr (EnqueueTx (cmd_did cmd) (state_string Terminated) (cmd_reason cmd) now s1))))))"

definition Review :: "string \<Rightarrow> string \<Rightarrow> store \<Rightarrow> (cwe_error, store) result" where
  "Review did reviewedBy s = event_Create (ReviewEvent did reviewedBy) s"

section \<open>Approve and reject\<close>

definition Approve :: "env \<Rightarrow> int \<Rightarrow> command \<Rightarrow> store \<Rightarrow> (cwe_error, store) result" where
  "Approve e now cmd s =
    bind_res (ReadProcessDataByDID now (cmd_did cmd) s) (\<lambda>p.
    bind_res (GetID e) (\<lambda>localPeer.
    bind_res (check_updated_at localPeer (c_updated_at p) cmd) (\<lambda>_.
    bind_res (lift_transition (ValidateTransition (c_state p) EventApprove)) (\<lambda>_.
    require (IsValidApprover (cmd_did cmd) (cmd_causer cmd) s) InvalidUser
    (bind_res (ReadDataByDID now (cmd_did cmd) s) (\<lambda>contract.
    bind_res (of_option NoContractData (c_data contract)) (\<lambda>data.
    require (policy_ok e data) PolicyNotSatisfied
    (require (closed_ok e data) ContractNotClosed
    (bind_res (ApprovalTask_UpdateState (cmd_did cmd) (cmd_causer cmd) AtApproved s) (\<lambda>s1.
    bind_res (if ApprovalTask_AnyTasksInState (c_did p) [AtOpen] s1 then Inr s1
       else
         (let s2 = UpdateState now (cmd_did cmd) Approved s1
          in bind_res (ReadDataByDID now (cmd_did cmd) s2) (\<lambda>approved.
             bind_res (of_option MaterializationFailed (materialize e approved)) (\<lambda>final.
               Update now ((no_update (cmd_did cmd))\<lparr>u_data := Some final\<rparr>) s2)))) (\<lambda>s3.
      event_Create (ApproveEvent (cmd_did cmd) (c_version p) (cmd_by cmd)) s3)))))))))))"

definition Reject :: "env \<Rightarrow> int \<Rightarrow> reason_cmd \<Rightarrow> store \<Rightarrow> (cwe_error, store) result" where
  "Reject e now cmd s =
    bind_res (ReadProcessDataByDID now (cmd_did cmd) s) (\<lambda>p.
    bind_res (GetID e) (\<lambda>localPeer.
    bind_res (check_updated_at localPeer (c_updated_at p) cmd) (\<lambda>_.
    bind_res (lift_transition (ValidateTransition (c_state p) EventReject)) (\<lambda>_.
    require (IsValidApprover (cmd_did cmd) (cmd_causer cmd) s) InvalidUser
    (bind_res (ApprovalTask_UpdateState (cmd_did cmd) (cmd_causer cmd) AtRejected s) (\<lambda>s1.
      event_Create (RejectEvent (cmd_did cmd) (c_version p) (cmd_by cmd) (cmd_reason cmd))
        (UpdateState now (cmd_did cmd) Rejected
          (withdrawOwnSettlement now localPeer (cmd_did cmd) s1))))))))"

section \<open>Submit\<close>

definition canSubmitUpdatedContractData :: "contract_state \<Rightarrow> bool" where
  "canSubmitUpdatedContractData st = (st = Draft \<or> st = Rejected)"

definition contractDataForSemanticValidation ::
  "env \<Rightarrow> int \<Rightarrow> submit_cmd \<Rightarrow> store \<Rightarrow> (cwe_error, json option \<times> store) result" where
  "contractDataForSemanticValidation e now cmd s =
    (case (if IsNotNullValue (sub_data cmd) then sub_data cmd else None) of
       Some data \<Rightarrow>
         bind_res (of_option NormalizationFailed (normalize e data (cmd_did cmd) False)) (\<lambda>norm.
         bind_res (ReadDataByDID now (cmd_did cmd) s) (\<lambda>stored.
         bind_res (of_option CarryBundleFailed (carry_bundle e (c_data stored) norm)) (\<lambda>doc.
         bind_res (Update now ((no_update (cmd_did cmd))\<lparr>u_data := Some doc\<rparr>) s) (\<lambda>s1.
           Inr (Some doc, s1)))))
     | None \<Rightarrow>
         bind_res (ReadDataByDID now (cmd_did cmd) s) (\<lambda>contract. Inr (c_data contract, s)))"

text \<open>
  Submit branches on the state; each branch gives the store and the next state, if
  there is one.
\<close>

definition submit_from_draft ::
  "env \<Rightarrow> int \<Rightarrow> string \<Rightarrow> contract \<Rightarrow> submit_cmd \<Rightarrow> store
     \<Rightarrow> (cwe_error, store \<times> contract_state option) result" where
  "submit_from_draft e now localPeer p cmd s =
    require (HasRoles (cmd_roles cmd) [ContractCreator]) InvalidUserPermission
    (require (\<not> (cmd_causer cmd = localPeer \<and> cmd_by cmd \<noteq> c_created_by p)) InvalidParticipant
    (bind_res (contractDataForSemanticValidation e now cmd s) (\<lambda>(data, s1).
    require (semantics_ok e data) SemanticValidationFailed
    (require (hub_ok e data) HubConformanceFailed
    (bind_res (reseedPartiesAndSignatureFields e now (cmd_did cmd) s1) (\<lambda>s2.
      Inr (s2, Some Negotiation)))))))"

definition submit_from_rejected ::
  "env \<Rightarrow> int \<Rightarrow> string \<Rightarrow> contract \<Rightarrow> submit_cmd \<Rightarrow> store
     \<Rightarrow> (cwe_error, store \<times> contract_state option) result" where
  "submit_from_rejected e now localPeer p cmd s =
    require (HasRoles (cmd_roles cmd) [ContractCreator]) InvalidUserPermission
    (require (\<not> (cmd_causer cmd = localPeer \<and> cmd_by cmd \<noteq> c_created_by p)) InvalidParticipant
    (bind_res (contractDataForSemanticValidation e now cmd s) (\<lambda>(data, s1).
    require (semantics_ok e data) SemanticValidationFailed
    (require (hub_ok e data) HubConformanceFailed
      (Inr (ApprovalTask_ReopenTasks (cmd_did cmd)
             (NegotiationTask_ReopenTasks (cmd_did cmd) (c_version p)
               (ReviewTask_ReopenTasks (cmd_did cmd) s1)), Some Negotiation))))))"

text \<open>The discards of the fold, annotated on the losing requests and put on the audit trail.\<close>

definition submit_record_superseded ::
  "contract \<Rightarrow> submit_cmd \<Rightarrow> supersession list \<Rightarrow> store \<Rightarrow> (cwe_error, store) result" where
  "submit_record_superseded p cmd sups s =
    (if sups \<noteq> [] then
       bind_res (MarkSuperseded sups s) (\<lambda>s1.
         event_Create (SupersededEvent (cmd_did cmd) (c_version p) (c_version p + 1)
           sups (cmd_by cmd)) s1)
     else Inr s)"

text \<open>The round is answered and has change requests: fold them into the next version.\<close>

definition submit_merge ::
  "env \<Rightarrow> int \<Rightarrow> string \<Rightarrow> contract \<Rightarrow> submit_cmd \<Rightarrow> store \<Rightarrow> (cwe_error, store) result" where
  "submit_merge e now localPeer p cmd s =
    (let s1 = CreateHistoryEntryForDID now (c_did p) s
     in bind_res (MergeChangeRequests e now (cmd_did cmd) (c_version p) s1) (\<lambda>(u, sups).
        bind_res (if u_data u \<noteq> None then requireUnsettledAgreement e now localPeer (cmd_did cmd) s1
                  else Inr ()) (\<lambda>_.
        bind_res (Update now (u\<lparr>u_version := c_version p + 1\<rparr>) s1) (\<lambda>s2.
        (let s3 = RollForward (c_did p) (c_version p) (c_version p + 1) s2
         in bind_res (if u_data u \<noteq> None
                      then reseedPartiesAndSignatureFields e now (cmd_did cmd) s3 else Inr s3) (\<lambda>s4.
            bind_res (submit_record_superseded p cmd sups s4) (\<lambda>s6.
              event_Create (IncreaseContractVersionEvent (cmd_did cmd) (c_version p)
                (c_version p + 1) (cmd_by cmd)) s6)))))))"

definition submit_from_negotiation ::
  "env \<Rightarrow> int \<Rightarrow> string \<Rightarrow> contract \<Rightarrow> submit_cmd \<Rightarrow> store
     \<Rightarrow> (cwe_error, store \<times> contract_state option) result" where
  "submit_from_negotiation e now localPeer p cmd s =
    require (HasRoles (cmd_roles cmd) [ContractCreator, ContractNegotiator, ContractReviewer])
      InvalidUserPermission
    (require (IsValidNegotiator (cmd_did cmd) (cmd_causer cmd) (c_version p) s) NegotiationNotSettled
    (require (\<not> HasOpenNegotiationDecisions (cmd_did cmd) (c_version p) (cmd_causer cmd) (cmd_by cmd) s)
      OpenNegotiations
    (bind_res (NegotiationTask_UpdateState (c_did p) (cmd_causer cmd) (c_version p) NtAccepted s) (\<lambda>s1.
      if NegotiationTask_AnyTasksInState (c_did p) (c_version p) [NtOpen] s1 then Inr (s1, None)
      else if HasNegotiationForContractVersion (cmd_did cmd) (c_version p) s1
      then bind_res (submit_merge e now localPeer p cmd s1) (\<lambda>s2. Inr (s2, None))
      else Inr (s1, Some Submitted)))))"

definition submit_from_submitted ::
  "int \<Rightarrow> string \<Rightarrow> contract \<Rightarrow> submit_cmd \<Rightarrow> store
     \<Rightarrow> (cwe_error, store \<times> contract_state option) result" where
  "submit_from_submitted now localPeer p cmd s =
    require (HasRoles (cmd_roles cmd) [ContractReviewer]) InvalidUserPermission
    (require (IsValidReviewer (c_did p) (cmd_causer cmd) s) InvalidUser
    (case sub_action_flag cmd of
       None \<Rightarrow> Inl ActionFlagMissing
     | Some AfApproval \<Rightarrow>
         bind_res (ReviewTask_UpdateState (c_did p) (cmd_causer cmd) RtApproved s) (\<lambda>s1.
           Inr (s1, if ReviewTask_AnyTasksInState (c_did p) [RtOpen] s1 then None else Some Reviewed))
     | Some AfReject \<Rightarrow>
         Inr (withdrawOwnSettlement now localPeer (cmd_did cmd)
               (ApprovalTask_ReopenTasks (cmd_did cmd)
                 (NegotiationTask_ReopenTasks (cmd_did cmd) (c_version p)
                   (ReviewTask_ReopenTasks (cmd_did cmd) s))), Some Negotiation)))"

definition submit_from_reviewed ::
  "contract \<Rightarrow> submit_cmd \<Rightarrow> store \<Rightarrow> (cwe_error, store \<times> contract_state option) result" where
  "submit_from_reviewed p cmd s =
    require (HasRoles (cmd_roles cmd) [ContractApprover]) InvalidUserPermission
    (require (IsValidApprover (c_did p) (cmd_causer cmd) s) InvalidUser
      (Inr (ApprovalTask_ReopenTasks (cmd_did cmd) (ReviewTask_ReopenTasks (cmd_did cmd) s),
            Some Submitted)))"

definition submit_branch ::
  "env \<Rightarrow> int \<Rightarrow> string \<Rightarrow> contract \<Rightarrow> submit_cmd \<Rightarrow> store
     \<Rightarrow> (cwe_error, store \<times> contract_state option) result" where
  "submit_branch e now localPeer p cmd s =
    (if c_state p = Draft \<or> c_state p = Offered then submit_from_draft e now localPeer p cmd s
     else if c_state p = Rejected then submit_from_rejected e now localPeer p cmd s
     else if c_state p = Negotiation then submit_from_negotiation e now localPeer p cmd s
     else if c_state p = Submitted then submit_from_submitted now localPeer p cmd s
     else if c_state p = Reviewed then submit_from_reviewed p cmd s
     else Inl (InvalidTransition (ErrEvent (c_state p) EventSubmit)))"

text \<open>The closing step: a next state that differs is checked against the table and stored.\<close>

definition submit_advance ::
  "int \<Rightarrow> string \<Rightarrow> contract_state \<Rightarrow> contract_state option \<Rightarrow> store \<Rightarrow> (cwe_error, store) result" where
  "submit_advance now did current nextState s =
    (case nextState of
       None \<Rightarrow> Inr s
     | Some nxt \<Rightarrow>
         if current \<noteq> nxt then
           bind_res (lift_transition (ValidateOutcome current EventSubmit nxt)) (\<lambda>_.
             Inr (UpdateState now did nxt s))
         else Inr s)"

definition Submit :: "env \<Rightarrow> int \<Rightarrow> submit_cmd \<Rightarrow> store \<Rightarrow> (cwe_error, store) result" where
  "Submit e now cmd s =
    bind_res (ReadProcessDataByDID now (cmd_did cmd) s) (\<lambda>p.
    bind_res (GetID e) (\<lambda>localPeer.
    bind_res (check_updated_at localPeer (c_updated_at p) cmd) (\<lambda>_.
    require (\<not> (IsNotNullValue (sub_data cmd) \<and> \<not> canSubmitUpdatedContractData (c_state p)))
      ContractDataNotSubmittable
    (bind_res (if IsNotNullValue (sub_data cmd)
               then requireUnsettledAgreement e now localPeer (cmd_did cmd) s else Inr ()) (\<lambda>_.
    bind_res (lift_transition (ValidateTransition (c_state p) EventSubmit)) (\<lambda>_.
    bind_res (submit_branch e now localPeer p cmd s) (\<lambda>(s1, nextState).
    bind_res (submit_advance now (cmd_did cmd) (c_state p) nextState s1) (\<lambda>s2.
      event_Create (SubmitEvent (cmd_did cmd) (c_version p) (cmd_by cmd) (c_state p) nextState
        (sub_action_flag cmd)) s2))))))))"

section \<open>Offers and negotiations\<close>

text \<open>An offered contract enters the negotiation; in NEGOTIATION the state stays.\<close>

definition enter_negotiation ::
  "int \<Rightarrow> string \<Rightarrow> contract_state \<Rightarrow> store \<Rightarrow> (cwe_error, store) result" where
  "enter_negotiation now did current s =
    (if current = Offered then
       bind_res (lift_transition (ValidateOutcome current EventNegotiate Negotiation)) (\<lambda>_.
         Inr (UpdateState now did Negotiation s))
     else Inr s)"

definition AcceptOffer :: "env \<Rightarrow> int \<Rightarrow> command \<Rightarrow> store \<Rightarrow> (cwe_error, store) result" where
  "AcceptOffer e now cmd s =
    bind_res (ReadProcessDataByDID now (cmd_did cmd) s) (\<lambda>p.
    bind_res (GetID e) (\<lambda>localPeer.
    bind_res (check_updated_at localPeer (c_content_updated_at p) cmd) (\<lambda>_.
    bind_res (lift_transition (ValidateTransition (c_state p) EventNegotiate)) (\<lambda>_.
    require (c_origin p \<noteq> localPeer) NotAParty
    (bind_res (reseedPartiesAndSignatureFields e now (cmd_did cmd)
        (mintNegotiationTask e now (cmd_did cmd) localPeer (cmd_by cmd) (c_version p) s)) (\<lambda>s1.
    bind_res (enter_negotiation now (cmd_did cmd) (c_state p) s1) (\<lambda>s2.
      event_Create (AcceptOfferEvent (cmd_did cmd) (c_version p) (cmd_by cmd)) s2)))))))"

text \<open>The redline of a structured change request, applied at once as a new version.\<close>

definition negotiate_redline ::
  "env \<Rightarrow> int \<Rightarrow> string \<Rightarrow> contract \<Rightarrow> negotiation_cmd \<Rightarrow> store
     \<Rightarrow> (cwe_error, store \<times> int) result" where
  "negotiate_redline e now localPeer p cmd s =
    (case Option.bind (neg_change_request cmd) decode_change of
       None \<Rightarrow> Inr (s, c_version p)
     | Some change \<Rightarrow>
         (case cr_data change of
            None \<Rightarrow> Inr (s, c_version p)
          | Some proposed \<Rightarrow>
              bind_res (requireUnsettledAgreement e now localPeer (cmd_did cmd) s) (\<lambda>_.
              bind_res (of_option NormalizationFailed (normalize e proposed (cmd_did cmd) True)) (\<lambda>norm.
              bind_res (ReadDataByDID now (cmd_did cmd) s) (\<lambda>stored.
              bind_res (of_option CarryBundleFailed (carry_bundle e (c_data stored) norm)) (\<lambda>doc.
              bind_res (Update now ((no_update (cmd_did cmd))\<lparr>u_data := Some doc,
                    u_version := c_version p + 1\<rparr>) (CreateHistoryEntryForDID now (cmd_did cmd) s)) (\<lambda>s1.
                Inr (s1, c_version p + 1))))))))"

text \<open>Who may negotiate: the origin by its task, the counterparty by being one.\<close>

definition negotiate_engage ::
  "env \<Rightarrow> int \<Rightarrow> string \<Rightarrow> contract \<Rightarrow> negotiation_cmd \<Rightarrow> store \<Rightarrow> (cwe_error, store) result" where
  "negotiate_engage e now localPeer p cmd s =
    (if c_origin p = localPeer
     then require (IsValidNegotiator (cmd_did cmd) (cmd_causer cmd) (c_version p) s) NotAParty (Inr s)
     else Inr (mintNegotiationTask e now (cmd_did cmd) localPeer (cmd_by cmd) (c_version p) s))"

definition Negotiate :: "env \<Rightarrow> int \<Rightarrow> negotiation_cmd \<Rightarrow> store \<Rightarrow> (cwe_error, store) result" where
  "Negotiate e now cmd s =
    bind_res (ReadProcessDataByDID now (cmd_did cmd) s) (\<lambda>p.
    bind_res (GetID e) (\<lambda>localPeer.
    bind_res (check_updated_at localPeer (c_content_updated_at p) cmd) (\<lambda>_.
    bind_res (lift_transition (ValidateTransition (c_state p) EventNegotiate)) (\<lambda>_.
    bind_res (negotiate_engage e now localPeer p cmd s) (\<lambda>s1.
    (let negotiators = ReadNegotiatorsForDID (cmd_did cmd) s1;
         s2 = Negotiation_Create (uuid e) now (cmd_did cmd) (c_version p) (neg_change_request cmd)
                (cmd_by cmd) negotiators s1
     in bind_res (negotiate_redline e now localPeer p cmd s2) (\<lambda>(s3, roundVersion).
        (let s4 = (if roundVersion \<noteq> c_version p
                   then RollForward (cmd_did cmd) (c_version p) roundVersion s3
                   else NegotiationTask_ReopenTasks (cmd_did cmd) roundVersion s3)
         in bind_res (reseedPartiesAndSignatureFields e now (cmd_did cmd) s4) (\<lambda>s5.
            bind_res (enter_negotiation now (cmd_did cmd) (c_state p) s5) (\<lambda>s6.
              event_Create (NegotiationEvent (cmd_did cmd) (c_version p) (neg_change_request cmd)
                  (cmd_by cmd) negotiators)
                (DeleteDraft (cmd_did cmd) (cmd_by cmd) s6)))))))))))"

definition AcceptNegotiation :: "int \<Rightarrow> respond_cmd \<Rightarrow> store \<Rightarrow> (cwe_error, store) result" where
  "AcceptNegotiation now cmd s =
    bind_res (ReadProcessDataByDID now (cmd_did cmd) s) (\<lambda>p.
    bind_res (lift_transition (ValidateTransition (c_state p) EventAcceptNegotiation)) (\<lambda>_.
    require (IsValidNegotiator (cmd_did cmd) (cmd_causer cmd) (c_version p) s) NotAParty
    (bind_res (ReadCreatedByByNegotiationID (resp_id cmd) s) (\<lambda>createdBy.
    require (\<not> (createdBy \<noteq> '''' \<and> createdBy = cmd_by cmd)) ConflictOfInterest
    (bind_res (Negotiation_Accept (resp_id cmd) (cmd_causer cmd) s) (\<lambda>s1.
      event_Create (AcceptNegotiationEvent (cmd_did cmd) (c_version p) (cmd_by cmd)) s1))))))"

definition RejectNegotiation :: "int \<Rightarrow> respond_cmd \<Rightarrow> store \<Rightarrow> (cwe_error, store) result" where
  "RejectNegotiation now cmd s =
    bind_res (ReadProcessDataByDID now (cmd_did cmd) s) (\<lambda>p.
    bind_res (lift_transition (ValidateTransition (c_state p) EventRejectNegotiation)) (\<lambda>_.
    require (IsValidNegotiator (cmd_did cmd) (cmd_causer cmd) (c_version p) s) NotAParty
    (bind_res (Negotiation_Reject (resp_id cmd) (cmd_causer cmd) (resp_reason cmd) s) (\<lambda>s1.
      event_Create (RejectNegotiationEvent (cmd_did cmd) (c_version p) (cmd_by cmd) (resp_reason cmd)) s1))))"

definition negotiationDraftRoles :: "user_role list" where
  "negotiationDraftRoles = [ContractCreator, SystemContractCreator, ContractNegotiator,
     ContractReviewer, SystemContractReviewer, ContractManager]"

definition SaveNegotiationDraft :: "int \<Rightarrow> negotiation_cmd \<Rightarrow> store \<Rightarrow> (cwe_error, store) result" where
  "SaveNegotiationDraft now cmd s =
    require (HasRoles (cmd_roles cmd) negotiationDraftRoles) InvalidUserPermission
    (bind_res (ReadProcessDataByDID now (cmd_did cmd) s) (\<lambda>p.
    require (EventAllowed (c_state p) EventNegotiate)
      (InvalidTransition (ErrEvent (c_state p) EventNegotiate))
      (Inr (UpsertDraft now (cmd_did cmd) (cmd_by cmd) (neg_change_request cmd) s))))"

definition DeleteNegotiationDraft :: "command \<Rightarrow> store \<Rightarrow> (cwe_error, store) result" where
  "DeleteNegotiationDraft cmd s =
    require (HasRoles (cmd_roles cmd) negotiationDraftRoles) InvalidUserPermission
      (Inr (DeleteDraft (cmd_did cmd) (cmd_by cmd) s))"

section \<open>Update\<close>

text \<open>
  \<open>checkNoParentCycle\<close>: the walk along the stored parent references.  Its result is
  \<open>Some True\<close> when the walk reaches the contract itself; \<open>None\<close> would be a walk that
  never ends.
\<close>

partial_function (option) parent_walk ::
  "(string \<Rightarrow> contract option) \<Rightarrow> string \<Rightarrow> string list \<Rightarrow> string \<Rightarrow> bool option" where
  [code]: "parent_walk rows self visited current =
    (if current = '''' then Some False
     else if current = self then Some True
     else if current \<in> set visited then Some False
     else (case rows current of
             None \<Rightarrow> Some False
           | Some parent \<Rightarrow>
               parent_walk rows self (current # visited) (extractParentContractDID (c_data parent))))"

definition checkNoParentCycle :: "string \<Rightarrow> string \<Rightarrow> store \<Rightarrow> (cwe_error, unit) result" where
  "checkNoParentCycle self proposed s =
    (case parent_walk (contracts s) self [] proposed of
       None \<Rightarrow> Inl WalkDiverges
     | Some True \<Rightarrow> Inl HierarchyCycle
     | Some False \<Rightarrow> Inr ())"

definition day_ns :: int where
  "day_ns = 86400 * 1000000000"

definition tomorrow :: "int \<Rightarrow> int" where
  "tomorrow now = now - now mod day_ns + day_ns"

definition dates_ok :: "int \<Rightarrow> int option \<Rightarrow> int option \<Rightarrow> bool" where
  "dates_ok now startDate expDate =
    ((case expDate of None \<Rightarrow> True | Some t \<Rightarrow> \<not> t < tomorrow now)
     \<and> (case startDate of None \<Rightarrow> True | Some t \<Rightarrow> \<not> t < tomorrow now)
     \<and> (case (startDate, expDate) of (Some a, Some b) \<Rightarrow> a < b | _ \<Rightarrow> True))"

definition prepare_saved_document ::
  "env \<Rightarrow> contract \<Rightarrow> json option \<Rightarrow> (cwe_error, json option) result" where
  "prepare_saved_document e old data =
    (case (if IsNotNullValue data then data else None) of
       None \<Rightarrow> Inr data
     | Some d \<Rightarrow>
         bind_res (of_option CarryBundleFailed (carry_bundle e (c_data old) d)) (\<lambda>carried.
           case c_responsible old of
             None \<Rightarrow> Inr (Some carried)
           | Some resp \<Rightarrow>
               bind_res (lift_doc (SeedPartiesAndSignatureFields (digest8 e) carried (GetParties resp)))
                 (\<lambda>(seeded, changed). Inr (Some (if changed then seeded else carried)))))"

definition UpdateContract :: "env \<Rightarrow> int \<Rightarrow> update_cmd \<Rightarrow> store \<Rightarrow> (cwe_error, store) result" where
  "UpdateContract e now cmd s =
    bind_res (case (if IsNotNullValue (upd_data cmd) then upd_data cmd else None) of
        None \<Rightarrow> Inr (upd_data cmd)
      | Some d \<Rightarrow> bind_res (of_option NormalizationFailed (normalize e d (cmd_did cmd) True))
          (\<lambda>norm. Inr (Some norm))) (\<lambda>data.
    bind_res (ReadDataByDID now (cmd_did cmd) s) (\<lambda>old.
    bind_res (GetID e) (\<lambda>localPeer.
    require (\<not> (c_origin old \<noteq> localPeer \<and> cmd_causer cmd \<noteq> c_origin old)) NotOwnerPeer
    (bind_res (check_updated_at localPeer (c_updated_at old) cmd) (\<lambda>_.
    bind_res (lift_transition (ValidateTransition (c_state old) EventUpdate)) (\<lambda>_.
    bind_res (if extractParentContractDID data \<noteq> ''''
        then checkNoParentCycle (cmd_did cmd) (extractParentContractDID data) s else Inr ()) (\<lambda>_.
    require (dates_ok now (upd_start_date cmd) (upd_exp_date cmd)) DatesInvalid
    (require (case c_exp_policy old of None \<Rightarrow> True | Some p \<Rightarrow> NewExpirationPolicy p \<noteq> None)
      UnknownExpirationPolicy
    (bind_res (prepare_saved_document e old data) (\<lambda>doc.
    bind_res (Update now ((no_update (cmd_did cmd))\<lparr>u_name := upd_name cmd,
        u_description := upd_description cmd, u_start_date := upd_start_date cmd,
        u_exp_date := upd_exp_date cmd,
        u_exp_policy := map_option expiration_policy_string (upd_exp_policy cmd),
        u_exp_notice_period := upd_exp_notice_period cmd, u_data := doc\<rparr>) s) (\<lambda>s1.
      event_Create (UpdateEvent (cmd_did cmd) (cmd_by cmd) (c_data old) doc) s1)))))))))))"

section \<open>The expiry job\<close>

definition callExpirationLogic :: "int \<Rightarrow> contract \<Rightarrow> store \<Rightarrow> (cwe_error, store) result" where
  "callExpirationLogic now c s =
    (case c_exp_policy c of
       None \<Rightarrow> Inl UnknownExpirationPolicy
     | Some raw \<Rightarrow>
         bind_res (of_option UnknownExpirationPolicy (NewExpirationPolicy raw)) (\<lambda>policy.
           event_Create (ContractExpired (c_did c) (c_version c) (c_state c) policy)
             (UpdateState now (c_did c) Expired s)))"

text \<open>
  One tick: every contract that is due is handled in its own transaction, an error
  is logged and leaves the store as it was.
\<close>

fun expiry_tick :: "int \<Rightarrow> contract list \<Rightarrow> store \<Rightarrow> store" where
  "expiry_tick now [] s = s"
| "expiry_tick now (c # cs) s =
     expiry_tick now cs (case callExpirationLogic now c s of Inl _ \<Rightarrow> s | Inr s' \<Rightarrow> s')"

end
