(* ===== verification/Contract_Invariants.thy ===== *)
theory Contract_Invariants
  imports Contract_Commands
begin

text \<open>
  What every command handler of the workflow engine keeps: it touches one contract
  only, the row keeps its identity, its version and its two clocks never go back,
  and its state moves along the transition table.  The locale \<open>contract_handler\<close>
  states this for any handler and derives what follows for runs of commands; the
  modelled handlers interpret it.
\<close>

section \<open>Growth of a row\<close>

definition row_grows :: "contract \<Rightarrow> contract \<Rightarrow> bool" where
  "row_grows r r' =
    (c_did r' = c_did r \<and> c_origin r' = c_origin r \<and> c_created_by r' = c_created_by r
     \<and> c_pdf r' = c_pdf r \<and> c_version r \<le> c_version r'
     \<and> c_updated_at r \<le> c_updated_at r' \<and> c_content_updated_at r \<le> c_content_updated_at r')"

lemma row_grows_refl [simp]: "row_grows r r"
  by (simp add: row_grows_def)

lemma row_grows_trans: "row_grows a b \<Longrightarrow> row_grows b c \<Longrightarrow> row_grows a c"
  by (auto simp: row_grows_def)

text \<open>\<open>evolves did s s'\<close>: the contract table changed at most in the row of \<open>did\<close>, which grew.\<close>

definition evolves :: "string \<Rightarrow> store \<Rightarrow> store \<Rightarrow> bool" where
  "evolves did s s' =
    ((\<forall>d. d \<noteq> did \<longrightarrow> contracts s' d = contracts s d)
     \<and> rel_option row_grows (contracts s did) (contracts s' did))"

lemma evolves_contracts: "contracts s' = contracts s \<Longrightarrow> evolves did s s'"
  by (simp add: evolves_def option.rel_refl)

lemma evolves_refl [simp]: "evolves did s s"
  by (rule evolves_contracts) simp

lemma evolves_trans: "evolves did s t \<Longrightarrow> evolves did t u \<Longrightarrow> evolves did s u"
  unfolding evolves_def
  by (cases "contracts s did"; cases "contracts t did"; cases "contracts u did")
     (auto intro: row_grows_trans)

lemma evolves_update_row:
  assumes "\<And>c. contracts s did = Some c \<Longrightarrow>
      c_did (f c) = c_did c \<and> c_origin (f c) = c_origin c \<and> c_created_by (f c) = c_created_by c
      \<and> c_pdf (f c) = c_pdf c \<and> c_version c \<le> c_version (f c)
      \<and> c_updated_at (f c) = c_updated_at c \<and> c_content_updated_at (f c) = c_content_updated_at c"
  shows "evolves did s (update_row now did f s)"
proof (cases "contracts s did")
  case (Some c)
  from assms [OF Some] triggers_monotone [of "f c" c now] show ?thesis
    by (simp add: evolves_def contracts_update_row Some row_grows_def)
qed (simp add: update_row_def)

definition state_at :: "store \<Rightarrow> string \<Rightarrow> contract_state option" where
  "state_at s did = map_option c_state (contracts s did)"

definition data_at :: "store \<Rightarrow> string \<Rightarrow> json option" where
  "data_at s did = Option.bind (contracts s did) c_data"

lemma state_at_contracts: "contracts s' = contracts s \<Longrightarrow> state_at s' = state_at s"
  by (simp add: state_at_def fun_eq_iff)

section \<open>The repository operations\<close>

lemma UpdateState_evolves [simp]: "evolves did s (UpdateState now did st s)"
  unfolding UpdateState_def by (rule evolves_update_row) simp

lemma state_at_UpdateState [simp]:
  "state_at (UpdateState now did st s) d =
     (if d = did then map_option (\<lambda>_. st) (contracts s did) else state_at s d)"
  by (simp add: state_at_def UpdateState_state)

lemma set_opt_col [simp]: "set (opt_col f v) = f ` set_option v"
  by (cases v) (simp_all add: opt_col_def)

lemma set_column_state: "\<forall>st. ColState st \<noteq> x \<Longrightarrow> c_state (set_column x c) = c_state c"
  by (cases x) auto

lemma set_column_version: "\<forall>v. ColVersion v \<noteq> x \<Longrightarrow> c_version (set_column x c) = c_version c"
  by (cases x) auto

lemma set_column_data: "\<forall>d. ColData d \<noteq> x \<Longrightarrow> c_data (set_column x c) = c_data c"
  by (cases x) auto

lemma set_columns_fields:
  "\<forall>st. ColState st \<notin> set cols \<Longrightarrow> c_state (fold set_column cols c) = c_state c"
  "\<forall>v. ColVersion v \<notin> set cols \<Longrightarrow> c_version (fold set_column cols c) = c_version c"
  "\<forall>d. ColData d \<notin> set cols \<Longrightarrow> c_data (fold set_column cols c) = c_data c"
  by (induction cols arbitrary: c)
     (simp_all add: set_column_state set_column_version set_column_data)

lemma createQuery_columns:
  assumes "createQuery u = Inr cols"
  shows "u_state u = None \<Longrightarrow> c_state (fold set_column cols c) = c_state c"
    and "c_version (fold set_column cols c) = (if u_version u > 0 then u_version u else c_version c)"
    and "c_data (fold set_column cols c) = (if IsNotNullValue (u_data u) then u_data u else c_data c)"
proof -
  let ?v = "if u_version u > 0 then [ColVersion (u_version u)] else []"
  let ?mid = "opt_col ColState (u_state u) @ opt_col ColName (u_name u) @ opt_col ColDescription (u_description u)"
  let ?d = "if IsNotNullValue (u_data u) then opt_col ColData (u_data u) else []"
  let ?rest = "opt_col ColStartDate (u_start_date u) @ opt_col ColExpDate (u_exp_date u)
     @ opt_col ColExpPolicy (u_exp_policy u) @ opt_col ColExpNoticePeriod (u_exp_notice_period u)
     @ opt_col ColResponsible (u_responsible u)"
  have cols: "cols = ?v @ ?mid @ ?d @ ?rest"
    using assms by (simp add: createQuery_def Let_def split: if_split_asm)
  show "c_state (fold set_column cols c) = c_state c" if "u_state u = None"
    by (rule set_columns_fields(1)) (use that in \<open>auto simp: cols split: if_split_asm\<close>)
  have "c_version (fold set_column (?mid @ ?d @ ?rest) x) = c_version x" for x
    by (rule set_columns_fields(2)) (auto split: if_split_asm)
  then show "c_version (fold set_column cols c) = (if u_version u > 0 then u_version u else c_version c)"
    unfolding cols fold_append comp_def by simp
  have "c_data (fold set_column ?rest x) = c_data x" for x
    by (rule set_columns_fields(3)) auto
  moreover have "c_data (fold set_column (?v @ ?mid) x) = c_data x" for x
    by (rule set_columns_fields(3)) (auto split: if_split_asm)
  moreover have "c_data (fold set_column ?d x) = (if IsNotNullValue (u_data u) then u_data u else c_data x)" for x
    by (cases "u_data u") (auto simp: opt_col_def)
  ultimately show "c_data (fold set_column cols c) = (if IsNotNullValue (u_data u) then u_data u else c_data c)"
    unfolding cols fold_append comp_def by simp
qed

lemma Update_evolves:
  assumes "Update now u s = Inr s'"
    and "\<And>c. contracts s (u_did u) = Some c \<Longrightarrow> u_version u > 0 \<Longrightarrow> c_version c \<le> u_version u"
  shows "evolves (u_did u) s s'"
proof -
  obtain cols where cols: "createQuery u = Inr cols"
      "s' = update_row now (u_did u) (fold set_column cols) s"
    using assms(1) by (auto simp: Update_def bind_res_Inr_iff)
  show ?thesis unfolding cols(2)
    by (rule evolves_update_row)
       (use assms(2) in \<open>simp add: set_columns_keeps createQuery_columns(2) [OF cols(1)]\<close>)
qed

lemma Update_state:
  assumes "Update now u s = Inr s'" "u_state u = None"
  shows "state_at s' d = state_at s d"
proof -
  obtain cols where cols: "createQuery u = Inr cols"
      "s' = update_row now (u_did u) (fold set_column cols) s"
    using assms(1) by (auto simp: Update_def bind_res_Inr_iff)
  show ?thesis unfolding cols(2) state_at_def
    by (simp add: contracts_update_row option.map_comp comp_def createQuery_columns(1) [OF cols(1) assms(2)])
qed

lemma no_update_fields [simp]:
  "u_did (no_update did) = did" "u_state (no_update did) = None" "u_version (no_update did) = 0"
  "u_data (no_update did) = None"
  by (simp_all add: no_update_def)

lemma reseed_evolves:
  assumes "reseedPartiesAndSignatureFields e now did s = Inr s'"
  shows "evolves did s s' \<and> (\<forall>d. state_at s' d = state_at s d)"
  using assms Update_evolves [of now _ s s'] Update_state [of now _ s s']
  by (fastforce simp: reseedPartiesAndSignatureFields_def bind_res_Inr_iff
      split: option.splits prod.splits if_splits)

lemma withdraw_contracts [simp]: "contracts (withdrawOwnSettlement now p d s) = contracts s"
proof -
  have "contracts (fold (\<lambda>t. UpsertSettlementWithdrawal (f t)) ts s) = contracts s" for f ts s
    by (induction ts arbitrary: s) simp_all
  then show ?thesis by (simp add: withdrawOwnSettlement_def)
qed

lemma mint_contracts [simp]: "contracts (mintNegotiationTask e now d n b v s) = contracts s"
  by (simp add: mintNegotiationTask_def)

lemma event_Create_contracts:
  "event_Create evt s = Inr s' \<Longrightarrow> contracts s' = contracts s"
  by (rule contracts_result_ops(6))

section \<open>The interface of a handler\<close>

text \<open>
  \<open>steps now did s s'\<close>: one transaction on the contract \<open>did\<close> at time \<open>now\<close>.
\<close>

definition steps :: "int \<Rightarrow> string \<Rightarrow> store \<Rightarrow> store \<Rightarrow> bool" where
  "steps now did s s' =
    (evolves did s s'
     \<and> (\<forall>r r'. contracts s did = Some r \<longrightarrow> contracts s' did = Some r' \<longrightarrow>
          c_state r' = c_state r \<or> contract_step (effective_state now r) (c_state r')))"

lemma steps_same: "contracts s' = contracts s \<Longrightarrow> steps now did s s'"
  by (simp add: steps_def evolves_contracts)

lemma steps_state_kept:
  "evolves did s s' \<Longrightarrow> state_at s' did = state_at s did \<Longrightarrow> steps now did s s'"
  by (auto simp: steps_def state_at_def)

lemma steps_UpdateState:
  assumes "evolves did s t" "contracts s did = Some r" "contract_step (effective_state now r) st"
  shows "steps now did s (UpdateState now did st t)"
proof -
  have "evolves did s (UpdateState now did st t)"
    using assms(1) UpdateState_evolves by (rule evolves_trans)
  moreover have "c_state r' = st" if "contracts (UpdateState now did st t) did = Some r'" for r'
    using state_at_UpdateState [of now did st t did] that
    by (cases "contracts t did") (simp_all add: state_at_def)
  ultimately show ?thesis using assms(2,3) by (auto simp: steps_def)
qed

lemma steps_contracts: "steps now did s t \<Longrightarrow> contracts t' = contracts t \<Longrightarrow> steps now did s t'"
  by (simp add: steps_def evolves_def)

lemma steps_then_kept:
  assumes "steps now did s t" "evolves did t u" "state_at u did = state_at t did"
  shows "steps now did s u"
proof -
  have "evolves did s u" using assms(1,2) evolves_trans by (auto simp: steps_def)
  moreover have "c_state r' = c_state r \<or> contract_step (effective_state now r) (c_state r')"
    if rows: "contracts s did = Some r" "contracts u did = Some r'" for r r'
  proof -
    obtain t' where "contracts t did = Some t'" "c_state t' = c_state r'"
      using assms(3) rows(2) by (cases "contracts t did") (auto simp: state_at_def)
    then show ?thesis using assms(1) rows(1) by (auto simp: steps_def)
  qed
  ultimately show ?thesis by (auto simp: steps_def)
qed

text \<open>The primary key of a row is its DID.\<close>

definition store_wf :: "store \<Rightarrow> bool" where
  "store_wf s = (\<forall>d r. contracts s d = Some r \<longrightarrow> c_did r = d)"

lemma evolves_wf:
  assumes "evolves did s s'" "store_wf s"
  shows "store_wf s'"
  unfolding store_wf_def
proof (intro allI impI)
  fix d r'
  assume r': "contracts s' d = Some r'"
  show "c_did r' = d"
  proof (cases "d = did")
    case True
    then obtain r where "contracts s d = Some r" "row_grows r r'"
      using assms(1) r' by (cases "contracts s did") (auto simp: evolves_def)
    then show ?thesis using assms(2) by (auto simp: store_wf_def row_grows_def)
  next
    case False
    then show ?thesis using assms r' by (auto simp: evolves_def store_wf_def)
  qed
qed

lemma steps_wf: "steps now did s s' \<Longrightarrow> store_wf s \<Longrightarrow> store_wf s'"
  using evolves_wf by (auto simp: steps_def)

locale contract_handler =
  fixes run :: "int \<Rightarrow> 'cmd \<Rightarrow> store \<Rightarrow> (cwe_error, store) result"
    and target :: "'cmd \<Rightarrow> string"
  assumes run_steps: "store_wf s \<Longrightarrow> run now c s = Inr s' \<Longrightarrow> steps now (target c) s s'"
begin

text \<open>A run of commands: a refused command is rolled back.\<close>

fun run_all :: "(int \<times> 'cmd) list \<Rightarrow> store \<Rightarrow> store" where
  "run_all [] s = s"
| "run_all ((now, c) # cs) s =
     run_all cs (case run now c s of Inl _ \<Rightarrow> s | Inr s' \<Rightarrow> s')"

lemma run_wf: "store_wf s \<Longrightarrow> run now c s = Inr s' \<Longrightarrow> store_wf s'"
  using run_steps steps_wf by blast

lemma run_other:
  "store_wf s \<Longrightarrow> run now c s = Inr s' \<Longrightarrow> d \<noteq> target c \<Longrightarrow> contracts s' d = contracts s d"
  using run_steps [of s now c s'] by (auto simp: steps_def evolves_def)

lemma run_row:
  assumes "store_wf s" "run now c s = Inr s'" "contracts s d = Some r"
  obtains r' where "contracts s' d = Some r'" "row_grows r r'"
    "c_state r' = c_state r \<or> contract_step (effective_state now r) (c_state r')"
proof (cases "d = target c")
  case True
  have *: "steps now d s s'" using run_steps [OF assms(1,2)] True by simp
  then obtain r' where "contracts s' d = Some r'" "row_grows r r'"
    using assms(3) by (cases "contracts s' d") (auto simp: steps_def evolves_def)
  with * assms(3) that show thesis by (auto simp: steps_def)
next
  case False
  with run_other [OF assms(1,2)] assms(3) that [of r] show thesis by simp
qed

lemma run_all_row:
  "store_wf s \<Longrightarrow> contracts s d = Some r \<Longrightarrow>
   \<exists>r'. contracts (run_all cs s) d = Some r' \<and> row_grows r r'"
proof (induction cs arbitrary: s r)
  case (Cons x cs)
  obtain now c where x: "x = (now, c)" by fastforce
  show ?case
  proof (cases "run now c s")
    case (Inl err)
    with Cons x show ?thesis by simp
  next
    case (Inr s')
    obtain r' where r': "contracts s' d = Some r'" "row_grows r r'"
      by (rule run_row [OF Cons.prems(1) Inr Cons.prems(2)]) (rule that, assumption+)
    from Cons.IH [OF run_wf [OF Cons.prems(1) Inr] r'(1)] obtain r'' where
      "contracts (run_all cs s') d = Some r''" "row_grows r' r''" by blast
    with r'(2) row_grows_trans show ?thesis by (auto simp: x Inr)
  qed
qed auto

lemma run_all_terminated:
  "store_wf s \<Longrightarrow> state_at s d = Some Terminated \<Longrightarrow> state_at (run_all cs s) d = Some Terminated"
proof (induction cs arbitrary: s)
  case (Cons x cs)
  obtain now c where x: "x = (now, c)" by fastforce
  show ?case
  proof (cases "run now c s")
    case (Inl err)
    with Cons x show ?thesis by simp
  next
    case (Inr s')
    obtain r where r: "contracts s d = Some r" "c_state r = Terminated"
      using Cons.prems(2) by (auto simp: state_at_def)
    obtain r' where r': "contracts s' d = Some r'"
        "c_state r' = c_state r \<or> contract_step (effective_state now r) (c_state r')"
      by (rule run_row [OF Cons.prems(1) Inr r(1)]) (rule that, assumption+)
    have "effective_state now r = Terminated"
      using r(2) by (simp add: effective_state_def never_expires_def split: option.splits)
    with r' r have "state_at s' d = Some Terminated"
      by (auto simp: state_at_def contract_step_def Transitions_def)
    from Cons.IH [OF run_wf [OF Cons.prems(1) Inr] this] show ?thesis by (simp add: x Inr)
  qed
qed simp

end

end
