(* ===== verification/Command_Steps.thy ===== *)
theory Command_Steps
  imports Contract_Invariants
begin

text \<open>
  Every modelled command handler is a \<open>contract_handler\<close>: one step of the workflow on
  one contract.
\<close>

section \<open>Reading handlers backwards\<close>

lemma ReadProcessDataByDID_Inr:
  "ReadProcessDataByDID now did s = Inr p \<longleftrightarrow>
     (\<exists>r. contracts s did = Some r \<and> p = r\<lparr>c_state := effective_state now r\<rparr>)"
  by (auto simp: ReadProcessDataByDID_def split: option.splits)

lemma ReadDataByDID_Inr:
  "ReadDataByDID now did s = Inr p \<longleftrightarrow>
     (\<exists>r. contracts s did = Some r \<and> p = r\<lparr>c_state := effective_state now r\<rparr>)"
  by (auto simp: ReadDataByDID_def split: option.splits)

lemma check_updated_at_Inr:
  "check_updated_at p t cmd = Inr u \<longleftrightarrow> \<not> unix_seconds (cmd_updated_at cmd) < unix_seconds t"
  by (simp add: check_updated_at_def)

lemmas handler_iffs = bind_res_Inr_iff require_Inr_iff ReadProcessDataByDID_Inr ReadDataByDID_Inr
  check_updated_at_Inr

lemma event_step:
  "event_Create evt t = Inr s' \<Longrightarrow> steps now did s t \<Longrightarrow> steps now did s s'"
  by (rule steps_contracts [OF _ event_Create_contracts])

lemma event_UpdateState_steps:
  assumes "event_Create evt (UpdateState now did st t) = Inr s'" "contracts t = contracts s"
    and "contracts s did = Some r" "contract_step (effective_state now r) st"
  shows "steps now did s s'"
  by (rule event_step [OF assms(1)]) (rule steps_UpdateState [OF evolves_contracts [OF assms(2)] assms(3,4)])

section \<open>The simple handlers\<close>

lemma allowed_contract_step:
  "EventAllowed st EventOffer \<Longrightarrow> contract_step st Offered"
  "EventAllowed st EventWithdraw \<Longrightarrow> contract_step st Withdrawn"
  "EventAllowed st EventReject \<Longrightarrow> contract_step st Rejected"
  "EventAllowed st EventApprove \<Longrightarrow> contract_step st Approved"
  "EventAllowed st EventTerminate \<Longrightarrow> contract_step st Terminated"
  by (auto simp: EventAllowed_from contract_step_cases split: contract_state.splits)

lemma Offer_steps:
  assumes "Offer e now cmd s = Inr s'"
  shows "steps now (cmd_did cmd) s s'"
proof -
  from assms obtain r evt where "contracts s (cmd_did cmd) = Some r"
      "EventAllowed (effective_state now r) EventOffer"
      "event_Create evt (UpdateState now (cmd_did cmd) Offered s) = Inr s'"
    by (auto simp: Offer_def handler_iffs)
  then show ?thesis by (metis event_UpdateState_steps allowed_contract_step(1))
qed

lemma Withdraw_steps:
  assumes "Withdraw e now cmd s = Inr s'"
  shows "steps now (cmd_did cmd) s s'"
proof -
  from assms obtain r evt where "contracts s (cmd_did cmd) = Some r"
      "EventAllowed (effective_state now r) EventWithdraw"
      "event_Create evt (UpdateState now (cmd_did cmd) Withdrawn s) = Inr s'"
    by (auto simp: Withdraw_def handler_iffs)
  then show ?thesis by (metis event_UpdateState_steps allowed_contract_step(2))
qed

lemma Terminate_steps:
  assumes "Terminate e now cmd s = Inr s'"
  shows "steps now (cmd_did cmd) s s'"
proof -
  from assms obtain r evt s1 where r: "contracts s (cmd_did cmd) = Some r"
      "EventAllowed (effective_state now r) EventTerminate"
      "event_Create evt (UpdateState now (cmd_did cmd) Terminated s) = Inr s1"
      "contracts s' = contracts s1"
    by (auto simp: Terminate_def handler_iffs)
  then have "steps now (cmd_did cmd) s s1"
    by (metis event_UpdateState_steps allowed_contract_step(5))
  then show ?thesis using r(4) by (rule steps_contracts)
qed

lemma Reject_steps:
  assumes "Reject e now cmd s = Inr s'"
  shows "steps now (cmd_did cmd) s s'"
proof -
  from assms obtain r evt t where r: "contracts s (cmd_did cmd) = Some r"
      "EventAllowed (effective_state now r) EventReject"
      "event_Create evt (UpdateState now (cmd_did cmd) Rejected t) = Inr s'"
      "contracts t = contracts s"
    by (auto simp: Reject_def handler_iffs dest!: contracts_result_ops(2))
  then show ?thesis by (metis event_UpdateState_steps allowed_contract_step(3))
qed

lemma Review_steps: "Review d b s = Inr s' \<Longrightarrow> steps now did s s'"
  by (auto simp: Review_def intro!: steps_same dest: event_Create_contracts)

lemma AcceptNegotiation_steps:
  "AcceptNegotiation now cmd s = Inr s' \<Longrightarrow> steps now did s s'"
  by (auto simp: AcceptNegotiation_def handler_iffs
      intro!: steps_same dest!: event_Create_contracts contracts_result_ops(4))

lemma RejectNegotiation_steps:
  "RejectNegotiation now cmd s = Inr s' \<Longrightarrow> steps now did s s'"
  by (auto simp: RejectNegotiation_def handler_iffs
      intro!: steps_same dest!: event_Create_contracts contracts_result_ops(5))

lemma SaveNegotiationDraft_steps:
  "SaveNegotiationDraft now cmd s = Inr s' \<Longrightarrow> steps now did s s'"
  by (auto simp: SaveNegotiationDraft_def handler_iffs intro!: steps_same)

lemma DeleteNegotiationDraft_steps:
  "DeleteNegotiationDraft cmd s = Inr s' \<Longrightarrow> steps now did s s'"
  by (auto simp: DeleteNegotiationDraft_def handler_iffs intro!: steps_same)

section \<open>Approve\<close>

lemma Approve_cases:
  assumes "Approve e now cmd s = Inr s'"
  obtains r s1 s3 data evt where "contracts s (cmd_did cmd) = Some r"
    "EventAllowed (effective_state now r) EventApprove"
    "IsValidApprover (cmd_did cmd) (cmd_causer cmd) s"
    "c_data r = Some data" "policy_ok e data" "closed_ok e data"
    "ApprovalTask_UpdateState (cmd_did cmd) (cmd_causer cmd) AtApproved s = Inr s1"
    "if ApprovalTask_AnyTasksInState (c_did r) [AtOpen] s1 then s3 = s1
     else \<exists>d. Update now ((no_update (cmd_did cmd))\<lparr>u_data := Some d\<rparr>)
        (UpdateState now (cmd_did cmd) Approved s1) = Inr s3"
    "event_Create evt s3 = Inr s'"
proof -
  from assms obtain r s1 s3 data where *: "contracts s (cmd_did cmd) = Some r"
    "EventAllowed (effective_state now r) EventApprove"
    "IsValidApprover (cmd_did cmd) (cmd_causer cmd) s"
    "c_data r = Some data" "policy_ok e data" "closed_ok e data"
    "ApprovalTask_UpdateState (cmd_did cmd) (cmd_causer cmd) AtApproved s = Inr s1"
    "(if ApprovalTask_AnyTasksInState (c_did r) [AtOpen] s1 then Inr s1
      else bind_res (ReadDataByDID now (cmd_did cmd) (UpdateState now (cmd_did cmd) Approved s1)) (\<lambda>approved.
             bind_res (of_option MaterializationFailed (materialize e approved)) (\<lambda>final.
               Update now ((no_update (cmd_did cmd))\<lparr>u_data := Some final\<rparr>)
                 (UpdateState now (cmd_did cmd) Approved s1)))) = Inr s3"
    "event_Create (ApproveEvent (cmd_did cmd) (c_version r) (cmd_by cmd)) s3 = Inr s'"
    by (simp only: Approve_def handler_iffs Let_def of_option_Inr lift_transition_Inr
        ValidateTransition_Inr_iff GetID_Inr) auto
  have "if ApprovalTask_AnyTasksInState (c_did r) [AtOpen] s1 then s3 = s1
     else \<exists>d. Update now ((no_update (cmd_did cmd))\<lparr>u_data := Some d\<rparr>)
        (UpdateState now (cmd_did cmd) Approved s1) = Inr s3"
    using *(8) by (auto simp: bind_res_Inr_iff split: if_split_asm)
  with * that show thesis by blast
qed

lemma Approve_steps:
  assumes "Approve e now cmd s = Inr s'"
  shows "steps now (cmd_did cmd) s s'"
proof -
  obtain r s1 s3 evt where
    r: "contracts s (cmd_did cmd) = Some r" "EventAllowed (effective_state now r) EventApprove"
    and s1: "ApprovalTask_UpdateState (cmd_did cmd) (cmd_causer cmd) AtApproved s = Inr s1"
    and s3': "if ApprovalTask_AnyTasksInState (c_did r) [AtOpen] s1 then s3 = s1
     else \<exists>d. Update now ((no_update (cmd_did cmd))\<lparr>u_data := Some d\<rparr>)
        (UpdateState now (cmd_did cmd) Approved s1) = Inr s3"
    and evt: "event_Create evt s3 = Inr s'"
    by (rule Approve_cases [OF assms]) (rule that, assumption+)
  from s3' have s3: "s3 = s1 \<or> (\<exists>d. Update now ((no_update (cmd_did cmd))\<lparr>u_data := Some d\<rparr>)
        (UpdateState now (cmd_did cmd) Approved s1) = Inr s3)"
    by (auto split: if_split_asm)
  have eq: "contracts s1 = contracts s" using s1 by (rule contracts_result_ops(2))
  have "contract_step (effective_state now r) Approved"
    using r(2) by (rule allowed_contract_step(4))
  then have up: "steps now (cmd_did cmd) s (UpdateState now (cmd_did cmd) Approved s1)"
    using r(1) eq by (intro steps_UpdateState evolves_contracts)
  from s3 have "steps now (cmd_did cmd) s s3"
  proof
    assume "s3 = s1"
    then show ?thesis using eq by (simp add: steps_same)
  next
    assume "\<exists>d. Update now ((no_update (cmd_did cmd))\<lparr>u_data := Some d\<rparr>)
        (UpdateState now (cmd_did cmd) Approved s1) = Inr s3"
    then obtain d where d: "Update now ((no_update (cmd_did cmd))\<lparr>u_data := Some d\<rparr>)
        (UpdateState now (cmd_did cmd) Approved s1) = Inr s3" by blast
    show ?thesis
      using steps_then_kept [OF up] Update_evolves [OF d] Update_state [OF d] by simp
  qed
  with evt show ?thesis by (rule event_step)
qed

section \<open>Submit\<close>

lemma contractData_evolves:
  assumes "contractDataForSemanticValidation e now cmd s = Inr (data, s1)"
  shows "evolves (cmd_did cmd) s s1 \<and> state_at s1 d = state_at s d"
proof -
  from assms have "s1 = s \<or> (\<exists>doc. Update now ((no_update (cmd_did cmd))\<lparr>u_data := Some doc\<rparr>) s = Inr s1)"
    by (auto simp: contractDataForSemanticValidation_def handler_iffs split: option.split_asm if_split_asm)
       (metis+)?
  then show ?thesis
  proof
    assume "\<exists>doc. Update now ((no_update (cmd_did cmd))\<lparr>u_data := Some doc\<rparr>) s = Inr s1"
    then obtain doc where d: "Update now ((no_update (cmd_did cmd))\<lparr>u_data := Some doc\<rparr>) s = Inr s1"
      by blast
    show ?thesis using Update_evolves [OF d] Update_state [OF d] by simp
  qed simp
qed

lemma merge_loop_keeps:
  assumes "merge_loop e did ns st d = Inr (u, d')"
  shows "u_did u = u_did (fst st) \<and> u_state u = u_state (fst st) \<and> u_version u = u_version (fst st)"
  using assms
proof (induction ns arbitrary: st d)
  case (Cons n ns)
  then obtain c st' d2 where a: "apply_change e did c st = Inr st'"
      and rest: "merge_loop e did ns st' d2 = Inr (u, d')"
    by (auto simp: bind_res_Inr_iff split: option.splits)
  have "u_did (fst st') = u_did (fst st) \<and> u_state (fst st') = u_state (fst st)
      \<and> u_version (fst st') = u_version (fst st)"
    using a by (cases st; cases "cr_data c") (auto simp: apply_change_def bind_res_Inr_iff Let_def)
  with Cons.IH [OF rest] show ?case by simp
qed auto

lemma Merge_update:
  assumes "MergeChangeRequests e now did v s = Inr (u, sups)"
  shows "\<exists>r. contracts s did = Some r \<and> u_did u = c_did r \<and> u_state u = None"
proof -
  obtain c :: contract and m log where row: "contracts s did = Some c" and run:
    "merge_loop e (c_did c) (round_of did v s) (no_update (c_did c), m) newDiscardLog = Inr (u, log)"
    by (rule MergeChangeRequests_loop [OF assms]) (rule that, assumption+)
  with merge_loop_keeps [OF run] show ?thesis by auto
qed

lemma record_superseded_contracts:
  "submit_record_superseded p cmd sups s = Inr s' \<Longrightarrow> contracts s' = contracts s"
  by (auto simp: submit_record_superseded_def bind_res_Inr_iff split: if_split_asm
      dest!: contracts_MarkSuperseded event_Create_contracts)

lemma submit_merge_evolves:
  assumes "submit_merge e now localPeer p cmd s = Inr s'" "store_wf s"
    and p: "contracts s (cmd_did cmd) = Some r" "c_version p = c_version r" "c_did p = cmd_did cmd"
  shows "evolves (cmd_did cmd) s s' \<and> state_at s' (cmd_did cmd) = state_at s (cmd_did cmd)"
proof -
  let ?did = "cmd_did cmd"
  let ?s1 = "CreateHistoryEntryForDID now (c_did p) s"
  from assms(1) obtain u sups s2 s4 s6 evt where
    m: "MergeChangeRequests e now ?did (c_version p) ?s1 = Inr (u, sups)"
    and s2: "Update now (u\<lparr>u_version := c_version p + 1\<rparr>) ?s1 = Inr s2"
    and s4: "(if u_data u \<noteq> None then reseedPartiesAndSignatureFields e now ?did
           (RollForward (c_did p) (c_version p) (c_version p + 1) s2)
         else Inr (RollForward (c_did p) (c_version p) (c_version p + 1) s2)) = Inr s4"
    and s6: "submit_record_superseded p cmd sups s4 = Inr s6"
    and evt: "event_Create evt s6 = Inr s'"
    unfolding submit_merge_def Let_def bind_res_Inr_iff split_paired_Ex split_conv by blast
  from Merge_update [OF m] p(1) assms(2) have u: "u_did u = ?did" "u_state u = None"
    by (auto simp: store_wf_def)
  have e2: "evolves ?did s s2" "state_at s2 ?did = state_at s ?did"
    using Update_evolves [OF s2] Update_state [OF s2] u p
    by (auto simp: evolves_def state_at_def)
  have e4: "evolves ?did s2 s4 \<and> state_at s4 ?did = state_at s2 ?did"
    using s4 reseed_evolves [of e now ?did "RollForward (c_did p) (c_version p) (c_version p + 1) s2" s4]
    by (auto simp: evolves_def state_at_def option.rel_refl split: if_split_asm)
  have "contracts s' = contracts s4"
    using event_Create_contracts [OF evt] record_superseded_contracts [OF s6] by simp
  then show ?thesis using e2 e4 evolves_trans [of ?did s s2 s4]
    by (auto simp: evolves_def state_at_def)
qed

lemma submit_branch_evolves:
  assumes "submit_branch e now localPeer p cmd s = Inr (s1, nxt)" "store_wf s"
    and p: "contracts s (cmd_did cmd) = Some r" "p = r\<lparr>c_state := effective_state now r\<rparr>"
  shows "evolves (cmd_did cmd) s s1 \<and> state_at s1 (cmd_did cmd) = state_at s (cmd_did cmd)"
proof -
  have did: "c_did p = cmd_did cmd" "c_version p = c_version r"
    using p assms(2) by (auto simp: store_wf_def)
  from assms(1) consider
      (draft) "submit_from_draft e now localPeer p cmd s = Inr (s1, nxt)"
    | (rejected) "submit_from_rejected e now localPeer p cmd s = Inr (s1, nxt)"
    | (negotiation) "submit_from_negotiation e now localPeer p cmd s = Inr (s1, nxt)"
    | (submitted) "submit_from_submitted now localPeer p cmd s = Inr (s1, nxt)"
    | (reviewed) "submit_from_reviewed p cmd s = Inr (s1, nxt)"
    by (auto simp: submit_branch_def split: if_splits)
  then show ?thesis
  proof cases
    case draft
    then obtain data s0 where "contractDataForSemanticValidation e now cmd s = Inr (data, s0)"
        "reseedPartiesAndSignatureFields e now (cmd_did cmd) s0 = Inr s1"
      by (auto simp: submit_from_draft_def handler_iffs)
    then show ?thesis using contractData_evolves reseed_evolves evolves_trans by metis
  next
    case rejected
    then obtain data s0 where s0: "contractDataForSemanticValidation e now cmd s = Inr (data, s0)"
        "contracts s1 = contracts s0"
      by (auto simp: submit_from_rejected_def handler_iffs)
    from contractData_evolves [OF s0(1)] s0(2) show ?thesis by (simp add: evolves_def state_at_def)
  next
    case negotiation
    then obtain s0 where s0: "contracts s0 = contracts s"
        "s1 = s0 \<or> submit_merge e now localPeer p cmd s0 = Inr s1"
      by (auto simp: submit_from_negotiation_def handler_iffs split: if_splits
          dest!: contracts_result_ops(3))
    from s0(2) show ?thesis
    proof
      assume "s1 = s0"
      then show ?thesis using s0(1) by (simp add: evolves_contracts state_at_def)
    next
      assume m: "submit_merge e now localPeer p cmd s0 = Inr s1"
      have "store_wf s0" "contracts s0 (cmd_did cmd) = Some r"
        using s0(1) assms(2) p(1) by (simp_all add: store_wf_def)
      from submit_merge_evolves [OF m this did(2,1)] s0(1) show ?thesis
        by (simp add: evolves_def state_at_def)
    qed
  next
    case submitted
    then have "contracts s1 = contracts s"
      by (auto simp: submit_from_submitted_def handler_iffs split: option.splits action_flag.splits
          dest!: contracts_result_ops(1))
    then show ?thesis by (simp add: evolves_contracts state_at_def)
  next
    case reviewed
    then have "contracts s1 = contracts s" by (auto simp: submit_from_reviewed_def handler_iffs)
    then show ?thesis by (simp add: evolves_contracts state_at_def)
  qed
qed

lemma Submit_cases:
  assumes "Submit e now cmd s = Inr s'"
  obtains r localPeer s1 nxt s2 evt where
    "contracts s (cmd_did cmd) = Some r" "local_peer e = Some localPeer"
    "\<not> unix_seconds (cmd_updated_at cmd) < unix_seconds (c_updated_at r)"
    "IsNotNullValue (sub_data cmd) \<Longrightarrow> canSubmitUpdatedContractData (effective_state now r)
       \<and> requireUnsettledAgreement e now localPeer (cmd_did cmd) s = Inr ()"
    "EventAllowed (effective_state now r) EventSubmit"
    "submit_branch e now localPeer (r\<lparr>c_state := effective_state now r\<rparr>) cmd s = Inr (s1, nxt)"
    "submit_advance now (cmd_did cmd) (effective_state now r) nxt s1 = Inr s2"
    "event_Create evt s2 = Inr s'"
  using assms by (auto simp: Submit_def handler_iffs split: if_split_asm prod.split_asm)

lemma submit_advance_cases:
  assumes "submit_advance now did cur nxt s1 = Inr s2"
  obtains "s2 = s1" "nxt = None \<or> nxt = Some cur"
  | n where "nxt = Some n" "cur \<noteq> n" "IsAllowed cur EventSubmit n" "s2 = UpdateState now did n s1"
  using assms by (auto simp: submit_advance_def bind_res_Inr_iff split: option.split_asm if_split_asm)

lemma Submit_steps:
  assumes "store_wf s" "Submit e now cmd s = Inr s'"
  shows "steps now (cmd_did cmd) s s'"
proof -
  let ?did = "cmd_did cmd"
  obtain r localPeer s1 nxt s2 evt where
    r: "contracts s ?did = Some r"
    and b: "submit_branch e now localPeer (r\<lparr>c_state := effective_state now r\<rparr>) cmd s = Inr (s1, nxt)"
    and adv: "submit_advance now ?did (effective_state now r) nxt s1 = Inr s2"
    and evt: "event_Create evt s2 = Inr s'"
    by (rule Submit_cases [OF assms(2)]) (rule that, assumption+)
  note br = submit_branch_evolves [OF b assms(1) r refl]
  from adv have "steps now ?did s s2"
  proof (cases rule: submit_advance_cases)
    case 1
    then show ?thesis using br by (simp add: steps_state_kept)
  next
    case (2 n)
    have "contract_step (effective_state now r) n"
      using IsAllowed_step [OF 2(3)] 2(2) by simp
    then show ?thesis unfolding 2(4) using br r by (intro steps_UpdateState) auto
  qed
  with evt show ?thesis by (rule event_step)
qed

section \<open>Accepting an offer, negotiating, updating\<close>

text \<open>The closing step shared by both: an offered contract enters the negotiation.\<close>

lemma enter_negotiation_steps:
  assumes "evolves did s s1" "state_at s1 did = state_at s did" "contracts s did = Some r"
    and "enter_negotiation now did (effective_state now r) s1 = Inr s2"
  shows "steps now did s s2"
proof (cases "effective_state now r = Offered")
  case True
  then have "s2 = UpdateState now did Negotiation s1"
    using assms(4) by (simp add: enter_negotiation_def bind_res_Inr_iff)
  moreover have "contract_step (effective_state now r) Negotiation"
    using True by (simp add: contract_step_cases)
  ultimately show ?thesis using assms(1,3) by (simp add: steps_UpdateState)
next
  case False
  then show ?thesis using assms by (simp add: enter_negotiation_def steps_state_kept)
qed

lemma AcceptOffer_steps:
  assumes "AcceptOffer e now cmd s = Inr s'"
  shows "steps now (cmd_did cmd) s s'"
proof -
  let ?did = "cmd_did cmd"
  from assms obtain r localPeer s1 s2 evt where r: "contracts s ?did = Some r"
    and s1: "reseedPartiesAndSignatureFields e now ?did
        (mintNegotiationTask e now ?did localPeer (cmd_by cmd) (c_version r) s) = Inr s1"
    and s2: "enter_negotiation now ?did (effective_state now r) s1 = Inr s2"
    and evt: "event_Create evt s2 = Inr s'"
    by (auto simp: AcceptOffer_def handler_iffs)
  from reseed_evolves [OF s1] have "evolves ?did s s1" "state_at s1 ?did = state_at s ?did"
    by (simp_all add: evolves_def state_at_def)
  from enter_negotiation_steps [OF this r s2] have "steps now ?did s s2" .
  with evt show ?thesis by (rule event_step)
qed

lemma redline_evolves:
  assumes "negotiate_redline e now localPeer p cmd s = Inr (s1, v)"
    and "contracts s (cmd_did cmd) = Some r" "c_version p = c_version r"
  shows "evolves (cmd_did cmd) s s1 \<and> state_at s1 (cmd_did cmd) = state_at s (cmd_did cmd)"
proof -
  from assms(1) have "s1 = s \<or> (\<exists>doc. Update now ((no_update (cmd_did cmd))\<lparr>u_data := Some doc,
      u_version := c_version p + 1\<rparr>) (CreateHistoryEntryForDID now (cmd_did cmd) s) = Inr s1)"
    unfolding negotiate_redline_def
    by (auto simp: bind_res_Inr_iff split: option.split_asm)
  then show ?thesis
  proof
    assume "\<exists>doc. Update now ((no_update (cmd_did cmd))\<lparr>u_data := Some doc,
      u_version := c_version p + 1\<rparr>) (CreateHistoryEntryForDID now (cmd_did cmd) s) = Inr s1"
    then obtain doc where u: "Update now ((no_update (cmd_did cmd))\<lparr>u_data := Some doc,
      u_version := c_version p + 1\<rparr>) (CreateHistoryEntryForDID now (cmd_did cmd) s) = Inr s1" by blast
    from Update_evolves [OF u] Update_state [OF u] assms(2,3) show ?thesis
      by (simp add: evolves_def state_at_def)
  qed simp
qed

lemma Negotiate_cases:
  assumes "Negotiate e now cmd s = Inr s'"
  obtains r localPeer s1 t s3 v s5 s6 evt where
    "contracts s (cmd_did cmd) = Some r" "local_peer e = Some localPeer"
    "\<not> unix_seconds (cmd_updated_at cmd) < unix_seconds (c_content_updated_at r)"
    "EventAllowed (effective_state now r) EventNegotiate"
    "negotiate_engage e now localPeer (r\<lparr>c_state := effective_state now r\<rparr>) cmd s = Inr s1"
    "t = Negotiation_Create (uuid e) now (cmd_did cmd) (c_version r) (neg_change_request cmd)
           (cmd_by cmd) (ReadNegotiatorsForDID (cmd_did cmd) s1) s1"
    "negotiate_redline e now localPeer (r\<lparr>c_state := effective_state now r\<rparr>) cmd t = Inr (s3, v)"
    "reseedPartiesAndSignatureFields e now (cmd_did cmd)
       (if v \<noteq> c_version r then RollForward (cmd_did cmd) (c_version r) v s3
        else NegotiationTask_ReopenTasks (cmd_did cmd) v s3) = Inr s5"
    "enter_negotiation now (cmd_did cmd) (effective_state now r) s5 = Inr s6"
    "event_Create evt (DeleteDraft (cmd_did cmd) (cmd_by cmd) s6) = Inr s'"
  using assms by (auto simp: Negotiate_def handler_iffs Let_def cong: if_cong)

lemma engage_contracts:
  "negotiate_engage e now localPeer p cmd s = Inr s1 \<Longrightarrow> contracts s1 = contracts s"
  by (auto simp: negotiate_engage_def require_Inr_iff split: if_split_asm)

lemma Negotiate_steps:
  assumes "Negotiate e now cmd s = Inr s'"
  shows "steps now (cmd_did cmd) s s'"
proof -
  let ?did = "cmd_did cmd"
  obtain r localPeer s1 t s3 v s5 s6 evt where r: "contracts s ?did = Some r"
    and s1: "negotiate_engage e now localPeer (r\<lparr>c_state := effective_state now r\<rparr>) cmd s = Inr s1"
    and t: "t = Negotiation_Create (uuid e) now ?did (c_version r) (neg_change_request cmd)
           (cmd_by cmd) (ReadNegotiatorsForDID ?did s1) s1"
    and s3: "negotiate_redline e now localPeer (r\<lparr>c_state := effective_state now r\<rparr>) cmd t = Inr (s3, v)"
    and s5: "reseedPartiesAndSignatureFields e now ?did
       (if v \<noteq> c_version r then RollForward ?did (c_version r) v s3
        else NegotiationTask_ReopenTasks ?did v s3) = Inr s5"
    and s6: "enter_negotiation now ?did (effective_state now r) s5 = Inr s6"
    and evt: "event_Create evt (DeleteDraft ?did (cmd_by cmd) s6) = Inr s'"
    by (rule Negotiate_cases [OF assms]) (rule that, assumption+)
  have ct: "contracts t = contracts s" using engage_contracts [OF s1] by (simp add: t)
  have e3: "evolves ?did s s3 \<and> state_at s3 ?did = state_at s ?did"
    using redline_evolves [OF s3] r ct by (simp add: evolves_def state_at_def)
  have e5: "evolves ?did s3 s5 \<and> state_at s5 ?did = state_at s3 ?did"
    using reseed_evolves [OF s5] by (auto simp: evolves_def state_at_def split: if_split_asm)
  have "evolves ?did s s5" "state_at s5 ?did = state_at s ?did"
    using e3 e5 evolves_trans [of ?did s s3 s5] by simp_all
  from enter_negotiation_steps [OF this r s6] have "steps now ?did s s6" .
  then have "steps now ?did s (DeleteDraft ?did (cmd_by cmd) s6)" by (rule steps_contracts) simp
  with evt show ?thesis by (rule event_step)
qed

lemma UpdateContract_steps:
  assumes "UpdateContract e now cmd s = Inr s'"
  shows "steps now (cmd_did cmd) s s'"
proof -
  from assms obtain u s1 evt where u: "Update now u s = Inr s1" "u_did u = cmd_did cmd"
      "u_state u = None" "u_version u = 0" and evt: "event_Create evt s1 = Inr s'"
    unfolding UpdateContract_def handler_iffs by fastforce
  have "steps now (cmd_did cmd) s s1"
    using Update_evolves [OF u(1)] Update_state [OF u(1,3)] u by (simp add: steps_state_kept)
  with evt show ?thesis by (rule event_step)
qed

section \<open>The engine\<close>

text \<open>Every modelled command as one type, and its handler.\<close>

datatype action =
    AOffer command | AWithdraw command | ATerminate reason_cmd | AApprove command
  | AReject reason_cmd | ASubmit submit_cmd | AAcceptOffer command | ANegotiate negotiation_cmd
  | AAcceptNegotiation respond_cmd | ARejectNegotiation respond_cmd | AUpdate update_cmd
  | AReview string string | ASaveDraft negotiation_cmd | ADeleteDraft command

fun execute :: "env \<Rightarrow> int \<Rightarrow> action \<Rightarrow> store \<Rightarrow> (cwe_error, store) result" where
  "execute e now (AOffer cmd) s = Offer e now cmd s"
| "execute e now (AWithdraw cmd) s = Withdraw e now cmd s"
| "execute e now (ATerminate cmd) s = Terminate e now cmd s"
| "execute e now (AApprove cmd) s = Approve e now cmd s"
| "execute e now (AReject cmd) s = Reject e now cmd s"
| "execute e now (ASubmit cmd) s = Submit e now cmd s"
| "execute e now (AAcceptOffer cmd) s = AcceptOffer e now cmd s"
| "execute e now (ANegotiate cmd) s = Negotiate e now cmd s"
| "execute e now (AAcceptNegotiation cmd) s = AcceptNegotiation now cmd s"
| "execute e now (ARejectNegotiation cmd) s = RejectNegotiation now cmd s"
| "execute e now (AUpdate cmd) s = UpdateContract e now cmd s"
| "execute e now (AReview did by) s = Review did by s"
| "execute e now (ASaveDraft cmd) s = SaveNegotiationDraft now cmd s"
| "execute e now (ADeleteDraft cmd) s = DeleteNegotiationDraft cmd s"

fun action_did :: "action \<Rightarrow> string" where
  "action_did (AOffer cmd) = cmd_did cmd"
| "action_did (AWithdraw cmd) = cmd_did cmd"
| "action_did (ATerminate cmd) = cmd_did cmd"
| "action_did (AApprove cmd) = cmd_did cmd"
| "action_did (AReject cmd) = cmd_did cmd"
| "action_did (ASubmit cmd) = cmd_did cmd"
| "action_did (AAcceptOffer cmd) = cmd_did cmd"
| "action_did (ANegotiate cmd) = cmd_did cmd"
| "action_did (AAcceptNegotiation cmd) = cmd_did cmd"
| "action_did (ARejectNegotiation cmd) = cmd_did cmd"
| "action_did (AUpdate cmd) = cmd_did cmd"
| "action_did (AReview did by) = did"
| "action_did (ASaveDraft cmd) = cmd_did cmd"
| "action_did (ADeleteDraft cmd) = cmd_did cmd"

lemmas handler_steps = Offer_steps Withdraw_steps Terminate_steps Approve_steps Reject_steps
  AcceptOffer_steps Negotiate_steps UpdateContract_steps Review_steps AcceptNegotiation_steps
  RejectNegotiation_steps SaveNegotiationDraft_steps DeleteNegotiationDraft_steps

interpretation engine: contract_handler "execute e" action_did for e
proof
  show "steps now (action_did c) s s'" if "store_wf s" "execute e now c s = Inr s'" for s now c s'
    using that by (cases c) (auto intro: handler_steps Submit_steps)
qed

end
