(* ===== verification/Store_Frames.thy ===== *)
theory Store_Frames
  imports Command_Steps
begin

text \<open>
  Frame facts of the repository operations: every operation writes one table.  The
  facts are collected under \<open>frame_simps\<close>; the ones about total operations are
  simplification rules as well.
\<close>

lemma outbox_ops [frame_simps, simp]:
  "outbox (ReviewTask_Create u n d r t c s) = outbox s"
  "outbox (ReviewTask_ReopenTasks d s) = outbox s"
  "outbox (ApprovalTask_Create u n d r ta c s) = outbox s"
  "outbox (ApprovalTask_ReopenTasks d s) = outbox s"
  "outbox (NegotiationTask_Create u n d v g tn c s) = outbox s"
  "outbox (NegotiationTask_ReopenTasks d v s) = outbox s"
  "outbox (RollForward d v v' s) = outbox s"
  "outbox (UpsertDraft n d b j s) = outbox s"
  "outbox (DeleteDraft d b s) = outbox s"
  "outbox (DeleteSettlementsBy d p s) = outbox s"
  "outbox (UpsertSettlementWithdrawal w s) = outbox s"
  "outbox (EnqueueTx d st r e s) = outbox s"
  "outbox (CreateHistoryEntryForDID n d s) = outbox s"
  "outbox (update_row n d f s) = outbox s"
  "outbox (UpdateState n d cst s) = outbox s"
  by (simp_all add: ReviewTask_Create_def ReviewTask_ReopenTasks_def ApprovalTask_Create_def
      ApprovalTask_ReopenTasks_def NegotiationTask_Create_def NegotiationTask_ReopenTasks_def
      RollForward_def UpsertDraft_def DeleteDraft_def DeleteSettlementsBy_def
      UpsertSettlementWithdrawal_def EnqueueTx_def CreateHistoryEntryForDID_def update_row_def UpdateState_def split: option.splits)

lemma outbox_result_ops [frame_simps]:
  "ReviewTask_UpdateState d r t s = Inr s' \<Longrightarrow> outbox s' = outbox s"
  "ApprovalTask_UpdateState d r ta s = Inr s' \<Longrightarrow> outbox s' = outbox s"
  "NegotiationTask_UpdateState d r v tn s = Inr s' \<Longrightarrow> outbox s' = outbox s"
  "Negotiation_Accept i b s = Inr s' \<Longrightarrow> outbox s' = outbox s"
  "Negotiation_Reject i b rr s = Inr s' \<Longrightarrow> outbox s' = outbox s"
  "Update n up s = Inr s' \<Longrightarrow> outbox s' = outbox s"
  by (auto simp: ReviewTask_UpdateState_def ApprovalTask_UpdateState_def NegotiationTask_UpdateState_def
      Negotiation_Accept_def Negotiation_Reject_def event_Create_def Update_def update_row_def Let_def bind_res_Inr_iff
      split: if_splits option.splits)

lemma history_ops [frame_simps, simp]:
  "history (ReviewTask_Create u n d r t c s) = history s"
  "history (ReviewTask_ReopenTasks d s) = history s"
  "history (ApprovalTask_Create u n d r ta c s) = history s"
  "history (ApprovalTask_ReopenTasks d s) = history s"
  "history (NegotiationTask_Create u n d v g tn c s) = history s"
  "history (NegotiationTask_ReopenTasks d v s) = history s"
  "history (RollForward d v v' s) = history s"
  "history (UpsertDraft n d b j s) = history s"
  "history (DeleteDraft d b s) = history s"
  "history (DeleteSettlementsBy d p s) = history s"
  "history (UpsertSettlementWithdrawal w s) = history s"
  "history (EnqueueTx d st r e s) = history s"
  "history (update_row n d f s) = history s"
  "history (UpdateState n d cst s) = history s"
  by (simp_all add: ReviewTask_Create_def ReviewTask_ReopenTasks_def ApprovalTask_Create_def
      ApprovalTask_ReopenTasks_def NegotiationTask_Create_def NegotiationTask_ReopenTasks_def
      RollForward_def UpsertDraft_def DeleteDraft_def DeleteSettlementsBy_def
      UpsertSettlementWithdrawal_def EnqueueTx_def CreateHistoryEntryForDID_def update_row_def UpdateState_def split: option.splits)

lemma history_result_ops [frame_simps]:
  "ReviewTask_UpdateState d r t s = Inr s' \<Longrightarrow> history s' = history s"
  "ApprovalTask_UpdateState d r ta s = Inr s' \<Longrightarrow> history s' = history s"
  "NegotiationTask_UpdateState d r v tn s = Inr s' \<Longrightarrow> history s' = history s"
  "Negotiation_Accept i b s = Inr s' \<Longrightarrow> history s' = history s"
  "Negotiation_Reject i b rr s = Inr s' \<Longrightarrow> history s' = history s"
  "event_Create ev s = Inr s' \<Longrightarrow> history s' = history s"
  "Update n up s = Inr s' \<Longrightarrow> history s' = history s"
  by (auto simp: ReviewTask_UpdateState_def ApprovalTask_UpdateState_def NegotiationTask_UpdateState_def
      Negotiation_Accept_def Negotiation_Reject_def event_Create_def Update_def update_row_def Let_def bind_res_Inr_iff
      split: if_splits option.splits)

lemma settlements_ops [frame_simps, simp]:
  "settlements (ReviewTask_Create u n d r t c s) = settlements s"
  "settlements (ReviewTask_ReopenTasks d s) = settlements s"
  "settlements (ApprovalTask_Create u n d r ta c s) = settlements s"
  "settlements (ApprovalTask_ReopenTasks d s) = settlements s"
  "settlements (NegotiationTask_Create u n d v g tn c s) = settlements s"
  "settlements (NegotiationTask_ReopenTasks d v s) = settlements s"
  "settlements (RollForward d v v' s) = settlements s"
  "settlements (UpsertDraft n d b j s) = settlements s"
  "settlements (DeleteDraft d b s) = settlements s"
  "settlements (UpsertSettlementWithdrawal w s) = settlements s"
  "settlements (EnqueueTx d st r e s) = settlements s"
  "settlements (CreateHistoryEntryForDID n d s) = settlements s"
  "settlements (update_row n d f s) = settlements s"
  "settlements (UpdateState n d cst s) = settlements s"
  by (simp_all add: ReviewTask_Create_def ReviewTask_ReopenTasks_def ApprovalTask_Create_def
      ApprovalTask_ReopenTasks_def NegotiationTask_Create_def NegotiationTask_ReopenTasks_def
      RollForward_def UpsertDraft_def DeleteDraft_def DeleteSettlementsBy_def
      UpsertSettlementWithdrawal_def EnqueueTx_def CreateHistoryEntryForDID_def update_row_def UpdateState_def split: option.splits)

lemma settlements_result_ops [frame_simps]:
  "ReviewTask_UpdateState d r t s = Inr s' \<Longrightarrow> settlements s' = settlements s"
  "ApprovalTask_UpdateState d r ta s = Inr s' \<Longrightarrow> settlements s' = settlements s"
  "NegotiationTask_UpdateState d r v tn s = Inr s' \<Longrightarrow> settlements s' = settlements s"
  "Negotiation_Accept i b s = Inr s' \<Longrightarrow> settlements s' = settlements s"
  "Negotiation_Reject i b rr s = Inr s' \<Longrightarrow> settlements s' = settlements s"
  "event_Create ev s = Inr s' \<Longrightarrow> settlements s' = settlements s"
  "Update n up s = Inr s' \<Longrightarrow> settlements s' = settlements s"
  by (auto simp: ReviewTask_UpdateState_def ApprovalTask_UpdateState_def NegotiationTask_UpdateState_def
      Negotiation_Accept_def Negotiation_Reject_def event_Create_def Update_def update_row_def Let_def bind_res_Inr_iff
      split: if_splits option.splits)

lemma withdrawals_ops [frame_simps, simp]:
  "withdrawals (ReviewTask_Create u n d r t c s) = withdrawals s"
  "withdrawals (ReviewTask_ReopenTasks d s) = withdrawals s"
  "withdrawals (ApprovalTask_Create u n d r ta c s) = withdrawals s"
  "withdrawals (ApprovalTask_ReopenTasks d s) = withdrawals s"
  "withdrawals (NegotiationTask_Create u n d v g tn c s) = withdrawals s"
  "withdrawals (NegotiationTask_ReopenTasks d v s) = withdrawals s"
  "withdrawals (RollForward d v v' s) = withdrawals s"
  "withdrawals (UpsertDraft n d b j s) = withdrawals s"
  "withdrawals (DeleteDraft d b s) = withdrawals s"
  "withdrawals (DeleteSettlementsBy d p s) = withdrawals s"
  "withdrawals (EnqueueTx d st r e s) = withdrawals s"
  "withdrawals (CreateHistoryEntryForDID n d s) = withdrawals s"
  "withdrawals (update_row n d f s) = withdrawals s"
  "withdrawals (UpdateState n d cst s) = withdrawals s"
  by (simp_all add: ReviewTask_Create_def ReviewTask_ReopenTasks_def ApprovalTask_Create_def
      ApprovalTask_ReopenTasks_def NegotiationTask_Create_def NegotiationTask_ReopenTasks_def
      RollForward_def UpsertDraft_def DeleteDraft_def DeleteSettlementsBy_def
      UpsertSettlementWithdrawal_def EnqueueTx_def CreateHistoryEntryForDID_def update_row_def UpdateState_def split: option.splits)

lemma withdrawals_result_ops [frame_simps]:
  "ReviewTask_UpdateState d r t s = Inr s' \<Longrightarrow> withdrawals s' = withdrawals s"
  "ApprovalTask_UpdateState d r ta s = Inr s' \<Longrightarrow> withdrawals s' = withdrawals s"
  "NegotiationTask_UpdateState d r v tn s = Inr s' \<Longrightarrow> withdrawals s' = withdrawals s"
  "Negotiation_Accept i b s = Inr s' \<Longrightarrow> withdrawals s' = withdrawals s"
  "Negotiation_Reject i b rr s = Inr s' \<Longrightarrow> withdrawals s' = withdrawals s"
  "event_Create ev s = Inr s' \<Longrightarrow> withdrawals s' = withdrawals s"
  "Update n up s = Inr s' \<Longrightarrow> withdrawals s' = withdrawals s"
  by (auto simp: ReviewTask_UpdateState_def ApprovalTask_UpdateState_def NegotiationTask_UpdateState_def
      Negotiation_Accept_def Negotiation_Reject_def event_Create_def Update_def update_row_def Let_def bind_res_Inr_iff
      split: if_splits option.splits)

lemma negotiation_tasks_ops [frame_simps, simp]:
  "negotiation_tasks (ReviewTask_Create u n d r t c s) = negotiation_tasks s"
  "negotiation_tasks (ReviewTask_ReopenTasks d s) = negotiation_tasks s"
  "negotiation_tasks (ApprovalTask_Create u n d r ta c s) = negotiation_tasks s"
  "negotiation_tasks (ApprovalTask_ReopenTasks d s) = negotiation_tasks s"
  "negotiation_tasks (UpsertDraft n d b j s) = negotiation_tasks s"
  "negotiation_tasks (DeleteDraft d b s) = negotiation_tasks s"
  "negotiation_tasks (DeleteSettlementsBy d p s) = negotiation_tasks s"
  "negotiation_tasks (UpsertSettlementWithdrawal w s) = negotiation_tasks s"
  "negotiation_tasks (EnqueueTx d st r e s) = negotiation_tasks s"
  "negotiation_tasks (CreateHistoryEntryForDID n d s) = negotiation_tasks s"
  "negotiation_tasks (update_row n d f s) = negotiation_tasks s"
  "negotiation_tasks (UpdateState n d cst s) = negotiation_tasks s"
  by (simp_all add: ReviewTask_Create_def ReviewTask_ReopenTasks_def ApprovalTask_Create_def
      ApprovalTask_ReopenTasks_def NegotiationTask_Create_def NegotiationTask_ReopenTasks_def
      RollForward_def UpsertDraft_def DeleteDraft_def DeleteSettlementsBy_def
      UpsertSettlementWithdrawal_def EnqueueTx_def CreateHistoryEntryForDID_def update_row_def UpdateState_def split: option.splits)

lemma negotiation_tasks_result_ops [frame_simps]:
  "ReviewTask_UpdateState d r t s = Inr s' \<Longrightarrow> negotiation_tasks s' = negotiation_tasks s"
  "ApprovalTask_UpdateState d r ta s = Inr s' \<Longrightarrow> negotiation_tasks s' = negotiation_tasks s"
  "Negotiation_Accept i b s = Inr s' \<Longrightarrow> negotiation_tasks s' = negotiation_tasks s"
  "Negotiation_Reject i b rr s = Inr s' \<Longrightarrow> negotiation_tasks s' = negotiation_tasks s"
  "event_Create ev s = Inr s' \<Longrightarrow> negotiation_tasks s' = negotiation_tasks s"
  "Update n up s = Inr s' \<Longrightarrow> negotiation_tasks s' = negotiation_tasks s"
  by (auto simp: ReviewTask_UpdateState_def ApprovalTask_UpdateState_def NegotiationTask_UpdateState_def
      Negotiation_Accept_def Negotiation_Reject_def event_Create_def Update_def update_row_def Let_def bind_res_Inr_iff
      split: if_splits option.splits)

lemma negotiations_ops [frame_simps, simp]:
  "negotiations (ReviewTask_Create u n d r t c s) = negotiations s"
  "negotiations (ReviewTask_ReopenTasks d s) = negotiations s"
  "negotiations (ApprovalTask_Create u n d r ta c s) = negotiations s"
  "negotiations (ApprovalTask_ReopenTasks d s) = negotiations s"
  "negotiations (NegotiationTask_Create u n d v g tn c s) = negotiations s"
  "negotiations (NegotiationTask_ReopenTasks d v s) = negotiations s"
  "negotiations (RollForward d v v' s) = negotiations s"
  "negotiations (UpsertDraft n d b j s) = negotiations s"
  "negotiations (DeleteDraft d b s) = negotiations s"
  "negotiations (DeleteSettlementsBy d p s) = negotiations s"
  "negotiations (UpsertSettlementWithdrawal w s) = negotiations s"
  "negotiations (EnqueueTx d st r e s) = negotiations s"
  "negotiations (CreateHistoryEntryForDID n d s) = negotiations s"
  "negotiations (update_row n d f s) = negotiations s"
  "negotiations (UpdateState n d cst s) = negotiations s"
  by (simp_all add: ReviewTask_Create_def ReviewTask_ReopenTasks_def ApprovalTask_Create_def
      ApprovalTask_ReopenTasks_def NegotiationTask_Create_def NegotiationTask_ReopenTasks_def
      RollForward_def UpsertDraft_def DeleteDraft_def DeleteSettlementsBy_def
      UpsertSettlementWithdrawal_def EnqueueTx_def CreateHistoryEntryForDID_def update_row_def UpdateState_def split: option.splits)

lemma negotiations_result_ops [frame_simps]:
  "ReviewTask_UpdateState d r t s = Inr s' \<Longrightarrow> negotiations s' = negotiations s"
  "ApprovalTask_UpdateState d r ta s = Inr s' \<Longrightarrow> negotiations s' = negotiations s"
  "NegotiationTask_UpdateState d r v tn s = Inr s' \<Longrightarrow> negotiations s' = negotiations s"
  "Negotiation_Accept i b s = Inr s' \<Longrightarrow> negotiations s' = negotiations s"
  "Negotiation_Reject i b rr s = Inr s' \<Longrightarrow> negotiations s' = negotiations s"
  "event_Create ev s = Inr s' \<Longrightarrow> negotiations s' = negotiations s"
  "Update n up s = Inr s' \<Longrightarrow> negotiations s' = negotiations s"
  by (auto simp: ReviewTask_UpdateState_def ApprovalTask_UpdateState_def NegotiationTask_UpdateState_def
      Negotiation_Accept_def Negotiation_Reject_def event_Create_def Update_def update_row_def Let_def bind_res_Inr_iff
      split: if_splits option.splits)

lemma decisions_ops [frame_simps, simp]:
  "decisions (ReviewTask_Create u n d r t c s) = decisions s"
  "decisions (ReviewTask_ReopenTasks d s) = decisions s"
  "decisions (ApprovalTask_Create u n d r ta c s) = decisions s"
  "decisions (ApprovalTask_ReopenTasks d s) = decisions s"
  "decisions (NegotiationTask_Create u n d v g tn c s) = decisions s"
  "decisions (NegotiationTask_ReopenTasks d v s) = decisions s"
  "decisions (RollForward d v v' s) = decisions s"
  "decisions (UpsertDraft n d b j s) = decisions s"
  "decisions (DeleteDraft d b s) = decisions s"
  "decisions (DeleteSettlementsBy d p s) = decisions s"
  "decisions (UpsertSettlementWithdrawal w s) = decisions s"
  "decisions (EnqueueTx d st r e s) = decisions s"
  "decisions (CreateHistoryEntryForDID n d s) = decisions s"
  "decisions (update_row n d f s) = decisions s"
  "decisions (UpdateState n d cst s) = decisions s"
  by (simp_all add: ReviewTask_Create_def ReviewTask_ReopenTasks_def ApprovalTask_Create_def
      ApprovalTask_ReopenTasks_def NegotiationTask_Create_def NegotiationTask_ReopenTasks_def
      RollForward_def UpsertDraft_def DeleteDraft_def DeleteSettlementsBy_def
      UpsertSettlementWithdrawal_def EnqueueTx_def CreateHistoryEntryForDID_def update_row_def UpdateState_def split: option.splits)

lemma decisions_result_ops [frame_simps]:
  "ReviewTask_UpdateState d r t s = Inr s' \<Longrightarrow> decisions s' = decisions s"
  "ApprovalTask_UpdateState d r ta s = Inr s' \<Longrightarrow> decisions s' = decisions s"
  "NegotiationTask_UpdateState d r v tn s = Inr s' \<Longrightarrow> decisions s' = decisions s"
  "event_Create ev s = Inr s' \<Longrightarrow> decisions s' = decisions s"
  "Update n up s = Inr s' \<Longrightarrow> decisions s' = decisions s"
  by (auto simp: ReviewTask_UpdateState_def ApprovalTask_UpdateState_def NegotiationTask_UpdateState_def
      Negotiation_Accept_def Negotiation_Reject_def event_Create_def Update_def update_row_def Let_def bind_res_Inr_iff
      split: if_splits option.splits)

lemma publications_ops [frame_simps, simp]:
  "publications (ReviewTask_Create u n d r t c s) = publications s"
  "publications (ReviewTask_ReopenTasks d s) = publications s"
  "publications (ApprovalTask_Create u n d r ta c s) = publications s"
  "publications (ApprovalTask_ReopenTasks d s) = publications s"
  "publications (NegotiationTask_Create u n d v g tn c s) = publications s"
  "publications (NegotiationTask_ReopenTasks d v s) = publications s"
  "publications (RollForward d v v' s) = publications s"
  "publications (UpsertDraft n d b j s) = publications s"
  "publications (DeleteDraft d b s) = publications s"
  "publications (DeleteSettlementsBy d p s) = publications s"
  "publications (UpsertSettlementWithdrawal w s) = publications s"
  "publications (CreateHistoryEntryForDID n d s) = publications s"
  "publications (update_row n d f s) = publications s"
  "publications (UpdateState n d cst s) = publications s"
  by (simp_all add: ReviewTask_Create_def ReviewTask_ReopenTasks_def ApprovalTask_Create_def
      ApprovalTask_ReopenTasks_def NegotiationTask_Create_def NegotiationTask_ReopenTasks_def
      RollForward_def UpsertDraft_def DeleteDraft_def DeleteSettlementsBy_def
      UpsertSettlementWithdrawal_def EnqueueTx_def CreateHistoryEntryForDID_def update_row_def UpdateState_def split: option.splits)

lemma publications_result_ops [frame_simps]:
  "ReviewTask_UpdateState d r t s = Inr s' \<Longrightarrow> publications s' = publications s"
  "ApprovalTask_UpdateState d r ta s = Inr s' \<Longrightarrow> publications s' = publications s"
  "NegotiationTask_UpdateState d r v tn s = Inr s' \<Longrightarrow> publications s' = publications s"
  "Negotiation_Accept i b s = Inr s' \<Longrightarrow> publications s' = publications s"
  "Negotiation_Reject i b rr s = Inr s' \<Longrightarrow> publications s' = publications s"
  "event_Create ev s = Inr s' \<Longrightarrow> publications s' = publications s"
  "Update n up s = Inr s' \<Longrightarrow> publications s' = publications s"
  by (auto simp: ReviewTask_UpdateState_def ApprovalTask_UpdateState_def NegotiationTask_UpdateState_def
      Negotiation_Accept_def Negotiation_Reject_def event_Create_def Update_def update_row_def Let_def bind_res_Inr_iff
      split: if_splits option.splits)

lemma create_decisions_ops [frame_simps, simp]:
  "outbox (create_decisions u nid ns s) = outbox s"
  "history (create_decisions u nid ns s) = history s"
  "settlements (create_decisions u nid ns s) = settlements s"
  "withdrawals (create_decisions u nid ns s) = withdrawals s"
  "negotiation_tasks (create_decisions u nid ns s) = negotiation_tasks s"
  "negotiations (create_decisions u nid ns s) = negotiations s"
  "publications (create_decisions u nid ns s) = publications s"
  by (induction ns arbitrary: s) simp_all

lemma Negotiation_Create_ops [frame_simps, simp]:
  "outbox (Negotiation_Create u n d v j b ns s) = outbox s"
  "history (Negotiation_Create u n d v j b ns s) = history s"
  "settlements (Negotiation_Create u n d v j b ns s) = settlements s"
  "withdrawals (Negotiation_Create u n d v j b ns s) = withdrawals s"
  "negotiation_tasks (Negotiation_Create u n d v j b ns s) = negotiation_tasks s"
  "publications (Negotiation_Create u n d v j b ns s) = publications s"
  by (simp_all add: Negotiation_Create_def Let_def)

lemma mint_ops [frame_simps, simp]:
  "outbox (mintNegotiationTask e n d g b v s) = outbox s"
  "history (mintNegotiationTask e n d g b v s) = history s"
  "settlements (mintNegotiationTask e n d g b v s) = settlements s"
  by (simp_all add: mintNegotiationTask_def)

lemma mark_loop_ops:
  "mark_loop sups ids s = Inr s' \<Longrightarrow>
    outbox s' = outbox s \<and> history s' = history s \<and> settlements s' = settlements s
    \<and> negotiation_tasks s' = negotiation_tasks s"
  by (induction sups ids s rule: mark_loop.induct) (auto split: if_split_asm)

lemma MarkSuperseded_ops [frame_simps]:
  "MarkSuperseded sups s = Inr s' \<Longrightarrow>
    outbox s' = outbox s \<and> history s' = history s \<and> settlements s' = settlements s
    \<and> negotiation_tasks s' = negotiation_tasks s"
  by (auto simp: MarkSuperseded_def dest: mark_loop_ops)

lemma reseed_cases:
  assumes "reseedPartiesAndSignatureFields e now did s = Inr s'"
  obtains "s' = s" | d where "Update now ((no_update did)\<lparr>u_data := Some d\<rparr>) s = Inr s'"
  using assms
  by (auto simp: reseedPartiesAndSignatureFields_def bind_res_Inr_iff
      split: option.split_asm prod.split_asm if_split_asm)

lemma reseed_ops [frame_simps]:
  assumes "reseedPartiesAndSignatureFields e now did s = Inr s'"
  shows "outbox s' = outbox s \<and> history s' = history s \<and> settlements s' = settlements s
    \<and> negotiation_tasks s' = negotiation_tasks s \<and> negotiations s' = negotiations s
    \<and> decisions s' = decisions s \<and> map_option c_version (contracts s' d) = map_option c_version (contracts s d)"
  using assms
proof (cases rule: reseed_cases)
  case (2 doc)
  then obtain cols where cols: "createQuery ((no_update did)\<lparr>u_data := Some doc\<rparr>) = Inr cols"
      "s' = update_row now did (fold set_column cols) s"
    by (auto simp: Update_def bind_res_Inr_iff)
  then show ?thesis
    by (simp add: contracts_update_row option.map_comp comp_def createQuery_columns(2) [OF cols(1)])
qed simp

lemma withdraw_ops [frame_simps, simp]:
  "outbox (withdrawOwnSettlement now p d s) = outbox s"
  "history (withdrawOwnSettlement now p d s) = history s"
proof -
  have "outbox (fold (\<lambda>t. UpsertSettlementWithdrawal (f t)) ts s) = outbox s
      \<and> history (fold (\<lambda>t. UpsertSettlementWithdrawal (f t)) ts s) = history s" for f s and ts :: "settlement list"
    by (induction ts arbitrary: s) simp_all
  then show "outbox (withdrawOwnSettlement now p d s) = outbox s"
    "history (withdrawOwnSettlement now p d s) = history s"
    by (simp_all add: withdrawOwnSettlement_def)
qed

end
