(* ===== verification/Workflow_Properties.thy ===== *)
theory Workflow_Properties
  imports Store_Frames
begin

text \<open>
  What the contract workflow engine guarantees, over all commands and all
  environments: the transition table is the only way a state changes, a terminated
  contract stays terminated, an approval needs every approver and a closed document
  whose policies hold, a round is settled only by engagement and without open
  decisions, a proposer cannot accept its own proposal, a committed agreement cannot
  be rewritten, and a stale view is refused.
\<close>

section \<open>Runs of the engine\<close>

fun run_engine :: "env \<Rightarrow> (int \<times> action) list \<Rightarrow> store \<Rightarrow> store" where
  "run_engine e [] s = s"
| "run_engine e ((now, a) # rest) s =
     run_engine e rest (case execute e now a s of Inl _ \<Rightarrow> s | Inr s' \<Rightarrow> s')"

lemma run_engine_eq: "run_engine e cs s = engine.run_all e cs s"
  by (induction e cs s rule: run_engine.induct) simp_all

text \<open>
  C1: one command, one contract, one table step.  Whatever command the engine executes
  successfully, on whatever environment, the rows of all other contracts are
  untouched; the row of the addressed contract keeps its identifier, origin, creator
  and artifact columns, neither its version nor its two revision clocks go back, and
  its state either stays or takes an edge of the transition table from the state the
  handler saw (the stored one, or EXPIRED once the expiry date has passed).
\<close>

theorem engine_step:
  assumes "store_wf s" "execute e now a s = Inr s'"
  shows "(\<forall>d. d \<noteq> action_did a \<longrightarrow> contracts s' d = contracts s d)
       \<and> (\<forall>r. contracts s (action_did a) = Some r \<longrightarrow>
            (\<exists>r'. contracts s' (action_did a) = Some r' \<and> row_grows r r'
              \<and> (c_state r' = c_state r \<or> contract_step (effective_state now r) (c_state r'))))"
  using engine.run_other [OF assms] engine.run_row [OF assms] by metis

text \<open>
  No sequence of the fourteen commands of the engine (\<open>execute\<close>), whatever their order,
  times and outcomes, moves a contract out of TERMINATED, and no contract disappears or
  loses its identity, version or clocks in such a sequence.  The receipt of a document is
  none of these commands: it makes a terminated copy REVOKED when the sender says so
  (\<open>received_document_replaces_copy\<close> of \<open>Peer_Properties\<close>).
\<close>

theorem terminated_is_final:
  assumes "store_wf s" "contracts s d = Some r"
  shows "(\<exists>r'. contracts (run_engine e cs s) d = Some r' \<and> row_grows r r')
       \<and> (c_state r = Terminated \<longrightarrow> state_at (run_engine e cs s) d = Some Terminated)"
  unfolding run_engine_eq
  using engine.run_all_row [OF assms] engine.run_all_terminated [OF assms(1)] assms(2)
  by (auto simp: state_at_def)

section \<open>The optimistic lock\<close>

text \<open>
  The view a command carries: its time, the peer it comes from, and whether it is
  checked against the content clock (negotiating, accepting an offer) or the
  revision clock.
\<close>

fun carried_view :: "action \<Rightarrow> (int \<times> string \<times> bool) option" where
  "carried_view (AOffer c) = Some (cmd_updated_at c, cmd_causer c, False)"
| "carried_view (AWithdraw c) = Some (cmd_updated_at c, cmd_causer c, False)"
| "carried_view (ATerminate c) = Some (cmd_updated_at c, cmd_causer c, False)"
| "carried_view (AApprove c) = Some (cmd_updated_at c, cmd_causer c, False)"
| "carried_view (AReject c) = Some (cmd_updated_at c, cmd_causer c, False)"
| "carried_view (ASubmit c) = Some (cmd_updated_at c, cmd_causer c, False)"
| "carried_view (AAcceptOffer c) = Some (cmd_updated_at c, cmd_causer c, True)"
| "carried_view (ANegotiate c) = Some (cmd_updated_at c, cmd_causer c, True)"
| "carried_view _ = None"

text \<open>
  No lost update.  A command that carries a view of the contract older, by the
  second, than the stored revision (for a negotiation step: than the last change of
  the document) is refused with the reload error, which tells a forwarded caller
  apart from a local one, whatever else the command says.
\<close>

theorem stale_view_refused:
  assumes "contracts s (action_did a) = Some r" "local_peer e = Some p"
    and "carried_view a = Some (t, causer, content)"
    and "unix_seconds t < unix_seconds (if content then c_content_updated_at r else c_updated_at r)"
  shows "execute e now a s = Inl (UpdatedElsewhere (p \<noteq> causer))"
  using assms
  by (cases a) (auto simp: Offer_def Withdraw_def Approve_def Terminate_def Reject_def Submit_def
      AcceptOffer_def Negotiate_def ReadProcessDataByDID_def GetID_def of_option_def check_updated_at_def)

section \<open>Approval\<close>

lemma Approve_state:
  assumes "store_wf s" "Approve e now cmd s = Inr s'" "contracts s (cmd_did cmd) = Some r"
  shows "state_at s' (cmd_did cmd) =
     Some (if \<exists>other. other \<noteq> cmd_causer cmd
                 \<and> ApprovalTask_TaskExistsInState (cmd_did cmd) other AtOpen s
           then c_state r else Approved)"
proof -
  let ?did = "cmd_did cmd"
  obtain s1 s3 evt where
    s1: "ApprovalTask_UpdateState ?did (cmd_causer cmd) AtApproved s = Inr s1"
    and s3: "if ApprovalTask_AnyTasksInState ?did [AtOpen] s1 then s3 = s1
     else \<exists>d. Update now ((no_update ?did)\<lparr>u_data := Some d\<rparr>)
        (UpdateState now ?did Approved s1) = Inr s3"
    and evt: "event_Create evt s3 = Inr s'"
  proof (rule Approve_cases [OF assms(2)])
    fix r2 s1 s3 data evt
    assume *: "contracts s ?did = Some r2"
      "ApprovalTask_UpdateState ?did (cmd_causer cmd) AtApproved s = Inr s1"
      "if ApprovalTask_AnyTasksInState (c_did r2) [AtOpen] s1 then s3 = s1
       else \<exists>d. Update now ((no_update ?did)\<lparr>u_data := Some d\<rparr>)
        (UpdateState now ?did Approved s1) = Inr s3" "event_Create evt s3 = Inr s'"
    have "c_did r2 = ?did" using *(1) assms(1) by (simp add: store_wf_def)
    with * show thesis using that by simp
  qed
  have quorum: "ApprovalTask_AnyTasksInState ?did [AtOpen] s1 \<longleftrightarrow>
      (\<exists>other. other \<noteq> cmd_causer cmd \<and> ApprovalTask_TaskExistsInState ?did other AtOpen s)"
    by (rule approval_repo.open_after_answer [OF s1]) simp
  have c1: "contracts s1 = contracts s" by (rule contracts_result_ops(2) [OF s1])
  have c': "state_at s' ?did = state_at s3 ?did"
    using event_Create_contracts [OF evt] by (simp add: state_at_def)
  show ?thesis
  proof (cases "ApprovalTask_AnyTasksInState ?did [AtOpen] s1")
    case True
    then show ?thesis using s3 c' c1 assms(3) quorum by (simp add: state_at_def)
  next
    case False
    then obtain d where d: "Update now ((no_update ?did)\<lparr>u_data := Some d\<rparr>)
        (UpdateState now ?did Approved s1) = Inr s3" using s3 by auto
    have "state_at s3 ?did = Some Approved"
      using Update_state [OF d, of ?did] c1 assms(3) by simp
    moreover have "\<not> (\<exists>other. other \<noteq> cmd_causer cmd
        \<and> ApprovalTask_TaskExistsInState ?did other AtOpen s)" using False quorum by blast
    ultimately show ?thesis unfolding c' by (simp only: if_False)
  qed
qed

text \<open>
  C4: what an approval means.  If an approval succeeds, the caller's peer holds an
  approval task of the contract, the stored document satisfied its policies and was
  closed, the contract was REVIEWED or REVOKED, and the contract is APPROVED
  afterwards exactly when no other approver still has an open task; otherwise its
  state is unchanged.
\<close>

theorem approval_needs_every_approver:
  assumes "store_wf s" "Approve e now cmd s = Inr s'" "contracts s (cmd_did cmd) = Some r"
  shows "IsValidApprover (cmd_did cmd) (cmd_causer cmd) s
       \<and> (\<exists>data. c_data r = Some data \<and> policy_ok e data \<and> closed_ok e data)
       \<and> effective_state now r \<in> {Reviewed, Revoked}
       \<and> state_at s' (cmd_did cmd) =
           Some (if \<exists>other. other \<noteq> cmd_causer cmd
                       \<and> ApprovalTask_TaskExistsInState (cmd_did cmd) other AtOpen s
                 then c_state r else Approved)"
proof -
  obtain r2 data where "contracts s (cmd_did cmd) = Some r2"
      "EventAllowed (effective_state now r2) EventApprove"
      "IsValidApprover (cmd_did cmd) (cmd_causer cmd) s"
      "c_data r2 = Some data" "policy_ok e data" "closed_ok e data"
    by (rule Approve_cases [OF assms(2)]) (rule that, assumption+)
  then show ?thesis using Approve_state [OF assms] assms(3) by (simp add: EventAllowed_from)
qed

section \<open>Settling a round\<close>

text \<open>
  C5: a round is settled by engagement.  If a submit moves a contract out of
  NEGOTIATION into SUBMITTED, the caller's peer holds a negotiation task of the
  current round and has no undecided change request by somebody else, every task of
  the round is accepted afterwards, and the round has no change request with a
  decision left to fold.
\<close>

theorem submitted_means_settled:
  assumes "store_wf s" "Submit e now cmd s = Inr s'" "contracts s (cmd_did cmd) = Some r"
    and "effective_state now r = Negotiation" "state_at s' (cmd_did cmd) = Some Submitted"
  shows "IsValidNegotiator (cmd_did cmd) (cmd_causer cmd) (c_version r) s
       \<and> \<not> HasOpenNegotiationDecisions (cmd_did cmd) (c_version r) (cmd_causer cmd) (cmd_by cmd) s
       \<and> \<not> NegotiationTask_AnyTasksInState (cmd_did cmd) (c_version r) [NtOpen] s'
       \<and> \<not> HasNegotiationForContractVersion (cmd_did cmd) (c_version r) s'"
proof -
  let ?did = "cmd_did cmd" and ?p = "r\<lparr>c_state := effective_state now r\<rparr>"
  obtain r2 localPeer s1 nxt s2 evt where
    r2: "contracts s ?did = Some r2"
    and b: "submit_branch e now localPeer (r2\<lparr>c_state := effective_state now r2\<rparr>) cmd s = Inr (s1, nxt)"
    and adv: "submit_advance now ?did (effective_state now r2) nxt s1 = Inr s2"
    and evt: "event_Create evt s2 = Inr s'"
    by (rule Submit_cases [OF assms(2)]) (rule that, assumption+)
  have [simp]: "r2 = r" using r2 assms(3) by simp
  have did: "c_did r = ?did" using assms(1,3) by (simp add: store_wf_def)
  have neq: "c_state r = Negotiation"
    using assms(4) by (auto simp: effective_state_def split: option.split_asm if_split_asm)
  note br = submit_branch_evolves [OF b [simplified] assms(1,3) refl]
  have nxt: "nxt = Some Submitted"
  proof (rule ccontr)
    assume "nxt \<noteq> Some Submitted"
    have "s2 = s1 \<or> (\<exists>n. n \<noteq> Submitted \<and> s2 = UpdateState now ?did n s1)"
      using adv \<open>nxt \<noteq> Some Submitted\<close> by (cases rule: submit_advance_cases) auto
    then have "state_at s2 ?did = state_at s1 ?did \<or> state_at s2 ?did \<noteq> Some Submitted"
      using state_at_UpdateState [of now ?did _ s1 ?did] by (cases "contracts s1 ?did") auto
    moreover have "state_at s2 ?did = Some Submitted"
      using event_Create_contracts [OF evt] assms(5) by (simp add: state_at_def)
    ultimately show False using br assms(3) neq by (auto simp: state_at_def)
  qed
  have "submit_from_negotiation e now localPeer ?p cmd s = Inr (s1, Some Submitted)"
    using b assms(4) nxt by (simp add: submit_branch_def)
  then have g: "IsValidNegotiator ?did (cmd_causer cmd) (c_version r) s"
      "\<not> HasOpenNegotiationDecisions ?did (c_version r) (cmd_causer cmd) (cmd_by cmd) s"
      "\<not> NegotiationTask_AnyTasksInState ?did (c_version r) [NtOpen] s1"
      "\<not> HasNegotiationForContractVersion ?did (c_version r) s1"
    by (auto simp: submit_from_negotiation_def handler_iffs did split: if_split_asm)
  have s2: "s2 = UpdateState now ?did Submitted s1"
    using adv assms(4) nxt by (auto simp: submit_advance_def bind_res_Inr_iff)
  have "negotiation_tasks s' = negotiation_tasks s1" "negotiations s' = negotiations s1"
      "decisions s' = decisions s1"
    using evt unfolding s2
    by (auto simp: event_Create_def UpdateState_def update_row_def split: if_split_asm option.splits)
  with g show ?thesis
    by (simp add: NegotiationTask_AnyTasksInState_def HasNegotiationForContractVersion_def decisions_of_def)
qed

section \<open>Conflict of interest\<close>

text \<open>
  Nobody accepts an own proposal.  A successful acceptance of a change request is
  made on a contract under negotiation by a negotiator of the current round, the
  request exists, and its recorded author, if there is one, is not the accepting
  identity; it turns exactly the undecided decisions of the caller's peer on that
  request into acceptances and decides nothing else.
\<close>

theorem acceptance_has_no_conflict:
  assumes "AcceptNegotiation now cmd s = Inr s'"
  shows "(\<exists>r. contracts s (cmd_did cmd) = Some r \<and> effective_state now r = Negotiation
            \<and> IsValidNegotiator (cmd_did cmd) (cmd_causer cmd) (c_version r) s)
       \<and> (\<exists>author. ReadCreatedByByNegotiationID (resp_id cmd) s = Inr author
            \<and> (author = '''' \<or> author \<noteq> cmd_by cmd))
       \<and> contracts s' = contracts s
       \<and> decisions s' = map (\<lambda>d. if open_decision s (resp_id cmd) d \<and> d_negotiator d = cmd_causer cmd
            then d\<lparr>d_decision := Some DAccepted\<rparr> else d) (decisions s)"
  using assms
  by (auto simp: AcceptNegotiation_def handler_iffs EventAllowed_from Negotiation_Accept_def
      event_Create_def Let_def split: if_split_asm)

section \<open>The settlement gate\<close>

lemma requireUnsettled_Inr:
  "requireUnsettledAgreement e now p did s = Inr () \<longleftrightarrow>
    (\<exists>r. contracts s did = Some r \<and> \<not> ArtifactCarriesSignature (pdf_c2pa_state (c_pdf r))
       \<and> (case GetSettlement did p s of None \<Rightarrow> True
          | Some own \<Rightarrow> (\<exists>dg. document_digest e (if IsNotNullValue (c_data r) then c_data r else None) = Some dg
                \<and> dg \<noteq> st_digest own)))"
  by (auto simp: requireUnsettledAgreement_def ReadPDFState_def ownSettlementCoversStoredDocument_def
      ReadDataByDID_def bind_res_Inr_iff require_Inr_iff split: option.splits)

lemma engage_settlements:
  "negotiate_engage e now localPeer p cmd s = Inr s1 \<Longrightarrow> settlements s1 = settlements s"
  by (auto simp: negotiate_engage_def require_Inr_iff split: if_split_asm)

lemma redline_cases:
  assumes "negotiate_redline e now localPeer p cmd t = Inr (s3, v)"
    and "neg_change_request cmd = Some raw" "decode_change raw = Some change" "cr_data change \<noteq> None"
  shows "\<exists>doc. requireUnsettledAgreement e now localPeer (cmd_did cmd) t = Inr () \<and> v = c_version p + 1
    \<and> Update now ((no_update (cmd_did cmd))\<lparr>u_data := Some doc, u_version := c_version p + 1\<rparr>)
        (CreateHistoryEntryForDID now (cmd_did cmd) t) = Inr s3"
  using assms by (auto simp: negotiate_redline_def bind_res_Inr_iff)

text \<open>
  C6: a committed agreement is not rewritten.  A negotiation that carries a redline of
  the document succeeds only if the stored artifact carries no signature and this
  instance's own newest settlement of the contract, if there is one, is of another
  document than the stored one; it then raises the version by one and leaves a copy
  of the replaced version in the history.
\<close>

theorem redline_needs_unsettled_agreement:
  assumes "store_wf s" "Negotiate e now cmd s = Inr s'" "contracts s (cmd_did cmd) = Some r"
    and "local_peer e = Some p"
    and "neg_change_request cmd = Some raw" "decode_change raw = Some change" "cr_data change \<noteq> None"
    and "0 \<le> c_version r"
  shows "\<not> ArtifactCarriesSignature (pdf_c2pa_state (c_pdf r))
       \<and> (\<forall>own. GetSettlement (cmd_did cmd) p s = Some own \<longrightarrow>
            document_digest e (if IsNotNullValue (c_data r) then c_data r else None) \<noteq> Some (st_digest own))
       \<and> map_option c_version (contracts s' (cmd_did cmd)) = Some (c_version r + 1)
       \<and> r\<lparr>c_state := effective_state now r\<rparr> \<in> set (history s')"
proof -
  let ?did = "cmd_did cmd" and ?p = "r\<lparr>c_state := effective_state now r\<rparr>"
  obtain r2 localPeer s1 t s3 v s5 s6 evt where r2: "contracts s ?did = Some r2" "local_peer e = Some localPeer"
    and s1: "negotiate_engage e now localPeer (r2\<lparr>c_state := effective_state now r2\<rparr>) cmd s = Inr s1"
    and t: "t = Negotiation_Create (uuid e) now ?did (c_version r2) (neg_change_request cmd)
           (cmd_by cmd) (ReadNegotiatorsForDID ?did s1) s1"
    and s3: "negotiate_redline e now localPeer (r2\<lparr>c_state := effective_state now r2\<rparr>) cmd t = Inr (s3, v)"
    and s5: "reseedPartiesAndSignatureFields e now ?did
       (if v \<noteq> c_version r2 then RollForward ?did (c_version r2) v s3
        else NegotiationTask_ReopenTasks ?did v s3) = Inr s5"
    and s6: "enter_negotiation now ?did (effective_state now r2) s5 = Inr s6"
    and evt: "event_Create evt (DeleteDraft ?did (cmd_by cmd) s6) = Inr s'"
    by (rule Negotiate_cases [OF assms(2)]) (rule that, assumption+)
  have [simp]: "r2 = r" "localPeer = p" using r2 assms(3,4) by simp_all
  have ct: "contracts t = contracts s" "settlements t = settlements s"
    using engage_contracts [OF s1] engage_settlements [OF s1] by (simp_all add: t)
  from redline_cases [OF s3 [simplified] assms(5-7)] obtain doc where
    gate: "requireUnsettledAgreement e now p ?did t = Inr ()" and v: "v = c_version r + 1"
    and up: "Update now ((no_update ?did)\<lparr>u_data := Some doc, u_version := c_version r + 1\<rparr>)
        (CreateHistoryEntryForDID now ?did t) = Inr s3"
    by auto
  have gs: "GetSettlement ?did p t = GetSettlement ?did p s" using ct by (simp add: GetSettlement_def)
  obtain cols where cols: "createQuery ((no_update ?did)\<lparr>u_data := Some doc, u_version := c_version r + 1\<rparr>) = Inr cols"
      "s3 = update_row now ?did (fold set_column cols) (CreateHistoryEntryForDID now ?did t)"
    using up by (auto simp: Update_def bind_res_Inr_iff)
  have ver3: "c_version r + 1 > 0 \<Longrightarrow> map_option c_version (contracts s3 ?did) = Some (c_version r + 1)"
    unfolding cols(2) by (simp add: contracts_update_row ct assms(3) createQuery_columns(2) [OF cols(1)])
  have hist: "?p \<in> set (history s3)"
    unfolding cols(2) by (simp add: CreateHistoryEntryForDID_def ct assms(3))
  have "map_option c_version (contracts s5 ?did) = map_option c_version (contracts s3 ?did)"
      "history s5 = history s3"
    using reseed_ops [OF s5, of ?did] by (auto split: if_split_asm)
  moreover have "map_option c_version (contracts s' ?did) = map_option c_version (contracts s5 ?did)"
      "history s' = history s5"
    using s6 event_Create_contracts [OF evt] history_result_ops(6) [OF evt]
    by (auto simp: enter_negotiation_def bind_res_Inr_iff UpdateState_keeps split: if_split_asm)
  ultimately show ?thesis
    using gate ver3 hist ct assms(3,8) gs by (auto simp: requireUnsettled_Inr split: option.splits)
qed


section \<open>Withdrawing a settlement\<close>

lemma upsert_in:
  "x \<in> set (withdrawals (UpsertSettlementWithdrawal w s)) \<longleftrightarrow>
     x = w\<lparr>w_delivered := False\<rparr> \<or> (x \<in> set (withdrawals s) \<and> \<not> same_withdrawal w x)"
  by (auto simp: UpsertSettlementWithdrawal_def)

definition withdrawal_of :: "int \<Rightarrow> string \<Rightarrow> string \<Rightarrow> settlement \<Rightarrow> withdrawal" where
  "withdrawal_of now p did t =
    \<lparr>w_did = did, w_from_peer = p, w_to_peer = st_to_peer t, w_digest = st_digest t,
     w_withdrawn_at = now - now mod microsecond, w_delivered = False\<rparr>"

lemma fold_upsert_in:
  assumes "distinct (map st_to_peer ts)" "t \<in> set ts"
  shows "withdrawal_of now p did t
     \<in> set (withdrawals (fold (\<lambda>t. UpsertSettlementWithdrawal (withdrawal_of now p did t)) ts s))"
  using assms
proof (induction ts arbitrary: s rule: rev_induct)
  case (snoc x ts)
  show ?case
  proof (cases "t = x")
    case True
    then show ?thesis by (simp add: upsert_in withdrawal_of_def)
  next
    case False
    then have "t \<in> set ts" using snoc.prems by simp
    moreover have "\<not> same_withdrawal (withdrawal_of now p did x) (withdrawal_of now p did t)"
      using snoc.prems \<open>t \<in> set ts\<close> by (auto simp: same_withdrawal_def withdrawal_of_def)
    ultimately show ?thesis using snoc by (simp add: upsert_in)
  qed
qed simp

text \<open>
  Taking an agreement back is complete.  After this instance withdraws its
  settlement of a contract, no settlement of its own is left for it, the settlements
  of other parties and other contracts are untouched, and for every settlement it had
  given (one per audience) an undelivered withdrawal toward that audience, naming
  exactly the digest that was settled, waits for delivery.
\<close>

theorem withdrawal_takes_back_every_settlement:
  assumes "distinct (map st_to_peer (filter (settled_by did p) (settlements s)))"
  shows "GetSettlementsBy did p (withdrawOwnSettlement now p did s) = []
       \<and> settlements (withdrawOwnSettlement now p did s)
           = filter (\<lambda>t. \<not> settled_by did p t) (settlements s)
       \<and> (\<forall>t\<in>set (settlements s). settled_by did p t \<longrightarrow>
            withdrawal_of now p did t \<in> set (withdrawals (withdrawOwnSettlement now p did s)))"
proof -
  have keep: "settlements (fold (\<lambda>t. UpsertSettlementWithdrawal (f t)) ts s) = settlements s" for f s and ts :: "settlement list"
    by (induction ts arbitrary: s) simp_all
  have def': "withdrawOwnSettlement now p did s = DeleteSettlementsBy did p
      (fold (\<lambda>t. UpsertSettlementWithdrawal (withdrawal_of now p did t)) (GetSettlementsBy did p s) s)"
    by (simp add: withdrawOwnSettlement_def withdrawal_of_def)
  have left: "settlements (withdrawOwnSettlement now p did s)
      = filter (\<lambda>t. \<not> settled_by did p t) (settlements s)"
    unfolding def' by (simp add: DeleteSettlementsBy_def keep)
  have dist: "distinct (map st_to_peer (GetSettlementsBy did p s))"
    using assms by (simp add: GetSettlementsBy_def distinct_map)
  have "withdrawal_of now p did t \<in> set (withdrawals (withdrawOwnSettlement now p did s))"
    if "t \<in> set (settlements s)" "settled_by did p t" for t
  proof -
    have "t \<in> set (GetSettlementsBy did p s)" using that by (simp add: GetSettlementsBy_def)
    from fold_upsert_in [OF dist this, of now p did s] show ?thesis unfolding def' by simp
  qed
  with left show ?thesis by (simp add: GetSettlementsBy_def filter_empty_conv)
qed

section \<open>Termination and expiry\<close>

lemma unix_seconds_mono: "a \<le> b \<Longrightarrow> unix_seconds a \<le> unix_seconds b"
  by (simp add: unix_seconds_def zdiv_mono1)

text \<open>
  Termination always succeeds.  Every existing contract that is not TERMINATED yet,
  in whatever state, can be terminated by a caller with a current view: the
  contract is TERMINATED afterwards, the event is on the audit trail and exactly one
  publication of the status is queued, however often that status was queued before.
\<close>

theorem terminate_succeeds:
  assumes "contracts s (cmd_did cmd) = Some r" "local_peer e = Some p" "cmd_did cmd \<noteq> ''''"
    and "c_state r \<noteq> Terminated" "c_updated_at r \<le> cmd_updated_at cmd"
    and "length (filter (\<lambda>q. q_did q = cmd_did cmd \<and> q_status q = ''TERMINATED'') (publications s)) \<le> 1"
  shows "\<exists>s'. Terminate e now cmd s = Inr s' \<and> state_at s' (cmd_did cmd) = Some Terminated
       \<and> outbox s' = outbox s @ [TerminateEvent (cmd_did cmd) (c_version r) (cmd_by cmd) (cmd_reason cmd)]
       \<and> length (filter (\<lambda>q. q_did q = cmd_did cmd \<and> q_status q = ''TERMINATED'') (publications s')) = 1"
proof -
  have eff: "effective_state now r \<noteq> Terminated"
    using assms(4) by (simp add: effective_state_def split: option.splits)
  have view: "\<not> unix_seconds (cmd_updated_at cmd) < unix_seconds (c_updated_at r)"
    using unix_seconds_mono [OF assms(5)] by simp
  let ?evt = "TerminateEvent (cmd_did cmd) (c_version r) (cmd_by cmd) (cmd_reason cmd)"
  let ?s1 = "(UpdateState now (cmd_did cmd) Terminated s)\<lparr>outbox := outbox s @ [?evt]\<rparr>"
  let ?s2 = "EnqueueTx (cmd_did cmd) ''TERMINATED'' (cmd_reason cmd) now ?s1"
  have run: "Terminate e now cmd s = Inr ?s2"
    using assms(1-3) eff view
    by (simp add: Terminate_def ReadProcessDataByDID_def GetID_def of_option_def check_updated_at_def
        lift_transition_def ValidateTransition_def EventAllowed_from event_Create_def)
  have "state_at ?s2 (cmd_did cmd) = Some Terminated"
    using assms(1) state_at_UpdateState [of now "cmd_did cmd" Terminated s "cmd_did cmd"]
    by (simp add: state_at_def)
  moreover have "length (filter (\<lambda>q. q_did q = cmd_did cmd \<and> q_status q = ''TERMINATED'') (publications ?s2)) = 1"
    using assms(6)
    by (auto simp: EnqueueTx_def list_ex_iff filter_empty_conv le_Suc_eq)
  ultimately show ?thesis using run by simp
qed

text \<open>
  Nothing but termination touches an expired contract.  Once the expiry date of a
  contract has passed (and it is not in one of the states that do not expire), a
  command that succeeds on it is a termination, or it leaves the contract's row as
  it is (the audit record of a review, the deletion of a private draft).
\<close>

theorem expired_only_terminates:
  assumes "contracts s (action_did a) = Some r" "effective_state now r = Expired"
    and "execute e now a s = Inr s'"
  shows "(\<exists>cmd. a = ATerminate cmd) \<or> contracts s' = contracts s"
proof (cases a)
  case (AReview did reviewer)
  then show ?thesis using assms(3) by (auto simp: Review_def dest: event_Create_contracts)
next
  case (ADeleteDraft cmd)
  then show ?thesis using assms(3) by (auto simp: DeleteNegotiationDraft_def require_Inr_iff)
qed (use assms in \<open>auto simp: Offer_def Withdraw_def Approve_def Reject_def Submit_def AcceptOffer_def
    Negotiate_def AcceptNegotiation_def RejectNegotiation_def UpdateContract_def
    SaveNegotiationDraft_def handler_iffs EventAllowed_from\<close>)

end
