(* ===== verification/Hierarchy.thy ===== *)
theory Hierarchy
  imports Store_Frames
begin

text \<open>
  The parent references between contracts and the cycle check of \<open>command/update.go\<close>.
  The walk of \<open>checkNoParentCycle\<close> is related to reachability in the graph of the
  stored parent references, and an update is shown to keep that graph acyclic.
\<close>

definition parent_of :: "(string \<Rightarrow> contract option) \<Rightarrow> string \<Rightarrow> string" where
  "parent_of rows d = (case rows d of None \<Rightarrow> '''' | Some c \<Rightarrow> extractParentContractDID (c_data c))"

definition parent_edges :: "(string \<Rightarrow> contract option) \<Rightarrow> (string \<times> string) set" where
  "parent_edges rows = {(d, parent_of rows d) | d. d \<noteq> '''' \<and> parent_of rows d \<noteq> ''''}"

lemma parent_edges_iff:
  "(a, b) \<in> parent_edges rows \<longleftrightarrow> a \<noteq> '''' \<and> b = parent_of rows a \<and> b \<noteq> ''''"
  by (auto simp: parent_edges_def)

section \<open>The walk\<close>

lemma parent_walk_unfold:
  "parent_walk rows self visited current =
    (if current = '''' then Some False
     else if current = self then Some True
     else if current \<in> set visited then Some False
     else if rows current = None then Some False
     else parent_walk rows self (current # visited) (parent_of rows current))"
  by (subst parent_walk.simps) (auto simp: parent_of_def split: option.splits)

lemma parent_walk_terminates:
  assumes "finite (dom rows)"
  shows "\<exists>b. parent_walk rows self visited current = Some b"
proof (induction "card (dom rows - set visited)" arbitrary: visited current rule: less_induct)
  case less
  show ?case
  proof (cases "current = '''' \<or> current = self \<or> current \<in> set visited \<or> rows current = None")
    case True
    then show ?thesis by (subst parent_walk_unfold) auto
  next
    case False
    then have "current \<in> dom rows - set visited" by auto
    then have "dom rows - set (current # visited) \<subset> dom rows - set visited" by auto
    then have "card (dom rows - set (current # visited)) < card (dom rows - set visited)"
      using assms by (intro psubset_card_mono) auto
    from less [OF this] show ?thesis using False by (subst parent_walk_unfold) (simp del: not_None_eq)
  qed
qed

text \<open>
  The nodes already visited: none is the contract itself, and the parent of each is
  visited as well or is where the walk stands.
\<close>

definition walk_inv :: "(string \<Rightarrow> contract option) \<Rightarrow> string \<Rightarrow> string list \<Rightarrow> string \<Rightarrow> bool" where
  "walk_inv rows self visited current =
    (\<forall>v\<in>set visited. v \<noteq> self \<and> (parent_of rows v \<in> set visited \<or> parent_of rows v = current))"

lemma closed_unreachable:
  assumes "(a, b) \<in> (parent_edges rows)\<^sup>*" "a \<in> set visited"
    and "\<forall>v\<in>set visited. v \<noteq> self \<and> parent_of rows v \<in> set visited"
  shows "b \<in> set visited \<and> b \<noteq> self"
  using assms by (induction rule: rtrancl_induct) (auto simp: parent_edges_iff)

lemma parent_walk_correct:
  assumes "finite (dom rows)" "walk_inv rows self visited current" "self \<noteq> ''''"
  shows "parent_walk rows self visited current = Some True
     \<longleftrightarrow> current \<noteq> '''' \<and> (current, self) \<in> (parent_edges rows)\<^sup>*"
  using assms(2)
proof (induction "card (dom rows - set visited)" arbitrary: visited current rule: less_induct)
  case less
  consider (stop) "current = '''' \<or> current = self" | (seen) "current \<noteq> ''''" "current \<noteq> self" "current \<in> set visited"
    | (away) "current \<noteq> ''''" "current \<noteq> self" "current \<notin> set visited" "rows current = None"
    | (go) "current \<noteq> ''''" "current \<noteq> self" "current \<notin> set visited" "rows current \<noteq> None" by blast
  then show ?case
  proof cases
    case stop
    then show ?thesis using assms(3) by (subst parent_walk_unfold) auto
  next
    case seen
    then have "(current, self) \<notin> (parent_edges rows)\<^sup>*"
      using less.prems closed_unreachable [of current self rows visited self]
      by (auto simp: walk_inv_def)
    with seen show ?thesis by (subst parent_walk_unfold) simp
  next
    case away
    have "(current, self) \<notin> (parent_edges rows)\<^sup>*"
    proof
      assume "(current, self) \<in> (parent_edges rows)\<^sup>*"
      then obtain x where "(current, x) \<in> parent_edges rows"
        using away(2) by (auto elim: converse_rtranclE)
      then show False using away(4) by (simp add: parent_edges_iff parent_of_def)
    qed
    with away show ?thesis by (subst parent_walk_unfold) simp
  next
    case go
    have lt: "card (dom rows - set (current # visited)) < card (dom rows - set visited)"
      using assms(1) go by (intro psubset_card_mono) auto
    have inv: "walk_inv rows self (current # visited) (parent_of rows current)"
      using less.prems go by (auto simp: walk_inv_def)
    have step: "(current, self) \<in> (parent_edges rows)\<^sup>* \<longleftrightarrow>
        parent_of rows current \<noteq> '''' \<and> (parent_of rows current, self) \<in> (parent_edges rows)\<^sup>*"
      using go(1,2) by (auto simp: parent_edges_iff elim: converse_rtranclE
          intro: converse_rtrancl_into_rtrancl)
    show ?thesis
      using less.hyps [OF lt inv] go step by (subst parent_walk_unfold) (simp del: not_None_eq)
  qed
qed

lemma checkNoParentCycle_iff:
  assumes "finite (dom (contracts s))" "self \<noteq> ''''"
  shows "checkNoParentCycle self proposed s = Inr () \<longleftrightarrow>
     \<not> (proposed \<noteq> '''' \<and> (proposed, self) \<in> (parent_edges (contracts s))\<^sup>*)"
proof -
  obtain b where b: "parent_walk (contracts s) self [] proposed = Some b"
    using parent_walk_terminates [OF assms(1)] by blast
  have "walk_inv (contracts s) self [] proposed" by (simp add: walk_inv_def)
  from parent_walk_correct [OF assms(1) this assms(2)] b show ?thesis
    by (cases b) (simp_all add: checkNoParentCycle_def)
qed

text \<open>
  C27: the cycle check decides.  On a finite contract table the walk along the parent
  references always ends, whatever loops the stored data already contains, and the
  check refuses a proposed parent exactly when the contract itself is reachable from
  it along the stored references.
\<close>

theorem cycle_check_decides:
  assumes "finite (dom (contracts s))" "self \<noteq> ''''"
  shows "checkNoParentCycle self proposed s =
     (if proposed \<noteq> '''' \<and> (proposed, self) \<in> (parent_edges (contracts s))\<^sup>*
      then Inl HierarchyCycle else Inr ())"
proof -
  obtain b where b: "parent_walk (contracts s) self [] proposed = Some b"
    using parent_walk_terminates [OF assms(1)] by blast
  have "walk_inv (contracts s) self [] proposed" by (simp add: walk_inv_def)
  from parent_walk_correct [OF assms(1) this assms(2)] b show ?thesis
    by (cases b) (simp_all add: checkNoParentCycle_def)
qed

section \<open>Updates keep the hierarchy acyclic\<close>

lemma extractParent_JObj:
  "extractParentContractDID (Some (JObj m)) =
     (case obj_get m ''dcs:parentContract'' of
        Some (JObj typed) \<Rightarrow> ResourceKey (jstr (obj_get typed ''@id''))
      | Some (JArr (JObj first # _)) \<Rightarrow> ResourceKey (jstr (obj_get first ''@id''))
      | _ \<Rightarrow> '''')"
  by (simp add: extractParentContractDID_def)

lemma write_map_parent:
  assumes "write_map doc k v = Inr d" "decode_map raw = Some doc" "k \<noteq> ''dcs:parentContract''"
  shows "extractParentContractDID (Some d) = extractParentContractDID (Some raw)"
proof -
  obtain m where m: "raw = JObj m" "d = JObj (obj_set m k v)"
    using assms(1,2) by (auto simp: write_map_def decode_map_def split: option.split_asm json.split_asm)
  show ?thesis unfolding m extractParent_JObj using assms(3) by simp
qed

lemma seeding_keeps_parent:
  assumes "SeedPartiesAndSignatureFields h raw dids = Inr (d, changed)"
  shows "extractParentContractDID (Some d) = extractParentContractDID (Some raw)"
proof -
  obtain d1 c1 c2 where p: "SeedContractParties raw dids = Inr (d1, c1)"
      and f: "SeedSignatureFields h d1 dids = Inr (d, c2)"
    using assms by (auto simp: SeedPartiesAndSignatureFields_def bind_res_Inr_iff)
  have "extractParentContractDID (Some d1) = extractParentContractDID (Some raw)"
    using p by (auto simp: SeedContractParties_def Let_def bind_res_Inr_iff
        split: option.split_asm if_split_asm dest: write_map_parent)
  moreover have "extractParentContractDID (Some d) = extractParentContractDID (Some d1)"
    using f by (auto simp: SeedSignatureFields_def Let_def bind_res_Inr_iff
        split: option.split_asm if_split_asm dest: write_map_parent)
  ultimately show ?thesis by simp
qed

lemma prepare_keeps_parent:
  assumes "prepare_saved_document e old data = Inr doc"
    and "\<And>stored d d'. carry_bundle e stored d = Some d' \<Longrightarrow>
        extractParentContractDID (Some d') = extractParentContractDID (Some d)"
  shows "extractParentContractDID doc = extractParentContractDID data
       \<and> (IsNotNullValue doc \<longrightarrow> IsNotNullValue data)"
proof (cases "IsNotNullValue data")
  case False
  then show ?thesis using assms(1) by (auto simp: prepare_saved_document_def)
next
  case True
  then obtain d where d: "data = Some d" "d \<noteq> JNull" by (cases data) auto
  from assms(1) d obtain carried where c: "carry_bundle e (c_data old) d = Some carried"
    and rest: "(case c_responsible old of None \<Rightarrow> Inr (Some carried)
       | Some resp \<Rightarrow> bind_res (lift_doc (SeedPartiesAndSignatureFields (digest8 e) carried (GetParties resp)))
           (\<lambda>(seeded, changed). Inr (Some (if changed then seeded else carried)))) = Inr doc"
    by (auto simp: prepare_saved_document_def bind_res_Inr_iff of_option_def split: option.split_asm)
  have "\<exists>x. doc = Some x \<and> extractParentContractDID (Some x) = extractParentContractDID (Some carried)"
    using rest by (auto simp: bind_res_Inr_iff lift_doc_def split: option.split_asm sum.split_asm
        dest: seeding_keeps_parent)
  with assms(2) [OF c] d show ?thesis by auto
qed

lemma parent_of_update_row:
  "parent_of (contracts (update_row now did f s)) d =
     (if d = did then (case contracts s did of None \<Rightarrow> ''''
        | Some c \<Rightarrow> extractParentContractDID (c_data (f c)))
      else parent_of (contracts s) d)"
  by (simp add: parent_of_def contracts_update_row split: option.splits)

lemma UpdateContract_cases:
  assumes "UpdateContract e now cmd s = Inr s'"
  obtains data old doc u s1 evt where
    "extractParentContractDID data \<noteq> '''' \<Longrightarrow>
        checkNoParentCycle (cmd_did cmd) (extractParentContractDID data) s = Inr ()"
    "prepare_saved_document e old data = Inr doc"
    "Update now u s = Inr s1" "u_did u = cmd_did cmd" "u_data u = doc"
    "event_Create evt s1 = Inr s'"
proof -
  from assms obtain data old doc s1 and ok :: unit where
    "(if extractParentContractDID data \<noteq> ''''
        then checkNoParentCycle (cmd_did cmd) (extractParentContractDID data) s else Inr ()) = Inr ok"
    "prepare_saved_document e old data = Inr doc"
    "Update now ((no_update (cmd_did cmd))\<lparr>u_name := upd_name cmd,
        u_description := upd_description cmd, u_start_date := upd_start_date cmd,
        u_exp_date := upd_exp_date cmd,
        u_exp_policy := map_option expiration_policy_string (upd_exp_policy cmd),
        u_exp_notice_period := upd_exp_notice_period cmd, u_data := doc\<rparr>) s = Inr s1"
    "event_Create (UpdateEvent (cmd_did cmd) (cmd_by cmd) (c_data old) doc) s1 = Inr s'"
    unfolding UpdateContract_def bind_res_Inr_iff require_Inr_iff by blast
  then show ?thesis
    by (intro that [of data old doc _ s1]) (auto simp: no_update_def split: if_split_asm)
qed

text \<open>
  C20: an update keeps the contract hierarchy acyclic.  If the parent references of a
  finite contract table form no cycle and an update of a contract succeeds, they form
  no cycle afterwards, whatever parent the update sets.  The hypothesis on the
  Semantic Hub bundle is that carrying it forward does not touch the parent reference
  of the document.
\<close>

theorem update_keeps_hierarchy_acyclic:
  assumes "finite (dom (contracts s))" "acyclic (parent_edges (contracts s))" "cmd_did cmd \<noteq> ''''"
    and "\<And>stored d d'. carry_bundle e stored d = Some d' \<Longrightarrow>
        extractParentContractDID (Some d') = extractParentContractDID (Some d)"
    and "UpdateContract e now cmd s = Inr s'"
  shows "acyclic (parent_edges (contracts s'))"
proof -
  let ?did = "cmd_did cmd"
  obtain data old doc u s1 evt where
    check: "extractParentContractDID data \<noteq> '''' \<Longrightarrow>
        checkNoParentCycle ?did (extractParentContractDID data) s = Inr ()"
    and prep: "prepare_saved_document e old data = Inr doc"
    and up: "Update now u s = Inr s1" and u: "u_did u = ?did" "u_data u = doc"
    and evt: "event_Create evt s1 = Inr s'"
    by (rule UpdateContract_cases [OF assms(5)]) (rule that, assumption+)
  have parent: "extractParentContractDID doc = extractParentContractDID data"
    by (rule conjunct1 [OF prepare_keeps_parent [OF prep]]) (rule assms(4))
  let ?p = "extractParentContractDID doc"
  obtain cols where cols: "createQuery u = Inr cols" "s1 = update_row now ?did (fold set_column cols) s"
    using up u by (auto simp: Update_def bind_res_Inr_iff)
  have new: "parent_of (contracts s1) d = parent_of (contracts s) d \<or> (d = ?did \<and> parent_of (contracts s1) d = ?p)" for d
    unfolding cols(2) parent_of_update_row createQuery_columns(3) [OF cols(1)] u(2)
    by (auto simp: parent_of_def split: option.splits)
  have sub: "parent_edges (contracts s1) \<subseteq>
      (if ?p = '''' then parent_edges (contracts s) else insert (?did, ?p) (parent_edges (contracts s)))"
    using new by (fastforce simp: parent_edges_def)
  have "acyclic (if ?p = '''' then parent_edges (contracts s) else insert (?did, ?p) (parent_edges (contracts s)))"
    using check checkNoParentCycle_iff [OF assms(1,3), of ?p] assms(2) parent
    by (auto simp: acyclic_insert)
  from acyclic_subset [OF this sub] show ?thesis
    using event_Create_contracts [OF evt] by simp
qed

end
