(* ===== verification/Retry_Budget.thy ===== *)
theory Retry_Budget
  imports Prelude "HOL-Library.AList"
begin

text \<open>
  The pacing of the PDF regeneration sweep
  (\<open>backend/internal/pdfgeneration/event/retrybudget.go\<close>) and the sweep that
  spends the budget (\<open>subscriber.go\<close>, \<open>retryPendingRegenerations\<close> and
  \<open>retryOne\<close>).  Points in time and durations are integers counting
  nanoseconds, as in Go's \<open>time.Duration\<close>; the two Go maps are association
  lists, so that the loop of \<open>exhausted\<close> over the map is a computation.  Go
  leaves the order of that loop open; the statements below only speak of the
  set of its results.  The outcome of a regeneration and the clock are
  arguments of the sweep.
\<close>

definition second_ns :: int where
  "second_ns = 1000000000"

definition regenerationRetryAttempts :: nat where
  "regenerationRetryAttempts = 5"

definition maxRegenerationRetryBackoff :: int where
  "maxRegenerationRetryBackoff = 3600 * second_ns"

record retry_budget =
  interval :: int
  attempts :: "(string \<times> nat) list"
  next_at :: "(string \<times> int) list"

definition empty_budget :: retry_budget where
  "empty_budget = \<lparr>interval = 0, attempts = [], next_at = []\<rparr>"

definition budgetKey :: "string \<Rightarrow> string \<Rightarrow> string" where
  "budgetKey kind did = kind @ [CHR 0x00] @ did"

definition pace :: "int \<Rightarrow> retry_budget \<Rightarrow> retry_budget" where
  "pace d b = b\<lparr>interval := d\<rparr>"

text \<open>Reading an absent key of a Go map of integers gives zero.\<close>

definition attempts_of :: "retry_budget \<Rightarrow> string \<Rightarrow> nat" where
  "attempts_of b key = (case map_of (attempts b) key of None \<Rightarrow> 0 | Some n \<Rightarrow> n)"

definition ready :: "retry_budget \<Rightarrow> string \<Rightarrow> string \<Rightarrow> int \<Rightarrow> bool" where
  "ready b kind did now =
    (let key = budgetKey kind did
     in if attempts_of b key \<ge> regenerationRetryAttempts then False
        else (case map_of (next_at b) key of
                None \<Rightarrow> True
              | Some t \<Rightarrow> \<not> now < t))"

fun backoff_loop :: "nat \<Rightarrow> int \<Rightarrow> int" where
  "backoff_loop 0 delay = delay"
| "backoff_loop (Suc n) delay =
     (if delay \<ge> maxRegenerationRetryBackoff then delay else backoff_loop n (delay * 2))"

definition backoff :: "retry_budget \<Rightarrow> nat \<Rightarrow> int" where
  "backoff b n =
    (let delay = backoff_loop (n - 1) (interval b)
     in if delay > maxRegenerationRetryBackoff then maxRegenerationRetryBackoff else delay)"

definition failed :: "retry_budget \<Rightarrow> string \<Rightarrow> string \<Rightarrow> int \<Rightarrow> retry_budget \<times> nat" where
  "failed b kind did now =
    (let key = budgetKey kind did;
         n = attempts_of b key + 1
     in (b\<lparr>attempts := AList.update key n (attempts b),
           next_at := AList.update key (now + backoff b n) (next_at b)\<rparr>, n))"

definition succeeded :: "retry_budget \<Rightarrow> string \<Rightarrow> string \<Rightarrow> retry_budget" where
  "succeeded b kind did =
    (let key = budgetKey kind did
     in b\<lparr>attempts := AList.delete key (attempts b),
          next_at := AList.delete key (next_at b)\<rparr>)"

definition exhausted :: "retry_budget \<Rightarrow> string \<Rightarrow> string list" where
  "exhausted b kind =
    (let prefix = kind @ [CHR 0x00]
     in map (\<lambda>(key, n). trim_prefix key prefix)
          (filter (\<lambda>(key, n). n \<ge> regenerationRetryAttempts \<and> has_prefix key prefix)
            (attempts b)))"

text \<open>
  One tick of the sweep: the two work lists as the database returned them, the
  clock at the start of the tick and at the end of an attempt, and the outcome
  of \<open>appendC2PA\<close> or \<open>appendTemplateC2PA\<close> for each entity.  The second
  component of the result lists the attempts made, with their outcomes.
\<close>

record sweep_tick =
  tick_now :: int
  tick_contracts :: "string list"
  tick_templates :: "string list"
  tick_ok :: "string \<Rightarrow> string \<Rightarrow> bool"
  tick_done :: int

definition retryOne ::
  "sweep_tick \<Rightarrow> string \<Rightarrow> string \<Rightarrow> retry_budget \<Rightarrow> retry_budget \<times> bool" where
  "retryOne tk kind did b =
    (if \<not> tick_ok tk kind did then (fst (failed b kind did (tick_done tk)), False)
     else (succeeded b kind did, True))"

type_synonym attempt = "string \<times> string \<times> bool"

fun retry_list ::
  "sweep_tick \<Rightarrow> string \<Rightarrow> string list \<Rightarrow> retry_budget \<Rightarrow> retry_budget \<times> attempt list" where
  "retry_list tk kind [] b = (b, [])"
| "retry_list tk kind (did # dids) b =
     (if \<not> ready b kind did (tick_now tk) then retry_list tk kind dids b
      else (case retryOne tk kind did b of
              (b', ok) \<Rightarrow>
                (case retry_list tk kind dids b' of
                   (b'', done_list) \<Rightarrow> (b'', (kind, did, ok) # done_list))))"

definition retryPass :: "sweep_tick \<Rightarrow> retry_budget \<Rightarrow> retry_budget \<times> attempt list" where
  "retryPass tk b =
    (case retry_list tk ''contract'' (tick_contracts tk) b of
       (b', l) \<Rightarrow>
         (case retry_list tk ''template'' (tick_templates tk) b' of
            (b'', l') \<Rightarrow> (b'', l @ l')))"

fun retryPendingRegenerations ::
  "sweep_tick list \<Rightarrow> retry_budget \<Rightarrow> retry_budget \<times> attempt list" where
  "retryPendingRegenerations [] b = (b, [])"
| "retryPendingRegenerations (tk # tks) b =
     (case retryPass tk b of
        (b', l) \<Rightarrow>
          (case retryPendingRegenerations tks b' of (b'', l') \<Rightarrow> (b'', l @ l')))"

subsection \<open>Keys and the back-off\<close>

definition nul_free :: "string \<Rightarrow> bool" where
  "nul_free s = (CHR 0x00 \<notin> set s)"

lemma append_nul_inj:
  assumes "nul_free k" "nul_free k'" "k @ [CHR 0x00] @ d = k' @ [CHR 0x00] @ d'"
  shows "k = k' \<and> d = d'"
  using assms
proof (induction k arbitrary: k')
  case Nil
  then show ?case by (cases k') (auto simp: nul_free_def)
next
  case (Cons c k)
  then show ?case by (cases k') (auto simp: nul_free_def)
qed

lemma budgetKey_eq_iff:
  "nul_free k \<Longrightarrow> nul_free k' \<Longrightarrow> budgetKey k d = budgetKey k' d' \<longleftrightarrow> k = k' \<and> d = d'"
  unfolding budgetKey_def using append_nul_inj by blast

lemma backoff_loop_ge:
  "0 \<le> d \<Longrightarrow> d \<le> backoff_loop n d"
proof (induction n arbitrary: d)
  case (Suc n)
  have "d * 2 \<le> backoff_loop n (d * 2)" using Suc by simp
  then show ?case using Suc.prems by simp
qed simp

lemma backoff_loop_double:
  "0 \<le> d \<Longrightarrow> min (2 ^ n * d) maxRegenerationRetryBackoff \<le> backoff_loop n d"
proof (induction n arbitrary: d)
  case (Suc n)
  show ?case
  proof (cases "d \<ge> maxRegenerationRetryBackoff")
    case True
    then show ?thesis by simp
  next
    case False
    have "min (2 ^ n * (d * 2)) maxRegenerationRetryBackoff \<le> backoff_loop n (d * 2)"
      using Suc by simp
    with False show ?thesis by (simp add: mult.commute mult.left_commute)
  qed
qed simp

lemma backoff_loop_le:
  "0 \<le> d \<Longrightarrow> backoff_loop n d \<le> 2 ^ n * d"
proof (induction n arbitrary: d)
  case (Suc n)
  have "backoff_loop n (d * 2) \<le> 2 ^ n * (d * 2)" using Suc by simp
  moreover have "d * 1 \<le> d * 2 ^ Suc n"
    using Suc.prems one_le_power [of "2::int" "Suc n"] by (intro mult_left_mono) simp_all
  ultimately show ?case by (simp add: mult.commute mult.left_commute)
qed simp

lemma backoff_eq:
  assumes "0 \<le> interval b"
  shows "backoff b n = min (2 ^ (n - 1) * interval b) maxRegenerationRetryBackoff"
  using backoff_loop_double [OF assms, of "n - 1"] backoff_loop_le [OF assms, of "n - 1"]
  by (simp add: backoff_def Let_def min_def split: if_splits)

subsection \<open>The budget of one entity\<close>

lemma attempts_of_failed [simp]:
  "attempts_of (fst (failed b k d t)) key =
     (if key = budgetKey k d then attempts_of b key + 1 else attempts_of b key)"
  by (simp add: failed_def attempts_of_def Let_def update_conv')

lemma attempts_of_succeeded [simp]:
  "attempts_of (succeeded b k d) key =
     (if key = budgetKey k d then 0 else attempts_of b key)"
  by (simp add: succeeded_def attempts_of_def Let_def delete_conv')

lemma ready_budget: "ready b k d t \<Longrightarrow> attempts_of b (budgetKey k d) < regenerationRetryAttempts"
  by (auto simp: ready_def Let_def split: if_splits)

text \<open>The attempts a log holds for one entity since its last success.\<close>

fun failures_since :: "string \<Rightarrow> string \<Rightarrow> nat \<Rightarrow> attempt list \<Rightarrow> nat" where
  "failures_since k d n [] = n"
| "failures_since k d n ((k', d', ok) # l) =
     failures_since k d (if k = k' \<and> d = d' then (if ok then 0 else n + 1) else n) l"

lemma failures_since_append:
  "failures_since k d n (l @ l') = failures_since k d (failures_since k d n l) l'"
  by (induction l arbitrary: n) auto

lemma failures_since_no_success:
  "\<lbrakk>(k, d, True) \<notin> set l\<rbrakk>
   \<Longrightarrow> failures_since k d n l = n + length (filter (\<lambda>a. fst a = k \<and> fst (snd a) = d) l)"
proof (induction l arbitrary: n)
  case (Cons a l)
  obtain k' d' ok where "a = (k', d', ok)" by (cases a) auto
  with Cons show ?case by (cases ok) auto
qed simp

text \<open>
  The accounting invariant of the sweep: the counter of an entity is the number
  of failures since its last success, and it never exceeds the budget.
\<close>

definition budget_bounded :: "retry_budget \<Rightarrow> bool" where
  "budget_bounded b = (\<forall>key. attempts_of b key \<le> regenerationRetryAttempts)"

lemma retry_list_accounts:
  assumes "nul_free kind" "nul_free k" "retry_list tk kind dids b = (b', l)" "budget_bounded b"
  shows "attempts_of b' (budgetKey k d) = failures_since k d (attempts_of b (budgetKey k d)) l
       \<and> budget_bounded b'"
  using assms(3,4)
proof (induction dids arbitrary: b b' l)
  case (Cons did dids)
  show ?case
  proof (cases "ready b kind did (tick_now tk)")
    case True
    obtain b1 ok where one: "retryOne tk kind did b = (b1, ok)" by fastforce
    obtain l1 where rest: "retry_list tk kind dids b1 = (b', l1)" and l: "l = (kind, did, ok) # l1"
      using Cons.prems(1) True one by (auto split: prod.splits)
    have key: "attempts_of b1 (budgetKey k d) =
        (if k = kind \<and> d = did then (if ok then 0 else attempts_of b (budgetKey k d) + 1)
         else attempts_of b (budgetKey k d))"
      using one budgetKey_eq_iff [OF assms(2,1)] by (auto simp: retryOne_def split: if_splits)
    have "budget_bounded b1"
      using one Cons.prems(2) ready_budget [OF True]
      by (auto simp: retryOne_def budget_bounded_def split: if_splits)
    from Cons.IH [OF rest this] show ?thesis by (simp add: l key)
  next
    case False
    with Cons show ?thesis by simp
  qed
qed simp

lemma nul_free_kinds [simp]: "nul_free ''contract''" "nul_free ''template''"
  by (simp_all add: nul_free_def)

lemma sweep_accounts:
  assumes "nul_free k" "retryPendingRegenerations tks b = (b', l)" "budget_bounded b"
  shows "attempts_of b' (budgetKey k d) = failures_since k d (attempts_of b (budgetKey k d)) l
       \<and> budget_bounded b'"
  using assms(2,3)
proof (induction tks arbitrary: b b' l)
  case (Cons tk tks)
  obtain b1 l1 where c: "retry_list tk ''contract'' (tick_contracts tk) b = (b1, l1)" by fastforce
  obtain b2 l2 where t: "retry_list tk ''template'' (tick_templates tk) b1 = (b2, l2)" by fastforce
  obtain l3 where r: "retryPendingRegenerations tks b2 = (b', l3)" and l: "l = l1 @ l2 @ l3"
    using Cons.prems(1) c t by (auto simp: retryPass_def split: prod.splits)
  note c' = retry_list_accounts [OF nul_free_kinds(1) assms(1) c Cons.prems(2), of d]
  note t' = retry_list_accounts [OF nul_free_kinds(2) assms(1) t conjunct2 [OF c'], of d]
  show ?case using c' t' Cons.IH [OF r conjunct2 [OF t']]
    by (simp add: l failures_since_append)
qed simp

lemma budget_bounded_empty [simp]: "budget_bounded (pace i empty_budget)"
  by (simp add: budget_bounded_def pace_def empty_budget_def attempts_of_def)

lemma attempts_of_empty [simp]: "attempts_of (pace i empty_budget) key = 0"
  by (simp add: pace_def empty_budget_def attempts_of_def)

lemma has_prefix_nul:
  assumes "nul_free k" "nul_free k'"
  shows "has_prefix (budgetKey k' d) (k @ [CHR 0x00]) \<longleftrightarrow> k = k'"
proof
  assume "has_prefix (budgetKey k' d) (k @ [CHR 0x00])"
  then obtain r where "budgetKey k' d = (k @ [CHR 0x00]) @ r" by (auto simp: has_prefix_iff)
  then have "k @ [CHR 0x00] @ r = k' @ [CHR 0x00] @ d" by (simp add: budgetKey_def)
  then show "k = k'" using append_nul_inj assms by blast
qed (auto simp: has_prefix_iff budgetKey_def)

lemma distinct_attempts_list:
  assumes "distinct (map fst (attempts b))"
  shows "distinct (map fst (attempts (fst (failed b k d t))))"
    and "distinct (map fst (attempts (succeeded b k d)))"
  using assms by (simp_all add: failed_def succeeded_def Let_def distinct_update distinct_delete)


lemma has_exhausted_keys:
  assumes "nul_free k" "distinct (map fst (attempts b))"
  shows "did \<in> set (exhausted b k)
     \<longleftrightarrow> attempts_of b (budgetKey k did) \<ge> regenerationRetryAttempts"
proof
  assume "did \<in> set (exhausted b k)"
  then obtain key n where *: "(key, n) \<in> set (attempts b)" "n \<ge> regenerationRetryAttempts"
      "has_prefix key (k @ [CHR 0x00])" "did = trim_prefix key (k @ [CHR 0x00])"
    by (auto simp: exhausted_def Let_def)
  then obtain r where "key = (k @ [CHR 0x00]) @ r" by (auto simp: has_prefix_iff)
  with *(4) have key: "budgetKey k did = key"
    by (simp only: trim_prefix_append) (simp add: budgetKey_def)
  have "map_of (attempts b) key = Some n" using *(1) assms(2) by simp
  with *(2) show "attempts_of b (budgetKey k did) \<ge> regenerationRetryAttempts"
    by (simp add: attempts_of_def key)
next
  assume *: "attempts_of b (budgetKey k did) \<ge> regenerationRetryAttempts"
  then obtain n where n: "map_of (attempts b) (budgetKey k did) = Some n"
      "n \<ge> regenerationRetryAttempts"
    by (auto simp: attempts_of_def regenerationRetryAttempts_def split: option.splits)
  have key: "budgetKey k did = (k @ [CHR 0x00]) @ did" by (simp add: budgetKey_def)
  have "has_prefix (budgetKey k did) (k @ [CHR 0x00])"
      "trim_prefix (budgetKey k did) (k @ [CHR 0x00]) = did"
    unfolding key by (simp_all only: trim_prefix_append) (auto simp: has_prefix_iff)
  then have "(budgetKey k did, n) \<in> set (filter (\<lambda>(key, n). n \<ge> regenerationRetryAttempts
      \<and> has_prefix key (k @ [CHR 0x00])) (attempts b))"
      "did = (\<lambda>(key, n). trim_prefix key (k @ [CHR 0x00])) (budgetKey k did, n)"
    using n map_of_SomeD [OF n(1)] by simp_all
  then show "did \<in> set (exhausted b k)"
    unfolding exhausted_def Let_def set_map by (rule rev_image_eqI)
qed

lemma retry_list_distinct:
  "retry_list tk kind dids b = (b', l) \<Longrightarrow> distinct (map fst (attempts b))
   \<Longrightarrow> distinct (map fst (attempts b'))"
proof (induction dids arbitrary: b b' l)
  case (Cons did dids)
  then show ?case
    by (auto simp: retryOne_def distinct_attempts_list split: if_splits prod.splits)
qed simp

lemma sweep_distinct:
  "retryPendingRegenerations tks b = (b', l) \<Longrightarrow> distinct (map fst (attempts b))
   \<Longrightarrow> distinct (map fst (attempts b'))"
proof (induction tks arbitrary: b b' l)
  case (Cons tk tks)
  then show ?case
    by (auto simp: retryPass_def dest!: retry_list_distinct split: prod.splits)
qed simp

text \<open>
  C35: whatever the work lists, the clock and the outcomes of the regenerations
  are, over any number of ticks of a fresh sweep an entity whose regeneration
  never succeeds is attempted at most \<open>regenerationRetryAttempts\<close> times, and
  the sweep reports it as exhausted exactly when it was attempted that often.
\<close>

theorem sweep_attempts_bounded:
  assumes "retryPendingRegenerations tks (pace i empty_budget) = (b, l)"
    and "nul_free k" and "(k, d, True) \<notin> set l"
  shows "length (filter (\<lambda>a. fst a = k \<and> fst (snd a) = d) l) \<le> regenerationRetryAttempts
       \<and> (d \<in> set (exhausted b k) \<longleftrightarrow>
           length (filter (\<lambda>a. fst a = k \<and> fst (snd a) = d) l) = regenerationRetryAttempts)"
proof -
  have acc: "attempts_of b (budgetKey k d) =
      length (filter (\<lambda>a. fst a = k \<and> fst (snd a) = d) l)" "budget_bounded b"
    using sweep_accounts [OF assms(2,1) budget_bounded_empty, of d]
    by (simp_all add: failures_since_no_success [OF assms(3)])
  have "distinct (map fst (attempts (pace i empty_budget)))"
    by (simp add: pace_def empty_budget_def)
  from has_exhausted_keys [OF assms(2) sweep_distinct [OF assms(1) this]] acc
  show ?thesis unfolding budget_bounded_def by (metis le_antisym order_refl)
qed

end
