(* ===== verification/Rate_Limit.thy ===== *)
theory Rate_Limit
  imports Retry_Budget
begin

text \<open>
  The per-credential request budget of the API
  (\<open>backend/internal/middleware/ratelimit.go\<close>): a fixed one-minute window per
  credential, opportunistic clean-up of expired windows, and the bound on the
  requests that any minute lets through.  The truncated SHA-256 under which a
  credential is stored is the argument \<open>hash16\<close>.
\<close>

definition minute_ns :: int where
  "minute_ns = 60 * second_ns"

record window =
  win_start :: int
  win_count :: int

record 'k rate_limiter =
  limit :: int
  windows :: "('k \<times> window) list"

definition gc_windows :: "int \<Rightarrow> ('k \<times> window) list \<Rightarrow> ('k \<times> window) list" where
  "gc_windows now ws =
    (if length ws > 1024
     then filter (\<lambda>(k, win). \<not> (now - win_start win \<ge> minute_ns)) ws else ws)"

definition take_token ::
  "(string \<Rightarrow> 'k) \<Rightarrow> 'k rate_limiter \<Rightarrow> string \<Rightarrow> int \<Rightarrow> 'k rate_limiter \<times> int \<times> bool" where
  "take_token hash16 l credential now =
    (let key = hash16 credential;
         ws = gc_windows now (windows l);
         fresh = (l\<lparr>windows := AList.update key \<lparr>win_start = now, win_count = 1\<rparr> ws\<rparr>, 0, True)
     in case map_of ws key of
          None \<Rightarrow> fresh
        | Some win \<Rightarrow>
            if now - win_start win \<ge> minute_ns then fresh
            else
              (let win' = win\<lparr>win_count := win_count win + 1\<rparr>;
                   l' = l\<lparr>windows := AList.update key win' ws\<rparr>
               in if win_count win' > limit l
                  then (l', minute_ns - (now - win_start win), False)
                  else (l', 0, True)))"

datatype http_answer = Served | TooManyRequests int

text \<open>
  The middleware: requests without an \<open>Authorization\<close> header are not counted.
  \<open>Retry-After\<close> is given in whole seconds, rounded down plus one.
\<close>

definition RateLimitAuthenticated ::
  "(string \<Rightarrow> 'k) \<Rightarrow> 'k rate_limiter \<Rightarrow> string \<Rightarrow> int \<Rightarrow> 'k rate_limiter \<times> http_answer" where
  "RateLimitAuthenticated hash16 l auth now =
    (if auth = [] then (l, Served)
     else (case take_token hash16 l auth now of
             (l', retryAfter, ok) \<Rightarrow>
               if ok then (l', Served)
               else (l', TooManyRequests (retryAfter div second_ns + 1))))"

text \<open>
  The request times that were let through for the credential with one hash.
\<close>

fun served_times ::
  "(string \<Rightarrow> 'k) \<Rightarrow> 'k \<Rightarrow> 'k rate_limiter \<Rightarrow> (string \<times> int) list \<Rightarrow> int list" where
  "served_times hash16 key l [] = []"
| "served_times hash16 key l ((auth, now) # reqs) =
     (case RateLimitAuthenticated hash16 l auth now of
        (l', answer) \<Rightarrow>
          (if auth \<noteq> [] \<and> hash16 auth = key \<and> answer = Served then [now] else [])
          @ served_times hash16 key l' reqs)"

definition in_span :: "int \<Rightarrow> int \<Rightarrow> int list \<Rightarrow> nat" where
  "in_span a b ts = length (filter (\<lambda>t. a \<le> t \<and> t < b) ts)"

subsection \<open>The window of one key\<close>

lemma in_span_append [simp]: "in_span a b (ts @ us) = in_span a b ts + in_span a b us"
  by (simp add: in_span_def)

lemma in_span_single [simp]: "in_span a b [t] = (if a \<le> t \<and> t < b then 1 else 0)"
  by (simp add: in_span_def)

lemma in_span_Nil [simp]: "in_span a b [] = 0"
  by (simp add: in_span_def)

lemma in_span_zero: "(\<And>t. t \<in> set ts \<Longrightarrow> t < a) \<Longrightarrow> in_span a b ts = 0"
  by (force simp: in_span_def filter_empty_conv)

lemma in_span_mono: "a' \<le> a \<Longrightarrow> b \<le> b' \<Longrightarrow> in_span a b ts \<le> in_span a' b' ts"
  by (induction ts) (auto simp: in_span_def)

lemma in_span_split: "a \<le> m \<Longrightarrow> m \<le> b \<Longrightarrow> in_span a b ts = in_span a m ts + in_span m b ts"
  by (induction ts) (auto simp: in_span_def)

text \<open>
  The times \<open>ts\<close> let through so far for one key, with \<open>s\<close> the start of its last
  window: everything happened before the window ends, the window holds at most
  \<open>m\<close> requests, so does the minute before it, and any minute at most \<open>2 * m\<close>.
\<close>

definition key_account :: "nat \<Rightarrow> int \<Rightarrow> int list \<Rightarrow> bool" where
  "key_account m s ts =
    ((\<forall>t\<in>set ts. t < s + minute_ns)
     \<and> in_span s (s + minute_ns) ts \<le> m
     \<and> in_span (s - minute_ns + 1) s ts \<le> m
     \<and> (\<forall>a. in_span a (a + minute_ns) ts \<le> 2 * m))"

lemma minute_pos: "0 < minute_ns"
  by (simp add: minute_ns_def second_ns_def)

lemma key_account_new_window:
  assumes acc: "key_account m s ts" and later: "s + minute_ns \<le> now" and m: "1 \<le> m"
  shows "key_account m now (ts @ [now])"
proof -
  have old: "\<And>t. t \<in> set ts \<Longrightarrow> t < now"
    using acc later unfolding key_account_def by fastforce
  then have zero: "in_span now b ts = 0" for b by (rule in_span_zero)
  have prev: "in_span (now - minute_ns + 1) now ts \<le> m"
  proof -
    have "in_span (now - minute_ns + 1) now ts = in_span (now - minute_ns + 1) (s + minute_ns) ts"
    proof -
      have "filter (\<lambda>t. now - minute_ns + 1 \<le> t \<and> t < now) ts
          = filter (\<lambda>t. now - minute_ns + 1 \<le> t \<and> t < s + minute_ns) ts"
        using acc later unfolding key_account_def by (intro filter_cong) auto
      then show ?thesis by (simp add: in_span_def)
    qed
    also have "\<dots> \<le> in_span s (s + minute_ns) ts" using later by (intro in_span_mono) auto
    finally show ?thesis using acc by (simp add: key_account_def)
  qed
  have any: "in_span a (a + minute_ns) (ts @ [now]) \<le> 2 * m" for a
  proof (cases "a \<le> now \<and> now < a + minute_ns")
    case True
    then have "in_span a (a + minute_ns) ts = in_span a now ts"
      using in_span_split [of a now "a + minute_ns" ts] zero by simp
    also have "\<dots> \<le> in_span (now - minute_ns + 1) now ts"
      using True by (intro in_span_mono) auto
    finally show ?thesis using True prev m by simp
  next
    case False
    then show ?thesis using acc by (auto simp: key_account_def)
  qed
  have "\<forall>t\<in>set (ts @ [now]). t < now + minute_ns"
    using old minute_pos by (auto intro: add_strict_increasing2 less_trans dest!: old)
  moreover have "in_span now (now + minute_ns) (ts @ [now]) \<le> m"
    using zero m minute_pos by simp
  moreover have "in_span (now - minute_ns + 1) now (ts @ [now]) \<le> m" using prev by simp
  ultimately show ?thesis unfolding key_account_def using any by blast
qed

lemma key_account_first:
  "1 \<le> m \<Longrightarrow> key_account m now [now]"
  using minute_pos by (auto simp: key_account_def)

lemma key_account_same_window:
  assumes acc: "key_account m s ts" and now: "s \<le> now" "now < s + minute_ns"
    and room: "in_span s (s + minute_ns) ts < m"
  shows "key_account m s (ts @ [now])"
proof -
  have any: "in_span a (a + minute_ns) (ts @ [now]) \<le> 2 * m" for a
  proof (cases "a \<le> now \<and> now < a + minute_ns")
    case True
    show ?thesis
    proof (cases "a \<le> s")
      case le: True
      have hi: "in_span a (a + minute_ns) ts = in_span a s ts + in_span s (a + minute_ns) ts"
        using le True now by (intro in_span_split) auto
      have "in_span a s ts \<le> in_span (s - minute_ns + 1) s ts"
        using True now by (intro in_span_mono) auto
      moreover have "in_span s (a + minute_ns) ts \<le> in_span s (s + minute_ns) ts"
        using le by (intro in_span_mono) auto
      ultimately show ?thesis using hi True room acc by (simp add: key_account_def)
    next
      case gt: False
      have "in_span a (a + minute_ns) ts \<le> in_span s (s + minute_ns) ts"
      proof -
        have "in_span a (a + minute_ns) ts = in_span a (s + minute_ns) ts"
        proof -
          have "in_span (s + minute_ns) (a + minute_ns) ts = 0"
            using acc by (intro in_span_zero) (auto simp: key_account_def)
          then show ?thesis
            using in_span_split [of a "s + minute_ns" "a + minute_ns" ts] gt True now by simp
        qed
        also have "\<dots> \<le> in_span s (s + minute_ns) ts" using gt by (intro in_span_mono) auto
        finally show ?thesis .
      qed
      then show ?thesis using True room by simp
    qed
  next
    case False
    then show ?thesis using acc by (auto simp: key_account_def)
  qed
  show ?thesis unfolding key_account_def using acc now room any
    by (auto simp: key_account_def)
qed

subsection \<open>The limiter keeps the account\<close>

text \<open>
  The account of a key after the requests let through so far: nothing yet, a
  window that is over at \<open>now\<close>, or the live window recorded in the map, whose
  counter is at least the number of requests it let through.
\<close>

definition key_state ::
  "nat \<Rightarrow> int \<Rightarrow> window option \<Rightarrow> int list \<Rightarrow> bool" where
  "key_state m now w ts =
    (case w of
       None \<Rightarrow> ts = [] \<or> (\<exists>s. key_account m s ts \<and> s + minute_ns \<le> now)
     | Some win \<Rightarrow> key_account m (win_start win) ts \<and> win_start win \<le> now
         \<and> int (in_span (win_start win) (win_start win + minute_ns) ts) \<le> win_count win)"

lemma key_state_later: "key_state m now w ts \<Longrightarrow> now \<le> now' \<Longrightarrow> key_state m now' w ts"
  by (force simp: key_state_def split: option.splits)

lemma gc_windows_lookup:
  assumes "distinct (map fst ws)"
  shows "map_of (gc_windows now ws) k = map_of ws k
    \<or> (map_of (gc_windows now ws) k = None
       \<and> (\<exists>win. map_of ws k = Some win \<and> now - win_start win \<ge> minute_ns))"
proof (cases "length ws > 1024")
  case True
  then have gc: "gc_windows now ws = filter (\<lambda>(k, win). \<not> now - win_start win \<ge> minute_ns) ws"
    by (simp add: gc_windows_def)
  have dist: "distinct (map fst (gc_windows now ws))"
    using assms unfolding gc by (simp add: distinct_map_filter)
  show ?thesis
  proof (cases "map_of ws k")
    case None
    then have "k \<notin> fst ` set (gc_windows now ws)" unfolding gc by (auto simp: map_of_eq_None_iff)
    then have "map_of (gc_windows now ws) k = None" by (simp add: map_of_eq_None_iff)
    with None show ?thesis by simp
  next
    case (Some win)
    then have mem: "(k, win) \<in> set ws" by (rule map_of_SomeD)
    show ?thesis
    proof (cases "now - win_start win \<ge> minute_ns")
      case False
      then have "(k, win) \<in> set (gc_windows now ws)" using mem by (simp add: gc)
      with dist Some show ?thesis by simp
    next
      case stale: True
      have "k \<notin> fst ` set (gc_windows now ws)"
        using assms mem stale unfolding gc
        by (auto dest: map_of_is_SomeI [OF assms])
      then have "map_of (gc_windows now ws) k = None" by (simp add: map_of_eq_None_iff)
      with Some stale show ?thesis by blast
    qed
  qed
qed (simp add: gc_windows_def)

lemma distinct_gc: "distinct (map fst ws) \<Longrightarrow> distinct (map fst (gc_windows now ws))"
  by (simp add: gc_windows_def distinct_map_filter)

lemma key_state_stale:
  assumes "key_state m now w ts"
    and "w = None \<or> (\<exists>win. w = Some win \<and> now - win_start win \<ge> minute_ns)"
  shows "ts = [] \<or> (\<exists>s. key_account m s ts \<and> s + minute_ns \<le> now)"
  using assms
proof (cases w)
  case (Some win)
  then have "key_account m (win_start win) ts" "win_start win + minute_ns \<le> now"
    using assms by (auto simp: key_state_def)
  then show ?thesis by blast
qed (simp add: key_state_def)

lemma key_state_gc:
  assumes "distinct (map fst ws)" "key_state m now (map_of ws k) ts" "1 \<le> m"
  shows "key_state m now (map_of (gc_windows now ws) k) ts"
  using gc_windows_lookup [OF assms(1), of now k]
proof
  assume "map_of (gc_windows now ws) k = map_of ws k"
  with assms(2) show ?thesis by simp
next
  assume stale: "map_of (gc_windows now ws) k = None
    \<and> (\<exists>win. map_of ws k = Some win \<and> now - win_start win \<ge> minute_ns)"
  then show ?thesis using key_state_stale [OF assms(2)] by (auto simp: key_state_def)
qed

lemma key_state_take:
  assumes dist: "distinct (map fst (windows l))"
    and st: "key_state m now (map_of (windows l) k) ts"
    and m: "m = nat (max 1 (limit l))"
    and tk: "take_token hash16 l cred now = (l', ra, ok)"
  shows "key_state m now (map_of (windows l') k)
           (ts @ (if hash16 cred = k \<and> ok then [now] else []))
       \<and> distinct (map fst (windows l')) \<and> limit l' = limit l"
proof -
  let ?ws = "gc_windows now (windows l)"
  have m1: "1 \<le> m" using m by simp
  note gc = key_state_gc [OF dist st m1]
  have other: ?thesis if "hash16 cred \<noteq> k"
    using that tk gc distinct_gc [OF dist]
    by (auto simp: take_token_def Let_def distinct_update update_conv' split: option.splits if_splits)
  have fresh: "key_state m now (Some \<lparr>win_start = now, win_count = 1\<rparr>) (ts @ [now])"
    if "map_of ?ws k = None \<or> (\<exists>win. map_of ?ws k = Some win \<and> now - win_start win \<ge> minute_ns)"
  proof -
    from key_state_stale [OF gc that] show ?thesis
    proof
      assume "ts = []"
      then show ?thesis using key_account_first [OF m1] by (simp add: key_state_def)
    next
      assume "\<exists>s. key_account m s ts \<and> s + minute_ns \<le> now"
      then obtain s where s: "key_account m s ts" "s + minute_ns \<le> now" by blast
      have "in_span now (now + minute_ns) ts = 0"
        using s by (intro in_span_zero) (force simp: key_account_def)
      then show ?thesis
        using key_account_new_window [OF s m1] by (simp add: key_state_def)
    qed
  qed
  show ?thesis
  proof (cases "hash16 cred = k")
    case key: True
    show ?thesis
    proof (cases "\<exists>win. map_of ?ws k = Some win \<and> \<not> now - win_start win \<ge> minute_ns")
      case True
      then obtain win where win: "map_of ?ws k = Some win" "now - win_start win < minute_ns" by auto
      from gc win(1) have acc: "key_account m (win_start win) ts" "win_start win \<le> now"
          "int (in_span (win_start win) (win_start win + minute_ns) ts) \<le> win_count win"
        by (simp_all add: key_state_def)
      have ok: "ok \<longleftrightarrow> win_count win + 1 \<le> limit l"
        and ws: "windows l' = AList.update k (win\<lparr>win_count := win_count win + 1\<rparr>) ?ws"
        and lim: "limit l' = limit l"
        using tk key win by (auto simp: take_token_def Let_def split: if_splits)
      have room: "key_account m (win_start win) (ts @ [now])" if ok
        using that ok acc win(2) m by (intro key_account_same_window) auto
      show ?thesis using acc room win(2) key distinct_gc [OF dist] unfolding ws lim
        by (auto simp: key_state_def update_conv' distinct_update)
    next
      case False
      then have "ok" "limit l' = limit l"
          "windows l' = AList.update k \<lparr>win_start = now, win_count = 1\<rparr> ?ws"
        using tk key by (auto simp: take_token_def Let_def split: option.splits if_splits)
      then show ?thesis using fresh False key distinct_gc [OF dist]
        by (cases "map_of ?ws k") (auto simp: update_conv' distinct_update)
    qed
  qed (rule other)
qed

lemma served_account:
  assumes "sorted_wrt (\<le>) (map snd reqs)" "\<forall>r\<in>set reqs. now \<le> snd r"
    and "distinct (map fst (windows l))" "key_state m now (map_of (windows l) k) ts"
    and "m = nat (max 1 (limit l))"
  shows "\<exists>w now'. key_state m now' w (ts @ served_times hash16 k l reqs)"
  using assms
proof (induction reqs arbitrary: l ts now)
  case (Cons r reqs)
  obtain auth t where r: "r = (auth, t)" by fastforce
  have later: "key_state m t (map_of (windows l) k) ts"
    using Cons.prems(2,4) r by (auto intro: key_state_later)
  have rest: "sorted_wrt (\<le>) (map snd reqs)" "\<forall>q\<in>set reqs. t \<le> snd q"
    using Cons.prems(1) r by auto
  show ?case
  proof (cases "auth = []")
    case True
    then show ?thesis
      using Cons.IH [OF rest Cons.prems(3) later Cons.prems(5)]
      by (simp add: r RateLimitAuthenticated_def)
  next
    case False
    obtain l' ra ok where tk: "take_token hash16 l auth t = (l', ra, ok)" by (metis prod_cases3)
    note st = key_state_take [OF Cons.prems(3) later Cons.prems(5) tk]
    have "m = nat (max 1 (limit l'))" using st Cons.prems(5) by simp
    from Cons.IH [OF rest _ _ this] st
    show ?thesis using False
      by (cases ok; cases "hash16 auth = k") (fastforce simp: r RateLimitAuthenticated_def tk)+
  qed
qed auto

text \<open>
  C34: the request budget over any minute.  For requests arriving in time order
  at a fresh limiter, the requests let through for one credential inside any
  span of one minute are at most twice the limit (a limit below one counting as
  one, since the first request of a window is always let through): the fixed
  windows admit the classical burst at a window border and nothing beyond it.
\<close>

theorem rate_limit_any_minute:
  assumes "sorted_wrt (\<le>) (map snd reqs)"
  shows "in_span a (a + minute_ns)
           (served_times hash16 k \<lparr>limit = lim, windows = []\<rparr> reqs) \<le> 2 * nat (max 1 lim)"
proof (cases reqs)
  case (Cons r rs)
  let ?l = "\<lparr>limit = lim, windows = []\<rparr>"
  have "\<forall>q\<in>set reqs. snd r \<le> snd q" using assms Cons by auto
  have "key_state (nat (max 1 lim)) (snd r) (map_of (windows ?l) k) []"
      "distinct (map fst (windows ?l))"
    by (simp_all add: key_state_def)
  from served_account [OF assms \<open>\<forall>q\<in>set reqs. snd r \<le> snd q\<close> this(2,1), of hash16]
  obtain w now' where "key_state (nat (max 1 lim)) now' w (served_times hash16 k ?l reqs)"
    by auto
  then show ?thesis
    by (auto simp: key_state_def key_account_def split: option.splits)
qed simp

end
