(* ===== verification/Witnesses.thy ===== *)
theory Witnesses
  imports Workflow_Properties Hierarchy Rate_Limit
begin

text \<open>
  The properties of the workflow engine at work: one small deployment with two
  instances, \<open>did:web:a\<close> (where the store is) and \<open>did:web:b\<close>, one contract and its tasks,
  and every property with hypotheses applied to a command that succeeds there.
\<close>

section \<open>A small deployment\<close>

definition demo_doc :: json where
  "demo_doc = JObj [(''@id'', JStr ''doc'')]"

definition demo_contract :: "string \<Rightarrow> contract_state \<Rightarrow> contract" where
  "demo_contract origin st = \<lparr>c_did = ''c1'', c_origin = origin, c_version = 1, c_state = st,
     c_created_by = ''alice'', c_created_at = 0, c_updated_at = 0, c_content_updated_at = 0,
     c_start_date = None, c_exp_date = None, c_exp_policy = None, c_exp_notice_period = None,
     c_name = None, c_description = None, c_responsible = None, c_data = Some demo_doc,
     c_template_did = ''t1'', c_template_version = 1, c_target_id = None,
     c_pdf = \<lparr>pdf_ipfs_cid = '''', pdf_renderer_version = '''', pdf_c2pa_state = ''draft'',
       pdf_payload_hash = ''''\<rparr>\<rparr>"

definition demo_store :: "contract \<Rightarrow> store" where
  "demo_store c = \<lparr>contracts = [''c1'' \<mapsto> c], history = [],
     review_tasks = [\<lparr>task_id = ''r1'', task_did = ''c1'', task_state = RtOpen,
       task_owner = ''did:web:a'', task_created_by = ''alice'', task_created_at = 0\<rparr>],
     approval_tasks = [\<lparr>task_id = ''a1'', task_did = ''c1'', task_state = AtOpen,
       task_owner = ''did:web:a'', task_created_by = ''alice'', task_created_at = 0\<rparr>],
     negotiation_tasks = [\<lparr>nt_id = ''n1'', nt_did = ''c1'', nt_version = 1, nt_state = NtOpen,
       nt_negotiator = ''did:web:a'', nt_created_by = ''alice'', nt_created_at = 0\<rparr>],
     negotiations = [], decisions = [], drafts = (\<lambda>_. None), settlements = [], withdrawals = [],
     publications = [], outbox = [], next_uuid = 0\<rparr>"

definition demo_cmd :: command where
  "demo_cmd = \<lparr>cmd_did = ''c1'', cmd_updated_at = 0, cmd_by = ''alice'',
     cmd_roles = [ContractCreator], cmd_causer = ''did:web:a''\<rparr>"

definition demo_terminate :: reason_cmd where
  "demo_terminate = command.extend demo_cmd (reason_cmd.fields ''breach'')"

definition demo_submit :: submit_cmd where
  "demo_submit = command.extend demo_cmd (submit_cmd.fields None None)"

definition demo_redline :: negotiation_cmd where
  "demo_redline = command.extend demo_cmd (negotiation_cmd.fields
     (Some (JObj [(''contract_data'', JObj [(''dcs:documentStructure'', JObj [])])])))"

lemmas demo_defs = demo_doc_def demo_contract_def demo_store_def demo_cmd_def demo_env_def
  demo_terminate_def demo_submit_def demo_redline_def command.defs reason_cmd.defs submit_cmd.defs
  negotiation_cmd.defs

lemma demo_wf: "store_wf (demo_store (demo_contract origin st))"
  by (simp add: store_wf_def demo_store_def demo_contract_def)

lemma succeeds_obtain:
  assumes "isl m = False"
  obtains x where "m = Inr x"
  using assms by (cases m) auto

section \<open>The engine\<close>

lemma demo_row [simp]: "contracts (demo_store c) ''c1'' = Some c"
  by (simp add: demo_store_def)

lemma demo_did [simp]:
  "cmd_did demo_cmd = ''c1''" "cmd_did demo_terminate = ''c1''" "cmd_did demo_submit = ''c1''"
  "cmd_did demo_redline = ''c1''"
  by (simp_all add: demo_defs)

lemma demo_peer [simp]: "local_peer demo_env = Some ''did:web:a''"
  by (simp add: demo_defs)

lemma demo_effective [simp]: "effective_state now (demo_contract origin st) = st"
  by (simp add: effective_state_def demo_contract_def)

lemma demo_contract_fields [simp]:
  "c_state (demo_contract origin st) = st" "c_version (demo_contract origin st) = 1"
  "c_data (demo_contract origin st) = Some demo_doc" "c_updated_at (demo_contract origin st) = 0"
  by (simp_all add: demo_contract_def)

lemma demo_contract_same [simp]: "(demo_contract origin st)\<lparr>c_state := st\<rparr> = demo_contract origin st"
  by (simp add: demo_contract_def)

lemma demo_terminate_runs:
  "isl (execute demo_env 5 (ATerminate demo_terminate) (demo_store (demo_contract ''did:web:a'' Draft))) = False"
  by code_simp

lemma demo_approve_runs:
  "isl (Approve demo_env 5 demo_cmd (demo_store (demo_contract ''did:web:a'' Reviewed))) = False"
  by code_simp

lemma demo_submit_runs:
  "(case Submit demo_env 5 demo_submit (demo_store (demo_contract ''did:web:a'' Negotiation)) of
      Inl _ \<Rightarrow> False | Inr s \<Rightarrow> state_at s ''c1'' = Some Submitted) = True"
  by code_simp

lemma demo_redline_runs:
  "isl (Negotiate demo_env 5 demo_redline (demo_store (demo_contract ''did:web:a'' Negotiation))) = False"
  by code_simp

theorem engine_step_witness:
  "\<exists>s'. execute demo_env 5 (ATerminate demo_terminate) (demo_store (demo_contract ''did:web:a'' Draft)) = Inr s'
     \<and> (\<exists>r'. contracts s' ''c1'' = Some r' \<and> row_grows (demo_contract ''did:web:a'' Draft) r'
          \<and> (c_state r' = Draft \<or> contract_step Draft (c_state r')))"
proof -
  obtain s' where s': "execute demo_env 5 (ATerminate demo_terminate)
      (demo_store (demo_contract ''did:web:a'' Draft)) = Inr s'"
    by (rule succeeds_obtain [OF demo_terminate_runs])
  from engine_step [OF demo_wf s'] s' show ?thesis by simp
qed

theorem terminated_is_final_witness:
  "state_at (run_engine demo_env [(5, AOffer demo_cmd), (6, ATerminate demo_terminate)]
     (demo_store (demo_contract ''did:web:a'' Terminated))) ''c1'' = Some Terminated"
  using terminated_is_final [where s = "demo_store (demo_contract ''did:web:a'' Terminated)"
      and d = "''c1''" and e = demo_env and cs = "[(5, AOffer demo_cmd), (6, ATerminate demo_terminate)]",
      OF demo_wf demo_row]
  by simp

theorem stale_view_refused_witness:
  "execute demo_env 7000000000 (AOffer demo_cmd)
     (demo_store ((demo_contract ''did:web:a'' Draft)\<lparr>c_updated_at := 5000000000\<rparr>))
   = Inl (UpdatedElsewhere False)"
  using stale_view_refused [of "demo_store ((demo_contract ''did:web:a'' Draft)\<lparr>c_updated_at := 5000000000\<rparr>)"
      "AOffer demo_cmd" "(demo_contract ''did:web:a'' Draft)\<lparr>c_updated_at := 5000000000\<rparr>"
      demo_env "''did:web:a''" 0 "''did:web:a''" False 7000000000]
  by (simp add: demo_cmd_def unix_seconds_def)

theorem approval_needs_every_approver_witness:
  "\<exists>s'. Approve demo_env 5 demo_cmd (demo_store (demo_contract ''did:web:a'' Reviewed)) = Inr s'
     \<and> IsValidApprover ''c1'' ''did:web:a'' (demo_store (demo_contract ''did:web:a'' Reviewed))
     \<and> state_at s' ''c1'' = Some Approved"
proof -
  let ?s = "demo_store (demo_contract ''did:web:a'' Reviewed)"
  obtain s' where s': "Approve demo_env 5 demo_cmd ?s = Inr s'"
    by (rule succeeds_obtain [OF demo_approve_runs])
  have alone: "\<not> (other \<noteq> ''did:web:a'' \<and> ApprovalTask_TaskExistsInState ''c1'' other AtOpen ?s)" for other
    by (auto simp: ApprovalTask_TaskExistsInState_def demo_store_def task_of_def)
  have "cmd_causer demo_cmd = ''did:web:a''" by (simp add: demo_cmd_def)
  with approval_needs_every_approver [OF demo_wf s', of "demo_contract ''did:web:a'' Reviewed"] s' alone
  show ?thesis by auto
qed

theorem submitted_means_settled_witness:
  "\<exists>s'. Submit demo_env 5 demo_submit (demo_store (demo_contract ''did:web:a'' Negotiation)) = Inr s'
     \<and> \<not> NegotiationTask_AnyTasksInState ''c1'' 1 [NtOpen] s'
     \<and> \<not> HasNegotiationForContractVersion ''c1'' 1 s'"
proof -
  obtain s' where s': "Submit demo_env 5 demo_submit (demo_store (demo_contract ''did:web:a'' Negotiation)) = Inr s'"
      "state_at s' (cmd_did demo_submit) = Some Submitted"
    using demo_submit_runs by (auto split: sum.split_asm)
  from submitted_means_settled [OF demo_wf s'(1) _ _ s'(2), of "demo_contract ''did:web:a'' Negotiation"] s'
  show ?thesis by simp
qed

theorem redline_needs_unsettled_agreement_witness:
  "\<exists>s'. Negotiate demo_env 5 demo_redline (demo_store (demo_contract ''did:web:a'' Negotiation)) = Inr s'
     \<and> map_option c_version (contracts s' ''c1'') = Some 2
     \<and> demo_contract ''did:web:a'' Negotiation \<in> set (history s')"
proof -
  let ?c = "demo_contract ''did:web:a'' Negotiation"
  obtain s' where s': "Negotiate demo_env 5 demo_redline (demo_store ?c) = Inr s'"
    by (rule succeeds_obtain [OF demo_redline_runs])
  have dc: "decode_change (JObj [(''contract_data'', JObj [(''dcs:documentStructure'', JObj [])])])
      = Some (empty_change\<lparr>cr_data := Some (JObj [(''dcs:documentStructure'', JObj [])])\<rparr>)"
    by code_simp
  have cr: "neg_change_request demo_redline
      = Some (JObj [(''contract_data'', JObj [(''dcs:documentStructure'', JObj [])])])"
    by (simp add: demo_defs)
  have row: "contracts (demo_store ?c) (cmd_did demo_redline) = Some ?c" by simp
  from redline_needs_unsettled_agreement [OF demo_wf s' row demo_peer cr dc] s' show ?thesis by simp
qed

theorem terminate_succeeds_witness:
  "\<exists>s'. Terminate demo_env 5 demo_terminate (demo_store (demo_contract ''did:web:a'' Active)) = Inr s'
     \<and> state_at s' ''c1'' = Some Terminated"
proof -
  have "publications (demo_store c) = []" for c by (simp add: demo_store_def)
  moreover have "cmd_updated_at demo_terminate = 0" by (simp add: demo_defs)
  ultimately show ?thesis
    using terminate_succeeds [of "demo_store (demo_contract ''did:web:a'' Active)" demo_terminate
        "demo_contract ''did:web:a'' Active" demo_env "''did:web:a''" 5] by auto
qed

theorem expired_only_terminates_witness:
  "\<exists>s'. execute demo_env 5 (AReview ''c1'' ''bob'')
       (demo_store ((demo_contract ''did:web:a'' Active)\<lparr>c_exp_date := Some 3\<rparr>)) = Inr s'
     \<and> contracts s' = [''c1'' \<mapsto> (demo_contract ''did:web:a'' Active)\<lparr>c_exp_date := Some 3\<rparr>]"
proof -
  let ?c = "(demo_contract ''did:web:a'' Active)\<lparr>c_exp_date := Some 3\<rparr>"
  have run: "isl (execute demo_env 5 (AReview ''c1'' ''bob'') (demo_store ?c)) = False" by code_simp
  obtain s' where s': "execute demo_env 5 (AReview ''c1'' ''bob'') (demo_store ?c) = Inr s'"
    by (rule succeeds_obtain [OF run])
  have "effective_state 5 ?c = Expired"
    by (simp add: effective_state_def demo_contract_def never_expires_def)
  then have "contracts s' = contracts (demo_store ?c)"
    using expired_only_terminates [OF _ _ s', of ?c] by simp
  with s' show ?thesis by (simp add: demo_store_def)
qed

section \<open>Negotiations, settlements and hierarchy\<close>

definition demo_negotiation :: "string \<Rightarrow> int \<Rightarrow> string \<Rightarrow> negotiation" where
  "demo_negotiation i at name = \<lparr>n_id = i, n_did = ''c1'', n_version = 1,
     n_change_request = Some (JObj [(''name'', JStr name)]), n_created_by = ''bob'',
     n_created_at = at, n_superseded_by = None\<rparr>"

definition demo_decision :: "string \<Rightarrow> decision option \<Rightarrow> decision_row" where
  "demo_decision i d = \<lparr>d_id = i, d_negotiation_id = i, d_negotiator = ''did:web:a'',
     d_decision = d, d_rejection_reason = None\<rparr>"

text \<open>A round with two accepted change requests, both for the name.\<close>

definition demo_round :: "bool \<Rightarrow> store" where
  "demo_round swap = (demo_store (demo_contract ''did:web:a'' Negotiation))\<lparr>
     negotiations := (if swap then [demo_negotiation ''y'' 2 ''Y'', demo_negotiation ''x'' 1 ''X'']
        else [demo_negotiation ''x'' 1 ''X'', demo_negotiation ''y'' 2 ''Y'']),
     decisions := [demo_decision ''x'' (Some DAccepted), demo_decision ''y'' (Some DAccepted)]\<rparr>"

definition demo_respond :: respond_cmd where
  "demo_respond = command.extend demo_cmd (respond_cmd.fields ''x'' None)"

definition demo_open_round :: store where
  "demo_open_round = (demo_store (demo_contract ''did:web:a'' Negotiation))\<lparr>
     negotiations := [demo_negotiation ''x'' 1 ''X''], decisions := [demo_decision ''x'' None]\<rparr>"

theorem acceptance_has_no_conflict_witness:
  "\<exists>s'. AcceptNegotiation 5 demo_respond demo_open_round = Inr s'
     \<and> decisions s' = [demo_decision ''x'' (Some DAccepted)]"
proof -
  have run: "isl (AcceptNegotiation 5 demo_respond demo_open_round) = False" by code_simp
  obtain s' where s': "AcceptNegotiation 5 demo_respond demo_open_round = Inr s'"
    by (rule succeeds_obtain [OF run])
  from acceptance_has_no_conflict [OF s']
  have "decisions s' = map (\<lambda>d. if open_decision demo_open_round (resp_id demo_respond) d
      \<and> d_negotiator d = cmd_causer demo_respond
      then d\<lparr>d_decision := Some DAccepted\<rparr> else d) (decisions demo_open_round)" by blast
  also have "\<dots> = [demo_decision ''x'' (Some DAccepted)]" by code_simp
  finally show ?thesis using s' by simp
qed

theorem merge_discard_exact_witness:
  "\<exists>u sups. MergeChangeRequests demo_env 5 ''c1'' 1 (demo_round False) = Inr (u, sups)
     \<and> superseded sups ''x'' ''y'' ''name''"
proof -
  have run: "isl (MergeChangeRequests demo_env 5 ''c1'' 1 (demo_round False)) = False" by code_simp
  obtain u sups where m: "MergeChangeRequests demo_env 5 ''c1'' 1 (demo_round False) = Inr (u, sups)"
    using succeeds_obtain [OF run] by (metis surj_pair)
  have ids: "distinct (map n_id (negotiations (demo_round False)))" by code_simp
  have s: "setters ''name'' (round_of ''c1'' 1 (demo_round False)) = [''x'', ''y'']" by code_simp
  have "follows (setters ''name'' (round_of ''c1'' 1 (demo_round False))) ''x'' ''y''"
    unfolding s follows_def by (intro exI [of _ "[]"]) simp
  with merge_discard_exact [OF m ids] m show ?thesis by blast
qed

theorem merge_row_order_irrelevant_witness:
  "MergeChangeRequests demo_env 5 ''c1'' 1 (demo_round False)
   = MergeChangeRequests demo_env 5 ''c1'' 1 (demo_round True)"
proof (rule merge_row_order_irrelevant)
  show "contracts (demo_round False) ''c1'' = contracts (demo_round True) ''c1''"
    by (simp add: demo_round_def)
  have "ReadAllAcceptedByContractDIDAndVersion ''c1'' 1 (demo_round False)
      = [demo_negotiation ''x'' 1 ''X'', demo_negotiation ''y'' 2 ''Y'']" by code_simp
  moreover have "ReadAllAcceptedByContractDIDAndVersion ''c1'' 1 (demo_round True)
      = [demo_negotiation ''y'' 2 ''Y'', demo_negotiation ''x'' 1 ''X'']" by code_simp
  ultimately show "mset (ReadAllAcceptedByContractDIDAndVersion ''c1'' 1 (demo_round False))
      = mset (ReadAllAcceptedByContractDIDAndVersion ''c1'' 1 (demo_round True))" by simp
  show "distinct (map n_id (negotiations (demo_round False)))" by code_simp
qed

theorem merge_last_accepted_wins_witness:
  "\<exists>u sups. MergeChangeRequests demo_env 5 ''c1'' 1 (demo_round True) = Inr (u, sups) \<and> u_name u = Some ''Y''"
proof -
  have run: "isl (MergeChangeRequests demo_env 5 ''c1'' 1 (demo_round True)) = False" by code_simp
  obtain u sups where m: "MergeChangeRequests demo_env 5 ''c1'' 1 (demo_round True) = Inr (u, sups)"
    using succeeds_obtain [OF run] by (metis surj_pair)
  have r: "round_of ''c1'' 1 (demo_round True)
      = [demo_negotiation ''x'' 1 ''X''] @ demo_negotiation ''y'' 2 ''Y'' # []" by code_simp
  have n: "n_change_request (demo_negotiation ''y'' 2 ''Y'') = Some (JObj [(''name'', JStr ''Y'')])"
    by (simp add: demo_negotiation_def)
  have c: "decode_change (JObj [(''name'', JStr ''Y'')]) = Some (empty_change\<lparr>cr_name := Some ''Y''\<rparr>)"
    by code_simp
  from merge_last_accepted_wins [OF m r n c, of "''Y''"] m show ?thesis by simp
qed

definition demo_settlement :: "string \<Rightarrow> settlement" where
  "demo_settlement to = \<lparr>st_did = ''c1'', st_from_peer = ''did:web:a'', st_to_peer = to,
     st_version = 1, st_digest = ''digest'', st_settled_at = 1,
     st_signature = ''jws'', st_delivered = None\<rparr>"

theorem withdrawal_takes_back_every_settlement_witness:
  "withdrawal_of 5000 ''did:web:a'' ''c1'' (demo_settlement ''did:web:b'')
     \<in> set (withdrawals (withdrawOwnSettlement 5000 ''did:web:a'' ''c1''
         ((demo_store (demo_contract ''did:web:a'' Submitted))\<lparr>
            settlements := [demo_settlement ''did:web:b'', demo_settlement ''did:web:c'']\<rparr>)))"
proof -
  have "settled_by ''c1'' ''did:web:a'' (demo_settlement to)" for to
    by (simp add: settled_by_def demo_settlement_def)
  moreover have "st_to_peer (demo_settlement to) = to" for to by (simp add: demo_settlement_def)
  ultimately show ?thesis
    using withdrawal_takes_back_every_settlement [of "''c1''" "''did:web:a''"
      "(demo_store (demo_contract ''did:web:a'' Submitted))\<lparr>
         settlements := [demo_settlement ''did:web:b'', demo_settlement ''did:web:c'']\<rparr>" 5000]
    by simp
qed

definition demo_update :: update_cmd where
  "demo_update = command.extend demo_cmd (update_cmd.fields None None None None None None
     (Some (JObj [(''dcs:parentContract'', JObj [(''@id'', JStr ''c0'')])])))"

lemma demo_finite: "finite (dom (contracts (demo_store c)))"
  by (simp add: demo_store_def)

lemma demo_no_edges: "parent_edges (contracts (demo_store (demo_contract origin st))) = {}"
  by (auto simp: parent_edges_def parent_of_def demo_store_def demo_contract_def demo_doc_def
      extractParentContractDID_def obj_get_def split: if_split_asm)

theorem cycle_check_decides_witness:
  "checkNoParentCycle ''c1'' ''c0'' (demo_store (demo_contract ''did:web:a'' Draft)) = Inr ()
   \<and> checkNoParentCycle ''c1'' ''c1'' (demo_store (demo_contract ''did:web:a'' Draft)) = Inl HierarchyCycle"
  using cycle_check_decides [OF demo_finite [of "demo_contract ''did:web:a'' Draft"], of "''c1''" "''c0''"]
    cycle_check_decides [OF demo_finite [of "demo_contract ''did:web:a'' Draft"], of "''c1''" "''c1''"]
  by (simp add: demo_no_edges)

theorem update_keeps_hierarchy_acyclic_witness:
  "\<exists>s'. UpdateContract demo_env 5 demo_update (demo_store (demo_contract ''did:web:a'' Draft)) = Inr s'
     \<and> acyclic (parent_edges (contracts s'))"
proof -
  let ?s = "demo_store (demo_contract ''did:web:a'' Draft)"
  have run: "isl (UpdateContract demo_env 5 demo_update ?s) = False" by code_simp
  obtain s' where s': "UpdateContract demo_env 5 demo_update ?s = Inr s'"
    by (rule succeeds_obtain [OF run])
  have "acyclic (parent_edges (contracts s'))"
  proof (rule update_keeps_hierarchy_acyclic [OF demo_finite _ _ _ s'])
    show "acyclic (parent_edges (contracts ?s))" by (simp add: demo_no_edges acyclic_def)
    show "cmd_did demo_update \<noteq> ''''" by (simp add: demo_update_def update_cmd.defs command.defs demo_cmd_def)
    show "extractParentContractDID (Some d') = extractParentContractDID (Some d)"
      if "carry_bundle demo_env stored d = Some d'" for stored d d'
      using that by (simp add: demo_env_def)
  qed
  with s' show ?thesis by blast
qed

section \<open>The regeneration sweep and the request budget\<close>

definition demo_tick :: "int \<Rightarrow> sweep_tick" where
  "demo_tick now = \<lparr>tick_now = now, tick_contracts = [''c1''], tick_templates = [],
     tick_ok = (\<lambda>_ _. False), tick_done = now\<rparr>"

theorem sweep_attempts_bounded_witness:
  "\<exists>b l. retryPendingRegenerations (map demo_tick [0, 10000000000, 30000000000, 70000000000,
        150000000000, 320000000000, 640000000000]) (pace 5000000000 empty_budget) = (b, l)
     \<and> length (filter (\<lambda>a. fst a = ''contract'' \<and> fst (snd a) = ''c1'') l) = 5
     \<and> ''c1'' \<in> set (exhausted b ''contract'')"
proof -
  let ?r = "retryPendingRegenerations (map demo_tick [0, 10000000000, 30000000000, 70000000000,
        150000000000, 320000000000, 640000000000]) (pace 5000000000 empty_budget)"
  have l: "snd ?r = replicate 5 (''contract'', ''c1'', False)" by code_simp
  then have r: "?r = (fst ?r, replicate 5 (''contract'', ''c1'', False))"
    by (metis prod.collapse)
  have "nul_free ''contract''" by code_simp
  from sweep_attempts_bounded [OF r this, of "''c1''"] r show ?thesis
    by (intro exI [of _ "fst ?r"] exI [of _ "replicate 5 (''contract'', ''c1'', False)"])
       (simp add: regenerationRetryAttempts_def)
qed

theorem rate_limit_any_minute_witness:
  "in_span 0 (0 + minute_ns) (served_times id ''k'' \<lparr>limit = 2, windows = []\<rparr>
     [(''k'', 0), (''k'', 1), (''k'', 2), (''k'', 70000000000)]) \<le> 4"
  using rate_limit_any_minute [of "[(''k'', 0), (''k'', 1), (''k'', 2), (''k'', 70000000000)]" 0 id "''k''" 2]
  by simp


end
