(* ===== verification/Semantic_Bundle.thy ===== *)
theory Semantic_Bundle
  imports Contract_Document Did_Web
begin

text \<open>
  The Semantic Hub bundle a contract document is pinned to
  (\<open>backend/internal/base/validation/documentdata.go\<close> and \<open>shapesource.go\<close>): reading the
  anchors of hub-served shapes graphs, pinning the bundle when a document is
  produced, and carrying it over to a document a client sends back.  The context
  reference that is configured at run time is the argument \<open>currentRef\<close>.
\<close>

section \<open>Anchors\<close>

definition hubShapesAnchorPath :: string where
  "hubShapesAnchorPath = ''/semantic/shapes/''"

definition hubContextAnchorPath :: string where
  "hubContextAnchorPath = ''/semantic/context/''"

definition SchemaJSONLDContextV1 :: string where
  "SchemaJSONLDContextV1 = ''https://w3id.org/facis/dcs/context/v1''"

text \<open>What follows the first occurrence of a substring (\<open>strings.Index\<close>).\<close>

fun after_infix :: "string \<Rightarrow> string \<Rightarrow> string option" where
  "after_infix p [] = (if p = [] then Some [] else None)"
| "after_infix p (c # cs) =
     (if has_prefix (c # cs) p then Some (drop (length p) (c # cs)) else after_infix p cs)"

definition anchorShapesName :: "string \<Rightarrow> string option" where
  "anchorShapesName iri =
    (case after_infix hubShapesAnchorPath iri of
       None \<Rightarrow> None
     | Some rest \<Rightarrow>
         (case path_unescape (takeWhile (\<lambda>c. c \<notin> set ''?#'') rest) of
            None \<Rightarrow> None
          | Some decoded \<Rightarrow> if decoded = '''' then None else Some decoded))"

text \<open>The leftmost match of the pattern \<open>[?&]version=(\d+)\<close>: its digits.\<close>

fun version_digits :: "string \<Rightarrow> string option" where
  "version_digits [] = None"
| "version_digits (c # cs) =
     (if (c = CHR ''?'' \<or> c = CHR ''&'') \<and> has_prefix cs ''version=''
         \<and> takeWhile is_digit (drop 8 cs) \<noteq> ''''
      then Some (takeWhile is_digit (drop 8 cs)) else version_digits cs)"

definition decimal :: "string \<Rightarrow> nat" where
  "decimal ds = fold (\<lambda>c n. 10 * n + (of_char c - 48)) ds 0"

text \<open>A number that does not fit Go's \<open>int\<close> is a scan error, which counts as no version.\<close>

definition anchorVersion :: "string \<Rightarrow> nat" where
  "anchorVersion iri =
    (case version_digits iri of
       None \<Rightarrow> 0
     | Some ds \<Rightarrow> if int (decimal ds) < 2 ^ 63 then decimal ds else 0)"

definition anchorIRI :: "json \<Rightarrow> string" where
  "anchorIRI v = (case v of JStr s \<Rightarrow> s | JObj m \<Rightarrow> jstr (obj_get m ''@id'') | _ \<Rightarrow> '''')"

record shapes_declaration =
  decl_name :: string
  decl_version :: nat
  decl_iri :: string

fun collect_declarations :: "(string \<times> nat) list \<Rightarrow> json list \<Rightarrow> shapes_declaration list" where
  "collect_declarations seen [] = []"
| "collect_declarations seen (entry # entries) =
     (case anchorShapesName (anchorIRI entry) of
        None \<Rightarrow> collect_declarations seen entries
      | Some name \<Rightarrow>
          (let anchor = (name, anchorVersion (anchorIRI entry))
           in if anchor \<in> set seen then collect_declarations seen entries
              else \<lparr>decl_name = name, decl_version = snd anchor, decl_iri = anchorIRI entry\<rparr>
                     # collect_declarations (anchor # seen) entries))"

definition declaredShapesGraphDeclarations :: "json option \<Rightarrow> shapes_declaration list" where
  "declaredShapesGraphDeclarations v =
    (case v of
       None \<Rightarrow> []
     | Some (JArr entries) \<Rightarrow> collect_declarations [] entries
     | Some entry \<Rightarrow> collect_declarations [] [entry])"

section \<open>Pinning\<close>

definition declaredShapeLibraryAnchors :: "json option \<Rightarrow> string \<Rightarrow> string list \<Rightarrow> string list" where
  "declaredShapeLibraryAnchors declared canonicalShapesRef activeLibraryRefs =
    (case anchorShapesName canonicalShapesRef of
       None \<Rightarrow> []
     | Some canonicalName \<Rightarrow>
         (let bundleByName = map_of (rev (List.map_filter
                (\<lambda>ref. map_option (\<lambda>name. (name, ref)) (anchorShapesName ref)) activeLibraryRefs))
          in List.map_filter (\<lambda>d.
               if decl_name d = canonicalName then None
               else if decl_version d \<le> 0 then bundleByName (decl_name d)
               else Some (decl_iri d))
             (declaredShapesGraphDeclarations declared)))"

definition id_node :: "string \<Rightarrow> json" where
  "id_node iri = JObj [(''@id'', JStr iri)]"

fun pin_libraries :: "(string \<times> nat) list \<Rightarrow> string list \<Rightarrow> json list" where
  "pin_libraries pinned [] = []"
| "pin_libraries pinned (library # libraries) =
     (case anchorShapesName library of
        None \<Rightarrow> pin_libraries pinned libraries
      | Some name \<Rightarrow>
          (let anchor = (name, anchorVersion library)
           in if anchor \<in> set pinned then pin_libraries pinned libraries
              else id_node library # pin_libraries (anchor # pinned) libraries))"

definition envelope_anchors :: "string list \<Rightarrow> (string \<times> nat) list" where
  "envelope_anchors refs =
     List.map_filter (\<lambda>ref. map_option (\<lambda>name. (name, anchorVersion ref)) (anchorShapesName ref)) refs"

definition effectiveShapesBundle :: "string list \<Rightarrow> string list \<Rightarrow> json list" where
  "effectiveShapesBundle envelopeRefs libraries =
     map id_node envelopeRefs @ pin_libraries (envelope_anchors envelopeRefs) libraries"

datatype bundle_error = IncompleteBundle | BundleDecode | BundleNilMap

definition isHubContextAnchor :: "string \<Rightarrow> string \<Rightarrow> bool" where
  "isHubContextAnchor currentRef iri =
    (contains_str iri hubContextAnchorPath \<or> iri = SchemaJSONLDContextV1 \<or> iri = currentRef)"

definition context_entries :: "string \<Rightarrow> string \<Rightarrow> json option \<Rightarrow> json list" where
  "context_entries currentRef contextRef current =
    JStr contextRef #
    (case current of
       Some (JArr entries) \<Rightarrow>
         filter (\<lambda>entry. case entry of JStr iri \<Rightarrow> \<not> isHubContextAnchor currentRef iri | _ \<Rightarrow> True) entries
     | Some (JObj m) \<Rightarrow> [JObj m]
     | _ \<Rightarrow> [])"

definition PinSemanticBundle ::
  "string \<Rightarrow> json option \<Rightarrow> string \<Rightarrow> string \<Rightarrow> string list \<Rightarrow> string list \<Rightarrow> string
     \<Rightarrow> (bundle_error, json) result" where
  "PinSemanticBundle currentRef raw contextRef canonicalShapesRef envelopeShapeRefs
      activeLibraryRefs profileRef =
    (case raw of
       None \<Rightarrow> Inl IncompleteBundle
     | Some doc \<Rightarrow>
         require (\<not> (trim_space contextRef = '''' \<or> trim_space canonicalShapesRef = ''''
             \<or> envelopeShapeRefs = [] \<or> trim_space profileRef = '''')) IncompleteBundle
         (case decode_map doc of
            None \<Rightarrow> Inl BundleDecode
          | Some None \<Rightarrow> Inl BundleNilMap
          | Some (Some data) \<Rightarrow>
              (let data1 = obj_set data ''@context''
                     (JArr (context_entries currentRef contextRef (obj_get data ''@context'')));
                   libraries = declaredShapeLibraryAnchors (obj_get data1 ''sh:shapesGraph'')
                     canonicalShapesRef activeLibraryRefs;
                   data2 = obj_set data1 ''sh:shapesGraph''
                     (if libraries = [] then id_node canonicalShapesRef
                      else JArr (id_node canonicalShapesRef # map id_node libraries));
                   data3 = obj_set data2 ''dcs:effectiveShapes''
                     (JArr (effectiveShapesBundle envelopeShapeRefs libraries))
               in Inr (JObj (obj_set data3 ''dcterms:conformsTo'' (id_node profileRef))))))"

section \<open>Carrying\<close>

definition semanticBundleProperties :: "string list" where
  "semanticBundleProperties = [''sh:shapesGraph'', ''dcs:effectiveShapes'', ''dcterms:conformsTo'']"

definition decodeDocumentData :: "json option \<Rightarrow> json_map option" where
  "decodeDocumentData raw =
    (case raw of
       None \<Rightarrow> Some []
     | Some JNull \<Rightarrow> Some []
     | Some (JObj m) \<Rightarrow> Some m
     | Some _ \<Rightarrow> None)"

definition CarrySemanticBundle :: "json option \<Rightarrow> json \<Rightarrow> json option" where
  "CarrySemanticBundle stored replacement =
    Option.bind (decodeDocumentData stored) (\<lambda>pinned.
    Option.bind (decodeDocumentData (Some replacement)) (\<lambda>data.
      (let carried = filter (\<lambda>property. obj_get pinned property \<noteq> None) semanticBundleProperties
       in if carried = [] then Some replacement
          else Some (JObj (fold (\<lambda>property data. obj_set data property (the (obj_get pinned property)))
                 carried data)))))"

section \<open>Facts\<close>

lemma obj_get_fold_set:
  assumes "distinct ks"
  shows "obj_get (fold (\<lambda>k m. obj_set m k (f k)) ks m) k = (if k \<in> set ks then Some (f k) else obj_get m k)"
  using assms by (induction ks arbitrary: m) auto

lemma anchorIRI_id_node [simp]: "anchorIRI (id_node iri) = iri"
  by (simp add: anchorIRI_def id_node_def obj_get_def jstr_def)

lemma declarations_in:
  "d \<in> set (collect_declarations seen entries) \<Longrightarrow>
     \<exists>entry\<in>set entries. decl_iri d = anchorIRI entry \<and> anchorShapesName (anchorIRI entry) = Some (decl_name d)
       \<and> anchorVersion (anchorIRI entry) = decl_version d"
proof (induction entries arbitrary: seen)
  case (Cons entry entries)
  then show ?case
    by (cases "anchorShapesName (anchorIRI entry)") (auto simp: Let_def split: if_split_asm)
qed simp

text \<open>Every library with a name is in the result of the pinning loop, or was pinned before.\<close>

lemma pin_libraries_complete:
  assumes "library \<in> set libraries" "anchorShapesName library = Some n"
  shows "(n, anchorVersion library) \<in> set pinned
     \<or> (\<exists>ref. id_node ref \<in> set (pin_libraries pinned libraries)
          \<and> anchorShapesName ref = Some n \<and> anchorVersion ref = anchorVersion library)"
  using assms(1)
proof (induction libraries arbitrary: pinned)
  case (Cons l libraries)
  show ?case
  proof (cases "anchorShapesName l")
    case None
    with Cons assms(2) show ?thesis by auto
  next
    case (Some name)
    let ?a = "(name, anchorVersion l)"
    show ?thesis
    proof (cases "library = l")
      case True
      with Some assms(2) show ?thesis by (auto simp: Let_def)
    next
      case False
      with Cons have "library \<in> set libraries" by simp
      note IH = Cons.IH [OF this]
      show ?thesis
        using IH [of pinned] IH [of "?a # pinned"] Some by (auto simp: Let_def)
    qed
  qed
qed simp

lemma envelope_anchors_in:
  "(n, v) \<in> set (envelope_anchors refs) \<longleftrightarrow>
     (\<exists>ref\<in>set refs. anchorShapesName ref = Some n \<and> anchorVersion ref = v)"
  by (induction refs) (auto simp: envelope_anchors_def List.map_filter_simps split: option.splits)

lemma PinSemanticBundle_result:
  assumes "PinSemanticBundle currentRef raw contextRef canonical envelope active profile = Inr doc"
  obtains m libraries where "doc = JObj m"
    and "obj_get m ''sh:shapesGraph'' = Some (if libraries = [] then id_node canonical
        else JArr (id_node canonical # map id_node libraries))"
    and "obj_get m ''dcs:effectiveShapes'' = Some (JArr (effectiveShapesBundle envelope libraries))"
proof -
  obtain data where r: "raw = Some (JObj data)"
    using assms by (auto simp: PinSemanticBundle_def require_Inr_iff decode_map_def
        split: option.split_asm json.split_asm)
  show ?thesis
    by (rule that [of "case doc of JObj m \<Rightarrow> m"
          "declaredShapeLibraryAnchors (obj_get data ''sh:shapesGraph'') canonical active"])
       (use assms in \<open>auto simp: r PinSemanticBundle_def require_Inr_iff decode_map_def Let_def\<close>)
qed

section \<open>Properties\<close>

text \<open>
  A pinned document can be validated against what it declares.  Every shapes graph
  a pinned document declares is in its effective bundle, by the same name and at the
  same version, provided the canonical graph is part of the envelope, as the caller
  takes it from there.
\<close>

theorem pinned_graphs_are_effective:
  assumes "PinSemanticBundle currentRef raw contextRef canonical envelope active profile = Inr doc"
    and "canonical \<in> set envelope"
    and "d \<in> set (declaredShapesGraphDeclarations (doc_get (jmap doc) ''sh:shapesGraph''))"
  shows "\<exists>entry. entry \<in> set (jarr (doc_get (jmap doc) ''dcs:effectiveShapes''))
       \<and> anchorShapesName (anchorIRI entry) = Some (decl_name d)
       \<and> anchorVersion (anchorIRI entry) = decl_version d"
proof -
  obtain m libraries where doc: "doc = JObj m"
    and graphs: "obj_get m ''sh:shapesGraph'' = Some (if libraries = [] then id_node canonical
        else JArr (id_node canonical # map id_node libraries))"
    and eff: "obj_get m ''dcs:effectiveShapes'' = Some (JArr (effectiveShapesBundle envelope libraries))"
    by (rule PinSemanticBundle_result [OF assms(1)]) (rule that, assumption+)
  have "d \<in> set (collect_declarations [] (id_node canonical # map id_node libraries))"
    using assms(3)
    by (cases "libraries = []")
       (simp_all add: declaredShapesGraphDeclarations_def doc doc_get_def jmap_def graphs id_node_def)
  from declarations_in [OF this] obtain entry where
    entry: "entry \<in> set (id_node canonical # map id_node libraries)"
      "anchorShapesName (anchorIRI entry) = Some (decl_name d)" "anchorVersion (anchorIRI entry) = decl_version d"
    by blast
  then obtain ref where ref: "entry = id_node ref" "ref = canonical \<or> ref \<in> set libraries" by auto
  have "\<exists>x. id_node x \<in> set (effectiveShapesBundle envelope libraries)
      \<and> anchorShapesName x = Some (decl_name d) \<and> anchorVersion x = decl_version d"
    using ref entry assms(2) pin_libraries_complete [of ref libraries "decl_name d" "envelope_anchors envelope"]
    by (auto simp: effectiveShapesBundle_def envelope_anchors_in)
  then show ?thesis by (auto simp: doc doc_get_def jmap_def eff)
qed

text \<open>
  The pinned bundle survives a client's save.  Carrying the bundle over to a
  replacement document keeps every other property of the replacement, restores each of
  the three bundle properties the stored document has, and in particular leaves the
  reference to a parent contract alone.
\<close>

theorem carried_bundle:
  assumes "CarrySemanticBundle (Some (JObj stored)) (JObj data) = Some doc"
  shows "doc_get (jmap doc) k =
       (if k \<in> set semanticBundleProperties \<and> obj_get stored k \<noteq> None then obj_get stored k else obj_get data k)
     \<and> extractParentContractDID (Some doc) = extractParentContractDID (Some (JObj data))"
proof -
  let ?carried = "filter (\<lambda>p. obj_get stored p \<noteq> None) semanticBundleProperties"
  have d: "distinct ?carried" by (simp add: semanticBundleProperties_def)
  obtain m where m: "doc = JObj m" and get: "\<And>k. obj_get m k = (if k \<in> set ?carried then obj_get stored k else obj_get data k)"
  proof (cases "?carried = []")
    case True
    with assms have "doc = JObj data" by (simp add: CarrySemanticBundle_def decodeDocumentData_def)
    with True that [of data] show thesis by simp
  next
    case False
    with assms have "doc = JObj (fold (\<lambda>p m. obj_set m p (the (obj_get stored p))) ?carried data)"
      by (simp add: CarrySemanticBundle_def decodeDocumentData_def)
    then show thesis by (rule that) (simp only: obj_get_fold_set [OF d], auto)
  qed
  have "obj_get m ''dcs:parentContract'' = obj_get data ''dcs:parentContract''"
    by (simp add: get semanticBundleProperties_def)
  then show ?thesis
    using get by (auto simp: m doc_get_def jmap_def extractParentContractDID_def)
qed

end
