(* ===== verification/Creation.thy ===== *)
theory Creation
  imports Store_Frames Semantic_Bundle
begin

text \<open>
  How a contract comes into the table: \<open>command/create.go\<close> (from a registered template)
  and \<open>command/renew.go\<close> (a new term of an existing contract).  Reading the template and
  the hub's active bundle, deriving a document from a template and the configured
  URLs are fields of the record \<open>creation_params\<close>; normalisation is the one of the
  engine's environment.
\<close>

section \<open>The bundle of the hub\<close>

record effective_bundle =
  ContextVersion :: int
  ProfileVersion :: int
  Shapes :: "(string \<times> int) list"
  Libraries :: "(string \<times> int) list"

record bundle_refs =
  ref_context :: string
  ref_canonical :: string
  ref_shapes :: "string list"
  ref_libraries :: "string list"
  ref_profile :: string

definition int_text :: "int \<Rightarrow> string" where
  "int_text n = (if n < 0 then CHR ''-'' # dec (nat (- n)) else dec (nat n))"

definition AnchorURL :: "string \<Rightarrow> string \<Rightarrow> string \<Rightarrow> int \<Rightarrow> string" where
  "AnchorURL publicURL kind name version =
     trim_right_char (CHR ''/'') (trim_space publicURL) @ ''/semantic/'' @ kind @ ''/'' @ name
       @ ''?version='' @ int_text version"

datatype creation_error =
    Engine cwe_error
  | BundleFailed bundle_error
  | BundleIncomplete
  | CanonicalNotFirst
  | ShapeWithoutVersion
  | TemplateNotFound
  | DerivationFailed
  | NoEffectiveBundle
  | NotRenewable contract_state

fun shapeAnchors :: "string \<Rightarrow> (string \<times> int) list \<Rightarrow> (creation_error, string list) result" where
  "shapeAnchors url [] = Inr []"
| "shapeAnchors url ((name, version) # entries) =
     (if trim_space name = '''' \<or> version \<le> 0 then Inl ShapeWithoutVersion
      else bind_res (shapeAnchors url entries) (\<lambda>anchors.
             Inr (AnchorURL url ''shapes'' name version # anchors)))"

definition effectiveBundleRefs :: "string \<Rightarrow> effective_bundle \<Rightarrow> (creation_error, bundle_refs) result" where
  "effectiveBundleRefs url bundle =
    require (\<not> (ContextVersion bundle \<le> 0 \<or> ProfileVersion bundle \<le> 0 \<or> Shapes bundle = [])) BundleIncomplete
    (require (fst (hd (Shapes bundle)) = ''facis-dcs'' \<and> snd (hd (Shapes bundle)) > 0) CanonicalNotFirst
    (bind_res (shapeAnchors url (Shapes bundle)) (\<lambda>envelopeRefs.
     bind_res (shapeAnchors url (Libraries bundle)) (\<lambda>libraryRefs.
       Inr \<lparr>ref_context = AnchorURL url ''context'' ''facis-dcs'' (ContextVersion bundle),
            ref_canonical = hd envelopeRefs, ref_shapes = envelopeRefs, ref_libraries = libraryRefs,
            ref_profile = AnchorURL url ''profile'' ''facis.sla.basic'' (ProfileVersion bundle)\<rparr>))))"

section \<open>Tasks\<close>

definition initialContractVersion :: int where
  "initialContractVersion = 1"

definition createReviewAndApprovalTasks ::
  "env \<Rightarrow> int \<Rightarrow> string \<Rightarrow> string \<Rightarrow> responsible \<Rightarrow> store \<Rightarrow> store" where
  "createReviewAndApprovalTasks e now did createdBy resp s =
    fold (\<lambda>approver. ApprovalTask_Create (uuid e) now did approver AtOpen createdBy) (resp_approvers resp)
      (fold (\<lambda>reviewer. ReviewTask_Create (uuid e) now did reviewer RtOpen createdBy) (resp_reviewers resp) s)"

definition mint_all :: "env \<Rightarrow> int \<Rightarrow> string \<Rightarrow> string \<Rightarrow> string list \<Rightarrow> store \<Rightarrow> store" where
  "mint_all e now did createdBy negotiators s =
    fold (\<lambda>negotiator. mintNegotiationTask e now did negotiator createdBy initialContractVersion) negotiators s"

section \<open>Creation\<close>

record template_row =
  tmpl_data :: "json option"
  tmpl_version :: int
  tmpl_name :: "string option"
  tmpl_description :: "string option"

record creation_params =
  find_template :: "string \<Rightarrow> template_row option"
  derive_document :: "json option \<Rightarrow> string \<Rightarrow> int \<Rightarrow> json option option"
  active_bundle :: "effective_bundle option"
  public_url :: string
  context_ref :: string
  fmt_value :: "json option \<Rightarrow> string"
  abs_uri :: "string \<Rightarrow> bool"

record create_cmd =
  cr_did :: string
  cr_template_did :: string
  cr_created_by :: string
  cr_counterparty :: string
  cr_parties :: "string list"
  cr_originator_role :: string

definition lift_engine :: "(cwe_error, 'a) result \<Rightarrow> (creation_error, 'a) result" where
  "lift_engine m = (case m of Inl x \<Rightarrow> Inl (Engine x) | Inr x \<Rightarrow> Inr x)"

definition lift_bundle :: "(bundle_error, 'a) result \<Rightarrow> (creation_error, 'a) result" where
  "lift_bundle m = (case m of Inl x \<Rightarrow> Inl (BundleFailed x) | Inr x \<Rightarrow> Inr x)"

definition the_document :: "json option \<Rightarrow> json" where
  "the_document raw = (case raw of None \<Rightarrow> JNull | Some doc \<Rightarrow> doc)"

text \<open>The document of a new contract, up to the point where the parties are seeded.\<close>

definition create_document ::
  "env \<Rightarrow> creation_params \<Rightarrow> create_cmd \<Rightarrow> template_row \<Rightarrow> (creation_error, json) result" where
  "create_document e p cmd t =
    bind_res (case derive_document p (tmpl_data t) (cr_template_did cmd) (tmpl_version t) of
        None \<Rightarrow> Inl DerivationFailed | Some doc \<Rightarrow> Inr (the_document doc)) (\<lambda>derived.
    bind_res (lift_engine (of_option NormalizationFailed (normalize e derived (cr_did cmd) False))) (\<lambda>norm.
    bind_res (case active_bundle p of None \<Rightarrow> Inl NoEffectiveBundle | Some b \<Rightarrow> Inr b) (\<lambda>bundle.
    bind_res (effectiveBundleRefs (public_url p) bundle) (\<lambda>refs.
    bind_res (lift_bundle (PinSemanticBundle (context_ref p) (Some norm) (ref_context refs)
        (ref_canonical refs) (ref_shapes refs) (ref_libraries refs) (ref_profile refs))) (\<lambda>pinned.
    bind_res (if cr_originator_role cmd \<noteq> ''''
        then lift_engine (lift_doc (validateOriginatorRole (abs_uri p) pinned (cr_originator_role cmd)))
        else Inr ()) (\<lambda>_.
    bind_res (if cr_parties cmd \<noteq> []
        then lift_engine (lift_doc (attachContractParties (fmt_value p) pinned (cr_parties cmd)))
        else Inr pinned) (\<lambda>attached.
      lift_engine (lift_doc (resolvePendingTargets attached)))))))))"

text \<open>Seeding the parties; the document is replaced only when something was added.\<close>

definition seed_document :: "env \<Rightarrow> responsible \<Rightarrow> json \<Rightarrow> (creation_error, json) result" where
  "seed_document e resp doc =
    bind_res (lift_engine (lift_doc (SeedPartiesAndSignatureFields (digest8 e) doc (GetParties resp))))
      (\<lambda>(seeded, changed). Inr (if changed then seeded else doc))"

definition new_contract :: "string \<Rightarrow> string \<Rightarrow> int \<Rightarrow> string \<Rightarrow> json \<Rightarrow> string \<Rightarrow> int
    \<Rightarrow> string option \<Rightarrow> string option \<Rightarrow> responsible \<Rightarrow> contract" where
  "new_contract did origin createdAt createdBy doc template version name description resp =
    \<lparr>c_did = did, c_origin = origin, c_version = 1, c_state = Draft, c_created_by = createdBy,
     c_created_at = createdAt, c_updated_at = 0, c_content_updated_at = 0, c_start_date = None,
     c_exp_date = None, c_exp_policy = None, c_exp_notice_period = None, c_name = name,
     c_description = description, c_responsible = Some resp, c_data = Some doc,
     c_template_did = template, c_template_version = version, c_target_id = None,
     c_pdf = \<lparr>pdf_ipfs_cid = '''', pdf_renderer_version = '''', pdf_c2pa_state = '''',
       pdf_payload_hash = ''''\<rparr>\<rparr>"

definition Create :: "env \<Rightarrow> creation_params \<Rightarrow> int \<Rightarrow> create_cmd \<Rightarrow> store \<Rightarrow> (creation_error, store) result" where
  "Create e p now cmd s =
    bind_res (case find_template p (cr_template_did cmd) of
        None \<Rightarrow> Inl TemplateNotFound | Some t \<Rightarrow> Inr t) (\<lambda>t.
    bind_res (create_document e p cmd t) (\<lambda>resolved.
    bind_res (lift_engine (GetID e)) (\<lambda>localPeer.
    bind_res (if cr_originator_role cmd \<noteq> ''''
        then lift_engine (lift_doc (bindOriginatorParty resolved localPeer (cr_originator_role cmd) (cr_created_by cmd)))
        else Inr resolved) (\<lambda>bound.
    (let resp = \<lparr>resp_creator = localPeer, resp_approvers = [localPeer], resp_reviewers = [localPeer],
                 resp_negotiators = [localPeer], resp_counterparty = cr_counterparty cmd\<rparr>
     in bind_res (seed_document e resp bound) (\<lambda>doc.
        bind_res (lift_engine (Contract_Create now (new_contract (cr_did cmd) localPeer now (cr_created_by cmd)
            doc (cr_template_did cmd) (tmpl_version t) (tmpl_name t) (tmpl_description t) resp) s)) (\<lambda>s1.
        lift_engine (event_Create (CreateEvent (cr_did cmd) (cr_template_did cmd) (cr_created_by cmd))
          (mint_all e now (cr_did cmd) (cr_created_by cmd) (resp_negotiators resp)
            (createReviewAndApprovalTasks e now (cr_did cmd) (cr_created_by cmd) resp s1))))))))))"

section \<open>Renewal\<close>

text \<open>A contract must at least have been agreed before a new term of it makes sense.\<close>

definition renewableStates :: "contract_state list" where
  "renewableStates = [Approved, Signed, Active, Terminated, Expired]"

definition signatureAttributionPredicates :: "string list" where
  "signatureAttributionPredicates = [''dcs:hasSignatory'', ''dcs:hasPowerOfAttorney'', ''odrl:function'']"

definition unsign_node :: "json \<Rightarrow> json" where
  "unsign_node rawNode =
    (case rawNode of
       JObj node \<Rightarrow> JObj (fold AList.delete signatureAttributionPredicates node)
     | _ \<Rightarrow> rawNode)"

definition unsign_parties :: "json_map \<Rightarrow> json_map" where
  "unsign_parties doc =
    (case obj_get doc ''dcs:parties'' of
       Some (JArr nodes) \<Rightarrow> obj_set doc ''dcs:parties'' (JArr (map unsign_node nodes))
     | _ \<Rightarrow> doc)"

definition break_seal :: "json_map \<Rightarrow> json_map" where
  "break_seal doc =
    (case obj_get doc ''dcs:policies'' of
       Some (JObj policies) \<Rightarrow>
         if has_suffix (jstr (obj_get policies ''@type'')) ''Agreement''
         then obj_set doc ''dcs:policies'' (JObj (obj_set policies ''@type'' (JStr ''odrl:Offer'')))
         else doc
     | _ \<Rightarrow> doc)"

definition unsignRenewedDocument :: "json \<Rightarrow> (doc_error, json) result" where
  "unsignRenewedDocument raw =
    (case decode_map raw of
       None \<Rightarrow> Inl DocDecode
     | Some None \<Rightarrow> Inr JNull
     | Some (Some doc) \<Rightarrow> Inr (JObj (break_seal (unsign_parties doc))))"

definition renews_link :: "string \<Rightarrow> string \<Rightarrow> int \<Rightarrow> json" where
  "renews_link publicURL originalDID originalVersion =
    JObj [(''@id'', JStr (ResourceIRI publicURL ''contract'' originalDID)),
          (''dcs:version'', JNum (int_text originalVersion))]"

definition attachRenewsContractReference ::
  "string \<Rightarrow> json \<Rightarrow> string \<Rightarrow> int \<Rightarrow> (doc_error, json) result" where
  "attachRenewsContractReference publicURL raw originalDID originalVersion =
    (case decode_map raw of
       None \<Rightarrow> Inl DocDecode
     | Some doc \<Rightarrow> write_map doc ''dcs:renewsContract'' (renews_link publicURL originalDID originalVersion))"

record renew_cmd =
  rn_did :: string
  rn_original_did :: string
  rn_renewed_by :: string
  rn_updated_at :: int
  rn_start_date :: "int option"
  rn_exp_date :: "int option"
  rn_exp_policy :: "string option"
  rn_exp_notice_period :: "int option"

definition or_else :: "'a option \<Rightarrow> 'a option \<Rightarrow> 'a option" where
  "or_else new old = (case new of None \<Rightarrow> old | Some x \<Rightarrow> Some x)"

text \<open>
  The zero value of \<open>time.Time\<close>, midnight of 1 January of the year 1, in nanoseconds of
  the Unix epoch: what \<open>CreatedAt\<close> holds when nobody sets it.
\<close>

definition go_zero_time :: int where
  "go_zero_time = - 62135596800 * 10 ^ 9"

definition renewal_responsible :: "string \<Rightarrow> responsible option \<Rightarrow> responsible" where
  "renewal_responsible localPeer original =
    (case original of
       Some r \<Rightarrow> r\<lparr>resp_creator := localPeer\<rparr>
     | None \<Rightarrow> \<lparr>resp_creator = localPeer, resp_approvers = [], resp_reviewers = [],
                resp_negotiators = [], resp_counterparty = ''''\<rparr>)"

definition renewal_document ::
  "env \<Rightarrow> string \<Rightarrow> renew_cmd \<Rightarrow> contract \<Rightarrow> (creation_error, json) result" where
  "renewal_document e publicURL cmd original =
    bind_res (lift_engine (of_option NormalizationFailed
      (normalize e (the_document (c_data original)) (rn_did cmd) False))) (\<lambda>norm.
    bind_res (lift_engine (lift_doc (unsignRenewedDocument norm))) (\<lambda>unsigned.
      lift_engine (lift_doc
        (attachRenewsContractReference publicURL unsigned (rn_original_did cmd) (c_version original)))))"

text \<open>
  The term of the new instance follows in a second statement, which the column type
  of the expiration policy checks.
\<close>

definition carry_term :: "int \<Rightarrow> renew_cmd \<Rightarrow> contract \<Rightarrow> store \<Rightarrow> (cwe_error, store) result" where
  "carry_term now cmd original s =
    (let start = or_else (rn_start_date cmd) (c_start_date original);
         expiry = or_else (rn_exp_date cmd) (c_exp_date original);
         policy = or_else (rn_exp_policy cmd) (c_exp_policy original);
         notice = or_else (rn_exp_notice_period cmd) (c_exp_notice_period original)
     in if start = None \<and> expiry = None \<and> policy = None \<and> notice = None then Inr s
        else require (case policy of None \<Rightarrow> True
                      | Some p \<Rightarrow> p \<in> set (map expiration_policy_string expiration_policy_valid))
               UnknownExpirationPolicy
             (Update now ((no_update (rn_did cmd))\<lparr>u_start_date := start, u_exp_date := expiry,
                u_exp_policy := policy, u_exp_notice_period := notice\<rparr>) s))"

definition Renew ::
  "env \<Rightarrow> creation_params \<Rightarrow> int \<Rightarrow> renew_cmd \<Rightarrow> store \<Rightarrow> (creation_error, int \<times> store) result" where
  "Renew e p now cmd s =
    bind_res (lift_engine (ReadDataByDID now (rn_original_did cmd) s)) (\<lambda>original.
    require (\<not> unix_seconds (rn_updated_at cmd) < unix_seconds (c_updated_at original)) (Engine (UpdatedElsewhere False))
    (require (c_state original \<in> set renewableStates) (NotRenewable (c_state original))
    (bind_res (lift_engine (GetID e)) (\<lambda>localPeer.
     bind_res (renewal_document e (public_url p) cmd original) (\<lambda>linked.
     let resp = renewal_responsible localPeer (c_responsible original)
     in bind_res (seed_document e resp linked) (\<lambda>doc.
        bind_res (lift_engine (Contract_Create now (new_contract (rn_did cmd) localPeer go_zero_time
            (rn_renewed_by cmd) doc (c_template_did original) (c_template_version original)
            (c_name original) (c_description original) resp) s)) (\<lambda>s1.
        bind_res (lift_engine (carry_term now cmd original s1)) (\<lambda>s2.
        bind_res (lift_engine (event_Create
            (RenewEvent (rn_did cmd) (rn_renewed_by cmd) (rn_original_did cmd) (c_version original))
            (mint_all e now (rn_did cmd) (rn_renewed_by cmd) (resp_negotiators resp)
              (createReviewAndApprovalTasks e now (rn_did cmd) (rn_renewed_by cmd) resp s2)))) (\<lambda>s3.
          Inr (c_version original, s3))))))))))"

section \<open>The task fan-out\<close>

lemma review_fanout:
  "ReviewTask_TaskExistsInState did' r st
     (fold (\<lambda>reviewer. ReviewTask_Create u now did reviewer RtOpen b) rs s) \<longleftrightarrow>
   ReviewTask_TaskExistsInState did' r st s \<or> did' = did \<and> r \<in> set rs \<and> st = RtOpen"
  by (induction rs arbitrary: s)
     (auto simp: ReviewTask_TaskExistsInState_def ReviewTask_Create_def task_of_def)

lemma approval_fanout:
  "ApprovalTask_TaskExistsInState did' a st
     (fold (\<lambda>approver. ApprovalTask_Create u now did approver AtOpen b) as s) \<longleftrightarrow>
   ApprovalTask_TaskExistsInState did' a st s \<or> did' = did \<and> a \<in> set as \<and> st = AtOpen"
  by (induction as arbitrary: s)
     (auto simp: ApprovalTask_TaskExistsInState_def ApprovalTask_Create_def task_of_def)

lemma negotiator_fanout:
  "IsValidNegotiator did' n v (mint_all e now did b ns s) \<longleftrightarrow>
   IsValidNegotiator did' n v s \<or> did' = did \<and> n \<in> set ns \<and> v = initialContractVersion"
  unfolding mint_all_def
  by (induction ns arbitrary: s)
     (auto simp: IsValidNegotiator_def mintNegotiationTask_def NegotiationTask_Create_def nt_of_def list_ex_iff)

lemma review_frame:
  "approval_tasks (fold (\<lambda>reviewer. ReviewTask_Create u now did reviewer RtOpen b) rs s) = approval_tasks s"
  "negotiation_tasks (fold (\<lambda>reviewer. ReviewTask_Create u now did reviewer RtOpen b) rs s) = negotiation_tasks s"
  "contracts (fold (\<lambda>reviewer. ReviewTask_Create u now did reviewer RtOpen b) rs s) = contracts s"
  "outbox (fold (\<lambda>reviewer. ReviewTask_Create u now did reviewer RtOpen b) rs s) = outbox s"
  by (induction rs arbitrary: s) (simp_all add: ReviewTask_Create_def)

lemma approval_frame:
  "review_tasks (fold (\<lambda>approver. ApprovalTask_Create u now did approver AtOpen b) as s) = review_tasks s"
  "negotiation_tasks (fold (\<lambda>approver. ApprovalTask_Create u now did approver AtOpen b) as s) = negotiation_tasks s"
  "contracts (fold (\<lambda>approver. ApprovalTask_Create u now did approver AtOpen b) as s) = contracts s"
  "outbox (fold (\<lambda>approver. ApprovalTask_Create u now did approver AtOpen b) as s) = outbox s"
  by (induction as arbitrary: s) (simp_all add: ApprovalTask_Create_def)

lemma mint_all_frame [frame_simps, simp]:
  "contracts (mint_all e now did b ns s) = contracts s"
  "outbox (mint_all e now did b ns s) = outbox s"
  "review_tasks (mint_all e now did b ns s) = review_tasks s"
  "approval_tasks (mint_all e now did b ns s) = approval_tasks s"
  unfolding mint_all_def
  by (induction ns arbitrary: s) (simp_all add: mintNegotiationTask_def NegotiationTask_Create_def)

lemma task_fanout_frame [frame_simps, simp]:
  "contracts (createReviewAndApprovalTasks e now did b resp s) = contracts s"
  "outbox (createReviewAndApprovalTasks e now did b resp s) = outbox s"
  "negotiation_tasks (createReviewAndApprovalTasks e now did b resp s) = negotiation_tasks s"
  by (simp_all add: createReviewAndApprovalTasks_def review_frame approval_frame)

lemma task_fanout:
  "ReviewTask_TaskExistsInState did' r rst (createReviewAndApprovalTasks e now did b resp s) \<longleftrightarrow>
     ReviewTask_TaskExistsInState did' r rst s \<or> did' = did \<and> r \<in> set (resp_reviewers resp) \<and> rst = RtOpen"
  "ApprovalTask_TaskExistsInState did' a ast (createReviewAndApprovalTasks e now did b resp s) \<longleftrightarrow>
     ApprovalTask_TaskExistsInState did' a ast s \<or> did' = did \<and> a \<in> set (resp_approvers resp) \<and> ast = AtOpen"
proof -
  let ?r = "fold (\<lambda>reviewer. ReviewTask_Create (uuid e) now did reviewer RtOpen b) (resp_reviewers resp) s"
  have "ReviewTask_TaskExistsInState did' r rst (createReviewAndApprovalTasks e now did b resp s)
      \<longleftrightarrow> ReviewTask_TaskExistsInState did' r rst ?r"
    by (simp add: ReviewTask_TaskExistsInState_def createReviewAndApprovalTasks_def approval_frame)
  then show "ReviewTask_TaskExistsInState did' r rst (createReviewAndApprovalTasks e now did b resp s) \<longleftrightarrow>
     ReviewTask_TaskExistsInState did' r rst s \<or> did' = did \<and> r \<in> set (resp_reviewers resp) \<and> rst = RtOpen"
    by (simp add: review_fanout)
  have "ApprovalTask_TaskExistsInState did' a ast ?r \<longleftrightarrow> ApprovalTask_TaskExistsInState did' a ast s"
    by (simp add: ApprovalTask_TaskExistsInState_def review_frame)
  then show "ApprovalTask_TaskExistsInState did' a ast (createReviewAndApprovalTasks e now did b resp s) \<longleftrightarrow>
     ApprovalTask_TaskExistsInState did' a ast s \<or> did' = did \<and> a \<in> set (resp_approvers resp) \<and> ast = AtOpen"
    by (simp add: createReviewAndApprovalTasks_def approval_fanout)
qed

text \<open>
  The rows the fan-out appends, and that it appends nothing else.
\<close>

lemma review_rows:
  "\<exists>R. fold (\<lambda>reviewer. ReviewTask_Create u now did reviewer RtOpen b) rs s
       = s\<lparr>review_tasks := review_tasks s @ R, next_uuid := next_uuid s + length rs\<rparr>
     \<and> map (\<lambda>t. (task_did t, task_owner t, task_state t)) R = map (\<lambda>r. (did, r, RtOpen)) rs"
proof (induction rs arbitrary: s)
  case (Cons r rs)
  let ?t = "\<lparr>task_id = u (next_uuid s), task_did = did, task_state = RtOpen, task_owner = r,
          task_created_by = b, task_created_at = now\<rparr>"
  let ?s = "s\<lparr>review_tasks := review_tasks s @ [?t], next_uuid := next_uuid s + 1\<rparr>"
  have step: "ReviewTask_Create u now did r RtOpen b s = ?s" by (simp add: ReviewTask_Create_def)
  obtain R where "fold (\<lambda>reviewer. ReviewTask_Create u now did reviewer RtOpen b) rs ?s
       = ?s\<lparr>review_tasks := review_tasks ?s @ R, next_uuid := next_uuid ?s + length rs\<rparr>"
      "map (\<lambda>t. (task_did t, task_owner t, task_state t)) R = map (\<lambda>r. (did, r, RtOpen)) rs"
    using Cons by blast
  then show ?case by (intro exI [of _ "?t # R"]) (simp add: step)
qed simp

lemma approval_rows:
  "\<exists>A. fold (\<lambda>approver. ApprovalTask_Create u now did approver AtOpen b) rs s
       = s\<lparr>approval_tasks := approval_tasks s @ A, next_uuid := next_uuid s + length rs\<rparr>
     \<and> map (\<lambda>t. (task_did t, task_owner t, task_state t)) A = map (\<lambda>r. (did, r, AtOpen)) rs"
proof (induction rs arbitrary: s)
  case (Cons r rs)
  let ?t = "\<lparr>task_id = u (next_uuid s), task_did = did, task_state = AtOpen, task_owner = r,
          task_created_by = b, task_created_at = now\<rparr>"
  let ?s = "s\<lparr>approval_tasks := approval_tasks s @ [?t], next_uuid := next_uuid s + 1\<rparr>"
  have step: "ApprovalTask_Create u now did r AtOpen b s = ?s" by (simp add: ApprovalTask_Create_def)
  obtain A where "fold (\<lambda>approver. ApprovalTask_Create u now did approver AtOpen b) rs ?s
       = ?s\<lparr>approval_tasks := approval_tasks ?s @ A, next_uuid := next_uuid ?s + length rs\<rparr>"
      "map (\<lambda>t. (task_did t, task_owner t, task_state t)) A = map (\<lambda>r. (did, r, AtOpen)) rs"
    using Cons by blast
  then show ?case by (intro exI [of _ "?t # A"]) (simp add: step)
qed simp

definition open_seats :: "string \<Rightarrow> string list \<Rightarrow> store \<Rightarrow> negotiation_task list \<Rightarrow> bool" where
  "open_seats did ns s N =
    (distinct (map nt_negotiator N)
     \<and> (\<forall>t\<in>set N. nt_did t = did \<and> nt_version t = initialContractVersion \<and> nt_state t = NtOpen)
     \<and> nt_negotiator ` set N = {n \<in> set ns. \<not> IsValidNegotiator did n initialContractVersion s})"

lemma seat_taken: "IsValidNegotiator did n initialContractVersion s \<Longrightarrow>
    mintNegotiationTask e now did n b initialContractVersion s = s"
  by (simp add: mintNegotiationTask_def NegotiationTask_Create_def IsValidNegotiator_def)

lemma seat_minted: "\<not> IsValidNegotiator did n initialContractVersion s \<Longrightarrow>
    mintNegotiationTask e now did n b initialContractVersion s
      = s\<lparr>negotiation_tasks := negotiation_tasks s @
            [\<lparr>nt_id = uuid e (next_uuid s), nt_did = did, nt_version = initialContractVersion, nt_state = NtOpen,
              nt_negotiator = n, nt_created_by = b, nt_created_at = now\<rparr>], next_uuid := next_uuid s + 1\<rparr>"
  by (simp add: mintNegotiationTask_def NegotiationTask_Create_def IsValidNegotiator_def)

lemma seat_rows:
  "\<exists>N. mint_all e now did b ns s
       = s\<lparr>negotiation_tasks := negotiation_tasks s @ N, next_uuid := next_uuid s + length N\<rparr>
     \<and> open_seats did ns s N"
proof (induction ns arbitrary: s)
  case Nil
  show ?case by (simp add: mint_all_def open_seats_def)
next
  case (Cons n ns)
  have step: "mint_all e now did b (n # ns) s
      = mint_all e now did b ns (mintNegotiationTask e now did n b initialContractVersion s)" by (simp add: mint_all_def)
  show ?case
  proof (cases "IsValidNegotiator did n initialContractVersion s")
    case True
    with Cons [of s] show ?thesis unfolding step seat_taken [OF True] by (auto simp: open_seats_def)
  next
    case False
    let ?t = "\<lparr>nt_id = uuid e (next_uuid s), nt_did = did, nt_version = initialContractVersion, nt_state = NtOpen,
              nt_negotiator = n, nt_created_by = b, nt_created_at = now\<rparr>"
    let ?s = "s\<lparr>negotiation_tasks := negotiation_tasks s @ [?t], next_uuid := next_uuid s + 1\<rparr>"
    have seats: "IsValidNegotiator did x initialContractVersion ?s
        \<longleftrightarrow> IsValidNegotiator did x initialContractVersion s \<or> x = n" for x
      by (auto simp: IsValidNegotiator_def nt_of_def)
    obtain N where N: "mint_all e now did b ns ?s
         = ?s\<lparr>negotiation_tasks := negotiation_tasks ?s @ N, next_uuid := next_uuid ?s + length N\<rparr>"
        "open_seats did ns ?s N" using Cons by blast
    have "open_seats did (n # ns) s (?t # N)"
      using N(2) False unfolding open_seats_def seats by auto
    moreover have "mint_all e now did b (n # ns) s
        = s\<lparr>negotiation_tasks := negotiation_tasks s @ ?t # N, next_uuid := next_uuid s + length (?t # N)\<rparr>"
      unfolding step seat_minted [OF False] N(1) by simp
    ultimately show ?thesis by blast
  qed
qed

text \<open>
  What both commands promise of the tables: one new contract at version 1 in draft,
  nothing else changed in the contract table, one open task appended for each responsible
  reviewer and approver, one open seat in the first round for every negotiator that has
  none, one event; and every other table (history, change requests, decisions, drafts,
  settlements, withdrawals, publications) is the one before.
\<close>

definition instance_opened :: "string \<Rightarrow> responsible \<Rightarrow> json \<Rightarrow> cwe_event \<Rightarrow> store \<Rightarrow> store \<Rightarrow> bool" where
  "instance_opened did resp doc evt s s' =
    (contracts s did = None
     \<and> (\<exists>c. contracts s' did = Some c \<and> c_did c = did \<and> c_state c = Draft \<and> c_version c = 1
           \<and> c_origin c = resp_creator resp \<and> c_responsible c = Some resp \<and> c_data c = Some doc
           \<and> c_pdf c = \<lparr>pdf_ipfs_cid = '''', pdf_renderer_version = '''', pdf_c2pa_state = '''',
                        pdf_payload_hash = ''''\<rparr>)
     \<and> (\<forall>d. d \<noteq> did \<longrightarrow> contracts s' d = contracts s d)
     \<and> (\<exists>R A N. s' = s\<lparr>contracts := contracts s', review_tasks := review_tasks s @ R,
             approval_tasks := approval_tasks s @ A, negotiation_tasks := negotiation_tasks s @ N,
             outbox := outbox s @ [evt], next_uuid := next_uuid s'\<rparr>
         \<and> map (\<lambda>t. (task_did t, task_owner t, task_state t)) R = map (\<lambda>r. (did, r, RtOpen)) (resp_reviewers resp)
         \<and> map (\<lambda>t. (task_did t, task_owner t, task_state t)) A = map (\<lambda>r. (did, r, AtOpen)) (resp_approvers resp)
         \<and> open_seats did (resp_negotiators resp) s N)
     \<and> (\<forall>d r st. ReviewTask_TaskExistsInState d r st s' \<longleftrightarrow> ReviewTask_TaskExistsInState d r st s
           \<or> d = did \<and> r \<in> set (resp_reviewers resp) \<and> st = RtOpen)
     \<and> (\<forall>d a st. ApprovalTask_TaskExistsInState d a st s' \<longleftrightarrow> ApprovalTask_TaskExistsInState d a st s
           \<or> d = did \<and> a \<in> set (resp_approvers resp) \<and> st = AtOpen)
     \<and> (\<forall>d n v. IsValidNegotiator d n v s' \<longleftrightarrow> IsValidNegotiator d n v s
           \<or> d = did \<and> n \<in> set (resp_negotiators resp) \<and> v = initialContractVersion)
     \<and> outbox s' = outbox s @ [evt])"

lemma opened_rows:
  assumes "s2 = s\<lparr>contracts := contracts s2\<rparr>"
    and "s' = (mint_all e now did b (resp_negotiators resp) (createReviewAndApprovalTasks e now did b resp s2))
        \<lparr>outbox := outbox (mint_all e now did b (resp_negotiators resp)
            (createReviewAndApprovalTasks e now did b resp s2)) @ [evt]\<rparr>"
  shows "\<exists>R A N. s' = s\<lparr>contracts := contracts s', review_tasks := review_tasks s @ R,
             approval_tasks := approval_tasks s @ A, negotiation_tasks := negotiation_tasks s @ N,
             outbox := outbox s @ [evt], next_uuid := next_uuid s'\<rparr>
         \<and> map (\<lambda>t. (task_did t, task_owner t, task_state t)) R = map (\<lambda>r. (did, r, RtOpen)) (resp_reviewers resp)
         \<and> map (\<lambda>t. (task_did t, task_owner t, task_state t)) A = map (\<lambda>r. (did, r, AtOpen)) (resp_approvers resp)
         \<and> open_seats did (resp_negotiators resp) s N"
proof -
  obtain R where R: "fold (\<lambda>reviewer. ReviewTask_Create (uuid e) now did reviewer RtOpen b) (resp_reviewers resp) s2
       = s2\<lparr>review_tasks := review_tasks s2 @ R, next_uuid := next_uuid s2 + length (resp_reviewers resp)\<rparr>"
      "map (\<lambda>t. (task_did t, task_owner t, task_state t)) R = map (\<lambda>r. (did, r, RtOpen)) (resp_reviewers resp)"
    using review_rows by blast
  let ?r = "s2\<lparr>review_tasks := review_tasks s2 @ R, next_uuid := next_uuid s2 + length (resp_reviewers resp)\<rparr>"
  obtain A where A: "fold (\<lambda>approver. ApprovalTask_Create (uuid e) now did approver AtOpen b) (resp_approvers resp) ?r
       = ?r\<lparr>approval_tasks := approval_tasks ?r @ A, next_uuid := next_uuid ?r + length (resp_approvers resp)\<rparr>"
      "map (\<lambda>t. (task_did t, task_owner t, task_state t)) A = map (\<lambda>r. (did, r, AtOpen)) (resp_approvers resp)"
    using approval_rows by blast
  let ?t = "createReviewAndApprovalTasks e now did b resp s2"
  have t: "?t = ?r\<lparr>approval_tasks := approval_tasks ?r @ A, next_uuid := next_uuid ?r + length (resp_approvers resp)\<rparr>"
    unfolding createReviewAndApprovalTasks_def R(1) A(1) ..
  obtain N where N: "mint_all e now did b (resp_negotiators resp) ?t
       = ?t\<lparr>negotiation_tasks := negotiation_tasks ?t @ N, next_uuid := next_uuid ?t + length N\<rparr>"
      "open_seats did (resp_negotiators resp) ?t N" using seat_rows by blast
  have nt: "negotiation_tasks s2 = negotiation_tasks s" by (subst assms(1)) simp
  have "open_seats did (resp_negotiators resp) s N"
    using N(2) by (simp add: open_seats_def IsValidNegotiator_def nt)
  moreover have "s' = s\<lparr>contracts := contracts s', review_tasks := review_tasks s @ R,
             approval_tasks := approval_tasks s @ A, negotiation_tasks := negotiation_tasks s @ N,
             outbox := outbox s @ [evt], next_uuid := next_uuid s'\<rparr>"
  proof -
    obtain cs where s2: "s2 = s\<lparr>contracts := cs\<rparr>" using assms(1) ..
    show ?thesis using assms(2) unfolding N(1) unfolding t by (simp add: s2)
  qed
  ultimately show ?thesis using R(2) A(2) by blast
qed

lemma instance_openedI:
  assumes c: "contracts s did = None" "contracts s2 did = Some c"
      "c_did c = did" "c_state c = Draft" "c_version c = 1"
      "c_origin c = resp_creator resp" "c_responsible c = Some resp" "c_data c = Some doc"
      "c_pdf c = \<lparr>pdf_ipfs_cid = '''', pdf_renderer_version = '''', pdf_c2pa_state = '''', pdf_payload_hash = ''''\<rparr>"
    and others: "\<And>d. d \<noteq> did \<Longrightarrow> contracts s2 d = contracts s d"
    and only: "s2 = s\<lparr>contracts := contracts s2\<rparr>"
    and evt: "event_Create evt (mint_all e now did b (resp_negotiators resp)
        (createReviewAndApprovalTasks e now did b resp s2)) = Inr s'"
  shows "instance_opened did resp doc evt s s'"
proof -
  have frame: "review_tasks s2 = review_tasks s" "approval_tasks s2 = approval_tasks s"
      "negotiation_tasks s2 = negotiation_tasks s" "outbox s2 = outbox s"
    by (subst only, simp)+
  let ?t = "createReviewAndApprovalTasks e now did b resp s2"
  let ?m = "mint_all e now did b (resp_negotiators resp) ?t"
  have s': "s' = ?m\<lparr>outbox := outbox ?m @ [evt]\<rparr>"
    using evt by (simp add: event_Create_def split: if_split_asm)
  have r: "ReviewTask_TaskExistsInState d r st s' \<longleftrightarrow> ReviewTask_TaskExistsInState d r st ?t" for d r st
    by (simp add: s' ReviewTask_TaskExistsInState_def)
  have a: "ApprovalTask_TaskExistsInState d r st s' \<longleftrightarrow> ApprovalTask_TaskExistsInState d r st ?t" for d r st
    by (simp add: s' ApprovalTask_TaskExistsInState_def)
  have n: "IsValidNegotiator d r v s' \<longleftrightarrow> IsValidNegotiator d r v ?m" for d r v
    by (simp add: s' IsValidNegotiator_def)
  have base: "ReviewTask_TaskExistsInState d r st s2 \<longleftrightarrow> ReviewTask_TaskExistsInState d r st s"
    "ApprovalTask_TaskExistsInState d r ast s2 \<longleftrightarrow> ApprovalTask_TaskExistsInState d r ast s"
    "IsValidNegotiator d r v ?t \<longleftrightarrow> IsValidNegotiator d r v s" for d r st ast v
    by (simp_all add: ReviewTask_TaskExistsInState_def ApprovalTask_TaskExistsInState_def
        IsValidNegotiator_def frame)
  have rows: "\<exists>R A N. s' = s\<lparr>contracts := contracts s', review_tasks := review_tasks s @ R,
             approval_tasks := approval_tasks s @ A, negotiation_tasks := negotiation_tasks s @ N,
             outbox := outbox s @ [evt], next_uuid := next_uuid s'\<rparr>
         \<and> map (\<lambda>t. (task_did t, task_owner t, task_state t)) R = map (\<lambda>r. (did, r, RtOpen)) (resp_reviewers resp)
         \<and> map (\<lambda>t. (task_did t, task_owner t, task_state t)) A = map (\<lambda>r. (did, r, AtOpen)) (resp_approvers resp)
         \<and> open_seats did (resp_negotiators resp) s N"
    by (rule opened_rows [OF only s'])
  show ?thesis
    unfolding instance_opened_def r a n task_fanout negotiator_fanout base
    using c others frame rows by (simp add: s')
qed

lemma Contract_Create_Inr:
  "Contract_Create now c s = Inr s' \<longleftrightarrow> c_did c \<noteq> '''' \<and> contracts s (c_did c) = None
     \<and> s' = s\<lparr>contracts := (contracts s)(c_did c \<mapsto>
         c\<lparr>c_version := 1, c_updated_at := now, c_content_updated_at := now,
           c_start_date := None, c_exp_date := None, c_exp_policy := None,
           c_exp_notice_period := None, c_target_id := None,
           c_pdf := \<lparr>pdf_ipfs_cid = '''', pdf_renderer_version = '''', pdf_c2pa_state = '''',
             pdf_payload_hash = ''''\<rparr>\<rparr>)\<rparr>"
  by (auto simp: Contract_Create_def require_Inr_iff split: option.splits)

lemma lift_engine_Inr [simp]: "lift_engine m = Inr x \<longleftrightarrow> m = Inr x"
  by (auto simp: lift_engine_def split: sum.splits)

lemma lift_bundle_Inr [simp]: "lift_bundle m = Inr x \<longleftrightarrow> m = Inr x"
  by (auto simp: lift_bundle_def split: sum.splits)

section \<open>The documents\<close>

lemma set_GetParties: "set (GetParties r) = {resp_creator r, resp_counterparty r} - {''''}"
  by (auto simp: GetParties_def)

lemma write_map_get: "write_map (jmap raw) k v = Inr d \<Longrightarrow> k' \<noteq> k \<Longrightarrow> doc_get (jmap d) k' = doc_get (jmap raw) k'"
  by (auto simp: write_map_def jmap_def doc_get_def split: option.splits json.splits)

lemma decode_map_jmap: "decode_map raw = Some doc \<Longrightarrow> doc = jmap raw"
  by (auto simp: decode_map_def jmap_def split: json.splits)

lemma SeedContractParties_get:
  assumes "SeedContractParties raw dids = Inr (d, c)" "k \<noteq> ''dcs:parties''"
  shows "doc_get (jmap d) k = doc_get (jmap raw) k"
  using assms write_map_get
  by (auto simp: SeedContractParties_def Let_def bind_res_Inr_iff dest!: decode_map_jmap
      split: option.splits if_splits)

lemma SeedSignatureFields_get:
  assumes "SeedSignatureFields h raw dids = Inr (d, c)" "k \<noteq> ''dcs:signatureFields''"
  shows "doc_get (jmap d) k = doc_get (jmap raw) k"
  using assms write_map_get
  by (auto simp: SeedSignatureFields_def Let_def bind_res_Inr_iff dest!: decode_map_jmap
      split: option.splits if_splits)

lemma seed_document_result:
  assumes "seed_document e resp raw = Inr d"
  obtains added where "doc_parties d = doc_parties raw @ map party_node added"
    and "set (GetParties resp) \<subseteq> set (declared_iris (doc_parties d))"
    and "\<And>k. k \<noteq> ''dcs:parties'' \<Longrightarrow> k \<noteq> ''dcs:signatureFields'' \<Longrightarrow> doc_get (jmap d) k = doc_get (jmap raw) k"
proof -
  obtain d2 c where run: "SeedPartiesAndSignatureFields (digest8 e) raw (GetParties resp) = Inr (d2, c)"
      and dc: "d = (if c then d2 else raw)"
    using assms by (auto simp: seed_document_def bind_res_Inr_iff)
  obtain d1 c1 c2 where p: "SeedContractParties raw (GetParties resp) = Inr (d1, c1)"
      and f: "SeedSignatureFields (digest8 e) d1 (GetParties resp) = Inr (d2, c2)"
      and d: "d = (if c1 \<or> c2 then d2 else raw)"
    using run by (auto simp: dc SeedPartiesAndSignatureFields_def bind_res_Inr_iff)
  obtain added where a: "doc_parties d1 = doc_parties raw @ map party_node added"
      "set added = {did \<in> set (GetParties resp). did \<noteq> '''' \<and> did \<notin> set (declared_iris (doc_parties raw))}"
      "\<not> c1 \<Longrightarrow> d1 = raw"
    by (rule SeedContractParties_spec [OF p]) (rule that, assumption+)
  have fl: "doc_parties d2 = doc_parties d1" "\<not> c2 \<Longrightarrow> d2 = d1"
    by (rule SeedSignatureFields_spec [OF f], simp)+
  have eq: "d = d2" using a(3) fl(2) by (auto simp: d)
  have parties: "doc_parties d = doc_parties raw @ map party_node added" unfolding eq fl(1) a(1) ..
  have "set (declared_iris (map party_node added)) = set added"
    using a(2) by (force simp: declared_iris_def)
  moreover have "'''' \<notin> set (GetParties resp)" by (simp add: set_GetParties)
  ultimately have "set (GetParties resp) \<subseteq> set (declared_iris (doc_parties d))"
    unfolding parties using a(2) by auto
  moreover have "doc_get (jmap d) k = doc_get (jmap raw) k"
    if "k \<noteq> ''dcs:parties''" "k \<noteq> ''dcs:signatureFields''" for k
    unfolding eq using SeedSignatureFields_get [OF f that(2)] SeedContractParties_get [OF p that(1)] by simp
  ultimately show thesis using that parties by blast
qed

definition unsigned_document :: "json \<Rightarrow> bool" where
  "unsigned_document doc =
    (list_all (\<lambda>node. list_all (\<lambda>predicate. doc_get (jmap node) predicate = None) signatureAttributionPredicates)
       (doc_parties doc)
     \<and> \<not> has_suffix (jstr (Option.bind (Option.bind (doc_get (jmap doc) ''dcs:policies'') jmap)
           (\<lambda>policies. obj_get policies ''@type''))) ''Agreement'')"

lemma obj_get_delete: "obj_get (AList.delete k m) k' = (if k' = k then None else obj_get m k')"
  by (simp add: obj_get_def delete_conv')

lemma unsign_node_clears: "doc_get (jmap (unsign_node n)) x = None" if "x \<in> set signatureAttributionPredicates"
  using that
  by (cases n) (auto simp: unsign_node_def jmap_def doc_get_def signatureAttributionPredicates_def obj_get_delete)

lemma obj_get_break_seal: "k \<noteq> ''dcs:policies'' \<Longrightarrow> obj_get (break_seal m) k = obj_get m k"
  by (simp add: break_seal_def split: option.split json.split)

lemma doc_parties_JObj: "doc_parties (JObj m) = jarr (obj_get m ''dcs:parties'')"
  by (simp add: doc_parties_def decode_map_def doc_get_def)

lemma doc_get_JObj [simp]: "doc_get (jmap (JObj m)) k = obj_get m k"
  by (simp add: doc_get_def jmap_def)

lemma offer_no_agreement: "\<not> has_suffix ''odrl:Offer'' ''Agreement''" "\<not> has_suffix '''' ''Agreement''"
  by (simp_all add: has_suffix_def)

lemma break_seal_offers:
  "\<not> has_suffix (jstr (Option.bind (Option.bind (obj_get (break_seal m) ''dcs:policies'') jmap)
      (\<lambda>policies. obj_get policies ''@type''))) ''Agreement''"
  using offer_no_agreement
  by (auto simp: break_seal_def jmap_def split: option.split json.split)

lemma unsign_unsigned:
  assumes "unsignRenewedDocument raw = Inr d"
  shows "unsigned_document d"
proof (cases raw)
  case JNull
  with assms show ?thesis
    by (simp add: unsignRenewedDocument_def decode_map_def unsigned_document_def doc_parties_def
        doc_get_def jmap_def jarr_def offer_no_agreement)
next
  case (JObj m)
  have "node \<in> unsign_node ` N \<Longrightarrow> x \<in> set signatureAttributionPredicates \<Longrightarrow> doc_get (jmap node) x = None" for node N x
    using unsign_node_clears by auto
  then have "list_all (\<lambda>node. list_all (\<lambda>x. doc_get (jmap node) x = None) signatureAttributionPredicates)
      (jarr (obj_get (unsign_parties m) ''dcs:parties''))"
    by (auto simp: unsign_parties_def jarr_def list_all_iff split: option.split json.split)
  moreover have "d = JObj (break_seal (unsign_parties m))"
    using assms JObj by (simp add: unsignRenewedDocument_def decode_map_def)
  ultimately show ?thesis
    using break_seal_offers [of "unsign_parties m"]
    by (simp add: unsigned_document_def doc_parties_JObj obj_get_break_seal)
qed (use assms in \<open>simp_all add: unsignRenewedDocument_def decode_map_def\<close>)

lemma unsigned_document_get:
  assumes "unsigned_document raw"
    and "doc_parties d = doc_parties raw @ map party_node added"
    and "doc_get (jmap d) ''dcs:policies'' = doc_get (jmap raw) ''dcs:policies''"
  shows "unsigned_document d"
proof -
  have "doc_get (jmap (party_node x)) k = None" if "k \<in> set signatureAttributionPredicates" for x k
    using that by (auto simp: party_node_def jmap_def doc_get_def obj_get_def signatureAttributionPredicates_def)
  with assms show ?thesis by (auto simp: unsigned_document_def list_all_iff)
qed

lemma renewal_document_result:
  assumes "renewal_document e url cmd original = Inr d"
  shows "unsigned_document d
    \<and> doc_get (jmap d) ''dcs:renewsContract'' = Some (renews_link url (rn_original_did cmd) (c_version original))"
proof -
  obtain norm u where n: "unsignRenewedDocument norm = Inr u"
      and at: "attachRenewsContractReference url u (rn_original_did cmd) (c_version original) = Inr d"
    using assms by (auto simp: renewal_document_def bind_res_Inr_iff)
  obtain m where u: "unsigned_document u" "u = JObj m"
      and d: "d = JObj (obj_set m ''dcs:renewsContract'' (renews_link url (rn_original_did cmd) (c_version original)))"
    using unsign_unsigned [OF n] at
    by (cases u) (simp_all add: attachRenewsContractReference_def write_map_def decode_map_def)
  have "unsigned_document d"
    by (rule unsigned_document_get [OF u(1), where added = "[]"])
       (simp_all add: u(2) d doc_parties_JObj jmap_def doc_get_def)
  then show ?thesis by (simp add: d jmap_def doc_get_def)
qed

section \<open>Properties\<close>

text \<open>
  C29: creating a contract.  When the command succeeds the contract did not exist
  before; the instance it opens is a draft at version 1 owned by the local peer, with the
  template, the name and the creator of the command, and its document declares both
  parties.  One review task, one approval task and (unless a row of it is there already)
  one negotiation task of the first round are appended, all of them open and all owned by
  the local peer; the creation event is put into the outbox.  No other contract, no other
  task, and no row of the history, the change requests, decisions, drafts, settlements,
  withdrawals or publications is touched.
\<close>

theorem creation_opens_a_draft:
  assumes "Create e p now cmd s = Inr s'"
  shows "\<exists>peer doc t. local_peer e = Some peer \<and> find_template p (cr_template_did cmd) = Some t
     \<and> instance_opened (cr_did cmd)
         \<lparr>resp_creator = peer, resp_approvers = [peer], resp_reviewers = [peer],
          resp_negotiators = [peer], resp_counterparty = cr_counterparty cmd\<rparr> doc
         (CreateEvent (cr_did cmd) (cr_template_did cmd) (cr_created_by cmd)) s s'
     \<and> {peer, cr_counterparty cmd} - {''''} \<subseteq> set (declared_iris (doc_parties doc))
     \<and> contracts s' (cr_did cmd) = Some ((new_contract (cr_did cmd) peer now (cr_created_by cmd) doc
          (cr_template_did cmd) (tmpl_version t) (tmpl_name t) (tmpl_description t)
          \<lparr>resp_creator = peer, resp_approvers = [peer], resp_reviewers = [peer],
           resp_negotiators = [peer], resp_counterparty = cr_counterparty cmd\<rparr>)
          \<lparr>c_updated_at := now, c_content_updated_at := now\<rparr>)"
proof -
  let ?resp = "\<lambda>peer. \<lparr>resp_creator = peer, resp_approvers = [peer], resp_reviewers = [peer],
          resp_negotiators = [peer], resp_counterparty = cr_counterparty cmd\<rparr>"
  obtain t :: template_row and bound doc peer s1 where
        peer: "local_peer e = Some peer"
    and t: "find_template p (cr_template_did cmd) = Some t"
    and doc: "seed_document e (?resp peer) bound = Inr doc"
    and s1: "Contract_Create now (new_contract (cr_did cmd) peer now (cr_created_by cmd)
            doc (cr_template_did cmd) (tmpl_version t) (tmpl_name t) (tmpl_description t) (?resp peer)) s = Inr s1"
    and evt: "event_Create (CreateEvent (cr_did cmd) (cr_template_did cmd) (cr_created_by cmd))
          (mint_all e now (cr_did cmd) (cr_created_by cmd) (resp_negotiators (?resp peer))
            (createReviewAndApprovalTasks e now (cr_did cmd) (cr_created_by cmd) (?resp peer) s1)) = Inr s'"
    using assms unfolding Create_def Let_def bind_res_Inr_iff lift_engine_Inr GetID_Inr
    by (elim exE conjE) (rule that, auto split: option.splits)
  have "instance_opened (cr_did cmd) (?resp peer) doc
      (CreateEvent (cr_did cmd) (cr_template_did cmd) (cr_created_by cmd)) s s'"
    by (rule instance_openedI [OF _ _ _ _ _ _ _ _ _ _ _ evt])
       (use s1 in \<open>auto simp: Contract_Create_Inr new_contract_def\<close>)
  moreover have "{peer, cr_counterparty cmd} - {''''} \<subseteq> set (declared_iris (doc_parties doc))"
    by (rule seed_document_result [OF doc]) (simp add: set_GetParties)
  moreover have "contracts s' (cr_did cmd) = Some ((new_contract (cr_did cmd) peer now (cr_created_by cmd) doc
          (cr_template_did cmd) (tmpl_version t) (tmpl_name t) (tmpl_description t) (?resp peer))
          \<lparr>c_updated_at := now, c_content_updated_at := now\<rparr>)"
    using s1 evt by (auto simp: Contract_Create_Inr new_contract_def event_Create_def split: if_splits)
  ultimately show ?thesis using peer t by blast
qed

lemma trigger_created_at [simp]:
  "c_created_at (revision_trigger now c d) = c_created_at d"
  "c_created_at (content_trigger now c d) = c_created_at d"
  by (simp_all add: revision_trigger_def content_trigger_def)

lemma carry_term_cases:
  assumes "carry_term now cmd original s = Inr s'"
  obtains cols where "s' = update_row now (rn_did cmd) (fold set_column cols) s"
    "\<forall>x\<in>set cols. (\<exists>v. x = ColStartDate v) \<or> (\<exists>v. x = ColExpDate v) \<or> (\<exists>v. x = ColExpPolicy v)
       \<or> (\<exists>v. x = ColExpNoticePeriod v)"
  | "s' = s"
proof -
  let ?st = "or_else (rn_start_date cmd) (c_start_date original)"
  let ?ex = "or_else (rn_exp_date cmd) (c_exp_date original)"
  let ?po = "or_else (rn_exp_policy cmd) (c_exp_policy original)"
  let ?no = "or_else (rn_exp_notice_period cmd) (c_exp_notice_period original)"
  let ?cols = "opt_col ColStartDate ?st @ opt_col ColExpDate ?ex @ opt_col ColExpPolicy ?po @ opt_col ColExpNoticePeriod ?no"
  have "s' = s \<or> s' = update_row now (rn_did cmd) (fold set_column ?cols) s"
    using assms unfolding carry_term_def Let_def Update_def createQuery_def no_update_def
    by (auto simp: require_Inr_iff opt_col_def bind_res_Inr_iff simp del: fold_append split: if_split_asm)
  then show thesis by (rule disjE) (rule that(2), assumption, rule that(1) [of ?cols], assumption, auto)
qed

lemma term_columns_keep:
  assumes "\<forall>x\<in>set cols. (\<exists>v. x = ColStartDate v) \<or> (\<exists>v. x = ColExpDate v) \<or> (\<exists>v. x = ColExpPolicy v)
       \<or> (\<exists>v. x = ColExpNoticePeriod v)"
  shows "c_did (fold set_column cols c) = c_did c \<and> c_state (fold set_column cols c) = c_state c
    \<and> c_version (fold set_column cols c) = c_version c \<and> c_origin (fold set_column cols c) = c_origin c
    \<and> c_responsible (fold set_column cols c) = c_responsible c \<and> c_data (fold set_column cols c) = c_data c
    \<and> c_pdf (fold set_column cols c) = c_pdf c \<and> c_created_at (fold set_column cols c) = c_created_at c"
  using assms by (induction cols arbitrary: c) auto

lemma carry_term_frame:
  assumes "carry_term now cmd original s = Inr s'"
  shows "s' = s\<lparr>contracts := contracts s'\<rparr>"
    "d \<noteq> rn_did cmd \<Longrightarrow> contracts s' d = contracts s d"
    "contracts s (rn_did cmd) = Some c \<Longrightarrow> \<exists>c'. contracts s' (rn_did cmd) = Some c'
       \<and> c_did c' = c_did c \<and> c_state c' = c_state c \<and> c_version c' = c_version c \<and> c_origin c' = c_origin c
       \<and> c_responsible c' = c_responsible c \<and> c_data c' = c_data c \<and> c_pdf c' = c_pdf c
       \<and> c_created_at c' = c_created_at c"
proof -
  let ?upd = "\<lambda>cols. update_row now (rn_did cmd) (fold set_column cols) s"
  have d: "s' = s \<or> (\<exists>cols. s' = ?upd cols \<and> (\<forall>x\<in>set cols. (\<exists>v. x = ColStartDate v) \<or> (\<exists>v. x = ColExpDate v)
       \<or> (\<exists>v. x = ColExpPolicy v) \<or> (\<exists>v. x = ColExpNoticePeriod v)))"
    by (rule carry_term_cases [OF assms]) auto
  have f: "?upd cols = s\<lparr>contracts := contracts (?upd cols)\<rparr>" for cols
    by (auto simp: update_row_def split: option.splits)
  show "s' = s\<lparr>contracts := contracts s'\<rparr>" using d f by auto
  show "d \<noteq> rn_did cmd \<Longrightarrow> contracts s' d = contracts s d"
    using d by (auto simp: contracts_update_row)
  show "\<exists>c'. contracts s' (rn_did cmd) = Some c'
       \<and> c_did c' = c_did c \<and> c_state c' = c_state c \<and> c_version c' = c_version c \<and> c_origin c' = c_origin c
       \<and> c_responsible c' = c_responsible c \<and> c_data c' = c_data c \<and> c_pdf c' = c_pdf c
       \<and> c_created_at c' = c_created_at c"
    if "contracts s (rn_did cmd) = Some c"
    using d
  proof (elim disjE exE conjE)
    fix cols assume u: "s' = ?upd cols" "\<forall>x\<in>set cols. (\<exists>v. x = ColStartDate v) \<or> (\<exists>v. x = ColExpDate v)
       \<or> (\<exists>v. x = ColExpPolicy v) \<or> (\<exists>v. x = ColExpNoticePeriod v)"
    show ?thesis using that by (simp add: u(1) contracts_update_row term_columns_keep [OF u(2)])
  qed (use that in simp)
qed

lemma Renew_cases:
  assumes "Renew e p now cmd s = Inr (v, s')"
  obtains row peer linked doc s1 s2 where
    "contracts s (rn_original_did cmd) = Some row"
    "effective_state now row \<in> set renewableStates" "v = c_version row" "local_peer e = Some peer"
    "renewal_document e (public_url p) cmd (row\<lparr>c_state := effective_state now row\<rparr>) = Inr linked"
    "seed_document e (renewal_responsible peer (c_responsible row)) linked = Inr doc"
    "Contract_Create now (new_contract (rn_did cmd) peer go_zero_time (rn_renewed_by cmd) doc
       (c_template_did row) (c_template_version row) (c_name row) (c_description row)
       (renewal_responsible peer (c_responsible row))) s = Inr s1"
    "carry_term now cmd (row\<lparr>c_state := effective_state now row\<rparr>) s1 = Inr s2"
    "event_Create (RenewEvent (rn_did cmd) (rn_renewed_by cmd) (rn_original_did cmd) v)
       (mint_all e now (rn_did cmd) (rn_renewed_by cmd)
         (resp_negotiators (renewal_responsible peer (c_responsible row)))
         (createReviewAndApprovalTasks e now (rn_did cmd) (rn_renewed_by cmd)
           (renewal_responsible peer (c_responsible row)) s2)) = Inr s'"
proof -
  obtain row where row: "contracts s (rn_original_did cmd) = Some row"
    using assms by (auto simp: Renew_def bind_res_Inr_iff ReadDataByDID_Inr)
  show thesis
    using assms unfolding Renew_def Let_def
    by (auto simp: bind_res_Inr_iff require_Inr_iff ReadDataByDID_Inr row intro: that [OF row])
qed

lemma renewal_responsible_creator [simp]: "resp_creator (renewal_responsible peer r) = peer"
  by (simp add: renewal_responsible_def split: option.split)

text \<open>
  C30: renewing a contract.  Only an agreed contract can be renewed, the original and
  every other contract stay as they are, and the new instance is an unsigned draft
  at version 1: its document carries no signature attribution and no sealed
  agreement, links back to the original at the version that was renewed, and the
  responsible parties of the original become responsible for it.
\<close>

theorem renewal_opens_an_unsigned_draft:
  assumes "Renew e p now cmd s = Inr (v, s')"
  shows "\<exists>original peer doc. contracts s (rn_original_did cmd) = Some original
     \<and> effective_state now original \<in> set renewableStates \<and> v = c_version original
     \<and> local_peer e = Some peer
     \<and> instance_opened (rn_did cmd) (renewal_responsible peer (c_responsible original)) doc
         (RenewEvent (rn_did cmd) (rn_renewed_by cmd) (rn_original_did cmd) v) s s'
     \<and> contracts s' (rn_original_did cmd) = Some original
     \<and> unsigned_document doc
     \<and> doc_get (jmap doc) ''dcs:renewsContract'' = Some (renews_link (public_url p) (rn_original_did cmd) v)"
proof -
  obtain row peer linked doc s1 s2 where
    row: "contracts s (rn_original_did cmd) = Some row" "effective_state now row \<in> set renewableStates"
      "v = c_version row" and peer: "local_peer e = Some peer"
    and l: "renewal_document e (public_url p) cmd (row\<lparr>c_state := effective_state now row\<rparr>) = Inr linked"
    and doc: "seed_document e (renewal_responsible peer (c_responsible row)) linked = Inr doc"
    and s1: "Contract_Create now (new_contract (rn_did cmd) peer go_zero_time (rn_renewed_by cmd) doc
       (c_template_did row) (c_template_version row) (c_name row) (c_description row)
       (renewal_responsible peer (c_responsible row))) s = Inr s1"
    and s2: "carry_term now cmd (row\<lparr>c_state := effective_state now row\<rparr>) s1 = Inr s2"
    and evt: "event_Create (RenewEvent (rn_did cmd) (rn_renewed_by cmd) (rn_original_did cmd) v)
       (mint_all e now (rn_did cmd) (rn_renewed_by cmd)
         (resp_negotiators (renewal_responsible peer (c_responsible row)))
         (createReviewAndApprovalTasks e now (rn_did cmd) (rn_renewed_by cmd)
           (renewal_responsible peer (c_responsible row)) s2)) = Inr s'"
    by (rule Renew_cases [OF assms]) (rule that, assumption+)
  obtain c1 where c1: "contracts s1 (rn_did cmd) = Some c1" "c_did c1 = rn_did cmd" "c_state c1 = Draft"
      "c_version c1 = 1" "c_origin c1 = peer" "c_data c1 = Some doc"
      "c_responsible c1 = Some (renewal_responsible peer (c_responsible row))"
      "c_pdf c1 = \<lparr>pdf_ipfs_cid = '''', pdf_renderer_version = '''', pdf_c2pa_state = '''', pdf_payload_hash = ''''\<rparr>"
    using s1 by (auto simp: Contract_Create_Inr new_contract_def)
  obtain c2 where c2: "contracts s2 (rn_did cmd) = Some c2" "c_did c2 = c_did c1" "c_state c2 = c_state c1"
      "c_version c2 = c_version c1" "c_origin c2 = c_origin c1" "c_responsible c2 = c_responsible c1"
      "c_data c2 = c_data c1" "c_pdf c2 = c_pdf c1"
    using carry_term_frame(3) [OF s2 c1(1)] by blast
  have fresh: "contracts s (rn_did cmd) = None" using s1 by (simp add: Contract_Create_Inr new_contract_def)
  have others: "contracts s2 d = contracts s d" if "d \<noteq> rn_did cmd" for d
    using carry_term_frame(2) [OF s2 that] s1 that by (simp add: Contract_Create_Inr new_contract_def)
  have opened: "instance_opened (rn_did cmd) (renewal_responsible peer (c_responsible row)) doc
         (RenewEvent (rn_did cmd) (rn_renewed_by cmd) (rn_original_did cmd) v) s s'"
  proof (rule instance_openedI [OF fresh c2(1) _ _ _ _ _ _ _ others _ evt])
    have "s1 = s\<lparr>contracts := contracts s1\<rparr>" using s1 by (auto simp: Contract_Create_Inr)
    then show "s2 = s\<lparr>contracts := contracts s2\<rparr>"
      by (subst carry_term_frame(1) [OF s2]) (metis store.update_convs(1) store.surjective)
  qed (use s1 c1 c2 in simp_all)
  moreover have "contracts s' (rn_original_did cmd) = Some row"
  proof -
    have "rn_original_did cmd \<noteq> rn_did cmd" using row(1) fresh by auto
    with opened have "contracts s' (rn_original_did cmd) = contracts s (rn_original_did cmd)"
      unfolding instance_opened_def by blast
    with row(1) show ?thesis by simp
  qed
  moreover have "unsigned_document doc
     \<and> doc_get (jmap doc) ''dcs:renewsContract'' = Some (renews_link (public_url p) (rn_original_did cmd) v)"
    by (rule seed_document_result [OF doc])
       (use renewal_document_result [OF l] row(3) in \<open>auto intro: unsigned_document_get\<close>)
  ultimately show ?thesis using row peer by blast
qed

text \<open>
  The row of a renewed contract is stored with the zero value of \<open>time.Time\<close> as its
  creation time: unlike creation, renewal does not go through \<open>withCreationTimestamp\<close>.
\<close>

theorem renewal_has_no_creation_time:
  assumes "Renew e p now cmd s = Inr (v, s')"
  shows "map_option c_created_at (contracts s' (rn_did cmd)) = Some go_zero_time"
proof -
  obtain row peer doc s1 s2 where
    s1: "Contract_Create now (new_contract (rn_did cmd) peer go_zero_time (rn_renewed_by cmd) doc
       (c_template_did row) (c_template_version row) (c_name row) (c_description row)
       (renewal_responsible peer (c_responsible row))) s = Inr s1"
    and s2: "carry_term now cmd (row\<lparr>c_state := effective_state now row\<rparr>) s1 = Inr s2"
    and evt: "event_Create (RenewEvent (rn_did cmd) (rn_renewed_by cmd) (rn_original_did cmd) v)
       (mint_all e now (rn_did cmd) (rn_renewed_by cmd)
         (resp_negotiators (renewal_responsible peer (c_responsible row)))
         (createReviewAndApprovalTasks e now (rn_did cmd) (rn_renewed_by cmd)
           (renewal_responsible peer (c_responsible row)) s2)) = Inr s'"
    by (rule Renew_cases [OF assms]) (rule that, assumption+)
  obtain c1 where c1: "contracts s1 (rn_did cmd) = Some c1" "c_created_at c1 = go_zero_time"
    using s1 by (auto simp: Contract_Create_Inr new_contract_def)
  then obtain c2 where "contracts s2 (rn_did cmd) = Some c2" "c_created_at c2 = go_zero_time"
    using carry_term_frame(3) [OF s2 c1(1)] by force
  then show ?thesis using evt by (auto simp: event_Create_def split: if_splits)
qed

end
