(* ===== verification/Creation_Witnesses.thy ===== *)
theory Creation_Witnesses
  imports Witnesses Creation
begin

text \<open>
  The properties of document pinning, creation and renewal on the deployment of
  \<open>Witnesses\<close>: one registered template, an active bundle with one library, and the
  signed contract \<open>c1\<close> as the original of a renewal.
\<close>

definition demo_params :: creation_params where
  "demo_params = \<lparr>find_template = (\<lambda>d. if d = ''t1'' then Some \<lparr>tmpl_data = Some demo_doc, tmpl_version = 3,
       tmpl_name = Some ''SLA'', tmpl_description = None\<rparr> else None),
     derive_document = (\<lambda>d _ _. Some d),
     active_bundle = Some \<lparr>ContextVersion = 2, ProfileVersion = 1, Shapes = [(''facis-dcs'', 4)],
       Libraries = [(''sla'', 1)]\<rparr>,
     public_url = ''https://a.example'', context_ref = '''', fmt_value = (\<lambda>_. ''doc''), abs_uri = (\<lambda>_. True)\<rparr>"

definition demo_create :: create_cmd where
  "demo_create = \<lparr>cr_did = ''c2'', cr_template_did = ''t1'', cr_created_by = ''alice'',
     cr_counterparty = ''did:web:b'', cr_parties = [''Acme''], cr_originator_role = ''''\<rparr>"

definition demo_renew :: renew_cmd where
  "demo_renew = \<lparr>rn_did = ''c3'', rn_original_did = ''c1'', rn_renewed_by = ''alice'', rn_updated_at = 0,
     rn_start_date = None, rn_exp_date = Some 900, rn_exp_policy = Some ''RENEWAL'', rn_exp_notice_period = None\<rparr>"

lemma demo_create_runs:
  "isl (Create demo_env demo_params 5 demo_create (demo_store (demo_contract ''did:web:a'' Signed))) = False"
  by code_simp

lemma demo_renew_runs:
  "isl (Renew demo_env demo_params 5 demo_renew (demo_store (demo_contract ''did:web:a'' Signed))) = False"
  by code_simp

theorem creation_opens_a_draft_witness:
  "\<exists>s' doc. Create demo_env demo_params 5 demo_create (demo_store (demo_contract ''did:web:a'' Signed)) = Inr s'
     \<and> instance_opened ''c2'' \<lparr>resp_creator = ''did:web:a'', resp_approvers = [''did:web:a''],
         resp_reviewers = [''did:web:a''], resp_negotiators = [''did:web:a''], resp_counterparty = ''did:web:b''\<rparr>
         doc (CreateEvent ''c2'' ''t1'' ''alice'') (demo_store (demo_contract ''did:web:a'' Signed)) s'
     \<and> {''did:web:a'', ''did:web:b''} \<subseteq> set (declared_iris (doc_parties doc))"
proof -
  obtain s' where s': "Create demo_env demo_params 5 demo_create
      (demo_store (demo_contract ''did:web:a'' Signed)) = Inr s'"
    by (rule succeeds_obtain [OF demo_create_runs])
  from creation_opens_a_draft [OF s'] s' show ?thesis by (auto simp: demo_create_def)
qed

theorem renewal_opens_an_unsigned_draft_witness:
  "\<exists>s' doc. Renew demo_env demo_params 5 demo_renew (demo_store (demo_contract ''did:web:a'' Signed)) = Inr (1, s')
     \<and> contracts s' ''c1'' = Some (demo_contract ''did:web:a'' Signed)
     \<and> unsigned_document doc
     \<and> (\<exists>c. contracts s' ''c3'' = Some c \<and> c_state c = Draft \<and> c_data c = Some doc)"
proof -
  obtain v s' where s': "Renew demo_env demo_params 5 demo_renew
      (demo_store (demo_contract ''did:web:a'' Signed)) = Inr (v, s')"
    by (rule succeeds_obtain [OF demo_renew_runs]) (metis surj_pair)
  have did: "rn_original_did demo_renew = ''c1''" "rn_did demo_renew = ''c3''" by (simp_all add: demo_renew_def)
  from renewal_opens_an_unsigned_draft [OF s', unfolded did] obtain doc where
    "contracts s' ''c1'' = Some (demo_contract ''did:web:a'' Signed)" "v = 1" "unsigned_document doc"
    "\<exists>c. contracts s' ''c3'' = Some c \<and> c_state c = Draft \<and> c_data c = Some doc"
    by (auto simp: instance_opened_def)
  with s' show ?thesis by blast
qed

definition demo_pinned :: json where
  "demo_pinned = JObj [(''@id'', JStr ''doc''), (''sh:shapesGraph'', id_node ''https://x/semantic/shapes/sla?version=1'')]"

lemma demo_pin_runs:
  "isl (PinSemanticBundle '''' (Some demo_pinned) ''https://x/semantic/context/facis-dcs?version=2''
     ''https://x/semantic/shapes/facis-dcs?version=4'' [''https://x/semantic/shapes/facis-dcs?version=4''] []
     ''https://x/semantic/profile/p?version=1'') = False"
  by code_simp

lemma demo_pin_declares:
  "(case PinSemanticBundle '''' (Some demo_pinned) ''https://x/semantic/context/facis-dcs?version=2''
     ''https://x/semantic/shapes/facis-dcs?version=4'' [''https://x/semantic/shapes/facis-dcs?version=4''] []
     ''https://x/semantic/profile/p?version=1'' of Inl _ \<Rightarrow> False
     | Inr doc \<Rightarrow> list_ex (\<lambda>d. decl_name d = ''sla'' \<and> decl_version d = 1)
         (declaredShapesGraphDeclarations (doc_get (jmap doc) ''sh:shapesGraph''))) = True"
  by code_simp

theorem pinned_graphs_are_effective_witness:
  "\<exists>doc entry. PinSemanticBundle '''' (Some demo_pinned) ''https://x/semantic/context/facis-dcs?version=2''
     ''https://x/semantic/shapes/facis-dcs?version=4'' [''https://x/semantic/shapes/facis-dcs?version=4''] []
     ''https://x/semantic/profile/p?version=1'' = Inr doc
   \<and> entry \<in> set (jarr (doc_get (jmap doc) ''dcs:effectiveShapes''))
   \<and> anchorShapesName (anchorIRI entry) = Some ''sla'' \<and> anchorVersion (anchorIRI entry) = 1"
proof -
  obtain doc where doc: "PinSemanticBundle '''' (Some demo_pinned) ''https://x/semantic/context/facis-dcs?version=2''
     ''https://x/semantic/shapes/facis-dcs?version=4'' [''https://x/semantic/shapes/facis-dcs?version=4''] []
     ''https://x/semantic/profile/p?version=1'' = Inr doc"
    by (rule succeeds_obtain [OF demo_pin_runs])
  obtain d where d: "d \<in> set (declaredShapesGraphDeclarations (doc_get (jmap doc) ''sh:shapesGraph''))"
      "decl_name d = ''sla''" "decl_version d = 1"
    using demo_pin_declares doc by (auto simp: list_ex_iff)
  from pinned_graphs_are_effective [OF doc _ d(1)] doc d(2,3) show ?thesis by auto
qed

theorem carried_bundle_witness:
  "CarrySemanticBundle (Some (JObj [(''sh:shapesGraph'', JStr ''g'')])) (JObj [(''@id'', JStr ''n'')])
     = Some (JObj [(''@id'', JStr ''n''), (''sh:shapesGraph'', JStr ''g'')])
   \<and> doc_get (jmap (JObj [(''@id'', JStr ''n''), (''sh:shapesGraph'', JStr ''g'')])) ''sh:shapesGraph'' = Some (JStr ''g'')"
proof -
  have run: "CarrySemanticBundle (Some (JObj [(''sh:shapesGraph'', JStr ''g'')])) (JObj [(''@id'', JStr ''n'')])
     = Some (JObj [(''@id'', JStr ''n''), (''sh:shapesGraph'', JStr ''g'')])"
    by code_simp
  from carried_bundle [OF run, of "''sh:shapesGraph''"] run show ?thesis
    by (simp add: semanticBundleProperties_def obj_get_def)
qed

theorem renewal_has_no_creation_time_witness:
  "\<exists>v s'. Renew demo_env demo_params 5 demo_renew (demo_store (demo_contract ''did:web:a'' Signed)) = Inr (v, s')
     \<and> map_option c_created_at (contracts s' ''c3'') = Some (- 62135596800000000000)"
proof -
  obtain v s' where s': "Renew demo_env demo_params 5 demo_renew
      (demo_store (demo_contract ''did:web:a'' Signed)) = Inr (v, s')"
    by (rule succeeds_obtain [OF demo_renew_runs]) (metis surj_pair)
  from renewal_has_no_creation_time [OF s'] s' show ?thesis
    by (simp add: demo_renew_def go_zero_time_def)
qed

end
