(* ===== verification/Merkle.thy ===== *)
theory Merkle
  imports Prelude "HOL-Library.Word"
begin

text \<open>
  The audit checkpoints of \<open>backend/internal/base/merkle.go\<close>: leaf hashes, the
  Merkle root with promoted odd nodes, inclusion proofs and their verification.
  SHA-256 is a parameter \<open>sha\<close> of every definition. Hashes travel as hexadecimal
  strings, so Go's \<open>encoding/hex\<close> is modelled too.
\<close>

type_synonym byte = "8 word"
type_synonym bytes = "byte list"

section \<open>Hexadecimal\<close>

definition hex_digit :: "nat \<Rightarrow> char" where
  "hex_digit n = (if n < 10 then char_of (48 + n) else char_of (87 + n))"

definition unhex_digit :: "char \<Rightarrow> nat option" where
  "unhex_digit c = (let n = (of_char c :: nat) in
     if 48 \<le> n \<and> n \<le> 57 then Some (n - 48)
     else if 97 \<le> n \<and> n \<le> 102 then Some (n - 87)
     else if 65 \<le> n \<and> n \<le> 70 then Some (n - 55)
     else None)"

fun hex_encode :: "bytes \<Rightarrow> string" where
  "hex_encode [] = []"
| "hex_encode (b # bs) = hex_digit (unat b div 16) # hex_digit (unat b mod 16) # hex_encode bs"

fun hex_decode :: "string \<Rightarrow> bytes option" where
  "hex_decode [] = Some []"
| "hex_decode [c] = None"
| "hex_decode (c # d # cs) =
     (case (unhex_digit c, unhex_digit d) of
        (Some x, Some y) \<Rightarrow> map_option (Cons (of_nat (16 * x + y))) (hex_decode cs)
      | _ \<Rightarrow> None)"

lemma unhex_hex_digit: "n < 16 \<Longrightarrow> unhex_digit (hex_digit n) = Some n"
  by (simp add: unhex_digit_def hex_digit_def Let_def)

lemma hex_decode_encode [simp]: "hex_decode (hex_encode bs) = Some bs"
proof (induction bs)
  case Nil
  then show ?case by simp
next
  case (Cons b bs)
  have "unat b < 256"
    using unsigned_less [of b, where ?'a = nat] by simp
  then have "unat b div 16 < 16"
    by (simp add: less_mult_imp_div_less)
  with Cons show ?case
    by (simp add: unhex_hex_digit mult_div_mod_eq)
qed

lemma hex_encode_inj: "hex_encode a = hex_encode b \<longleftrightarrow> a = b"
  by (metis hex_decode_encode option.inject)

section \<open>Trees\<close>

definition MerkleLeafHash :: "(bytes \<Rightarrow> bytes) \<Rightarrow> bytes \<Rightarrow> string" where
  "MerkleLeafHash sha data = hex_encode (sha (0 # data))"

definition merkleNode :: "(bytes \<Rightarrow> bytes) \<Rightarrow> bytes \<Rightarrow> bytes \<Rightarrow> bytes" where
  "merkleNode sha left right = sha (1 # left @ right)"

text \<open>One pass over a level: pairs are hashed, an odd last node is promoted.\<close>

fun merkle_level :: "(bytes \<Rightarrow> bytes) \<Rightarrow> bytes list \<Rightarrow> bytes list" where
  "merkle_level sha [] = []"
| "merkle_level sha [x] = [x]"
| "merkle_level sha (x # y # rest) = merkleNode sha x y # merkle_level sha rest"

lemma length_merkle_level [simp]: "length (merkle_level sha xs) = (length xs + 1) div 2"
  by (induction sha xs rule: merkle_level.induct) auto

function merkle_reduce :: "(bytes \<Rightarrow> bytes) \<Rightarrow> bytes list \<Rightarrow> bytes list" where
  "merkle_reduce sha level =
     (if length level > 1 then merkle_reduce sha (merkle_level sha level) else level)"
  by pat_completeness auto
termination
  by (relation "measure (\<lambda>(sha, level). length level)") auto

declare merkle_reduce.simps [simp del]

fun decode_leaves :: "string list \<Rightarrow> bytes list option" where
  "decode_leaves [] = Some []"
| "decode_leaves (leaf # leaves) =
     (case hex_decode leaf of
        None \<Rightarrow> None
      | Some raw \<Rightarrow> map_option (Cons raw) (decode_leaves leaves))"

definition MerkleRoot :: "(bytes \<Rightarrow> bytes) \<Rightarrow> string list \<Rightarrow> string option" where
  "MerkleRoot sha leafHashes =
    (if leafHashes = [] then None
     else case decode_leaves leafHashes of
            None \<Rightarrow> None
          | Some level \<Rightarrow> Some (hex_encode (hd (merkle_reduce sha level))))"

text \<open>The siblings one pass of \<open>MerkleInclusionProof\<close> appends, with the running
  position \<open>i\<close> of the loop.\<close>

fun level_proof :: "nat \<Rightarrow> nat \<Rightarrow> bytes list \<Rightarrow> bytes list" where
  "level_proof index i [] = []"
| "level_proof index i [x] = []"
| "level_proof index i (x # y # rest) =
     (if i = index \<or> i + 1 = index then [if i + 1 = index then x else y] else [])
     @ level_proof index (i + 2) rest"

function proof_loop :: "(bytes \<Rightarrow> bytes) \<Rightarrow> bytes list \<Rightarrow> nat \<Rightarrow> bytes list" where
  "proof_loop sha level index =
     (if length level > 1
      then level_proof index 0 level @ proof_loop sha (merkle_level sha level) (index div 2)
      else [])"
  by pat_completeness auto
termination
  by (relation "measure (\<lambda>(sha, level, index). length level)") auto

declare proof_loop.simps [simp del]

definition MerkleInclusionProof ::
    "(bytes \<Rightarrow> bytes) \<Rightarrow> string list \<Rightarrow> int \<Rightarrow> string list option" where
  "MerkleInclusionProof sha leafHashes index =
    (if index < 0 \<or> index \<ge> int (length leafHashes) then None
     else case decode_leaves leafHashes of
            None \<Rightarrow> None
          | Some level \<Rightarrow> Some (map hex_encode (proof_loop sha level (nat index))))"

text \<open>Go's \<open>/\<close> and \<open>%\<close> truncate towards zero.\<close>

definition go_half :: "int \<Rightarrow> int" where
  "go_half x = (if x < 0 then - ((- x) div 2) else x div 2)"

text \<open>The loop of \<open>VerifyMerkleInclusion\<close>: the proof still to be consumed is the
  list argument, a shortage of it is \<open>None\<close>.\<close>

function verify_loop ::
    "(bytes \<Rightarrow> bytes) \<Rightarrow> int \<Rightarrow> int \<Rightarrow> string list \<Rightarrow> bytes \<Rightarrow> (bytes \<times> string list) option" where
  "verify_loop sha sz index proof current =
    (if sz > 1 then
       (if index \<noteq> sz - 1 \<or> sz mod 2 = 0 then
          (case proof of
             [] \<Rightarrow> None
           | p # ps \<Rightarrow>
               (case hex_decode p of
                  None \<Rightarrow> None
                | Some raw \<Rightarrow>
                    verify_loop sha ((sz + 1) div 2) (go_half index) ps
                      (if index - 2 * go_half index = 0
                       then merkleNode sha current raw else merkleNode sha raw current)))
        else verify_loop sha ((sz + 1) div 2) (go_half index) proof current)
     else Some (current, proof))"
  by pat_completeness auto
termination
  by (relation "measure (\<lambda>(sha, sz, index, proof, current). nat sz)") auto

declare verify_loop.simps [simp del]

definition VerifyMerkleInclusion ::
    "(bytes \<Rightarrow> bytes) \<Rightarrow> string \<Rightarrow> string list \<Rightarrow> int \<Rightarrow> int \<Rightarrow> string \<Rightarrow> bool" where
  "VerifyMerkleInclusion sha leafHash proof index leafCount root =
    (case hex_decode leafHash of
       None \<Rightarrow> False
     | Some current \<Rightarrow>
         (case verify_loop sha leafCount index proof current of
            None \<Rightarrow> False
          | Some (result, unused) \<Rightarrow>
              if unused \<noteq> [] then False
              else (case hex_decode root of None \<Rightarrow> False | Some want \<Rightarrow> result = want)))"

section \<open>Levels and siblings\<close>

lemma merkle_level_nth:
  "i < length xs \<Longrightarrow> merkle_level sha xs ! (i div 2) =
     (if Suc i = length xs \<and> even i then xs ! i
      else merkleNode sha (xs ! (2 * (i div 2))) (xs ! Suc (2 * (i div 2))))"
proof (induction sha xs arbitrary: i rule: merkle_level.induct)
  case (3 sha x y rest)
  show ?case
  proof (cases "i < 2")
    case True
    then have "i = 0 \<or> i = 1" by auto
    then show ?thesis by auto
  next
    case False
    then obtain j where i: "i = j + 2"
      using le_Suc_ex [of 2 i] by (auto simp: not_less add.commute)
    with "3.prems" have j: "j < length rest" by simp
    have "merkle_level sha (x # y # rest) ! (i div 2) = merkle_level sha rest ! (j div 2)"
      by (simp add: i)
    then show ?thesis
      using "3.IH" [OF j] j by (auto simp: i nth_Cons split: nat.split)
  qed
qed auto

lemma level_proof_below: "index < i \<Longrightarrow> level_proof index i xs = []"
  by (induction index i xs rule: level_proof.induct) auto

lemma level_proof_nth:
  "j < length xs \<Longrightarrow> even i \<Longrightarrow> level_proof (i + j) i xs =
     (if odd j then [xs ! (j - 1)] else if Suc j < length xs then [xs ! Suc j] else [])"
proof (induction "i + j" i xs arbitrary: j rule: level_proof.induct)
  case (3 i x y rest)
  show ?case
  proof (cases "j < 2")
    case True
    then have "j = 0 \<or> j = 1" by auto
    then show ?thesis by (auto simp: level_proof_below)
  next
    case False
    then obtain k where j: "j = k + 2"
      using le_Suc_ex [of 2 j] by (auto simp: not_less add.commute)
    with 3 have "level_proof (i + 2 + k) (i + 2) rest =
       (if odd k then [rest ! (k - 1)] else if Suc k < length rest then [rest ! Suc k] else [])"
      by simp
    then show ?thesis
      using False by (cases k) (auto simp: j add.commute add.left_commute)
  qed
qed auto

text \<open>What the verification loop does to one level of the tree it walks up.\<close>

lemma go_half_int [simp]: "go_half (int i) = int (i div 2)"
  by (simp add: go_half_def zdiv_int)

lemma half_up_int: "(int n + 1) div 2 = int ((n + 1) div 2)"
  by (simp add: zdiv_int)

lemma parity_int: "int i - 2 * int (i div 2) = 0 \<longleftrightarrow> even i"
  by presburger

lemma verify_guard:
  assumes "i < n"
  shows "int i \<noteq> int n - 1 \<or> int n mod 2 = 0 \<longleftrightarrow> \<not> (Suc i = n \<and> even i)"
  using assms by presburger

lemma verify_step_promote:
  assumes "1 < n" and "Suc i = n" and "even i"
  shows "verify_loop sha (int n) (int i) pr cur
         = verify_loop sha (int ((n + 1) div 2)) (int (i div 2)) pr cur"
proof -
  have guard: "(int i \<noteq> int n - 1 \<or> int n mod 2 = 0) = False"
    using verify_guard [of i n] assms by simp
  have gt: "(1 < int n) = True"
    using assms by simp
  show ?thesis
    by (subst verify_loop.simps) (simp only: guard gt if_True if_False half_up_int go_half_int)
qed

lemma verify_step_pair:
  assumes "1 < n" and "i < n" and "\<not> (Suc i = n \<and> even i)"
  shows "verify_loop sha (int n) (int i) pr cur
         = (case pr of
              [] \<Rightarrow> None
            | p # ps \<Rightarrow>
                (case hex_decode p of
                   None \<Rightarrow> None
                 | Some raw \<Rightarrow> verify_loop sha (int ((n + 1) div 2)) (int (i div 2)) ps
                     (if even i then merkleNode sha cur raw else merkleNode sha raw cur)))"
proof -
  have guard: "(int i \<noteq> int n - 1 \<or> int n mod 2 = 0) = True"
    using verify_guard [of i n] assms by simp
  have gt: "(1 < int n) = True"
    using assms by simp
  show ?thesis
    by (subst verify_loop.simps)
      (simp only: guard gt if_True if_False half_up_int go_half_int parity_int)
qed

lemma verify_loop_complete:
  assumes "level \<noteq> []" and "index < length level"
  shows "verify_loop sha (int (length level)) (int index)
           (map hex_encode (proof_loop sha level index) @ extra) (level ! index)
         = Some (hd (merkle_reduce sha level), extra)"
  using assms
proof (induction sha level index arbitrary: extra rule: proof_loop.induct)
  case (1 sha level index)
  let ?n = "length level"
  let ?next = "merkle_level sha level"
  show ?case
  proof (cases "?n > 1")
    case False
    with "1.prems" have "?n = 1" by (cases level) auto
    then obtain x where "level = [x]" by (cases level) auto
    with "1.prems" show ?thesis
      by (simp add: verify_loop.simps proof_loop.simps merkle_reduce.simps)
  next
    case True
    have nth: "?next ! (index div 2) =
        (if Suc index = ?n \<and> even index then level ! index
         else merkleNode sha (level ! (2 * (index div 2))) (level ! Suc (2 * (index div 2))))"
      by (rule merkle_level_nth [OF "1.prems"(2)])
    have sib: "level_proof index 0 level =
        (if odd index then [level ! (index - 1)]
         else if Suc index < ?n then [level ! Suc index] else [])"
      using level_proof_nth [of index level 0] "1.prems" by simp
    have IH: "verify_loop sha (int ((?n + 1) div 2)) (int (index div 2))
        (map hex_encode (proof_loop sha ?next (index div 2)) @ extra) (?next ! (index div 2))
        = Some (hd (merkle_reduce sha ?next), extra)"
    proof -
      have "?next \<noteq> []" and "index div 2 < length ?next"
        using True "1.prems" by (auto simp: div_less_iff_less_mult simp flip: length_greater_0_conv)
      then show ?thesis
        using "1.IH" [OF True, of extra] by simp
    qed
    have reduce: "merkle_reduce sha level = merkle_reduce sha ?next"
      using True by (simp add: merkle_reduce.simps [of sha level])
    have proof_eq: "proof_loop sha level index
        = level_proof index 0 level @ proof_loop sha ?next (index div 2)"
      using True by (simp add: proof_loop.simps [of sha level])
    show ?thesis
    proof (cases "Suc index = ?n \<and> even index")
      case promoted: True
      then have "level_proof index 0 level = []"
        using sib by auto
      with promoted nth IH verify_step_promote [of ?n index] True show ?thesis
        by (simp add: proof_eq reduce)
    next
      case paired: False
      have sib1: "level_proof index 0 level =
          [if even index then level ! Suc index else level ! (index - 1)]"
        using sib paired "1.prems" by auto
      have cur: "?next ! (index div 2) =
          (if even index then merkleNode sha (level ! index) (level ! Suc index)
           else merkleNode sha (level ! (index - 1)) (level ! index))"
        using nth paired by (auto elim!: oddE)
      show ?thesis
        using verify_step_pair [OF True "1.prems"(2) paired] IH
        by (cases "even index") (simp_all add: proof_eq reduce sib1 cur)
    qed
  qed
qed

text \<open>
  The inputs the tree and a verification run hash. Soundness of a proof needs no
  more than that SHA-256 does not collide on these finitely many strings.
\<close>

fun level_inputs :: "bytes list \<Rightarrow> bytes list" where
  "level_inputs [] = []"
| "level_inputs [x] = []"
| "level_inputs (x # y # rest) = (1 # x @ y) # level_inputs rest"

function tree_inputs :: "(bytes \<Rightarrow> bytes) \<Rightarrow> bytes list \<Rightarrow> bytes list" where
  "tree_inputs sha level =
     (if length level > 1 then level_inputs level @ tree_inputs sha (merkle_level sha level) else [])"
  by pat_completeness auto
termination
  by (relation "measure (\<lambda>(sha, level). length level)") auto

declare tree_inputs.simps [simp del]

function verify_inputs ::
    "(bytes \<Rightarrow> bytes) \<Rightarrow> nat \<Rightarrow> nat \<Rightarrow> string list \<Rightarrow> bytes \<Rightarrow> bytes list" where
  "verify_inputs sha n i proof current =
    (if n > 1 then
       (if Suc i = n \<and> even i then verify_inputs sha ((n + 1) div 2) (i div 2) proof current
        else (case proof of
                [] \<Rightarrow> []
              | p # ps \<Rightarrow>
                  (case hex_decode p of
                     None \<Rightarrow> []
                   | Some raw \<Rightarrow>
                       (let inp = (if even i then 1 # current @ raw else 1 # raw @ current)
                        in inp # verify_inputs sha ((n + 1) div 2) (i div 2) ps (sha inp)))))
     else [])"
  by pat_completeness auto
termination
  by (relation "measure (\<lambda>(sha, n, i, proof, current). n)") auto

declare verify_inputs.simps [simp del]

lemma level_inputs_nth:
  "Suc (2 * k) < length xs \<Longrightarrow> 1 # xs ! (2 * k) @ xs ! Suc (2 * k) \<in> set (level_inputs xs)"
proof (induction xs arbitrary: k rule: level_inputs.induct)
  case (3 x y rest)
  then show ?case by (cases k) auto
qed auto

lemma merkle_level_width:
  assumes "\<forall>b. length (sha b) = w" and "\<forall>x\<in>set xs. length x = w"
  shows "\<forall>x\<in>set (merkle_level sha xs). length x = w"
  using assms by (induction sha xs rule: merkle_level.induct) (auto simp: merkleNode_def)

lemma verify_loop_sound:
  assumes "\<forall>b. length (sha b) = w" and "\<forall>x\<in>set level. length x = w"
    and "index < length level" and "length cur = w" and "inj_on sha S"
    and "set (tree_inputs sha level) \<subseteq> S"
    and "set (verify_inputs sha (length level) index pr cur) \<subseteq> S"
    and "verify_loop sha (int (length level)) (int index) pr cur
         = Some (hd (merkle_reduce sha level), rest)"
  shows "cur = level ! index"
  using assms
proof (induction sha level index arbitrary: pr cur rule: proof_loop.induct)
  case (1 sha level index)
  let ?n = "length level"
  let ?next = "merkle_level sha level"
  show ?case
  proof (cases "?n > 1")
    case False
    with "1.prems"(3) obtain x where "level = [x]"
      by (cases level) auto
    with "1.prems"(3,8) show ?thesis
      by (simp add: verify_loop.simps merkle_reduce.simps)
  next
    case True
    have reduce: "merkle_reduce sha level = merkle_reduce sha ?next"
      using True by (simp add: merkle_reduce.simps [of sha level])
    have inputs: "set (level_inputs level) \<subseteq> S" "set (tree_inputs sha ?next) \<subseteq> S"
      using "1.prems"(6) True by (simp_all add: tree_inputs.simps [of sha level])
    have nth: "?next ! (index div 2) =
        (if Suc index = ?n \<and> even index then level ! index
         else merkleNode sha (level ! (2 * (index div 2))) (level ! Suc (2 * (index div 2))))"
      by (rule merkle_level_nth [OF "1.prems"(3)])
    have half: "index div 2 < length ?next"
      using "1.prems"(3) by (simp add: div_less_iff_less_mult)
    note IH = "1.IH" [OF True "1.prems"(1) merkle_level_width [OF "1.prems"(1,2)] half _ "1.prems"(5)
        inputs(2)]
    show ?thesis
    proof (cases "Suc index = ?n \<and> even index")
      case promoted: True
      have "cur = ?next ! (index div 2)"
        using IH [of cur pr] "1.prems"(4,7,8) promoted True verify_step_promote [of ?n index]
        by (simp add: reduce verify_inputs.simps [of sha ?n])
      with nth promoted show ?thesis by simp
    next
      case paired: False
      obtain p ps raw where pr: "pr = p # ps" and raw: "hex_decode p = Some raw"
        using "1.prems"(8) verify_step_pair [OF True "1.prems"(3) paired, of sha pr cur]
        by (auto split: list.splits option.splits)
      let ?inp = "if even index then 1 # cur @ raw else 1 # raw @ cur"
      let ?k = "2 * (index div 2)"
      have node: "sha ?inp = ?next ! (index div 2)"
      proof (rule IH [of "sha ?inp" ps])
        show "length (sha ?inp) = w" using "1.prems"(1) by simp
        show "set (verify_inputs sha (length ?next) (index div 2) ps (sha ?inp)) \<subseteq> S"
          using "1.prems"(7) True paired pr raw
          by (simp add: verify_inputs.simps [of sha ?n] Let_def split: if_splits)
        show "verify_loop sha (int (length ?next)) (int (index div 2)) ps (sha ?inp)
            = Some (hd (merkle_reduce sha ?next), rest)"
          using "1.prems"(8) verify_step_pair [OF True "1.prems"(3) paired, of sha pr cur] pr raw
          by (cases "even index") (simp_all add: reduce merkleNode_def)
      qed
      have in_S: "?inp \<in> S"
        using "1.prems"(7) True paired pr raw
        by (simp add: verify_inputs.simps [of sha ?n] Let_def split: if_splits)
      have bound: "Suc ?k < ?n"
        using paired "1.prems"(3) by presburger
      then have "1 # level ! ?k @ level ! Suc ?k \<in> S"
        using level_inputs_nth [of "index div 2" level] inputs(1) by auto
      with node nth paired in_S "1.prems"(5)
      have eq: "?inp = 1 # level ! ?k @ level ! Suc ?k"
        by (simp add: merkleNode_def inj_on_def split: if_splits)
      have len: "length (level ! ?k) = w" "length (level ! Suc ?k) = w"
        using "1.prems"(2) bound by simp_all
      show ?thesis
      proof (cases "even index")
        case True
        with eq len "1.prems"(4) show ?thesis by simp
      next
        case False
        then have "index = Suc ?k" by presburger
        with False eq len "1.prems"(4) show ?thesis by simp
      qed
    qed
  qed
qed

lemma decode_leaves_nth:
  "decode_leaves leaves = Some level \<Longrightarrow>
     length level = length leaves \<and> (\<forall>i<length leaves. hex_decode (leaves ! i) = Some (level ! i))"
proof (induction leaves arbitrary: level)
  case Nil
  then show ?case by simp
next
  case (Cons leaf leaves)
  then show ?case by (auto split: option.splits simp: less_Suc_eq_0_disj)
qed

lemma decode_leaves_Some: "(\<exists>level. decode_leaves leaves = Some level) \<longleftrightarrow> (\<forall>l\<in>set leaves. hex_decode l \<noteq> None)"
  by (induction leaves) (auto split: option.splits)

section \<open>Properties\<close>

text \<open>
  C31: every leaf of a checkpoint can be proved.  For any list of hexadecimal leaf
  hashes and any position in it, the root and the inclusion proof are computed, and
  the proof verifies for that leaf at that position against that root, whatever the
  hash function is.
\<close>

theorem merkle_proof_verifies:
  assumes "0 \<le> index" "index < int (length leaves)" "\<forall>l\<in>set leaves. hex_decode l \<noteq> None"
  shows "\<exists>root siblings. MerkleRoot sha leaves = Some root
       \<and> MerkleInclusionProof sha leaves index = Some siblings
       \<and> VerifyMerkleInclusion sha (leaves ! nat index) siblings index (int (length leaves)) root"
proof -
  obtain level where level: "decode_leaves leaves = Some level"
    using assms(3) decode_leaves_Some by blast
  have len: "length level = length leaves" and leaf: "hex_decode (leaves ! nat index) = Some (level ! nat index)"
    using decode_leaves_nth [OF level] assms(1,2) by auto
  have "verify_loop sha (int (length level)) (int (nat index))
      (map hex_encode (proof_loop sha level (nat index)) @ []) (level ! nat index)
      = Some (hd (merkle_reduce sha level), [])"
    using assms(1,2) len by (intro verify_loop_complete) auto
  with level leaf len assms show ?thesis
    by (auto simp: MerkleRoot_def MerkleInclusionProof_def VerifyMerkleInclusion_def)
qed

theorem merkle_proof_verifies_witness:
  "\<exists>root siblings. MerkleRoot id [''00'', ''01'', ''02''] = Some root
     \<and> MerkleInclusionProof id [''00'', ''01'', ''02''] 2 = Some siblings
     \<and> VerifyMerkleInclusion id ''02'' siblings 2 3 root"
proof -
  have "\<forall>l\<in>set [''00'', ''01'', ''02'']. hex_decode l \<noteq> None" by code_simp
  from merkle_proof_verifies [OF _ _ this, of 2 id] show ?thesis by simp
qed

text \<open>
  C32: a verified proof is a proof of membership.  If a proof verifies for a leaf hash
  at a position against the root of a checkpoint, the leaf hash is the one the
  checkpoint has at that position.  The hypotheses on the hash function are those of
  SHA-256 only: digests have one fixed length, and no two of the finitely many
  strings hashed for the tree and for this verification collide.
\<close>

theorem merkle_proof_sound:
  assumes "MerkleRoot sha leaves = Some root" "decode_leaves leaves = Some level"
    and "\<forall>b. length (sha b) = w" "\<forall>x\<in>set level. length x = w"
    and "hex_decode leaf = Some cur" "length cur = w"
    and "0 \<le> index" "index < int (length leaves)"
    and "inj_on sha (set (tree_inputs sha level) \<union> set (verify_inputs sha (length level) (nat index) siblings cur))"
    and "VerifyMerkleInclusion sha leaf siblings index (int (length leaves)) root"
  shows "hex_decode leaf = hex_decode (leaves ! nat index)"
proof -
  have len: "length level = length leaves" and nth: "hex_decode (leaves ! nat index) = Some (level ! nat index)"
    using decode_leaves_nth [OF assms(2)] assms(7,8) by auto
  have root: "root = hex_encode (hd (merkle_reduce sha level))"
    using assms(1,2) by (auto simp: MerkleRoot_def split: if_split_asm)
  have "verify_loop sha (int (length level)) (int (nat index)) siblings cur
      = Some (hd (merkle_reduce sha level), [])"
    using assms(5,7,10) len by (auto simp: VerifyMerkleInclusion_def root split: option.split_asm if_split_asm)
  from verify_loop_sound [OF assms(3,4) _ assms(6) assms(9) _ _ this] assms(7,8) len
  have "cur = level ! nat index" by auto
  with nth assms(5) show ?thesis by simp
qed

definition checksum :: "bytes \<Rightarrow> bytes" where
  "checksum b = [fold (+) b 0]"

theorem merkle_proof_sound_witness:
  "VerifyMerkleInclusion checksum ''01'' [''02''] 0 2 ''04'' \<and> hex_decode ''01'' = hex_decode ([''01'', ''02''] ! 0)"
proof -
  have r: "MerkleRoot checksum [''01'', ''02''] = Some ''04''" by code_simp
  have l: "decode_leaves [''01'', ''02''] = Some [[1], [2]]" by code_simp
  have d: "hex_decode ''01'' = Some [1]" by code_simp
  have t: "tree_inputs checksum [[1], [2]] = [[1, 1, 2]]" by code_simp
  have i: "verify_inputs checksum (length [[1], [2 :: byte]]) (nat 0) [''02''] [1] = [[1, 1, 2]]" by code_simp
  have v: "VerifyMerkleInclusion checksum ''01'' [''02''] 0 2 ''04''" by code_simp
  have "hex_decode ''01'' = hex_decode ([''01'', ''02''] ! nat 0)"
  proof (rule merkle_proof_sound [where w = "1" and siblings = "[''02'']", OF r l _ _ d])
    show "inj_on checksum (set (tree_inputs checksum [[1], [2]])
        \<union> set (verify_inputs checksum (length [[1], [2 :: byte]]) (nat 0) [''02''] [1]))"
      unfolding t i by simp
    show "VerifyMerkleInclusion checksum ''01'' [''02''] 0 (int (length [''01'', ''02''])) ''04''"
      using v by simp
  qed (simp_all add: checksum_def)
  with v show ?thesis by simp
qed

end
