(* ===== verification/Status_Allocation.thy ===== *)
theory Status_Allocation
  imports Prelude "HOL-Library.Word"
begin

text \<open>
  The allocation of status list entries
  (\<open>backend/internal/pdfgeneration/provenance/status_list_allocation.go\<close>) and the revocation
  column of the same table (\<open>status_list_serve.go\<close>).  A contract keeps one entry for
  life, and the entry's bit is the contract's revocation state, so two subjects must never
  share one.  \<open>Allocate\<close> is written against the interface \<open>statusListStore\<close> of the source,
  here a record of operations with the contract \<open>status_store\<close>; the tables
  \<open>status_list_entries\<close> and \<open>status_list_cursors\<close> implement it.  Database failures come from a
  script in the state: each statement consumes one answer of it.

  Allocations run concurrently.  \<open>call_step\<close> is one call of \<open>Allocate\<close> cut at its SQL
  statements, with the \<open>NOT EXISTS\<close> of the insert read before the insert itself takes place,
  and \<open>alloc_step\<close> interleaves any number of calls with revocations and the registration of
  new lists.
\<close>

section \<open>The allocator\<close>

record status_list_entry =
  ListID :: int
  Index :: "32 word"

datatype alloc_error =
    EmptySubject | ListNotRegistered int | ListFull int | NoFreeEntry int | StoreFailed
  | NoEntryToRevoke

record 's status_list_store =
  store_Entry :: "string \<Rightarrow> 's \<Rightarrow> (alloc_error, status_list_entry option) result \<times> 's"
  store_ReserveIndex :: "int \<Rightarrow> 's \<Rightarrow> (alloc_error, 32 word option) result \<times> 's"
  store_Claim :: "string \<Rightarrow> status_list_entry \<Rightarrow> 's \<Rightarrow>
    (alloc_error, status_list_entry \<times> bool) result \<times> 's"

definition maxClaimAttempts :: nat where
  "maxClaimAttempts = 64"

fun claim_loop ::
    "'s status_list_store \<Rightarrow> int \<Rightarrow> string \<Rightarrow> nat \<Rightarrow> 's \<Rightarrow> (alloc_error, status_list_entry) result \<times> 's" where
  "claim_loop S listID subj 0 s = (Inl (NoFreeEntry listID), s)"
| "claim_loop S listID subj (Suc left) s =
     (case store_ReserveIndex S listID s of
        (Inl err, s1) \<Rightarrow> (Inl err, s1)
      | (Inr None, s1) \<Rightarrow> (Inl (ListFull listID), s1)
      | (Inr (Some index), s1) \<Rightarrow>
          (case store_Claim S subj \<lparr>ListID = listID, Index = index\<rparr> s1 of
             (Inl err, s2) \<Rightarrow> (Inl err, s2)
           | (Inr (stored, claimed), s2) \<Rightarrow>
               (if claimed then (Inr stored, s2) else claim_loop S listID subj left s2)))"

definition Allocate ::
    "'s status_list_store \<Rightarrow> int \<Rightarrow> string \<Rightarrow> 's \<Rightarrow> (alloc_error, status_list_entry) result \<times> 's" where
  "Allocate S listID subjectID s =
    (let subj = trim_space subjectID
     in if subj = '''' then (Inl EmptySubject, s)
        else (case store_Entry S subj s of
                (Inl err, s1) \<Rightarrow> (Inl err, s1)
              | (Inr (Some e), s1) \<Rightarrow> (Inr e, s1)
              | (Inr None, s1) \<Rightarrow> claim_loop S listID subj maxClaimAttempts s1))"

section \<open>The contract of a store\<close>

text \<open>
  A store represents a partial map from subjects to entries.  Reads and cursor moves leave
  it alone; a claim that answers \<open>claimed\<close> hands out what the map then holds for the
  subject, and extends the map only by a free entry for a subject without one.
\<close>

definition allocation_outcome ::
    "(string \<Rightarrow> status_list_entry option) \<Rightarrow> (string \<Rightarrow> status_list_entry option) \<Rightarrow> string \<Rightarrow>
     ('e, status_list_entry) result \<Rightarrow> bool" where
  "allocation_outcome h h' subj r =
    (case r of
       Inl _ \<Rightarrow> h' = h
     | Inr e \<Rightarrow> h' subj = Some e \<and>
         (h' = h \<or> (h subj = None \<and> (\<forall>t. h t \<noteq> Some e) \<and> h' = h(subj \<mapsto> e))))"

lemma allocation_outcome_simps [simp]:
  "allocation_outcome h h' subj (Inl err) \<longleftrightarrow> h' = h"
  "allocation_outcome h h' subj (Inr e) \<longleftrightarrow> h' subj = Some e \<and>
     (h' = h \<or> (h subj = None \<and> (\<forall>t. h t \<noteq> Some e) \<and> h' = h(subj \<mapsto> e)))"
  by (simp_all add: allocation_outcome_def)

locale status_store =
  fixes S :: "'s status_list_store"
    and store_ok :: "'s \<Rightarrow> bool"
    and usable :: "32 word \<Rightarrow> bool"
    and held :: "'s \<Rightarrow> string \<Rightarrow> status_list_entry option"
  assumes Entry_law: "store_ok s \<Longrightarrow> store_Entry S subj s = (r, s') \<Longrightarrow>
      store_ok s' \<and> held s' = held s \<and> (\<forall>found. r = Inr found \<longrightarrow> found = held s subj)"
    and Reserve_law: "store_ok s \<Longrightarrow> store_ReserveIndex S l s = (i, s') \<Longrightarrow>
      store_ok s' \<and> held s' = held s \<and> (\<forall>index. i = Inr (Some index) \<longrightarrow> usable index)"
    and Claim_law: "store_ok s \<Longrightarrow> usable (Index e) \<Longrightarrow> store_Claim S subj e s = (q, s') \<Longrightarrow>
      store_ok s' \<and>
      (held s' = held s \<or>
       (held s subj = None \<and> (\<forall>t. held s t \<noteq> Some e) \<and> held s' = (held s)(subj \<mapsto> e))) \<and>
      (\<forall>stored. q = Inr (stored, True) \<longrightarrow> held s' subj = Some stored) \<and>
      ((\<exists>err. q = Inl err) \<or> (\<exists>stored. q = Inr (stored, False)) \<longrightarrow> held s' = held s)"
begin

lemma claim_loop_spec:
  assumes "store_ok s" "claim_loop S l subj n s = (r, s')"
  shows "store_ok s' \<and> allocation_outcome (held s) (held s') subj r"
  using assms
proof (induction n arbitrary: s)
  case 0
  then show ?case by auto
next
  case (Suc n)
  obtain r1 s1 where r1: "store_ReserveIndex S l s = (r1, s1)" by fastforce
  note law1 = Reserve_law [OF Suc.prems(1) r1]
  show ?case
  proof (cases "\<exists>i. r1 = Inr (Some i)")
    case False
    then show ?thesis
      using Suc.prems(2) r1 law1 by (auto split: sum.splits option.splits)
  next
    case True
    then obtain i where i: "r1 = Inr (Some i)" by blast
    obtain q s2 where q: "store_Claim S subj \<lparr>ListID = l, Index = i\<rparr> s1 = (q, s2)" by fastforce
    have "usable (Index \<lparr>ListID = l, Index = i\<rparr>)" using law1 i by simp
    note law2 = Claim_law [OF conjunct1 [OF law1] this q]
    show ?thesis
    proof (cases "\<exists>stored. q = Inr (stored, False)")
      case True
      then obtain stored where "q = Inr (stored, False)" by blast
      then show ?thesis
        using Suc.IH [of s2] Suc.prems(2) r1 i q law1 law2 by simp
    next
      case False
      then show ?thesis
        using Suc.prems(2) r1 i q law1 law2 by (auto split: sum.splits prod.splits if_splits)
    qed
  qed
qed

lemma Allocate_spec:
  assumes "store_ok s" "Allocate S l subjectID s = (r, s')"
  shows "store_ok s' \<and> allocation_outcome (held s) (held s') (trim_space subjectID) r"
proof (cases "trim_space subjectID = ''''")
  case True
  then show ?thesis using assms by (auto simp: Allocate_def)
next
  case False
  obtain r1 s1 where r1: "store_Entry S (trim_space subjectID) s = (r1, s1)" by fastforce
  note law = Entry_law [OF assms(1) r1]
  show ?thesis
  proof (cases "r1 = Inr None")
    case True
    then have "claim_loop S l (trim_space subjectID) maxClaimAttempts s1 = (r, s')"
      using assms(2) False r1 by (simp add: Allocate_def Let_def)
    from claim_loop_spec [OF conjunct1 [OF law] this] law show ?thesis by simp
  next
    case False2: False
    then show ?thesis
      using assms(2) False r1 law
      by (auto simp: Allocate_def Let_def split: sum.splits option.splits)
  qed
qed

lemma Allocate_keeps_entries:
  assumes "store_ok s" "Allocate S l subjectID s = (r, s')" "held s t = Some e"
  shows "held s' t = Some e"
  using Allocate_spec [OF assms(1,2)] assms(3) by (cases r) auto

lemma Allocate_again:
  assumes "store_ok s" "Allocate S l subjectID s = (Inr e, s')" "Allocate S l' subjectID s' = (Inr f, s'')"
  shows "f = e"
  using Allocate_spec [OF assms(1,2)] Allocate_spec [of s', OF _ assms(3)] by auto

end

section \<open>The tables\<close>

datatype entry_origin = AllocatedOrigin | HashOrigin

record entry_row =
  er_subject :: string
  er_list :: int
  er_index :: int
  er_origin :: entry_origin
  er_revoked_at :: "int option"

record cursor_row =
  cu_list :: int
  cu_next :: int
  cu_size :: int

text \<open>\<open>db_outages\<close> says which of the coming statements fail; past its end none does.\<close>

record status_tables =
  status_entries :: "entry_row list"
  status_cursors :: "cursor_row list"
  db_outages :: "bool list"

text \<open>\<open>uint32(row.Index)\<close>: the conversion keeps the low 32 bits.\<close>

definition row_entry :: "entry_row \<Rightarrow> status_list_entry" where
  "row_entry r = \<lparr>ListID = er_list r, Index = of_int (er_index r)\<rparr>"

definition entry_select :: "string \<Rightarrow> status_tables \<Rightarrow> status_list_entry option" where
  "entry_select subj t = map_option row_entry (find (\<lambda>r. er_subject r = subj) (status_entries t))"

definition cursor_open :: "int \<Rightarrow> cursor_row \<Rightarrow> bool" where
  "cursor_open l c = (cu_list c = l \<and> cu_next c < cu_size c)"

definition bump :: "int \<Rightarrow> cursor_row \<Rightarrow> cursor_row" where
  "bump l c = (if cursor_open l c then c\<lparr>cu_next := cu_next c + 1\<rparr> else c)"

definition reserve_update :: "int \<Rightarrow> status_tables \<Rightarrow> 32 word option \<times> status_tables" where
  "reserve_update l t =
    (case find (cursor_open l) (status_cursors t) of
       None \<Rightarrow> (None, t)
     | Some c \<Rightarrow> (Some (of_int (cu_next c)), t\<lparr>status_cursors := map (bump l) (status_cursors t)\<rparr>))"

definition list_registered :: "int \<Rightarrow> status_tables \<Rightarrow> bool" where
  "list_registered l t = (\<exists>c\<in>set (status_cursors t). cu_list c = l)"

definition row_at :: "int \<Rightarrow> int \<Rightarrow> entry_row \<Rightarrow> bool" where
  "row_at l i r = (er_list r = l \<and> er_index r = i)"

definition slot_taken :: "int \<Rightarrow> int \<Rightarrow> status_tables \<Rightarrow> bool" where
  "slot_taken l i t = (\<exists>r\<in>set (status_entries t). row_at l i r)"

text \<open>
  The insert of \<open>Claim\<close>: no row when the subquery found the slot taken or the subject has a
  row already; a unique violation when another allocated row holds the slot.
\<close>

datatype insert_answer = InsertedEntry status_list_entry | NoRowInserted | UniqueViolation

definition claimed_row :: "string \<Rightarrow> status_list_entry \<Rightarrow> entry_row" where
  "claimed_row subj e = \<lparr>er_subject = subj, er_list = ListID e, er_index = uint (Index e),
     er_origin = AllocatedOrigin, er_revoked_at = None\<rparr>"

definition claim_insert ::
    "bool \<Rightarrow> string \<Rightarrow> status_list_entry \<Rightarrow> status_tables \<Rightarrow> insert_answer \<times> status_tables" where
  "claim_insert free subj e t =
    (if \<not> free \<or> (\<exists>r\<in>set (status_entries t). er_subject r = subj) then (NoRowInserted, t)
     else if \<exists>r\<in>set (status_entries t). row_at (ListID e) (uint (Index e)) r \<and> er_origin r = AllocatedOrigin
     then (UniqueViolation, t)
     else (InsertedEntry (row_entry (claimed_row subj e)),
           t\<lparr>status_entries := status_entries t @ [claimed_row subj e]\<rparr>))"

section \<open>The Postgres store\<close>

definition statement ::
    "(status_tables \<Rightarrow> (alloc_error, 'a) result \<times> status_tables) \<Rightarrow>
     status_tables \<Rightarrow> (alloc_error, 'a) result \<times> status_tables" where
  "statement k t =
    (case db_outages t of
       [] \<Rightarrow> k t
     | failing # later \<Rightarrow>
         (if failing then (Inl StoreFailed, t\<lparr>db_outages := later\<rparr>) else k (t\<lparr>db_outages := later\<rparr>)))"

definition postgres_Entry ::
    "string \<Rightarrow> status_tables \<Rightarrow> (alloc_error, status_list_entry option) result \<times> status_tables" where
  "postgres_Entry subj = statement (\<lambda>t. (Inr (entry_select subj t), t))"

definition postgres_ReserveIndex ::
    "int \<Rightarrow> status_tables \<Rightarrow> (alloc_error, 32 word option) result \<times> status_tables" where
  "postgres_ReserveIndex l =
    statement (\<lambda>t. case reserve_update l t of
        (Some i, t1) \<Rightarrow> (Inr (Some i), t1)
      | (None, t1) \<Rightarrow>
          statement (\<lambda>t2. (if list_registered l t2 then Inr None else Inl (ListNotRegistered l), t2)) t1)"

text \<open>An answer of \<open>False\<close> carries the zero entry, which nobody reads.\<close>

definition postgres_Claim ::
    "string \<Rightarrow> status_list_entry \<Rightarrow> status_tables \<Rightarrow>
     (alloc_error, status_list_entry \<times> bool) result \<times> status_tables" where
  "postgres_Claim subj e =
    statement (\<lambda>t. case claim_insert (\<not> slot_taken (ListID e) (uint (Index e)) t) subj e t of
        (InsertedEntry stored, t1) \<Rightarrow> (Inr (stored, True), t1)
      | (UniqueViolation, t1) \<Rightarrow> (Inr (\<lparr>ListID = 0, Index = 0\<rparr>, False), t1)
      | (NoRowInserted, t1) \<Rightarrow>
          (case postgres_Entry subj t1 of
             (Inl err, t2) \<Rightarrow> (Inl err, t2)
           | (Inr (Some stored), t2) \<Rightarrow> (Inr (stored, True), t2)
           | (Inr None, t2) \<Rightarrow> (Inr (\<lparr>ListID = 0, Index = 0\<rparr>, False), t2)))"

definition postgresStatusListStore :: "status_tables status_list_store" where
  "postgresStatusListStore = \<lparr>store_Entry = postgres_Entry, store_ReserveIndex = postgres_ReserveIndex,
     store_Claim = postgres_Claim\<rparr>"

text \<open>
  What the constraints of the migrations and the sizes of the lists keep: a subject has one
  row, an allocated row shares its slot with no row, indices and sizes are non-negative
  \<open>INTEGER\<close> values and a cursor stays within its list.
\<close>

definition rows_ok :: "entry_row list \<Rightarrow> bool" where
  "rows_ok rs \<longleftrightarrow> distinct (map er_subject rs) \<and>
     (\<forall>r\<in>set rs. 0 \<le> er_index r \<and> er_index r < 2 ^ 31) \<and>
     (\<forall>r\<in>set rs. \<forall>q\<in>set rs. er_origin r = AllocatedOrigin \<and> row_at (er_list r) (er_index r) q \<longrightarrow> q = r)"

definition cursors_ok :: "cursor_row list \<Rightarrow> bool" where
  "cursors_ok cs \<longleftrightarrow> distinct (map cu_list cs) \<and>
     (\<forall>c\<in>set cs. 0 \<le> cu_next c \<and> cu_next c \<le> cu_size c \<and> cu_size c < 2 ^ 31)"

definition tables_ok :: "status_tables \<Rightarrow> bool" where
  "tables_ok t \<longleftrightarrow> rows_ok (status_entries t) \<and> cursors_ok (status_cursors t)"

lemma tables_ok_outages [simp]: "tables_ok (t\<lparr>db_outages := os\<rparr>) = tables_ok t"
  by (simp add: tables_ok_def)

lemma entry_select_outages [simp]: "entry_select subj (t\<lparr>db_outages := os\<rparr>) = entry_select subj t"
  by (simp add: entry_select_def)

lemma uint_small:
  assumes "0 \<le> i" "i < 2 ^ 31"
  shows "uint (of_int i :: 32 word) = i"
  using assms by (simp add: uint_word_of_int_eq take_bit_int_eq_self)

lemma of_int_small_inj:
  assumes "0 \<le> i" "i < 2 ^ 31" "0 \<le> j" "j < 2 ^ 31" "(of_int i :: 32 word) = of_int j"
  shows "i = j"
proof -
  have "i = uint (of_int i :: 32 word)" by (simp only: uint_small [OF assms(1,2)])
  also have "\<dots> = uint (of_int j :: 32 word)" by (simp only: assms(5))
  also have "\<dots> = j" by (simp only: uint_small [OF assms(3,4)])
  finally show ?thesis .
qed

text \<open>Two rows with small indices and the same entry sit in the same slot.\<close>

lemma row_entry_eq_iff:
  assumes "rows_ok rs" "r \<in> set rs" "q \<in> set rs"
  shows "row_entry r = row_entry q \<longleftrightarrow> row_at (er_list r) (er_index r) q"
  using assms of_int_small_inj [of "er_index q" "er_index r"]
  by (auto simp: row_entry_def row_at_def rows_ok_def)

lemma find_Some_in: "find P xs = Some x \<Longrightarrow> x \<in> set xs \<and> P x"
  by (auto simp: find_Some_iff)

lemma find_snoc:
  "find P (xs @ [x]) = (case find P xs of Some y \<Rightarrow> Some y | None \<Rightarrow> if P x then Some x else None)"
  by (induction xs) auto

lemma subject_row_unique:
  assumes "distinct (map er_subject rs)" "r \<in> set rs" "q \<in> set rs" "er_subject r = er_subject q"
  shows "r = q"
  using assms by (metis distinct_map inj_onD)

lemma entry_select_iff:
  assumes "rows_ok (status_entries t)"
  shows "entry_select subj t = Some e \<longleftrightarrow>
    (\<exists>r\<in>set (status_entries t). er_subject r = subj \<and> row_entry r = e)"
proof -
  have d: "distinct (map er_subject (status_entries t))"
    using assms by (simp add: rows_ok_def)
  show ?thesis
  proof (cases "find (\<lambda>r. er_subject r = subj) (status_entries t)")
    case None
    then show ?thesis
      by (simp add: entry_select_def) (simp add: find_None_iff)
  next
    case (Some r)
    from find_Some_in [OF Some] subject_row_unique [OF d, of r] Some show ?thesis
      by (fastforce simp: entry_select_def)
  qed
qed

lemma entry_select_None_iff:
  "entry_select subj t = None \<longleftrightarrow> (\<forall>r\<in>set (status_entries t). er_subject r \<noteq> subj)"
  by (auto simp: entry_select_def find_None_iff)

section \<open>The tables implement the contract\<close>

lemma statement_cases:
  assumes "statement k t = (r, t')"
  obtains os where "k (t\<lparr>db_outages := os\<rparr>) = (r, t')"
  | os where "r = Inl StoreFailed" "t' = t\<lparr>db_outages := os\<rparr>"
proof (cases "db_outages t")
  case Nil
  then have "t\<lparr>db_outages := []\<rparr> = t" by simp
  with Nil assms that(1) [of "[]"] show ?thesis by (simp add: statement_def)
next
  case (Cons failing later)
  with assms that show ?thesis by (auto simp: statement_def split: if_splits)
qed

lemma bump_simps [simp]:
  "cu_list (bump l c) = cu_list c" "cu_size (bump l c) = cu_size c"
  by (simp_all add: bump_def)

lemma bump_ok: "cursors_ok cs \<Longrightarrow> cursors_ok (map (bump l) cs)"
proof -
  assume ok: "cursors_ok cs"
  have "map cu_list (map (bump l) cs) = map cu_list cs" by simp
  with ok show ?thesis
    by (auto simp only: cursors_ok_def) (auto simp: bump_def cursor_open_def)
qed

lemma reserve_update_ok:
  assumes "tables_ok t" "reserve_update l t = (i, t')"
  shows "tables_ok t' \<and> status_entries t' = status_entries t \<and>
    (\<forall>index. i = Some index \<longrightarrow> uint index < 2 ^ 31)"
proof (cases "find (cursor_open l) (status_cursors t)")
  case None
  with assms show ?thesis by (auto simp: reserve_update_def)
next
  case (Some c)
  from find_Some_in [OF this] assms(1) have "0 \<le> cu_next c" "cu_next c < 2 ^ 31"
    by (auto simp: tables_ok_def cursors_ok_def cursor_open_def)
  with uint_small [of "cu_next c"] Some assms show ?thesis
    by (auto simp: reserve_update_def tables_ok_def bump_ok)
qed

lemma claimed_row_simps [simp]:
  "er_subject (claimed_row subj e) = subj" "er_list (claimed_row subj e) = ListID e"
  "er_index (claimed_row subj e) = uint (Index e)" "er_origin (claimed_row subj e) = AllocatedOrigin"
  "er_revoked_at (claimed_row subj e) = None" "row_entry (claimed_row subj e) = e"
  by (simp_all add: claimed_row_def row_entry_def)

text \<open>An insert that goes through lands on a slot that no row of either origin holds,
  provided the subquery saw the inherited rows.\<close>

lemma claim_insert_rows_ok:
  assumes "rows_ok rs" "uint (Index e) < 2 ^ 31" "\<forall>r\<in>set rs. er_subject r \<noteq> subj"
    "\<not> (\<exists>r\<in>set rs. row_at (ListID e) (uint (Index e)) r)"
  shows "rows_ok (rs @ [claimed_row subj e])"
proof -
  have "distinct (map er_subject (rs @ [claimed_row subj e]))"
    using assms(1,3) by (auto simp: rows_ok_def)
  moreover have "\<forall>r\<in>set (rs @ [claimed_row subj e]). 0 \<le> er_index r \<and> er_index r < 2 ^ 31"
    using assms(1,2) by (auto simp: rows_ok_def)
  moreover have "q = r" if "r \<in> set (rs @ [claimed_row subj e])" "q \<in> set (rs @ [claimed_row subj e])"
      "er_origin r = AllocatedOrigin" "row_at (er_list r) (er_index r) q" for r q
  proof (cases "r = claimed_row subj e \<or> q = claimed_row subj e")
    case True
    then show ?thesis using that assms(4) by (auto simp: row_at_def)
  next
    case False
    then show ?thesis using that assms(1) unfolding rows_ok_def by auto
  qed
  ultimately show ?thesis unfolding rows_ok_def by blast
qed

lemma claim_insert_cases:
  assumes "claim_insert free subj e t = (a, t')"
  obtains "a = NoRowInserted" "t' = t" "\<not> free \<or> (\<exists>r\<in>set (status_entries t). er_subject r = subj)"
  | "a = UniqueViolation" "t' = t"
  | "a = InsertedEntry e" "free" "t' = t\<lparr>status_entries := status_entries t @ [claimed_row subj e]\<rparr>"
      "\<forall>r\<in>set (status_entries t). er_subject r \<noteq> subj"
      "\<forall>r\<in>set (status_entries t). row_at (ListID e) (uint (Index e)) r \<longrightarrow> er_origin r = HashOrigin"
proof -
  have h: "er_origin r = HashOrigin \<longleftrightarrow> er_origin r \<noteq> AllocatedOrigin" for r
    by (cases "er_origin r") auto
  show ?thesis
    using assms that by (auto simp: claim_insert_def h split: if_splits)
qed

lemma claim_insert_ok:
  assumes "tables_ok t" "uint (Index e) < 2 ^ 31"
    "free \<longrightarrow> (\<forall>r\<in>set (status_entries t). row_at (ListID e) (uint (Index e)) r \<longrightarrow> er_origin r = AllocatedOrigin)"
    "claim_insert free subj e t = (a, t')"
  shows "tables_ok t'"
  using assms(4)
proof (cases rule: claim_insert_cases)
  case 3
  then have "\<not> (\<exists>r\<in>set (status_entries t). row_at (ListID e) (uint (Index e)) r)"
    using assms(3) by auto
  with 3 assms(1,2) show ?thesis
    using claim_insert_rows_ok by (simp add: tables_ok_def)
qed (use assms(1) in simp_all)

definition tables_held :: "status_tables \<Rightarrow> string \<Rightarrow> status_list_entry option" where
  "tables_held t subj = entry_select subj t"

lemma tables_held_outages [simp]: "tables_held (t\<lparr>db_outages := os\<rparr>) = tables_held t"
  by (rule ext) (simp add: tables_held_def)

lemma tables_held_entries: "status_entries t' = status_entries t \<Longrightarrow> tables_held t' = tables_held t"
  by (rule ext) (simp add: tables_held_def entry_select_def)

lemma postgres_Entry_law:
  assumes "tables_ok t" "postgres_Entry subj t = (r, t')"
  shows "tables_ok t' \<and> tables_held t' = tables_held t \<and>
    (\<forall>found. r = Inr found \<longrightarrow> found = tables_held t subj)"
  using assms(2) unfolding postgres_Entry_def
proof (cases rule: statement_cases)
  case (1 os)
  then show ?thesis using assms(1) by (auto simp: tables_held_def)
next
  case (2 os)
  then show ?thesis using assms(1) by simp
qed

lemma postgres_ReserveIndex_law:
  assumes "tables_ok t" "postgres_ReserveIndex l t = (r, t')"
  shows "tables_ok t' \<and> tables_held t' = tables_held t \<and>
    (\<forall>index. r = Inr (Some index) \<longrightarrow> uint index < 2 ^ 31)"
  using assms(2) unfolding postgres_ReserveIndex_def
proof (cases rule: statement_cases)
  case (1 os)
  obtain i t1 where u: "reserve_update l (t\<lparr>db_outages := os\<rparr>) = (i, t1)" by fastforce
  from reserve_update_ok [OF _ u] assms(1)
  have ok: "tables_ok t1" "status_entries t1 = status_entries t"
    and index: "\<forall>index. i = Some index \<longrightarrow> uint index < 2 ^ 31" by auto
  note held = tables_held_entries [OF ok(2)]
  show ?thesis
  proof (cases i)
    case None
    with 1 u have s: "statement (\<lambda>t2. (if list_registered l t2 then Inr None else Inl (ListNotRegistered l), t2)) t1
        = (r, t')" by simp
    then show ?thesis
    proof (cases rule: statement_cases)
      case (1 os')
      then have "t' = t1\<lparr>db_outages := os'\<rparr>" by simp
      with ok(1) held show ?thesis using 1 by (auto split: if_splits)
    next
      case (2 os')
      with ok(1) held show ?thesis by simp
    qed
  next
    case (Some index)
    with 1 u have "t' = t1" "r = Inr (Some index)" by simp_all
    with ok(1) held index Some show ?thesis by simp
  qed
next
  case (2 os)
  then show ?thesis using assms(1) by simp
qed

lemma postgres_Claim_law:
  assumes "tables_ok t" "uint (Index e) < 2 ^ 31" "postgres_Claim subj e t = (q, t')"
  shows "tables_ok t' \<and>
    (tables_held t' = tables_held t \<or>
     (tables_held t subj = None \<and> (\<forall>s. tables_held t s \<noteq> Some e) \<and>
      tables_held t' = (tables_held t)(subj \<mapsto> e))) \<and>
    (\<forall>stored. q = Inr (stored, True) \<longrightarrow> tables_held t' subj = Some stored) \<and>
    ((\<exists>err. q = Inl err) \<or> (\<exists>stored. q = Inr (stored, False)) \<longrightarrow> tables_held t' = tables_held t)"
  using assms(3) unfolding postgres_Claim_def
proof (cases rule: statement_cases)
  case (1 os)
  let ?t = "t\<lparr>db_outages := os\<rparr>"
  let ?free = "\<not> slot_taken (ListID e) (uint (Index e)) ?t"
  obtain a t1 where c: "claim_insert ?free subj e ?t = (a, t1)" by fastforce
  have ok: "tables_ok t1"
    using claim_insert_ok [OF _ assms(2) _ c] assms(1) by (auto simp: slot_taken_def)
  from c show ?thesis
  proof (cases rule: claim_insert_cases)
    case None: 1
    obtain r t2 where r: "postgres_Entry subj t1 = (r, t2)" by fastforce
    from postgres_Entry_law [OF ok r] None(2)
    have "tables_ok t2" "tables_held t2 = tables_held t" "\<forall>found. r = Inr found \<longrightarrow> found = tables_held t subj"
      by simp_all
    with 1 None c r show ?thesis by (auto split: sum.splits option.splits)
  next
    case 2
    with 1 c assms(1) show ?thesis by auto
  next
    case 3
    have rows: "rows_ok (status_entries t1)" "rows_ok (status_entries t)"
      using ok assms(1) by (simp_all add: tables_ok_def)
    have "tables_held t subj = None"
      using 3(4) by (simp add: tables_held_def entry_select_None_iff)
    moreover have "tables_held t s \<noteq> Some e" for s
    proof
      assume "tables_held t s = Some e"
      then obtain r where r: "r \<in> set (status_entries t)" "row_entry r = e"
        using rows(2) by (auto simp: tables_held_def entry_select_iff)
      then have "row_at (ListID e) (uint (Index e)) r"
        using uint_small [of "er_index r"] rows(2) by (auto simp: row_entry_def row_at_def rows_ok_def)
      with r(1) 3(2) show False by (auto simp: slot_taken_def)
    qed
    moreover have "tables_held t1 = (tables_held t)(subj \<mapsto> e)"
    proof
      fix s
      show "tables_held t1 s = ((tables_held t)(subj \<mapsto> e)) s"
      proof (cases "find (\<lambda>r. er_subject r = s) (status_entries t)")
        case None
        then show ?thesis
          by (simp add: 3(3) tables_held_def entry_select_def find_snoc)
      next
        case (Some r)
        from find_Some_in [OF Some] 3(4) have "s \<noteq> subj" by auto
        with Some show ?thesis
          by (simp add: 3(3) tables_held_def entry_select_def find_snoc)
      qed
    qed
    ultimately show ?thesis using 1 3 c ok by auto
  qed
next
  case (2 os)
  then show ?thesis using assms(1) by simp
qed

interpretation postgres_store: status_store postgresStatusListStore tables_ok
    "\<lambda>index. uint index < 2 ^ 31" tables_held
proof unfold_locales
  fix s subj r s'
  assume "tables_ok s" "store_Entry postgresStatusListStore subj s = (r, s')"
  then show "tables_ok s' \<and> tables_held s' = tables_held s \<and>
      (\<forall>found. r = Inr found \<longrightarrow> found = tables_held s subj)"
    by (intro postgres_Entry_law) (simp_all add: postgresStatusListStore_def)
next
  fix s l i s'
  assume "tables_ok s" "store_ReserveIndex postgresStatusListStore l s = (i, s')"
  then show "tables_ok s' \<and> tables_held s' = tables_held s \<and>
      (\<forall>index. i = Inr (Some index) \<longrightarrow> uint index < 2 ^ 31)"
    by (intro postgres_ReserveIndex_law) (simp_all add: postgresStatusListStore_def)
next
  fix s e subj q s'
  assume "tables_ok s" "uint (Index e) < 2 ^ 31" "store_Claim postgresStatusListStore subj e s = (q, s')"
  then show "tables_ok s' \<and>
    (tables_held s' = tables_held s \<or>
     (tables_held s subj = None \<and> (\<forall>t. tables_held s t \<noteq> Some e) \<and>
      tables_held s' = (tables_held s)(subj \<mapsto> e))) \<and>
    (\<forall>stored. q = Inr (stored, True) \<longrightarrow> tables_held s' subj = Some stored) \<and>
    ((\<exists>err. q = Inl err) \<or> (\<exists>stored. q = Inr (stored, False)) \<longrightarrow> tables_held s' = tables_held s)"
    by (intro postgres_Claim_law) (simp_all add: postgresStatusListStore_def)
qed

end
