(* ===== verification/Status_Interleaving.thy ===== *)
theory Status_Interleaving
  imports Status_Allocation
begin

text \<open>
  The revocation column of \<open>status_list_entries\<close>
  (\<open>PostgresStatusListRevocations\<close>, \<open>status_list_serve.go\<close>) and the concurrent runs of
  \<open>Allocate\<close>: every call is cut at its SQL statements, a statement may fail with or without
  having taken effect, and calls, revocations and the registration of further lists
  interleave freely.  In every state of such a run an allocated entry belongs to one
  subject, and what a call has handed out is what the table says from then on.
\<close>

section \<open>Revocations\<close>

definition revoke_row :: "string \<Rightarrow> int \<Rightarrow> entry_row \<Rightarrow> entry_row" where
  "revoke_row subj now r =
    (if er_subject r = subj \<and> er_revoked_at r = None then r\<lparr>er_revoked_at := Some now\<rparr> else r)"

definition Revoke :: "string \<Rightarrow> int \<Rightarrow> status_tables \<Rightarrow> (alloc_error, unit) result \<times> status_tables" where
  "Revoke subjectID now t =
    (let subj = trim_space subjectID
     in if subj = '''' then (Inl EmptySubject, t)
        else statement (\<lambda>t1.
          let t2 = t1\<lparr>status_entries := map (revoke_row subj now) (status_entries t1)\<rparr>
          in if \<exists>r\<in>set (status_entries t1). er_subject r = subj \<and> er_revoked_at r = None
             then (Inr (), t2)
             else statement (\<lambda>t3.
               if \<exists>r\<in>set (status_entries t3). er_subject r = subj then (Inr (), t3)
               else (Inl NoEntryToRevoke, t3)) t2) t)"

definition RevokedIndices :: "int \<Rightarrow> status_tables \<Rightarrow> (alloc_error, 32 word list) result \<times> status_tables" where
  "RevokedIndices listID = statement (\<lambda>t.
     (Inr (map (\<lambda>r. of_int (er_index r))
            (filter (\<lambda>r. er_list r = listID \<and> er_revoked_at r \<noteq> None) (status_entries t))), t))"

definition revoked_subject :: "string \<Rightarrow> status_tables \<Rightarrow> bool" where
  "revoked_subject subj t = (\<exists>r\<in>set (status_entries t). er_subject r = subj \<and> er_revoked_at r \<noteq> None)"

lemma revoke_row_simps [simp]:
  "er_subject (revoke_row subj now r) = er_subject r" "er_list (revoke_row subj now r) = er_list r"
  "er_index (revoke_row subj now r) = er_index r" "er_origin (revoke_row subj now r) = er_origin r"
  "row_entry (revoke_row subj now r) = row_entry r"
  by (simp_all add: revoke_row_def row_entry_def)

lemma revoked_subject_outages [simp]: "revoked_subject s (t\<lparr>db_outages := os\<rparr>) = revoked_subject s t"
  by (simp add: revoked_subject_def)

section \<open>What every step keeps of the rows\<close>

text \<open>Rows are added for new subjects and marked revoked; nothing else happens to them.\<close>

definition rows_kept :: "entry_row list \<Rightarrow> entry_row list \<Rightarrow> bool" where
  "rows_kept rs rs' \<longleftrightarrow>
    (\<forall>r\<in>set rs. \<exists>q\<in>set rs'. er_subject q = er_subject r \<and> er_list q = er_list r \<and> er_index q = er_index r \<and>
       er_origin q = er_origin r \<and> (er_revoked_at r \<noteq> None \<longrightarrow> er_revoked_at q = er_revoked_at r)) \<and>
    (\<forall>q\<in>set rs'. er_origin q = HashOrigin \<longrightarrow>
       (\<exists>r\<in>set rs. er_subject r = er_subject q \<and> er_list r = er_list q \<and> er_index r = er_index q \<and>
          er_origin r = HashOrigin))"

lemma rows_kept_refl [simp]: "rows_kept rs rs"
  by (auto simp: rows_kept_def)

lemma rows_kept_trans:
  assumes "rows_kept rs qs" "rows_kept qs ps"
  shows "rows_kept rs ps"
  unfolding rows_kept_def
proof (intro conjI ballI impI)
  fix r assume "r \<in> set rs"
  with assms(1) obtain q where q: "q \<in> set qs" "er_subject q = er_subject r" "er_list q = er_list r"
      "er_index q = er_index r" "er_origin q = er_origin r"
      "er_revoked_at r \<noteq> None \<longrightarrow> er_revoked_at q = er_revoked_at r"
    unfolding rows_kept_def by blast
  with assms(2) obtain p where p: "p \<in> set ps" "er_subject p = er_subject q" "er_list p = er_list q"
      "er_index p = er_index q" "er_origin p = er_origin q"
      "er_revoked_at q \<noteq> None \<longrightarrow> er_revoked_at p = er_revoked_at q"
    unfolding rows_kept_def by blast
  with q show "\<exists>q\<in>set ps. er_subject q = er_subject r \<and> er_list q = er_list r \<and> er_index q = er_index r \<and>
      er_origin q = er_origin r \<and> (er_revoked_at r \<noteq> None \<longrightarrow> er_revoked_at q = er_revoked_at r)"
    by (intro bexI [of _ p]) simp_all
next
  fix p assume "p \<in> set ps" "er_origin p = HashOrigin"
  with assms(2) obtain q where q: "q \<in> set qs" "er_subject q = er_subject p" "er_list q = er_list p"
      "er_index q = er_index p" "er_origin q = HashOrigin"
    unfolding rows_kept_def by blast
  with assms(1) obtain r where "r \<in> set rs" "er_subject r = er_subject q" "er_list r = er_list q"
      "er_index r = er_index q" "er_origin r = HashOrigin"
    unfolding rows_kept_def by blast
  with q show "\<exists>r\<in>set rs. er_subject r = er_subject p \<and> er_list r = er_list p \<and> er_index r = er_index p \<and>
      er_origin r = HashOrigin"
    by (intro bexI [of _ r]) simp_all
qed

lemma rows_kept_snoc: "rows_kept rs (rs @ [claimed_row subj e])"
  by (auto simp: rows_kept_def)

lemma rows_kept_revoke: "rows_kept rs (map (revoke_row subj now) rs)"
  unfolding rows_kept_def
proof (intro conjI ballI impI)
  fix r assume "r \<in> set rs"
  then show "\<exists>q\<in>set (map (revoke_row subj now) rs). er_subject q = er_subject r \<and> er_list q = er_list r \<and>
      er_index q = er_index r \<and> er_origin q = er_origin r \<and>
      (er_revoked_at r \<noteq> None \<longrightarrow> er_revoked_at q = er_revoked_at r)"
    by (intro bexI [of _ "revoke_row subj now r"]) (auto simp: revoke_row_def)
qed auto

lemma rows_ok_revoke: "rows_ok (map (revoke_row subj now) rs) = rows_ok rs"
proof -
  have inj: "revoke_row subj now q = revoke_row subj now r \<longleftrightarrow> q = r"
    if "distinct (map er_subject rs)" "q \<in> set rs" "r \<in> set rs" for q r
    using that subject_row_unique [OF that] by (metis revoke_row_simps(1))
  have [simp]: "row_at l i (revoke_row subj now q) = row_at l i q" for l i q
    by (simp add: row_at_def)
  have "map er_subject (map (revoke_row subj now) rs) = map er_subject rs" by simp
  then show ?thesis
    unfolding rows_ok_def using inj by (simp only: list.set_map ball_simps revoke_row_simps) auto
qed

lemma rows_kept_entry:
  assumes "rows_kept rs rs'" "r \<in> set rs"
  obtains q where "q \<in> set rs'" "er_subject q = er_subject r" "row_entry q = row_entry r"
    "er_origin q = er_origin r"
  using assms unfolding rows_kept_def row_entry_def by fastforce

lemma rows_kept_held:
  assumes "rows_ok (status_entries t)" "rows_ok (status_entries t')"
    "rows_kept (status_entries t) (status_entries t')" "entry_select s t = Some e"
  shows "entry_select s t' = Some e"
  using assms(4) rows_kept_entry [OF assms(3)]
  unfolding entry_select_iff [OF assms(1)] entry_select_iff [OF assms(2)] by metis

lemma rows_kept_revoked:
  assumes "rows_kept (status_entries t) (status_entries t')" "revoked_subject s t"
  shows "revoked_subject s t'"
  using assms unfolding rows_kept_def revoked_subject_def by metis
section \<open>One call, statement by statement\<close>

datatype alloc_phase =
    AtEntry
  | AtReserve nat
  | AtRegistered
  | AtSnapshot nat "32 word"
  | AtInsert nat "32 word" bool
  | AtConfirm nat
  | Returned "(alloc_error, status_list_entry) result"

record alloc_call =
  ac_list :: int
  ac_subject :: string
  ac_phase :: alloc_phase

text \<open>\<open>AtReserve n\<close> has \<open>n\<close> of the \<open>maxClaimAttempts\<close> rounds left; \<open>AtInsert\<close> carries what the
  subquery of the insert saw.\<close>

fun call_step :: "int \<Rightarrow> string \<Rightarrow> alloc_phase \<Rightarrow> status_tables \<Rightarrow> alloc_phase \<times> status_tables" where
  "call_step l subj AtEntry t =
     (case entry_select subj t of
        Some e \<Rightarrow> (Returned (Inr e), t)
      | None \<Rightarrow> (AtReserve maxClaimAttempts, t))"
| "call_step l subj (AtReserve 0) t = (Returned (Inl (NoFreeEntry l)), t)"
| "call_step l subj (AtReserve (Suc left)) t =
     (case reserve_update l t of
        (Some index, t') \<Rightarrow> (AtSnapshot left index, t')
      | (None, t') \<Rightarrow> (AtRegistered, t'))"
| "call_step l subj AtRegistered t =
     (Returned (Inl (if list_registered l t then ListFull l else ListNotRegistered l)), t)"
| "call_step l subj (AtSnapshot left index) t =
     (AtInsert left index (\<not> slot_taken l (uint index) t), t)"
| "call_step l subj (AtInsert left index free) t =
     (case claim_insert free subj \<lparr>ListID = l, Index = index\<rparr> t of
        (InsertedEntry e, t') \<Rightarrow> (Returned (Inr e), t')
      | (UniqueViolation, t') \<Rightarrow> (AtReserve left, t')
      | (NoRowInserted, t') \<Rightarrow> (AtConfirm left, t'))"
| "call_step l subj (AtConfirm left) t =
     (case entry_select subj t of
        Some e \<Rightarrow> (Returned (Inr e), t)
      | None \<Rightarrow> (AtReserve left, t))"
| "call_step l subj (Returned r) t = (Returned r, t)"

text \<open>An undisturbed call of the machine does what \<open>Allocate\<close> does on a database that answers.\<close>

fun run_call :: "nat \<Rightarrow> int \<Rightarrow> string \<Rightarrow> alloc_phase \<Rightarrow> status_tables \<Rightarrow> alloc_phase \<times> status_tables" where
  "run_call 0 l subj ph t = (ph, t)"
| "run_call (Suc n) l subj ph t = (case call_step l subj ph t of (ph', t') \<Rightarrow> run_call n l subj ph' t')"

lemma run_call_Returned [simp]: "run_call n l subj (Returned r) t = (Returned r, t)"
  by (induction n) simp_all

lemma run_call_more:
  "run_call n l subj ph t = (Returned r, t') \<Longrightarrow> run_call (Suc n) l subj ph t = (Returned r, t')"
proof (induction n arbitrary: ph t)
  case 0
  then show ?case by simp
next
  case (Suc n)
  obtain ph1 t1 where c: "call_step l subj ph t = (ph1, t1)" by fastforce
  with Suc.prems have "run_call n l subj ph1 t1 = (Returned r, t')" by simp
  from Suc.IH [OF this] c show ?case by simp
qed

lemma statement_healthy: "db_outages t = [] \<Longrightarrow> statement k t = k t"
  by (simp add: statement_def)

lemma reserve_update_outages: "reserve_update l t = (i, t') \<Longrightarrow> db_outages t' = db_outages t"
  by (auto simp: reserve_update_def split: option.splits)

lemma claim_insert_outages: "claim_insert free subj e t = (a, t') \<Longrightarrow> db_outages t' = db_outages t"
  by (auto simp: claim_insert_def split: if_splits)

lemma postgres_store_simps [simp]:
  "store_Entry postgresStatusListStore = postgres_Entry"
  "store_ReserveIndex postgresStatusListStore = postgres_ReserveIndex"
  "store_Claim postgresStatusListStore = postgres_Claim"
  by (simp_all add: postgresStatusListStore_def)

lemmas healthy_statements = postgres_Entry_def postgres_ReserveIndex_def postgres_Claim_def statement_healthy

lemma run_call_claim_loop:
  assumes "db_outages t = []" "claim_loop postgresStatusListStore l subj left t = (r, t')"
  shows "run_call (4 * left + 2) l subj (AtReserve left) t = (Returned r, t')"
  using assms
proof (induction left arbitrary: t)
  case 0
  then show ?case by (simp add: numeral_2_eq_2)
next
  case (Suc left)
  define m where "m = 4 * left + 2"
  have more: "4 * Suc left + 2 = Suc (Suc (Suc (Suc m)))" by (simp add: m_def)
  note IH = Suc.IH [folded m_def]
  obtain i t1 where u: "reserve_update l t = (i, t1)" by fastforce
  have t1: "db_outages t1 = []" using reserve_update_outages [OF u] Suc.prems(1) by simp
  show ?case
  proof (cases i)
    case None
    then show ?thesis
      using Suc.prems u t1 unfolding more
      by (auto simp: healthy_statements split: if_splits)
  next
    case (Some index)
    let ?e = "\<lparr>ListID = l, Index = index\<rparr>"
    obtain a t2 where c: "claim_insert (\<not> slot_taken l (uint index) t1) subj ?e t1 = (a, t2)" by fastforce
    have t2: "db_outages t2 = []" using claim_insert_outages [OF c] t1 by simp
    show ?thesis
    proof (cases a)
      case (InsertedEntry e)
      then show ?thesis
        using Suc.prems Some u t1 t2 c unfolding more by (simp add: healthy_statements)
    next
      case UniqueViolation
      then have "claim_loop postgresStatusListStore l subj left t2 = (r, t')"
        using Suc.prems Some u t1 t2 c by (simp add: healthy_statements)
      then have "run_call (Suc m) l subj (AtReserve left) t2 = (Returned r, t')"
        by (rule run_call_more [OF IH [OF t2]])
      then show ?thesis
        using UniqueViolation Some u c unfolding more by simp
    next
      case NoRowInserted
      show ?thesis
      proof (cases "entry_select subj t2")
        case None
        then have "claim_loop postgresStatusListStore l subj left t2 = (r, t')"
          using NoRowInserted Suc.prems Some u t1 t2 c by (simp add: healthy_statements)
        from IH [OF t2 this] None NoRowInserted show ?thesis
          using Some u c unfolding more by simp
      next
        case (Some e)
        then show ?thesis
          using NoRowInserted Suc.prems \<open>i = Some index\<close> u t1 t2 c unfolding more
          by (simp add: healthy_statements)
      qed
    qed
  qed
qed

lemma Allocate_is_a_run:
  assumes "db_outages t = []" "trim_space subjectID \<noteq> ''''"
    and "Allocate postgresStatusListStore l subjectID t = (r, t')"
  shows "run_call (4 * maxClaimAttempts + 3) l (trim_space subjectID) AtEntry t = (Returned r, t')"
proof -
  define m where "m = 4 * maxClaimAttempts + 2"
  have m: "4 * maxClaimAttempts + 3 = Suc m" by (simp add: m_def)
  show ?thesis
  proof (cases "entry_select (trim_space subjectID) t")
    case None
    with assms have "claim_loop postgresStatusListStore l (trim_space subjectID) maxClaimAttempts t = (r, t')"
      by (simp add: Allocate_def Let_def healthy_statements)
    from run_call_claim_loop [OF assms(1) this] None show ?thesis
      unfolding m by (simp add: m_def)
  next
    case (Some e)
    with assms show ?thesis
      unfolding m by (simp add: Allocate_def Let_def healthy_statements)
  qed
qed

section \<open>Concurrent calls\<close>

record alloc_system =
  sys_tables :: status_tables
  sys_calls :: "alloc_call list"

text \<open>
  The rules: a call executes its next statement; a statement fails, having taken effect or
  not; a call arrives; an entry is revoked; an operator registers a further list.
\<close>

inductive alloc_step :: "alloc_system \<Rightarrow> alloc_system \<Rightarrow> bool" where
  alloc_call: "i < length (sys_calls s) \<Longrightarrow> c = sys_calls s ! i \<Longrightarrow>
     call_step (ac_list c) (ac_subject c) (ac_phase c) (sys_tables s) = (ph, t) \<Longrightarrow>
     alloc_step s (s\<lparr>sys_tables := t, sys_calls := (sys_calls s)[i := c\<lparr>ac_phase := ph\<rparr>]\<rparr>)"
| alloc_fail: "i < length (sys_calls s) \<Longrightarrow> c = sys_calls s ! i \<Longrightarrow> \<forall>r. ac_phase c \<noteq> Returned r \<Longrightarrow>
     t = sys_tables s \<or> t = snd (call_step (ac_list c) (ac_subject c) (ac_phase c) (sys_tables s)) \<Longrightarrow>
     alloc_step s (s\<lparr>sys_tables := t, sys_calls := (sys_calls s)[i := c\<lparr>ac_phase := Returned (Inl StoreFailed)\<rparr>]\<rparr>)"
| alloc_arrives: "trim_space subjectID \<noteq> '''' \<Longrightarrow>
     alloc_step s (s\<lparr>sys_calls := sys_calls s @ [\<lparr>ac_list = l, ac_subject = trim_space subjectID, ac_phase = AtEntry\<rparr>]\<rparr>)"
| alloc_revoke: "Revoke subjectID now (sys_tables s) = (r, t) \<Longrightarrow> alloc_step s (s\<lparr>sys_tables := t\<rparr>)"
| alloc_register: "\<not> list_registered l (sys_tables s) \<Longrightarrow> 0 \<le> n \<Longrightarrow> n < 2 ^ 31 \<Longrightarrow>
     alloc_step s (s\<lparr>sys_tables := (sys_tables s)\<lparr>status_cursors :=
       status_cursors (sys_tables s) @ [\<lparr>cu_list = l, cu_next = 0, cu_size = n\<rparr>]\<rparr>\<rparr>)"

inductive alloc_reach :: "alloc_system \<Rightarrow> alloc_system \<Rightarrow> bool" where
  alloc_start: "alloc_reach s s"
| alloc_next: "alloc_reach s s' \<Longrightarrow> alloc_step s' s'' \<Longrightarrow> alloc_reach s s''"

section \<open>The invariant\<close>

text \<open>
  What a call relies on between two of its statements: the index it holds is in range, an
  insert that saw its slot free is up against allocated rows only, and what it returned is
  in the table.
\<close>

fun phase_ok :: "entry_row list \<Rightarrow> alloc_call \<Rightarrow> alloc_phase \<Rightarrow> bool" where
  "phase_ok rs c (AtSnapshot left index) = (uint index < 2 ^ 31)"
| "phase_ok rs c (AtInsert left index free) =
     (uint index < 2 ^ 31 \<and>
      (free \<longrightarrow> (\<forall>r\<in>set rs. row_at (ac_list c) (uint index) r \<longrightarrow> er_origin r = AllocatedOrigin)))"
| "phase_ok rs c (Returned (Inr e)) = (\<exists>r\<in>set rs. er_subject r = ac_subject c \<and> row_entry r = e)"
| "phase_ok rs c _ = True"

definition call_ok :: "entry_row list \<Rightarrow> alloc_call \<Rightarrow> bool" where
  "call_ok rs c = phase_ok rs c (ac_phase c)"

definition system_ok :: "alloc_system \<Rightarrow> bool" where
  "system_ok s \<longleftrightarrow> tables_ok (sys_tables s) \<and>
     (\<forall>c\<in>set (sys_calls s). call_ok (status_entries (sys_tables s)) c)"

lemma phase_ok_kept:
  assumes "rows_kept rs rs'" "phase_ok rs c ph"
  shows "phase_ok rs' c ph"
  using assms(2)
proof (cases rule: phase_ok.cases [of "(rs, c, ph)"])
  case (2 rs0 c0 left index free)
  then have idx: "uint index < 2 ^ 31"
    and free: "free \<Longrightarrow> r \<in> set rs \<Longrightarrow> row_at (ac_list c) (uint index) r \<Longrightarrow> er_origin r = AllocatedOrigin" for r
    using assms(2) by auto
  have "er_origin q = AllocatedOrigin" if "free" "q \<in> set rs'" "row_at (ac_list c) (uint index) q" for q
  proof (rule ccontr)
    assume "er_origin q \<noteq> AllocatedOrigin"
    then have "er_origin q = HashOrigin" by (cases "er_origin q") simp_all
    with assms(1) that(2) obtain r where "r \<in> set rs" "er_list r = er_list q" "er_index r = er_index q"
        "er_origin r = HashOrigin"
      unfolding rows_kept_def by blast
    with free [OF that(1), of r] that(3) show False by (auto simp: row_at_def)
  qed
  with idx 2 show ?thesis by simp
next
  case (3 rs0 c0 e)
  then obtain r where r: "r \<in> set rs" "er_subject r = ac_subject c" "row_entry r = e"
    using assms(2) by auto
  from rows_kept_entry [OF assms(1) r(1)] r 3 show ?thesis by (metis Pair_inject phase_ok.simps(3))
qed simp_all

lemma call_ok_kept: "rows_kept rs rs' \<Longrightarrow> call_ok rs c \<Longrightarrow> call_ok rs' c"
  unfolding call_ok_def by (rule phase_ok_kept)

lemma phase_ok_update [simp]: "phase_ok rs (c\<lparr>ac_phase := p\<rparr>) ph = phase_ok rs c ph"
  by (cases ph rule: phase_ok.cases [of "(rs, c, ph)" for ph]) simp_all

lemma calls_ok_update:
  assumes "\<forall>d\<in>set cs. call_ok rs d" "rows_kept rs rs'" "phase_ok rs' c ph"
  shows "\<forall>d\<in>set (cs[i := c\<lparr>ac_phase := ph\<rparr>]). call_ok rs' d"
proof
  fix d assume "d \<in> set (cs[i := c\<lparr>ac_phase := ph\<rparr>])"
  then have "d = c\<lparr>ac_phase := ph\<rparr> \<or> d \<in> set cs"
    using set_update_subset_insert by fastforce
  then show "call_ok rs' d"
    using assms call_ok_kept by (auto simp: call_ok_def)
qed

lemma Revoke_tables:
  assumes "Revoke subjectID now t = (r, t')"
  shows "status_cursors t' = status_cursors t \<and>
    (status_entries t' = status_entries t \<or>
     status_entries t' = map (revoke_row (trim_space subjectID) now) (status_entries t))"
  using assms by (auto simp: Revoke_def Let_def statement_def split: if_splits list.splits)

text \<open>Every statement of a call keeps the tables in order, the rows of all others and what the
  call relies on next.\<close>

lemma call_step_ok:
  assumes "tables_ok t" "call_ok (status_entries t) c"
    and "call_step (ac_list c) (ac_subject c) (ac_phase c) t = (ph, t')"
  shows "tables_ok t' \<and> rows_kept (status_entries t) (status_entries t') \<and> phase_ok (status_entries t') c ph"
proof (cases "ac_phase c")
  case AtEntry
  then show ?thesis
    using assms by (auto simp: tables_ok_def entry_select_iff split: option.splits)
next
  case (AtReserve left)
  show ?thesis
  proof (cases left)
    case 0
    then show ?thesis using AtReserve assms by auto
  next
    case (Suc left')
    obtain i t1 where u: "reserve_update (ac_list c) t = (i, t1)" by fastforce
    from reserve_update_ok [OF assms(1) u] u Suc AtReserve assms(3) show ?thesis
      by (auto split: option.splits)
  qed
next
  case AtRegistered
  then show ?thesis using assms by auto
next
  case (AtSnapshot left index)
  then show ?thesis using assms by (auto simp: call_ok_def slot_taken_def)
next
  case (AtInsert left index free)
  let ?e = "\<lparr>ListID = ac_list c, Index = index\<rparr>"
  obtain a t1 where u: "claim_insert free (ac_subject c) ?e t = (a, t1)" by fastforce
  have ok: "tables_ok t1"
    using claim_insert_ok [OF assms(1) _ _ u] AtInsert assms(2) by (simp add: call_ok_def)
  from u show ?thesis
  proof (cases rule: claim_insert_cases)
    case 1
    with u AtInsert assms(3) ok show ?thesis by auto
  next
    case 2
    with u AtInsert assms(3) ok show ?thesis by auto
  next
    case 3
    with u AtInsert assms(3) ok show ?thesis by (auto simp: rows_kept_snoc)
  qed
next
  case (AtConfirm left)
  then show ?thesis
    using assms by (auto simp: tables_ok_def entry_select_iff split: option.splits)
next
  case (Returned r)
  then show ?thesis using assms by (auto simp: call_ok_def)
qed

lemma alloc_step_ok:
  assumes "alloc_step s s'" "system_ok s"
  shows "system_ok s' \<and> rows_kept (status_entries (sys_tables s)) (status_entries (sys_tables s'))"
  using assms
proof (cases rule: alloc_step.cases)
  case (alloc_call i c ph t)
  have c: "c \<in> set (sys_calls s)" using alloc_call by simp
  have step: "tables_ok t \<and> rows_kept (status_entries (sys_tables s)) (status_entries t) \<and>
      phase_ok (status_entries t) c ph"
    using call_step_ok [OF _ _ alloc_call(4)] c assms(2) by (simp add: system_ok_def)
  with calls_ok_update [of "sys_calls s" "status_entries (sys_tables s)" "status_entries t" c ph i] assms(2) alloc_call(1)
  show ?thesis by (simp add: system_ok_def)
next
  case (alloc_fail i c t)
  have c: "c \<in> set (sys_calls s)" using alloc_fail by simp
  obtain ph t1 where s1: "call_step (ac_list c) (ac_subject c) (ac_phase c) (sys_tables s) = (ph, t1)"
    by fastforce
  have "tables_ok t1 \<and> rows_kept (status_entries (sys_tables s)) (status_entries t1)"
    using call_step_ok [OF _ _ s1] c assms(2) by (simp add: system_ok_def)
  then have step: "tables_ok t \<and> rows_kept (status_entries (sys_tables s)) (status_entries t)"
    using alloc_fail(5) s1 assms(2) by (auto simp: system_ok_def)
  with calls_ok_update [of "sys_calls s" "status_entries (sys_tables s)" _ c "Returned (Inl StoreFailed)" i]
    assms(2) alloc_fail(1)
  show ?thesis by (simp add: system_ok_def)
next
  case (alloc_arrives subjectID l)
  then show ?thesis using assms(2) by (auto simp: system_ok_def call_ok_def)
next
  case (alloc_revoke subjectID now r t)
  from Revoke_tables [OF alloc_revoke(2)] assms(2)
  have "tables_ok t \<and> rows_kept (status_entries (sys_tables s)) (status_entries t)"
    by (auto simp: system_ok_def tables_ok_def rows_ok_revoke rows_kept_revoke)
  with alloc_revoke(1) assms(2) call_ok_kept show ?thesis
    by (fastforce simp: system_ok_def)
next
  case (alloc_register l n)
  then show ?thesis
    using assms(2) by (auto simp: system_ok_def tables_ok_def cursors_ok_def list_registered_def)
qed

lemma returned_row:
  assumes "system_ok s" "c \<in> set (sys_calls s)" "ac_phase c = Returned (Inr e)"
  obtains r where "r \<in> set (status_entries (sys_tables s))" "er_subject r = ac_subject c" "row_entry r = e"
proof -
  have "phase_ok (status_entries (sys_tables s)) c (Returned (Inr e))"
    using assms unfolding system_ok_def call_ok_def by metis
  with that show ?thesis by auto
qed

lemma alloc_reach_ok:
  assumes "alloc_reach s s'" "system_ok s"
  shows "system_ok s' \<and> rows_kept (status_entries (sys_tables s)) (status_entries (sys_tables s'))"
  using assms
proof (induction rule: alloc_reach.induct)
  case (alloc_start s)
  then show ?case by simp
next
  case (alloc_next s s' s'')
  from alloc_step_ok [OF alloc_next.hyps(2)] alloc_next.IH [OF alloc_next.prems] show ?case
    by (blast intro: rows_kept_trans)
qed

text \<open>
  C38: revocation entries are never shared.  Start from tables as the migration leaves them,
  where every row is an inherited one, and let any number of allocations run concurrently,
  with database failures, revocations and new lists in between.  Two calls for one subject
  that return an entry return the same one; if two calls for different subjects return the
  same entry, both subjects held it before anything ran.
\<close>

theorem entries_are_never_shared:
  assumes "alloc_reach s s'" "tables_ok (sys_tables s)" "sys_calls s = []"
    and "\<forall>r\<in>set (status_entries (sys_tables s)). er_origin r = HashOrigin"
    and "c \<in> set (sys_calls s')" "ac_phase c = Returned (Inr e)"
    and "d \<in> set (sys_calls s')" "ac_phase d = Returned (Inr f)"
  shows "(ac_subject c = ac_subject d \<longrightarrow> e = f) \<and>
    (ac_subject c \<noteq> ac_subject d \<and> e = f \<longrightarrow>
       entry_select (ac_subject c) (sys_tables s) = Some e \<and>
       entry_select (ac_subject d) (sys_tables s) = Some e)"
proof -
  have ok: "system_ok s'" and kept: "rows_kept (status_entries (sys_tables s)) (status_entries (sys_tables s'))"
    using alloc_reach_ok [OF assms(1)] assms(2,3) by (simp_all add: system_ok_def)
  have rows: "rows_ok (status_entries (sys_tables s))" "rows_ok (status_entries (sys_tables s'))"
    using assms(2) ok by (simp_all add: tables_ok_def system_ok_def)
  let ?rs = "status_entries (sys_tables s')"
  obtain r where r: "r \<in> set ?rs" "er_subject r = ac_subject c" "row_entry r = e"
    using ok assms(5,6) by (rule returned_row)
  obtain q where q: "q \<in> set ?rs" "er_subject q = ac_subject d" "row_entry q = f"
    using ok assms(7,8) by (rule returned_row)
  have inherited: "entry_select (er_subject p) (sys_tables s) = Some (row_entry p)"
    if "p \<in> set ?rs" "er_origin p = HashOrigin" for p
    using kept that unfolding rows_kept_def entry_select_iff [OF rows(1)] row_entry_def by metis
  have same: "p = p'" if "p \<in> set ?rs" "p' \<in> set ?rs" "er_origin p = AllocatedOrigin" "row_entry p = row_entry p'" for p p'
    using that rows(2) row_entry_eq_iff [OF rows(2) that(1,2)] unfolding rows_ok_def by metis
  show ?thesis
  proof (intro conjI impI)
    assume "ac_subject c = ac_subject d"
    with r q subject_row_unique [of ?rs r q] rows(2) show "e = f"
      by (simp add: rows_ok_def)
  next
    assume "ac_subject c \<noteq> ac_subject d \<and> e = f"
    then have "er_origin r = HashOrigin" "er_origin q = HashOrigin"
      using r q same [of r q] same [of q r] by (metis entry_origin.exhaust)+
    with inherited [of r] inherited [of q] r q \<open>ac_subject c \<noteq> ac_subject d \<and> e = f\<close>
    show "entry_select (ac_subject c) (sys_tables s) = Some e"
      "entry_select (ac_subject d) (sys_tables s) = Some e" by simp_all
  qed
qed

end
