(* ===== verification/Status_Codec.thy ===== *)
theory Status_Codec
  imports Prelude "HOL-Library.Word"
begin

unbundle bit_operations_syntax

text \<open>
  The status-list bit reader of
  \<open>backend/internal/auth/oid4vp/status/codec/bitreader.go\<close>. Indices and widths are
  Go's 64-bit unsigned integers, so \<open>index * width\<close> and the end of the entry wrap
  around; an out-of-range slice access is the panic the Go runtime raises.
\<close>

datatype bit_order = MSBFirst | LSBFirst | OtherBitOrder "8 word"

datatype codec_error =
    ErrInvalidStatusSize | ErrIndexOutOfRange | ErrUnsupportedBitOrder | PanicSliceIndex

definition bit_of_byte :: "8 word \<Rightarrow> nat \<Rightarrow> 64 word" where
  "bit_of_byte b shift = ucast (drop_bit shift b AND 1)"

text \<open>The loop over the offsets \<open>offset, offset + 1, ...\<close> of one entry.\<close>

fun read_loop ::
    "8 word list \<Rightarrow> bit_order \<Rightarrow> 64 word \<Rightarrow> nat \<Rightarrow> nat \<Rightarrow> 64 word \<Rightarrow> (codec_error, 64 word) result" where
  "read_loop data order startBit offset 0 acc = Inr acc"
| "read_loop data order startBit offset (Suc left) acc =
     (let absoluteBit = startBit + of_nat offset;
          byteIndex = unat absoluteBit div 8;
          bitInByte = unat absoluteBit mod 8
      in case order of
           MSBFirst \<Rightarrow>
             (if byteIndex < length data
              then read_loop data order startBit (Suc offset) left
                     (push_bit 1 acc OR bit_of_byte (data ! byteIndex) (7 - bitInByte))
              else Inl PanicSliceIndex)
         | LSBFirst \<Rightarrow>
             (if byteIndex < length data
              then read_loop data order startBit (Suc offset) left
                     (acc OR push_bit offset (bit_of_byte (data ! byteIndex) bitInByte))
              else Inl PanicSliceIndex)
         | OtherBitOrder _ \<Rightarrow> Inl ErrUnsupportedBitOrder)"

definition ReadStatusValue ::
    "8 word list \<Rightarrow> 64 word \<Rightarrow> 64 word \<Rightarrow> bit_order \<Rightarrow> (codec_error, 64 word) result" where
  "ReadStatusValue data index width order =
    (if width = 0 \<or> width > 8 then Inl ErrInvalidStatusSize
     else (let startBit = index * width; endBit = startBit + width
           in if endBit > of_nat (length data) * 8 then Inl ErrIndexOutOfRange
              else read_loop data order startBit 0 (unat width) 0))"

definition EntryCount :: "8 word list \<Rightarrow> 64 word \<Rightarrow> 64 word" where
  "EntryCount data width =
    (if width = 0 then 0 else of_nat (length data) * 8 div width)"

section \<open>Reference semantics\<close>

text \<open>Bit \<open>k\<close> of a bitstring in the two orders, and the number an entry denotes.\<close>

definition stream_bit :: "bit_order \<Rightarrow> 8 word list \<Rightarrow> nat \<Rightarrow> bool" where
  "stream_bit order data k =
    (if order = MSBFirst then bit (data ! (k div 8)) (7 - k mod 8)
     else bit (data ! (k div 8)) (k mod 8))"

fun entry_value :: "bit_order \<Rightarrow> 8 word list \<Rightarrow> nat \<Rightarrow> nat \<Rightarrow> nat" where
  "entry_value order data start 0 = 0"
| "entry_value order data start (Suc n) =
     (if order = MSBFirst
      then 2 * entry_value order data start n + of_bool (stream_bit order data (start + n))
      else entry_value order data start n + of_bool (stream_bit order data (start + n)) * 2 ^ n)"

lemma entry_value_less: "entry_value order data start n < 2 ^ n"
proof (induction n)
  case 0
  then show ?case by simp
next
  case (Suc n)
  then show ?case by (cases "stream_bit order data (start + n)") auto
qed

section \<open>Bit operations of the loop\<close>

lemma bit_of_byte_eq: "bit_of_byte b m = of_bool (bit b m)"
proof -
  have "drop_bit m b AND 1 = of_bool (bit b m)"
    by (simp add: and_one_eq bit_iff_odd_drop_bit mod_2_eq_odd)
  then show ?thesis
    by (simp add: bit_of_byte_def)
qed

lemma unat_shift_in:
  fixes r :: "64 word"
  assumes "unat r < 2 ^ n" and "n < 63"
  shows "unat (push_bit 1 r OR of_bool p) = 2 * unat r + of_bool p"
proof -
  have "push_bit 1 r AND of_bool p = (0 :: 64 word)"
    by (cases p) (simp_all add: and_one_eq push_bit_eq_mult mod_2_eq_odd)
  then have "push_bit 1 r OR of_bool p = push_bit 1 r + (of_bool p :: 64 word)"
    by (simp add: disjunctive_add_eq_or)
  also have "\<dots> = 2 * r + of_bool p"
    by (simp add: push_bit_eq_mult)
  also have "unat \<dots> = 2 * unat r + of_bool p"
  proof -
    have "(2::nat) ^ n \<le> 2 ^ 62"
      using assms(2) by (intro power_increasing) auto
    with assms(1) have "unat r < 2 ^ 62" by simp
    then show ?thesis
      by (cases p) (simp_all add: unat_word_ariths)
  qed
  finally show ?thesis .
qed

lemma unat_or_high:
  fixes r :: "64 word"
  assumes "unat r < 2 ^ n" and "n < 63"
  shows "unat (r OR push_bit n (of_bool p)) = unat r + of_bool p * 2 ^ n"
proof (cases p)
  case False
  then show ?thesis by simp
next
  case True
  have r: "r = take_bit n r"
    using assms(1) by (simp add: unsigned_take_bit_eq word_unat_eq_iff take_bit_nat_eq_self)
  have "r AND push_bit n 1 = 0"
    by (subst r, rule bit_word_eqI) (auto simp: bit_simps)
  then have "r OR push_bit n 1 = r + push_bit n 1"
    by (simp add: disjunctive_add_eq_or)
  moreover have "unat (push_bit n (1 :: 64 word)) = 2 ^ n"
    using assms(2) by (simp add: unsigned_push_bit_eq take_bit_nat_eq_self del: push_bit_of_1)
  moreover have "(2::nat) ^ n \<le> 2 ^ 62"
    using assms(2) by (intro power_increasing) auto
  ultimately show ?thesis
    using True assms(1) by (simp add: unat_word_ariths)
qed

text \<open>The loop computes the reference value when the entry lies inside the data.\<close>

lemma read_loop_correct:
  assumes "order = MSBFirst \<or> order = LSBFirst"
    and "unat startBit + offset + left \<le> 8 * length data" and "8 * length data < 2 ^ 64"
    and "offset + left \<le> 8" and "unat acc = entry_value order data (unat startBit) offset"
  shows "\<exists>v. read_loop data order startBit offset left acc = Inr v \<and>
           unat v = entry_value order data (unat startBit) (offset + left)"
  using assms
proof (induction left arbitrary: offset acc)
  case 0
  then show ?case by simp
next
  case (Suc left)
  let ?k = "unat startBit + offset"
  have k: "?k < 8 * length data" using Suc.prems by simp
  have abs: "unat (startBit + of_nat offset) = ?k"
    using k Suc.prems(3) by (simp add: unat_word_ariths unat_of_nat)
  have idx: "?k div 8 < length data"
    using k by (simp add: less_mult_imp_div_less mult.commute)
  have small: "unat acc < 2 ^ offset"
    using Suc.prems(5) entry_value_less by simp
  have "\<exists>acc'. read_loop data order startBit offset (Suc left) acc
      = read_loop data order startBit (Suc offset) left acc' \<and>
      unat acc' = entry_value order data (unat startBit) (Suc offset)"
  proof (cases "order = MSBFirst")
    case True
    let ?acc = "push_bit 1 acc OR bit_of_byte (data ! (?k div 8)) (7 - ?k mod 8)"
    have "read_loop data order startBit offset (Suc left) acc
        = read_loop data order startBit (Suc offset) left ?acc"
      using True idx by (simp only: read_loop.simps Let_def abs bit_order.case if_True)
    moreover have "unat ?acc = entry_value order data (unat startBit) (Suc offset)"
      using True small Suc.prems(4,5) unat_shift_in [of acc offset]
      by (simp only: bit_of_byte_eq) (simp add: stream_bit_def)
    ultimately show ?thesis by blast
  next
    case False
    with Suc.prems(1) have lsb: "order = LSBFirst" by simp
    let ?acc = "acc OR push_bit offset (bit_of_byte (data ! (?k div 8)) (?k mod 8))"
    have "read_loop data order startBit offset (Suc left) acc
        = read_loop data order startBit (Suc offset) left ?acc"
      using lsb idx by (simp only: read_loop.simps Let_def abs bit_order.case if_True)
    moreover have "unat ?acc = entry_value order data (unat startBit) (Suc offset)"
      using lsb small Suc.prems(4,5) unat_or_high [of acc offset]
      by (simp only: bit_of_byte_eq) (simp add: stream_bit_def)
    ultimately show ?thesis by blast
  qed
  then obtain acc' where step: "read_loop data order startBit offset (Suc left) acc
      = read_loop data order startBit (Suc offset) left acc'"
    and acc': "unat acc' = entry_value order data (unat startBit) (Suc offset)"
    by blast
  then show ?case
    using Suc.IH [of "Suc offset" acc'] Suc.prems by simp
qed

lemma read_loop_width_range:
  fixes width :: "64 word"
  assumes "\<not> (width = 0 \<or> width > 8)"
  shows "0 < unat width" and "unat width \<le> 8"
  using assms by (auto simp: word_le_nat_alt unat_gt_0 not_less)

section \<open>Properties\<close>

lemma EntryCount_iff:
  assumes "0 < unat width" "8 * length data < 2 ^ 64"
  shows "unat index < unat (EntryCount data width) \<longleftrightarrow> (unat index + 1) * unat width \<le> 8 * length data"
proof -
  have "unat (of_nat (length data) * 8 :: 64 word) = 8 * length data"
    using assms(2) by (simp add: unat_word_ariths unat_of_nat mult.commute)
  moreover have "width \<noteq> 0" using assms(1) by auto
  ultimately have "unat (EntryCount data width) = 8 * length data div unat width"
    by (simp add: EntryCount_def unat_div)
  then show ?thesis
    using assms(1) less_eq_div_iff_mult_less_eq [of "unat width" "unat index + 1" "8 * length data"]
    by (simp add: Suc_le_eq)
qed

lemma ReadStatusValue_correct:
  assumes "order = MSBFirst \<or> order = LSBFirst" "0 < unat width" "unat width \<le> 8"
    and "8 * length data < 2 ^ 64" "(unat index + 1) * unat width < 2 ^ 64"
  shows "ReadStatusValue data index width order =
     (if unat index < unat (EntryCount data width)
      then Inr (of_nat (entry_value order data (unat index * unat width) (unat width)))
      else Inl ErrIndexOutOfRange)"
proof -
  have w: "\<not> (width = 0 \<or> width > 8)"
    using assms(2,3) by (auto simp: word_less_nat_alt not_less)
  have start: "unat (index * width) = unat index * unat width"
    using assms(2,5) by (simp add: unat_word_ariths)
  have fin: "unat (index * width + width) = (unat index + 1) * unat width"
    using assms(5) start by (simp add: unat_word_ariths)
  have len: "unat (of_nat (length data) * 8 :: 64 word) = 8 * length data"
    using assms(4) by (simp add: unat_word_ariths unat_of_nat mult.commute)
  have guard: "index * width + width > of_nat (length data) * 8
      \<longleftrightarrow> \<not> unat index < unat (EntryCount data width)"
    using EntryCount_iff [OF assms(2,4), of index] by (auto simp: word_less_nat_alt fin len)
  show ?thesis
  proof (cases "unat index < unat (EntryCount data width)")
    case True
    then have "(unat index + 1) * unat width \<le> 8 * length data"
      using EntryCount_iff [OF assms(2,4)] by blast
    then have "unat (index * width) + 0 + unat width \<le> 8 * length data"
      using start by simp
    from read_loop_correct [OF assms(1) this assms(4), of 0] assms(3)
    obtain v where "read_loop data order (index * width) 0 (unat width) 0 = Inr v"
        "unat v = entry_value order data (unat index * unat width) (unat width)"
      using start by auto
    moreover have "v = of_nat (unat v)" by simp
    with calculation(2) have "v = of_nat (entry_value order data (unat index * unat width) (unat width))"
      by simp
    ultimately show ?thesis
      using w guard True by (simp add: ReadStatusValue_def Let_def)
  next
    case False
    then show ?thesis using w guard by (simp add: ReadStatusValue_def Let_def)
  qed
qed

text \<open>
  C33: a status value is read correctly.  For a width of one to eight bits, either bit
  order, a list of fewer than 2^64 bits and an index with (index + 1) * width below 2^64,
  reading the entry gives exactly the number stored in the entry if the
  entry is one of the \<open>EntryCount\<close> entries of the list, and the range error otherwise.
  Beyond the last bound the arithmetic of the source wraps (\<open>status_index_wraps\<close>).
\<close>

theorem status_value_read:
  assumes "order = MSBFirst \<or> order = LSBFirst" "0 < unat width" "unat width \<le> 8"
    and "8 * length data < 2 ^ 64" "(unat index + 1) * unat width < 2 ^ 64"
  shows "ReadStatusValue data index width order =
     (if unat index < unat (EntryCount data width)
      then Inr (of_nat (entry_value order data (unat index * unat width) (unat width)))
      else Inl ErrIndexOutOfRange)"
  using assms by (rule ReadStatusValue_correct)

theorem status_value_read_witness:
  "ReadStatusValue [0xC9] 1 2 MSBFirst = Inr 0 \<and> ReadStatusValue [0xC9] 4 2 MSBFirst = Inl ErrIndexOutOfRange"
proof -
  have n: "unat (EntryCount [0xC9] 2) = 4" "entry_value MSBFirst [0xC9] 2 2 = 0" by code_simp+
  show ?thesis
    using status_value_read [of MSBFirst 2 "[0xC9]" 1] status_value_read [of MSBFirst 2 "[0xC9]" 4] n
    by simp
qed

text \<open>
  An index near the end of the 64-bit range defeats the range check.  The bit
  position wraps around: entry 2^63 of a one-byte list of two-bit entries reads as
  entry 0 instead of being refused, and entry 2^64 - 1 of one-bit entries passes the
  check and panics.
\<close>

theorem status_index_wraps:
  "ReadStatusValue [0xC0] (2 ^ 63) 2 MSBFirst = Inr 3
   \<and> ReadStatusValue [0xC0] (2 ^ 64 - 1) 1 MSBFirst = Inl PanicSliceIndex"
proof
  have "(2 ^ 63 :: 64 word) * 2 = 0" by simp
  show "ReadStatusValue [0xC0] (2 ^ 63) 2 MSBFirst = Inr 3"
    unfolding ReadStatusValue_def Let_def \<open>2 ^ 63 * 2 = 0\<close> by code_simp
  show "ReadStatusValue [0xC0] (2 ^ 64 - 1) 1 MSBFirst = Inl PanicSliceIndex"
    by (simp add: ReadStatusValue_def)
qed

end
