(* ===== verification/Status_Publication.thy ===== *)
theory Status_Publication
  imports Status_Interleaving Status_Codec Retry_Budget
begin

text \<open>
  Publishing a contract's status: the publisher of
  \<open>backend/internal/pdfgeneration/provenance/status_list.go\<close>, which hands out the entry a
  credential advertises and sets its bit for the terminal states, the durable queue of
  \<open>backend/internal/pdfgeneration/statuspublication/queue.go\<close> that delivers the lifecycle
  changes to it, and the bitstring the deployment serves (\<open>status_list_serve.go\<close>).  A
  lifecycle change that the queue has delivered is in the list, whatever failed on the way,
  and the bit of an entry is set exactly when its subject is revoked.
\<close>

section \<open>The publisher\<close>

record credential_status_ref =
  StatusListCredential :: string
  RefIndex :: "32 word"

record status_publisher =
  pub_uri :: "(int \<Rightarrow> string) option"
  pub_list :: "int option"
  pub_revocations :: bool

datatype publish_error = NoEntryAllocator | NoListURI | NoRevocationStore | StoreError alloc_error

definition entryFor ::
    "status_publisher \<Rightarrow> string \<Rightarrow> status_tables \<Rightarrow> (publish_error, credential_status_ref) result \<times> status_tables" where
  "entryFor P contractID t =
    (case pub_list P of
       None \<Rightarrow> (Inl NoEntryAllocator, t)
     | Some listID \<Rightarrow>
         (case pub_uri P of
            None \<Rightarrow> (Inl NoListURI, t)
          | Some uri \<Rightarrow>
              (case Allocate postgresStatusListStore listID contractID t of
                 (Inl err, t1) \<Rightarrow> (Inl (StoreError err), t1)
               | (Inr e, t1) \<Rightarrow> (Inr \<lparr>StatusListCredential = uri (ListID e), RefIndex = Index e\<rparr>, t1))))"

definition setRevoked ::
    "status_publisher \<Rightarrow> string \<Rightarrow> int \<Rightarrow> status_tables \<Rightarrow> (publish_error, unit) result \<times> status_tables" where
  "setRevoked P contractID now t =
    (if \<not> pub_revocations P then (Inl NoRevocationStore, t)
     else (case Revoke contractID now t of
             (Inl err, t1) \<Rightarrow> (Inl (StoreError err), t1)
           | (Inr _, t1) \<Rightarrow> (Inr (), t1)))"

definition terminal_status :: "string \<Rightarrow> bool" where
  "terminal_status status = (to_lower status \<in> set [''terminated'', ''expired'', ''replaced'', ''suspended''])"

definition PublishStatus ::
    "status_publisher \<Rightarrow> string \<Rightarrow> string \<Rightarrow> int \<Rightarrow> status_tables \<Rightarrow>
     (publish_error, credential_status_ref) result \<times> status_tables" where
  "PublishStatus P contractID status now t =
    (case entryFor P contractID t of
       (Inl err, t1) \<Rightarrow> (Inl err, t1)
     | (Inr ref, t1) \<Rightarrow>
         (if terminal_status status
          then (case setRevoked P contractID now t1 of
                  (Inl err, t2) \<Rightarrow> (Inl err, t2)
                | (Inr _, t2) \<Rightarrow> (Inr ref, t2))
          else (Inr ref, t1)))"

definition RevokeStatus ::
    "status_publisher \<Rightarrow> string \<Rightarrow> int \<Rightarrow> status_tables \<Rightarrow>
     (publish_error, credential_status_ref) result \<times> status_tables" where
  "RevokeStatus P contractID now t =
    (case entryFor P contractID t of
       (Inl err, t1) \<Rightarrow> (Inl err, t1)
     | (Inr ref, t1) \<Rightarrow>
         (case setRevoked P contractID now t1 of
            (Inl err, t2) \<Rightarrow> (Inl err, t2)
          | (Inr _, t2) \<Rightarrow> (Inr ref, t2)))"

section \<open>The publication queue\<close>

record publication_row =
  qu_contract_did :: string
  qu_status :: string
  qu_reason :: string
  qu_effective_at :: int
  qu_created_at :: int
  qu_next_attempt_at :: int
  qu_attempts :: nat
  qu_last_error :: "publish_error option"
  qu_published_at :: "int option"

definition queue_Enqueue :: "string \<Rightarrow> string \<Rightarrow> string \<Rightarrow> int \<Rightarrow> int \<Rightarrow> publication_row list \<Rightarrow> publication_row list" where
  "queue_Enqueue contractDID status reason effectiveAt now q =
    (if \<exists>r\<in>set q. qu_contract_did r = contractDID \<and> qu_status r = status then q
     else q @ [\<lparr>qu_contract_did = contractDID, qu_status = status, qu_reason = reason,
       qu_effective_at = effectiveAt, qu_created_at = now, qu_next_attempt_at = now, qu_attempts = 0,
       qu_last_error = None, qu_published_at = None\<rparr>])"

definition maxRetry :: int where
  "maxRetry = 60 * second_ns"

definition retryDelay :: "int \<Rightarrow> int" where
  "retryDelay attempt =
    (let n = (if attempt < 1 then 1 else attempt); delay = second_ns * 2 ^ nat (min (n - 1) 6)
     in if delay > maxRetry then maxRetry else delay)"

definition queue_due :: "int \<Rightarrow> publication_row \<Rightarrow> bool" where
  "queue_due now r = (qu_published_at r = None \<and> qu_next_attempt_at r \<le> now)"

text \<open>\<open>ORDER BY created_at LIMIT 1\<close>; rows of one moment are taken in table order.\<close>

fun oldest_row :: "publication_row list \<Rightarrow> publication_row option" where
  "oldest_row [] = None"
| "oldest_row (r # rs) =
     (case oldest_row rs of
        None \<Rightarrow> Some r
      | Some q \<Rightarrow> Some (if qu_created_at r \<le> qu_created_at q then r else q))"

definition same_item :: "publication_row \<Rightarrow> publication_row \<Rightarrow> bool" where
  "same_item a b = (qu_contract_did a = qu_contract_did b \<and> qu_status a = qu_status b)"

definition update_item ::
    "publication_row \<Rightarrow> (publication_row \<Rightarrow> publication_row) \<Rightarrow> publication_row list \<Rightarrow> publication_row list" where
  "update_item a f q = map (\<lambda>r. if same_item a r then f r else r) q"

text \<open>
  Where the worker loses its database or stops: before the claim commits, between the claim
  and the publication, or between the publication and its record.
\<close>

datatype worker_fault = NoFault | ClaimLost | StoppedAfterClaim | RecordLost

record publication_db =
  pd_tables :: status_tables
  pd_queue :: "publication_row list"

definition claim_item :: "int \<Rightarrow> publication_row \<Rightarrow> publication_row \<Rightarrow> publication_row" where
  "claim_item now item r = r\<lparr>qu_attempts := qu_attempts r + 1,
     qu_next_attempt_at := now + (retryDelay (int (qu_attempts item) + 1) div second_ns) * second_ns\<rparr>"

text \<open>The answer: whether an entry was taken, and whether the pass goes on.\<close>

definition ProcessOnce ::
    "status_publisher option \<Rightarrow> worker_fault \<Rightarrow> int \<Rightarrow> publication_db \<Rightarrow> bool \<times> bool \<times> publication_db" where
  "ProcessOnce publisher fault now d =
    (case publisher of
       None \<Rightarrow> (False, False, d)
     | Some P \<Rightarrow>
         (case oldest_row (filter (queue_due now) (pd_queue d)) of
            None \<Rightarrow> (False, True, d)
          | Some item \<Rightarrow>
              if fault = ClaimLost then (False, False, d)
              else
                (let d1 = d\<lparr>pd_queue := update_item item (claim_item now item) (pd_queue d)\<rparr>
                 in if fault = StoppedAfterClaim then (True, False, d1)
                    else (case PublishStatus P (qu_contract_did item) (qu_status item) now (pd_tables d1) of
                            (r, t2) \<Rightarrow>
                              (let d2 = d1\<lparr>pd_tables := t2\<rparr>
                               in if fault = RecordLost then (True, False, d2)
                                  else (True, True, d2\<lparr>pd_queue := update_item item
                                    (\<lambda>row. case r of
                                       Inl err \<Rightarrow> row\<lparr>qu_last_error := Some err\<rparr>
                                     | Inr _ \<Rightarrow> row\<lparr>qu_published_at := Some now, qu_last_error := None\<rparr>)
                                    (pd_queue d2)\<rparr>))))))"

section \<open>Sequential operations keep the rows\<close>

lemma statement_kept:
  assumes "statement k t = (r, t')" "\<And>os r t'. k (t\<lparr>db_outages := os\<rparr>) = (r, t') \<Longrightarrow> rows_kept (status_entries t) (status_entries t')"
  shows "rows_kept (status_entries t) (status_entries t')"
  using assms(1) by (cases rule: statement_cases) (use assms(2) in auto)

lemma reserve_update_entries: "reserve_update l t = (i, t') \<Longrightarrow> status_entries t' = status_entries t"
  by (auto simp: reserve_update_def split: option.splits)

lemma postgres_ReserveIndex_entries:
  assumes "postgres_ReserveIndex l t = (r, t')"
  shows "status_entries t' = status_entries t"
  using assms reserve_update_entries
  by (fastforce simp: postgres_ReserveIndex_def statement_def split: list.splits if_splits option.splits prod.splits)

lemma claim_insert_kept:
  assumes "claim_insert free subj e t = (a, t')"
  shows "rows_kept (status_entries t) (status_entries t')"
  using assms by (cases rule: claim_insert_cases) (auto simp: rows_kept_snoc)

lemma postgres_Entry_entries:
  "postgres_Entry subj t = (r, t') \<Longrightarrow> status_entries t' = status_entries t"
  by (auto simp: postgres_Entry_def statement_def split: list.splits if_splits)

lemma postgres_Claim_kept:
  assumes "postgres_Claim subj e t = (r, t')"
  shows "rows_kept (status_entries t) (status_entries t')"
  using assms unfolding postgres_Claim_def
proof (rule statement_kept)
  fix os r t'
  assume k: "(case claim_insert (\<not> slot_taken (ListID e) (uint (Index e)) (t\<lparr>db_outages := os\<rparr>)) subj e (t\<lparr>db_outages := os\<rparr>) of
        (InsertedEntry stored, t1) \<Rightarrow> (Inr (stored, True), t1)
      | (UniqueViolation, t1) \<Rightarrow> (Inr (\<lparr>ListID = 0, Index = 0\<rparr>, False), t1)
      | (NoRowInserted, t1) \<Rightarrow>
          (case postgres_Entry subj t1 of
             (Inl err, t2) \<Rightarrow> (Inl err, t2)
           | (Inr (Some stored), t2) \<Rightarrow> (Inr (stored, True), t2)
           | (Inr None, t2) \<Rightarrow> (Inr (\<lparr>ListID = 0, Index = 0\<rparr>, False), t2))) = (r, t')"
  obtain a t1 where c: "claim_insert (\<not> slot_taken (ListID e) (uint (Index e)) (t\<lparr>db_outages := os\<rparr>)) subj e
      (t\<lparr>db_outages := os\<rparr>) = (a, t1)" by fastforce
  have "status_entries t' = status_entries t1"
    using k c postgres_Entry_entries [of subj t1]
    by (auto split: insert_answer.splits sum.splits option.splits prod.splits)
  with claim_insert_kept [OF c] show "rows_kept (status_entries t) (status_entries t')" by simp
qed

lemma claim_loop_kept:
  assumes "claim_loop postgresStatusListStore l subj n t = (r, t')"
  shows "rows_kept (status_entries t) (status_entries t')"
  using assms
proof (induction n arbitrary: t)
  case 0
  then show ?case by simp
next
  case (Suc n)
  obtain i t1 where i: "postgres_ReserveIndex l t = (i, t1)" by fastforce
  note e1 = postgres_ReserveIndex_entries [OF i]
  show ?case
  proof (cases "\<exists>index. i = Inr (Some index)")
    case False
    with Suc.prems i e1 show ?thesis by (auto split: sum.splits option.splits)
  next
    case True
    then obtain index where index: "i = Inr (Some index)" by blast
    obtain q t2 where q: "postgres_Claim subj \<lparr>ListID = l, Index = index\<rparr> t1 = (q, t2)" by fastforce
    note k = postgres_Claim_kept [OF q, unfolded e1]
    show ?thesis
    proof (cases "t' = t2")
      case True
      with k show ?thesis by simp
    next
      case False
      with Suc.prems i index q have "claim_loop postgresStatusListStore l subj n t2 = (r, t')"
        by (auto split: sum.splits prod.splits if_splits)
      from rows_kept_trans [OF k Suc.IH [OF this]] show ?thesis .
    qed
  qed
qed

lemma Allocate_kept:
  assumes "Allocate postgresStatusListStore l subjectID t = (r, t')"
  shows "rows_kept (status_entries t) (status_entries t')"
proof -
  obtain f t1 where f: "postgres_Entry (trim_space subjectID) t = (f, t1)" by fastforce
  show ?thesis
    using assms f postgres_Entry_entries [OF f] claim_loop_kept [of l "trim_space subjectID" maxClaimAttempts t1 r t']
    by (auto simp: Allocate_def Let_def split: if_splits sum.splits option.splits)
qed

lemma Revoke_kept:
  assumes "Revoke subjectID now t = (r, t')" "tables_ok t"
  shows "rows_kept (status_entries t) (status_entries t')" "tables_ok t'"
  using Revoke_tables [OF assms(1)] assms(2)
  by (auto simp: rows_kept_revoke tables_ok_def rows_ok_revoke)

lemma Revoke_success:
  assumes "Revoke subjectID now t = (Inr u, t')"
  shows "revoked_subject (trim_space subjectID) t'"
proof -
  have marked: "\<exists>q\<in>set (map (revoke_row s now) rs). er_subject q = s \<and> er_revoked_at q \<noteq> None"
    if "\<exists>r\<in>set rs. er_subject r = s" for s rs
  proof -
    from that obtain r where "r \<in> set rs" "er_subject r = s" by blast
    then show ?thesis
      by (intro bexI [of _ "revoke_row s now r"]) (auto simp: revoke_row_def)
  qed
  have "status_entries t' = map (revoke_row (trim_space subjectID) now) (status_entries t)"
    "\<exists>r\<in>set (status_entries t). er_subject r = trim_space subjectID"
    using assms by (auto simp: Revoke_def Let_def statement_def split: if_splits list.splits)
  then show ?thesis
    using marked by (simp only: revoked_subject_def)
qed

section \<open>What the publisher achieves\<close>

definition tables_evolve :: "status_tables \<Rightarrow> status_tables \<Rightarrow> bool" where
  "tables_evolve t t' \<longleftrightarrow> tables_ok t' \<and> rows_kept (status_entries t) (status_entries t')"

lemma tables_evolve_refl: "tables_ok t \<Longrightarrow> tables_evolve t t"
  by (simp add: tables_evolve_def)

lemma tables_evolve_trans: "tables_evolve t t1 \<Longrightarrow> tables_evolve t1 t2 \<Longrightarrow> tables_evolve t t2"
  unfolding tables_evolve_def using rows_kept_trans by blast

lemma tables_evolve_revoked: "tables_evolve t t' \<Longrightarrow> revoked_subject s t \<Longrightarrow> revoked_subject s t'"
  unfolding tables_evolve_def using rows_kept_revoked by blast

lemma tables_evolve_held:
  assumes "tables_ok t" "tables_evolve t t'" "tables_held t s = Some e"
  shows "tables_held t' s = Some e"
  using assms rows_kept_held [of t t' s e] by (simp add: tables_evolve_def tables_ok_def tables_held_def)

lemma Allocate_evolve:
  assumes "tables_ok t" "Allocate postgresStatusListStore l subjectID t = (r, t')"
  shows "tables_evolve t t'"
  using postgres_store.Allocate_spec [OF assms] Allocate_kept [OF assms(2)]
  by (simp add: tables_evolve_def)

lemma entryFor_result:
  assumes "tables_ok t" "entryFor P contractID t = (r, t')"
  shows "tables_evolve t t'"
    and "\<And>ref. r = Inr ref \<Longrightarrow> \<exists>uri e. pub_uri P = Some uri \<and> tables_held t' (trim_space contractID) = Some e \<and>
       ref = \<lparr>StatusListCredential = uri (ListID e), RefIndex = Index e\<rparr>"
proof -
  have both: "tables_evolve t t' \<and> (\<forall>ref. r = Inr ref \<longrightarrow> (\<exists>uri e. pub_uri P = Some uri \<and>
      tables_held t' (trim_space contractID) = Some e \<and>
      ref = \<lparr>StatusListCredential = uri (ListID e), RefIndex = Index e\<rparr>))"
  proof (cases "pub_list P = None \<or> pub_uri P = None")
    case True
    then show ?thesis
      using assms tables_evolve_refl by (auto simp: entryFor_def split: option.splits)
  next
    case False
    then obtain l uri where lu: "pub_list P = Some l" "pub_uri P = Some uri" by auto
    obtain a t1 where a: "Allocate postgresStatusListStore l contractID t = (a, t1)" by fastforce
    from postgres_store.Allocate_spec [OF assms(1) a] Allocate_evolve [OF assms(1) a] a lu assms(2)
    show ?thesis by (auto simp: entryFor_def split: sum.splits)
  qed
  show "tables_evolve t t'" using both by blast
  show "\<And>ref. r = Inr ref \<Longrightarrow> \<exists>uri e. pub_uri P = Some uri \<and> tables_held t' (trim_space contractID) = Some e \<and>
       ref = \<lparr>StatusListCredential = uri (ListID e), RefIndex = Index e\<rparr>"
    using both by blast
qed

lemma setRevoked_result:
  assumes "tables_ok t" "setRevoked P contractID now t = (r, t')"
  shows "tables_evolve t t'" and "r = Inr u \<Longrightarrow> revoked_subject (trim_space contractID) t'"
proof -
  obtain a t1 where a: "Revoke contractID now t = (a, t1)" by fastforce
  from Revoke_kept [OF a assms(1)] a assms show "tables_evolve t t'"
    by (auto simp: setRevoked_def tables_evolve_def split: if_splits sum.splits)
  show "r = Inr u \<Longrightarrow> revoked_subject (trim_space contractID) t'"
    using a assms(2) Revoke_success [of contractID now t _ t1]
    by (auto simp: setRevoked_def split: if_splits sum.splits)
qed

lemma PublishStatus_result:
  assumes "tables_ok t" "PublishStatus P contractID status now t = (r, t')"
  shows "tables_evolve t t'"
    and "r = Inr ref \<Longrightarrow> terminal_status status \<Longrightarrow> revoked_subject (trim_space contractID) t'"
proof -
  obtain a t1 where a: "entryFor P contractID t = (a, t1)" by fastforce
  note evolve = entryFor_result(1) [OF assms(1) a]
  then have ok: "tables_ok t1" by (simp add: tables_evolve_def)
  obtain b t2 where b: "setRevoked P contractID now t1 = (b, t2)" by fastforce
  show "tables_evolve t t'"
    using assms(2) a b evolve tables_evolve_trans [OF evolve setRevoked_result(1) [OF ok b]]
    by (auto simp: PublishStatus_def split: if_splits sum.splits)
  show "r = Inr ref \<Longrightarrow> terminal_status status \<Longrightarrow> revoked_subject (trim_space contractID) t'"
    using assms(2) a b setRevoked_result(2) [OF ok b]
    by (auto simp: PublishStatus_def split: if_splits sum.splits)
qed

section \<open>The invariant of the queue\<close>

text \<open>What is recorded as published has reached the tables.\<close>

definition row_delivered :: "status_tables \<Rightarrow> publication_row \<Rightarrow> bool" where
  "row_delivered t r \<longleftrightarrow> qu_published_at r \<noteq> None \<and> terminal_status (qu_status r) \<longrightarrow>
     revoked_subject (trim_space (qu_contract_did r)) t"

definition publication_ok :: "publication_db \<Rightarrow> bool" where
  "publication_ok d \<longleftrightarrow> tables_ok (pd_tables d) \<and> (\<forall>r\<in>set (pd_queue d). row_delivered (pd_tables d) r)"

lemma publication_ok_evolve:
  assumes "publication_ok d" "tables_evolve (pd_tables d) t"
  shows "publication_ok (d\<lparr>pd_tables := t\<rparr>)"
  using assms tables_evolve_revoked [OF assms(2)]
  by (auto simp: publication_ok_def row_delivered_def tables_evolve_def)

lemma publication_ok_update:
  assumes "publication_ok d"
    and "\<And>r. r \<in> set (pd_queue d) \<Longrightarrow> same_item item r \<Longrightarrow> row_delivered (pd_tables d) (f r)"
  shows "publication_ok (d\<lparr>pd_queue := update_item item f (pd_queue d)\<rparr>)"
  using assms by (auto simp: publication_ok_def update_item_def)

lemma ProcessOnce_ok:
  assumes "publication_ok d" "ProcessOnce publisher fault now d = (processed, goes_on, d')"
  shows "publication_ok d' \<and> tables_evolve (pd_tables d) (pd_tables d')"
proof (cases "\<exists>P item. publisher = Some P \<and> oldest_row (filter (queue_due now) (pd_queue d)) = Some item
    \<and> fault \<noteq> ClaimLost")
  case False
  then show ?thesis
    using assms tables_evolve_refl by (auto simp: ProcessOnce_def publication_ok_def split: option.splits if_splits)
next
  case True
  then obtain P item where P: "publisher = Some P" "oldest_row (filter (queue_due now) (pd_queue d)) = Some item"
      "fault \<noteq> ClaimLost" by blast
  define d1 where "d1 = d\<lparr>pd_queue := update_item item (claim_item now item) (pd_queue d)\<rparr>"
  have d1: "publication_ok d1"
    unfolding d1_def using assms(1)
    by (rule publication_ok_update) (use assms(1) in \<open>auto simp: publication_ok_def row_delivered_def claim_item_def\<close>)
  obtain r t2 where pub: "PublishStatus P (qu_contract_did item) (qu_status item) now (pd_tables d1) = (r, t2)"
    by fastforce
  note result = PublishStatus_result [OF _ pub]
  have evolve: "tables_evolve (pd_tables d1) t2"
    using result(1) d1 by (simp add: publication_ok_def)
  define d2 where "d2 = d1\<lparr>pd_tables := t2\<rparr>"
  have d2: "publication_ok d2"
    unfolding d2_def using d1 evolve by (rule publication_ok_evolve)
  let ?noted = "\<lambda>row. case r of Inl err \<Rightarrow> row\<lparr>qu_last_error := Some err\<rparr>
      | Inr _ \<Rightarrow> row\<lparr>qu_published_at := Some now, qu_last_error := None\<rparr>"
  have d3: "publication_ok (d2\<lparr>pd_queue := update_item item ?noted (pd_queue d2)\<rparr>)"
    using d2
  proof (rule publication_ok_update)
    fix q assume q: "q \<in> set (pd_queue d2)" "same_item item q"
    show "row_delivered (pd_tables d2) (?noted q)"
    proof (cases r)
      case (Inl err)
      then show ?thesis using d2 q(1) by (simp add: publication_ok_def row_delivered_def)
    next
      case (Inr ref)
      have "revoked_subject (trim_space (qu_contract_did item)) t2" if "terminal_status (qu_status item)"
        using result(2) [OF _ Inr that] d1 by (simp add: publication_ok_def)
      with Inr q(2) show ?thesis
        by (simp add: row_delivered_def d2_def same_item_def)
    qed
  qed
  have "d' = d1 \<or> d' = d2 \<or> d' = d2\<lparr>pd_queue := update_item item ?noted (pd_queue d2)\<rparr>"
    using assms(2) P pub by (auto simp: ProcessOnce_def Let_def d1_def [symmetric] d2_def split: if_splits)
  moreover have "pd_tables d1 = pd_tables d" "pd_tables d2 = t2"
    by (simp_all add: d1_def d2_def)
  ultimately show ?thesis
    using d1 d2 d3 evolve tables_evolve_refl assms(1) by (auto simp: publication_ok_def)
qed

section \<open>One delivery pass\<close>

lemma retryDelay_bounds: "second_ns \<le> retryDelay n" "retryDelay n \<le> maxRetry"
proof -
  have "(1::int) \<le> 2 ^ k" for k by simp
  then have "second_ns * 1 \<le> second_ns * 2 ^ k" for k
    by (intro mult_left_mono) (simp_all add: second_ns_def)
  then show "second_ns \<le> retryDelay n"
    by (simp add: retryDelay_def Let_def maxRetry_def second_ns_def)
  show "retryDelay n \<le> maxRetry" by (simp add: retryDelay_def Let_def)
qed

lemma claim_item_later: "\<not> queue_due now (claim_item now item r)"
proof -
  have "1 \<le> retryDelay n div second_ns" for n
    using retryDelay_bounds(1) [of n] zdiv_mono1 [of second_ns "retryDelay n" second_ns]
    by (simp add: second_ns_def)
  then have "0 < retryDelay n div second_ns * second_ns" for n
    by (intro mult_pos_pos) (simp_all add: second_ns_def order_less_le_trans [OF zero_less_one])
  then show ?thesis by (simp add: queue_due_def claim_item_def not_le)
qed

lemma oldest_row_None [simp]: "oldest_row rs = None \<longleftrightarrow> rs = []"
  by (induction rs) (auto split: option.splits)

lemma oldest_row_Some: "oldest_row rs = Some r \<Longrightarrow> r \<in> set rs \<and> (\<forall>q\<in>set rs. qu_created_at r \<le> qu_created_at q)"
  by (induction rs arbitrary: r) (fastforce split: option.splits if_splits)+

text \<open>A row the pass took is out of the way for this pass: it is published or waits.\<close>

lemma due_update_eq:
  assumes "\<And>r. r \<in> set q \<Longrightarrow> same_item item r \<Longrightarrow> \<not> queue_due now (f r)"
  shows "filter (queue_due now) (update_item item f q) = filter (\<lambda>r. queue_due now r \<and> \<not> same_item item r) q"
  using assms by (induction q) (auto simp: update_item_def)

lemma ProcessOnce_due:
  assumes "ProcessOnce publisher fault now d = (True, goes_on, d')"
  obtains item where "item \<in> set (pd_queue d)" "queue_due now item"
    "filter (queue_due now) (pd_queue d') = filter (\<lambda>r. queue_due now r \<and> \<not> same_item item r) (pd_queue d)"
proof -
  obtain P item where P: "publisher = Some P" "oldest_row (filter (queue_due now) (pd_queue d)) = Some item"
      "fault \<noteq> ClaimLost"
    using assms by (auto simp: ProcessOnce_def split: option.splits if_splits)
  let ?q1 = "update_item item (claim_item now item) (pd_queue d)"
  have due1: "filter (queue_due now) ?q1 = filter (\<lambda>r. queue_due now r \<and> \<not> same_item item r) (pd_queue d)"
    by (rule due_update_eq) (rule claim_item_later)
  have same: "same_item item (claim_item now item r) = same_item item r" for r
    by (simp add: same_item_def claim_item_def)
  have taken: "\<not> queue_due now r" if "r \<in> set ?q1" "same_item item r" for r
    using that claim_item_later same by (auto simp: update_item_def split: if_splits)
  have keeps: "filter (queue_due now) (update_item item f ?q1) = filter (queue_due now) ?q1"
    if "\<And>r. qu_next_attempt_at (f r) = qu_next_attempt_at r" "\<And>r. qu_published_at r \<noteq> None \<Longrightarrow> qu_published_at (f r) \<noteq> None" for f
  proof -
    have later: "\<not> queue_due now (f r)" if "r \<in> set ?q1" "same_item item r" for r
      using taken [OF that] \<open>\<And>r. qu_next_attempt_at (f r) = qu_next_attempt_at r\<close>
        \<open>\<And>r. qu_published_at r \<noteq> None \<Longrightarrow> qu_published_at (f r) \<noteq> None\<close>
      by (auto simp: queue_due_def)
    have "filter (queue_due now) (update_item item f ?q1) = filter (\<lambda>r. queue_due now r \<and> \<not> same_item item r) ?q1"
      using later by (rule due_update_eq)
    also have "\<dots> = filter (queue_due now) ?q1"
      using taken by (intro filter_cong) auto
    finally show ?thesis .
  qed
  obtain r t2 where pub: "PublishStatus P (qu_contract_did item) (qu_status item) now (pd_tables d) = (r, t2)"
    by fastforce
  have "pd_queue d' = ?q1 \<or> pd_queue d' = update_item item
      (\<lambda>row. case r of Inl err \<Rightarrow> row\<lparr>qu_last_error := Some err\<rparr>
        | Inr _ \<Rightarrow> row\<lparr>qu_published_at := Some now, qu_last_error := None\<rparr>) ?q1"
    using assms P pub by (auto simp: ProcessOnce_def Let_def split: if_splits)
  then have "filter (queue_due now) (pd_queue d') = filter (queue_due now) ?q1"
    using keeps [of "\<lambda>row. case r of Inl err \<Rightarrow> row\<lparr>qu_last_error := Some err\<rparr>
        | Inr _ \<Rightarrow> row\<lparr>qu_published_at := Some now, qu_last_error := None\<rparr>"]
    by (auto split: sum.splits)
  with that [of item] due1 oldest_row_Some [OF P(2)] show ?thesis by simp
qed

text \<open>
  The loop of \<open>processAvailable\<close>, with the fault of each round.  Every round moves an entry
  behind the present moment, so the loop ends.
\<close>

function processAvailable ::
    "status_publisher option \<Rightarrow> worker_fault list \<Rightarrow> int \<Rightarrow> publication_db \<Rightarrow> publication_db" where
  "processAvailable publisher faults now d =
    (case ProcessOnce publisher (case faults of [] \<Rightarrow> NoFault | fault # _ \<Rightarrow> fault) now d of
       (processed, goes_on, d') \<Rightarrow>
         if goes_on \<and> processed then processAvailable publisher (tl faults) now d' else d')"
  by auto

lemma ProcessOnce_progress:
  assumes "ProcessOnce publisher fault now d = (True, goes_on, d')"
  shows "length (filter (queue_due now) (pd_queue d')) < length (filter (queue_due now) (pd_queue d))"
proof -
  obtain item where item: "item \<in> set (pd_queue d)" "queue_due now item"
    "filter (queue_due now) (pd_queue d') = filter (\<lambda>r. queue_due now r \<and> \<not> same_item item r) (pd_queue d)"
    using assms by (rule ProcessOnce_due)
  have less: "length (filter (\<lambda>r. queue_due now r \<and> \<not> same_item item r) q) < length (filter (queue_due now) q)"
    if "item \<in> set q" for q
    using that item(2)
  proof (induction q)
    case (Cons r q)
    have "length (filter (\<lambda>r. queue_due now r \<and> \<not> same_item item r) q) \<le> length (filter (queue_due now) q)"
      by (induction q) auto
    with Cons show ?case by (auto simp: same_item_def)
  qed simp
  show ?thesis using less [OF item(1)] item(3) by simp
qed

termination processAvailable
proof (relation "measure (\<lambda>(publisher, faults, now, d). length (filter (queue_due now) (pd_queue d)))", goal_cases)
  case 1
  then show ?case by simp
next
  case (2 publisher faults now d processed y goes_on d')
  then have "ProcessOnce publisher (case faults of [] \<Rightarrow> NoFault | fault # _ \<Rightarrow> fault) now d = (True, goes_on, d')"
    by simp
  then show ?case
    using ProcessOnce_progress by simp
qed

declare processAvailable.simps [simp del]

lemma processAvailable_ok:
  assumes "publication_ok d"
  shows "publication_ok (processAvailable publisher faults now d) \<and>
    tables_evolve (pd_tables d) (pd_tables (processAvailable publisher faults now d))"
  using assms
proof (induction publisher faults now d rule: processAvailable.induct)
  case (1 publisher faults now d)
  obtain processed goes_on d' where p: "ProcessOnce publisher (case faults of [] \<Rightarrow> NoFault | fault # _ \<Rightarrow> fault) now d
      = (processed, goes_on, d')" using prod_cases3 by blast
  note once = ProcessOnce_ok [OF "1.prems" p]
  show ?case
  proof (cases "goes_on \<and> processed")
    case True
    have "publication_ok (processAvailable publisher (tl faults) now d') \<and>
        tables_evolve (pd_tables d') (pd_tables (processAvailable publisher (tl faults) now d'))"
      using "1.IH" [OF p [symmetric] refl True] once by blast
    with True p once tables_evolve_trans show ?thesis
      by (subst processAvailable.simps, subst (1) processAvailable.simps) auto
  next
    case False
    with p once show ?thesis
      by (subst processAvailable.simps, subst (1) processAvailable.simps) auto
  qed
qed

text \<open>A pass without faults leaves no entry due: each is published or waits for its next attempt.\<close>

lemma processAvailable_drains:
  "filter (queue_due now) (pd_queue (processAvailable (Some P) [] now d)) = []"
proof (induction "length (filter (queue_due now) (pd_queue d))" arbitrary: d rule: less_induct)
  case less
  obtain processed goes_on d' where p: "ProcessOnce (Some P) NoFault now d = (processed, goes_on, d')"
    using prod_cases3 by blast
  then have goes_on: goes_on
    by (auto simp: ProcessOnce_def Let_def split: option.splits prod.splits)
  show ?case
  proof (cases processed)
    case True
    with goes_on p less [OF ProcessOnce_progress [of "Some P" NoFault now d goes_on d']] show ?thesis
      by (subst processAvailable.simps) simp
  next
    case False
    then have "oldest_row (filter (queue_due now) (pd_queue d)) = None" "d' = d"
      using p by (auto simp: ProcessOnce_def Let_def split: option.splits prod.splits)
    with False p show ?thesis by (subst processAvailable.simps) simp
  qed
qed

section \<open>Histories\<close>

text \<open>
  Lifecycle commands enqueue, workers deliver with any fault, and the issuers of credentials
  ask for entries and publish states on their own.
\<close>

inductive publication_step :: "publication_db \<Rightarrow> publication_db \<Rightarrow> bool" where
  publication_enqueue: "publication_step d
     (d\<lparr>pd_queue := queue_Enqueue contractDID status reason effectiveAt now (pd_queue d)\<rparr>)"
| publication_pass: "publication_step d (processAvailable publisher faults now d)"
| publication_entry: "entryFor P contractID (pd_tables d) = (r, t) \<Longrightarrow> publication_step d (d\<lparr>pd_tables := t\<rparr>)"
| publication_direct: "PublishStatus P contractID status now (pd_tables d) = (r, t) \<Longrightarrow>
     publication_step d (d\<lparr>pd_tables := t\<rparr>)"

inductive publication_run :: "publication_db \<Rightarrow> publication_db \<Rightarrow> bool" where
  publication_start: "publication_run d d"
| publication_more: "publication_run d d' \<Longrightarrow> publication_step d' d'' \<Longrightarrow> publication_run d d''"

lemma publication_step_ok:
  assumes "publication_step d d'" "publication_ok d"
  shows "publication_ok d' \<and> tables_evolve (pd_tables d) (pd_tables d')"
  using assms
proof (cases rule: publication_step.cases)
  case (publication_enqueue contractDID status reason effectiveAt now)
  then show ?thesis
    using assms(2) tables_evolve_refl by (auto simp: publication_ok_def queue_Enqueue_def row_delivered_def)
next
  case (publication_pass publisher faults now)
  then show ?thesis using processAvailable_ok [OF assms(2)] by simp
next
  case (publication_entry P contractID r t)
  have "tables_evolve (pd_tables d) t"
    using entryFor_result(1) [OF _ publication_entry(2)] assms(2) by (simp add: publication_ok_def)
  with publication_ok_evolve [OF assms(2)] publication_entry(1) show ?thesis by simp
next
  case (publication_direct P contractID status now r t)
  have "tables_evolve (pd_tables d) t"
    using PublishStatus_result(1) [OF _ publication_direct(2)] assms(2) by (simp add: publication_ok_def)
  with publication_ok_evolve [OF assms(2)] publication_direct(1) show ?thesis by simp
qed

lemma publication_run_ok:
  assumes "publication_run d d'" "publication_ok d"
  shows "publication_ok d' \<and> tables_evolve (pd_tables d) (pd_tables d')"
  using assms
proof (induction rule: publication_run.induct)
  case (publication_start d)
  then show ?case using tables_evolve_refl by (simp add: publication_ok_def)
next
  case (publication_more d d' d'')
  with publication_step_ok tables_evolve_trans show ?case by blast
qed

end
