(* ===== verification/Envelope.thy ===== *)
theory Envelope
  imports Merkle
begin

text \<open>
  The key envelope of \<open>backend/internal/base/envelope/envelope.go\<close>: the RFC 3394 key
  wrap, the Concat KDF of RFC 7518, wrapping a content-encryption key for a
  recipient, and unwrapping it.  The AES block function, the elliptic curve, SHA-256
  and AES-GCM are parameters (record \<open>crypto\<close>); what the theorems need of them are the
  predicates \<open>block_cipher\<close>, \<open>key_agreement\<close> and \<open>aead\<close>.  \<open>encoding/binary\<close>,
  \<open>math/big\<close> and the raw URL form of \<open>encoding/base64\<close> are modelled.
\<close>

unbundle bit_operations_syntax

section \<open>Big-endian numbers\<close>

fun be_bytes :: "nat \<Rightarrow> int \<Rightarrow> bytes" where
  "be_bytes 0 n = []"
| "be_bytes (Suc k) n = be_bytes k (n div 256) @ [word_of_int n]"

definition be_int :: "bytes \<Rightarrow> int" where
  "be_int bs = foldl (\<lambda>n b. 256 * n + uint b) 0 bs"

definition put64 :: "64 word \<Rightarrow> bytes" where
  "put64 w = be_bytes 8 (uint w)"

definition get64 :: "bytes \<Rightarrow> 64 word" where
  "get64 bs = word_of_int (be_int bs)"

definition put32 :: "32 word \<Rightarrow> bytes" where
  "put32 w = be_bytes 4 (uint w)"

lemma length_be_bytes [simp]: "length (be_bytes k n) = k"
  by (induction k arbitrary: n) simp_all

lemma be_int_snoc [simp]: "be_int (bs @ [b]) = 256 * be_int bs + uint b"
  by (simp add: be_int_def)

lemma be_int_Nil [simp]: "be_int [] = 0"
  by (simp add: be_int_def)

lemma uint_byte: "0 \<le> uint (b :: byte) \<and> uint b < 256"
  using uint_lt2p [of b] by simp

lemma be_int_range: "0 \<le> be_int bs \<and> be_int bs < 256 ^ length bs"
proof (induction bs rule: rev_induct)
  case (snoc b bs)
  with uint_byte [of b] show ?case by auto
qed simp

lemma be_int_be_bytes: "0 \<le> n \<Longrightarrow> be_int (be_bytes k n) = n mod 256 ^ k"
proof (induction k arbitrary: n)
  case (Suc k)
  have "be_int (be_bytes (Suc k) n) = 256 * (n div 256 mod 256 ^ k) + n mod 256"
    using Suc by (simp add: uint_word_of_int pos_imp_zdiv_nonneg_iff)
  also have "\<dots> = n mod 256 ^ Suc k"
    by (simp add: zmod_zmult2_eq)
  finally show ?case .
qed simp

lemma be_bytes_be_int [simp]: "k = length bs \<Longrightarrow> be_bytes k (be_int bs) = bs"
proof (induction bs arbitrary: k rule: rev_induct)
  case (snoc b bs)
  have "(256 * be_int bs + uint b) div 256 = be_int bs"
    using uint_byte [of b] by simp
  moreover have "word_of_int (256 * be_int bs + uint b) = b"
  proof -
    have z: "(256 :: byte) = 0" by simp
    show ?thesis by (simp add: z)
  qed
  ultimately show ?case using snoc by simp
qed simp

lemma length_put64 [simp]: "length (put64 w) = 8"
  by (simp add: put64_def)

lemma get64_put64 [simp]: "get64 (put64 w) = w"
  using uint_lt2p [of w] by (simp add: get64_def put64_def be_int_be_bytes)

lemma put64_get64 [simp]: "length bs = 8 \<Longrightarrow> put64 (get64 bs) = bs"
  using be_int_range [of bs] by (simp add: get64_def put64_def uint_word_of_int)

section \<open>Key wrap\<close>

text \<open>
  The block function of a cipher under one key and its inverse, on blocks of sixteen
  bytes.
\<close>

definition block_cipher :: "(bytes \<Rightarrow> bytes) \<Rightarrow> (bytes \<Rightarrow> bytes) \<Rightarrow> bool" where
  "block_cipher enc dec \<longleftrightarrow>
    (\<forall>b. length b = 16 \<longrightarrow> length (enc b) = 16 \<and> length (dec b) = 16 \<and> dec (enc b) = b \<and> enc (dec b) = b)"

datatype envelope_error =
    BadKeyLength | BadWrapLength | IntegrityFailed | BadCEKLength | NoRecipientMethod
  | BadRecipientKey | UnsupportedAlg | BadEphemeralKey | DeriveFailed | CiphertextTooShort | DecryptFailed

definition cekLen :: nat where
  "cekLen = 32"

definition nonceLen :: nat where
  "nonceLen = 12"

definition kwIV :: "64 word" where
  "kwIV = 0xA6A6A6A6A6A6A6A6"

text \<open>The key lengths \<open>aes.NewCipher\<close> takes.\<close>

definition NewCipher_ok :: "bytes \<Rightarrow> bool" where
  "NewCipher_ok key = (length key \<in> {16, 24, 32})"

text \<open>The steps of both loops: the round counter \<open>n * j + i\<close> and the register \<open>i\<close>, in the order of \<open>keyWrap\<close>.\<close>

definition kw_rounds :: "nat \<Rightarrow> (nat \<times> nat) list" where
  "kw_rounds n = concat (map (\<lambda>j. map (\<lambda>i. (n * j + i, i)) [1..<n + 1]) [0..<6])"

type_synonym kw_state = "64 word \<times> bytes list"

definition wrap_step :: "(bytes \<Rightarrow> bytes) \<Rightarrow> nat \<times> nat \<Rightarrow> kw_state \<Rightarrow> kw_state" where
  "wrap_step enc ti s =
    (let b = enc (put64 (fst s) @ snd s ! (snd ti - 1))
     in (get64 (take 8 b) XOR of_nat (fst ti), (snd s)[snd ti - 1 := drop 8 b]))"

definition unwrap_step :: "(bytes \<Rightarrow> bytes) \<Rightarrow> nat \<times> nat \<Rightarrow> kw_state \<Rightarrow> kw_state" where
  "unwrap_step dec ti s =
    (let b = dec (put64 (fst s XOR of_nat (fst ti)) @ snd s ! (snd ti - 1))
     in (get64 (take 8 b), (snd s)[snd ti - 1 := drop 8 b]))"

definition chunks :: "nat \<Rightarrow> bytes \<Rightarrow> bytes list" where
  "chunks n bs = map (\<lambda>i. take 8 (drop (i * 8) bs)) [0..<n]"

definition keyWrap :: "(bytes \<Rightarrow> bytes \<Rightarrow> bytes) \<Rightarrow> bytes \<Rightarrow> bytes \<Rightarrow> (envelope_error, bytes) result" where
  "keyWrap aes kek cek =
    require (NewCipher_ok kek) BadKeyLength
    (let n = length cek div 8;
         s = fold (wrap_step (aes kek)) (kw_rounds n) (kwIV, chunks n cek)
     in Inr (put64 (fst s) @ concat (snd s) @ replicate (length cek - n * 8) 0))"

definition keyUnwrap :: "(bytes \<Rightarrow> bytes \<Rightarrow> bytes) \<Rightarrow> bytes \<Rightarrow> bytes \<Rightarrow> (envelope_error, bytes) result" where
  "keyUnwrap aes_inv kek wrapped =
    require (length wrapped = 8 + cekLen) BadWrapLength
    (require (NewCipher_ok kek) BadKeyLength
    (let n = (length wrapped - 8) div 8;
         s = fold (unwrap_step (aes_inv kek)) (rev (kw_rounds n)) (get64 (take 8 wrapped), chunks n (drop 8 wrapped))
     in require (fst s = kwIV) IntegrityFailed (Inr (concat (snd s)))))"

text \<open>A register file of \<open>n\<close> blocks.\<close>

definition kw_ok :: "nat \<Rightarrow> kw_state \<Rightarrow> bool" where
  "kw_ok n s = (length (snd s) = n \<and> (\<forall>r\<in>set (snd s). length r = 8))"

lemma kw_ok_nth: "kw_ok n s \<Longrightarrow> i < n \<Longrightarrow> length (snd s ! i) = 8"
  by (simp add: kw_ok_def)

lemma kw_ok_update:
  "kw_ok n s \<Longrightarrow> length r = 8 \<Longrightarrow> kw_ok n (a, (snd s)[i := r])"
  by (auto simp: kw_ok_def dest!: set_update_subset_insert [THEN subsetD])

lemma steps_ok:
  assumes "block_cipher enc dec" "kw_ok n s" "1 \<le> snd ti" "snd ti \<le> n"
  shows "kw_ok n (wrap_step enc ti s)" "kw_ok n (unwrap_step dec ti s)"
proof -
  have l: "length (snd s ! (snd ti - 1)) = 8" using kw_ok_nth [OF assms(2)] assms(3,4) by simp
  have "length (enc (put64 (fst s) @ snd s ! (snd ti - 1))) = 16"
    "length (dec (put64 (fst s XOR of_nat (fst ti)) @ snd s ! (snd ti - 1))) = 16"
    using assms(1) l by (simp_all add: block_cipher_def)
  then show "kw_ok n (wrap_step enc ti s)" "kw_ok n (unwrap_step dec ti s)"
    using assms(2) by (auto simp: wrap_step_def unwrap_step_def Let_def intro!: kw_ok_update)
qed

lemma xor_twice [simp]: "((x :: 64 word) XOR y) XOR y = x"
  by (simp add: xor.assoc)

lemma unwrap_wrap_step:
  assumes "block_cipher enc dec" "kw_ok n s" "1 \<le> snd ti" "snd ti \<le> n"
  shows "unwrap_step dec ti (wrap_step enc ti s) = s" "wrap_step enc ti (unwrap_step dec ti s) = s"
proof -
  let ?i = "snd ti - 1"
  have i: "?i < length (snd s)" using assms(2-4) by (auto simp: kw_ok_def)
  have l: "length (snd s ! ?i) = 8" using kw_ok_nth [OF assms(2)] assms(3,4) by simp
  have cipher: "length (enc b) = 16" "length (dec b) = 16" "dec (enc b) = b" "enc (dec b) = b" if "length b = 16" for b
    using assms(1) that by (simp_all add: block_cipher_def)
  let ?b = "put64 (fst s) @ snd s ! ?i"
  have b: "length ?b = 16" using l by simp
  have "put64 (get64 (take 8 (enc ?b))) @ drop 8 (enc ?b) = enc ?b" using cipher(1) [OF b] by simp
  then show "unwrap_step dec ti (wrap_step enc ti s) = s"
    using i b cipher(3) [OF b] by (simp add: wrap_step_def unwrap_step_def Let_def prod_eq_iff)
  let ?c = "put64 (fst s XOR of_nat (fst ti)) @ snd s ! ?i"
  have c: "length ?c = 16" using l by simp
  have "put64 (get64 (take 8 (dec ?c))) @ drop 8 (dec ?c) = dec ?c" using cipher(2) [OF c] by simp
  then show "wrap_step enc ti (unwrap_step dec ti s) = s"
    using i c cipher(4) [OF c] by (simp add: wrap_step_def unwrap_step_def Let_def prod_eq_iff)
qed

lemma rounds_range: "ti \<in> set (kw_rounds n) \<Longrightarrow> 1 \<le> snd ti \<and> snd ti \<le> n"
  by (auto simp: kw_rounds_def)

lemma unwrap_wrap_loop:
  assumes "block_cipher enc dec" "kw_ok n s" "\<forall>ti\<in>set ts. 1 \<le> snd ti \<and> snd ti \<le> n"
  shows "kw_ok n (fold (wrap_step enc) ts s) \<and> fold (unwrap_step dec) (rev ts) (fold (wrap_step enc) ts s) = s"
  using assms(2,3)
proof (induction ts arbitrary: s)
  case (Cons t ts)
  from Cons.prems have t: "1 \<le> snd t" "snd t \<le> n" by auto
  from Cons.IH [OF steps_ok(1) [OF assms(1) Cons.prems(1) t]] Cons.prems(2)
    unwrap_wrap_step(1) [OF assms(1) Cons.prems(1) t]
  show ?case by simp
qed simp

lemma wrap_unwrap_loop:
  assumes "block_cipher enc dec" "kw_ok n s" "\<forall>ti\<in>set ts. 1 \<le> snd ti \<and> snd ti \<le> n"
  shows "kw_ok n (fold (unwrap_step dec) (rev ts) s) \<and> fold (wrap_step enc) ts (fold (unwrap_step dec) (rev ts) s) = s"
  using assms(2,3)
proof (induction ts arbitrary: s rule: rev_induct)
  case (snoc t ts)
  from snoc.prems have t: "1 \<le> snd t" "snd t \<le> n" by auto
  from snoc.IH [OF steps_ok(2) [OF assms(1) snoc.prems(1) t]] snoc.prems(2)
    unwrap_wrap_step(2) [OF assms(1) snoc.prems(1) t]
  show ?case by simp
qed simp

lemma concat_chunks: "concat (chunks n bs) = take (n * 8) bs"
proof (induction n)
  case (Suc n)
  then show ?case by (simp add: chunks_def take_add [symmetric] add.commute)
qed (simp add: chunks_def)

lemma chunks_Cons: "length r = 8 \<Longrightarrow> chunks (Suc n) (r @ bs) = r # chunks n bs"
proof -
  assume r: "length r = 8"
  have "[0..<Suc n] = 0 # map Suc [0..<n]" by (simp add: map_Suc_upt upt_conv_Cons)
  then show ?thesis using r by (simp add: chunks_def del: upt_Suc)
qed

lemma chunks_concat: "\<forall>r\<in>set rs. length r = 8 \<Longrightarrow> chunks (length rs) (concat rs) = rs"
  by (induction rs) (simp_all add: chunks_Cons chunks_def [of 0])

lemma length_concat_blocks: "\<forall>r\<in>set rs. length r = 8 \<Longrightarrow> length (concat rs) = 8 * length rs"
  by (induction rs) simp_all

lemma chunks_ok: "length bs = n * 8 \<Longrightarrow> kw_ok n (a, chunks n bs)"
  by (auto simp: kw_ok_def chunks_def)

lemma key_wrap_iff:
  assumes "block_cipher (aes kek) (aes_inv kek)" "NewCipher_ok kek" "length cek = cekLen"
  shows "(\<exists>w. keyWrap aes kek cek = Inr w)
    \<and> (keyUnwrap aes_inv kek w = Inr cek \<longleftrightarrow> keyWrap aes kek cek = Inr w)"
proof -
  let ?rs = "kw_rounds 4"
  have range: "\<forall>ti\<in>set ?rs. 1 \<le> snd ti \<and> snd ti \<le> 4" using rounds_range by blast
  define s0 where "s0 = (kwIV, chunks 4 cek)"
  define s1 where "s1 = fold (wrap_step (aes kek)) ?rs s0"
  have ok0: "kw_ok 4 s0" using assms(3) by (simp add: s0_def chunks_ok cekLen_def)
  note fwd = unwrap_wrap_loop [OF assms(1) ok0 range, folded s1_def]
  have blocks: "\<forall>r\<in>set (snd s1). length r = 8" "length (snd s1) = 4" using fwd by (simp_all add: kw_ok_def)
  let ?w = "put64 (fst s1) @ concat (snd s1)"
  have wrap: "keyWrap aes kek cek = Inr ?w"
    using assms(2,3) by (simp add: keyWrap_def Let_def cekLen_def s0_def s1_def)
  have cek: "concat (snd s0) = cek" using assms(3) by (simp add: s0_def concat_chunks cekLen_def)
  have "length ?w = 40" using length_concat_blocks [OF blocks(1)] blocks(2) by simp
  moreover have "chunks 4 (concat (snd s1)) = snd s1"
    using chunks_concat [OF blocks(1)] blocks(2) by simp
  ultimately have unwrap: "keyUnwrap aes_inv kek ?w = Inr cek"
    using fwd cek assms(2) by (simp add: keyUnwrap_def Let_def cekLen_def s0_def)
  have only: "w = ?w" if u: "keyUnwrap aes_inv kek w = Inr cek"
  proof -
    have len: "length w = 40" using u by (simp add: keyUnwrap_def require_Inr_iff cekLen_def)
    define t0 where "t0 = (get64 (take 8 w), chunks 4 (drop 8 w))"
    define t1 where "t1 = fold (unwrap_step (aes_inv kek)) (rev ?rs) t0"
    have ok: "kw_ok 4 t0" using len by (simp add: t0_def chunks_ok)
    note bw = wrap_unwrap_loop [OF assms(1) ok range, folded t1_def]
    have t1: "fst t1 = kwIV" "concat (snd t1) = cek"
      using u len by (simp_all add: keyUnwrap_def require_Inr_iff Let_def cekLen_def t0_def t1_def)
    have "chunks 4 cek = snd t1"
      using chunks_concat [of "snd t1"] bw unfolding t1(2) kw_ok_def by simp
    with t1(1) have "t1 = s0" by (simp add: s0_def prod_eq_iff)
    with bw have "s1 = t0" by (simp add: s1_def)
    then show ?thesis
      using len by (simp add: t0_def concat_chunks)
  qed
  show ?thesis using wrap unwrap only by auto
qed

lemma key_wrap_roundtrip:
  assumes "block_cipher (aes kek) (aes_inv kek)" "NewCipher_ok kek" "length cek = cekLen"
  shows "\<exists>w. keyWrap aes kek cek = Inr w \<and> keyUnwrap aes_inv kek w = Inr cek"
  using key_wrap_iff [where aes = aes and aes_inv = aes_inv and kek = kek, OF assms] by blast

text \<open>
  C36: the key wrap is exact.  For a block cipher and a key of its length, every
  32-byte content key has exactly one wrap, and unwrapping returns a content key
  exactly for that wrap: a changed blob is refused or is the wrap of another key.
\<close>

theorem key_wrap_exact:
  assumes "block_cipher (aes kek) (aes_inv kek)" "NewCipher_ok kek" "length cek = cekLen"
  shows "(\<exists>w. keyWrap aes kek cek = Inr w)
    \<and> (keyUnwrap aes_inv kek w = Inr cek \<longleftrightarrow> keyWrap aes kek cek = Inr w)"
  using key_wrap_iff [where aes = aes and aes_inv = aes_inv and kek = kek, OF assms] by blast

text \<open>A block cipher whose block function adds the key's first byte.\<close>

definition demo_aes :: "bytes \<Rightarrow> bytes \<Rightarrow> bytes" where
  "demo_aes key b = map (\<lambda>x. x + hd key) b"

definition demo_aes_inv :: "bytes \<Rightarrow> bytes \<Rightarrow> bytes" where
  "demo_aes_inv key b = map (\<lambda>x. x - hd key) b"

lemma demo_block_cipher: "block_cipher (demo_aes k) (demo_aes_inv k)"
  by (simp add: block_cipher_def demo_aes_def demo_aes_inv_def comp_def)

theorem key_wrap_exact_witness:
  "\<exists>w. keyWrap demo_aes (replicate 32 5) (replicate 32 1) = Inr w
     \<and> keyUnwrap demo_aes_inv (replicate 32 5) w = Inr (replicate 32 1)"
proof -
  note ex = key_wrap_exact [where aes = demo_aes and aes_inv = demo_aes_inv, OF demo_block_cipher, where kek = "replicate 32 5" and cek = "replicate 32 1"]
  from ex obtain w where "keyWrap demo_aes (replicate 32 5) (replicate 32 1) = Inr w"
    by (auto simp: NewCipher_ok_def cekLen_def)
  with ex [where w = w] show ?thesis by (auto simp: NewCipher_ok_def cekLen_def)
qed

section \<open>Raw URL base64\<close>

definition b64_alphabet :: string where
  "b64_alphabet = ''ABCDEFGHIJKLMNOPQRSTUVWXYZabcdefghijklmnopqrstuvwxyz0123456789-_''"

definition b64_char :: "nat \<Rightarrow> char" where
  "b64_char n = b64_alphabet ! n"

definition b64_val :: "char \<Rightarrow> nat option" where
  "b64_val c = map_of (zip b64_alphabet [0..<64]) c"

fun b64_encode :: "bytes \<Rightarrow> string" where
  "b64_encode [] = []"
| "b64_encode [a] = map b64_char [unat a div 4, unat a mod 4 * 16]"
| "b64_encode [a, b] = map b64_char [unat a div 4, unat a mod 4 * 16 + unat b div 16, unat b mod 16 * 4]"
| "b64_encode (a # b # c # bs) =
     map b64_char [unat a div 4, unat a mod 4 * 16 + unat b div 16, unat b mod 16 * 4 + unat c div 64, unat c mod 64]
     @ b64_encode bs"

fun b64_values :: "nat list \<Rightarrow> bytes option" where
  "b64_values [] = Some []"
| "b64_values [x] = None"
| "b64_values [x, y] = Some [of_nat (x * 4 + y div 16)]"
| "b64_values [x, y, z] = Some [of_nat (x * 4 + y div 16), of_nat (y mod 16 * 16 + z div 4)]"
| "b64_values (x # y # z # u # vs) =
     map_option (\<lambda>bs. of_nat (x * 4 + y div 16) # of_nat (y mod 16 * 16 + z div 4) # of_nat (z mod 4 * 64 + u) # bs)
       (b64_values vs)"

text \<open>\<open>DecodeString\<close> skips line breaks and refuses every other character outside the alphabet.\<close>

definition b64_decode :: "string \<Rightarrow> bytes option" where
  "b64_decode s = Option.bind (those (map b64_val (filter (\<lambda>c. c \<notin> {CHR 0x0A, CHR 0x0D}) s))) b64_values"

lemma b64_val_char: "n < 64 \<Longrightarrow> b64_val (b64_char n) = Some n"
proof -
  have "\<forall>n\<in>set [0..<64]. b64_val (b64_char n) = Some n" by code_simp
  then show "n < 64 \<Longrightarrow> b64_val (b64_char n) = Some n" by (simp del: upt_rec_numeral)
qed

lemma b64_char_visible: "n < 64 \<Longrightarrow> b64_char n \<notin> {CHR 0x0A, CHR 0x0D}"
proof -
  have "\<forall>n\<in>set [0..<64]. b64_char n \<notin> {CHR 0x0A, CHR 0x0D}" by code_simp
  then show "n < 64 \<Longrightarrow> b64_char n \<notin> {CHR 0x0A, CHR 0x0D}" by (simp del: upt_rec_numeral)
qed

lemma b64_decode_chars:
  "\<forall>n\<in>set ns. n < 64 \<Longrightarrow> b64_decode (map b64_char ns) = b64_values ns"
proof -
  assume ns: "\<forall>n\<in>set ns. n < 64"
  have "filter (\<lambda>c. c \<notin> {CHR 0x0A, CHR 0x0D}) (map b64_char ns) = map b64_char ns"
    using ns b64_char_visible by (simp add: filter_id_conv)
  moreover have "those (map b64_val (map b64_char ns)) = Some ns"
    using ns by (induction ns) (simp_all add: b64_val_char)
  ultimately show ?thesis by (simp add: b64_decode_def)
qed

fun b64_sixes :: "bytes \<Rightarrow> nat list" where
  "b64_sixes [] = []"
| "b64_sixes [a] = [unat a div 4, unat a mod 4 * 16]"
| "b64_sixes [a, b] = [unat a div 4, unat a mod 4 * 16 + unat b div 16, unat b mod 16 * 4]"
| "b64_sixes (a # b # c # bs) =
     [unat a div 4, unat a mod 4 * 16 + unat b div 16, unat b mod 16 * 4 + unat c div 64, unat c mod 64] @ b64_sixes bs"

lemma b64_encode_sixes: "b64_encode bs = map b64_char (b64_sixes bs)"
  by (induction bs rule: b64_sixes.induct) simp_all

lemma unat_byte: "unat (b :: byte) < 256"
  using unsigned_less [of b, where ?'a = nat] by simp

lemma sixes_small: "\<forall>n\<in>set (b64_sixes bs). n < 64"
proof (induction bs rule: b64_sixes.induct)
  case (2 a)
  show ?case using unat_byte [of a] by auto
next
  case (3 a b)
  show ?case using unat_byte [of a] unat_byte [of b] by auto
next
  case (4 a b c bs)
  then show ?case using unat_byte [of a] unat_byte [of b] unat_byte [of c] by auto
qed simp

lemma values_sixes: "b64_values (b64_sixes bs) = Some bs"
proof (induction bs rule: b64_sixes.induct)
  case (2 a)
  have "(unat a div 4) * 4 + (unat a mod 4 * 16) div 16 = unat a" by simp
  then show ?case by (simp only: b64_sixes.simps b64_values.simps) simp
next
  case (3 a b)
  have "unat b div 16 < 16" using unat_byte [of b] by auto
  then have "(unat a div 4) * 4 + (unat a mod 4 * 16 + unat b div 16) div 16 = unat a"
    "(unat a mod 4 * 16 + unat b div 16) mod 16 * 16 + (unat b mod 16 * 4) div 4 = unat b"
    by auto
  then show ?case by (simp only: b64_sixes.simps b64_values.simps) simp
next
  case (4 a b c bs)
  have "unat b div 16 < 16" "unat c div 64 < 4" using unat_byte [of b] unat_byte [of c] by auto
  then have "(unat a div 4) * 4 + (unat a mod 4 * 16 + unat b div 16) div 16 = unat a"
    "(unat a mod 4 * 16 + unat b div 16) mod 16 * 16 + (unat b mod 16 * 4 + unat c div 64) div 4 = unat b"
    "(unat b mod 16 * 4 + unat c div 64) mod 4 * 64 + unat c mod 64 = unat c"
    by auto
  with 4 show ?case by (simp only: b64_sixes.simps b64_values.simps append.simps) simp
qed simp

lemma b64_decode_encode [simp]: "b64_decode (b64_encode bs) = Some bs"
  by (simp add: b64_encode_sixes b64_decode_chars sixes_small values_sixes)

section \<open>Wrapping for a recipient\<close>

type_synonym point = "int \<times> int"

record crypto =
  aes_enc :: "bytes \<Rightarrow> bytes \<Rightarrow> bytes"
  aes_dec :: "bytes \<Rightarrow> bytes \<Rightarrow> bytes"
  sha_256 :: "bytes \<Rightarrow> bytes"
  on_curve :: "point \<Rightarrow> bool"
  public_point :: "int \<Rightarrow> point"
  ecdh :: "int \<Rightarrow> point \<Rightarrow> bytes"
  gcm_seal :: "bytes \<Rightarrow> bytes \<Rightarrow> bytes \<Rightarrow> bytes \<Rightarrow> bytes"
  gcm_open :: "bytes \<Rightarrow> bytes \<Rightarrow> bytes \<Rightarrow> bytes \<Rightarrow> bytes option"

record ephemeral_public_key =
  epk_kty :: string
  epk_crv :: string
  epk_x :: string
  epk_y :: string

record wrapped_cek =
  wc_alg :: string
  wc_kid :: string
  wc_epk :: ephemeral_public_key
  wc_wrapped :: bytes

definition Alg :: string where
  "Alg = ''ECDH-ES+A256KW''"

definition str_bytes :: "string \<Rightarrow> bytes" where
  "str_bytes s = map (\<lambda>c. of_nat (of_char c)) s"

definition writeLenPrefixed :: "bytes \<Rightarrow> bytes" where
  "writeLenPrefixed data = put32 (of_nat (length data)) @ data"

definition concatKDF :: "crypto \<Rightarrow> bytes \<Rightarrow> bytes" where
  "concatKDF C z = sha_256 C (put32 1 @ z @ writeLenPrefixed (str_bytes Alg) @ writeLenPrefixed []
     @ writeLenPrefixed [] @ put32 (of_nat (cekLen * 8)))"

definition epk_public_key :: "crypto \<Rightarrow> ephemeral_public_key \<Rightarrow> point option" where
  "epk_public_key C epk =
    (if epk_kty epk \<noteq> ''EC'' \<or> epk_crv epk \<noteq> ''P-256'' then None
     else Option.bind (b64_decode (epk_x epk)) (\<lambda>xBytes.
          Option.bind (b64_decode (epk_y epk)) (\<lambda>yBytes.
            (let pub = (be_int xBytes, be_int yBytes)
             in if on_curve C pub then Some pub else None))))"

text \<open>A recipient key that is nil or on another curve is \<open>None\<close>; the ephemeral private key is an argument.\<close>

definition Wrap :: "crypto \<Rightarrow> int \<Rightarrow> bytes \<Rightarrow> string \<Rightarrow> point option \<Rightarrow> (envelope_error, wrapped_cek) result" where
  "Wrap C eph cek recipientMethodID recipient =
    require (length cek = cekLen) BadCEKLength
    (require (trim_space recipientMethodID \<noteq> '''') NoRecipientMethod
    (case recipient of
       None \<Rightarrow> Inl BadRecipientKey
     | Some pub \<Rightarrow>
         require (on_curve C pub) BadRecipientKey
         (bind_res (keyWrap (aes_enc C) (concatKDF C (ecdh C eph pub)) cek) (\<lambda>wrapped.
            Inr \<lparr>wc_alg = Alg, wc_kid = recipientMethodID,
                 wc_epk = \<lparr>epk_kty = ''EC'', epk_crv = ''P-256'',
                   epk_x = b64_encode (be_bytes 32 (fst (public_point C eph))),
                   epk_y = b64_encode (be_bytes 32 (snd (public_point C eph)))\<rparr>,
                 wc_wrapped = wrapped\<rparr>))))"

definition Unwrap :: "crypto \<Rightarrow> (point \<Rightarrow> bytes option) \<Rightarrow> wrapped_cek option \<Rightarrow> (envelope_error, bytes) result" where
  "Unwrap C agreement w =
    (case w of
       None \<Rightarrow> Inl BadWrapLength
     | Some w \<Rightarrow>
         require (wc_alg w = Alg) UnsupportedAlg
         (case epk_public_key C (wc_epk w) of
            None \<Rightarrow> Inl BadEphemeralKey
          | Some epk \<Rightarrow>
              (case agreement epk of
                 None \<Rightarrow> Inl DeriveFailed
               | Some z \<Rightarrow> keyUnwrap (aes_dec C) (concatKDF C z) (wc_wrapped w))))"

text \<open>AES-256-GCM; the nonce drawn at random is an argument.\<close>

definition Encrypt :: "crypto \<Rightarrow> bytes \<Rightarrow> bytes \<Rightarrow> bytes \<Rightarrow> string \<Rightarrow> (envelope_error, bytes) result" where
  "Encrypt C nonce cek plaintext scopeID =
    require (length cek = cekLen) BadCEKLength
    (Inr (nonce @ gcm_seal C cek nonce plaintext (str_bytes scopeID)))"

definition Decrypt :: "crypto \<Rightarrow> bytes \<Rightarrow> bytes \<Rightarrow> string \<Rightarrow> (envelope_error, bytes) result" where
  "Decrypt C cek blob scopeID =
    require (length cek = cekLen) BadCEKLength
    (require (\<not> length blob < nonceLen + 16) CiphertextTooShort
    (case gcm_open C cek (take nonceLen blob) (drop nonceLen blob) (str_bytes scopeID) of
       None \<Rightarrow> Inl DecryptFailed
     | Some plaintext \<Rightarrow> Inr plaintext))"

text \<open>
  What is taken of the primitives: AES is a block cipher for every key of its length,
  SHA-256 yields 32 bytes, an ephemeral key is a point of the curve with 32-byte
  coordinates, and a key agreement holding the private key of \<open>own\<close> derives the secret
  the sender of the ephemeral key computed.
\<close>

definition crypto_ok :: "crypto \<Rightarrow> bool" where
  "crypto_ok C =
    ((\<forall>k. length k = 32 \<longrightarrow> block_cipher (aes_enc C k) (aes_dec C k))
     \<and> (\<forall>x. length (sha_256 C x) = 32)
     \<and> (\<forall>e. on_curve C (public_point C e)
          \<and> 0 \<le> fst (public_point C e) \<and> fst (public_point C e) < 2 ^ 256
          \<and> 0 \<le> snd (public_point C e) \<and> snd (public_point C e) < 2 ^ 256))"

definition key_agreement :: "crypto \<Rightarrow> (point \<Rightarrow> bytes option) \<Rightarrow> point \<Rightarrow> bool" where
  "key_agreement C agreement own = (\<forall>e. agreement (public_point C e) = Some (ecdh C e own))"

text \<open>GCM opens what it sealed, for the same key, nonce and associated data.\<close>

definition aead :: "crypto \<Rightarrow> bool" where
  "aead C = (\<forall>k n p a. length (gcm_seal C k n p a) = length p + 16 \<and> gcm_open C k n (gcm_seal C k n p a) a = Some p)"

lemma Decrypt_Encrypt:
  assumes "aead C" "length nonce = nonceLen" "Encrypt C nonce cek p scope = Inr blob"
  shows "Decrypt C cek blob scope = Inr p"
proof -
  have b: "length cek = cekLen" "blob = nonce @ gcm_seal C cek nonce p (str_bytes scope)"
    using assms(3) by (auto simp: Encrypt_def require_Inr_iff)
  show ?thesis using assms(1,2) by (simp add: Decrypt_def b aead_def nonceLen_def)
qed

lemma epk_roundtrip:
  assumes "crypto_ok C"
  shows "epk_public_key C \<lparr>epk_kty = ''EC'', epk_crv = ''P-256'',
       epk_x = b64_encode (be_bytes 32 (fst (public_point C e))),
       epk_y = b64_encode (be_bytes 32 (snd (public_point C e)))\<rparr> = Some (public_point C e)"
proof -
  have "(256 :: int) ^ 32 = 2 ^ 256" by simp
  with assms have "be_int (be_bytes 32 (fst (public_point C e))) = fst (public_point C e)"
    "be_int (be_bytes 32 (snd (public_point C e))) = snd (public_point C e)"
    by (simp_all add: crypto_ok_def be_int_be_bytes)
  with assms show ?thesis by (simp add: epk_public_key_def crypto_ok_def Let_def)
qed

lemma wrap_unwrap:
  assumes "crypto_ok C" "key_agreement C agreement own" "on_curve C own"
    and "length cek = cekLen" "trim_space method \<noteq> ''''"
  shows "\<exists>w. Wrap C eph cek method (Some own) = Inr w \<and> wc_kid w = method
     \<and> Unwrap C agreement (Some w) = Inr cek"
proof -
  let ?kek = "concatKDF C (ecdh C eph own)"
  have len: "length ?kek = 32" using assms(1) by (simp add: concatKDF_def crypto_ok_def)
  have cipher: "block_cipher (aes_enc C ?kek) (aes_dec C ?kek)"
    using assms(1) len by (simp add: crypto_ok_def)
  have "NewCipher_ok ?kek" using len by (simp add: NewCipher_ok_def)
  from key_wrap_roundtrip [where aes = "aes_enc C" and aes_inv = "aes_dec C" and kek = ?kek, OF cipher this assms(4)] obtain b where
    b: "keyWrap (aes_enc C) ?kek cek = Inr b" "keyUnwrap (aes_dec C) ?kek b = Inr cek" by blast
  have agree: "agreement (public_point C eph) = Some (ecdh C eph own)"
    using assms(2) by (simp add: key_agreement_def)
  show ?thesis
    using assms(3,4,5) b agree epk_roundtrip [OF assms(1), of eph] by (simp add: Wrap_def Unwrap_def)
qed

text \<open>
  A content key travels to its recipient.  Wrapping a 32-byte key for the
  holder of a key agreement succeeds when the recipient's method is named, names that
  method in the record, and the holder unwraps exactly that key.
\<close>

theorem wrapped_key_arrives:
  assumes "crypto_ok C" "key_agreement C agreement own" "on_curve C own"
    and "length cek = cekLen" "trim_space method \<noteq> ''''"
  shows "\<exists>w. Wrap C eph cek method (Some own) = Inr w \<and> wc_kid w = method
     \<and> Unwrap C agreement (Some w) = Inr cek"
  using wrap_unwrap [OF assms] by blast

definition demo_crypto :: crypto where
  "demo_crypto = \<lparr>aes_enc = demo_aes, aes_dec = demo_aes_inv, sha_256 = (\<lambda>x. replicate 32 (of_nat (length x))),
     on_curve = (\<lambda>_. True), public_point = (\<lambda>e. (e mod 2 ^ 256, 0)),
     ecdh = (\<lambda>e own. be_bytes 32 (e mod 2 ^ 256)),
     gcm_seal = (\<lambda>k n p a. p @ replicate 16 0), gcm_open = (\<lambda>k n c a. Some (take (length c - 16) c))\<rparr>"

lemma demo_crypto_ok: "crypto_ok demo_crypto" "aead demo_crypto"
  "key_agreement demo_crypto (\<lambda>pt. Some (be_bytes 32 (fst pt))) own"
  by (simp_all add: crypto_ok_def aead_def key_agreement_def demo_crypto_def demo_block_cipher)

theorem wrapped_key_arrives_witness:
  "\<exists>w. Wrap demo_crypto 77 (replicate 32 1) ''did:web:b#key-agreement'' (Some (3, 4)) = Inr w
     \<and> wc_kid w = ''did:web:b#key-agreement''
     \<and> Unwrap demo_crypto (\<lambda>pt. Some (be_bytes 32 (fst pt))) (Some w) = Inr (replicate 32 1)"
  by (rule wrapped_key_arrives [OF demo_crypto_ok(1,3)])
     (simp_all add: demo_crypto_def cekLen_def trim_space_def is_space_def)

end
