(* ===== verification/Did_Document.thy ===== *)
theory Did_Document
  imports Envelope Did_Web
begin

text \<open>
  What a DID document publishes its keys for (\<open>backend/internal/base/identity/did.go\<close>):
  resolving the identifier of a verification method within a document, the methods a
  document publishes for a verification relationship, the key a proof names, and the
  challenge that authenticates a peer together with the certificate of the key that
  answered it.  Fetching documents and certificates, X.509 and ECDSA are the parameters
  of the record \<open>pki\<close>.  A relationship entry is the string of a reference, an embedded
  method, or anything else the code skips.
\<close>

record public_key_jwk =
  jwk_kty :: string
  jwk_crv :: string
  jwk_x :: string
  jwk_y :: string
  jwk_x5c :: "string list"

record verification_method =
  vm_id :: string
  vm_jwk :: public_key_jwk

datatype relation_entry = EntryRef string | EntryMethod verification_method | EntryOther

datatype purpose = PurposeAuthentication | PurposeAssertion | PurposeKeyAgreement

text \<open>\<open>GetID\<close> fails on a document without a string identifier.\<close>

record did_document =
  dd_id :: "string option"
  dd_methods :: "verification_method list"
  dd_authentication :: "relation_entry list"
  dd_assertion :: "relation_entry list"
  dd_key_agreement :: "relation_entry list"

section \<open>Keys and methods\<close>

definition ECPublicKey :: "verification_method \<Rightarrow> point option" where
  "ECPublicKey m =
    (let jwk = vm_jwk m in
     if jwk_crv jwk \<noteq> '''' \<and> jwk_crv jwk \<noteq> ''P-256'' then None
     else case (b64_decode (jwk_x jwk), b64_decode (jwk_y jwk)) of
            (Some x, Some y) \<Rightarrow> Some (be_int x, be_int y)
          | _ \<Rightarrow> None)"

definition before_hash :: "string \<Rightarrow> string" where
  "before_hash = takeWhile (\<lambda>c. c \<noteq> CHR ''#'')"

definition ResolveMethodID :: "string \<Rightarrow> string \<Rightarrow> string option" where
  "ResolveMethodID docID methodID =
    (let named = trim_space methodID in
     if named = '''' then None
     else let absolute = (if has_prefix named ''#'' then docID @ named else named)
          in if before_hash absolute \<noteq> docID then None else Some absolute)"

definition entries_for :: "purpose \<Rightarrow> did_document \<Rightarrow> relation_entry list" where
  "entries_for p d =
    (case p of PurposeAuthentication \<Rightarrow> dd_authentication d | PurposeAssertion \<Rightarrow> dd_assertion d
             | PurposeKeyAgreement \<Rightarrow> dd_key_agreement d)"

text \<open>A reference is a method without key material; it stands for the published method.\<close>

definition no_jwk :: public_key_jwk where
  "no_jwk = \<lparr>jwk_kty = '''', jwk_crv = '''', jwk_x = '''', jwk_y = '''', jwk_x5c = []\<rparr>"

definition published_method :: "string \<Rightarrow> string \<Rightarrow> verification_method list \<Rightarrow> verification_method option" where
  "published_method docID name ms =
    map_option (\<lambda>m. m\<lparr>vm_id := name\<rparr>) (find (\<lambda>m. ResolveMethodID docID (vm_id m) = Some name) ms)"

definition entry_method :: "string \<Rightarrow> verification_method list \<Rightarrow> relation_entry \<Rightarrow> verification_method option" where
  "entry_method docID ms entry =
    (let resolve = (\<lambda>embedded. case ResolveMethodID docID (vm_id embedded) of
           None \<Rightarrow> None
         | Some name \<Rightarrow> if jwk_x (vm_jwk embedded) \<noteq> '''' then Some (embedded\<lparr>vm_id := name\<rparr>)
                     else published_method docID name ms)
     in case entry of
          EntryRef r \<Rightarrow> resolve \<lparr>vm_id = r, vm_jwk = no_jwk\<rparr>
        | EntryMethod m \<Rightarrow> resolve m
        | EntryOther \<Rightarrow> None)"

definition methodsFor :: "purpose \<Rightarrow> did_document \<Rightarrow> verification_method list option" where
  "methodsFor p d =
    map_option (\<lambda>docID. List.map_filter (entry_method docID (dd_methods d)) (entries_for p d)) (dd_id d)"

definition MethodFor :: "purpose \<Rightarrow> string \<Rightarrow> did_document \<Rightarrow> verification_method option" where
  "MethodFor p methodID d =
    (case dd_id d of
       None \<Rightarrow> None
     | Some docID \<Rightarrow>
         (case ResolveMethodID docID methodID of
            None \<Rightarrow> None
          | Some name \<Rightarrow>
              (case methodsFor p d of
                 None \<Rightarrow> None
               | Some ms \<Rightarrow> find (\<lambda>m. vm_id m = name) ms)))"

definition AssertionKey :: "did_document option \<Rightarrow> string \<Rightarrow> point option" where
  "AssertionKey d methodID =
    (case d of
       None \<Rightarrow> None
     | Some d \<Rightarrow> if trim_space methodID = '''' then None
               else Option.bind (MethodFor PurposeAssertion methodID d) ECPublicKey)"

definition PublishesKeyFor :: "purpose \<Rightarrow> point option \<Rightarrow> did_document \<Rightarrow> bool" where
  "PublishesKeyFor p pub d =
    (case pub of
       None \<Rightarrow> False
     | Some k \<Rightarrow> (case methodsFor p d of
                   None \<Rightarrow> False
                 | Some ms \<Rightarrow> list_ex (\<lambda>m. ECPublicKey m = Some k) ms))"

section \<open>The peer challenge\<close>

record certificate =
  ct_names :: "string \<Rightarrow> bool"
  ct_key :: "point option"
  ct_qualified :: "bool option"

text \<open>
  \<open>pk_chain\<close> is \<open>certificateChain\<close>, \<open>pk_roots\<close> says whether the trust pool is populated,
  \<open>pk_trusted\<close> is \<open>verifyChain\<close> against it, \<open>pk_host\<close> is \<open>GetHostname\<close> without the port,
  and \<open>pk_verify\<close> is ECDSA over the SHA-256 of a message with a DER signature.
\<close>

record pki =
  pk_chain :: "verification_method \<Rightarrow> certificate list option"
  pk_roots :: bool
  pk_trusted :: "certificate list \<Rightarrow> bool"
  pk_host :: "did_document \<Rightarrow> string option"
  pk_verify :: "point \<Rightarrow> string \<Rightarrow> string \<Rightarrow> bool"

datatype challenge_error =
    ChallengeNoID | ChallengeNoMethods | ChallengeUnanswered | CertChainMissing | CertChainUntrusted
  | CertNoHost | CertWrongHost | CertNotECDSA | CertNoKey | CertKeyMismatch | CertNoStatements | CertNotQualified

definition challenge_option :: "challenge_error \<Rightarrow> 'a option \<Rightarrow> (challenge_error, 'a) result" where
  "challenge_option e m = (case m of None \<Rightarrow> Inl e | Some x \<Rightarrow> Inr x)"

definition verifyCertificateOf :: "pki \<Rightarrow> did_document \<Rightarrow> verification_method \<Rightarrow> (challenge_error, unit) result" where
  "verifyCertificateOf K d m =
    bind_res (challenge_option CertChainMissing (pk_chain K m)) (\<lambda>certs.
      case certs of
        [] \<Rightarrow> Inl CertChainMissing
      | cert # _ \<Rightarrow>
          require (\<not> pk_roots K \<or> pk_trusted K certs) CertChainUntrusted
          (bind_res (challenge_option CertNoHost (pk_host K d)) (\<lambda>host.
           require (ct_names cert host) CertWrongHost
          (bind_res (challenge_option CertNotECDSA (ct_key cert)) (\<lambda>certPub.
           bind_res (challenge_option CertNoKey (ECPublicKey m)) (\<lambda>jwkPub.
           require (certPub = jwkPub) CertKeyMismatch
           (if pk_roots K
            then bind_res (challenge_option CertNoStatements (ct_qualified cert)) (\<lambda>qualified.
                   require qualified CertNotQualified (Inr ()))
            else Inr ())))))))"

fun answer_challenge ::
  "pki \<Rightarrow> did_document \<Rightarrow> string \<Rightarrow> string \<Rightarrow> verification_method list \<Rightarrow> (challenge_error, unit) result" where
  "answer_challenge K d content signature [] = Inl ChallengeUnanswered"
| "answer_challenge K d content signature (m # ms) =
     (case ECPublicKey m of
        None \<Rightarrow> answer_challenge K d content signature ms
      | Some pub \<Rightarrow> if pk_verify K pub content signature then verifyCertificateOf K d m
                    else answer_challenge K d content signature ms)"

definition VerifyPeerChallenge :: "pki \<Rightarrow> did_document \<Rightarrow> string \<Rightarrow> string \<Rightarrow> (challenge_error, unit) result" where
  "VerifyPeerChallenge K d content signature =
    (case (methodsFor PurposeAuthentication d, methodsFor PurposeAssertion d) of
       (Some auth, Some assertion) \<Rightarrow>
         if auth @ assertion = [] then Inl ChallengeNoMethods
         else answer_challenge K d content signature (auth @ assertion)
     | _ \<Rightarrow> Inl ChallengeNoID)"

section \<open>Facts\<close>

lemma challenge_option_Inr [simp]: "challenge_option e m = Inr x \<longleftrightarrow> m = Some x"
  by (auto simp: challenge_option_def split: option.splits)

lemma resolved_belongs:
  "ResolveMethodID docID methodID = Some name \<Longrightarrow> before_hash name = docID \<and> name \<noteq> ''''"
  by (auto simp: ResolveMethodID_def Let_def split: if_splits)

lemma published_method_Some:
  "published_method docID name ms = Some m \<Longrightarrow> vm_id m = name \<and> (\<exists>p\<in>set ms. vm_jwk m = vm_jwk p)"
  by (auto simp: published_method_def find_Some_iff)

lemma entry_method_Some:
  assumes "entry_method docID ms entry = Some m"
  shows "before_hash (vm_id m) = docID
    \<and> ((\<exists>p\<in>set ms. vm_jwk m = vm_jwk p) \<or> (\<exists>p. entry = EntryMethod p \<and> vm_jwk m = vm_jwk p \<and> jwk_x (vm_jwk p) \<noteq> ''''))"
  using assms
  by (cases entry)
    (auto simp: entry_method_def Let_def no_jwk_def split: option.splits if_splits
      dest!: resolved_belongs published_method_Some)

lemma set_map_filter: "set (List.map_filter f xs) = {y. \<exists>x\<in>set xs. f x = Some y}"
  by (induction xs) (auto split: option.splits)

lemma methodsFor_own:
  assumes "methodsFor p d = Some ms" "m \<in> set ms"
  shows "dd_id d = Some (before_hash (vm_id m))"
proof -
  from assms obtain docID x where "dd_id d = Some docID" "entry_method docID (dd_methods d) x = Some m"
    by (auto simp: methodsFor_def set_map_filter)
  with entry_method_Some [OF this(2)] show ?thesis by simp
qed

lemma MethodFor_published:
  assumes "MethodFor p name d = Some m"
  shows "\<exists>docID ms. dd_id d = Some docID \<and> methodsFor p d = Some ms \<and> m \<in> set ms \<and> before_hash (vm_id m) = docID"
  using assms
  by (auto simp: MethodFor_def methodsFor_def find_Some_iff split: option.splits dest!: resolved_belongs)

lemma PublishesKeyFor_iff:
  "PublishesKeyFor p pub d \<longleftrightarrow>
    (\<exists>k ms m. pub = Some k \<and> methodsFor p d = Some ms \<and> m \<in> set ms \<and> ECPublicKey m = Some k)"
  by (auto simp: PublishesKeyFor_def list_ex_iff split: option.splits)

lemma answer_challenge_Inr:
  assumes "answer_challenge K d content signature ms = Inr ()"
  shows "\<exists>m\<in>set ms. \<exists>pub. ECPublicKey m = Some pub \<and> pk_verify K pub content signature
    \<and> verifyCertificateOf K d m = Inr ()"
  using assms
  by (induction K d content signature ms rule: answer_challenge.induct)
    (auto split: option.splits if_splits)

lemma verifyCertificateOf_Inr:
  "verifyCertificateOf K d m = Inr () \<longleftrightarrow>
    (\<exists>cert certs host k. pk_chain K m = Some (cert # certs) \<and> (pk_roots K \<longrightarrow> pk_trusted K (cert # certs))
       \<and> pk_host K d = Some host \<and> ct_names cert host \<and> ct_key cert = Some k \<and> ECPublicKey m = Some k
       \<and> (pk_roots K \<longrightarrow> ct_qualified cert = Some True))"
proof (cases "pk_chain K m")
  case None
  then show ?thesis by (simp add: verifyCertificateOf_def challenge_option_def)
next
  case (Some chain)
  then show ?thesis
  proof (cases chain)
    case Nil
    with Some show ?thesis by (simp add: verifyCertificateOf_def challenge_option_def)
  next
    case (Cons cert certs)
    with Some show ?thesis
      by (cases "pk_roots K") (auto simp: verifyCertificateOf_def challenge_option_def require_Inr_iff
        bind_res_Inr_iff split: option.splits)
  qed
qed

text \<open>
  C12: a peer is authenticated by one key.  Whenever a challenge is accepted there is one
  key the document publishes for authentication or assertions, under an identifier of
  its own, such that the answer verifies against this key, the certificate presented for
  it is for the same key and for the host of the document.  Only when a pool of trusted
  roots is configured and loaded (\<open>pk_roots\<close>) is the chain also trusted and the
  certificate a qualified one; without a pool the code checks neither.
\<close>

theorem challenge_binds_one_key:
  assumes "VerifyPeerChallenge K d content signature = Inr ()"
  shows "\<exists>docID p m k cert certs host.
    dd_id d = Some docID \<and> p \<in> {PurposeAuthentication, PurposeAssertion}
    \<and> PublishesKeyFor p (Some k) d \<and> before_hash (vm_id m) = docID
    \<and> ECPublicKey m = Some k \<and> pk_verify K k content signature
    \<and> pk_chain K m = Some (cert # certs) \<and> ct_key cert = Some k
    \<and> pk_host K d = Some host \<and> ct_names cert host
    \<and> (pk_roots K \<longrightarrow> pk_trusted K (cert # certs) \<and> ct_qualified cert = Some True)"
proof -
  from assms obtain auth assertion where ms: "methodsFor PurposeAuthentication d = Some auth"
      "methodsFor PurposeAssertion d = Some assertion"
      "answer_challenge K d content signature (auth @ assertion) = Inr ()"
    by (auto simp: VerifyPeerChallenge_def split: option.splits if_splits)
  from answer_challenge_Inr [OF ms(3)] obtain m k where m: "m \<in> set (auth @ assertion)"
      "ECPublicKey m = Some k" "pk_verify K k content signature" "verifyCertificateOf K d m = Inr ()"
    by blast
  obtain p where p: "p \<in> {PurposeAuthentication, PurposeAssertion}" "PublishesKeyFor p (Some k) d"
    using m(1,2) ms(1,2) by (auto simp: PublishesKeyFor_iff)
  obtain docID where docID: "dd_id d = Some docID" "before_hash (vm_id m) = docID"
    using m(1) ms(1,2) methodsFor_own by auto
  from m(4) obtain cert certs host where "pk_chain K m = Some (cert # certs)"
      "pk_host K d = Some host" "ct_names cert host" "ct_key cert = Some k"
      "pk_roots K \<longrightarrow> pk_trusted K (cert # certs) \<and> ct_qualified cert = Some True"
    using m(2) by (auto simp: verifyCertificateOf_Inr)
  with p docID m(2,3) show ?thesis by blast
qed

definition demo_jwk :: public_key_jwk where
  "demo_jwk = \<lparr>jwk_kty = ''EC'', jwk_crv = ''P-256'', jwk_x = ''AQ'', jwk_y = ''Ag'', jwk_x5c = [''MIIB'']\<rparr>"

definition demo_did_document :: "string \<Rightarrow> did_document" where
  "demo_did_document did = \<lparr>dd_id = Some did, dd_methods = [\<lparr>vm_id = ''#key-1'', vm_jwk = demo_jwk\<rparr>],
     dd_authentication = [EntryRef ''#key-1''], dd_assertion = [EntryRef (did @ ''#key-1'')],
     dd_key_agreement = []\<rparr>"

definition demo_pki :: pki where
  "demo_pki = \<lparr>pk_chain = (\<lambda>_. Some [\<lparr>ct_names = (\<lambda>h. h = ''a.example''), ct_key = Some (1, 2),
       ct_qualified = Some True\<rparr>]), pk_roots = True, pk_trusted = (\<lambda>_. True),
     pk_host = (\<lambda>_. Some ''a.example''), pk_verify = (\<lambda>k c s. k = (1, 2) \<and> s = ''signed '' @ c)\<rparr>"

theorem challenge_binds_one_key_witness:
  "VerifyPeerChallenge demo_pki (demo_did_document ''did:web:a.example'') ''secret'' ''signed secret'' = Inr ()
    \<and> (\<exists>k p. p \<in> {PurposeAuthentication, PurposeAssertion}
         \<and> PublishesKeyFor p (Some k) (demo_did_document ''did:web:a.example'')
         \<and> pk_verify demo_pki k ''secret'' ''signed secret'')"
proof -
  have "VerifyPeerChallenge demo_pki (demo_did_document ''did:web:a.example'') ''secret'' ''signed secret'' = Inr ()"
    by code_simp
  with challenge_binds_one_key [OF this] show ?thesis by blast
qed

end
