(* ===== verification/Jades.thy ===== *)
theory Jades
  imports Did_Document Json_Value
begin

text \<open>
  The signed statements instances exchange (\<open>backend/internal/base/jades/jades.go\<close>): the
  compact JWS with its protected header, signing and verification, and the canonical
  payloads of a settlement, of its withdrawal and of a signed contract.  JSON text, X.509,
  ASN.1, ECDSA and the JSON canonicalisation scheme are parameters; base64url and the
  big-endian integers are those of \<open>Envelope\<close>.  A payload is a byte string.
\<close>

section \<open>The protected header\<close>

record protected_header =
  ph_alg :: string
  ph_typ :: string
  ph_cty :: string
  ph_x5c :: "string list"
  ph_sigT :: string
  ph_crit :: "string list"

datatype leaf_key = LeafECDSA point | LeafOther

text \<open>
  \<open>jw_marshal\<close> and \<open>jw_parse\<close> are the JSON text of a header, \<open>jw_leaf\<close> decodes and parses a
  certificate, \<open>jw_ecdsa\<close> is ECDSA over the SHA-256 of a message, and \<open>jw_asn1\<close> reads a
  DER signature.
\<close>

record jws_env =
  jw_marshal :: "protected_header \<Rightarrow> string"
  jw_parse :: "string \<Rightarrow> protected_header option"
  jw_leaf :: "string \<Rightarrow> leaf_key option"
  jw_ecdsa :: "point \<Rightarrow> string \<Rightarrow> int \<Rightarrow> int \<Rightarrow> bool"
  jw_asn1 :: "string \<Rightarrow> (int \<times> int) option"

datatype jws_error =
    JwsSegments | JwsHeaderEncoding | JwsHeaderText | JwsAlgorithm | JwsNoSigningTime
  | JwsCritical string | JwsSigningTimeNotCritical | JwsNoChain | JwsLeaf | JwsLeafKind
  | JwsPayloadEncoding | JwsSignatureEncoding | JwsSignatureLength | JwsInvalid
  | JwsNotBound | JwsNoOwnChain | JwsSigning | JwsDER | JwsPanic

definition jws_option :: "jws_error \<Rightarrow> 'a option \<Rightarrow> (jws_error, 'a) result" where
  "jws_option e m = (case m of None \<Rightarrow> Inl e | Some x \<Rightarrow> Inr x)"

lemma jws_option_Inr [simp]: "jws_option e m = Inr x \<longleftrightarrow> m = Some x"
  by (auto simp: jws_option_def split: option.splits)

definition text_bytes :: "string \<Rightarrow> bytes" where
  "text_bytes = map of_char"

definition bytes_text :: "bytes \<Rightarrow> string" where
  "bytes_text = map (\<lambda>b. char_of (unat b))"

section \<open>Verification\<close>

fun critical_headers :: "string list \<Rightarrow> bool \<Rightarrow> (jws_error, bool) result" where
  "critical_headers [] seen = Inr seen"
| "critical_headers (c # cs) seen =
     (if c = ''sigT'' then critical_headers cs True else Inl (JwsCritical c))"

definition Jades_Verify :: "jws_env \<Rightarrow> string \<Rightarrow> (jws_error, string \<times> point) result" where
  "Jades_Verify J jws =
    (case split_on (CHR ''.'') jws of
       [headerPart, payloadPart, signaturePart] \<Rightarrow>
         bind_res (jws_option JwsHeaderEncoding (b64_decode headerPart)) (\<lambda>headerBytes.
         bind_res (jws_option JwsHeaderText (jw_parse J (bytes_text headerBytes))) (\<lambda>header.
         require (ph_alg header = ''ES256'') JwsAlgorithm
         (require (ph_sigT header \<noteq> '''') JwsNoSigningTime
         (bind_res (critical_headers (ph_crit header) False) (\<lambda>critSeen.
          require critSeen JwsSigningTimeNotCritical
         (case ph_x5c header of
            [] \<Rightarrow> Inl JwsNoChain
          | first # _ \<Rightarrow>
              bind_res (jws_option JwsLeaf (jw_leaf J first)) (\<lambda>leaf.
              case leaf of
                LeafOther \<Rightarrow> Inl JwsLeafKind
              | LeafECDSA key \<Rightarrow>
                  bind_res (jws_option JwsPayloadEncoding (b64_decode payloadPart)) (\<lambda>payload.
                  bind_res (jws_option JwsSignatureEncoding (b64_decode signaturePart)) (\<lambda>sig.
                  require (length sig = 64) JwsSignatureLength
                  (require (jw_ecdsa J key (headerPart @ ''.'' @ payloadPart)
                              (be_int (take 32 sig)) (be_int (drop 32 sig))) JwsInvalid
                  (Inr (bytes_text payload, key))))))))))))
     | _ \<Rightarrow> Inl JwsSegments)"

section \<open>Signing\<close>

text \<open>\<open>FillBytes\<close> panics on a value of more than 32 bytes.\<close>

definition derToJOSE :: "jws_env \<Rightarrow> string \<Rightarrow> (jws_error, bytes) result" where
  "derToJOSE J der =
    bind_res (jws_option JwsDER (jw_asn1 J der)) (\<lambda>(r, s).
      require (\<bar>r\<bar> < 2 ^ 256 \<and> \<bar>s\<bar> < 2 ^ 256) JwsPanic
      (Inr (be_bytes 32 \<bar>r\<bar> @ be_bytes 32 \<bar>s\<bar>)))"

text \<open>What an instance signs with: the method its key is published as, and the key.\<close>

record jws_signer =
  sg_method :: "verification_method option"
  sg_sign :: "string \<Rightarrow> string option"

definition signing_header :: "string list \<Rightarrow> string \<Rightarrow> protected_header" where
  "signing_header x5c sigT = \<lparr>ph_alg = ''ES256'', ph_typ = ''jose'', ph_cty = ''application/json'',
     ph_x5c = x5c, ph_sigT = sigT, ph_crit = [''sigT'']\<rparr>"

definition Jades_Sign :: "jws_env \<Rightarrow> jws_signer \<Rightarrow> string \<Rightarrow> string \<Rightarrow> (jws_error, string) result" where
  "Jades_Sign J g sigT payload =
    bind_res (jws_option JwsNotBound (sg_method g)) (\<lambda>method.
    require (jwk_x5c (vm_jwk method) \<noteq> []) JwsNoOwnChain
    (let header = signing_header (jwk_x5c (vm_jwk method)) sigT;
         signingInput = b64_encode (text_bytes (jw_marshal J header)) @ ''.'' @ b64_encode (text_bytes payload)
     in bind_res (jws_option JwsSigning (sg_sign g signingInput)) (\<lambda>derSig.
        bind_res (derToJOSE J derSig) (\<lambda>joseSig.
          Inr (signingInput @ ''.'' @ b64_encode joseSig)))))"

section \<open>Signing and verifying fit\<close>

lemma bytes_text_text [simp]: "bytes_text (text_bytes s) = s"
proof (induction s)
  case (Cons c s)
  have "unat (of_char c :: byte) = of_char c"
    using of_char_less [of c]
    by (subst of_nat_of_char [symmetric]) (simp add: unsigned_of_nat take_bit_nat_eq_self)
  with Cons show ?case by (simp add: bytes_text_def text_bytes_def)
qed (simp add: bytes_text_def text_bytes_def)

lemma b64_no_dot: "CHR ''.'' \<notin> set (b64_encode bs)"
proof -
  have "\<forall>n\<in>set [0..<64]. b64_char n \<noteq> CHR ''.''" by code_simp
  then have "n < 64 \<Longrightarrow> b64_char n \<noteq> CHR ''.''" for n by (simp del: upt_rec_numeral)
  then show ?thesis using sixes_small [of bs] by (force simp: b64_encode_sixes)
qed

lemma split_three:
  assumes "d \<notin> set a" "d \<notin> set b" "d \<notin> set c"
  shows "split_on d (a @ d # b @ d # c) = [a, b, c]"
  using assms by (simp add: split_on_append split_on_no_sep)

text \<open>
  A signature made with the key of the first certificate verifies, and gives back the
  payload that was signed and this key.
\<close>

theorem jades_round_trip:
  assumes "Jades_Sign J g sigT payload = Inr jws" "sg_method g = Some m" "sigT \<noteq> ''''"
    and header: "\<And>h. jw_parse J (jw_marshal J h) = Some h"
    and leaf: "jw_leaf J (hd (jwk_x5c (vm_jwk m))) = Some (LeafECDSA key)"
    and ecdsa: "\<And>text der r s. sg_sign g text = Some der \<Longrightarrow> jw_asn1 J der = Some (r, s) \<Longrightarrow>
        0 \<le> r \<and> 0 \<le> s \<and> jw_ecdsa J key text r s"
  shows "Jades_Verify J jws = Inr (payload, key)"
proof -
  let ?h = "signing_header (jwk_x5c (vm_jwk m)) sigT"
  let ?a = "b64_encode (text_bytes (jw_marshal J ?h))" and ?b = "b64_encode (text_bytes payload)"
  let ?text = "?a @ ''.'' @ ?b"
  from assms(1,2) obtain der r s where x5c: "jwk_x5c (vm_jwk m) \<noteq> []" and der: "sg_sign g ?text = Some der"
      "jw_asn1 J der = Some (r, s)" and small: "\<bar>r\<bar> < 2 ^ 256" "\<bar>s\<bar> < 2 ^ 256"
      and jws: "jws = ?text @ ''.'' @ b64_encode (be_bytes 32 \<bar>r\<bar> @ be_bytes 32 \<bar>s\<bar>)"
    by (auto simp: Jades_Sign_def derToJOSE_def result_iffs Let_def)
  have ok: "0 \<le> r" "0 \<le> s" "jw_ecdsa J key ?text r s" using ecdsa [OF der] by auto
  have parts: "split_on (CHR ''.'') jws = [?a, ?b, b64_encode (be_bytes 32 r @ be_bytes 32 s)]"
    using split_three [OF b64_no_dot b64_no_dot b64_no_dot] ok(1,2) by (simp add: jws)
  obtain first rest where first: "jwk_x5c (vm_jwk m) = first # rest" using x5c by (cases "jwk_x5c (vm_jwk m)") auto
  have "be_int (be_bytes 32 r) = r" "be_int (be_bytes 32 s) = s"
    using small ok(1,2) by (simp_all add: be_int_be_bytes)
  then show ?thesis
    using leaf ok(3) assms(3)
    by (simp add: Jades_Verify_def parts header signing_header_def first jws_option_def)
qed

end
