(* ===== verification/Status_Served.thy ===== *)
theory Status_Served
  imports Status_Publication Semantic_Bundle Jades
begin

text \<open>
  The status list as a deployment serves it
  (\<open>backend/internal/pdfgeneration/provenance/status_list_serve.go\<close>,
  \<open>status_list_url.go\<close>): the bitstring, the claims of the signed token and the HTTP handler;
  and the reference to it that a credential carries (\<open>buildCredentialStatus\<close> of
  \<open>vc_binding.go\<close>, \<open>ExtractCredentialStatus\<close> of \<open>status_list.go\<close>).  JSON text, the zlib
  compression and the signature are parameters.  The bit of an allocated entry is set exactly
  when its subject is revoked, and what a credential advertises is what a reader extracts.
\<close>

section \<open>Decimal numbers\<close>

text \<open>\<open>%d\<close>, \<open>strconv.ParseUint(s, 10, bits)\<close> and \<open>strconv.Atoi\<close>.\<close>

definition digit_char :: "nat \<Rightarrow> char" where
  "digit_char n = char_of (48 + n)"

fun show_nat :: "nat \<Rightarrow> string" where
  "show_nat n = (if n < 10 then [digit_char n] else show_nat (n div 10) @ [digit_char (n mod 10)])"

declare show_nat.simps [simp del]

definition show_int :: "int \<Rightarrow> string" where
  "show_int i = (if i < 0 then CHR ''-'' # show_nat (nat (- i)) else show_nat (nat i))"

definition ParseUint :: "nat \<Rightarrow> string \<Rightarrow> nat option" where
  "ParseUint bits s = (if s \<noteq> '''' \<and> list_all is_digit s \<and> decimal s < 2 ^ bits then Some (decimal s) else None)"

definition Atoi :: "string \<Rightarrow> int option" where
  "Atoi s =
    (let neg = has_prefix s ''-''; ds = (if neg \<or> has_prefix s ''+'' then tl s else s);
         v = (if neg then - int (decimal ds) else int (decimal ds))
     in if ds = '''' \<or> \<not> list_all is_digit ds \<or> v < - (2 ^ 63) \<or> 2 ^ 63 \<le> v then None else Some v)"

lemma digit_char_facts:
  assumes "n < 10"
  shows "is_digit (digit_char n)" "of_char (digit_char n) - 48 = (n :: nat)"
  using assms by (simp_all add: digit_char_def is_digit_def Let_def)

lemma decimal_snoc: "decimal (ds @ [c]) = 10 * decimal ds + (of_char c - 48)"
  by (simp add: decimal_def)

lemma show_nat_facts: "show_nat n \<noteq> '''' \<and> list_all is_digit (show_nat n) \<and> decimal (show_nat n) = n"
proof (induction n rule: show_nat.induct)
  case (1 n)
  show ?case
  proof (cases "n < 10")
    case True
    then show ?thesis
      using digit_char_facts [of n] by (simp add: show_nat.simps [of n] decimal_def)
  next
    case False
    with 1 digit_char_facts [of "n mod 10"] show ?thesis
      by (simp add: show_nat.simps [of n] decimal_snoc)
  qed
qed

lemma ParseUint_show [simp]: "n < 2 ^ bits \<Longrightarrow> ParseUint bits (show_nat n) = Some n"
  using show_nat_facts [of n] by (simp add: ParseUint_def)

lemma show_nat_no_sign: "\<not> has_prefix (show_nat n) ''-''" "\<not> has_prefix (show_nat n) ''+''"
proof -
  obtain c cs where "show_nat n = c # cs" using show_nat_facts [of n] by (cases "show_nat n") auto
  moreover have "is_digit c" using show_nat_facts [of n] calculation by simp
  moreover have "\<not> is_digit (CHR ''-'')" "\<not> is_digit (CHR ''+'')" by code_simp+
  ultimately show "\<not> has_prefix (show_nat n) ''-''" "\<not> has_prefix (show_nat n) ''+''" by auto
qed

lemma Atoi_show: "0 \<le> i \<Longrightarrow> i < 2 ^ 63 \<Longrightarrow> Atoi (show_int i) = Some i"
  using show_nat_facts [of "nat i"] show_nat_no_sign [of "nat i"]
  by (simp add: Atoi_def Let_def show_int_def)

lemma digits_no_space: "list_all is_digit s \<Longrightarrow> trim_space s = s"
proof -
  assume d: "list_all is_digit s"
  have no: "\<not> is_space c" if "is_digit c" for c
    using that by (auto simp: is_digit_def is_space_def Let_def)
  then have "dropWhile is_space s = s" "dropWhile is_space (rev s) = rev s"
    using d by (cases s; simp) (cases "rev s"; use d no in \<open>fastforce simp: list_all_iff\<close>)
  then show ?thesis by (simp add: trim_space_def)
qed

section \<open>The list and its references\<close>

definition ListSize :: int where
  "ListSize = 131072"

definition StatusListPath :: string where
  "StatusListPath = ''/status-list/''"

definition StatusListURI :: "string \<Rightarrow> int \<Rightarrow> string" where
  "StatusListURI issuerURL listID = trim_right_char (CHR ''/'') issuerURL @ StatusListPath @ show_int listID"

definition buildCredentialStatus :: "credential_status_ref \<Rightarrow> json_map option" where
  "buildCredentialStatus ref =
    (if StatusListCredential ref = '''' then None
     else Some
       [(''id'', JStr (StatusListCredential ref @ ''#'' @ show_nat (unat (RefIndex ref)))),
        (''type'', JStr ''TokenStatusList''),
        (''statusPurpose'', JStr ''revocation''),
        (''statusListIndex'', JStr (show_nat (unat (RefIndex ref)))),
        (''statusListCredential'', JStr (StatusListCredential ref))])"

datatype extract_error = CredentialNotJSON | StatusNotObject | StatusWithoutEntry | StatusIndexInvalid

text \<open>\<open>None\<close> as input stands for bytes that are no JSON; \<open>Inr None\<close> is \<open>present = false\<close>.\<close>

definition ExtractCredentialStatus ::
    "json option \<Rightarrow> (extract_error, credential_status_ref option) result" where
  "ExtractCredentialStatus vc =
    (case Option.bind vc decode_map of
       None \<Rightarrow> Inl CredentialNotJSON
     | Some None \<Rightarrow> Inr None
     | Some (Some vcObj) \<Rightarrow>
         (case obj_get vcObj ''credentialStatus'' of
            None \<Rightarrow> Inr None
          | Some JNull \<Rightarrow> Inr None
          | Some (JObj cs) \<Rightarrow>
              (let cred = jstr (obj_get cs ''statusListCredential'');
                   indexStr = jstr (obj_get cs ''statusListIndex'')
               in if trim_space cred = '''' \<or> trim_space indexStr = '''' then Inl StatusWithoutEntry
                  else (case ParseUint 32 (trim_space indexStr) of
                          None \<Rightarrow> Inl StatusIndexInvalid
                        | Some idx \<Rightarrow> Inr (Some \<lparr>StatusListCredential = cred, RefIndex = of_nat idx\<rparr>)))
          | Some _ \<Rightarrow> Inl StatusNotObject))"

lemma trim_show_nat [simp]: "trim_space (show_nat n) = show_nat n"
  using show_nat_facts [of n] digits_no_space by blast

lemma show_nat_neq_Nil [simp]: "show_nat n \<noteq> ''''"
  using show_nat_facts [of n] by blast

text \<open>What a credential advertises is what its reader extracts.\<close>

lemma credential_status_roundtrip:
  assumes "trim_space (StatusListCredential ref) \<noteq> ''''"
    and "obj_get vc ''credentialStatus'' = map_option JObj (buildCredentialStatus ref)"
  shows "ExtractCredentialStatus (Some (JObj vc)) = Inr (Some ref)"
proof -
  have "StatusListCredential ref \<noteq> ''''"
    using assms(1) by (auto simp: trim_space_def)
  moreover have "unat (RefIndex ref) < 2 ^ 32"
    using unsigned_less [of "RefIndex ref"] by simp
  ultimately show ?thesis
    using assms by (simp add: ExtractCredentialStatus_def decode_map_def buildCredentialStatus_def obj_get_def)
qed

section \<open>The bitstring\<close>

record status_list_signer =
  ls_Issuer :: string
  ls_ListURI :: "(int \<Rightarrow> string) option"
  ls_ListID :: int
  ls_Chain :: "string list"
  ls_Signer :: "(string \<Rightarrow> bytes option) option"
  ls_Revocations :: bool
  ls_Size :: int

datatype serve_error =
    SignerNotConfigured | NoChain | NoIssuerOrURI | NoRevocations | RevocationsUnread alloc_error
  | EntryBeyondList int | NotSigned

fun set_bits :: "int \<Rightarrow> bytes \<Rightarrow> 32 word list \<Rightarrow> (serve_error, bytes) result" where
  "set_bits len bits [] = Inr bits"
| "set_bits len bits (index # indices) =
     (if int (unat index) \<ge> len then Inl (EntryBeyondList (int (unat index)))
      else set_bits len
        (bits[unat index div 8 := bits ! (unat index div 8) OR push_bit (unat index mod 8) 1]) indices)"

definition served_size :: "status_list_signer \<Rightarrow> int" where
  "served_size s = (if ls_Size s \<le> 0 then ListSize else ls_Size s)"

definition status_bitstring ::
    "status_list_signer \<Rightarrow> status_tables \<Rightarrow> (serve_error, bytes) result \<times> status_tables" where
  "status_bitstring s t =
    (let len = served_size s; bits = replicate (nat ((len + 7) div 8)) 0
     in if \<not> ls_Revocations s then (Inl NoRevocations, t)
        else (case RevokedIndices (ls_ListID s) t of
                (Inl err, t1) \<Rightarrow> (Inl (RevocationsUnread err), t1)
              | (Inr indices, t1) \<Rightarrow> (set_bits len bits indices, t1)))"

lemma bit_set_byte:
  fixes b :: byte
  assumes "m < 8"
  shows "bit (b OR push_bit n 1) m \<longleftrightarrow> bit b m \<or> m = n"
  using assms by (auto simp: bit_simps)

lemma stream_bit_set:
  assumes "i div 8 < length bits"
  shows "stream_bit LSBFirst (bits[i div 8 := bits ! (i div 8) OR push_bit (i mod 8) 1]) k
    \<longleftrightarrow> stream_bit LSBFirst bits k \<or> k = i"
proof (cases "k div 8 = i div 8")
  case True
  then have "k = i \<longleftrightarrow> k mod 8 = i mod 8"
    by (metis mult_div_mod_eq)
  with True assms show ?thesis
    by (simp add: stream_bit_def bit_set_byte del: push_bit_of_1)
next
  case False
  then have "k \<noteq> i" by auto
  with False show ?thesis by (simp add: stream_bit_def)
qed

lemma set_bits_spec:
  assumes "set_bits len bits indices = Inr out" "len \<le> 8 * int (length bits)"
  shows "length out = length bits \<and> (\<forall>i\<in>set indices. int (unat i) < len) \<and>
    (\<forall>k. stream_bit LSBFirst out k \<longleftrightarrow> stream_bit LSBFirst bits k \<or> k \<in> unat ` set indices)"
  using assms
proof (induction len bits indices rule: set_bits.induct)
  case (1 len bits)
  then show ?case by simp
next
  case (2 len bits index indices)
  from 2(2) have small: "\<not> int (unat index) \<ge> len" by (auto split: if_splits)
  then have "unat index div 8 < length bits" using 2(3) by linarith
  note set_one = stream_bit_set [OF this]
  from 2(1) [OF small] 2(2,3) small show ?case
    by (auto simp: set_one simp del: push_bit_of_1)
qed

text \<open>The bit of an entry, and the bits of the empty list.\<close>

lemma stream_bit_zeros: "k div 8 < n \<Longrightarrow> \<not> stream_bit LSBFirst (replicate n 0) k"
  by (simp add: stream_bit_def)

lemma status_bitstring_spec:
  assumes "status_bitstring s t = (Inr bits, t')"
  shows "length bits = nat ((served_size s + 7) div 8)"
    and "\<And>k. int k < served_size s \<Longrightarrow> stream_bit LSBFirst bits k \<longleftrightarrow>
      (\<exists>r\<in>set (status_entries t). er_list r = ls_ListID s \<and> er_revoked_at r \<noteq> None \<and>
         k = unat (of_int (er_index r) :: 32 word))"
proof -
  define zeros :: bytes where "zeros = replicate (nat ((served_size s + 7) div 8)) 0"
  obtain indices where r: "RevokedIndices (ls_ListID s) t = (Inr indices, t')"
    and set: "set_bits (served_size s) zeros indices = Inr bits"
    using assms by (auto simp: status_bitstring_def Let_def zeros_def split: if_splits sum.splits prod.splits)
  have indices: "indices = map (\<lambda>r. of_int (er_index r))
      (filter (\<lambda>r. er_list r = ls_ListID s \<and> er_revoked_at r \<noteq> None) (status_entries t))"
    using r by (auto simp: RevokedIndices_def statement_def split: list.splits if_splits)
  have "0 < served_size s" by (simp add: served_size_def ListSize_def)
  then have "served_size s \<le> 8 * int (length zeros)" unfolding zeros_def length_replicate by linarith
  note spec = set_bits_spec [OF set this]
  then show "length bits = nat ((served_size s + 7) div 8)" by (simp add: zeros_def)
  fix k assume "int k < served_size s"
  then have "k div 8 < nat ((served_size s + 7) div 8)" by linarith
  then have "\<not> stream_bit LSBFirst zeros k"
    unfolding zeros_def by (rule stream_bit_zeros)
  with spec show "stream_bit LSBFirst bits k \<longleftrightarrow>
      (\<exists>r\<in>set (status_entries t). er_list r = ls_ListID s \<and> er_revoked_at r \<noteq> None \<and>
         k = unat (of_int (er_index r) :: 32 word))"
    by (auto simp: indices)
qed

text \<open>Reading an entry of the served list gives one exactly when a row at its slot is revoked.\<close>

lemma served_bit:
  fixes index :: "32 word"
  assumes "status_bitstring s t = (Inr bits, t')" "served_size s < 2 ^ 32" "int (unat index) < served_size s"
  shows "ReadStatusValue bits (ucast index) 1 LSBFirst = Inr (of_bool
    (\<exists>r\<in>set (status_entries t). er_list r = ls_ListID s \<and> er_revoked_at r \<noteq> None \<and>
       index = of_int (er_index r)))"
proof -
  let ?i = "unat index"
  have len: "int (length bits) = (served_size s + 7) div 8"
  proof -
    have "0 \<le> (served_size s + 7) div 8" using assms(3) by linarith
    with status_bitstring_spec(1) [OF assms(1)] show ?thesis by simp
  qed
  have small: "8 * length bits < 2 ^ 64" "?i < 8 * length bits"
  proof -
    have "8 * int (length bits) \<le> served_size s + 7" "served_size s \<le> 8 * int (length bits)"
      unfolding len by linarith+
    moreover from this have "int ?i < int (8 * length bits)"
      using assms(3) by linarith
    ultimately show "8 * length bits < 2 ^ 64" "?i < 8 * length bits"
      using assms(2) by (simp, simp only: of_nat_less_iff)
  qed
  have ix: "unat (ucast index :: 64 word) = ?i"
  proof -
    have "?i < 2 ^ 32" by (rule order_less_le_trans [OF unsigned_less]) simp
    also have "(2 :: nat) ^ 32 < 2 ^ 64" by simp
    finally have "?i < 2 ^ 64" .
    then show ?thesis by (simp add: unsigned_ucast_eq take_bit_nat_eq_self)
  qed
  have "ReadStatusValue bits (ucast index) 1 LSBFirst =
     (if unat (ucast index :: 64 word) < unat (EntryCount bits 1)
      then Inr (of_nat (entry_value LSBFirst bits (unat (ucast index :: 64 word) * unat (1 :: 64 word)) (unat (1 :: 64 word))))
      else Inl ErrIndexOutOfRange)"
    using ix small unsigned_less [of index] by (intro ReadStatusValue_correct) simp_all
  moreover have "?i < unat (EntryCount bits 1)"
    using EntryCount_iff [of 1 bits index] small by simp
  moreover have "entry_value LSBFirst bits ?i 1 = of_bool (stream_bit LSBFirst bits ?i)" by simp
  moreover have "stream_bit LSBFirst bits ?i \<longleftrightarrow>
    (\<exists>r\<in>set (status_entries t). er_list r = ls_ListID s \<and> er_revoked_at r \<noteq> None \<and> index = of_int (er_index r))"
    using status_bitstring_spec(2) [OF assms(1,3)] by (simp add: word_unat_eq_iff)
  ultimately show ?thesis using ix by simp
qed

text \<open>An entry this service chose, as opposed to one inherited from the hash scheme.\<close>

definition chosen_entry :: "string \<Rightarrow> status_list_entry \<Rightarrow> status_tables \<Rightarrow> bool" where
  "chosen_entry subj e t \<longleftrightarrow>
     (\<exists>r\<in>set (status_entries t). er_subject r = subj \<and> row_entry r = e \<and> er_origin r = AllocatedOrigin)"

lemma chosen_entry_rows:
  assumes "tables_ok t" "chosen_entry subj e t" "r \<in> set (status_entries t)" "row_entry r = e"
  shows "er_subject r = subj"
proof -
  have rows: "rows_ok (status_entries t)" using assms(1) by (simp add: tables_ok_def)
  obtain q where q: "q \<in> set (status_entries t)" "er_subject q = subj" "row_entry q = e"
      "er_origin q = AllocatedOrigin"
    using assms(2) by (auto simp: chosen_entry_def)
  with assms(3,4) row_entry_eq_iff [OF rows q(1) assms(3)] have "row_at (er_list q) (er_index q) r" by simp
  with rows q assms(3) have "r = q" unfolding rows_ok_def by blast
  with q show ?thesis by simp
qed

lemma served_bit_of_subject:
  assumes "tables_ok t" "chosen_entry subj e t" "ListID e = ls_ListID s"
    and "status_bitstring s t = (Inr bits, t')" "served_size s < 2 ^ 32" "int (unat (Index e)) < served_size s"
  shows "ReadStatusValue bits (ucast (Index e)) 1 LSBFirst = Inr (of_bool (revoked_subject subj t))"
proof -
  have row: "row_entry r = e \<longleftrightarrow> er_list r = ls_ListID s \<and> Index e = of_int (er_index r)" for r
    using assms(3) by (cases e) (auto simp: row_entry_def)
  have "(\<exists>r\<in>set (status_entries t). er_list r = ls_ListID s \<and> er_revoked_at r \<noteq> None \<and> Index e = of_int (er_index r))
      \<longleftrightarrow> (\<exists>r\<in>set (status_entries t). row_entry r = e \<and> er_revoked_at r \<noteq> None)"
    by (auto simp: row)
  also have "\<dots> \<longleftrightarrow> revoked_subject subj t"
  proof
    assume "\<exists>r\<in>set (status_entries t). row_entry r = e \<and> er_revoked_at r \<noteq> None"
    with chosen_entry_rows [OF assms(1,2)] show "revoked_subject subj t"
      by (auto simp: revoked_subject_def)
  next
    assume "revoked_subject subj t"
    then obtain r where r: "r \<in> set (status_entries t)" "er_subject r = subj" "er_revoked_at r \<noteq> None"
      by (auto simp: revoked_subject_def)
    moreover obtain q where q: "q \<in> set (status_entries t)" "er_subject q = subj" "row_entry q = e"
      using assms(2) by (auto simp: chosen_entry_def)
    ultimately have "r = q"
      using assms(1) subject_row_unique [of "status_entries t" r q] by (simp add: tables_ok_def rows_ok_def)
    with q r show "\<exists>r\<in>set (status_entries t). row_entry r = e \<and> er_revoked_at r \<noteq> None" by blast
  qed
  finally show ?thesis using served_bit [OF assms(4,5,6)] by simp
qed

section \<open>The token and its handler\<close>

text \<open>
  \<open>sv_marshal\<close> is \<open>encoding/json\<close> (a map is written with sorted keys), \<open>sv_deflate\<close> the zlib
  writer.
\<close>

record serve_env =
  sv_marshal :: "json \<Rightarrow> string"
  sv_deflate :: "bytes \<Rightarrow> bytes"

definition token_header :: "status_list_signer \<Rightarrow> json_map" where
  "token_header s = [(''alg'', JStr ''ES256''), (''typ'', JStr ''statuslist+jwt''),
     (''x5c'', JArr (map JStr (ls_Chain s)))]"

definition token_payload :: "serve_env \<Rightarrow> status_list_signer \<Rightarrow> (int \<Rightarrow> string) \<Rightarrow> int \<Rightarrow> bytes \<Rightarrow> json_map" where
  "token_payload E s uri now bits = [(''iss'', JStr (ls_Issuer s)), (''sub'', JStr (uri (ls_ListID s))),
     (''iat'', JNum (show_int now)),
     (''status_list'', JObj [(''bits'', JNum ''1''), (''lst'', JStr (b64_encode (sv_deflate E bits)))])]"

definition StatusList_Token ::
    "serve_env \<Rightarrow> status_list_signer \<Rightarrow> int \<Rightarrow> status_tables \<Rightarrow> (serve_error, string) result \<times> status_tables" where
  "StatusList_Token E s now t =
    (case ls_Signer s of
       None \<Rightarrow> (Inl SignerNotConfigured, t)
     | Some sign \<Rightarrow>
         if ls_Chain s = [] then (Inl NoChain, t)
         else if trim_space (ls_Issuer s) = '''' then (Inl NoIssuerOrURI, t)
         else (case ls_ListURI s of
                 None \<Rightarrow> (Inl NoIssuerOrURI, t)
               | Some uri \<Rightarrow>
                   (case status_bitstring s t of
                      (Inl err, t1) \<Rightarrow> (Inl err, t1)
                    | (Inr bits, t1) \<Rightarrow>
                        (let signingInput = b64_encode (text_bytes (sv_marshal E (JObj (token_header s)))) @ ''.''
                               @ b64_encode (text_bytes (sv_marshal E (JObj (token_payload E s uri now bits))))
                         in case sign signingInput of
                              None \<Rightarrow> (Inl NotSigned, t1)
                            | Some sig \<Rightarrow> (Inr (signingInput @ ''.'' @ b64_encode sig), t1)))))"

datatype list_response =
    MethodNotAllowed | NoSuchList | ListUnavailable | ListServed string "string option"

definition trim_slashes :: "string \<Rightarrow> string" where
  "trim_slashes s = trim_right_char (CHR ''/'') (dropWhile (\<lambda>c. c = CHR ''/'') s)"

text \<open>The content type of the answer is fixed; a \<open>HEAD\<close> request gets no body.\<close>

definition StatusListHandler ::
    "serve_env \<Rightarrow> status_list_signer \<Rightarrow> int \<Rightarrow> string \<Rightarrow> string \<Rightarrow> status_tables \<Rightarrow> list_response \<times> status_tables" where
  "StatusListHandler E s now http_verb path t =
    (if http_verb \<noteq> ''GET'' \<and> http_verb \<noteq> ''HEAD'' then (MethodNotAllowed, t)
     else if Atoi (trim_slashes (trim_prefix path StatusListPath)) \<noteq> Some (ls_ListID s) then (NoSuchList, t)
     else (case StatusList_Token E s now t of
             (Inl _, t1) \<Rightarrow> (ListUnavailable, t1)
           | (Inr token, t1) \<Rightarrow>
               (ListServed ''application/statuslist+jwt'' (if http_verb = ''HEAD'' then None else Some token), t1)))"

lemma show_int_no_slash:
  assumes "0 \<le> i"
  shows "trim_slashes (show_int i) = show_int i"
proof -
  have "\<not> is_digit (CHR ''/'')" by code_simp
  then have no: "CHR ''/'' \<notin> set (show_nat n)" for n
    using show_nat_facts [of n] by (auto simp: list_all_iff)
  have "dropWhile (\<lambda>c. c = CHR ''/'') xs = xs" if "CHR ''/'' \<notin> set xs" for xs
    using that by (cases xs) auto
  then show ?thesis
    using assms no [of "nat i"] by (simp add: trim_slashes_def trim_right_char_def show_int_def)
qed

text \<open>The path of a list's URI is routed to the handler of exactly that list.\<close>

lemma handler_routes_own_list:
  assumes "0 \<le> listID" "listID < 2 ^ 63"
  shows "Atoi (trim_slashes (trim_prefix (StatusListPath @ show_int listID) StatusListPath)) = Some listID"
  using assms by (simp add: show_int_no_slash Atoi_show)

end
