(* ===== verification/Extrinsic.thy ===== *)
theory Extrinsic
  imports Contract_State Did_Web
begin

text \<open>
  The peer-facing lifecycle of \<open>contractstate/extrinsic.go\<close>: the signature
  evidence one instance holds, the declared fields no evidence satisfies, and the
  projection \<open>InferExtrinsic\<close> of a stored state and that evidence.
\<close>

record signature_evidence =
  Declared :: "string list"
  SignedLocally :: "string list"
  Parties :: "string list"
  LocalPeer :: string
  PeerSigners :: "string list"

fun any_party :: "string list \<Rightarrow> string \<Rightarrow> bool" where
  "any_party [] field = False"
| "any_party (party # rest) field = (if party \<noteq> [] \<and> party = field then True else any_party rest field)"

definition IsRemotePartyField :: "string list \<Rightarrow> string \<Rightarrow> string \<Rightarrow> bool" where
  "IsRemotePartyField parties localPeer field =
    (if localPeer = [] \<or> field = [] \<or> SameDIDWeb field localPeer then False
     else any_party parties field)"

definition isRemotePartyField :: "signature_evidence \<Rightarrow> string \<Rightarrow> bool" where
  "isRemotePartyField e field = IsRemotePartyField (Parties e) (LocalPeer e) field"

definition peerSigned :: "signature_evidence \<Rightarrow> string \<Rightarrow> bool" where
  "peerSigned e field = list_ex (\<lambda>signer. signer \<noteq> [] \<and> SameDIDWeb signer field) (PeerSigners e)"

fun collect_unsigned :: "signature_evidence \<Rightarrow> string list \<Rightarrow> string list" where
  "collect_unsigned e [] = []"
| "collect_unsigned e (f # fs) =
     (if f \<in> set (SignedLocally e) then collect_unsigned e fs
      else if isRemotePartyField e f \<and> peerSigned e f then collect_unsigned e fs
      else f # collect_unsigned e fs)"

definition Unsigned :: "signature_evidence \<Rightarrow> string list" where
  "Unsigned e = collect_unsigned e (Declared e)"

definition AllSignaturesCollected :: "signature_evidence \<Rightarrow> bool" where
  "AllSignaturesCollected e = (length (Unsigned e) = 0)"

text \<open>The loop of \<open>counterpartyCommitted\<close> with its \<open>remote\<close> flag as accumulator.\<close>

fun committed_loop :: "signature_evidence \<Rightarrow> bool \<Rightarrow> string list \<Rightarrow> bool" where
  "committed_loop e remote [] = (\<not> remote)"
| "committed_loop e remote (field # fs) =
     (if \<not> isRemotePartyField e field then committed_loop e remote fs
      else if peerSigned e field then True
      else committed_loop e True fs)"

definition counterpartyCommitted :: "signature_evidence \<Rightarrow> bool" where
  "counterpartyCommitted e = committed_loop e False (Declared e)"

definition InferExtrinsic :: "string \<Rightarrow> signature_evidence \<Rightarrow> string" where
  "InferExtrinsic intrinsicState e =
    (let s = to_upper intrinsicState in
     if s = state_string Draft \<or> s = state_string Offered \<or> s = state_string Negotiation
        \<or> s = state_string Submitted \<or> s = state_string Reviewed
     then ''proposed''
     else if s = state_string Approved
     then (if counterpartyCommitted e then ''agreed'' else ''proposed'')
     else if s = state_string Signed
     then (if AllSignaturesCollected e then ''executed''
           else if counterpartyCommitted e then ''agreed''
           else ''proposed'')
     else if s = state_string Active then ''executed''
     else to_lower intrinsicState)"

section \<open>Facts\<close>

lemma any_party_iff: "any_party parties field \<longleftrightarrow> field \<noteq> [] \<and> field \<in> set parties"
  by (induction parties field rule: any_party.induct) auto

lemma collect_unsigned_eq:
  "collect_unsigned e fs =
     filter (\<lambda>f. f \<notin> set (SignedLocally e) \<and> \<not> (isRemotePartyField e f \<and> peerSigned e f)) fs"
  by (induction e fs rule: collect_unsigned.induct) auto

lemma AllSignaturesCollected_iff:
  "AllSignaturesCollected e \<longleftrightarrow>
     (\<forall>f\<in>set (Declared e). f \<in> set (SignedLocally e) \<or> (isRemotePartyField e f \<and> peerSigned e f))"
  by (auto simp: AllSignaturesCollected_def Unsigned_def collect_unsigned_eq filter_empty_conv)

lemma committed_loop_iff:
  "committed_loop e remote fs \<longleftrightarrow>
     (\<exists>f\<in>set fs. isRemotePartyField e f \<and> peerSigned e f)
     \<or> (\<not> remote \<and> (\<forall>f\<in>set fs. \<not> isRemotePartyField e f))"
  by (induction e remote fs rule: committed_loop.induct) auto

lemma counterpartyCommitted_iff:
  "counterpartyCommitted e \<longleftrightarrow>
     (\<exists>f\<in>set (Declared e). isRemotePartyField e f \<and> peerSigned e f)
     \<or> (\<forall>f\<in>set (Declared e). \<not> isRemotePartyField e f)"
  by (simp add: counterpartyCommitted_def committed_loop_iff)

lemma to_upper_state_string [simp]: "to_upper (state_string s) = state_string s"
  by (rule contract_state_enum.show_upper)

lemma state_string_eq [simp]: "state_string s = state_string t \<longleftrightarrow> s = t"
  by (rule contract_state_enum.show_inj)

text \<open>The projection of a stored (typed) state, case by case.\<close>

lemma InferExtrinsic_state:
  "InferExtrinsic (state_string s) e =
    (case s of
       Approved \<Rightarrow> if counterpartyCommitted e then ''agreed'' else ''proposed''
     | Signed \<Rightarrow> if AllSignaturesCollected e then ''executed''
                 else if counterpartyCommitted e then ''agreed'' else ''proposed''
     | Active \<Rightarrow> ''executed''
     | Rejected \<Rightarrow> ''rejected'' | Withdrawn \<Rightarrow> ''withdrawn'' | Revoked \<Rightarrow> ''revoked''
     | Terminated \<Rightarrow> ''terminated'' | Expired \<Rightarrow> ''expired''
     | _ \<Rightarrow> ''proposed'')"
proof -
  have low: "to_lower ''REJECTED'' = ''rejected''" "to_lower ''WITHDRAWN'' = ''withdrawn''"
    "to_lower ''REVOKED'' = ''revoked''" "to_lower ''TERMINATED'' = ''terminated''"
    "to_lower ''EXPIRED'' = ''expired''"
    by code_simp+
  show ?thesis
    unfolding InferExtrinsic_def Let_def to_upper_state_string state_string_eq
    by (cases s) (simp_all add: low)
qed

lemma InferExtrinsic_case: "InferExtrinsic s e \<in> {''proposed'', ''agreed'', ''executed''} \<or>
    InferExtrinsic s e = to_lower s"
  by (simp add: InferExtrinsic_def Let_def)

section \<open>Properties\<close>

text \<open>
  What EXECUTED tells a peer.  A contract is reported as executed exactly when it is
  ACTIVE, or SIGNED with every declared signature field satisfied: signed on this
  instance, or a field of a remote party that this party signed.
\<close>

theorem executed_means_all_signed:
  "InferExtrinsic (state_string s) e = ''executed'' \<longleftrightarrow>
     s = Active \<or> (s = Signed \<and> (\<forall>f\<in>set (Declared e). f \<in> set (SignedLocally e)
        \<or> (IsRemotePartyField (Parties e) (LocalPeer e) f
            \<and> (\<exists>p. p \<in> set (PeerSigners e) \<and> p \<noteq> [] \<and> SameDIDWeb p f))))"
proof -
  have "InferExtrinsic (state_string s) e = ''executed'' \<longleftrightarrow>
      s = Active \<or> (s = Signed \<and> AllSignaturesCollected e)"
    unfolding InferExtrinsic_state by (cases s) simp_all
  then show ?thesis
    unfolding AllSignaturesCollected_iff isRemotePartyField_def peerSigned_def list_ex_iff by blast
qed

theorem executed_means_all_signed_witness:
  "InferExtrinsic ''SIGNED'' \<lparr>Declared = [''did:web:a'', ''did:web:b''], SignedLocally = [''did:web:a''],
     Parties = [''did:web:a'', ''did:web:b''], LocalPeer = ''did:web:a'',
     PeerSigners = [''did:web:B'']\<rparr> = ''executed''"
proof -
  have "IsRemotePartyField [''did:web:a'', ''did:web:b''] ''did:web:a'' ''did:web:b''"
      "SameDIDWeb ''did:web:B'' ''did:web:b''" by code_simp+
  then show ?thesis
    using executed_means_all_signed [of Signed "\<lparr>Declared = [''did:web:a'', ''did:web:b''],
      SignedLocally = [''did:web:a''], Parties = [''did:web:a'', ''did:web:b''],
      LocalPeer = ''did:web:a'', PeerSigners = [''did:web:B'']\<rparr>"] by auto
qed

end
