(* ===== verification/Settlement_Wire.thy ===== *)
theory Settlement_Wire
  imports Jades Creation Extrinsic
begin

text \<open>
  The settlement artifacts two instances exchange (\<open>base/jades/jades.go\<close>,
  \<open>service/dcs_to_dcs_settlement.go\<close>): the canonical payload of a settlement and of its
  withdrawal, what the receiver reads out of a signed payload and every check it makes
  before it stores a settlement or lets a withdrawal apply, and the gate that refuses a
  signature until every remote party has settled the same document
  (\<open>signingmanagement/command/apply.go\<close>).  A payload is decoded the way \<open>encoding/json\<close>
  fills a struct: keys match without regard to case, the last value of a key counts, a
  \<open>null\<close> leaves the field alone, a value of another kind is an error.
\<close>

section \<open>Statements and their canonical form\<close>

record settlement_claim =
  sc_contract :: string
  sc_version :: int
  sc_digest :: string
  sc_by :: string
  sc_with :: string
  sc_at :: int

record withdrawal_claim =
  wc_contract :: string
  wc_digest :: string
  wc_by :: string
  wc_from :: string
  wc_at :: int

text \<open>
  \<open>wr_canonical\<close> is \<open>json.Marshal\<close> followed by \<open>jcs.Transform\<close>, \<open>wr_parse\<close> is
  \<open>json.Unmarshal\<close>, \<open>wr_format\<close> writes an instant as RFC 3339 in UTC and \<open>wr_time\<close> reads it.
\<close>

record wire_env =
  wr_jws :: jws_env
  wr_canonical :: "json \<Rightarrow> string"
  wr_parse :: "string \<Rightarrow> json option"
  wr_format :: "int \<Rightarrow> string"
  wr_time :: "string \<Rightarrow> int option"

definition SettlementType :: string where
  "SettlementType = ''dcs:ContractSettlement''"

definition SettlementWithdrawalType :: string where
  "SettlementWithdrawalType = ''dcs:ContractSettlementWithdrawal''"

definition statement_context :: "string \<times> json" where
  "statement_context = (''@context'', JObj [(''dcs'', JStr ''https://w3id.org/facis/dcs/ontology/v1#'')])"

definition settlement_members :: "wire_env \<Rightarrow> settlement_claim \<Rightarrow> json_map" where
  "settlement_members W c =
    [statement_context, (''@type'', JStr SettlementType),
     (''dcs:contractDid'', JStr (sc_contract c)), (''dcs:contractDocumentDigest'', JStr (sc_digest c)),
     (''dcs:contractVersion'', JNum (int_text (sc_version c))), (''dcs:settledAt'', JStr (wr_format W (sc_at c))),
     (''dcs:settledBy'', JStr (sc_by c)), (''dcs:settledWith'', JStr (sc_with c))]"

definition withdrawal_members :: "wire_env \<Rightarrow> withdrawal_claim \<Rightarrow> json_map" where
  "withdrawal_members W c =
    [statement_context, (''@type'', JStr SettlementWithdrawalType),
     (''dcs:contractDid'', JStr (wc_contract c)), (''dcs:contractDocumentDigest'', JStr (wc_digest c)),
     (''dcs:withdrawnAt'', JStr (wr_format W (wc_at c))), (''dcs:withdrawnBy'', JStr (wc_by c)),
     (''dcs:withdrawnFrom'', JStr (wc_from c))]"

definition BuildSettlementPayload :: "wire_env \<Rightarrow> settlement_claim \<Rightarrow> string" where
  "BuildSettlementPayload W c = wr_canonical W (JObj (settlement_members W c))"

definition BuildSettlementWithdrawalPayload :: "wire_env \<Rightarrow> withdrawal_claim \<Rightarrow> string" where
  "BuildSettlementWithdrawalPayload W c = wr_canonical W (JObj (withdrawal_members W c))"

section \<open>Reading a struct out of JSON\<close>

definition member_values :: "string \<Rightarrow> json_map \<Rightarrow> json list" where
  "member_values name m = map snd (filter (\<lambda>(k, v). to_lower k = to_lower name \<and> v \<noteq> JNull) m)"

fun as_string :: "json \<Rightarrow> string option" where
  "as_string (JStr s) = Some s"
| "as_string _ = None"

definition go_int :: "string \<Rightarrow> int option" where
  "go_int t =
    (let ds = trim_prefix t ''-''; n = int (decimal ds); v = (if has_prefix t ''-'' then - n else n)
     in if ds = '''' \<or> \<not> list_all is_digit ds \<or> v < - (2 ^ 63) \<or> 2 ^ 63 \<le> v then None else Some v)"

fun as_int :: "json \<Rightarrow> int option" where
  "as_int (JNum t) = go_int t"
| "as_int _ = None"

definition read_member :: "(json \<Rightarrow> 'a option) \<Rightarrow> 'a \<Rightarrow> string \<Rightarrow> json_map \<Rightarrow> 'a option" where
  "read_member f zero name m = map_option (\<lambda>vs. if vs = [] then zero else last vs) (those (map f (member_values name m)))"

definition read_string :: "string \<Rightarrow> json_map \<Rightarrow> string option" where
  "read_string = read_member as_string ''''"

definition read_int :: "string \<Rightarrow> json_map \<Rightarrow> int option" where
  "read_int = read_member as_int 0"

text \<open>A \<open>null\<close> document leaves the whole struct at its zero value.\<close>

definition struct_members :: "wire_env \<Rightarrow> string \<Rightarrow> json_map option" where
  "struct_members W payload =
    (case wr_parse W payload of Some (JObj m) \<Rightarrow> Some m | Some JNull \<Rightarrow> Some [] | _ \<Rightarrow> None)"

section \<open>Errors of the peer interface\<close>

datatype gate_kind = AgreementFailure | PolicyFailure | PoAFailure

datatype peer_error =
    PeerUnresolved | PeerUnauthenticated challenge_error | NoOwnIdentity | SelfShipped
  | GateDenied gate_kind string | NoLocalCopy | DigestImpossible
  | SignatureInvalid jws_error | KeyNotPublished | PayloadUndecodable | WrongType
  | MissingMember string | BadTimestamp | NotCanonicalForm | OtherContract | OtherSigner
  | OtherAudience | SignerNotAParty | OtherDocument | AheadOfClock | OlderThanHeld
  | CounterpartyNotSettled string | ContentUnverifiable | ContentMismatch | PayloadMissing
  | ShapesUnavailable | KeyUnusable | ScopeErased | StoreFailed cwe_error | NoSender
  | PeerRefused | PDFMissing | PDFSuperseded | PDFUnreadable | NilResponsible | EvidenceUnreadable
  | EmptyIncident | ShapesNotInstalled | NoProvenance | NotAParty

definition peer_option :: "peer_error \<Rightarrow> 'a option \<Rightarrow> (peer_error, 'a) result" where
  "peer_option e m = (case m of None \<Rightarrow> Inl e | Some x \<Rightarrow> Inr x)"

lemma peer_option_Inr [simp]: "peer_option e m = Inr x \<longleftrightarrow> m = Some x"
  by (auto simp: peer_option_def split: option.splits)

definition lift_jws :: "(jws_error, 'a) result \<Rightarrow> (peer_error, 'a) result" where
  "lift_jws m = (case m of Inl e \<Rightarrow> Inl (SignatureInvalid e) | Inr x \<Rightarrow> Inr x)"

lemma lift_jws_Inr [simp]: "lift_jws m = Inr x \<longleftrightarrow> m = Inr x"
  by (auto simp: lift_jws_def split: sum.splits)

fun missing_member :: "(string \<times> string) list \<Rightarrow> string option" where
  "missing_member [] = None"
| "missing_member ((field, value) # rest) = (if trim_space value = '''' then Some field else missing_member rest)"

definition require_members :: "(string \<times> string) list \<Rightarrow> (peer_error, unit) result" where
  "require_members fs = (case missing_member fs of Some f \<Rightarrow> Inl (MissingMember f) | None \<Rightarrow> Inr ())"

definition settlementClockSkew :: int where
  "settlementClockSkew = 5 * 60 * 1000000000"

section \<open>A shipped settlement\<close>

text \<open>What the receiving instance itself knows about the contract.\<close>

record local_settlement_context =
  lc_contract :: string
  lc_local_peer :: string
  lc_digest :: string
  lc_superseded :: "string list"
  lc_parties :: "string list"
  lc_previous :: "settlement option"
  lc_now :: int

text \<open>The struct a payload is decoded into, its timestamp still a text.\<close>

definition decode_settlement :: "json_map \<Rightarrow> (string \<times> settlement_claim \<times> string) option" where
  "decode_settlement m =
    (case (read_string ''@type'' m, read_string ''dcs:contractDid'' m, read_int ''dcs:contractVersion'' m,
           read_string ''dcs:contractDocumentDigest'' m, read_string ''dcs:settledBy'' m,
           read_string ''dcs:settledWith'' m, read_string ''dcs:settledAt'' m) of
       (Some ty, Some did, Some v, Some dg, Some sb, Some sw, Some at) \<Rightarrow>
         Some (ty, \<lparr>sc_contract = did, sc_version = v, sc_digest = dg, sc_by = sb, sc_with = sw, sc_at = 0\<rparr>, at)
     | _ \<Rightarrow> None)"

definition signed_members ::
  "wire_env \<Rightarrow> string \<Rightarrow> did_document \<Rightarrow> (peer_error, string \<times> json_map) result" where
  "signed_members W jws remote =
    bind_res (lift_jws (Jades_Verify (wr_jws W) jws)) (\<lambda>(payload, leafKey).
    require (PublishesKeyFor PurposeAssertion (Some leafKey) remote) KeyNotPublished
    (bind_res (peer_option PayloadUndecodable (struct_members W payload)) (\<lambda>m. Inr (payload, m))))"

definition verifyShippedSettlement ::
  "wire_env \<Rightarrow> string \<Rightarrow> string \<Rightarrow> did_document \<Rightarrow> local_settlement_context \<Rightarrow> (peer_error, settlement) result" where
  "verifyShippedSettlement W jws fromPeer remote lc =
    bind_res (signed_members W jws remote) (\<lambda>(payload, m).
    bind_res (peer_option PayloadUndecodable (decode_settlement m)) (\<lambda>(ty, claimed, at).
    require (ty = SettlementType) WrongType
    (bind_res (require_members
       [(''dcs:contractDid'', sc_contract claimed), (''dcs:contractDocumentDigest'', sc_digest claimed),
        (''dcs:settledBy'', sc_by claimed), (''dcs:settledWith'', sc_with claimed), (''dcs:settledAt'', at)]) (\<lambda>_.
     bind_res (peer_option BadTimestamp (wr_time W at)) (\<lambda>settledAt.
     require (payload = BuildSettlementPayload W (claimed\<lparr>sc_at := settledAt\<rparr>)) NotCanonicalForm
    (require (sc_contract claimed = lc_contract lc) OtherContract
    (require (SameDIDWeb (sc_by claimed) fromPeer) OtherSigner
    (require (SameDIDWeb (sc_with claimed) (lc_local_peer lc)) OtherAudience
    (require (list_ex (\<lambda>party. SameDIDWeb party (sc_by claimed)) (lc_parties lc)) SignerNotAParty
    (require (sc_digest claimed = lc_digest lc \<or> sc_digest claimed \<in> set (lc_superseded lc)) OtherDocument
    (require (settledAt \<le> lc_now lc + settlementClockSkew) AheadOfClock
    (require (case lc_previous lc of None \<Rightarrow> True | Some p \<Rightarrow> st_settled_at p \<le> settledAt) OlderThanHeld
    (Inr \<lparr>st_did = lc_contract lc, st_from_peer = fromPeer, st_to_peer = lc_local_peer lc,
          st_version = sc_version claimed, st_digest = sc_digest claimed, st_settled_at = settledAt,
          st_signature = jws, st_delivered = Some (lc_now lc)\<rparr>)))))))))))))"

section \<open>A shipped withdrawal\<close>

record local_withdrawal_context =
  lw_contract :: string
  lw_local_peer :: string
  lw_parties :: "string list"
  lw_now :: int

definition decode_withdrawal :: "json_map \<Rightarrow> (string \<times> withdrawal_claim \<times> string) option" where
  "decode_withdrawal m =
    (case (read_string ''@type'' m, read_string ''dcs:contractDid'' m,
           read_string ''dcs:contractDocumentDigest'' m, read_string ''dcs:withdrawnBy'' m,
           read_string ''dcs:withdrawnFrom'' m, read_string ''dcs:withdrawnAt'' m) of
       (Some ty, Some did, Some dg, Some wb, Some wfr, Some at) \<Rightarrow>
         Some (ty, \<lparr>wc_contract = did, wc_digest = dg, wc_by = wb, wc_from = wfr, wc_at = 0\<rparr>, at)
     | _ \<Rightarrow> None)"

definition verifyShippedWithdrawal ::
  "wire_env \<Rightarrow> string \<Rightarrow> string \<Rightarrow> did_document \<Rightarrow> local_withdrawal_context \<Rightarrow> (peer_error, withdrawal_claim) result" where
  "verifyShippedWithdrawal W jws fromPeer remote lw =
    bind_res (signed_members W jws remote) (\<lambda>(payload, m).
    bind_res (peer_option PayloadUndecodable (decode_withdrawal m)) (\<lambda>(ty, claimed, at).
    require (ty = SettlementWithdrawalType) WrongType
    (bind_res (require_members
       [(''dcs:contractDid'', wc_contract claimed), (''dcs:contractDocumentDigest'', wc_digest claimed),
        (''dcs:withdrawnBy'', wc_by claimed), (''dcs:withdrawnFrom'', wc_from claimed),
        (''dcs:withdrawnAt'', at)]) (\<lambda>_.
     bind_res (peer_option BadTimestamp (wr_time W at)) (\<lambda>withdrawnAt.
     require (payload = BuildSettlementWithdrawalPayload W (claimed\<lparr>wc_at := withdrawnAt\<rparr>)) NotCanonicalForm
    (require (wc_contract claimed = lw_contract lw) OtherContract
    (require (SameDIDWeb (wc_by claimed) fromPeer) OtherSigner
    (require (SameDIDWeb (wc_from claimed) (lw_local_peer lw)) OtherAudience
    (require (list_ex (\<lambda>party. SameDIDWeb party (wc_by claimed)) (lw_parties lw)) SignerNotAParty
    (require (withdrawnAt \<le> lw_now lw + settlementClockSkew) AheadOfClock
    (Inr (claimed\<lparr>wc_at := withdrawnAt\<rparr>))))))))))))"

definition withdrawalTakesBack :: "withdrawal_claim \<Rightarrow> settlement option \<Rightarrow> bool" where
  "withdrawalTakesBack w held =
    (case held of
       None \<Rightarrow> False
     | Some h \<Rightarrow> st_digest h = wc_digest w \<and> \<not> wc_at w < st_settled_at h)"

section \<open>The signing gate\<close>

definition party_dids :: "responsible option \<Rightarrow> string list" where
  "party_dids r = (case r of None \<Rightarrow> [] | Some r \<Rightarrow> [resp_creator r, resp_counterparty r])"

fun parties_settled :: "string \<Rightarrow> settlement \<Rightarrow> string list \<Rightarrow> store \<Rightarrow> (peer_error, unit) result" where
  "parties_settled did own [] s = Inr ()"
| "parties_settled did own (party # rest) s =
     (case GetSettlement did party s of
        None \<Rightarrow> Inl (CounterpartyNotSettled party)
      | Some t \<Rightarrow> if st_digest t \<noteq> st_digest own then Inl (CounterpartyNotSettled party)
                  else parties_settled did own rest s)"

definition assertCounterpartiesSettled ::
  "string \<Rightarrow> string \<Rightarrow> responsible option \<Rightarrow> string list \<Rightarrow> store \<Rightarrow> (peer_error, unit) result" where
  "assertCounterpartiesSettled did localPeer resp declaredFields s =
    (let remote = filter (IsRemotePartyField (party_dids resp) localPeer) declaredFields in
     if remote = [] then Inr ()
     else case GetSettlement did localPeer s of
            None \<Rightarrow> Inl (CounterpartyNotSettled localPeer)
          | Some own \<Rightarrow> parties_settled did own remote s)"

section \<open>Facts\<close>

lemma parties_settled_Inr:
  "parties_settled did own ps s = Inr () \<longleftrightarrow>
    (\<forall>p\<in>set ps. \<exists>t. GetSettlement did p s = Some t \<and> st_digest t = st_digest own)"
  by (induction ps) (auto split: option.splits)

lemma gate_Inr:
  "assertCounterpartiesSettled did p resp fs s = Inr () \<longleftrightarrow>
    (\<forall>f\<in>set fs. IsRemotePartyField (party_dids resp) p f \<longrightarrow>
      (\<exists>own t. GetSettlement did p s = Some own \<and> GetSettlement did f s = Some t \<and> st_digest t = st_digest own))"
  by (auto simp: assertCounterpartiesSettled_def Let_def parties_settled_Inr filter_empty_conv
      split: option.splits)

lemma signed_members_Inr:
  "signed_members W jws remote = Inr (payload, m) \<longleftrightarrow>
    (\<exists>key. Jades_Verify (wr_jws W) jws = Inr (payload, key) \<and> PublishesKeyFor PurposeAssertion (Some key) remote
       \<and> struct_members W payload = Some m)"
  by (auto simp: signed_members_def result_iffs)

lemma verifyShippedSettlement_Inr:
  assumes "verifyShippedSettlement W jws fromPeer remote lc = Inr t"
  obtains payload key claimed where
    "Jades_Verify (wr_jws W) jws = Inr (payload, key)" "PublishesKeyFor PurposeAssertion (Some key) remote"
    "payload = BuildSettlementPayload W claimed" "sc_contract claimed = lc_contract lc"
    "SameDIDWeb (sc_by claimed) fromPeer" "SameDIDWeb (sc_with claimed) (lc_local_peer lc)"
    "\<exists>party\<in>set (lc_parties lc). SameDIDWeb party (sc_by claimed)"
    "sc_digest claimed = lc_digest lc \<or> sc_digest claimed \<in> set (lc_superseded lc)"
    "sc_at claimed \<le> lc_now lc + settlementClockSkew"
    "\<forall>p. lc_previous lc = Some p \<longrightarrow> st_settled_at p \<le> sc_at claimed"
    "t = \<lparr>st_did = lc_contract lc, st_from_peer = fromPeer, st_to_peer = lc_local_peer lc,
          st_version = sc_version claimed, st_digest = sc_digest claimed, st_settled_at = sc_at claimed,
          st_signature = jws, st_delivered = Some (lc_now lc)\<rparr>"
proof -
  from assms obtain payload m ty claimed at settledAt key where
      "Jades_Verify (wr_jws W) jws = Inr (payload, key)" "PublishesKeyFor PurposeAssertion (Some key) remote"
      "payload = BuildSettlementPayload W (claimed\<lparr>sc_at := settledAt\<rparr>)"
      "sc_contract claimed = lc_contract lc" "SameDIDWeb (sc_by claimed) fromPeer"
      "SameDIDWeb (sc_with claimed) (lc_local_peer lc)"
      "list_ex (\<lambda>party. SameDIDWeb party (sc_by claimed)) (lc_parties lc)"
      "sc_digest claimed = lc_digest lc \<or> sc_digest claimed \<in> set (lc_superseded lc)"
      "settledAt \<le> lc_now lc + settlementClockSkew"
      "case lc_previous lc of None \<Rightarrow> True | Some p \<Rightarrow> st_settled_at p \<le> settledAt"
      "t = \<lparr>st_did = lc_contract lc, st_from_peer = fromPeer, st_to_peer = lc_local_peer lc,
          st_version = sc_version claimed, st_digest = sc_digest claimed, st_settled_at = settledAt,
          st_signature = jws, st_delivered = Some (lc_now lc)\<rparr>"
    unfolding verifyShippedSettlement_def result_iffs by (auto simp: signed_members_Inr result_iffs)
  then show thesis
    by (intro that [of payload key "claimed\<lparr>sc_at := settledAt\<rparr>"]) (auto simp: list_ex_iff split: option.splits)
qed

lemma verifyShippedWithdrawal_Inr:
  assumes "verifyShippedWithdrawal W jws fromPeer remote lw = Inr c"
  obtains payload key where
    "Jades_Verify (wr_jws W) jws = Inr (payload, key)" "PublishesKeyFor PurposeAssertion (Some key) remote"
    "payload = BuildSettlementWithdrawalPayload W c" "wc_contract c = lw_contract lw"
    "SameDIDWeb (wc_by c) fromPeer" "SameDIDWeb (wc_from c) (lw_local_peer lw)"
    "\<exists>party\<in>set (lw_parties lw). SameDIDWeb party (wc_by c)" "wc_at c \<le> lw_now lw + settlementClockSkew"
proof -
  from assms obtain payload m ty claimed at withdrawnAt key where
      "Jades_Verify (wr_jws W) jws = Inr (payload, key)" "PublishesKeyFor PurposeAssertion (Some key) remote"
      "payload = BuildSettlementWithdrawalPayload W (claimed\<lparr>wc_at := withdrawnAt\<rparr>)"
      "wc_contract claimed = lw_contract lw" "SameDIDWeb (wc_by claimed) fromPeer"
      "SameDIDWeb (wc_from claimed) (lw_local_peer lw)"
      "list_ex (\<lambda>party. SameDIDWeb party (wc_by claimed)) (lw_parties lw)"
      "withdrawnAt \<le> lw_now lw + settlementClockSkew" "c = claimed\<lparr>wc_at := withdrawnAt\<rparr>"
    unfolding verifyShippedWithdrawal_def result_iffs by (auto simp: signed_members_Inr result_iffs)
  then show thesis by (intro that [of payload key]) (auto simp: list_ex_iff)
qed

end
