(* ===== verification/Status_Verifier.thy ===== *)
theory Status_Verifier
  imports Complex_Main Status_Served Settlement_Wire
begin

text \<open>
  Reading a credential's status (\<open>backend/internal/auth/oid4vp/status\<close>): the references a
  credential carries (\<open>reference/\<close>), the choice of a handler by what the URI answers with
  (\<open>detect.go\<close>), the keys and certificates a list may be signed with (\<open>trust.go\<close>,
  \<open>envelope/jose.go\<close>, \<open>sdjwt/keys.go\<close>), the binding of a list to the credential's issuer
  (\<open>credentialbinding.go\<close>), the handlers of IETF and XFSC lists (\<open>handler/\<close>), the strict
  policy and the verifier.  HTTP, JSON text, JWT parsing and signatures, X.509 and the
  decompressors are parameters, as is the CWT envelope.  A handler is an argument of the
  verifier, as in the source.
\<close>

section \<open>References, results and errors\<close>

datatype mechanism = MechanismW3CBitstring | MechanismIETFToken | MechanismXFSC

datatype status_state =
    StateValid | StateInvalid | StateSuspended | StateRefreshRequired | StateApplicationSpecific | StateUnknown

record list_answer =
  la_Body :: string
  la_ContentType :: string

record status_reference =
  rf_Mechanism :: mechanism
  rf_URI :: string
  rf_Index :: "64 word"
  rf_Purpose :: string
  rf_StatusSize :: "64 word"
  rf_EntryType :: string
  rf_Prefetched :: "list_answer option"

record status_reading =
  rd_Mechanism :: mechanism
  rd_State :: status_state
  rd_RawValue :: "64 word"
  rd_URI :: string
  rd_Index :: "64 word"

datatype status_error =
    StatusExtraction | ErrStatusRetrieval | ErrStatusSignature | ErrStatusTrustNotConfigured
  | ErrStatusListNotSecured | ErrStatusDecoding | ErrStatusDecompression | ErrUnsupportedMediaType
  | ErrStatusURIMismatch | ErrStatusListIssuerMismatch | ErrTokenBitsInvalid | StatusCodec codec_error
  | StatusListExpired | StatusListNotYetValid | UnsupportedMechanism mechanism

section \<open>The world outside\<close>

text \<open>
  \<open>vf_fetch accept contentType uri\<close> is a GET that answered 200 within the size limit;
  \<open>vf_float\<close> the value of the 64-bit float \<open>encoding/json\<close> reads from a number; \<open>vf_jwt\<close> the
  header and claims of a compact ES256 token; \<open>vf_signed\<close> the acceptance of a token under a
  key; \<open>vf_b64\<close> the padded and the standard forms of base64; \<open>vf_leaf\<close> parses a certificate chain and verifies it against the configured anchors;
  \<open>vf_cwt\<close> and \<open>vf_cwt_list\<close> are the CWT envelope; \<open>vf_url\<close> gives scheme, host and path, and
  \<open>vf_list_uri\<close> the normalised text of a URI.
\<close>

record list_leaf =
  lf_URIs :: "string list"
  lf_DNSNames :: "string list"
  lf_CommonName :: string
  lf_digital_signature :: "bool option"
  lf_ExtKeyUsage_tls :: "bool list"
  lf_key :: leaf_key

record verify_env =
  vf_fetch :: "string \<Rightarrow> string \<Rightarrow> string \<Rightarrow> list_answer option"
  vf_json :: "string \<Rightarrow> json option"
  vf_float :: "string \<Rightarrow> rat"
  vf_jwt :: "string \<Rightarrow> (json_map \<times> json_map) option"
  vf_signed :: "point \<Rightarrow> string \<Rightarrow> bool"
  vf_leaf :: "string list \<Rightarrow> list_leaf option"
  vf_cwt :: "string \<Rightarrow> string \<Rightarrow> json_map option"
  vf_cwt_list :: "json option \<Rightarrow> bytes option"
  vf_zlib :: "bytes \<Rightarrow> bytes option"
  vf_gzip :: "bytes \<Rightarrow> bytes option"
  vf_b64 :: "string \<Rightarrow> bytes option"
  vf_url :: "string \<Rightarrow> (string \<times> string \<times> string) option"
  vf_list_uri :: "string \<Rightarrow> string option"

section \<open>References a credential carries\<close>

definition go_trunc :: "rat \<Rightarrow> int" where
  "go_trunc v = (if v < 0 then \<lceil>v\<rceil> else \<lfloor>v\<rfloor>)"

fun parseStatusIndex :: "verify_env \<Rightarrow> json option \<Rightarrow> 64 word option" where
  "parseStatusIndex W (Some (JStr v)) = map_option of_nat (ParseUint 64 (trim_space v))"
| "parseStatusIndex W (Some (JNum lit)) =
     (let v = vf_float W lit
      in if v < 0 \<or> v > 2 ^ 64 \<or> of_int (go_trunc v) \<noteq> v then None else Some (of_int (go_trunc v)))"
| "parseStatusIndex W _ = None"

definition parseStatusSize :: "verify_env \<Rightarrow> json option \<Rightarrow> 64 word option" where
  "parseStatusSize W raw =
    (if raw = None \<or> raw = Some JNull then Some 1
     else (case parseStatusIndex W raw of
             None \<Rightarrow> None
           | Some n \<Rightarrow> if n = 0 \<or> n > 8 then None else Some n))"

fun as_object :: "json option \<Rightarrow> json_map option" where
  "as_object (Some (JObj m)) = Some m"
| "as_object _ = None"

definition status_list_claim :: "json_map \<Rightarrow> json_map option" where
  "status_list_claim claims = Option.bind (as_object (obj_get claims ''status''))
     (\<lambda>statusClaim. as_object (obj_get statusClaim ''status_list''))"

definition present :: "json option \<Rightarrow> bool" where
  "present v = (v \<noteq> None \<and> v \<noteq> Some JNull)"

definition hasIETFStatusReference :: "verify_env \<Rightarrow> json_map \<Rightarrow> bool" where
  "hasIETFStatusReference W claims =
    (case status_list_claim claims of
       None \<Rightarrow> False
     | Some sl \<Rightarrow> trim_space (jstr (obj_get sl ''uri'')) \<noteq> '''' \<and> parseStatusIndex W (obj_get sl ''idx'') \<noteq> None)"

definition IETF_Supports :: "json_map \<Rightarrow> bool" where
  "IETF_Supports claims =
    (case status_list_claim claims of
       None \<Rightarrow> False
     | Some sl \<Rightarrow> present (obj_get sl ''uri'') \<and> present (obj_get sl ''idx''))"

definition parseIETFStatusReference ::
    "verify_env \<Rightarrow> json_map \<Rightarrow> (status_error, status_reference) result" where
  "parseIETFStatusReference W claims =
    (case status_list_claim claims of
       None \<Rightarrow> Inl StatusExtraction
     | Some sl \<Rightarrow>
         (let uri = trim_space (jstr (obj_get sl ''uri''))
          in case parseStatusIndex W (obj_get sl ''idx'') of
               None \<Rightarrow> Inl StatusExtraction
             | Some index \<Rightarrow>
                 if uri = '''' then Inl StatusExtraction
                 else Inr \<lparr>rf_Mechanism = MechanismIETFToken, rf_URI = uri, rf_Index = index, rf_Purpose = '''',
                        rf_StatusSize = 1, rf_EntryType = ''TokenStatusList'', rf_Prefetched = None\<rparr>))"

definition w3c_mechanism :: "string \<Rightarrow> mechanism option" where
  "w3c_mechanism entryType =
    (if entryType = ''BitstringStatusListEntry'' then Some MechanismW3CBitstring
     else if entryType = ''TokenStatusList'' then Some MechanismIETFToken else None)"

definition parseW3CStatusEntry :: "verify_env \<Rightarrow> json \<Rightarrow> (status_error, status_reference) result" where
  "parseW3CStatusEntry W item =
    (case item of
       JObj cs \<Rightarrow>
         (let entryType = trim_space (jstr (obj_get cs ''type''));
              uri = trim_space (jstr (obj_get cs ''statusListCredential''))
          in case (w3c_mechanism entryType, parseStatusIndex W (obj_get cs ''statusListIndex''),
                   parseStatusSize W (obj_get cs ''statusSize'')) of
               (Some mech, Some index, Some statusSize) \<Rightarrow>
                 if uri = '''' then Inl StatusExtraction
                 else Inr \<lparr>rf_Mechanism = mech, rf_URI = uri, rf_Index = index,
                        rf_Purpose = trim_space (jstr (obj_get cs ''statusPurpose'')),
                        rf_StatusSize = statusSize, rf_EntryType = entryType, rf_Prefetched = None\<rparr>
             | _ \<Rightarrow> Inl StatusExtraction)
     | _ \<Rightarrow> Inl StatusExtraction)"

fun result_list :: "('e, 'a) result list \<Rightarrow> ('e, 'a list) result" where
  "result_list [] = Inr []"
| "result_list (r # rs) = bind_res r (\<lambda>x. bind_res (result_list rs) (\<lambda>xs. Inr (x # xs)))"

definition parseW3CStatusReferences :: "verify_env \<Rightarrow> json \<Rightarrow> (status_error, status_reference list) result" where
  "parseW3CStatusReferences W raw =
    result_list (map (parseW3CStatusEntry W) (case raw of JArr items \<Rightarrow> items | _ \<Rightarrow> [raw]))"

text \<open>\<open>reference.Extract\<close>: the composite of both extractors, the W3C one first.\<close>

definition Extract_References :: "verify_env \<Rightarrow> json_map \<Rightarrow> (status_error, status_reference list) result" where
  "Extract_References W claims =
    (if present (obj_get claims ''credentialStatus'') \<and> hasIETFStatusReference W claims then Inl StatusExtraction
     else bind_res (case obj_get claims ''credentialStatus'' of
                      None \<Rightarrow> Inr [] | Some raw \<Rightarrow> parseW3CStatusReferences W raw) (\<lambda>w3c.
          bind_res (if IETF_Supports claims then bind_res (parseIETFStatusReference W claims) (\<lambda>r. Inr [r])
                    else Inr []) (\<lambda>ietf.
          if w3c @ ietf = [] then Inl StatusExtraction else Inr (w3c @ ietf))))"

section \<open>Which handler reads the answer\<close>

definition NormalizeContentType :: "string \<Rightarrow> string" where
  "NormalizeContentType contentType = trim_space (hd (split_on (CHR '';'') contentType))"

definition IsLikelyJWT :: "string \<Rightarrow> bool" where
  "IsLikelyJWT body = (length (split_on (CHR ''.'') (trim_space body)) = 3)"

definition LooksLikeJSON :: "string \<Rightarrow> bool" where
  "LooksLikeJSON body = has_prefix (trim_space body) ''{''"

definition quoted :: "string \<Rightarrow> string" where
  "quoted s = CHR 0x22 # s @ [CHR 0x22]"

text \<open>A field of type \<open>any\<close>: the last member of the name, \<open>null\<close> meaning nil.\<close>

definition read_any :: "string \<Rightarrow> json_map \<Rightarrow> json option" where
  "read_any name m =
    (let vs = map snd (filter (\<lambda>(k, v). to_lower k = to_lower name) m)
     in if vs = [] \<or> last vs = JNull then None else Some (last vs))"

definition IsXFSCStatusListJSON :: "verify_env \<Rightarrow> string \<Rightarrow> bool" where
  "IsXFSCStatusListJSON W body =
    (let b = trim_space body
     in LooksLikeJSON b \<and> \<not> contains_str b (quoted ''credentialSubject'') \<and>
        \<not> contains_str b (quoted ''status_list'') \<and>
        (case vf_json W b of
           Some (JObj doc) \<Rightarrow>
             (case (read_string ''tenantId'' doc, read_string ''list'' doc) of
                (Some tenantID, Some l) \<Rightarrow>
                  trim_space tenantID \<noteq> '''' \<and> read_any ''listId'' doc \<noteq> None \<and> trim_space l \<noteq> ''''
              | _ \<Rightarrow> False)
         | _ \<Rightarrow> False))"

definition IsIETFStatusListResponse :: "list_answer \<Rightarrow> bool" where
  "IsIETFStatusListResponse a =
    (NormalizeContentType (la_ContentType a) \<in> set [''application/statuslist+jwt'', ''application/statuslist+cwt''])"

definition IsW3CStatusListResponse :: "list_answer \<Rightarrow> bool" where
  "IsW3CStatusListResponse a =
    (let contentType = NormalizeContentType (la_ContentType a)
     in contentType \<in> set [''application/vc+jwt'', ''application/vc+cose'', ''application/vc'', ''application/ld+json'']
        \<or> (LooksLikeJSON (la_Body a) \<and> (contains_str (la_Body a) (quoted ''credentialSubject'')
             \<or> contains_str (la_Body a) (quoted ''encodedList'')))
        \<or> (IsLikelyJWT (la_Body a) \<and> contentType \<noteq> ''application/statuslist+jwt''))"

definition SelectMechanismFromResponse :: "verify_env \<Rightarrow> status_reference \<Rightarrow> list_answer \<Rightarrow> mechanism" where
  "SelectMechanismFromResponse W ref a =
    (if IsXFSCStatusListJSON W (la_Body a) then MechanismXFSC
     else if IsIETFStatusListResponse a then MechanismIETFToken
     else if IsW3CStatusListResponse a then MechanismW3CBitstring
     else rf_Mechanism ref)"

definition IETFStatusListAccept :: string where
  "IETFStatusListAccept = ''application/statuslist+jwt, application/statuslist+cwt''"

definition routeReference :: "verify_env \<Rightarrow> status_reference \<Rightarrow> (status_error, status_reference) result" where
  "routeReference W ref =
    (case vf_fetch W (if rf_Mechanism ref = MechanismIETFToken then IETFStatusListAccept else '''') '''' (rf_URI ref) of
       None \<Rightarrow> Inl ErrStatusRetrieval
     | Some a \<Rightarrow> Inr (ref\<lparr>rf_Mechanism := SelectMechanismFromResponse W ref a, rf_Prefetched := Some a\<rparr>))"

section \<open>Whose list it is\<close>

definition split_path :: "string \<Rightarrow> string list" where
  "split_path path = (let p = trim_slashes path in if p = '''' then [] else split_on (CHR ''/'') p)"

definition didWebNamesOrigin :: "verify_env \<Rightarrow> string \<Rightarrow> string \<Rightarrow> bool" where
  "didWebNamesOrigin W did origin =
    (case (DIDWebPath did, vf_url W (trim_space origin)) of
       (Some (host, segments), Some (scheme, urlHost, path)) \<Rightarrow>
         (scheme = ''https'' \<or> scheme = ''http'') \<and> to_lower urlHost = to_lower host \<and> split_path path = segments
     | _ \<Rightarrow> False)"

definition sameIssuerIdentity :: "verify_env \<Rightarrow> string \<Rightarrow> string \<Rightarrow> bool" where
  "sameIssuerIdentity W a b = (a = b \<or> didWebNamesOrigin W a b \<or> didWebNamesOrigin W b a)"

definition CredentialIssuer :: "json_map \<Rightarrow> string" where
  "CredentialIssuer claims =
    (let iss = jstr (obj_get claims ''iss'')
     in if trim_space iss \<noteq> '''' then iss
        else (case obj_get claims ''issuer'' of
                Some (JStr s) \<Rightarrow> s
              | Some (JObj m) \<Rightarrow> jstr (obj_get m ''id'')
              | _ \<Rightarrow> ''''))"

definition RequireCredentialIssuer :: "verify_env \<Rightarrow> json_map \<Rightarrow> string \<Rightarrow> bool" where
  "RequireCredentialIssuer W credential listIssuer =
    (trim_space listIssuer = '''' \<or>
     (let own = trim_space (CredentialIssuer credential)
      in own \<noteq> '''' \<and> sameIssuerIdentity W own (trim_space listIssuer)))"

section \<open>The key of a list\<close>

fun colons_unescaped :: "string \<Rightarrow> string" where
  "colons_unescaped [] = []"
| "colons_unescaped (c # cs) =
     (if has_prefix (c # cs) ''%3A'' then CHR '':'' # colons_unescaped (drop 2 cs) else c # colons_unescaped cs)"

text \<open>The authority of an issuer identifier; \<open>%3A\<close> stands for a colon.\<close>

definition issuerAuthority :: "string \<Rightarrow> string" where
  "issuerAuthority iss =
    (if has_prefix iss ''did:web:''
     then colons_unescaped (hd (split_on (CHR '':'') (trim_prefix iss ''did:web:'')))
     else if has_prefix iss ''https://'' then hd (split_on (CHR ''/'') (trim_prefix iss ''https://''))
     else '''')"

datatype issuer_binding = BindingURI | BindingDNS | BindingCN

definition leafIdentifiesIssuer :: "list_leaf \<Rightarrow> string \<Rightarrow> issuer_binding option" where
  "leafIdentifiesIssuer leaf issuer =
    (let iss = trim_space issuer; authority = issuerAuthority iss
     in if iss = '''' then None
        else if iss \<in> set (lf_URIs leaf) then Some BindingURI
        else if authority \<noteq> '''' \<and> (\<exists>name\<in>set (lf_DNSNames leaf). to_lower name = to_lower authority)
        then Some BindingDNS
        else if lf_CommonName leaf = iss then Some BindingCN else None)"

text \<open>The usages of a leaf: whether it may sign at all, and which extended ones are TLS ones.\<close>

definition leafMayAttest :: "list_leaf \<Rightarrow> issuer_binding \<Rightarrow> bool" where
  "leafMayAttest leaf binding =
    (lf_digital_signature leaf \<noteq> Some False \<and>
     (binding \<noteq> BindingDNS \<or> lf_ExtKeyUsage_tls leaf = [] \<or> (\<exists>tls\<in>set (lf_ExtKeyUsage_tls leaf). \<not> tls)))"

definition x5c_entries :: "json \<Rightarrow> string list option" where
  "x5c_entries raw =
    (case raw of
       JArr (c # cs) \<Rightarrow> those (map (\<lambda>e. case e of JStr s \<Rightarrow> if trim_space s = '''' then None else Some s | _ \<Rightarrow> None) (c # cs))
     | _ \<Rightarrow> None)"

definition VerificationKeyFromX5C :: "verify_env \<Rightarrow> bool \<Rightarrow> json \<Rightarrow> string \<Rightarrow> leaf_key option" where
  "VerificationKeyFromX5C W roots raw iss =
    (if \<not> roots then None
     else Option.bind (x5c_entries raw) (\<lambda>chain.
          Option.bind (vf_leaf W chain) (\<lambda>leaf.
          Option.bind (leafIdentifiesIssuer leaf iss) (\<lambda>binding.
          if leafMayAttest leaf binding then Some (lf_key leaf) else None))))"

record list_trust =
  lt_issuers :: "(string \<times> json_map list) list"
  lt_roots :: bool

definition jwkToECDSAPublicKey :: "json_map \<Rightarrow> point option" where
  "jwkToECDSAPublicKey jwk =
    (if jstr (obj_get jwk ''kty'') \<noteq> ''EC'' \<or> jstr (obj_get jwk ''crv'') \<noteq> ''P-256'' then None
     else case (b64_decode (trim_space (jstr (obj_get jwk ''x''))), b64_decode (trim_space (jstr (obj_get jwk ''y'')))) of
            (Some x, Some y) \<Rightarrow> Some (be_int x, be_int y)
          | _ \<Rightarrow> None)"

fun first_usable :: "('a \<Rightarrow> 'b option) \<Rightarrow> 'a list \<Rightarrow> 'b option" where
  "first_usable f [] = None"
| "first_usable f (x # xs) = (case f x of None \<Rightarrow> first_usable f xs | Some y \<Rightarrow> Some y)"

definition ResolveECDSAPublicKey :: "list_trust \<Rightarrow> string \<Rightarrow> point option" where
  "ResolveECDSAPublicKey T issuer =
    Option.bind (map_of (lt_issuers T) issuer) (\<lambda>keys. first_usable jwkToECDSAPublicKey keys)"

definition list_key :: "verify_env \<Rightarrow> list_trust \<Rightarrow> json_map \<Rightarrow> string \<Rightarrow> point option" where
  "list_key W T header issuer =
    (case obj_get header ''x5c'' of
       Some raw \<Rightarrow>
         (case VerificationKeyFromX5C W (lt_roots T) raw issuer of
            Some (LeafECDSA key) \<Rightarrow> Some key | _ \<Rightarrow> None)
     | None \<Rightarrow> ResolveECDSAPublicKey T issuer)"

definition tokenIssuer :: "json_map \<Rightarrow> string" where
  "tokenIssuer claims =
    (let iss = trim_space (jstr (obj_get claims ''iss''))
     in if iss \<noteq> '''' then iss else trim_space (jstr (obj_get claims ''issuer'')))"

text \<open>\<open>VerifyES256JWT\<close> with the key function of both handlers.\<close>

definition VerifyES256JWT :: "verify_env \<Rightarrow> list_trust \<Rightarrow> string \<Rightarrow> (json_map \<times> json_map) option" where
  "VerifyES256JWT W T body =
    (case vf_jwt W body of
       None \<Rightarrow> None
     | Some (header, claims) \<Rightarrow>
         if tokenIssuer claims = '''' then None
         else (case list_key W T header (tokenIssuer claims) of
                 None \<Rightarrow> None
               | Some key \<Rightarrow> if vf_signed W key body then Some (header, claims) else None))"

section \<open>From a bit to a state\<close>

definition MapIETFState :: "64 word \<Rightarrow> status_state" where
  "MapIETFState v =
    (if v = 0 then StateValid else if v = 1 then StateInvalid else if v = 2 then StateSuspended
     else if v \<in> set [3, 0x0C, 0x0D, 0x0E, 0x0F] then StateApplicationSpecific else StateUnknown)"

definition MapIETFResult :: "status_reference \<Rightarrow> 64 word \<Rightarrow> status_reading" where
  "MapIETFResult ref v = \<lparr>rd_Mechanism = rf_Mechanism ref, rd_State = MapIETFState v, rd_RawValue = v,
     rd_URI = rf_URI ref, rd_Index = rf_Index ref\<rparr>"

definition ParseTokenStatusBits :: "verify_env \<Rightarrow> json option \<Rightarrow> 64 word option" where
  "ParseTokenStatusBits W raw =
    (case raw of
       Some (JNum lit) \<Rightarrow>
         (let v = vf_float W lit
          in if v = 1 then Some 1 else if v = 2 then Some 2 else if v = 4 then Some 4
             else if v = 8 then Some 8 else None)
     | _ \<Rightarrow> None)"

definition maxDecompressedBytes :: nat where
  "maxDecompressedBytes = 1048576"

definition read_limited :: "bytes option \<Rightarrow> bytes option" where
  "read_limited out = (case out of None \<Rightarrow> None | Some b \<Rightarrow> if length b > maxDecompressedBytes then None else Some b)"

definition ZLIBDecompressLimited :: "verify_env \<Rightarrow> bytes \<Rightarrow> bytes option" where
  "ZLIBDecompressLimited W compressed =
    (case compressed of
       a # b # _ \<Rightarrow> if a = 0x78 then read_limited (vf_zlib W compressed) else None
     | _ \<Rightarrow> None)"

definition GZIPDecompressLimited :: "verify_env \<Rightarrow> bytes \<Rightarrow> bytes option" where
  "GZIPDecompressLimited W compressed =
    (case compressed of
       a # b # _ \<Rightarrow> if a = 0x1F \<and> b = 0x8B then read_limited (vf_gzip W compressed) else None
     | _ \<Rightarrow> None)"

section \<open>The handler of IETF token status lists\<close>

text \<open>\<open>ExpFromClaims\<close> and \<open>NbfFromClaims\<close>.\<close>

definition time_claim :: "verify_env \<Rightarrow> string \<Rightarrow> json_map \<Rightarrow> int option" where
  "time_claim W name claims =
    (case obj_get claims name of Some (JNum lit) \<Rightarrow> Some (go_trunc (vf_float W lit)) | _ \<Rightarrow> None)"

definition validateTimeClaims :: "verify_env \<Rightarrow> int \<Rightarrow> json_map \<Rightarrow> (status_error, unit) result" where
  "validateTimeClaims W now claims =
    require (case time_claim W ''exp'' claims of Some e \<Rightarrow> now < e | None \<Rightarrow> True) StatusListExpired
    (require (case time_claim W ''nbf'' claims of Some n \<Rightarrow> n \<le> now | None \<Rightarrow> True) StatusListNotYetValid
    (Inr ()))"

definition status_option :: "status_error \<Rightarrow> 'a option \<Rightarrow> (status_error, 'a) result" where
  "status_option e m = (case m of None \<Rightarrow> Inl e | Some x \<Rightarrow> Inr x)"

lemma status_option_Inr [simp]: "status_option e m = Inr x \<longleftrightarrow> m = Some x"
  by (auto simp: status_option_def split: option.splits)

lemma status_option_Some [simp]: "status_option e (Some x) = Inr x"
  by (simp add: status_option_def)

definition token_typ :: "json_map \<Rightarrow> string" where
  "token_typ header = trim_space (jstr (obj_get header ''typ''))"

text \<open>The claims of a signed answer, by its media type.\<close>

definition ietf_claims ::
    "verify_env \<Rightarrow> list_trust \<Rightarrow> status_reference \<Rightarrow> list_answer \<Rightarrow> (status_error, json_map) result" where
  "ietf_claims W T ref a =
    (let contentType = NormalizeContentType (la_ContentType a)
     in if contentType = ''application/statuslist+jwt'' then
          bind_res (status_option ErrStatusSignature (VerifyES256JWT W T (la_Body a))) (\<lambda>(header, claims).
            if token_typ header \<noteq> ''statuslist+jwt'' then Inl ErrStatusSignature else Inr claims)
        else if contentType = ''application/statuslist+cwt'' then
          status_option ErrStatusSignature (vf_cwt W (la_Body a) (rf_URI ref))
        else if LooksLikeJSON (la_Body a) then Inl ErrStatusListNotSecured
        else Inl ErrUnsupportedMediaType)"

definition decodeIETFList :: "verify_env \<Rightarrow> json option \<Rightarrow> string \<Rightarrow> bytes option" where
  "decodeIETFList W lst contentType =
    (if contentType = ''application/statuslist+cwt'' then vf_cwt_list W lst
     else b64_decode (trim_space (jstr lst)))"

definition fetched :: "verify_env \<Rightarrow> string \<Rightarrow> string \<Rightarrow> status_reference \<Rightarrow> (status_error, list_answer) result" where
  "fetched W accept contentType ref =
    (case rf_Prefetched ref of
       Some a \<Rightarrow> Inr a
     | None \<Rightarrow> status_option ErrStatusRetrieval (vf_fetch W accept contentType (rf_URI ref)))"

definition codec_result :: "(codec_error, 'a) result \<Rightarrow> (status_error, 'a) result" where
  "codec_result r = (case r of Inl e \<Rightarrow> Inl (StatusCodec e) | Inr x \<Rightarrow> Inr x)"

lemma codec_result_Inr [simp]: "codec_result r = Inr x \<longleftrightarrow> r = Inr x"
  by (auto simp: codec_result_def split: sum.splits)

definition IETFToken_Check ::
    "verify_env \<Rightarrow> list_trust option \<Rightarrow> int \<Rightarrow> json_map \<Rightarrow> status_reference \<Rightarrow> (status_error, status_reading) result" where
  "IETFToken_Check W trust now credential ref =
    bind_res (status_option ErrStatusTrustNotConfigured trust) (\<lambda>T.
    bind_res (fetched W IETFStatusListAccept '''' ref) (\<lambda>a.
    bind_res (ietf_claims W T ref a) (\<lambda>claims.
    require (jstr (obj_get claims ''sub'') = rf_URI ref) ErrStatusURIMismatch
    (require (RequireCredentialIssuer W credential (jstr (obj_get claims ''iss''))) ErrStatusListIssuerMismatch
    (bind_res (validateTimeClaims W now claims) (\<lambda>_.
     bind_res (status_option ErrStatusDecoding (as_object (obj_get claims ''status_list''))) (\<lambda>statusList.
     bind_res (status_option ErrTokenBitsInvalid (ParseTokenStatusBits W (obj_get statusList ''bits''))) (\<lambda>bits.
     bind_res (status_option ErrStatusDecoding
        (decodeIETFList W (obj_get statusList ''lst'') (NormalizeContentType (la_ContentType a)))) (\<lambda>compressed.
     bind_res (status_option ErrStatusDecompression (ZLIBDecompressLimited W compressed)) (\<lambda>bitstring.
     bind_res (codec_result (ReadStatusValue bitstring (rf_Index ref) bits LSBFirst)) (\<lambda>v.
     Inr (MapIETFResult ref v))))))))))))"

section \<open>The handler of XFSC lists\<close>

definition UnwrapStatusListJWTBody :: "verify_env \<Rightarrow> string \<Rightarrow> string" where
  "UnwrapStatusListJWTBody W body =
    (let trimmed = trim_space body;
         unquoted = (if has_prefix trimmed [CHR 0x22]
                     then (case vf_json W body of Some (JStr q) \<Rightarrow> Some (trim_space q) | _ \<Rightarrow> None) else None)
     in case unquoted of
          Some q \<Rightarrow> if IsLikelyJWT q then q else if IsLikelyJWT trimmed then trimmed else body
        | None \<Rightarrow> if IsLikelyJWT trimmed then trimmed else body)"

definition xfsc_verify :: "verify_env \<Rightarrow> list_trust option \<Rightarrow> string \<Rightarrow> json_map option" where
  "xfsc_verify W trust body =
    (if \<not> IsLikelyJWT body then None
     else Option.bind trust (\<lambda>T. Option.bind (VerifyES256JWT W T body) (\<lambda>(header, claims).
            if token_typ header = ''statuslist+jwt'' \<or> token_typ header = ''JWT'' then Some claims else None)))"

definition DecodeBase64Flexible :: "verify_env \<Rightarrow> string \<Rightarrow> bytes option" where
  "DecodeBase64Flexible W encoded =
    (case b64_decode (trim_space encoded) of Some raw \<Rightarrow> Some raw | None \<Rightarrow> vf_b64 W (trim_space encoded))"

definition decodeXFSCSignedClaims :: "verify_env \<Rightarrow> json_map \<Rightarrow> (status_error, bytes \<times> 64 word) result" where
  "decodeXFSCSignedClaims W claims =
    bind_res (status_option ErrStatusDecoding (as_object (obj_get claims ''status_list''))) (\<lambda>statusList.
      let bits = (case ParseTokenStatusBits W (obj_get statusList ''bits'') of None \<Rightarrow> 1 | Some b \<Rightarrow> b);
          lst = jstr (obj_get statusList ''lst'')
      in require (trim_space lst \<noteq> '''') ErrStatusDecoding
        (bind_res (status_option ErrStatusDecoding (DecodeBase64Flexible W lst)) (\<lambda>compressed.
         bind_res (status_option ErrStatusDecompression (GZIPDecompressLimited W compressed)) (\<lambda>bitstring.
         Inr (bitstring, bits)))))"

text \<open>The subject of the list is compared with the URI for a log line only.\<close>

definition XFSC_Check ::
    "verify_env \<Rightarrow> list_trust option \<Rightarrow> json_map \<Rightarrow> status_reference \<Rightarrow> (status_error, status_reading) result" where
  "XFSC_Check W trust credential ref =
    bind_res (status_option ErrStatusRetrieval (vf_fetch W '''' ''statuslist+jwt'' (rf_URI ref))) (\<lambda>a.
    bind_res (status_option ErrStatusSignature
       (xfsc_verify W trust (UnwrapStatusListJWTBody W (la_Body a)))) (\<lambda>claims.
    require (RequireCredentialIssuer W credential (jstr (obj_get claims ''iss''))) ErrStatusListIssuerMismatch
    (bind_res (decodeXFSCSignedClaims W claims) (\<lambda>(bitstring, bits).
     let width = (if rf_StatusSize ref = 0 then bits else rf_StatusSize ref);
         width = (if width = 0 then 1 else width)
     in bind_res (codec_result (ReadStatusValue bitstring (rf_Index ref) width LSBFirst)) (\<lambda>v.
        Inr (MapIETFResult ref v))))))"

section \<open>Policy and verifier\<close>

record verification_outcome =
  vo_Accepted :: bool
  vo_Readings :: "status_reading list"

definition refusing_states :: "status_state set" where
  "refusing_states = {StateInvalid, StateSuspended, StateUnknown, StateApplicationSpecific}"

definition Strict_Evaluate :: "status_reading list \<Rightarrow> verification_outcome" where
  "Strict_Evaluate readings =
    \<lparr>vo_Accepted = \<not> list_ex (\<lambda>r. rd_State r \<in> refusing_states) readings, vo_Readings = readings\<rparr>"

definition Strict_HandleMissingStatus :: verification_outcome where
  "Strict_HandleMissingStatus = \<lparr>vo_Accepted = False, vo_Readings = []\<rparr>"

type_synonym list_handler = "json_map \<Rightarrow> status_reference \<Rightarrow> (status_error, status_reading) result"

definition check_reference ::
    "verify_env \<Rightarrow> (mechanism \<Rightarrow> list_handler option) \<Rightarrow> json_map \<Rightarrow> status_reference \<Rightarrow>
     (status_error, status_reading) result" where
  "check_reference W handlers credential ref =
    bind_res (routeReference W ref) (\<lambda>routed.
      case handlers (rf_Mechanism routed) of
        None \<Rightarrow> Inl (UnsupportedMechanism (rf_Mechanism routed))
      | Some handler \<Rightarrow> handler credential routed)"

definition VerifyStatus ::
    "verify_env \<Rightarrow> (mechanism \<Rightarrow> list_handler option) \<Rightarrow> json_map \<Rightarrow> (status_error, verification_outcome) result" where
  "VerifyStatus W handlers credential =
    bind_res (Extract_References W credential) (\<lambda>refs.
      if refs = [] then Inr Strict_HandleMissingStatus
      else bind_res (result_list (map (check_reference W handlers credential) refs)) (\<lambda>readings.
        Inr (Strict_Evaluate readings)))"

text \<open>\<open>NewVerifier\<close>; the handler of W3C lists is an argument.\<close>

definition standard_handlers ::
    "verify_env \<Rightarrow> list_trust option \<Rightarrow> list_handler \<Rightarrow> int \<Rightarrow> mechanism \<Rightarrow> list_handler option" where
  "standard_handlers W trust w3c now m =
    (case m of
       MechanismW3CBitstring \<Rightarrow> Some w3c
     | MechanismIETFToken \<Rightarrow> Some (IETFToken_Check W trust now)
     | MechanismXFSC \<Rightarrow> Some (XFSC_Check W trust))"

text \<open>\<open>CredentialStatusVerifier.State\<close>: the state of the first reference.\<close>

datatype credential_state = StatusActive | StatusRevoked | StatusSuspended

definition CredentialStatus_State ::
    "verify_env \<Rightarrow> (mechanism \<Rightarrow> list_handler option) option \<Rightarrow> string \<Rightarrow> credential_state option" where
  "CredentialStatus_State W verifier vcBytes =
    (case (verifier, Option.bind (vf_json W vcBytes) decode_map) of
       (Some handlers, Some decoded) \<Rightarrow>
         (case VerifyStatus W handlers (case decoded of None \<Rightarrow> [] | Some claims \<Rightarrow> claims) of
            Inr outcome \<Rightarrow>
              (case vo_Readings outcome of
                 r # _ \<Rightarrow>
                   (case rd_State r of
                      StateValid \<Rightarrow> Some StatusActive | StateInvalid \<Rightarrow> Some StatusRevoked
                    | StateSuspended \<Rightarrow> Some StatusSuspended | _ \<Rightarrow> None)
               | [] \<Rightarrow> None)
          | Inl _ \<Rightarrow> None)
     | _ \<Rightarrow> None)"

end
