(* ===== verification/Status_Properties.thy ===== *)
theory Status_Properties
  imports Status_Verifier
begin

text \<open>
  What publishing, serving and verifying a status list give together: a contract's
  revocation is what a verifier of its credentials reads, an accepted status is vouched for
  by a signed list, and a delivered status stays delivered.
\<close>

section \<open>Characters of a token\<close>

lemma b64_chars: "c \<in> set (b64_encode bs) \<Longrightarrow> c \<noteq> CHR ''{'' \<and> \<not> is_space c"
proof -
  have "\<forall>n\<in>set [0..<64]. b64_char n \<noteq> CHR ''{'' \<and> \<not> is_space (b64_char n)" by code_simp
  then have ok: "n < 64 \<Longrightarrow> b64_char n \<noteq> CHR ''{'' \<and> \<not> is_space (b64_char n)" for n
    by (simp del: upt_rec_numeral)
  assume "c \<in> set (b64_encode bs)"
  then show ?thesis
    using ok sixes_small [of bs] by (auto simp: b64_encode_sixes)
qed

lemma trim_space_id:
  assumes "\<forall>c\<in>set s. \<not> is_space c"
  shows "trim_space s = s"
proof -
  have drop: "dropWhile is_space xs = xs" if "\<forall>c\<in>set xs. \<not> is_space c" for xs
    using that by (cases xs) auto
  have "dropWhile is_space s = s" "dropWhile is_space (rev s) = rev s"
    using assms by (auto intro!: drop)
  then show ?thesis by (simp add: trim_space_def)
qed

lemma trim_b64 [simp]: "trim_space (b64_encode bs) = b64_encode bs"
  using b64_chars by (intro trim_space_id) blast

lemma dot_char: "CHR ''.'' \<noteq> CHR ''{''" "\<not> is_space (CHR ''.'')"
  by code_simp+

lemma token_is_no_json:
  assumes "StatusList_Token E s now t = (Inr body, t')"
  shows "\<not> LooksLikeJSON body"
proof -
  have chars: "\<forall>c\<in>set body. c \<noteq> CHR ''{'' \<and> \<not> is_space c"
    using assms dot_char
    by (auto simp: StatusList_Token_def Let_def dest: b64_chars split: option.splits if_splits sum.splits prod.splits)
  then have "trim_space body = body" by (intro trim_space_id) blast
  with chars show ?thesis
    by (cases body) (auto simp: LooksLikeJSON_def)
qed

lemma StatusList_Token_cases:
  assumes "StatusList_Token E s now t = (Inr body, t')"
  obtains sign uri bits where "ls_Signer s = Some sign" "ls_ListURI s = Some uri" "trim_space (ls_Issuer s) \<noteq> ''''"
    "ls_Chain s \<noteq> []" "status_bitstring s t = (Inr bits, t')"
  using assms that by (auto simp: StatusList_Token_def Let_def split: option.splits if_splits sum.splits prod.splits)

section \<open>The reference of an issued credential\<close>

lemma issued_reference:
  assumes "obj_get claims ''credentialStatus'' = map_option JObj (buildCredentialStatus cref)"
    and "obj_get claims ''status'' = None"
    and "StatusListCredential cref \<noteq> ''''" "trim_space (StatusListCredential cref) = StatusListCredential cref"
  shows "Extract_References W claims = Inr [\<lparr>rf_Mechanism = MechanismIETFToken,
     rf_URI = StatusListCredential cref, rf_Index = ucast (RefIndex cref), rf_Purpose = ''revocation'',
     rf_StatusSize = 1, rf_EntryType = ''TokenStatusList'', rf_Prefetched = None\<rparr>]"
proof -
  have names: "trim_space ''TokenStatusList'' = ''TokenStatusList''" "trim_space ''revocation'' = ''revocation''"
    "w3c_mechanism ''TokenStatusList'' = Some MechanismIETFToken" by code_simp+
  have small: "unat (RefIndex cref) < 2 ^ 64"
    by (rule order_less_le_trans [OF unsigned_less]) simp
  have "(of_nat (unat (RefIndex cref)) :: 64 word) = ucast (RefIndex cref)" by simp
  then show ?thesis
    using assms small names
    by (simp add: Extract_References_def buildCredentialStatus_def parseW3CStatusReferences_def
        parseW3CStatusEntry_def parseStatusSize_def hasIETFStatusReference_def IETF_Supports_def
        status_list_claim_def obj_get_def present_def)
qed

section \<open>The served list under the IETF handler\<close>

lemma payload_claims:
  "obj_get (token_payload E s uri now bits) ''iss'' = Some (JStr (ls_Issuer s))"
  "obj_get (token_payload E s uri now bits) ''sub'' = Some (JStr (uri (ls_ListID s)))"
  "obj_get (token_payload E s uri now bits) ''exp'' = None"
  "obj_get (token_payload E s uri now bits) ''nbf'' = None"
  "obj_get (token_payload E s uri now bits) ''status_list'' =
     Some (JObj [(''bits'', JNum ''1''), (''lst'', JStr (b64_encode (sv_deflate E bits)))])"
  by (simp_all add: token_payload_def obj_get_def)

lemma header_typ: "token_typ (token_header s) = ''statuslist+jwt''"
proof -
  have "trim_space ''statuslist+jwt'' = ''statuslist+jwt''" by code_simp
  then show ?thesis by (simp add: token_typ_def token_header_def obj_get_def)
qed

lemma list_media_type:
  "NormalizeContentType ''application/statuslist+jwt'' = ''application/statuslist+jwt''"
  by code_simp

lemma own_list_check:
  assumes "trim_space (ls_Issuer s) \<noteq> ''''" "rf_URI ref = uri (ls_ListID s)"
    and "rf_Prefetched ref = Some \<lparr>la_Body = token, la_ContentType = ''application/statuslist+jwt''\<rparr>"
    and "RequireCredentialIssuer W claims (ls_Issuer s)"
    and "vf_jwt W token = Some (token_header s, token_payload E s uri now bits)"
    and "list_key W T (token_header s) (trim_space (ls_Issuer s)) = Some key" "vf_signed W key token"
    and "ZLIBDecompressLimited W (sv_deflate E bits) = Some bits" "vf_float W ''1'' = 1"
    and "ReadStatusValue bits (rf_Index ref) 1 LSBFirst = Inr v"
  shows "IETFToken_Check W (Some T) vnow claims ref = Inr (MapIETFResult ref v)"
proof -
  have verified: "VerifyES256JWT W T token = Some (token_header s, token_payload E s uri now bits)"
    using assms by (simp add: VerifyES256JWT_def tokenIssuer_def payload_claims Let_def)
  have "ietf_claims W T ref \<lparr>la_Body = token, la_ContentType = ''application/statuslist+jwt''\<rparr>
      = Inr (token_payload E s uri now bits)"
    using verified by (simp add: ietf_claims_def list_media_type header_typ Let_def)
  then show ?thesis
    using assms
    by (simp add: IETFToken_Check_def fetched_def payload_claims validateTimeClaims_def time_claim_def
        ParseTokenStatusBits_def decodeIETFList_def list_media_type obj_get_def [of "[_, _]"] codec_result_def)
qed

definition own_reference :: "string \<Rightarrow> status_list_entry \<Rightarrow> string \<Rightarrow> status_reference" where
  "own_reference uri e token = \<lparr>rf_Mechanism = MechanismIETFToken, rf_URI = uri, rf_Index = ucast (Index e),
     rf_Purpose = ''revocation'', rf_StatusSize = 1, rf_EntryType = ''TokenStatusList'',
     rf_Prefetched = Some \<lparr>la_Body = token, la_ContentType = ''application/statuslist+jwt''\<rparr>\<rparr>"

text \<open>The whole check of an own credential against the served list.\<close>

lemma own_list_verified:
  assumes "tables_ok t" "chosen_entry subj e t" "ListID e = ls_ListID s"
    and "StatusList_Token E s now t = (Inr token, t')" "status_bitstring s t = (Inr bits, t')"
    and "served_size s < 2 ^ 32" "int (unat (Index e)) < served_size s"
    and "ls_ListURI s = Some uri" "uri (ls_ListID s) \<noteq> ''''" "trim_space (uri (ls_ListID s)) = uri (ls_ListID s)"
    and "obj_get claims ''status'' = None"
    and "obj_get claims ''credentialStatus'' = map_option JObj
           (buildCredentialStatus \<lparr>StatusListCredential = uri (ListID e), RefIndex = Index e\<rparr>)"
    and "RequireCredentialIssuer W claims (ls_Issuer s)"
    and "vf_fetch W IETFStatusListAccept '''' (uri (ls_ListID s))
           = Some \<lparr>la_Body = token, la_ContentType = ''application/statuslist+jwt''\<rparr>"
    and "vf_jwt W token = Some (token_header s, token_payload E s uri now bits)"
    and "list_key W T (token_header s) (trim_space (ls_Issuer s)) = Some key" "vf_signed W key token"
    and "ZLIBDecompressLimited W (sv_deflate E bits) = Some bits" "vf_float W ''1'' = 1"
  shows "VerifyStatus W (standard_handlers W (Some T) w3c vnow) claims = Inr (Strict_Evaluate
    [MapIETFResult (own_reference (uri (ls_ListID s)) e token) (of_bool (revoked_subject subj t))])"
proof -
  define a where "a = \<lparr>la_Body = token, la_ContentType = ''application/statuslist+jwt''\<rparr>"
  define rf where "rf = own_reference (uri (ls_ListID s)) e token"
  note rf_def = rf_def [unfolded own_reference_def]
  have issuer: "trim_space (ls_Issuer s) \<noteq> ''''"
    using assms(4) by (rule StatusList_Token_cases)
  have refs: "Extract_References W claims = Inr [rf\<lparr>rf_Prefetched := None\<rparr>]"
    using issued_reference [OF assms(12,11)] assms(3,9,10) by (simp add: rf_def)
  have "\<not> IsXFSCStatusListJSON W token"
    using token_is_no_json [OF assms(4)] trim_space_idem [of token]
    by (simp add: IsXFSCStatusListJSON_def Let_def LooksLikeJSON_def)
  then have "SelectMechanismFromResponse W rf' a = MechanismIETFToken" for rf'
    by (simp add: SelectMechanismFromResponse_def IsIETFStatusListResponse_def a_def list_media_type)
  then have routed: "routeReference W (rf\<lparr>rf_Prefetched := None\<rparr>) = Inr rf"
    using assms(14) by (simp add: routeReference_def rf_def a_def)
  have "ReadStatusValue bits (rf_Index rf) 1 LSBFirst = Inr (of_bool (revoked_subject subj t))"
    using served_bit_of_subject [OF assms(1,2,3,5,6,7)] by (simp add: rf_def)
  then have check: "IETFToken_Check W (Some T) vnow claims rf = Inr (MapIETFResult rf (of_bool (revoked_subject subj t)))"
    using issuer assms(13-19) by (intro own_list_check) (simp_all add: rf_def a_def)
  have rf: "own_reference (uri (ls_ListID s)) e token = rf" "rf_Mechanism rf = MechanismIETFToken"
    by (simp_all add: rf_def own_reference_def)
  show ?thesis
    using refs routed check by (simp add: VerifyStatus_def check_reference_def standard_handlers_def rf)
qed


section \<open>The queue behind the contract tables\<close>

text \<open>
  The lifecycle commands of the contract model keep the enqueued publications without the
  columns of the worker.  Enqueueing there and here is the same operation.
\<close>

definition publication_of :: "publication_row \<Rightarrow> publication" where
  "publication_of r = \<lparr>q_did = qu_contract_did r, q_status = qu_status r, q_reason = qu_reason r,
     q_effective_at = qu_effective_at r\<rparr>"

lemma queue_Enqueue_refines:
  assumes "publications s = map publication_of q"
  shows "publications (EnqueueTx did status reason effectiveAt s)
    = map publication_of (queue_Enqueue did status reason effectiveAt now q)"
  using assms by (auto simp: EnqueueTx_def queue_Enqueue_def publication_of_def list_ex_iff)

section \<open>Delivery\<close>

lemma claim_item_bound: "qu_next_attempt_at (claim_item now item r) \<le> now + maxRetry"
proof -
  have "n div second_ns * second_ns \<le> n" for n
    using div_mult_mod_eq [of n second_ns] pos_mod_sign [of second_ns n] by (simp add: second_ns_def)
  from order_trans [OF this retryDelay_bounds(2)] show ?thesis by (simp add: claim_item_def)
qed

lemma ProcessOnce_bound:
  assumes "ProcessOnce publisher fault now d = (processed, goes_on, d')"
    and "\<forall>q\<in>set (pd_queue d). qu_next_attempt_at q \<le> now + maxRetry"
  shows "\<forall>q\<in>set (pd_queue d'). qu_next_attempt_at q \<le> now + maxRetry"
proof -
  have update: "\<forall>q\<in>set (update_item item f qs). qu_next_attempt_at q \<le> now + maxRetry"
    if "\<forall>q\<in>set qs. qu_next_attempt_at q \<le> now + maxRetry"
      "\<And>q. qu_next_attempt_at q \<le> now + maxRetry \<Longrightarrow> qu_next_attempt_at (f q) \<le> now + maxRetry" for item f qs
    using that by (auto simp: update_item_def)
  have "pd_queue d' = pd_queue d \<or> (\<exists>item f. (\<forall>q. qu_next_attempt_at (f q) = qu_next_attempt_at q) \<and>
      (pd_queue d' = update_item item (claim_item now item) (pd_queue d) \<or>
       pd_queue d' = update_item item f (update_item item (claim_item now item) (pd_queue d))))"
  proof (cases "\<exists>P item. publisher = Some P \<and> oldest_row (filter (queue_due now) (pd_queue d)) = Some item
      \<and> fault \<noteq> ClaimLost")
    case False
    then show ?thesis using assms(1) by (auto simp: ProcessOnce_def split: option.splits if_splits)
  next
    case True
    then obtain P item where P: "publisher = Some P" "fault \<noteq> ClaimLost"
        "oldest_row (filter (queue_due now) (pd_queue d)) = Some item" by blast
    obtain r t2 where "PublishStatus P (qu_contract_did item) (qu_status item) now (pd_tables d) = (r, t2)"
      by fastforce
    let ?noted = "\<lambda>row. case r of Inl err \<Rightarrow> row\<lparr>qu_last_error := Some err\<rparr>
      | Inr _ \<Rightarrow> row\<lparr>qu_published_at := Some now, qu_last_error := None\<rparr>"
    have "pd_queue d' = update_item item (claim_item now item) (pd_queue d) \<or>
        pd_queue d' = update_item item ?noted (update_item item (claim_item now item) (pd_queue d))"
      using P assms(1) \<open>PublishStatus _ _ _ _ _ = _\<close> by (auto simp: ProcessOnce_def Let_def split: if_splits)
    moreover have "\<forall>q. qu_next_attempt_at (?noted q) = qu_next_attempt_at q" by (simp split: sum.splits)
    ultimately show ?thesis
      by - (rule disjI2, intro exI [of _ item] exI [of _ ?noted] conjI)
  qed
  with assms(2) update claim_item_bound show ?thesis by metis
qed

lemma processAvailable_bound:
  "\<forall>q\<in>set (pd_queue d). qu_next_attempt_at q \<le> now + maxRetry \<Longrightarrow>
   \<forall>q\<in>set (pd_queue (processAvailable publisher faults now d)). qu_next_attempt_at q \<le> now + maxRetry"
proof (induction publisher faults now d rule: processAvailable.induct)
  case (1 publisher faults now d)
  obtain processed goes_on d' where p: "ProcessOnce publisher (case faults of [] \<Rightarrow> NoFault | fault # _ \<Rightarrow> fault) now d
      = (processed, goes_on, d')" using prod_cases3 by blast
  note once = ProcessOnce_bound [OF p "1.prems"]
  show ?case
  proof (cases "goes_on \<and> processed")
    case True
    from "1.IH" [OF p [symmetric] refl True once] True p show ?thesis
      by (subst processAvailable.simps) simp
  next
    case False
    with p once show ?thesis by (subst processAvailable.simps) auto
  qed
qed


section \<open>Acceptance\<close>

definition signed_list :: "verify_env \<Rightarrow> list_trust \<Rightarrow> string \<Rightarrow> json_map \<Rightarrow> bool" where
  "signed_list W T body claims \<longleftrightarrow>
    (\<exists>header key. vf_jwt W body = Some (header, claims) \<and> tokenIssuer claims \<noteq> '''' \<and>
       list_key W T header (tokenIssuer claims) = Some key \<and> vf_signed W key body)"

lemma VerifyES256JWT_signed:
  "VerifyES256JWT W T body = Some (header, claims) \<Longrightarrow> signed_list W T body claims"
  by (fastforce simp: VerifyES256JWT_def signed_list_def split: option.splits prod.splits if_splits)

lemma ietf_claims_signed:
  assumes "ietf_claims W T ref a = Inr claims"
  shows "if NormalizeContentType (la_ContentType a) = ''application/statuslist+jwt''
    then signed_list W T (la_Body a) claims
    else vf_cwt W (la_Body a) (rf_URI ref) = Some claims"
  using assms VerifyES256JWT_signed
  by (auto simp: ietf_claims_def Let_def bind_res_Inr_iff split: if_splits)

lemma MapIETFState_valid:
  assumes "rd_State rd \<notin> refusing_states" "rd = MapIETFResult ref v"
  shows "v = 0"
  using assms by (auto simp: MapIETFResult_def MapIETFState_def refusing_states_def split: if_splits)

text \<open>The bits a token carries under its media type, and their width.\<close>

definition token_bits :: "verify_env \<Rightarrow> json_map \<Rightarrow> string \<Rightarrow> bytes \<Rightarrow> 64 word \<Rightarrow> bool" where
  "token_bits W claims contentType bitstring bits \<longleftrightarrow>
    (\<exists>statusList compressed. as_object (obj_get claims ''status_list'') = Some statusList \<and>
       ParseTokenStatusBits W (obj_get statusList ''bits'') = Some bits \<and>
       decodeIETFList W (obj_get statusList ''lst'') contentType = Some compressed \<and>
       ZLIBDecompressLimited W compressed = Some bitstring)"

lemma IETFToken_Check_valid:
  assumes "IETFToken_Check W trust now credential ref = Inr rd" "rd_State rd \<notin> refusing_states"
    and "rf_Prefetched ref = Some a"
  shows "\<exists>T claims bitstring bits. trust = Some T \<and> jstr (obj_get claims ''sub'') = rf_URI ref \<and>
    RequireCredentialIssuer W credential (jstr (obj_get claims ''iss'')) \<and>
    (if NormalizeContentType (la_ContentType a) = ''application/statuslist+jwt''
     then signed_list W T (la_Body a) claims else vf_cwt W (la_Body a) (rf_URI ref) = Some claims) \<and>
    token_bits W claims (NormalizeContentType (la_ContentType a)) bitstring bits \<and>
    ReadStatusValue bitstring (rf_Index ref) bits LSBFirst = Inr 0"
proof -
  from assms(1,3) obtain T claims bitstring bits v where *: "trust = Some T" "ietf_claims W T ref a = Inr claims"
      "jstr (obj_get claims ''sub'') = rf_URI ref"
      "RequireCredentialIssuer W credential (jstr (obj_get claims ''iss''))"
      "ReadStatusValue bitstring (rf_Index ref) bits LSBFirst = Inr v" "rd = MapIETFResult ref v"
      "token_bits W claims (NormalizeContentType (la_ContentType a)) bitstring bits"
    by (auto simp: IETFToken_Check_def fetched_def bind_res_Inr_iff require_Inr_iff token_bits_def)
  with MapIETFState_valid [OF assms(2) *(6)] ietf_claims_signed [OF *(2)] show ?thesis by blast
qed

lemma XFSC_Check_valid:
  assumes "XFSC_Check W trust credential ref = Inr rd" "rd_State rd \<notin> refusing_states"
  shows "\<exists>T again claims bitstring bits width. trust = Some T \<and>
    vf_fetch W '''' ''statuslist+jwt'' (rf_URI ref) = Some again \<and>
    signed_list W T (UnwrapStatusListJWTBody W (la_Body again)) claims \<and>
    decodeXFSCSignedClaims W claims = Inr (bitstring, bits) \<and>
    RequireCredentialIssuer W credential (jstr (obj_get claims ''iss'')) \<and>
    ReadStatusValue bitstring (rf_Index ref) width LSBFirst = Inr 0"
proof -
  from assms(1) obtain again claims bitstring bits width v where
      *: "xfsc_verify W trust (UnwrapStatusListJWTBody W (la_Body again)) = Some claims"
      "RequireCredentialIssuer W credential (jstr (obj_get claims ''iss''))"
      "ReadStatusValue bitstring (rf_Index ref) width LSBFirst = Inr v" "rd = MapIETFResult ref v"
      "vf_fetch W '''' ''statuslist+jwt'' (rf_URI ref) = Some again"
      "decodeXFSCSignedClaims W claims = Inr (bitstring, bits)"
    by (auto simp: XFSC_Check_def bind_res_Inr_iff require_Inr_iff Let_def)
  from *(1) obtain T where "trust = Some T" "signed_list W T (UnwrapStatusListJWTBody W (la_Body again)) claims"
    by (auto simp: xfsc_verify_def bind_eq_Some_conv intro: VerifyES256JWT_signed split: if_splits prod.splits)
  with * MapIETFState_valid [OF assms(2) *(4)] show ?thesis by blast
qed

lemma result_list_members:
  assumes "result_list (map f xs) = Inr ys" "x \<in> set xs"
  shows "\<exists>y\<in>set ys. f x = Inr y"
  using assms by (induction xs arbitrary: ys) (auto simp: bind_res_Inr_iff)

lemma routeReference_cases:
  assumes "routeReference W ref = Inr routed"
  obtains a where "vf_fetch W (if rf_Mechanism ref = MechanismIETFToken then IETFStatusListAccept else '''') '''' (rf_URI ref) = Some a"
    "routed = ref\<lparr>rf_Mechanism := SelectMechanismFromResponse W ref a, rf_Prefetched := Some a\<rparr>"
  using assms that by (auto simp: routeReference_def split: option.splits)

text \<open>What stands behind one accepted reference.\<close>

definition vouched_reading ::
    "verify_env \<Rightarrow> list_trust option \<Rightarrow> list_handler \<Rightarrow> json_map \<Rightarrow> status_reference \<Rightarrow> list_answer \<Rightarrow>
     status_reference \<Rightarrow> status_reading \<Rightarrow> bool" where
  "vouched_reading W trust w3c credential ref a routed rd \<longleftrightarrow>
    vf_fetch W (if rf_Mechanism ref = MechanismIETFToken then IETFStatusListAccept else '''') '''' (rf_URI ref) = Some a \<and>
    routed = ref\<lparr>rf_Mechanism := SelectMechanismFromResponse W ref a, rf_Prefetched := Some a\<rparr> \<and>
    rd_State rd \<in> {StateValid, StateRefreshRequired} \<and>
    (case rf_Mechanism routed of
       MechanismW3CBitstring \<Rightarrow> w3c credential routed = Inr rd
     | MechanismIETFToken \<Rightarrow>
         (\<exists>T claims bitstring bits. trust = Some T \<and> jstr (obj_get claims ''sub'') = rf_URI ref \<and>
            RequireCredentialIssuer W credential (jstr (obj_get claims ''iss'')) \<and>
            (if NormalizeContentType (la_ContentType a) = ''application/statuslist+jwt''
             then signed_list W T (la_Body a) claims else vf_cwt W (la_Body a) (rf_URI ref) = Some claims) \<and>
            token_bits W claims (NormalizeContentType (la_ContentType a)) bitstring bits \<and>
            ReadStatusValue bitstring (rf_Index ref) bits LSBFirst = Inr 0)
     | MechanismXFSC \<Rightarrow>
         (\<exists>T again claims bitstring bits width. trust = Some T \<and>
            vf_fetch W '''' ''statuslist+jwt'' (rf_URI ref) = Some again \<and>
            signed_list W T (UnwrapStatusListJWTBody W (la_Body again)) claims \<and>
            decodeXFSCSignedClaims W claims = Inr (bitstring, bits) \<and>
            RequireCredentialIssuer W credential (jstr (obj_get claims ''iss'')) \<and>
            ReadStatusValue bitstring (rf_Index ref) width LSBFirst = Inr 0))"

lemma check_reference_vouched:
  assumes "check_reference W (standard_handlers W trust w3c now) credential ref = Inr rd"
    and "rd_State rd \<notin> refusing_states"
  shows "\<exists>a routed. vouched_reading W trust w3c credential ref a routed rd"
proof -
  from assms(1) obtain routed h where routed: "routeReference W ref = Inr routed"
    and h: "standard_handlers W trust w3c now (rf_Mechanism routed) = Some h" "h credential routed = Inr rd"
    by (auto simp: check_reference_def bind_res_Inr_iff split: option.splits)
  from routed obtain a where a: "vf_fetch W (if rf_Mechanism ref = MechanismIETFToken then IETFStatusListAccept else '''') ''''
      (rf_URI ref) = Some a"
    "routed = ref\<lparr>rf_Mechanism := SelectMechanismFromResponse W ref a, rf_Prefetched := Some a\<rparr>"
    by (rule routeReference_cases)
  have state: "rd_State rd \<in> {StateValid, StateRefreshRequired}"
    using assms(2) by (cases "rd_State rd") (simp_all add: refusing_states_def)
  have same: "rf_URI routed = rf_URI ref" "rf_Index routed = rf_Index ref" "rf_Prefetched routed = Some a"
    by (simp_all add: a(2))
  have "vouched_reading W trust w3c credential ref a routed rd"
  proof (cases "rf_Mechanism routed")
    case MechanismW3CBitstring
    with h have "w3c credential routed = Inr rd" by (simp add: standard_handlers_def)
    with MechanismW3CBitstring a state show ?thesis
      unfolding vouched_reading_def by (simp only: mechanism.case simp_thms)
  next
    case MechanismIETFToken
    with h have "IETFToken_Check W trust now credential routed = Inr rd" by (simp add: standard_handlers_def)
    from IETFToken_Check_valid [OF this assms(2) same(3), unfolded same(1,2)] MechanismIETFToken a state show ?thesis
      unfolding vouched_reading_def by (simp only: mechanism.case simp_thms)
  next
    case MechanismXFSC
    with h have "XFSC_Check W trust credential routed = Inr rd" by (simp add: standard_handlers_def)
    from XFSC_Check_valid [OF this assms(2), unfolded same(1,2)] MechanismXFSC a state show ?thesis
      unfolding vouched_reading_def by (simp only: mechanism.case simp_thms)
  qed
  then show ?thesis by blast
qed

text \<open>
  An accepted status is vouched for.  When the verifier with the standard handlers
  accepts a credential, the credential carries references, and each was read from an answer
  of its URI (\<open>vouched_reading\<close>).  An answer read as an IETF list names that URI as its
  subject, is signed with a key resolved for the issuer it names (or verifies as a CWT under
  the URI), states no \<open>iss\<close> other than the credential's issuer, and its entry reads zero; a
  list of the XFSC service is signed and reads zero likewise.
\<close>

theorem accepted_status_is_vouched:
  assumes "VerifyStatus W (standard_handlers W trust w3c now) credential = Inr outcome" "vo_Accepted outcome"
  shows "\<exists>refs. Extract_References W credential = Inr refs \<and> refs \<noteq> [] \<and>
    (\<forall>ref\<in>set refs. \<exists>a routed rd. vouched_reading W trust w3c credential ref a routed rd)"
proof -
  obtain refs where refs: "Extract_References W credential = Inr refs"
    using assms(1) by (auto simp: VerifyStatus_def bind_res_Inr_iff)
  have ne: "refs \<noteq> []"
    using assms refs by (auto simp: VerifyStatus_def Strict_HandleMissingStatus_def)
  obtain readings where rs: "result_list (map (check_reference W (standard_handlers W trust w3c now) credential) refs)
      = Inr readings" "outcome = Strict_Evaluate readings"
    using assms(1) refs ne by (auto simp: VerifyStatus_def bind_res_Inr_iff)
  have "\<exists>a routed rd. vouched_reading W trust w3c credential ref a routed rd" if "ref \<in> set refs" for ref
  proof -
    from result_list_members [OF rs(1) that] obtain rd where rd: "rd \<in> set readings"
      "check_reference W (standard_handlers W trust w3c now) credential ref = Inr rd" by blast
    moreover have "rd_State rd \<notin> refusing_states"
      using rd(1) assms(2) rs(2) by (auto simp: Strict_Evaluate_def list_ex_iff)
    ultimately show ?thesis using check_reference_vouched by blast
  qed
  with refs ne show ?thesis by blast
qed

section \<open>A gap in the binding to the issuer\<close>

text \<open>
  A list whose token names its issuer in \<open>issuer\<close> instead of \<open>iss\<close> is verified with the key
  of that issuer, but bound to no credential: the handler reads \<open>iss\<close> only, and an empty
  issuer passes \<open>RequireCredentialIssuer\<close>.  What the handler answers then does not depend on
  whose credential is checked, so any trusted issuer can vouch for the credentials of
  every other one.
\<close>

theorem issuerless_list_is_unbound:
  assumes "rf_Prefetched ref = Some a" "ietf_claims W T ref a = Inr claims"
    and "trim_space (jstr (obj_get claims ''iss'')) = ''''"
  shows "IETFToken_Check W (Some T) now credential ref = IETFToken_Check W (Some T) now credential' ref"
  using assms by (simp add: IETFToken_Check_def fetched_def RequireCredentialIssuer_def)

end
