(* ===== verification/Status_Witnesses.thy ===== *)
theory Status_Witnesses
  imports Status_Properties
begin

text \<open>
  Concrete instances: two allocations running side by side next to an inherited entry, a
  termination delivered through the queue, and a deployment whose list is served to a
  verifier of its credentials.
\<close>

section \<open>Two allocations\<close>

lemma alloc_reach_trans: "alloc_reach s' s'' \<Longrightarrow> alloc_reach s s' \<Longrightarrow> alloc_reach s s''"
  by (induction rule: alloc_reach.induct) (auto intro: alloc_next)

text \<open>A call that runs undisturbed is one way the system can go on.\<close>

lemma alloc_reach_run:
  assumes "i < length (sys_calls s)"
    and "run_call n (ac_list (sys_calls s ! i)) (ac_subject (sys_calls s ! i)) (ac_phase (sys_calls s ! i)) (sys_tables s)
      = (ph, t)"
  shows "alloc_reach s (s\<lparr>sys_tables := t, sys_calls := (sys_calls s)[i := (sys_calls s ! i)\<lparr>ac_phase := ph\<rparr>]\<rparr>)"
  using assms
proof (induction n arbitrary: s)
  case 0
  have "c\<lparr>ac_phase := ac_phase c\<rparr> = c" for c :: alloc_call by (cases c) simp
  with 0 have "s\<lparr>sys_tables := t, sys_calls := (sys_calls s)[i := (sys_calls s ! i)\<lparr>ac_phase := ph\<rparr>]\<rparr> = s"
    by (intro alloc_system.equality) auto
  then show ?case using alloc_start by metis
next
  case (Suc n)
  let ?c = "sys_calls s ! i"
  obtain ph1 t1 where step: "call_step (ac_list ?c) (ac_subject ?c) (ac_phase ?c) (sys_tables s) = (ph1, t1)"
    by fastforce
  define s1 where "s1 = s\<lparr>sys_tables := t1, sys_calls := (sys_calls s)[i := ?c\<lparr>ac_phase := ph1\<rparr>]\<rparr>"
  have "alloc_step s s1"
    unfolding s1_def using Suc.prems(1) refl step by (rule alloc_call)
  then have one: "alloc_reach s s1" using alloc_start alloc_next by blast
  have "alloc_reach s1 (s1\<lparr>sys_tables := t, sys_calls := (sys_calls s1)[i := (sys_calls s1 ! i)\<lparr>ac_phase := ph\<rparr>]\<rparr>)"
    using Suc.prems step by (intro Suc.IH) (simp_all add: s1_def)
  with one have "alloc_reach s (s1\<lparr>sys_tables := t, sys_calls := (sys_calls s1)[i := (sys_calls s1 ! i)\<lparr>ac_phase := ph\<rparr>]\<rparr>)"
    using alloc_reach_trans by blast
  then show ?case using Suc.prems(1) by (simp add: s1_def)
qed

definition inherited_row :: entry_row where
  "inherited_row = \<lparr>er_subject = ''h'', er_list = 1, er_index = 0, er_origin = HashOrigin, er_revoked_at = None\<rparr>"

definition demo_tables :: status_tables where
  "demo_tables = \<lparr>status_entries = [inherited_row], status_cursors = [\<lparr>cu_list = 1, cu_next = 0, cu_size = 8\<rparr>],
     db_outages = []\<rparr>"

definition demo_calls :: "alloc_phase \<Rightarrow> alloc_phase \<Rightarrow> alloc_call list" where
  "demo_calls p q = [\<lparr>ac_list = 1, ac_subject = ''a'', ac_phase = p\<rparr>, \<lparr>ac_list = 1, ac_subject = ''b'', ac_phase = q\<rparr>]"

definition demo_claimed :: "string \<Rightarrow> int \<Rightarrow> entry_row" where
  "demo_claimed subj i = \<lparr>er_subject = subj, er_list = 1, er_index = i, er_origin = AllocatedOrigin, er_revoked_at = None\<rparr>"

text \<open>The first call steps over the inherited entry and takes the next one.\<close>

lemma first_call:
  "run_call 8 1 ''a'' AtEntry demo_tables = (Returned (Inr \<lparr>ListID = 1, Index = 1\<rparr>),
     \<lparr>status_entries = [inherited_row, demo_claimed ''a'' 1],
      status_cursors = [\<lparr>cu_list = 1, cu_next = 2, cu_size = 8\<rparr>], db_outages = []\<rparr>)"
  by code_simp

lemma second_call:
  "run_call 8 1 ''b'' AtEntry \<lparr>status_entries = [inherited_row, demo_claimed ''a'' 1],
      status_cursors = [\<lparr>cu_list = 1, cu_next = 2, cu_size = 8\<rparr>], db_outages = []\<rparr>
   = (Returned (Inr \<lparr>ListID = 1, Index = 2\<rparr>),
     \<lparr>status_entries = [inherited_row, demo_claimed ''a'' 1, demo_claimed ''b'' 2],
      status_cursors = [\<lparr>cu_list = 1, cu_next = 3, cu_size = 8\<rparr>], db_outages = []\<rparr>)"
  by code_simp

lemma demo_tables_ok: "tables_ok demo_tables" "\<forall>r\<in>set (status_entries demo_tables). er_origin r = HashOrigin"
  by (simp_all add: tables_ok_def rows_ok_def cursors_ok_def demo_tables_def inherited_row_def)

lemma trim_one: "trim_space ''a'' = ''a''" "trim_space ''b'' = ''b''" "trim_space ''c'' = ''c''"
  by code_simp+

lemma demo_reach:
  "alloc_reach \<lparr>sys_tables = demo_tables, sys_calls = []\<rparr>
     \<lparr>sys_tables = \<lparr>status_entries = [inherited_row, demo_claimed ''a'' 1, demo_claimed ''b'' 2],
        status_cursors = [\<lparr>cu_list = 1, cu_next = 3, cu_size = 8\<rparr>], db_outages = []\<rparr>,
      sys_calls = demo_calls (Returned (Inr \<lparr>ListID = 1, Index = 1\<rparr>)) (Returned (Inr \<lparr>ListID = 1, Index = 2\<rparr>))\<rparr>"
proof -
  let ?s0 = "\<lparr>sys_tables = demo_tables, sys_calls = []\<rparr>"
  let ?s2 = "\<lparr>sys_tables = demo_tables, sys_calls = demo_calls AtEntry AtEntry\<rparr>"
  have "alloc_step ?s0 \<lparr>sys_tables = demo_tables, sys_calls = [\<lparr>ac_list = 1, ac_subject = ''a'', ac_phase = AtEntry\<rparr>]\<rparr>"
    using alloc_arrives [of "''a''" ?s0 1] by (simp add: trim_one)
  moreover have "alloc_step \<lparr>sys_tables = demo_tables, sys_calls = [\<lparr>ac_list = 1, ac_subject = ''a'', ac_phase = AtEntry\<rparr>]\<rparr> ?s2"
    using alloc_arrives [of "''b''" "\<lparr>sys_tables = demo_tables, sys_calls = [\<lparr>ac_list = 1, ac_subject = ''a'', ac_phase = AtEntry\<rparr>]\<rparr>" 1]
    by (simp add: trim_one demo_calls_def)
  ultimately have two: "alloc_reach ?s0 ?s2" using alloc_start alloc_next by blast
  note one = alloc_reach_run [of 0 ?s2 8 "Returned (Inr \<lparr>ListID = 1, Index = 1\<rparr>)"]
  let ?t1 = "\<lparr>status_entries = [inherited_row, demo_claimed ''a'' 1],
      status_cursors = [\<lparr>cu_list = 1, cu_next = 2, cu_size = 8\<rparr>], db_outages = []\<rparr>"
  let ?s3 = "\<lparr>sys_tables = ?t1, sys_calls = demo_calls (Returned (Inr \<lparr>ListID = 1, Index = 1\<rparr>)) AtEntry\<rparr>"
  have "alloc_reach ?s2 ?s3"
    using one [of ?t1] first_call by (simp add: demo_calls_def)
  moreover have "alloc_reach ?s3 \<lparr>sys_tables = \<lparr>status_entries = [inherited_row, demo_claimed ''a'' 1, demo_claimed ''b'' 2],
        status_cursors = [\<lparr>cu_list = 1, cu_next = 3, cu_size = 8\<rparr>], db_outages = []\<rparr>,
      sys_calls = demo_calls (Returned (Inr \<lparr>ListID = 1, Index = 1\<rparr>)) (Returned (Inr \<lparr>ListID = 1, Index = 2\<rparr>))\<rparr>"
    using alloc_reach_run [of 1 ?s3 8 "Returned (Inr \<lparr>ListID = 1, Index = 2\<rparr>)"
        "\<lparr>status_entries = [inherited_row, demo_claimed ''a'' 1, demo_claimed ''b'' 2],
        status_cursors = [\<lparr>cu_list = 1, cu_next = 3, cu_size = 8\<rparr>], db_outages = []\<rparr>"] second_call
    by (simp add: demo_calls_def)
  ultimately show ?thesis using two alloc_reach_trans by blast
qed

theorem entries_are_never_shared_witness:
  "\<exists>s' e f. alloc_reach \<lparr>sys_tables = demo_tables, sys_calls = []\<rparr> s'
     \<and> sys_calls s' = demo_calls (Returned (Inr e)) (Returned (Inr f)) \<and> ListID e = ListID f \<and> e \<noteq> f"
proof -
  let ?e = "\<lparr>ListID = 1, Index = 1\<rparr> :: status_list_entry" and ?f = "\<lparr>ListID = 1, Index = 2\<rparr> :: status_list_entry"
  have "?e = ?f \<longrightarrow> entry_select ''a'' demo_tables = Some ?e"
    using entries_are_never_shared [OF demo_reach, of
      "\<lparr>ac_list = 1, ac_subject = ''a'', ac_phase = Returned (Inr ?e)\<rparr>" ?e
      "\<lparr>ac_list = 1, ac_subject = ''b'', ac_phase = Returned (Inr ?f)\<rparr>" ?f] demo_tables_ok
    by (simp add: demo_calls_def)
  moreover have "entry_select ''a'' demo_tables = None"
    by (simp add: entry_select_def demo_tables_def inherited_row_def)
  ultimately have "?e \<noteq> ?f" by auto
  then show ?thesis using demo_reach by (intro exI conjI) (assumption, simp, simp, assumption)
qed

section \<open>A delivered termination\<close>

definition demo_publisher :: status_publisher where
  "demo_publisher = \<lparr>pub_uri = Some (\<lambda>l. ''u''), pub_list = Some 1, pub_revocations = True\<rparr>"

definition demo_enqueued :: publication_db where
  "demo_enqueued = \<lparr>pd_tables = demo_tables, pd_queue = queue_Enqueue ''c'' ''TERMINATED'' '''' 0 0 []\<rparr>"

definition demo_delivered :: publication_db where
  "demo_delivered = processAvailable (Some demo_publisher) [] 1 demo_enqueued"

lemma demo_terminal: "terminal_status ''TERMINATED''"
  by code_simp

definition revoked_c :: entry_row where
  "revoked_c = \<lparr>er_subject = ''c'', er_list = 1, er_index = 1, er_origin = AllocatedOrigin, er_revoked_at = Some 1\<rparr>"

lemma demo_publish:
  "PublishStatus demo_publisher ''c'' ''TERMINATED'' 1 demo_tables =
     (Inr \<lparr>StatusListCredential = ''u'', RefIndex = 1\<rparr>,
      \<lparr>status_entries = [inherited_row, revoked_c], status_cursors = [\<lparr>cu_list = 1, cu_next = 2, cu_size = 8\<rparr>],
       db_outages = []\<rparr>)"
  by code_simp

lemma demo_delivery:
  "map (\<lambda>r. (qu_contract_did r, qu_status r, qu_published_at r)) (pd_queue demo_delivered)
     = [(''c'', ''TERMINATED'', Some 1)]"
  "status_entries (pd_tables demo_delivered) = [inherited_row, revoked_c]"
  by code_simp+

lemma demo_publication_run:
  "publication_run \<lparr>pd_tables = demo_tables, pd_queue = []\<rparr> demo_delivered"
proof -
  have "publication_step \<lparr>pd_tables = demo_tables, pd_queue = []\<rparr> demo_enqueued"
    using publication_enqueue [of "\<lparr>pd_tables = demo_tables, pd_queue = []\<rparr>" "''c''" "''TERMINATED''" "''''" 0 0]
    by (simp add: demo_enqueued_def)
  moreover have "publication_step demo_enqueued demo_delivered"
    unfolding demo_delivered_def by (rule publication_pass)
  ultimately show ?thesis using publication_start publication_more by blast
qed


section \<open>A served list and its verifier\<close>

definition served_tables :: status_tables where
  "served_tables = \<lparr>status_entries = [inherited_row, revoked_c, demo_claimed ''a'' 2],
     status_cursors = [\<lparr>cu_list = 1, cu_next = 3, cu_size = 8\<rparr>], db_outages = []\<rparr>"

definition demo_signer :: status_list_signer where
  "demo_signer = \<lparr>ls_Issuer = ''i'', ls_ListURI = Some (\<lambda>l. ''u''), ls_ListID = 1, ls_Chain = [''x''],
     ls_Signer = Some (\<lambda>m. Some []), ls_Revocations = True, ls_Size = 8\<rparr>"

definition demo_serve :: serve_env where
  "demo_serve = \<lparr>sv_marshal = (\<lambda>j. ''j''), sv_deflate = (\<lambda>b. 0x78 # 0 # b)\<rparr>"

definition demo_token :: string where
  "demo_token = b64_encode (text_bytes ''j'') @ ''.'' @ b64_encode (text_bytes ''j'') @ ''.''"

definition demo_claims :: "32 word \<Rightarrow> json_map" where
  "demo_claims i = [(''issuer'', JStr ''i''), (''credentialStatus'',
     JObj (the (buildCredentialStatus \<lparr>StatusListCredential = ''u'', RefIndex = i\<rparr>)))]"

definition demo_verifier :: "(json_map \<times> json_map) \<Rightarrow> string \<Rightarrow> verify_env" where
  "demo_verifier jwt signer_name = \<lparr>
     vf_fetch = (\<lambda>accept ctype uri. Some \<lparr>la_Body = demo_token, la_ContentType = ''application/statuslist+jwt''\<rparr>),
     vf_json = (\<lambda>v. Some (JObj (demo_claims (if v = ''c'' then 1 else 2)))),
     vf_float = (\<lambda>lit. 1), vf_jwt = (\<lambda>token. Some jwt), vf_signed = (\<lambda>k token. True),
     vf_leaf = (\<lambda>chain. Some \<lparr>lf_URIs = [signer_name], lf_DNSNames = [], lf_CommonName = '''',
        lf_digital_signature = Some True, lf_ExtKeyUsage_tls = [], lf_key = LeafECDSA (1, 1)\<rparr>),
     vf_cwt = (\<lambda>body uri. None), vf_cwt_list = (\<lambda>l. None), vf_zlib = (\<lambda>b. Some (drop 2 b)),
     vf_gzip = (\<lambda>b. None), vf_b64 = (\<lambda>v. None), vf_url = (\<lambda>v. None), vf_list_uri = (\<lambda>v. None)\<rparr>"

abbreviation demo_verify :: verify_env where
  "demo_verify \<equiv> demo_verifier (token_header demo_signer, token_payload demo_serve demo_signer (\<lambda>l. ''u'') 0 [2]) ''i''"

definition demo_trust :: list_trust where
  "demo_trust = \<lparr>lt_issuers = [], lt_roots = True\<rparr>"

lemma served_tables_ok: "tables_ok served_tables"
  by (auto simp: tables_ok_def rows_ok_def cursors_ok_def served_tables_def inherited_row_def revoked_c_def
      demo_claimed_def row_at_def)

lemma served_chosen:
  "chosen_entry ''c'' \<lparr>ListID = 1, Index = 1\<rparr> served_tables" "chosen_entry ''a'' \<lparr>ListID = 1, Index = 2\<rparr> served_tables"
  "revoked_subject ''c'' served_tables" "\<not> revoked_subject ''a'' served_tables"
  by (simp_all add: chosen_entry_def served_tables_def revoked_subject_def inherited_row_def revoked_c_def
      demo_claimed_def row_entry_def)

lemma served_bits: "status_bitstring demo_signer served_tables = (Inr [2], served_tables)"
  by code_simp

lemma served_token: "StatusList_Token demo_serve demo_signer 0 served_tables = (Inr demo_token, served_tables)"
proof -
  have "trim_space ''i'' \<noteq> ''''" "b64_encode [] = ''''" by code_simp+
  then show ?thesis
    using served_bits
    by (simp add: StatusList_Token_def demo_signer_def demo_serve_def demo_token_def Let_def)
qed

lemma demo_list_key: "list_key demo_verify demo_trust (token_header demo_signer) (trim_space (ls_Issuer demo_signer)) = Some (1, 1)"
  by code_simp

lemma demo_list_issuer: "RequireCredentialIssuer (demo_verifier jwt n) (demo_claims i) (ls_Issuer demo_signer)"
proof -
  have i: "trim_space ''i'' = ''i''" "trim_space '''' = ''''" by code_simp+
  show ?thesis
    by (simp add: RequireCredentialIssuer_def CredentialIssuer_def demo_claims_def demo_signer_def obj_get_def
        sameIssuerIdentity_def i Let_def)
qed

lemma demo_unzip: "ZLIBDecompressLimited (demo_verifier jwt n) (sv_deflate demo_serve [2]) = Some [2]"
  by (simp add: ZLIBDecompressLimited_def demo_verifier_def demo_serve_def read_limited_def maxDecompressedBytes_def)

lemma demo_status:
  "obj_get (demo_claims i) ''credentialStatus''
     = map_option JObj (buildCredentialStatus \<lparr>StatusListCredential = ''u'', RefIndex = i\<rparr>)"
  "obj_get (demo_claims i) ''status'' = None"
  by (simp_all add: demo_claims_def obj_get_def buildCredentialStatus_def)

lemma demo_uri: "trim_space ''u'' = ''u''"
  by code_simp

lemma demo_verifier_simps [simp]:
  "vf_fetch (demo_verifier jwt n) accept ctype uri = Some \<lparr>la_Body = demo_token, la_ContentType = ''application/statuslist+jwt''\<rparr>"
  "vf_json (demo_verifier jwt n) v = Some (JObj (demo_claims (if v = ''c'' then 1 else 2)))"
  "vf_float (demo_verifier jwt n) lit = 1" "vf_jwt (demo_verifier jwt n) token = Some jwt"
  "vf_signed (demo_verifier jwt n) k token"
  by (simp_all add: demo_verifier_def)

lemma demo_signer_simps [simp]:
  "ls_ListID demo_signer = 1" "ls_ListURI demo_signer = Some (\<lambda>l. ''u'')" "served_size demo_signer = 8"
  by (simp_all add: demo_signer_def served_size_def)

text \<open>No list of the W3C kind is involved; the handler refuses them all.\<close>

definition no_w3c :: list_handler where
  "no_w3c = (\<lambda>_ _. Inl ErrStatusDecoding)"


lemma demo_accepted:
  "VerifyStatus demo_verify (standard_handlers demo_verify (Some demo_trust) w3c 0) (demo_claims 2)
     = Inr (Strict_Evaluate [MapIETFResult (own_reference ''u'' \<lparr>ListID = 1, Index = 2\<rparr> demo_token) 0])"
  using own_list_verified [OF served_tables_ok served_chosen(2) _ served_token served_bits, of "\<lambda>l. ''u''"
      "demo_claims 2" demo_verify demo_trust "(1, 1)" w3c 0]
    served_chosen(4) demo_list_key demo_list_issuer demo_unzip demo_status demo_uri
  by simp

theorem accepted_status_is_vouched_witness:
  "\<exists>ref a routed rd. vouched_reading demo_verify (Some demo_trust) no_w3c (demo_claims 2) ref a routed rd"
proof -
  have "vo_Accepted (Strict_Evaluate [MapIETFResult (own_reference ''u'' \<lparr>ListID = 1, Index = 2\<rparr> demo_token) 0])"
    by (simp add: Strict_Evaluate_def MapIETFResult_def MapIETFState_def refusing_states_def)
  from accepted_status_is_vouched [OF demo_accepted this] show ?thesis
    by (metis list.set_intros(1) neq_Nil_conv)
qed

section \<open>A list that vouches for the credentials of others\<close>

text \<open>
  The credential is of issuer \<open>i\<close>; the token names \<open>m\<close> in \<open>issuer\<close>, has no \<open>iss\<close>, and is signed
  with a key of \<open>m\<close>.  Contract \<open>c\<close> is revoked in its own list, and this one reports it active.
\<close>

definition zero_list :: bytes where
  "zero_list = [0x78, 0, 0]"

definition foreign_payload :: json_map where
  "foreign_payload = [(''issuer'', JStr ''m''), (''sub'', JStr ''u''),
     (''status_list'', JObj [(''bits'', JNum ''1''), (''lst'', JStr (b64_encode zero_list))])]"

abbreviation foreign_verify :: verify_env where
  "foreign_verify \<equiv> demo_verifier (token_header demo_signer, foreign_payload) ''m''"

lemma foreign_signed: "VerifyES256JWT foreign_verify demo_trust demo_token = Some (token_header demo_signer, foreign_payload)"
proof -
  have "list_key foreign_verify demo_trust (token_header demo_signer) ''m'' = Some (1, 1)" "tokenIssuer foreign_payload = ''m''"
    by code_simp+
  then show ?thesis by (simp add: VerifyES256JWT_def)
qed

lemma foreign_check:
  "IETFToken_Check foreign_verify (Some demo_trust) 0 (demo_claims 1) (own_reference ''u'' \<lparr>ListID = 1, Index = 1\<rparr> demo_token)
     = Inr (MapIETFResult (own_reference ''u'' \<lparr>ListID = 1, Index = 1\<rparr> demo_token) 0)"
proof -
  have read: "ReadStatusValue [0] 1 1 LSBFirst = Inr 0" by code_simp
  have unzip: "ZLIBDecompressLimited (demo_verifier jwt n) zero_list = Some [0]" for jwt n
    by (simp add: zero_list_def ZLIBDecompressLimited_def demo_verifier_def read_limited_def maxDecompressedBytes_def)
  have claims: "obj_get foreign_payload ''iss'' = None" "obj_get foreign_payload ''sub'' = Some (JStr ''u'')"
    "obj_get foreign_payload ''exp'' = None" "obj_get foreign_payload ''nbf'' = None"
    "obj_get foreign_payload ''status_list'' = Some (JObj [(''bits'', JNum ''1''), (''lst'', JStr (b64_encode zero_list))])"
    by (simp_all add: foreign_payload_def obj_get_def)
  have "trim_space '''' = ''''" by code_simp
  then have "RequireCredentialIssuer foreign_verify (demo_claims 1) ''''" by (simp add: RequireCredentialIssuer_def)
  moreover have "ietf_claims foreign_verify demo_trust (own_reference ''u'' \<lparr>ListID = 1, Index = 1\<rparr> demo_token)
      \<lparr>la_Body = demo_token, la_ContentType = ''application/statuslist+jwt''\<rparr> = Inr foreign_payload"
    using foreign_signed by (simp add: ietf_claims_def list_media_type header_typ Let_def)
  ultimately show ?thesis
    using read unzip claims
    by (simp add: IETFToken_Check_def fetched_def own_reference_def validateTimeClaims_def time_claim_def
        ParseTokenStatusBits_def decodeIETFList_def list_media_type obj_get_def [of "[_, _]"] codec_result_def)
qed

theorem foreign_list_unrevokes:
  "CredentialStatus_State foreign_verify (Some (standard_handlers foreign_verify (Some demo_trust) w3c 0)) ''c'' = Some StatusActive
   \<and> CredentialIssuer (demo_claims 1) = ''i'' \<and> tokenIssuer foreign_payload = ''m''"
proof -
  let ?rf = "own_reference ''u'' \<lparr>ListID = 1, Index = 1\<rparr> demo_token"
  have refs: "Extract_References foreign_verify (demo_claims 1) = Inr [?rf\<lparr>rf_Prefetched := None\<rparr>]"
    using issued_reference [OF demo_status(1,2), of 1 foreign_verify] demo_uri by (simp add: own_reference_def)
  have "\<not> IsXFSCStatusListJSON foreign_verify demo_token"
    using token_is_no_json [OF served_token] trim_space_idem [of demo_token]
    by (simp add: IsXFSCStatusListJSON_def Let_def LooksLikeJSON_def)
  then have "routeReference foreign_verify (?rf\<lparr>rf_Prefetched := None\<rparr>) = Inr ?rf"
    by (simp add: routeReference_def SelectMechanismFromResponse_def IsIETFStatusListResponse_def list_media_type
        own_reference_def)
  moreover have "rf_Mechanism ?rf = MechanismIETFToken" by (simp add: own_reference_def)
  ultimately have "VerifyStatus foreign_verify (standard_handlers foreign_verify (Some demo_trust) w3c 0) (demo_claims 1)
      = Inr (Strict_Evaluate [MapIETFResult ?rf 0])"
    using refs foreign_check by (simp add: VerifyStatus_def check_reference_def standard_handlers_def)
  then have "CredentialStatus_State foreign_verify (Some (standard_handlers foreign_verify (Some demo_trust) w3c 0)) ''c''
      = Some StatusActive"
    by (simp add: CredentialStatus_State_def decode_map_def Strict_Evaluate_def MapIETFResult_def MapIETFState_def)
  moreover have "CredentialIssuer (demo_claims 1) = ''i''" "tokenIssuer foreign_payload = ''m''" by code_simp+
  ultimately show ?thesis by blast
qed

end
