(* ===== verification/Key_Store.thy ===== *)
theory Key_Store
  imports Envelope
begin

text \<open>
  Content-encryption keys at rest: the repository of wrapped keys
  (\<open>base/artifactstore/cekrepo.go\<close>), the store with its cache of plaintext keys
  (\<open>artifactstore.go\<close>) and the audited shredder (\<open>dcstodcs/eraser.go\<close>).  Every
  operation is first a function of the state; then the parts of it that other
  goroutines can run between are the steps of a relation, so that what holds of the
  repository and of the cache is proved for every interleaving.  The fresh key, the
  ephemeral key and the nonce an operation draws are its argument \<open>draws\<close>.
\<close>

section \<open>Scopes and records\<close>

record scope =
  sc_kind :: string
  sc_id :: string

definition ContractScope :: "string \<Rightarrow> scope" where
  "ContractScope iri = \<lparr>sc_kind = ''contract'', sc_id = iri\<rparr>"

definition TemplateScope :: "string \<Rightarrow> scope" where
  "TemplateScope iri = \<lparr>sc_kind = ''template'', sc_id = iri\<rparr>"

definition AAD :: "scope \<Rightarrow> string" where
  "AAD s = sc_kind s @ '':'' @ sc_id s"

record cek_record =
  rec_scope :: scope
  rec_recipient :: string
  rec_wrapped :: wrapped_cek
  rec_created_at :: int
  rec_shredded :: "(int \<times> string \<times> string) option"

type_synonym cek_repo = "cek_record list"

definition live :: "cek_record \<Rightarrow> bool" where
  "live r = (rec_shredded r = None)"

text \<open>The newest record of a list, the first one among equals.\<close>

definition newest_record :: "cek_record list \<Rightarrow> cek_record option" where
  "newest_record rs =
    (case rs of [] \<Rightarrow> None
     | r # rs \<Rightarrow> Some (fold (\<lambda>x best. if rec_created_at best < rec_created_at x then x else best) rs r))"

definition Fetch :: "scope \<Rightarrow> string \<Rightarrow> cek_repo \<Rightarrow> cek_record option" where
  "Fetch sc recipient repo =
    (let rows = filter (\<lambda>r. rec_scope r = sc \<and> rec_recipient r = recipient) repo
     in case newest_record (filter live rows) of
          Some r \<Rightarrow> Some r
        | None \<Rightarrow> newest_record rows)"

definition scope_shredded :: "scope \<Rightarrow> cek_repo \<Rightarrow> bool" where
  "scope_shredded sc repo = list_ex (\<lambda>r. rec_scope r = sc \<and> \<not> live r) repo"

definition Insert :: "int \<Rightarrow> scope \<Rightarrow> string \<Rightarrow> wrapped_cek \<Rightarrow> cek_repo \<Rightarrow> bool \<times> cek_repo" where
  "Insert now sc recipient wrapped repo =
    (if scope_shredded sc repo then (False, repo)
     else if list_ex (\<lambda>r. rec_scope r = sc \<and> rec_recipient r = recipient \<and> live r) repo then (False, repo)
     else (True, repo @ [\<lparr>rec_scope = sc, rec_recipient = recipient, rec_wrapped = wrapped,
             rec_created_at = now, rec_shredded = None\<rparr>]))"

definition shred_record :: "int \<Rightarrow> scope \<Rightarrow> string \<Rightarrow> string \<Rightarrow> cek_record \<Rightarrow> cek_record" where
  "shred_record now sc shreddedBy reason r =
    (if rec_scope r = sc \<and> live r then r\<lparr>rec_shredded := Some (now, shreddedBy, reason)\<rparr> else r)"

definition ShredTx :: "int \<Rightarrow> scope \<Rightarrow> string \<Rightarrow> string \<Rightarrow> cek_repo \<Rightarrow> int \<times> cek_repo" where
  "ShredTx now sc shreddedBy reason repo =
    (int (length (filter (\<lambda>r. rec_scope r = sc \<and> live r) repo)),
     map (shred_record now sc shreddedBy reason) repo)"

section \<open>The store\<close>

record key_store =
  ks_repo :: cek_repo
  ks_cache :: "scope \<Rightarrow> bytes option"
  ks_order :: "scope list"

record key_owner =
  own_did :: string
  own_method :: string
  own_point :: "point option"
  own_agreement :: "point \<Rightarrow> bytes option"

record draws =
  d_now :: int
  d_cek :: bytes
  d_eph :: int
  d_nonce :: bytes

datatype key_error =
    Shredded scope | NoKey scope | VanishedAfterConflict scope | EnvelopeFailed envelope_error
  | NotOurs | Tampered scope string | NoSuchObject string

definition lift_env :: "(envelope_error, 'a) result \<Rightarrow> (key_error, 'a) result" where
  "lift_env m = (case m of Inl x \<Rightarrow> Inl (EnvelopeFailed x) | Inr x \<Rightarrow> Inr x)"

definition cekCacheLimit :: nat where
  "cekCacheLimit = 256"

definition InstanceScope :: "key_owner \<Rightarrow> scope" where
  "InstanceScope o' = \<lparr>sc_kind = ''instance'', sc_id = own_did o'\<rparr>"

definition cached :: "scope \<Rightarrow> key_store \<Rightarrow> bytes option" where
  "cached sc st = ks_cache st sc"

definition remember :: "scope \<Rightarrow> bytes \<Rightarrow> key_store \<Rightarrow> key_store" where
  "remember sc cek st =
    (if ks_cache st sc \<noteq> None then st\<lparr>ks_cache := (ks_cache st)(sc \<mapsto> cek)\<rparr>
     else (let evicted = (if length (ks_order st) \<ge> cekCacheLimit
                          then st\<lparr>ks_order := tl (ks_order st), ks_cache := (ks_cache st)(hd (ks_order st) := None)\<rparr>
                          else st)
           in evicted\<lparr>ks_cache := (ks_cache evicted)(sc \<mapsto> cek), ks_order := ks_order evicted @ [sc]\<rparr>))"

definition Forget :: "scope \<Rightarrow> key_store \<Rightarrow> key_store" where
  "Forget sc st =
    (if ks_cache st sc = None then st
     else st\<lparr>ks_cache := (ks_cache st)(sc := None), ks_order := remove1 sc (ks_order st)\<rparr>)"

text \<open>\<open>createCEK\<close>: \<open>None\<close> is the insert conflict.\<close>

definition createCEK ::
  "crypto \<Rightarrow> key_owner \<Rightarrow> draws \<Rightarrow> scope \<Rightarrow> key_store \<Rightarrow> (key_error, bytes option \<times> key_store) result" where
  "createCEK C o' d sc st =
    bind_res (lift_env (Wrap C (d_eph d) (d_cek d) (own_method o') (own_point o'))) (\<lambda>wrapped.
      (case Insert (d_now d) sc (own_did o') wrapped (ks_repo st) of
         (False, _) \<Rightarrow> Inr (None, st)
       | (True, repo) \<Rightarrow> Inr (Some (d_cek d), remember sc (d_cek d) (st\<lparr>ks_repo := repo\<rparr>))))"

definition open_record ::
  "crypto \<Rightarrow> key_owner \<Rightarrow> scope \<Rightarrow> cek_record \<Rightarrow> key_store \<Rightarrow> (key_error, bytes \<times> key_store) result" where
  "open_record C o' sc r st =
    (if \<not> live r then Inl (Shredded sc)
     else bind_res (lift_env (Unwrap C (own_agreement o') (Some (rec_wrapped r)))) (\<lambda>cek.
       Inr (cek, remember sc cek st)))"

definition cek :: "crypto \<Rightarrow> key_owner \<Rightarrow> draws \<Rightarrow> scope \<Rightarrow> bool \<Rightarrow> key_store
     \<Rightarrow> (key_error, bytes \<times> key_store) result" where
  "cek C o' d sc create st =
    (case cached sc st of
       Some k \<Rightarrow> Inr (k, st)
     | None \<Rightarrow>
         (case Fetch sc (own_did o') (ks_repo st) of
            Some r \<Rightarrow> open_record C o' sc r st
          | None \<Rightarrow>
              if \<not> create then Inl (NoKey sc)
              else bind_res (createCEK C o' d sc st) (\<lambda>(k, st').
                (case k of
                   Some k \<Rightarrow> Inr (k, st')
                 | None \<Rightarrow>
                     (case Fetch sc (own_did o') (ks_repo st') of
                        None \<Rightarrow> Inl (VanishedAfterConflict sc)
                      | Some r \<Rightarrow> open_record C o' sc r st')))))"

definition store_Encrypt :: "crypto \<Rightarrow> key_owner \<Rightarrow> draws \<Rightarrow> scope \<Rightarrow> bytes \<Rightarrow> key_store
     \<Rightarrow> (key_error, bytes \<times> key_store) result" where
  "store_Encrypt C o' d sc plaintext st =
    bind_res (cek C o' d sc True st) (\<lambda>(k, st').
    bind_res (lift_env (Encrypt C (d_nonce d) k plaintext (AAD sc))) (\<lambda>blob. Inr (blob, st')))"

definition store_Decrypt :: "crypto \<Rightarrow> key_owner \<Rightarrow> draws \<Rightarrow> scope \<Rightarrow> bytes \<Rightarrow> key_store
     \<Rightarrow> (key_error, bytes \<times> key_store) result" where
  "store_Decrypt C o' d sc blob st =
    bind_res (cek C o' d sc False st) (\<lambda>(k, st').
    bind_res (lift_env (Decrypt C k blob (AAD sc))) (\<lambda>plaintext. Inr (plaintext, st')))"

text \<open>
  \<open>Put\<close> and \<open>Get\<close> over an object store: the identifier the object store answers with is
  an argument of \<open>Put\<close>, its contents are a map.
\<close>

definition Put :: "crypto \<Rightarrow> key_owner \<Rightarrow> draws \<Rightarrow> scope \<Rightarrow> bytes \<Rightarrow> string option
     \<Rightarrow> key_store \<times> (string \<Rightarrow> bytes option) \<Rightarrow> (key_error, string \<times> key_store \<times> (string \<Rightarrow> bytes option)) result" where
  "Put C o' d sc plaintext answer s =
    bind_res (store_Encrypt C o' d sc plaintext (fst s)) (\<lambda>(blob, st').
      (case answer of
         Some cid \<Rightarrow> if cid = '''' then Inl (NoSuchObject '''') else Inr (cid, st', (snd s)(cid \<mapsto> blob))
       | None \<Rightarrow> Inl (NoSuchObject '''')))"

definition Get :: "crypto \<Rightarrow> key_owner \<Rightarrow> draws \<Rightarrow> scope \<Rightarrow> string
     \<Rightarrow> key_store \<times> (string \<Rightarrow> bytes option) \<Rightarrow> (key_error, bytes \<times> key_store) result" where
  "Get C o' d sc cid s =
    bind_res (cek C o' d sc False (fst s)) (\<lambda>(k, st').
      (case snd s cid of
         None \<Rightarrow> Inl (NoSuchObject cid)
       | Some blob \<Rightarrow>
           (case Decrypt C k blob (AAD sc) of
              Inl _ \<Rightarrow> Inl (Tampered sc cid)
            | Inr plaintext \<Rightarrow> Inr (plaintext, st'))))"

section \<open>Sharing with a peer\<close>

definition ownRecipient :: "key_owner \<Rightarrow> wrapped_cek option \<Rightarrow> bool" where
  "ownRecipient o' wrapped =
    (case wrapped of
       None \<Rightarrow> False
     | Some w \<Rightarrow>
         (let kid = trim_space (wc_kid w);
              kid' = (if has_prefix kid ''#'' then own_did o' @ kid else kid)
          in kid \<noteq> '''' \<and> kid' = own_method o'))"

definition WrapForPeer :: "crypto \<Rightarrow> key_owner \<Rightarrow> draws \<Rightarrow> scope \<Rightarrow> string \<Rightarrow> string \<Rightarrow> point option \<Rightarrow> key_store
     \<Rightarrow> (key_error, wrapped_cek \<times> key_store) result" where
  "WrapForPeer C o' d sc peerDID peerMethod peerPub st =
    bind_res (cek C o' d sc False st) (\<lambda>(k, st').
    bind_res (lift_env (Wrap C (d_eph d) k peerMethod peerPub)) (\<lambda>wrapped.
      Inr (wrapped, st'\<lparr>ks_repo := snd (Insert (d_now d) sc peerDID wrapped (ks_repo st'))\<rparr>)))"

definition AdoptPeerCEK :: "crypto \<Rightarrow> key_owner \<Rightarrow> draws \<Rightarrow> scope \<Rightarrow> wrapped_cek option \<Rightarrow> key_store
     \<Rightarrow> (key_error, key_store) result" where
  "AdoptPeerCEK C o' d sc wrapped st =
    require (ownRecipient o' wrapped) NotOurs
    (case Fetch sc (own_did o') (ks_repo st) of
       Some r \<Rightarrow> if live r then Inr st else Inl (Shredded sc)
     | None \<Rightarrow>
         bind_res (lift_env (Unwrap C (own_agreement o') wrapped)) (\<lambda>k.
         bind_res (lift_env (Wrap C (d_eph d) k (own_method o') (own_point o'))) (\<lambda>rewrapped.
           (case Insert (d_now d) sc (own_did o') rewrapped (ks_repo st) of
              (True, repo) \<Rightarrow> Inr (remember sc k (st\<lparr>ks_repo := repo\<rparr>))
            | (False, _) \<Rightarrow>
                (case Fetch sc (own_did o') (ks_repo st) of
                   Some r \<Rightarrow> if live r then Inr st else Inl (Shredded sc)
                 | None \<Rightarrow> Inr st)))))"

section \<open>Shredding\<close>

text \<open>
  The audited shredder: the number of records it destroyed, whether it leaves the
  destruction event, and the store after the cached key is dropped.
\<close>

definition Shred :: "int \<Rightarrow> string \<Rightarrow> string \<Rightarrow> string \<Rightarrow> key_store \<Rightarrow> int \<times> bool \<times> key_store" where
  "Shred now contractIRI actor reason st =
    (let sc = ContractScope contractIRI;
         (affected, repo) = ShredTx now sc actor reason (ks_repo st)
     in (affected, affected > 0, Forget sc (st\<lparr>ks_repo := repo\<rparr>)))"

section \<open>The repository\<close>

definition has_live :: "scope \<Rightarrow> cek_repo \<Rightarrow> bool" where
  "has_live sc repo = list_ex (\<lambda>r. rec_scope r = sc \<and> live r) repo"

definition repo_ok :: "cek_repo \<Rightarrow> bool" where
  "repo_ok repo =
    ((\<forall>sc. \<not> (scope_shredded sc repo \<and> has_live sc repo))
     \<and> distinct (map (\<lambda>r. (rec_scope r, rec_recipient r)) (filter live repo)))"

lemma newest_in: "newest_record rs = Some r \<Longrightarrow> r \<in> set rs"
proof -
  have "fold (\<lambda>x best. if rec_created_at best < rec_created_at x then x else best) xs b \<in> insert b (set xs)" for xs b
    by (induction xs arbitrary: b) auto
  then show "newest_record rs = Some r \<Longrightarrow> r \<in> set rs"
    by (cases rs) (auto simp: newest_record_def)
qed

lemma newest_None [simp]: "newest_record rs = None \<longleftrightarrow> rs = []"
  by (cases rs) (simp_all add: newest_record_def)

lemma newest_single [simp]: "newest_record [r] = Some r" "newest_record [] = None"
  by (simp_all add: newest_record_def)

lemma Fetch_in:
  assumes "Fetch sc recipient repo = Some r"
  shows "r \<in> set repo" "rec_scope r = sc" "rec_recipient r = recipient"
  using assms by (auto simp: Fetch_def Let_def dest!: newest_in split: option.split_asm)

lemma Fetch_live:
  assumes "r \<in> set repo" "rec_scope r = sc" "rec_recipient r = recipient" "live r"
    and "distinct (map (\<lambda>r. (rec_scope r, rec_recipient r)) (filter live repo))"
  shows "Fetch sc recipient repo = Some r"
proof -
  let ?rows = "filter live (filter (\<lambda>r. rec_scope r = sc \<and> rec_recipient r = recipient) repo)"
  have r: "r \<in> set ?rows" using assms(1-4) by simp
  then have "?rows \<noteq> []" by (metis empty_iff empty_set)
  then obtain x where x: "newest_record ?rows = Some x" using newest_None by (meson option.exhaust)
  have "x \<in> set (filter live repo)" "r \<in> set (filter live repo)"
    "(rec_scope x, rec_recipient x) = (rec_scope r, rec_recipient r)"
    using newest_in [OF x] r assms(2,3) by auto
  then have "x = r" using assms(5) unfolding distinct_map by (meson inj_onD)
  with x show ?thesis by (simp add: Fetch_def)
qed

lemma Fetch_None: "Fetch sc recipient repo = None \<longleftrightarrow> (\<forall>r\<in>set repo. \<not> (rec_scope r = sc \<and> rec_recipient r = recipient))"
proof -
  have g: "(case newest_record (filter live rows) of Some r \<Rightarrow> Some r | None \<Rightarrow> newest_record rows) = None
      \<longleftrightarrow> rows = []" for rows
    by (cases "newest_record (filter live rows)") (auto dest: newest_in)
  show ?thesis unfolding Fetch_def Let_def g by (simp add: filter_empty_conv)
qed

lemma Insert_True:
  assumes "Insert now sc recipient w repo = (True, repo')"
  shows "repo' = repo @ [\<lparr>rec_scope = sc, rec_recipient = recipient, rec_wrapped = w,
             rec_created_at = now, rec_shredded = None\<rparr>]"
    and "\<not> scope_shredded sc repo"
    and "\<not> list_ex (\<lambda>r. rec_scope r = sc \<and> rec_recipient r = recipient \<and> live r) repo"
  using assms by (auto simp: Insert_def split: if_split_asm)

lemma Insert_False: "Insert now sc recipient w repo = (False, repo') \<Longrightarrow> repo' = repo"
  by (auto simp: Insert_def split: if_split_asm)

lemma Insert_keeps_ok:
  assumes "repo_ok repo" "Insert now sc recipient w repo = (b, repo')"
  shows "repo_ok repo'"
proof (cases b)
  case True
  then have "Insert now sc recipient w repo = (True, repo')" using assms(2) by simp
  note I = Insert_True [OF this]
  have "(sc, recipient) \<notin> set (map (\<lambda>r. (rec_scope r, rec_recipient r)) (filter live repo))"
    using I(3) by (auto simp: list_ex_iff)
  moreover have "scope_shredded x repo' = scope_shredded x repo" "has_live x repo' \<longleftrightarrow> has_live x repo \<or> x = sc" for x
    by (auto simp: I(1) scope_shredded_def has_live_def live_def)
  ultimately show ?thesis
    using assms(1) I(2) by (auto simp: repo_ok_def I(1) live_def)
next
  case False
  with assms Insert_False [of now sc recipient w repo repo'] show ?thesis by simp
qed

lemma shred_record_fields [simp]:
  "rec_scope (shred_record now sc b reason r) = rec_scope r"
  "rec_recipient (shred_record now sc b reason r) = rec_recipient r"
  "live (shred_record now sc b reason r) \<longleftrightarrow> live r \<and> rec_scope r \<noteq> sc"
  by (auto simp: shred_record_def live_def)

lemma shred_keys:
  "map (\<lambda>r. (rec_scope r, rec_recipient r)) (filter live (map (shred_record now sc b reason) repo))
   = filter (\<lambda>k. fst k \<noteq> sc) (map (\<lambda>r. (rec_scope r, rec_recipient r)) (filter live repo))"
  by (induction repo) auto

text \<open>After a shred no record of the scope is live; other scopes are as before.\<close>

lemma Shred_status:
  "has_live x (snd (ShredTx now sc b reason repo)) \<longleftrightarrow> has_live x repo \<and> x \<noteq> sc"
  "scope_shredded x (snd (ShredTx now sc b reason repo)) \<longleftrightarrow> scope_shredded x repo \<or> x = sc \<and> has_live sc repo"
  unfolding ShredTx_def snd_conv by (induction repo) (auto simp: has_live_def scope_shredded_def)

lemma Shred_keeps_ok:
  assumes "repo_ok repo"
  shows "repo_ok (snd (ShredTx now sc b reason repo))"
proof -
  have "distinct (map (\<lambda>r. (rec_scope r, rec_recipient r)) (filter live (snd (ShredTx now sc b reason repo))))"
    using assms unfolding repo_ok_def ShredTx_def snd_conv shred_keys by (simp add: distinct_filter)
  then show ?thesis using assms by (auto simp: repo_ok_def Shred_status)
qed

section \<open>Interleavings\<close>

text \<open>
  The store with the keys in flight: a goroutine that has read a live record or
  inserted a new one holds the plaintext key before it puts it into the cache.
\<close>

record key_world =
  kw_store :: key_store
  kw_flight :: "(scope \<times> bytes) list"

inductive ks_step :: "crypto \<Rightarrow> key_owner \<Rightarrow> key_world \<Rightarrow> key_world \<Rightarrow> bool" for C o' where
  fetch: "Fetch sc (own_did o') (ks_repo (kw_store s)) = Some r \<Longrightarrow> live r
     \<Longrightarrow> Unwrap C (own_agreement o') (Some (rec_wrapped r)) = Inr k
     \<Longrightarrow> ks_step C o' s (s\<lparr>kw_flight := (sc, k) # kw_flight s\<rparr>)"
| insert_own: "Insert now sc (own_did o') w (ks_repo (kw_store s)) = (True, repo)
     \<Longrightarrow> ks_step C o' s (s\<lparr>kw_store := (kw_store s)\<lparr>ks_repo := repo\<rparr>, kw_flight := (sc, k) # kw_flight s\<rparr>)"
| insert_peer: "Insert now sc peer w (ks_repo (kw_store s)) = (b, repo)
     \<Longrightarrow> ks_step C o' s (s\<lparr>kw_store := (kw_store s)\<lparr>ks_repo := repo\<rparr>\<rparr>)"
| cache: "(sc, k) \<in> set (kw_flight s)
     \<Longrightarrow> ks_step C o' s (s\<lparr>kw_store := remember sc k (kw_store s), kw_flight := remove1 (sc, k) (kw_flight s)\<rparr>)"
| shred: "ks_step C o' s (s\<lparr>kw_store := (kw_store s)\<lparr>ks_repo := snd (ShredTx now sc actor reason (ks_repo (kw_store s)))\<rparr>\<rparr>)"
| forget: "ks_step C o' s (s\<lparr>kw_store := Forget sc (kw_store s)\<rparr>)"

abbreviation ks_steps :: "crypto \<Rightarrow> key_owner \<Rightarrow> key_world \<Rightarrow> key_world \<Rightarrow> bool" where
  "ks_steps C o' \<equiv> (ks_step C o')\<^sup>*\<^sup>*"

lemma repo_remember [simp]: "ks_repo (remember sc k st) = ks_repo st"
  by (simp add: remember_def Let_def)

lemma repo_Forget [simp]: "ks_repo (Forget sc st) = ks_repo st"
  by (simp add: Forget_def)

lemma cache_remember:
  "ks_cache (remember sc k st) sc = Some k"
  "x \<noteq> sc \<Longrightarrow> ks_cache (remember sc k st) x = Some k' \<Longrightarrow> ks_cache st x = Some k'"
  by (auto simp: remember_def Let_def split: if_split_asm)

lemma cache_Forget [simp]: "ks_cache (Forget sc st) x = (if x = sc then None else ks_cache st x)"
  by (simp add: Forget_def)

lemma step_keeps_repo_ok: "ks_step C o' s s' \<Longrightarrow> repo_ok (ks_repo (kw_store s)) \<Longrightarrow> repo_ok (ks_repo (kw_store s'))"
  by (induction rule: ks_step.induct) (auto intro: Insert_keeps_ok Shred_keeps_ok)

lemma Insert_shredded:
  assumes "Insert now sc recipient w repo = (b, repo')"
  shows "scope_shredded x repo \<Longrightarrow> scope_shredded x repo'"
    and "scope_shredded x repo \<Longrightarrow> \<not> has_live x repo \<Longrightarrow> \<not> has_live x repo'"
  using assms by (auto simp: Insert_def scope_shredded_def has_live_def live_def split: if_split_asm)

lemma step_keeps_shredded:
  assumes "ks_step C o' s s'" "scope_shredded x (ks_repo (kw_store s))" "\<not> has_live x (ks_repo (kw_store s))"
  shows "scope_shredded x (ks_repo (kw_store s')) \<and> \<not> has_live x (ks_repo (kw_store s'))"
  using assms
proof (induction rule: ks_step.induct)
  case (insert_own now sc w s repo k)
  with Insert_shredded [OF insert_own(1), of x] show ?case by simp
next
  case (insert_peer now sc peer w s b repo)
  with Insert_shredded [OF insert_peer(1), of x] show ?case by simp
next
  case (shred s now sc actor reason)
  then show ?case by (simp add: Shred_status)
qed simp_all

text \<open>A shredded scope of which neither the cache nor a goroutine holds the key.\<close>

definition erased :: "scope \<Rightarrow> key_world \<Rightarrow> bool" where
  "erased sc s =
    (scope_shredded sc (ks_repo (kw_store s)) \<and> \<not> has_live sc (ks_repo (kw_store s))
     \<and> ks_cache (kw_store s) sc = None \<and> sc \<notin> fst ` set (kw_flight s))"

lemma step_keeps_erased:
  assumes "ks_step C o' s s'" "erased x s"
  shows "erased x s'"
proof -
  have repo: "scope_shredded x (ks_repo (kw_store s'))" "\<not> has_live x (ks_repo (kw_store s'))"
    using step_keeps_shredded [OF assms(1)] assms(2) by (auto simp: erased_def)
  have cache: "ks_cache (kw_store s) x = None" and flight: "x \<notin> fst ` set (kw_flight s)"
    using assms(2) by (auto simp: erased_def)
  have "ks_cache (kw_store s') x = None \<and> x \<notin> fst ` set (kw_flight s')"
    using assms(1)
  proof (cases rule: ks_step.cases)
    case (fetch sc r k)
    then have "sc \<noteq> x"
      using Fetch_in [OF fetch(2)] assms(2) by (auto simp: erased_def has_live_def list_ex_iff)
    then show ?thesis using fetch(1) cache flight by simp
  next
    case (insert_own now sc w repo k)
    then have "sc \<noteq> x" using Insert_True(2) [OF insert_own(2)] assms(2) by (auto simp: erased_def)
    then show ?thesis using insert_own(1) cache flight by simp
  next
    case (cache sc k)
    then have "x \<noteq> sc" using flight by force
    then have "ks_cache (remember sc k (kw_store s)) x = None"
      using cache_remember(2) [of x sc k "kw_store s"] \<open>ks_cache (kw_store s) x = None\<close>
      by (cases "ks_cache (remember sc k (kw_store s)) x") auto
    moreover have "x \<notin> fst ` set (remove1 (sc, k) (kw_flight s))"
      using flight set_remove1_subset by fastforce
    ultimately show ?thesis using cache(1) by simp
  qed (use cache flight in simp_all)
  with repo show ?thesis by (simp add: erased_def)
qed

lemma steps_keep_erased: "ks_steps C o' s s' \<Longrightarrow> erased x s \<Longrightarrow> erased x s'"
  by (induction rule: rtranclp_induct) (auto intro: step_keeps_erased)

lemma erased_no_key:
  assumes "erased sc s"
  shows "\<exists>e. cek C o' d sc create (kw_store s) = Inl e"
    and "Fetch sc (own_did o') (ks_repo (kw_store s)) \<noteq> None \<Longrightarrow> cek C o' d sc create (kw_store s) = Inl (Shredded sc)"
proof -
  let ?repo = "ks_repo (kw_store s)"
  have none: "cached sc (kw_store s) = None" using assms by (simp add: erased_def cached_def)
  have dead: "\<not> live r" if "Fetch sc (own_did o') ?repo = Some r" for r
    using Fetch_in [OF that] assms by (auto simp: erased_def has_live_def list_ex_iff)
  have conflict: "Insert now sc (own_did o') w ?repo = (False, ?repo)" for now w
    using assms by (simp add: erased_def Insert_def)
  show "\<exists>e. cek C o' d sc create (kw_store s) = Inl e"
    using none dead conflict
    by (cases "Fetch sc (own_did o') ?repo"; cases "Wrap C (d_eph d) (d_cek d) (own_method o') (own_point o')")
       (auto simp: cek_def open_record_def createCEK_def lift_env_def)
  show "cek C o' d sc create (kw_store s) = Inl (Shredded sc)" if "Fetch sc (own_did o') ?repo \<noteq> None"
    using that none dead by (auto simp: cek_def open_record_def)
qed

section \<open>Erasure\<close>

lemma Shred_result:
  assumes "Shred now iri actor reason st = (n, evt, st')"
  shows "ks_repo st' = snd (ShredTx now (ContractScope iri) actor reason (ks_repo st))"
    and "ks_cache st' (ContractScope iri) = None" and "evt = (n > 0)"
    and "n > 0 \<longleftrightarrow> has_live (ContractScope iri) (ks_repo st)"
proof -
  have n: "n = fst (ShredTx now (ContractScope iri) actor reason (ks_repo st))"
    and st': "st' = Forget (ContractScope iri)
      (st\<lparr>ks_repo := snd (ShredTx now (ContractScope iri) actor reason (ks_repo st))\<rparr>)"
    and evt: "evt = (n > 0)"
    using assms by (auto simp: Shred_def Let_def split: prod.split_asm)
  show "ks_repo st' = snd (ShredTx now (ContractScope iri) actor reason (ks_repo st))"
    and "ks_cache st' (ContractScope iri) = None" by (simp_all add: st')
  show "evt = (n > 0)" by (fact evt)
  show "n > 0 \<longleftrightarrow> has_live (ContractScope iri) (ks_repo st)"
    by (auto simp: n ShredTx_def has_live_def list_ex_iff filter_empty_conv)
qed

text \<open>
  C23: erasure is final.  When a shred destroyed at least one record and no goroutine
  held the key of the contract at that moment, then after any interleaving of later
  operations the scope has no live record, and every request for its key fails, with
  the erasure error when this instance had a record of its own.
\<close>

theorem erasure_is_final:
  assumes "Shred now iri actor reason st = (n, evt, st')" "n > 0"
    and "ContractScope iri \<notin> fst ` set flight"
    and "ks_steps C o' \<lparr>kw_store = st', kw_flight = flight\<rparr> s"
  shows "\<not> has_live (ContractScope iri) (ks_repo (kw_store s))
    \<and> (\<exists>e. cek C o' d (ContractScope iri) create (kw_store s) = Inl e)
    \<and> (Fetch (ContractScope iri) (own_did o') (ks_repo (kw_store s)) \<noteq> None \<longrightarrow>
         cek C o' d (ContractScope iri) create (kw_store s) = Inl (Shredded (ContractScope iri)))"
proof -
  note S = Shred_result [OF assms(1)]
  have "erased (ContractScope iri) \<lparr>kw_store = st', kw_flight = flight\<rparr>"
    using S assms(2,3) by (simp add: erased_def Shred_status)
  from steps_keep_erased [OF assms(4) this] have e: "erased (ContractScope iri) s" .
  then show ?thesis using erased_no_key [OF e] by (auto simp: erased_def)
qed

text \<open>
  The cache can outlive a shred.  A goroutine that read the live record before
  the shred and puts the key into the cache after it leaves the key of an erased
  scope in the cache: from then on every request for the key succeeds, although all
  records of the scope are destroyed and the shredder dropped the cached key.
\<close>

theorem shredded_key_can_survive:
  assumes "Fetch (ContractScope iri) (own_did o') (ks_repo st) = Some r" "live r"
    and "Unwrap C (own_agreement o') (Some (rec_wrapped r)) = Inr k"
  shows "\<exists>s1 s3. ks_step C o' \<lparr>kw_store = st, kw_flight = []\<rparr> s1
    \<and> ks_step C o' (s1\<lparr>kw_store := snd (snd (Shred now iri actor reason (kw_store s1)))\<rparr>) s3
    \<and> scope_shredded (ContractScope iri) (ks_repo (kw_store s3))
    \<and> \<not> has_live (ContractScope iri) (ks_repo (kw_store s3))
    \<and> cek C o' d (ContractScope iri) create (kw_store s3) = Inr (k, kw_store s3)"
proof -
  let ?sc = "ContractScope iri"
  let ?s = "\<lparr>kw_store = st, kw_flight = []\<rparr>"
  define s1 where "s1 = ?s\<lparr>kw_flight := (?sc, k) # kw_flight ?s\<rparr>"
  obtain n evt st' where sh: "Shred now iri actor reason st = (n, evt, st')" by (metis surj_pair)
  define s2 where "s2 = s1\<lparr>kw_store := st'\<rparr>"
  define s3 where "s3 = s2\<lparr>kw_store := remember ?sc k (kw_store s2), kw_flight := remove1 (?sc, k) (kw_flight s2)\<rparr>"
  have "has_live ?sc (ks_repo st)"
    using Fetch_in [OF assms(1)] assms(2) by (auto simp: has_live_def list_ex_iff)
  then have "scope_shredded ?sc (ks_repo st')" "\<not> has_live ?sc (ks_repo st')"
    by (simp_all add: Shred_result(1) [OF sh] Shred_status)
  moreover have "ks_step C o' ?s s1"
    unfolding s1_def by (rule ks_step.fetch [OF _ assms(2,3)]) (simp add: assms(1))
  moreover have "s1\<lparr>kw_store := snd (snd (Shred now iri actor reason (kw_store s1)))\<rparr> = s2"
    by (simp add: s2_def s1_def sh)
  moreover have "ks_step C o' s2 s3"
    unfolding s3_def by (rule ks_step.cache) (simp add: s2_def s1_def)
  moreover have "cek C o' d ?sc create (kw_store s3) = Inr (k, kw_store s3)"
    by (simp add: cek_def cached_def s3_def cache_remember(1))
  ultimately show ?thesis
    by (intro exI [of _ s1] exI [of _ s3]) (simp add: s3_def s2_def)
qed

section \<open>Artifacts at rest\<close>

definition owner_ok :: "crypto \<Rightarrow> key_owner \<Rightarrow> bool" where
  "owner_ok C o' =
    (trim_space (own_method o') \<noteq> ''''
     \<and> (case own_point o' of None \<Rightarrow> False
        | Some p \<Rightarrow> on_curve C p \<and> key_agreement C (own_agreement o') p))"

definition holds_key :: "crypto \<Rightarrow> key_owner \<Rightarrow> scope \<Rightarrow> bytes \<Rightarrow> cek_repo \<Rightarrow> bool" where
  "holds_key C o' sc k repo =
    (\<exists>r\<in>set repo. rec_scope r = sc \<and> rec_recipient r = own_did o' \<and> live r
        \<and> Unwrap C (own_agreement o') (Some (rec_wrapped r)) = Inr k)"

definition store_ok :: "crypto \<Rightarrow> key_owner \<Rightarrow> key_store \<Rightarrow> bool" where
  "store_ok C o' st =
    (repo_ok (ks_repo st) \<and> (\<forall>sc k. ks_cache st sc = Some k \<longrightarrow> holds_key C o' sc k (ks_repo st)))"

lemma lift_env_Inr [simp]: "lift_env m = Inr x \<longleftrightarrow> m = Inr x"
  by (auto simp: lift_env_def split: sum.splits)

text \<open>The ways to a key; the branch of the lost insert race cannot succeed without another writer.\<close>

lemma cek_cases:
  assumes "cek C o' d sc create st = Inr (k, st')"
  obtains (hit) "cached sc st = Some k" "st' = st"
  | (stored) r where "Fetch sc (own_did o') (ks_repo st) = Some r" "open_record C o' sc r st = Inr (k, st')"
  | (created) w repo where "create" "Wrap C (d_eph d) (d_cek d) (own_method o') (own_point o') = Inr w"
      "Insert (d_now d) sc (own_did o') w (ks_repo st) = (True, repo)" "k = d_cek d"
      "st' = remember sc k (st\<lparr>ks_repo := repo\<rparr>)"
proof (cases "cached sc st")
  case (Some k')
  then have "k' = k" "st' = st" using assms by (auto simp: cek_def)
  with Some hit show ?thesis by simp
next
  case none: None
  show ?thesis
  proof (cases "Fetch sc (own_did o') (ks_repo st)")
    case (Some r)
    then have "open_record C o' sc r st = Inr (k, st')" using assms none by (simp add: cek_def)
    with Some stored show ?thesis by blast
  next
    case None
    then obtain w where w: "create" "Wrap C (d_eph d) (d_cek d) (own_method o') (own_point o') = Inr w"
      using assms none by (auto simp: cek_def createCEK_def bind_res_Inr_iff split: if_split_asm)
    obtain b repo where ins: "Insert (d_now d) sc (own_did o') w (ks_repo st) = (b, repo)" by (metis surj_pair)
    show ?thesis
    proof (cases b)
      case True
      then have "k = d_cek d" "st' = remember sc k (st\<lparr>ks_repo := repo\<rparr>)"
        using assms none None w ins by (auto simp: cek_def createCEK_def lift_env_def)
      moreover have "Insert (d_now d) sc (own_did o') w (ks_repo st) = (True, repo)" using ins True by simp
      ultimately show ?thesis using w created by blast
    next
      case False
      with assms none None w ins show ?thesis by (simp add: cek_def createCEK_def lift_env_def)
    qed
  qed
qed

lemma cek_caches: "cek C o' d sc create st = Inr (k, st') \<Longrightarrow> cached sc st' = Some k"
  by (erule cek_cases) (auto simp: open_record_def cached_def cache_remember(1) bind_res_Inr_iff split: if_split_asm)

lemma remember_ok:
  assumes "store_ok C o' st" "holds_key C o' sc k (ks_repo st)"
  shows "store_ok C o' (remember sc k st)"
  using assms cache_remember unfolding store_ok_def
  by (metis option.inject repo_remember)

lemma insert_holds:
  assumes "store_ok C o' st" "Insert now sc (own_did o') w (ks_repo st) = (True, repo)"
    and "Unwrap C (own_agreement o') (Some w) = Inr k"
  shows "store_ok C o' (remember sc k (st\<lparr>ks_repo := repo\<rparr>))"
proof (rule remember_ok)
  note I = Insert_True(1) [OF assms(2)]
  show "holds_key C o' sc k (ks_repo (st\<lparr>ks_repo := repo\<rparr>))"
    using assms(3) by (simp add: holds_key_def I live_def)
  have "holds_key C o' x k' (ks_repo st) \<Longrightarrow> holds_key C o' x k' repo" for x k'
    by (auto simp: holds_key_def I)
  then show "store_ok C o' (st\<lparr>ks_repo := repo\<rparr>)"
    using assms(1) Insert_keeps_ok [OF _ assms(2)] by (auto simp: store_ok_def)
qed

lemma open_record_ok:
  assumes "store_ok C o' st" "Fetch sc (own_did o') (ks_repo st) = Some r" "open_record C o' sc r st = Inr (k, st')"
  shows "store_ok C o' st' \<and> holds_key C o' sc k (ks_repo st')"
proof -
  have r: "live r" "Unwrap C (own_agreement o') (Some (rec_wrapped r)) = Inr k" "st' = remember sc k st"
    using assms(3) by (auto simp: open_record_def bind_res_Inr_iff split: if_split_asm)
  have "holds_key C o' sc k (ks_repo st)"
    using Fetch_in [OF assms(2)] r by (auto simp: holds_key_def)
  with remember_ok [OF assms(1)] r(3) show ?thesis by simp
qed

text \<open>A sequential request for a key is a run of the steps above.\<close>

lemma cek_is_a_run:
  assumes "cek C o' d sc create st = Inr (k, st')"
  shows "ks_steps C o' \<lparr>kw_store = st, kw_flight = fl\<rparr> \<lparr>kw_store = st', kw_flight = fl\<rparr>"
  using assms
proof (cases rule: cek_cases)
  case (stored r)
  then have r: "live r" "Unwrap C (own_agreement o') (Some (rec_wrapped r)) = Inr k" "st' = remember sc k st"
    by (auto simp: open_record_def bind_res_Inr_iff split: if_split_asm)
  let ?s = "\<lparr>kw_store = st, kw_flight = fl\<rparr>"
  have "ks_step C o' ?s \<lparr>kw_store = st, kw_flight = (sc, k) # fl\<rparr>"
    using ks_step.fetch [of sc o' ?s r C k] stored(1) r by simp
  moreover have "ks_step C o' \<lparr>kw_store = st, kw_flight = (sc, k) # fl\<rparr> \<lparr>kw_store = st', kw_flight = fl\<rparr>"
    using ks_step.cache [of sc k "\<lparr>kw_store = st, kw_flight = (sc, k) # fl\<rparr>" C o'] r(3) by simp
  ultimately show ?thesis by (meson converse_rtranclp_into_rtranclp r_into_rtranclp)
next
  case (created w repo)
  let ?s = "\<lparr>kw_store = st, kw_flight = fl\<rparr>" and ?st = "st\<lparr>ks_repo := repo\<rparr>"
  have "ks_step C o' ?s \<lparr>kw_store = ?st, kw_flight = (sc, k) # fl\<rparr>"
    using ks_step.insert_own [of "d_now d" sc o' w ?s repo C k] created(3) by simp
  moreover have "ks_step C o' \<lparr>kw_store = ?st, kw_flight = (sc, k) # fl\<rparr> \<lparr>kw_store = st', kw_flight = fl\<rparr>"
    using ks_step.cache [of sc k "\<lparr>kw_store = ?st, kw_flight = (sc, k) # fl\<rparr>" C o'] created(5) by simp
  ultimately show ?thesis by (meson converse_rtranclp_into_rtranclp r_into_rtranclp)
qed simp

lemma cek_keeps_ok:
  assumes "crypto_ok C" "owner_ok C o'" "store_ok C o' st" "length (d_cek d) = cekLen"
    and "cek C o' d sc create st = Inr (k, st')"
  shows "store_ok C o' st' \<and> holds_key C o' sc k (ks_repo st')"
  using assms(5)
proof (cases rule: cek_cases)
  case hit
  with assms(3) show ?thesis by (simp add: store_ok_def cached_def)
next
  case (stored r)
  with open_record_ok [OF assms(3)] show ?thesis by blast
next
  case (created w repo)
  obtain p where p: "own_point o' = Some p" "on_curve C p" "key_agreement C (own_agreement o') p"
    using assms(2) by (auto simp: owner_ok_def split: option.split_asm)
  have "trim_space (own_method o') \<noteq> ''''" using assms(2) by (simp add: owner_ok_def)
  from wrap_unwrap [OF assms(1) p(3,2) assms(4) this, of "d_eph d"] created(2) p(1)
  have un: "Unwrap C (own_agreement o') (Some w) = Inr k" by (auto simp: created(4))
  from insert_holds [OF assms(3) created(3) un] have ok: "store_ok C o' st'" unfolding created(5) .
  moreover have "ks_cache st' sc = Some k" by (simp add: created(5) cache_remember(1))
  ultimately show ?thesis by (simp add: store_ok_def)
qed

text \<open>Without its cache the store finds the same key again.\<close>

lemma reopen_key:
  assumes "repo_ok (ks_repo st)" "holds_key C o' sc k (ks_repo st)" "ks_cache st sc = None"
  shows "cek C o' d sc create st = Inr (k, remember sc k st)"
proof -
  obtain r where r: "r \<in> set (ks_repo st)" "rec_scope r = sc" "rec_recipient r = own_did o'" "live r"
      "Unwrap C (own_agreement o') (Some (rec_wrapped r)) = Inr k"
    using assms(2) by (auto simp: holds_key_def)
  have "Fetch sc (own_did o') (ks_repo st) = Some r"
    by (rule Fetch_live [OF r(1-4)]) (use assms(1) in \<open>simp add: repo_ok_def\<close>)
  then show ?thesis using assms(3) r(4,5) by (simp add: cek_def cached_def open_record_def lift_env_def)
qed

text \<open>
  An artifact outlives the process.  What \<open>Put\<close> stored is what \<open>Get\<close> returns, also after
  a restart has emptied the cache of plaintext keys: the wrapped record opens to the
  key the artifact was sealed with.
\<close>

theorem artifact_survives_restart:
  assumes "crypto_ok C" "aead C" "owner_ok C o'" "store_ok C o' st"
    and "length (d_cek d) = cekLen" "length (d_nonce d) = nonceLen"
    and "Put C o' d sc plaintext answer (st, objects) = Inr (cid, st', objects')"
  shows "\<exists>st''. Get C o' d' sc cid (st'\<lparr>ks_cache := (\<lambda>_. None), ks_order := []\<rparr>, objects') = Inr (plaintext, st'')"
proof -
  obtain k blob where k: "cek C o' d sc True st = Inr (k, st')"
      and b: "Encrypt C (d_nonce d) k plaintext (AAD sc) = Inr blob" and o: "objects' cid = Some blob"
    using assms(7) by (auto simp: Put_def store_Encrypt_def bind_res_Inr_iff split: option.split_asm if_split_asm)
  let ?st = "st'\<lparr>ks_cache := (\<lambda>_. None), ks_order := []\<rparr>"
  from cek_keeps_ok [OF assms(1,3,4,5) k] have "repo_ok (ks_repo ?st)" "holds_key C o' sc k (ks_repo ?st)"
    by (simp_all add: store_ok_def)
  then have "cek C o' d' sc False ?st = Inr (k, remember sc k ?st)" by (rule reopen_key) simp
  then show ?thesis
    using o Decrypt_Encrypt [OF assms(2,6) b] by (simp add: Get_def)
qed

text \<open>
  A shared artifact opens at the peer.  The key that one instance wraps for the
  key-agreement method of another, which has neither a record of the scope nor an
  erasure of it, is adopted there, and the peer then decrypts what the first instance
  encrypted for that scope.
\<close>

theorem shared_artifact_opens_at_peer:
  assumes "crypto_ok C" "aead C" "length (d_nonce d1) = nonceLen"
    and "store_Encrypt C a d1 sc plaintext stA = Inr (blob, stA1)"
    and "WrapForPeer C a d2 sc (own_did b) (own_method b) (own_point b) stA1 = Inr (w, stA2)"
    and "owner_ok C b" "trim_space (own_method b) = own_method b" "\<not> has_prefix (own_method b) ''#''"
    and "Fetch sc (own_did b) (ks_repo stB) = None" "\<not> scope_shredded sc (ks_repo stB)"
  shows "\<exists>stB1 stB2. AdoptPeerCEK C b d3 sc (Some w) stB = Inr stB1
     \<and> store_Decrypt C b d4 sc blob stB1 = Inr (plaintext, stB2)"
proof -
  obtain k where k: "cek C a d1 sc True stA = Inr (k, stA1)"
    and e: "Encrypt C (d_nonce d1) k plaintext (AAD sc) = Inr blob"
    using assms(4) by (auto simp: store_Encrypt_def bind_res_Inr_iff)
  have len: "length k = cekLen" using e by (simp add: Encrypt_def require_Inr_iff)
  have "cek C a d2 sc False stA1 = Inr (k, stA1)"
    using cek_caches [OF k] by (simp add: cek_def)
  then have w: "Wrap C (d_eph d2) k (own_method b) (own_point b) = Inr w"
    using assms(5) by (auto simp: WrapForPeer_def bind_res_Inr_iff)
  obtain p where p: "own_point b = Some p" "on_curve C p" "key_agreement C (own_agreement b) p"
    and m: "trim_space (own_method b) \<noteq> ''''"
    using assms(6) by (auto simp: owner_ok_def split: option.split_asm)
  from wrap_unwrap [OF assms(1) p(3,2) len m, of "d_eph d2"] w p(1)
  have un: "Unwrap C (own_agreement b) (Some w) = Inr k" and kid: "wc_kid w = own_method b" by auto
  from wrap_unwrap [OF assms(1) p(3,2) len m, of "d_eph d3"] p(1) obtain w' where
    w': "Wrap C (d_eph d3) k (own_method b) (own_point b) = Inr w'" by auto
  have own: "ownRecipient b (Some w)" using kid assms(7,8) m by (simp add: ownRecipient_def)
  have "\<not> list_ex (\<lambda>r. rec_scope r = sc \<and> rec_recipient r = own_did b \<and> live r) (ks_repo stB)"
    using assms(9) by (auto simp: Fetch_None list_ex_iff)
  then obtain repo where ins: "Insert (d_now d3) sc (own_did b) w' (ks_repo stB) = (True, repo)"
    using assms(10) by (simp add: Insert_def)
  define stB1 where "stB1 = remember sc k (stB\<lparr>ks_repo := repo\<rparr>)"
  have "AdoptPeerCEK C b d3 sc (Some w) stB = Inr stB1"
    using own assms(9) un w' ins by (simp add: AdoptPeerCEK_def lift_env_def stB1_def)
  moreover have "cek C b d4 sc False stB1 = Inr (k, stB1)"
    by (simp add: cek_def cached_def stB1_def cache_remember(1))
  then have "store_Decrypt C b d4 sc blob stB1 = Inr (plaintext, stB1)"
    using Decrypt_Encrypt [OF assms(2,3) e] by (simp add: store_Decrypt_def lift_env_def)
  ultimately show ?thesis by blast
qed

section \<open>The properties at work\<close>

text \<open>Two instances with the primitives of \<open>demo_crypto\<close>.\<close>

definition demo_owner :: "string \<Rightarrow> key_owner" where
  "demo_owner did = \<lparr>own_did = did, own_method = did @ ''#ka'', own_point = Some (3, 4),
     own_agreement = (\<lambda>pt. Some (be_bytes 32 (fst pt)))\<rparr>"

definition demo_draws :: "int \<Rightarrow> draws" where
  "demo_draws n = \<lparr>d_now = n, d_cek = replicate 32 7, d_eph = n, d_nonce = replicate 12 1\<rparr>"

definition empty_keys :: key_store where
  "empty_keys = \<lparr>ks_repo = [], ks_cache = (\<lambda>_. None), ks_order = []\<rparr>"

lemma demo_curve [simp]: "on_curve demo_crypto p"
  by (simp add: demo_crypto_def)

lemma demo_draws_simps [simp]:
  "length (d_cek (demo_draws n)) = cekLen" "length (d_nonce (demo_draws n)) = nonceLen"
  "d_cek (demo_draws n) = replicate 32 7"
  by (simp_all add: demo_draws_def cekLen_def nonceLen_def)

lemma demo_owner_simps [simp]:
  "own_did (demo_owner did) = did" "own_method (demo_owner did) = did @ ''#ka''" "own_point (demo_owner did) = Some (3, 4)"
  "own_agreement (demo_owner did) = (\<lambda>pt. Some (be_bytes 32 (fst pt)))"
  by (simp_all add: demo_owner_def)

lemma demo_method [simp]: "trim_space ''a#ka'' = ''a#ka''" "trim_space ''b#ka'' = ''b#ka''"
  by (simp_all add: trim_space_def is_space_def)

lemma demo_owner_ok: "owner_ok demo_crypto (demo_owner ''a'')" "owner_ok demo_crypto (demo_owner ''b'')"
  by (simp_all add: owner_ok_def demo_crypto_ok(3))

lemma empty_keys_ok: "store_ok C o' empty_keys"
  by (simp add: store_ok_def repo_ok_def empty_keys_def scope_shredded_def)

lemma demo_wrap:
  assumes "length k = cekLen" "kid = ''a#ka'' \<or> kid = ''b#ka''"
  obtains w where "Wrap demo_crypto e k kid (Some (3, 4)) = Inr w" "wc_kid w = kid"
    "Unwrap demo_crypto (\<lambda>pt. Some (be_bytes 32 (fst pt))) (Some w) = Inr k"
  using wrap_unwrap [OF demo_crypto_ok(1,3) _ assms(1), of "(3, 4)" kid e] assms(2) by auto

lemma demo_create:
  obtains w where "cek demo_crypto (demo_owner ''a'') (demo_draws 1) sc True empty_keys
      = Inr (replicate 32 7, remember sc (replicate 32 7) (empty_keys\<lparr>ks_repo := [\<lparr>rec_scope = sc, rec_recipient = ''a'',
          rec_wrapped = w, rec_created_at = 1, rec_shredded = None\<rparr>]\<rparr>))"
    "Unwrap demo_crypto (\<lambda>pt. Some (be_bytes 32 (fst pt))) (Some w) = Inr (replicate 32 7)"
proof -
  obtain w where w: "Wrap demo_crypto 1 (replicate 32 7) ''a#ka'' (Some (3, 4)) = Inr w"
      "Unwrap demo_crypto (\<lambda>pt. Some (be_bytes 32 (fst pt))) (Some w) = Inr (replicate 32 7)"
    by (rule demo_wrap [of "replicate 32 7" "''a#ka''" 1]) (auto simp: cekLen_def)
  show thesis
    by (rule that [OF _ w(2)])
       (use w(1) in \<open>simp add: cek_def cached_def empty_keys_def Fetch_def newest_record_def createCEK_def Insert_def
          scope_shredded_def lift_env_def demo_draws_def\<close>)
qed

definition demo_record :: cek_record where
  "demo_record = \<lparr>rec_scope = ContractScope ''c1'', rec_recipient = ''a'',
     rec_wrapped = \<lparr>wc_alg = Alg, wc_kid = ''a#ka'',
       wc_epk = \<lparr>epk_kty = ''EC'', epk_crv = ''P-256'', epk_x = '''', epk_y = ''''\<rparr>, wc_wrapped = []\<rparr>,
     rec_created_at = 1, rec_shredded = None\<rparr>"

theorem erasure_is_final_witness:
  "cek demo_crypto (demo_owner ''a'') (demo_draws 2) (ContractScope ''c1'') True
     (snd (snd (Shred 5 ''c1'' ''alice'' ''art. 17'' (empty_keys\<lparr>ks_repo := [demo_record]\<rparr>))))
   = Inl (Shredded (ContractScope ''c1''))"
proof -
  obtain st' where st': "Shred 5 ''c1'' ''alice'' ''art. 17'' (empty_keys\<lparr>ks_repo := [demo_record]\<rparr>) = (1, True, st')"
    by (simp add: Shred_def ShredTx_def demo_record_def live_def Let_def)
  have "ks_repo st' = [shred_record 5 (ContractScope ''c1'') ''alice'' ''art. 17'' demo_record]"
    using Shred_result(1) [OF st'] by (simp add: ShredTx_def)
  then have f: "Fetch (ContractScope ''c1'') ''a'' (ks_repo st') \<noteq> None"
    by (simp add: Fetch_None demo_record_def)
  from erasure_is_final [OF st' _ _ rtranclp.rtrancl_refl, of "[]" demo_crypto "demo_owner ''a''" "demo_draws 2" True] f
  show ?thesis by (simp add: st')
qed

theorem shredded_key_can_survive_witness:
  "\<exists>st s1 s3. ks_step demo_crypto (demo_owner ''a'') \<lparr>kw_store = st, kw_flight = []\<rparr> s1
    \<and> ks_step demo_crypto (demo_owner ''a'') (s1\<lparr>kw_store := snd (snd (Shred 5 ''c1'' ''alice'' ''art. 17'' (kw_store s1)))\<rparr>) s3
    \<and> scope_shredded (ContractScope ''c1'') (ks_repo (kw_store s3))
    \<and> cek demo_crypto (demo_owner ''a'') (demo_draws 2) (ContractScope ''c1'') True (kw_store s3)
        = Inr (replicate 32 7, kw_store s3)"
proof -
  obtain w where w: "Wrap demo_crypto 1 (replicate 32 7) ''a#ka'' (Some (3, 4)) = Inr w"
      "Unwrap demo_crypto (\<lambda>pt. Some (be_bytes 32 (fst pt))) (Some w) = Inr (replicate 32 7)"
    by (rule demo_wrap [of "replicate 32 7" "''a#ka''" 1]) (auto simp: cekLen_def)
  let ?r = "demo_record\<lparr>rec_wrapped := w\<rparr>" and ?st = "empty_keys\<lparr>ks_repo := [demo_record\<lparr>rec_wrapped := w\<rparr>]\<rparr>"
  have f: "Fetch (ContractScope ''c1'') (own_did (demo_owner ''a'')) (ks_repo ?st) = Some ?r"
    by (simp add: Fetch_def demo_record_def live_def)
  have l: "live ?r" by (simp add: demo_record_def live_def)
  have u: "Unwrap demo_crypto (own_agreement (demo_owner ''a'')) (Some (rec_wrapped ?r)) = Inr (replicate 32 7)"
    using w(2) by (simp add: demo_record_def)
  from shredded_key_can_survive [OF f l u] show ?thesis by blast
qed

theorem artifact_survives_restart_witness:
  "\<exists>st' objects' st''. Put demo_crypto (demo_owner ''a'') (demo_draws 1) (ContractScope ''c1'') [1, 2, 3] (Some ''cid'')
      (empty_keys, \<lambda>_. None) = Inr (''cid'', st', objects')
    \<and> Get demo_crypto (demo_owner ''a'') (demo_draws 9) (ContractScope ''c1'') ''cid''
        (st'\<lparr>ks_cache := (\<lambda>_. None), ks_order := []\<rparr>, objects') = Inr ([1, 2, 3], st'')"
proof -
  obtain w where "cek demo_crypto (demo_owner ''a'') (demo_draws 1) (ContractScope ''c1'') True empty_keys
      = Inr (replicate 32 7, remember (ContractScope ''c1'') (replicate 32 7) (empty_keys\<lparr>ks_repo :=
          [\<lparr>rec_scope = ContractScope ''c1'', rec_recipient = ''a'', rec_wrapped = w, rec_created_at = 1, rec_shredded = None\<rparr>]\<rparr>))"
    by (rule demo_create)
  then obtain st' objects' where put: "Put demo_crypto (demo_owner ''a'') (demo_draws 1) (ContractScope ''c1'') [1, 2, 3]
      (Some ''cid'') (empty_keys, \<lambda>_. None) = Inr (''cid'', st', objects')"
    by (simp add: Put_def store_Encrypt_def Encrypt_def cekLen_def lift_env_def)
  from artifact_survives_restart [OF demo_crypto_ok(1,2) demo_owner_ok(1) empty_keys_ok _ _ put, of "demo_draws 9"] put
  show ?thesis by (auto simp: cekLen_def)
qed

theorem shared_artifact_opens_at_peer_witness:
  "\<exists>blob stA1 w stA2 stB1 stB2.
     store_Encrypt demo_crypto (demo_owner ''a'') (demo_draws 1) (ContractScope ''c1'') [1, 2, 3] empty_keys = Inr (blob, stA1)
   \<and> WrapForPeer demo_crypto (demo_owner ''a'') (demo_draws 2) (ContractScope ''c1'') ''b'' ''b#ka'' (Some (3, 4)) stA1 = Inr (w, stA2)
   \<and> AdoptPeerCEK demo_crypto (demo_owner ''b'') (demo_draws 3) (ContractScope ''c1'') (Some w) empty_keys = Inr stB1
   \<and> store_Decrypt demo_crypto (demo_owner ''b'') (demo_draws 4) (ContractScope ''c1'') blob stB1 = Inr ([1, 2, 3], stB2)"
proof -
  let ?sc = "ContractScope ''c1''" and ?k = "replicate 32 (7 :: byte)"
  obtain w0 where c: "cek demo_crypto (demo_owner ''a'') (demo_draws 1) ?sc True empty_keys
      = Inr (?k, remember ?sc ?k (empty_keys\<lparr>ks_repo := [\<lparr>rec_scope = ?sc, rec_recipient = ''a'',
          rec_wrapped = w0, rec_created_at = 1, rec_shredded = None\<rparr>]\<rparr>))"
    by (rule demo_create)
  obtain blob stA1 where enc: "store_Encrypt demo_crypto (demo_owner ''a'') (demo_draws 1) ?sc [1, 2, 3] empty_keys
      = Inr (blob, stA1)" and hit: "cached ?sc stA1 = Some ?k"
    using c cek_caches [OF c] by (simp add: store_Encrypt_def Encrypt_def cekLen_def lift_env_def)
  obtain w where "Wrap demo_crypto (d_eph (demo_draws 2)) ?k ''b#ka'' (Some (3, 4)) = Inr w"
    by (rule demo_wrap [of ?k "''b#ka''" "d_eph (demo_draws 2)"]) (auto simp: cekLen_def)
  then obtain stA2 where wr: "WrapForPeer demo_crypto (demo_owner ''a'') (demo_draws 2) ?sc (own_did (demo_owner ''b''))
      (own_method (demo_owner ''b'')) (own_point (demo_owner ''b'')) stA1 = Inr (w, stA2)"
    using hit by (simp add: WrapForPeer_def cek_def lift_env_def)
  have fresh: "Fetch ?sc (own_did (demo_owner ''b'')) (ks_repo empty_keys) = None" "\<not> scope_shredded ?sc (ks_repo empty_keys)"
    by (simp_all add: Fetch_None empty_keys_def scope_shredded_def)
  from shared_artifact_opens_at_peer [OF demo_crypto_ok(1,2) _ enc wr demo_owner_ok(2) _ _ fresh] enc wr
  show ?thesis by simp
qed

end
