(* ===== verification/Audit_Anchor.thy ===== *)
theory Audit_Anchor
  imports Key_Store Json_Value
begin

text \<open>
  The audit trail: the outbox processor (\<open>base/event/outboxprocessor.go\<close>), the
  tables behind it (\<open>base/db/pq/postgresoutbox.go\<close>, \<open>postgresaudittrail.go\<close>) and the
  readers of the trail (\<open>base/audittrail.go\<close>).  One run of a ticker is a function of the
  state; what the object store, the timestamp authority, the message bus and the
  database answer during it is its argument \<open>tick\<close>.  An entry of an event is stored at
  most once per tick, so the identifier it gets is a function of the event, and the
  order in which the goroutines of a batch run does not matter to the result.
\<close>

section \<open>Events, entries, checkpoints\<close>

record outbox_event =
  oe_id :: int
  oe_component :: string
  oe_type :: string
  oe_data :: bytes
  oe_did :: "string option"
  oe_created_at :: int
  oe_processed :: bool
  oe_published :: bool
  oe_attempts :: int
  oe_dead :: bool

text \<open>The body of an entry: sealed at rest, opened by a reader, or the erased marker.\<close>

datatype entry_body = Sealed bytes | Opened bytes | ErasedEventData

record audit_entry =
  en_id :: int
  en_component :: string
  en_type :: string
  en_data :: entry_body
  en_did :: "string option"
  en_created_at :: int
  en_pred :: "string option"
  en_scope_kind :: string
  en_scope_id :: string
  en_nonce :: string

record audit_checkpoint =
  cp_root :: string
  cp_prev :: "string option"
  cp_leaf_hashes :: "string list"
  cp_leaf_cids :: "string list"

record checkpoint_row =
  cr_seq :: int
  cr_cid :: string
  cr_root :: string
  cr_prev :: "string option"
  cr_leaf_count :: nat
  cr_tsa :: "string option"

record leaf_row =
  lf_seq :: int
  lf_idx :: nat
  lf_cid :: string
  lf_hash :: string

datatype chain_key = ChainKey (ck_component: string) (ck_did: string)

record audit_state =
  au_outbox :: "outbox_event list"
  au_heads :: "chain_key \<Rightarrow> string option"
  au_entries :: "string \<Rightarrow> audit_entry option"
  au_objects :: "string \<Rightarrow> audit_checkpoint option"
  au_checkpoints :: "checkpoint_row list"
  au_leaves :: "leaf_row list"
  au_seq :: int
  au_keys :: key_store

record audit_env =
  ae_crypto :: crypto
  ae_owner :: key_owner
  ae_sha :: "bytes \<Rightarrow> bytes"
  ae_marshal :: "audit_entry \<Rightarrow> bytes"

record tick =
  tk_stored :: "int \<Rightarrow> string option"
  tk_nonce :: "int \<Rightarrow> bytes"
  tk_draws :: "int \<Rightarrow> draws"
  tk_checkpoint :: "string option"
  tk_tsa :: "string \<Rightarrow> string option"
  tk_commit :: bool

section \<open>Tables\<close>

definition update_event :: "int \<Rightarrow> (outbox_event \<Rightarrow> outbox_event) \<Rightarrow> outbox_event list \<Rightarrow> outbox_event list" where
  "update_event i f evs = map (\<lambda>e. if oe_id e = i then f e else e) evs"

definition UpdateOutboxEvent :: "int \<Rightarrow> outbox_event list \<Rightarrow> outbox_event list" where
  "UpdateOutboxEvent i = update_event i (\<lambda>e. e\<lparr>oe_processed := True\<rparr>)"

definition MarkOutboxEventPublished :: "int \<Rightarrow> outbox_event list \<Rightarrow> outbox_event list" where
  "MarkOutboxEventPublished i = update_event i (\<lambda>e. e\<lparr>oe_published := True\<rparr>)"

definition OutboxAnchorMaxAttempts :: int where
  "OutboxAnchorMaxAttempts = 50"

definition RecordOutboxAnchorFailure :: "int \<Rightarrow> outbox_event list \<Rightarrow> outbox_event list" where
  "RecordOutboxAnchorFailure i = update_event i (\<lambda>e.
     e\<lparr>oe_attempts := oe_attempts e + 1,
       oe_dead := (oe_dead e \<or> oe_attempts e + 1 \<ge> OutboxAnchorMaxAttempts)\<rparr>)"

definition ReadLogCID :: "chain_key \<Rightarrow> audit_state \<Rightarrow> string option" where
  "ReadLogCID key st = au_heads st key"

definition UpdateLogCID :: "chain_key \<Rightarrow> string \<Rightarrow> audit_state \<Rightarrow> audit_state" where
  "UpdateLogCID key cid st = st\<lparr>au_heads := (au_heads st)(key \<mapsto> cid)\<rparr>"

definition ReadLatestCheckpointRoot :: "audit_state \<Rightarrow> string option" where
  "ReadLatestCheckpointRoot st =
    (if au_checkpoints st = [] then None else Some (cr_root (last (au_checkpoints st))))"

definition AppendCheckpoint ::
  "string \<Rightarrow> string \<Rightarrow> string option \<Rightarrow> nat \<Rightarrow> string option \<Rightarrow> audit_state \<Rightarrow> int \<times> audit_state" where
  "AppendCheckpoint cid root prev n tsa st =
    (au_seq st + 1, st\<lparr>au_checkpoints := au_checkpoints st @ [\<lparr>cr_seq = au_seq st + 1, cr_cid = cid,
       cr_root = root, cr_prev = prev, cr_leaf_count = n, cr_tsa = tsa\<rparr>], au_seq := au_seq st + 1\<rparr>)"

definition AppendCheckpointLeaves :: "int \<Rightarrow> string list \<Rightarrow> string list \<Rightarrow> audit_state \<Rightarrow> audit_state" where
  "AppendCheckpointLeaves seq cids hashes st =
    st\<lparr>au_leaves := au_leaves st @
      map (\<lambda>(i, cid, h). \<lparr>lf_seq = seq, lf_idx = i, lf_cid = cid, lf_hash = h\<rparr>) (enumerate 0 (zip cids hashes))\<rparr>"

definition ReadCheckpointsAwaitingTimestamp :: "nat \<Rightarrow> audit_state \<Rightarrow> checkpoint_row list" where
  "ReadCheckpointsAwaitingTimestamp limit st = take limit (filter (\<lambda>r. cr_tsa r = None) (au_checkpoints st))"

definition UpdateCheckpointTimestamp :: "int \<Rightarrow> string \<Rightarrow> audit_state \<Rightarrow> audit_state" where
  "UpdateCheckpointTimestamp seq signature st =
    st\<lparr>au_checkpoints := map (\<lambda>r. if cr_seq r = seq \<and> cr_tsa r = None then r\<lparr>cr_tsa := Some signature\<rparr> else r)
       (au_checkpoints st)\<rparr>"

text \<open>The checkpoint that commits to an entry: its row, its leaf hashes in order and the index.\<close>

definition ReadCheckpointForEntry :: "string \<Rightarrow> audit_state \<Rightarrow> (checkpoint_row \<times> string list \<times> nat) option" where
  "ReadCheckpointForEntry cid st =
    (case sort_key lf_seq (filter (\<lambda>l. lf_cid l = cid) (au_leaves st)) of
       [] \<Rightarrow> None
     | l # _ \<Rightarrow>
         (case filter (\<lambda>r. cr_seq r = lf_seq l) (au_checkpoints st) of
            [] \<Rightarrow> None
          | r # _ \<Rightarrow> Some (r, map lf_hash (sort_key lf_idx (filter (\<lambda>x. lf_seq x = lf_seq l) (au_leaves st))), lf_idx l)))"

section \<open>Writing entries\<close>

definition isResourceDID :: "string option \<Rightarrow> bool" where
  "isResourceDID did = (case did of None \<Rightarrow> False | Some d \<Rightarrow> length d > 1 \<and> d \<noteq> ''*'')"

definition chainKeyFor :: "outbox_event \<Rightarrow> chain_key option" where
  "chainKeyFor e =
    (if isResourceDID (oe_did e) then Some (ChainKey (oe_component e) (the (oe_did e)))
     else if oe_component e = ''SYSTEM'' \<and> (case oe_did e of None \<Rightarrow> False | Some d \<Rightarrow> length d > 1)
     then Some (ChainKey (oe_component e) (the (oe_did e)))
     else None)"

definition erasureRecordEventTypes :: "string list" where
  "erasureRecordEventTypes = [''KEY_SHREDDED'', ''DELETE_ARCHIVED_CONTRACT'']"

definition scopeForEvent :: "key_owner \<Rightarrow> outbox_event \<Rightarrow> scope" where
  "scopeForEvent o' e =
    (if \<not> isResourceDID (oe_did e) \<or> oe_type e \<in> set erasureRecordEventTypes then InstanceScope o'
     else if oe_component e \<in> set [''CONTRACT_WORKFLOW_ENGINE'', ''SIGNATURE_MANAGEMENT'', ''CONTRACT_STORAGE_ARCHIVE'']
     then ContractScope (the (oe_did e))
     else if oe_component e \<in> set [''CONTRACT_TEMPLATE_REPOSITORY'', ''TEMPLATE_CATALOGUE_INTEGRATION'']
     then TemplateScope (the (oe_did e))
     else InstanceScope o')"

text \<open>\<open>sealBody\<close>: the body, the scope it names, and the key store; \<open>None\<close> when it cannot be encrypted.\<close>

definition sealBody :: "audit_env \<Rightarrow> tick \<Rightarrow> outbox_event \<Rightarrow> key_store
    \<Rightarrow> (entry_body \<times> string \<times> string \<times> key_store) option" where
  "sealBody E tk e ks =
    (let sc = scopeForEvent (ae_owner E) e
     in case store_Encrypt (ae_crypto E) (ae_owner E) (tk_draws tk (oe_id e)) sc (oe_data e) ks of
          Inr (body, ks') \<Rightarrow> Some (Sealed body, sc_kind sc, sc_id sc, ks')
        | Inl (Shredded _) \<Rightarrow> Some (ErasedEventData, '''', '''', ks)
        | Inl _ \<Rightarrow> None)"

record anchored_entry =
  an_event :: int
  an_cid :: string
  an_leaf :: string

definition make_entry :: "tick \<Rightarrow> outbox_event \<Rightarrow> string option \<Rightarrow> entry_body \<Rightarrow> string \<Rightarrow> string \<Rightarrow> audit_entry" where
  "make_entry tk e pred body kind sid =
    \<lparr>en_id = oe_id e, en_component = oe_component e, en_type = oe_type e, en_data = body, en_did = oe_did e,
     en_created_at = oe_created_at e, en_pred = pred, en_scope_kind = kind, en_scope_id = sid,
     en_nonce = hex_encode (tk_nonce tk (oe_id e))\<rparr>"

definition writeEntry :: "audit_env \<Rightarrow> tick \<Rightarrow> outbox_event \<Rightarrow> string option \<Rightarrow> key_store
    \<Rightarrow> (anchored_entry \<times> audit_entry) option \<times> key_store" where
  "writeEntry E tk e pred ks =
    (case sealBody E tk e ks of
       None \<Rightarrow> (None, ks)
     | Some (body, kind, sid, ks') \<Rightarrow>
         (let entry = make_entry tk e pred body kind sid
          in (map_option (\<lambda>cid.
                (\<lparr>an_event = oe_id e, an_cid = cid, an_leaf = MerkleLeafHash (ae_sha E) (ae_marshal E entry)\<rparr>, entry))
              (tk_stored tk (oe_id e)), ks')))"

text \<open>What a batch of writes has done so far.\<close>

record writes =
  wr_anchored :: "anchored_entry list"
  wr_heads :: "(chain_key \<times> string) list"
  wr_entries :: "string \<Rightarrow> audit_entry option"
  wr_failed :: "int list"
  wr_keys :: key_store

text \<open>One chain stops at its first failure.\<close>

fun write_chain :: "audit_env \<Rightarrow> tick \<Rightarrow> chain_key \<Rightarrow> string option \<Rightarrow> outbox_event list \<Rightarrow> writes \<Rightarrow> writes" where
  "write_chain E tk key pred [] w = w"
| "write_chain E tk key pred (e # es) w =
     (case writeEntry E tk e pred (wr_keys w) of
        (None, ks) \<Rightarrow> w\<lparr>wr_failed := wr_failed w @ [oe_id e], wr_keys := ks\<rparr>
      | (Some (a, entry), ks) \<Rightarrow>
          write_chain E tk key (Some (an_cid a)) es
            (w\<lparr>wr_anchored := wr_anchored w @ [a], wr_heads := AList.update key (an_cid a) (wr_heads w),
               wr_entries := (wr_entries w)(an_cid a \<mapsto> entry), wr_keys := ks\<rparr>))"

definition write_unchained :: "audit_env \<Rightarrow> tick \<Rightarrow> outbox_event \<Rightarrow> writes \<Rightarrow> writes" where
  "write_unchained E tk e w =
     (case writeEntry E tk e None (wr_keys w) of
        (None, ks) \<Rightarrow> w\<lparr>wr_failed := wr_failed w @ [oe_id e], wr_keys := ks\<rparr>
      | (Some (a, entry), ks) \<Rightarrow>
          w\<lparr>wr_anchored := wr_anchored w @ [a], wr_entries := (wr_entries w)(an_cid a \<mapsto> entry), wr_keys := ks\<rparr>)"

definition batch_keys :: "outbox_event list \<Rightarrow> chain_key list" where
  "batch_keys events = remdups (List.map_filter chainKeyFor events)"

definition chain_events :: "chain_key \<Rightarrow> outbox_event list \<Rightarrow> outbox_event list" where
  "chain_events key events = filter (\<lambda>e. chainKeyFor e = Some key) events"

definition writeEntries :: "audit_env \<Rightarrow> tick \<Rightarrow> outbox_event list \<Rightarrow> (chain_key \<Rightarrow> string option) \<Rightarrow> writes \<Rightarrow> writes" where
  "writeEntries E tk events heads w =
    fold (write_unchained E tk) (filter (\<lambda>e. chainKeyFor e = None) events)
      (fold (\<lambda>key. write_chain E tk key (heads key) (chain_events key events)) (batch_keys events) w)"

section \<open>The ticks\<close>

definition commit_batch :: "tick \<Rightarrow> anchored_entry list \<Rightarrow> (chain_key \<times> string) list \<Rightarrow> string \<Rightarrow> string option
    \<Rightarrow> string \<Rightarrow> audit_state \<Rightarrow> audit_state" where
  "commit_batch tk anchored heads root prevRoot cpCID st =
    (let hashes = map an_leaf anchored; cids = map an_cid anchored;
         (seq, st1) = AppendCheckpoint cpCID root prevRoot (length hashes) (tk_tsa tk root) st;
         st2 = AppendCheckpointLeaves seq cids hashes st1;
         st3 = fold (\<lambda>(key, cid). UpdateLogCID key cid) heads st2
     in st3\<lparr>au_outbox := fold (\<lambda>a. UpdateOutboxEvent (an_event a)) anchored (au_outbox st3)\<rparr>)"

text \<open>
  \<open>anchorBatch\<close>: the failures of single entries are recorded in transactions of their
  own and stay; the checkpoint, the heads and the processed marks are one transaction.
\<close>

definition anchorBatch :: "audit_env \<Rightarrow> tick \<Rightarrow> outbox_event list \<Rightarrow> audit_state \<Rightarrow> audit_state" where
  "anchorBatch E tk events st =
    (let w = writeEntries E tk events (\<lambda>key. ReadLogCID key st)
               \<lparr>wr_anchored = [], wr_heads = [], wr_entries = au_entries st, wr_failed = [], wr_keys = au_keys st\<rparr>;
         st1 = st\<lparr>au_entries := wr_entries w, au_keys := wr_keys w,
                  au_outbox := fold RecordOutboxAnchorFailure (wr_failed w) (au_outbox st)\<rparr>
     in if wr_anchored w = [] then st1
        else (let anchored = sort_key an_event (wr_anchored w);
                  prevRoot = ReadLatestCheckpointRoot st1
              in case MerkleRoot (ae_sha E) (map an_leaf anchored) of
                   None \<Rightarrow> st1
                 | Some root \<Rightarrow>
                     (case tk_checkpoint tk of
                        None \<Rightarrow> st1
                      | Some cpCID \<Rightarrow>
                          (let st2 = st1\<lparr>au_objects := (au_objects st1)(cpCID \<mapsto>
                                 \<lparr>cp_root = root, cp_prev = prevRoot, cp_leaf_hashes = map an_leaf anchored,
                                  cp_leaf_cids = map an_cid anchored\<rparr>)\<rparr>
                           in if tk_commit tk then commit_batch tk anchored (wr_heads w) root prevRoot cpCID st2
                              else st2\<lparr>au_seq := au_seq st2 + 1\<rparr>))))"

definition select_events :: "audit_state \<Rightarrow> outbox_event list" where
  "select_events st = take 100 (sort_key oe_created_at (filter (\<lambda>e. \<not> oe_processed e \<and> \<not> oe_dead e) (au_outbox st)))"

definition processUnanchoredEvent :: "outbox_event \<Rightarrow> audit_state \<Rightarrow> audit_state" where
  "processUnanchoredEvent e st = st\<lparr>au_outbox := UpdateOutboxEvent (oe_id e) (au_outbox st)\<rparr>"

definition processing_tick :: "audit_env \<Rightarrow> tick \<Rightarrow> audit_state \<Rightarrow> audit_state" where
  "processing_tick E tk st =
    (let events = select_events st;
         anchorable = filter (\<lambda>e. IsAuditVisibleEventType (oe_type e)) events;
         st1 = fold processUnanchoredEvent (filter (\<lambda>e. \<not> IsAuditVisibleEventType (oe_type e)) events) st
     in if anchorable = [] then st1 else anchorBatch E tk anchorable st1)"

definition publishing_tick :: "(int \<Rightarrow> bool) \<Rightarrow> audit_state \<Rightarrow> audit_state" where
  "publishing_tick published st =
    (let events = take 200 (sort_key oe_created_at (filter (\<lambda>e. \<not> oe_published e) (au_outbox st)))
     in st\<lparr>au_outbox := fold (\<lambda>e. if published (oe_id e) then MarkOutboxEventPublished (oe_id e) else id) events (au_outbox st)\<rparr>)"

fun timestamp_loop :: "(string \<Rightarrow> string option) \<Rightarrow> checkpoint_row list \<Rightarrow> audit_state \<Rightarrow> audit_state" where
  "timestamp_loop tsa [] st = st"
| "timestamp_loop tsa (r # rs) st =
     (case tsa (cr_root r) of
        None \<Rightarrow> st
      | Some signature \<Rightarrow> timestamp_loop tsa rs (UpdateCheckpointTimestamp (cr_seq r) signature st))"

definition timestamping_tick :: "(string \<Rightarrow> string option) \<Rightarrow> audit_state \<Rightarrow> audit_state" where
  "timestamping_tick tsa st = timestamp_loop tsa (ReadCheckpointsAwaitingTimestamp 50 st) st"

section \<open>Reading\<close>

datatype audit_error = EntryNotFound string | BodyNotDecodable int | BodyNotOpened int | CheckpointNotFound int

definition openAuditLogEntry :: "audit_env \<Rightarrow> draws \<Rightarrow> key_store \<Rightarrow> audit_entry \<Rightarrow> (audit_error, audit_entry) result" where
  "openAuditLogEntry E d ks entry =
    (if en_scope_kind entry = '''' then Inr entry
     else (case en_data entry of
             Sealed body \<Rightarrow>
               (case store_Decrypt (ae_crypto E) (ae_owner E) d \<lparr>sc_kind = en_scope_kind entry, sc_id = en_scope_id entry\<rparr> body ks of
                  Inr (plaintext, _) \<Rightarrow> Inr (entry\<lparr>en_data := Opened plaintext\<rparr>)
                | Inl (Shredded _) \<Rightarrow> Inr (entry\<lparr>en_data := ErasedEventData\<rparr>)
                | Inl _ \<Rightarrow> Inl (BodyNotOpened (en_id entry)))
           | _ \<Rightarrow> Inl (BodyNotDecodable (en_id entry))))"

text \<open>The walk along the predecessors; it returns nothing when it does not end.\<close>

partial_function (option) walk_chain ::
  "(string \<Rightarrow> audit_entry option) \<Rightarrow> (audit_entry \<Rightarrow> (audit_error, audit_entry) result) \<Rightarrow> string
     \<Rightarrow> (audit_error, audit_entry list) result option" where
  [code]: "walk_chain fetch opener cid =
    (case fetch cid of
       None \<Rightarrow> Some (Inl (EntryNotFound cid))
     | Some stored \<Rightarrow>
         (case opener stored of
            Inl x \<Rightarrow> Some (Inl x)
          | Inr entry \<Rightarrow>
              (case en_pred entry of
                 None \<Rightarrow> Some (Inr [entry])
               | Some pred \<Rightarrow>
                   Option.bind (walk_chain fetch opener pred) (\<lambda>rest.
                     Some (bind_res rest (\<lambda>entries. Inr (entry # entries)))))))"

definition ReadAuditLogEntriesByComponentAndDID ::
  "audit_env \<Rightarrow> draws \<Rightarrow> chain_key \<Rightarrow> audit_state \<Rightarrow> (audit_error, audit_entry list) result option" where
  "ReadAuditLogEntriesByComponentAndDID E d key st =
    (case ReadLogCID key st of
       None \<Rightarrow> Some (Inr [])
     | Some cid \<Rightarrow> walk_chain (au_entries st) (openAuditLogEntry E d (au_keys st)) cid)"

definition AuditCheckpointReadLimit :: nat where
  "AuditCheckpointReadLimit = 500"

fun read_leaves :: "audit_env \<Rightarrow> draws \<Rightarrow> audit_state \<Rightarrow> string list \<Rightarrow> (audit_error, audit_entry list) result" where
  "read_leaves E d st [] = Inr []"
| "read_leaves E d st (cid # cids) =
     (case au_entries st cid of
        None \<Rightarrow> Inl (EntryNotFound cid)
      | Some stored \<Rightarrow>
          bind_res (openAuditLogEntry E d (au_keys st) stored) (\<lambda>entry.
          bind_res (read_leaves E d st cids) (\<lambda>rest. Inr (entry # rest))))"

fun read_checkpoints :: "audit_env \<Rightarrow> draws \<Rightarrow> audit_state \<Rightarrow> checkpoint_row list \<Rightarrow> (audit_error, audit_entry list) result" where
  "read_checkpoints E d st [] = Inr []"
| "read_checkpoints E d st (r # rs) =
     (case au_objects st (cr_cid r) of
        None \<Rightarrow> Inl (CheckpointNotFound (cr_seq r))
      | Some cp \<Rightarrow>
          bind_res (read_leaves E d st (cp_leaf_cids cp)) (\<lambda>entries.
          bind_res (read_checkpoints E d st rs) (\<lambda>rest. Inr (rev entries @ rest))))"

definition ReadAllAuditLogEntries :: "audit_env \<Rightarrow> draws \<Rightarrow> audit_state \<Rightarrow> (audit_error, audit_entry list) result" where
  "ReadAllAuditLogEntries E d st = read_checkpoints E d st (take AuditCheckpointReadLimit (rev (au_checkpoints st)))"

section \<open>Chains of entries\<close>

inductive chain :: "(string \<Rightarrow> audit_entry option) \<Rightarrow> string option \<Rightarrow> audit_entry list \<Rightarrow> bool" for B where
  Nil: "chain B None []"
| Cons: "B cid = Some e \<Longrightarrow> chain B (en_pred e) es \<Longrightarrow> chain B (Some cid) (e # es)"

inductive_cases chain_NoneE: "chain B None es"
inductive_cases chain_SomeE: "chain B (Some cid) es"

lemma chain_mono: "chain B h es \<Longrightarrow> B \<subseteq>\<^sub>m B' \<Longrightarrow> chain B' h es"
proof (induction rule: chain.induct)
  case (Cons cid e es)
  from Cons.hyps(1) Cons.prems have "B' cid = Some e" by (metis domI map_le_def)
  with Cons show ?case by (blast intro: chain.Cons)
qed (rule chain.Nil)

lemma chain_unique: "chain B h es \<Longrightarrow> chain B h es' \<Longrightarrow> es = es'"
proof (induction arbitrary: es' rule: chain.induct)
  case Nil
  then show ?case by (rule chain_NoneE) simp
next
  case (Cons cid e es)
  obtain rest where "es' = e # rest" "chain B (en_pred e) rest"
    by (rule chain_SomeE [OF Cons.prems]) (use Cons.hyps(1) in auto)
  with Cons.IH show ?case by blast
qed

definition entry_header :: "audit_entry \<Rightarrow> int \<times> string \<times> string \<times> string option \<times> int" where
  "entry_header e = (en_id e, en_component e, en_type e, en_did e, en_created_at e)"

definition event_header :: "outbox_event \<Rightarrow> int \<times> string \<times> string \<times> string option \<times> int" where
  "event_header e = (oe_id e, oe_component e, oe_type e, oe_did e, oe_created_at e)"

section \<open>One batch of writes\<close>

text \<open>The identifiers the object store answers with are new, and different for different events.\<close>

definition cids_ok :: "tick \<Rightarrow> int list \<Rightarrow> (string \<Rightarrow> audit_entry option) \<Rightarrow> bool" where
  "cids_ok tk ids B =
    ((\<forall>i\<in>set ids. \<forall>c. tk_stored tk i = Some c \<longrightarrow> B c = None)
     \<and> (\<forall>i j c. i \<in> set ids \<longrightarrow> j \<in> set ids \<longrightarrow> tk_stored tk i = Some c \<longrightarrow> tk_stored tk j = Some c \<longrightarrow> i = j)
     \<and> distinct ids)"

definition writes_grow :: "tick \<Rightarrow> int list \<Rightarrow> writes \<Rightarrow> writes \<Rightarrow> bool" where
  "writes_grow tk ids w w' =
    (wr_entries w \<subseteq>\<^sub>m wr_entries w'
     \<and> (\<forall>c. wr_entries w' c \<noteq> None \<longrightarrow> wr_entries w c \<noteq> None \<or> (\<exists>i\<in>set ids. tk_stored tk i = Some c)))"

lemma writes_grow_refl [simp]: "writes_grow tk ids w w"
  by (simp add: writes_grow_def)

lemma writes_grow_trans:
  "writes_grow tk ids w w' \<Longrightarrow> writes_grow tk ids' w' w'' \<Longrightarrow> writes_grow tk (ids @ ids') w w''"
  unfolding writes_grow_def set_append by (blast intro: map_le_trans)

lemma writes_grow_more: "writes_grow tk ids w w' \<Longrightarrow> set ids \<subseteq> set ids' \<Longrightarrow> writes_grow tk ids' w w'"
  unfolding writes_grow_def by blast

lemma cids_ok_after:
  assumes "cids_ok tk (ids @ ids') (wr_entries w)" "writes_grow tk ids w w'"
  shows "cids_ok tk ids' (wr_entries w')"
proof -
  have "wr_entries w' c = None" if "i \<in> set ids'" "tk_stored tk i = Some c" for i c
  proof (rule ccontr)
    assume "wr_entries w' c \<noteq> None"
    with assms(2) consider "wr_entries w c \<noteq> None" | j where "j \<in> set ids" "tk_stored tk j = Some c"
      unfolding writes_grow_def by blast
    then show False
    proof cases
      case 1
      moreover have "i \<in> set (ids @ ids')" using that(1) by simp
      then have "wr_entries w c = None" using assms(1) that(2) unfolding cids_ok_def by blast
      ultimately show False by simp
    next
      case (2 j)
      moreover from this that assms(1) have "j = i" unfolding cids_ok_def by (metis Un_iff set_append)
      ultimately show False using that(1) assms(1) by (auto simp: cids_ok_def)
    qed
  qed
  moreover have "i = j" if "i \<in> set ids'" "j \<in> set ids'" "tk_stored tk i = Some c" "tk_stored tk j = Some c" for i j c
    using assms(1) that unfolding cids_ok_def by (metis Un_iff set_append)
  moreover have "distinct ids'" using assms(1) by (simp add: cids_ok_def)
  ultimately show ?thesis unfolding cids_ok_def by blast
qed

lemma cids_ok_sub: "cids_ok tk ids B \<Longrightarrow> set ids' \<subseteq> set ids \<Longrightarrow> distinct ids' \<Longrightarrow> cids_ok tk ids' B"
  unfolding cids_ok_def by blast

lemma writeEntry_cases:
  obtains (failed) ks where "writeEntry E tk e pred w = (None, ks)"
  | (written) a entry ks where "writeEntry E tk e pred w = (Some (a, entry), ks)"
      "tk_stored tk (oe_id e) = Some (an_cid a)" "an_event a = oe_id e" "en_pred entry = pred"
      "entry_header entry = event_header e" "an_leaf a = MerkleLeafHash (ae_sha E) (ae_marshal E entry)"
proof (cases "writeEntry E tk e pred w")
  case (Pair m ks)
  show ?thesis
  proof (cases m)
    case None
    with Pair failed show ?thesis by simp
  next
    case (Some p)
    obtain a entry where p: "p = (a, entry)" by (cases p)
    with Pair Some have r: "writeEntry E tk e pred w = (Some (a, entry), ks)" by simp
    then obtain body kind sid where
      "entry = make_entry tk e pred body kind sid" "tk_stored tk (oe_id e) = Some (an_cid a)" "an_event a = oe_id e"
      "an_leaf a = MerkleLeafHash (ae_sha E) (ae_marshal E entry)"
      by (auto simp: writeEntry_def Let_def split: option.split_asm prod.split_asm)
    then show ?thesis
      by (intro written [OF r]) (simp_all add: make_entry_def entry_header_def event_header_def)
  qed
qed

text \<open>Every entry that counts as written is there, under its identifier, with its leaf hash.\<close>

definition anchored_ok :: "audit_env \<Rightarrow> tick \<Rightarrow> writes \<Rightarrow> bool" where
  "anchored_ok E tk w =
    (\<forall>a\<in>set (wr_anchored w). tk_stored tk (an_event a) = Some (an_cid a)
      \<and> (\<exists>entry. wr_entries w (an_cid a) = Some entry \<and> en_id entry = an_event a
            \<and> an_leaf a = MerkleLeafHash (ae_sha E) (ae_marshal E entry)))"

definition wr_add :: "anchored_entry \<Rightarrow> audit_entry \<Rightarrow> key_store \<Rightarrow> writes \<Rightarrow> writes" where
  "wr_add a entry ks w =
    w\<lparr>wr_anchored := wr_anchored w @ [a], wr_entries := (wr_entries w)(an_cid a \<mapsto> entry), wr_keys := ks\<rparr>"

lemma write_added:
  assumes "writeEntry E tk e pred ks0 = (Some (a, entry), ks)" "cids_ok tk (oe_id e # ids) (wr_entries w)"
  shows "writes_grow tk [oe_id e] w (wr_add a entry ks w)" "cids_ok tk ids (wr_entries (wr_add a entry ks w))"
    "anchored_ok E tk w \<Longrightarrow> anchored_ok E tk (wr_add a entry ks w)"
    "wr_entries (wr_add a entry ks w) (an_cid a) = Some entry"
proof -
  obtain stored: "tk_stored tk (oe_id e) = Some (an_cid a)" and ev: "an_event a = oe_id e"
    and hd: "entry_header entry = event_header e" and leaf: "an_leaf a = MerkleLeafHash (ae_sha E) (ae_marshal E entry)"
    by (rule writeEntry_cases [of E tk e pred ks0]) (use assms(1) in auto)
  have fresh: "wr_entries w (an_cid a) = None" using assms(2) stored by (simp add: cids_ok_def)
  show grow: "writes_grow tk [oe_id e] w (wr_add a entry ks w)"
    using fresh stored by (auto simp: writes_grow_def wr_add_def map_le_def)
  show "cids_ok tk ids (wr_entries (wr_add a entry ks w))"
    by (rule cids_ok_after [OF _ grow]) (use assms(2) in simp)
  show "wr_entries (wr_add a entry ks w) (an_cid a) = Some entry" by (simp add: wr_add_def)
  have keep: "wr_entries (wr_add a entry ks w) c = Some x" if "wr_entries w c = Some x" for c x
    using that fresh by (auto simp: wr_add_def)
  show "anchored_ok E tk (wr_add a entry ks w)" if "anchored_ok E tk w"
    unfolding anchored_ok_def
  proof
    fix b assume "b \<in> set (wr_anchored (wr_add a entry ks w))"
    then consider "b = a" | "b \<in> set (wr_anchored w)" by (auto simp: wr_add_def)
    then show "tk_stored tk (an_event b) = Some (an_cid b)
      \<and> (\<exists>entry'. wr_entries (wr_add a entry ks w) (an_cid b) = Some entry' \<and> en_id entry' = an_event b
            \<and> an_leaf b = MerkleLeafHash (ae_sha E) (ae_marshal E entry'))"
    proof cases
      case 1
      with stored ev leaf hd show ?thesis by (simp add: wr_add_def entry_header_def event_header_def)
    next
      case 2
      with that keep show ?thesis unfolding anchored_ok_def by blast
    qed
  qed
qed

text \<open>A chain grows by a prefix of its events and stops at the first one that cannot be written.\<close>

lemma write_chain_result:
  assumes "chain (wr_entries w) pred old" "cids_ok tk (map oe_id es) (wr_entries w)" "anchored_ok E tk w"
  obtains n new h as where "n \<le> length es" "map entry_header new = map event_header (take n es)"
    "chain (wr_entries (write_chain E tk key pred es w)) h (rev new @ old)"
    "wr_anchored (write_chain E tk key pred es w) = wr_anchored w @ as" "map an_event as = map oe_id (take n es)"
    "map_of (wr_heads (write_chain E tk key pred es w))
       = (if n = 0 then map_of (wr_heads w) else (map_of (wr_heads w))(key := h))" "n = 0 \<Longrightarrow> h = pred"
    "wr_failed (write_chain E tk key pred es w) = wr_failed w @ map oe_id (take 1 (drop n es))"
    "writes_grow tk (map oe_id es) w (write_chain E tk key pred es w)"
    "anchored_ok E tk (write_chain E tk key pred es w)"
proof -
  let ?P = "\<lambda>pred es w old n new h as. n \<le> length es \<and> map entry_header new = map event_header (take n es)
    \<and> chain (wr_entries (write_chain E tk key pred es w)) h (rev new @ old)
    \<and> wr_anchored (write_chain E tk key pred es w) = wr_anchored w @ as \<and> map an_event as = map oe_id (take n es)
    \<and> map_of (wr_heads (write_chain E tk key pred es w))
       = (if n = 0 then map_of (wr_heads w) else (map_of (wr_heads w))(key := h)) \<and> (n = 0 \<longrightarrow> h = pred)
    \<and> wr_failed (write_chain E tk key pred es w) = wr_failed w @ map oe_id (take 1 (drop n es))
    \<and> writes_grow tk (map oe_id es) w (write_chain E tk key pred es w)
    \<and> anchored_ok E tk (write_chain E tk key pred es w)"
  have "\<exists>n new h as. ?P pred es w old n new h as"
    using assms
  proof (induction es arbitrary: pred w old)
    case Nil
    then show ?case
      by (intro exI [of _ 0] exI [of _ "[]"] exI [of _ pred] exI [of _ "[]"]) simp
  next
    case (Cons e es)
    show ?case
    proof (cases rule: writeEntry_cases [of E tk e pred "wr_keys w"])
      case (failed ks)
      have "anchored_ok E tk (w\<lparr>wr_failed := wr_failed w @ [oe_id e], wr_keys := ks\<rparr>)"
        using Cons.prems(3) by (simp add: anchored_ok_def)
      with failed Cons.prems(1) show ?thesis
        by (intro exI [of _ 0] exI [of _ "[]"] exI [of _ pred] exI [of _ "[]"]) (simp add: writes_grow_def)
    next
      case (written a entry ks)
      define w1 where "w1 = w\<lparr>wr_anchored := wr_anchored w @ [a], wr_heads := AList.update key (an_cid a) (wr_heads w),
        wr_entries := (wr_entries w)(an_cid a \<mapsto> entry), wr_keys := ks\<rparr>"
      have step: "write_chain E tk key pred (e # es) w = write_chain E tk key (Some (an_cid a)) es w1"
        by (simp add: written(1) w1_def)
      have entries: "wr_entries w1 = wr_entries (wr_add a entry ks w)" "wr_anchored w1 = wr_anchored w @ [a]"
        "wr_failed w1 = wr_failed w" "map_of (wr_heads w1) = (map_of (wr_heads w))(key \<mapsto> an_cid a)"
        by (simp_all add: w1_def wr_add_def update_conv')
      have anch: "wr_anchored (wr_add a entry ks w) = wr_anchored w1" by (simp add: w1_def wr_add_def)
      note A = write_added [OF written(1) Cons.prems(2) [unfolded list.map]]
      have grow: "writes_grow tk [oe_id e] w w1" using A(1) by (simp add: writes_grow_def entries)
      have "chain (wr_entries w1) pred old"
        by (rule chain_mono [OF Cons.prems(1)]) (use grow in \<open>simp add: writes_grow_def\<close>)
      then have "chain (wr_entries w1) (Some (an_cid a)) (entry # old)"
        by (intro chain.Cons) (simp_all add: entries A(4) written(4))
      moreover have "cids_ok tk (map oe_id es) (wr_entries w1)" using A(2) by (simp add: entries)
      moreover have "anchored_ok E tk w1" using A(3) [OF Cons.prems(3)] by (simp add: anchored_ok_def entries anch)
      ultimately obtain n new h as where IH: "?P (Some (an_cid a)) es w1 (entry # old) n new h as"
        using Cons.IH by blast
      have "?P pred (e # es) w old (Suc n) (entry # new) h (a # as)"
        unfolding step
        using IH written(3,5) writes_grow_trans [OF grow, of "map oe_id es" "write_chain E tk key (Some (an_cid a)) es w1"]
        by (auto simp: entries)
      then show ?thesis by blast
    qed
  qed
  then obtain n new h as where "?P pred es w old n new h as" by blast
  then show thesis by (intro that [of n new h as]) simp_all
qed

text \<open>All the chains of a batch, one after the other: each grows by a prefix of its own events.\<close>

definition event_ids :: "chain_key list \<Rightarrow> outbox_event list \<Rightarrow> int list" where
  "event_ids keys events = concat (map (\<lambda>key. map oe_id (chain_events key events)) keys)"

definition head_after :: "(chain_key \<times> string) list \<Rightarrow> (chain_key \<Rightarrow> string option) \<Rightarrow> chain_key \<Rightarrow> string option" where
  "head_after hs heads key = (case map_of hs key of None \<Rightarrow> heads key | Some c \<Rightarrow> Some c)"

definition prefix_ids :: "(chain_key \<Rightarrow> nat) \<Rightarrow> outbox_event list \<Rightarrow> int set" where
  "prefix_ids n events = (\<Union>key. oe_id ` set (take (n key) (chain_events key events)))"

lemma set_event_ids: "set (event_ids keys events) = {oe_id e | e. e \<in> set events \<and> chainKeyFor e \<in> Some ` set keys}"
  by (auto simp: event_ids_def chain_events_def)

lemma event_ids_snoc [simp]: "event_ids (keys @ [key]) events = event_ids keys events @ map oe_id (chain_events key events)"
  by (simp add: event_ids_def)

lemma event_id_inj: "distinct (map oe_id events) \<Longrightarrow> e \<in> set events \<Longrightarrow> e' \<in> set events \<Longrightarrow> oe_id e = oe_id e' \<Longrightarrow> e = e'"
  by (auto simp: distinct_map inj_on_def)

lemma distinct_event_ids: "distinct (map oe_id events) \<Longrightarrow> distinct keys \<Longrightarrow> distinct (event_ids keys events)"
proof (induction keys rule: rev_induct)
  case (snoc key keys)
  have "set (event_ids keys events) \<inter> oe_id ` set (chain_events key events) = {}"
  proof (rule ccontr)
    assume "set (event_ids keys events) \<inter> oe_id ` set (chain_events key events) \<noteq> {}"
    then obtain i where i: "i \<in> set (event_ids keys events)" "i \<in> oe_id ` set (chain_events key events)" by blast
    then obtain e e' where "e \<in> set events" "chainKeyFor e \<in> Some ` set keys" "e' \<in> set events" "chainKeyFor e' = Some key"
      "oe_id e = oe_id e'" unfolding set_event_ids chain_events_def by auto
    with event_id_inj [OF snoc.prems(1)] have "key \<in> set keys" by force
    with snoc.prems(2) show False by simp
  qed
  with snoc show ?case by (simp add: chain_events_def distinct_map_filter)
qed (simp add: event_ids_def)

definition chains_written ::
  "audit_env \<Rightarrow> tick \<Rightarrow> outbox_event list \<Rightarrow> (chain_key \<Rightarrow> string option) \<Rightarrow> (chain_key \<Rightarrow> audit_entry list)
     \<Rightarrow> chain_key list \<Rightarrow> (chain_key \<Rightarrow> nat) \<Rightarrow> (chain_key \<Rightarrow> audit_entry list) \<Rightarrow> writes \<Rightarrow> bool" where
  "chains_written E tk events heads old keys n new w =
    ((\<forall>key. chain (wr_entries w) (head_after (wr_heads w) heads key) (rev (new key) @ old key))
     \<and> (\<forall>key. map entry_header (new key) = map event_header (take (n key) (chain_events key events)))
     \<and> (\<forall>key. key \<notin> set keys \<longrightarrow> n key = 0 \<and> map_of (wr_heads w) key = None)
     \<and> distinct (map an_event (wr_anchored w)) \<and> set (map an_event (wr_anchored w)) = prefix_ids n events
     \<and> distinct (wr_failed w) \<and> set (wr_failed w) \<subseteq> set (event_ids keys events)
     \<and> anchored_ok E tk w)"

lemma prefix_ids_sub:
  assumes "\<And>key. key \<notin> set keys \<Longrightarrow> n key = 0"
  shows "prefix_ids n events \<subseteq> set (event_ids keys events)"
proof
  fix i assume "i \<in> prefix_ids n events"
  then obtain key e where e: "e \<in> set (take (n key) (chain_events key events))" "i = oe_id e"
    by (auto simp: prefix_ids_def)
  then have "key \<in> set keys" using assms by (metis empty_iff empty_set take0)
  moreover from e have "e \<in> set events" "chainKeyFor e = Some key"
    using in_set_takeD by (fastforce simp: chain_events_def)+
  ultimately show "i \<in> set (event_ids keys events)" using e by (auto simp: set_event_ids)
qed

lemma prefix_ids_upd:
  "n key = 0 \<Longrightarrow> prefix_ids (n(key := m)) events = prefix_ids n events \<union> oe_id ` set (take m (chain_events key events))"
  unfolding prefix_ids_def
proof (rule set_eqI)
  fix i assume "n key = 0"
  then show "(i \<in> (\<Union>k. oe_id ` set (take ((n(key := m)) k) (chain_events k events)))) =
    (i \<in> (\<Union>k. oe_id ` set (take (n k) (chain_events k events))) \<union> oe_id ` set (take m (chain_events key events)))"
    unfolding UN_iff Un_iff by (metis (no_types, lifting) UNIV_I empty_iff fun_upd_apply image_empty list.set(1) take0)
qed

lemma distinct_append_apart:
  "distinct xs \<Longrightarrow> distinct ys \<Longrightarrow> set xs \<subseteq> A \<Longrightarrow> set ys \<subseteq> B \<Longrightarrow> A \<inter> B = {} \<Longrightarrow>
    distinct (xs @ ys) \<and> set (xs @ ys) \<subseteq> A \<union> B"
  by auto

lemma take_ids_sub: "i \<in> oe_id ` set (take m (chain_events key events)) \<Longrightarrow> i \<in> set (map oe_id (chain_events key events))"
  using in_set_takeD by fastforce

lemma chains_written_step:
  assumes W: "chains_written E tk events heads old keys n new w" and key: "key \<notin> set keys"
    and cids: "cids_ok tk (map oe_id (chain_events key events)) (wr_entries w)"
    and disj: "set (event_ids keys events) \<inter> set (map oe_id (chain_events key events)) = {}"
  obtains n' new' where "chains_written E tk events heads old (keys @ [key]) n' new'
      (write_chain E tk key (heads key) (chain_events key events) w)"
    "writes_grow tk (map oe_id (chain_events key events)) w (write_chain E tk key (heads key) (chain_events key events) w)"
proof -
  let ?es = "chain_events key events" and ?w' = "write_chain E tk key (heads key) (chain_events key events) w"
  from W key have n0: "n key = 0" "map_of (wr_heads w) key = None" unfolding chains_written_def by blast+
  from W have "map entry_header (new key) = map event_header (take (n key) (chain_events key events))"
    unfolding chains_written_def by blast
  with n0(1) have new0: "new key = []" by simp
  have c0: "chain (wr_entries w) (heads key) (old key)"
    using W n0 new0 unfolding chains_written_def head_after_def by (metis append_Nil option.simps(4) rev.simps(1))
  have ok0: "anchored_ok E tk w" using W unfolding chains_written_def by blast
  obtain m nw h as where m: "m \<le> length ?es" "map entry_header nw = map event_header (take m ?es)"
    "chain (wr_entries ?w') h (rev nw @ old key)" "wr_anchored ?w' = wr_anchored w @ as" "map an_event as = map oe_id (take m ?es)"
    "map_of (wr_heads ?w') = (if m = 0 then map_of (wr_heads w) else (map_of (wr_heads w))(key := h))" "m = 0 \<Longrightarrow> h = heads key"
    "wr_failed ?w' = wr_failed w @ map oe_id (take 1 (drop m ?es))"
    and grow: "writes_grow tk (map oe_id ?es) w ?w'" and ok: "anchored_ok E tk ?w'"
    by (rule write_chain_result [OF c0 cids ok0, of key]) (rule that, assumption+)
  have hd: "head_after (wr_heads ?w') heads k = (if k = key then h else head_after (wr_heads w) heads k)" for k
  proof (cases "m = 0")
    case True
    with m(6,7) n0(2) show ?thesis by (simp add: head_after_def)
  next
    case False
    have "length nw = m" using arg_cong [OF m(2), of length] m(1) by simp
    with False obtain c where "h = Some c" using m(3) by (cases h) (auto elim: chain_NoneE)
    with m(6) False show ?thesis by (simp add: head_after_def)
  qed
  have le: "wr_entries w \<subseteq>\<^sub>m wr_entries ?w'" using grow unfolding writes_grow_def by blast
  have "chain (wr_entries ?w') (head_after (wr_heads ?w') heads k) (rev ((new(key := nw)) k) @ old k)" for k
    using m(3) chain_mono [OF _ le] W unfolding hd chains_written_def by simp
  moreover have "map entry_header ((new(key := nw)) k) = map event_header (take ((n(key := m)) k) (chain_events k events))" for k
    using W m(2) unfolding chains_written_def by simp
  moreover have "k \<notin> set (keys @ [key]) \<longrightarrow> (n(key := m)) k = 0 \<and> map_of (wr_heads ?w') k = None" for k
    using W m(6) unfolding chains_written_def by auto
  moreover have anch: "set (map an_event (wr_anchored ?w')) = prefix_ids (n(key := m)) events"
    using W m(4,5) prefix_ids_upd [where n = n and key = key and m = m and events = events, OF n0(1)] unfolding chains_written_def
    by (metis (no_types, lifting) list.set_map map_append set_append)
  moreover have "distinct (map an_event (wr_anchored ?w'))"
  proof -
    have "set (map an_event (wr_anchored w)) \<subseteq> set (event_ids keys events)"
      using W prefix_ids_sub [of keys n events] unfolding chains_written_def by (metis (no_types, lifting))
    moreover have "set (map an_event as) \<subseteq> set (map oe_id ?es)" using m(5) take_ids_sub by fastforce
    moreover have "distinct (map an_event as)" using cids m(5) by (simp add: cids_ok_def flip: take_map)
    moreover have "distinct (map an_event (wr_anchored w))" using W unfolding chains_written_def by blast
    ultimately show ?thesis
      unfolding m(4) map_append by (intro distinct_append_apart [OF _ _ _ _ disj, THEN conjunct1])
  qed
  moreover have "distinct (wr_failed ?w') \<and> set (wr_failed ?w') \<subseteq> set (event_ids (keys @ [key]) events)"
  proof -
    have sub: "set (map oe_id (take 1 (drop m ?es))) \<subseteq> set (map oe_id ?es)"
      using in_set_takeD in_set_dropD by fastforce
    moreover have "distinct (map oe_id (take 1 (drop m ?es)))" using cids by (simp add: cids_ok_def flip: take_map drop_map)
    moreover have "distinct (wr_failed w)" "set (wr_failed w) \<subseteq> set (event_ids keys events)"
      using W unfolding chains_written_def by blast+
    ultimately show ?thesis
      unfolding m(8) event_ids_snoc set_append [of "event_ids keys events"]
      by (intro distinct_append_apart [OF _ _ _ _ disj])
  qed
  ultimately have "chains_written E tk events heads old (keys @ [key]) (n(key := m)) (new(key := nw)) ?w'"
    using ok unfolding chains_written_def by blast
  then show thesis using that grow by blast
qed

lemma chains_written_all:
  assumes "distinct keys" "distinct (map oe_id events)" "cids_ok tk (event_ids keys events) (wr_entries w)"
    "chains_written E tk events heads old [] n0 new0 w"
  shows "\<exists>n new. chains_written E tk events heads old keys n new
      (fold (\<lambda>key. write_chain E tk key (heads key) (chain_events key events)) keys w)
    \<and> writes_grow tk (event_ids keys events) w (fold (\<lambda>key. write_chain E tk key (heads key) (chain_events key events)) keys w)"
  using assms(1,3)
proof (induction keys rule: rev_induct)
  case Nil
  then show ?case using assms(4) by auto
next
  case (snoc key keys)
  let ?w = "fold (\<lambda>key. write_chain E tk key (heads key) (chain_events key events)) keys w"
  have cids: "cids_ok tk (event_ids keys events @ map oe_id (chain_events key events)) (wr_entries w)"
    using snoc.prems(2) by simp
  then have "cids_ok tk (event_ids keys events) (wr_entries w)" by (rule cids_ok_sub) (use cids in \<open>auto simp: cids_ok_def\<close>)
  with snoc obtain n new where W: "chains_written E tk events heads old keys n new ?w"
    "writes_grow tk (event_ids keys events) w ?w" by auto
  have "set (event_ids keys events) \<inter> set (map oe_id (chain_events key events)) = {}"
    using cids unfolding cids_ok_def distinct_append by blast
  then have disj: "set (event_ids keys events) \<inter> set (map oe_id (chain_events key events)) = {}" .
  have key: "key \<notin> set keys" using snoc.prems(1) by simp
  obtain n' new' where "chains_written E tk events heads old (keys @ [key]) n' new'
      (write_chain E tk key (heads key) (chain_events key events) ?w)"
    "writes_grow tk (map oe_id (chain_events key events)) ?w (write_chain E tk key (heads key) (chain_events key events) ?w)"
    by (rule chains_written_step [OF W(1) key cids_ok_after [OF cids W(2)] disj]) (rule that, assumption+)
  with writes_grow_trans [OF W(2)] show ?case by auto
qed

text \<open>The whole batch: besides, the events without a chain are each written or recorded as failed.\<close>

definition batch_written ::
  "audit_env \<Rightarrow> tick \<Rightarrow> outbox_event list \<Rightarrow> (chain_key \<Rightarrow> string option) \<Rightarrow> (chain_key \<Rightarrow> audit_entry list)
     \<Rightarrow> chain_key list \<Rightarrow> int list \<Rightarrow> (chain_key \<Rightarrow> nat) \<Rightarrow> (chain_key \<Rightarrow> audit_entry list) \<Rightarrow> writes \<Rightarrow> bool" where
  "batch_written E tk events heads old keys ids n new w =
    ((\<forall>key. chain (wr_entries w) (head_after (wr_heads w) heads key) (rev (new key) @ old key))
     \<and> (\<forall>key. map entry_header (new key) = map event_header (take (n key) (chain_events key events)))
     \<and> distinct (map an_event (wr_anchored w)) \<and> set (map an_event (wr_anchored w)) \<subseteq> prefix_ids n events \<union> set ids
     \<and> prefix_ids n events \<subseteq> set (map an_event (wr_anchored w)) \<inter> set (event_ids keys events)
     \<and> distinct (wr_failed w) \<and> set (wr_failed w) \<subseteq> set (event_ids keys events) \<union> set ids
     \<and> anchored_ok E tk w)"

lemma write_unchained_cases:
  obtains (failed) ks where "write_unchained E tk e w = w\<lparr>wr_failed := wr_failed w @ [oe_id e], wr_keys := ks\<rparr>"
  | (written) a entry ks where "write_unchained E tk e w = wr_add a entry ks w" "an_event a = oe_id e"
      "writeEntry E tk e None (wr_keys w) = (Some (a, entry), ks)"
  by (cases rule: writeEntry_cases [of E tk e None "wr_keys w"]) (auto simp: write_unchained_def wr_add_def)

lemma chains_written_batch:
  "chains_written E tk events heads old keys n new w \<Longrightarrow> batch_written E tk events heads old keys [] n new w"
  using prefix_ids_sub [of keys n events] unfolding chains_written_def batch_written_def by simp

lemma batch_written_step:
  assumes W: "batch_written E tk events heads old keys ids n new w" and cids: "cids_ok tk [oe_id e] (wr_entries w)"
    and fresh: "oe_id e \<notin> set (event_ids keys events)" "oe_id e \<notin> set ids"
  shows "batch_written E tk events heads old keys (ids @ [oe_id e]) n new (write_unchained E tk e w)
    \<and> writes_grow tk [oe_id e] w (write_unchained E tk e w)"
proof (cases rule: write_unchained_cases [of E tk e w])
  case (failed ks)
  have "oe_id e \<notin> set (wr_failed w)" using W fresh unfolding batch_written_def by blast
  moreover have "anchored_ok E tk (w\<lparr>wr_failed := wr_failed w @ [oe_id e], wr_keys := ks\<rparr>)"
    using W unfolding batch_written_def by (simp add: anchored_ok_def)
  ultimately show ?thesis
    using W unfolding failed batch_written_def by (auto simp: writes_grow_def)
next
  case (written a entry ks)
  note A = write_added [OF written(3), of "[]" w]
  have grow: "writes_grow tk [oe_id e] w (wr_add a entry ks w)" by (rule A(1) [OF cids])
  then have le: "wr_entries w \<subseteq>\<^sub>m wr_entries (wr_add a entry ks w)" unfolding writes_grow_def by blast
  have same: "wr_heads (wr_add a entry ks w) = wr_heads w" "wr_failed (wr_add a entry ks w) = wr_failed w"
    "wr_anchored (wr_add a entry ks w) = wr_anchored w @ [a]" by (simp_all add: wr_add_def)
  have "oe_id e \<notin> set (map an_event (wr_anchored w))" using W fresh unfolding batch_written_def by blast
  moreover have "anchored_ok E tk (wr_add a entry ks w)" by (rule A(3) [OF cids]) (use W in \<open>simp add: batch_written_def\<close>)
  moreover have "chain (wr_entries (wr_add a entry ks w)) (head_after (wr_heads w) heads key) (rev (new key) @ old key)" for key
    by (rule chain_mono [OF _ le]) (use W in \<open>simp add: batch_written_def\<close>)
  ultimately show ?thesis
    using W grow unfolding written(1) batch_written_def same by (auto simp: written(2))
qed

lemma batch_written_all:
  assumes "cids_ok tk (map oe_id us) (wr_entries w)" "set (map oe_id us) \<inter> set (event_ids keys events) = {}"
    "batch_written E tk events heads old keys [] n new w"
  shows "batch_written E tk events heads old keys (map oe_id us) n new (fold (write_unchained E tk) us w)
    \<and> writes_grow tk (map oe_id us) w (fold (write_unchained E tk) us w)"
  using assms
proof (induction us rule: rev_induct)
  case (snoc u us)
  let ?w = "fold (write_unchained E tk) us w"
  have cids: "cids_ok tk (map oe_id us @ [oe_id u]) (wr_entries w)" using snoc.prems(1) by simp
  then have "cids_ok tk (map oe_id us) (wr_entries w)" by (rule cids_ok_sub) (use cids in \<open>auto simp: cids_ok_def\<close>)
  with snoc have IH: "batch_written E tk events heads old keys (map oe_id us) n new ?w" "writes_grow tk (map oe_id us) w ?w"
    by auto
  have "oe_id u \<notin> set (event_ids keys events)" "oe_id u \<notin> set (map oe_id us)"
    using snoc.prems(2) cids unfolding cids_ok_def by auto
  from batch_written_step [OF IH(1) cids_ok_after [OF cids IH(2)] this] writes_grow_trans [OF IH(2)]
  show ?case by simp
qed simp

lemma set_batch_keys: "set (batch_keys events) = {key. \<exists>e\<in>set events. chainKeyFor e = Some key}"
  by (induction events) (auto simp: batch_keys_def List.map_filter_simps split: option.splits)

definition fresh_writes :: "(string \<Rightarrow> audit_entry option) \<Rightarrow> key_store \<Rightarrow> writes" where
  "fresh_writes B ks = \<lparr>wr_anchored = [], wr_heads = [], wr_entries = B, wr_failed = [], wr_keys = ks\<rparr>"

abbreviation unchained :: "outbox_event list \<Rightarrow> outbox_event list" where
  "unchained events \<equiv> filter (\<lambda>e. chainKeyFor e = None) events"

lemma writeEntries_result:
  assumes "distinct (map oe_id events)" "cids_ok tk (map oe_id events) B" "\<And>key. chain B (heads key) (old key)"
  obtains n new where "batch_written E tk events heads old (batch_keys events) (map oe_id (unchained events)) n new
      (writeEntries E tk events heads (fresh_writes B ks))"
    "writes_grow tk (map oe_id events) (fresh_writes B ks) (writeEntries E tk events heads (fresh_writes B ks))"
proof -
  let ?w0 = "fresh_writes B ks" and ?keys = "batch_keys events" and ?us = "map oe_id (unchained events)"
  let ?w1 = "fold (\<lambda>key. write_chain E tk key (heads key) (chain_events key events)) ?keys ?w0"
  have dk: "distinct ?keys" by (simp add: batch_keys_def)
  have d: "distinct (event_ids ?keys events)" by (rule distinct_event_ids [OF assms(1) dk])
  have sub: "set (event_ids ?keys events) \<subseteq> set (map oe_id events)" "set ?us \<subseteq> set (map oe_id events)"
    by (auto simp: set_event_ids)
  have disj: "set ?us \<inter> set (event_ids ?keys events) = {}"
    using event_id_inj [OF assms(1)] by (fastforce simp: set_event_ids)
  have "chains_written E tk events heads old [] (\<lambda>_. 0) (\<lambda>_. []) ?w0"
    using assms(3) by (simp add: chains_written_def fresh_writes_def head_after_def prefix_ids_def anchored_ok_def)
  moreover have all: "cids_ok tk (event_ids ?keys events @ ?us) B"
    by (rule cids_ok_sub [OF assms(2)]) (use sub d disj assms(1) in \<open>auto simp: distinct_map_filter\<close>)
  moreover have "cids_ok tk (event_ids ?keys events) (wr_entries ?w0)"
    using cids_ok_sub [OF all, of "event_ids ?keys events"] d by (simp add: fresh_writes_def)
  ultimately obtain n new where W: "chains_written E tk events heads old ?keys n new ?w1"
    "writes_grow tk (event_ids ?keys events) ?w0 ?w1"
    using chains_written_all [OF _ assms(1), of ?keys tk ?w0 E heads old] dk by blast
  have "cids_ok tk ?us (wr_entries ?w1)"
    by (rule cids_ok_after [OF _ W(2)]) (use all in \<open>simp add: fresh_writes_def\<close>)
  from batch_written_all [OF this disj chains_written_batch [OF W(1)]]
  have R: "batch_written E tk events heads old ?keys ?us n new (writeEntries E tk events heads ?w0)"
    "writes_grow tk ?us ?w1 (writeEntries E tk events heads ?w0)" by (simp_all add: writeEntries_def)
  have "writes_grow tk (map oe_id events) ?w0 (writeEntries E tk events heads ?w0)"
    by (rule writes_grow_more [OF writes_grow_trans [OF W(2) R(2)]]) (use sub in auto)
  with R(1) show thesis by (rule that)
qed

lemma anchored_iff_prefix:
  assumes W: "batch_written E tk events heads old keys (map oe_id (unchained events)) n new w"
    and d: "distinct (map oe_id events)" and e: "e \<in> set events" "chainKeyFor e = Some key"
  shows "oe_id e \<in> set (map an_event (wr_anchored w)) \<longleftrightarrow> e \<in> set (take (n key) (chain_events key events))"
proof
  assume "oe_id e \<in> set (map an_event (wr_anchored w))"
  with W consider "oe_id e \<in> prefix_ids n events" | "oe_id e \<in> set (map oe_id (unchained events))"
    unfolding batch_written_def by blast
  then show "e \<in> set (take (n key) (chain_events key events))"
  proof cases
    case 1
    then obtain k e' where e': "e' \<in> set (take (n k) (chain_events k events))" "oe_id e = oe_id e'"
      by (auto simp: prefix_ids_def)
    then have "e' \<in> set events" "chainKeyFor e' = Some k" using in_set_takeD by (fastforce simp: chain_events_def)+
    with e' e event_id_inj [OF d e(1), of e'] show ?thesis by simp
  next
    case 2
    then obtain u where "u \<in> set events" "chainKeyFor u = None" "oe_id e = oe_id u" by auto
    with e event_id_inj [OF d e(1), of u] show ?thesis by simp
  qed
next
  assume "e \<in> set (take (n key) (chain_events key events))"
  then have "oe_id e \<in> prefix_ids n events" by (auto simp: prefix_ids_def)
  with W show "oe_id e \<in> set (map an_event (wr_anchored w))" unfolding batch_written_def by blast
qed

lemma heads_distinct_chain: "distinct (map fst (wr_heads w)) \<Longrightarrow> distinct (map fst (wr_heads (write_chain E tk key pred es w)))"
  by (induction es arbitrary: pred w) (auto simp: distinct_update split: prod.split option.split)

lemma heads_distinct_unchained: "wr_heads (write_unchained E tk e w) = wr_heads w"
  by (simp add: write_unchained_def split: prod.split option.split)

lemma heads_distinct: "distinct (map fst (wr_heads (writeEntries E tk events heads (fresh_writes B ks))))"
proof -
  have "distinct (map fst (wr_heads (fold (\<lambda>key. write_chain E tk key (heads key) (chain_events key events)) keys (fresh_writes B ks))))"
    for keys by (induction keys rule: rev_induct) (simp_all add: fresh_writes_def heads_distinct_chain)
  moreover have "wr_heads (fold (write_unchained E tk) us w) = wr_heads w" for us w
    by (induction us arbitrary: w) (simp_all add: heads_distinct_unchained)
  ultimately show ?thesis by (simp add: writeEntries_def)
qed

end
