(* ===== verification/Audit_Trail.thy ===== *)
theory Audit_Trail
  imports Audit_Anchor
begin

text \<open>
  What the audit trail holds after any history of its tickers: the per-resource chains
  and the checkpoints account for every processed event exactly once, every anchored
  entry has an inclusion proof, and an event that cannot be anchored is given up after
  a bounded number of attempts.  A history is a sequence of steps of \<open>au_step\<close>: a
  command records an event, a ticker runs, or the key store changes under the trail.
  The query side of \<open>processauditandcompliance/query/querycheckpoint.go\<close> is here too.
\<close>

section \<open>Proofs of inclusion\<close>

record checkpoint_proof =
  pf_cid :: string
  pf_leaf :: string
  pf_index :: nat
  pf_siblings :: "string list"
  pf_head :: checkpoint_row

datatype proof_error = NoProof string | ProofDoesNotReproduceRoot int

text \<open>\<open>Proof\<close>: \<open>Inr None\<close> when no checkpoint commits to the entry.\<close>

definition Proof :: "(bytes \<Rightarrow> bytes) \<Rightarrow> audit_state \<Rightarrow> string \<Rightarrow> (proof_error, checkpoint_proof option) result" where
  "Proof sha st cid =
    (case ReadCheckpointForEntry cid st of
       None \<Rightarrow> Inr None
     | Some (r, hashes, index) \<Rightarrow>
         (case MerkleInclusionProof sha hashes (int index) of
            None \<Rightarrow> Inl (NoProof cid)
          | Some siblings \<Rightarrow>
              if VerifyMerkleInclusion sha (hashes ! index) siblings (int index) (int (length hashes)) (cr_root r)
              then Inr (Some \<lparr>pf_cid = cid, pf_leaf = hashes ! index, pf_index = index, pf_siblings = siblings, pf_head = r\<rparr>)
              else Inl (ProofDoesNotReproduceRoot (cr_seq r))))"

definition Head :: "audit_state \<Rightarrow> checkpoint_row option" where
  "Head st = (if au_checkpoints st = [] then None else Some (last (au_checkpoints st)))"

definition BySequence :: "int \<Rightarrow> audit_state \<Rightarrow> checkpoint_row option" where
  "BySequence seq st = find (\<lambda>r. cr_seq r = seq) (au_checkpoints st)"

section \<open>Histories\<close>

definition tick_ok :: "tick \<Rightarrow> audit_state \<Rightarrow> bool" where
  "tick_ok tk st =
    (cids_ok tk (map oe_id (select_events st)) (au_entries st)
     \<and> (\<forall>c. tk_checkpoint tk = Some c \<longrightarrow> au_objects st c = None))"

definition new_event :: "outbox_event \<Rightarrow> bool" where
  "new_event e = (\<not> oe_processed e \<and> \<not> oe_published e \<and> oe_attempts e = 0 \<and> \<not> oe_dead e)"

inductive au_step :: "audit_env \<Rightarrow> audit_state \<Rightarrow> audit_state \<Rightarrow> bool" for E where
  Record: "new_event e \<Longrightarrow> oe_id e \<notin> oe_id ` set (au_outbox st) \<Longrightarrow>
    au_step E st (st\<lparr>au_outbox := au_outbox st @ [e]\<rparr>)"
| Process: "tick_ok tk st \<Longrightarrow> au_step E st (processing_tick E tk st)"
| Publish: "au_step E st (publishing_tick published st)"
| Timestamp: "au_step E st (timestamping_tick tsa st)"
| Keys: "au_step E st (st\<lparr>au_keys := ks\<rparr>)"

definition empty_trail :: "key_store \<Rightarrow> audit_state" where
  "empty_trail ks = \<lparr>au_outbox = [], au_heads = (\<lambda>_. None), au_entries = (\<lambda>_. None), au_objects = (\<lambda>_. None),
     au_checkpoints = [], au_leaves = [], au_seq = 0, au_keys = ks\<rparr>"

definition au_reachable :: "audit_env \<Rightarrow> audit_state \<Rightarrow> bool" where
  "au_reachable E st = (\<exists>ks. (au_step E)\<^sup>*\<^sup>* (empty_trail ks) st)"

lemma au_reachable_induct [consumes 1, case_names init step]:
  assumes "au_reachable E st" "\<And>ks. P (empty_trail ks)" "\<And>st st'. au_reachable E st \<Longrightarrow> P st \<Longrightarrow> au_step E st st' \<Longrightarrow> P st'"
  shows "P st"
proof -
  obtain ks where "(au_step E)\<^sup>*\<^sup>* (empty_trail ks) st" using assms(1) by (auto simp: au_reachable_def)
  then have "P st \<and> au_reachable E st"
  proof (induction rule: rtranclp_induct)
    case base
    then show ?case using assms(2) by (auto simp: au_reachable_def)
  next
    case (step y z)
    then show ?case using assms(3) by (auto simp: au_reachable_def intro: rtranclp.rtrancl_into_rtrancl)
  qed
  then show ?thesis by blast
qed

section \<open>The outbox\<close>

lemma fold_update_event:
  assumes "\<And>e. oe_id (f e) = oe_id e" "distinct is"
  shows "fold (\<lambda>i. update_event i f) is evs = map (\<lambda>e. if oe_id e \<in> set is then f e else e) evs"
  using assms(2)
proof (induction "is" arbitrary: evs)
  case (Cons i "is")
  then show ?case by (auto simp: update_event_def assms(1))
qed simp

definition mark_ids :: "int set \<Rightarrow> (outbox_event \<Rightarrow> outbox_event) \<Rightarrow> outbox_event list \<Rightarrow> outbox_event list" where
  "mark_ids S f evs = map (\<lambda>e. if oe_id e \<in> S then f e else e) evs"

definition processed_mark :: "outbox_event \<Rightarrow> outbox_event" where
  "processed_mark e = e\<lparr>oe_processed := True\<rparr>"

definition failure_mark :: "outbox_event \<Rightarrow> outbox_event" where
  "failure_mark e = e\<lparr>oe_attempts := oe_attempts e + 1, oe_dead := (oe_dead e \<or> oe_attempts e + 1 \<ge> OutboxAnchorMaxAttempts)\<rparr>"

lemma mark_fields [simp]:
  "oe_id (processed_mark e) = oe_id e" "oe_id (failure_mark e) = oe_id e"
  "event_header (processed_mark e) = event_header e" "event_header (failure_mark e) = event_header e"
  "chainKeyFor (processed_mark e) = chainKeyFor e" "chainKeyFor (failure_mark e) = chainKeyFor e"
  "oe_type (processed_mark e) = oe_type e" "oe_type (failure_mark e) = oe_type e"
  "oe_processed (failure_mark e) = oe_processed e" "oe_processed (processed_mark e)"
  by (simp_all add: processed_mark_def failure_mark_def event_header_def chainKeyFor_def isResourceDID_def)

lemma fold_processed: "fold UpdateOutboxEvent is evs = mark_ids (set is) processed_mark evs"
proof (induction "is" arbitrary: evs)
  case (Cons i "is")
  then show ?case by (auto simp: UpdateOutboxEvent_def update_event_def mark_ids_def processed_mark_def)
qed (simp add: mark_ids_def)

lemma fold_failed: "distinct is \<Longrightarrow> fold RecordOutboxAnchorFailure is evs = mark_ids (set is) failure_mark evs"
  using fold_update_event [of failure_mark "is" evs]
  unfolding mark_ids_def RecordOutboxAnchorFailure_def failure_mark_def [abs_def, symmetric] by simp

lemma mark_ids_ids [simp]: "(\<And>e. oe_id (f e) = oe_id e) \<Longrightarrow> map oe_id (mark_ids S f evs) = map oe_id evs"
  by (simp add: mark_ids_def)

section \<open>One tick\<close>

definition au_writes :: "audit_env \<Rightarrow> tick \<Rightarrow> outbox_event list \<Rightarrow> audit_state \<Rightarrow> writes" where
  "au_writes E tk events st =
    writeEntries E tk events (\<lambda>key. ReadLogCID key st) (fresh_writes (au_entries st) (au_keys st))"

definition after_writes :: "writes \<Rightarrow> (string \<Rightarrow> audit_checkpoint option) \<Rightarrow> int \<Rightarrow> audit_state \<Rightarrow> audit_state" where
  "after_writes w objects seq st =
    st\<lparr>au_entries := wr_entries w, au_keys := wr_keys w,
       au_outbox := fold RecordOutboxAnchorFailure (wr_failed w) (au_outbox st), au_objects := objects, au_seq := seq\<rparr>"

lemma anchorBatch_cases:
  obtains (left) objects seq where "anchorBatch E tk events st = after_writes (au_writes E tk events st) objects seq st"
      "au_seq st \<le> seq" "objects = au_objects st \<or> (\<exists>c cp. tk_checkpoint tk = Some c \<and> objects = (au_objects st)(c \<mapsto> cp))"
  | (committed) anchored root c cp where
      "anchored = sort_key an_event (wr_anchored (au_writes E tk events st))" "anchored \<noteq> []"
      "MerkleRoot (ae_sha E) (map an_leaf anchored) = Some root" "tk_checkpoint tk = Some c"
      "cp = \<lparr>cp_root = root, cp_prev = ReadLatestCheckpointRoot st, cp_leaf_hashes = map an_leaf anchored,
              cp_leaf_cids = map an_cid anchored\<rparr>"
      "anchorBatch E tk events st = commit_batch tk anchored (wr_heads (au_writes E tk events st)) root
         (ReadLatestCheckpointRoot st) c
         (after_writes (au_writes E tk events st) ((au_objects st)(c \<mapsto> cp)) (au_seq st) st)"
proof -
  let ?w = "au_writes E tk events st"
  let ?anchored = "sort_key an_event (wr_anchored ?w)"
  let ?st1 = "st\<lparr>au_entries := wr_entries ?w, au_keys := wr_keys ?w,
    au_outbox := fold RecordOutboxAnchorFailure (wr_failed ?w) (au_outbox st)\<rparr>"
  have st1: "?st1 = after_writes ?w (au_objects st) (au_seq st) st" by (simp add: after_writes_def)
  note unfolded = anchorBatch_def [of E tk events st, folded fresh_writes_def, folded au_writes_def] Let_def
  have prev: "ReadLatestCheckpointRoot ?st1 = ReadLatestCheckpointRoot st" by (simp add: ReadLatestCheckpointRoot_def)
  show thesis
  proof (cases "wr_anchored ?w = []")
    case True
    then show thesis by (intro left [of "au_objects st" "au_seq st"]) (simp_all add: unfolded st1)
  next
    case False
    then have ne: "?anchored \<noteq> []" by (metis length_0_conv length_sort)
    show thesis
    proof (cases "MerkleRoot (ae_sha E) (map an_leaf ?anchored)")
      case None
      with False show thesis by (intro left [of "au_objects st" "au_seq st"]) (simp_all add: unfolded st1)
    next
      case root: (Some root)
      show thesis
      proof (cases "tk_checkpoint tk")
        case None
        with False root show thesis by (intro left [of "au_objects st" "au_seq st"]) (simp_all add: unfolded st1)
      next
        case (Some c)
        let ?cp = "\<lparr>cp_root = root, cp_prev = ReadLatestCheckpointRoot st, cp_leaf_hashes = map an_leaf ?anchored,
              cp_leaf_cids = map an_cid ?anchored\<rparr>"
        show thesis
        proof (cases "tk_commit tk")
          case True
          with False ne root Some prev show thesis
            by (intro committed [of ?anchored root c ?cp]) (simp_all add: unfolded after_writes_def)
        next
          case no: False
          with False root Some prev show thesis
            by (intro left [of "(au_objects st)(c \<mapsto> ?cp)" "au_seq st + 1"]) (auto simp: unfolded after_writes_def)
        qed
      qed
    qed
  qed
qed

lemma UpdateLogCID_heads: "distinct (map fst hs) \<Longrightarrow>
  fold (\<lambda>(key, cid). UpdateLogCID key cid) hs st = st\<lparr>au_heads := head_after hs (au_heads st)\<rparr>"
proof (induction hs arbitrary: st)
  case Nil
  then show ?case by (simp add: head_after_def)
next
  case (Cons h hs)
  obtain key cid where h: "h = (key, cid)" by (cases h)
  have "map_of hs key = None" using Cons.prems h by (force simp: map_of_eq_None_iff)
  then have "head_after hs ((au_heads st)(key \<mapsto> cid)) = head_after (h # hs) (au_heads st)"
    by (auto simp: head_after_def h fun_eq_iff split: option.split)
  with Cons show ?case by (simp add: h UpdateLogCID_def)
qed

section \<open>The chains account for the processed events\<close>

definition on_chain :: "chain_key \<Rightarrow> outbox_event \<Rightarrow> bool" where
  "on_chain key e = (oe_processed e \<and> IsAuditVisibleEventType (oe_type e) \<and> chainKeyFor e = Some key)"

definition chains_ok :: "audit_state \<Rightarrow> bool" where
  "chains_ok st =
    (distinct (map oe_id (au_outbox st))
     \<and> (\<forall>key. \<exists>es. chain (au_entries st) (au_heads st key) es \<and> distinct (map en_id es)
          \<and> entry_header ` set es = event_header ` {e \<in> set (au_outbox st). on_chain key e}))"

lemma select_events_props:
  "e \<in> set (select_events st) \<Longrightarrow> e \<in> set (au_outbox st) \<and> \<not> oe_processed e \<and> \<not> oe_dead e"
  unfolding select_events_def by (auto dest!: in_set_takeD)

lemma select_events_distinct:
  assumes "distinct (map oe_id (au_outbox st))"
  shows "distinct (map oe_id (select_events st))"
proof -
  let ?l = "filter (\<lambda>e. \<not> oe_processed e \<and> \<not> oe_dead e) (au_outbox st)"
  have "distinct (map oe_id ?l)" using assms by (simp add: distinct_map_filter)
  then have "distinct ?l" "inj_on oe_id (set ?l)" by (simp_all add: distinct_map)
  then have "distinct (map oe_id (sort_key oe_created_at ?l))" by (simp add: distinct_map)
  then show ?thesis unfolding select_events_def by (simp flip: take_map)
qed

abbreviation visible :: "outbox_event list \<Rightarrow> outbox_event list" where
  "visible events \<equiv> filter (\<lambda>e. IsAuditVisibleEventType (oe_type e)) events"

lemma processing_tick_def':
  "processing_tick E tk st =
    (let st1 = st\<lparr>au_outbox := mark_ids (oe_id ` set (filter (\<lambda>e. \<not> IsAuditVisibleEventType (oe_type e)) (select_events st)))
                 processed_mark (au_outbox st)\<rparr>
     in if visible (select_events st) = [] then st1 else anchorBatch E tk (visible (select_events st)) st1)"
proof -
  have "fold processUnanchoredEvent evs s = s\<lparr>au_outbox := fold UpdateOutboxEvent (map oe_id evs) (au_outbox s)\<rparr>" for evs s
    by (induction evs arbitrary: s) (simp_all add: processUnanchoredEvent_def)
  then show ?thesis unfolding processing_tick_def Let_def fold_processed by simp
qed

lemma processed_mark_twice [simp]: "processed_mark (processed_mark e) = processed_mark e"
  by (simp add: processed_mark_def)

lemma mark_ids_mem: "e \<in> set (mark_ids S f evs) \<longleftrightarrow> (\<exists>e0\<in>set evs. e = (if oe_id e0 \<in> S then f e0 else e0))"
  by (auto simp: mark_ids_def)

lemma chains_ok_frame:
  assumes "chains_ok st" "map oe_id (au_outbox st') = map oe_id (au_outbox st)" "au_heads st' = au_heads st"
    "au_entries st \<subseteq>\<^sub>m au_entries st'"
    "\<And>key. event_header ` {e \<in> set (au_outbox st'). on_chain key e} = event_header ` {e \<in> set (au_outbox st). on_chain key e}"
  shows "chains_ok st'"
  using assms chain_mono [OF _ assms(4)] unfolding chains_ok_def by metis

lemma image_filter_map:
  assumes "\<forall>x\<in>A. h (g x) = h x \<and> P (g x) = P' x"
  shows "h ` {y \<in> g ` A. P y} = h ` {x \<in> A. P' x}"
proof -
  have "{y \<in> g ` A. P y} = g ` {x \<in> A. P' x}" using assms by blast
  then show ?thesis using assms by (simp add: image_image)
qed

lemma on_chain_mark:
  assumes "\<And>e. event_header (f e) = event_header e" "\<And>e. e \<in> set evs \<Longrightarrow> oe_id e \<in> S \<Longrightarrow> on_chain key (f e) = on_chain key e"
  shows "event_header ` {e \<in> set (mark_ids S f evs). on_chain key e} = event_header ` {e \<in> set evs. on_chain key e}"
  unfolding mark_ids_def set_map by (rule image_filter_map) (simp add: assms)

definition new_checkpoint :: "tick \<Rightarrow> anchored_entry list \<Rightarrow> string \<Rightarrow> string option \<Rightarrow> string \<Rightarrow> int \<Rightarrow> checkpoint_row" where
  "new_checkpoint tk anchored root prev c seq =
    \<lparr>cr_seq = seq, cr_cid = c, cr_root = root, cr_prev = prev, cr_leaf_count = length anchored, cr_tsa = tk_tsa tk root\<rparr>"

definition new_leaves :: "anchored_entry list \<Rightarrow> int \<Rightarrow> leaf_row list" where
  "new_leaves anchored seq =
    map (\<lambda>(i, a). \<lparr>lf_seq = seq, lf_idx = i, lf_cid = an_cid a, lf_hash = an_leaf a\<rparr>) (enumerate 0 anchored)"

lemma enumerate_zip_map: "enumerate k (zip (map f xs) (map g xs)) = map (\<lambda>(i, x). (i, f x, g x)) (enumerate k xs)"
  by (induction xs arbitrary: k) auto

lemma fold_mark_anchored: "fold (\<lambda>a. UpdateOutboxEvent (an_event a)) anchored evs = mark_ids (an_event ` set anchored) processed_mark evs"
proof -
  have "fold (\<lambda>a. UpdateOutboxEvent (an_event a)) anchored evs = fold UpdateOutboxEvent (map an_event anchored) evs"
    by (induction anchored arbitrary: evs) simp_all
  then show ?thesis by (simp add: fold_processed)
qed

lemma commit_batch_eq:
  assumes "distinct (map fst hs)"
  shows "commit_batch tk anchored hs root prev c st =
    st\<lparr>au_outbox := mark_ids (an_event ` set anchored) processed_mark (au_outbox st),
       au_heads := head_after hs (au_heads st),
       au_checkpoints := au_checkpoints st @ [new_checkpoint tk anchored root prev c (au_seq st + 1)],
       au_leaves := au_leaves st @ new_leaves anchored (au_seq st + 1), au_seq := au_seq st + 1\<rparr>"
  unfolding commit_batch_def Let_def AppendCheckpoint_def prod.case AppendCheckpointLeaves_def
    UpdateLogCID_heads [OF assms] fold_mark_anchored enumerate_zip_map
  by (simp add: new_checkpoint_def new_leaves_def comp_def case_prod_unfold)

lemma batch_written_ids:
  "batch_written E tk events heads old (batch_keys events) (map oe_id (unchained events)) n new w \<Longrightarrow>
     an_event ` set (wr_anchored w) \<subseteq> oe_id ` set events"
proof -
  assume B: "batch_written E tk events heads old (batch_keys events) (map oe_id (unchained events)) n new w"
  have "set (event_ids (batch_keys events) events) \<subseteq> oe_id ` set events" by (auto simp: set_event_ids)
  moreover have "set (map oe_id (unchained events)) \<subseteq> oe_id ` set events" by auto
  ultimately show ?thesis using B unfolding batch_written_def set_map [of an_event] by blast
qed

lemma chains_ok_commit:
  fixes st :: audit_state
  assumes ok: "chains_ok st" and cids: "cids_ok tk (map oe_id events) (au_entries st)"
    and events: "distinct (map oe_id events)"
      "\<And>e. e \<in> set events \<Longrightarrow> e \<in> set (au_outbox st) \<and> \<not> oe_processed e \<and> IsAuditVisibleEventType (oe_type e)"
    and w: "w = au_writes E tk events st"
    and out: "au_outbox st' = mark_ids (an_event ` set (wr_anchored w)) processed_mark (au_outbox st)"
    and heads: "au_heads st' = head_after (wr_heads w) (au_heads st)" and entries: "au_entries st' = wr_entries w"
  shows "chains_ok st'"
proof -
  obtain old where old: "\<And>key. chain (au_entries st) (au_heads st key) (old key)" "\<And>key. distinct (map en_id (old key))"
    "\<And>key. entry_header ` set (old key) = event_header ` {e \<in> set (au_outbox st). on_chain key e}"
    using ok unfolding chains_ok_def by metis
  have idd: "distinct (map oe_id (au_outbox st))" using ok by (simp add: chains_ok_def)
  have w': "w = writeEntries E tk events (au_heads st) (fresh_writes (au_entries st) (au_keys st))"
    by (simp add: w au_writes_def ReadLogCID_def)
  obtain n new where B: "batch_written E tk events (au_heads st) old (batch_keys events) (map oe_id (unchained events)) n new
      (writeEntries E tk events (au_heads st) (fresh_writes (au_entries st) (au_keys st)))"
    by (rule writeEntries_result [where heads = "au_heads st" and old = old and E = E and ks = "au_keys st",
          OF events(1) cids old(1)]) (rule that)
  note B = B [folded w']
  have "\<exists>es. chain (au_entries st') (au_heads st' key) es \<and> distinct (map en_id es)
      \<and> entry_header ` set es = event_header ` {e \<in> set (au_outbox st'). on_chain key e}" for key
  proof (intro exI conjI)
    let ?took = "take (n key) (chain_events key events)"
    show "chain (au_entries st') (au_heads st' key) (rev (new key) @ old key)"
      using B unfolding heads entries batch_written_def by blast
    have hdr: "map entry_header (new key) = map event_header ?took" using B unfolding batch_written_def by blast
    have took: "e \<in> set ?took \<longleftrightarrow> e \<in> set events \<and> chainKeyFor e = Some key \<and> oe_id e \<in> an_event ` set (wr_anchored w)" for e
    proof -
      have "e \<in> set ?took \<Longrightarrow> e \<in> set events \<and> chainKeyFor e = Some key"
        by (auto simp: chain_events_def dest!: in_set_takeD)
      then show ?thesis using anchored_iff_prefix [OF B events(1), of e key, unfolded list.set_map] by blast
    qed
    have ids: "map en_id (new key) = map oe_id ?took"
      using arg_cong [OF hdr, of "map fst"] by (simp add: entry_header_def event_header_def comp_def)
    have old_ids: "en_id ` set (old key) = oe_id ` {e \<in> set (au_outbox st). on_chain key e}"
      using arg_cong [OF old(3) [of key], of "image fst"] by (simp add: image_image entry_header_def event_header_def)
    have "oe_id e \<notin> en_id ` set (old key)" if "e \<in> set ?took" for e
    proof
      assume "oe_id e \<in> en_id ` set (old key)"
      then obtain e' where "e' \<in> set (au_outbox st)" "oe_processed e'" "oe_id e = oe_id e'"
        unfolding old_ids by (auto simp: on_chain_def)
      with that took events(2) event_id_inj [OF idd] show False by blast
    qed
    moreover have "distinct (map oe_id ?took)"
      using events(1) by (simp add: chain_events_def distinct_map_filter flip: take_map)
    moreover have "en_id ` set (new key) = oe_id ` set ?took" using arg_cong [OF ids, of set] by simp
    ultimately have "distinct (map en_id (new key))" "en_id ` set (new key) \<inter> en_id ` set (old key) = {}"
      unfolding ids by auto
    with old(2) [of key] show "distinct (map en_id (rev (new key) @ old key))"
      unfolding map_append rev_map [symmetric] distinct_append distinct_rev set_rev list.set_map by blast
    have anch: "an_event ` set (wr_anchored w) \<subseteq> oe_id ` set events" by (rule batch_written_ids [OF B])
    have in_took: "e \<in> set ?took \<longleftrightarrow> IsAuditVisibleEventType (oe_type e) \<and> chainKeyFor e = Some key
        \<and> oe_id e \<in> an_event ` set (wr_anchored w)" if "e \<in> set (au_outbox st)" for e
    proof
      assume R: "IsAuditVisibleEventType (oe_type e) \<and> chainKeyFor e = Some key \<and> oe_id e \<in> an_event ` set (wr_anchored w)"
      with anch obtain e' where "e' \<in> set events" "oe_id e = oe_id e'" by blast
      with event_id_inj [OF idd that] events(2) have "e \<in> set events" by metis
      with R took show "e \<in> set ?took" by blast
    qed (use took events(2) in blast)
    have "event_header ` {e \<in> set (au_outbox st'). on_chain key e}
        = event_header ` {e \<in> set (au_outbox st). on_chain key e \<or> e \<in> set ?took}"
      unfolding out mark_ids_def set_map using in_took
      by (subst image_filter_map [where P = "on_chain key" and h = event_header and P' = "\<lambda>e. on_chain key e \<or> e \<in> set ?took"])
        (auto simp: on_chain_def)
    also have "{e \<in> set (au_outbox st). on_chain key e \<or> e \<in> set ?took} = {e \<in> set (au_outbox st). on_chain key e} \<union> set ?took"
      using took events(2) by blast
    finally show "entry_header ` set (rev (new key) @ old key) = event_header ` {e \<in> set (au_outbox st'). on_chain key e}"
      using arg_cong [OF hdr, of set] old(3) [of key] by (simp add: image_Un Un_commute)
  qed
  moreover have "distinct (map oe_id (au_outbox st'))" using idd by (simp add: out)
  ultimately show ?thesis by (simp add: chains_ok_def)
qed

lemma au_writes_props:
  assumes ok: "chains_ok st" and cids: "cids_ok tk (map oe_id events) (au_entries st)" and d: "distinct (map oe_id events)"
  shows "au_entries st \<subseteq>\<^sub>m wr_entries (au_writes E tk events st)"
    "distinct (wr_failed (au_writes E tk events st))" "set (wr_failed (au_writes E tk events st)) \<subseteq> oe_id ` set events"
    "distinct (map an_event (wr_anchored (au_writes E tk events st)))"
    "an_event ` set (wr_anchored (au_writes E tk events st)) \<subseteq> oe_id ` set events"
    "anchored_ok E tk (au_writes E tk events st)"
    "distinct (map fst (wr_heads (au_writes E tk events st)))"
    "\<And>c. wr_entries (au_writes E tk events st) c \<noteq> None \<Longrightarrow> au_entries st c \<noteq> None \<or> (\<exists>i\<in>set (map oe_id events). tk_stored tk i = Some c)"
proof -
  obtain old where old: "\<And>key. chain (au_entries st) (au_heads st key) (old key)"
    using ok unfolding chains_ok_def by metis
  let ?w = "writeEntries E tk events (au_heads st) (fresh_writes (au_entries st) (au_keys st))"
  obtain n new where B: "batch_written E tk events (au_heads st) old (batch_keys events) (map oe_id (unchained events)) n new ?w"
    and G: "writes_grow tk (map oe_id events) (fresh_writes (au_entries st) (au_keys st)) ?w"
    by (rule writeEntries_result [where heads = "au_heads st" and old = old and E = E and ks = "au_keys st", OF d cids old])
      (rule that)
  have w: "au_writes E tk events st = ?w" by (simp add: au_writes_def ReadLogCID_def)
  from G show "au_entries st \<subseteq>\<^sub>m wr_entries (au_writes E tk events st)"
    "\<And>c. wr_entries (au_writes E tk events st) c \<noteq> None \<Longrightarrow> au_entries st c \<noteq> None \<or> (\<exists>i\<in>set (map oe_id events). tk_stored tk i = Some c)"
    unfolding w writes_grow_def by (simp_all add: fresh_writes_def)
  from B show "distinct (wr_failed (au_writes E tk events st))" "distinct (map an_event (wr_anchored (au_writes E tk events st)))"
    "anchored_ok E tk (au_writes E tk events st)"
    unfolding w batch_written_def by blast+
  have "set (event_ids (batch_keys events) events) \<union> set (map oe_id (unchained events)) \<subseteq> oe_id ` set events"
    by (auto simp: set_event_ids)
  with B show "set (wr_failed (au_writes E tk events st)) \<subseteq> oe_id ` set events"
    unfolding w batch_written_def by blast
  show "an_event ` set (wr_anchored (au_writes E tk events st)) \<subseteq> oe_id ` set events"
    unfolding w by (rule batch_written_ids [OF B])
  show "distinct (map fst (wr_heads (au_writes E tk events st)))" unfolding w by (rule heads_distinct)
qed

lemma marks_commute: "mark_ids S processed_mark (mark_ids F failure_mark evs) = mark_ids F failure_mark (mark_ids S processed_mark evs)"
  by (simp add: mark_ids_def processed_mark_def failure_mark_def)

definition looked_up :: "audit_state \<Rightarrow> int set" where
  "looked_up st = oe_id ` set (filter (\<lambda>e. \<not> IsAuditVisibleEventType (oe_type e)) (select_events st))"

definition skip_lookups :: "audit_state \<Rightarrow> audit_state" where
  "skip_lookups st = st\<lparr>au_outbox := mark_ids (looked_up st) processed_mark (au_outbox st)\<rparr>"

lemma looked_up_invisible:
  assumes "distinct (map oe_id (au_outbox st))" "e \<in> set (au_outbox st)" "oe_id e \<in> looked_up st"
  shows "\<not> IsAuditVisibleEventType (oe_type e)"
proof -
  obtain e' where "e' \<in> set (select_events st)" "\<not> IsAuditVisibleEventType (oe_type e')" "oe_id e = oe_id e'"
    using assms(3) by (auto simp: looked_up_def)
  with event_id_inj [OF assms(1,2), of e'] select_events_props show ?thesis by metis
qed

lemma chains_ok_mark:
  assumes "chains_ok st" "\<And>e. oe_id (f e) = oe_id e" "\<And>e. event_header (f e) = event_header e"
    "\<And>e key. e \<in> set (au_outbox st) \<Longrightarrow> oe_id e \<in> S \<Longrightarrow> on_chain key (f e) = on_chain key e"
  shows "chains_ok (st\<lparr>au_outbox := mark_ids S f (au_outbox st)\<rparr>)"
  by (rule chains_ok_frame [OF assms(1)]) (simp_all add: assms(2) on_chain_mark [OF assms(3,4)])

lemma chains_ok_skip: "chains_ok st \<Longrightarrow> chains_ok (skip_lookups st)"
  unfolding skip_lookups_def using looked_up_invisible [of st]
  by (rule_tac chains_ok_mark) (auto simp: chains_ok_def on_chain_def)

lemma chains_ok_fail:
  "chains_ok st \<Longrightarrow> chains_ok (st\<lparr>au_outbox := mark_ids F failure_mark (au_outbox st)\<rparr>)"
  by (rule chains_ok_mark) (auto simp: on_chain_def)

lemma batch_events_ok:
  assumes "chains_ok st" "tick_ok tk st"
  shows "distinct (map oe_id (visible (select_events st)))" "cids_ok tk (map oe_id (visible (select_events st))) (au_entries st)"
    "\<And>e. e \<in> set (visible (select_events st)) \<Longrightarrow>
       e \<in> set (au_outbox (skip_lookups st)) \<and> \<not> oe_processed e \<and> IsAuditVisibleEventType (oe_type e)"
proof -
  have d: "distinct (map oe_id (au_outbox st))" using assms(1) by (simp add: chains_ok_def)
  show dv: "distinct (map oe_id (visible (select_events st)))"
    using select_events_distinct [OF d] by (simp add: distinct_map_filter)
  show "cids_ok tk (map oe_id (visible (select_events st))) (au_entries st)"
    using assms(2) cids_ok_sub [OF _ _ dv, of tk "map oe_id (select_events st)" "au_entries st"]
    unfolding tick_ok_def by auto
  fix e assume e: "e \<in> set (visible (select_events st))"
  then have "e \<in> set (au_outbox st)" "\<not> oe_processed e" "oe_id e \<notin> looked_up st"
    using select_events_props [of e st] looked_up_invisible [OF d, of e] by auto
  with e show "e \<in> set (au_outbox (skip_lookups st)) \<and> \<not> oe_processed e \<and> IsAuditVisibleEventType (oe_type e)"
    by (auto simp: skip_lookups_def mark_ids_mem intro!: bexI [of _ e])
qed

abbreviation tick_writes :: "audit_env \<Rightarrow> tick \<Rightarrow> audit_state \<Rightarrow> writes" where
  "tick_writes E tk st \<equiv> au_writes E tk (visible (select_events st)) (skip_lookups st)"

lemma processing_tick_cases:
  assumes "chains_ok st" "tick_ok tk st"
  obtains (idle) "processing_tick E tk st = skip_lookups st"
  | (left) objects seq where
      "processing_tick E tk st = st\<lparr>au_entries := wr_entries (tick_writes E tk st), au_keys := wr_keys (tick_writes E tk st),
         au_outbox := mark_ids (set (wr_failed (tick_writes E tk st))) failure_mark (au_outbox (skip_lookups st)),
         au_objects := objects, au_seq := seq\<rparr>"
      "au_seq st \<le> seq" "au_objects st \<subseteq>\<^sub>m objects"
  | (committed) anchored root c cp where
      "anchored = sort_key an_event (wr_anchored (tick_writes E tk st))" "anchored \<noteq> []"
      "MerkleRoot (ae_sha E) (map an_leaf anchored) = Some root" "tk_checkpoint tk = Some c" "au_objects st c = None"
      "cp = \<lparr>cp_root = root, cp_prev = ReadLatestCheckpointRoot st, cp_leaf_hashes = map an_leaf anchored,
              cp_leaf_cids = map an_cid anchored\<rparr>"
      "processing_tick E tk st = st\<lparr>au_entries := wr_entries (tick_writes E tk st), au_keys := wr_keys (tick_writes E tk st),
         au_outbox := mark_ids (set (wr_failed (tick_writes E tk st))) failure_mark
            (mark_ids (an_event ` set (wr_anchored (tick_writes E tk st))) processed_mark (au_outbox (skip_lookups st))),
         au_heads := head_after (wr_heads (tick_writes E tk st)) (au_heads st),
         au_objects := (au_objects st)(c \<mapsto> cp),
         au_checkpoints := au_checkpoints st @ [new_checkpoint tk anchored root (ReadLatestCheckpointRoot st) c (au_seq st + 1)],
         au_leaves := au_leaves st @ new_leaves anchored (au_seq st + 1), au_seq := au_seq st + 1\<rparr>"
proof -
  let ?events = "visible (select_events st)" and ?st1 = "skip_lookups st" and ?w = "tick_writes E tk st"
  have same: "au_entries ?st1 = au_entries st" "au_objects ?st1 = au_objects st" "au_seq ?st1 = au_seq st"
    "au_heads ?st1 = au_heads st" "au_checkpoints ?st1 = au_checkpoints st" "au_leaves ?st1 = au_leaves st"
    "ReadLatestCheckpointRoot ?st1 = ReadLatestCheckpointRoot st"
    by (simp_all add: skip_lookups_def ReadLatestCheckpointRoot_def)
  have skip_rest: "(skip_lookups st)\<lparr>au_entries := a, au_keys := b, au_outbox := f, au_objects := h, au_seq := d,
      au_checkpoints := x, au_leaves := y, au_heads := z\<rparr>
    = st\<lparr>au_entries := a, au_keys := b, au_outbox := f, au_heads := z, au_objects := h,
      au_checkpoints := x, au_leaves := y, au_seq := d\<rparr>" for a b f h d x y z
    by (simp add: skip_lookups_def)
  note ev = batch_events_ok [OF assms]
  note P = au_writes_props [OF chains_ok_skip [OF assms(1)] ev(2) [folded same(1)] ev(1), of E]
  have step: "processing_tick E tk st = (if ?events = [] then ?st1 else anchorBatch E tk ?events ?st1)"
    by (simp add: processing_tick_def' skip_lookups_def looked_up_def Let_def)
  show thesis
  proof (cases "?events = []")
    case True
    with step idle show thesis by simp
  next
    case False
    show thesis
    proof (cases rule: anchorBatch_cases [of E tk ?events ?st1])
      case L: (left objects seq)
      have "au_objects st \<subseteq>\<^sub>m objects" using L(3) assms(2) by (auto simp: same tick_ok_def map_le_def)
      moreover have "processing_tick E tk st = after_writes ?w objects seq ?st1" using step False L(1) by simp
      moreover have "au_seq st \<le> seq" using L(2) by (simp add: same)
      ultimately show thesis
        by (intro left [of seq objects]) (simp_all add: after_writes_def fold_failed [OF P(2)], simp add: skip_lookups_def)
    next
      case C: (committed anchored root c cp)
      have fresh: "au_objects st c = None" using C(4) assms(2) by (simp add: tick_ok_def)
      have "processing_tick E tk st = commit_batch tk anchored (wr_heads ?w) root (ReadLatestCheckpointRoot st) c
         (after_writes ?w ((au_objects st)(c \<mapsto> cp)) (au_seq st) ?st1)" using step False C(6) by (simp add: same)
      moreover have "an_event ` set anchored = an_event ` set (wr_anchored ?w)" by (simp add: C(1))
      ultimately show thesis
        by (intro committed [OF C(1-4) fresh C(5) [unfolded same(7)]])
          (simp add: commit_batch_eq [OF P(7)] after_writes_def fold_failed [OF P(2)] same marks_commute skip_rest)
    qed
  qed
qed

lemma chains_ok_tick:
  assumes "chains_ok st" "tick_ok tk st"
  shows "chains_ok (processing_tick E tk st)"
proof -
  note ev = batch_events_ok [OF assms]
  have ent: "au_entries (skip_lookups st) = au_entries st" "au_heads (skip_lookups st) = au_heads st"
    by (simp_all add: skip_lookups_def)
  note P = au_writes_props [OF chains_ok_skip [OF assms(1)] ev(2) [folded ent(1)] ev(1), of E]
  from assms show ?thesis
  proof (cases rule: processing_tick_cases [of st tk E])
    case idle
    with chains_ok_skip [OF assms(1)] show ?thesis by simp
  next
    case (left objects seq)
    from chains_ok_fail [OF chains_ok_skip [OF assms(1)]]
    have "chains_ok ((skip_lookups st)\<lparr>au_outbox := mark_ids (set (wr_failed (tick_writes E tk st))) failure_mark (au_outbox (skip_lookups st))\<rparr>)" .
    then show ?thesis by (rule chains_ok_frame) (use P(1) in \<open>simp_all add: left(1) ent\<close>)
  next
    case (committed anchored root c cp)
    let ?w = "tick_writes E tk st"
    let ?st2 = "(skip_lookups st)\<lparr>au_entries := wr_entries ?w, au_heads := head_after (wr_heads ?w) (au_heads st),
      au_outbox := mark_ids (an_event ` set (wr_anchored ?w)) processed_mark (au_outbox (skip_lookups st))\<rparr>"
    have "chains_ok ?st2"
      by (rule chains_ok_commit [where E = E, OF chains_ok_skip [OF assms(1)] ev(2) [folded ent(1)] ev(1) ev(3) refl]) (simp_all add: ent)
    from chains_ok_fail [OF this, of "set (wr_failed ?w)"] show ?thesis
      by (rule chains_ok_frame) (simp_all add: committed(7))
  qed
qed

definition timestamped :: "audit_state \<Rightarrow> audit_state \<Rightarrow> bool" where
  "timestamped st st' = (\<exists>g. (\<forall>r. (g r)\<lparr>cr_tsa := None\<rparr> = r\<lparr>cr_tsa := None\<rparr>) \<and> st' = st\<lparr>au_checkpoints := map g (au_checkpoints st)\<rparr>)"

lemma timestamp_loop_result: "timestamped st (timestamp_loop tsa rs st)"
proof (induction rs arbitrary: st)
  case Nil
  show ?case unfolding timestamped_def by (intro exI [of _ id]) simp
next
  case (Cons r rs)
  show ?case
  proof (cases "tsa (cr_root r)")
    case None
    then show ?thesis unfolding timestamped_def by (intro exI [of _ id]) simp
  next
    case (Some signature)
    let ?g = "\<lambda>x. if cr_seq x = cr_seq r \<and> cr_tsa x = None then x\<lparr>cr_tsa := Some signature\<rparr> else x"
    obtain g where g: "\<forall>r. (g r)\<lparr>cr_tsa := None\<rparr> = r\<lparr>cr_tsa := None\<rparr>"
      "timestamp_loop tsa rs (UpdateCheckpointTimestamp (cr_seq r) signature st)
        = (UpdateCheckpointTimestamp (cr_seq r) signature st)
          \<lparr>au_checkpoints := map g (au_checkpoints (UpdateCheckpointTimestamp (cr_seq r) signature st))\<rparr>"
      using Cons unfolding timestamped_def by blast
    show ?thesis unfolding timestamped_def
      by (intro exI [of _ "g \<circ> ?g"]) (use Some g in \<open>simp add: UpdateCheckpointTimestamp_def\<close>)
  qed
qed

definition published_mark :: "outbox_event \<Rightarrow> outbox_event" where
  "published_mark e = e\<lparr>oe_published := True\<rparr>"

lemma published_fields [simp]:
  "oe_id (published_mark e) = oe_id e" "event_header (published_mark e) = event_header e"
  "chainKeyFor (published_mark e) = chainKeyFor e" "oe_type (published_mark e) = oe_type e"
  "oe_processed (published_mark e) = oe_processed e" "oe_attempts (published_mark e) = oe_attempts e"
  "oe_dead (published_mark e) = oe_dead e"
  by (simp_all add: published_mark_def event_header_def chainKeyFor_def isResourceDID_def)

lemma fold_published:
  "fold (\<lambda>e. if published (oe_id e) then MarkOutboxEventPublished (oe_id e) else id) events evs
     = mark_ids (oe_id ` set (filter (\<lambda>e. published (oe_id e)) events)) published_mark evs"
proof (induction events arbitrary: evs)
  case (Cons e events)
  then show ?case by (auto simp: MarkOutboxEventPublished_def update_event_def mark_ids_def published_mark_def)
qed (simp add: mark_ids_def)

lemma publishing_tick_eq: "\<exists>S. publishing_tick published st = st\<lparr>au_outbox := mark_ids S published_mark (au_outbox st)\<rparr>"
  unfolding publishing_tick_def Let_def fold_published by blast

lemma chains_ok_reachable: "au_reachable E st \<Longrightarrow> chains_ok st"
proof (induction rule: au_reachable_induct)
  case (init ks)
  show ?case by (auto simp: chains_ok_def empty_trail_def intro!: exI [of _ "[]"] chain.Nil)
next
  case (step st st')
  note step = step.IH
  from step.hyps(2) show ?case
  proof (cases rule: au_step.cases)
    case (Record e)
    then have "{x \<in> set (au_outbox st'). on_chain key x} = {x \<in> set (au_outbox st). on_chain key x}" for key
      by (auto simp: on_chain_def new_event_def)
    then show ?thesis using step Record by (simp add: chains_ok_def)
  next
    case (Process tk)
    with step show ?thesis by (simp add: chains_ok_tick)
  next
    case (Publish published)
    with publishing_tick_eq [of published st] obtain S where
      st': "st' = st\<lparr>au_outbox := mark_ids S published_mark (au_outbox st)\<rparr>" by blast
    show ?thesis unfolding st' by (rule chains_ok_mark [OF step]) (auto simp: on_chain_def)
  next
    case (Timestamp tsa)
    then have "timestamped st st'" by (simp add: timestamping_tick_def timestamp_loop_result)
    then show ?thesis by (intro chains_ok_frame [OF step]) (auto simp: timestamped_def)
  next
    case (Keys ks)
    then show ?thesis by (intro chains_ok_frame [OF step]) auto
  qed
qed

section \<open>The checkpoints commit to the anchored entries\<close>

definition leaf_ok :: "audit_env \<Rightarrow> (string \<Rightarrow> audit_entry option) \<Rightarrow> anchored_entry \<Rightarrow> bool" where
  "leaf_ok E B a =
    (\<exists>entry. B (an_cid a) = Some entry \<and> en_id entry = an_event a
       \<and> an_leaf a = MerkleLeafHash (ae_sha E) (ae_marshal E entry))"

definition commits_to :: "audit_env \<Rightarrow> audit_state \<Rightarrow> checkpoint_row \<Rightarrow> anchored_entry list \<Rightarrow> bool" where
  "commits_to E st r anchored =
    (anchored \<noteq> [] \<and> cr_leaf_count r = length anchored
     \<and> filter (\<lambda>l. lf_seq l = cr_seq r) (au_leaves st) = new_leaves anchored (cr_seq r)
     \<and> MerkleRoot (ae_sha E) (map an_leaf anchored) = Some (cr_root r)
     \<and> list_all (leaf_ok E (au_entries st)) anchored
     \<and> au_objects st (cr_cid r) = Some \<lparr>cp_root = cr_root r, cp_prev = cr_prev r, cp_leaf_hashes = map an_leaf anchored,
          cp_leaf_cids = map an_cid anchored\<rparr>)"

fun linked :: "string option \<Rightarrow> int \<Rightarrow> checkpoint_row list \<Rightarrow> bool" where
  "linked prev seq [] = True"
| "linked prev seq (r # rs) = (cr_prev r = prev \<and> seq < cr_seq r \<and> linked (Some (cr_root r)) (cr_seq r) rs)"

definition checkpoints_ok :: "audit_env \<Rightarrow> audit_state \<Rightarrow> bool" where
  "checkpoints_ok E st =
    ((\<exists>s. linked None s (au_checkpoints st)) \<and> (\<forall>r\<in>set (au_checkpoints st). cr_seq r \<le> au_seq st)
     \<and> (\<forall>l\<in>set (au_leaves st). \<exists>r\<in>set (au_checkpoints st). cr_seq r = lf_seq l)
     \<and> (\<forall>r\<in>set (au_checkpoints st). \<exists>anchored. commits_to E st r anchored)
     \<and> distinct (map lf_cid (au_leaves st))
     \<and> (\<forall>e\<in>set (au_outbox st). oe_processed e \<and> IsAuditVisibleEventType (oe_type e) \<longrightarrow>
          (\<exists>l\<in>set (au_leaves st). \<exists>entry. au_entries st (lf_cid l) = Some entry \<and> en_id entry = oe_id e)))"

lemma linked_snoc:
  "linked prev seq (rs @ [r]) \<longleftrightarrow> linked prev seq rs
     \<and> cr_prev r = (if rs = [] then prev else Some (cr_root (last rs)))
     \<and> (if rs = [] then seq else cr_seq (last rs)) < cr_seq r"
  by (induction rs arbitrary: prev seq) auto

lemma linked_above: "linked prev seq rs \<Longrightarrow> r \<in> set rs \<Longrightarrow> seq < cr_seq r"
  by (induction rs arbitrary: prev seq) force+

lemma linked_distinct: "linked prev seq rs \<Longrightarrow> distinct (map cr_seq rs)"
proof (induction rs arbitrary: prev seq)
  case (Cons r rs)
  then have "linked (Some (cr_root r)) (cr_seq r) rs" by simp
  with linked_above [OF this] Cons.IH show ?case by force
qed simp

lemma linked_map:
  "(\<And>r. (g r)\<lparr>cr_tsa := None\<rparr> = r\<lparr>cr_tsa := None\<rparr>) \<Longrightarrow> linked prev seq (map g rs) = linked prev seq rs"
proof (induction rs arbitrary: prev seq)
  case (Cons r rs)
  from Cons.prems [of r] have "cr_prev (g r) = cr_prev r" "cr_root (g r) = cr_root r" "cr_seq (g r) = cr_seq r"
    by (metis checkpoint_row.select_convs(1-4) checkpoint_row.surjective checkpoint_row.update_convs(6))+
  with Cons show ?case by simp
qed simp

lemma set_new_leaves: "l \<in> set (new_leaves anchored seq) \<longleftrightarrow>
    (\<exists>i<length anchored. l = \<lparr>lf_seq = seq, lf_idx = i, lf_cid = an_cid (anchored ! i), lf_hash = an_leaf (anchored ! i)\<rparr>)"
  by (force simp: new_leaves_def in_set_enumerate_eq)

lemma new_leaves_nth: "i < length anchored \<Longrightarrow> new_leaves anchored seq ! i =
    \<lparr>lf_seq = seq, lf_idx = i, lf_cid = an_cid (anchored ! i), lf_hash = an_leaf (anchored ! i)\<rparr>"
  by (simp add: new_leaves_def nth_enumerate_eq)

lemma new_leaves_maps [simp]:
  "length (new_leaves anchored seq) = length anchored"
  "map lf_cid (new_leaves anchored seq) = map an_cid anchored" "map lf_hash (new_leaves anchored seq) = map an_leaf anchored"
  "map lf_idx (new_leaves anchored seq) = [0..<length anchored]"
proof -
  show len: "length (new_leaves anchored seq) = length anchored" by (simp add: new_leaves_def)
  show "map lf_cid (new_leaves anchored seq) = map an_cid anchored" "map lf_hash (new_leaves anchored seq) = map an_leaf anchored"
    "map lf_idx (new_leaves anchored seq) = [0..<length anchored]"
    by (rule nth_equalityI; simp add: len new_leaves_nth)+
qed

lemma leaf_ok_mono: "B \<subseteq>\<^sub>m B' \<Longrightarrow> leaf_ok E B a \<Longrightarrow> leaf_ok E B' a"
  unfolding leaf_ok_def by (metis domI map_le_def)

lemma commits_to_mono:
  assumes "commits_to E st r anchored" "au_entries st \<subseteq>\<^sub>m au_entries st'" "au_objects st \<subseteq>\<^sub>m au_objects st'"
    "filter (\<lambda>l. lf_seq l = cr_seq r) (au_leaves st') = filter (\<lambda>l. lf_seq l = cr_seq r) (au_leaves st)"
  shows "commits_to E st' r anchored"
proof -
  have "au_objects st' (cr_cid r) = au_objects st (cr_cid r)"
    using assms(1,3) unfolding commits_to_def map_le_def by (metis domI)
  moreover have "list_all (leaf_ok E (au_entries st')) anchored"
    using assms(1) leaf_ok_mono [OF assms(2)] unfolding commits_to_def list_all_iff by blast
  ultimately show ?thesis using assms(1,4) unfolding commits_to_def by simp
qed

definition accounted :: "outbox_event \<Rightarrow> bool" where
  "accounted e = (oe_processed e \<and> IsAuditVisibleEventType (oe_type e))"

lemma checkpoints_ok_frame:
  assumes ok: "checkpoints_ok E st" and same: "au_checkpoints st' = au_checkpoints st" "au_leaves st' = au_leaves st"
    and grow: "au_seq st \<le> au_seq st'" "au_entries st \<subseteq>\<^sub>m au_entries st'" "au_objects st \<subseteq>\<^sub>m au_objects st'"
    and out: "oe_id ` {e \<in> set (au_outbox st'). accounted e} \<subseteq> oe_id ` {e \<in> set (au_outbox st). accounted e}"
  shows "checkpoints_ok E st'"
proof -
  have "\<exists>anchored. commits_to E st' r anchored" if "r \<in> set (au_checkpoints st)" for r
    using that ok commits_to_mono [OF _ grow(2,3)] same(2) unfolding checkpoints_ok_def by metis
  moreover have "\<exists>l\<in>set (au_leaves st). \<exists>entry. au_entries st' (lf_cid l) = Some entry \<and> en_id entry = oe_id e"
    if "e \<in> set (au_outbox st')" "accounted e" for e
  proof -
    have "oe_id e \<in> oe_id ` {e \<in> set (au_outbox st'). accounted e}" using that by blast
    with out have "oe_id e \<in> oe_id ` {e \<in> set (au_outbox st). accounted e}" by blast
    then obtain e0 where "e0 \<in> set (au_outbox st)" "accounted e0" "oe_id e0 = oe_id e" by auto
    then obtain l entry where "l \<in> set (au_leaves st)" "au_entries st (lf_cid l) = Some entry" "en_id entry = oe_id e"
      using ok unfolding checkpoints_ok_def accounted_def by metis
    then show ?thesis using grow(2) unfolding map_le_def by (metis domI)
  qed
  moreover have "cr_seq r \<le> au_seq st'" if "r \<in> set (au_checkpoints st)" for r
    using that ok grow(1) unfolding checkpoints_ok_def by fastforce
  ultimately show ?thesis using ok unfolding checkpoints_ok_def same accounted_def by blast
qed

lemma accounted_mark:
  assumes "\<And>e. oe_id (f e) = oe_id e" "\<And>e. e \<in> set evs \<Longrightarrow> oe_id e \<in> S \<Longrightarrow> accounted (f e) = accounted e"
  shows "oe_id ` {e \<in> set (mark_ids S f evs). accounted e} = oe_id ` {e \<in> set evs. accounted e}"
  unfolding mark_ids_def set_map by (rule image_filter_map) (simp add: assms)

lemma accounted_skip:
  assumes "distinct (map oe_id (au_outbox st))"
  shows "oe_id ` {e \<in> set (au_outbox (skip_lookups st)). accounted e} = oe_id ` {e \<in> set (au_outbox st). accounted e}"
proof -
  have "oe_id ` {e \<in> set (mark_ids (looked_up st) processed_mark (au_outbox st)). accounted e}
      = oe_id ` {e \<in> set (au_outbox st). accounted e}"
    using looked_up_invisible [OF assms] by (intro accounted_mark) (auto simp: accounted_def)
  then show ?thesis by (simp add: skip_lookups_def)
qed

lemma checkpoint_of_leaf:
  assumes "checkpoints_ok E st" "l \<in> set (au_leaves st)"
  obtains r anchored where "r \<in> set (au_checkpoints st)" "cr_seq r = lf_seq l" "commits_to E st r anchored"
    "l \<in> set (new_leaves anchored (cr_seq r))"
proof -
  obtain r where r: "r \<in> set (au_checkpoints st)" "cr_seq r = lf_seq l" using assms unfolding checkpoints_ok_def by metis
  then obtain anchored where c: "commits_to E st r anchored" using assms(1) unfolding checkpoints_ok_def by blast
  have "l \<in> set (filter (\<lambda>l. lf_seq l = cr_seq r) (au_leaves st))" using assms(2) r(2) by simp
  with c have "l \<in> set (new_leaves anchored (cr_seq r))" unfolding commits_to_def by metis
  with r c that show thesis by blast
qed

lemma leaf_stored:
  assumes "checkpoints_ok E st" "l \<in> set (au_leaves st)"
  shows "au_entries st (lf_cid l) \<noteq> None"
proof -
  obtain r anchored where "commits_to E st r anchored" "l \<in> set (new_leaves anchored (cr_seq r))"
    by (rule checkpoint_of_leaf [OF assms]) (rule that, assumption+)
  then show ?thesis by (auto simp: commits_to_def set_new_leaves list_all_iff leaf_ok_def dest!: nth_mem)
qed

lemma checkpoints_ok_commit:
  assumes ok: "checkpoints_ok E st" and fresh: "au_objects st c = None"
    and root: "MerkleRoot (ae_sha E) (map an_leaf anchored) = Some root"
    and ne: "anchored \<noteq> []" and leaves: "list_all (leaf_ok E (au_entries st')) anchored"
    and cids: "distinct (map an_cid anchored)" "\<And>a. a \<in> set anchored \<Longrightarrow> au_entries st (an_cid a) = None"
    and st': "au_entries st \<subseteq>\<^sub>m au_entries st'" "au_objects st' = (au_objects st)(c \<mapsto>
        \<lparr>cp_root = root, cp_prev = ReadLatestCheckpointRoot st, cp_leaf_hashes = map an_leaf anchored, cp_leaf_cids = map an_cid anchored\<rparr>)"
      "au_checkpoints st' = au_checkpoints st @ [new_checkpoint tk anchored root (ReadLatestCheckpointRoot st) c (au_seq st + 1)]"
      "au_leaves st' = au_leaves st @ new_leaves anchored (au_seq st + 1)" "au_seq st' = au_seq st + 1"
    and out: "oe_id ` {e \<in> set (au_outbox st'). accounted e}
        \<subseteq> oe_id ` {e \<in> set (au_outbox st). accounted e} \<union> an_event ` set anchored"
  shows "checkpoints_ok E st'"
proof -
  let ?r = "new_checkpoint tk anchored root (ReadLatestCheckpointRoot st) c (au_seq st + 1)"
  have below: "cr_seq r \<le> au_seq st" if "r \<in> set (au_checkpoints st)" for r using ok that by (simp add: checkpoints_ok_def)
  have lf_below: "lf_seq l \<le> au_seq st" if "l \<in> set (au_leaves st)" for l
    using checkpoint_of_leaf [OF ok that] below by metis
  have objs: "au_objects st \<subseteq>\<^sub>m au_objects st'" using fresh st'(2) by (auto simp: map_le_def)
  obtain s where "linked None s (au_checkpoints st)" using ok unfolding checkpoints_ok_def by blast
  then have "\<exists>s. linked None s (au_checkpoints st')"
  proof (cases "au_checkpoints st = []")
    case True
    then show ?thesis unfolding st'(3) by (intro exI [of _ "au_seq st"]) (simp add: new_checkpoint_def ReadLatestCheckpointRoot_def)
  next
    case False
    then have "cr_seq (last (au_checkpoints st)) < au_seq st + 1" using below last_in_set by fastforce
    with False \<open>linked None s (au_checkpoints st)\<close> show ?thesis
      unfolding st'(3) by (intro exI [of _ s]) (simp add: linked_snoc new_checkpoint_def ReadLatestCheckpointRoot_def)
  qed
  moreover have "\<forall>r\<in>set (au_checkpoints st'). cr_seq r \<le> au_seq st'"
    using below unfolding st'(3,5) by (force simp: new_checkpoint_def)
  moreover have "\<forall>l\<in>set (au_leaves st'). \<exists>r\<in>set (au_checkpoints st'). cr_seq r = lf_seq l"
    using ok unfolding st'(3,4) checkpoints_ok_def by (force simp: new_checkpoint_def set_new_leaves)
  moreover have "\<exists>anchored. commits_to E st' r anchored" if r: "r \<in> set (au_checkpoints st')" for r
  proof -
    consider "r \<in> set (au_checkpoints st)" | "r = ?r" using r st'(3) by auto
    then show ?thesis
    proof cases
      case 1
      then obtain x where x: "commits_to E st r x" using ok unfolding checkpoints_ok_def by blast
      have "filter (\<lambda>l. lf_seq l = cr_seq r) (new_leaves anchored (au_seq st + 1)) = []"
        using below [OF 1] by (auto simp: filter_empty_conv set_new_leaves)
      then show ?thesis using commits_to_mono [OF x st'(1) objs] st'(4) by auto
    next
      case 2
      have "filter (\<lambda>l. lf_seq l = au_seq st + 1) (au_leaves st) = []" using lf_below by (fastforce simp: filter_empty_conv)
      moreover have "filter (\<lambda>l. lf_seq l = au_seq st + 1) (new_leaves anchored (au_seq st + 1)) = new_leaves anchored (au_seq st + 1)"
        by (auto simp: filter_id_conv set_new_leaves)
      ultimately show ?thesis
        using leaves root ne unfolding 2 by (intro exI [of _ anchored]) (simp add: commits_to_def new_checkpoint_def st'(2,4))
    qed
  qed
  moreover have "distinct (map lf_cid (au_leaves st'))"
    using ok cids leaf_stored [OF ok] unfolding st'(4) checkpoints_ok_def by fastforce
  moreover have "\<exists>l\<in>set (au_leaves st'). \<exists>entry. au_entries st' (lf_cid l) = Some entry \<and> en_id entry = oe_id e"
    if e: "e \<in> set (au_outbox st')" "accounted e" for e
  proof -
    have "oe_id e \<in> oe_id ` {e \<in> set (au_outbox st'). accounted e}" using e by blast
    with out have "oe_id e \<in> oe_id ` {e \<in> set (au_outbox st). accounted e} \<union> an_event ` set anchored" by blast
    then consider e0 where "e0 \<in> set (au_outbox st)" "accounted e0" "oe_id e0 = oe_id e"
      | a where "a \<in> set anchored" "an_event a = oe_id e" by auto
    then show ?thesis
    proof cases
      case 1
      then obtain l entry where "l \<in> set (au_leaves st)" "au_entries st (lf_cid l) = Some entry" "en_id entry = oe_id e"
        using ok unfolding checkpoints_ok_def accounted_def by metis
      then show ?thesis using st'(1) unfolding map_le_def st'(4) by (metis Un_iff domI set_append)
    next
      case 2
      then obtain i where "i < length anchored" "anchored ! i = a" by (metis in_set_conv_nth)
      with 2 leaves show ?thesis unfolding st'(4)
        by (intro bexI [of _ "new_leaves anchored (au_seq st + 1) ! i"]) (auto simp: new_leaves_nth list_all_iff leaf_ok_def set_new_leaves)
    qed
  qed
  ultimately show ?thesis unfolding checkpoints_ok_def accounted_def by blast
qed

lemma checkpoints_ok_tick:
  assumes chains: "chains_ok st" and ok: "checkpoints_ok E st" and tick: "tick_ok tk st"
  shows "checkpoints_ok E (processing_tick E tk st)"
proof -
  let ?w = "tick_writes E tk st" and ?events = "visible (select_events st)"
  note ev = batch_events_ok [OF chains tick]
  have ent: "au_entries (skip_lookups st) = au_entries st" by (simp add: skip_lookups_def)
  note P = au_writes_props [OF chains_ok_skip [OF chains] ev(2) [folded ent] ev(1), of E, unfolded ent]
  have d: "distinct (map oe_id (au_outbox st))" using chains by (simp add: chains_ok_def)
  have fail: "oe_id ` {e \<in> set (mark_ids F failure_mark evs). accounted e} = oe_id ` {e \<in> set evs. accounted e}" for F evs
    by (rule accounted_mark) (simp_all add: accounted_def)
  from chains tick show ?thesis
  proof (cases rule: processing_tick_cases [of st tk E])
    case idle
    show ?thesis unfolding idle
      by (rule checkpoints_ok_frame [OF ok]) (simp_all add: accounted_skip [OF d], simp_all add: skip_lookups_def)
  next
    case (left objects seq)
    show ?thesis unfolding left(1)
      by (rule checkpoints_ok_frame [OF ok]) (simp_all add: left(2,3) P(1) fail accounted_skip [OF d])
  next
    case (committed anchored root c cp)
    have set_anch: "set anchored = set (wr_anchored ?w)" by (simp add: committed(1))
    have stored: "tk_stored tk (an_event a) = Some (an_cid a) \<and> leaf_ok E (wr_entries ?w) a" if "a \<in> set anchored" for a
      using P(6) that unfolding set_anch anchored_ok_def leaf_ok_def by blast
    have ids: "an_event a \<in> set (map oe_id ?events)" if "a \<in> set anchored" for a
      using P(5) that unfolding set_anch by auto
    have "inj_on an_cid (set anchored)"
    proof (rule inj_onI)
      fix a b assume ab: "a \<in> set anchored" "b \<in> set anchored" "an_cid a = an_cid b"
      with stored have "tk_stored tk (an_event a) = Some (an_cid a)" "tk_stored tk (an_event b) = Some (an_cid a)" by auto
      with ev(2) ids ab(1,2) have "an_event a = an_event b" unfolding cids_ok_def by blast
      with P(4) ab(1,2) show "a = b" unfolding set_anch by (auto simp: distinct_map inj_on_def)
    qed
    moreover have "distinct anchored" using P(4) by (simp add: committed(1) distinct_map)
    ultimately have dc: "distinct (map an_cid anchored)" by (simp add: distinct_map)
    have fresh: "au_entries st (an_cid a) = None" if "a \<in> set anchored" for a
      using ev(2) ids [OF that] stored [OF that] unfolding cids_ok_def by blast
    have "oe_id ` {e \<in> set (mark_ids (an_event ` set anchored) processed_mark (au_outbox (skip_lookups st))). accounted e}
        \<subseteq> oe_id ` {e \<in> set (au_outbox (skip_lookups st)). accounted e} \<union> an_event ` set anchored"
      by (auto simp: mark_ids_mem split: if_splits)
    then have out: "oe_id ` {e \<in> set (au_outbox (processing_tick E tk st)). accounted e}
        \<subseteq> oe_id ` {e \<in> set (au_outbox st). accounted e} \<union> an_event ` set anchored"
      by (simp add: committed(7) fail accounted_skip [OF d] set_anch)
    show ?thesis
      by (rule checkpoints_ok_commit [OF ok committed(5) committed(3) committed(2) _ dc fresh _ _ _ _ _ out])
        (simp_all add: committed(6,7) P(1) stored list_all_iff)
  qed
qed

lemma checkpoints_ok_timestamped:
  assumes "checkpoints_ok E st" "timestamped st st'"
  shows "checkpoints_ok E st'"
proof -
  obtain g where g: "\<And>r. (g r)\<lparr>cr_tsa := None\<rparr> = r\<lparr>cr_tsa := None\<rparr>" and st': "st' = st\<lparr>au_checkpoints := map g (au_checkpoints st)\<rparr>"
    using assms(2) unfolding timestamped_def by blast
  have f: "cr_prev (g r) = cr_prev r" "cr_root (g r) = cr_root r" "cr_seq (g r) = cr_seq r"
    "cr_cid (g r) = cr_cid r" "cr_leaf_count (g r) = cr_leaf_count r" for r
    using g [of r] by (metis checkpoint_row.select_convs(1-5) checkpoint_row.surjective checkpoint_row.update_convs(6))+
  have "commits_to E st' (g r) = commits_to E st r" for r
    by (rule ext) (simp add: commits_to_def f st')
  with assms(1) show ?thesis
    unfolding checkpoints_ok_def by (simp add: st' linked_map [OF g] f)
qed

lemma checkpoints_ok_reachable: "au_reachable E st \<Longrightarrow> checkpoints_ok E st"
proof (induction rule: au_reachable_induct)
  case (init ks)
  show ?case by (auto simp: checkpoints_ok_def empty_trail_def)
next
  case (step st st')
  note frame = checkpoints_ok_frame [OF step.IH]
  from step.hyps(2) show ?case
  proof (cases rule: au_step.cases)
    case (Record e)
    then show ?thesis by (intro frame) (auto simp: accounted_def new_event_def)
  next
    case (Process tk)
    with step chains_ok_reachable show ?thesis by (simp add: checkpoints_ok_tick)
  next
    case (Publish published)
    with publishing_tick_eq [of published st] obtain S where
      st': "st' = st\<lparr>au_outbox := mark_ids S published_mark (au_outbox st)\<rparr>" by blast
    have "oe_id ` {e \<in> set (mark_ids S published_mark (au_outbox st)). accounted e} = oe_id ` {e \<in> set (au_outbox st). accounted e}"
      by (rule accounted_mark) (simp_all add: accounted_def)
    then show ?thesis unfolding st' by (intro frame) simp_all
  next
    case (Timestamp tsa)
    then have "timestamped st st'" by (simp add: timestamping_tick_def timestamp_loop_result)
    with step.IH show ?thesis by (rule checkpoints_ok_timestamped)
  next
    case (Keys ks)
    then show ?thesis by (intro frame) auto
  qed
qed

section \<open>Attempts\<close>

definition attempts_ok :: "audit_state \<Rightarrow> bool" where
  "attempts_ok st = (\<forall>e\<in>set (au_outbox st). 0 \<le> oe_attempts e \<and> oe_attempts e \<le> OutboxAnchorMaxAttempts
     \<and> (oe_dead e \<longleftrightarrow> oe_attempts e = OutboxAnchorMaxAttempts))"

lemma attempts_ok_mark:
  "attempts_ok st \<Longrightarrow> (\<And>e. oe_attempts (f e) = oe_attempts e) \<Longrightarrow> (\<And>e. oe_dead (f e) = oe_dead e) \<Longrightarrow>
     \<forall>e\<in>set (mark_ids S f (au_outbox st)). 0 \<le> oe_attempts e \<and> oe_attempts e \<le> OutboxAnchorMaxAttempts
       \<and> (oe_dead e \<longleftrightarrow> oe_attempts e = OutboxAnchorMaxAttempts)"
  by (auto simp: attempts_ok_def mark_ids_mem split: if_splits)

lemma mark_ids_all: "\<forall>e\<in>set evs. P e \<Longrightarrow> (\<And>e. P e \<Longrightarrow> P (f e)) \<Longrightarrow> \<forall>e\<in>set (mark_ids S f evs). P e"
  by (auto simp: mark_ids_mem)

lemma attempts_ok_tick:
  assumes chains: "chains_ok st" and ok: "attempts_ok st" and tick: "tick_ok tk st"
  shows "attempts_ok (processing_tick E tk st)"
proof -
  let ?w = "tick_writes E tk st" and ?inv = "\<lambda>e. 0 \<le> oe_attempts e \<and> oe_attempts e \<le> OutboxAnchorMaxAttempts
     \<and> (oe_dead e \<longleftrightarrow> oe_attempts e = OutboxAnchorMaxAttempts)"
  note ev = batch_events_ok [OF chains tick]
  have ent: "au_entries (skip_lookups st) = au_entries st" by (simp add: skip_lookups_def)
  note P = au_writes_props [OF chains_ok_skip [OF chains] ev(2) [folded ent] ev(1), of E, unfolded ent]
  have d: "distinct (map oe_id (au_outbox st))" using chains by (simp add: chains_ok_def)
  have skip: "\<forall>e\<in>set (au_outbox (skip_lookups st)). ?inv e"
    unfolding skip_lookups_def using attempts_ok_mark [OF ok, of processed_mark] by (simp add: processed_mark_def)
  have open_event: "\<not> oe_dead e" if mem: "e \<in> set (au_outbox (skip_lookups st))" and lost: "oe_id e \<in> set (wr_failed ?w)" for e
  proof -
    obtain e' where e': "e' \<in> set (select_events st)" "oe_id e' = oe_id e" using lost P(3) by auto
    obtain e0 where e0: "e0 \<in> set (au_outbox st)" "oe_id e0 = oe_id e" "oe_dead e = oe_dead e0"
      using mem by (auto simp: skip_lookups_def mark_ids_mem processed_mark_def)
    with e' event_id_inj [OF d e0(1), of e'] select_events_props [OF e'(1)] show ?thesis by simp
  qed
  have fail: "\<forall>e\<in>set (mark_ids (set (wr_failed ?w)) failure_mark evs). ?inv e"
    if "\<forall>e\<in>set evs. ?inv e \<and> (oe_id e \<in> set (wr_failed ?w) \<longrightarrow> \<not> oe_dead e)" for evs
    using that by (fastforce simp: mark_ids_mem failure_mark_def OutboxAnchorMaxAttempts_def)
  have processed_attempts: "oe_attempts (processed_mark e) = oe_attempts e" "oe_dead (processed_mark e) = oe_dead e" for e
    by (simp_all add: processed_mark_def)
  have A: "\<forall>e\<in>set (au_outbox (skip_lookups st)). ?inv e \<and> (oe_id e \<in> set (wr_failed ?w) \<longrightarrow> \<not> oe_dead e)"
    using skip open_event by blast
  then have B: "\<forall>e\<in>set (mark_ids S processed_mark (au_outbox (skip_lookups st))).
      ?inv e \<and> (oe_id e \<in> set (wr_failed ?w) \<longrightarrow> \<not> oe_dead e)" for S
    by (rule mark_ids_all) (unfold mark_fields(1) processed_attempts)
  from chains tick show ?thesis
  proof (cases rule: processing_tick_cases [of st tk E])
    case idle
    with skip show ?thesis by (simp add: attempts_ok_def)
  next
    case (left objects seq)
    with fail [OF A] show ?thesis by (simp add: attempts_ok_def)
  next
    case (committed anchored root c cp)
    with fail [OF B] show ?thesis by (simp add: attempts_ok_def)
  qed
qed

lemma attempts_ok_reachable: "au_reachable E st \<Longrightarrow> attempts_ok st"
proof (induction rule: au_reachable_induct)
  case (init ks)
  show ?case by (simp add: attempts_ok_def empty_trail_def)
next
  case (step st st')
  from step.hyps(2) show ?case
  proof (cases rule: au_step.cases)
    case (Record e)
    with step.IH show ?thesis by (auto simp: attempts_ok_def new_event_def OutboxAnchorMaxAttempts_def)
  next
    case (Process tk)
    with step chains_ok_reachable show ?thesis by (simp add: attempts_ok_tick)
  next
    case (Publish published)
    with publishing_tick_eq [of published st] obtain S where
      st': "st' = st\<lparr>au_outbox := mark_ids S published_mark (au_outbox st)\<rparr>" by blast
    show ?thesis unfolding st' attempts_ok_def [of "st\<lparr>au_outbox := x\<rparr>" for x]
      using attempts_ok_mark [OF step.IH, of published_mark] by simp
  next
    case (Timestamp tsa)
    then have "timestamped st st'" by (simp add: timestamping_tick_def timestamp_loop_result)
    with step.IH show ?thesis by (auto simp: timestamped_def attempts_ok_def)
  next
    case (Keys ks)
    with step.IH show ?thesis by (simp add: attempts_ok_def)
  qed
qed

section \<open>Reading a chain\<close>

text \<open>The reference reader: open the entries of a list one by one.\<close>

fun open_all :: "(audit_entry \<Rightarrow> (audit_error, audit_entry) result) \<Rightarrow> audit_entry list \<Rightarrow> (audit_error, audit_entry list) result" where
  "open_all opener [] = Inr []"
| "open_all opener (e # es) = bind_res (opener e) (\<lambda>x. bind_res (open_all opener es) (\<lambda>xs. Inr (x # xs)))"

lemma openAuditLogEntry_keeps:
  "openAuditLogEntry E d ks e = Inr x \<Longrightarrow>
     en_pred x = en_pred e \<and> entry_header x = entry_header e \<and> en_scope_kind x = en_scope_kind e \<and> en_scope_id x = en_scope_id e"
  by (auto simp: openAuditLogEntry_def entry_header_def split: if_split_asm entry_body.split_asm sum.split_asm key_error.split_asm prod.split_asm)

lemma walk_chain_open:
  assumes "chain B (Some cid) es" "\<And>e x. opener e = Inr x \<Longrightarrow> en_pred x = en_pred e"
  shows "walk_chain B opener cid = Some (open_all opener es)"
  using assms(1)
proof (induction "Some cid" es arbitrary: cid rule: chain.induct)
  case (Cons cid e es)
  show ?case
  proof (cases "opener e")
    case (Inl x)
    with Cons.hyps(1) show ?thesis by (subst walk_chain.simps) simp
  next
    case (Inr x)
    then have p: "en_pred x = en_pred e" by (rule assms(2))
    show ?thesis
    proof (cases "en_pred e")
      case None
      then have "es = []" using Cons.hyps(2) by (auto elim: chain_NoneE)
      with Cons.hyps(1) Inr p None show ?thesis by (subst walk_chain.simps) simp
    next
      case (Some c)
      with Cons Inr p show ?thesis by (subst walk_chain.simps) (simp add: Cons.hyps(3) [OF Some])
    qed
  qed
qed

lemma read_chain:
  assumes "chain (au_entries st) (au_heads st key) es"
  shows "ReadAuditLogEntriesByComponentAndDID E d key st = Some (open_all (openAuditLogEntry E d (au_keys st)) es)"
proof (cases "au_heads st key")
  case None
  with assms have "es = []" by (auto elim: chain_NoneE)
  with None show ?thesis by (simp add: ReadAuditLogEntriesByComponentAndDID_def ReadLogCID_def)
next
  case (Some cid)
  with assms walk_chain_open [of "au_entries st" cid es "openAuditLogEntry E d (au_keys st)"] openAuditLogEntry_keeps
  show ?thesis by (auto simp: ReadAuditLogEntriesByComponentAndDID_def ReadLogCID_def)
qed

lemma open_all_headers:
  "open_all (openAuditLogEntry E d ks) es = Inr xs \<Longrightarrow> map entry_header xs = map entry_header es"
  by (induction es arbitrary: xs) (auto simp: bind_res_Inr_iff dest!: openAuditLogEntry_keeps)

section \<open>Reading after an erasure\<close>

definition erased_view :: "string \<Rightarrow> audit_entry \<Rightarrow> audit_entry" where
  "erased_view iri e =
    (if en_scope_kind e = ''contract'' \<and> en_scope_id e = iri then e\<lparr>en_data := ErasedEventData\<rparr> else e)"

lemma Fetch_ShredTx_other:
  "sc' \<noteq> sc \<Longrightarrow> Fetch sc' r (snd (ShredTx now sc b reason repo)) = Fetch sc' r repo"
proof -
  assume ne: "sc' \<noteq> sc"
  have "filter (\<lambda>x. rec_scope x = sc' \<and> rec_recipient x = r) (map (shred_record now sc b reason) repo)
      = filter (\<lambda>x. rec_scope x = sc' \<and> rec_recipient x = r) repo"
    using ne by (induction repo) (auto simp: shred_record_def)
  then show ?thesis by (simp add: Fetch_def ShredTx_def)
qed

lemma cek_read_cases:
  "cek C o' d sc False ks = (case cached sc ks of Some k \<Rightarrow> Inr (k, ks)
     | None \<Rightarrow> (case Fetch sc (own_did o') (ks_repo ks) of None \<Rightarrow> Inl (NoKey sc) | Some r \<Rightarrow> open_record C o' sc r ks))"
  by (simp add: cek_def split: option.split)

lemma Decrypt_other_scope:
  assumes "Shred now iri actor reason ks = (n, evt, ks')" "sc \<noteq> ContractScope iri"
  shows "map_sum id fst (store_Decrypt C o' d sc body ks') = map_sum id fst (store_Decrypt C o' d sc body ks)"
proof -
  note S = Shred_result [OF assms(1)]
  have "Fetch sc (own_did o') (ks_repo ks') = Fetch sc (own_did o') (ks_repo ks)"
    unfolding S(1) by (rule Fetch_ShredTx_other [OF assms(2)])
  moreover have "cached sc ks' = cached sc ks"
    using assms by (auto simp: Shred_def Let_def cached_def split: prod.split_asm)
  ultimately have "map_sum id fst (cek C o' d sc False ks') = map_sum id fst (cek C o' d sc False ks)"
    by (auto simp: cek_read_cases open_record_def lift_env_def bind_res_def split: option.split sum.split)
  then show ?thesis
    by (cases "cek C o' d sc False ks'"; cases "cek C o' d sc False ks")
      (auto simp: store_Decrypt_def lift_env_def bind_res_def split: sum.split)
qed

lemma Decrypt_erased_scope:
  assumes "Shred now iri actor reason ks = (n, evt, ks')" "Fetch (ContractScope iri) (own_did o') (ks_repo ks) \<noteq> None"
  shows "store_Decrypt C o' d (ContractScope iri) body ks' = Inl (Shredded (ContractScope iri))"
proof -
  note S = Shred_result [OF assms(1)]
  have "Fetch (ContractScope iri) (own_did o') (ks_repo ks') \<noteq> None"
    using assms(2) unfolding S(1) Fetch_None ShredTx_def by auto
  then obtain r where r: "Fetch (ContractScope iri) (own_did o') (ks_repo ks') = Some r" by blast
  have "\<not> has_live (ContractScope iri) (ks_repo ks')" unfolding S(1) by (simp add: Shred_status)
  with Fetch_in [OF r] have "\<not> live r" by (auto simp: has_live_def list_ex_iff)
  with r S(2) show ?thesis by (simp add: store_Decrypt_def cek_read_cases cached_def open_record_def)
qed

lemma open_after_shred:
  assumes "Shred now iri actor reason ks = (n, evt, ks')" "Fetch (ContractScope iri) (own_did (ae_owner E)) (ks_repo ks) \<noteq> None"
    and "openAuditLogEntry E d ks e = Inr x"
  shows "openAuditLogEntry E d ks' e = Inr (erased_view iri x)"
proof (cases "en_scope_kind e = ''''")
  case True
  with assms(3) show ?thesis by (simp add: openAuditLogEntry_def erased_view_def)
next
  case False
  then obtain body where body: "en_data e = Sealed body"
    using assms(3) by (auto simp: openAuditLogEntry_def split: entry_body.split_asm)
  let ?sc = "\<lparr>sc_kind = en_scope_kind e, sc_id = en_scope_id e\<rparr>"
  note keeps = openAuditLogEntry_keeps [OF assms(3)]
  show ?thesis
  proof (cases "?sc = ContractScope iri")
    case True
    then have sc: "en_scope_kind e = ''contract''" "en_scope_id e = iri" by (simp_all add: ContractScope_def)
    have "x\<lparr>en_data := ErasedEventData\<rparr> = e\<lparr>en_data := ErasedEventData\<rparr>"
      using assms(3) False body by (auto simp: openAuditLogEntry_def split: sum.split_asm key_error.split_asm prod.split_asm)
    then show ?thesis
      using Decrypt_erased_scope [OF assms(1,2)] False body sc keeps True
      by (simp add: openAuditLogEntry_def erased_view_def)
  next
    case other: False
    then have view: "erased_view iri x = x" using keeps by (auto simp: erased_view_def ContractScope_def)
    from Decrypt_other_scope [OF assms(1) other, of "ae_crypto E" "ae_owner E" d body] assms(3) False body show ?thesis
      unfolding view
      by (cases "store_Decrypt (ae_crypto E) (ae_owner E) d ?sc body ks'";
          cases "store_Decrypt (ae_crypto E) (ae_owner E) d ?sc body ks") (auto simp: openAuditLogEntry_def)
  qed
qed

lemma open_all_after_shred:
  assumes "Shred now iri actor reason ks = (n, evt, ks')" "Fetch (ContractScope iri) (own_did (ae_owner E)) (ks_repo ks) \<noteq> None"
  shows "open_all (openAuditLogEntry E d ks) es = Inr xs \<Longrightarrow>
    open_all (openAuditLogEntry E d ks') es = Inr (map (erased_view iri) xs)"
  by (induction es arbitrary: xs) (auto simp: bind_res_Inr_iff dest!: open_after_shred [OF assms])

section \<open>Proving an entry\<close>

lemma sorted_new_leaves: "sort_key lf_idx (new_leaves anchored seq) = new_leaves anchored seq"
  by (rule sort_key_id_if_sorted) simp

lemma distinct_filter_single:
  "distinct (map f xs) \<Longrightarrow> x \<in> set xs \<Longrightarrow> filter (\<lambda>y. f y = f x) xs = [x]"
  by (induction xs) (auto simp: filter_empty_conv image_iff)

lemma MerkleRoot_proof:
  assumes "MerkleRoot sha leaves = Some root" "index < length leaves"
  shows "\<exists>siblings. MerkleInclusionProof sha leaves (int index) = Some siblings
    \<and> VerifyMerkleInclusion sha (leaves ! index) siblings (int index) (int (length leaves)) root"
proof -
  obtain level where level: "decode_leaves leaves = Some level" and root: "root = hex_encode (hd (merkle_reduce sha level))"
    using assms(1) by (auto simp: MerkleRoot_def split: if_split_asm option.split_asm)
  have len: "length level = length leaves" and leaf: "hex_decode (leaves ! index) = Some (level ! index)"
    using decode_leaves_nth [OF level] assms(2) by auto
  have "verify_loop sha (int (length level)) (int index)
      (map hex_encode (proof_loop sha level index) @ []) (level ! index) = Some (hd (merkle_reduce sha level), [])"
    using assms(2) len by (intro verify_loop_complete) auto
  with level leaf len assms root show ?thesis
    by (auto simp: MerkleInclusionProof_def VerifyMerkleInclusion_def)
qed

lemma Proof_of_leaf:
  assumes ok: "checkpoints_ok E st" and l: "l \<in> set (au_leaves st)"
  obtains r entry pf where "r \<in> set (au_checkpoints st)" "au_entries st (lf_cid l) = Some entry"
    "Proof (ae_sha E) st (lf_cid l) = Inr (Some pf)" "pf_head pf = r"
    "pf_leaf pf = MerkleLeafHash (ae_sha E) (ae_marshal E entry)"
    "VerifyMerkleInclusion (ae_sha E) (pf_leaf pf) (pf_siblings pf) (int (pf_index pf)) (int (cr_leaf_count r)) (cr_root r)"
proof -
  obtain r anchored where r: "r \<in> set (au_checkpoints st)" "cr_seq r = lf_seq l" and c: "commits_to E st r anchored"
    and "l \<in> set (new_leaves anchored (cr_seq r))"
    by (rule checkpoint_of_leaf [OF ok l]) (rule that, assumption+)
  then obtain i where i: "i < length anchored"
    "l = \<lparr>lf_seq = cr_seq r, lf_idx = i, lf_cid = an_cid (anchored ! i), lf_hash = an_leaf (anchored ! i)\<rparr>"
    by (auto simp: set_new_leaves)
  have idx: "lf_idx l = i" and cid: "lf_cid l = an_cid (anchored ! i)" by (subst i(2), simp)+
  from c i(1) have "leaf_ok E (au_entries st) (anchored ! i)" by (simp add: commits_to_def list_all_length)
  then obtain entry where entry: "au_entries st (lf_cid l) = Some entry"
    "an_leaf (anchored ! i) = MerkleLeafHash (ae_sha E) (ae_marshal E entry)"
    using cid by (auto simp: leaf_ok_def)
  obtain s where "linked None s (au_checkpoints st)" and dl: "distinct (map lf_cid (au_leaves st))"
    using ok unfolding checkpoints_ok_def by blast
  from distinct_filter_single [OF linked_distinct [OF this(1)] r(1)] distinct_filter_single [OF dl l]
  have "ReadCheckpointForEntry (lf_cid l) st = Some (r, map an_leaf anchored, i)"
    using c by (simp add: ReadCheckpointForEntry_def commits_to_def sorted_new_leaves idx flip: r(2))
  moreover obtain siblings where "MerkleInclusionProof (ae_sha E) (map an_leaf anchored) (int i) = Some siblings"
    "VerifyMerkleInclusion (ae_sha E) (an_leaf (anchored ! i)) siblings (int i) (int (length anchored)) (cr_root r)"
    using MerkleRoot_proof [of "ae_sha E" "map an_leaf anchored" "cr_root r" i] c i(1) by (auto simp: commits_to_def)
  ultimately show thesis
    using i(1) c by (intro that [OF r(1) entry(1), of "\<lparr>pf_cid = lf_cid l, pf_leaf = an_leaf (anchored ! i), pf_index = i,
      pf_siblings = siblings, pf_head = r\<rparr>"]) (simp_all add: Proof_def commits_to_def entry(2))
qed

end
