(* ===== verification/Audit_Properties.thy ===== *)
theory Audit_Properties
  imports Audit_Trail
begin

text \<open>
  The properties of the audit trail, each over the states reachable by \<open>au_step\<close>, and a
  small history at which they are applied.
\<close>

section \<open>Properties\<close>

text \<open>
  C21: a resource chain is a complete record.  After any history of commands and tickers,
  whatever entries could not be written and whatever transactions were lost on the way,
  reading the chain of a resource ends, and opens one entry for every processed event of
  the resource that is visible to auditors, and no other entry; no event has two.
\<close>

theorem audit_trail_complete:
  assumes "au_reachable E st"
  shows "\<exists>stored. ReadAuditLogEntriesByComponentAndDID E d key st = Some (open_all (openAuditLogEntry E d (au_keys st)) stored)
    \<and> distinct (map en_id stored)
    \<and> entry_header ` set stored = event_header ` {e \<in> set (au_outbox st).
         oe_processed e \<and> IsAuditVisibleEventType (oe_type e) \<and> chainKeyFor e = Some key}
    \<and> (\<forall>entries. open_all (openAuditLogEntry E d (au_keys st)) stored = Inr entries \<longrightarrow>
         map entry_header entries = map entry_header stored)"
proof -
  obtain es where "chain (au_entries st) (au_heads st key) es" "distinct (map en_id es)"
    "entry_header ` set es = event_header ` {e \<in> set (au_outbox st). on_chain key e}"
    using chains_ok_reachable [OF assms] unfolding chains_ok_def by blast
  with read_chain [of st key es E d] open_all_headers show ?thesis unfolding on_chain_def by blast
qed

text \<open>
  C22: every processed event can be proved to have been anchored.  For each processed
  event that is visible to auditors there is a stored entry of it for which the proof
  query answers with a proof: the leaf is the hash of that entry, and it verifies at its
  position against the root of a recorded checkpoint.
\<close>

theorem anchored_event_is_provable:
  assumes "au_reachable E st" "e \<in> set (au_outbox st)" "oe_processed e" "IsAuditVisibleEventType (oe_type e)"
  shows "\<exists>cid entry pf. au_entries st cid = Some entry \<and> en_id entry = oe_id e
    \<and> Proof (ae_sha E) st cid = Inr (Some pf) \<and> pf_head pf \<in> set (au_checkpoints st)
    \<and> pf_leaf pf = MerkleLeafHash (ae_sha E) (ae_marshal E entry)
    \<and> VerifyMerkleInclusion (ae_sha E) (pf_leaf pf) (pf_siblings pf) (int (pf_index pf))
         (int (cr_leaf_count (pf_head pf))) (cr_root (pf_head pf))"
proof -
  note ok = checkpoints_ok_reachable [OF assms(1)]
  then obtain l entry where l: "l \<in> set (au_leaves st)" "au_entries st (lf_cid l) = Some entry" "en_id entry = oe_id e"
    using assms(2-4) unfolding checkpoints_ok_def by metis
  obtain r entry' pf where "r \<in> set (au_checkpoints st)" "au_entries st (lf_cid l) = Some entry'"
    "Proof (ae_sha E) st (lf_cid l) = Inr (Some pf)" "pf_head pf = r"
    "pf_leaf pf = MerkleLeafHash (ae_sha E) (ae_marshal E entry')"
    "VerifyMerkleInclusion (ae_sha E) (pf_leaf pf) (pf_siblings pf) (int (pf_index pf)) (int (cr_leaf_count r)) (cr_root r)"
    by (rule Proof_of_leaf [OF ok l(1)]) (rule that, assumption+)
  with l show ?thesis by (intro exI [of _ "lf_cid l"] exI [of _ entry] exI [of _ pf]) auto
qed

text \<open>
  The checkpoints are one chain of roots over disjoint batches.  Each names the root
  of the one before it, with a larger number; the artifact stored for it repeats its
  root and predecessor, and its root is the Merkle root of the leaf hashes stored with
  it; no entry is in two batches.
\<close>

theorem checkpoints_are_chained:
  assumes "au_reachable E st"
  shows "(\<forall>i. Suc i < length (au_checkpoints st) \<longrightarrow>
            cr_prev (au_checkpoints st ! Suc i) = Some (cr_root (au_checkpoints st ! i))
            \<and> cr_seq (au_checkpoints st ! i) < cr_seq (au_checkpoints st ! Suc i))
    \<and> (\<forall>r\<in>set (au_checkpoints st). \<exists>cp. au_objects st (cr_cid r) = Some cp \<and> cp_root cp = cr_root r \<and> cp_prev cp = cr_prev r
         \<and> length (cp_leaf_hashes cp) = cr_leaf_count r \<and> MerkleRoot (ae_sha E) (cp_leaf_hashes cp) = Some (cr_root r))
    \<and> distinct (map lf_cid (au_leaves st))"
proof -
  note ok = checkpoints_ok_reachable [OF assms]
  have link: "linked prev s rs \<Longrightarrow> Suc i < length rs \<Longrightarrow> cr_prev (rs ! Suc i) = Some (cr_root (rs ! i)) \<and> cr_seq (rs ! i) < cr_seq (rs ! Suc i)"
    for prev s rs i
  proof (induction rs arbitrary: prev s i)
    case (Cons r rs)
    then show ?case by (cases rs; cases i) auto
  qed simp
  have "\<exists>cp. au_objects st (cr_cid r) = Some cp \<and> cp_root cp = cr_root r \<and> cp_prev cp = cr_prev r
         \<and> length (cp_leaf_hashes cp) = cr_leaf_count r \<and> MerkleRoot (ae_sha E) (cp_leaf_hashes cp) = Some (cr_root r)"
    if r: "r \<in> set (au_checkpoints st)" for r
  proof -
    obtain anchored where "commits_to E st r anchored" using ok r unfolding checkpoints_ok_def by blast
    then show ?thesis by (auto simp: commits_to_def)
  qed
  with ok link show ?thesis unfolding checkpoints_ok_def by blast
qed

text \<open>
  A poisoned event is given up.  An event is tried at most \<open>OutboxAnchorMaxAttempts\<close>
  times; it is dead-lettered exactly when that number is reached, and a dead-lettered
  event is not selected again, so it cannot hold back its chain forever.
\<close>

theorem anchor_attempts_bounded:
  assumes "au_reachable E st" "e \<in> set (au_outbox st)"
  shows "0 \<le> oe_attempts e \<and> oe_attempts e \<le> OutboxAnchorMaxAttempts
    \<and> (oe_dead e \<longleftrightarrow> oe_attempts e = OutboxAnchorMaxAttempts)
    \<and> (oe_dead e \<longrightarrow> e \<notin> set (select_events st))"
  using attempts_ok_reachable [OF assms(1)] assms(2) select_events_props [of e st] by (auto simp: attempts_ok_def)

text \<open>
  C24: the trail survives an erasure.  When an instance that holds a record of the key of
  a contract can read a chain, then after it shredded the key it reads the same entries in the
  same order; the bodies sealed for the contract have become the erased marker, and all
  other entries are as before.
\<close>

theorem trail_survives_erasure:
  assumes "au_reachable E st" "Fetch (ContractScope iri) (own_did (ae_owner E)) (ks_repo (au_keys st)) \<noteq> None"
    and "ReadAuditLogEntriesByComponentAndDID E d key st = Some (Inr entries)"
  shows "ReadAuditLogEntriesByComponentAndDID E d key
      (st\<lparr>au_keys := snd (snd (Shred now iri actor reason (au_keys st)))\<rparr>) = Some (Inr (map (erased_view iri) entries))"
proof -
  obtain n evt ks' where S: "Shred now iri actor reason (au_keys st) = (n, evt, ks')" by (metis prod.exhaust)
  obtain es where es: "chain (au_entries st) (au_heads st key) es"
    using chains_ok_reachable [OF assms(1)] unfolding chains_ok_def by blast
  with assms(3) have "open_all (openAuditLogEntry E d (au_keys st)) es = Inr entries" by (simp add: read_chain)
  from open_all_after_shred [OF S assms(2) this]
  have "open_all (openAuditLogEntry E d ks') es = Inr (map (erased_view iri) entries)" .
  with read_chain [of "st\<lparr>au_keys := ks'\<rparr>" key es E d] es show ?thesis by (simp add: S)
qed

section \<open>A history\<close>

definition demo_env :: audit_env where
  "demo_env = \<lparr>ae_crypto = demo_crypto, ae_owner = demo_owner ''a'', ae_sha = checksum, ae_marshal = (\<lambda>e. [of_int (en_id e)])\<rparr>"

definition demo_event :: "int \<Rightarrow> string \<Rightarrow> outbox_event" where
  "demo_event i t = \<lparr>oe_id = i, oe_component = ''CONTRACT_WORKFLOW_ENGINE'', oe_type = t, oe_data = [1], oe_did = Some ''c1'',
     oe_created_at = i, oe_processed = False, oe_published = False, oe_attempts = 0, oe_dead = False\<rparr>"

definition demo_keys :: key_store where
  "demo_keys = \<lparr>ks_repo = [demo_record], ks_cache = (\<lambda>_. Some (replicate 32 7)), ks_order = []\<rparr>"

definition demo_tick :: tick where
  "demo_tick = \<lparr>tk_stored = (\<lambda>i. if i = 1 then Some ''e1'' else if i = 2 then Some ''e2'' else None), tk_nonce = (\<lambda>_. [5]),
     tk_draws = (\<lambda>i. demo_draws i), tk_checkpoint = Some ''cp'', tk_tsa = (\<lambda>_. None), tk_commit = True\<rparr>"

definition demo_start :: audit_state where
  "demo_start = (empty_trail demo_keys)\<lparr>au_outbox := [demo_event 1 ''CREATE_CONTRACT'', demo_event 2 ''SUBMIT_CONTRACT'',
     demo_event 3 ''RETRIEVE_CONTRACT'']\<rparr>"

definition demo_trail :: audit_state where
  "demo_trail = processing_tick demo_env demo_tick demo_start"

lemma demo_selected: "select_events demo_start
   = [demo_event 1 ''CREATE_CONTRACT'', demo_event 2 ''SUBMIT_CONTRACT'', demo_event 3 ''RETRIEVE_CONTRACT'']"
  by code_simp

lemma demo_outbox: "map (\<lambda>e. (oe_id e, oe_processed e)) (au_outbox demo_trail) = [(1, True), (2, True), (3, True)]"
  by code_simp

lemma demo_chain: "chainKeyFor (demo_event i t) = Some (ChainKey ''CONTRACT_WORKFLOW_ENGINE'' ''c1'')"
  by (simp add: chainKeyFor_def isResourceDID_def demo_event_def)

lemma demo_reachable: "au_reachable demo_env demo_trail"
proof -
  let ?a = "demo_event 1 ''CREATE_CONTRACT''" and ?b = "demo_event 2 ''SUBMIT_CONTRACT''" and ?c = "demo_event 3 ''RETRIEVE_CONTRACT''"
  have n: "new_event (demo_event i t)" for i t by (simp add: new_event_def demo_event_def)
  have ids: "oe_id (demo_event i t) = i" for i t by (simp add: demo_event_def)
  have s: "au_step demo_env ((empty_trail demo_keys)\<lparr>au_outbox := es\<rparr>) ((empty_trail demo_keys)\<lparr>au_outbox := es @ [demo_event i t]\<rparr>)"
    if "i \<notin> oe_id ` set es" for es i t
    using au_step.Record [OF n [of i t], of "(empty_trail demo_keys)\<lparr>au_outbox := es\<rparr>" demo_env] that
    by (simp add: ids)
  have s1: "au_step demo_env ((empty_trail demo_keys)\<lparr>au_outbox := []\<rparr>) ((empty_trail demo_keys)\<lparr>au_outbox := [?a]\<rparr>)"
    and s2: "au_step demo_env ((empty_trail demo_keys)\<lparr>au_outbox := [?a]\<rparr>) ((empty_trail demo_keys)\<lparr>au_outbox := [?a, ?b]\<rparr>)"
    and s3: "au_step demo_env ((empty_trail demo_keys)\<lparr>au_outbox := [?a, ?b]\<rparr>) ((empty_trail demo_keys)\<lparr>au_outbox := [?a, ?b, ?c]\<rparr>)"
    using s [of 1 "[]"] s [of 2 "[?a]"] s [of 3 "[?a, ?b]"] by (simp_all add: ids)
  have "(au_step demo_env)\<^sup>*\<^sup>* ((empty_trail demo_keys)\<lparr>au_outbox := []\<rparr>) ((empty_trail demo_keys)\<lparr>au_outbox := [?a, ?b, ?c]\<rparr>)"
    using s1 s2 s3 by (meson converse_rtranclp_into_rtranclp rtranclp.rtrancl_refl)
  then have "(au_step demo_env)\<^sup>*\<^sup>* (empty_trail demo_keys) demo_start" by (simp add: demo_start_def empty_trail_def)
  moreover have "tick_ok demo_tick demo_start"
    unfolding tick_ok_def cids_ok_def demo_selected
    by (auto simp: ids demo_tick_def demo_start_def empty_trail_def split: if_splits)
  ultimately show ?thesis
    unfolding au_reachable_def demo_trail_def by (blast intro: rtranclp.rtrancl_into_rtrancl au_step.Process)
qed

lemma demo_on_chain:
  "{e \<in> set (au_outbox demo_trail). oe_processed e \<and> IsAuditVisibleEventType (oe_type e)
      \<and> chainKeyFor e = Some (ChainKey ''CONTRACT_WORKFLOW_ENGINE'' ''c1'')}
   = {(demo_event 1 ''CREATE_CONTRACT'')\<lparr>oe_processed := True\<rparr>, (demo_event 2 ''SUBMIT_CONTRACT'')\<lparr>oe_processed := True\<rparr>}"
proof -
  have "filter (\<lambda>e. oe_processed e \<and> IsAuditVisibleEventType (oe_type e)
      \<and> chainKeyFor e = Some (ChainKey ''CONTRACT_WORKFLOW_ENGINE'' ''c1'')) (au_outbox demo_trail)
    = [(demo_event 1 ''CREATE_CONTRACT'')\<lparr>oe_processed := True\<rparr>, (demo_event 2 ''SUBMIT_CONTRACT'')\<lparr>oe_processed := True\<rparr>]"
    by code_simp
  from arg_cong [OF this, of set] show ?thesis by simp
qed

theorem audit_trail_complete_witness:
  "\<exists>stored. ReadAuditLogEntriesByComponentAndDID demo_env (demo_draws 9) (ChainKey ''CONTRACT_WORKFLOW_ENGINE'' ''c1'') demo_trail
      = Some (open_all (openAuditLogEntry demo_env (demo_draws 9) (au_keys demo_trail)) stored)
    \<and> entry_header ` set stored = event_header ` {(demo_event 1 ''CREATE_CONTRACT'')\<lparr>oe_processed := True\<rparr>,
        (demo_event 2 ''SUBMIT_CONTRACT'')\<lparr>oe_processed := True\<rparr>}"
  using audit_trail_complete [OF demo_reachable, of "demo_draws 9" "ChainKey ''CONTRACT_WORKFLOW_ENGINE'' ''c1''"]
  unfolding demo_on_chain by blast

theorem anchored_event_is_provable_witness:
  "\<exists>cid entry pf. au_entries demo_trail cid = Some entry \<and> en_id entry = 2
    \<and> Proof checksum demo_trail cid = Inr (Some pf)
    \<and> VerifyMerkleInclusion checksum (pf_leaf pf) (pf_siblings pf) (int (pf_index pf))
         (int (cr_leaf_count (pf_head pf))) (cr_root (pf_head pf))"
proof -
  let ?e = "(demo_event 2 ''SUBMIT_CONTRACT'')\<lparr>oe_processed := True\<rparr>"
  have "?e \<in> set (au_outbox demo_trail)" "IsAuditVisibleEventType (oe_type ?e)" using demo_on_chain by blast+
  from anchored_event_is_provable [OF demo_reachable this(1) _ this(2)] show ?thesis
    by (auto simp: demo_event_def demo_env_def)
qed

theorem checkpoints_are_chained_witness:
  "\<exists>r cp. au_checkpoints demo_trail = [r] \<and> au_objects demo_trail (cr_cid r) = Some cp
      \<and> MerkleRoot checksum (cp_leaf_hashes cp) = Some (cr_root r) \<and> distinct (map lf_cid (au_leaves demo_trail))"
proof -
  have "length (au_checkpoints demo_trail) = 1" by code_simp
  then obtain r where r: "au_checkpoints demo_trail = [r]" by (auto simp: length_Suc_conv)
  with checkpoints_are_chained [OF demo_reachable] show ?thesis by (auto simp: demo_env_def)
qed

theorem anchor_attempts_bounded_witness:
  "oe_attempts ((demo_event 1 ''CREATE_CONTRACT'')\<lparr>oe_processed := True\<rparr>) \<le> OutboxAnchorMaxAttempts"
proof -
  have "(demo_event 1 ''CREATE_CONTRACT'')\<lparr>oe_processed := True\<rparr> \<in> set (au_outbox demo_trail)" using demo_on_chain by blast
  from anchor_attempts_bounded [OF demo_reachable this] show ?thesis by blast
qed

theorem trail_survives_erasure_witness:
  "map (\<lambda>e. (en_id e, en_data e)) (case ReadAuditLogEntriesByComponentAndDID demo_env (demo_draws 9) (ChainKey ''CONTRACT_WORKFLOW_ENGINE'' ''c1'')
      (demo_trail\<lparr>au_keys := snd (snd (Shred 5 ''c1'' ''alice'' ''art. 17'' (au_keys demo_trail)))\<rparr>) of
     Some (Inr entries) \<Rightarrow> entries | _ \<Rightarrow> []) = [(2, ErasedEventData), (1, ErasedEventData)]"
proof -
  let ?read = "ReadAuditLogEntriesByComponentAndDID demo_env (demo_draws 9) (ChainKey ''CONTRACT_WORKFLOW_ENGINE'' ''c1'') demo_trail"
  let ?f = "\<lambda>e. (en_id e, en_data e, en_scope_kind e, en_scope_id e)"
  have "map_option (map_sum id (map ?f)) ?read
      = Some (Inr [(2, Opened [1], ''contract'', ''c1''), (1, Opened [1], ''contract'', ''c1'')])"
    by code_simp
  then obtain x where "?read = Some x" "map_sum id (map ?f) x
      = Inr [(2, Opened [1], ''contract'', ''c1''), (1, Opened [1], ''contract'', ''c1'')]" by auto
  then obtain entries where r: "?read = Some (Inr entries)"
    and m: "map ?f entries = [(2, Opened [1], ''contract'', ''c1''), (1, Opened [1], ''contract'', ''c1'')]"
    by (cases x) auto
  have "Fetch (ContractScope ''c1'') (own_did (ae_owner demo_env)) (ks_repo (au_keys demo_trail)) \<noteq> None" by code_simp
  from trail_survives_erasure [OF demo_reachable this r, of 5 "''alice''" "''art. 17''"] m show ?thesis
    by (auto simp: erased_view_def)
qed

end
