(* ===== verification/Template_State.thy ===== *)
theory Template_State
  imports Prelude
begin

text \<open>
  The string enums of the template repository
  (\<open>backend/internal/templaterepository/datatype\<close>: \<open>contracttemplatestate\<close>,
  \<open>reviewtaskstate\<close>, \<open>approvaltaskstate\<close>, \<open>actionflag\<close>, \<open>contracttemplatetype\<close>).
  They interpret the enum interface of the prelude, as the enums of the contract
  workflow engine do, but their value sets differ: a review task can be VERIFIED
  and a submission flag routes to APPROVAL or DRAFT.
\<close>

section \<open>\<open>template_state\<close>\<close>

datatype template_state = TsDraft | TsSubmitted | TsRejected | TsReviewed | TsApproved | TsRegistered | TsPublished | TsDeleted | TsDeprecated

fun template_state_string :: "template_state \<Rightarrow> string" where
  "template_state_string TsDraft = ''DRAFT''"
| "template_state_string TsSubmitted = ''SUBMITTED''"
| "template_state_string TsRejected = ''REJECTED''"
| "template_state_string TsReviewed = ''REVIEWED''"
| "template_state_string TsApproved = ''APPROVED''"
| "template_state_string TsRegistered = ''REGISTERED''"
| "template_state_string TsPublished = ''PUBLISHED''"
| "template_state_string TsDeleted = ''DELETED''"
| "template_state_string TsDeprecated = ''DEPRECATED''"

definition template_state_valid :: "template_state list" where
  "template_state_valid = [TsDraft, TsSubmitted, TsRejected, TsReviewed, TsApproved, TsRegistered, TsPublished, TsDeleted, TsDeprecated]"

definition NewContractTemplateState :: "string \<Rightarrow> template_state option" where
  "NewContractTemplateState = new_enum template_state_valid template_state_string"

definition template_state_IsValid :: "string \<Rightarrow> bool" where
  "template_state_IsValid = enum_is_valid template_state_valid template_state_string"

definition template_state_Scan :: "sql_value \<Rightarrow> template_state option" where
  "template_state_Scan = scan_enum NewContractTemplateState"

definition template_state_Value :: "string \<Rightarrow> string option" where
  "template_state_Value s = (if template_state_IsValid s then Some s else None)"

interpretation template_state_enum: string_enum template_state_string NewContractTemplateState
proof unfold_locales
  show "NewContractTemplateState (template_state_string x) = Some x" for x
    by (cases x)
      (simp_all add: NewContractTemplateState_def new_enum_def template_state_valid_def to_upper_def upper_char_def)
  show "to_upper s = template_state_string x" if "NewContractTemplateState s = Some x" for s x
    using that by (simp add: NewContractTemplateState_def new_enum_Some)
  show "NewContractTemplateState (to_upper s) = NewContractTemplateState s" for s
    by (simp add: NewContractTemplateState_def new_enum_case)
qed

section \<open>\<open>template_review_state\<close>\<close>

datatype template_review_state = TrOpen | TrRejected | TrVerified | TrApproved

fun template_review_state_string :: "template_review_state \<Rightarrow> string" where
  "template_review_state_string TrOpen = ''OPEN''"
| "template_review_state_string TrRejected = ''REJECTED''"
| "template_review_state_string TrVerified = ''VERIFIED''"
| "template_review_state_string TrApproved = ''APPROVED''"

definition template_review_state_valid :: "template_review_state list" where
  "template_review_state_valid = [TrOpen, TrRejected, TrVerified, TrApproved]"

definition NewTemplateReviewState :: "string \<Rightarrow> template_review_state option" where
  "NewTemplateReviewState = new_enum template_review_state_valid template_review_state_string"

definition template_review_state_IsValid :: "string \<Rightarrow> bool" where
  "template_review_state_IsValid = enum_is_valid template_review_state_valid template_review_state_string"

definition template_review_state_Scan :: "sql_value \<Rightarrow> template_review_state option" where
  "template_review_state_Scan = scan_enum NewTemplateReviewState"

definition template_review_state_Value :: "string \<Rightarrow> string option" where
  "template_review_state_Value s = (if template_review_state_IsValid s then Some s else None)"

interpretation template_review_state_enum: string_enum template_review_state_string NewTemplateReviewState
proof unfold_locales
  show "NewTemplateReviewState (template_review_state_string x) = Some x" for x
    by (cases x)
      (simp_all add: NewTemplateReviewState_def new_enum_def template_review_state_valid_def to_upper_def upper_char_def)
  show "to_upper s = template_review_state_string x" if "NewTemplateReviewState s = Some x" for s x
    using that by (simp add: NewTemplateReviewState_def new_enum_Some)
  show "NewTemplateReviewState (to_upper s) = NewTemplateReviewState s" for s
    by (simp add: NewTemplateReviewState_def new_enum_case)
qed

section \<open>\<open>template_approval_state\<close>\<close>

datatype template_approval_state = TaOpen | TaRejected | TaApproved

fun template_approval_state_string :: "template_approval_state \<Rightarrow> string" where
  "template_approval_state_string TaOpen = ''OPEN''"
| "template_approval_state_string TaRejected = ''REJECTED''"
| "template_approval_state_string TaApproved = ''APPROVED''"

definition template_approval_state_valid :: "template_approval_state list" where
  "template_approval_state_valid = [TaOpen, TaRejected, TaApproved]"

definition NewTemplateApprovalState :: "string \<Rightarrow> template_approval_state option" where
  "NewTemplateApprovalState = new_enum template_approval_state_valid template_approval_state_string"

definition template_approval_state_IsValid :: "string \<Rightarrow> bool" where
  "template_approval_state_IsValid = enum_is_valid template_approval_state_valid template_approval_state_string"

definition template_approval_state_Scan :: "sql_value \<Rightarrow> template_approval_state option" where
  "template_approval_state_Scan = scan_enum NewTemplateApprovalState"

definition template_approval_state_Value :: "string \<Rightarrow> string option" where
  "template_approval_state_Value s = (if template_approval_state_IsValid s then Some s else None)"

interpretation template_approval_state_enum: string_enum template_approval_state_string NewTemplateApprovalState
proof unfold_locales
  show "NewTemplateApprovalState (template_approval_state_string x) = Some x" for x
    by (cases x)
      (simp_all add: NewTemplateApprovalState_def new_enum_def template_approval_state_valid_def to_upper_def upper_char_def)
  show "to_upper s = template_approval_state_string x" if "NewTemplateApprovalState s = Some x" for s x
    using that by (simp add: NewTemplateApprovalState_def new_enum_Some)
  show "NewTemplateApprovalState (to_upper s) = NewTemplateApprovalState s" for s
    by (simp add: NewTemplateApprovalState_def new_enum_case)
qed

section \<open>\<open>template_flag\<close>\<close>

datatype template_flag = TfApproval | TfDraft

fun template_flag_string :: "template_flag \<Rightarrow> string" where
  "template_flag_string TfApproval = ''APPROVAL''"
| "template_flag_string TfDraft = ''DRAFT''"

definition template_flag_valid :: "template_flag list" where
  "template_flag_valid = [TfApproval, TfDraft]"

definition NewTemplateFlag :: "string \<Rightarrow> template_flag option" where
  "NewTemplateFlag = new_enum template_flag_valid template_flag_string"

definition template_flag_IsValid :: "string \<Rightarrow> bool" where
  "template_flag_IsValid = enum_is_valid template_flag_valid template_flag_string"

interpretation template_flag_enum: string_enum template_flag_string NewTemplateFlag
proof unfold_locales
  show "NewTemplateFlag (template_flag_string x) = Some x" for x
    by (cases x)
      (simp_all add: NewTemplateFlag_def new_enum_def template_flag_valid_def to_upper_def upper_char_def)
  show "to_upper s = template_flag_string x" if "NewTemplateFlag s = Some x" for s x
    using that by (simp add: NewTemplateFlag_def new_enum_Some)
  show "NewTemplateFlag (to_upper s) = NewTemplateFlag s" for s
    by (simp add: NewTemplateFlag_def new_enum_case)
qed

section \<open>\<open>template_type\<close>\<close>

datatype template_type = TyContractTemplate | TyComponent

fun template_type_string :: "template_type \<Rightarrow> string" where
  "template_type_string TyContractTemplate = ''CONTRACT_TEMPLATE''"
| "template_type_string TyComponent = ''COMPONENT''"

definition template_type_valid :: "template_type list" where
  "template_type_valid = [TyContractTemplate, TyComponent]"

definition NewContractTemplateType :: "string \<Rightarrow> template_type option" where
  "NewContractTemplateType = new_enum template_type_valid template_type_string"

definition template_type_IsValid :: "string \<Rightarrow> bool" where
  "template_type_IsValid = enum_is_valid template_type_valid template_type_string"

interpretation template_type_enum: string_enum template_type_string NewContractTemplateType
proof unfold_locales
  show "NewContractTemplateType (template_type_string x) = Some x" for x
    by (cases x)
      (simp_all add: NewContractTemplateType_def new_enum_def template_type_valid_def to_upper_def upper_char_def)
  show "to_upper s = template_type_string x" if "NewContractTemplateType s = Some x" for s x
    using that by (simp add: NewContractTemplateType_def new_enum_Some)
  show "NewContractTemplateType (to_upper s) = NewContractTemplateType s" for s
    by (simp add: NewContractTemplateType_def new_enum_case)
qed

end
