(* ===== verification/Template_Store.thy ===== *)
theory Template_Store
  imports Task_Repo Template_State Creation
begin

text \<open>
  The tables of the template repository and the repository over them
  (\<open>backend/internal/templaterepository/db/pg\<close>), with the events the commands put
  into the outbox (\<open>templaterepository/event/event.go\<close>).  Every version of a template
  is a row of its own, chained to the other versions by \<open>tp_base\<close>; the table is a
  list of rows, its primary key is enforced where rows are inserted.  The two
  \<open>BEFORE UPDATE\<close> triggers of the table and its constraints are part of the model;
  \<open>now\<close> is the start time of the transaction, in nanoseconds.  A \<open>NULL\<close> artifact
  column is the empty string, as its reader sees it.
\<close>

section \<open>Rows\<close>

record tmpl =
  tp_did :: string
  tp_version :: int
  tp_state :: template_state
  tp_type :: template_type
  tp_name :: "string option"
  tp_description :: "string option"
  tp_created_by :: string
  tp_created_at :: int
  tp_updated_at :: int
  tp_content_updated_at :: int
  tp_data :: "json option"
  tp_base :: "string option"
  tp_pdf :: pdf_state

record credential =
  pc_did :: string
  pc_version :: int
  pc_vc_id :: string
  pc_previous :: "string option"
  pc_credential :: json

text \<open>
  The events, with the fields that identify what happened; the last arguments of
  \<open>TRegisterEvent\<close> are the states before and after, set for a local registration only.
\<close>

datatype tmpl_event =
    TCreateEvent string string
  | TCopyEvent string string string int
  | TSubmitEvent string int string template_state template_state "template_flag option"
  | TApproveEvent string int string
  | TRejectEvent string int string string
  | TVerifyEvent string int string
  | TUpdateEvent string string "json option" "json option"
  | TUpdateManageEvent string string "json option" "json option"
  | TArchiveEvent string int string
  | TRegisterEvent string string string int "template_state option" "template_state option"
  | TPublishEvent string int string

text \<open>A copy is filed under its source.\<close>

fun tmpl_GetDID :: "tmpl_event \<Rightarrow> string" where
  "tmpl_GetDID (TCreateEvent did _) = did"
| "tmpl_GetDID (TCopyEvent newDID copyDID _ _) = copyDID"
| "tmpl_GetDID (TSubmitEvent did _ _ _ _ _) = did"
| "tmpl_GetDID (TApproveEvent did _ _) = did"
| "tmpl_GetDID (TRejectEvent did _ _ _) = did"
| "tmpl_GetDID (TVerifyEvent did _ _) = did"
| "tmpl_GetDID (TUpdateEvent did _ _ _) = did"
| "tmpl_GetDID (TUpdateManageEvent did _ _ _) = did"
| "tmpl_GetDID (TArchiveEvent did _ _) = did"
| "tmpl_GetDID (TRegisterEvent did _ _ _ _ _) = did"
| "tmpl_GetDID (TPublishEvent did _ _) = did"

record tstore =
  templates :: "tmpl list"
  tmpl_history :: "tmpl list"
  tr_tasks :: "template_review_state task list"
  ta_tasks :: "template_approval_state task list"
  credentials :: "credential list"
  t_outbox :: "(int \<times> tmpl_event) list"
  next_task :: nat

definition empty_tstore :: tstore where
  "empty_tstore = \<lparr>templates = [], tmpl_history = [], tr_tasks = [], ta_tasks = [],
     credentials = [], t_outbox = [], next_task = 0\<rparr>"

section \<open>Errors\<close>

datatype tmpl_error =
    TNotFound string
  | TAlreadyExists string
  | TEmptyDID
  | TEmptyOwner
  | TVersionConflict string
  | TUpdatedElsewhere
  | TInvalidPermission
  | TInvalidState
  | TInvalidUser
  | TNoTask
  | TNeedsVerification
  | TFlagMissing
  | TDataInvalid
  | TNoFields
  | TVersionNotPositive
  | TCatalogueNotConfigured
  | TCatalogueFailed
  | TNotInCatalogue
  | TDataMissing
  | TTypeMissing
  | TTypeInvalid
  | TLibrariesMissing "shapes_declaration list"
  | THubFailed
  | TNoNewDID
  | TIssuanceNotConfigured
  | TSigningFailed
  | TDuplicateCredential
  | TPayloadInvalid
  | TPublishRefused

definition tmpl_option :: "tmpl_error \<Rightarrow> 'a option \<Rightarrow> (tmpl_error, 'a) result" where
  "tmpl_option e m = (case m of None \<Rightarrow> Inl e | Some x \<Rightarrow> Inr x)"

lemma tmpl_option_Inr [simp]: "tmpl_option e m = Inr x \<longleftrightarrow> m = Some x"
  by (auto simp: tmpl_option_def split: option.splits)

definition tmpl_event_Create :: "int \<Rightarrow> tmpl_event \<Rightarrow> tstore \<Rightarrow> (tmpl_error, tstore) result" where
  "tmpl_event_Create now evt s =
    (if tmpl_GetDID evt = '''' then Inl TEmptyDID
     else Inr (s\<lparr>t_outbox := t_outbox s @ [(now, evt)]\<rparr>))"

section \<open>The template table\<close>

definition lookup_template :: "string \<Rightarrow> tstore \<Rightarrow> tmpl option" where
  "lookup_template did s = find (\<lambda>t. tp_did t = did) (templates s)"

text \<open>The state condition \<open>IN ('REGISTERED', 'PUBLISHED')\<close> of the statements.\<close>

definition active_version :: "tmpl \<Rightarrow> bool" where
  "active_version t = (tp_state t = TsRegistered \<or> tp_state t = TsPublished)"

definition tmpl_content_trigger :: "int \<Rightarrow> tmpl \<Rightarrow> tmpl \<Rightarrow> tmpl" where
  "tmpl_content_trigger now old new =
    (if tp_data new \<noteq> tp_data old then new\<lparr>tp_content_updated_at := now\<rparr> else new)"

definition tmpl_revision_trigger :: "int \<Rightarrow> tmpl \<Rightarrow> tmpl \<Rightarrow> tmpl" where
  "tmpl_revision_trigger now old new =
    (if tp_updated_at new = tp_updated_at old \<and> new\<lparr>tp_pdf := tp_pdf old\<rparr> \<noteq> old
     then new\<lparr>tp_updated_at := now\<rparr> else new)"

definition update_template :: "int \<Rightarrow> string \<Rightarrow> (tmpl \<Rightarrow> tmpl) \<Rightarrow> tstore \<Rightarrow> tstore" where
  "update_template now did f s =
    s\<lparr>templates := map (\<lambda>t. if tp_did t = did
        then tmpl_revision_trigger now t (tmpl_content_trigger now t (f t)) else t) (templates s)\<rparr>"

definition Template_ReadDataByID :: "string \<Rightarrow> tstore \<Rightarrow> (tmpl_error, tmpl) result" where
  "Template_ReadDataByID did s = tmpl_option (TNotFound did) (lookup_template did s)"

definition Template_ReadProcessDataByDID :: "string \<Rightarrow> tstore \<Rightarrow> (tmpl_error, tmpl) result" where
  "Template_ReadProcessDataByDID did s = tmpl_option (TNotFound did) (lookup_template did s)"

definition insert_template :: "tmpl \<Rightarrow> tstore \<Rightarrow> (tmpl_error, tstore) result" where
  "insert_template t s =
    require (tp_did t \<noteq> '''') TEmptyDID
    (require (lookup_template (tp_did t) s = None) (TAlreadyExists (tp_did t))
      (Inr (s\<lparr>templates := templates s @ [t]\<rparr>)))"

definition no_pdf :: pdf_state where
  "no_pdf = \<lparr>pdf_ipfs_cid = '''', pdf_renderer_version = '''', pdf_c2pa_state = '''',
     pdf_payload_hash = ''''\<rparr>"

text \<open>\<open>Create\<close>: version 1, a lineage of its own.\<close>

definition Template_Insert :: "int \<Rightarrow> string \<Rightarrow> string \<Rightarrow> template_state \<Rightarrow> template_type
    \<Rightarrow> string option \<Rightarrow> string option \<Rightarrow> json option \<Rightarrow> tstore \<Rightarrow> (tmpl_error, tstore) result" where
  "Template_Insert now did createdBy st ty name description data =
    insert_template \<lparr>tp_did = did, tp_version = 1, tp_state = st, tp_type = ty, tp_name = name,
      tp_description = description, tp_created_by = createdBy, tp_created_at = now,
      tp_updated_at = now, tp_content_updated_at = now, tp_data = data, tp_base = Some did,
      tp_pdf = no_pdf\<rparr>"

text \<open>An active row of a lineage and version; SQL equality is never true of \<open>NULL\<close>.\<close>

definition occupies :: "string option \<Rightarrow> int \<Rightarrow> tmpl \<Rightarrow> bool" where
  "occupies b v t = (b \<noteq> None \<and> tp_base t = b \<and> tp_version t = v \<and> active_version t)"

definition copy_base :: "string \<Rightarrow> tmpl \<Rightarrow> string option" where
  "copy_base newDID t = (if active_version t then tp_base t else Some newDID)"

definition copy_version :: "tmpl \<Rightarrow> int" where
  "copy_version t = (if active_version t then tp_version t + 1 else 1)"

text \<open>
  \<open>CopyFromDID\<close>: the next version of an active template, a new lineage otherwise.
\<close>

definition CopyFromDID ::
  "int \<Rightarrow> string \<Rightarrow> string \<Rightarrow> tstore \<Rightarrow> (tmpl_error, int \<times> tstore) result" where
  "CopyFromDID now did copyDID s =
    bind_res (tmpl_option (TNotFound did) (lookup_template did s)) (\<lambda>source.
    require (copy_base copyDID source = None
        \<or> \<not> list_ex (occupies (copy_base copyDID source) (copy_version source)) (templates s))
      (TVersionConflict did)
    (bind_res (insert_template \<lparr>tp_did = copyDID, tp_version = copy_version source,
        tp_state = TsDraft, tp_type = tp_type source, tp_name = tp_name source,
        tp_description = tp_description source, tp_created_by = tp_created_by source,
        tp_created_at = now, tp_updated_at = now, tp_content_updated_at = now,
        tp_data = tp_data source, tp_base = copy_base copyDID source, tp_pdf = no_pdf\<rparr> s)
      (\<lambda>s1. Inr (copy_version source, s1))))"

definition Template_HistoryEntry :: "string \<Rightarrow> tstore \<Rightarrow> tstore" where
  "Template_HistoryEntry did s =
    s\<lparr>tmpl_history := tmpl_history s @ filter (\<lambda>t. tp_did t = did) (templates s)\<rparr>"

text \<open>
  \<open>UpdateState\<close>: a row becomes active only while no other row of its lineage and
  version is.
\<close>

definition Template_UpdateState ::
  "int \<Rightarrow> string \<Rightarrow> template_state \<Rightarrow> tstore \<Rightarrow> (tmpl_error, tstore) result" where
  "Template_UpdateState now did st s =
    bind_res (tmpl_option (TNotFound did) (lookup_template did s)) (\<lambda>ct.
    require (st \<notin> {TsRegistered, TsPublished}
        \<or> \<not> list_ex (\<lambda>other. occupies (tp_base ct) (tp_version ct) other \<and> tp_did other \<noteq> tp_did ct)
             (templates s))
      (TVersionConflict did)
      (Inr (update_template now did (\<lambda>t. t\<lparr>tp_state := st\<rparr>) s)))"

definition Template_UpdatePDFState :: "int \<Rightarrow> string \<Rightarrow> pdf_state \<Rightarrow> tstore \<Rightarrow> tstore" where
  "Template_UpdatePDFState now did p = update_template now did (\<lambda>t. t\<lparr>tp_pdf := p\<rparr>)"

text \<open>\<open>Update\<close> with \<open>createQuery\<close>: only the given columns, and the artifact is stale.\<close>

record tmpl_update =
  tu_did :: string
  tu_state :: "template_state option"
  tu_type :: "template_type option"
  tu_name :: "string option"
  tu_description :: "string option"
  tu_data :: "json option"

datatype tmpl_column =
    TcState template_state | TcName string | TcDescription string | TcData json
  | TcType template_type | TcStalePDF

definition tmpl_opt_col :: "('a \<Rightarrow> tmpl_column) \<Rightarrow> 'a option \<Rightarrow> tmpl_column list" where
  "tmpl_opt_col f v = (case v of None \<Rightarrow> [] | Some x \<Rightarrow> [f x])"

definition tmpl_createQuery :: "tmpl_update \<Rightarrow> (tmpl_error, tmpl_column list) result" where
  "tmpl_createQuery u =
    (let content = tmpl_opt_col TcName (tu_name u) @ tmpl_opt_col TcDescription (tu_description u)
           @ (if IsNotNullValue (tu_data u) then tmpl_opt_col TcData (tu_data u) else [])
           @ tmpl_opt_col TcType (tu_type u);
         columns = tmpl_opt_col TcState (tu_state u) @ content
     in if columns = [] then Inl TNoFields
        else Inr (columns @ (if content \<noteq> [] then [TcStalePDF] else [])))"

fun tmpl_set_column :: "tmpl_column \<Rightarrow> tmpl \<Rightarrow> tmpl" where
  "tmpl_set_column (TcState st) t = t\<lparr>tp_state := st\<rparr>"
| "tmpl_set_column (TcName n) t = t\<lparr>tp_name := Some n\<rparr>"
| "tmpl_set_column (TcDescription d) t = t\<lparr>tp_description := Some d\<rparr>"
| "tmpl_set_column (TcData d) t = t\<lparr>tp_data := Some d\<rparr>"
| "tmpl_set_column (TcType ty) t = t\<lparr>tp_type := ty\<rparr>"
| "tmpl_set_column TcStalePDF t =
     t\<lparr>tp_pdf := (tp_pdf t)\<lparr>pdf_ipfs_cid := '''', pdf_renderer_version := ''''\<rparr>\<rparr>"

definition Template_Update :: "int \<Rightarrow> tmpl_update \<Rightarrow> tstore \<Rightarrow> (tmpl_error, tstore) result" where
  "Template_Update now u s =
    bind_res (tmpl_createQuery u) (\<lambda>columns.
      Inr (update_template now (tu_did u) (fold tmpl_set_column columns) s))"

end
