(* ===== verification/Template_Tasks.thy ===== *)
theory Template_Tasks
  imports Template_Store
begin

text \<open>
  The review and approval tasks of templates
  (\<open>templaterepository/db/pg/reviewtaskrepository.go\<close>, \<open>approvaltaskrepository.go\<close>), the
  provenance credentials and the version overview of \<open>contracttemplaterepository.go\<close>,
  and what the contract workflow engine reads of a template
  (\<open>contractworkflowengine/db/pg/contracttemplaterepository.go\<close>).  Both task tables
  interpret the contract of a task table; the review tasks also interpret the one
  with the open-task check.
\<close>

section \<open>Review tasks\<close>

definition new_task :: "nat \<Rightarrow> int \<Rightarrow> string \<Rightarrow> string \<Rightarrow> 'st \<Rightarrow> string \<Rightarrow> 'st task" where
  "new_task n now did owner st createdBy =
    \<lparr>task_id = dec n, task_did = did, task_state = st, task_owner = owner,
     task_created_by = createdBy, task_created_at = now\<rparr>"

definition task_row_ok :: "string \<Rightarrow> string \<Rightarrow> tstore \<Rightarrow> (tmpl_error, unit) result" where
  "task_row_ok did owner s =
    require (did \<noteq> '''') TEmptyDID
    (require (owner \<noteq> '''') TEmptyOwner
    (require (lookup_template did s \<noteq> None) (TNotFound did) (Inr ())))"

definition TReview_Create :: "int \<Rightarrow> string \<Rightarrow> string \<Rightarrow> template_review_state \<Rightarrow> string
    \<Rightarrow> tstore \<Rightarrow> (tmpl_error, tstore) result" where
  "TReview_Create now did reviewer st createdBy s =
    bind_res (task_row_ok did reviewer s) (\<lambda>_.
      Inr (s\<lparr>tr_tasks := tr_tasks s @ [new_task (next_task s) now did reviewer st createdBy],
             next_task := next_task s + 1\<rparr>))"

definition TReview_IsValidReviewer :: "string \<Rightarrow> string \<Rightarrow> tstore \<Rightarrow> bool" where
  "TReview_IsValidReviewer did reviewer s = list_ex (task_of did reviewer) (tr_tasks s)"

definition TReview_ReopenTasks :: "string \<Rightarrow> tstore \<Rightarrow> tstore" where
  "TReview_ReopenTasks did s = s\<lparr>tr_tasks := reopen_tasks TrOpen did (tr_tasks s)\<rparr>"

definition TReview_ReadAllByDID :: "string \<Rightarrow> tstore \<Rightarrow> template_review_state task list" where
  "TReview_ReadAllByDID did s = filter (\<lambda>t. task_did t = did) (tr_tasks s)"

definition TReview_UpdateState ::
  "string \<Rightarrow> string \<Rightarrow> template_review_state \<Rightarrow> tstore \<Rightarrow> (tmpl_error, tstore) result" where
  "TReview_UpdateState did reviewer st s =
    (if \<not> list_ex (task_of did reviewer) (tr_tasks s) then Inl TNoTask
     else Inr (s\<lparr>tr_tasks := set_task_state did reviewer st (tr_tasks s)\<rparr>))"

definition TReview_AnyTasksInState :: "string \<Rightarrow> template_review_state list \<Rightarrow> tstore \<Rightarrow> bool" where
  "TReview_AnyTasksInState did states s =
    list_ex (\<lambda>t. task_did t = did \<and> task_state t \<in> set states) (tr_tasks s)"

definition TReview_TaskExistsInState ::
  "string \<Rightarrow> string \<Rightarrow> template_review_state \<Rightarrow> tstore \<Rightarrow> bool" where
  "TReview_TaskExistsInState did reviewer st s =
    list_ex (\<lambda>t. task_of did reviewer t \<and> task_state t = st) (tr_tasks s)"

definition TReview_Delete :: "string \<Rightarrow> tstore \<Rightarrow> tstore" where
  "TReview_Delete did s = s\<lparr>tr_tasks := filter (\<lambda>t. task_did t \<noteq> did) (tr_tasks s)\<rparr>"

section \<open>Approval tasks\<close>

definition TApproval_Create :: "int \<Rightarrow> string \<Rightarrow> string \<Rightarrow> template_approval_state \<Rightarrow> string
    \<Rightarrow> tstore \<Rightarrow> (tmpl_error, tstore) result" where
  "TApproval_Create now did approver st createdBy s =
    bind_res (task_row_ok did approver s) (\<lambda>_.
      Inr (s\<lparr>ta_tasks := ta_tasks s @ [new_task (next_task s) now did approver st createdBy],
             next_task := next_task s + 1\<rparr>))"

definition TApproval_ReopenTasks :: "string \<Rightarrow> tstore \<Rightarrow> tstore" where
  "TApproval_ReopenTasks did s = s\<lparr>ta_tasks := reopen_tasks TaOpen did (ta_tasks s)\<rparr>"

definition TApproval_ReadAllByDID :: "string \<Rightarrow> tstore \<Rightarrow> template_approval_state task list" where
  "TApproval_ReadAllByDID did s = filter (\<lambda>t. task_did t = did) (ta_tasks s)"

definition TApproval_UpdateState ::
  "string \<Rightarrow> string \<Rightarrow> template_approval_state \<Rightarrow> tstore \<Rightarrow> (tmpl_error, tstore) result" where
  "TApproval_UpdateState did approver st s =
    (if \<not> list_ex (task_of did approver) (ta_tasks s) then Inl TNoTask
     else Inr (s\<lparr>ta_tasks := set_task_state did approver st (ta_tasks s)\<rparr>))"

definition TApproval_IsValidApprover :: "string \<Rightarrow> string \<Rightarrow> tstore \<Rightarrow> bool" where
  "TApproval_IsValidApprover did approver s = list_ex (task_of did approver) (ta_tasks s)"

definition TApproval_TaskExistsInState ::
  "string \<Rightarrow> string \<Rightarrow> template_approval_state \<Rightarrow> tstore \<Rightarrow> bool" where
  "TApproval_TaskExistsInState did approver st s =
    list_ex (\<lambda>t. task_of did approver t \<and> task_state t = st) (ta_tasks s)"

definition TApproval_Delete :: "string \<Rightarrow> tstore \<Rightarrow> tstore" where
  "TApproval_Delete did s = s\<lparr>ta_tasks := filter (\<lambda>t. task_did t \<noteq> did) (ta_tasks s)\<rparr>"

interpretation tmpl_review_repo: task_repo TReview_IsValidReviewer TReview_UpdateState
  TReview_ReopenTasks TReview_TaskExistsInState TrOpen TReview_AnyTasksInState
proof unfold_locales
  show "TReview_IsValidReviewer did owner ts \<longleftrightarrow> (\<exists>st. TReview_TaskExistsInState did owner st ts)"
    for did owner ts
    by (auto simp: TReview_IsValidReviewer_def TReview_TaskExistsInState_def list_ex_iff)
  show "(\<exists>ts'. TReview_UpdateState did owner st ts = Inr ts') \<longleftrightarrow> TReview_IsValidReviewer did owner ts"
    for did owner st ts
    by (simp add: TReview_IsValidReviewer_def TReview_UpdateState_def)
  show "TReview_TaskExistsInState did' owner' st' ts' \<longleftrightarrow>
      (if did' = did \<and> owner' = owner then st' = st
       else TReview_TaskExistsInState did' owner' st' ts)"
    if "TReview_UpdateState did owner st ts = Inr ts'" for did owner st ts ts' did' owner' st'
    using that set_task_state_ex [of did owner "tr_tasks ts"]
    by (auto simp: TReview_UpdateState_def TReview_TaskExistsInState_def split: if_splits)
  show "TReview_TaskExistsInState did' owner st (TReview_ReopenTasks did ts) \<longleftrightarrow>
      (if did' = did then st = TrOpen \<and> TReview_IsValidReviewer did owner ts
       else TReview_TaskExistsInState did' owner st ts)" for did did' owner st ts
    by (simp add: TReview_IsValidReviewer_def TReview_TaskExistsInState_def TReview_ReopenTasks_def
        reopen_tasks_ex)
  show "TReview_AnyTasksInState did sts ts \<longleftrightarrow>
      (\<exists>owner. \<exists>st\<in>set sts. TReview_TaskExistsInState did owner st ts)" for did sts ts
    by (auto simp: TReview_AnyTasksInState_def TReview_TaskExistsInState_def list_ex_iff task_of_def)
qed

interpretation tmpl_approval_repo: task_table TApproval_IsValidApprover TApproval_UpdateState
  TApproval_ReopenTasks TApproval_TaskExistsInState TaOpen
proof unfold_locales
  show "TApproval_IsValidApprover did owner ts \<longleftrightarrow> (\<exists>st. TApproval_TaskExistsInState did owner st ts)"
    for did owner ts
    by (auto simp: TApproval_IsValidApprover_def TApproval_TaskExistsInState_def list_ex_iff)
  show "(\<exists>ts'. TApproval_UpdateState did owner st ts = Inr ts') \<longleftrightarrow> TApproval_IsValidApprover did owner ts"
    for did owner st ts
    by (simp add: TApproval_IsValidApprover_def TApproval_UpdateState_def)
  show "TApproval_TaskExistsInState did' owner' st' ts' \<longleftrightarrow>
      (if did' = did \<and> owner' = owner then st' = st
       else TApproval_TaskExistsInState did' owner' st' ts)"
    if "TApproval_UpdateState did owner st ts = Inr ts'" for did owner st ts ts' did' owner' st'
    using that set_task_state_ex [of did owner "ta_tasks ts"]
    by (auto simp: TApproval_UpdateState_def TApproval_TaskExistsInState_def split: if_splits)
  show "TApproval_TaskExistsInState did' owner st (TApproval_ReopenTasks did ts) \<longleftrightarrow>
      (if did' = did then st = TaOpen \<and> TApproval_IsValidApprover did owner ts
       else TApproval_TaskExistsInState did' owner st ts)" for did did' owner st ts
    by (simp add: TApproval_IsValidApprover_def TApproval_TaskExistsInState_def
        TApproval_ReopenTasks_def reopen_tasks_ex)
qed

section \<open>Provenance credentials\<close>

definition InsertProvenanceCredential :: "credential \<Rightarrow> tstore \<Rightarrow> (tmpl_error, tstore) result" where
  "InsertProvenanceCredential c s =
    require (pc_did c \<noteq> '''') TEmptyDID
    (require (lookup_template (pc_did c) s \<noteq> None) (TNotFound (pc_did c))
    (require (\<not> list_ex (\<lambda>x. pc_did x = pc_did c \<and> pc_version x = pc_version c) (credentials s))
      TDuplicateCredential
      (Inr (s\<lparr>credentials := credentials s @ [c]\<rparr>))))"

definition ReadProvenanceCredentials :: "string \<Rightarrow> tstore \<Rightarrow> credential list" where
  "ReadProvenanceCredentials did s =
    sort_key pc_version (filter (\<lambda>c. pc_did c = did) (credentials s))"

definition ReadLatestProvenanceVCID :: "string \<Rightarrow> tstore \<Rightarrow> string option" where
  "ReadLatestProvenanceVCID did s =
    (let cs = ReadProvenanceCredentials did s in if cs = [] then None else Some (pc_vc_id (last cs)))"

section \<open>Reading the versions\<close>

text \<open>
  \<open>ReadAllMetaData\<close>: the newest active version of a lineage, and for every row whether
  it is outdated and which row replaces it.  A row without a lineage joins nothing,
  so its \<open>outdated\<close> is \<open>NULL\<close> once it is active.
\<close>

definition latest_version :: "string option \<Rightarrow> tstore \<Rightarrow> tmpl option" where
  "latest_version b s =
    (case sort_key (\<lambda>t. - tp_version t)
            (filter (\<lambda>t. active_version t \<and> b \<noteq> None \<and> tp_base t = b) (templates s)) of
       [] \<Rightarrow> None | t # _ \<Rightarrow> Some t)"

definition tmpl_outdated :: "tstore \<Rightarrow> tmpl \<Rightarrow> bool option" where
  "tmpl_outdated s t =
    (if \<not> active_version t then Some False
     else map_option (\<lambda>l. tp_version t \<noteq> tp_version l) (latest_version (tp_base t) s))"

definition tmpl_latest_did :: "tstore \<Rightarrow> tmpl \<Rightarrow> string option" where
  "tmpl_latest_did s t =
    (case latest_version (tp_base t) s of
       None \<Rightarrow> None
     | Some l \<Rightarrow> if tp_did t \<noteq> tp_did l \<and> active_version t then Some (tp_did l) else None)"

text \<open>What contract creation sees of a template: an active one of the contract type.\<close>

definition ReadContractTemplateDataByID :: "string \<Rightarrow> tstore \<Rightarrow> template_row option" where
  "ReadContractTemplateDataByID did s =
    (case sort_key (\<lambda>t. - tp_version t)
            (filter (\<lambda>t. tp_did t = did \<and> tp_type t = TyContractTemplate \<and> active_version t)
              (templates s)) of
       [] \<Rightarrow> None
     | t # _ \<Rightarrow> Some \<lparr>tmpl_data = tp_data t, tmpl_version = tp_version t, tmpl_name = tp_name t,
         tmpl_description = tp_description t\<rparr>)"

end
