(* ===== verification/Template_Provenance.thy ===== *)
theory Template_Provenance
  imports Template_Tasks
begin

text \<open>
  The collaborators of the template commands, the provenance credential that seals a
  registered version (\<open>templaterepository/command/provenance.go\<close>), the catalogue
  document of a template (\<open>fcasset/payload.go\<close>) and the check of the shape libraries
  a template from the catalogue declares (\<open>command/shapelibraries.go\<close>,
  \<open>base/validation/declaredlibraries.go\<close>).

  The record \<open>tmpl_env\<close> holds what the development does not model itself; every theorem
  holds for all its values.  \<open>tv_normalize\<close> is \<open>validation.NormalizeTemplateData\<close>,
  \<open>tv_identity\<close> is \<open>addDocumentIdentity\<close>, \<open>tv_marshal\<close> and \<open>tv_parse\<close> are
  \<open>encoding/json\<close>, \<open>tv_sha256_hex\<close> is the hexadecimal digest, \<open>tv_signer\<close> is the
  credential signer when one is configured, \<open>tv_hub\<close> is the answer of the Semantic Hub
  for a shapes graph, \<open>tv_catalogue\<close> is the federated catalogue when one is
  configured, and \<open>tv_new_id\<close> is \<open>base.GenerateID\<close>.
\<close>

section \<open>Collaborators\<close>

record fc_template =
  ft_name :: "string option"
  ft_description :: "string option"
  ft_type :: "string option"
  ft_data :: "json option"

text \<open>A response: its status and the two strings of a decoded error body.\<close>

record fc_response =
  fc_status :: int
  fc_code :: string
  fc_message :: string

record catalogue =
  fc_lookup :: "string \<Rightarrow> int \<Rightarrow> fc_template option option"
  fc_post :: "json \<Rightarrow> fc_response option"
  fc_verify :: "json \<Rightarrow> fc_response option"

datatype hub_answer = HubFound | HubMissing | HubFails

record tmpl_env =
  tv_normalize :: "json option \<Rightarrow> json option"
  tv_identity :: "json \<Rightarrow> string \<Rightarrow> string \<Rightarrow> json option"
  tv_public_url :: string
  tv_marshal :: "json \<Rightarrow> string"
  tv_parse :: "string \<Rightarrow> json option"
  tv_sha256_hex :: "string \<Rightarrow> string"
  tv_rfc3339 :: "int \<Rightarrow> string"
  tv_signer :: "(json \<Rightarrow> json option) option"
  tv_issuer :: string
  tv_hub :: "string \<Rightarrow> nat \<Rightarrow> hub_answer"
  tv_catalogue :: "catalogue option"
  tv_new_id :: "string option"

definition NormalizeTemplateDataForPersistence ::
  "tmpl_env \<Rightarrow> json option \<Rightarrow> string \<Rightarrow> (tmpl_error, json) result" where
  "NormalizeTemplateDataForPersistence e raw did =
    bind_res (tmpl_option TDataInvalid (tv_normalize e raw)) (\<lambda>normalized.
      tmpl_option TDataInvalid
        (tv_identity e normalized (ResourceIRI (tv_public_url e) ''template'' did) did))"

section \<open>The provenance credential\<close>

record provenance_claim =
  cl_did :: string
  cl_version :: int
  cl_hash :: string
  cl_created_by :: string
  cl_reviewed_by :: "string list"
  cl_approved_by :: "string list"
  cl_registered_by :: string
  cl_holder :: string
  cl_previous :: string
  cl_effective_at :: int

definition TemplateContentHash :: "tmpl_env \<Rightarrow> json option \<Rightarrow> string" where
  "TemplateContentHash e data =
    tv_sha256_hex e (case data of None \<Rightarrow> '''' | Some j \<Rightarrow> tv_marshal e j)"

text \<open>The subject map, in the key order of the encoder.\<close>

definition provenance_subject :: "provenance_claim \<Rightarrow> json" where
  "provenance_subject c = JObj
    ((if cl_approved_by c \<noteq> [] then [(''approved_by'', JArr (map JStr (cl_approved_by c)))] else [])
     @ [(''created_by'', JStr (cl_created_by c)),
        (''id'', JStr (''urn:dcs:template:'' @ cl_did c))]
     @ (if cl_previous c \<noteq> '''' then [(''previous_credential'', JStr (cl_previous c))] else [])
     @ [(''registered_by'', JStr (cl_registered_by c))]
     @ (if cl_holder c \<noteq> '''' then [(''registrar_holder_did'', JStr (cl_holder c))] else [])
     @ (if cl_reviewed_by c \<noteq> [] then [(''reviewed_by'', JArr (map JStr (cl_reviewed_by c)))] else [])
     @ [(''template_did'', JStr (cl_did c)),
        (''template_hash'', JStr (cl_hash c)),
        (''version'', JNum (int_text (cl_version c)))])"

definition provenance_context :: json where
  "provenance_context = JArr
    [JStr ''https://www.w3.org/ns/credentials/v2'',
     JStr ''https://w3id.org/security/data-integrity/v2'',
     JObj [(''TemplateProvenanceCredential'', JStr ''dcs:TemplateProvenanceCredential''),
       (''approved_by'', JStr ''dcs:approvedBy''),
       (''created_by'', JStr ''dcs:createdBy''),
       (''dcs'', JStr ''https://w3id.org/facis/dcs/ontology/v1#''),
       (''previous_credential'', JStr ''dcs:previousCredential''),
       (''registered_by'', JStr ''dcs:registeredBy''),
       (''registrar_holder_did'', JStr ''dcs:registrarHolderDid''),
       (''reviewed_by'', JStr ''dcs:reviewedBy''),
       (''template_did'', JStr ''dcs:templateDid''),
       (''template_hash'', JStr ''dcs:templateHash''),
       (''version'', JStr ''dcs:templateVersion'')]]"

definition templateProvenanceVC :: "tmpl_env \<Rightarrow> string \<Rightarrow> provenance_claim \<Rightarrow> json" where
  "templateProvenanceVC e vcID c = JObj
    ([(''@context'', provenance_context),
      (''type'', JArr [JStr ''VerifiableCredential'', JStr ''TemplateProvenanceCredential''])]
     @ (if vcID \<noteq> '''' then [(''id'', JStr vcID)] else [])
     @ [(''issuer'', JStr (tv_issuer e)),
        (''validFrom'', JStr (tv_rfc3339 e (cl_effective_at c))),
        (''credentialSubject'', provenance_subject c)])"

definition provenance_vc_id :: "tmpl_env \<Rightarrow> provenance_claim \<Rightarrow> string" where
  "provenance_vc_id e c =
    ''urn:dcs:vc:template-provenance:'' @ tv_sha256_hex e (tv_marshal e (templateProvenanceVC e '''' c))"

definition IssueTemplateProvenanceVC ::
  "tmpl_env \<Rightarrow> (json \<Rightarrow> json option) \<Rightarrow> provenance_claim \<Rightarrow> (tmpl_error, json \<times> string) result" where
  "IssueTemplateProvenanceVC e sign c =
    (let vcID = provenance_vc_id e c
     in bind_res (tmpl_option TSigningFailed (sign (templateProvenanceVC e vcID c)))
          (\<lambda>signed. Inr (signed, vcID)))"

text \<open>
  \<open>issueProvenanceCredential\<close>: reviewers and approvers are the owners of the tasks
  decided in their favour; a version that has a credential keeps it.
\<close>

definition provenance_claim_of ::
  "tmpl_env \<Rightarrow> int \<Rightarrow> string \<Rightarrow> string \<Rightarrow> string \<Rightarrow> tmpl \<Rightarrow> tstore \<Rightarrow> provenance_claim" where
  "provenance_claim_of e now did registeredBy holder existing s =
    \<lparr>cl_did = did, cl_version = tp_version existing,
     cl_hash = TemplateContentHash e (tp_data existing),
     cl_created_by = tp_created_by existing,
     cl_reviewed_by = map task_owner (filter (\<lambda>t. task_state t = TrVerified \<or> task_state t = TrApproved)
       (TReview_ReadAllByDID did s)),
     cl_approved_by = map task_owner (filter (\<lambda>t. task_state t = TaApproved)
       (TApproval_ReadAllByDID did s)),
     cl_registered_by = registeredBy, cl_holder = holder,
     cl_previous = (case ReadLatestProvenanceVCID did s of None \<Rightarrow> '''' | Some p \<Rightarrow> p),
     cl_effective_at = now\<rparr>"

definition issueProvenanceCredential ::
  "tmpl_env \<Rightarrow> int \<Rightarrow> string \<Rightarrow> string \<Rightarrow> string \<Rightarrow> tmpl \<Rightarrow> tstore \<Rightarrow> (tmpl_error, tstore) result" where
  "issueProvenanceCredential e now did registeredBy holder existing s =
    (case tv_signer e of
       None \<Rightarrow> Inl TIssuanceNotConfigured
     | Some sign \<Rightarrow>
         if tv_issuer e = '''' then Inl TIssuanceNotConfigured
         else if list_ex (\<lambda>c. pc_version c = tp_version existing) (ReadProvenanceCredentials did s)
         then Inr s
         else bind_res (IssueTemplateProvenanceVC e sign
             (provenance_claim_of e now did registeredBy holder existing s)) (\<lambda>(signed, vcID).
           InsertProvenanceCredential \<lparr>pc_did = did, pc_version = tp_version existing,
             pc_vc_id = vcID, pc_previous = ReadLatestProvenanceVCID did s,
             pc_credential = signed\<rparr> s))"

section \<open>The catalogue document\<close>

record catalogue_subject =
  cs_id :: string
  cs_state :: string
  cs_name :: string
  cs_description :: string
  cs_version :: string
  cs_type :: string

definition CatalogueSubjectFromRepository ::
  "string \<Rightarrow> int \<Rightarrow> string \<Rightarrow> string \<Rightarrow> string \<Rightarrow> string \<Rightarrow> catalogue_subject" where
  "CatalogueSubjectFromRepository did version st name description ty =
    \<lparr>cs_id = did, cs_state = to_lower (trim_space st), cs_name = name,
     cs_description = description, cs_version = int_text version, cs_type = ty\<rparr>"

definition TemplateDataString :: "tmpl_env \<Rightarrow> json option \<Rightarrow> (tmpl_error, string) result" where
  "TemplateDataString e data =
    (case data of
       Some j \<Rightarrow> if j = JNull then Inl TPayloadInvalid else Inr (tv_marshal e j)
     | None \<Rightarrow> Inl TPayloadInvalid)"

definition BuildPayload :: "tmpl_env \<Rightarrow> int \<Rightarrow> string \<Rightarrow> string \<Rightarrow> int \<Rightarrow> catalogue_subject
    \<Rightarrow> string \<Rightarrow> (tmpl_error, json) result" where
  "BuildPayload e now issuer subjectIRI validFrom subject dataString =
    require (trim_space subjectIRI \<noteq> '''') TPayloadInvalid
    (require (trim_space (cs_id subject) \<noteq> '''') TPayloadInvalid
    (require (trim_space issuer \<noteq> '''') TPayloadInvalid
      (Inr (JObj
        [(''@context'', JArr [JStr ''https://www.w3.org/ns/credentials/v2'',
           JObj [(''dcs'', JStr ''https://w3id.org/facis/dcs/1#''),
             (''prov'', JStr ''http://www.w3.org/ns/prov#''),
             (''schema'', JStr ''https://schema.org/'')]]),
         (''credentialSubject'', JObj
           [(''dcs:state'', JStr (cs_state subject)),
            (''dcs:templateDataString'', JStr dataString),
            (''dcs:templateType'', JStr (cs_type subject)),
            (''dcs:templateUuid'', JStr (cs_id subject)),
            (''id'', JStr subjectIRI),
            (''schema:description'', JStr (cs_description subject)),
            (''schema:name'', JStr (cs_name subject)),
            (''schema:version'', JStr (cs_version subject)),
            (''type'', JStr ''dcs:ContractTemplate'')]),
         (''id'', JStr subjectIRI),
         (''issuer'', JStr issuer),
         (''type'', JArr [JStr ''VerifiableCredential'', JStr ''dcs:ContractTemplate'']),
         (''validFrom'', JStr (tv_rfc3339 e (min validFrom now)))]))))"

definition text_of :: "string option \<Rightarrow> string" where
  "text_of v = (case v of None \<Rightarrow> '''' | Some t \<Rightarrow> t)"

text \<open>The document both catalogue calls send, for an issuer.\<close>

definition catalogue_document ::
  "tmpl_env \<Rightarrow> int \<Rightarrow> string \<Rightarrow> string \<Rightarrow> tmpl \<Rightarrow> tmpl \<Rightarrow> (tmpl_error, json) result" where
  "catalogue_document e now did issuer processData full =
    bind_res (TemplateDataString e (tp_data full)) (\<lambda>dataString.
      BuildPayload e now issuer (ResourceIRI (tv_public_url e) ''template'' did) (tp_updated_at full)
        (CatalogueSubjectFromRepository did (tp_version processData)
          (template_state_string (tp_state processData)) (text_of (tp_name full))
          (text_of (tp_description full)) (template_type_string (tp_type full)))
        dataString)"

section \<open>Templates from the catalogue\<close>

definition templateDataFromAny :: "tmpl_env \<Rightarrow> json option \<Rightarrow> (tmpl_error, json) result" where
  "templateDataFromAny e raw =
    (case raw of
       None \<Rightarrow> Inl TDataMissing
     | Some JNull \<Rightarrow> Inl TDataMissing
     | Some (JObj m) \<Rightarrow> Inr (JObj m)
     | Some (JStr v) \<Rightarrow>
         if trim_space v = '''' then Inl TDataMissing
         else (case tv_parse e v of
             None \<Rightarrow> Inl TDataInvalid
           | Some j \<Rightarrow> (case decode_map j of
               None \<Rightarrow> Inl TDataInvalid
             | Some None \<Rightarrow> Inr JNull
             | Some (Some m) \<Rightarrow> Inr (JObj m)))
     | Some _ \<Rightarrow> Inl TDataInvalid)"

definition DeclaredShapeLibraries :: "json \<Rightarrow> (tmpl_error, shapes_declaration list) result" where
  "DeclaredShapeLibraries raw =
    (case decode_map raw of
       None \<Rightarrow> Inl TDataInvalid
     | Some None \<Rightarrow> Inr []
     | Some (Some m) \<Rightarrow> Inr (declaredShapesGraphDeclarations (obj_get m ''sh:shapesGraph'')))"

fun missing_libraries ::
  "tmpl_env \<Rightarrow> shapes_declaration list \<Rightarrow> (tmpl_error, shapes_declaration list) result" where
  "missing_libraries e [] = Inr []"
| "missing_libraries e (library # rest) =
     (case tv_hub e (decl_name library) (decl_version library) of
        HubFound \<Rightarrow> missing_libraries e rest
      | HubMissing \<Rightarrow> bind_res (missing_libraries e rest) (\<lambda>ms. Inr (library # ms))
      | HubFails \<Rightarrow> Inl THubFailed)"

definition requireDeclaredShapeLibraries :: "tmpl_env \<Rightarrow> json \<Rightarrow> (tmpl_error, unit) result" where
  "requireDeclaredShapeLibraries e data =
    bind_res (DeclaredShapeLibraries data) (\<lambda>declared.
    bind_res (missing_libraries e declared) (\<lambda>missing.
      require (missing = []) (TLibrariesMissing missing) (Inr ())))"

end
