(* ===== verification/Template_Commands.thy ===== *)
theory Template_Commands
  imports Template_Provenance
begin

text \<open>
  The command handlers of the template repository
  (\<open>backend/internal/templaterepository/command\<close>) and the verification query, which
  also writes (\<open>query/verify.go\<close>).  A handler maps its collaborators, the clock, its
  command and the store to an error, which leaves the store as it was, or a new
  store.  Register and Publish run two transactions: they take the store as the first
  one saw it and the store the second one works on.  The comments and notes that only
  decorate an event are left out.
\<close>

section \<open>Commands\<close>

record tcommand =
  tc_did :: string
  tc_updated_at :: int
  tc_by :: string
  tc_holder :: string
  tc_roles :: "user_role list"

record tcreate_cmd = tcommand +
  tn_type :: template_type
  tn_name :: "string option"
  tn_description :: "string option"
  tn_data :: "json option"

record tsubmit_cmd = tcommand +
  ts_flag :: "template_flag option"

record treject_cmd = tcommand +
  tj_reason :: string

record tedit_cmd = tcommand +
  td_type :: "template_type option"
  td_name :: "string option"
  td_description :: "string option"
  td_data :: "json option"

record tcopy_cmd = tcommand +
  tk_new_did :: string

record tregister_cmd = tcommand +
  tg_version :: int

record tpublish_cmd = tcommand +
  tb_instance :: string

definition tmpl_fresh :: "('a tcommand_scheme) \<Rightarrow> tmpl \<Rightarrow> (tmpl_error, unit) result" where
  "tmpl_fresh cmd p =
    (if unix_seconds (tc_updated_at cmd) < unix_seconds (tp_content_updated_at p)
     then Inl TUpdatedElsewhere else Inr ())"

section \<open>Creation and copies\<close>

definition Template_Create :: "tmpl_env \<Rightarrow> int \<Rightarrow> tcreate_cmd \<Rightarrow> tstore \<Rightarrow> (tmpl_error, tstore) result" where
  "Template_Create e now cmd s =
    bind_res (NormalizeTemplateDataForPersistence e (tn_data cmd) (tc_did cmd)) (\<lambda>data.
    bind_res (Template_Insert now (tc_did cmd) (tc_by cmd) TsDraft (tn_type cmd) (tn_name cmd)
        (tn_description cmd) (Some data) s) (\<lambda>s1.
      tmpl_event_Create now (TCreateEvent (tc_did cmd) (tc_by cmd)) s1))"

definition tmpl_no_update :: "string \<Rightarrow> tmpl_update" where
  "tmpl_no_update did = \<lparr>tu_did = did, tu_state = None, tu_type = None, tu_name = None,
     tu_description = None, tu_data = None\<rparr>"

definition Template_Copy :: "tmpl_env \<Rightarrow> int \<Rightarrow> tcopy_cmd \<Rightarrow> tstore \<Rightarrow> (tmpl_error, tstore) result" where
  "Template_Copy e now cmd s =
    bind_res (CopyFromDID now (tc_did cmd) (tk_new_did cmd) s) (\<lambda>(version, s1).
    bind_res (Template_ReadDataByID (tk_new_did cmd) s1) (\<lambda>copied.
    bind_res (NormalizeTemplateDataForPersistence e (tp_data copied) (tk_new_did cmd)) (\<lambda>data.
    bind_res (Template_Update now ((tmpl_no_update (tk_new_did cmd))\<lparr>tu_data := Some data\<rparr>) s1) (\<lambda>s2.
      tmpl_event_Create now (TCopyEvent (tk_new_did cmd) (tc_did cmd) (tc_by cmd) version) s2))))"

section \<open>Submission\<close>

definition createTasks :: "int \<Rightarrow> string \<Rightarrow> string \<Rightarrow> tstore \<Rightarrow> (tmpl_error, tstore) result" where
  "createTasks now did submittedBy s =
    bind_res (TReview_Create now did submittedBy TrOpen submittedBy s)
      (TApproval_Create now did submittedBy TaOpen submittedBy)"

definition reopen_both :: "string \<Rightarrow> tstore \<Rightarrow> tstore" where
  "reopen_both did s = TApproval_ReopenTasks did (TReview_ReopenTasks did s)"

text \<open>
  What a submission does before the state moves: the tasks it writes and the state it
  leads to, none while other reviewers are still to answer.
\<close>

definition tmpl_submit_branch ::
  "int \<Rightarrow> tsubmit_cmd \<Rightarrow> tmpl \<Rightarrow> tstore \<Rightarrow> (tmpl_error, template_state option \<times> tstore) result" where
  "tmpl_submit_branch now cmd p s =
    (case tp_state p of
       TsDraft \<Rightarrow>
         require (HasRoles (tc_roles cmd) [TemplateCreator, TemplateManager]) TInvalidPermission
         (bind_res (createTasks now (tc_did cmd) (tc_by cmd) s) (\<lambda>s1. Inr (Some TsSubmitted, s1)))
     | TsRejected \<Rightarrow>
         require (HasRoles (tc_roles cmd) [TemplateCreator, TemplateManager]) TInvalidPermission
         (Inr (Some TsSubmitted, reopen_both (tc_did cmd) s))
     | TsSubmitted \<Rightarrow>
         require (HasRoles (tc_roles cmd) [TemplateReviewer, TemplateManager]) TInvalidPermission
         (require (TReview_IsValidReviewer (tc_did cmd) (tc_by cmd) s) TInvalidUser
         (case ts_flag cmd of
            None \<Rightarrow> Inl TFlagMissing
          | Some TfApproval \<Rightarrow>
              require (\<not> TReview_TaskExistsInState (tp_did p) (tc_by cmd) TrOpen s) TNeedsVerification
              (bind_res (TReview_UpdateState (tp_did p) (tc_by cmd) TrApproved s) (\<lambda>s1.
                Inr (if TReview_AnyTasksInState (tp_did p) [TrOpen, TrVerified] s1 then None
                     else Some TsReviewed, s1)))
          | Some TfDraft \<Rightarrow> Inr (Some TsRejected, reopen_both (tc_did cmd) s)))
     | TsReviewed \<Rightarrow>
         require (HasRoles (tc_roles cmd) [TemplateApprover, TemplateManager]) TInvalidPermission
         (require (TApproval_IsValidApprover (tp_did p) (tc_by cmd) s) TInvalidUser
         (Inr (Some TsSubmitted, reopen_both (tc_did cmd) s)))
     | _ \<Rightarrow> Inl TInvalidState)"

definition Template_Submit :: "int \<Rightarrow> tsubmit_cmd \<Rightarrow> tstore \<Rightarrow> (tmpl_error, tstore) result" where
  "Template_Submit now cmd s =
    bind_res (Template_ReadProcessDataByDID (tc_did cmd) s) (\<lambda>p.
    bind_res (tmpl_fresh cmd p) (\<lambda>_.
    bind_res (tmpl_submit_branch now cmd p s) (\<lambda>(next, s1).
      case next of
        None \<Rightarrow> Inr s1
      | Some st \<Rightarrow>
          if tp_state p = st then Inr s1
          else bind_res (Template_UpdateState now (tc_did cmd) st s1) (\<lambda>s2.
            tmpl_event_Create now (TSubmitEvent (tc_did cmd) (tp_version p) (tc_by cmd)
              (tp_state p) st (ts_flag cmd)) s2))))"

section \<open>Approval and rejection\<close>

definition Template_Approve :: "int \<Rightarrow> tcommand \<Rightarrow> tstore \<Rightarrow> (tmpl_error, tstore) result" where
  "Template_Approve now cmd s =
    bind_res (Template_ReadProcessDataByDID (tc_did cmd) s) (\<lambda>p.
    bind_res (tmpl_fresh cmd p) (\<lambda>_.
    require (tp_state p = TsReviewed) TInvalidState
    (require (TApproval_IsValidApprover (tc_did cmd) (tc_by cmd) s) TInvalidUser
    (bind_res (TApproval_UpdateState (tc_did cmd) (tc_by cmd) TaApproved s) (\<lambda>s1.
    bind_res (Template_UpdateState now (tc_did cmd) TsApproved s1) (\<lambda>s2.
      tmpl_event_Create now (TApproveEvent (tc_did cmd) (tp_version p) (tc_by cmd)) s2))))))"

definition Template_Reject :: "int \<Rightarrow> treject_cmd \<Rightarrow> tstore \<Rightarrow> (tmpl_error, tstore) result" where
  "Template_Reject now cmd s =
    bind_res (Template_ReadProcessDataByDID (tc_did cmd) s) (\<lambda>p.
    bind_res (tmpl_fresh cmd p) (\<lambda>_.
    require (tp_state p = TsReviewed) TInvalidState
    (require (TApproval_IsValidApprover (tc_did cmd) (tc_by cmd) s) TInvalidUser
    (bind_res (TApproval_UpdateState (tc_did cmd) (tc_by cmd) TaRejected s) (\<lambda>s1.
    bind_res (Template_UpdateState now (tc_did cmd) TsRejected s1) (\<lambda>s2.
      tmpl_event_Create now
        (TRejectEvent (tc_did cmd) (tp_version p) (tc_by cmd) (tj_reason cmd)) s2))))))"

section \<open>Edits\<close>

definition tmpl_edit_data :: "tmpl_env \<Rightarrow> tedit_cmd \<Rightarrow> (tmpl_error, json option) result" where
  "tmpl_edit_data e cmd =
    (if IsNotNullValue (td_data cmd)
     then bind_res (NormalizeTemplateDataForPersistence e (td_data cmd) (tc_did cmd)) (\<lambda>j. Inr (Some j))
     else Inr (td_data cmd))"

definition tmpl_edit :: "tedit_cmd \<Rightarrow> json option \<Rightarrow> tmpl_update" where
  "tmpl_edit cmd data = \<lparr>tu_did = tc_did cmd, tu_state = None, tu_type = td_type cmd,
     tu_name = td_name cmd, tu_description = td_description cmd, tu_data = data\<rparr>"

definition tmpl_edit_fresh :: "tedit_cmd \<Rightarrow> tmpl \<Rightarrow> (tmpl_error, unit) result" where
  "tmpl_edit_fresh cmd old =
    (if unix_seconds (tc_updated_at cmd) < unix_seconds (tp_updated_at old)
     then Inl TUpdatedElsewhere else Inr ())"

definition may_edit :: "tedit_cmd \<Rightarrow> tmpl \<Rightarrow> tstore \<Rightarrow> (tmpl_error, unit) result" where
  "may_edit cmd old s =
    (if tp_state old = TsDraft \<or> tp_state old = TsRejected then
       require (HasRoles (tc_roles cmd) [TemplateCreator, TemplateManager]) TInvalidPermission (Inr ())
     else if tp_state old = TsSubmitted then
       require (HasRoles (tc_roles cmd) [TemplateReviewer, TemplateManager]) TInvalidPermission
       (if HasRoles (tc_roles cmd) [TemplateReviewer]
        then require (TReview_IsValidReviewer (tc_did cmd) (tc_by cmd) s) TInvalidUser (Inr ())
        else Inr ())
     else Inl TInvalidState)"

definition Template_Edit :: "tmpl_env \<Rightarrow> int \<Rightarrow> tedit_cmd \<Rightarrow> tstore \<Rightarrow> (tmpl_error, tstore) result" where
  "Template_Edit e now cmd s =
    bind_res (tmpl_edit_data e cmd) (\<lambda>data.
    bind_res (Template_ReadDataByID (tc_did cmd) s) (\<lambda>old.
    bind_res (tmpl_edit_fresh cmd old) (\<lambda>_.
    bind_res (may_edit cmd old s) (\<lambda>_.
    bind_res (Template_Update now (tmpl_edit cmd data)
        (Template_HistoryEntry (tc_did cmd) (reopen_both (tc_did cmd) s))) (\<lambda>s1.
      tmpl_event_Create now (TUpdateEvent (tc_did cmd) (tc_by cmd) (tp_data old) data) s1)))))"

definition Template_EditManage :: "tmpl_env \<Rightarrow> int \<Rightarrow> tedit_cmd \<Rightarrow> tstore \<Rightarrow> (tmpl_error, tstore) result" where
  "Template_EditManage e now cmd s =
    bind_res (tmpl_edit_data e cmd) (\<lambda>data.
    bind_res (Template_ReadDataByID (tc_did cmd) s) (\<lambda>old.
    bind_res (tmpl_edit_fresh cmd old) (\<lambda>_.
    require (tp_state old \<notin> {TsPublished, TsDeprecated, TsRegistered}) TInvalidState
    (bind_res (Template_Update now (tmpl_edit cmd data) s) (\<lambda>s1.
      tmpl_event_Create now (TUpdateManageEvent (tc_did cmd) (tc_by cmd) (tp_data old) data) s1)))))"

section \<open>Archiving\<close>

definition Template_Archive :: "int \<Rightarrow> tcommand \<Rightarrow> tstore \<Rightarrow> (tmpl_error, tstore) result" where
  "Template_Archive now cmd s =
    bind_res (Template_ReadProcessDataByDID (tc_did cmd) s) (\<lambda>p.
    bind_res (tmpl_fresh cmd p) (\<lambda>_.
    require (tp_state p \<noteq> TsDeprecated \<and> tp_state p \<noteq> TsDeleted) TInvalidState
    (bind_res (Template_UpdateState now (tc_did cmd)
        (if active_version p then TsDeprecated else TsDeleted) s) (\<lambda>s1.
    bind_res (tmpl_event_Create now (TArchiveEvent (tc_did cmd) (tp_version p) (tc_by cmd)) s1) (\<lambda>s2.
      Inr (TApproval_Delete (tc_did cmd) (TReview_Delete (tc_did cmd) s2)))))))"

section \<open>Registration\<close>

definition register_existing ::
  "tmpl_env \<Rightarrow> int \<Rightarrow> tregister_cmd \<Rightarrow> tmpl \<Rightarrow> tstore \<Rightarrow> (tmpl_error, string \<times> tstore) result" where
  "register_existing e now cmd existing s =
    bind_res (Template_UpdateState now (tc_did cmd) TsRegistered s) (\<lambda>s1.
    bind_res (issueProvenanceCredential e now (tc_did cmd) (tc_by cmd) (tc_holder cmd) existing s1) (\<lambda>s2.
    bind_res (tmpl_event_Create now (TRegisterEvent (tc_did cmd) (tc_by cmd) (tp_did existing)
        (tp_version existing) (Some (tp_state existing)) (Some TsRegistered)) s2) (\<lambda>s3.
      Inr (tc_did cmd, s3))))"

definition catalogue_type :: "fc_template \<Rightarrow> (tmpl_error, template_type) result" where
  "catalogue_type t =
    (case ft_type t of
       None \<Rightarrow> Inl TTypeMissing
     | Some ty \<Rightarrow> if trim_space ty = '''' then Inl TTypeMissing
                 else tmpl_option TTypeInvalid (NewContractTemplateType ty))"

definition register_import ::
  "tmpl_env \<Rightarrow> int \<Rightarrow> tregister_cmd \<Rightarrow> tstore \<Rightarrow> (tmpl_error, string \<times> tstore) result" where
  "register_import e now cmd s =
    require (1 \<le> tg_version cmd) TVersionNotPositive
    (bind_res (tmpl_option TCatalogueNotConfigured (tv_catalogue e)) (\<lambda>fc.
    bind_res (tmpl_option TNoNewDID (tv_new_id e)) (\<lambda>newDID.
    bind_res (tmpl_option TCatalogueFailed (fc_lookup fc (tc_did cmd) (tg_version cmd))) (\<lambda>answer.
    bind_res (tmpl_option TNotInCatalogue answer) (\<lambda>t.
    bind_res (templateDataFromAny e (ft_data t)) (\<lambda>data.
    bind_res (catalogue_type t) (\<lambda>ty.
    bind_res (requireDeclaredShapeLibraries e data) (\<lambda>_.
    bind_res (Template_Insert now newDID (tc_by cmd) TsDraft ty (ft_name t) (ft_description t)
        (Some data) s) (\<lambda>s1.
    bind_res (tmpl_event_Create now (TRegisterEvent newDID (tc_by cmd) (tc_did cmd) (tg_version cmd)
        None None) s1) (\<lambda>s2.
      Inr (newDID, s2)))))))))))"

definition Template_Register :: "tmpl_env \<Rightarrow> int \<Rightarrow> tregister_cmd \<Rightarrow> tstore \<Rightarrow> tstore
    \<Rightarrow> (tmpl_error, string \<times> tstore) result" where
  "Template_Register e now cmd seen s =
    require (tc_did cmd \<noteq> '''') TEmptyDID
    (case lookup_template (tc_did cmd) seen of
       Some existing \<Rightarrow> register_existing e now cmd existing s
     | None \<Rightarrow> register_import e now cmd s)"

section \<open>Publication\<close>

definition publishTemplateResourceToFC ::
  "tmpl_env \<Rightarrow> int \<Rightarrow> catalogue \<Rightarrow> tpublish_cmd \<Rightarrow> tmpl \<Rightarrow> tmpl \<Rightarrow> (tmpl_error, unit) result" where
  "publishTemplateResourceToFC e now fc cmd p full =
    require (tb_instance cmd \<noteq> '''') TPayloadInvalid
    (bind_res (catalogue_document e now (tc_did cmd) (tb_instance cmd) p full) (\<lambda>body.
    bind_res (tmpl_option TCatalogueFailed (fc_post fc body)) (\<lambda>resp.
      if fc_status resp = 201 then Inr ()
      else if fc_status resp = 409 \<and> fc_code resp = ''conflict_error'' then Inr ()
      else Inl TPublishRefused)))"

definition Template_Publish ::
  "tmpl_env \<Rightarrow> int \<Rightarrow> tpublish_cmd \<Rightarrow> tstore \<Rightarrow> tstore \<Rightarrow> (tmpl_error, tstore) result" where
  "Template_Publish e now cmd seen s =
    bind_res (Template_ReadProcessDataByDID (tc_did cmd) seen) (\<lambda>p0.
    bind_res (Template_ReadDataByID (tc_did cmd) seen) (\<lambda>full.
    bind_res (tmpl_fresh cmd p0) (\<lambda>_.
    require (tp_state p0 = TsRegistered) TInvalidState
    (bind_res (tmpl_option TCatalogueNotConfigured (tv_catalogue e)) (\<lambda>fc.
    bind_res (publishTemplateResourceToFC e now fc cmd p0 full) (\<lambda>_.
    bind_res (Template_ReadProcessDataByDID (tc_did cmd) s) (\<lambda>p.
      if tp_state p = TsPublished then Inr s
      else require (tp_state p = TsRegistered) TInvalidState
      (bind_res (Template_UpdateState now (tc_did cmd) TsPublished s) (\<lambda>s1.
        tmpl_event_Create now (TPublishEvent (tc_did cmd) (tp_version p) (tc_by cmd)) s1)))))))))"

section \<open>Verification\<close>

datatype verify_finding =
    HolderEmpty | NameEmpty | DescriptionEmpty | CatalogueSays string | CatalogueStatus int

definition verifyTemplateResourceSelfDescription ::
  "tmpl_env \<Rightarrow> int \<Rightarrow> catalogue \<Rightarrow> tcommand \<Rightarrow> tmpl \<Rightarrow> tmpl \<Rightarrow> (tmpl_error, verify_finding list) result" where
  "verifyTemplateResourceSelfDescription e now fc cmd p full =
    (let findings = (if tc_holder cmd = '''' then [HolderEmpty] else [])
           @ (if tp_name full = Some '''' then [NameEmpty] else [])
           @ (if tp_description full = Some '''' then [DescriptionEmpty] else [])
     in bind_res (catalogue_document e now (tc_did cmd) (tc_holder cmd) p full) (\<lambda>body.
        bind_res (tmpl_option TCatalogueFailed (fc_verify fc body)) (\<lambda>resp.
          Inr (findings @
            (if fc_status resp < 200 \<or> 300 \<le> fc_status resp
             then [if fc_message resp \<noteq> '''' then CatalogueSays (fc_message resp)
                   else CatalogueStatus (fc_status resp)]
             else [])))))"

definition Template_Verify ::
  "tmpl_env \<Rightarrow> int \<Rightarrow> tcommand \<Rightarrow> tstore \<Rightarrow> (tmpl_error, verify_finding list \<times> tstore) result" where
  "Template_Verify e now cmd s =
    bind_res (Template_ReadProcessDataByDID (tc_did cmd) s) (\<lambda>p.
    bind_res (Template_ReadDataByID (tc_did cmd) s) (\<lambda>full.
    bind_res (tmpl_option TDataInvalid (tv_normalize e (tp_data full))) (\<lambda>_.
    bind_res (case tv_catalogue e of
        None \<Rightarrow> Inr []
      | Some fc \<Rightarrow> verifyTemplateResourceSelfDescription e now fc cmd p full) (\<lambda>findings.
      if findings \<noteq> [] then Inr (findings, s)
      else bind_res (if TReview_TaskExistsInState (tc_did cmd) (tc_by cmd) TrOpen s
             then TReview_UpdateState (tc_did cmd) (tc_by cmd) TrVerified s else Inr s) (\<lambda>s1.
        bind_res (tmpl_event_Create now (TVerifyEvent (tc_did cmd) (tp_version p) (tc_by cmd)) s1) (\<lambda>s2.
          Inr ([], s2)))))))"

section \<open>The repository as a state machine\<close>

datatype template_command =
    CmdTCreate tcreate_cmd
  | CmdTCopy tcopy_cmd
  | CmdTSubmit tsubmit_cmd
  | CmdTApprove tcommand
  | CmdTReject treject_cmd
  | CmdTEdit tedit_cmd
  | CmdTEditManage tedit_cmd
  | CmdTArchive tcommand
  | CmdTRegister tregister_cmd tstore
  | CmdTPublish tpublish_cmd tstore
  | CmdTVerify tcommand
  | CmdTPDF string pdf_state

definition drop_result :: "('e, 'a \<times> 'b) result \<Rightarrow> ('e, 'b) result" where
  "drop_result m = bind_res m (\<lambda>(_, s). Inr s)"

text \<open>
  One transaction.  A registration or publication carries the store its first
  transaction saw; \<open>CmdTPDF\<close> is the background write of the artifact columns.
\<close>

fun run_template :: "tmpl_env \<Rightarrow> int \<Rightarrow> template_command \<Rightarrow> tstore \<Rightarrow> (tmpl_error, tstore) result" where
  "run_template e now (CmdTCreate cmd) s = Template_Create e now cmd s"
| "run_template e now (CmdTCopy cmd) s = Template_Copy e now cmd s"
| "run_template e now (CmdTSubmit cmd) s = Template_Submit now cmd s"
| "run_template e now (CmdTApprove cmd) s = Template_Approve now cmd s"
| "run_template e now (CmdTReject cmd) s = Template_Reject now cmd s"
| "run_template e now (CmdTEdit cmd) s = Template_Edit e now cmd s"
| "run_template e now (CmdTEditManage cmd) s = Template_EditManage e now cmd s"
| "run_template e now (CmdTArchive cmd) s = Template_Archive now cmd s"
| "run_template e now (CmdTRegister cmd seen) s = drop_result (Template_Register e now cmd seen s)"
| "run_template e now (CmdTPublish cmd seen) s = Template_Publish e now cmd seen s"
| "run_template e now (CmdTVerify cmd) s = drop_result (Template_Verify e now cmd s)"
| "run_template e now (CmdTPDF did p) s = Inr (Template_UpdatePDFState now did p s)"

end
