(* ===== verification/Template_Lifecycle.thy ===== *)
theory Template_Lifecycle
  imports Template_Commands
begin

text \<open>
  The abstract lifecycle of templates and its refinement: every handler of
  \<open>Template_Commands\<close> performs one step of a small state machine over the states,
  versions and lineages of the templates, and nothing else about them.  The table
  \<open>template_moves\<close> is read off the handlers; the documentation draws a smaller one.
\<close>

section \<open>The abstract lifecycle\<close>

type_synonym lifecycle = "string \<Rightarrow> (template_state \<times> int \<times> string option) option"

definition is_active :: "template_state \<Rightarrow> bool" where
  "is_active st = (st = TsRegistered \<or> st = TsPublished)"

definition template_moves :: "(template_state \<times> template_state) list" where
  "template_moves =
    [(TsDraft, TsSubmitted), (TsRejected, TsSubmitted), (TsReviewed, TsSubmitted),
     (TsSubmitted, TsReviewed), (TsSubmitted, TsRejected),
     (TsReviewed, TsApproved), (TsReviewed, TsRejected),
     (TsRegistered, TsPublished), (TsRegistered, TsDeprecated), (TsPublished, TsDeprecated)]
    @ map (\<lambda>st. (st, TsDeleted)) [TsDraft, TsSubmitted, TsRejected, TsReviewed, TsApproved]
    @ map (\<lambda>st. (st, TsRegistered)) template_state_valid"

definition version_free :: "string \<Rightarrow> int \<Rightarrow> string option \<Rightarrow> lifecycle \<Rightarrow> bool" where
  "version_free did v b a \<longleftrightarrow>
    (\<forall>other st. other \<noteq> did \<and> b \<noteq> None \<and> a other = Some (st, v, b) \<longrightarrow> \<not> is_active st)"

inductive lifecycle_step :: "lifecycle \<Rightarrow> lifecycle \<Rightarrow> bool" where
  stay: "lifecycle_step a a"
| open_draft: "a did = None \<Longrightarrow> did \<noteq> '''' \<Longrightarrow> lifecycle_step a (a(did \<mapsto> (TsDraft, v, Some b)))"
| copy_draft: "a did = None \<Longrightarrow> did \<noteq> '''' \<Longrightarrow> a source = Some (st, w, b)
    \<Longrightarrow> lifecycle_step a (a(did \<mapsto> (TsDraft, v, b)))"
| move: "a did = Some (st, v, b) \<Longrightarrow> (st, st') \<in> set template_moves
    \<Longrightarrow> (is_active st' \<Longrightarrow> version_free did v b a)
    \<Longrightarrow> lifecycle_step a (a(did \<mapsto> (st', v, b)))"

inductive_cases lifecycle_stepE: "lifecycle_step a a'"

definition abs_templates :: "tstore \<Rightarrow> lifecycle" where
  "abs_templates s did = map_option (\<lambda>t. (tp_state t, tp_version t, tp_base t)) (lookup_template did s)"

section \<open>The row operations\<close>

definition keeps_row :: "(tmpl \<Rightarrow> tmpl) \<Rightarrow> bool" where
  "keeps_row f \<longleftrightarrow> (\<forall>t. tp_did (f t) = tp_did t \<and> tp_version (f t) = tp_version t
     \<and> tp_base (f t) = tp_base t \<and> tp_created_by (f t) = tp_created_by t)"

lemma keeps_row_simps:
  "keeps_row f \<Longrightarrow> tp_did (f t) = tp_did t"
  "keeps_row f \<Longrightarrow> tp_version (f t) = tp_version t"
  "keeps_row f \<Longrightarrow> tp_base (f t) = tp_base t"
  "keeps_row f \<Longrightarrow> tp_created_by (f t) = tp_created_by t"
  by (simp_all add: keeps_row_def)

lemma keeps_row_state [simp]: "keeps_row (\<lambda>t. t\<lparr>tp_state := st\<rparr>)"
  by (simp add: keeps_row_def)

lemma keeps_row_pdf [simp]: "keeps_row (\<lambda>t. t\<lparr>tp_pdf := p\<rparr>)"
  by (simp add: keeps_row_def)

lemma tmpl_triggers_keep [simp]:
  "tp_did (tmpl_revision_trigger now t (tmpl_content_trigger now' t t')) = tp_did t'"
  "tp_version (tmpl_revision_trigger now t (tmpl_content_trigger now' t t')) = tp_version t'"
  "tp_base (tmpl_revision_trigger now t (tmpl_content_trigger now' t t')) = tp_base t'"
  "tp_state (tmpl_revision_trigger now t (tmpl_content_trigger now' t t')) = tp_state t'"
  "tp_created_by (tmpl_revision_trigger now t (tmpl_content_trigger now' t t')) = tp_created_by t'"
  "tp_data (tmpl_revision_trigger now t (tmpl_content_trigger now' t t')) = tp_data t'"
  "tp_type (tmpl_revision_trigger now t (tmpl_content_trigger now' t t')) = tp_type t'"
  "tp_name (tmpl_revision_trigger now t (tmpl_content_trigger now' t t')) = tp_name t'"
  "tp_description (tmpl_revision_trigger now t (tmpl_content_trigger now' t t')) = tp_description t'"
  by (simp_all add: tmpl_revision_trigger_def tmpl_content_trigger_def)

lemma find_map_same:
  "(\<And>x. P (g x) \<longleftrightarrow> P x) \<Longrightarrow> find P (map g xs) = map_option g (find P xs)"
  by (induction xs) simp_all

lemma find_append: "find P (xs @ ys) = (case find P xs of None \<Rightarrow> find P ys | Some x \<Rightarrow> Some x)"
  by (induction xs) simp_all

lemma lookup_in: "lookup_template did s = Some t \<Longrightarrow> t \<in> set (templates s) \<and> tp_did t = did"
  unfolding lookup_template_def by (auto simp: find_Some_iff)

lemma lookup_update:
  assumes "keeps_row f"
  shows "lookup_template d (update_template now did f s) =
    map_option (\<lambda>t. if d = did then tmpl_revision_trigger now t (tmpl_content_trigger now t (f t)) else t)
      (lookup_template d s)"
proof -
  let ?g = "\<lambda>t. if tp_did t = did then tmpl_revision_trigger now t (tmpl_content_trigger now t (f t)) else t"
  have "lookup_template d (update_template now did f s) = map_option ?g (lookup_template d s)"
    unfolding lookup_template_def update_template_def
    by (simp add: find_map_same keeps_row_simps [OF assms])
  moreover have "map_option ?g (lookup_template d s) =
    map_option (\<lambda>t. if d = did then tmpl_revision_trigger now t (tmpl_content_trigger now t (f t)) else t)
      (lookup_template d s)"
    by (intro map_option_cong refl) (auto dest: lookup_in)
  ultimately show ?thesis by simp
qed

lemma lookup_insert:
  assumes "insert_template t s = Inr s'"
  shows "lookup_template d s' = (if d = tp_did t then Some t else lookup_template d s)"
  using assms unfolding insert_template_def
  by (auto simp: require_Inr_iff lookup_template_def find_append split: option.splits)

lemma abs_update:
  assumes "keeps_row f"
  shows "abs_templates (update_template now did f s) d =
    (if d = did then map_option (\<lambda>t. (tp_state (f t), tp_version t, tp_base t)) (lookup_template did s)
     else abs_templates s d)"
  unfolding abs_templates_def lookup_update [OF assms]
  by (simp add: option.map_comp comp_def keeps_row_simps [OF assms])

lemma abs_frame [simp]:
  "abs_templates (s\<lparr>tr_tasks := x\<rparr>) = abs_templates s"
  "abs_templates (s\<lparr>ta_tasks := y\<rparr>) = abs_templates s"
  "abs_templates (s\<lparr>t_outbox := z\<rparr>) = abs_templates s"
  "abs_templates (s\<lparr>credentials := c\<rparr>) = abs_templates s"
  "abs_templates (s\<lparr>tmpl_history := h\<rparr>) = abs_templates s"
  "abs_templates (s\<lparr>next_task := n\<rparr>) = abs_templates s"
  by (simp_all add: abs_templates_def [abs_def] lookup_template_def)

lemma lookup_frame [simp]:
  "lookup_template d (s\<lparr>tr_tasks := x\<rparr>) = lookup_template d s"
  "lookup_template d (s\<lparr>ta_tasks := y\<rparr>) = lookup_template d s"
  "lookup_template d (s\<lparr>t_outbox := z\<rparr>) = lookup_template d s"
  "lookup_template d (s\<lparr>credentials := c\<rparr>) = lookup_template d s"
  "lookup_template d (s\<lparr>tmpl_history := h\<rparr>) = lookup_template d s"
  "lookup_template d (s\<lparr>next_task := n\<rparr>) = lookup_template d s"
  by (simp_all add: lookup_template_def)

section \<open>What a handler did\<close>

text \<open>
  The destruction rules of the table operations and of the handlers: a successful
  call passed its guards, and this is the store it left.
\<close>

lemma tmpl_event_Create_Inr:
  "tmpl_event_Create now evt s = Inr s' \<longleftrightarrow>
    tmpl_GetDID evt \<noteq> '''' \<and> s' = s\<lparr>t_outbox := t_outbox s @ [(now, evt)]\<rparr>"
  by (auto simp: tmpl_event_Create_def)

lemma insert_template_Inr:
  "insert_template t s = Inr s' \<longleftrightarrow>
    tp_did t \<noteq> '''' \<and> lookup_template (tp_did t) s = None \<and> s' = s\<lparr>templates := templates s @ [t]\<rparr>"
  by (auto simp: insert_template_def require_Inr_iff)

lemma Template_ReadData_Inr:
  "Template_ReadDataByID did s = Inr t \<longleftrightarrow> lookup_template did s = Some t"
  "Template_ReadProcessDataByDID did s = Inr t \<longleftrightarrow> lookup_template did s = Some t"
  by (simp_all add: Template_ReadDataByID_def Template_ReadProcessDataByDID_def)

lemma Template_UpdateState_Inr:
  "Template_UpdateState now did st s = Inr s' \<longleftrightarrow>
    (\<exists>ct. lookup_template did s = Some ct
      \<and> (is_active st \<longrightarrow> \<not> list_ex (\<lambda>other. occupies (tp_base ct) (tp_version ct) other
            \<and> tp_did other \<noteq> did) (templates s))
      \<and> s' = update_template now did (\<lambda>t. t\<lparr>tp_state := st\<rparr>) s)"
  by (auto simp: Template_UpdateState_def result_iffs is_active_def dest: lookup_in)

lemma keeps_row_columns: "keeps_row (fold tmpl_set_column columns)"
proof -
  have one: "keeps_row (tmpl_set_column c)" for c
    unfolding keeps_row_def by (cases c) simp_all
  show ?thesis
    unfolding keeps_row_def
    by (induction columns) (simp_all add: keeps_row_simps [OF one])
qed

definition content_column :: "tmpl_column \<Rightarrow> bool" where
  "content_column c = (case c of TcState _ \<Rightarrow> False | _ \<Rightarrow> True)"

lemma columns_state:
  "list_all content_column columns \<Longrightarrow> tp_state (fold tmpl_set_column columns t) = tp_state t"
proof (induction columns arbitrary: t)
  case (Cons c columns)
  then show ?case by (cases c) (simp_all add: content_column_def)
qed simp

lemma tmpl_createQuery_content:
  "tmpl_createQuery u = Inr columns \<Longrightarrow> tu_state u = None \<Longrightarrow> list_all content_column columns"
  by (auto simp: tmpl_createQuery_def tmpl_opt_col_def content_column_def Let_def
      split: if_splits option.splits)

text \<open>An edit without a state column changes rows, but neither their identity nor their state.\<close>

definition edits_row :: "(tmpl \<Rightarrow> tmpl) \<Rightarrow> bool" where
  "edits_row f \<longleftrightarrow> keeps_row f \<and> (\<forall>t. tp_state (f t) = tp_state t)"

lemma edits_keeps [simp]: "edits_row f \<Longrightarrow> keeps_row f"
  by (simp add: edits_row_def)

lemma edits_row_pdf [simp]: "edits_row (\<lambda>t. t\<lparr>tp_pdf := p\<rparr>)"
  by (simp add: edits_row_def)

lemma Template_Update_edits:
  assumes "Template_Update now u s = Inr s'" "tu_state u = None"
  obtains f where "edits_row f" "s' = update_template now (tu_did u) f s"
proof -
  obtain columns where c: "tmpl_createQuery u = Inr columns"
    and s': "s' = update_template now (tu_did u) (fold tmpl_set_column columns) s"
    using assms(1) by (auto simp: Template_Update_def result_iffs)
  have "edits_row (fold tmpl_set_column columns)"
    unfolding edits_row_def
    using keeps_row_columns columns_state [OF tmpl_createQuery_content [OF c assms(2)]] by blast
  with s' show thesis by (rule that [rotated])
qed

lemma task_ops_Inr:
  "TReview_UpdateState did owner rst s = Inr s' \<longleftrightarrow> list_ex (task_of did owner) (tr_tasks s)
     \<and> s' = s\<lparr>tr_tasks := set_task_state did owner rst (tr_tasks s)\<rparr>"
  "TApproval_UpdateState did owner ast s = Inr s' \<longleftrightarrow> list_ex (task_of did owner) (ta_tasks s)
     \<and> s' = s\<lparr>ta_tasks := set_task_state did owner ast (ta_tasks s)\<rparr>"
  by (auto simp: TReview_UpdateState_def TApproval_UpdateState_def)

lemma createTasks_Inr:
  "createTasks now did owner s = Inr s' \<longleftrightarrow> did \<noteq> '''' \<and> owner \<noteq> '''' \<and> lookup_template did s \<noteq> None
     \<and> s' = s\<lparr>tr_tasks := tr_tasks s @ [new_task (next_task s) now did owner TrOpen owner],
              ta_tasks := ta_tasks s @ [new_task (next_task s + 1) now did owner TaOpen owner],
              next_task := next_task s + 2\<rparr>"
  by (auto simp: createTasks_def TReview_Create_def TApproval_Create_def task_row_ok_def result_iffs
      numeral_2_eq_2)

lemma reopen_both_eq:
  "reopen_both did s = s\<lparr>tr_tasks := reopen_tasks TrOpen did (tr_tasks s),
     ta_tasks := reopen_tasks TaOpen did (ta_tasks s)\<rparr>"
  by (simp add: reopen_both_def TReview_ReopenTasks_def TApproval_ReopenTasks_def)

lemma Template_Create_Inr:
  assumes "Template_Create e now cmd s = Inr s'"
  obtains t where "lookup_template (tc_did cmd) s = None" "tc_did cmd \<noteq> ''''"
    "tp_did t = tc_did cmd" "tp_state t = TsDraft" "tp_version t = 1" "tp_base t = Some (tc_did cmd)"
    "tp_created_by t = tc_by cmd"
    "s' = s\<lparr>templates := templates s @ [t],
           t_outbox := t_outbox s @ [(now, TCreateEvent (tc_did cmd) (tc_by cmd))]\<rparr>"
  using assms
  by (auto simp: Template_Create_def Template_Insert_def result_iffs insert_template_Inr
      tmpl_event_Create_Inr intro!: that)

lemma register_import_Inr:
  assumes "register_import e now cmd s = Inr (newDID, s')"
  obtains t where "lookup_template newDID s = None" "newDID \<noteq> ''''"
    "tp_did t = newDID" "tp_state t = TsDraft" "tp_version t = 1" "tp_base t = Some newDID"
    "tp_created_by t = tc_by cmd"
    "s' = s\<lparr>templates := templates s @ [t],
           t_outbox := t_outbox s @ [(now, TRegisterEvent newDID (tc_by cmd) (tc_did cmd) (tg_version cmd) None None)]\<rparr>"
  using assms
  by (auto simp: register_import_def Template_Insert_def result_iffs insert_template_Inr
      tmpl_event_Create_Inr intro!: that)

lemma CopyFromDID_Inr:
  assumes "CopyFromDID now did new s = Inr (v, s')"
  obtains source t where "lookup_template did s = Some source" "v = copy_version source"
    "lookup_template new s = None" "new \<noteq> ''''" "tp_did t = new" "tp_state t = TsDraft"
    "tp_version t = copy_version source" "tp_base t = copy_base new source"
    "tp_created_by t = tp_created_by source" "s' = s\<lparr>templates := templates s @ [t]\<rparr>"
proof -
  obtain source t where
    t: "t = \<lparr>tp_did = new, tp_version = copy_version source,
        tp_state = TsDraft, tp_type = tp_type source, tp_name = tp_name source,
        tp_description = tp_description source, tp_created_by = tp_created_by source,
        tp_created_at = now, tp_updated_at = now, tp_content_updated_at = now,
        tp_data = tp_data source, tp_base = copy_base new source, tp_pdf = no_pdf\<rparr>"
    and "lookup_template did s = Some source" "v = copy_version source" "insert_template t s = Inr s'"
    using assms by (auto simp: CopyFromDID_def result_iffs)
  then show thesis by (intro that [of source t]) (simp_all add: insert_template_Inr)
qed

lemma Template_Copy_Inr:
  assumes "Template_Copy e now cmd s = Inr s'"
  obtains source t f where "lookup_template (tc_did cmd) s = Some source" "tc_did cmd \<noteq> ''''"
    "lookup_template (tk_new_did cmd) s = None" "tk_new_did cmd \<noteq> ''''" "tp_did t = tk_new_did cmd"
    "tp_state t = TsDraft" "tp_version t = copy_version source"
    "tp_base t = copy_base (tk_new_did cmd) source" "tp_created_by t = tp_created_by source"
    "edits_row f"
    "s' = (update_template now (tk_new_did cmd) f (s\<lparr>templates := templates s @ [t]\<rparr>))
      \<lparr>t_outbox := t_outbox s @ [(now, TCopyEvent (tk_new_did cmd) (tc_did cmd) (tc_by cmd)
          (copy_version source))]\<rparr>"
proof -
  obtain v s1 data s2 where copy: "CopyFromDID now (tc_did cmd) (tk_new_did cmd) s = Inr (v, s1)"
    and upd: "Template_Update now ((tmpl_no_update (tk_new_did cmd))\<lparr>tu_data := Some data\<rparr>) s1 = Inr s2"
    and evt: "tmpl_event_Create now (TCopyEvent (tk_new_did cmd) (tc_did cmd) (tc_by cmd) v) s2 = Inr s'"
    using assms by (auto simp: Template_Copy_def result_iffs)
  obtain source t where c: "lookup_template (tc_did cmd) s = Some source" "v = copy_version source"
    "lookup_template (tk_new_did cmd) s = None" "tk_new_did cmd \<noteq> ''''" "tp_did t = tk_new_did cmd"
    "tp_state t = TsDraft" "tp_version t = copy_version source"
    "tp_base t = copy_base (tk_new_did cmd) source" "tp_created_by t = tp_created_by source"
    "s1 = s\<lparr>templates := templates s @ [t]\<rparr>"
    by (rule CopyFromDID_Inr [OF copy])
  obtain f where f: "edits_row f" "s2 = update_template now (tk_new_did cmd) f s1"
    by (rule Template_Update_edits [OF upd]) (simp_all add: tmpl_no_update_def)
  show thesis
    by (rule that [OF c(1) _ c(3-9) f(1)])
      (use evt c(2,10) f(2) in \<open>simp_all add: tmpl_event_Create_Inr update_template_def\<close>)
qed

text \<open>The tasks a submission leaves, by the state it found and the state it leads to.\<close>

definition submit_tasks :: "int \<Rightarrow> tsubmit_cmd \<Rightarrow> tmpl \<Rightarrow> tstore \<Rightarrow> tstore" where
  "submit_tasks now cmd p s =
    (if tp_state p = TsDraft
     then s\<lparr>tr_tasks := tr_tasks s @ [new_task (next_task s) now (tc_did cmd) (tc_by cmd) TrOpen (tc_by cmd)],
            ta_tasks := ta_tasks s @ [new_task (next_task s + 1) now (tc_did cmd) (tc_by cmd) TaOpen (tc_by cmd)],
            next_task := next_task s + 2\<rparr>
     else if tp_state p = TsSubmitted \<and> ts_flag cmd = Some TfApproval
     then s\<lparr>tr_tasks := set_task_state (tc_did cmd) (tc_by cmd) TrApproved (tr_tasks s)\<rparr>
     else reopen_both (tc_did cmd) s)"

definition submit_next :: "tsubmit_cmd \<Rightarrow> tmpl \<Rightarrow> template_state" where
  "submit_next cmd p =
    (if tp_state p \<noteq> TsSubmitted then TsSubmitted
     else if ts_flag cmd = Some TfApproval then TsReviewed else TsRejected)"

definition submit_guard :: "tsubmit_cmd \<Rightarrow> tmpl \<Rightarrow> tstore \<Rightarrow> bool" where
  "submit_guard cmd p s \<longleftrightarrow>
    (case tp_state p of
       TsDraft \<Rightarrow> HasRoles (tc_roles cmd) [TemplateCreator, TemplateManager] \<and> tc_by cmd \<noteq> ''''
     | TsRejected \<Rightarrow> HasRoles (tc_roles cmd) [TemplateCreator, TemplateManager]
     | TsSubmitted \<Rightarrow> HasRoles (tc_roles cmd) [TemplateReviewer, TemplateManager]
         \<and> list_ex (task_of (tc_did cmd) (tc_by cmd)) (tr_tasks s) \<and> ts_flag cmd \<noteq> None
         \<and> (ts_flag cmd = Some TfApproval
              \<longrightarrow> \<not> TReview_TaskExistsInState (tc_did cmd) (tc_by cmd) TrOpen s)
     | TsReviewed \<Rightarrow> HasRoles (tc_roles cmd) [TemplateApprover, TemplateManager]
         \<and> list_ex (task_of (tc_did cmd) (tc_by cmd)) (ta_tasks s)
     | _ \<Rightarrow> False)"

lemma submit_branch_Inr:
  assumes "tmpl_submit_branch now cmd p s = Inr (n, s1)" "tp_did p = tc_did cmd"
  shows "submit_guard cmd p s \<and> s1 = submit_tasks now cmd p s
    \<and> (n = Some (submit_next cmd p) \<or> n = None \<and> tp_state p = TsSubmitted)"
  using assms
  by (cases "tp_state p")
    (auto simp: tmpl_submit_branch_def result_iffs submit_guard_def submit_tasks_def submit_next_def
      createTasks_Inr task_ops_Inr TReview_IsValidReviewer_def TApproval_IsValidApprover_def
      split: option.splits template_flag.splits if_splits)

lemma Template_Submit_Inr:
  assumes "Template_Submit now cmd s = Inr s'"
  obtains (waiting) p where "lookup_template (tc_did cmd) s = Some p" "tp_state p = TsSubmitted"
      "submit_guard cmd p s" "s' = submit_tasks now cmd p s"
  | (moved) p where "lookup_template (tc_did cmd) s = Some p" "submit_guard cmd p s"
      "tc_did cmd \<noteq> ''''"
      "s' = (update_template now (tc_did cmd) (\<lambda>t. t\<lparr>tp_state := submit_next cmd p\<rparr>) (submit_tasks now cmd p s))
        \<lparr>t_outbox := t_outbox s @ [(now, TSubmitEvent (tc_did cmd) (tp_version p) (tc_by cmd)
           (tp_state p) (submit_next cmd p) (ts_flag cmd))]\<rparr>"
proof -
  obtain p n s1 where p: "lookup_template (tc_did cmd) s = Some p"
    and b: "tmpl_submit_branch now cmd p s = Inr (n, s1)"
    and rest: "(case n of None \<Rightarrow> Inr s1
      | Some st \<Rightarrow> if tp_state p = st then Inr s1
          else bind_res (Template_UpdateState now (tc_did cmd) st s1) (\<lambda>s2.
            tmpl_event_Create now (TSubmitEvent (tc_did cmd) (tp_version p) (tc_by cmd)
              (tp_state p) st (ts_flag cmd)) s2)) = Inr s'"
    using assms by (auto simp: Template_Submit_def result_iffs Template_ReadData_Inr)
  have did: "tp_did p = tc_did cmd" using lookup_in [OF p] by simp
  note g = submit_branch_Inr [OF b did]
  have differ: "tp_state p \<noteq> submit_next cmd p"
    by (auto simp: submit_next_def)
  show thesis
  proof (cases n)
    case None
    then show thesis using g rest p by (intro waiting) auto
  next
    case (Some st)
    with g have st: "st = submit_next cmd p" by simp
    obtain s2 where "Template_UpdateState now (tc_did cmd) st s1 = Inr s2"
      and evt: "tmpl_event_Create now (TSubmitEvent (tc_did cmd) (tp_version p) (tc_by cmd)
              (tp_state p) st (ts_flag cmd)) s2 = Inr s'"
      using rest Some differ st by (auto simp: result_iffs)
    then have s2: "s2 = update_template now (tc_did cmd) (\<lambda>t. t\<lparr>tp_state := st\<rparr>) s1"
      by (auto simp: Template_UpdateState_Inr)
    have ob: "t_outbox s2 = t_outbox s"
      using g by (simp add: s2 update_template_def submit_tasks_def reopen_both_eq)
    show thesis
      using evt g p st ob by (intro moved) (auto simp: tmpl_event_Create_Inr s2)
  qed
qed

lemma update_template_frame [simp]:
  "tr_tasks (update_template now did f s) = tr_tasks s"
  "ta_tasks (update_template now did f s) = ta_tasks s"
  "credentials (update_template now did f s) = credentials s"
  "t_outbox (update_template now did f s) = t_outbox s"
  "tmpl_history (update_template now did f s) = tmpl_history s"
  by (simp_all add: update_template_def)

lemma Template_Approve_Inr:
  assumes "Template_Approve now cmd s = Inr s'"
  obtains p where "lookup_template (tc_did cmd) s = Some p" "tp_state p = TsReviewed"
    "tc_did cmd \<noteq> ''''" "list_ex (task_of (tc_did cmd) (tc_by cmd)) (ta_tasks s)"
    "s' = (update_template now (tc_did cmd) (\<lambda>t. t\<lparr>tp_state := TsApproved\<rparr>)
        (s\<lparr>ta_tasks := set_task_state (tc_did cmd) (tc_by cmd) TaApproved (ta_tasks s)\<rparr>))
      \<lparr>t_outbox := t_outbox s @ [(now, TApproveEvent (tc_did cmd) (tp_version p) (tc_by cmd))]\<rparr>"
  using assms
  by (auto simp: Template_Approve_def result_iffs Template_ReadData_Inr task_ops_Inr
      Template_UpdateState_Inr tmpl_event_Create_Inr intro: that)

lemma Template_Reject_Inr:
  assumes "Template_Reject now cmd s = Inr s'"
  obtains p where "lookup_template (tc_did cmd) s = Some p" "tp_state p = TsReviewed"
    "tc_did cmd \<noteq> ''''" "list_ex (task_of (tc_did cmd) (tc_by cmd)) (ta_tasks s)"
    "s' = (update_template now (tc_did cmd) (\<lambda>t. t\<lparr>tp_state := TsRejected\<rparr>)
        (s\<lparr>ta_tasks := set_task_state (tc_did cmd) (tc_by cmd) TaRejected (ta_tasks s)\<rparr>))
      \<lparr>t_outbox := t_outbox s @ [(now, TRejectEvent (tc_did cmd) (tp_version p) (tc_by cmd) (tj_reason cmd))]\<rparr>"
  using assms
  by (auto simp: Template_Reject_def result_iffs Template_ReadData_Inr task_ops_Inr
      Template_UpdateState_Inr tmpl_event_Create_Inr intro: that)

lemma Template_Edit_Inr:
  assumes "Template_Edit e now cmd s = Inr s'"
  obtains old f data where "lookup_template (tc_did cmd) s = Some old"
    "tp_state old \<in> {TsDraft, TsRejected, TsSubmitted}" "tc_did cmd \<noteq> ''''" "edits_row f"
    "s' = (update_template now (tc_did cmd) f
        (Template_HistoryEntry (tc_did cmd) (reopen_both (tc_did cmd) s)))
      \<lparr>t_outbox := t_outbox s @ [(now, TUpdateEvent (tc_did cmd) (tc_by cmd) (tp_data old) data)]\<rparr>"
proof -
  obtain data old s1 where old: "lookup_template (tc_did cmd) s = Some old"
    and may: "may_edit cmd old s = Inr ()"
    and upd: "Template_Update now (tmpl_edit cmd data)
        (Template_HistoryEntry (tc_did cmd) (reopen_both (tc_did cmd) s)) = Inr s1"
    and evt: "tmpl_event_Create now (TUpdateEvent (tc_did cmd) (tc_by cmd) (tp_data old) data) s1 = Inr s'"
    using assms by (auto simp: Template_Edit_def result_iffs Template_ReadData_Inr)
  obtain f where f: "edits_row f" "s1 = update_template now (tc_did cmd) f
      (Template_HistoryEntry (tc_did cmd) (reopen_both (tc_did cmd) s))"
    by (rule Template_Update_edits [OF upd]) (simp_all add: tmpl_edit_def)
  have st: "tp_state old \<in> {TsDraft, TsRejected, TsSubmitted}"
    using may by (auto simp: may_edit_def split: if_splits)
  show thesis
    by (rule that [OF old st _ f(1)])
      (use evt f(2) in \<open>simp_all add: tmpl_event_Create_Inr Template_HistoryEntry_def reopen_both_eq\<close>)
qed

lemma Template_EditManage_Inr:
  assumes "Template_EditManage e now cmd s = Inr s'"
  obtains old f data where "lookup_template (tc_did cmd) s = Some old"
    "tp_state old \<notin> {TsPublished, TsDeprecated, TsRegistered}" "tc_did cmd \<noteq> ''''" "edits_row f"
    "s' = (update_template now (tc_did cmd) f s)
      \<lparr>t_outbox := t_outbox s @ [(now, TUpdateManageEvent (tc_did cmd) (tc_by cmd) (tp_data old) data)]\<rparr>"
proof -
  obtain data old s1 where old: "lookup_template (tc_did cmd) s = Some old"
    and st: "tp_state old \<notin> {TsPublished, TsDeprecated, TsRegistered}"
    and upd: "Template_Update now (tmpl_edit cmd data) s = Inr s1"
    and evt: "tmpl_event_Create now (TUpdateManageEvent (tc_did cmd) (tc_by cmd) (tp_data old) data) s1 = Inr s'"
    using assms by (auto simp: Template_EditManage_def result_iffs Template_ReadData_Inr)
  obtain f where f: "edits_row f" "s1 = update_template now (tc_did cmd) f s"
    by (rule Template_Update_edits [OF upd]) (simp_all add: tmpl_edit_def)
  show thesis
    by (rule that [OF old st _ f(1)]) (use evt f(2) in \<open>simp_all add: tmpl_event_Create_Inr\<close>)
qed

definition archived_state :: "tmpl \<Rightarrow> template_state" where
  "archived_state p = (if active_version p then TsDeprecated else TsDeleted)"

lemma Template_Archive_Inr:
  assumes "Template_Archive now cmd s = Inr s'"
  obtains p where "lookup_template (tc_did cmd) s = Some p" "tp_state p \<noteq> TsDeprecated"
    "tp_state p \<noteq> TsDeleted" "tc_did cmd \<noteq> ''''"
    "s' = (update_template now (tc_did cmd) (\<lambda>t. t\<lparr>tp_state := archived_state p\<rparr>) s)
      \<lparr>tr_tasks := filter (\<lambda>t. task_did t \<noteq> tc_did cmd) (tr_tasks s),
       ta_tasks := filter (\<lambda>t. task_did t \<noteq> tc_did cmd) (ta_tasks s),
       t_outbox := t_outbox s @ [(now, TArchiveEvent (tc_did cmd) (tp_version p) (tc_by cmd))]\<rparr>"
  using assms
  by (auto simp: Template_Archive_def result_iffs Template_ReadData_Inr TReview_Delete_def
      TApproval_Delete_def Template_UpdateState_Inr tmpl_event_Create_Inr archived_state_def intro: that)

lemma Template_Publish_Inr:
  assumes "Template_Publish e now cmd seen s = Inr s'"
  obtains (again) "s' = s"
  | (published) p where "lookup_template (tc_did cmd) s = Some p" "tp_state p = TsRegistered"
    "tc_did cmd \<noteq> ''''" "Template_UpdateState now (tc_did cmd) TsPublished s
      = Inr (update_template now (tc_did cmd) (\<lambda>t. t\<lparr>tp_state := TsPublished\<rparr>) s)"
    "s' = (update_template now (tc_did cmd) (\<lambda>t. t\<lparr>tp_state := TsPublished\<rparr>) s)
      \<lparr>t_outbox := t_outbox s @ [(now, TPublishEvent (tc_did cmd) (tp_version p) (tc_by cmd))]\<rparr>"
proof -
  obtain p where p: "lookup_template (tc_did cmd) s = Some p"
    and rest: "(if tp_state p = TsPublished then Inr s
      else require (tp_state p = TsRegistered) TInvalidState
      (bind_res (Template_UpdateState now (tc_did cmd) TsPublished s) (\<lambda>s1.
        tmpl_event_Create now (TPublishEvent (tc_did cmd) (tp_version p) (tc_by cmd)) s1))) = Inr s'"
    using assms by (auto simp: Template_Publish_def result_iffs Template_ReadData_Inr)
  show thesis
  proof (cases "tp_state p = TsPublished")
    case True
    with rest show thesis by (intro again) simp
  next
    case False
    with rest obtain s1 where u: "Template_UpdateState now (tc_did cmd) TsPublished s = Inr s1"
      and st: "tp_state p = TsRegistered"
      and evt: "tmpl_event_Create now (TPublishEvent (tc_did cmd) (tp_version p) (tc_by cmd)) s1 = Inr s'"
      by (auto simp: result_iffs)
    have s1: "s1 = update_template now (tc_did cmd) (\<lambda>t. t\<lparr>tp_state := TsPublished\<rparr>) s"
      using u by (auto simp: Template_UpdateState_Inr)
    show thesis
      by (rule published [OF p st]) (use evt u s1 in \<open>simp_all add: tmpl_event_Create_Inr\<close>)
  qed
qed

lemma issue_Inr:
  assumes "issueProvenanceCredential e now did by_user holder existing s = Inr s'"
  obtains (kept) "s' = s" "\<exists>c\<in>set (credentials s). pc_did c = did \<and> pc_version c = tp_version existing"
  | (issued) c where "pc_did c = did" "pc_version c = tp_version existing"
    "pc_previous c = ReadLatestProvenanceVCID did s"
    "\<not> list_ex (\<lambda>x. pc_did x = did \<and> pc_version x = tp_version existing) (credentials s)"
    "lookup_template did s \<noteq> None" "s' = s\<lparr>credentials := credentials s @ [c]\<rparr>"
proof (cases "list_ex (\<lambda>c. pc_version c = tp_version existing) (ReadProvenanceCredentials did s)")
  case True
  then show thesis
    using assms
    by (intro kept)
      (auto simp: issueProvenanceCredential_def list_ex_iff ReadProvenanceCredentials_def
        split: option.splits if_splits)
next
  case False
  obtain c :: credential where "pc_did c = did" "pc_version c = tp_version existing"
      "pc_previous c = ReadLatestProvenanceVCID did s" and ins: "InsertProvenanceCredential c s = Inr s'"
  proof -
    assume a: "\<And>c :: credential. pc_did c = did \<Longrightarrow> pc_version c = tp_version existing
      \<Longrightarrow> pc_previous c = ReadLatestProvenanceVCID did s \<Longrightarrow> InsertProvenanceCredential c s = Inr s' \<Longrightarrow> thesis"
    obtain signed vcID where "InsertProvenanceCredential \<lparr>pc_did = did, pc_version = tp_version existing,
        pc_vc_id = vcID, pc_previous = ReadLatestProvenanceVCID did s, pc_credential = signed\<rparr> s = Inr s'"
      using assms False
      by (auto simp: issueProvenanceCredential_def result_iffs split: option.splits if_splits)
    then show thesis by (rule a [rotated -1]) simp_all
  qed
  then show thesis
    by (intro issued [of c]) (auto simp: InsertProvenanceCredential_def result_iffs)
qed

lemma register_existing_Inr:
  assumes "register_existing e now cmd existing s = Inr (did, s')"
  obtains p c where "did = tc_did cmd" "lookup_template did s = Some p" "did \<noteq> ''''"
    "Template_UpdateState now did TsRegistered s
      = Inr (update_template now did (\<lambda>t. t\<lparr>tp_state := TsRegistered\<rparr>) s)"
    "c = [] \<and> (\<exists>x\<in>set (credentials s). pc_did x = did \<and> pc_version x = tp_version existing)
     \<or> (\<exists>x. c = [x] \<and> pc_did x = did \<and> pc_version x = tp_version existing
          \<and> pc_previous x = ReadLatestProvenanceVCID did s
          \<and> \<not> list_ex (\<lambda>x. pc_did x = did \<and> pc_version x = tp_version existing) (credentials s))"
    "s' = (update_template now did (\<lambda>t. t\<lparr>tp_state := TsRegistered\<rparr>) s)
      \<lparr>credentials := credentials s @ c,
       t_outbox := t_outbox s @ [(now, TRegisterEvent did (tc_by cmd) (tp_did existing)
         (tp_version existing) (Some (tp_state existing)) (Some TsRegistered))]\<rparr>"
proof -
  let ?s1 = "update_template now (tc_did cmd) (\<lambda>t. t\<lparr>tp_state := TsRegistered\<rparr>) s"
  obtain s1 s2 where u: "Template_UpdateState now (tc_did cmd) TsRegistered s = Inr s1"
    and i: "issueProvenanceCredential e now (tc_did cmd) (tc_by cmd) (tc_holder cmd) existing s1 = Inr s2"
    and evt: "tmpl_event_Create now (TRegisterEvent (tc_did cmd) (tc_by cmd) (tp_did existing)
        (tp_version existing) (Some (tp_state existing)) (Some TsRegistered)) s2 = Inr s'"
    and did: "did = tc_did cmd"
    using assms by (auto simp: register_existing_def result_iffs)
  obtain p where p: "lookup_template (tc_did cmd) s = Some p" and s1: "s1 = ?s1"
    using u by (auto simp: Template_UpdateState_Inr)
  have latest: "ReadLatestProvenanceVCID d ?s1 = ReadLatestProvenanceVCID d s" for d
    by (simp add: ReadLatestProvenanceVCID_def ReadProvenanceCredentials_def)
  from i show thesis
  proof (cases rule: issue_Inr)
    case kept
    then show thesis
      using evt u p did by (intro that [of p "[]"]) (simp_all add: tmpl_event_Create_Inr s1)
  next
    case (issued c)
    then show thesis
      using evt u p did by (intro that [of p "[c]"]) (simp_all add: tmpl_event_Create_Inr s1 latest)
  qed
qed

lemma Template_Register_Inr:
  assumes "Template_Register e now cmd seen s = Inr (did, s')"
  obtains (local) existing where "lookup_template (tc_did cmd) seen = Some existing"
      "register_existing e now cmd existing s = Inr (did, s')"
  | (import) "register_import e now cmd s = Inr (did, s')"
  using assms by (auto simp: Template_Register_def result_iffs split: option.splits)

lemma Template_Verify_Inr:
  assumes "Template_Verify e now cmd s = Inr (fs, s')"
  obtains (refused) "s' = s"
  | (verified) p where "lookup_template (tc_did cmd) s = Some p" "tc_did cmd \<noteq> ''''"
    "s' = s\<lparr>tr_tasks := (if TReview_TaskExistsInState (tc_did cmd) (tc_by cmd) TrOpen s
          then set_task_state (tc_did cmd) (tc_by cmd) TrVerified (tr_tasks s) else tr_tasks s),
        t_outbox := t_outbox s @ [(now, TVerifyEvent (tc_did cmd) (tp_version p) (tc_by cmd))]\<rparr>"
proof -
  obtain p fs' where p: "lookup_template (tc_did cmd) s = Some p"
    and rest: "(if fs' \<noteq> [] then Inr (fs', s)
      else bind_res (if TReview_TaskExistsInState (tc_did cmd) (tc_by cmd) TrOpen s
             then TReview_UpdateState (tc_did cmd) (tc_by cmd) TrVerified s else Inr s) (\<lambda>s1.
        bind_res (tmpl_event_Create now (TVerifyEvent (tc_did cmd) (tp_version p) (tc_by cmd)) s1) (\<lambda>s2.
          Inr ([], s2)))) = Inr (fs, s')"
    using assms by (auto simp: Template_Verify_def result_iffs Template_ReadData_Inr)
  show thesis
  proof (cases "fs' = []")
    case True
    with rest p show thesis
      by (intro verified) (auto simp: result_iffs tmpl_event_Create_Inr task_ops_Inr split: if_splits)
  next
    case False
    with rest show thesis by (intro refused) auto
  qed
qed

section \<open>Refinement\<close>

lemma abs_insert:
  assumes "lookup_template (tp_did t) s = None"
  shows "abs_templates (s\<lparr>templates := templates s @ [t]\<rparr>)
    = (abs_templates s)(tp_did t \<mapsto> (tp_state t, tp_version t, tp_base t))"
  using assms by (auto simp: abs_templates_def lookup_template_def find_append fun_eq_iff split: option.splits)

lemma abs_set_state:
  assumes "lookup_template did s = Some p"
  shows "abs_templates (update_template now did (\<lambda>t. t\<lparr>tp_state := st\<rparr>) s)
    = (abs_templates s)(did \<mapsto> (st, tp_version p, tp_base p))"
  using assms by (auto simp: abs_update fun_eq_iff)

lemma abs_edit:
  assumes "edits_row f"
  shows "abs_templates (update_template now did f s) = abs_templates s"
proof
  fix d
  have "map_option (\<lambda>t. (tp_state (f t), tp_version t, tp_base t)) (lookup_template did s) = abs_templates s did"
    using assms by (simp add: abs_templates_def edits_row_def)
  then show "abs_templates (update_template now did f s) d = abs_templates s d"
    by (simp add: abs_update [OF edits_keeps [OF assms]])
qed

lemma abs_tasks [simp]:
  "abs_templates (reopen_both did s) = abs_templates s"
  "abs_templates (submit_tasks now cmd p s) = abs_templates s"
  "abs_templates (Template_HistoryEntry did s) = abs_templates s"
  by (simp_all add: reopen_both_eq submit_tasks_def Template_HistoryEntry_def)

lemma lookup_tasks [simp]:
  "lookup_template d (reopen_both did s) = lookup_template d s"
  "lookup_template d (submit_tasks now cmd p s) = lookup_template d s"
  "lookup_template d (Template_HistoryEntry did s) = lookup_template d s"
  by (simp_all add: reopen_both_eq submit_tasks_def Template_HistoryEntry_def)

lemma active_iff: "is_active (tp_state t) \<longleftrightarrow> active_version t"
  by (auto simp: is_active_def active_version_def)

lemma update_state_free:
  assumes "Template_UpdateState now did st s = Inr s'" "lookup_template did s = Some p" "is_active st"
  shows "version_free did (tp_version p) (tp_base p) (abs_templates s)"
  using assms
  by (auto simp: Template_UpdateState_Inr version_free_def abs_templates_def occupies_def list_ex_iff
      active_iff dest: lookup_in)

lemma lifecycle_moveI:
  assumes "lookup_template did s = Some p" "(tp_state p, st) \<in> set template_moves"
    and "is_active st \<Longrightarrow> version_free did (tp_version p) (tp_base p) (abs_templates s)"
  shows "lifecycle_step (abs_templates s)
    ((abs_templates s)(did \<mapsto> (st, tp_version p, tp_base p)))"
  using assms by (intro lifecycle_step.move [where st = "tp_state p"]) (auto simp: abs_templates_def)

lemma submit_moves: "submit_guard cmd p s \<Longrightarrow> (tp_state p, submit_next cmd p) \<in> set template_moves
    \<and> \<not> is_active (submit_next cmd p)"
  by (cases "tp_state p") (auto simp: submit_guard_def submit_next_def template_moves_def is_active_def)

lemma archive_moves:
  assumes "tp_state p \<noteq> TsDeprecated" "tp_state p \<noteq> TsDeleted"
  shows "(tp_state p, archived_state p) \<in> set template_moves \<and> \<not> is_active (archived_state p)"
  using assms
  by (cases "tp_state p") (auto simp: archived_state_def active_version_def template_moves_def is_active_def)

lemma register_moves: "(st, TsRegistered) \<in> set template_moves"
  by (cases st) (simp_all add: template_moves_def template_state_valid_def)

lemma lifecycle_draft:
  assumes "lookup_template did s = None" "did \<noteq> ''''" "tp_did t = did" "tp_state t = TsDraft"
    and "tp_base t = Some b \<or> (\<exists>source x. lookup_template source s = Some x \<and> tp_base t = tp_base x)"
  shows "lifecycle_step (abs_templates s) (abs_templates (s\<lparr>templates := templates s @ [t]\<rparr>))"
proof -
  have abs: "abs_templates (s\<lparr>templates := templates s @ [t]\<rparr>)
      = (abs_templates s)(did \<mapsto> (TsDraft, tp_version t, tp_base t))"
    using assms(1,3,4) abs_insert [of t s] by simp
  have fresh: "abs_templates s did = None" using assms(1) by (simp add: abs_templates_def)
  from assms(5) show ?thesis
  proof
    assume "tp_base t = Some b"
    then show ?thesis unfolding abs using fresh assms(2) by (auto intro: open_draft)
  next
    assume "\<exists>source x. lookup_template source s = Some x \<and> tp_base t = tp_base x"
    then obtain source x where "lookup_template source s = Some x" "tp_base t = tp_base x" by blast
    then show ?thesis
      unfolding abs using fresh assms(2)
      by (intro copy_draft [where source = source and st = "tp_state x" and w = "tp_version x"])
        (simp_all add: abs_templates_def)
  qed
qed

lemma lifecycle_own_draft:
  assumes "lookup_template (tp_did t) s = None" "tp_did t \<noteq> ''''" "tp_state t = TsDraft" "tp_base t = Some b"
  shows "lifecycle_step (abs_templates s) (abs_templates (s\<lparr>templates := templates s @ [t]\<rparr>))"
  using assms by (intro lifecycle_draft) auto

lemma Copy_lifecycle:
  assumes "Template_Copy e now cmd s = Inr s'"
  shows "lifecycle_step (abs_templates s) (abs_templates s')"
  using assms
proof (cases rule: Template_Copy_Inr)
  case (1 source t f)
  then have "abs_templates s' = abs_templates (s\<lparr>templates := templates s @ [t]\<rparr>)"
    by (simp add: abs_edit)
  moreover have "tp_base t = Some (tk_new_did cmd)
      \<or> (\<exists>source x. lookup_template source s = Some x \<and> tp_base t = tp_base x)"
    using 1 by (auto simp: copy_base_def)
  ultimately show ?thesis using lifecycle_draft [OF 1(3-6)] by simp
qed

lemma Submit_lifecycle:
  assumes "Template_Submit now cmd s = Inr s'"
  shows "lifecycle_step (abs_templates s) (abs_templates s')"
  using assms
proof (cases rule: Template_Submit_Inr)
  case (moved p)
  then show ?thesis
    using submit_moves [of cmd p s] lifecycle_moveI [of "tc_did cmd" s p "submit_next cmd p"]
    by (simp add: abs_set_state)
qed (simp add: stay)

lemma Register_lifecycle:
  assumes "Template_Register e now cmd seen s = Inr (did, s')"
  shows "lifecycle_step (abs_templates s) (abs_templates s')"
  using assms
proof (cases rule: Template_Register_Inr)
  case (local existing)
  from this(2) show ?thesis
  proof (cases rule: register_existing_Inr)
    case (1 p c)
    have free: "version_free did (tp_version p) (tp_base p) (abs_templates s)"
      by (rule update_state_free [OF 1(4,2)]) (simp add: is_active_def)
    show ?thesis
      using lifecycle_moveI [OF 1(2) register_moves free] 1 by (simp add: abs_set_state)
  qed
next
  case import
  then show ?thesis
    by (rule register_import_Inr) (simp add: lifecycle_own_draft)
qed

lemma Publish_lifecycle:
  assumes "Template_Publish e now cmd seen s = Inr s'"
  shows "lifecycle_step (abs_templates s) (abs_templates s')"
  using assms
proof (cases rule: Template_Publish_Inr)
  case (published p)
  then show ?thesis
    by (simp add: abs_set_state)
      (rule lifecycle_moveI, simp_all add: template_moves_def update_state_free [OF published(4,1)])
qed (simp add: stay)

lemma decision_lifecycle:
  assumes "lookup_template did s = Some p" "(tp_state p, st) \<in> set template_moves" "\<not> is_active st"
    and "abs_templates s1 = abs_templates s" "lookup_template did s1 = Some p"
  shows "lifecycle_step (abs_templates s)
    (abs_templates (update_template now did (\<lambda>t. t\<lparr>tp_state := st\<rparr>) s1))"
  using lifecycle_moveI [OF assms(1,2)] assms(3-5) by (simp add: abs_set_state)

lemma Approve_lifecycle:
  assumes "Template_Approve now cmd s = Inr s'"
  shows "lifecycle_step (abs_templates s) (abs_templates s')"
  using assms
  by (rule Template_Approve_Inr)
    (simp, rule decision_lifecycle, simp_all add: template_moves_def is_active_def)

lemma Reject_lifecycle:
  assumes "Template_Reject now cmd s = Inr s'"
  shows "lifecycle_step (abs_templates s) (abs_templates s')"
  using assms
  by (rule Template_Reject_Inr)
    (simp, rule decision_lifecycle, simp_all add: template_moves_def is_active_def)

lemma Archive_lifecycle:
  assumes "Template_Archive now cmd s = Inr s'"
  shows "lifecycle_step (abs_templates s) (abs_templates s')"
  using assms
  by (rule Template_Archive_Inr) (simp, rule decision_lifecycle, simp_all add: archive_moves)

lemma edits_lifecycle:
  "Template_Edit e now cmd s = Inr s' \<Longrightarrow> abs_templates s' = abs_templates s"
  "Template_EditManage e now cmd s = Inr s' \<Longrightarrow> abs_templates s' = abs_templates s"
  "Template_Verify e now cmd' s = Inr (fs, s') \<Longrightarrow> abs_templates s' = abs_templates s"
  "abs_templates (Template_UpdatePDFState now did p s) = abs_templates s"
  by (erule Template_Edit_Inr Template_EditManage_Inr Template_Verify_Inr; simp add: abs_edit)+
    (simp add: Template_UpdatePDFState_def abs_edit)

lemma run_template_lifecycle:
  assumes "run_template e now cmd s = Inr s'"
  shows "lifecycle_step (abs_templates s) (abs_templates s')"
proof (cases cmd)
  case (CmdTCreate c)
  with assms have "Template_Create e now c s = Inr s'" by simp
  then show ?thesis by (rule Template_Create_Inr) (simp add: lifecycle_own_draft)
qed (use assms in \<open>auto simp: drop_result_def result_iffs edits_lifecycle stay
    intro: Copy_lifecycle Submit_lifecycle Register_lifecycle Publish_lifecycle Approve_lifecycle
      Reject_lifecycle Archive_lifecycle\<close>)

text \<open>
  C15: the template repository refines its lifecycle.  Whatever handler of
  the repository runs, and whatever its collaborators answer, the states, versions
  and lineages of all templates change by one step of the abstract lifecycle: nothing
  changes, or a draft appears under a new key, or one template moves along an edge of
  \<open>template_moves\<close>, and it becomes registered or published only while no other
  template of its lineage and version is.
\<close>

theorem template_commands_refine_lifecycle:
  "run_template e now cmd s = Inr s' \<Longrightarrow> lifecycle_step (abs_templates s) (abs_templates s')"
  by (rule run_template_lifecycle)

end
