(* ===== verification/Template_Invariants.thy ===== *)
theory Template_Invariants
  imports Template_Lifecycle
begin

text \<open>
  The histories of the template repository and what holds in all of them: at most one
  active template per lineage and version, the typing of the tables, who owns the
  tasks of a template and how its credentials are linked.  A step of a history may use
  another environment, clock and command than the one before; the store a registration
  or publication has seen is an earlier store of the same history.
\<close>

section \<open>Histories\<close>

fun seen_by :: "template_command \<Rightarrow> tstore option" where
  "seen_by (CmdTRegister cmd seen) = Some seen"
| "seen_by (CmdTPublish cmd seen) = Some seen"
| "seen_by _ = None"

inductive template_run :: "tstore \<Rightarrow> tstore \<Rightarrow> bool" where
  begins: "template_run s s"
| continues: "template_run s0 s \<Longrightarrow> (\<And>seen. seen_by cmd = Some seen \<Longrightarrow> template_run seen s)
    \<Longrightarrow> run_template e now cmd s = Inr s' \<Longrightarrow> template_run s0 s'"

definition template_reachable :: "tstore \<Rightarrow> bool" where
  "template_reachable s = template_run empty_tstore s"

lemma template_reachable_step:
  assumes "template_reachable s" "\<And>seen. seen_by cmd = Some seen \<Longrightarrow> template_run seen s"
    and "run_template e now cmd s = Inr s'"
  shows "template_reachable s'"
  using continues [OF _ assms(2,3)] assms(1) by (simp add: template_reachable_def)

lemma template_reachable_induct [consumes 1, case_names empty step]:
  assumes "template_reachable s" "P empty_tstore"
    and "\<And>s cmd e now s'. template_reachable s \<Longrightarrow> P s
      \<Longrightarrow> (\<And>seen. seen_by cmd = Some seen \<Longrightarrow> template_run seen s)
      \<Longrightarrow> run_template e now cmd s = Inr s' \<Longrightarrow> P s'"
  shows "P s"
proof -
  have "template_run s0 s \<Longrightarrow> s0 = empty_tstore \<Longrightarrow> P s" for s0
  proof (induction rule: template_run.induct)
    case (continues s0 s cmd e now s')
    have "template_reachable s" using continues.hyps(1) continues.prems by (simp add: template_reachable_def)
    moreover have "P s" by (rule continues.IH(1) [OF continues.prems])
    ultimately show ?case by (rule assms(3)) (rule continues.hyps(2), assumption, rule continues.hyps)
  qed (simp add: assms(2))
  with assms(1) show ?thesis by (simp add: template_reachable_def)
qed

section \<open>Invariants of the lifecycle\<close>

lemma lifecycle_keeps_version:
  assumes "lifecycle_step a a'" "a did = Some (st, v, b)"
  shows "\<exists>st'. a' did = Some (st', v, b)"
  using assms by cases auto

lemma no_move_to_draft: "(st, TsDraft) \<notin> set template_moves"
  by (auto simp: template_moves_def)

lemma lifecycle_draft_before:
  assumes "lifecycle_step a a'" "a' did = Some (TsDraft, v, b)"
  shows "a did = Some (TsDraft, v, b) \<or> a did = None"
  using assms no_move_to_draft by cases (auto split: if_splits)

definition versions_unique :: "lifecycle \<Rightarrow> bool" where
  "versions_unique a \<longleftrightarrow>
    (\<forall>did did' st st' v b. a did = Some (st, v, Some b) \<longrightarrow> a did' = Some (st', v, Some b)
       \<longrightarrow> is_active st \<longrightarrow> is_active st' \<longrightarrow> did = did')"

lemma lifecycle_versions_unique:
  assumes "lifecycle_step a a'" "versions_unique a"
  shows "versions_unique a'"
  using assms(1)
proof cases
  case (move did st v b st')
  show ?thesis
  proof (cases "is_active st'")
    case True
    with move(4) have free: "version_free did v b a" by simp
    show ?thesis
      unfolding versions_unique_def move(1)
    proof (intro allI impI)
      fix d d' x x' w c
      assume d: "(a(did \<mapsto> (st', v, b))) d = Some (x, w, Some c)"
        and d': "(a(did \<mapsto> (st', v, b))) d' = Some (x', w, Some c)" and act: "is_active x" "is_active x'"
      have other: "False" if "e \<noteq> did" "a e = Some (y, v, b)" "b = Some c" "is_active y" for e y
        using free that unfolding version_free_def by blast
      show "d = d'"
        using d d' act other assms(2) by (auto simp: versions_unique_def split: if_splits)
    qed
  next
    case False
    with assms(2) show ?thesis
      unfolding versions_unique_def move(1) by (auto split: if_splits)
  qed
qed (use assms(2) in \<open>auto simp: versions_unique_def is_active_def split: if_splits\<close>)

lemma run_keeps_version:
  assumes "template_run s0 s" "lookup_template did s0 = Some t"
  shows "\<exists>t'. lookup_template did s = Some t' \<and> tp_version t' = tp_version t \<and> tp_base t' = tp_base t"
  using assms
proof (induction rule: template_run.induct)
  case (continues s0 s cmd e now s')
  then obtain u where "lookup_template did s = Some u" "tp_version u = tp_version t" "tp_base u = tp_base t"
    by auto
  then have "abs_templates s did = Some (tp_state u, tp_version t, tp_base t)"
    by (simp add: abs_templates_def)
  from lifecycle_keeps_version [OF run_template_lifecycle [OF continues.hyps(3)] this]
  show ?case by (auto simp: abs_templates_def)
qed simp

lemma reachable_versions_unique:
  assumes "template_reachable s"
  shows "versions_unique (abs_templates s)"
  using assms
proof (induction rule: template_reachable_induct)
  case empty
  then show ?case by (simp add: versions_unique_def abs_templates_def lookup_template_def empty_tstore_def)
next
  case (step s cmd e now s')
  then show ?case by (blast intro: lifecycle_versions_unique run_template_lifecycle)
qed

section \<open>The keys of the rows\<close>

text \<open>
  What a handler does to the identities in the table: nothing, or it appends one key,
  a fresh lineage at version 1 or the next version of the lineage of an active row.
\<close>

definition row_key :: "tmpl \<Rightarrow> string \<times> int \<times> string option" where
  "row_key t = (tp_did t, tp_version t, tp_base t)"

definition new_key_ok :: "tstore \<Rightarrow> string \<times> int \<times> string option \<Rightarrow> bool" where
  "new_key_ok s k \<longleftrightarrow> (case k of (did, v, b) \<Rightarrow>
     lookup_template did s = None \<and> did \<noteq> '''' \<and>
     ((v = 1 \<and> b = Some did) \<or>
      (\<exists>src x. lookup_template src s = Some x \<and> active_version x \<and> v = tp_version x + 1 \<and> b = tp_base x)))"

lemma keys_update:
  assumes "keeps_row f"
  shows "map row_key (templates (update_template now did f s)) = map row_key (templates s)"
  by (simp add: update_template_def row_key_def keeps_row_simps [OF assms])

lemma keys_tasks [simp]:
  "templates (reopen_both did s) = templates s"
  "templates (submit_tasks now cmd p s) = templates s"
  "templates (Template_HistoryEntry did s) = templates s"
  by (simp_all add: reopen_both_eq submit_tasks_def Template_HistoryEntry_def)

definition keys_grow :: "tstore \<Rightarrow> tstore \<Rightarrow> bool" where
  "keys_grow s s' \<longleftrightarrow> map row_key (templates s') = map row_key (templates s)
    \<or> (\<exists>k. new_key_ok s k \<and> map row_key (templates s') = map row_key (templates s) @ [k])"

lemma keys_same: "map row_key (templates s') = map row_key (templates s) \<Longrightarrow> keys_grow s s'"
  by (simp add: keys_grow_def)

lemma keys_new:
  "new_key_ok s (row_key t) \<Longrightarrow> map row_key (templates s') = map row_key (templates s @ [t])
    \<Longrightarrow> keys_grow s s'"
  unfolding keys_grow_def by (intro disjI2 exI [of _ "row_key t"]) simp

lemma Copy_keys: "Template_Copy e now cmd s = Inr s' \<Longrightarrow> keys_grow s s'"
proof (erule Template_Copy_Inr)
  fix source t f
  assume c: "lookup_template (tc_did cmd) s = Some source"
    "lookup_template (tk_new_did cmd) s = None" "tk_new_did cmd \<noteq> ''''" "tp_did t = tk_new_did cmd"
    "tp_version t = copy_version source" "tp_base t = copy_base (tk_new_did cmd) source" "edits_row f"
    and s': "s' = update_template now (tk_new_did cmd) f (s\<lparr>templates := templates s @ [t]\<rparr>)
        \<lparr>t_outbox := t_outbox s @ [(now, TCopyEvent (tk_new_did cmd) (tc_did cmd) (tc_by cmd)
            (copy_version source))]\<rparr>"
  have "new_key_ok s (row_key t)"
    using c by (auto simp: new_key_ok_def row_key_def copy_version_def copy_base_def)
  moreover have "map row_key (templates s') = map row_key (templates s @ [t])"
    using keys_update [OF edits_keeps [OF c(7)], of now "tk_new_did cmd" "s\<lparr>templates := templates s @ [t]\<rparr>"]
    by (simp add: s')
  ultimately show "keys_grow s s'" by (rule keys_new)
qed

lemma Register_keys: "Template_Register e now cmd seen s = Inr (did, s') \<Longrightarrow> keys_grow s s'"
proof (erule Template_Register_Inr)
  fix existing
  assume "register_existing e now cmd existing s = Inr (did, s')"
  then show "keys_grow s s'"
    by (rule register_existing_Inr) (simp add: keys_same keys_update)
next
  assume "register_import e now cmd s = Inr (did, s')"
  then show "keys_grow s s'"
    by (rule register_import_Inr) (rule keys_new, auto simp: new_key_ok_def row_key_def)
qed

lemma run_template_keys:
  assumes "run_template e now cmd s = Inr s'"
  shows "keys_grow s s'"
proof (cases cmd)
  case (CmdTCreate c)
  with assms have "Template_Create e now c s = Inr s'" by simp
  then show ?thesis
    by (rule Template_Create_Inr) (rule keys_new, auto simp: new_key_ok_def row_key_def)
next
  case (CmdTSubmit c)
  with assms have "Template_Submit now c s = Inr s'" by simp
  then show ?thesis by (rule Template_Submit_Inr) (simp_all add: keys_same keys_update)
next
  case (CmdTApprove c)
  with assms have "Template_Approve now c s = Inr s'" by simp
  then show ?thesis by (rule Template_Approve_Inr) (simp add: keys_same keys_update)
next
  case (CmdTReject c)
  with assms have "Template_Reject now c s = Inr s'" by simp
  then show ?thesis by (rule Template_Reject_Inr) (simp add: keys_same keys_update)
next
  case (CmdTEdit c)
  with assms have "Template_Edit e now c s = Inr s'" by simp
  then show ?thesis by (rule Template_Edit_Inr) (simp add: keys_same keys_update)
next
  case (CmdTEditManage c)
  with assms have "Template_EditManage e now c s = Inr s'" by simp
  then show ?thesis by (rule Template_EditManage_Inr) (simp add: keys_same keys_update)
next
  case (CmdTArchive c)
  with assms have "Template_Archive now c s = Inr s'" by simp
  then show ?thesis by (rule Template_Archive_Inr) (simp add: keys_same keys_update)
next
  case (CmdTPublish c seen)
  with assms have "Template_Publish e now c seen s = Inr s'" by simp
  then show ?thesis by (rule Template_Publish_Inr) (simp_all add: keys_same keys_update)
next
  case (CmdTVerify c)
  with assms obtain fs where "Template_Verify e now c s = Inr (fs, s')"
    by (auto simp: drop_result_def result_iffs)
  then show ?thesis by (rule Template_Verify_Inr) (simp_all add: keys_same)
next
  case (CmdTPDF did p)
  with assms show ?thesis by (auto simp: Template_UpdatePDFState_def keys_same keys_update)
qed (use assms in \<open>auto simp: drop_result_def result_iffs intro: Copy_keys Register_keys\<close>)

text \<open>Every version-1 row is the root of a lineage, every later row belongs to the lineage of a row.\<close>

definition row_typed :: "(string \<times> int \<times> string option) set \<Rightarrow> string \<times> int \<times> string option \<Rightarrow> bool" where
  "row_typed K k \<longleftrightarrow> (case k of (did, v, b) \<Rightarrow> did \<noteq> '''' \<and> 1 \<le> v \<and> (v = 1 \<longleftrightarrow> b = Some did)
     \<and> (\<exists>root. b = Some root \<and> (root, 1, b) \<in> K))"

definition rows_typed :: "(string \<times> int \<times> string option) list \<Rightarrow> bool" where
  "rows_typed ks \<longleftrightarrow> distinct (map fst ks) \<and> (\<forall>k\<in>set ks. row_typed (set ks) k)"

lemma row_typed_mono: "row_typed K k \<Longrightarrow> K \<subseteq> L \<Longrightarrow> row_typed L k"
  unfolding row_typed_def by (cases k) blast

lemma rows_typed_snoc:
  assumes "rows_typed ks" "fst k \<notin> fst ` set ks" "row_typed (insert k (set ks)) k"
  shows "rows_typed (ks @ [k])"
proof -
  have "row_typed (set (ks @ [k])) x" if "x \<in> set ks" for x
    by (rule row_typed_mono [of "set ks"]) (use assms(1) that in \<open>auto simp: rows_typed_def\<close>)
  with assms show ?thesis by (auto simp: rows_typed_def)
qed

lemma lookup_None_keys: "lookup_template did s = None \<longleftrightarrow> did \<notin> fst ` set (map row_key (templates s))"
  by (force simp: lookup_template_def find_None_iff row_key_def)

lemma lookup_Some_keys:
  "lookup_template did s = Some t \<Longrightarrow> (did, tp_version t, tp_base t) \<in> set (map row_key (templates s))"
  by (auto simp: row_key_def dest: lookup_in intro!: rev_image_eqI)

lemma reachable_rows_typed:
  assumes "template_reachable s"
  shows "rows_typed (map row_key (templates s))"
  using assms
proof (induction rule: template_reachable_induct)
  case empty
  then show ?case by (simp add: rows_typed_def empty_tstore_def)
next
  case (step s cmd e now s')
  from run_template_keys [OF step.hyps(3)] show ?case
    unfolding keys_grow_def
  proof (elim disjE exE conjE)
    fix k
    assume k: "new_key_ok s k" "map row_key (templates s') = map row_key (templates s) @ [k]"
    obtain did v b where kk: "k = (did, v, b)" by (cases k)
    have fresh: "did \<notin> fst ` set (map row_key (templates s))" and ne: "did \<noteq> ''''"
      using k(1) by (simp_all add: new_key_ok_def kk lookup_None_keys)
    from k(1) consider "v = 1" "b = Some did"
      | src x where "lookup_template src s = Some x" "v = tp_version x + 1" "b = tp_base x"
      by (auto simp: new_key_ok_def kk)
    then have "row_typed (insert k (set (map row_key (templates s)))) k"
    proof cases
      case 1
      with ne show ?thesis by (simp add: kk row_typed_def)
    next
      case 2
      have "(src, tp_version x, tp_base x) \<in> set (map row_key (templates s))"
        by (rule lookup_Some_keys [OF 2(1)])
      then have "row_typed (set (map row_key (templates s))) (src, tp_version x, tp_base x)"
        using step.IH unfolding rows_typed_def by blast
      then obtain root where x: "1 \<le> tp_version x" "tp_base x = Some root"
          "(root, 1, tp_base x) \<in> set (map row_key (templates s))"
        unfolding row_typed_def prod.case by blast
      have "root \<in> fst ` set (map row_key (templates s))" using x(3) by (metis fst_conv image_eqI)
      with fresh have "root \<noteq> did" by blast
      with 2 x ne show ?thesis by (simp add: kk row_typed_def)
    qed
    with step.IH fresh show ?case unfolding k(2) by (intro rows_typed_snoc) (simp_all add: kk)
  qed (use step.IH in simp)
qed

end
