(* ===== verification/Template_Trail.thy ===== *)
theory Template_Trail
  imports Template_Invariants
begin

text \<open>
  The events of the template repository as an account of what happened: every
  transaction that changes a template's state files exactly one event, the event says
  which state the template was in, and replaying the events gives the states of all
  templates.  On this rest the facts about who owns the tasks of a template and about
  its provenance credentials.
\<close>

section \<open>Replaying the events\<close>

type_synonym template_states = "string \<Rightarrow> template_state option"

definition states_of :: "tstore \<Rightarrow> template_states" where
  "states_of s did = map_option tp_state (lookup_template did s)"

fun replay_event :: "tmpl_event \<Rightarrow> template_states \<Rightarrow> template_states" where
  "replay_event (TCreateEvent did _) m = m(did \<mapsto> TsDraft)"
| "replay_event (TCopyEvent newDID _ _ _) m = m(newDID \<mapsto> TsDraft)"
| "replay_event (TSubmitEvent did _ _ _ st _) m = m(did \<mapsto> st)"
| "replay_event (TApproveEvent did _ _) m = m(did \<mapsto> TsApproved)"
| "replay_event (TRejectEvent did _ _ _) m = m(did \<mapsto> TsRejected)"
| "replay_event (TArchiveEvent did _ _) m =
     m(did \<mapsto> (if m did = Some TsRegistered \<or> m did = Some TsPublished then TsDeprecated else TsDeleted))"
| "replay_event (TRegisterEvent did _ _ _ _ st) m = m(did \<mapsto> (case st of None \<Rightarrow> TsDraft | Some x \<Rightarrow> x))"
| "replay_event (TPublishEvent did _ _) m = m(did \<mapsto> TsPublished)"
| "replay_event (TVerifyEvent _ _ _) m = m"
| "replay_event (TUpdateEvent _ _ _ _) m = m"
| "replay_event (TUpdateManageEvent _ _ _ _) m = m"

definition replay :: "tmpl_event list \<Rightarrow> template_states" where
  "replay evts = fold replay_event evts Map.empty"

text \<open>What an event tells about the states before it.\<close>

fun event_fits :: "template_states \<Rightarrow> tmpl_event \<Rightarrow> bool" where
  "event_fits m (TCreateEvent did _) = (m did = None)"
| "event_fits m (TCopyEvent newDID did _ _) = (m did \<noteq> None \<and> m newDID = None)"
| "event_fits m (TSubmitEvent did _ _ prev st _) =
     (m did = Some prev \<and> (prev, st) \<in> set [(TsDraft, TsSubmitted), (TsRejected, TsSubmitted),
        (TsReviewed, TsSubmitted), (TsSubmitted, TsReviewed), (TsSubmitted, TsRejected)])"
| "event_fits m (TApproveEvent did _ _) = (m did = Some TsReviewed)"
| "event_fits m (TRejectEvent did _ _ _) = (m did = Some TsReviewed)"
| "event_fits m (TArchiveEvent did _ _) = (m did \<noteq> None)"
| "event_fits m (TRegisterEvent did _ _ _ prev st) =
     (case st of None \<Rightarrow> m did = None | Some x \<Rightarrow> m did \<noteq> None \<and> x = TsRegistered)"
| "event_fits m (TPublishEvent did _ _) = (m did = Some TsRegistered)"
| "event_fits m (TVerifyEvent did _ _) = (m did \<noteq> None)"
| "event_fits m (TUpdateEvent did _ _ _) = (m did \<noteq> None)"
| "event_fits m (TUpdateManageEvent did _ _ _) = (m did \<noteq> None)"

lemma states_abs: "states_of s did = map_option fst (abs_templates s did)"
  by (simp add: states_of_def abs_templates_def option.map_comp comp_def)

lemma states_cong: "abs_templates s' = abs_templates s \<Longrightarrow> states_of s' = states_of s"
  by (simp add: states_abs fun_eq_iff)

lemma states_upd: "abs_templates s' = (abs_templates s)(did \<mapsto> (st, v, b)) \<Longrightarrow> states_of s' = (states_of s)(did \<mapsto> st)"
  by (simp add: states_abs fun_eq_iff)

lemma states_lookup [simp]:
  "lookup_template did s = Some p \<Longrightarrow> states_of s did = Some (tp_state p)"
  "lookup_template did s = None \<Longrightarrow> states_of s did = None"
  by (simp_all add: states_of_def)

definition filed :: "int \<Rightarrow> tstore \<Rightarrow> tstore \<Rightarrow> bool" where
  "filed now s s' \<longleftrightarrow>
    (t_outbox s' = t_outbox s \<and> states_of s' = states_of s)
    \<or> (\<exists>evt. t_outbox s' = t_outbox s @ [(now, evt)] \<and> event_fits (states_of s) evt
         \<and> states_of s' = replay_event evt (states_of s))"

lemma filedI:
  assumes "t_outbox s' = t_outbox s @ [(now, evt)]" "event_fits (states_of s) evt"
    and "states_of s' = replay_event evt (states_of s)"
  shows "filed now s s'"
  using assms by (auto simp: filed_def)

lemma states_set_state:
  "lookup_template did s = Some p \<Longrightarrow>
    states_of (update_template now did (\<lambda>t. t\<lparr>tp_state := st\<rparr>) s) = (states_of s)(did \<mapsto> st)"
  by (rule states_upd) (rule abs_set_state)

lemma states_insert:
  "lookup_template (tp_did t) s = None \<Longrightarrow>
    states_of (s\<lparr>templates := templates s @ [t]\<rparr>) = (states_of s)(tp_did t \<mapsto> tp_state t)"
  by (rule states_upd) (rule abs_insert)

lemma states_edit: "edits_row f \<Longrightarrow> states_of (update_template now did f s) = states_of s"
  by (rule states_cong) (rule abs_edit)

lemma states_frame [simp]:
  "states_of (s\<lparr>tr_tasks := x\<rparr>) = states_of s"
  "states_of (s\<lparr>ta_tasks := y\<rparr>) = states_of s"
  "states_of (s\<lparr>t_outbox := z\<rparr>) = states_of s"
  "states_of (s\<lparr>credentials := c\<rparr>) = states_of s"
  "states_of (reopen_both did s) = states_of s"
  "states_of (submit_tasks now cmd p s) = states_of s"
  "states_of (Template_HistoryEntry did s) = states_of s"
  by (simp_all add: states_of_def [abs_def])

lemma outbox_tasks [simp]:
  "t_outbox (reopen_both did s) = t_outbox s"
  "t_outbox (submit_tasks now cmd p s) = t_outbox s"
  "t_outbox (Template_HistoryEntry did s) = t_outbox s"
  by (simp_all add: reopen_both_eq submit_tasks_def Template_HistoryEntry_def)

lemma submit_fits: "submit_guard cmd p s \<Longrightarrow> (tp_state p, submit_next cmd p) \<in>
    set [(TsDraft, TsSubmitted), (TsRejected, TsSubmitted),
        (TsReviewed, TsSubmitted), (TsSubmitted, TsReviewed), (TsSubmitted, TsRejected)]"
  by (cases "tp_state p") (auto simp: submit_guard_def submit_next_def)

lemma Copy_filed: "Template_Copy e now cmd s = Inr s' \<Longrightarrow> filed now s s'"
  by (erule Template_Copy_Inr, rule filedI) (auto simp: states_edit states_insert)

lemma Register_filed: "Template_Register e now cmd seen s = Inr (did, s') \<Longrightarrow> filed now s s'"
proof (erule Template_Register_Inr)
  fix existing
  assume "register_existing e now cmd existing s = Inr (did, s')"
  then show "filed now s s'"
    by (rule register_existing_Inr) (rule filedI, auto simp: states_set_state)
next
  assume "register_import e now cmd s = Inr (did, s')"
  then show "filed now s s'"
    by (rule register_import_Inr) (rule filedI, auto simp: states_insert)
qed

lemma run_template_filed:
  assumes "run_template e now cmd s = Inr s'"
  shows "filed now s s'"
proof (cases cmd)
  case (CmdTCreate c)
  with assms have "Template_Create e now c s = Inr s'" by simp
  then show ?thesis by (rule Template_Create_Inr) (rule filedI, auto simp: states_insert)
next
  case (CmdTSubmit c)
  with assms have "Template_Submit now c s = Inr s'" by simp
  then show ?thesis
  proof (cases rule: Template_Submit_Inr)
    case (waiting p)
    then show ?thesis by (simp add: filed_def)
  next
    case (moved p)
    then show ?thesis using submit_fits [of c p s] by (intro filedI) (auto simp: states_set_state)
  qed
next
  case (CmdTApprove c)
  with assms have "Template_Approve now c s = Inr s'" by simp
  then show ?thesis by (rule Template_Approve_Inr) (rule filedI, auto simp: states_set_state)
next
  case (CmdTReject c)
  with assms have "Template_Reject now c s = Inr s'" by simp
  then show ?thesis by (rule Template_Reject_Inr) (rule filedI, auto simp: states_set_state)
next
  case (CmdTEdit c)
  with assms have "Template_Edit e now c s = Inr s'" by simp
  then show ?thesis by (rule Template_Edit_Inr) (rule filedI, auto simp: states_edit)
next
  case (CmdTEditManage c)
  with assms have "Template_EditManage e now c s = Inr s'" by simp
  then show ?thesis by (rule Template_EditManage_Inr) (rule filedI, auto simp: states_edit)
next
  case (CmdTArchive c)
  with assms have "Template_Archive now c s = Inr s'" by simp
  then show ?thesis
    by (rule Template_Archive_Inr)
      (rule filedI, auto simp: states_set_state archived_state_def active_version_def)
next
  case (CmdTPublish c seen)
  with assms have "Template_Publish e now c seen s = Inr s'" by simp
  then show ?thesis
    by (rule Template_Publish_Inr) (simp add: filed_def, rule filedI, auto simp: states_set_state)
next
  case (CmdTVerify c)
  with assms obtain fs where "Template_Verify e now c s = Inr (fs, s')"
    by (auto simp: drop_result_def result_iffs)
  then show ?thesis by (rule Template_Verify_Inr) (simp add: filed_def, rule filedI, auto)
next
  case (CmdTPDF did p)
  with assms show ?thesis by (auto simp: Template_UpdatePDFState_def filed_def states_edit)
qed (use assms in \<open>auto simp: drop_result_def result_iffs intro: Copy_filed Register_filed\<close>)

lemma replay_snoc: "replay (evts @ [evt]) = replay_event evt (replay evts)"
  by (simp add: replay_def)

lemma reachable_replay:
  assumes "template_reachable s"
  shows "replay (map snd (t_outbox s)) = states_of s"
  using assms
proof (induction rule: template_reachable_induct)
  case empty
  then show ?case
    by (simp add: replay_def states_of_def [abs_def] lookup_template_def empty_tstore_def)
next
  case (step s cmd e now s')
  with run_template_filed [OF step.hyps(3)] show ?case
    by (auto simp: filed_def replay_snoc)
qed

section \<open>Who owns the tasks\<close>

definition task_owners :: "tstore \<Rightarrow> (string \<times> string) set" where
  "task_owners s = set (map (\<lambda>t. (task_did t, task_owner t)) (tr_tasks s))
     \<union> set (map (\<lambda>t. (task_did t, task_owner t)) (ta_tasks s))"

definition submission_of :: "string \<Rightarrow> string \<Rightarrow> tmpl_event \<Rightarrow> bool" where
  "submission_of did owner evt \<longleftrightarrow>
    (\<exists>v flag. evt = TSubmitEvent did v owner TsDraft TsSubmitted flag)"

lemma owners_list_ops [simp]:
  "(\<lambda>t. (task_did t, task_owner t)) ` set (set_task_state did owner st ts)
     = (\<lambda>t. (task_did t, task_owner t)) ` set ts"
  "(\<lambda>t. (task_did t, task_owner t)) ` set (reopen_tasks st did ts)
     = (\<lambda>t. (task_did t, task_owner t)) ` set ts"
proof -
  show "(\<lambda>t. (task_did t, task_owner t)) ` set (set_task_state did owner st ts)
     = (\<lambda>t. (task_did t, task_owner t)) ` set ts"
    unfolding set_task_state_def set_map image_image by (rule image_cong) auto
  show "(\<lambda>t. (task_did t, task_owner t)) ` set (reopen_tasks st did ts)
     = (\<lambda>t. (task_did t, task_owner t)) ` set ts"
    unfolding reopen_tasks_def set_map image_image by (rule image_cong) auto
qed

lemma owners_frame [simp]:
  "task_owners (update_template now did f s) = task_owners s"
  "task_owners (s\<lparr>t_outbox := z\<rparr>) = task_owners s"
  "task_owners (s\<lparr>credentials := c\<rparr>) = task_owners s"
  "task_owners (s\<lparr>templates := ts\<rparr>) = task_owners s"
  "task_owners (reopen_both did s) = task_owners s"
  "task_owners (Template_HistoryEntry did s) = task_owners s"
  "task_owners (s\<lparr>tr_tasks := set_task_state did owner rst (tr_tasks s)\<rparr>) = task_owners s"
  "task_owners (s\<lparr>ta_tasks := set_task_state did owner ast (ta_tasks s)\<rparr>) = task_owners s"
  by (simp_all add: task_owners_def reopen_both_eq Template_HistoryEntry_def)

lemma owners_submit:
  "task_owners (submit_tasks now cmd p s) =
    (if tp_state p = TsDraft then insert (tc_did cmd, tc_by cmd) (task_owners s) else task_owners s)"
  by (auto simp: submit_tasks_def task_owners_def new_task_def reopen_both_eq)

lemma owners_valid:
  "TApproval_IsValidApprover did owner s \<Longrightarrow> (did, owner) \<in> task_owners s"
  "TReview_IsValidReviewer did owner s \<Longrightarrow> (did, owner) \<in> task_owners s"
  by (auto simp: TApproval_IsValidApprover_def TReview_IsValidReviewer_def list_ex_iff task_of_def
      task_owners_def)

text \<open>A step adds no owner, unless it is the submission of a draft.\<close>

definition owners_step :: "int \<Rightarrow> tstore \<Rightarrow> tstore \<Rightarrow> bool" where
  "owners_step now s s' \<longleftrightarrow> task_owners s' \<subseteq> task_owners s
    \<or> (\<exists>did owner evt. submission_of did owner evt \<and> owner \<noteq> '''' \<and> states_of s did = Some TsDraft
        \<and> task_owners s' = insert (did, owner) (task_owners s)
        \<and> t_outbox s' = t_outbox s @ [(now, evt)])"

lemma Submit_owners: "Template_Submit now cmd s = Inr s' \<Longrightarrow> owners_step now s s'"
proof (erule Template_Submit_Inr)
  fix p
  assume "tp_state p = TsSubmitted" "s' = submit_tasks now cmd p s"
  then show "owners_step now s s'" by (simp add: owners_step_def owners_submit)
next
  fix p
  let ?evt = "TSubmitEvent (tc_did cmd) (tp_version p) (tc_by cmd) (tp_state p) (submit_next cmd p) (ts_flag cmd)"
  assume p: "lookup_template (tc_did cmd) s = Some p" and g: "submit_guard cmd p s"
    and s': "s' = (update_template now (tc_did cmd) (\<lambda>t. t\<lparr>tp_state := submit_next cmd p\<rparr>) (submit_tasks now cmd p s))
        \<lparr>t_outbox := t_outbox s @ [(now, ?evt)]\<rparr>"
  show "owners_step now s s'"
  proof (cases "tp_state p = TsDraft")
    case True
    then have "submission_of (tc_did cmd) (tc_by cmd) ?evt"
      by (simp add: submission_of_def submit_next_def)
    moreover have "tc_by cmd \<noteq> ''''" using g True by (simp add: submit_guard_def)
    ultimately show ?thesis
      unfolding owners_step_def using p True s' by (intro disjI2 exI) (auto simp: owners_submit)
  qed (simp add: owners_step_def s' owners_submit)
qed

lemma run_template_owners:
  assumes "run_template e now cmd s = Inr s'"
  shows "owners_step now s s'"
proof (cases cmd)
  case (CmdTCreate c)
  with assms have "Template_Create e now c s = Inr s'" by simp
  then show ?thesis by (rule Template_Create_Inr) (simp add: owners_step_def)
next
  case (CmdTCopy c)
  with assms have "Template_Copy e now c s = Inr s'" by simp
  then show ?thesis by (rule Template_Copy_Inr) (simp add: owners_step_def)
next
  case (CmdTApprove c)
  with assms have "Template_Approve now c s = Inr s'" by simp
  then show ?thesis by (rule Template_Approve_Inr) (simp add: owners_step_def)
next
  case (CmdTReject c)
  with assms have "Template_Reject now c s = Inr s'" by simp
  then show ?thesis by (rule Template_Reject_Inr) (simp add: owners_step_def)
next
  case (CmdTEdit c)
  with assms have "Template_Edit e now c s = Inr s'" by simp
  then show ?thesis by (rule Template_Edit_Inr) (simp add: owners_step_def)
next
  case (CmdTEditManage c)
  with assms have "Template_EditManage e now c s = Inr s'" by simp
  then show ?thesis by (rule Template_EditManage_Inr) (simp add: owners_step_def)
next
  case (CmdTArchive c)
  with assms have "Template_Archive now c s = Inr s'" by simp
  then show ?thesis
    by (rule Template_Archive_Inr) (auto simp: owners_step_def task_owners_def)
next
  case (CmdTRegister c seen)
  with assms obtain did where "Template_Register e now c seen s = Inr (did, s')"
    by (auto simp: drop_result_def result_iffs)
  then show ?thesis
    by (rule Template_Register_Inr)
      (erule register_existing_Inr register_import_Inr; simp add: owners_step_def)+
next
  case (CmdTPublish c seen)
  with assms have "Template_Publish e now c seen s = Inr s'" by simp
  then show ?thesis by (rule Template_Publish_Inr) (simp_all add: owners_step_def)
next
  case (CmdTVerify c)
  with assms obtain fs where "Template_Verify e now c s = Inr (fs, s')"
    by (auto simp: drop_result_def result_iffs)
  then show ?thesis by (rule Template_Verify_Inr) (simp_all add: owners_step_def)
next
  case (CmdTPDF did p)
  with assms show ?thesis by (auto simp: Template_UpdatePDFState_def owners_step_def)
qed (use assms in \<open>auto intro: Submit_owners\<close>)

text \<open>
  The invariant: a draft has no tasks, the tasks of a template have one owner, and
  this is who submitted the draft.
\<close>

definition task_owner_ok :: "tstore \<Rightarrow> string \<Rightarrow> string \<Rightarrow> bool" where
  "task_owner_ok s did owner \<longleftrightarrow>
     states_of s did \<noteq> None \<and> states_of s did \<noteq> Some TsDraft \<and> owner \<noteq> ''''
     \<and> (\<forall>other. (did, other) \<in> task_owners s \<longrightarrow> other = owner)
     \<and> (\<exists>at evt. (at, evt) \<in> set (t_outbox s) \<and> submission_of did owner evt)"

definition owners_ok :: "tstore \<Rightarrow> bool" where
  "owners_ok s \<longleftrightarrow> (\<forall>did owner. (did, owner) \<in> task_owners s \<longrightarrow> task_owner_ok s did owner)"

lemma states_past_draft:
  assumes "run_template e now cmd s = Inr s'" "states_of s did \<noteq> None" "states_of s did \<noteq> Some TsDraft"
  shows "states_of s' did \<noteq> None \<and> states_of s' did \<noteq> Some TsDraft"
proof -
  obtain st v b where a: "abs_templates s did = Some (st, v, b)" "st \<noteq> TsDraft"
    using assms(2,3) by (cases "abs_templates s did") (auto simp: states_abs)
  note step = run_template_lifecycle [OF assms(1)]
  from lifecycle_keeps_version [OF step a(1)] obtain st' where a': "abs_templates s' did = Some (st', v, b)"
    by blast
  moreover have "st' \<noteq> TsDraft" using lifecycle_draft_before [OF step, of did v b] a a' by auto
  ultimately show ?thesis by (simp add: states_abs)
qed

lemma filed_grows: "filed now s s' \<Longrightarrow> set (t_outbox s) \<subseteq> set (t_outbox s')"
  by (auto simp: filed_def)

lemma task_owner_ok_step:
  assumes "task_owner_ok s did owner" "run_template e now cmd s = Inr s'"
    and "\<And>other. (did, other) \<in> task_owners s' \<Longrightarrow> (did, other) \<in> task_owners s"
  shows "task_owner_ok s' did owner"
proof -
  have "states_of s' did \<noteq> None \<and> states_of s' did \<noteq> Some TsDraft"
    using states_past_draft [OF assms(2)] assms(1) by (simp add: task_owner_ok_def)
  moreover have "\<exists>at evt. (at, evt) \<in> set (t_outbox s') \<and> submission_of did owner evt"
    using filed_grows [OF run_template_filed [OF assms(2)]] assms(1) unfolding task_owner_ok_def by blast
  ultimately show ?thesis using assms(1,3) by (simp add: task_owner_ok_def)
qed

lemma reachable_owners_ok:
  assumes "template_reachable s"
  shows "owners_ok s"
  using assms
proof (induction rule: template_reachable_induct)
  case empty
  then show ?case by (simp add: owners_ok_def task_owners_def empty_tstore_def)
next
  case (step s cmd e now s')
  from run_template_owners [OF step.hyps(3)] show ?case
    unfolding owners_step_def
  proof (elim disjE exE conjE)
    assume sub: "task_owners s' \<subseteq> task_owners s"
    show ?case
      unfolding owners_ok_def
    proof (intro allI impI)
      fix did owner
      assume "(did, owner) \<in> task_owners s'"
      then have "task_owner_ok s did owner" using sub step.IH unfolding owners_ok_def by blast
      then show "task_owner_ok s' did owner" by (rule task_owner_ok_step [OF _ step.hyps(3)]) (use sub in blast)
    qed
  next
    fix did owner evt
    assume sub: "submission_of did owner evt" "owner \<noteq> ''''" and draft: "states_of s did = Some TsDraft"
      and own: "task_owners s' = insert (did, owner) (task_owners s)"
      and ob: "t_outbox s' = t_outbox s @ [(now, evt)]"
    have fresh: "(did, other) \<notin> task_owners s" for other
      using step.IH draft by (auto simp: owners_ok_def task_owner_ok_def)
    have st: "states_of s' did = Some TsSubmitted"
      using run_template_filed [OF step.hyps(3)] sub ob by (auto simp: filed_def submission_of_def)
    have new: "task_owner_ok s' did owner"
      using st sub fresh ob by (auto simp: task_owner_ok_def own)
    show ?case
      unfolding owners_ok_def
    proof (intro allI impI)
      fix d x
      assume x: "(d, x) \<in> task_owners s'"
      show "task_owner_ok s' d x"
      proof (cases "d = did")
        case True
        with x fresh new show ?thesis by (simp add: own)
      next
        case False
        with x have "task_owner_ok s d x" using step.IH by (simp add: own owners_ok_def)
        then show ?thesis by (rule task_owner_ok_step [OF _ step.hyps(3)]) (use False own in simp)
      qed
    qed
  qed
qed

section \<open>The provenance credentials\<close>

text \<open>
  A credential is about the one version its template has, and names no predecessor:
  every version is a row of its own, so the chain that is looked up by the key of the
  row is empty when the row is sealed.
\<close>

definition credential_ok :: "tstore \<Rightarrow> credential \<Rightarrow> bool" where
  "credential_ok s c \<longleftrightarrow> pc_previous c = None
     \<and> (\<exists>p. lookup_template (pc_did c) s = Some p \<and> tp_version p = pc_version c)"

lemma credential_kept:
  assumes "credential_ok s c" "run_template e now cmd s = Inr s'"
  shows "credential_ok s' c"
proof -
  obtain p where "lookup_template (pc_did c) s = Some p" "tp_version p = pc_version c"
    using assms(1) by (auto simp: credential_ok_def)
  then have "abs_templates s (pc_did c) = Some (tp_state p, pc_version c, tp_base p)"
    by (simp add: abs_templates_def)
  from lifecycle_keeps_version [OF run_template_lifecycle [OF assms(2)] this] assms(1)
  show ?thesis by (auto simp: credential_ok_def abs_templates_def)
qed

lemma credentials_tasks [simp]:
  "credentials (reopen_both did s) = credentials s"
  "credentials (submit_tasks now cmd p s) = credentials s"
  "credentials (Template_HistoryEntry did s) = credentials s"
  by (simp_all add: reopen_both_eq submit_tasks_def Template_HistoryEntry_def)

lemma latest_none:
  "\<forall>c\<in>set (credentials s). pc_did c \<noteq> did \<Longrightarrow> ReadLatestProvenanceVCID did s = None"
  by (simp add: ReadLatestProvenanceVCID_def ReadProvenanceCredentials_def)

lemma Register_credentials:
  assumes "Template_Register e now cmd seen s = Inr (did, s')" "template_run seen s"
    and "\<And>c. c \<in> set (credentials s) \<Longrightarrow> credential_ok s c" "c \<in> set (credentials s')"
  shows "c \<in> set (credentials s) \<or>
    (pc_previous c = None \<and> (\<exists>p. lookup_template (pc_did c) s = Some p \<and> tp_version p = pc_version c))"
  using assms(1)
proof (cases rule: Template_Register_Inr)
  case (local existing)
  obtain p where p: "lookup_template (tc_did cmd) s = Some p" "tp_version p = tp_version existing"
    using run_keeps_version [OF assms(2) local(1)] by auto
  from local(2) show ?thesis
  proof (cases rule: register_existing_Inr)
    case (1 q cs)
    have "ReadLatestProvenanceVCID did s = None" if "\<not> list_ex (\<lambda>x. pc_did x = did
        \<and> pc_version x = tp_version existing) (credentials s)"
      using that assms(3) p 1(1) by (intro latest_none) (force simp: list_ex_iff credential_ok_def)
    with 1 p assms(4) show ?thesis by auto
  qed
next
  case import
  then show ?thesis by (rule register_import_Inr) (use assms(4) in simp)
qed

lemma other_credentials:
  assumes "run_template e now cmd s = Inr s'" "\<And>c seen. cmd \<noteq> CmdTRegister c seen"
  shows "credentials s' = credentials s"
proof (cases cmd)
  case (CmdTVerify c)
  with assms obtain fs where "Template_Verify e now c s = Inr (fs, s')"
    by (auto simp: drop_result_def result_iffs)
  then show ?thesis by (rule Template_Verify_Inr) simp_all
qed (use assms in \<open>auto simp: Template_UpdatePDFState_def
    elim!: Template_Create_Inr Template_Copy_Inr Template_Submit_Inr Template_Approve_Inr
      Template_Reject_Inr Template_Edit_Inr Template_EditManage_Inr Template_Archive_Inr
      Template_Publish_Inr\<close>)

lemma reachable_credentials:
  assumes "template_reachable s" "c \<in> set (credentials s)"
  shows "credential_ok s c"
  using assms
proof (induction arbitrary: c rule: template_reachable_induct)
  case empty
  then show ?case by (simp add: empty_tstore_def)
next
  case (step s cmd e now s')
  have "credential_ok s c"
  proof (cases "\<exists>r seen. cmd = CmdTRegister r seen")
    case True
    then obtain r seen where cmd: "cmd = CmdTRegister r seen" by blast
    with step.hyps(3) obtain did where reg: "Template_Register e now r seen s = Inr (did, s')"
      by (auto simp: drop_result_def result_iffs)
    have "template_run seen s" using step.hyps(2) cmd by simp
    from Register_credentials [OF reg this step.IH step.prems]
    show ?thesis using step.IH by (auto simp: credential_ok_def)
  next
    case False
    then have "credentials s' = credentials s" by (intro other_credentials [OF step.hyps(3)]) blast
    with step.prems show ?thesis by (simp add: step.IH)
  qed
  then show ?case by (rule credential_kept [OF _ step.hyps(3)])
qed

end
