(* ===== verification/Template_Audit.thy ===== *)
theory Template_Audit
  imports Template_Trail
begin

text \<open>
  The auditor of a template's approval provenance
  (\<open>backend/internal/base/validation/templateprovenance.go\<close>), which reads the audit
  trail of a template, and the trail the template repository files for it.  The trail
  reader hands the entries out newest first.  The messages of findings are left out.
\<close>

section \<open>Entries and findings\<close>

record trail_entry =
  tl_event_type :: string
  tl_event_data :: "json option"
  tl_did :: "string option"
  tl_created_at :: int

record policy_finding =
  pf_policy_set :: string
  pf_policy_version :: string
  pf_rule :: string
  pf_severity :: string
  pf_path :: string

text \<open>The maps of the state are read as sets of their keys.\<close>

record provenance_state =
  pv_created :: bool
  pv_submitted :: bool
  pv_reviewed :: bool
  pv_approved :: bool
  pv_registered :: bool
  pv_creator :: string
  pv_reviewers :: "string list"
  pv_approver :: string
  pv_verified_by :: "string list"
  pv_reviewed_by :: "string list"
  pv_approved_by :: string
  pv_registered_by :: string

definition initial_provenance :: provenance_state where
  "initial_provenance = \<lparr>pv_created = False, pv_submitted = False, pv_reviewed = False,
     pv_approved = False, pv_registered = False, pv_creator = '''', pv_reviewers = [],
     pv_approver = '''', pv_verified_by = [], pv_reviewed_by = [], pv_approved_by = '''',
     pv_registered_by = ''''\<rparr>"

definition templateProvenanceFinding :: "string \<Rightarrow> string \<Rightarrow> string \<Rightarrow> policy_finding" where
  "templateProvenanceFinding rule severity path =
    \<lparr>pf_policy_set = '''', pf_policy_version = '''', pf_rule = rule, pf_severity = severity,
     pf_path = path\<rparr>"

section \<open>Reading event data\<close>

definition decodeAuditEventData :: "json option \<Rightarrow> json_map" where
  "decodeAuditEventData raw = (case raw of Some (JObj m) \<Rightarrow> m | _ \<Rightarrow> [])"

definition stringField :: "json_map \<Rightarrow> string \<Rightarrow> string" where
  "stringField data key = (case obj_get data key of Some (JStr t) \<Rightarrow> trim_space t | _ \<Rightarrow> '''')"

definition arrayField :: "json_map \<Rightarrow> string \<Rightarrow> string list" where
  "arrayField data key =
    List.map_filter (\<lambda>item. case item of
        JStr t \<Rightarrow> if trim_space t \<noteq> '''' then Some (trim_space t) else None | _ \<Rightarrow> None)
      (jarr (obj_get data key))"

definition chronologicalAuditEntries :: "trail_entry list \<Rightarrow> trail_entry list" where
  "chronologicalAuditEntries entries = rev entries"

fun auditEntryDID :: "trail_entry list \<Rightarrow> string" where
  "auditEntryDID [] = ''''"
| "auditEntryDID (entry # entries) =
     (case tl_did entry of
        Some d \<Rightarrow> if trim_space d \<noteq> '''' then d else auditEntryDID entries
      | None \<Rightarrow> auditEntryDID entries)"

section \<open>The rules\<close>

definition add_key :: "string \<Rightarrow> string list \<Rightarrow> string list" where
  "add_key k ks = (if k = '''' \<or> k \<in> set ks then ks else ks @ [k])"

definition extractResponsible :: "json_map \<Rightarrow> provenance_state \<Rightarrow> provenance_state" where
  "extractResponsible data st =
    (case obj_get data ''responsible_persons'' of
       Some (JObj responsible) \<Rightarrow>
         (let first = stringField responsible ''Creator'';
              creator1 = (if first \<noteq> '''' \<and> pv_creator st = '''' then first else pv_creator st);
              second = stringField responsible ''creator'';
              creator2 = (if second \<noteq> '''' \<and> creator1 = '''' then second else creator1);
              approver = (if stringField responsible ''Approver'' = ''''
                then stringField responsible ''approver'' else stringField responsible ''Approver'');
              reviewers = (if arrayField responsible ''Reviewers'' = []
                then arrayField responsible ''reviewers'' else arrayField responsible ''Reviewers'')
          in st\<lparr>pv_creator := creator2,
               pv_approver := (if approver \<noteq> '''' then approver else pv_approver st),
               pv_reviewers := fold add_key reviewers (pv_reviewers st)\<rparr>)
     | _ \<Rightarrow> st)"

definition auditTemplateSubmitProvenance ::
  "json_map \<Rightarrow> provenance_state \<Rightarrow> provenance_state \<times> policy_finding list" where
  "auditTemplateSubmitProvenance data st =
    (let previousState = to_upper (stringField data ''previous_state'');
         newState = to_upper (stringField data ''new_state'');
         submittedBy = stringField data ''submitted_by'';
         st1 = (if newState = ''SUBMITTED'' then extractResponsible data (st\<lparr>pv_submitted := True\<rparr>) else st);
         st2 = (if newState = ''REVIEWED''
           then st1\<lparr>pv_reviewed := True, pv_reviewed_by := add_key submittedBy (pv_reviewed_by st1)\<rparr>
           else st1)
     in (st2,
         (if \<not> pv_created st
          then [templateProvenanceFinding ''FACIS-TPL-PROV-001'' ''error'' ''event_type''] else [])
         @ (if newState = ''SUBMITTED'' \<and> pv_creator st1 \<noteq> '''' \<and> submittedBy \<noteq> ''''
               \<and> pv_creator st1 \<noteq> submittedBy \<and> previousState \<noteq> ''SUBMITTED''
            then [templateProvenanceFinding ''FACIS-TPL-PROV-003'' ''error'' ''event_data.submitted_by'']
            else [])
         @ (if newState = ''REVIEWED'' \<and> \<not> pv_submitted st2
            then [templateProvenanceFinding ''FACIS-TPL-PROV-003'' ''error'' ''event_data.new_state'']
            else [])
         @ (if newState = ''REVIEWED'' \<and> pv_reviewers st2 \<noteq> [] \<and> submittedBy \<noteq> ''''
               \<and> submittedBy \<notin> set (pv_reviewers st2)
            then [templateProvenanceFinding ''FACIS-TPL-PROV-008'' ''error'' ''event_data.submitted_by'']
            else [])
         @ (if newState = ''REJECTED'' \<and> \<not> pv_submitted st2
            then [templateProvenanceFinding ''FACIS-TPL-PROV-003'' ''error'' ''event_data.new_state'']
            else [])))"

definition auditTemplateProvenanceEvent ::
  "trail_entry \<Rightarrow> json_map \<Rightarrow> provenance_state \<Rightarrow> provenance_state \<times> policy_finding list" where
  "auditTemplateProvenanceEvent entry data st =
    (let kind = to_upper (tl_event_type entry)
     in if kind = ''CREATE_CONTRACT_TEMPLATE'' then
          (st\<lparr>pv_created := True, pv_creator := stringField data ''created_by''\<rparr>, [])
        else if kind = ''SUBMIT_CONTRACT_TEMPLATE'' then auditTemplateSubmitProvenance data st
        else if kind = ''VERIFY_CONTRACT_TEMPLATE'' then
          (st\<lparr>pv_verified_by := add_key (stringField data ''verified_by'') (pv_verified_by st)\<rparr>, [])
        else if kind = ''APPROVE_CONTRACT_TEMPLATE'' then
          (let approvedBy = stringField data ''approved_by'';
               st1 = st\<lparr>pv_approved := True, pv_approved_by := approvedBy\<rparr>
           in if \<not> pv_reviewed st
              then (st1, [templateProvenanceFinding ''FACIS-TPL-PROV-004'' ''error'' ''event_type''])
              else if pv_approver st \<noteq> '''' \<and> approvedBy \<noteq> '''' \<and> pv_approver st \<noteq> approvedBy
              then (st1, [templateProvenanceFinding ''FACIS-TPL-PROV-007'' ''error'' ''event_data.approved_by''])
              else (st1, []))
        else if kind = ''REGISTER_CONTRACT_TEMPLATE'' then
          (st\<lparr>pv_registered := True, pv_registered_by := stringField data ''registered_by''\<rparr>,
           if \<not> pv_approved st
           then [templateProvenanceFinding ''FACIS-TPL-PROV-005'' ''error'' ''event_type''] else [])
        else (st, []))"

definition wrong_resource :: "string \<Rightarrow> json_map \<Rightarrow> policy_finding list" where
  "wrong_resource resourceDID data =
    (let eventDID = stringField data ''did''
     in if eventDID \<noteq> '''' \<and> resourceDID \<noteq> '''' \<and> eventDID \<noteq> resourceDID
        then [templateProvenanceFinding ''FACIS-TPL-PROV-002'' ''error'' ''event_data.did''] else [])"

definition out_of_order :: "int option \<Rightarrow> trail_entry \<Rightarrow> policy_finding list" where
  "out_of_order previous entry =
    (case previous of
       None \<Rightarrow> []
     | Some t \<Rightarrow> if tl_created_at entry < t
                then [templateProvenanceFinding ''FACIS-TPL-PROV-006'' ''error'' ''created_at''] else [])"

fun audit_entries :: "string \<Rightarrow> int option \<Rightarrow> provenance_state \<Rightarrow> trail_entry list
    \<Rightarrow> provenance_state \<times> policy_finding list" where
  "audit_entries resourceDID previous st [] = (st, [])"
| "audit_entries resourceDID previous st (entry # entries) =
     (let data = decodeAuditEventData (tl_event_data entry);
          (st1, found) = auditTemplateProvenanceEvent entry data st;
          (st2, more) = audit_entries resourceDID (Some (tl_created_at entry)) st1 entries
      in (st2, wrong_resource resourceDID data @ out_of_order previous entry @ found @ more))"

definition AuditTemplateApprovalProvenance :: "string \<Rightarrow> trail_entry list \<Rightarrow> policy_finding list" where
  "AuditTemplateApprovalProvenance resourceDID entries =
    (let ordered = chronologicalAuditEntries entries;
         rid = (if trim_space resourceDID = '''' then auditEntryDID ordered else resourceDID);
         (st, found) = audit_entries rid None initial_provenance ordered;
         missing = (if \<not> pv_created st
           then [templateProvenanceFinding ''FACIS-TPL-PROV-001'' ''error'' ''event_type''] else []);
         findings = found @ missing
     in map (\<lambda>f. f\<lparr>pf_policy_set := ''facis.dcs.template.approval-provenance'', pf_policy_version := ''v1''\<rparr>)
          (if findings = []
           then [templateProvenanceFinding ''FACIS-TPL-PROV-000'' ''satisfied'' ''event_type''] else findings))"

section \<open>The trail of a template\<close>

text \<open>\<open>EventType\<close> and the fields of an event's JSON encoding that the auditor reads.\<close>

fun tmpl_event_type :: "tmpl_event \<Rightarrow> string" where
  "tmpl_event_type (TCreateEvent _ _) = ''CREATE_CONTRACT_TEMPLATE''"
| "tmpl_event_type (TCopyEvent _ _ _ _) = ''COPY_CONTRACT_TEMPLATE''"
| "tmpl_event_type (TSubmitEvent _ _ _ _ _ _) = ''SUBMIT_CONTRACT_TEMPLATE''"
| "tmpl_event_type (TApproveEvent _ _ _) = ''APPROVE_CONTRACT_TEMPLATE''"
| "tmpl_event_type (TRejectEvent _ _ _ _) = ''REJECT_CONTRACT_TEMPLATE''"
| "tmpl_event_type (TVerifyEvent _ _ _) = ''VERIFY_CONTRACT_TEMPLATE''"
| "tmpl_event_type (TUpdateEvent _ _ _ _) = ''UPDATE_CONTRACT_TEMPLATE''"
| "tmpl_event_type (TUpdateManageEvent _ _ _ _) = ''UPDATE_CONTRACT_TEMPLATE''"
| "tmpl_event_type (TArchiveEvent _ _ _) = ''ARCHIVE_CONTRACT_TEMPLATE''"
| "tmpl_event_type (TRegisterEvent _ _ _ _ _ _) = ''REGISTER_CONTRACT_TEMPLATE''"
| "tmpl_event_type (TPublishEvent _ _ _) = ''PUBLISH_CONTRACT_TEMPLATE''"

fun tmpl_event_json :: "tmpl_event \<Rightarrow> json_map" where
  "tmpl_event_json (TCreateEvent did u) = [(''did'', JStr did), (''created_by'', JStr u)]"
| "tmpl_event_json (TCopyEvent newDID copyDID u v) =
     [(''did'', JStr newDID), (''copy_did'', JStr copyDID), (''copied_by'', JStr u),
      (''new_version'', JNum (int_text v))]"
| "tmpl_event_json (TSubmitEvent did v u prev st flag) =
     [(''did'', JStr did), (''version'', JNum (int_text v)),
      (''previous_state'', JStr (template_state_string prev)),
      (''new_state'', JStr (template_state_string st)), (''submitted_by'', JStr u),
      (''action_flag'', case flag of None \<Rightarrow> JNull | Some f \<Rightarrow> JStr (template_flag_string f))]"
| "tmpl_event_json (TApproveEvent did v u) =
     [(''did'', JStr did), (''version'', JNum (int_text v)), (''approved_by'', JStr u)]"
| "tmpl_event_json (TRejectEvent did v u reason) =
     [(''did'', JStr did), (''version'', JNum (int_text v)), (''rejected_by'', JStr u),
      (''reason'', JStr reason)]"
| "tmpl_event_json (TVerifyEvent did v u) =
     [(''did'', JStr did), (''version'', JNum (int_text v)), (''verified_by'', JStr u)]"
| "tmpl_event_json (TUpdateEvent did u _ _) = [(''did'', JStr did), (''updated_by'', JStr u)]"
| "tmpl_event_json (TUpdateManageEvent did u _ _) = [(''did'', JStr did), (''updated_by'', JStr u)]"
| "tmpl_event_json (TArchiveEvent did v u) =
     [(''did'', JStr did), (''version'', JNum (int_text v)), (''archived_by'', JStr u)]"
| "tmpl_event_json (TRegisterEvent did u source v prev st) =
     [(''did'', JStr did), (''registered_by'', JStr u), (''source_did'', JStr source),
      (''source_version'', JNum (int_text v))]
     @ (case prev of None \<Rightarrow> [] | Some x \<Rightarrow> [(''previous_state'', JStr (template_state_string x))])
     @ (case st of None \<Rightarrow> [] | Some x \<Rightarrow> [(''new_state'', JStr (template_state_string x))])"
| "tmpl_event_json (TPublishEvent did v u) =
     [(''did'', JStr did), (''version'', JNum (int_text v)), (''published_by'', JStr u)]"

definition trail_entry_of :: "int \<times> tmpl_event \<Rightarrow> trail_entry" where
  "trail_entry_of p = \<lparr>tl_event_type = tmpl_event_type (snd p),
     tl_event_data = Some (JObj (tmpl_event_json (snd p))), tl_did = Some (tmpl_GetDID (snd p)),
     tl_created_at = fst p\<rparr>"

definition events_about :: "string \<Rightarrow> tstore \<Rightarrow> (int \<times> tmpl_event) list" where
  "events_about did s = filter (\<lambda>p. tmpl_GetDID (snd p) = did) (t_outbox s)"

definition template_trail :: "string \<Rightarrow> tstore \<Rightarrow> trail_entry list" where
  "template_trail did s = rev (map trail_entry_of (events_about did s))"

end
