(* ===== verification/Template_Audit_Proofs.thy ===== *)
theory Template_Audit_Proofs
  imports Template_Audit
begin

text \<open>
  What the provenance auditor reports for the trails the template repository files.
  The findings are computed event by event from what precedes it (\<open>event_rules\<close>); the
  histories of the repository only produce trails that satisfy \<open>trail_ok\<close>, on which
  most rules cannot fire.
\<close>

section \<open>The auditor, event by event\<close>

definition has_created :: "tmpl_event list \<Rightarrow> bool" where
  "has_created evts = list_ex (\<lambda>e. case e of TCreateEvent _ _ \<Rightarrow> True | _ \<Rightarrow> False) evts"

definition has_approved :: "tmpl_event list \<Rightarrow> bool" where
  "has_approved evts = list_ex (\<lambda>e. case e of TApproveEvent _ _ _ \<Rightarrow> True | _ \<Rightarrow> False) evts"

definition has_reached :: "template_state \<Rightarrow> tmpl_event list \<Rightarrow> bool" where
  "has_reached st evts = list_ex (\<lambda>e. case e of TSubmitEvent _ _ _ _ x _ \<Rightarrow> x = st | _ \<Rightarrow> False) evts"

text \<open>The creator the trail names: the last creation event, as the auditor overwrites it.\<close>

fun creator_after :: "string \<Rightarrow> tmpl_event \<Rightarrow> string" where
  "creator_after c (TCreateEvent _ u) = trim_space u"
| "creator_after c _ = c"

definition trail_creator :: "tmpl_event list \<Rightarrow> string" where
  "trail_creator evts = fold (\<lambda>e c. creator_after c e) evts ''''"

definition event_key :: "tmpl_event \<Rightarrow> string" where
  "event_key e = stringField (tmpl_event_json e) ''did''"

definition event_rules :: "string \<Rightarrow> tmpl_event list \<Rightarrow> tmpl_event \<Rightarrow> string set" where
  "event_rules did before e =
    (if event_key e \<noteq> '''' \<and> did \<noteq> '''' \<and> event_key e \<noteq> did then {''FACIS-TPL-PROV-002''} else {})
    \<union> (case e of
         TSubmitEvent _ _ u prev st _ \<Rightarrow>
           (if \<not> has_created before then {''FACIS-TPL-PROV-001''} else {})
           \<union> (if st = TsSubmitted \<and> trail_creator before \<noteq> '''' \<and> trim_space u \<noteq> ''''
                 \<and> trail_creator before \<noteq> trim_space u \<and> prev \<noteq> TsSubmitted
              then {''FACIS-TPL-PROV-003''} else {})
           \<union> (if (st = TsReviewed \<or> st = TsRejected) \<and> \<not> has_reached TsSubmitted before
              then {''FACIS-TPL-PROV-003''} else {})
       | TApproveEvent _ _ _ \<Rightarrow> if has_reached TsReviewed before then {} else {''FACIS-TPL-PROV-004''}
       | TRegisterEvent _ _ _ _ _ _ \<Rightarrow> if has_approved before then {} else {''FACIS-TPL-PROV-005''}
       | _ \<Rightarrow> {})"

definition trail_rules :: "string \<Rightarrow> tmpl_event list \<Rightarrow> string set" where
  "trail_rules did evts = (\<Union>n<length evts. event_rules did (take n evts) (evts ! n))"

lemma has_snoc [simp]:
  "has_created (evts @ [e]) \<longleftrightarrow> has_created evts \<or> (case e of TCreateEvent _ _ \<Rightarrow> True | _ \<Rightarrow> False)"
  "has_approved (evts @ [e]) \<longleftrightarrow> has_approved evts \<or> (case e of TApproveEvent _ _ _ \<Rightarrow> True | _ \<Rightarrow> False)"
  "has_reached st (evts @ [e]) \<longleftrightarrow> has_reached st evts \<or> (case e of TSubmitEvent _ _ _ _ x _ \<Rightarrow> x = st | _ \<Rightarrow> False)"
  "trail_creator (evts @ [e]) = creator_after (trail_creator evts) e"
  by (auto simp: has_created_def has_approved_def has_reached_def trail_creator_def)

lemma has_Nil [simp]:
  "\<not> has_created []" "\<not> has_approved []" "\<not> has_reached st []" "trail_creator [] = ''''"
  by (simp_all add: has_created_def has_approved_def has_reached_def trail_creator_def)

lemma trail_rules_Nil [simp]: "trail_rules did [] = {}"
  by (simp add: trail_rules_def)

lemma trail_rules_snoc [simp]:
  "trail_rules did (evts @ [e]) = trail_rules did evts \<union> event_rules did evts e"
proof -
  have "event_rules did (take n (evts @ [e])) ((evts @ [e]) ! n) = event_rules did (take n evts) (evts ! n)"
    if "n < length evts" for n
    using that by (simp add: nth_append)
  then show ?thesis by (auto simp: trail_rules_def lessThan_Suc)
qed

lemma audit_entries_snoc:
  "audit_entries rid prev st (xs @ [x]) =
    (let (st1, found) = audit_entries rid prev st xs;
         data = decodeAuditEventData (tl_event_data x);
         (st2, more) = auditTemplateProvenanceEvent x data st1
     in (st2, found @ wrong_resource rid data
           @ out_of_order (if xs = [] then prev else Some (tl_created_at (last xs))) x @ more))"
  by (induction xs arbitrary: prev st) (simp_all add: Let_def split: prod.splits)

lemma state_text [simp]:
  "trim_space (template_state_string st) = template_state_string st"
  "to_upper (template_state_string st) = template_state_string st"
  "template_state_string st = ''SUBMITTED'' \<longleftrightarrow> st = TsSubmitted"
  "template_state_string st = ''REVIEWED'' \<longleftrightarrow> st = TsReviewed"
  "template_state_string st = ''REJECTED'' \<longleftrightarrow> st = TsRejected"
  by (cases st; simp add: trim_space_def is_space_def to_upper_def upper_char_def)+

lemma kind_text: "to_upper (tmpl_event_type e) = tmpl_event_type e"
  by (cases e) (simp_all add: to_upper_def upper_char_def)

lemma trail_entry_simps [simp]:
  "tl_event_type (trail_entry_of p) = tmpl_event_type (snd p)"
  "decodeAuditEventData (tl_event_data (trail_entry_of p)) = tmpl_event_json (snd p)"
  "tl_created_at (trail_entry_of p) = fst p"
  by (simp_all add: trail_entry_of_def decodeAuditEventData_def)

text \<open>The state of the auditor after a trail: no event carries responsible persons.\<close>

definition prov_matches :: "provenance_state \<Rightarrow> tmpl_event list \<Rightarrow> bool" where
  "prov_matches st evts \<longleftrightarrow> pv_created st = has_created evts \<and> pv_approved st = has_approved evts
     \<and> pv_submitted st = has_reached TsSubmitted evts \<and> pv_reviewed st = has_reached TsReviewed evts
     \<and> pv_creator st = trail_creator evts \<and> pv_reviewers st = [] \<and> pv_approver st = ''''"

lemma submit_fields [simp]:
  "stringField (tmpl_event_json (TSubmitEvent d v u prev st flag)) ''previous_state'' = template_state_string prev"
  "stringField (tmpl_event_json (TSubmitEvent d v u prev st flag)) ''new_state'' = template_state_string st"
  "stringField (tmpl_event_json (TSubmitEvent d v u prev st flag)) ''submitted_by'' = trim_space u"
  "stringField (tmpl_event_json (TCreateEvent d u)) ''created_by'' = trim_space u"
  by (simp_all add: stringField_def obj_get_def)

lemma no_responsible [simp]:
  "extractResponsible (tmpl_event_json (TSubmitEvent d v u prev st flag)) p = p"
  by (simp add: extractResponsible_def obj_get_def)

declare tmpl_event_json.simps [simp del]

lemma submit_state:
  "fst (auditTemplateSubmitProvenance (tmpl_event_json (TSubmitEvent d v u prev st flag)) p) =
    (if st = TsSubmitted then p\<lparr>pv_submitted := True\<rparr>
     else if st = TsReviewed
     then p\<lparr>pv_reviewed := True, pv_reviewed_by := add_key (trim_space u) (pv_reviewed_by p)\<rparr>
     else p)"
  by (simp add: auditTemplateSubmitProvenance_def Let_def)

lemma submit_findings:
  "snd (auditTemplateSubmitProvenance (tmpl_event_json (TSubmitEvent d v u prev st flag)) p) =
    (if \<not> pv_created p then [templateProvenanceFinding ''FACIS-TPL-PROV-001'' ''error'' ''event_type''] else [])
    @ (if st = TsSubmitted \<and> pv_creator p \<noteq> '''' \<and> trim_space u \<noteq> '''' \<and> pv_creator p \<noteq> trim_space u
          \<and> prev \<noteq> TsSubmitted
       then [templateProvenanceFinding ''FACIS-TPL-PROV-003'' ''error'' ''event_data.submitted_by''] else [])
    @ (if st = TsReviewed \<and> \<not> pv_submitted p
       then [templateProvenanceFinding ''FACIS-TPL-PROV-003'' ''error'' ''event_data.new_state''] else [])
    @ (if st = TsReviewed \<and> pv_reviewers p \<noteq> [] \<and> trim_space u \<noteq> '''' \<and> trim_space u \<notin> set (pv_reviewers p)
       then [templateProvenanceFinding ''FACIS-TPL-PROV-008'' ''error'' ''event_data.submitted_by''] else [])
    @ (if st = TsRejected \<and> \<not> pv_submitted p
       then [templateProvenanceFinding ''FACIS-TPL-PROV-003'' ''error'' ''event_data.new_state''] else [])"
proof -
  consider "st = TsSubmitted" | "st = TsReviewed" | "st \<noteq> TsSubmitted" "st \<noteq> TsReviewed" by blast
  then show ?thesis
    unfolding auditTemplateSubmitProvenance_def Let_def submit_fields state_text no_responsible snd_conv
    by cases simp_all
qed

lemma rules_of_if:
  "set (map pf_rule (if c then [templateProvenanceFinding r sv path] else [])) = (if c then {r} else {})"
  by (simp add: templateProvenanceFinding_def)

lemma submit_rules:
  assumes "prov_matches p evts"
  shows "set (map pf_rule (snd (auditTemplateSubmitProvenance (tmpl_event_json (TSubmitEvent d v u prev st flag)) p))) =
    (if \<not> has_created evts then {''FACIS-TPL-PROV-001''} else {})
     \<union> (if st = TsSubmitted \<and> trail_creator evts \<noteq> '''' \<and> trim_space u \<noteq> ''''
           \<and> trail_creator evts \<noteq> trim_space u \<and> prev \<noteq> TsSubmitted
        then {''FACIS-TPL-PROV-003''} else {})
     \<union> (if (st = TsReviewed \<or> st = TsRejected) \<and> \<not> has_reached TsSubmitted evts
        then {''FACIS-TPL-PROV-003''} else {})"
proof -
  have m: "pv_created p = has_created evts" "pv_submitted p = has_reached TsSubmitted evts"
    "pv_creator p = trail_creator evts" "pv_reviewers p = []"
    using assms by (simp_all add: prov_matches_def)
  show ?thesis
    unfolding submit_findings m map_append set_append rules_of_if by auto
qed

lemma kinds_apart:
  "auditTemplateProvenanceEvent (trail_entry_of (t, e)) (tmpl_event_json e) p =
    (case e of
       TCreateEvent _ u \<Rightarrow> (p\<lparr>pv_created := True, pv_creator := trim_space u\<rparr>, [])
     | TSubmitEvent _ _ _ _ _ _ \<Rightarrow> auditTemplateSubmitProvenance (tmpl_event_json e) p
     | TVerifyEvent _ _ _ \<Rightarrow>
         (p\<lparr>pv_verified_by := add_key (stringField (tmpl_event_json e) ''verified_by'') (pv_verified_by p)\<rparr>, [])
     | TApproveEvent _ _ _ \<Rightarrow>
         (let approvedBy = stringField (tmpl_event_json e) ''approved_by'';
              p1 = p\<lparr>pv_approved := True, pv_approved_by := approvedBy\<rparr>
          in if \<not> pv_reviewed p
             then (p1, [templateProvenanceFinding ''FACIS-TPL-PROV-004'' ''error'' ''event_type''])
             else if pv_approver p \<noteq> '''' \<and> approvedBy \<noteq> '''' \<and> pv_approver p \<noteq> approvedBy
             then (p1, [templateProvenanceFinding ''FACIS-TPL-PROV-007'' ''error'' ''event_data.approved_by''])
             else (p1, []))
     | TRegisterEvent _ _ _ _ _ _ \<Rightarrow>
         (p\<lparr>pv_registered := True, pv_registered_by := stringField (tmpl_event_json e) ''registered_by''\<rparr>,
          if \<not> pv_approved p
          then [templateProvenanceFinding ''FACIS-TPL-PROV-005'' ''error'' ''event_type''] else [])
     | _ \<Rightarrow> (p, []))"
  unfolding auditTemplateProvenanceEvent_def trail_entry_simps kind_text snd_conv
  by (cases e) simp_all

lemma event_rules_split:
  "event_rules did evts e = set (map pf_rule (wrong_resource did (tmpl_event_json e))) \<union> event_rules '''' evts e"
  unfolding event_rules_def wrong_resource_def event_key_def Let_def
  by (simp add: templateProvenanceFinding_def)

lemma trail_event_step:
  assumes "prov_matches p evts"
  shows "prov_matches (fst (auditTemplateProvenanceEvent (trail_entry_of (t, e)) (tmpl_event_json e) p)) (evts @ [e])
    \<and> event_rules '''' evts e
      = set (map pf_rule (snd (auditTemplateProvenanceEvent (trail_entry_of (t, e)) (tmpl_event_json e) p)))"
proof (cases "\<exists>d v u prev st flag. e = TSubmitEvent d v u prev st flag")
  case True
  then obtain d v u prev st flag where e: "e = TSubmitEvent d v u prev st flag" by blast
  show ?thesis
    unfolding kinds_apart e tmpl_event.case submit_rules [OF assms] submit_state
    using assms by (simp add: prov_matches_def event_rules_def)
next
  case False
  with assms show ?thesis
    unfolding kinds_apart
    by (cases e)
      (simp_all add: prov_matches_def event_rules_def templateProvenanceFinding_def Let_def)
qed

lemma audit_matches:
  assumes "sorted (map fst evts)" "audit_entries did None initial_provenance (map trail_entry_of evts) = (p, fs)"
  shows "prov_matches p (map snd evts) \<and> set (map pf_rule fs) = trail_rules did (map snd evts)"
  using assms
proof (induction evts arbitrary: p fs rule: rev_induct)
  case Nil
  then have "p = initial_provenance" "fs = []" by simp_all
  then show ?case by (simp add: prov_matches_def initial_provenance_def)
next
  case (snoc x evts)
  obtain t e where x: "x = (t, e)" by (cases x)
  obtain p1 f1 where a: "audit_entries did None initial_provenance (map trail_entry_of evts) = (p1, f1)"
    by fastforce
  have srt: "sorted (map fst evts)" and before: "evts \<noteq> [] \<Longrightarrow> fst (last evts) \<le> t"
    using snoc.prems(1) by (auto simp: sorted_append x)
  have m: "prov_matches p1 (map snd evts)" "set (map pf_rule f1) = trail_rules did (map snd evts)"
    using snoc.IH [OF srt a] by simp_all
  obtain p2 f2 where b: "auditTemplateProvenanceEvent (trail_entry_of x) (tmpl_event_json e) p1 = (p2, f2)"
    by fastforce
  have order: "out_of_order (if map trail_entry_of evts = [] then None
      else Some (tl_created_at (last (map trail_entry_of evts)))) (trail_entry_of x) = []"
    by (cases "evts = []") (use before in \<open>simp_all add: out_of_order_def last_map x not_less\<close>)
  have "p = p2 \<and> fs = f1 @ wrong_resource did (tmpl_event_json e) @ f2"
    using snoc.prems(2) unfolding map_append list.map audit_entries_snoc a order
    using b by (simp add: x Let_def)
  with m trail_event_step [OF m(1), where t = t and e = e] b show ?case
    by (auto simp: x event_rules_split [of did])
qed

text \<open>The rules the whole audit reports, besides the confirmation of a clean trail.\<close>

lemma audit_rules:
  assumes "trim_space did \<noteq> ''''" "sorted (map fst (events_about did s))"
    and "evts = map snd (events_about did s)" "r \<noteq> ''FACIS-TPL-PROV-000''"
  shows "r \<in> pf_rule ` set (AuditTemplateApprovalProvenance did (template_trail did s)) \<longleftrightarrow>
    r \<in> trail_rules did evts \<or> (r = ''FACIS-TPL-PROV-001'' \<and> \<not> has_created evts)"
proof -
  obtain p fs where a: "audit_entries did None initial_provenance (map trail_entry_of (events_about did s)) = (p, fs)"
    by fastforce
  note m = audit_matches [OF assms(2) a]
  have created: "pv_created p = has_created evts" using m assms(3) by (simp add: prov_matches_def)
  have rules: "pf_rule ` set fs = trail_rules did evts" using m assms(3) by simp
  show ?thesis
    unfolding AuditTemplateApprovalProvenance_def template_trail_def chronologicalAuditEntries_def Let_def
    using assms(1,4)
    by (auto simp: a created rules [symmetric] templateProvenanceFinding_def image_iff)
qed

section \<open>The trails of the repository\<close>

text \<open>What precedes an event on the trail of its template.\<close>

definition event_ok :: "string \<Rightarrow> tmpl_event list \<Rightarrow> tmpl_event \<Rightarrow> bool" where
  "event_ok did before e \<longleftrightarrow>
    (case e of
       TCreateEvent _ _ \<Rightarrow> before = []
     | TCopyEvent newDID _ _ _ \<Rightarrow> newDID \<noteq> did
     | TSubmitEvent _ _ _ prev st _ \<Rightarrow> (st = TsSubmitted \<longrightarrow> prev \<noteq> TsSubmitted)
         \<and> (st = TsReviewed \<or> st = TsRejected \<longrightarrow> has_reached TsSubmitted before)
     | TApproveEvent _ _ _ \<Rightarrow> has_reached TsReviewed before
     | _ \<Rightarrow> True)"

definition trail_ok :: "string \<Rightarrow> tmpl_event list \<Rightarrow> bool" where
  "trail_ok did evts \<longleftrightarrow> (\<forall>n<length evts. event_ok did (take n evts) (evts ! n))"

lemma trail_ok_snoc: "trail_ok did (evts @ [e]) \<longleftrightarrow> trail_ok did evts \<and> event_ok did evts e"
  by (auto simp: trail_ok_def nth_append less_Suc_eq)

definition trail_tells :: "string \<Rightarrow> tstore \<Rightarrow> bool" where
  "trail_tells did s \<longleftrightarrow> (let evts = map snd (events_about did s) in trail_ok did evts
     \<and> (states_of s did = None \<longrightarrow> evts = [])
     \<and> (states_of s did = Some TsSubmitted \<longrightarrow> has_reached TsSubmitted evts)
     \<and> (states_of s did = Some TsReviewed \<longrightarrow> has_reached TsReviewed evts))"

lemma events_about_snoc:
  "t_outbox s' = t_outbox s @ [(now, e)] \<Longrightarrow> map snd (events_about did s') =
    map snd (events_about did s) @ (if tmpl_GetDID e = did then [e] else [])"
  by (simp add: events_about_def)

lemma event_fits_ok:
  assumes "trail_tells did s" "event_fits (states_of s) e" "tmpl_GetDID e = did"
  shows "event_ok did (map snd (events_about did s)) e"
  using assms by (cases e) (auto simp: trail_tells_def event_ok_def Let_def)

lemma other_event_state:
  assumes "event_fits m e" "tmpl_GetDID e \<noteq> did" "replay_event e m did = Some st" "st \<noteq> TsDraft"
  shows "m did = Some st"
  using assms by (cases e) (auto split: if_splits)

lemma other_event_none:
  assumes "event_fits m e" "replay_event e m did = None"
  shows "m did = None \<and> tmpl_GetDID e \<noteq> did"
  using assms by (cases e) (auto split: if_splits option.splits)

lemma own_event_state:
  assumes "event_fits m e" "tmpl_GetDID e = did"
    and "replay_event e m did = Some st" "st = TsSubmitted \<or> st = TsReviewed"
  shows "m did = Some st \<or> (\<exists>v u prev flag. e = TSubmitEvent did v u prev st flag)"
  using assms by (cases e) (auto split: if_splits option.splits)

lemma reachable_trail_tells:
  assumes "template_reachable s"
  shows "trail_tells did s"
  using assms
proof (induction rule: template_reachable_induct)
  case empty
  then show ?case by (simp add: trail_tells_def trail_ok_def events_about_def empty_tstore_def states_of_def
      lookup_template_def)
next
  case (step s cmd e now s')
  from run_template_filed [OF step.hyps(3)] consider
      (same) "t_outbox s' = t_outbox s" "states_of s' = states_of s"
    | (more) evt where "t_outbox s' = t_outbox s @ [(now, evt)]" "event_fits (states_of s) evt"
        "states_of s' = replay_event evt (states_of s)"
    by (auto simp: filed_def)
  then show ?case
  proof cases
    case same
    with step.IH show ?thesis by (simp add: trail_tells_def events_about_def)
  next
    case (more evt)
    let ?old = "map snd (events_about did s)" and ?new = "map snd (events_about did s')"
    have new: "?new = ?old @ (if tmpl_GetDID evt = did then [evt] else [])"
      by (rule events_about_snoc [OF more(1)])
    have ok: "trail_ok did ?new"
      using step.IH event_fits_ok [OF step.IH more(2)]
      by (simp add: new trail_ok_snoc trail_tells_def Let_def)
    have none: "?new = []" if "states_of s' did = None"
      using other_event_none [OF more(2)] that step.IH by (simp add: new more(3) trail_tells_def Let_def)
    have reached: "has_reached st ?new"
      if "states_of s' did = Some st" "st = TsSubmitted \<or> st = TsReviewed" for st
    proof (cases "tmpl_GetDID evt = did")
      case True
      from own_event_state [OF more(2) True _ that(2)] that(1) have
        "states_of s did = Some st \<or> (\<exists>v u prev flag. evt = TSubmitEvent did v u prev st flag)"
        by (simp add: more(3))
      then show ?thesis
      proof (elim disjE exE)
        assume "states_of s did = Some st"
        then show ?thesis using step.IH that(2) by (auto simp: new trail_tells_def Let_def)
      next
        fix v u prev flag
        assume "evt = TSubmitEvent did v u prev st flag"
        then show ?thesis by (simp add: new)
      qed
    next
      case False
      have "states_of s did = Some st"
        using other_event_state [OF more(2) False] that by (auto simp: more(3))
      then show ?thesis using step.IH that(2) False by (auto simp: new trail_tells_def Let_def)
    qed
    show ?thesis
      unfolding trail_tells_def Let_def using ok none reached by blast
  qed
qed

section \<open>What the rules come to\<close>

lemma trail_ok_nth: "trail_ok did evts \<Longrightarrow> n < length evts \<Longrightarrow> event_ok did (take n evts) (evts ! n)"
  by (simp add: trail_ok_def)

lemma created_first:
  assumes "trail_ok did evts" "TCreateEvent d c \<in> set evts"
  shows "\<exists>rest. evts = TCreateEvent d c # rest \<and> (\<forall>e\<in>set rest. \<forall>d u. e \<noteq> TCreateEvent d u)"
proof -
  have at0: "n = 0" if "n < length evts" "evts ! n = TCreateEvent x u" for n x u
    using trail_ok_nth [OF assms(1) that(1)] that by (auto simp: event_ok_def)
  obtain n where n: "n < length evts" "evts ! n = TCreateEvent d c"
    using assms(2) by (auto simp: in_set_conv_nth)
  have "n = 0" by (rule at0 [OF n])
  with n obtain rest where rest: "evts = TCreateEvent d c # rest" by (cases evts) simp_all
  have "e \<noteq> TCreateEvent x u" if "e \<in> set rest" for e x u
  proof
    assume "e = TCreateEvent x u"
    with that obtain m where "m < length rest" "rest ! m = TCreateEvent x u" by (auto simp: in_set_conv_nth)
    with at0 [of "Suc m" x u] rest show False by simp
  qed
  with rest show ?thesis by blast
qed

lemma creator_unchanged:
  "(\<forall>e\<in>set es. \<forall>d u. e \<noteq> TCreateEvent d u) \<Longrightarrow> fold (\<lambda>e c. creator_after c e) es c = c"
proof (induction es arbitrary: c)
  case (Cons e es)
  then have "creator_after c e = c" by (cases e) auto
  with Cons show ?case by simp
qed simp

lemma has_created_iff: "has_created evts \<longleftrightarrow> (\<exists>d c. TCreateEvent d c \<in> set evts)"
proof -
  have "(case e of TCreateEvent _ _ \<Rightarrow> True | _ \<Rightarrow> False) \<longleftrightarrow> (\<exists>d c. e = TCreateEvent d c)" for e
    by (cases e) auto
  then show ?thesis by (auto simp: has_created_def list_ex_iff)
qed

text \<open>Every later event of a trail sees the creation and its creator.\<close>

lemma later_created:
  assumes "trail_ok did evts" "TCreateEvent d c \<in> set evts" "0 < n"
  shows "has_created (take n evts) \<and> trail_creator (take n evts) = trim_space c"
proof -
  obtain rest where r: "evts = TCreateEvent d c # rest" "\<forall>e\<in>set rest. \<forall>d u. e \<noteq> TCreateEvent d u"
    using created_first [OF assms(1,2)] by blast
  obtain m where n: "n = Suc m" using assms(3) by (cases n) auto
  have "\<forall>e\<in>set (take m rest). \<forall>d u. e \<noteq> TCreateEvent d u"
    using r(2) set_take_subset [of m rest] by blast
  then have "trail_creator (take n evts) = trim_space c"
    by (simp add: trail_creator_def r(1) n creator_unchanged)
  then show ?thesis by (auto simp: has_created_iff r(1) n)
qed

lemma uncreated_creator:
  assumes "\<not> has_created evts"
  shows "trail_creator (take n evts) = ''''"
  unfolding trail_creator_def
  by (rule creator_unchanged) (use assms in \<open>auto simp: has_created_iff dest: in_set_takeD\<close>)

lemma submit_not_first:
  assumes "trail_ok did evts" "TCreateEvent d c \<in> set evts" "n < length evts"
    and "evts ! n = TSubmitEvent x v u prev st flag"
  shows "0 < n"
  using created_first [OF assms(1,2)] assms(4) by (cases n) auto

lemma rule_001:
  assumes "trail_ok did evts"
  shows "''FACIS-TPL-PROV-001'' \<in> trail_rules did evts \<or> \<not> has_created evts \<longleftrightarrow> \<not> has_created evts"
proof -
  have False if made: "has_created evts" and n: "n < length evts"
      and rule: "''FACIS-TPL-PROV-001'' \<in> event_rules did (take n evts) (evts ! n)" for n
  proof -
    obtain d c where c: "TCreateEvent d c \<in> set evts" using made unfolding has_created_iff by blast
    obtain x v u prev st flag where "evts ! n = TSubmitEvent x v u prev st flag"
        and "\<not> has_created (take n evts)"
      using rule by (cases "evts ! n") (auto simp: event_rules_def split: if_splits)
    with later_created [OF assms c submit_not_first [OF assms c n]] show False by blast
  qed
  then show ?thesis by (auto simp: trail_rules_def)
qed

lemma rule_002:
  assumes "trim_space did = did" "did \<noteq> ''''" "\<forall>e\<in>set evts. tmpl_GetDID e = did"
  shows "''FACIS-TPL-PROV-002'' \<in> trail_rules did evts \<longleftrightarrow>
    (\<exists>new u v. TCopyEvent new did u v \<in> set evts \<and> trim_space new \<notin> {'''', did})"
proof -
  have key: "event_key e = (case e of TCopyEvent new _ _ _ \<Rightarrow> trim_space new | _ \<Rightarrow> did)"
    if "tmpl_GetDID e = did" for e
    using that assms(1) by (cases e) (auto simp: event_key_def stringField_def obj_get_def tmpl_event_json.simps)
  have one: "''FACIS-TPL-PROV-002'' \<in> event_rules did before e \<longleftrightarrow> event_key e \<notin> {'''', did}" for before e
    using assms(2) by (cases e) (auto simp: event_rules_def)
  have "''FACIS-TPL-PROV-002'' \<in> trail_rules did evts \<longleftrightarrow> (\<exists>e\<in>set evts. event_key e \<notin> {'''', did})"
    unfolding trail_rules_def UN_iff one by (metis in_set_conv_nth lessThan_iff nth_mem)
  also have "\<dots> \<longleftrightarrow> (\<exists>new u v. TCopyEvent new did u v \<in> set evts \<and> trim_space new \<notin> {'''', did})"
  proof
    assume "\<exists>e\<in>set evts. event_key e \<notin> {'''', did}"
    then obtain e where e: "e \<in> set evts" "event_key e \<notin> {'''', did}" by blast
    have own: "tmpl_GetDID e = did" using assms(3) e(1) by blast
    show "\<exists>new u v. TCopyEvent new did u v \<in> set evts \<and> trim_space new \<notin> {'''', did}"
      by (cases e) (use key [OF own] own e in auto)
  next
    assume "\<exists>new u v. TCopyEvent new did u v \<in> set evts \<and> trim_space new \<notin> {'''', did}"
    then show "\<exists>e\<in>set evts. event_key e \<notin> {'''', did}" using key assms(3) by fastforce
  qed
  finally show ?thesis .
qed

lemma rule_003:
  assumes "trail_ok did evts" "\<forall>e\<in>set evts. tmpl_GetDID e = did"
  shows "''FACIS-TPL-PROV-003'' \<in> trail_rules did evts \<longleftrightarrow>
    (\<exists>c v u prev flag. TCreateEvent did c \<in> set evts \<and> TSubmitEvent did v u prev TsSubmitted flag \<in> set evts
       \<and> trim_space c \<notin> {'''', trim_space u} \<and> trim_space u \<noteq> '''')" (is "?rule \<longleftrightarrow> ?found")
proof
  assume ?rule
  then obtain n where n: "n < length evts" "''FACIS-TPL-PROV-003'' \<in> event_rules did (take n evts) (evts ! n)"
    by (auto simp: trail_rules_def)
  then obtain d v u prev st flag where e: "evts ! n = TSubmitEvent d v u prev st flag"
    by (cases "evts ! n") (auto simp: event_rules_def split: if_splits)
  have "d = did" using assms(2) n(1) e nth_mem by fastforce
  have "event_ok did (take n evts) (TSubmitEvent d v u prev st flag)"
    using trail_ok_nth [OF assms(1) n(1)] e by simp
  then have bad: "st = TsSubmitted \<and> trail_creator (take n evts) \<noteq> '''' \<and> trim_space u \<noteq> ''''
      \<and> trail_creator (take n evts) \<noteq> trim_space u"
    using n(2) by (auto simp: e event_rules_def event_ok_def split: if_splits)
  then have "has_created evts" using uncreated_creator [of evts n] by blast
  then obtain x c where c: "TCreateEvent x c \<in> set evts" unfolding has_created_iff by blast
  then have "x = did" using assms(2) by fastforce
  have "trail_creator (take n evts) = trim_space c"
    using later_created [OF assms(1) c submit_not_first [OF assms(1) c n(1) e]] by blast
  with bad c e n(1) \<open>x = did\<close> \<open>d = did\<close> show ?found
    by (metis empty_iff insert_iff nth_mem)
next
  assume ?found
  then obtain c v u prev flag where c: "TCreateEvent did c \<in> set evts"
      and s: "TSubmitEvent did v u prev TsSubmitted flag \<in> set evts"
      and bad: "trim_space c \<notin> {'''', trim_space u}" "trim_space u \<noteq> ''''" by blast
  obtain n where n: "n < length evts" "evts ! n = TSubmitEvent did v u prev TsSubmitted flag"
    using s by (auto simp: in_set_conv_nth)
  have "trail_creator (take n evts) = trim_space c"
    using later_created [OF assms(1) c submit_not_first [OF assms(1) c n]] by blast
  moreover have "prev \<noteq> TsSubmitted" using trail_ok_nth [OF assms(1) n(1)] by (simp add: n(2) event_ok_def)
  ultimately have "''FACIS-TPL-PROV-003'' \<in> event_rules did (take n evts) (evts ! n)"
    using bad by (simp add: n(2) event_rules_def)
  with n(1) show ?rule by (auto simp: trail_rules_def)
qed

definition is_registration :: "tmpl_event \<Rightarrow> bool" where
  "is_registration e = (case e of TRegisterEvent _ _ _ _ _ _ \<Rightarrow> True | _ \<Rightarrow> False)"

lemma rule_005:
  "''FACIS-TPL-PROV-005'' \<in> trail_rules did evts \<longleftrightarrow>
    (\<exists>n<length evts. is_registration (evts ! n) \<and> \<not> has_approved (take n evts))"
proof -
  have "''FACIS-TPL-PROV-005'' \<in> event_rules did before e \<longleftrightarrow> is_registration e \<and> \<not> has_approved before"
    for before e
    by (cases e) (auto simp: event_rules_def is_registration_def)
  then show ?thesis by (auto simp: trail_rules_def)
qed

lemma dead_rules:
  assumes "trail_ok did evts"
    and "r \<in> {''FACIS-TPL-PROV-004'', ''FACIS-TPL-PROV-006'', ''FACIS-TPL-PROV-007'', ''FACIS-TPL-PROV-008''}"
  shows "r \<notin> trail_rules did evts"
proof -
  have "r \<notin> event_rules did (take n evts) (evts ! n)" if "n < length evts" for n
    using trail_ok_nth [OF assms(1) that] assms(2)
    by (cases "evts ! n") (auto simp: event_rules_def event_ok_def split: if_splits)
  then show ?thesis by (auto simp: trail_rules_def)
qed

end
