(* ===== verification/Template_Properties.thy ===== *)
theory Template_Properties
  imports Template_Audit_Proofs
begin

text \<open>
  The properties of the template repository, over all its histories, each followed by
  a witness on a concrete repository.
\<close>

section \<open>Typing and versions\<close>

lemma row_of_template:
  assumes "template_reachable s" "t \<in> set (templates s)"
  shows "lookup_template (tp_did t) s = Some t"
proof -
  have d: "distinct (map tp_did (templates s))"
    using reachable_rows_typed [OF assms(1)] by (simp add: rows_typed_def row_key_def comp_def)
  obtain u where u: "lookup_template (tp_did t) s = Some u"
    using assms(2) by (cases "lookup_template (tp_did t) s") (auto simp: lookup_template_def find_None_iff)
  have "u = t" using lookup_in [OF u] d assms(2) by (auto simp: distinct_map inj_on_def)
  with u show ?thesis by simp
qed

lemma versions_uniqueD:
  assumes "versions_unique a" "a d = Some (st, v, Some b)" "a d' = Some (st', v, Some b)"
    and "is_active st" "is_active st'"
  shows "d = d'"
  using assms(1) [unfolded versions_unique_def, rule_format, OF assms(2-5)] .

text \<open>
  C16: the tables of the template repository are typed.  In every store the repository
  can reach, keys are unique and not empty, versions start at 1, a template is at
  version 1 exactly when it is the root of its lineage, the root of every lineage is
  in the table, and every provenance credential is about the version its template has.
\<close>

theorem template_tables_typed:
  assumes "template_reachable s" "t \<in> set (templates s)"
  shows "distinct (map tp_did (templates s)) \<and> tp_did t \<noteq> '''' \<and> 1 \<le> tp_version t
    \<and> (tp_version t = 1 \<longleftrightarrow> tp_base t = Some (tp_did t))
    \<and> (\<exists>root\<in>set (templates s). tp_base t = Some (tp_did root) \<and> tp_version root = 1
         \<and> tp_base root = tp_base t)
    \<and> (\<forall>c\<in>set (credentials s). pc_did c = tp_did t \<longrightarrow> pc_version c = tp_version t)"
proof -
  have typed: "rows_typed (map row_key (templates s))" by (rule reachable_rows_typed [OF assms(1)])
  then have "row_typed (set (map row_key (templates s))) (row_key t)"
    using assms(2) by (simp add: rows_typed_def)
  moreover have "pc_version c = tp_version t" if "c \<in> set (credentials s)" "pc_did c = tp_did t" for c
    using reachable_credentials [OF assms(1) that(1)] row_of_template [OF assms] that(2)
    by (auto simp: credential_ok_def)
  ultimately show ?thesis
    using typed by (auto simp: rows_typed_def row_typed_def row_key_def comp_def)
qed

text \<open>
  C17: no two templates of one lineage and version are in force.  Whatever commands ran,
  in whatever order, two registered or published templates of the same lineage with
  the same version number are the same template.
\<close>

theorem template_versions_unique:
  assumes "template_reachable s" "t \<in> set (templates s)" "u \<in> set (templates s)"
    and "active_version t" "active_version u" "tp_base t = tp_base u" "tp_version t = tp_version u"
  shows "t = u"
proof -
  note lookup = row_of_template [OF assms(1)]
  have "tp_base t \<noteq> None"
    using reachable_rows_typed [OF assms(1)] assms(2) by (auto simp: rows_typed_def row_typed_def row_key_def)
  then obtain b where b: "tp_base t = Some b" by blast
  have "abs_templates s (tp_did t) = Some (tp_state t, tp_version t, Some b)"
    "abs_templates s (tp_did u) = Some (tp_state u, tp_version t, Some b)"
    using lookup [OF assms(2)] lookup [OF assms(3)] assms(6,7) b by (simp_all add: abs_templates_def)
  moreover have "is_active (tp_state t)" "is_active (tp_state u)" using assms(4,5) by (simp_all add: active_iff)
  ultimately have "tp_did t = tp_did u" by (rule versions_uniqueD [OF reachable_versions_unique [OF assms(1)]])
  then show ?thesis using lookup [OF assms(2)] lookup [OF assms(3)] by (metis option.inject)
qed

section \<open>Review, registration, provenance\<close>

lemma update_state_succeeds:
  assumes "template_reachable s" "lookup_template did s = Some t"
    and "version_free did (tp_version t) (tp_base t) (abs_templates s)"
  shows "Template_UpdateState now did st s = Inr (update_template now did (\<lambda>t. t\<lparr>tp_state := st\<rparr>) s)"
proof -
  have "\<not> list_ex (\<lambda>other. occupies (tp_base t) (tp_version t) other \<and> tp_did other \<noteq> did) (templates s)"
  proof
    assume "list_ex (\<lambda>other. occupies (tp_base t) (tp_version t) other \<and> tp_did other \<noteq> did) (templates s)"
    then obtain u where u: "u \<in> set (templates s)" "occupies (tp_base t) (tp_version t) u" "tp_did u \<noteq> did"
      by (auto simp: list_ex_iff)
    then have "abs_templates s (tp_did u) = Some (tp_state u, tp_version t, tp_base t)"
      using row_of_template [OF assms(1) u(1)] by (simp add: abs_templates_def occupies_def)
    moreover have "is_active (tp_state u)" "tp_base t \<noteq> None"
      using u(2) by (simp_all add: occupies_def active_iff)
    ultimately show False using assms(3) u(3) unfolding version_free_def by blast
  qed
  with assms(2) show ?thesis by (simp add: Template_UpdateState_Inr)
qed

lemma issue_succeeds:
  assumes "lookup_template did s = Some t" "did \<noteq> ''''" "tv_signer e = Some sign" "\<And>j. sign j \<noteq> None"
    "tv_issuer e \<noteq> ''''"
  shows "\<exists>s'. issueProvenanceCredential e now did u holder x s = Inr s'"
proof (cases "list_ex (\<lambda>c. pc_version c = tp_version x) (ReadProvenanceCredentials did s)")
  case False
  let ?claim = "provenance_claim_of e now did u holder x s"
  obtain signed where "sign (templateProvenanceVC e (provenance_vc_id e ?claim) ?claim) = Some signed"
    using assms(4) by blast
  moreover have "\<not> list_ex (\<lambda>c. pc_did c = did \<and> pc_version c = tp_version x) (credentials s)"
    using False by (auto simp: ReadProvenanceCredentials_def list_ex_iff)
  ultimately show ?thesis
    using assms False
    by (simp add: issueProvenanceCredential_def IssueTemplateProvenanceVC_def InsertProvenanceCredential_def
        tmpl_option_def Let_def)
qed (use assms in \<open>simp add: issueProvenanceCredential_def\<close>)

lemma active_contract_template:
  assumes "lookup_template did s = Some t" "active_version t" "tp_type t = TyContractTemplate"
  shows "\<exists>row. ReadContractTemplateDataByID did s = Some row"
proof -
  let ?rows = "filter (\<lambda>t. tp_did t = did \<and> tp_type t = TyContractTemplate \<and> active_version t) (templates s)"
  have "t \<in> set (sort_key (\<lambda>t. - tp_version t) ?rows)" using lookup_in [OF assms(1)] assms(2,3) by simp
  then obtain x xs where "sort_key (\<lambda>t. - tp_version t) ?rows = x # xs"
    by (cases "sort_key (\<lambda>t. - tp_version t) ?rows") simp_all
  then show ?thesis unfolding ReadContractTemplateDataByID_def by simp
qed

text \<open>
  Registration does not ask for a review.  A registration of any template the
  repository has, in whatever state, succeeds as soon as credentials can be issued and
  no other template of its lineage and version is in force; the template is registered
  and, when it is a contract template, contracts can be derived from it.
\<close>

theorem registration_skips_review:
  assumes "template_reachable s" "lookup_template (tc_did cmd) s = Some t"
    and "tv_signer e = Some sign" "\<And>j. sign j \<noteq> None" "tv_issuer e \<noteq> ''''"
    and "version_free (tc_did cmd) (tp_version t) (tp_base t) (abs_templates s)"
  shows "\<exists>s'. Template_Register e now cmd s s = Inr (tc_did cmd, s')
    \<and> states_of s' (tc_did cmd) = Some TsRegistered
    \<and> (tp_type t = TyContractTemplate \<longrightarrow> (\<exists>row. ReadContractTemplateDataByID (tc_did cmd) s' = Some row))"
proof -
  let ?did = "tc_did cmd" and ?f = "\<lambda>t. t\<lparr>tp_state := TsRegistered\<rparr>"
  let ?s1 = "update_template now ?did ?f s"
  have "(?did, tp_version t, tp_base t) \<in> set (map row_key (templates s))"
    by (rule lookup_Some_keys [OF assms(2)])
  then have did: "?did \<noteq> ''''"
    using reachable_rows_typed [OF assms(1)] unfolding rows_typed_def row_typed_def by fastforce
  have upd: "Template_UpdateState now ?did TsRegistered s = Inr ?s1"
    by (rule update_state_succeeds [OF assms(1,2,6)])
  obtain t1 where t1: "lookup_template ?did ?s1 = Some t1" "tp_state t1 = TsRegistered" "tp_type t1 = tp_type t"
    using assms(2) by (simp add: lookup_update)
  obtain s2 where s2: "issueProvenanceCredential e now ?did (tc_by cmd) (tc_holder cmd) t ?s1 = Inr s2"
    using issue_succeeds [OF t1(1) did assms(3-5)] by blast
  then obtain cs where cs: "s2 = ?s1\<lparr>credentials := cs\<rparr>"
    by (cases rule: issue_Inr) (metis tstore.surjective tstore.update_convs(5), blast)
  let ?evt = "TRegisterEvent ?did (tc_by cmd) (tp_did t) (tp_version t) (Some (tp_state t)) (Some TsRegistered)"
  let ?s3 = "s2\<lparr>t_outbox := t_outbox s2 @ [(now, ?evt)]\<rparr>"
  have "Template_Register e now cmd s s = Inr (?did, ?s3)"
    using did assms(2) upd s2
    by (simp add: Template_Register_def register_existing_def tmpl_event_Create_def)
  moreover have lookup: "lookup_template ?did ?s3 = Some t1" using t1(1) by (simp add: cs)
  moreover have "tp_type t = TyContractTemplate \<Longrightarrow> \<exists>row. ReadContractTemplateDataByID ?did ?s3 = Some row"
    using active_contract_template [OF lookup] t1 by (simp add: active_version_def)
  ultimately show ?thesis using t1(2) by (intro exI [of _ ?s3]) (simp add: states_of_def)
qed

text \<open>
  Whoever submits a template decides on it.  Whoever approves a reviewed template,
  and whoever answers the review of a submitted one, is the user who submitted the
  draft: nobody else ever has a task for it.
\<close>

theorem only_the_submitter_decides:
  assumes "template_reachable s"
  shows "(Template_Approve now cmd s = Inr s' \<longrightarrow>
      (\<exists>at v flag. (at, TSubmitEvent (tc_did cmd) v (tc_by cmd) TsDraft TsSubmitted flag) \<in> set (t_outbox s)))
    \<and> (Template_Submit now sub s = Inr s' \<and> states_of s (tc_did sub) = Some TsSubmitted \<longrightarrow>
      (\<exists>at v flag. (at, TSubmitEvent (tc_did sub) v (tc_by sub) TsDraft TsSubmitted flag) \<in> set (t_outbox s)))"
proof -
  have owner: "\<exists>at v flag. (at, TSubmitEvent did v owner TsDraft TsSubmitted flag) \<in> set (t_outbox s)"
    if "(did, owner) \<in> task_owners s" for did owner
    using reachable_owners_ok [OF assms] that unfolding owners_ok_def task_owner_ok_def submission_of_def by blast
  have "(tc_did cmd, tc_by cmd) \<in> task_owners s" if "Template_Approve now cmd s = Inr s'"
    using that by (rule Template_Approve_Inr)
      (rule owners_valid(1), simp add: TApproval_IsValidApprover_def)
  moreover have "(tc_did sub, tc_by sub) \<in> task_owners s"
    if "Template_Submit now sub s = Inr s'" "states_of s (tc_did sub) = Some TsSubmitted"
    using that(1) by (rule Template_Submit_Inr)
      (use that(2) in \<open>auto simp: submit_guard_def TReview_IsValidReviewer_def intro!: owners_valid(2)\<close>)
  ultimately show ?thesis using owner by blast
qed

text \<open>
  Provenance credentials are never linked.  Every version of a template is a row of
  its own and the predecessor of a credential is looked up under the key of the row,
  so no credential the repository ever issues names the credential of the version
  before it.
\<close>

theorem provenance_never_linked:
  assumes "template_reachable s" "c \<in> set (credentials s)"
  shows "pc_previous c = None"
  using reachable_credentials [OF assms] by (simp add: credential_ok_def)

section \<open>The events\<close>

text \<open>
  C18: the events account for every state.  Replaying the events in the outbox from an
  empty repository gives exactly the states of all templates: no handler changes a
  state without filing the event that says so, and none files an event that says more.
\<close>

theorem events_replay_to_states:
  "template_reachable s \<Longrightarrow> replay (map snd (t_outbox s)) = states_of s"
  by (rule reachable_replay)

text \<open>
  C25: what the provenance audit reports.  For the trail of a template in any reachable
  store, with clocks that do not run backwards: rule 001 is reported exactly when the
  template was not created here, 002 exactly when it was copied, 003 exactly when
  somebody other than its creator submitted it, 005 exactly when a registration was
  not preceded by an approval, and the rules 004, 006, 007 and 008 never.
\<close>

theorem provenance_audit_exact:
  assumes "template_reachable s" "sorted (map fst (t_outbox s))" "trim_space did = did" "did \<noteq> ''''"
    and "evts = map snd (events_about did s)"
    and "reported = pf_rule ` set (AuditTemplateApprovalProvenance did (template_trail did s))"
  shows "(''FACIS-TPL-PROV-001'' \<in> reported \<longleftrightarrow> \<not> has_created evts)
    \<and> (''FACIS-TPL-PROV-002'' \<in> reported \<longleftrightarrow>
        (\<exists>new u v. TCopyEvent new did u v \<in> set evts \<and> trim_space new \<notin> {'''', did}))
    \<and> (''FACIS-TPL-PROV-003'' \<in> reported \<longleftrightarrow>
        (\<exists>c v u prev flag. TCreateEvent did c \<in> set evts \<and> TSubmitEvent did v u prev TsSubmitted flag \<in> set evts
           \<and> trim_space c \<notin> {'''', trim_space u} \<and> trim_space u \<noteq> ''''))
    \<and> (''FACIS-TPL-PROV-005'' \<in> reported \<longleftrightarrow>
        (\<exists>n<length evts. is_registration (evts ! n) \<and> \<not> has_approved (take n evts)))
    \<and> ''FACIS-TPL-PROV-004'' \<notin> reported \<and> ''FACIS-TPL-PROV-006'' \<notin> reported
    \<and> ''FACIS-TPL-PROV-007'' \<notin> reported \<and> ''FACIS-TPL-PROV-008'' \<notin> reported"
proof -
  have ok: "trail_ok did evts"
    using reachable_trail_tells [OF assms(1), of did] assms(5) by (simp add: trail_tells_def Let_def)
  have own: "\<forall>e\<in>set evts. tmpl_GetDID e = did"
    using assms(5) by (auto simp: events_about_def)
  have "sorted (map fst (events_about did s))"
    unfolding events_about_def using assms(2) by (rule sorted_filter)
  then have rules: "r \<in> reported \<longleftrightarrow> r \<in> trail_rules did evts \<or> (r = ''FACIS-TPL-PROV-001'' \<and> \<not> has_created evts)"
    if "r \<noteq> ''FACIS-TPL-PROV-000''" for r
    unfolding assms(6) by (intro audit_rules) (use assms(3-5) that in simp_all)
  show ?thesis
    using rule_001 [OF ok] rule_002 [OF assms(3,4) own] rule_003 [OF ok own] rule_005 [of did evts]
      dead_rules [OF ok] by (simp add: rules)
qed

section \<open>Copies and publication\<close>

lemma copied_key_known:
  assumes "template_reachable s" "(at, TCopyEvent new src u v) \<in> set (t_outbox s)"
  shows "states_of s new \<noteq> None \<and> (\<forall>at' c. (at', TCreateEvent new c) \<notin> set (t_outbox s))"
  using assms
proof (induction rule: template_reachable_induct)
  case empty
  then show ?case by (simp add: empty_tstore_def)
next
  case (step s cmd e now s')
  have kept: "states_of s' d \<noteq> None" if known: "states_of s d \<noteq> None" for d
  proof -
    obtain k w b where "abs_templates s d = Some (k, w, b)"
      using known by (cases "abs_templates s d") (auto simp: states_abs)
    from lifecycle_keeps_version [OF run_template_lifecycle [OF step.hyps(3)] this]
    show ?thesis by (auto simp: states_abs)
  qed
  from run_template_filed [OF step.hyps(3)] consider
      (same) "t_outbox s' = t_outbox s"
    | (more) evt where "t_outbox s' = t_outbox s @ [(now, evt)]" "event_fits (states_of s) evt"
        "states_of s' = replay_event evt (states_of s)"
    by (auto simp: filed_def)
  then show ?case
  proof cases
    case same
    with step.IH step.prems kept show ?thesis by simp
  next
    case (more evt)
    show ?thesis
    proof (cases "(at, TCopyEvent new src u v) \<in> set (t_outbox s)")
      case True
      with step.IH kept more show ?thesis by auto
    next
      case False
      with step.prems more have evt: "evt = TCopyEvent new src u v" by auto
      have "(at', TCreateEvent new c) \<notin> set (t_outbox s)" for at' c
      proof
        assume "(at', TCreateEvent new c) \<in> set (t_outbox s)"
        then have "TCreateEvent new c \<in> set (map snd (events_about new s))"
          by (force simp: events_about_def)
        moreover have "states_of s new = None" using more(2) evt by simp
        ultimately show False
          using reachable_trail_tells [OF step.hyps(1), of new] by (auto simp: trail_tells_def Let_def)
      qed
      with more evt show ?thesis by auto
    qed
  qed
qed

text \<open>
  A copied template never audits clean.  The event of a copy is filed under the
  template it was copied from but names the new one, and the new one gets no creation
  event.  So from the copy on, the audit of the source reports an event of another
  resource and the audit of the copy, which is how every version after the first comes
  into being, reports that its provenance does not start with a creation.
\<close>

theorem copied_template_never_audits_clean:
  assumes "template_reachable s" "sorted (map fst (t_outbox s))"
    and "(at, TCopyEvent new src u v) \<in> set (t_outbox s)"
    and "trim_space new = new" "trim_space src = src" "new \<noteq> ''''" "src \<noteq> ''''"
  shows "''FACIS-TPL-PROV-002'' \<in> pf_rule ` set (AuditTemplateApprovalProvenance src (template_trail src s))
    \<and> ''FACIS-TPL-PROV-001'' \<in> pf_rule ` set (AuditTemplateApprovalProvenance new (template_trail new s))"
proof -
  have srt: "sorted (map fst (events_about d s))" for d
    unfolding events_about_def using assms(2) by (rule sorted_filter)
  have about: "TCopyEvent new src u v \<in> set (map snd (events_about src s))"
    using assms(3) by (force simp: events_about_def)
  have own: "\<forall>e\<in>set (map snd (events_about src s)). tmpl_GetDID e = src"
    by (auto simp: events_about_def)
  have ok: "trail_ok src (map snd (events_about src s))"
    using reachable_trail_tells [OF assms(1), of src] by (simp add: trail_tells_def Let_def)
  obtain n where "n < length (map snd (events_about src s))"
      "map snd (events_about src s) ! n = TCopyEvent new src u v"
    using about by (metis in_set_conv_nth)
  then have "new \<noteq> src" using trail_ok_nth [OF ok] by (fastforce simp: event_ok_def)
  then have "''FACIS-TPL-PROV-002'' \<in> trail_rules src (map snd (events_about src s))"
    unfolding rule_002 [OF assms(5,7) own] using about assms(4,6)
    by (intro exI [of _ new] exI [of _ u] exI [of _ v] conjI) simp_all
  moreover have "\<not> has_created (map snd (events_about new s))"
    using copied_key_known [OF assms(1,3)] by (force simp: has_created_iff events_about_def)
  ultimately show ?thesis
    using audit_rules [OF _ srt refl] assms(4-7) by simp
qed

text \<open>
  C26: a registered template can always be published.  When the catalogue accepts the
  document of a registered template, or answers that it already has it because an
  earlier publication did not finish, the publication succeeds and the template is
  published: no other version can be in the way, and a half-finished publication is
  completed by repeating it.
\<close>

theorem registered_template_publishes:
  assumes "template_reachable s" "lookup_template (tc_did cmd) s = Some t" "tp_state t = TsRegistered"
    and "unix_seconds (tp_content_updated_at t) \<le> unix_seconds (tc_updated_at cmd)"
    and "tv_catalogue e = Some fc" "\<And>body. fc_post fc body = Some resp"
    and "fc_status resp = 201 \<or> (fc_status resp = 409 \<and> fc_code resp = ''conflict_error'')"
    and "trim_space (tb_instance cmd) \<noteq> ''''" "trim_space (tc_did cmd) \<noteq> ''''"
    and "trim_space (ResourceIRI (tv_public_url e) ''template'' (tc_did cmd)) \<noteq> ''''"
    and "tp_data t = Some j" "j \<noteq> JNull"
  shows "\<exists>s'. Template_Publish e now cmd s s = Inr s' \<and> states_of s' (tc_did cmd) = Some TsPublished"
proof -
  let ?did = "tc_did cmd"
  have abs: "abs_templates s ?did = Some (TsRegistered, tp_version t, tp_base t)"
    using assms(2,3) by (simp add: abs_templates_def)
  have "version_free ?did (tp_version t) (tp_base t) (abs_templates s)"
    unfolding version_free_def
  proof (intro allI impI notI)
    fix other st
    assume o: "other \<noteq> ?did \<and> tp_base t \<noteq> None \<and> abs_templates s other = Some (st, tp_version t, tp_base t)"
      and "is_active st"
    then obtain b where b: "tp_base t = Some b" by auto
    have "other = ?did"
      by (rule versions_uniqueD [OF reachable_versions_unique [OF assms(1)], of _ st "tp_version t" b _ TsRegistered])
        (use o abs b \<open>is_active st\<close> in \<open>simp_all add: is_active_def\<close>)
    with o show False by simp
  qed
  then have upd: "Template_UpdateState now ?did TsPublished s
      = Inr (update_template now ?did (\<lambda>t. t\<lparr>tp_state := TsPublished\<rparr>) s)"
    by (rule update_state_succeeds [OF assms(1,2)])
  have instance_set: "tb_instance cmd \<noteq> ''''" using assms(8) by (auto simp: trim_space_def)
  have did: "?did \<noteq> ''''" using assms(9) by (auto simp: trim_space_def)
  have "publishTemplateResourceToFC e now fc cmd t t = Inr ()"
    using assms(6-12) instance_set
    by (auto simp: publishTemplateResourceToFC_def catalogue_document_def TemplateDataString_def
        BuildPayload_def CatalogueSubjectFromRepository_def tmpl_option_def)
  then have "Template_Publish e now cmd s s = Inr ((update_template now ?did (\<lambda>t. t\<lparr>tp_state := TsPublished\<rparr>) s)
      \<lparr>t_outbox := t_outbox s @ [(now, TPublishEvent ?did (tp_version t) (tc_by cmd))]\<rparr>)"
    using assms(2-5) upd did
    by (simp add: Template_Publish_def Template_ReadProcessDataByDID_def Template_ReadDataByID_def
        tmpl_option_def tmpl_fresh_def tmpl_event_Create_def)
  then show ?thesis
    by (intro exI conjI, assumption) (use assms(2) in \<open>simp add: states_set_state\<close>)
qed

end
