(* ===== verification/Template_Witnesses.thy ===== *)
theory Template_Witnesses
  imports Template_Properties
begin

text \<open>
  A concrete history of the template repository on which its properties are
  exercised: one user creates a template, submits it, verifies, reviews and approves
  it himself, registers it, copies it to the next version and registers that one
  without any review.
\<close>

definition demo_catalogue :: catalogue where
  "demo_catalogue = \<lparr>fc_lookup = (\<lambda>_ _. Some None),
     fc_post = (\<lambda>_. Some \<lparr>fc_status = 409, fc_code = ''conflict_error'', fc_message = ''known''\<rparr>),
     fc_verify = (\<lambda>_. Some \<lparr>fc_status = 200, fc_code = '''', fc_message = ''''\<rparr>)\<rparr>"

definition demo_tmpl_env :: tmpl_env where
  "demo_tmpl_env = \<lparr>tv_normalize = (\<lambda>j. j), tv_identity = (\<lambda>j _ _. Some j),
     tv_public_url = ''https://dcs.example'', tv_marshal = (\<lambda>_. ''json''), tv_parse = (\<lambda>_. None),
     tv_sha256_hex = (\<lambda>_. ''00''), tv_rfc3339 = (\<lambda>_. ''now''), tv_signer = Some Some,
     tv_issuer = ''did:web:a'', tv_hub = (\<lambda>_ _. HubFound), tv_catalogue = Some demo_catalogue,
     tv_new_id = Some ''t9''\<rparr>"

definition demo_user :: "string \<Rightarrow> tcommand" where
  "demo_user did = \<lparr>tc_did = did, tc_updated_at = 1000000000, tc_by = ''ann'', tc_holder = ''did:ann'',
     tc_roles = [TemplateManager]\<rparr>"

definition demo_create_tmpl :: tcreate_cmd where
  "demo_create_tmpl = tcommand.extend (demo_user ''t1'') (tcreate_cmd.fields TyContractTemplate (Some ''name'') None
     (Some (JObj [])))"

definition demo_submit_tmpl :: "template_flag option \<Rightarrow> tsubmit_cmd" where
  "demo_submit_tmpl flag = tcommand.extend (demo_user ''t1'') (tsubmit_cmd.fields flag)"

definition demo_register_tmpl :: "string \<Rightarrow> tregister_cmd" where
  "demo_register_tmpl did = tcommand.extend (demo_user did) (tregister_cmd.fields 1)"

definition demo_copy_tmpl :: tcopy_cmd where
  "demo_copy_tmpl = tcommand.extend (demo_user ''t1'') (tcopy_cmd.fields ''t2'')"

definition demo_publish_tmpl :: tpublish_cmd where
  "demo_publish_tmpl = tcommand.extend (demo_user ''t2'') (tpublish_cmd.fields ''did:web:a'')"

fun run_demo :: "tmpl_env \<Rightarrow> int \<Rightarrow> (tstore \<Rightarrow> template_command) list \<Rightarrow> tstore \<Rightarrow> tstore option" where
  "run_demo e now [] s = Some s"
| "run_demo e now (c # cs) s =
     (case run_template e now (c s) s of Inl _ \<Rightarrow> None | Inr s1 \<Rightarrow> run_demo e (now + 1) cs s1)"

definition demo_reviewed :: "(tstore \<Rightarrow> template_command) list" where
  "demo_reviewed = [\<lambda>_. CmdTCreate demo_create_tmpl, \<lambda>_. CmdTSubmit (demo_submit_tmpl None),
     \<lambda>_. CmdTVerify (demo_user ''t1''), \<lambda>_. CmdTSubmit (demo_submit_tmpl (Some TfApproval))]"

definition demo_versions :: "(tstore \<Rightarrow> template_command) list" where
  "demo_versions = [\<lambda>_. CmdTApprove (demo_user ''t1''), \<lambda>s. CmdTRegister (demo_register_tmpl ''t1'') s,
     \<lambda>_. CmdTCopy demo_copy_tmpl, \<lambda>s. CmdTRegister (demo_register_tmpl ''t2'') s]"

definition demo_before :: tstore where
  "demo_before = the (run_demo demo_tmpl_env 0 demo_reviewed empty_tstore)"

definition demo_after :: tstore where
  "demo_after = the (run_demo demo_tmpl_env 4 demo_versions demo_before)"

lemma run_demo_reachable:
  assumes "run_demo e now cs s = Some s'" "template_reachable s"
    and "\<forall>c\<in>set cs. \<forall>s seen. seen_by (c s) = Some seen \<longrightarrow> seen = s"
  shows "template_reachable s'"
  using assms
proof (induction cs arbitrary: now s)
  case (Cons c cs)
  obtain s1 where s1: "run_template e now (c s) s = Inr s1" "run_demo e (now + 1) cs s1 = Some s'"
    using Cons.prems(1) by (auto split: sum.splits)
  have "template_reachable s1"
  proof (rule template_reachable_step [OF Cons.prems(2) _ s1(1)])
    fix seen
    assume "seen_by (c s) = Some seen"
    then have "seen = s" using Cons.prems(3) by simp
    then show "template_run seen s" by (simp add: begins)
  qed
  with Cons.IH [OF s1(2)] Cons.prems(3) show ?case by simp
qed simp

lemma demo_before_runs: "run_demo demo_tmpl_env 0 demo_reviewed empty_tstore \<noteq> None"
  by code_simp

lemma demo_after_runs: "run_demo demo_tmpl_env 4 demo_versions demo_before \<noteq> None"
  by code_simp

lemma demo_before_reachable: "template_reachable demo_before"
proof -
  have "run_demo demo_tmpl_env 0 demo_reviewed empty_tstore = Some demo_before"
    using demo_before_runs by (auto simp: demo_before_def)
  then show ?thesis
    by (rule run_demo_reachable) (simp_all add: template_reachable_def begins demo_reviewed_def)
qed

lemma demo_after_reachable: "template_reachable demo_after"
proof -
  have "run_demo demo_tmpl_env 4 demo_versions demo_before = Some demo_after"
    using demo_after_runs by (auto simp: demo_after_def)
  then show ?thesis
    by (rule run_demo_reachable) (simp_all add: demo_before_reachable demo_versions_def)
qed

definition demo_t1 :: tmpl where
  "demo_t1 = the (lookup_template ''t1'' demo_after)"

definition demo_t2 :: tmpl where
  "demo_t2 = the (lookup_template ''t2'' demo_after)"

lemma demo_rows: "templates demo_after = [demo_t1, demo_t2]"
  by code_simp

lemma demo_t1_facts:
  "tp_did demo_t1 = ''t1''" "tp_version demo_t1 = 1" "tp_base demo_t1 = Some ''t1''" "tp_state demo_t1 = TsRegistered"
  by code_simp+

lemma demo_t2_facts:
  "tp_did demo_t2 = ''t2''" "tp_version demo_t2 = 2" "tp_base demo_t2 = Some ''t1''" "tp_state demo_t2 = TsRegistered"
  "tp_data demo_t2 = Some (JObj [])" "tp_content_updated_at demo_t2 = 6"
  by code_simp+

lemma demo_lookup: "lookup_template ''t2'' demo_after = Some demo_t2"
  by (simp add: lookup_template_def demo_rows demo_t1_facts demo_t2_facts)

lemma demo_sorted: "sorted (map fst (t_outbox demo_after))"
  by code_simp

lemma demo_copied: "(6, TCopyEvent ''t2'' ''t1'' ''ann'' 2) \<in> set (t_outbox demo_after)"
  by code_simp

lemma demo_trim: "trim_space ''t1'' = ''t1''" "trim_space ''t2'' = ''t2''"
  by code_simp+

lemma demo_template_approves:
  obtains s' where "Template_Approve 4 (demo_user ''t1'') demo_before = Inr s'"
proof -
  have "\<not> isl (Template_Approve 4 (demo_user ''t1'') demo_before)" by code_simp
  then show thesis using that by (cases "Template_Approve 4 (demo_user ''t1'') demo_before") auto
qed

theorem template_commands_refine_lifecycle_witness:
  "\<exists>s'. run_template demo_tmpl_env 4 (CmdTApprove (demo_user ''t1'')) demo_before = Inr s'
     \<and> lifecycle_step (abs_templates demo_before) (abs_templates s')"
proof -
  obtain s' where "Template_Approve 4 (demo_user ''t1'') demo_before = Inr s'" by (rule demo_template_approves)
  then have "run_template demo_tmpl_env 4 (CmdTApprove (demo_user ''t1'')) demo_before = Inr s'" by simp
  then show ?thesis using template_commands_refine_lifecycle by blast
qed

theorem template_tables_typed_witness:
  "tp_did demo_t2 = ''t2'' \<and> 1 \<le> tp_version demo_t2 \<and> \<not> (tp_version demo_t2 = 1)
    \<and> distinct (map tp_did (templates demo_after))"
  using template_tables_typed [OF demo_after_reachable, of demo_t2] by (simp add: demo_rows demo_t2_facts)

theorem template_versions_unique_witness:
  "hd (filter (\<lambda>u. active_version u \<and> tp_base u = Some ''t1'' \<and> tp_version u = 1) (templates demo_after)) = demo_t1"
proof (rule template_versions_unique [OF demo_after_reachable])
  show "hd (filter (\<lambda>u. active_version u \<and> tp_base u = Some ''t1'' \<and> tp_version u = 1) (templates demo_after))
    \<in> set (templates demo_after)"
    by (simp add: demo_rows demo_t1_facts active_version_def)
qed (simp_all add: demo_rows demo_t1_facts active_version_def)

theorem only_the_submitter_decides_witness:
  "\<exists>at v flag. (at, TSubmitEvent ''t1'' v ''ann'' TsDraft TsSubmitted flag) \<in> set (t_outbox demo_before)"
proof -
  obtain s' where "Template_Approve 4 (demo_user ''t1'') demo_before = Inr s'" by (rule demo_template_approves)
  then show ?thesis
    using only_the_submitter_decides [OF demo_before_reachable, of 4 "demo_user ''t1''" s']
    by (simp add: demo_user_def)
qed

theorem provenance_never_linked_witness:
  "pc_did (credentials demo_after ! 1) = ''t2'' \<and> pc_version (credentials demo_after ! 1) = 2
    \<and> pc_previous (credentials demo_after ! 1) = None"
proof -
  have "length (credentials demo_after) = 2" by code_simp
  then have "pc_previous (credentials demo_after ! 1) = None"
    by (intro provenance_never_linked [OF demo_after_reachable]) simp
  moreover have "pc_did (credentials demo_after ! 1) = ''t2''" "pc_version (credentials demo_after ! 1) = 2"
    by code_simp+
  ultimately show ?thesis by simp
qed

theorem events_replay_to_states_witness:
  "replay (map snd (t_outbox demo_after)) ''t2'' = Some TsRegistered"
  unfolding events_replay_to_states [OF demo_after_reachable]
  by (simp add: states_of_def demo_lookup demo_t2_facts)

theorem provenance_audit_exact_witness:
  "''FACIS-TPL-PROV-002'' \<in> pf_rule ` set (AuditTemplateApprovalProvenance ''t1'' (template_trail ''t1'' demo_after))
    \<and> ''FACIS-TPL-PROV-001'' \<notin> pf_rule ` set (AuditTemplateApprovalProvenance ''t1'' (template_trail ''t1'' demo_after))"
proof -
  let ?evts = "map snd (events_about ''t1'' demo_after)"
  have copied: "TCopyEvent ''t2'' ''t1'' ''ann'' 2 \<in> set ?evts" and created: "has_created ?evts" by code_simp+
  have "\<exists>new u v. TCopyEvent new ''t1'' u v \<in> set ?evts \<and> trim_space new \<notin> {'''', ''t1''}"
    using copied demo_trim(2) by (intro exI conjI) (assumption, simp)
  with created show ?thesis
    using provenance_audit_exact [OF demo_after_reachable demo_sorted demo_trim(1) _ refl refl]
    by simp
qed

theorem copied_template_never_audits_clean_witness:
  "''FACIS-TPL-PROV-001'' \<in> pf_rule ` set (AuditTemplateApprovalProvenance ''t2'' (template_trail ''t2'' demo_after))"
  using copied_template_never_audits_clean [OF demo_after_reachable demo_sorted demo_copied demo_trim(2,1)]
  by simp

theorem registered_template_publishes_witness:
  "\<exists>s'. Template_Publish demo_tmpl_env 9 demo_publish_tmpl demo_after demo_after = Inr s'
    \<and> states_of s' ''t2'' = Some TsPublished"
proof -
  have cmd: "tc_did demo_publish_tmpl = ''t2''" by code_simp
  have "\<exists>s'. Template_Publish demo_tmpl_env 9 demo_publish_tmpl demo_after demo_after = Inr s'
    \<and> states_of s' (tc_did demo_publish_tmpl) = Some TsPublished"
  proof (rule registered_template_publishes [OF demo_after_reachable])
    show "lookup_template (tc_did demo_publish_tmpl) demo_after = Some demo_t2" by (simp add: cmd demo_lookup)
    show "tv_catalogue demo_tmpl_env = Some demo_catalogue" by (simp add: demo_tmpl_env_def)
    show "fc_post demo_catalogue body = Some \<lparr>fc_status = 409, fc_code = ''conflict_error'', fc_message = ''known''\<rparr>"
      for body by (simp add: demo_catalogue_def)
    show "unix_seconds (tp_content_updated_at demo_t2) \<le> unix_seconds (tc_updated_at demo_publish_tmpl)"
      by code_simp
    show "trim_space (tb_instance demo_publish_tmpl) \<noteq> ''''" by code_simp
    show "trim_space (tc_did demo_publish_tmpl) \<noteq> ''''" by code_simp
    show "trim_space (ResourceIRI (tv_public_url demo_tmpl_env) ''template'' (tc_did demo_publish_tmpl)) \<noteq> ''''"
      by code_simp
    show "tp_data demo_t2 = Some (JObj [])" by (rule demo_t2_facts)
    show "JObj [] \<noteq> JNull" by simp
  qed (simp_all add: demo_t2_facts)
  then show ?thesis by (simp add: cmd)
qed

definition demo_draft :: tstore where
  "demo_draft = the (run_demo demo_tmpl_env 0 [\<lambda>_. CmdTCreate demo_create_tmpl] empty_tstore)"

definition demo_draft_row :: tmpl where
  "demo_draft_row = hd (templates demo_draft)"

lemma demo_draft_rows: "templates demo_draft = [demo_draft_row]"
  by code_simp

lemma demo_draft_facts: "tp_did demo_draft_row = ''t1''" "tp_state demo_draft_row = TsDraft"
  by code_simp+

lemma demo_draft_reachable: "template_reachable demo_draft"
proof -
  have "run_demo demo_tmpl_env 0 [\<lambda>_. CmdTCreate demo_create_tmpl] empty_tstore \<noteq> None" by code_simp
  then have "run_demo demo_tmpl_env 0 [\<lambda>_. CmdTCreate demo_create_tmpl] empty_tstore = Some demo_draft"
    by (auto simp: demo_draft_def)
  then show ?thesis by (rule run_demo_reachable) (simp_all add: template_reachable_def begins)
qed

theorem registration_skips_review_witness:
  "states_of demo_draft ''t1'' = Some TsDraft
    \<and> (\<exists>s'. Template_Register demo_tmpl_env 1 (demo_register_tmpl ''t1'') demo_draft demo_draft = Inr (''t1'', s')
          \<and> states_of s' ''t1'' = Some TsRegistered)"
proof -
  have cmd: "tc_did (demo_register_tmpl ''t1'') = ''t1''" by code_simp
  have lookup: "lookup_template ''t1'' demo_draft = Some demo_draft_row"
    by (simp add: lookup_template_def demo_draft_rows demo_draft_facts)
  have free: "version_free ''t1'' (tp_version demo_draft_row) (tp_base demo_draft_row) (abs_templates demo_draft)"
    by (simp add: version_free_def abs_templates_def lookup_template_def demo_draft_rows demo_draft_facts)
  have "\<exists>s'. Template_Register demo_tmpl_env 1 (demo_register_tmpl ''t1'') demo_draft demo_draft
      = Inr (tc_did (demo_register_tmpl ''t1''), s')
    \<and> states_of s' (tc_did (demo_register_tmpl ''t1'')) = Some TsRegistered
    \<and> (tp_type demo_draft_row = TyContractTemplate
        \<longrightarrow> (\<exists>row. ReadContractTemplateDataByID (tc_did (demo_register_tmpl ''t1'')) s' = Some row))"
    by (rule registration_skips_review [OF demo_draft_reachable, where sign = Some])
      (simp_all add: cmd lookup free demo_tmpl_env_def)
  then show ?thesis using lookup by (auto simp: cmd demo_draft_facts)
qed

end
