(* ===== verification/Trust_Gate.thy ===== *)
theory Trust_Gate
  imports Settlement_Wire
begin

text \<open>
  The federation trust gate (\<open>dcstodcs/trustgate.go\<close>, \<open>credentialvalidity.go\<close>): a peer's
  self-signed agreement credential is fetched from the peer, must identify the peer, be
  signed by a key the peer publishes for assertions, name this instance's own federation
  rules and be in force; then the local policy endpoint has to allow the interaction.
  What the network answers during one call is the record \<open>outside\<close>.
\<close>

section \<open>The network and the configuration\<close>

text \<open>
  \<open>out_did\<close> is \<open>identity.FetchDIDDocument\<close>, \<open>out_get\<close> an HTTP GET that answers 200,
  \<open>out_schemes\<close> is \<open>DIDWebSchemes\<close>, \<open>out_policy\<close> the status of the policy endpoint when it
  answers, \<open>out_proof\<close> is \<open>VerifyDataIntegrityProof\<close>, \<open>out_rules\<close> is \<open>federation.Hash\<close>,
  \<open>out_time\<close> reads an RFC 3339 timestamp.
\<close>

record outside =
  out_did :: "string \<Rightarrow> did_document option"
  out_get :: "string \<Rightarrow> string option"
  out_schemes :: "string \<Rightarrow> string list"
  out_policy :: "string \<Rightarrow> string \<Rightarrow> string \<Rightarrow> string \<Rightarrow> int option"
  out_pdp_url :: string
  out_proof :: "string \<Rightarrow> point \<Rightarrow> bool"
  out_rules :: string
  out_parse :: "string \<Rightarrow> json option"
  out_time :: "string \<Rightarrow> int option"

datatype direction = Inbound | Outbound

fun direction_string :: "direction \<Rightarrow> string" where
  "direction_string Inbound = ''inbound''"
| "direction_string Outbound = ''outbound''"

section \<open>The validity window\<close>

definition hour :: int where
  "hour = 60 * 60 * 1000000000"

definition credentialClockSkew :: int where
  "credentialClockSkew = 5 * 60 * 1000000000"

definition MaxAgreementCredentialLifetime :: int where
  "MaxAgreementCredentialLifetime = 7 * 24 * hour"

definition firstNonEmpty :: "string \<Rightarrow> string \<Rightarrow> string" where
  "firstNonEmpty a b = (if trim_space a \<noteq> '''' then a else if trim_space b \<noteq> '''' then b else '''')"

text \<open>The inner \<open>None\<close> is the zero time.\<close>

definition parseCredentialTime :: "(string \<Rightarrow> int option) \<Rightarrow> string \<Rightarrow> int option option" where
  "parseCredentialTime time value =
    (if trim_space value = '''' then Some None
     else map_option (\<lambda>t. if t = go_zero_time then None else Some t) (time (trim_space value)))"

datatype validity_error =
    WindowUndecodable | BadValidFrom | BadValidUntil | NeverExpires | EndsBeforeItBegins
  | NotYetInForce | WindowTooLong | CredentialExpired

definition validity_option :: "validity_error \<Rightarrow> 'a option \<Rightarrow> (validity_error, 'a) result" where
  "validity_option e m = (case m of None \<Rightarrow> Inl e | Some x \<Rightarrow> Inr x)"

lemma validity_option_Inr [simp]: "validity_option e m = Inr x \<longleftrightarrow> m = Some x"
  by (auto simp: validity_option_def split: option.splits)

definition window_in_force :: "int option \<Rightarrow> int option \<Rightarrow> int \<Rightarrow> (validity_error, unit) result" where
  "window_in_force from_at until_at now =
    (case until_at of
       None \<Rightarrow> Inl NeverExpires
     | Some u \<Rightarrow>
         let start = (case from_at of None \<Rightarrow> now | Some f \<Rightarrow> f) in
         require (case from_at of None \<Rightarrow> True | Some f \<Rightarrow> f \<le> u) EndsBeforeItBegins
         (require (case from_at of None \<Rightarrow> True | Some f \<Rightarrow> f \<le> now + credentialClockSkew) NotYetInForce
         (require (u - start \<le> MaxAgreementCredentialLifetime) WindowTooLong
         (require (now - credentialClockSkew \<le> u) CredentialExpired (Inr ())))))"

definition requireCredentialInForce ::
  "(string \<Rightarrow> int option) \<Rightarrow> json_map \<Rightarrow> int \<Rightarrow> (validity_error, unit) result" where
  "requireCredentialInForce time m now =
    (case (read_string ''validFrom'' m, read_string ''validUntil'' m,
           read_string ''issuanceDate'' m, read_string ''expirationDate'' m) of
       (Some vf, Some vu, Some idate, Some xdate) \<Rightarrow>
         bind_res (validity_option BadValidFrom (parseCredentialTime time (firstNonEmpty vf idate))) (\<lambda>from_at.
         bind_res (validity_option BadValidUntil (parseCredentialTime time (firstNonEmpty vu xdate))) (\<lambda>until_at.
           window_in_force from_at until_at now))
     | _ \<Rightarrow> Inl WindowUndecodable)"

section \<open>The agreement credential\<close>

datatype credential_error =
    DocumentUnreachable | DocumentOfAnother | CredentialUnreachable | CredentialUndecodable
  | NoIssuer | IssuerUnresolvable | PeerUnresolvable | IssuerIsAnother | WrongPurpose
  | NotAnAssertionKey | ProofInvalid | NoTermsOfUse | OtherRules | NotInForce validity_error

definition credential_option :: "credential_error \<Rightarrow> 'a option \<Rightarrow> (credential_error, 'a) result" where
  "credential_option e m = (case m of None \<Rightarrow> Inl e | Some x \<Rightarrow> Inr x)"

lemma credential_option_Inr [simp]: "credential_option e m = Inr x \<longleftrightarrow> m = Some x"
  by (auto simp: credential_option_def split: option.splits)

definition requireDocumentIsFor :: "did_document \<Rightarrow> string \<Rightarrow> bool" where
  "requireDocumentIsFor d requested =
    (case dd_id d of None \<Rightarrow> False | Some docID \<Rightarrow> SameDIDWeb docID requested)"

definition DIDWebBaseURL :: "string \<Rightarrow> string \<Rightarrow> string list \<Rightarrow> string" where
  "DIDWebBaseURL scheme host segments =
    scheme @ ''://'' @ host @ (if segments \<noteq> [] then ''/'' @ join_on (CHR ''/'') segments else '''')"

definition didWebTarget :: "string \<Rightarrow> string option" where
  "didWebTarget did = map_option (\<lambda>(host, segments). DIDWebBaseURL ''https'' host segments) (DIDWebPath did)"

fun fetch_any :: "outside \<Rightarrow> string list \<Rightarrow> string option" where
  "fetch_any Out [] = None"
| "fetch_any Out (url # urls) = (case out_get Out url of Some body \<Rightarrow> Some body | None \<Rightarrow> fetch_any Out urls)"

definition fetchAgreementCredential :: "outside \<Rightarrow> string \<Rightarrow> string option" where
  "fetchAgreementCredential Out peer =
    (case DIDWebPath peer of
       None \<Rightarrow> None
     | Some (host, segments) \<Rightarrow>
         fetch_any Out (map (\<lambda>scheme. DIDWebBaseURL scheme host segments @ ''/.well-known/dcs-agreement-credential.json'')
           (out_schemes Out host)))"

text \<open>A raw member keeps its last value, a \<open>null\<close> included.\<close>

definition read_raw :: "string \<Rightarrow> json_map \<Rightarrow> json option" where
  "read_raw name m =
    (case map snd (filter (\<lambda>(k, _). to_lower k = to_lower name) m) of [] \<Rightarrow> None | vs \<Rightarrow> Some (last vs))"

text \<open>A struct member: the objects under its key are read one after the other.\<close>

definition read_struct :: "string \<Rightarrow> json_map \<Rightarrow> json_map option" where
  "read_struct name m = map_option concat (those (map jmap (member_values name m)))"

definition issuerIdentifier :: "json option \<Rightarrow> string option" where
  "issuerIdentifier raw =
    (case raw of
       Some (JStr s) \<Rightarrow> Some s
     | Some JNull \<Rightarrow> Some ''''
     | Some (JObj m) \<Rightarrow> (case read_string ''id'' m of
                          Some s \<Rightarrow> if s \<noteq> '''' then Some s else None | None \<Rightarrow> None)
     | _ \<Rightarrow> None)"

definition policy_members :: "json \<Rightarrow> (string \<times> string) option" where
  "policy_members v =
    (let m = (case v of JObj m \<Rightarrow> Some m | JNull \<Rightarrow> Some [] | _ \<Rightarrow> None)
     in Option.bind m (\<lambda>m.
        case (read_string ''type'' m, read_string ''hash'' m) of
          (Some t, Some h) \<Rightarrow> Some (t, h) | _ \<Rightarrow> None))"

definition list_hash :: "(string \<times> string) list \<Rightarrow> string option" where
  "list_hash ps = map_option snd (find (\<lambda>(t, h). t = ''TrustFrameworkPolicy'' \<and> h \<noteq> '''') ps)"

definition termsOfUseHash :: "json option \<Rightarrow> string option" where
  "termsOfUseHash raw =
    (case raw of
       None \<Rightarrow> None
     | Some v \<Rightarrow>
         (case policy_members v of
            Some (_, h) \<Rightarrow> if h \<noteq> '''' then Some h else None
          | None \<Rightarrow> (case v of JArr vs \<Rightarrow> Option.bind (those (map policy_members vs)) list_hash | _ \<Rightarrow> None)))"

definition lift_validity :: "(validity_error, 'a) result \<Rightarrow> (credential_error, 'a) result" where
  "lift_validity m = (case m of Inl e \<Rightarrow> Inl (NotInForce e) | Inr x \<Rightarrow> Inr x)"

lemma lift_validity_Inr [simp]: "lift_validity m = Inr x \<longleftrightarrow> m = Inr x"
  by (auto simp: lift_validity_def split: sum.splits)

definition verifyAgreementCredential :: "outside \<Rightarrow> int \<Rightarrow> string \<Rightarrow> (credential_error, string) result" where
  "verifyAgreementCredential Out now peer =
    bind_res (credential_option DocumentUnreachable (out_did Out peer)) (\<lambda>doc.
    require (requireDocumentIsFor doc peer) DocumentOfAnother
    (bind_res (credential_option CredentialUnreachable (fetchAgreementCredential Out peer)) (\<lambda>credential.
     bind_res (credential_option CredentialUndecodable
       (case out_parse Out credential of Some (JObj m) \<Rightarrow> Some m | Some JNull \<Rightarrow> Some [] | _ \<Rightarrow> None)) (\<lambda>m.
     bind_res (credential_option CredentialUndecodable (read_struct ''proof'' m)) (\<lambda>proof.
     bind_res (credential_option CredentialUndecodable (read_string ''verificationMethod'' proof)) (\<lambda>method.
     bind_res (credential_option CredentialUndecodable (read_string ''proofPurpose'' proof)) (\<lambda>purpose.
     bind_res (credential_option NoIssuer (issuerIdentifier (read_raw ''issuer'' m))) (\<lambda>issuer.
     bind_res (credential_option IssuerUnresolvable (didWebTarget issuer)) (\<lambda>issuerTarget.
     bind_res (credential_option PeerUnresolvable (didWebTarget peer)) (\<lambda>peerTarget.
     require (issuerTarget = peerTarget) IssuerIsAnother
    (require (trim_space purpose = ''assertionMethod'') WrongPurpose
    (bind_res (credential_option NotAnAssertionKey (AssertionKey (Some doc) method)) (\<lambda>vcPub.
     require (out_proof Out credential vcPub) ProofInvalid
    (bind_res (credential_option NoTermsOfUse (termsOfUseHash (read_raw ''termsOfUse'' m))) (\<lambda>rulesHash.
     require (rulesHash = out_rules Out) OtherRules
    (bind_res (lift_validity (requireCredentialInForce (out_time Out) m now)) (\<lambda>_.
       Inr credential)))))))))))))))))"

section \<open>The gate\<close>

definition consultPolicyEndpoint :: "outside \<Rightarrow> string \<Rightarrow> direction \<Rightarrow> string \<Rightarrow> string \<Rightarrow> bool" where
  "consultPolicyEndpoint Out peer dir did state =
    (trim_space (out_pdp_url Out) \<noteq> '''' \<and>
     (case out_policy Out peer (direction_string dir) did state of
        None \<Rightarrow> False | Some status \<Rightarrow> 200 \<le> status \<and> status < 300))"

definition TrustGate_Check ::
  "outside \<Rightarrow> int \<Rightarrow> string \<Rightarrow> direction \<Rightarrow> string \<Rightarrow> string \<Rightarrow> (gate_kind, unit) result" where
  "TrustGate_Check Out now peer dir did state =
    (case verifyAgreementCredential Out now peer of
       Inl _ \<Rightarrow> Inl AgreementFailure
     | Inr _ \<Rightarrow> require (consultPolicyEndpoint Out peer dir did state) PolicyFailure (Inr ()))"

section \<open>Properties\<close>

lemma window_in_force_Inr:
  "window_in_force f u now = Inr () \<longleftrightarrow>
    (\<exists>v. u = Some v \<and> now - credentialClockSkew \<le> v
      \<and> (case f of None \<Rightarrow> v - now \<le> MaxAgreementCredentialLifetime
          | Some w \<Rightarrow> w \<le> v \<and> w \<le> now + credentialClockSkew \<and> v - w \<le> MaxAgreementCredentialLifetime))"
  by (auto simp: window_in_force_def result_iffs Let_def split: option.splits)

lemma in_force_Inr:
  "requireCredentialInForce time m now = Inr () \<longleftrightarrow>
    (\<exists>vf vu i x f u. read_string ''validFrom'' m = Some vf \<and> read_string ''validUntil'' m = Some vu
       \<and> read_string ''issuanceDate'' m = Some i \<and> read_string ''expirationDate'' m = Some x
       \<and> parseCredentialTime time (firstNonEmpty vf i) = Some f
       \<and> parseCredentialTime time (firstNonEmpty vu x) = Some u \<and> window_in_force f u now = Inr ())"
  by (auto simp: requireCredentialInForce_def result_iffs split: option.splits)

text \<open>
  A peer's standing ends.  A credential that is accepted at two instants is accepted
  at no more than seven days and ten minutes between them, whatever validity window it
  claims and in whichever spelling: without the peer signing a new one the gate closes.
\<close>

theorem credential_standing_ends:
  assumes "requireCredentialInForce time m now = Inr ()" "requireCredentialInForce time m later = Inr ()"
  shows "later - now \<le> MaxAgreementCredentialLifetime + 2 * credentialClockSkew"
proof -
  obtain f u where w: "window_in_force f u now = Inr ()" "window_in_force f u later = Inr ()"
    using assms unfolding in_force_Inr by auto
  have skew: "0 \<le> credentialClockSkew" by (simp add: credentialClockSkew_def)
  from w obtain v where v: "u = Some v" "later - credentialClockSkew \<le> v" unfolding window_in_force_Inr by auto
  show ?thesis
  proof (cases f)
    case None
    with w(1) v(1) have "v - now \<le> MaxAgreementCredentialLifetime" by (simp add: window_in_force_Inr)
    with v skew show ?thesis by simp
  next
    case (Some b)
    with w(1) v(1) have "b \<le> now + credentialClockSkew" "v - b \<le> MaxAgreementCredentialLifetime"
      by (simp_all add: window_in_force_Inr)
    with v skew show ?thesis by simp
  qed
qed

text \<open>
  C10: the gate fails closed.  It lets an interaction through only when the document
  fetched for the peer identifies the peer, the credential served under the peer's own
  address was issued by the peer and verifies against a key this document publishes for
  assertions, it names this instance's own federation rules and is in force, and the
  policy endpoint is configured, answered, and answered with success.
\<close>

theorem trust_gate_fails_closed:
  assumes "TrustGate_Check Out now peer dir did state = Inr ()"
  shows "\<exists>doc docID credential m key.
    out_did Out peer = Some doc \<and> dd_id doc = Some docID \<and> SameDIDWeb docID peer
    \<and> fetchAgreementCredential Out peer = Some credential \<and> out_parse Out credential = Some (JObj m)
    \<and> (\<exists>issuer. issuerIdentifier (read_raw ''issuer'' m) = Some issuer \<and> didWebTarget issuer = didWebTarget peer)
    \<and> PublishesKeyFor PurposeAssertion (Some key) doc \<and> out_proof Out credential key
    \<and> termsOfUseHash (read_raw ''termsOfUse'' m) = Some (out_rules Out)
    \<and> requireCredentialInForce (out_time Out) m now = Inr ()
    \<and> (\<exists>status. out_policy Out peer (direction_string dir) did state = Some status \<and> 200 \<le> status \<and> status < 300)"
proof -
  from assms obtain cred where cred: "verifyAgreementCredential Out now peer = Inr cred"
    and pol: "consultPolicyEndpoint Out peer dir did state"
    by (auto simp: TrustGate_Check_def require_Inr_iff split: sum.splits)
  from cred obtain doc m named key issuer target where c: "out_did Out peer = Some doc"
      "requireDocumentIsFor doc peer" "fetchAgreementCredential Out peer = Some cred"
      "(case out_parse Out cred of Some (JObj m) \<Rightarrow> Some m | Some JNull \<Rightarrow> Some [] | _ \<Rightarrow> None) = Some m"
      "issuerIdentifier (read_raw ''issuer'' m) = Some issuer"
      "didWebTarget issuer = Some target" "didWebTarget peer = Some target"
      "AssertionKey (Some doc) named = Some key" "out_proof Out cred key"
      "termsOfUseHash (read_raw ''termsOfUse'' m) = Some (out_rules Out)"
      "requireCredentialInForce (out_time Out) m now = Inr ()"
    unfolding verifyAgreementCredential_def result_iffs credential_option_Inr lift_validity_Inr by auto
  obtain meth where "MethodFor PurposeAssertion named doc = Some meth" "ECPublicKey meth = Some key"
    using c(8) by (auto simp: AssertionKey_def bind_eq_Some_conv split: if_splits)
  then have "PublishesKeyFor PurposeAssertion (Some key) doc"
    using MethodFor_published by (fastforce simp: PublishesKeyFor_iff)
  moreover obtain docID where "dd_id doc = Some docID" "SameDIDWeb docID peer"
    using c(2) by (auto simp: requireDocumentIsFor_def split: option.splits)
  moreover obtain status where "out_policy Out peer (direction_string dir) did state = Some status"
      "200 \<le> status" "status < 300"
    using pol by (auto simp: consultPolicyEndpoint_def split: option.splits)
  moreover have "termsOfUseHash (read_raw ''termsOfUse'' []) = None" by (simp add: read_raw_def termsOfUseHash_def)
  then have "out_parse Out cred = Some (JObj m)"
    using c(4,10) by (auto split: option.splits json.splits)
  ultimately show ?thesis using c by (intro exI [of _ doc] exI [of _ docID] exI [of _ cred] exI [of _ m] exI [of _ key]) auto
qed

end
