(* ===== verification/Semantic_Hub.thy ===== *)
theory Semantic_Hub
  imports Semantic_Bundle
begin

text \<open>
  The store of versioned vocabulary documents (\<open>backend/internal/semantichub\<close>):
  registering and activating versions, the genesis seed, reading a pinned bundle, and the
  exchange of pinned shape libraries with a peer (\<open>peershapes.go\<close>,
  \<open>dcstodcs/pinnedshapes.go\<close>), together with \<open>EffectiveShapeRefs\<close> of
  \<open>base/validation/shapesource.go\<close>.  The table is a list of rows in insertion order; its
  checks, its 32-bit version column and its primary key are those of the migrations.
\<close>

section \<open>Rows\<close>

record schema_row =
  sh_name :: string
  sh_kind :: string
  sh_version :: int
  sh_media :: string
  sh_content :: string
  sh_active :: bool
  sh_created_by :: string

type_synonym hub = "schema_row list"

datatype hub_error =
    SchemaNotFound string string | VersionTaken string string int | NegativeVersion
  | RowRejected | OutOfRange | EnvelopeShipped string | NotPinned string int
  | ContentDiffers string int | NotCarried string int | EmptyBundle
  | CanonicalUnavailable | InvalidShapesPin

definition ContextName :: string where "ContextName = ''facis-dcs''"
definition ShapesName :: string where "ShapesName = ''facis-dcs''"
definition ClauseCatalogName :: string where "ClauseCatalogName = ''clause-catalog''"
definition ShapesKind :: string where "ShapesKind = ''shapes''"
definition PeerShapesKind :: string where "PeerShapesKind = ''peer-shapes''"

definition IsEnvelopeShapes :: "string \<Rightarrow> bool" where
  "IsEnvelopeShapes name = (name = ShapesName \<or> name = ClauseCatalogName)"

definition of_entry :: "string \<Rightarrow> string \<Rightarrow> schema_row \<Rightarrow> bool" where
  "of_entry name kind r = (sh_name r = name \<and> sh_kind r = kind)"

definition of_version :: "string \<Rightarrow> string \<Rightarrow> int \<Rightarrow> schema_row \<Rightarrow> bool" where
  "of_version name kind v r = (of_entry name kind r \<and> sh_version r = v)"

definition fits_int4 :: "int \<Rightarrow> bool" where
  "fits_int4 v = (- (2 ^ 31) \<le> v \<and> v < 2 ^ 31)"

section \<open>Registering\<close>

definition highest_version :: "string \<Rightarrow> string \<Rightarrow> hub \<Rightarrow> int" where
  "highest_version name kind h = fold max (map sh_version (filter (of_entry name kind) h)) 0"

definition resolveVersion :: "string \<Rightarrow> string \<Rightarrow> int \<Rightarrow> hub \<Rightarrow> (hub_error, int) result" where
  "resolveVersion name kind requested h =
    (if requested < 0 then Inl NegativeVersion
     else if requested = 0 then Inr (highest_version name kind h + 1)
     else require (fits_int4 requested) OutOfRange
       (if list_ex (of_version name kind requested) h then Inl (VersionTaken name kind requested)
        else Inr requested))"

definition activateVersion :: "string \<Rightarrow> string \<Rightarrow> int \<Rightarrow> hub \<Rightarrow> hub" where
  "activateVersion name kind v h =
    map (\<lambda>r. if of_entry name kind r then r\<lparr>sh_active := (sh_version r = v)\<rparr> else r) h"

definition schema_kinds :: "string list" where
  "schema_kinds = [''context'', ''shapes'', ''profile'', ''ontology'', ''peer-shapes'']"

definition row_accepted :: "schema_row \<Rightarrow> bool" where
  "row_accepted r = (sh_name r \<noteq> '''' \<and> sh_content r \<noteq> '''' \<and> sh_kind r \<in> set schema_kinds
     \<and> 0 < sh_version r \<and> fits_int4 (sh_version r))"

definition Register ::
  "string \<Rightarrow> string \<Rightarrow> string \<Rightarrow> string \<Rightarrow> string \<Rightarrow> int \<Rightarrow> bool \<Rightarrow> hub \<Rightarrow> (hub_error, int \<times> hub) result" where
  "Register name kind media content createdBy version activate h =
    bind_res (resolveVersion name kind version h) (\<lambda>assigned.
      let row = \<lparr>sh_name = name, sh_kind = kind, sh_version = assigned, sh_media = media,
                 sh_content = content, sh_active = False, sh_created_by = createdBy\<rparr>
      in require (row_accepted row) RowRejected
         (Inr (assigned, if activate then activateVersion name kind assigned (h @ [row]) else h @ [row])))"

definition Activate :: "string \<Rightarrow> string \<Rightarrow> int \<Rightarrow> hub \<Rightarrow> (hub_error, hub) result" where
  "Activate name kind v h =
    (if list_ex (of_version name kind v) h then Inr (activateVersion name kind v h)
     else Inl (SchemaNotFound name kind))"

text \<open>The version with the highest number (\<open>ORDER BY version DESC LIMIT 1\<close>).\<close>

definition latest_schema :: "string \<Rightarrow> string \<Rightarrow> hub \<Rightarrow> schema_row option" where
  "latest_schema name kind h = find (of_version name kind (highest_version name kind h)) h"

text \<open>One genesis document, and the seed over all of them in one transaction.\<close>

record genesis_document =
  gd_name :: string
  gd_kind :: string
  gd_media :: string
  gd_content :: string

definition seed_one :: "genesis_document \<Rightarrow> hub \<Rightarrow> (hub_error, hub) result" where
  "seed_one g h =
    (let register = map_sum id snd (Register (gd_name g) (gd_kind g) (gd_media g) (gd_content g) ''system:genesis'' 0 True h)
     in case latest_schema (gd_name g) (gd_kind g) h of
          None \<Rightarrow> register
        | Some r \<Rightarrow> if sh_content r = gd_content g then Inr h else register)"

fun Seed :: "genesis_document list \<Rightarrow> hub \<Rightarrow> (hub_error, hub) result" where
  "Seed [] h = Inr h"
| "Seed (g # gs) h = bind_res (seed_one g h) (Seed gs)"

section \<open>Reading\<close>

definition hub_Get :: "string \<Rightarrow> string \<Rightarrow> int \<Rightarrow> hub \<Rightarrow> (hub_error, schema_row) result" where
  "hub_Get name kind v h =
    (if 0 < v then
       require (fits_int4 v) OutOfRange
       (case find (of_version name kind v) h of
          None \<Rightarrow> Inl (SchemaNotFound name kind) | Some r \<Rightarrow> Inr r)
     else (case find (\<lambda>r. of_entry name kind r \<and> sh_active r) h of
             None \<Rightarrow> Inl (SchemaNotFound name kind) | Some r \<Rightarrow> Inr r))"

definition is_not_found :: "hub_error \<Rightarrow> bool" where
  "is_not_found e = (case e of SchemaNotFound _ _ \<Rightarrow> True | NotCarried _ _ \<Rightarrow> True | _ \<Rightarrow> False)"

text \<open>\<open>x, err := a; if errors.Is(err, ErrSchemaNotFound) { x, err = b }\<close>.\<close>

definition or_if_missing :: "(hub_error, 'a) result \<Rightarrow> (hub_error, 'a) result \<Rightarrow> (hub_error, 'a) result" where
  "or_if_missing a b = (case a of Inl e \<Rightarrow> if is_not_found e then b else Inl e | Inr x \<Rightarrow> Inr x)"

definition LocalShapesVersion :: "string \<Rightarrow> int \<Rightarrow> hub \<Rightarrow> (hub_error, schema_row) result" where
  "LocalShapesVersion name v h = hub_Get name ShapesKind v h"

definition PeerShapesVersion :: "string \<Rightarrow> int \<Rightarrow> hub \<Rightarrow> (hub_error, schema_row) result" where
  "PeerShapesVersion name v h = hub_Get name PeerShapesKind v h"

definition pinnedShapesContent :: "hub \<Rightarrow> string \<times> int \<Rightarrow> (hub_error, string) result" where
  "pinnedShapesContent h ref =
    or_if_missing (map_sum id sh_content (hub_Get (fst ref) ShapesKind (snd ref) h))
      (map_sum id sh_content
        (if IsEnvelopeShapes (fst ref) then hub_Get (fst ref) ShapesKind 0 h
         else hub_Get (fst ref) PeerShapesKind (snd ref) h))"

fun bundle_parts :: "hub \<Rightarrow> (string \<times> int) list \<Rightarrow> (hub_error, string list) result" where
  "bundle_parts h [] = Inr []"
| "bundle_parts h (ref # refs) =
     bind_res (pinnedShapesContent h ref) (\<lambda>c. bind_res (bundle_parts h refs) (\<lambda>cs. Inr (c # cs)))"

definition join_parts :: "string list \<Rightarrow> string" where
  "join_parts ps = (case ps of [] \<Rightarrow> '''' | p # ps \<Rightarrow> p @ concat (map (\<lambda>q. [char_of (10 :: nat), char_of (10 :: nat)] @ q) ps))"

definition ShapesBundleAt :: "hub \<Rightarrow> (string \<times> int) list \<Rightarrow> (hub_error, string) result" where
  "ShapesBundleAt h refs =
    require (refs \<noteq> []) EmptyBundle (bind_res (bundle_parts h refs) (\<lambda>ps. Inr (join_parts ps)))"

section \<open>What a document pins\<close>

definition shape_ref :: "json \<Rightarrow> (hub_error, string \<times> int) result" where
  "shape_ref item =
    (let iri = anchorIRI item; version = int (anchorVersion iri)
     in case after_infix hubShapesAnchorPath iri of
          None \<Rightarrow> Inl InvalidShapesPin
        | Some rest \<Rightarrow>
            let name = takeWhile (\<lambda>c. c \<noteq> CHR ''?'') rest
            in if version \<le> 0 \<or> trim_space name = '''' then Inl InvalidShapesPin else Inr (name, version))"

fun shape_refs :: "json list \<Rightarrow> (hub_error, (string \<times> int) list) result" where
  "shape_refs [] = Inr []"
| "shape_refs (item # items) =
     bind_res (shape_ref item) (\<lambda>r. bind_res (shape_refs items) (\<lambda>rs. Inr (r # rs)))"

definition EffectiveShapeRefs :: "json_map \<Rightarrow> (hub_error, (string \<times> int) list) result" where
  "EffectiveShapeRefs contract =
    (case obj_get contract ''dcs:effectiveShapes'' of
       None \<Rightarrow> Inr []
     | Some (JArr (item # items)) \<Rightarrow> shape_refs (item # items)
     | Some _ \<Rightarrow> Inl InvalidShapesPin)"

section \<open>Sending and receiving pinned libraries\<close>

text \<open>A library on the wire.\<close>

record shipped_shapes =
  pp_name :: string
  pp_version :: int
  pp_media :: string
  pp_content :: string

fun CollectPinnedShapes :: "hub \<Rightarrow> (string \<times> int) list \<Rightarrow> (hub_error, shipped_shapes list) result" where
  "CollectPinnedShapes h [] = Inr []"
| "CollectPinnedShapes h ((name, v) # refs) =
     (if IsEnvelopeShapes name then CollectPinnedShapes h refs
      else bind_res (or_if_missing (LocalShapesVersion name v h) (PeerShapesVersion name v h)) (\<lambda>r.
           bind_res (CollectPinnedShapes h refs) (\<lambda>entries.
             Inr (\<lparr>pp_name = sh_name r, pp_version = sh_version r, pp_media = sh_media r,
                   pp_content = sh_content r\<rparr> # entries))))"

definition heldPinnedShapes :: "hub \<Rightarrow> string \<times> int \<Rightarrow> (hub_error, schema_row option) result" where
  "heldPinnedShapes h ref =
    or_if_missing (map_sum id Some (LocalShapesVersion (fst ref) (snd ref) h))
      (or_if_missing (map_sum id Some (PeerShapesVersion (fst ref) (snd ref) h)) (Inr None))"

fun check_shipped :: "(string \<times> int) list \<Rightarrow> shipped_shapes list \<Rightarrow> (hub_error, unit) result" where
  "check_shipped pinned [] = Inr ()"
| "check_shipped pinned (e # es) =
     require (\<not> IsEnvelopeShapes (pp_name e)) (EnvelopeShipped (pp_name e))
     (require ((pp_name e, pp_version e) \<in> set pinned) (NotPinned (pp_name e) (pp_version e))
     (check_shipped pinned es))"

text \<open>Entries are kept by reference, the last one shipped wins.\<close>

definition shipped_for :: "shipped_shapes list \<Rightarrow> string \<times> int \<Rightarrow> shipped_shapes option" where
  "shipped_for es ref = find (\<lambda>e. (pp_name e, pp_version e) = ref) (rev es)"

fun plan_installs ::
  "hub \<Rightarrow> shipped_shapes list \<Rightarrow> (string \<times> int) list \<Rightarrow> (hub_error, shipped_shapes list) result" where
  "plan_installs h shipped [] = Inr []"
| "plan_installs h shipped (ref # refs) =
     (if IsEnvelopeShapes (fst ref) then plan_installs h shipped refs
      else bind_res (heldPinnedShapes h ref) (\<lambda>held.
        (case (held, shipped_for shipped ref) of
           (Some r, Some e) \<Rightarrow> if pp_content e \<noteq> sh_content r then Inl (ContentDiffers (fst ref) (snd ref))
                             else plan_installs h shipped refs
         | (Some r, None) \<Rightarrow> plan_installs h shipped refs
         | (None, None) \<Rightarrow> Inl (NotCarried (fst ref) (snd ref))
         | (None, Some e) \<Rightarrow> bind_res (plan_installs h shipped refs) (\<lambda>es. Inr (e # es)))))"

definition PlanPinnedShapesImport ::
  "hub \<Rightarrow> (string \<times> int) list \<Rightarrow> shipped_shapes list \<Rightarrow> (hub_error, shipped_shapes list) result" where
  "PlanPinnedShapesImport h pinned shipped =
    bind_res (check_shipped pinned shipped) (\<lambda>_. plan_installs h shipped pinned)"

text \<open>Every entry is stored in a transaction of its own: an error leaves the ones before it.\<close>

fun StorePinnedShapes :: "string \<Rightarrow> shipped_shapes list \<Rightarrow> hub \<Rightarrow> (hub_error, unit) result \<times> hub" where
  "StorePinnedShapes createdBy [] h = (Inr (), h)"
| "StorePinnedShapes createdBy (e # es) h =
     (case Register (pp_name e) PeerShapesKind (pp_media e) (pp_content e) createdBy (pp_version e) False h of
        Inl err \<Rightarrow> (Inl err, h)
      | Inr (_, h') \<Rightarrow> StorePinnedShapes createdBy es h')"

section \<open>Facts\<close>

lemma fold_max_ge: "(m :: int) \<le> fold max xs m" "x \<in> set xs \<Longrightarrow> x \<le> fold max xs m"
proof -
  have ge: "(m :: int) \<le> fold max xs m" for m xs
  proof (induction xs arbitrary: m)
    case (Cons y ys)
    have "m \<le> max y m" by simp
    also have "\<dots> \<le> fold max ys (max y m)" by (rule Cons)
    finally show ?case by simp
  qed simp
  show "(m :: int) \<le> fold max xs m" by (rule ge)
  show "x \<in> set xs \<Longrightarrow> x \<le> fold max xs m"
  proof (induction xs arbitrary: m)
    case (Cons y ys)
    show ?case
    proof (cases "x = y")
      case True
      have "y \<le> max y m" by simp
      also have "\<dots> \<le> fold max ys (max y m)" by (rule ge)
      finally show ?thesis by (simp add: True)
    next
      case False
      with Cons show ?thesis by simp
    qed
  qed simp
qed

lemma highest_version_ge:
  "r \<in> set h \<Longrightarrow> of_entry name kind r \<Longrightarrow> sh_version r \<le> highest_version name kind h"
  "0 \<le> highest_version name kind h"
  by (auto simp: highest_version_def intro: fold_max_ge)

lemma resolveVersion_Inr:
  assumes "resolveVersion name kind v h = Inr a"
  shows "0 < a" "\<not> list_ex (of_version name kind a) h" "v \<noteq> 0 \<Longrightarrow> a = v"
proof -
  have "\<not> list_ex (of_version name kind (highest_version name kind h + 1)) h"
    using highest_version_ge(1) by (fastforce simp: list_ex_iff of_version_def)
  with assms show "0 < a" "\<not> list_ex (of_version name kind a) h" "v \<noteq> 0 \<Longrightarrow> a = v"
    using highest_version_ge(2) [of name kind h]
    by (auto simp: resolveVersion_def require_Inr_iff split: if_splits)
qed

lemma Register_Inr:
  assumes "Register name kind media content createdBy v activate h = Inr (a, h')"
  obtains row where "sh_name row = name" "sh_kind row = kind" "sh_version row = a" "sh_content row = content"
    "\<not> sh_active row" "row_accepted row" "\<not> list_ex (of_version name kind a) h" "v \<noteq> 0 \<Longrightarrow> a = v"
    "h' = (if activate then activateVersion name kind a (h @ [row]) else h @ [row])"
proof -
  let ?row = "\<lparr>sh_name = name, sh_kind = kind, sh_version = a, sh_media = media,
      sh_content = content, sh_active = False, sh_created_by = createdBy\<rparr>"
  have r: "resolveVersion name kind v h = Inr a" "row_accepted ?row"
    and h': "h' = (if activate then activateVersion name kind a (h @ [?row]) else h @ [?row])"
    using assms by (auto simp: Register_def result_iffs Let_def)
  show thesis
    by (rule that [of ?row]) (use r(2) h' resolveVersion_Inr [OF r(1)] in simp_all)
qed

text \<open>What a row says, its active flag aside.\<close>

definition frozen :: "schema_row \<Rightarrow> string \<times> string \<times> int \<times> string \<times> string" where
  "frozen r = (sh_name r, sh_kind r, sh_version r, sh_media r, sh_content r)"

lemma frozen_activate [simp]: "map frozen (activateVersion name kind v h) = map frozen h"
  by (simp add: activateVersion_def frozen_def)

lemma Register_extends:
  assumes "Register name kind media content createdBy v activate h = Inr (a, h')"
  shows "\<exists>row. map frozen h' = map frozen h @ [row]"
  using Register_Inr [OF assms] by (metis frozen_activate list.simps(8,9) map_append)

subsection \<open>The table invariant\<close>

definition hub_ok :: "hub \<Rightarrow> bool" where
  "hub_ok h =
    (distinct (map (\<lambda>r. (sh_name r, sh_kind r, sh_version r)) h) \<and> list_all row_accepted h
     \<and> distinct (map (\<lambda>r. (sh_name r, sh_kind r)) (filter sh_active h))
     \<and> list_all (\<lambda>r. sh_kind r = PeerShapesKind \<longrightarrow> \<not> sh_active r) h)"

lemma distinct_by_key:
  "distinct (map (\<lambda>r. (sh_name r, sh_kind r, sh_version r)) h) \<Longrightarrow>
   distinct (map (\<lambda>r. (sh_name r, sh_kind r)) (filter (\<lambda>r. of_version name kind v r) h))"
  by (induction h) (auto simp: of_version_def of_entry_def image_iff)

lemma activate_ok:
  assumes "hub_ok h" "kind \<noteq> PeerShapesKind"
  shows "hub_ok (activateVersion name kind v h)"
proof -
  let ?key = "\<lambda>r. (sh_name r, sh_kind r)" and ?f = "\<lambda>r. if of_entry name kind r then r\<lparr>sh_active := (sh_version r = v)\<rparr> else r"
  have "distinct (map ?key (filter sh_active (map ?f h)))"
    if "distinct (map (\<lambda>r. (sh_name r, sh_kind r, sh_version r)) h)" "distinct (map ?key (filter sh_active h))"
    using that
  proof (induction h)
    case (Cons r h)
    then have IH: "distinct (map ?key (filter sh_active (map ?f h)))" by (auto split: if_splits)
    have fresh: "?key r \<notin> ?key ` {x \<in> ?f ` set h. sh_active x}" if "sh_active (?f r)"
      using that Cons.prems
      by (force simp: of_entry_def image_iff split: if_splits)
    have "?key (?f r) = ?key r" by simp
    with fresh IH show ?case by (auto simp: set_filter)
  qed simp
  with assms(1) have actives: "distinct (map ?key (filter sh_active (activateVersion name kind v h)))"
    by (simp add: hub_ok_def activateVersion_def)
  have keys: "map (\<lambda>r. (sh_name r, sh_kind r, sh_version r)) (activateVersion name kind v h)
      = map (\<lambda>r. (sh_name r, sh_kind r, sh_version r)) h"
    by (simp add: activateVersion_def)
  have "list_all row_accepted (activateVersion name kind v h)"
    "list_all (\<lambda>r. sh_kind r = PeerShapesKind \<longrightarrow> \<not> sh_active r) (activateVersion name kind v h)"
    using assms by (auto simp: hub_ok_def activateVersion_def list_all_iff row_accepted_def of_entry_def)
  with actives assms(1) show ?thesis unfolding hub_ok_def keys by simp
qed

lemma append_ok:
  assumes "hub_ok h" "row_accepted row" "\<not> sh_active row"
    "\<not> list_ex (of_version (sh_name row) (sh_kind row) (sh_version row)) h"
  shows "hub_ok (h @ [row])"
  using assms by (auto simp: hub_ok_def of_version_def of_entry_def list_ex_iff image_iff)

lemma Register_ok:
  assumes "Register name kind media content createdBy v activate h = Inr (a, h')" "hub_ok h"
    and "activate \<Longrightarrow> kind \<noteq> PeerShapesKind"
  shows "hub_ok h'"
proof -
  from Register_Inr [OF assms(1)] obtain row where row: "sh_name row = name" "sh_kind row = kind"
      "sh_version row = a" "\<not> sh_active row" "row_accepted row" "\<not> list_ex (of_version name kind a) h"
      "h' = (if activate then activateVersion name kind a (h @ [row]) else h @ [row])" by metis
  then have "hub_ok (h @ [row])" by (intro append_ok assms(2)) auto
  with row(7) assms(3) show ?thesis by (auto intro: activate_ok)
qed

subsection \<open>Steps of the hub\<close>

text \<open>
  What changes the table: the management endpoints, which take the four own kinds, the
  seed at startup and the import of what a peer shipped.
\<close>

inductive hub_step :: "hub \<Rightarrow> hub \<Rightarrow> bool" where
  hub_register: "Register name kind media content createdBy v activate h = Inr (a, h') \<Longrightarrow>
     kind \<noteq> PeerShapesKind \<Longrightarrow> hub_step h h'"
| hub_activate: "Activate name kind v h = Inr h' \<Longrightarrow> kind \<noteq> PeerShapesKind \<Longrightarrow> hub_step h h'"
| hub_seed: "Seed gs h = Inr h' \<Longrightarrow> list_all (\<lambda>g. gd_kind g \<noteq> PeerShapesKind) gs \<Longrightarrow> hub_step h h'"
| hub_import: "StorePinnedShapes createdBy es h = (r, h') \<Longrightarrow> hub_step h h'"

definition hub_grows :: "hub \<Rightarrow> hub \<Rightarrow> bool" where
  "hub_grows h h' = (\<exists>rows. map frozen h' = map frozen h @ rows)"

lemma hub_grows_refl [simp]: "hub_grows h h"
  by (simp add: hub_grows_def)

lemma hub_grows_trans: "hub_grows a b \<Longrightarrow> hub_grows b c \<Longrightarrow> hub_grows a c"
  by (auto simp: hub_grows_def)

lemma Register_grows:
  "Register name kind media content createdBy v activate h = Inr (a, h') \<Longrightarrow> hub_grows h h'"
  using Register_extends by (fastforce simp: hub_grows_def)

lemma seed_one_Inr:
  assumes "seed_one g h = Inr h'" "gd_kind g \<noteq> PeerShapesKind" "hub_ok h"
  shows "hub_ok h' \<and> hub_grows h h'"
proof -
  have "h' = h \<or> (\<exists>a. Register (gd_name g) (gd_kind g) (gd_media g) (gd_content g) ''system:genesis'' 0 True h = Inr (a, h'))"
    using assms(1)
    by (auto simp: seed_one_def Let_def map_sum_def split: option.splits if_splits sum.splits)
  then show ?thesis using assms(2,3) by (auto dest: Register_ok Register_grows)
qed

lemma Seed_Inr:
  "Seed gs h = Inr h' \<Longrightarrow> list_all (\<lambda>g. gd_kind g \<noteq> PeerShapesKind) gs \<Longrightarrow> hub_ok h \<Longrightarrow>
   hub_ok h' \<and> hub_grows h h'"
  by (induction gs arbitrary: h) (auto simp: result_iffs dest!: seed_one_Inr intro: hub_grows_trans)

lemma Store_ok:
  "StorePinnedShapes createdBy es h = (r, h') \<Longrightarrow> hub_ok h \<Longrightarrow> hub_ok h' \<and> hub_grows h h'"
proof (induction es arbitrary: h)
  case (Cons e es)
  show ?case
  proof (cases "Register (pp_name e) PeerShapesKind (pp_media e) (pp_content e) createdBy (pp_version e) False h")
    case (Inr p)
    obtain a h1 where p: "p = (a, h1)" by fastforce
    with Inr Cons.prems(2) have "hub_ok h1" "hub_grows h h1" by (auto dest: Register_ok Register_grows)
    with Cons Inr p show ?thesis by (auto intro: hub_grows_trans)
  qed (use Cons.prems in auto)
qed simp

lemma hub_step_ok:
  assumes "hub_step h h'" "hub_ok h"
  shows "hub_ok h' \<and> hub_grows h h'"
  using assms
proof (cases rule: hub_step.cases)
  case (hub_activate name kind v)
  then have "h' = activateVersion name kind v h" by (auto simp: Activate_def split: if_splits)
  with hub_activate(2) assms(2) show ?thesis
    using activate_ok by (auto simp: hub_grows_def)
qed (use assms(2) in \<open>auto dest: Register_ok Register_grows Seed_Inr Store_ok\<close>)

text \<open>
  C37: published vocabulary never changes.  Whatever the management endpoints, the seed and
  the ships of peers do, a version once stored keeps its content and its media type, no
  version is removed, a number is given to one content only, each entry has at most one
  active version and no row a peer supplied is ever active.
\<close>

theorem hub_versions_are_immutable:
  assumes "hub_step\<^sup>*\<^sup>* h h'" "hub_ok h"
  shows "hub_ok h' \<and> (\<exists>later. map frozen h' = map frozen h @ later)"
proof -
  have "hub_ok h' \<and> hub_grows h h'"
    using assms(1)
  proof induction
    case (step a b)
    then show ?case using hub_step_ok hub_grows_trans by blast
  qed (simp add: assms(2))
  then show ?thesis by (simp add: hub_grows_def)
qed

subsection \<open>What an import reaches\<close>

lemma find_in_append: "find P (xs @ ys) = (case find P xs of None \<Rightarrow> find P ys | Some x \<Rightarrow> Some x)"
  by (induction xs) auto

lemma Store_appends:
  "StorePinnedShapes createdBy es h = (r, h') \<Longrightarrow>
   \<exists>rows. h' = h @ rows \<and> list_all (\<lambda>row. sh_kind row = PeerShapesKind \<and> \<not> sh_active row) rows"
proof (induction es arbitrary: h)
  case (Cons e es)
  show ?case
  proof (cases "Register (pp_name e) PeerShapesKind (pp_media e) (pp_content e) createdBy (pp_version e) False h")
    case (Inr p)
    obtain a h1 where p: "p = (a, h1)" by fastforce
    with Inr obtain row where "h1 = h @ [row]" "sh_kind row = PeerShapesKind" "\<not> sh_active row"
      by (auto elim: Register_Inr)
    with Cons Inr p show ?thesis by fastforce
  qed (use Cons.prems in auto)
qed simp

lemma find_none: "(\<And>x. x \<in> set xs \<Longrightarrow> \<not> P x) \<Longrightarrow> find P xs = None"
  by (auto simp: find_None_iff)

lemma hub_Get_append_own:
  assumes "kind \<noteq> PeerShapesKind" "list_all (\<lambda>row. sh_kind row = PeerShapesKind \<and> \<not> sh_active row) rows"
  shows "hub_Get name kind v (h @ rows) = hub_Get name kind v h"
proof -
  have "find (of_version name kind v) rows = None" "find (\<lambda>r. of_entry name kind r \<and> sh_active r) rows = None"
    using assms by (auto simp: list_all_iff of_version_def of_entry_def intro!: find_none)
  then show ?thesis by (auto simp: hub_Get_def find_in_append split: option.splits)
qed

lemma hub_Get_append_found:
  assumes "hub_Get name kind v h = Inr r" "0 < v"
  shows "hub_Get name kind v (h @ rows) = Inr r"
  using assms by (auto simp: hub_Get_def find_in_append require_Inr_iff split: option.splits)

text \<open>
  C14: a peer never supplies this instance's vocabulary.  Whatever a peer ships, the rows of
  this instance's own kinds stay as they are, every envelope graph a document pins resolves
  to what it resolved to before, and so does every library that was held already.
\<close>

theorem shipped_shapes_stay_apart:
  assumes "StorePinnedShapes createdBy es h = (r, h')"
  shows "filter (\<lambda>row. sh_kind row \<noteq> PeerShapesKind) h' = filter (\<lambda>row. sh_kind row \<noteq> PeerShapesKind) h
    \<and> (IsEnvelopeShapes name \<longrightarrow> pinnedShapesContent h' (name, v) = pinnedShapesContent h (name, v))
    \<and> (0 < v \<and> pinnedShapesContent h (name, v) = Inr c \<longrightarrow> pinnedShapesContent h' (name, v) = Inr c)"
proof -
  obtain rows where rows: "h' = h @ rows"
      "list_all (\<lambda>row. sh_kind row = PeerShapesKind \<and> \<not> sh_active row) rows"
    using Store_appends [OF assms] by blast
  have own: "hub_Get n ShapesKind w h' = hub_Get n ShapesKind w h" for n w
    using hub_Get_append_own [OF _ rows(2)] by (simp add: rows(1) ShapesKind_def PeerShapesKind_def)
  have "filter (\<lambda>row. sh_kind row \<noteq> PeerShapesKind) rows = []"
    using rows(2) by (simp add: filter_empty_conv list_all_iff)
  moreover have "pinnedShapesContent h' (name, v) = Inr c" if "0 < v" "pinnedShapesContent h (name, v) = Inr c"
  proof (cases "hub_Get name ShapesKind v h")
    case (Inl e)
    with that(2) own show ?thesis
      using hub_Get_append_found [OF _ that(1), of name PeerShapesKind h _ rows]
      by (cases "hub_Get name PeerShapesKind v h")
        (auto simp: pinnedShapesContent_def or_if_missing_def rows(1) split: if_splits)
  next
    case (Inr x)
    with that(2) own show ?thesis by (auto simp: pinnedShapesContent_def or_if_missing_def)
  qed
  ultimately show ?thesis by (auto simp: rows(1) pinnedShapesContent_def own [unfolded rows(1)])
qed

subsection \<open>The exchange, end to end\<close>

lemma of_found: "hub_Get name kind v h = Inr r \<Longrightarrow> 0 < v \<Longrightarrow> sh_name r = name \<and> sh_version r = v"
  by (auto simp: hub_Get_def require_Inr_iff find_Some_iff of_version_def of_entry_def split: option.splits)

lemma or_if_missing_Inr:
  "or_if_missing a b = Inr x \<longleftrightarrow> a = Inr x \<or> (\<exists>e. a = Inl e \<and> is_not_found e \<and> b = Inr x)"
  by (cases a) (auto simp: or_if_missing_def)

lemma map_sum_Inr: "map_sum f g m = Inr y \<longleftrightarrow> (\<exists>x. m = Inr x \<and> y = g x)"
  by (cases m) auto

lemma map_sum_Inl: "map_sum f g m = Inl y \<longleftrightarrow> (\<exists>x. m = Inl x \<and> y = f x)"
  by (cases m) auto

text \<open>What a sender collects is what it judges the document by itself.\<close>

lemma collected_content:
  assumes "CollectPinnedShapes h refs = Inr entries" "list_all (\<lambda>ref. 0 < snd ref) refs"
  shows "\<forall>e\<in>set entries. pinnedShapesContent h (pp_name e, pp_version e) = Inr (pp_content e)"
    and "\<forall>ref\<in>set refs. \<not> IsEnvelopeShapes (fst ref) \<longrightarrow> (\<exists>e\<in>set entries. (pp_name e, pp_version e) = ref)"
proof -
  have "(\<forall>e\<in>set entries. pinnedShapesContent h (pp_name e, pp_version e) = Inr (pp_content e))
      \<and> (\<forall>ref\<in>set refs. \<not> IsEnvelopeShapes (fst ref) \<longrightarrow> (\<exists>e\<in>set entries. (pp_name e, pp_version e) = ref))"
    using assms
  proof (induction refs arbitrary: entries)
    case (Cons ref refs)
    obtain name v where ref: "ref = (name, v)" by fastforce
    show ?case
    proof (cases "IsEnvelopeShapes name")
      case True
      with Cons ref show ?thesis by auto
    next
      case False
      with Cons.prems ref obtain r rest where
          r: "or_if_missing (LocalShapesVersion name v h) (PeerShapesVersion name v h) = Inr r"
        and rest: "CollectPinnedShapes h refs = Inr rest"
        and entries: "entries = \<lparr>pp_name = sh_name r, pp_version = sh_version r, pp_media = sh_media r,
              pp_content = sh_content r\<rparr> # rest"
        by (auto simp: result_iffs)
      have v: "0 < v" using Cons.prems(2) ref by simp
      have key: "sh_name r = name" "sh_version r = v"
        using r v by (auto simp: or_if_missing_Inr LocalShapesVersion_def PeerShapesVersion_def dest: of_found)
      have "pinnedShapesContent h (name, v) = Inr (sh_content r)"
        using r False
        by (auto simp: pinnedShapesContent_def or_if_missing_Inr LocalShapesVersion_def PeerShapesVersion_def
            map_sum_Inr map_sum_Inl)
      with Cons.IH [OF rest] Cons.prems(2) ref key entries show ?thesis by auto
    qed
  qed simp
  then show "\<forall>e\<in>set entries. pinnedShapesContent h (pp_name e, pp_version e) = Inr (pp_content e)"
    "\<forall>ref\<in>set refs. \<not> IsEnvelopeShapes (fst ref) \<longrightarrow> (\<exists>e\<in>set entries. (pp_name e, pp_version e) = ref)" by auto
qed

lemma shipped_for_Some:
  assumes "e \<in> set es" "(pp_name e, pp_version e) = ref"
  shows "\<exists>e'\<in>set es. shipped_for es ref = Some e' \<and> (pp_name e', pp_version e') = ref"
proof (cases "shipped_for es ref")
  case None
  with assms show ?thesis by (auto simp: shipped_for_def find_None_iff)
next
  case (Some e')
  then obtain i where "i < length (rev es)" "e' = rev es ! i" "(pp_name e', pp_version e') = ref"
    unfolding shipped_for_def find_Some_iff by auto
  then have "e' \<in> set (rev es)" by (metis nth_mem)
  with Some \<open>(pp_name e', pp_version e') = ref\<close> show ?thesis by auto
qed

lemma planned:
  assumes "plan_installs h shipped refs = Inr install" "ref \<in> set refs" "\<not> IsEnvelopeShapes (fst ref)"
    "shipped_for shipped ref = Some e"
  shows "(\<exists>r. heldPinnedShapes h ref = Inr (Some r) \<and> sh_content r = pp_content e)
    \<or> heldPinnedShapes h ref = Inr None \<and> e \<in> set install"
  using assms
proof (induction refs arbitrary: install)
  case (Cons x refs)
  show ?case
  proof (cases "ref = x")
    case True
    with Cons.prems(1,3,4) obtain held where "heldPinnedShapes h ref = Inr held"
        "case held of Some r \<Rightarrow> sh_content r = pp_content e | None \<Rightarrow> e \<in> set install"
      by (cases "heldPinnedShapes h x") (auto simp: result_iffs split: if_splits option.splits)
    then show ?thesis by (cases held) auto
  next
    case False
    with Cons show ?thesis by (auto simp: result_iffs split: if_splits option.splits)
  qed
qed simp

lemma heldPinnedShapes_Some:
  assumes "heldPinnedShapes h ref = Inr (Some r)" "0 < snd ref" "\<not> IsEnvelopeShapes (fst ref)"
  shows "pinnedShapesContent h ref = Inr (sh_content r)"
  using assms
  by (auto simp: heldPinnedShapes_def pinnedShapesContent_def or_if_missing_Inr map_sum_Inr map_sum_Inl
      LocalShapesVersion_def PeerShapesVersion_def or_if_missing_def split: sum.splits if_splits)

lemma heldPinnedShapes_None:
  assumes "heldPinnedShapes h ref = Inr None" "0 < snd ref"
  shows "\<exists>e. hub_Get (fst ref) ShapesKind (snd ref) h = Inl e \<and> is_not_found e"
  using assms
  by (cases "hub_Get (fst ref) ShapesKind (snd ref) h")
    (auto simp: heldPinnedShapes_def LocalShapesVersion_def or_if_missing_Inr)

lemma Store_installed:
  assumes "StorePinnedShapes createdBy es h = (Inr (), h')" "e \<in> set es" "0 < pp_version e"
  shows "\<exists>r. hub_Get (pp_name e) PeerShapesKind (pp_version e) h' = Inr r \<and> sh_content r = pp_content e"
  using assms
proof (induction es arbitrary: h)
  case (Cons x es)
  then obtain a h1 where reg: "Register (pp_name x) PeerShapesKind (pp_media x) (pp_content x) createdBy (pp_version x) False h
      = Inr (a, h1)" and rest: "StorePinnedShapes createdBy es h1 = (Inr (), h')"
    by (auto split: sum.splits)
  show ?case
  proof (cases "e = x")
    case True
    from reg Cons.prems(3) True obtain row where row: "h1 = h @ [row]" "sh_name row = pp_name e"
        "sh_kind row = PeerShapesKind" "sh_version row = pp_version e" "sh_content row = pp_content e"
        "row_accepted row" "\<not> list_ex (of_version (pp_name e) PeerShapesKind (pp_version e)) h"
      by (auto elim: Register_Inr)
    have "find (of_version (pp_name e) PeerShapesKind (pp_version e)) h = None"
      using row(7) by (auto simp: find_None_iff list_ex_iff)
    with row Cons.prems(3) have "hub_Get (pp_name e) PeerShapesKind (pp_version e) h1 = Inr row"
      by (auto simp: hub_Get_def find_in_append of_version_def of_entry_def row_accepted_def)
    moreover obtain rows where "h' = h1 @ rows" using Store_appends [OF rest] by blast
    ultimately show ?thesis using hub_Get_append_found [OF _ Cons.prems(3)] row(5) by auto
  next
    case False
    with Cons rest show ?thesis by auto
  qed
qed simp

lemma shape_refs_positive: "shape_refs items = Inr refs \<Longrightarrow> list_all (\<lambda>ref. 0 < snd ref) refs"
  by (induction items arbitrary: refs) (auto simp: result_iffs shape_ref_def Let_def split: option.splits if_splits)

text \<open>
  C13: both instances judge a shipped document by the same libraries.  When the sender
  collected the libraries the document pins, the receiver accepted the plan and stored it,
  every pinned library resolves on the receiver to exactly the content it resolves to on
  the sender, whether it was shipped, published by the receiver or received from another
  peer before.
\<close>

theorem shipped_libraries_agree:
  assumes "EffectiveShapeRefs document = Inr refs" "CollectPinnedShapes sender refs = Inr shipped"
    and "PlanPinnedShapesImport receiver refs shipped = Inr install"
    and "StorePinnedShapes createdBy install receiver = (Inr (), receiver')"
    and "ref \<in> set refs" "\<not> IsEnvelopeShapes (fst ref)"
  shows "\<exists>c. pinnedShapesContent sender ref = Inr c \<and> pinnedShapesContent receiver' ref = Inr c"
proof -
  have pos: "list_all (\<lambda>ref. 0 < snd ref) refs"
    using assms(1) shape_refs_positive
    by (auto simp del: shape_refs.simps simp: EffectiveShapeRefs_def split: option.splits json.splits list.splits)
  with assms(5) have v: "0 < snd ref" by (simp add: list_all_iff)
  obtain name v' where ref: "ref = (name, v')" by fastforce
  from collected_content [OF assms(2) pos] assms(5,6) obtain e0 where
      "e0 \<in> set shipped" "(pp_name e0, pp_version e0) = ref" by blast
  then obtain e where e: "e \<in> set shipped" "shipped_for shipped ref = Some e" "(pp_name e, pp_version e) = ref"
    using shipped_for_Some by blast
  from collected_content(1) [OF assms(2) pos] e have s: "pinnedShapesContent sender ref = Inr (pp_content e)" by force
  obtain rows where rows: "receiver' = receiver @ rows"
      "list_all (\<lambda>row. sh_kind row = PeerShapesKind \<and> \<not> sh_active row) rows"
    using Store_appends [OF assms(4)] by blast
  from assms(3) have "plan_installs receiver shipped refs = Inr install"
    by (auto simp: PlanPinnedShapesImport_def result_iffs)
  from planned [OF this assms(5,6) e(2)] have "pinnedShapesContent receiver' ref = Inr (pp_content e)"
  proof (elim disjE exE conjE)
    fix r assume "heldPinnedShapes receiver ref = Inr (Some r)" "sh_content r = pp_content e"
    with heldPinnedShapes_Some v assms(6) have "pinnedShapesContent receiver ref = Inr (pp_content e)" by metis
    then have g: "hub_Get name ShapesKind v' receiver' = hub_Get name ShapesKind v' receiver"
        "\<And>x. hub_Get name PeerShapesKind v' receiver = Inr x \<Longrightarrow> hub_Get name PeerShapesKind v' receiver' = Inr x"
        "pinnedShapesContent receiver (name, v') = Inr (pp_content e)"
      using hub_Get_append_own [OF _ rows(2)] hub_Get_append_found v
      by (auto simp: rows(1) ref ShapesKind_def PeerShapesKind_def)
    then show ?thesis using assms(6)
      by (auto simp: ref pinnedShapesContent_def or_if_missing_Inr map_sum_Inr map_sum_Inl)
  next
    assume none: "heldPinnedShapes receiver ref = Inr None" and ins: "e \<in> set install"
    from Store_installed [OF assms(4) ins] e(3) v ref obtain r where
        "hub_Get name PeerShapesKind v' receiver' = Inr r" "sh_content r = pp_content e" by auto
    moreover obtain err where "hub_Get name ShapesKind v' receiver' = Inl err" "is_not_found err"
      using heldPinnedShapes_None [OF none v] hub_Get_append_own [OF _ rows(2)]
      by (auto simp: rows(1) ref ShapesKind_def PeerShapesKind_def)
    ultimately show ?thesis using assms(6)
      by (auto simp: ref pinnedShapesContent_def or_if_missing_Inr map_sum_Inr map_sum_Inl)
  qed
  with s show ?thesis by blast
qed

end
