(* ===== verification/Sync_Store.thy ===== *)
theory Sync_Store
  imports Trust_Gate Semantic_Hub Key_Store Store_Frames
begin

text \<open>
  What an instance stores for its exchange with peers
  (\<open>dcstodcs/db/pg/syncrepository.go\<close>, \<open>eraserepository.go\<close>,
  \<open>processauditandcompliance/query/querytrustgatedenial.go\<close>): the queue of failed ships
  with its backoff and its incident latch, the signatures peers shipped, the settlements
  and withdrawals waiting for delivery, the incidents of the trust gate and the ledger of
  requested erasures.  The settlements and withdrawals themselves are tables of the
  contract store, in the order of their \<open>recorded_at\<close>.
\<close>

section \<open>Rows and the state of an instance\<close>

record sync_fail =
  sf_did :: string
  sf_retry_count :: int
  sf_last_tried :: "int option"
  sf_gate_incident :: bool

record sync_signature =
  ss_did :: string
  ss_version :: int
  ss_from_peer :: string
  ss_jades :: string
  ss_received_at :: int
  ss_poa_evidence :: "bytes option"
  ss_poa_revalidated_at :: "int option"

record incident =
  in_did :: string
  in_peer :: string
  in_direction :: direction
  in_reason :: gate_kind

record erase_request =
  er_did :: string
  er_peer :: string
  er_retry_count :: int
  er_last_tried :: "int option"
  er_confirmed :: "int option"

record peer_node =
  pn_store :: store
  pn_sync_fails :: "sync_fail list"
  pn_signatures :: "string \<Rightarrow> sync_signature option"
  pn_incidents :: "incident list"
  pn_erasures :: "erase_request list"
  pn_shredded :: "(string \<times> string) list"
  pn_keys :: key_store
  pn_objects :: "string \<Rightarrow> bytes option"
  pn_hub :: hub

section \<open>Failed ships\<close>

definition find_fail :: "string \<Rightarrow> sync_fail list \<Rightarrow> sync_fail option" where
  "find_fail did fs = find (\<lambda>f. sf_did f = did) fs"

text \<open>The upsert, and whether this call is the first to see a gate failure.\<close>

definition CreateOrUpdateSyncFailEntry :: "int \<Rightarrow> string \<Rightarrow> bool \<Rightarrow> sync_fail list \<Rightarrow> bool \<times> sync_fail list" where
  "CreateOrUpdateSyncFailEntry now did isGateFailure fs =
    (case find_fail did fs of
       None \<Rightarrow> (isGateFailure, fs @ [\<lparr>sf_did = did, sf_retry_count = 0, sf_last_tried = Some now,
                                     sf_gate_incident = isGateFailure\<rparr>])
     | Some old \<Rightarrow> (isGateFailure \<and> \<not> sf_gate_incident old,
         map (\<lambda>f. if sf_did f = did
                  then f\<lparr>sf_retry_count := sf_retry_count f + 1, sf_last_tried := Some now,
                         sf_gate_incident := sf_gate_incident f \<or> isGateFailure\<rparr> else f) fs))"

definition DeleteSyncFailEntry :: "string \<Rightarrow> sync_fail list \<Rightarrow> sync_fail list" where
  "DeleteSyncFailEntry did fs = filter (\<lambda>f. sf_did f \<noteq> did) fs"

definition retry_delay :: "int \<Rightarrow> int \<Rightarrow> sync_fail \<Rightarrow> int" where
  "retry_delay backoffBase maxBackoff f = min (backoffBase * 2 ^ nat (min (sf_retry_count f) 6)) maxBackoff"

definition retry_due :: "int \<Rightarrow> int \<Rightarrow> int \<Rightarrow> sync_fail \<Rightarrow> bool" where
  "retry_due now backoffBase maxBackoff f =
    (case sf_last_tried f of None \<Rightarrow> True | Some t \<Rightarrow> t \<le> now - retry_delay backoffBase maxBackoff f)"

definition oldest_attempt_first :: "sync_fail list \<Rightarrow> sync_fail list" where
  "oldest_attempt_first fs =
    filter (\<lambda>f. sf_last_tried f = None) fs
      @ sort_key (\<lambda>f. the (sf_last_tried f)) (filter (\<lambda>f. sf_last_tried f \<noteq> None) fs)"

definition GetPendingSyncFails :: "int \<Rightarrow> int \<Rightarrow> int \<Rightarrow> nat \<Rightarrow> sync_fail list \<Rightarrow> sync_fail list" where
  "GetPendingSyncFails now backoffBase maxBackoff limit fs =
    take limit (oldest_attempt_first (filter (retry_due now backoffBase maxBackoff) fs))"

section \<open>Settlements and withdrawals on their way\<close>

text \<open>A timestamp column keeps microseconds, the nearest one and the even one of two.\<close>

definition pg_time :: "int \<Rightarrow> int" where
  "pg_time t =
    (let q = t div microsecond; r = t mod microsecond
     in if 2 * r < microsecond \<or> 2 * r = microsecond \<and> even q then q * microsecond else (q + 1) * microsecond)"

definition same_settlement :: "settlement \<Rightarrow> settlement \<Rightarrow> bool" where
  "same_settlement t t' = (st_did t = st_did t' \<and> st_from_peer t = st_from_peer t' \<and> st_to_peer t = st_to_peer t')"

definition UpsertSettlement :: "settlement \<Rightarrow> store \<Rightarrow> store" where
  "UpsertSettlement t s =
    s\<lparr>settlements := filter (\<lambda>x. \<not> same_settlement t x) (settlements s)
        @ [t\<lparr>st_settled_at := pg_time (st_settled_at t)\<rparr>]\<rparr>"

definition GetUndeliveredSettlements :: "string \<Rightarrow> store \<Rightarrow> settlement list" where
  "GetUndeliveredSettlements fromPeer s =
    filter (\<lambda>t. st_from_peer t = fromPeer \<and> st_delivered t = None) (settlements s)"

definition MarkSettlementDelivered :: "int \<Rightarrow> string \<Rightarrow> string \<Rightarrow> string \<Rightarrow> store \<Rightarrow> store" where
  "MarkSettlementDelivered now did fromPeer toPeer s =
    s\<lparr>settlements := map (\<lambda>t. if st_did t = did \<and> st_from_peer t = fromPeer \<and> st_to_peer t = toPeer
        then t\<lparr>st_delivered := Some now\<rparr> else t) (settlements s)\<rparr>"

definition GetUndeliveredSettlementWithdrawals :: "string \<Rightarrow> store \<Rightarrow> withdrawal list" where
  "GetUndeliveredSettlementWithdrawals fromPeer s =
    filter (\<lambda>w. w_from_peer w = fromPeer \<and> \<not> w_delivered w) (withdrawals s)"

definition MarkSettlementWithdrawalDelivered :: "string \<Rightarrow> string \<Rightarrow> string \<Rightarrow> store \<Rightarrow> store" where
  "MarkSettlementWithdrawalDelivered did fromPeer toPeer s =
    s\<lparr>withdrawals := map (\<lambda>w. if w_did w = did \<and> w_from_peer w = fromPeer \<and> w_to_peer w = toPeer
        then w\<lparr>w_delivered := True\<rparr> else w) (withdrawals s)\<rparr>"

section \<open>Shipped signatures\<close>

definition UpsertSyncSignature :: "int \<Rightarrow> sync_signature \<Rightarrow> peer_node \<Rightarrow> peer_node" where
  "UpsertSyncSignature now sig n =
    n\<lparr>pn_signatures := (pn_signatures n)(ss_did sig \<mapsto> sig\<lparr>ss_received_at := now\<rparr>)\<rparr>"

definition GetSyncSignature :: "string \<Rightarrow> peer_node \<Rightarrow> sync_signature option" where
  "GetSyncSignature did n = pn_signatures n did"

section \<open>Incidents\<close>

definition denial_incident :: "string \<Rightarrow> string \<Rightarrow> direction \<Rightarrow> gate_kind \<Rightarrow> incident" where
  "denial_incident did peer dir kind = \<lparr>in_did = did, in_peer = peer, in_direction = dir, in_reason = kind\<rparr>"

definition RecordDenialIncident ::
  "string \<Rightarrow> string \<Rightarrow> direction \<Rightarrow> gate_kind \<Rightarrow> peer_node \<Rightarrow> (peer_error, peer_node) result" where
  "RecordDenialIncident did peer dir kind n =
    (if did = '''' then Inl EmptyIncident
     else Inr (n\<lparr>pn_incidents := pn_incidents n @ [denial_incident did peer dir kind]\<rparr>))"

definition RecordDenialIncidentTxDeduped ::
  "string \<Rightarrow> string \<Rightarrow> direction \<Rightarrow> gate_kind \<Rightarrow> peer_node \<Rightarrow> (peer_error, peer_node) result" where
  "RecordDenialIncidentTxDeduped did peer dir kind n =
    (if did = '''' then Inl EmptyIncident
     else if list_ex (\<lambda>i. in_did i = did \<and> in_peer i = peer \<and> in_direction i = dir) (pn_incidents n) then Inr n
     else RecordDenialIncident did peer dir kind n)"

text \<open>A failure to record is only logged.\<close>

definition note_denial :: "string \<Rightarrow> string \<Rightarrow> direction \<Rightarrow> gate_kind \<Rightarrow> peer_node \<Rightarrow> peer_node" where
  "note_denial did peer dir kind n =
    (case RecordDenialIncident did peer dir kind n of Inl _ \<Rightarrow> n | Inr n' \<Rightarrow> n')"

section \<open>Requested erasures\<close>

definition same_erasure :: "string \<Rightarrow> string \<Rightarrow> erase_request \<Rightarrow> bool" where
  "same_erasure did peer r = (er_did r = did \<and> er_peer r = peer)"

definition Erasure_Upsert :: "string \<Rightarrow> string \<Rightarrow> erase_request list \<Rightarrow> erase_request list" where
  "Erasure_Upsert did peer rs =
    (if list_ex (same_erasure did peer) rs then rs
     else rs @ [\<lparr>er_did = did, er_peer = peer, er_retry_count = 0, er_last_tried = None, er_confirmed = None\<rparr>])"

definition Erasure_RecordAttempt :: "int \<Rightarrow> string \<Rightarrow> string \<Rightarrow> erase_request list \<Rightarrow> erase_request list" where
  "Erasure_RecordAttempt now did peer rs =
    map (\<lambda>r. if same_erasure did peer r
             then r\<lparr>er_retry_count := er_retry_count r + 1, er_last_tried := Some now\<rparr> else r) rs"

definition Erasure_Confirm :: "int \<Rightarrow> string \<Rightarrow> string \<Rightarrow> erase_request list \<Rightarrow> erase_request list" where
  "Erasure_Confirm now did peer rs =
    map (\<lambda>r. if same_erasure did peer r \<and> er_confirmed r = None then r\<lparr>er_confirmed := Some now\<rparr> else r) rs"

definition Erasure_GetPending :: "erase_request list \<Rightarrow> erase_request list" where
  "Erasure_GetPending rs = filter (\<lambda>r. er_confirmed r = None) rs"

text \<open>The audited shredder over the state of an instance; \<open>pn_shredded\<close> are its events.\<close>

definition Node_Shred :: "int \<Rightarrow> string \<Rightarrow> string \<Rightarrow> string \<Rightarrow> peer_node \<Rightarrow> int \<times> peer_node" where
  "Node_Shred now contractIRI actor reason n =
    (let (affected, evt, keys) = Shred now contractIRI actor reason (pn_keys n)
     in (affected, n\<lparr>pn_keys := keys,
           pn_shredded := (if evt then pn_shredded n @ [(contractIRI, actor)] else pn_shredded n)\<rparr>))"

section \<open>Facts\<close>

subsection \<open>Timestamps\<close>

lemma pg_time_parts:
  obtains q r where "t = q * 1000 + r" "0 \<le> r" "r < (1000 :: int)"
    "pg_time t = (if 2 * r < 1000 \<or> 2 * r = 1000 \<and> even q then q * 1000 else (q + 1) * 1000)"
proof
  show "t = t div 1000 * 1000 + t mod 1000" by (rule div_mult_mod_eq [symmetric])
  show "0 \<le> t mod 1000" "t mod 1000 < (1000 :: int)" by simp_all
  show "pg_time t = (if 2 * (t mod 1000) < 1000 \<or> 2 * (t mod 1000) = 1000 \<and> even (t div 1000)
      then t div 1000 * 1000 else (t div 1000 + 1) * 1000)"
    by (simp only: pg_time_def microsecond_def Let_def)
qed

lemma pg_time_near: "\<bar>pg_time t - t\<bar> \<le> 500"
proof -
  obtain q r where "t = q * 1000 + r" "0 \<le> r" "r < (1000 :: int)"
    "pg_time t = (if 2 * r < 1000 \<or> 2 * r = 1000 \<and> even q then q * 1000 else (q + 1) * 1000)"
    by (rule pg_time_parts)
  then show ?thesis by (cases "2 * r < 1000"; cases "2 * r = 1000 \<and> even q") (simp_all, linarith?)
qed

lemma pg_time_mono:
  assumes "t \<le> t'"
  shows "pg_time t \<le> pg_time t'"
proof -
  obtain q r where t: "t = q * 1000 + r" "0 \<le> r" "r < (1000 :: int)"
    "pg_time t = (if 2 * r < 1000 \<or> 2 * r = 1000 \<and> even q then q * 1000 else (q + 1) * 1000)"
    by (rule pg_time_parts)
  obtain q' r' where t': "t' = q' * 1000 + r'" "0 \<le> r'" "r' < (1000 :: int)"
    "pg_time t' = (if 2 * r' < 1000 \<or> 2 * r' = 1000 \<and> even q' then q' * 1000 else (q' + 1) * 1000)"
    by (rule pg_time_parts)
  have le: "q \<le> q'" using assms t(1,2) t'(1,3) by linarith
  show ?thesis
  proof (cases "q = q'")
    case True
    then have "r \<le> r'" using assms t(1) t'(1) by linarith
    with True t(4) t'(4) show ?thesis by auto
  next
    case False
    with le have "q + 1 \<le> q'" by simp
    with t(4) t'(4) show ?thesis by (auto split: if_splits)
  qed
qed

lemma pg_time_micro: "t mod microsecond = 0 \<Longrightarrow> pg_time t = t"
  by (auto simp: pg_time_def microsecond_def Let_def)

lemma pg_time_mod [simp]: "pg_time t mod microsecond = 0"
  by (auto simp: pg_time_def microsecond_def Let_def)

lemma pg_time_idem [simp]: "pg_time (pg_time t) = pg_time t"
  by (simp add: pg_time_micro)

subsection \<open>The backoff\<close>

lemma set_oldest [simp]: "set (oldest_attempt_first fs) = set fs"
  by (auto simp: oldest_attempt_first_def)

lemma length_oldest [simp]: "length (oldest_attempt_first fs) = length fs"
  by (induction fs) (auto simp: oldest_attempt_first_def)

definition attempt_le :: "sync_fail \<Rightarrow> sync_fail \<Rightarrow> bool" where
  "attempt_le f g = (case (sf_last_tried f, sf_last_tried g) of
     (None, _) \<Rightarrow> True | (Some _, None) \<Rightarrow> False | (Some t, Some u) \<Rightarrow> t \<le> u)"

lemma sorted_oldest: "sorted_wrt attempt_le (oldest_attempt_first fs)"
proof -
  let ?tried = "filter (\<lambda>f. sf_last_tried f \<noteq> None) fs"
  have "sorted_wrt attempt_le (filter (\<lambda>f. sf_last_tried f = None) fs)"
    by (induction fs) (auto simp: attempt_le_def)
  moreover have "sorted_wrt attempt_le (sort_key (\<lambda>f. the (sf_last_tried f)) ?tried)"
  proof (rule sorted_wrt_mono_rel)
    show "sorted_wrt (\<lambda>f g. the (sf_last_tried f) \<le> the (sf_last_tried g)) (sort_key (\<lambda>f. the (sf_last_tried f)) ?tried)"
      using sorted_sort_key [of "\<lambda>f. the (sf_last_tried f)" ?tried] by (simp add: sorted_map)
  qed (auto simp: attempt_le_def)
  ultimately show ?thesis
    by (auto simp: oldest_attempt_first_def sorted_wrt_append attempt_le_def)
qed

lemma retry_delay_bounds:
  assumes "0 \<le> backoffBase"
  shows "retry_delay backoffBase maxBackoff f \<le> maxBackoff"
    and "0 \<le> sf_retry_count f \<Longrightarrow> min backoffBase maxBackoff \<le> retry_delay backoffBase maxBackoff f"
proof -
  have "backoffBase * 1 \<le> backoffBase * 2 ^ nat (min (sf_retry_count f) 6)"
    using assms by (intro mult_left_mono one_le_power) auto
  then show "retry_delay backoffBase maxBackoff f \<le> maxBackoff"
    "0 \<le> sf_retry_count f \<Longrightarrow> min backoffBase maxBackoff \<le> retry_delay backoffBase maxBackoff f"
    by (auto simp: retry_delay_def min_def)
qed

text \<open>
  A retry pass takes at most \<open>limit\<close> entries and all that are due when there are no more;
  they come in the order of their last attempts; an entry that was never tried or whose
  last attempt is the cap ago is due; and a due entry is left for a later pass only when
  the pass is full of entries whose last attempt is no younger.
\<close>

theorem retry_pass_is_bounded_and_fair:
  assumes "pass = GetPendingSyncFails now backoffBase maxBackoff limit fs" "0 \<le> backoffBase"
  shows "length pass = min limit (length (filter (retry_due now backoffBase maxBackoff) fs))
    \<and> sorted_wrt attempt_le pass
    \<and> (\<forall>g\<in>set pass. g \<in> set fs \<and> retry_due now backoffBase maxBackoff g)
    \<and> (\<forall>f. (case sf_last_tried f of None \<Rightarrow> True | Some t \<Rightarrow> t + maxBackoff \<le> now) \<longrightarrow> retry_due now backoffBase maxBackoff f)
    \<and> (\<forall>f\<in>set fs. retry_due now backoffBase maxBackoff f \<and> f \<notin> set pass
         \<longrightarrow> length pass = limit \<and> (\<forall>g\<in>set pass. attempt_le g f))"
proof -
  let ?due = "filter (retry_due now backoffBase maxBackoff) fs" and ?all = "oldest_attempt_first (filter (retry_due now backoffBase maxBackoff) fs)"
  have pass: "pass = take limit ?all" using assms(1) by (simp add: GetPendingSyncFails_def)
  have "retry_due now backoffBase maxBackoff f" if "case sf_last_tried f of None \<Rightarrow> True | Some t \<Rightarrow> t + maxBackoff \<le> now" for f
    using that retry_delay_bounds(1) [OF assms(2), of maxBackoff f] by (auto simp: retry_due_def split: option.splits)
  moreover have len: "length pass = min limit (length ?due)" by (simp add: pass min_def)
  have sorted: "sorted_wrt attempt_le (take limit ?all @ drop limit ?all)" using sorted_oldest by simp
  moreover have "length pass = limit \<and> (\<forall>g\<in>set pass. attempt_le g f)"
    if "f \<in> set fs" "retry_due now backoffBase maxBackoff f" "f \<notin> set pass" for f
  proof -
    have "set ?all = set (take limit ?all) \<union> set (drop limit ?all)" by (metis append_take_drop_id set_append)
    moreover have "f \<in> set ?all" using that(1,2) by simp
    ultimately have rest: "f \<in> set (drop limit ?all)" using that(3) unfolding pass by blast
    then have "limit < length ?all" by (cases "limit < length ?all") auto
    with pass have "length pass = limit" by simp
    moreover have "\<forall>g\<in>set pass. attempt_le g f" using sorted rest pass unfolding sorted_wrt_append by auto
    ultimately show ?thesis by simp
  qed
  moreover have "set pass \<subseteq> set ?due" using set_take_subset [of limit ?all] by (simp add: pass)
  ultimately show ?thesis using len unfolding pass sorted_wrt_append by auto
qed

subsection \<open>Settlement tables\<close>

lemma UpsertSettlement_set:
  "x \<in> set (settlements (UpsertSettlement t s)) \<longleftrightarrow>
    x = t\<lparr>st_settled_at := pg_time (st_settled_at t)\<rparr> \<or> x \<in> set (settlements s) \<and> \<not> same_settlement t x"
  by (auto simp: UpsertSettlement_def)

lemma Mark_set:
  "x \<in> set (settlements (MarkSettlementDelivered now did fromPeer toPeer s)) \<Longrightarrow>
    \<exists>y\<in>set (settlements s). x = y \<or> x = y\<lparr>st_delivered := Some now\<rparr>"
  by (auto simp: MarkSettlementDelivered_def)

lemma newest_settlement_fold:
  "fold (\<lambda>x best. if st_settled_at x > st_settled_at best then x else best) ts b \<in> insert b (set ts)
   \<and> (\<forall>x\<in>insert b (set ts). st_settled_at x
        \<le> st_settled_at (fold (\<lambda>x best. if st_settled_at x > st_settled_at best then x else best) ts b))"
proof (induction ts arbitrary: b)
  case (Cons t ts)
  show ?case using Cons.IH [of "if st_settled_at t > st_settled_at b then t else b"]
    by (auto split: if_splits)
qed simp

lemma newest_settlement_Some:
  assumes "newest ts = Some t"
  shows "t \<in> set ts" "\<forall>x\<in>set ts. st_settled_at x \<le> st_settled_at t"
  using assms newest_settlement_fold [of "tl ts" "hd ts"] by (auto simp: newest_def split: list.splits)

lemma newest_settlement_None [simp]: "newest ts = None \<longleftrightarrow> ts = []"
  by (simp add: newest_def split: list.splits)

lemma GetSettlement_Some:
  assumes "GetSettlement did peer s = Some t"
  shows "t \<in> set (settlements s)" "st_did t = did" "st_from_peer t = peer"
    "\<forall>x\<in>set (settlements s). st_did x = did \<and> st_from_peer x = peer \<longrightarrow> st_settled_at x \<le> st_settled_at t"
  using newest_settlement_Some [OF assms [unfolded GetSettlement_def]] by (auto simp: settled_by_def)

lemma GetSettlement_None:
  "GetSettlement did peer s = None \<longleftrightarrow> (\<forall>x\<in>set (settlements s). \<not> (st_did x = did \<and> st_from_peer x = peer))"
  by (simp add: GetSettlement_def filter_empty_conv settled_by_def)

lemma UpsertSettlement_frame [simp]:
  "contracts (UpsertSettlement t s) = contracts s" "history (UpsertSettlement t s) = history s"
  "outbox (UpsertSettlement t s) = outbox s" "withdrawals (UpsertSettlement t s) = withdrawals s"
  by (simp_all add: UpsertSettlement_def)

lemma MarkSettlementDelivered_frame [simp]:
  "contracts (MarkSettlementDelivered now did f p s) = contracts s"
  "history (MarkSettlementDelivered now did f p s) = history s"
  "outbox (MarkSettlementDelivered now did f p s) = outbox s"
  "withdrawals (MarkSettlementDelivered now did f p s) = withdrawals s"
  by (simp_all add: MarkSettlementDelivered_def)

lemma MarkSettlementWithdrawalDelivered_frame [simp]:
  "contracts (MarkSettlementWithdrawalDelivered did f p s) = contracts s"
  "history (MarkSettlementWithdrawalDelivered did f p s) = history s"
  "outbox (MarkSettlementWithdrawalDelivered did f p s) = outbox s"
  "settlements (MarkSettlementWithdrawalDelivered did f p s) = settlements s"
  by (simp_all add: MarkSettlementWithdrawalDelivered_def)

end
