(* ===== verification/Poa_Gate.thy ===== *)
theory Poa_Gate
  imports Trust_Gate
begin

text \<open>
  The check of the signing evidence embedded in a shipped PDF
  (\<open>dcstodcs/counterpartypoa.go\<close>, \<open>pdfgeneration/provenance/signing_evidence.go\<close>,
  \<open>assertionKeyOf\<close> of \<open>service/dcs_to_dcs.go\<close>): every attachment carries a summary
  credential that must verify against an assertion key of the instance owning the signed
  field, name this contract and a signatory, and come with a Power of Attorney that
  verifies unless the field is this instance's own or no Power of Attorney is attached.
\<close>

section \<open>Attachments\<close>

record signing_evidence =
  ev_summary :: json
  ev_poa :: string

record evidence_subject =
  es_signatory :: string
  es_field :: string
  es_contract :: string

fun as_strings :: "json \<Rightarrow> string list option" where
  "as_strings (JArr vs) = those (map (\<lambda>v. case v of JNull \<Rightarrow> Some '''' | v \<Rightarrow> as_string v) vs)"
| "as_strings _ = None"

definition object_members :: "json \<Rightarrow> json_map option" where
  "object_members v = (case v of JObj m \<Rightarrow> Some m | JNull \<Rightarrow> Some [] | _ \<Rightarrow> None)"

definition ReadSigningEvidenceSubject :: "json \<Rightarrow> evidence_subject option" where
  "ReadSigningEvidenceSubject summary =
    Option.bind (object_members summary) (\<lambda>m.
    Option.bind (read_member as_strings [] ''type'' m) (\<lambda>types.
    Option.bind (read_struct ''credentialSubject'' m) (\<lambda>sub.
      case (read_string ''id'' sub, read_string ''field_name'' sub, read_string ''contract_id'' sub) of
        (Some i, Some f, Some c) \<Rightarrow>
          if ''ContractSigningSummaryCredential'' \<in> set types
          then Some \<lparr>es_signatory = trim_space i, es_field = trim_space f, es_contract = trim_space c\<rparr>
          else None
      | _ \<Rightarrow> None)))"

definition ReadSigningEvidence :: "json \<Rightarrow> (signing_evidence \<times> evidence_subject) option" where
  "ReadSigningEvidence raw =
    Option.bind (object_members raw) (\<lambda>m.
    Option.bind (read_string ''poa_presentation'' m) (\<lambda>poa.
    Option.bind (read_raw ''summary'' m) (\<lambda>summary.
    map_option (\<lambda>sub. (\<lparr>ev_summary = summary, ev_poa = poa\<rparr>, sub)) (ReadSigningEvidenceSubject summary))))"

section \<open>The check\<close>

text \<open>
  \<open>po_trust\<close> says whether issuer trust is configured, \<open>po_verify\<close> is
  \<open>oid4vp.VerifyCounterpartyPoA\<close> for a presentation, an organization and a signatory, and
  \<open>po_proof\<close> checks the proof of a summary against a key.
\<close>

record poa_env =
  po_trust :: bool
  po_verify :: "string \<Rightarrow> string \<Rightarrow> string \<Rightarrow> bool"
  po_proof :: "json \<Rightarrow> point \<Rightarrow> bool"

datatype poa_error =
    NoIssuerTrust | EvidenceUndecodable | FieldMissing | SummaryUndecodable | SummaryKey
  | SummaryPurpose | SummaryProof | SummaryContract | SignatoryMissing | PresentationInvalid

definition poa_option :: "poa_error \<Rightarrow> 'a option \<Rightarrow> (poa_error, 'a) result" where
  "poa_option e m = (case m of None \<Rightarrow> Inl e | Some x \<Rightarrow> Inr x)"

lemma poa_option_Inr [simp]: "poa_option e m = Inr x \<longleftrightarrow> m = Some x"
  by (auto simp: poa_option_def split: option.splits)

text \<open>
  The key of the instance that owns a field: the two documents in hand answer for
  themselves, another did:web is resolved.
\<close>

definition assertionKeyOf ::
  "outside \<Rightarrow> did_document \<Rightarrow> string \<Rightarrow> string \<Rightarrow> did_document \<Rightarrow> string \<Rightarrow> string \<Rightarrow> point option" where
  "assertionKeyOf Out own localPeer peer peerDoc owner methodID =
    (if SameDIDWeb owner localPeer then AssertionKey (Some own) methodID
     else if SameDIDWeb owner peer then AssertionKey (Some peerDoc) methodID
     else case out_did Out owner of None \<Rightarrow> None | Some doc \<Rightarrow> AssertionKey (Some doc) methodID)"

definition verifySummary ::
  "poa_env \<Rightarrow> (string \<Rightarrow> string \<Rightarrow> point option) \<Rightarrow> json \<Rightarrow> string \<Rightarrow> (poa_error, unit) result" where
  "verifySummary P resolve summary owner =
    bind_res (poa_option SummaryUndecodable (Option.bind (object_members summary) (read_struct ''proof''))) (\<lambda>proof.
    bind_res (poa_option SummaryUndecodable (read_string ''verificationMethod'' proof)) (\<lambda>method.
    bind_res (poa_option SummaryUndecodable (read_string ''proofPurpose'' proof)) (\<lambda>purpose.
    bind_res (poa_option SummaryKey (resolve owner method)) (\<lambda>key.
    require (trim_space purpose = ''assertionMethod'') SummaryPurpose
    (require (po_proof P summary key) SummaryProof (Inr ()))))))"

definition field_owner :: "string \<Rightarrow> string \<Rightarrow> string" where
  "field_owner peer organization =
    (if has_prefix organization ''did:web:'' then organization else trim_space peer)"

definition check_attachment ::
  "poa_env \<Rightarrow> (string \<Rightarrow> string \<Rightarrow> point option) \<Rightarrow> string \<Rightarrow> string \<Rightarrow> string \<Rightarrow> json \<Rightarrow> (poa_error, unit) result" where
  "check_attachment P resolve peer localDID contractIRI raw =
    bind_res (poa_option EvidenceUndecodable (ReadSigningEvidence raw)) (\<lambda>(attachment, subject).
    require (es_field subject \<noteq> '''') FieldMissing
    (bind_res (verifySummary P resolve (ev_summary attachment) (field_owner peer (es_field subject))) (\<lambda>_.
     require (es_contract subject = trim_space contractIRI) SummaryContract
    (require (es_signatory subject \<noteq> '''') SignatoryMissing
    (if SameDIDWeb (es_field subject) (trim_space localDID) \<or> ev_poa attachment = '''' then Inr ()
     else require (po_verify P (ev_poa attachment) (es_field subject) (es_signatory subject))
            PresentationInvalid (Inr ()))))))"

fun check_attachments ::
  "poa_env \<Rightarrow> (string \<Rightarrow> string \<Rightarrow> point option) \<Rightarrow> string \<Rightarrow> string \<Rightarrow> string \<Rightarrow> json list \<Rightarrow> (poa_error, unit) result" where
  "check_attachments P resolve peer localDID contractIRI [] = Inr ()"
| "check_attachments P resolve peer localDID contractIRI (raw # rest) =
     bind_res (check_attachment P resolve peer localDID contractIRI raw) (\<lambda>_.
       check_attachments P resolve peer localDID contractIRI rest)"

definition PoAGate_Check ::
  "poa_env \<Rightarrow> (string \<Rightarrow> string \<Rightarrow> point option) \<Rightarrow> string \<Rightarrow> string \<Rightarrow> string \<Rightarrow> json list \<Rightarrow> (poa_error, unit) result" where
  "PoAGate_Check P resolve peer localDID contractIRI evidence =
    (if evidence = [] then Inr ()
     else require (po_trust P) NoIssuerTrust
       (check_attachments P resolve peer localDID contractIRI evidence))"

section \<open>Properties\<close>

lemma check_attachments_Inr:
  "check_attachments P resolve peer localDID iri evs = Inr () \<longleftrightarrow>
    (\<forall>raw\<in>set evs. check_attachment P resolve peer localDID iri raw = Inr ())"
  by (induction evs) (auto simp: bind_res_Inr_iff)

lemma verifySummary_Inr:
  assumes "verifySummary P resolve summary owner = Inr ()"
  shows "\<exists>method key. resolve owner method = Some key \<and> po_proof P summary key"
  using assms by (auto simp: verifySummary_def result_iffs)

lemma assertionKeyOf_published:
  assumes "assertionKeyOf Out own localPeer peer peerDoc owner methodID = Some key"
  shows "\<exists>doc. PublishesKeyFor PurposeAssertion (Some key) doc
    \<and> (doc = own \<and> SameDIDWeb owner localPeer \<or> doc = peerDoc \<and> SameDIDWeb owner peer \<or> out_did Out owner = Some doc)"
proof -
  have pub: "PublishesKeyFor PurposeAssertion (Some key) doc" if "AssertionKey (Some doc) m = Some key" for doc m
    using that MethodFor_published
    by (fastforce simp: AssertionKey_def bind_eq_Some_conv PublishesKeyFor_iff split: if_splits)
  show ?thesis
    using assms by (auto simp: assertionKeyOf_def dest: pub split: if_splits option.splits)
qed

text \<open>
  C11: accepted signing evidence is bound to its owner and to the contract.  When the
  evidence of a shipped PDF is accepted, every attachment in it, not only the last one
  of a field, names this contract, a field and a signatory; its summary verifies against
  an assertion key of the instance the field names, or of the shipper when the field
  names no instance; and a Power of Attorney, when the attachment carries one and the
  field is not the receiver's own, verifies for exactly this field and this signatory.
  An attachment without a Power of Attorney is accepted, as the code documents: absent
  evidence does not refuse the exchange.
\<close>

theorem accepted_evidence_is_bound:
  assumes "PoAGate_Check P (assertionKeyOf Out own localPeer peer peerDoc) peer localPeer iri evidence = Inr ()"
    and "raw \<in> set evidence"
  shows "\<exists>att sub key doc. ReadSigningEvidence raw = Some (att, sub)
    \<and> es_contract sub = trim_space iri \<and> es_field sub \<noteq> '''' \<and> es_signatory sub \<noteq> ''''
    \<and> po_proof P (ev_summary att) key \<and> PublishesKeyFor PurposeAssertion (Some key) doc
    \<and> (doc = own \<and> SameDIDWeb (field_owner peer (es_field sub)) localPeer
        \<or> doc = peerDoc \<and> SameDIDWeb (field_owner peer (es_field sub)) peer
        \<or> out_did Out (field_owner peer (es_field sub)) = Some doc)
    \<and> (SameDIDWeb (es_field sub) (trim_space localPeer) \<or> ev_poa att = ''''
        \<or> po_verify P (ev_poa att) (es_field sub) (es_signatory sub))"
proof -
  let ?resolve = "assertionKeyOf Out own localPeer peer peerDoc"
  have "check_attachment P ?resolve peer localPeer iri raw = Inr ()"
    using assms by (auto simp: PoAGate_Check_def require_Inr_iff check_attachments_Inr split: if_splits)
  then obtain att sub where a: "ReadSigningEvidence raw = Some (att, sub)" "es_field sub \<noteq> ''''"
      "verifySummary P ?resolve (ev_summary att) (field_owner peer (es_field sub)) = Inr ()"
      "es_contract sub = trim_space iri" "es_signatory sub \<noteq> ''''"
      "SameDIDWeb (es_field sub) (trim_space localPeer) \<or> ev_poa att = ''''
        \<or> po_verify P (ev_poa att) (es_field sub) (es_signatory sub)"
    by (auto simp: check_attachment_def result_iffs split: if_splits)
  from verifySummary_Inr [OF a(3)] obtain named key where k: "po_proof P (ev_summary att) key"
      "?resolve (field_owner peer (es_field sub)) named = Some key" by blast
  from assertionKeyOf_published [OF k(2)] a k(1) show ?thesis by blast
qed

end
