(* ===== verification/Peer_Receive.thy ===== *)
theory Peer_Receive
  imports Sync_Store Poa_Gate Creation Lifecycle
begin

text \<open>
  Receiving a contract PDF from a peer
  (\<open>contractworkflowengine/command/receivepdf.go\<close>): the contract rebuilt from the document
  the PDF carries, the tasks of the receiving instance, the PDF kept as its artifact, and
  the two repository statements it uses (\<open>RemoteCreate\<close>, \<open>RemoteUpdate\<close> of
  \<open>db/pg/contractrepository.go\<close>).  The contract tables change in one transaction; the key
  store and the object store change outside of it.
\<close>

section \<open>The instance\<close>

text \<open>
  \<open>pc_verify\<close> answers whether the pages of a PDF match the document it embeds,
  \<open>pc_payload\<close> extracts that document, \<open>pc_evidence\<close> the signing evidence: the PDF service.
\<close>

record pdf_core =
  pc_verify :: "string \<Rightarrow> bool option"
  pc_payload :: "string \<Rightarrow> string option"
  pc_evidence :: "string \<Rightarrow> json list option"

text \<open>
  What an instance is configured with.  \<open>nd_payload_hash\<close> is the hexadecimal SHA-256 of a
  stored document, \<open>nd_now_text\<close> the signing time \<open>jades.Sign\<close> writes for an instant,
  \<open>nd_float\<close> a number read as \<open>float64\<close> and truncated to an \<open>int\<close>.
\<close>

record node_env =
  nd_engine :: env
  nd_wire :: wire_env
  nd_pki :: pki
  nd_document :: did_document
  nd_signer :: jws_signer
  nd_crypto :: crypto
  nd_owner :: key_owner
  nd_poa :: poa_env
  nd_pdf :: pdf_core
  nd_payload_hash :: "json option \<Rightarrow> string"
  nd_now_text :: "int \<Rightarrow> string"
  nd_float :: "string \<Rightarrow> int"

text \<open>The instant of a call, the random values it draws and what the object store answers.\<close>

record call =
  cl_now :: int
  cl_adopt :: draws
  cl_put :: draws
  cl_cid :: "string option"

definition GetLocalPeer :: "node_env \<Rightarrow> (peer_error, string) result" where
  "GetLocalPeer N = peer_option NoOwnIdentity (dd_id (nd_document N))"

section \<open>The two repository statements\<close>

record remote_contract =
  rc_did :: string
  rc_version :: int
  rc_state :: contract_state
  rc_name :: "string option"
  rc_data :: json
  rc_template_did :: string
  rc_template_version :: int
  rc_created_at :: int
  rc_created_by :: string
  rc_updated_at :: int
  rc_origin :: string
  rc_responsible :: "responsible option"

definition RemoteCreate :: "int \<Rightarrow> remote_contract \<Rightarrow> store \<Rightarrow> (cwe_error, store) result" where
  "RemoteCreate now d s =
    map_sum id (\<lambda>s'. s'\<lparr>contracts := (contracts s')(rc_did d := map_option (\<lambda>c. c\<lparr>c_updated_at := rc_updated_at d\<rparr>)
        (contracts s' (rc_did d)))\<rparr>)
      (Contract_Create now
        \<lparr>c_did = rc_did d, c_origin = rc_origin d, c_version = 1, c_state = rc_state d,
         c_created_by = rc_created_by d, c_created_at = rc_created_at d, c_updated_at = rc_updated_at d,
         c_content_updated_at = now, c_start_date = None, c_exp_date = None, c_exp_policy = None,
         c_exp_notice_period = None, c_name = rc_name d, c_description = None,
         c_responsible = rc_responsible d, c_data = Some (rc_data d), c_template_did = rc_template_did d,
         c_template_version = rc_template_version d, c_target_id = None,
         c_pdf = \<lparr>pdf_ipfs_cid = '''', pdf_renderer_version = '''', pdf_c2pa_state = '''', pdf_payload_hash = ''''\<rparr>\<rparr> s)"

text \<open>
  \<open>createRemoteQuery\<close>: the template, the creation columns and the origin are always set,
  the responsible never.
\<close>

definition remote_columns :: "remote_contract \<Rightarrow> contract \<Rightarrow> contract" where
  "remote_columns d c =
    c\<lparr>c_version := (if rc_version d > 0 then rc_version d else c_version c),
      c_state := rc_state d,
      c_name := (case rc_name d of None \<Rightarrow> c_name c | Some n \<Rightarrow> Some n),
      c_data := (if IsNotNullValue (Some (rc_data d)) then Some (rc_data d) else c_data c),
      c_template_did := rc_template_did d, c_template_version := rc_template_version d,
      c_created_at := rc_created_at d, c_created_by := rc_created_by d,
      c_updated_at := rc_updated_at d, c_origin := rc_origin d\<rparr>"

definition RemoteUpdate :: "int \<Rightarrow> remote_contract \<Rightarrow> store \<Rightarrow> store" where
  "RemoteUpdate now d s = update_row now (rc_did d) (remote_columns d) s"

section \<open>What the document says about itself\<close>

text \<open>
  A JSON number is a \<open>float64\<close> truncated to an \<open>int\<close>: an integer literal below 2^53 in
  magnitude stays what it is, any other number is read by the argument \<open>number\<close>.
\<close>

definition float_int :: "(string \<Rightarrow> int) \<Rightarrow> string \<Rightarrow> int" where
  "float_int number t =
    (case go_int t of Some v \<Rightarrow> if \<bar>v\<bar> \<le> 2 ^ 53 then v else number t | None \<Rightarrow> number t)"

definition parseShippedContractMeta :: "(string \<Rightarrow> int) \<Rightarrow> json \<Rightarrow> string \<times> int \<times> string option" where
  "parseShippedContractMeta number payload =
    (case payload of
       JObj doc \<Rightarrow>
         (let prov = (case obj_get doc ''derivedFromTemplate'' of Some (JObj p) \<Rightarrow> p | _ \<Rightarrow> []);
              meta = (case obj_get doc ''dcs:metadata'' of Some (JObj m) \<Rightarrow> m | _ \<Rightarrow> [])
          in (case obj_get prov ''@id'' of Some (JStr i) \<Rightarrow> after_last_slash i | _ \<Rightarrow> '''',
              case obj_get prov ''version'' of Some (JNum t) \<Rightarrow> float_int number t | _ \<Rightarrow> 0,
              case obj_get meta ''dcs:title'' of Some (JStr t) \<Rightarrow> if t \<noteq> '''' then Some t else None | _ \<Rightarrow> None))
     | _ \<Rightarrow> ('''', 0, None))"

section \<open>The receiver\<close>

record receive_cmd =
  rv_contract :: string
  rv_counterparty :: string
  rv_local_peer :: string
  rv_payload :: json
  rv_pdf :: string
  rv_adopt_revoked :: bool

datatype receive_error = ReceiveStore cwe_error | ReceiveKeys key_error | ReceiveLifecycle

definition lift_rstore :: "(cwe_error, 'a) result \<Rightarrow> (receive_error, 'a) result" where
  "lift_rstore m = (case m of Inl e \<Rightarrow> Inl (ReceiveStore e) | Inr x \<Rightarrow> Inr x)"

lemma lift_rstore_Inr [simp]: "lift_rstore m = Inr x \<longleftrightarrow> m = Inr x"
  by (auto simp: lift_rstore_def split: sum.splits)

definition remote_data :: "(string \<Rightarrow> int) \<Rightarrow> int \<Rightarrow> receive_cmd \<Rightarrow> remote_contract" where
  "remote_data number now cmd =
    (let (tdid, tver, name) = parseShippedContractMeta number (rv_payload cmd)
     in \<lparr>rc_did = rv_contract cmd, rc_version = 0, rc_state = Draft, rc_name = name, rc_data = rv_payload cmd,
         rc_template_did = tdid, rc_template_version = tver, rc_created_at = go_zero_time, rc_created_by = '''',
         rc_updated_at = now, rc_origin = '''', rc_responsible = None\<rparr>)"

definition refreshed_copy :: "(string \<Rightarrow> int) \<Rightarrow> int \<Rightarrow> receive_cmd \<Rightarrow> contract \<Rightarrow> remote_contract" where
  "refreshed_copy number now cmd existing =
    (remote_data number now cmd)
      \<lparr>rc_state := (if rv_adopt_revoked cmd then Revoked else effective_state now existing),
       rc_origin := c_origin existing, rc_created_by := c_created_by existing,
       rc_version := c_version existing + 1\<rparr>"

definition first_copy :: "(string \<Rightarrow> int) \<Rightarrow> int \<Rightarrow> receive_cmd \<Rightarrow> remote_contract" where
  "first_copy number now cmd =
    (remote_data number now cmd)
      \<lparr>rc_state := (if rv_adopt_revoked cmd then Revoked else Offered),
       rc_origin := rv_counterparty cmd, rc_created_by := rv_counterparty cmd, rc_created_at := now,
       rc_version := 1,
       rc_responsible := Some \<lparr>resp_creator = rv_counterparty cmd, resp_approvers = [rv_local_peer cmd],
         resp_reviewers = [rv_local_peer cmd], resp_negotiators = [rv_local_peer cmd],
         resp_counterparty = rv_local_peer cmd\<rparr>\<rparr>"

text \<open>The copy with its tasks, and the state it is left in.\<close>

definition upsert_copy ::
  "env \<Rightarrow> (string \<Rightarrow> int) \<Rightarrow> int \<Rightarrow> receive_cmd \<Rightarrow> store \<Rightarrow> (receive_error, contract_state \<times> store) result" where
  "upsert_copy e number now cmd s =
    (case contracts s (rv_contract cmd) of
       Some existing \<Rightarrow>
         let d = refreshed_copy number now cmd existing
         in Inr (rc_state d, RollForward (rv_contract cmd) (c_version existing) (rc_version d) (RemoteUpdate now d s))
     | None \<Rightarrow>
         let d = first_copy number now cmd
         in bind_res (lift_rstore (RemoteCreate now d s)) (\<lambda>s1.
              Inr (rc_state d, createReviewAndApprovalTasks e now (rv_contract cmd) (rv_local_peer cmd)
                     (the (rc_responsible d)) s1)))"

text \<open>
  The artifact: the bytes are encrypted and stored, and the row records where they are,
  the lifecycle of what is in them and the hash of the document as persisted.
\<close>

definition keep_artifact ::
  "node_env \<Rightarrow> call \<Rightarrow> receive_cmd \<Rightarrow> contract_state \<Rightarrow> store \<Rightarrow> key_store \<times> (string \<Rightarrow> bytes option)
     \<Rightarrow> (receive_error, store) result \<times> key_store \<times> (string \<Rightarrow> bytes option)" where
  "keep_artifact N k cmd st s kept =
    (if rv_pdf cmd = '''' then (Inr s, kept)
     else case Put (nd_crypto N) (nd_owner N) (cl_put k) (ContractScope (rv_contract cmd)) (str_bytes (rv_pdf cmd)) (cl_cid k) kept of
       Inl e \<Rightarrow> (Inl (ReceiveKeys e), kept)
     | Inr (cid, keys', objects') \<Rightarrow>
         ((case ArtifactC2PAState (state_string st) (rv_pdf cmd) of
             None \<Rightarrow> Inl ReceiveLifecycle
           | Some c2pa \<Rightarrow>
               bind_res (lift_rstore (ReadDataByDID (cl_now k) (rv_contract cmd) s)) (\<lambda>persisted.
                 Inr (UpdatePDFState (cl_now k) (rv_contract cmd)
                   \<lparr>pdf_ipfs_cid = cid, pdf_renderer_version = '''', pdf_c2pa_state = c2pa,
                    pdf_payload_hash = nd_payload_hash N (c_data persisted)\<rparr> s))),
          keys', objects'))"

definition PeerPdfReceiver_Handle ::
  "node_env \<Rightarrow> call \<Rightarrow> receive_cmd \<Rightarrow> peer_node \<Rightarrow> (receive_error, unit) result \<times> peer_node" where
  "PeerPdfReceiver_Handle N k cmd n =
    (case upsert_copy (nd_engine N) (nd_float N) (cl_now k) cmd (pn_store n) of
       Inl e \<Rightarrow> (Inl e, n)
     | Inr (st, s1) \<Rightarrow>
         let (res, keys', objects') = keep_artifact N k cmd st s1 (pn_keys n, pn_objects n);
             n' = n\<lparr>pn_keys := keys', pn_objects := objects'\<rparr>
         in (case res of
               Inl e \<Rightarrow> (Inl e, n')
             | Inr s2 \<Rightarrow> (Inr (), n'\<lparr>pn_store := s2\<rparr>)))"

end
