(* ===== verification/Peer_Service.thy ===== *)
theory Peer_Service
  imports Peer_Receive
begin

text \<open>
  The endpoints peers call (\<open>service/dcs_to_dcs.go\<close>, \<open>service/dcs_to_dcs_settlement.go\<close>):
  a settlement, the withdrawal of one, a contract PDF, an erasure, and the stored
  signature of a contract.  Every endpoint authenticates the caller first; a denial of the
  trust gate leaves an incident although the call fails.
\<close>

section \<open>The session\<close>

definition lift_challenge :: "(challenge_error, 'a) result \<Rightarrow> (peer_error, 'a) result" where
  "lift_challenge m = (case m of Inl e \<Rightarrow> Inl (PeerUnauthenticated e) | Inr x \<Rightarrow> Inr x)"

lemma lift_challenge_Inr [simp]: "lift_challenge m = Inr x \<longleftrightarrow> m = Inr x"
  by (auto simp: lift_challenge_def split: sum.splits)

definition peer_session ::
  "node_env \<Rightarrow> outside \<Rightarrow> string \<Rightarrow> string \<Rightarrow> string \<Rightarrow> (peer_error, did_document \<times> string) result" where
  "peer_session N Out fromPeer secret hash =
    bind_res (peer_option PeerUnresolved (out_did Out fromPeer)) (\<lambda>remote.
    bind_res (lift_challenge (VerifyPeerChallenge (nd_pki N) remote secret hash)) (\<lambda>_.
    bind_res (GetLocalPeer N) (\<lambda>localPeer.
    require (\<not> SameDIDWeb fromPeer localPeer) SelfShipped (Inr (remote, localPeer)))))"

section \<open>A settlement arrives\<close>

record settlement_request =
  sr_from :: string
  sr_contract :: string
  sr_secret :: string
  sr_hash :: string
  sr_jades :: string

text \<open>\<open>contractDocumentOf\<close>: a missing document is the empty one, which the digest reads \<open>None\<close> as.\<close>

definition contractDocumentOf :: "contract \<Rightarrow> json option" where
  "contractDocumentOf c = (if IsNotNullValue (c_data c) then c_data c else None)"

definition document_digest_of :: "env \<Rightarrow> contract \<Rightarrow> (peer_error, string) result" where
  "document_digest_of e c = peer_option DigestImpossible (document_digest e (contractDocumentOf c))"

definition contract_parties :: "contract \<Rightarrow> string list" where
  "contract_parties c = (case c_responsible c of None \<Rightarrow> [] | Some r \<Rightarrow> GetParties r)"

fun history_digests :: "env \<Rightarrow> contract list \<Rightarrow> (peer_error, string list) result" where
  "history_digests e [] = Inr []"
| "history_digests e (c # cs) =
     bind_res (document_digest_of e c) (\<lambda>d. bind_res (history_digests e cs) (\<lambda>ds. Inr (d # ds)))"

definition supersededDocumentDigests ::
  "env \<Rightarrow> string \<Rightarrow> string \<Rightarrow> store \<Rightarrow> (peer_error, string list) result" where
  "supersededDocumentDigests e did localPeer s =
    bind_res (history_digests e (filter (\<lambda>c. c_did c = did) (history s))) (\<lambda>ds.
      Inr ((case GetSettlement did localPeer s of None \<Rightarrow> [] | Some own \<Rightarrow> [st_digest own]) @ ds))"

definition lift_store :: "(cwe_error, 'a) result \<Rightarrow> (peer_error, 'a) result" where
  "lift_store m = (case m of Inl e \<Rightarrow> Inl NoLocalCopy | Inr x \<Rightarrow> Inr x)"

lemma lift_store_Inr [simp]: "lift_store m = Inr x \<longleftrightarrow> m = Inr x"
  by (auto simp: lift_store_def split: sum.splits)

definition accept_settlement ::
  "node_env \<Rightarrow> int \<Rightarrow> did_document \<Rightarrow> string \<Rightarrow> settlement_request \<Rightarrow> store \<Rightarrow> (peer_error, store) result" where
  "accept_settlement N now remote localPeer req s =
    bind_res (lift_store (ReadDataByDID now (sr_contract req) s)) (\<lambda>contract.
    bind_res (document_digest_of (nd_engine N) contract) (\<lambda>digest.
    bind_res (supersededDocumentDigests (nd_engine N) (sr_contract req) localPeer s) (\<lambda>superseded.
    bind_res (verifyShippedSettlement (nd_wire N) (sr_jades req) (sr_from req) remote
       \<lparr>lc_contract = sr_contract req, lc_local_peer = localPeer, lc_digest = digest,
        lc_superseded = superseded, lc_parties = contract_parties contract,
        lc_previous = GetSettlement (sr_contract req) (sr_from req) s, lc_now = now\<rparr>) (\<lambda>t.
      Inr (UpsertSettlement t s)))))"

definition PostSettlement ::
  "node_env \<Rightarrow> outside \<Rightarrow> int \<Rightarrow> settlement_request \<Rightarrow> peer_node \<Rightarrow> (peer_error, string) result \<times> peer_node" where
  "PostSettlement N Out now req n =
    (case peer_session N Out (sr_from req) (sr_secret req) (sr_hash req) of
       Inl e \<Rightarrow> (Inl e, n)
     | Inr (remote, localPeer) \<Rightarrow>
         (case TrustGate_Check Out now (sr_from req) Inbound (sr_contract req) '''' of
            Inl kind \<Rightarrow> (Inl (GateDenied kind (sr_from req)), note_denial (sr_contract req) (sr_from req) Inbound kind n)
          | Inr _ \<Rightarrow>
              (case accept_settlement N now remote localPeer req (pn_store n) of
                 Inl e \<Rightarrow> (Inl e, n)
               | Inr s \<Rightarrow> (Inr localPeer, n\<lparr>pn_store := s\<rparr>))))"

section \<open>A withdrawal arrives\<close>

definition accept_withdrawal ::
  "node_env \<Rightarrow> int \<Rightarrow> did_document \<Rightarrow> string \<Rightarrow> settlement_request \<Rightarrow> store \<Rightarrow> (peer_error, bool \<times> store) result" where
  "accept_withdrawal N now remote localPeer req s =
    bind_res (lift_store (ReadDataByDID now (sr_contract req) s)) (\<lambda>contract.
    bind_res (verifyShippedWithdrawal (nd_wire N) (sr_jades req) (sr_from req) remote
       \<lparr>lw_contract = sr_contract req, lw_local_peer = localPeer, lw_parties = contract_parties contract,
        lw_now = now\<rparr>) (\<lambda>w.
      Inr (if withdrawalTakesBack w (GetSettlement (sr_contract req) (sr_from req) s)
           then (True, DeleteSettlementsBy (sr_contract req) (sr_from req) s) else (False, s))))"

definition PostSettlementWithdrawal ::
  "node_env \<Rightarrow> outside \<Rightarrow> int \<Rightarrow> settlement_request \<Rightarrow> peer_node \<Rightarrow> (peer_error, string \<times> bool) result \<times> peer_node" where
  "PostSettlementWithdrawal N Out now req n =
    (case peer_session N Out (sr_from req) (sr_secret req) (sr_hash req) of
       Inl e \<Rightarrow> (Inl e, n)
     | Inr (remote, localPeer) \<Rightarrow>
         (case TrustGate_Check Out now (sr_from req) Inbound (sr_contract req) '''' of
            Inl kind \<Rightarrow> (Inl (GateDenied kind (sr_from req)), note_denial (sr_contract req) (sr_from req) Inbound kind n)
          | Inr _ \<Rightarrow>
              (case accept_withdrawal N now remote localPeer req (pn_store n) of
                 Inl e \<Rightarrow> (Inl e, n)
               | Inr (applied, s) \<Rightarrow> (Inr (localPeer, applied), n\<lparr>pn_store := s\<rparr>))))"

section \<open>A contract PDF arrives\<close>

record wire_cek =
  wk_alg :: string
  wk_kid :: string
  wk_epk :: "ephemeral_public_key option"
  wk_wrapped :: bytes

record pdf_request =
  pr_from :: string
  pr_contract :: string
  pr_pdf :: string
  pr_secret :: string
  pr_hash :: string
  pr_jades :: "string option"
  pr_state :: "string option"
  pr_cek :: "wire_cek option"
  pr_shapes :: "shipped_shapes option list"

definition BuildContractPayload :: "wire_env \<Rightarrow> string \<Rightarrow> int \<Rightarrow> string \<Rightarrow> string option" where
  "BuildContractPayload W did version contractData =
    map_option (\<lambda>document. wr_canonical W (JObj [(''dcs:contractDid'', JStr did),
        (''dcs:contractDocument'', document), (''dcs:contractVersion'', JNum (int_text version))]))
      (if contractData = '''' then Some (JObj []) else wr_parse W contractData)"

definition verifyShippedJades ::
  "wire_env \<Rightarrow> string \<Rightarrow> string \<Rightarrow> string \<Rightarrow> string \<Rightarrow> did_document \<Rightarrow> (peer_error, sync_signature) result" where
  "verifyShippedJades W jws contractIRI fromPeer pdfPayload remote =
    bind_res (signed_members W jws remote) (\<lambda>(payload, m).
    bind_res (peer_option PayloadUndecodable (read_string ''dcs:contractDid'' m)) (\<lambda>did.
    bind_res (peer_option PayloadUndecodable (read_int ''dcs:contractVersion'' m)) (\<lambda>version.
    require (did = contractIRI) OtherContract
    (bind_res (peer_option PayloadMissing (BuildContractPayload W did version pdfPayload)) (\<lambda>expected.
     require (payload = expected) OtherDocument
     (Inr \<lparr>ss_did = contractIRI, ss_version = version, ss_from_peer = fromPeer, ss_jades = jws,
           ss_received_at = 0, ss_poa_evidence = None, ss_poa_revalidated_at = None\<rparr>))))))"

definition ReceivedPinnedShapes :: "shipped_shapes option list \<Rightarrow> shipped_shapes list" where
  "ReceivedPinnedShapes wire = List.map_filter id wire"

definition EnvelopeWrappedCEK :: "wire_cek \<Rightarrow> (peer_error, wrapped_cek) result" where
  "EnvelopeWrappedCEK w =
    (case wk_epk w of
       None \<Rightarrow> Inl KeyUnusable
     | Some epk \<Rightarrow> Inr \<lparr>wc_alg = wk_alg w, wc_kid = wk_kid w, wc_epk = epk, wc_wrapped = wk_wrapped w\<rparr>)"

text \<open>What is read out of the PDF: the document, the signature that came along, the evidence.\<close>

definition inspect_pdf ::
  "node_env \<Rightarrow> did_document \<Rightarrow> pdf_request \<Rightarrow> (peer_error, string \<times> sync_signature option \<times> json list) result" where
  "inspect_pdf N remote req =
    bind_res (peer_option ContentUnverifiable (pc_verify (nd_pdf N) (pr_pdf req))) (\<lambda>contentMatch.
    require contentMatch ContentMismatch
    (bind_res (peer_option PayloadMissing (pc_payload (nd_pdf N) (pr_pdf req))) (\<lambda>payload.
     bind_res (case pr_jades req of
                 None \<Rightarrow> Inr None
               | Some j \<Rightarrow> if j = '''' then Inr None
                         else map_sum id Some (verifyShippedJades (nd_wire N) j (pr_contract req) (pr_from req) payload remote))
       (\<lambda>sig.
     bind_res (peer_option EvidenceUnreadable (pc_evidence (nd_pdf N) (pr_pdf req))) (\<lambda>evidence.
       Inr (payload, sig, evidence))))))"

definition pinnedShapeRefs :: "wire_env \<Rightarrow> string \<Rightarrow> (peer_error, (string \<times> int) list) result" where
  "pinnedShapeRefs W document =
    bind_res (peer_option ShapesUnavailable (struct_members W document)) (\<lambda>content.
      (case EffectiveShapeRefs content of Inl _ \<Rightarrow> Inl ShapesUnavailable | Inr refs \<Rightarrow> Inr refs))"

definition PlanPinnedShapes ::
  "wire_env \<Rightarrow> hub \<Rightarrow> string \<Rightarrow> shipped_shapes option list \<Rightarrow> (peer_error, shipped_shapes list) result" where
  "PlanPinnedShapes W h document wire =
    bind_res (pinnedShapeRefs W document) (\<lambda>refs.
      (case PlanPinnedShapesImport h refs (ReceivedPinnedShapes wire) of
         Inl _ \<Rightarrow> Inl ShapesUnavailable | Inr install \<Rightarrow> Inr install))"

definition key_failure :: "key_error \<Rightarrow> peer_error" where
  "key_failure e = (case e of Shredded _ \<Rightarrow> ScopeErased | _ \<Rightarrow> KeyUnusable)"

definition adopt_key :: "node_env \<Rightarrow> call \<Rightarrow> pdf_request \<Rightarrow> key_store \<Rightarrow> (peer_error, key_store) result" where
  "adopt_key N k req keys =
    (case pr_cek req of
       None \<Rightarrow> Inr keys
     | Some w \<Rightarrow> bind_res (EnvelopeWrappedCEK w) (\<lambda>wrapped.
         (case AdoptPeerCEK (nd_crypto N) (nd_owner N) (cl_adopt k) (ContractScope (pr_contract req)) (Some wrapped) keys of
            Inl e \<Rightarrow> Inl (key_failure e) | Inr keys' \<Rightarrow> Inr keys')))"

definition receive_failure :: "receive_error \<Rightarrow> peer_error" where
  "receive_failure e =
    (case e of ReceiveStore c \<Rightarrow> StoreFailed c | ReceiveKeys ke \<Rightarrow> key_failure ke | ReceiveLifecycle \<Rightarrow> PDFUnreadable)"

definition receive_cmd_of :: "node_env \<Rightarrow> string \<Rightarrow> string \<Rightarrow> pdf_request \<Rightarrow> receive_cmd" where
  "receive_cmd_of N localPeer payload req =
    \<lparr>rv_contract = pr_contract req, rv_counterparty = pr_from req, rv_local_peer = localPeer,
     rv_payload = (case wr_parse (nd_wire N) payload of Some doc \<Rightarrow> doc | None \<Rightarrow> JNull), rv_pdf = pr_pdf req,
     rv_adopt_revoked = (pr_state req = Some (state_string Revoked))\<rparr>"

text \<open>
  The writes, in their order: the key, the local copy with its artifact, the signature,
  the libraries.  Each of them is committed before the next one runs.
\<close>

definition store_pdf ::
  "node_env \<Rightarrow> call \<Rightarrow> string \<Rightarrow> pdf_request \<Rightarrow> string \<Rightarrow> sync_signature option \<Rightarrow> shipped_shapes list \<Rightarrow> peer_node
     \<Rightarrow> (peer_error, string) result \<times> peer_node" where
  "store_pdf N k localPeer req payload sig install n =
    (case adopt_key N k req (pn_keys n) of
       Inl e \<Rightarrow> (Inl e, n)
     | Inr keys \<Rightarrow>
         (case PeerPdfReceiver_Handle N k (receive_cmd_of N localPeer payload req) (n\<lparr>pn_keys := keys\<rparr>) of
            (Inl e, n2) \<Rightarrow> (Inl (receive_failure e), n2)
          | (Inr _, n2) \<Rightarrow>
              let n3 = (case sig of None \<Rightarrow> n2 | Some s \<Rightarrow> UpsertSyncSignature (cl_now k) s n2);
                  (res, hub') = StorePinnedShapes (''peer:'' @ pr_from req) install (pn_hub n3)
              in (case res of Inl _ \<Rightarrow> Inl ShapesNotInstalled | Inr _ \<Rightarrow> Inr localPeer, n3\<lparr>pn_hub := hub'\<rparr>)))"

definition PostPdf ::
  "node_env \<Rightarrow> outside \<Rightarrow> call \<Rightarrow> pdf_request \<Rightarrow> peer_node \<Rightarrow> (peer_error, string) result \<times> peer_node" where
  "PostPdf N Out k req n =
    (case peer_session N Out (pr_from req) (pr_secret req) (pr_hash req) of
       Inl e \<Rightarrow> (Inl e, n)
     | Inr (remote, localPeer) \<Rightarrow>
         (case TrustGate_Check Out (cl_now k) (pr_from req) Inbound (pr_contract req) '''' of
            Inl kind \<Rightarrow> (Inl (GateDenied kind (pr_from req)), note_denial (pr_contract req) (pr_from req) Inbound kind n)
          | Inr _ \<Rightarrow>
              (case inspect_pdf N remote req of
                 Inl e \<Rightarrow> (Inl e, n)
               | Inr (payload, sig, evidence) \<Rightarrow>
                   (case PoAGate_Check (nd_poa N) (assertionKeyOf Out (nd_document N) localPeer (pr_from req) remote)
                           (pr_from req) localPeer (pr_contract req) evidence of
                      Inl _ \<Rightarrow> (Inl (GateDenied PoAFailure (pr_from req)),
                               note_denial (pr_contract req) (pr_from req) Inbound PoAFailure n)
                    | Inr _ \<Rightarrow>
                        (case PlanPinnedShapes (nd_wire N) (pn_hub n) payload (pr_shapes req) of
                           Inl e \<Rightarrow> (Inl e, n)
                         | Inr install \<Rightarrow> store_pdf N k localPeer req payload sig install n)))))"

section \<open>An erasure is requested, and provenance is read\<close>

record erase_call =
  ec_from :: string
  ec_contract :: string
  ec_secret :: string
  ec_hash :: string

definition Parties_of_contract :: "int \<Rightarrow> string \<Rightarrow> store \<Rightarrow> (peer_error, string list) result" where
  "Parties_of_contract now did s =
    bind_res (lift_store (ReadDataByDID now did s)) (\<lambda>c. Inr (contract_parties c))"

definition eraseForPeer :: "int \<Rightarrow> string \<Rightarrow> string \<Rightarrow> peer_node \<Rightarrow> (peer_error, peer_node) result" where
  "eraseForPeer now peerDID contractIRI n =
    bind_res (Parties_of_contract now contractIRI (pn_store n)) (\<lambda>parties.
    require (peerDID \<in> set parties) NotAParty
    (Inr (snd (Node_Shred now contractIRI peerDID (''erasure requested by peer '' @ peerDID) n))))"

definition Erase ::
  "node_env \<Rightarrow> outside \<Rightarrow> int \<Rightarrow> erase_call \<Rightarrow> peer_node \<Rightarrow> (peer_error, string) result \<times> peer_node" where
  "Erase N Out now req n =
    (case peer_session N Out (ec_from req) (ec_secret req) (ec_hash req) of
       Inl e \<Rightarrow> (Inl e, n)
     | Inr (_, localPeer) \<Rightarrow>
         (case eraseForPeer now (ec_from req) (ec_contract req) n of
            Inl e \<Rightarrow> (Inl e, n)
          | Inr n' \<Rightarrow> (Inr localPeer, n')))"

definition GetProvenance :: "string \<Rightarrow> peer_node \<Rightarrow> (peer_error, sync_signature) result" where
  "GetProvenance did n = peer_option NoProvenance (GetSyncSignature did n)"

end
