(* ===== verification/Synchronizer.thy ===== *)
theory Synchronizer
  imports Peer_Service
begin

text \<open>
  The sending side of the federation (\<open>dcstodcs/settlement.go\<close>, \<open>dcstodcs/synchronizer.go\<close>,
  \<open>dcstodcs/eraser.go\<close>): the reaction to the events of the engine, settlements and their
  withdrawals with their retries, the ship of a contract PDF and its outcome, and the
  erasure a contract's deletion asks of the peers.  What the network answers is the record
  \<open>sending\<close>; a request that was accepted but whose answer was lost counts as not accepted.
\<close>

section \<open>The network as a sender sees it\<close>

text \<open>
  \<open>sd_out\<close> is the network during the ship of a contract to a peer; \<open>sd_secret\<close> the random
  challenge of a request, \<open>sd_draws\<close> the random values of wrapping a key; the other fields
  say whether the peer accepted a request.
\<close>

record sending =
  sd_configured :: bool
  sd_out :: "string \<Rightarrow> string \<Rightarrow> outside"
  sd_secret :: "string \<Rightarrow> string \<Rightarrow> string"
  sd_draws :: "string \<Rightarrow> string \<Rightarrow> draws"
  sd_settlement :: "string \<Rightarrow> settlement_request \<Rightarrow> bool"
  sd_withdrawal :: "string \<Rightarrow> settlement_request \<Rightarrow> bool"
  sd_pdf :: "string \<Rightarrow> pdf_request \<Rightarrow> bool"
  sd_erase :: "string \<Rightarrow> erase_call \<Rightarrow> bool"

definition sign_challenge :: "node_env \<Rightarrow> sending \<Rightarrow> string \<Rightarrow> string \<Rightarrow> (peer_error, string) result" where
  "sign_challenge N sd did peer = peer_option (SignatureInvalid JwsSigning) (sg_sign (nd_signer N) (sd_secret sd did peer))"

section \<open>Settlements\<close>

definition settlement_claim_of :: "int \<Rightarrow> contract \<Rightarrow> string \<Rightarrow> string \<Rightarrow> string \<Rightarrow> settlement_claim" where
  "settlement_claim_of now c digest localPeer peer =
    \<lparr>sc_contract = c_did c, sc_version = c_version c, sc_digest = digest, sc_by = localPeer, sc_with = peer,
     sc_at = now - now mod microsecond\<rparr>"

definition BuildSettlement ::
  "node_env \<Rightarrow> int \<Rightarrow> contract \<Rightarrow> string \<Rightarrow> string \<Rightarrow> (peer_error, settlement) result" where
  "BuildSettlement N now c localPeer peer =
    bind_res (document_digest_of (nd_engine N) c) (\<lambda>digest.
    bind_res (lift_jws (Jades_Sign (wr_jws (nd_wire N)) (nd_signer N) (nd_now_text N now)
        (BuildSettlementPayload (nd_wire N) (settlement_claim_of now c digest localPeer peer)))) (\<lambda>signature.
      Inr \<lparr>st_did = c_did c, st_from_peer = localPeer, st_to_peer = peer, st_version = c_version c,
           st_digest = digest, st_settled_at = now - now mod microsecond, st_signature = signature,
           st_delivered = None\<rparr>))"

definition recordSettlement ::
  "node_env \<Rightarrow> int \<Rightarrow> contract \<Rightarrow> string \<Rightarrow> string \<Rightarrow> store \<Rightarrow> (peer_error, settlement \<times> store) result" where
  "recordSettlement N now c localPeer peer s =
    bind_res (BuildSettlement N now c localPeer peer) (\<lambda>t.
      let fresh = Inr (t, UpsertSettlement t s)
      in case GetSettlement (c_did c) localPeer s of
           None \<Rightarrow> fresh
         | Some existing \<Rightarrow>
             if st_to_peer existing = peer \<and> st_digest existing = st_digest t then Inr (existing, s) else fresh)"

definition settlement_request_of :: "settlement \<Rightarrow> string \<Rightarrow> string \<Rightarrow> settlement_request" where
  "settlement_request_of t secret hash =
    \<lparr>sr_from = st_from_peer t, sr_contract = st_did t, sr_secret = secret, sr_hash = hash, sr_jades = st_signature t\<rparr>"

definition deliverSettlement ::
  "node_env \<Rightarrow> sending \<Rightarrow> int \<Rightarrow> settlement \<Rightarrow> bool \<Rightarrow> peer_node \<Rightarrow> (peer_error, unit) result \<times> peer_node" where
  "deliverSettlement N sd now t recordIncident n =
    (let did = st_did t; peer = st_to_peer t
     in case TrustGate_Check (sd_out sd did peer) now peer Outbound did (state_string Submitted) of
          Inl kind \<Rightarrow> (Inl (GateDenied kind peer), if recordIncident then note_denial did peer Outbound kind n else n)
        | Inr _ \<Rightarrow>
            (case sign_challenge N sd did peer of
               Inl e \<Rightarrow> (Inl e, n)
             | Inr hash \<Rightarrow>
                 if DIDWebPath peer = None \<or> \<not> sd_settlement sd peer (settlement_request_of t (sd_secret sd did peer) hash)
                 then (Inl PeerRefused, n)
                 else (Inr (), n\<lparr>pn_store := MarkSettlementDelivered now did (st_from_peer t) peer (pn_store n)\<rparr>)))"

fun settle_with ::
  "node_env \<Rightarrow> sending \<Rightarrow> int \<Rightarrow> contract \<Rightarrow> string \<Rightarrow> string list \<Rightarrow> peer_node \<Rightarrow> (peer_error, unit) result \<times> peer_node" where
  "settle_with N sd now c localPeer [] n = (Inr (), n)"
| "settle_with N sd now c localPeer (peer # peers) n =
     (if SameDIDWeb peer localPeer then settle_with N sd now c localPeer peers n
      else case recordSettlement N now c localPeer peer (pn_store n) of
             Inl e \<Rightarrow> (Inl e, n)
           | Inr (t, s) \<Rightarrow>
               let n1 = n\<lparr>pn_store := s\<rparr>
               in if st_delivered t \<noteq> None then settle_with N sd now c localPeer peers n1
                  else case deliverSettlement N sd now t True n1 of
                         (Inl e, n2) \<Rightarrow> (Inl e, n2)
                       | (Inr _, n2) \<Rightarrow> settle_with N sd now c localPeer peers n2)"

definition shipSettlement ::
  "node_env \<Rightarrow> sending \<Rightarrow> int \<Rightarrow> string \<Rightarrow> peer_node \<Rightarrow> (peer_error, unit) result \<times> peer_node" where
  "shipSettlement N sd now did n =
    (case GetLocalPeer N of
       Inl e \<Rightarrow> (Inl e, n)
     | Inr localPeer \<Rightarrow>
         if \<not> sd_configured sd then (Inl NoSender, n)
         else case ReadDataByDID now did (pn_store n) of
                Inl e \<Rightarrow> (Inl NoLocalCopy, n)
              | Inr c \<Rightarrow> settle_with N sd now c localPeer (contract_parties c) n)"

section \<open>Withdrawals\<close>

definition withdrawal_claim_of :: "withdrawal \<Rightarrow> withdrawal_claim" where
  "withdrawal_claim_of w =
    \<lparr>wc_contract = w_did w, wc_digest = w_digest w, wc_by = w_from_peer w, wc_from = w_to_peer w, wc_at = w_withdrawn_at w\<rparr>"

definition BuildSettlementWithdrawal :: "node_env \<Rightarrow> int \<Rightarrow> withdrawal \<Rightarrow> (peer_error, string) result" where
  "BuildSettlementWithdrawal N now w =
    lift_jws (Jades_Sign (wr_jws (nd_wire N)) (nd_signer N) (nd_now_text N now)
      (BuildSettlementWithdrawalPayload (nd_wire N) (withdrawal_claim_of w)))"

definition deliverSettlementWithdrawal ::
  "node_env \<Rightarrow> sending \<Rightarrow> int \<Rightarrow> withdrawal \<Rightarrow> bool \<Rightarrow> peer_node \<Rightarrow> (peer_error, unit) result \<times> peer_node" where
  "deliverSettlementWithdrawal N sd now w recordIncident n =
    (let did = w_did w; peer = w_to_peer w
     in if \<not> sd_configured sd then (Inl NoSender, n)
        else case TrustGate_Check (sd_out sd did peer) now peer Outbound did (state_string Negotiation) of
          Inl kind \<Rightarrow> (Inl (GateDenied kind peer), if recordIncident then note_denial did peer Outbound kind n else n)
        | Inr _ \<Rightarrow>
            (case BuildSettlementWithdrawal N now w of
               Inl e \<Rightarrow> (Inl e, n)
             | Inr signature \<Rightarrow>
                 (case sign_challenge N sd did peer of
                    Inl e \<Rightarrow> (Inl e, n)
                  | Inr hash \<Rightarrow>
                      if DIDWebPath peer = None
                         \<or> \<not> sd_withdrawal sd peer \<lparr>sr_from = w_from_peer w, sr_contract = did,
                               sr_secret = sd_secret sd did peer, sr_hash = hash, sr_jades = signature\<rparr>
                      then (Inl PeerRefused, n)
                      else (Inr (), n\<lparr>pn_store :=
                             MarkSettlementWithdrawalDelivered did (w_from_peer w) peer (pn_store n)\<rparr>))))"

definition pendingSettlementWithdrawals :: "node_env \<Rightarrow> peer_node \<Rightarrow> withdrawal list" where
  "pendingSettlementWithdrawals N n =
    (case GetLocalPeer N of
       Inl _ \<Rightarrow> [] | Inr localPeer \<Rightarrow> GetUndeliveredSettlementWithdrawals localPeer (pn_store n))"

text \<open>Failures are logged and the loop goes on; the list was read before it started.\<close>

definition shipSettlementWithdrawals :: "node_env \<Rightarrow> sending \<Rightarrow> int \<Rightarrow> string \<Rightarrow> peer_node \<Rightarrow> peer_node" where
  "shipSettlementWithdrawals N sd now did n =
    fold (\<lambda>w n. snd (deliverSettlementWithdrawal N sd now w True n))
      (filter (\<lambda>w. w_did w = did) (pendingSettlementWithdrawals N n)) n"

definition retryUndeliveredSettlements :: "node_env \<Rightarrow> sending \<Rightarrow> int \<Rightarrow> peer_node \<Rightarrow> peer_node" where
  "retryUndeliveredSettlements N sd now n =
    (case GetLocalPeer N of
       Inl _ \<Rightarrow> n
     | Inr localPeer \<Rightarrow>
         fold (\<lambda>t n. snd (deliverSettlement N sd now t False n)) (GetUndeliveredSettlements localPeer (pn_store n)) n)"

definition retryUndeliveredSettlementWithdrawals :: "node_env \<Rightarrow> sending \<Rightarrow> int \<Rightarrow> peer_node \<Rightarrow> peer_node" where
  "retryUndeliveredSettlementWithdrawals N sd now n =
    fold (\<lambda>w n. snd (deliverSettlementWithdrawal N sd now w False n)) (pendingSettlementWithdrawals N n) n"

section \<open>Shipping the PDF\<close>

definition shippableStates :: "contract_state list" where
  "shippableStates = [Offered, Negotiation, Signed, Revoked]"

definition contractDataHash :: "node_env \<Rightarrow> contract \<Rightarrow> string" where
  "contractDataHash N c = nd_payload_hash N (c_data c)"

definition holdsSupersededPDF :: "node_env \<Rightarrow> pdf_state \<Rightarrow> contract \<Rightarrow> bool" where
  "holdsSupersededPDF N p c =
    (\<not> IsFrozenC2PAState (pdf_c2pa_state p) \<and> pdf_payload_hash p \<noteq> '''' \<and> pdf_payload_hash p \<noteq> contractDataHash N c)"

text \<open>The payload signed is the stored document, a missing one as the empty object.\<close>

definition contract_payload :: "wire_env \<Rightarrow> contract \<Rightarrow> string" where
  "contract_payload W c =
    wr_canonical W (JObj [(''dcs:contractDid'', JStr (c_did c)),
        (''dcs:contractDocument'', case contractDocumentOf c of None \<Rightarrow> JObj [] | Some doc \<Rightarrow> doc),
        (''dcs:contractVersion'', JNum (int_text (c_version c)))])"

definition jadesForSignedContract :: "node_env \<Rightarrow> int \<Rightarrow> contract \<Rightarrow> (peer_error, string) result" where
  "jadesForSignedContract N now c =
    (if c_state c \<noteq> Signed then Inr ''''
     else lift_jws (Jades_Sign (wr_jws (nd_wire N)) (nd_signer N) (nd_now_text N now) (contract_payload (nd_wire N) c)))"

definition pinnedShapesForContract :: "hub \<Rightarrow> contract \<Rightarrow> (peer_error, shipped_shapes list) result" where
  "pinnedShapesForContract h c =
    (let content = (case contractDocumentOf c of
                      None \<Rightarrow> Some [] | Some (JObj m) \<Rightarrow> Some m | Some JNull \<Rightarrow> Some [] | Some _ \<Rightarrow> None)
     in bind_res (peer_option ShapesUnavailable content) (\<lambda>m.
        case bind_res (EffectiveShapeRefs m) (CollectPinnedShapes h) of
          Inl _ \<Rightarrow> Inl ShapesUnavailable | Inr es \<Rightarrow> Inr es))"

definition recordShipOutcome ::
  "int \<Rightarrow> string \<Rightarrow> peer_error option \<Rightarrow> (gate_kind \<times> string) option \<Rightarrow> peer_node
     \<Rightarrow> (peer_error, unit) result \<times> peer_node" where
  "recordShipOutcome now did shipError gateErr n =
    (case shipError of
       None \<Rightarrow> (Inr (), n\<lparr>pn_sync_fails := DeleteSyncFailEntry did (pn_sync_fails n)\<rparr>)
     | Some e \<Rightarrow>
         let (first, fails) = CreateOrUpdateSyncFailEntry now did (gateErr \<noteq> None) (pn_sync_fails n);
             n1 = n\<lparr>pn_sync_fails := fails\<rparr>
         in (Inl e, case gateErr of
                      Some (kind, peer) \<Rightarrow> if first then note_denial did peer Outbound kind n1 else n1
                    | None \<Rightarrow> n1))"

text \<open>An incident that cannot be recorded rolls the deletion back; the failure is only logged.\<close>

definition clearSyncFailWithIncident :: "string \<Rightarrow> string \<Rightarrow> gate_kind \<Rightarrow> peer_node \<Rightarrow> peer_node" where
  "clearSyncFailWithIncident did peer kind n =
    (case RecordDenialIncidentTxDeduped did peer Outbound kind
            (n\<lparr>pn_sync_fails := DeleteSyncFailEntry did (pn_sync_fails n)\<rparr>) of
       Inl _ \<Rightarrow> n | Inr n' \<Rightarrow> n')"

definition PeerKeyAgreementMethod :: "did_document \<Rightarrow> verification_method option" where
  "PeerKeyAgreementMethod d = (case methodsFor PurposeKeyAgreement d of Some (m # _) \<Rightarrow> Some m | _ \<Rightarrow> None)"

definition WireWrappedCEK :: "wrapped_cek \<Rightarrow> wire_cek" where
  "WireWrappedCEK w = \<lparr>wk_alg = wc_alg w, wk_kid = wc_kid w, wk_epk = Some (wc_epk w), wk_wrapped = wc_wrapped w\<rparr>"

text \<open>
  The key of the contract is wrapped for the peer before anything is sent; the record of it
  stays even when the peer refuses.
\<close>

definition ship_to_peer ::
  "node_env \<Rightarrow> sending \<Rightarrow> string \<Rightarrow> string \<Rightarrow> contract_state \<Rightarrow> string \<Rightarrow> string \<Rightarrow> shipped_shapes list \<Rightarrow> string
     \<Rightarrow> key_store \<Rightarrow> (peer_error, unit) result \<times> key_store" where
  "ship_to_peer N sd localPeer did st pdf jws shapes peer keys =
    (case bind_res (peer_option PeerUnresolved (out_did (sd_out sd did peer) peer)) (\<lambda>remote.
          bind_res (peer_option KeyUnusable (PeerKeyAgreementMethod remote)) (\<lambda>m.
          bind_res (peer_option KeyUnusable (ECPublicKey m)) (\<lambda>pub.
            case WrapForPeer (nd_crypto N) (nd_owner N) (sd_draws sd did peer) (ContractScope did) peer (vm_id m) (Some pub) keys of
              Inl e \<Rightarrow> Inl (key_failure e) | Inr r \<Rightarrow> Inr r))) of
       Inl e \<Rightarrow> (Inl e, keys)
     | Inr (wrapped, keys') \<Rightarrow>
         ((if DIDWebPath peer = None then Inl PeerUnresolved
           else bind_res (sign_challenge N sd did peer) (\<lambda>hash.
             require (sd_pdf sd peer \<lparr>pr_from = localPeer, pr_contract = did, pr_pdf = pdf,
                 pr_secret = sd_secret sd did peer, pr_hash = hash, pr_jades = Some jws,
                 pr_state = Some (state_string st), pr_cek = Some (WireWrappedCEK wrapped),
                 pr_shapes = map Some shapes\<rparr>) PeerRefused (Inr ()))), keys'))"

text \<open>The loop over the recipients: the first failure ends it.\<close>

fun shipToPeers ::
  "node_env \<Rightarrow> sending \<Rightarrow> int \<Rightarrow> string \<Rightarrow> string \<Rightarrow> contract_state \<Rightarrow> string \<Rightarrow> string \<Rightarrow> shipped_shapes list \<Rightarrow> string list
     \<Rightarrow> key_store \<Rightarrow> (peer_error, unit) result \<times> key_store" where
  "shipToPeers N sd now localPeer did st pdf jws shapes [] keys = (Inr (), keys)"
| "shipToPeers N sd now localPeer did st pdf jws shapes (peer # peers) keys =
     (if peer = localPeer then shipToPeers N sd now localPeer did st pdf jws shapes peers keys
      else case TrustGate_Check (sd_out sd did peer) now peer Outbound did (state_string st) of
             Inl kind \<Rightarrow> (Inl (GateDenied kind peer), keys)
           | Inr _ \<Rightarrow>
               (case ship_to_peer N sd localPeer did st pdf jws shapes peer keys of
                  (Inl e, keys') \<Rightarrow> (Inl e, keys')
                | (Inr _, keys') \<Rightarrow> shipToPeers N sd now localPeer did st pdf jws shapes peers keys'))"

definition gate_error_of :: "peer_error \<Rightarrow> (gate_kind \<times> string) option" where
  "gate_error_of e = (case e of GateDenied kind peer \<Rightarrow> Some (kind, peer) | _ \<Rightarrow> None)"

definition finish_ship ::
  "int \<Rightarrow> string \<Rightarrow> (peer_error, unit) result \<Rightarrow> peer_node \<Rightarrow> (peer_error, unit) result \<times> peer_node" where
  "finish_ship now did res n =
    (case res of
       Inr _ \<Rightarrow> recordShipOutcome now did None None n
     | Inl e \<Rightarrow>
         (case gate_error_of e of
            Some (PolicyFailure, peer) \<Rightarrow> (Inr (), clearSyncFailWithIncident did peer PolicyFailure n)
          | g \<Rightarrow> recordShipOutcome now did (Some e) g n))"

text \<open>
  Every error before the pinned libraries are read ends the ship without an entry for the
  retry; a contract without responsible makes \<open>GetParties\<close> panic (\<open>NilResponsible\<close>).
\<close>

definition ship_stored_pdf ::
  "node_env \<Rightarrow> sending \<Rightarrow> int \<Rightarrow> string \<Rightarrow> string \<Rightarrow> contract \<Rightarrow> pdf_state \<Rightarrow> peer_node
     \<Rightarrow> (peer_error, unit) result \<times> peer_node" where
  "ship_stored_pdf N sd now localPeer did c p n =
    (case c_responsible c of
       None \<Rightarrow> (Inl NilResponsible, n)
     | Some r \<Rightarrow>
         (case Get (nd_crypto N) (nd_owner N) (sd_draws sd did localPeer) (ContractScope did) (pdf_ipfs_cid p) (pn_keys n, pn_objects n) of
            Inl _ \<Rightarrow> (Inl PDFUnreadable, n)
          | Inr (pdf, keys) \<Rightarrow>
              let n1 = n\<lparr>pn_keys := keys\<rparr>
              in if pdf = [] then (Inl PDFUnreadable, n1)
                 else case jadesForSignedContract N now c of
                        Inl e \<Rightarrow> (Inl e, n1)
                      | Inr jws \<Rightarrow>
                          (case pinnedShapesForContract (pn_hub n) c of
                             Inl e \<Rightarrow> recordShipOutcome now did (Some e) None n1
                           | Inr shapes \<Rightarrow>
                               let (res, keys') = shipToPeers N sd now localPeer did (c_state c) (bytes_text pdf) jws shapes
                                                    (GetParties r) keys
                               in finish_ship now did res (n1\<lparr>pn_keys := keys'\<rparr>))))"

definition shipContractPDF ::
  "node_env \<Rightarrow> sending \<Rightarrow> int \<Rightarrow> string \<Rightarrow> peer_node \<Rightarrow> (peer_error, unit) result \<times> peer_node" where
  "shipContractPDF N sd now did n =
    (case GetLocalPeer N of
       Inl e \<Rightarrow> (Inl e, n)
     | Inr localPeer \<Rightarrow>
         (case (ReadDataByDID now did (pn_store n), ReadPDFState did (pn_store n)) of
            (Inr c, Inr p) \<Rightarrow>
              if c_state c \<notin> set shippableStates then (Inr (), n)
              else if pdf_ipfs_cid p = '''' then recordShipOutcome now did (Some PDFMissing) None n
              else if holdsSupersededPDF N p c then recordShipOutcome now did (Some PDFSuperseded) None n
              else ship_stored_pdf N sd now localPeer did c p n
          | _ \<Rightarrow> (Inl NoLocalCopy, n)))"

section \<open>Reacting to events, and the retry pass\<close>

text \<open>The events the subscriber receives: those of the engine and the others it ships on.\<close>

datatype sync_event =
    FromEngine cwe_event | PDFRegenerated string | AppliedSignature string | RevokedSignature string | OtherSource

definition settlementFromEvent :: "cwe_event \<Rightarrow> (peer_error, string \<times> bool) result" where
  "settlementFromEvent evt =
    (case evt of
       SubmitEvent did _ _ previousState newState _ \<Rightarrow>
         require (did \<noteq> '''') NoLocalCopy (Inr (did, previousState = Negotiation \<and> newState = Some Submitted))
     | _ \<Rightarrow> Inl NoLocalCopy)"

definition sync_handler :: "node_env \<Rightarrow> sending \<Rightarrow> int \<Rightarrow> sync_event \<Rightarrow> peer_node \<Rightarrow> peer_node" where
  "sync_handler N sd now evt n =
    (case evt of
       FromEngine (SubmitEvent did v by prev nxt flag) \<Rightarrow>
         let n1 = (if did = '''' then n else shipSettlementWithdrawals N sd now did n)
         in (case settlementFromEvent (SubmitEvent did v by prev nxt flag) of
               Inr (settledDID, True) \<Rightarrow> snd (shipSettlement N sd now settledDID n1)
             | _ \<Rightarrow> n1)
     | FromEngine (RejectEvent did v by reason) \<Rightarrow> if did = '''' then n else shipSettlementWithdrawals N sd now did n
     | FromEngine (OfferEvent did v by) \<Rightarrow> if did = '''' then n else snd (shipContractPDF N sd now did n)
     | FromEngine _ \<Rightarrow> n
     | PDFRegenerated did \<Rightarrow> if did = '''' then n else snd (shipContractPDF N sd now did n)
     | AppliedSignature did \<Rightarrow> if did = '''' then n else snd (shipContractPDF N sd now did n)
     | RevokedSignature did \<Rightarrow> if did = '''' then n else snd (shipContractPDF N sd now did n)
     | OtherSource \<Rightarrow> n)"

definition shipRetriesPerPass :: nat where
  "shipRetriesPerPass = 25"

definition maxShipRetryBackoff :: int where
  "maxShipRetryBackoff = 10 * 60 * 1000000000"

definition sync_tick :: "node_env \<Rightarrow> sending \<Rightarrow> int \<Rightarrow> int \<Rightarrow> peer_node \<Rightarrow> peer_node" where
  "sync_tick N sd interval now n =
    (let due = GetPendingSyncFails now interval maxShipRetryBackoff shipRetriesPerPass (pn_sync_fails n);
         n1 = fold (\<lambda>f n. snd (shipContractPDF N sd now (sf_did f) n)) due n
     in retryUndeliveredSettlementWithdrawals N sd now (retryUndeliveredSettlements N sd now n1))"

section \<open>Erasing a contract everywhere\<close>

definition attemptPeerErase ::
  "node_env \<Rightarrow> sending \<Rightarrow> int \<Rightarrow> string \<Rightarrow> string \<Rightarrow> peer_node \<Rightarrow> (peer_error, unit) result \<times> peer_node" where
  "attemptPeerErase N sd now did peer n =
    (case bind_res (GetLocalPeer N) (\<lambda>localPeer. bind_res (sign_challenge N sd did peer) (\<lambda>hash. Inr (localPeer, hash))) of
       Inl e \<Rightarrow> (Inl e, n)
     | Inr (localPeer, hash) \<Rightarrow>
         if DIDWebPath peer = None \<or> \<not> sd_erase sd peer \<lparr>ec_from = localPeer, ec_contract = did,
               ec_secret = sd_secret sd did peer, ec_hash = hash\<rparr>
         then (Inl PeerRefused, n\<lparr>pn_erasures := Erasure_RecordAttempt now did peer (pn_erasures n)\<rparr>)
         else (Inr (), n\<lparr>pn_erasures := Erasure_Confirm now did peer (pn_erasures n)\<rparr>))"

definition request_erasure :: "node_env \<Rightarrow> sending \<Rightarrow> int \<Rightarrow> string \<Rightarrow> string \<Rightarrow> string \<Rightarrow> peer_node \<Rightarrow> peer_node" where
  "request_erasure N sd now did localPeer peer n =
    (if peer = localPeer then n
     else snd (attemptPeerErase N sd now did peer (n\<lparr>pn_erasures := Erasure_Upsert did peer (pn_erasures n)\<rparr>)))"

definition EraseContract ::
  "node_env \<Rightarrow> sending \<Rightarrow> int \<Rightarrow> string \<Rightarrow> string \<Rightarrow> string \<Rightarrow> peer_node \<Rightarrow> (peer_error, unit) result \<times> peer_node" where
  "EraseContract N sd now did actor reason n =
    (case bind_res (Parties_of_contract now did (pn_store n)) (\<lambda>parties.
          bind_res (GetLocalPeer N) (\<lambda>localPeer. Inr (parties, localPeer))) of
       Inl e \<Rightarrow> (Inl e, n)
     | Inr (parties, localPeer) \<Rightarrow>
         (Inr (), fold (request_erasure N sd now did localPeer) parties (snd (Node_Shred now did actor reason n))))"

definition RetryPending :: "node_env \<Rightarrow> sending \<Rightarrow> int \<Rightarrow> peer_node \<Rightarrow> peer_node" where
  "RetryPending N sd now n =
    fold (\<lambda>r n. snd (attemptPeerErase N sd now (er_did r) (er_peer r) n)) (Erasure_GetPending (pn_erasures n)) n"

end
