(* ===== verification/Evidence_Frames.thy ===== *)
theory Evidence_Frames
  imports Store_Frames
begin

text \<open>
  What the workflow does to the evidence of agreement: no command of the engine and no
  expiry takes an event out of the outbox or adds a settlement.  The facts are collected
  handler by handler; the federation argues from them about what an instance has signed.
\<close>

definition keeps_evidence :: "store \<Rightarrow> store \<Rightarrow> bool" where
  "keeps_evidence s s' =
    ((\<exists>evts. outbox s' = outbox s @ evts) \<and> set (settlements s') \<subseteq> set (settlements s))"

lemma keeps_refl [simp]: "keeps_evidence s s"
  by (simp add: keeps_evidence_def)

lemma keeps_trans [trans]: "keeps_evidence a b \<Longrightarrow> keeps_evidence b c \<Longrightarrow> keeps_evidence a c"
  by (auto simp: keeps_evidence_def)

lemma keeps_same: "outbox s' = outbox s \<Longrightarrow> settlements s' = settlements s \<Longrightarrow> keeps_evidence s s'"
  by (simp add: keeps_evidence_def)

lemma keeps_event: "event_Create evt t = Inr s' \<Longrightarrow> keeps_evidence s t \<Longrightarrow> keeps_evidence s s'"
  using settlements_result_ops(6) [of evt t s']
  by (auto simp: keeps_evidence_def event_Create_def split: if_splits)

lemma keeps_Update: "Update now u t = Inr s' \<Longrightarrow> keeps_evidence s t \<Longrightarrow> keeps_evidence s s'"
  using settlements_result_ops(7) outbox_result_ops(6) by (metis keeps_evidence_def)

lemma keeps_withdraw [simp]: "keeps_evidence s (withdrawOwnSettlement now p d t) \<longleftrightarrow>
    (\<exists>evts. outbox t = outbox s @ evts) \<and> set (settlements (withdrawOwnSettlement now p d t)) \<subseteq> set (settlements s)"
  by (simp add: keeps_evidence_def)

lemma withdraw_settlements: "settlements (withdrawOwnSettlement now p d t) = filter (\<lambda>x. \<not> settled_by d p x) (settlements t)"
proof -
  have "settlements (fold (\<lambda>t. UpsertSettlementWithdrawal (f t)) ts s) = settlements s" for f s and ts :: "settlement list"
    by (induction ts arbitrary: s) simp_all
  then show ?thesis by (simp add: withdrawOwnSettlement_def DeleteSettlementsBy_def)
qed

lemmas keeps_ops = keeps_evidence_def withdraw_settlements

section \<open>Submit\<close>

lemma semantic_data_keeps:
  "contractDataForSemanticValidation e now cmd s = Inr (d, s1) \<Longrightarrow> keeps_evidence s s1"
  by (auto simp: contractDataForSemanticValidation_def result_iffs split: option.splits if_splits intro: keeps_Update)

lemma reseed_keeps: "reseedPartiesAndSignatureFields e now did t = Inr s' \<Longrightarrow> keeps_evidence s t \<Longrightarrow> keeps_evidence s s'"
  using reseed_ops [of e now did t s'] by (simp add: keeps_evidence_def)

lemma superseded_keeps: "submit_record_superseded p cmd sups t = Inr s' \<Longrightarrow> keeps_evidence s t \<Longrightarrow> keeps_evidence s s'"
  by (auto simp: submit_record_superseded_def result_iffs keeps_evidence_def split: if_splits
      dest!: MarkSuperseded_ops elim!: keeps_event [unfolded keeps_evidence_def])

lemma RollForward_keeps [simp]: "keeps_evidence s (RollForward d v v' t) \<longleftrightarrow> keeps_evidence s t"
  by (simp add: keeps_evidence_def)

lemma history_keeps [simp]: "keeps_evidence s (CreateHistoryEntryForDID now d t) \<longleftrightarrow> keeps_evidence s t"
  by (simp add: keeps_evidence_def)

lemma submit_merge_keeps:
  assumes "submit_merge e now localPeer p cmd t = Inr s'" "keeps_evidence s t"
  shows "keeps_evidence s s'"
proof -
  from assms(1) obtain u sups s2 s4 s6 where m: "Update now (u\<lparr>u_version := c_version p + 1\<rparr>) (CreateHistoryEntryForDID now (c_did p) t) = Inr s2"
      "(if u_data u \<noteq> None then reseedPartiesAndSignatureFields e now (cmd_did cmd) (RollForward (c_did p) (c_version p) (c_version p + 1) s2)
        else Inr (RollForward (c_did p) (c_version p) (c_version p + 1) s2)) = Inr s4"
      "submit_record_superseded p cmd sups s4 = Inr s6"
      "event_Create (IncreaseContractVersionEvent (cmd_did cmd) (c_version p) (c_version p + 1) (cmd_by cmd)) s6 = Inr s'"
    by (auto simp: submit_merge_def result_iffs Let_def)
  have "keeps_evidence s s2" by (rule keeps_Update [OF m(1)]) (simp add: assms(2))
  then have "keeps_evidence s s4" using m(2) by (auto split: if_splits intro: reseed_keeps)
  then show ?thesis by (intro keeps_event [OF m(4)] superseded_keeps [OF m(3)])
qed

lemma submit_branch_keeps:
  assumes "submit_branch e now localPeer p cmd s = Inr (s1, nxt)"
  shows "keeps_evidence s s1"
proof -
  have draft: ?thesis if "submit_from_draft e now localPeer p cmd s = Inr (s1, nxt)"
    using that by (auto simp: submit_from_draft_def result_iffs dest!: semantic_data_keeps intro: reseed_keeps)
  have rejected: ?thesis if "submit_from_rejected e now localPeer p cmd s = Inr (s1, nxt)"
    using that by (auto simp: submit_from_rejected_def result_iffs keeps_evidence_def
        dest!: semantic_data_keeps [unfolded keeps_evidence_def])
  have negotiation: ?thesis if "submit_from_negotiation e now localPeer p cmd s = Inr (s1, nxt)"
  proof -
    from that obtain t where t: "NegotiationTask_UpdateState (c_did p) (cmd_causer cmd) (c_version p) NtAccepted s = Inr t"
        "s1 = t \<or> submit_merge e now localPeer p cmd t = Inr s1"
      by (auto simp: submit_from_negotiation_def result_iffs split: if_splits)
    have "keeps_evidence s t"
      using outbox_result_ops(3) [OF t(1)] settlements_result_ops(3) [OF t(1)] by (rule keeps_same)
    with t(2) show ?thesis by (auto intro: submit_merge_keeps)
  qed
  have submitted: ?thesis if "submit_from_submitted now localPeer p cmd s = Inr (s1, nxt)"
    using that
    by (auto simp: submit_from_submitted_def result_iffs keeps_evidence_def withdraw_settlements
        split: option.splits action_flag.splits
        dest: outbox_result_ops(1) settlements_result_ops(1))
  have reviewed: ?thesis if "submit_from_reviewed p cmd s = Inr (s1, nxt)"
    using that by (auto simp: submit_from_reviewed_def result_iffs keeps_evidence_def)
  show ?thesis using assms draft rejected negotiation submitted reviewed
    by (auto simp: submit_branch_def split: if_splits)
qed

lemma UpdateState_keeps_evidence [simp]: "keeps_evidence s (UpdateState now did st t) \<longleftrightarrow> keeps_evidence s t"
  by (simp add: keeps_evidence_def)

lemma task_keeps:
  "ReviewTask_UpdateState d r t s = Inr s' \<Longrightarrow> keeps_evidence s s'"
  "ApprovalTask_UpdateState d r ta s = Inr s' \<Longrightarrow> keeps_evidence s s'"
  "Negotiation_Accept i b s = Inr s' \<Longrightarrow> keeps_evidence s s'"
  "Negotiation_Reject i b rr s = Inr s' \<Longrightarrow> keeps_evidence s s'"
  by (auto intro!: keeps_same dest: outbox_result_ops settlements_result_ops)

lemma Submit_keeps:
  assumes "Submit e now cmd s = Inr s'"
  shows "keeps_evidence s s'"
proof -
  obtain localPeer r s1 nxt s2 evt where
    b: "submit_branch e now localPeer (r\<lparr>c_state := effective_state now r\<rparr>) cmd s = Inr (s1, nxt)"
    and a: "submit_advance now (cmd_did cmd) (effective_state now r) nxt s1 = Inr s2"
    and evt: "event_Create evt s2 = Inr s'"
    by (rule Submit_cases [OF assms]) (rule that, assumption+)
  have "keeps_evidence s s2"
    using a submit_branch_keeps [OF b] by (cases rule: submit_advance_cases) auto
  then show ?thesis by (rule keeps_event [OF evt])
qed

section \<open>The other handlers\<close>

lemma Approve_keeps:
  assumes "Approve e now cmd s = Inr s'"
  shows "keeps_evidence s s'"
proof -
  obtain r :: contract and s1 s3 evt where s1: "ApprovalTask_UpdateState (cmd_did cmd) (cmd_causer cmd) AtApproved s = Inr s1"
    and s3: "if ApprovalTask_AnyTasksInState (c_did r) [AtOpen] s1 then s3 = s1
     else \<exists>d. Update now ((no_update (cmd_did cmd))\<lparr>u_data := Some d\<rparr>)
        (UpdateState now (cmd_did cmd) Approved s1) = Inr s3"
    and evt: "event_Create evt s3 = Inr s'"
    by (rule Approve_cases [OF assms]) (rule that, assumption+)
  have "keeps_evidence s s3"
    using s3 task_keeps(2) [OF s1] by (auto split: if_splits intro: keeps_Update)
  then show ?thesis by (rule keeps_event [OF evt])
qed

lemma Reject_keeps:
  assumes "Reject e now cmd s = Inr s'"
  shows "keeps_evidence s s'"
proof -
  from assms obtain localPeer s1 evt where s1: "ApprovalTask_UpdateState (cmd_did cmd) (cmd_causer cmd) AtRejected s = Inr s1"
    and evt: "event_Create evt (UpdateState now (cmd_did cmd) Rejected
        (withdrawOwnSettlement now localPeer (cmd_did cmd) s1)) = Inr s'"
    by (auto simp: Reject_def handler_iffs)
  have "keeps_evidence s (UpdateState now (cmd_did cmd) Rejected (withdrawOwnSettlement now localPeer (cmd_did cmd) s1))"
    using task_keeps(2) [OF s1] by (auto simp: keeps_evidence_def withdraw_settlements)
  then show ?thesis by (rule keeps_event [OF evt])
qed

lemma simple_keeps:
  "Offer e now cmd s = Inr s' \<Longrightarrow> keeps_evidence s s'"
  "Withdraw e now cmd s = Inr s' \<Longrightarrow> keeps_evidence s s'"
  "Review did rby s = Inr s' \<Longrightarrow> keeps_evidence s s'"
  "SaveNegotiationDraft now ncmd s = Inr s' \<Longrightarrow> keeps_evidence s s'"
  "DeleteNegotiationDraft cmd s = Inr s' \<Longrightarrow> keeps_evidence s s'"
  by (auto simp: Offer_def Withdraw_def Review_def SaveNegotiationDraft_def DeleteNegotiationDraft_def handler_iffs
      elim!: keeps_event intro!: keeps_same)

lemma EnqueueTx_keeps [simp]: "keeps_evidence s (EnqueueTx d st r e t) \<longleftrightarrow> keeps_evidence s t"
  by (simp add: keeps_evidence_def)

lemma Terminate_keeps: "Terminate e now cmd s = Inr s' \<Longrightarrow> keeps_evidence s s'"
  by (auto simp: Terminate_def handler_iffs elim!: keeps_event)

lemma answer_keeps:
  "AcceptNegotiation now cmd s = Inr s' \<Longrightarrow> keeps_evidence s s'"
  "RejectNegotiation now cmd s = Inr s' \<Longrightarrow> keeps_evidence s s'"
  by (auto simp: AcceptNegotiation_def RejectNegotiation_def handler_iffs
      elim!: keeps_event intro: task_keeps)

lemma enter_keeps: "enter_negotiation now did cur t = Inr s' \<Longrightarrow> keeps_evidence s t \<Longrightarrow> keeps_evidence s s'"
  by (auto simp: enter_negotiation_def result_iffs split: if_splits)

lemma AcceptOffer_keeps:
  assumes "AcceptOffer e now cmd s = Inr s'"
  shows "keeps_evidence s s'"
proof -
  from assms obtain r localPeer s1 s2 evt where
      s1: "reseedPartiesAndSignatureFields e now (cmd_did cmd)
        (mintNegotiationTask e now (cmd_did cmd) localPeer (cmd_by cmd) (c_version r) s) = Inr s1"
    and s2: "enter_negotiation now (cmd_did cmd) (effective_state now r) s1 = Inr s2"
    and evt: "event_Create evt s2 = Inr s'"
    by (auto simp: AcceptOffer_def handler_iffs)
  show ?thesis
    by (intro keeps_event [OF evt] enter_keeps [OF s2] reseed_keeps [OF s1]) (simp add: keeps_evidence_def)
qed

lemma redline_keeps:
  "negotiate_redline e now localPeer p cmd t = Inr (s', v) \<Longrightarrow> keeps_evidence s t \<Longrightarrow> keeps_evidence s s'"
  by (auto simp: negotiate_redline_def handler_iffs split: option.splits intro: keeps_Update)

lemma Negotiate_keeps:
  assumes "Negotiate e now cmd s = Inr s'"
  shows "keeps_evidence s s'"
proof -
  obtain r localPeer s1 t s3 v s5 s6 evt where
    s1: "negotiate_engage e now localPeer (r\<lparr>c_state := effective_state now r\<rparr>) cmd s = Inr s1"
    and t: "t = Negotiation_Create (uuid e) now (cmd_did cmd) (c_version r) (neg_change_request cmd)
           (cmd_by cmd) (ReadNegotiatorsForDID (cmd_did cmd) s1) s1"
    and s3: "negotiate_redline e now localPeer (r\<lparr>c_state := effective_state now r\<rparr>) cmd t = Inr (s3, v)"
    and s5: "reseedPartiesAndSignatureFields e now (cmd_did cmd)
       (if v \<noteq> c_version r then RollForward (cmd_did cmd) (c_version r) v s3
        else NegotiationTask_ReopenTasks (cmd_did cmd) v s3) = Inr s5"
    and s6: "enter_negotiation now (cmd_did cmd) (effective_state now r) s5 = Inr s6"
    and evt: "event_Create evt (DeleteDraft (cmd_did cmd) (cmd_by cmd) s6) = Inr s'"
    by (rule Negotiate_cases [OF assms]) (rule that, assumption+)
  have "keeps_evidence s t"
    using s1 by (auto simp: t keeps_evidence_def negotiate_engage_def result_iffs split: if_splits)
  then have "keeps_evidence s s3" by (rule redline_keeps [OF s3])
  then have "keeps_evidence s (if v \<noteq> c_version r then RollForward (cmd_did cmd) (c_version r) v s3
        else NegotiationTask_ReopenTasks (cmd_did cmd) v s3)" by (simp add: keeps_evidence_def)
  then have "keeps_evidence s s6" by (intro enter_keeps [OF s6] reseed_keeps [OF s5])
  then have "keeps_evidence s (DeleteDraft (cmd_did cmd) (cmd_by cmd) s6)" by (simp add: keeps_evidence_def)
  then show ?thesis by (rule keeps_event [OF evt])
qed

lemma UpdateContract_keeps: "UpdateContract e now cmd s = Inr s' \<Longrightarrow> keeps_evidence s s'"
proof -
  assume "UpdateContract e now cmd s = Inr s'"
  then obtain u s1 evt where "Update now u s = Inr s1" "event_Create evt s1 = Inr s'"
    unfolding UpdateContract_def handler_iffs by blast
  then show ?thesis by (auto elim!: keeps_event intro: keeps_Update)
qed

lemma execute_keeps: "execute e now a s = Inr s' \<Longrightarrow> keeps_evidence s s'"
  by (cases a) (auto intro: simple_keeps Terminate_keeps Approve_keeps Reject_keeps Submit_keeps AcceptOffer_keeps
      Negotiate_keeps answer_keeps UpdateContract_keeps)

lemma expiry_keeps: "keeps_evidence s (expiry_tick now cs s)"
proof (induction cs arbitrary: s)
  case (Cons c cs)
  have "keeps_evidence s s'" if "callExpirationLogic now c s = Inr s'" for s'
    using that by (auto simp: callExpirationLogic_def result_iffs split: option.splits intro: keeps_event)
  with Cons show ?case by (auto split: sum.splits intro: keeps_trans)
qed simp

end
