(* ===== verification/Federation.thy ===== *)
theory Federation
  imports Synchronizer Evidence_Frames
begin

text \<open>
  Several instances at work: each runs its engine, its expiry job and its synchroniser on
  its own state, and receives what others send.  The composition of the engine
  (\<open>contractworkflowengine/command\<close>), the synchroniser (\<open>dcstodcs\<close>) and the endpoints
  (\<open>service/dcs_to_dcs*.go\<close>) has one promise the parts do not have alone: when the signing
  gate of an instance opens, every other party has agreed to the same document.  A handler
  is one step; a message arrives any time after it was made, any number of times, or never.
\<close>

section \<open>Statements\<close>

definition claim_of :: "settlement \<Rightarrow> settlement_claim" where
  "claim_of t = \<lparr>sc_contract = st_did t, sc_version = st_version t, sc_digest = st_digest t,
     sc_by = st_from_peer t, sc_with = st_to_peer t, sc_at = st_settled_at t\<rparr>"

definition same_statement :: "settlement \<Rightarrow> settlement \<Rightarrow> bool" where
  "same_statement t t' = (st_did t = st_did t' \<and> st_from_peer t = st_from_peer t'
     \<and> st_to_peer t = st_to_peer t' \<and> st_digest t = st_digest t')"

text \<open>The workflow left NEGOTIATION for SUBMITTED: the event the synchroniser settles on.\<close>

definition settles :: "string \<Rightarrow> cwe_event \<Rightarrow> bool" where
  "settles did evt = (settlementFromEvent evt = Inr (did, True))"

definition submitted_here :: "string \<Rightarrow> peer_node \<Rightarrow> bool" where
  "submitted_here did n = list_ex (settles did) (outbox (pn_store n))"

text \<open>The instance holds a document with the digest a statement names.\<close>

definition holds_document :: "env \<Rightarrow> string \<Rightarrow> string \<Rightarrow> peer_node \<Rightarrow> bool" where
  "holds_document e did digest n =
    (case contracts (pn_store n) did of
       None \<Rightarrow> False | Some c \<Rightarrow> document_digest_of e c = Inr digest)"

lemma same_statement_refl [simp]: "same_statement t t"
  by (simp add: same_statement_def)

lemma same_statement_trans: "same_statement a b \<Longrightarrow> same_statement b c \<Longrightarrow> same_statement a c"
  by (simp add: same_statement_def)

section \<open>What a step adds to the settlements of an instance\<close>

text \<open>
  \<open>Said\<close> are the settlements issued so far anywhere.  A settlement an instance has after a
  step was there before, or is its own, about a document it holds and after its own
  workflow settled, or was issued toward it by the instance it names.
\<close>

definition accounted :: "node_env \<Rightarrow> string \<Rightarrow> settlement set \<Rightarrow> peer_node \<Rightarrow> peer_node \<Rightarrow> settlement \<Rightarrow> bool" where
  "accounted N p Said n n' t =
    ((\<exists>t0\<in>set (settlements (pn_store n)). same_statement t t0)
     \<or> st_from_peer t = p \<and> submitted_here (st_did t) n' \<and> holds_document (nd_engine N) (st_did t) (st_digest t) n'
     \<or> st_from_peer t \<noteq> p \<and> (\<exists>t0\<in>Said. SameDIDWeb (st_from_peer t0) (st_from_peer t) \<and> st_did t0 = st_did t
          \<and> st_digest t0 = st_digest t \<and> SameDIDWeb (st_to_peer t0) p))"

lemma accounted_before: "t0 \<in> set (settlements (pn_store n)) \<Longrightarrow> same_statement t t0 \<Longrightarrow> accounted N p Said n n' t"
  by (auto simp: accounted_def)

lemma accounted_kept [intro]: "t \<in> set (settlements (pn_store n)) \<Longrightarrow> accounted N p Said n n' t"
  by (rule accounted_before [OF _ same_statement_refl])

definition node_grows :: "node_env \<Rightarrow> string \<Rightarrow> settlement set \<Rightarrow> peer_node \<Rightarrow> peer_node \<Rightarrow> bool" where
  "node_grows N p Said n n' =
    ((store_wf (pn_store n) \<longrightarrow> store_wf (pn_store n'))
     \<and> (\<exists>evts. outbox (pn_store n') = outbox (pn_store n) @ evts)
     \<and> (\<forall>t\<in>set (settlements (pn_store n')). accounted N p Said n n' t))"

lemma node_grows_keeps:
  assumes "keeps_evidence (pn_store n) (pn_store n')" "store_wf (pn_store n) \<Longrightarrow> store_wf (pn_store n')"
  shows "node_grows N p Said n n'"
  using assms by (auto simp: node_grows_def keeps_evidence_def)

lemma node_grows_store: "pn_store n' = pn_store n \<Longrightarrow> node_grows N p Said n n'"
  by (rule node_grows_keeps) simp_all

text \<open>The synchroniser leaves the contracts and the outbox alone.\<close>

definition sync_grows :: "node_env \<Rightarrow> string \<Rightarrow> peer_node \<Rightarrow> peer_node \<Rightarrow> bool" where
  "sync_grows N p n n' =
    (contracts (pn_store n') = contracts (pn_store n) \<and> outbox (pn_store n') = outbox (pn_store n)
     \<and> (\<forall>t\<in>set (settlements (pn_store n')). accounted N p {} n n' t))"

lemma sync_grows_store: "pn_store n' = pn_store n \<Longrightarrow> sync_grows N p n n'"
  by (auto simp: sync_grows_def)

lemma sync_grows_refl [simp]: "sync_grows N p n n"
  by (rule sync_grows_store) simp

lemma sync_grows_trans [trans]:
  assumes "sync_grows N p a b" "sync_grows N p b c"
  shows "sync_grows N p a c"
proof -
  have same: "submitted_here did c = submitted_here did b" "holds_document e did g c = holds_document e did g b" for did e g
    using assms(2) by (simp_all add: sync_grows_def submitted_here_def holds_document_def)
  have "accounted N p {} a c t" if "t \<in> set (settlements (pn_store c))" for t
  proof -
    have "accounted N p {} b c t" using assms(2) that by (simp add: sync_grows_def)
    then consider t0 where "t0 \<in> set (settlements (pn_store b))" "same_statement t t0"
      | "st_from_peer t = p" "submitted_here (st_did t) c" "holds_document (nd_engine N) (st_did t) (st_digest t) c"
      by (auto simp: accounted_def)
    then show ?thesis
    proof cases
      case 1
      with assms(1) have "accounted N p {} a b t0" by (simp add: sync_grows_def)
      with 1(2) show ?thesis unfolding accounted_def same by (auto simp: same_statement_def)
    qed (simp add: accounted_def)
  qed
  with assms show ?thesis by (simp add: sync_grows_def)
qed

lemma sync_grows_fold: "(\<And>x n. x \<in> set xs \<Longrightarrow> sync_grows N p n (f x n)) \<Longrightarrow> sync_grows N p n (fold f xs n)"
  by (induction xs arbitrary: n) (auto intro: sync_grows_trans)

lemma node_grows_sync:
  assumes "sync_grows N p n n'"
  shows "node_grows N p Said n n'"
  using assms by (auto simp: sync_grows_def node_grows_def accounted_def store_wf_def)

section \<open>The synchroniser\<close>

lemma note_denial_store [simp]: "pn_store (note_denial did peer dir kind n) = pn_store n"
  by (auto simp: note_denial_def RecordDenialIncident_def split: sum.splits if_splits)

lemma recordShipOutcome_store [simp]: "pn_store (snd (recordShipOutcome now did e g n)) = pn_store n"
  by (auto simp: recordShipOutcome_def Let_def split: option.splits prod.splits)

lemma clearSyncFail_store [simp]: "pn_store (clearSyncFailWithIncident did peer kind n) = pn_store n"
  by (auto simp: clearSyncFailWithIncident_def RecordDenialIncidentTxDeduped_def RecordDenialIncident_def
      split: sum.splits if_splits)

lemma finish_ship_store [simp]: "pn_store (snd (finish_ship now did res n)) = pn_store n"
  by (auto simp: finish_ship_def split: sum.splits option.splits prod.splits gate_kind.splits)

lemma ship_stored_pdf_store [simp]: "pn_store (snd (ship_stored_pdf N sd now localPeer did c p n)) = pn_store n"
  by (auto simp: ship_stored_pdf_def Let_def split: option.splits sum.splits prod.splits)

lemma shipContractPDF_store [simp]: "pn_store (snd (shipContractPDF N sd now did n)) = pn_store n"
  by (auto simp: shipContractPDF_def split: sum.splits)

lemma sync_grows_mark: "sync_grows N p n (n\<lparr>pn_store := MarkSettlementDelivered now did f peer (pn_store n)\<rparr>)"
  using Mark_set [of _ now did f peer "pn_store n"]
  by (auto simp: sync_grows_def same_statement_def intro!: accounted_before dest!: Mark_set)

lemma sync_grows_deliver: "sync_grows N p n (snd (deliverSettlement N sd now t rec n))"
  by (auto simp: deliverSettlement_def Let_def intro!: sync_grows_store sync_grows_mark split: sum.splits)

lemma sync_grows_withdrawal: "sync_grows N p n (snd (deliverSettlementWithdrawal N sd now w rec n))"
proof -
  have "sync_grows N p n (n\<lparr>pn_store := MarkSettlementWithdrawalDelivered did f peer (pn_store n)\<rparr>)" for did f peer
    by (auto simp: sync_grows_def)
  then show ?thesis
    by (auto simp: deliverSettlementWithdrawal_def Let_def intro!: sync_grows_store split: sum.splits)
qed

lemma sync_grows_withdrawals:
  "sync_grows N p n (shipSettlementWithdrawals N sd now did n)"
  "sync_grows N p n (retryUndeliveredSettlementWithdrawals N sd now n)"
  "sync_grows N p n (retryUndeliveredSettlements N sd now n)"
  by (auto simp: shipSettlementWithdrawals_def retryUndeliveredSettlementWithdrawals_def
      retryUndeliveredSettlements_def split: sum.splits
      intro!: sync_grows_fold sync_grows_withdrawal sync_grows_deliver)

lemma document_digest_of_state [simp]: "document_digest_of e (c\<lparr>c_state := st\<rparr>) = document_digest_of e c"
  by (simp add: document_digest_of_def contractDocumentOf_def)

text \<open>One settlement: recorded for the row as it stands, under this instance's own name.\<close>

lemma sync_grows_record:
  assumes "recordSettlement N now c p peer (pn_store n) = Inr (t, s)"
    and "contracts (pn_store n) (c_did c) = Some r" "document_digest_of (nd_engine N) c = document_digest_of (nd_engine N) r"
    and "submitted_here (c_did c) n"
  shows "sync_grows N p n (n\<lparr>pn_store := s\<rparr>)"
proof -
  from assms(1) obtain t0 where t0: "BuildSettlement N now c p peer = Inr t0"
      and s: "s = pn_store n \<or> s = UpsertSettlement t0 (pn_store n)"
    by (auto simp: recordSettlement_def result_iffs Let_def split: option.splits if_splits)
  from t0 have "st_did t0 = c_did c" "st_from_peer t0 = p"
      "document_digest_of (nd_engine N) c = Inr (st_digest t0)"
    by (auto simp: BuildSettlement_def result_iffs)
  then have "accounted N p {} n (n\<lparr>pn_store := UpsertSettlement t0 (pn_store n)\<rparr>)
      (t0\<lparr>st_settled_at := pg_time (st_settled_at t0)\<rparr>)"
    using assms(2-4) by (simp add: accounted_def submitted_here_def holds_document_def)
  with s show ?thesis
    by (auto simp: sync_grows_def UpsertSettlement_set)
qed

lemma sync_grows_settle:
  assumes "contracts (pn_store n) (c_did c) = Some r" "document_digest_of (nd_engine N) c = document_digest_of (nd_engine N) r"
    and "submitted_here (c_did c) n"
  shows "sync_grows N p n (snd (settle_with N sd now c p peers n))"
  using assms
proof (induction N sd now c p peers n rule: settle_with.induct)
  case (2 N sd now c p peer peers n)
  note digest = 2(5) and event = 2(6) and row = 2(4)
  show ?case
  proof (cases "SameDIDWeb peer p \<or> (\<exists>e. recordSettlement N now c p peer (pn_store n) = Inl e)")
    case True
    with 2 show ?thesis by auto
  next
    case False
    then obtain t s where rec: "recordSettlement N now c p peer (pn_store n) = Inr (t, s)"
      by (cases "recordSettlement N now c p peer (pn_store n)") auto
    let ?n1 = "n\<lparr>pn_store := s\<rparr>"
    have n1: "sync_grows N p n ?n1" by (rule sync_grows_record [OF rec row digest event])
    show ?thesis
    proof (cases "st_delivered t \<noteq> None")
      case True
      have "sync_grows N p ?n1 (snd (settle_with N sd now c p peers ?n1))"
        using 2(2) [OF _ rec refl refl True] False n1 row digest event
        by (simp add: sync_grows_def submitted_here_def)
      with n1 have "sync_grows N p n (snd (settle_with N sd now c p peers ?n1))" by (rule sync_grows_trans)
      with True False rec show ?thesis by simp
    next
      case undelivered: False
      obtain res n2 where d: "deliverSettlement N sd now t True ?n1 = (res, n2)" by fastforce
      have n2: "sync_grows N p n n2" using n1 sync_grows_deliver [of N p ?n1 sd now t True] d by (auto intro: sync_grows_trans)
      show ?thesis
      proof (cases res)
        case (Inl e)
        with n2 d undelivered False rec show ?thesis by simp
      next
        case (Inr u)
        have "sync_grows N p n2 (snd (settle_with N sd now c p peers n2))"
          using 2(3) [OF _ rec refl refl _ d [symmetric] Inr] undelivered False n2 row digest event
          by (simp add: sync_grows_def submitted_here_def)
        with n2 have "sync_grows N p n (snd (settle_with N sd now c p peers n2))" by (rule sync_grows_trans)
        with Inr d undelivered False rec show ?thesis by simp
      qed
    qed
  qed
qed simp

lemma sync_grows_shipSettlement:
  assumes "GetLocalPeer N = Inr p" "store_wf (pn_store n)" "submitted_here did n"
  shows "sync_grows N p n (snd (shipSettlement N sd now did n))"
proof (cases "sd_configured sd \<and> (\<exists>r. contracts (pn_store n) did = Some r)")
  case True
  then obtain r where r: "contracts (pn_store n) did = Some r" by blast
  with assms(2) have did: "c_did r = did" by (simp add: store_wf_def)
  have "sync_grows N p n (snd (settle_with N sd now (r\<lparr>c_state := effective_state now r\<rparr>) p peers n))" for peers
    using r did assms(3) by (intro sync_grows_settle [of n _ r]) simp_all
  with True r assms(1) show ?thesis by (simp add: shipSettlement_def ReadDataByDID_def)
next
  case False
  with assms(1) show ?thesis by (auto simp: shipSettlement_def ReadDataByDID_def)
qed

definition known_event :: "sync_event \<Rightarrow> peer_node \<Rightarrow> bool" where
  "known_event evt n = (case evt of FromEngine e \<Rightarrow> e \<in> set (outbox (pn_store n)) | _ \<Rightarrow> True)"

lemma sync_grows_handler:
  assumes "GetLocalPeer N = Inr p" "store_wf (pn_store n)" "known_event evt n"
  shows "sync_grows N p n (sync_handler N sd now evt n)"
proof (cases "\<exists>did v by prev nxt flag. evt = FromEngine (SubmitEvent did v by prev nxt flag)")
  case True
  then obtain did v b prev nxt flag where evt: "evt = FromEngine (SubmitEvent did v b prev nxt flag)" by blast
  define n1 where "n1 = (if did = '''' then n else shipSettlementWithdrawals N sd now did n)"
  have n1: "sync_grows N p n n1" by (simp add: n1_def sync_grows_withdrawals(1))
  show ?thesis
  proof (cases "settlementFromEvent (SubmitEvent did v b prev nxt flag) = Inr (did, True)")
    case settled: True
    then have "submitted_here did n1"
      using assms(3) n1
      by (auto simp: submitted_here_def list_ex_iff settles_def known_event_def evt sync_grows_def)
    moreover have "store_wf (pn_store n1)" using assms(2) n1 by (simp add: sync_grows_def store_wf_def)
    ultimately have "sync_grows N p n (snd (shipSettlement N sd now did n1))"
      using sync_grows_trans [OF n1 sync_grows_shipSettlement] assms(1) by blast
    with settled show ?thesis by (simp add: sync_handler_def evt n1_def Let_def)
  next
    case False
    then have "settlementFromEvent (SubmitEvent did v b prev nxt flag) \<noteq> Inr (d, True)" for d
      by (auto simp: settlementFromEvent_def require_Inr_iff)
    then have "sync_handler N sd now evt n = n1"
      by (auto simp: sync_handler_def evt n1_def Let_def split: sum.splits bool.splits)
    with n1 show ?thesis by simp
  qed
next
  case False
  then show ?thesis
    by (auto simp: sync_handler_def sync_grows_withdrawals intro: sync_grows_store
        split: sync_event.splits cwe_event.splits)
qed

lemma sync_grows_tick: "sync_grows N p n (sync_tick N sd interval now n)"
proof -
  let ?ships = "fold (\<lambda>f n. snd (shipContractPDF N sd now (sf_did f) n))
      (GetPendingSyncFails now interval maxShipRetryBackoff shipRetriesPerPass (pn_sync_fails n)) n"
  have "sync_grows N p n ?ships" by (intro sync_grows_fold sync_grows_store) simp
  also have "sync_grows N p ?ships (retryUndeliveredSettlements N sd now ?ships)"
    by (rule sync_grows_withdrawals)
  finally have "sync_grows N p n (retryUndeliveredSettlements N sd now ?ships)" .
  also have "sync_grows N p (retryUndeliveredSettlements N sd now ?ships)
      (retryUndeliveredSettlementWithdrawals N sd now (retryUndeliveredSettlements N sd now ?ships))"
    by (rule sync_grows_withdrawals)
  finally show ?thesis by (simp add: sync_tick_def Let_def)
qed

section \<open>Erasure\<close>

lemma attemptPeerErase_store [simp]: "pn_store (snd (attemptPeerErase N sd now did peer n)) = pn_store n"
  by (auto simp: attemptPeerErase_def split: sum.splits)

lemma fold_store: "(\<And>x n. pn_store (f x n) = pn_store n) \<Longrightarrow> pn_store (fold f xs n) = pn_store n"
  by (induction xs arbitrary: n) simp_all

lemma Node_Shred_store [simp]: "pn_store (snd (Node_Shred now did actor reason n)) = pn_store n"
  by (simp add: Node_Shred_def Let_def split: prod.splits)

lemma erasure_store [simp]:
  "pn_store (snd (EraseContract N sd now did actor reason n)) = pn_store n"
  "pn_store (RetryPending N sd now n) = pn_store n"
  "eraseForPeer now peer did n = Inr n' \<Longrightarrow> pn_store n' = pn_store n"
  by (auto simp: EraseContract_def RetryPending_def request_erasure_def eraseForPeer_def result_iffs
      fold_store split: sum.splits)

section \<open>Receiving\<close>

text \<open>
  Parsing the canonical text of a settlement gives its members back, in the order the
  canonical form sorts them (RFC 8785); this is the order of \<open>settlement_members\<close>.
\<close>

definition faithful_wire :: "wire_env \<Rightarrow> bool" where
  "faithful_wire W = (\<forall>c. struct_members W (BuildSettlementPayload W c) = Some (settlement_members W c))"

lemma same_payload:
  assumes "faithful_wire W" "BuildSettlementPayload W c = BuildSettlementPayload W c'"
  shows "sc_contract c = sc_contract c'" "sc_digest c = sc_digest c'" "sc_by c = sc_by c'" "sc_with c = sc_with c'"
proof -
  have "settlement_members W c = settlement_members W c'"
    using assms unfolding faithful_wire_def by (metis option.inject)
  then show "sc_contract c = sc_contract c'" "sc_digest c = sc_digest c'" "sc_by c = sc_by c'" "sc_with c = sc_with c'"
    by (simp_all add: settlement_members_def)
qed

text \<open>
  Keys are kept: a key the document resolved for a peer publishes for assertions has signed
  a settlement only when the instance of this peer issued it.
\<close>

definition genuine :: "wire_env \<Rightarrow> settlement set \<Rightarrow> outside \<Rightarrow> string \<Rightarrow> string \<Rightarrow> bool" where
  "genuine W Said Out from jws =
    (\<forall>remote payload key c. out_did Out from = Some remote \<longrightarrow> Jades_Verify (wr_jws W) jws = Inr (payload, key)
       \<longrightarrow> PublishesKeyFor PurposeAssertion (Some key) remote \<longrightarrow> payload = BuildSettlementPayload W c
       \<longrightarrow> (\<exists>t\<in>Said. SameDIDWeb (st_from_peer t) from \<and> payload = BuildSettlementPayload W (claim_of t)))"

lemma peer_session_Inr:
  assumes "peer_session N Out from secret hash = Inr (remote, p)"
  shows "out_did Out from = Some remote" "VerifyPeerChallenge (nd_pki N) remote secret hash = Inr ()"
    "GetLocalPeer N = Inr p" "\<not> SameDIDWeb from p"
  using assms by (auto simp: peer_session_def result_iffs)

lemma PostSettlement_cases:
  assumes "PostSettlement N Out now req n = (res, n')"
  obtains "pn_store n' = pn_store n" "\<exists>e. res = Inl e"
  | remote p s where "peer_session N Out (sr_from req) (sr_secret req) (sr_hash req) = Inr (remote, p)"
      "TrustGate_Check Out now (sr_from req) Inbound (sr_contract req) '''' = Inr ()"
      "accept_settlement N now remote p req (pn_store n) = Inr s" "n' = n\<lparr>pn_store := s\<rparr>" "res = Inr p"
proof (cases "peer_session N Out (sr_from req) (sr_secret req) (sr_hash req)")
  case (Inl e)
  with assms that(1) show thesis by (auto simp: PostSettlement_def)
next
  case (Inr rp)
  obtain remote p where rp: "rp = (remote, p)" by fastforce
  show thesis
  proof (cases "TrustGate_Check Out now (sr_from req) Inbound (sr_contract req) ''''")
    case (Inl kind)
    with assms Inr rp that(1) show thesis by (auto simp: PostSettlement_def)
  next
    case ok: (Inr u)
    show thesis
    proof (cases "accept_settlement N now remote p req (pn_store n)")
      case (Inl e)
      with assms Inr rp ok that(1) show thesis by (auto simp: PostSettlement_def)
    next
      case acc: (Inr s)
      with assms Inr rp ok that(2) show thesis by (auto simp: PostSettlement_def)
    qed
  qed
qed

lemma PostSettlementWithdrawal_cases:
  assumes "PostSettlementWithdrawal N Out now req n = (res, n')"
  obtains "pn_store n' = pn_store n" "\<exists>e. res = Inl e"
  | remote p applied s where "peer_session N Out (sr_from req) (sr_secret req) (sr_hash req) = Inr (remote, p)"
      "TrustGate_Check Out now (sr_from req) Inbound (sr_contract req) '''' = Inr ()"
      "accept_withdrawal N now remote p req (pn_store n) = Inr (applied, s)" "n' = n\<lparr>pn_store := s\<rparr>"
      "res = Inr (p, applied)"
proof (cases "peer_session N Out (sr_from req) (sr_secret req) (sr_hash req)")
  case (Inl e)
  with assms that(1) show thesis by (auto simp: PostSettlementWithdrawal_def)
next
  case (Inr rp)
  obtain remote p where rp: "rp = (remote, p)" by fastforce
  show thesis
  proof (cases "TrustGate_Check Out now (sr_from req) Inbound (sr_contract req) ''''")
    case (Inl kind)
    with assms Inr rp that(1) show thesis by (auto simp: PostSettlementWithdrawal_def)
  next
    case ok: (Inr u)
    show thesis
    proof (cases "accept_withdrawal N now remote p req (pn_store n)")
      case (Inl e)
      with assms Inr rp ok that(1) show thesis by (auto simp: PostSettlementWithdrawal_def)
    next
      case acc: (Inr s)
      with assms Inr rp ok that(2) show thesis by (cases s) (auto simp: PostSettlementWithdrawal_def)
    qed
  qed
qed

lemma PostSettlement_grows:
  assumes "PostSettlement N Out now req n = (res, n')" "GetLocalPeer N = Inr p"
    and "faithful_wire (nd_wire N)" "genuine (nd_wire N) Said Out (sr_from req) (sr_jades req)"
  shows "node_grows N p Said n n'"
  using assms(1)
proof (cases rule: PostSettlement_cases)
  case (2 remote p' s)
  note session = peer_session_Inr [OF 2(1)]
  have p: "p' = p" using session(3) assms(2) by simp
  from 2(3) obtain lc t where v: "verifyShippedSettlement (nd_wire N) (sr_jades req) (sr_from req) remote lc = Inr t"
      and lc: "lc_contract lc = sr_contract req" "lc_local_peer lc = p" and s: "s = UpsertSettlement t (pn_store n)"
    by (auto simp: accept_settlement_def result_iffs p)
  from v obtain payload key c where c: "Jades_Verify (wr_jws (nd_wire N)) (sr_jades req) = Inr (payload, key)"
      "PublishesKeyFor PurposeAssertion (Some key) remote" "payload = BuildSettlementPayload (nd_wire N) c"
      "sc_contract c = sr_contract req" "SameDIDWeb (sc_with c) p"
    and t: "st_did t = sr_contract req" "st_from_peer t = sr_from req" "st_digest t = sc_digest c"
    by (rule verifyShippedSettlement_Inr) (auto simp: lc)
  from assms(4) session(1) c(1,2,3) obtain t0 where t0: "t0 \<in> Said" "SameDIDWeb (st_from_peer t0) (sr_from req)"
      "BuildSettlementPayload (nd_wire N) c = BuildSettlementPayload (nd_wire N) (claim_of t0)"
    unfolding genuine_def by blast
  have "st_did t0 = sr_contract req" "st_digest t0 = sc_digest c" "SameDIDWeb (st_to_peer t0) p"
    using same_payload [OF assms(3) t0(3)] c(4,5) by (simp_all add: claim_of_def)
  moreover have "sr_from req \<noteq> p" using session(4) p by auto
  ultimately have "accounted N p Said n n' (t\<lparr>st_settled_at := pg_time (st_settled_at t)\<rparr>)"
    using t0(1,2) t by (auto simp: accounted_def)
  then show ?thesis using 2(4) by (auto simp: node_grows_def s UpsertSettlement_set store_wf_def)
qed (simp add: node_grows_store)

lemma PostSettlementWithdrawal_grows:
  assumes "PostSettlementWithdrawal N Out now req n = (res, n')"
  shows "node_grows N p Said n n'"
  using assms
proof (cases rule: PostSettlementWithdrawal_cases)
  case (2 remote p' applied s)
  then have "s = pn_store n \<or> s = DeleteSettlementsBy (sr_contract req) (sr_from req) (pn_store n)"
    by (auto simp: accept_withdrawal_def result_iffs split: if_splits)
  then show ?thesis using 2(4)
    by (intro node_grows_keeps) (auto simp: keeps_evidence_def DeleteSettlementsBy_def store_wf_def)
qed (simp add: node_grows_store)

subsection \<open>A PDF\<close>

lemma fanout_settlements [simp]:
  "settlements (createReviewAndApprovalTasks e now did b resp s) = settlements s"
proof -
  have "settlements (fold (\<lambda>r. ReviewTask_Create u now did r RtOpen b) rs s) = settlements s" for u rs s
    by (induction rs arbitrary: s) simp_all
  moreover have "settlements (fold (\<lambda>r. ApprovalTask_Create u now did r AtOpen b) rs s) = settlements s" for u rs s
    by (induction rs arbitrary: s) simp_all
  ultimately show ?thesis by (simp add: createReviewAndApprovalTasks_def)
qed

lemma store_wf_update_row:
  "(\<And>c. c_did (f c) = c_did c) \<Longrightarrow> store_wf s \<Longrightarrow> store_wf (update_row now did f s)"
  by (auto simp: store_wf_def contracts_update_row)

lemma store_wf_RollForward [simp]: "store_wf (RollForward d v v' s) \<longleftrightarrow> store_wf s"
  by (simp add: store_wf_def)

lemma RemoteCreate_Inr:
  assumes "RemoteCreate now d s = Inr s'"
  obtains c where "contracts s (rc_did d) = None" "rc_did d \<noteq> ''''" "c_did c = rc_did d" "c_state c = rc_state d"
    "c_version c = 1" "c_origin c = rc_origin d" "c_responsible c = rc_responsible d" "c_data c = Some (rc_data d)"
    "s' = s\<lparr>contracts := (contracts s)(rc_did d \<mapsto> c)\<rparr>"
proof -
  let ?c = "the (contracts s' (rc_did d))"
  have "contracts s (rc_did d) = None" "s' = s\<lparr>contracts := (contracts s)(rc_did d \<mapsto> ?c)\<rparr>"
      "rc_did d \<noteq> ''''" "c_did ?c = rc_did d" "c_state ?c = rc_state d" "c_version ?c = 1" "c_origin ?c = rc_origin d"
      "c_responsible ?c = rc_responsible d" "c_data ?c = Some (rc_data d)"
    using assms by (auto simp: RemoteCreate_def map_sum_Inr Contract_Create_Inr)
  then show thesis by (intro that [of ?c])
qed

lemma refreshed_copy_key [simp]:
  "rc_did (refreshed_copy number now cmd c) = rv_contract cmd"
  "rc_version (refreshed_copy number now cmd c) = c_version c + 1"
  by (simp_all add: refreshed_copy_def remote_data_def split: prod.splits)

lemma upsert_copy_keeps:
  assumes "upsert_copy e number now cmd s = Inr (st, s')"
  shows "keeps_evidence s s' \<and> (store_wf s \<longrightarrow> store_wf s')"
proof (cases "contracts s (rv_contract cmd)")
  case None
  with assms obtain s1 where s1: "RemoteCreate now (first_copy number now cmd) s = Inr s1"
      "s' = createReviewAndApprovalTasks e now (rv_contract cmd) (rv_local_peer cmd)
         (the (rc_responsible (first_copy number now cmd))) s1"
    by (auto simp: upsert_copy_def Let_def result_iffs)
  obtain c where "c_did c = rc_did (first_copy number now cmd)"
      "s1 = s\<lparr>contracts := (contracts s)(rc_did (first_copy number now cmd) \<mapsto> c)\<rparr>"
    using s1(1) by (rule RemoteCreate_Inr) (rule that)
  then show ?thesis by (auto simp: s1(2) keeps_evidence_def store_wf_def)
next
  case (Some c)
  with assms have "s' = RollForward (rv_contract cmd) (c_version c) (c_version c + 1)
      (update_row now (rv_contract cmd) (remote_columns (refreshed_copy number now cmd c)) s)"
    by (simp add: upsert_copy_def RemoteUpdate_def Let_def)
  moreover have "store_wf s \<Longrightarrow> store_wf (update_row now (rv_contract cmd) (remote_columns (refreshed_copy number now cmd c)) s)"
    by (rule store_wf_update_row) (simp_all add: remote_columns_def)
  ultimately show ?thesis by (simp add: keeps_evidence_def)
qed

lemma keep_artifact_keeps:
  assumes "keep_artifact N k cmd st s kept = (Inr s', kept')"
  shows "keeps_evidence s s' \<and> (store_wf s \<longrightarrow> store_wf s')"
proof -
  have "s' = s \<or> (\<exists>pdf. s' = update_row (cl_now k) (rv_contract cmd) (\<lambda>c. c\<lparr>c_pdf := pdf\<rparr>) s)"
    using assms by (auto simp: keep_artifact_def result_iffs UpdatePDFState_def split: if_splits sum.splits option.splits)
  moreover have "store_wf s \<Longrightarrow> store_wf (update_row (cl_now k) (rv_contract cmd) (\<lambda>c. c\<lparr>c_pdf := pdf\<rparr>) s)" for pdf
    by (rule store_wf_update_row) simp_all
  ultimately show ?thesis by (auto simp: keeps_evidence_def)
qed

lemma receiver_keeps:
  assumes "PeerPdfReceiver_Handle N k cmd n = (res, n')"
  shows "keeps_evidence (pn_store n) (pn_store n') \<and> (store_wf (pn_store n) \<longrightarrow> store_wf (pn_store n'))"
proof (cases "upsert_copy (nd_engine N) (nd_float N) (cl_now k) cmd (pn_store n)")
  case (Inl e)
  with assms show ?thesis by (auto simp: PeerPdfReceiver_Handle_def)
next
  case (Inr p)
  obtain st s1 where p: "p = (st, s1)" by fastforce
  obtain r kept where kept: "keep_artifact N k cmd st s1 (pn_keys n, pn_objects n) = (r, kept)" by (rule prod.exhaust)
  show ?thesis
  proof (cases r)
    case (Inl e)
    with assms Inr p kept show ?thesis
      by (auto simp: PeerPdfReceiver_Handle_def Let_def split: prod.splits)
  next
    case r: (Inr s2)
    have "pn_store n' = s2"
      using assms Inr p kept r by (auto simp: PeerPdfReceiver_Handle_def Let_def split: prod.splits)
    moreover have "keeps_evidence s1 s2 \<and> (store_wf s1 \<longrightarrow> store_wf s2)"
      using keep_artifact_keeps kept r by simp
    moreover have "keeps_evidence (pn_store n) s1 \<and> (store_wf (pn_store n) \<longrightarrow> store_wf s1)"
      using upsert_copy_keeps Inr p by simp
    ultimately show ?thesis by (auto intro: keeps_trans)
  qed
qed

lemma store_pdf_keeps:
  assumes "store_pdf N k p req payload sig install n = (res, n')"
  shows "keeps_evidence (pn_store n) (pn_store n') \<and> (store_wf (pn_store n) \<longrightarrow> store_wf (pn_store n'))"
proof (cases "adopt_key N k req (pn_keys n)")
  case (Inl e)
  with assms show ?thesis by (auto simp: store_pdf_def)
next
  case (Inr keys)
  obtain r n2 where h: "PeerPdfReceiver_Handle N k (receive_cmd_of N p payload req) (n\<lparr>pn_keys := keys\<rparr>) = (r, n2)"
    by fastforce
  have "pn_store n' = pn_store n2"
    using assms Inr h
    by (cases r) (auto simp: store_pdf_def Let_def UpsertSyncSignature_def split: option.splits prod.splits)
  with receiver_keeps [OF h] show ?thesis by simp
qed

lemma PostPdf_cases:
  assumes "PostPdf N Out k req n = (res, n')"
  obtains e where "res = Inl e" "n' = n \<or> (\<exists>kind. e = GateDenied kind (pr_from req)
        \<and> n' = note_denial (pr_contract req) (pr_from req) Inbound kind n)"
  | remote p payload sig evidence install where
      "peer_session N Out (pr_from req) (pr_secret req) (pr_hash req) = Inr (remote, p)"
      "TrustGate_Check Out (cl_now k) (pr_from req) Inbound (pr_contract req) '''' = Inr ()"
      "inspect_pdf N remote req = Inr (payload, sig, evidence)"
      "PoAGate_Check (nd_poa N) (assertionKeyOf Out (nd_document N) p (pr_from req) remote) (pr_from req) p
         (pr_contract req) evidence = Inr ()"
      "PlanPinnedShapes (nd_wire N) (pn_hub n) payload (pr_shapes req) = Inr install"
      "store_pdf N k p req payload sig install n = (res, n')"
proof (cases "peer_session N Out (pr_from req) (pr_secret req) (pr_hash req)")
  case (Inl e)
  with assms that(1) show thesis by (auto simp: PostPdf_def)
next
  case (Inr rp)
  obtain remote p where rp: "rp = (remote, p)" by fastforce
  note session = Inr [unfolded rp]
  show thesis
  proof (cases "TrustGate_Check Out (cl_now k) (pr_from req) Inbound (pr_contract req) ''''")
    case (Inl kind)
    with assms session that(1) show thesis by (auto simp: PostPdf_def)
  next
    case gate: (Inr u)
    show thesis
    proof (cases "inspect_pdf N remote req")
      case (Inl e)
      with assms session gate that(1) show thesis by (auto simp: PostPdf_def)
    next
      case (Inr x)
      obtain payload sig evidence where x: "x = (payload, sig, evidence)" by (cases x) auto
      note inspected = Inr [unfolded x]
      show thesis
      proof (cases "PoAGate_Check (nd_poa N) (assertionKeyOf Out (nd_document N) p (pr_from req) remote) (pr_from req) p
         (pr_contract req) evidence")
        case (Inl e)
        with assms session gate inspected that(1) show thesis by (auto simp: PostPdf_def)
      next
        case poa: (Inr v)
        show thesis
        proof (cases "PlanPinnedShapes (nd_wire N) (pn_hub n) payload (pr_shapes req)")
          case (Inl e)
          with assms session gate inspected poa that(1) show thesis by (auto simp: PostPdf_def)
        next
          case plan: (Inr install)
          with assms session gate inspected poa that(2) show thesis by (auto simp: PostPdf_def)
        qed
      qed
    qed
  qed
qed

lemma PostPdf_grows:
  assumes "PostPdf N Out k req n = (res, n')"
  shows "node_grows N p Said n n'"
  using assms
proof (cases rule: PostPdf_cases)
  case (1 e)
  then show ?thesis by (auto intro: node_grows_store)
next
  case (2 remote p' payload sig evidence install)
  from store_pdf_keeps [OF 2(6)] show ?thesis by (intro node_grows_keeps) auto
qed

lemma Erase_store:
  assumes "Erase N Out now req n = (res, n')"
  shows "pn_store n' = pn_store n"
  using assms by (auto simp: Erase_def split: sum.splits)

end
