(* ===== verification/Federation_Run.thy ===== *)
theory Federation_Run
  imports Federation
begin

text \<open>
  Runs of a federation: the steps of its instances, the invariant that accounts for every
  settlement any of them holds, and what an open signing gate means.
\<close>

section \<open>Creation and renewal keep the evidence\<close>

lemma mint_all_settlements [simp]: "settlements (mint_all e now did b ns s) = settlements s"
  unfolding mint_all_def by (induction ns arbitrary: s) simp_all

lemma event_wf: "event_Create evt s = Inr s' \<Longrightarrow> store_wf s \<Longrightarrow> store_wf s'"
  by (drule event_Create_contracts) (simp add: store_wf_def)

lemma opened_keeps:
  assumes "Contract_Create now c s = Inr s1"
    and "keeps_evidence s1 s2" "store_wf s1 \<Longrightarrow> store_wf s2"
    and "event_Create evt (mint_all e now did b ns (createReviewAndApprovalTasks e now did b resp s2)) = Inr s'"
  shows "keeps_evidence s s' \<and> (store_wf s \<longrightarrow> store_wf s')"
proof -
  have s1: "keeps_evidence s s1 \<and> (store_wf s \<longrightarrow> store_wf s1)"
    using assms(1) by (auto simp: Contract_Create_Inr keeps_evidence_def store_wf_def)
  have m: "keeps_evidence s2 (mint_all e now did b ns (createReviewAndApprovalTasks e now did b resp s2))"
    by (simp add: keeps_evidence_def)
  have "keeps_evidence s s'"
    by (rule keeps_event [OF assms(4)]) (use s1 assms(2) m in \<open>blast intro: keeps_trans\<close>)
  moreover have "store_wf s2 \<Longrightarrow> store_wf s'"
    using event_Create_contracts [OF assms(4)] by (simp add: store_wf_def)
  ultimately show ?thesis using s1 assms(3) by blast
qed

lemma Create_keeps:
  assumes "Create e p now cmd s = Inr s'"
  shows "keeps_evidence s s' \<and> (store_wf s \<longrightarrow> store_wf s')"
proof -
  from assms obtain c s1 evt ns resp where s1: "Contract_Create now c s = Inr s1"
      and evt: "event_Create evt (mint_all e now (cr_did cmd) (cr_created_by cmd) ns
         (createReviewAndApprovalTasks e now (cr_did cmd) (cr_created_by cmd) resp s1)) = Inr s'"
    unfolding Create_def Let_def bind_res_Inr_iff lift_engine_Inr by blast
  show ?thesis by (rule opened_keeps [OF s1 _ _ evt]) simp_all
qed

lemma Renew_keeps:
  assumes "Renew e p now cmd s = Inr (v, s')"
  shows "keeps_evidence s s' \<and> (store_wf s \<longrightarrow> store_wf s')"
proof -
  obtain row :: contract and peer doc s1 s2 where
    s1: "Contract_Create now (new_contract (rn_did cmd) peer go_zero_time (rn_renewed_by cmd) doc
       (c_template_did row) (c_template_version row) (c_name row) (c_description row)
       (renewal_responsible peer (c_responsible row))) s = Inr s1"
    and s2: "carry_term now cmd (row\<lparr>c_state := effective_state now row\<rparr>) s1 = Inr s2"
    and evt: "event_Create (RenewEvent (rn_did cmd) (rn_renewed_by cmd) (rn_original_did cmd) v)
       (mint_all e now (rn_did cmd) (rn_renewed_by cmd)
         (resp_negotiators (renewal_responsible peer (c_responsible row)))
         (createReviewAndApprovalTasks e now (rn_did cmd) (rn_renewed_by cmd)
           (renewal_responsible peer (c_responsible row)) s2)) = Inr s'"
    by (rule Renew_cases [OF assms]) (rule that, assumption+)
  have "keeps_evidence s1 s2 \<and> (store_wf s1 \<longrightarrow> store_wf s2)"
    using s2
  proof (cases rule: carry_term_cases)
    case (1 cols)
    have "c_did (fold set_column cols c) = c_did c" for c using term_columns_keep [OF 1(2)] by simp
    then have "store_wf s1 \<Longrightarrow> store_wf (update_row now (rn_did cmd) (fold set_column cols) s1)"
      by (rule store_wf_update_row)
    then show ?thesis by (simp add: 1(1) keeps_evidence_def)
  qed simp
  then show ?thesis using opened_keeps [OF s1 _ _ evt] by blast
qed

lemma expiry_wf: "store_wf s \<Longrightarrow> store_wf (expiry_tick now cs s)"
proof (induction cs arbitrary: s)
  case (Cons c cs)
  have "store_wf s'" if "callExpirationLogic now c s = Inr s'" for s'
  proof -
    from that obtain evt where "event_Create evt (UpdateState now (c_did c) Expired s) = Inr s'"
      by (auto simp: callExpirationLogic_def result_iffs split: option.splits)
    moreover have "store_wf (UpdateState now (c_did c) Expired s)"
      unfolding UpdateState_def by (rule store_wf_update_row [OF _ Cons.prems]) simp
    ultimately show ?thesis by (rule event_wf)
  qed
  with Cons show ?case by (auto split: sum.splits)
qed simp

section \<open>The federation\<close>

text \<open>\<open>fd_nodes\<close> are the instances by their identifier, \<open>fd_log\<close> the states they went through.\<close>

record federation =
  fd_nodes :: "string \<Rightarrow> peer_node"
  fd_log :: "(string \<times> peer_node) list"

definition advance :: "string \<Rightarrow> peer_node \<Rightarrow> federation \<Rightarrow> federation" where
  "advance p n w = \<lparr>fd_nodes = (fd_nodes w)(p := n), fd_log = fd_log w @ [(p, n)]\<rparr>"

definition own_settlements :: "string \<Rightarrow> peer_node \<Rightarrow> settlement list" where
  "own_settlements p n = filter (\<lambda>t. st_from_peer t = p) (settlements (pn_store n))"

text \<open>The settlements an instance ever had of its own: what it may have sent.\<close>

definition issued :: "federation \<Rightarrow> settlement set" where
  "issued w = set (concat (map (\<lambda>(p, n). own_settlements p n) (fd_log w)))"

definition with_store :: "store \<Rightarrow> peer_node \<Rightarrow> peer_node" where
  "with_store s n = n\<lparr>pn_store := s\<rparr>"

inductive fed_step :: "(string \<Rightarrow> node_env) \<Rightarrow> federation \<Rightarrow> federation \<Rightarrow> bool"
  for E :: "string \<Rightarrow> node_env" where
  fed_command: "execute (nd_engine (E p)) now a (pn_store (fd_nodes w p)) = Inr s \<Longrightarrow>
     fed_step E w (advance p (with_store s (fd_nodes w p)) w)"
| fed_create: "Create (nd_engine (E p)) params now cmd (pn_store (fd_nodes w p)) = Inr s \<Longrightarrow>
     fed_step E w (advance p (with_store s (fd_nodes w p)) w)"
| fed_renew: "Renew (nd_engine (E p)) params now cmd' (pn_store (fd_nodes w p)) = Inr (v, s) \<Longrightarrow>
     fed_step E w (advance p (with_store s (fd_nodes w p)) w)"
| fed_expiry: "fed_step E w (advance p (with_store (expiry_tick now cs (pn_store (fd_nodes w p))) (fd_nodes w p)) w)"
| fed_event: "known_event evt (fd_nodes w p) \<Longrightarrow>
     fed_step E w (advance p (sync_handler (E p) sd now evt (fd_nodes w p)) w)"
| fed_tick: "fed_step E w (advance p (sync_tick (E p) sd interval now (fd_nodes w p)) w)"
| fed_erasure: "fed_step E w (advance p (snd (EraseContract (E p) sd now did actor reason (fd_nodes w p))) w)"
| fed_erase_retry: "fed_step E w (advance p (RetryPending (E p) sd now (fd_nodes w p)) w)"
| fed_settlement: "genuine (nd_wire (E p)) (issued w) Out (sr_from req) (sr_jades req) \<Longrightarrow>
     PostSettlement (E p) Out now req (fd_nodes w p) = (res, n') \<Longrightarrow> fed_step E w (advance p n' w)"
| fed_withdrawal: "PostSettlementWithdrawal (E p) Out now req (fd_nodes w p) = (res', n') \<Longrightarrow>
     fed_step E w (advance p n' w)"
| fed_pdf: "PostPdf (E p) Out k preq (fd_nodes w p) = (res'', n') \<Longrightarrow> fed_step E w (advance p n' w)"
| fed_erase_request: "Erase (E p) Out now ereq (fd_nodes w p) = (res'', n') \<Longrightarrow> fed_step E w (advance p n' w)"

text \<open>The instances run the same code and are configured with the identifier they are known by.\<close>

definition proper_federation :: "(string \<Rightarrow> node_env) \<Rightarrow> bool" where
  "proper_federation E = (\<forall>p. GetLocalPeer (E p) = Inr p \<and> faithful_wire (nd_wire (E p)))"

definition fed_start :: "federation \<Rightarrow> bool" where
  "fed_start w = (fd_log w = [] \<and>
     (\<forall>p. store_wf (pn_store (fd_nodes w p)) \<and> settlements (pn_store (fd_nodes w p)) = []))"

lemma fed_step_grows:
  assumes "fed_step E w w'" "proper_federation E" "\<And>p. store_wf (pn_store (fd_nodes w p))"
  shows "\<exists>p n'. w' = advance p n' w \<and> node_grows (E p) p (issued w) (fd_nodes w p) n'"
  using assms(1)
proof (cases rule: fed_step.cases)
  case (fed_command p now a s)
  have "store_wf s" using engine.run_wf [OF assms(3) fed_command(2)] .
  with fed_command show ?thesis
    by (auto simp: with_store_def intro!: exI node_grows_keeps execute_keeps)
next
  case (fed_create p params now cmd s)
  with Create_keeps show ?thesis by (fastforce simp: with_store_def intro!: node_grows_keeps)
next
  case (fed_renew p params now cmd v s)
  with Renew_keeps show ?thesis by (fastforce simp: with_store_def intro!: node_grows_keeps)
next
  case (fed_expiry p now cs)
  then show ?thesis
    by (auto simp: with_store_def intro!: exI node_grows_keeps expiry_keeps expiry_wf)
next
  case (fed_event evt p sd now)
  have "GetLocalPeer (E p) = Inr p" using assms(2) by (simp add: proper_federation_def)
  from sync_grows_handler [OF this assms(3) fed_event(2)] fed_event(1) show ?thesis
    by (blast intro: node_grows_sync)
next
  case (fed_tick p sd interval now)
  then show ?thesis by (blast intro: node_grows_sync sync_grows_tick)
next
  case (fed_settlement p Out req now res n')
  have "GetLocalPeer (E p) = Inr p" "faithful_wire (nd_wire (E p))"
    using assms(2) by (simp_all add: proper_federation_def)
  with PostSettlement_grows [OF fed_settlement(3) _ _ fed_settlement(2)] fed_settlement(1) show ?thesis by blast
next
  case (fed_withdrawal p Out now req res n')
  with PostSettlementWithdrawal_grows show ?thesis by blast
next
  case (fed_pdf p Out k req res n')
  with PostPdf_grows show ?thesis by blast
next
  case (fed_erase_request p Out now req res n')
  with Erase_store show ?thesis by (blast intro: node_grows_store)
qed (blast intro: node_grows_store erasure_store)+

section \<open>Every settlement is accounted for\<close>

text \<open>
  A statement is backed when the workflow of the instance that made it settled the contract
  and the instance held, at some point, the document the statement names.
\<close>

definition backed :: "(string \<Rightarrow> node_env) \<Rightarrow> federation \<Rightarrow> settlement \<Rightarrow> bool" where
  "backed E w t =
    (submitted_here (st_did t) (fd_nodes w (st_from_peer t))
     \<and> (\<exists>n. (st_from_peer t, n) \<in> set (fd_log w)
          \<and> holds_document (nd_engine (E (st_from_peer t))) (st_did t) (st_digest t) n))"

definition answered :: "federation \<Rightarrow> string \<Rightarrow> settlement \<Rightarrow> bool" where
  "answered w p t =
    (\<exists>t0\<in>issued w. SameDIDWeb (st_from_peer t0) (st_from_peer t) \<and> st_did t0 = st_did t
       \<and> st_digest t0 = st_digest t \<and> SameDIDWeb (st_to_peer t0) p)"

definition fed_inv :: "(string \<Rightarrow> node_env) \<Rightarrow> federation \<Rightarrow> bool" where
  "fed_inv E w =
    ((\<forall>p. store_wf (pn_store (fd_nodes w p)))
     \<and> (\<forall>t\<in>issued w. backed E w t)
     \<and> (\<forall>p. \<forall>t\<in>set (settlements (pn_store (fd_nodes w p))).
          if st_from_peer t = p then t \<in> issued w else answered w p t))"

lemma issued_advance: "issued (advance p n w) = issued w \<union> set (own_settlements p n)"
  by (simp add: issued_def advance_def)

lemma advance_simps [simp]:
  "fd_nodes (advance p n w) = (fd_nodes w)(p := n)" "fd_log (advance p n w) = fd_log w @ [(p, n)]"
  by (simp_all add: advance_def)

lemma backed_same: "backed E w t0 \<Longrightarrow> same_statement t t0 \<Longrightarrow> backed E w t"
  by (simp add: backed_def same_statement_def)

lemma submitted_grows: "node_grows N p Said n n' \<Longrightarrow> submitted_here did n \<Longrightarrow> submitted_here did n'"
  by (auto simp: node_grows_def submitted_here_def)

lemma backed_advance:
  assumes "node_grows N p Said (fd_nodes w p) n'" "backed E w t"
  shows "backed E (advance p n' w) t"
proof -
  from assms(2) obtain n where n: "(st_from_peer t, n) \<in> set (fd_log w)"
      "holds_document (nd_engine (E (st_from_peer t))) (st_did t) (st_digest t) n" by (auto simp: backed_def)
  moreover have "submitted_here (st_did t) (fd_nodes (advance p n' w) (st_from_peer t))"
    using assms(2) submitted_grows [OF assms(1), of "st_did t"] by (auto simp: backed_def)
  ultimately show ?thesis by (auto simp: backed_def)
qed

lemma answered_advance: "answered w p t \<Longrightarrow> answered (advance q n' w) p t"
  by (auto simp: answered_def issued_advance)

lemma fed_inv_advance:
  assumes "fed_inv E w" "node_grows (E p) p (issued w) (fd_nodes w p) n'"
  shows "fed_inv E (advance p n' w)"
proof -
  let ?w = "advance p n' w"
  have row: "backed E ?w t \<and> t \<in> issued ?w" if "t \<in> set (settlements (pn_store n'))" "st_from_peer t = p" for t
  proof -
    note mine = that(2)
    have "accounted (E p) p (issued w) (fd_nodes w p) n' t" using assms(2) that(1) by (simp add: node_grows_def)
    then consider t0 where "t0 \<in> set (settlements (pn_store (fd_nodes w p)))" "same_statement t t0"
      | "submitted_here (st_did t) n'" "holds_document (nd_engine (E p)) (st_did t) (st_digest t) n'"
      using mine by (auto simp: accounted_def)
    then have "backed E ?w t"
    proof cases
      case 1
      then have "st_from_peer t0 = p" using that(2) by (simp add: same_statement_def)
      with 1(1) assms(1) have "backed E w t0" unfolding fed_inv_def by (metis (full_types))
      with 1(2) show ?thesis using backed_advance [OF assms(2)] backed_same by blast
    next
      case 2
      with that(2) show ?thesis by (auto simp: backed_def)
    qed
    with that show ?thesis by (simp add: issued_advance own_settlements_def)
  qed
  have foreign: "answered ?w p t" if "t \<in> set (settlements (pn_store n'))" "st_from_peer t \<noteq> p" for t
  proof -
    note other = that(2)
    have "accounted (E p) p (issued w) (fd_nodes w p) n' t" using assms(2) that(1) by (simp add: node_grows_def)
    then consider t0 where "t0 \<in> set (settlements (pn_store (fd_nodes w p)))" "same_statement t t0" | "answered w p t"
      using other unfolding accounted_def answered_def by blast
    then have "answered w p t"
    proof cases
      case 1
      then have "st_from_peer t0 \<noteq> p" using that(2) by (simp add: same_statement_def)
      with 1(1) assms(1) have "answered w p t0" unfolding fed_inv_def by (metis (full_types))
      with 1(2) show ?thesis by (simp add: answered_def same_statement_def)
    qed
    then show ?thesis by (rule answered_advance)
  qed
  have "backed E ?w t" if "t \<in> issued ?w" for t
    using that assms row backed_advance [OF assms(2)]
    by (auto simp: issued_advance own_settlements_def fed_inv_def)
  moreover have "store_wf (pn_store (fd_nodes ?w q))" for q
    using assms by (auto simp: fed_inv_def node_grows_def)
  moreover have "if st_from_peer t = q then t \<in> issued ?w else answered ?w q t"
    if "t \<in> set (settlements (pn_store (fd_nodes ?w q)))" for q t
  proof (cases "q = p")
    case True
    with that row foreign show ?thesis by simp
  next
    case False
    with that assms(1) have "if st_from_peer t = q then t \<in> issued w else answered w q t"
      by (simp add: fed_inv_def)
    then show ?thesis by (auto simp: issued_advance dest: answered_advance split: if_splits)
  qed
  ultimately show ?thesis unfolding fed_inv_def by blast
qed

lemma fed_run_inv:
  assumes "(fed_step E)\<^sup>*\<^sup>* w0 w" "fed_start w0" "proper_federation E"
  shows "fed_inv E w"
  using assms(1)
proof induction
  case base
  show ?case using assms(2) by (simp add: fed_inv_def fed_start_def issued_def)
next
  case (step w w')
  then have "store_wf (pn_store (fd_nodes w p))" for p by (simp add: fed_inv_def)
  then obtain p n' where "w' = advance p n' w" "node_grows (E p) p (issued w) (fd_nodes w p) n'"
    using fed_step_grows [OF step(2) assms(3)] by blast
  with step(3) show ?case by (simp add: fed_inv_advance)
qed

text \<open>
  C2: an open signing gate means agreement.  However the instances of a federation work,
  fail, retry, and receive messages late, repeatedly or out of order: when the gate of an
  instance lets it sign a contract, it has itself issued a settlement of this contract, and
  every other party the document expects a signature from has issued a settlement of the
  same contract, of a document with the same digest and toward this instance; the workflow
  of either side has gone from NEGOTIATION to SUBMITTED on the contract, and either side has
  held a document with this digest.  Nobody can make an instance sign against a settlement
  that was never made, as long as the keys published for assertions are kept.
\<close>

theorem open_gate_means_agreement:
  assumes "(fed_step E)\<^sup>*\<^sup>* w0 w" "fed_start w0" "proper_federation E"
    and "assertCounterpartiesSettled did p resp declaredFields (pn_store (fd_nodes w p)) = Inr ()"
    and "party \<in> set declaredFields" "IsRemotePartyField (party_dids resp) p party"
  shows "\<exists>own theirs. own \<in> issued w \<and> st_from_peer own = p \<and> st_did own = did \<and> backed E w own
    \<and> theirs \<in> issued w \<and> SameDIDWeb (st_from_peer theirs) party \<and> st_did theirs = did \<and> backed E w theirs
    \<and> SameDIDWeb (st_to_peer theirs) p \<and> st_digest theirs = st_digest own"
proof -
  have inv: "fed_inv E w" by (rule fed_run_inv [OF assms(1-3)])
  from assms(4-6) obtain own t where own: "GetSettlement did p (pn_store (fd_nodes w p)) = Some own"
      and t: "GetSettlement did party (pn_store (fd_nodes w p)) = Some t" "st_digest t = st_digest own"
    unfolding gate_Inr by blast
  note o = GetSettlement_Some(1-3) [OF own] and f = GetSettlement_Some(1-3) [OF t(1)]
  have "party \<noteq> p" using assms(6) by (auto simp: IsRemotePartyField_def split: if_splits)
  then have "answered w p t" using inv f by (auto simp: fed_inv_def)
  then obtain theirs where "theirs \<in> issued w" "SameDIDWeb (st_from_peer theirs) party" "st_did theirs = did"
      "st_digest theirs = st_digest own" "SameDIDWeb (st_to_peer theirs) p"
    using f t(2) by (auto simp: answered_def)
  moreover have "own \<in> issued w" using inv o by (auto simp: fed_inv_def)
  ultimately show ?thesis using inv o unfolding fed_inv_def by blast
qed

end
