(* ===== verification/Peer_Properties.thy ===== *)
theory Peer_Properties
  imports Federation
begin

text \<open>
  What the endpoints and the synchroniser of one instance promise: what an accepted
  settlement proves, what a withdrawal undoes, what a received document may change, what a
  refused call leaves alone.
\<close>

section \<open>An accepted settlement\<close>

lemma history_digests_set:
  "history_digests e cs = Inr ds \<Longrightarrow> set ds = {d. \<exists>c\<in>set cs. document_digest_of e c = Inr d}"
  by (induction cs arbitrary: ds) (auto simp: result_iffs)

lemma superseded_set:
  assumes "supersededDocumentDigests e did p s = Inr ds"
  shows "d \<in> set ds \<longleftrightarrow> (\<exists>own. GetSettlement did p s = Some own \<and> st_digest own = d)
    \<or> (\<exists>c\<in>set (history s). c_did c = did \<and> document_digest_of e c = Inr d)"
  using assms by (auto simp: supersededDocumentDigests_def result_iffs dest!: history_digests_set split: option.splits)

lemma contract_parties_state [simp]: "contract_parties (c\<lparr>c_state := st\<rparr>) = contract_parties c"
  by (simp add: contract_parties_def)

text \<open>
  C3: an accepted settlement is evidence.  The call succeeds only for a peer that answered
  the challenge under the document resolved for it, passed the trust gate, is a party of
  the contract and presents a statement signed with a key this document publishes for
  assertions, whose bytes are exactly the canonical form of a settlement of this contract,
  by this peer, with this instance, of the current document, of a former version or of the
  one this instance settled; it is neither from the future nor older than the settlement
  held.  What the instance keeps of it is this statement, in place of the one held from
  the peer, and nothing else changes.
\<close>

theorem accepted_settlement_is_evidence:
  assumes "PostSettlement N Out now req n = (Inr p, n')"
  shows "\<exists>remote c payload key claim. out_did Out (sr_from req) = Some remote
    \<and> VerifyPeerChallenge (nd_pki N) remote (sr_secret req) (sr_hash req) = Inr ()
    \<and> TrustGate_Check Out now (sr_from req) Inbound (sr_contract req) '''' = Inr ()
    \<and> GetLocalPeer N = Inr p \<and> \<not> SameDIDWeb (sr_from req) p
    \<and> contracts (pn_store n) (sr_contract req) = Some c
    \<and> Jades_Verify (wr_jws (nd_wire N)) (sr_jades req) = Inr (payload, key)
    \<and> PublishesKeyFor PurposeAssertion (Some key) remote
    \<and> payload = BuildSettlementPayload (nd_wire N) claim
    \<and> sc_contract claim = sr_contract req \<and> SameDIDWeb (sc_by claim) (sr_from req) \<and> SameDIDWeb (sc_with claim) p
    \<and> (\<exists>party\<in>set (contract_parties c). SameDIDWeb party (sc_by claim))
    \<and> (document_digest_of (nd_engine N) c = Inr (sc_digest claim)
       \<or> (\<exists>own. GetSettlement (sr_contract req) p (pn_store n) = Some own \<and> st_digest own = sc_digest claim)
       \<or> (\<exists>h\<in>set (history (pn_store n)). c_did h = sr_contract req \<and> document_digest_of (nd_engine N) h = Inr (sc_digest claim)))
    \<and> sc_at claim \<le> now + settlementClockSkew
    \<and> (\<forall>held. GetSettlement (sr_contract req) (sr_from req) (pn_store n) = Some held \<longrightarrow> st_settled_at held \<le> sc_at claim)
    \<and> n' = n\<lparr>pn_store := UpsertSettlement \<lparr>st_did = sr_contract req, st_from_peer = sr_from req, st_to_peer = p,
          st_version = sc_version claim, st_digest = sc_digest claim, st_settled_at = sc_at claim,
          st_signature = sr_jades req, st_delivered = Some now\<rparr> (pn_store n)\<rparr>"
  using assms
proof (cases rule: PostSettlement_cases)
  case (2 remote p' s)
  then have p: "p' = p" by simp
  note session = peer_session_Inr [OF 2(1)]
  from 2(3) obtain c digest superseded t where c: "contracts (pn_store n) (sr_contract req) = Some c"
      and digest: "document_digest_of (nd_engine N) c = Inr digest"
      and superseded: "supersededDocumentDigests (nd_engine N) (sr_contract req) p (pn_store n) = Inr superseded"
      and v: "verifyShippedSettlement (nd_wire N) (sr_jades req) (sr_from req) remote
         \<lparr>lc_contract = sr_contract req, lc_local_peer = p, lc_digest = digest, lc_superseded = superseded,
          lc_parties = contract_parties c, lc_previous = GetSettlement (sr_contract req) (sr_from req) (pn_store n),
          lc_now = now\<rparr> = Inr t" and s: "s = UpsertSettlement t (pn_store n)"
    by (auto simp: accept_settlement_def result_iffs p ReadDataByDID_Inr)
  from v obtain payload key claim where "Jades_Verify (wr_jws (nd_wire N)) (sr_jades req) = Inr (payload, key)"
      "PublishesKeyFor PurposeAssertion (Some key) remote" "payload = BuildSettlementPayload (nd_wire N) claim"
      "sc_contract claim = sr_contract req" "SameDIDWeb (sc_by claim) (sr_from req)" "SameDIDWeb (sc_with claim) p"
      "\<exists>party\<in>set (contract_parties c). SameDIDWeb party (sc_by claim)"
      and d: "sc_digest claim = digest \<or> sc_digest claim \<in> set superseded"
      and "sc_at claim \<le> now + settlementClockSkew"
      "\<forall>held. GetSettlement (sr_contract req) (sr_from req) (pn_store n) = Some held \<longrightarrow> st_settled_at held \<le> sc_at claim"
      "t = \<lparr>st_did = sr_contract req, st_from_peer = sr_from req, st_to_peer = p,
          st_version = sc_version claim, st_digest = sc_digest claim, st_settled_at = sc_at claim,
          st_signature = sr_jades req, st_delivered = Some now\<rparr>"
    by (rule verifyShippedSettlement_Inr) simp
  moreover have "document_digest_of (nd_engine N) c = Inr (sc_digest claim)
       \<or> (\<exists>own. GetSettlement (sr_contract req) p (pn_store n) = Some own \<and> st_digest own = sc_digest claim)
       \<or> (\<exists>h\<in>set (history (pn_store n)). c_did h = sr_contract req \<and> document_digest_of (nd_engine N) h = Inr (sc_digest claim))"
    using d digest superseded_set [OF superseded] by auto
  ultimately show ?thesis using session c 2(2,4) s p by (intro exI [of _ remote] exI [of _ c] exI [of _ payload]
        exI [of _ key] exI [of _ claim] conjI) simp_all
qed auto

section \<open>A withdrawal that applies\<close>

text \<open>
  C7: a withdrawal that applies closes the gate.  It is signed by the peer, names this
  contract, this instance and the digest the peer's settlement was held for, and is not
  older than that settlement; afterwards no settlement of the peer is held for the
  contract, so the signing gate refuses every document that expects the peer's signature,
  and settlements of other parties and of other contracts are held as before.
\<close>

theorem applied_withdrawal_closes_gate:
  assumes "PostSettlementWithdrawal N Out now req n = (Inr (p, True), n')"
  shows "(\<exists>remote payload key w held. out_did Out (sr_from req) = Some remote
      \<and> Jades_Verify (wr_jws (nd_wire N)) (sr_jades req) = Inr (payload, key)
      \<and> PublishesKeyFor PurposeAssertion (Some key) remote
      \<and> payload = BuildSettlementWithdrawalPayload (nd_wire N) w \<and> wc_contract w = sr_contract req
      \<and> SameDIDWeb (wc_by w) (sr_from req) \<and> SameDIDWeb (wc_from w) p
      \<and> GetSettlement (sr_contract req) (sr_from req) (pn_store n) = Some held
      \<and> st_digest held = wc_digest w \<and> st_settled_at held \<le> wc_at w)
    \<and> (\<forall>resp fs. sr_from req \<in> set fs \<longrightarrow> IsRemotePartyField (party_dids resp) p (sr_from req)
         \<longrightarrow> assertCounterpartiesSettled (sr_contract req) p resp fs (pn_store n') \<noteq> Inr ())
    \<and> filter (\<lambda>t. \<not> settled_by (sr_contract req) (sr_from req) t) (settlements (pn_store n'))
       = filter (\<lambda>t. \<not> settled_by (sr_contract req) (sr_from req) t) (settlements (pn_store n))
    \<and> contracts (pn_store n') = contracts (pn_store n)"
  using assms
proof (cases rule: PostSettlementWithdrawal_cases)
  case (2 remote p' applied s)
  then have p: "p' = p" "applied" by simp_all
  note session = peer_session_Inr [OF 2(1)]
  from 2(3) p obtain c w where v: "verifyShippedWithdrawal (nd_wire N) (sr_jades req) (sr_from req) remote
       \<lparr>lw_contract = sr_contract req, lw_local_peer = p, lw_parties = c, lw_now = now\<rparr> = Inr w"
      and takes: "withdrawalTakesBack w (GetSettlement (sr_contract req) (sr_from req) (pn_store n))"
      and s: "s = DeleteSettlementsBy (sr_contract req) (sr_from req) (pn_store n)"
    by (auto simp: accept_withdrawal_def result_iffs split: if_splits)
  from v obtain payload key where "Jades_Verify (wr_jws (nd_wire N)) (sr_jades req) = Inr (payload, key)"
      "PublishesKeyFor PurposeAssertion (Some key) remote" "payload = BuildSettlementWithdrawalPayload (nd_wire N) w"
      "wc_contract w = sr_contract req" "SameDIDWeb (wc_by w) (sr_from req)" "SameDIDWeb (wc_from w) p"
    by (rule verifyShippedWithdrawal_Inr) simp
  moreover from takes obtain held where "GetSettlement (sr_contract req) (sr_from req) (pn_store n) = Some held"
      "st_digest held = wc_digest w" "st_settled_at held \<le> wc_at w"
    by (auto simp: withdrawalTakesBack_def split: option.splits)
  moreover have gone: "GetSettlement (sr_contract req) (sr_from req) (pn_store n') = None"
    unfolding GetSettlement_None by (simp add: 2(4) s DeleteSettlementsBy_def settled_by_def)
  then have "assertCounterpartiesSettled (sr_contract req) p resp fs (pn_store n') \<noteq> Inr ()"
    if "sr_from req \<in> set fs" "IsRemotePartyField (party_dids resp) p (sr_from req)" for resp fs
    using that by (auto simp: gate_Inr)
  moreover have "contracts (pn_store n') = contracts (pn_store n)"
    "filter (\<lambda>t. \<not> settled_by (sr_contract req) (sr_from req) t) (settlements (pn_store n'))
       = filter (\<lambda>t. \<not> settled_by (sr_contract req) (sr_from req) t) (settlements (pn_store n))"
    by (simp_all add: 2(4) s DeleteSettlementsBy_def)
  ultimately show ?thesis using session(1) by blast
qed auto

section \<open>A received document\<close>

lemma receiver_store:
  assumes "PeerPdfReceiver_Handle N k cmd n = (Inr u, n')"
  obtains st s1 f where "upsert_copy (nd_engine N) (nd_float N) (cl_now k) cmd (pn_store n) = Inr (st, s1)"
    "pn_store n' = s1 \<or> pn_store n' = update_row (cl_now k) (rv_contract cmd) (\<lambda>c. c\<lparr>c_pdf := f\<rparr>) s1"
proof (cases "upsert_copy (nd_engine N) (nd_float N) (cl_now k) cmd (pn_store n)")
  case (Inl e)
  with assms show thesis by (simp add: PeerPdfReceiver_Handle_def)
next
  case (Inr x)
  obtain st s1 where x: "x = (st, s1)" by (rule prod.exhaust)
  obtain r kept where kept: "keep_artifact N k cmd st s1 (pn_keys n, pn_objects n) = (r, kept)" by (rule prod.exhaust)
  obtain keys objects where "kept = (keys, objects)" by (rule prod.exhaust)
  with assms Inr x kept obtain s2 where r: "r = Inr s2" "pn_store n' = s2"
    by (cases r) (auto simp: PeerPdfReceiver_Handle_def)
  have "s2 = s1 \<or> (\<exists>f. s2 = update_row (cl_now k) (rv_contract cmd) (\<lambda>c. c\<lparr>c_pdf := f\<rparr>) s1)"
    using kept r(1) by (auto simp: keep_artifact_def result_iffs UpdatePDFState_def split: if_splits sum.splits option.splits)
  with r(2) show thesis using that Inr x by blast
qed

lemma store_pdf_receiver:
  assumes "store_pdf N k p req payload sig install n = (Inr q, n')"
  obtains m n2 where "pn_store m = pn_store n" "PeerPdfReceiver_Handle N k (receive_cmd_of N p payload req) m = (Inr (), n2)"
    "pn_store n' = pn_store n2"
proof (cases "adopt_key N k req (pn_keys n)")
  case (Inl e)
  with assms show thesis by (simp add: store_pdf_def)
next
  case (Inr keys)
  obtain r n2 where h: "PeerPdfReceiver_Handle N k (receive_cmd_of N p payload req) (n\<lparr>pn_keys := keys\<rparr>) = (r, n2)"
    by (rule prod.exhaust)
  with assms Inr have "r = Inr ()" "pn_store n' = pn_store n2"
    by (cases r; auto simp: store_pdf_def Let_def UpsertSyncSignature_def split: option.splits prod.splits)+
  with h show thesis by (intro that [of "n\<lparr>pn_keys := keys\<rparr>" n2]) simp_all
qed

lemma review_approval_rows [simp]:
  "review_tasks (update_row now did f s) = review_tasks s" "approval_tasks (update_row now did f s) = approval_tasks s"
  "review_tasks (RollForward did v v' s) = review_tasks s" "approval_tasks (RollForward did v v' s) = approval_tasks s"
  "history (RollForward did v v' s) = history s" "contracts (RollForward did v v' s) = contracts s"
  by (auto simp: update_row_def RollForward_def split: option.splits)

lemma refreshed_copy_fields:
  "rc_state (refreshed_copy number now cmd c) = (if rv_adopt_revoked cmd then Revoked else effective_state now c)"
  "rc_origin (refreshed_copy number now cmd c) = c_origin c" "rc_created_by (refreshed_copy number now cmd c) = c_created_by c"
  "rc_data (refreshed_copy number now cmd c) = rv_payload cmd"
  by (simp_all add: refreshed_copy_def remote_data_def split: prod.splits)

lemma trigger_columns:
  "\<exists>a b. revision_trigger now old (content_trigger now old new) = new\<lparr>c_updated_at := a, c_content_updated_at := b\<rparr>"
proof -
  have "content_trigger now old new = new\<lparr>c_content_updated_at := c_content_updated_at (content_trigger now old new)\<rparr>"
    by (simp add: content_trigger_def)
  then obtain b where b: "content_trigger now old new = new\<lparr>c_content_updated_at := b\<rparr>" ..
  let ?x = "new\<lparr>c_content_updated_at := b\<rparr>"
  have "revision_trigger now old ?x = ?x\<lparr>c_updated_at := c_updated_at (revision_trigger now old ?x)\<rparr>"
    by (simp add: revision_trigger_def)
  then obtain a where "revision_trigger now old ?x = ?x\<lparr>c_updated_at := a\<rparr>" ..
  then have "revision_trigger now old ?x = new\<lparr>c_updated_at := a, c_content_updated_at := b\<rparr>" by simp
  then show ?thesis unfolding b by blast
qed

lemma row_again:
  assumes "s = t\<lparr>contracts := (contracts t)(d \<mapsto> r\<lparr>c_updated_at := a, c_content_updated_at := b\<rparr>), negotiation_tasks := N\<rparr>"
  shows "\<exists>a b. update_row now d (\<lambda>c. c\<lparr>c_pdf := f\<rparr>) s
     = t\<lparr>contracts := (contracts t)(d \<mapsto> r\<lparr>c_updated_at := a, c_content_updated_at := b, c_pdf := f\<rparr>), negotiation_tasks := N\<rparr>"
proof -
  let ?c = "r\<lparr>c_updated_at := a, c_content_updated_at := b\<rparr>"
  obtain x y where "revision_trigger now ?c (content_trigger now ?c (?c\<lparr>c_pdf := f\<rparr>))
      = ?c\<lparr>c_pdf := f, c_updated_at := x, c_content_updated_at := y\<rparr>" using trigger_columns by blast
  also have "\<dots> = r\<lparr>c_updated_at := x, c_content_updated_at := y, c_pdf := f\<rparr>" by (rule contract.equality) simp_all
  finally have r: "revision_trigger now ?c (content_trigger now ?c (?c\<lparr>c_pdf := f\<rparr>))
      = r\<lparr>c_updated_at := x, c_content_updated_at := y, c_pdf := f\<rparr>" .
  have "contracts s d = Some ?c" by (simp add: assms)
  then have "update_row now d (\<lambda>c. c\<lparr>c_pdf := f\<rparr>) s
      = s\<lparr>contracts := (contracts s)(d \<mapsto> r\<lparr>c_updated_at := x, c_content_updated_at := y, c_pdf := f\<rparr>)\<rparr>"
    by (simp only: update_row_def option.case r)
  also have "\<dots> = t\<lparr>contracts := (contracts t)(d \<mapsto> r\<lparr>c_updated_at := x, c_content_updated_at := y, c_pdf := f\<rparr>),
      negotiation_tasks := N\<rparr>"
    by (rule store.equality) (simp_all add: assms)
  finally show ?thesis by blast
qed


section \<open>A refused document\<close>

lemma note_denial_frame [simp]:
  "pn_hub (note_denial did peer dir kind n) = pn_hub n" "pn_signatures (note_denial did peer dir kind n) = pn_signatures n"
  "pn_keys (note_denial did peer dir kind n) = pn_keys n" "pn_objects (note_denial did peer dir kind n) = pn_objects n"
  "pn_sync_fails (note_denial did peer dir kind n) = pn_sync_fails n"
  "pn_incidents (note_denial did peer dir kind n)
     = pn_incidents n @ (if did = [] then [] else [denial_incident did peer dir kind])"
  by (auto simp: note_denial_def RecordDenialIncident_def split: sum.splits if_splits)

lemma receiver_refused:
  assumes "PeerPdfReceiver_Handle N k cmd n = (Inl e, n')"
  shows "\<exists>keys objects. n' = n\<lparr>pn_keys := keys, pn_objects := objects\<rparr>"
proof (cases "upsert_copy (nd_engine N) (nd_float N) (cl_now k) cmd (pn_store n)")
  case (Inl e')
  with assms have "n' = n\<lparr>pn_keys := pn_keys n, pn_objects := pn_objects n\<rparr>" by (simp add: PeerPdfReceiver_Handle_def)
  then show ?thesis by blast
next
  case (Inr x)
  obtain st s1 where x: "x = (st, s1)" by (rule prod.exhaust)
  obtain r kept where kept: "keep_artifact N k cmd st s1 (pn_keys n, pn_objects n) = (r, kept)" by (rule prod.exhaust)
  obtain keys objects where "kept = (keys, objects)" by (rule prod.exhaust)
  with assms Inr x kept have "n' = n\<lparr>pn_keys := keys, pn_objects := objects\<rparr>"
    by (cases r) (auto simp: PeerPdfReceiver_Handle_def)
  then show ?thesis by blast
qed

lemma store_pdf_refused:
  assumes "store_pdf N k p req payload sig install n = (Inl e, n')" "e \<noteq> ShapesNotInstalled"
  shows "\<exists>keys objects. n' = n\<lparr>pn_keys := keys, pn_objects := objects\<rparr>"
proof (cases "adopt_key N k req (pn_keys n)")
  case (Inl e')
  with assms have "n' = n\<lparr>pn_keys := pn_keys n, pn_objects := pn_objects n\<rparr>" by (simp add: store_pdf_def)
  then show ?thesis by blast
next
  case (Inr keys)
  obtain r n2 where h: "PeerPdfReceiver_Handle N k (receive_cmd_of N p payload req) (n\<lparr>pn_keys := keys\<rparr>) = (r, n2)"
    by (rule prod.exhaust)
  with assms Inr obtain e' where r: "r = Inl e'" "n' = n2"
    by (cases r; auto simp: store_pdf_def Let_def split: sum.splits option.splits prod.splits)+
  from receiver_refused [OF h [unfolded r(1)]] r(2) show ?thesis by auto
qed

text \<open>
  Which error comes from where: only the two gates deny, and a failure of the writes is
  none of theirs.
\<close>

lemma peer_option_Inl: "peer_option e' m = Inl e \<longleftrightarrow> m = None \<and> e' = e"
  by (auto simp: peer_option_def split: option.splits)

lemma require_Inl: "require b e' m = Inl e \<longleftrightarrow> (if b then m = Inl e else e' = e)"
  by (simp add: require_def)

lemmas error_iffs = bind_res_Inl_iff require_Inl peer_option_Inl

lemma session_not_denied:
  "peer_session N Out f c h \<noteq> Inl (GateDenied kind q)" "peer_session N Out f c h \<noteq> Inl ShapesNotInstalled"
  by (auto simp: peer_session_def error_iffs lift_challenge_def GetLocalPeer_def split: sum.splits)

lemma inspect_not_denied: "inspect_pdf N remote req \<noteq> Inl (GateDenied kind q)" "inspect_pdf N remote req \<noteq> Inl ShapesNotInstalled"
  by (auto simp: inspect_pdf_def error_iffs verifyShippedJades_def signed_members_def lift_jws_def map_sum_def
      split: sum.splits option.splits if_splits)

lemma plan_not_denied: "PlanPinnedShapes W h document wire \<noteq> Inl (GateDenied kind q)"
  "PlanPinnedShapes W h document wire \<noteq> Inl ShapesNotInstalled"
  by (auto simp: PlanPinnedShapes_def pinnedShapeRefs_def error_iffs split: sum.splits)

lemma adopt_key_error: "adopt_key N k req keys = Inl e \<Longrightarrow> e = KeyUnusable \<or> e = ScopeErased"
proof -
  have "key_failure x = KeyUnusable \<or> key_failure x = ScopeErased" for x by (cases x) (simp_all add: key_failure_def)
  moreover assume "adopt_key N k req keys = Inl e"
  then have "e = KeyUnusable \<or> (\<exists>x. e = key_failure x)"
    by (auto simp: adopt_key_def EnvelopeWrappedCEK_def error_iffs split: option.splits sum.splits)
  ultimately show ?thesis by auto
qed

lemma receive_failure_error: "receive_failure e \<noteq> GateDenied kind q" "receive_failure e \<noteq> ShapesNotInstalled"
  by (cases e; auto simp: receive_failure_def key_failure_def split: key_error.splits)+

lemma store_pdf_not_denied: "store_pdf N k p req payload sig install n \<noteq> (Inl (GateDenied kind q), n')"
proof (cases "adopt_key N k req (pn_keys n)")
  case (Inl e)
  with adopt_key_error [OF Inl] show ?thesis by (auto simp: store_pdf_def)
next
  case (Inr keys)
  obtain r n2 where h: "PeerPdfReceiver_Handle N k (receive_cmd_of N p payload req) (n\<lparr>pn_keys := keys\<rparr>) = (r, n2)"
    by (rule prod.exhaust)
  with Inr receive_failure_error(1) show ?thesis
    by (cases r) (auto simp: store_pdf_def Let_def split: sum.splits prod.splits)
qed

lemma note_denial_only: "note_denial did peer dir kind n
    = n\<lparr>pn_incidents := pn_incidents n @ (if did = [] then [] else [denial_incident did peer dir kind])\<rparr>"
  by (auto simp: note_denial_def RecordDenialIncident_def)

lemma PostPdf_refused:
  assumes "PostPdf N Out k req n = (Inl e, n')"
  obtains kind where "e = GateDenied kind (pr_from req)" "n' = note_denial (pr_contract req) (pr_from req) Inbound kind n"
      "TrustGate_Check Out (cl_now k) (pr_from req) Inbound (pr_contract req) '''' = Inl kind"
  | remote p payload sig evidence why where "e = GateDenied PoAFailure (pr_from req)"
      "n' = note_denial (pr_contract req) (pr_from req) Inbound PoAFailure n"
      "peer_session N Out (pr_from req) (pr_secret req) (pr_hash req) = Inr (remote, p)"
      "inspect_pdf N remote req = Inr (payload, sig, evidence)"
      "PoAGate_Check (nd_poa N) (assertionKeyOf Out (nd_document N) p (pr_from req) remote) (pr_from req) p
         (pr_contract req) evidence = Inl why"
  | "n' = n" "\<And>kind q. e \<noteq> GateDenied kind q" "e \<noteq> ShapesNotInstalled"
  | remote p payload sig evidence install where
      "peer_session N Out (pr_from req) (pr_secret req) (pr_hash req) = Inr (remote, p)"
      "TrustGate_Check Out (cl_now k) (pr_from req) Inbound (pr_contract req) '''' = Inr ()"
      "inspect_pdf N remote req = Inr (payload, sig, evidence)"
      "PoAGate_Check (nd_poa N) (assertionKeyOf Out (nd_document N) p (pr_from req) remote) (pr_from req) p
         (pr_contract req) evidence = Inr ()"
      "PlanPinnedShapes (nd_wire N) (pn_hub n) payload (pr_shapes req) = Inr install"
      "store_pdf N k p req payload sig install n = (Inl e, n')"
proof (cases "peer_session N Out (pr_from req) (pr_secret req) (pr_hash req)")
  case (Inl e')
  with assms session_not_denied [of N Out "pr_from req" "pr_secret req" "pr_hash req"] that(3) show thesis by (auto simp: PostPdf_def)
next
  case (Inr rp)
  obtain remote p where rp: "rp = (remote, p)" by fastforce
  note session = Inr [unfolded rp]
  show thesis
  proof (cases "TrustGate_Check Out (cl_now k) (pr_from req) Inbound (pr_contract req) ''''")
    case (Inl kind)
    with assms session that(1) show thesis by (auto simp: PostPdf_def)
  next
    case gate: (Inr u)
    show thesis
    proof (cases "inspect_pdf N remote req")
      case (Inl e')
      with assms session gate inspect_not_denied [of N remote req] that(3) show thesis by (auto simp: PostPdf_def)
    next
      case (Inr x)
      obtain payload sig evidence where x: "x = (payload, sig, evidence)" by (cases x) auto
      note inspected = Inr [unfolded x]
      show thesis
      proof (cases "PoAGate_Check (nd_poa N) (assertionKeyOf Out (nd_document N) p (pr_from req) remote) (pr_from req) p
         (pr_contract req) evidence")
        case (Inl why)
        with assms session gate inspected that(2) show thesis by (auto simp: PostPdf_def)
      next
        case passed: (Inr v)
        show thesis
        proof (cases "PlanPinnedShapes (nd_wire N) (pn_hub n) payload (pr_shapes req)")
          case (Inl e')
          with assms session gate inspected passed plan_not_denied [of "nd_wire N" "pn_hub n" payload "pr_shapes req"] that(3) show thesis by (auto simp: PostPdf_def)
        next
          case (Inr install)
          with assms session gate inspected passed that(4) show thesis by (auto simp: PostPdf_def)
        qed
      qed
    qed
  qed
qed

lemma store_pdf_incidents:
  assumes "store_pdf N k p req payload sig install n = (res, n')"
  shows "pn_incidents n' = pn_incidents n" "pn_sync_fails n' = pn_sync_fails n"
  using assms
  by (auto simp: store_pdf_def PeerPdfReceiver_Handle_def UpsertSyncSignature_def Let_def split: sum.splits option.splits prod.splits)

text \<open>The one error that comes after the contract was stored.\<close>

lemma store_pdf_late:
  assumes "store_pdf N k p req payload sig install n = (Inl ShapesNotInstalled, n')"
  shows "\<exists>m n2. pn_store m = pn_store n \<and> PeerPdfReceiver_Handle N k (receive_cmd_of N p payload req) m = (Inr (), n2)
    \<and> pn_store n' = pn_store n2 \<and> (\<exists>why. StorePinnedShapes (''peer:'' @ pr_from req) install (pn_hub n) = (Inl why, pn_hub n'))
    \<and> pn_signatures n' = (case sig of None \<Rightarrow> pn_signatures n
        | Some s \<Rightarrow> (pn_signatures n)(ss_did s \<mapsto> s\<lparr>ss_received_at := cl_now k\<rparr>))"
proof (cases "adopt_key N k req (pn_keys n)")
  case (Inl e')
  with assms adopt_key_error [OF Inl] show ?thesis by (auto simp: store_pdf_def)
next
  case (Inr keys)
  obtain r n2 where h: "PeerPdfReceiver_Handle N k (receive_cmd_of N p payload req) (n\<lparr>pn_keys := keys\<rparr>) = (r, n2)"
    by (rule prod.exhaust)
  have frame: "pn_hub n2 = pn_hub n" "pn_signatures n2 = pn_signatures n"
    using h by (auto simp: PeerPdfReceiver_Handle_def Let_def split: sum.splits prod.splits)
  from assms Inr h receive_failure_error(2) have r: "r = Inr ()"
    by (cases r) (auto simp: store_pdf_def)
  from assms Inr h show ?thesis unfolding r
    by (intro exI [of _ "n\<lparr>pn_keys := keys\<rparr>"] exI [of _ n2])
      (auto simp: store_pdf_def Let_def UpsertSyncSignature_def frame split: sum.splits option.splits prod.splits)
qed


end
