(* ===== verification/Federation_Witnesses.thy ===== *)
theory Federation_Witnesses
  imports Federation_Run Peer_Properties Witnesses
begin

text \<open>
  The properties of the federation at work: two instances, \<open>did:web:a\<close> and \<open>did:web:b\<close>, that
  publish one key each, a network that serves their documents and credentials, a wire
  format that can be read back, and every property with hypotheses applied there.
\<close>

section \<open>A wire format\<close>

text \<open>Every member is written with its characters marked, so that it can be read back.\<close>

definition demo_enc :: "string \<Rightarrow> string" where
  "demo_enc s = concat (map (\<lambda>c. [CHR ''x'', c]) s) @ ''.''"

fun demo_dec :: "string \<Rightarrow> string \<times> string" where
  "demo_dec (a # c # rest) =
     (if a = CHR ''x'' then (case demo_dec rest of (s, r) \<Rightarrow> (c # s, r)) else ('''', c # rest))"
| "demo_dec _ = ('''', '''')"

fun demo_fields :: "nat \<Rightarrow> string \<Rightarrow> string list" where
  "demo_fields 0 s = []"
| "demo_fields (Suc n) s = (if s = '''' then [] else (case demo_dec s of (f, r) \<Rightarrow> f # demo_fields n r))"

fun demo_text :: "json \<Rightarrow> string" where
  "demo_text (JStr s) = s"
| "demo_text (JNum t) = t"
| "demo_text _ = ''''"

definition demo_canonical :: "json \<Rightarrow> string" where
  "demo_canonical j = concat (map (\<lambda>(k, v). demo_enc (demo_text v)) (case j of JObj m \<Rightarrow> m | _ \<Rightarrow> []))"

definition demo_parse :: "string \<Rightarrow> json option" where
  "demo_parse s =
    (case demo_fields 9 s of
       [_, ty, did, dg, v, at, sby, swith] \<Rightarrow>
         Some (JObj [statement_context, (''@type'', JStr ty), (''dcs:contractDid'', JStr did),
           (''dcs:contractDocumentDigest'', JStr dg), (''dcs:contractVersion'', JNum v), (''dcs:settledAt'', JStr at),
           (''dcs:settledBy'', JStr sby), (''dcs:settledWith'', JStr swith)])
     | [_, ty, did, dg, at, wby, wfrom] \<Rightarrow>
         Some (JObj [statement_context, (''@type'', JStr ty), (''dcs:contractDid'', JStr did),
           (''dcs:contractDocumentDigest'', JStr dg), (''dcs:withdrawnAt'', JStr at),
           (''dcs:withdrawnBy'', JStr wby), (''dcs:withdrawnFrom'', JStr wfrom)])
     | _ \<Rightarrow> Some (JObj []))"

definition demo_jws :: jws_env where
  "demo_jws = \<lparr>jw_marshal = (\<lambda>_. ''h''), jw_parse = (\<lambda>_. Some (signing_header [''MIIB''] ''t'')),
     jw_leaf = (\<lambda>_. Some (LeafECDSA (1, 2))), jw_ecdsa = (\<lambda>k _ r s. k = (1, 2) \<and> r = 1 \<and> s = 1),
     jw_asn1 = (\<lambda>_. Some (1, 1))\<rparr>"

text \<open>A clock with four readings.\<close>

definition demo_time :: "string \<Rightarrow> int option" where
  "demo_time t = (if t = ''now'' then Some 5000000 else if t = ''from'' then Some 1 else if t = ''until'' then Some 9000000 else None)"

definition demo_time_text :: "int \<Rightarrow> string" where
  "demo_time_text t = (if t = 5000000 then ''now'' else ''later'')"

definition demo_wire :: wire_env where
  "demo_wire = \<lparr>wr_jws = demo_jws, wr_canonical = demo_canonical, wr_parse = demo_parse,
     wr_format = demo_time_text, wr_time = demo_time\<rparr>"

lemma demo_dec_enc [simp]: "demo_dec (demo_enc s @ r) = (s, r)"
  by (induction s) (cases r; simp add: demo_enc_def)+

lemma demo_dec_end [simp]: "demo_dec (demo_enc s) = (s, '''')"
  using demo_dec_enc [of s "[]"] by simp

lemma demo_enc_nonempty [simp]: "demo_enc s \<noteq> ''''" "demo_enc s @ r \<noteq> ''''"
  by (simp_all add: demo_enc_def)

lemma demo_fields_enc: "demo_fields (Suc n) (demo_enc s @ r) = s # demo_fields n r"
  by simp

lemma demo_wire_faithful: "faithful_wire demo_wire"
proof -
  have end': "demo_enc s = demo_enc s @ ''''" for s by simp
  have nine: "(9 :: nat) = Suc (Suc (Suc (Suc (Suc (Suc (Suc (Suc 1)))))))" by simp
  have "demo_fields 9 (demo_enc a @ demo_enc b @ demo_enc c @ demo_enc d @ demo_enc e @ demo_enc f @ demo_enc g @ demo_enc h)
      = [a, b, c, d, e, f, g, h]" for a b c d e f g h
    unfolding nine by (subst (3) end') (simp only: demo_fields_enc demo_fields.simps, simp)
  then show ?thesis
    by (auto simp: faithful_wire_def struct_members_def BuildSettlementPayload_def demo_wire_def demo_canonical_def
        demo_parse_def settlement_members_def statement_context_def)
qed

section \<open>Two instances\<close>

definition demo_signer :: jws_signer where
  "demo_signer = \<lparr>sg_method = Some \<lparr>vm_id = ''#key-1'', vm_jwk = demo_jwk\<rparr>, sg_sign = (\<lambda>c. Some (''signed '' @ c))\<rparr>"

definition demo_poa :: poa_env where
  "demo_poa = \<lparr>po_trust = True, po_verify = (\<lambda>_ _ _. True), po_proof = (\<lambda>_ k. k = (1, 2))\<rparr>"

definition demo_evidence :: json where
  "demo_evidence = JObj [(''poa_presentation'', JStr ''vp''), (''summary'', JObj [
     (''type'', JArr [JStr ''ContractSigningSummaryCredential'']),
     (''credentialSubject'', JObj [(''id'', JStr ''did:key:s''), (''field_name'', JStr ''did:web:b''), (''contract_id'', JStr ''c1'')]),
     (''proof'', JObj [(''verificationMethod'', JStr ''did:web:b#key-1''), (''proofPurpose'', JStr ''assertionMethod'')])])]"

definition demo_pdf_core :: pdf_core where
  "demo_pdf_core = \<lparr>pc_verify = (\<lambda>pdf. if pdf = '''' then None else Some (pdf \<noteq> ''forged'')), pc_payload = (\<lambda>_. Some ''doc''),
     pc_evidence = (\<lambda>_. Some [demo_evidence])\<rparr>"

definition demo_node_env :: "string \<Rightarrow> node_env" where
  "demo_node_env p = \<lparr>nd_engine = demo_env\<lparr>local_peer := Some p\<rparr>, nd_wire = demo_wire, nd_pki = demo_pki,
     nd_document = demo_did_document p, nd_signer = demo_signer, nd_crypto = demo_crypto, nd_owner = demo_owner ''a'',
     nd_poa = demo_poa, nd_pdf = demo_pdf_core, nd_payload_hash = (\<lambda>_. ''h''), nd_now_text = (\<lambda>_. ''t''),
     nd_float = (\<lambda>_. 0)\<rparr>"

text \<open>The network as anybody sees it who deals with \<open>peer\<close>.\<close>

definition demo_outside :: "string \<Rightarrow> outside" where
  "demo_outside peer = \<lparr>out_did = (\<lambda>did. Some (demo_did_document did)), out_get = (\<lambda>_. Some ''credential''),
     out_schemes = (\<lambda>_. [''https'']), out_policy = (\<lambda>_ _ _ _. Some 204), out_pdp_url = ''pdp'',
     out_proof = (\<lambda>_ k. k = (1, 2)), out_rules = ''rules'',
     out_parse = (\<lambda>_. Some (JObj [(''issuer'', JStr peer),
       (''proof'', JObj [(''verificationMethod'', JStr ''#key-1''), (''proofPurpose'', JStr ''assertionMethod'')]),
       (''termsOfUse'', JObj [(''type'', JStr ''TrustFrameworkPolicy''), (''hash'', JStr ''rules'')]),
       (''validFrom'', JStr ''from''), (''validUntil'', JStr ''until'')])),
     out_time = demo_time\<rparr>"

definition demo_parties :: responsible where
  "demo_parties = \<lparr>resp_creator = ''did:web:a'', resp_approvers = [''did:web:a''], resp_reviewers = [''did:web:a''],
     resp_negotiators = [''did:web:a''], resp_counterparty = ''did:web:b''\<rparr>"

definition demo_settled_event :: cwe_event where
  "demo_settled_event = SubmitEvent ''c1'' 1 ''alice'' Negotiation (Some Submitted) None"

definition demo_node :: "contract_state \<Rightarrow> peer_node" where
  "demo_node st = \<lparr>pn_store = (demo_store ((demo_contract ''did:web:a'' st)\<lparr>c_responsible := Some demo_parties\<rparr>))
        \<lparr>outbox := [demo_settled_event]\<rparr>,
     pn_sync_fails = [], pn_signatures = (\<lambda>_. None), pn_incidents = [], pn_erasures = [], pn_shredded = [],
     pn_keys = empty_keys, pn_objects = (\<lambda>_. None), pn_hub = []\<rparr>"

text \<open>No request is answered: what is sent arrives later.\<close>

definition demo_sending :: sending where
  "demo_sending = \<lparr>sd_configured = True, sd_out = (\<lambda>_ peer. demo_outside peer), sd_secret = (\<lambda>_ _. ''s''),
     sd_draws = (\<lambda>_ _. demo_draws 1), sd_settlement = (\<lambda>_ _. False), sd_withdrawal = (\<lambda>_ _. False),
     sd_pdf = (\<lambda>_ _. False), sd_erase = (\<lambda>_ _. False)\<rparr>"

section \<open>What an instance signs\<close>

text \<open>Signatures, statements and the instance that made one, with the payload left unevaluated.\<close>

definition demo_signed :: "string \<Rightarrow> string" where
  "demo_signed payload = b64_encode (text_bytes ''h'') @ ''.'' @ b64_encode (text_bytes payload) @ ''.''
     @ b64_encode (be_bytes 32 1 @ be_bytes 32 1)"

definition demo_claim :: "string \<Rightarrow> string \<Rightarrow> settlement_claim" where
  "demo_claim p peer = \<lparr>sc_contract = ''c1'', sc_version = 1, sc_digest = ''digest'', sc_by = p, sc_with = peer, sc_at = 5000000\<rparr>"

definition demo_statement :: "string \<Rightarrow> string \<Rightarrow> settlement" where
  "demo_statement p peer = \<lparr>st_did = ''c1'', st_from_peer = p, st_to_peer = peer, st_version = 1, st_digest = ''digest'',
     st_settled_at = 5000000, st_signature = demo_signed (BuildSettlementPayload demo_wire (demo_claim p peer)),
     st_delivered = None\<rparr>"

definition demo_settled :: "string \<Rightarrow> string \<Rightarrow> peer_node" where
  "demo_settled p peer = (demo_node Submitted)\<lparr>pn_store := (pn_store (demo_node Submitted))\<lparr>settlements := [demo_statement p peer]\<rparr>\<rparr>"

lemma demo_node_parts [simp]:
  "nd_wire (demo_node_env p) = demo_wire" "nd_pki (demo_node_env p) = demo_pki" "nd_signer (demo_node_env p) = demo_signer"
  "nd_now_text (demo_node_env p) now = ''t''" "nd_document (demo_node_env p) = demo_did_document p"
  "nd_poa (demo_node_env p) = demo_poa" "nd_pdf (demo_node_env p) = demo_pdf_core"
  "wr_jws demo_wire = demo_jws" "wr_time demo_wire = demo_time" "wr_format demo_wire = demo_time_text"
  by (simp_all add: demo_node_env_def demo_wire_def)

lemma demo_claim_parts [simp]:
  "sc_contract (demo_claim p peer) = ''c1''" "sc_version (demo_claim p peer) = 1" "sc_digest (demo_claim p peer) = ''digest''"
  "sc_by (demo_claim p peer) = p" "sc_with (demo_claim p peer) = peer" "(demo_claim p peer)\<lparr>sc_at := 5000000\<rparr> = demo_claim p peer"
  "sg_sign demo_signer text = Some (''signed '' @ text)"
  by (simp_all add: demo_claim_def demo_signer_def)

lemma demo_statement_parts [simp]:
  "st_did (demo_statement p peer) = ''c1''" "st_from_peer (demo_statement p peer) = p" "st_to_peer (demo_statement p peer) = peer"
  "st_digest (demo_statement p peer) = ''digest''" "claim_of (demo_statement p peer) = demo_claim p peer"
  by (simp_all add: demo_statement_def claim_of_def demo_claim_def)

lemma demo_sign: "Jades_Sign demo_jws demo_signer ''t'' payload = Inr (demo_signed payload)"
  by (simp add: Jades_Sign_def demo_signer_def demo_jwk_def demo_jws_def derToJOSE_def demo_signed_def jws_option_def
      peer_option_def Let_def)

lemma demo_verify: "Jades_Verify demo_jws (demo_signed payload) = Inr (payload, (1, 2))"
proof -
  have parts: "split_on (CHR ''.'') (demo_signed payload)
      = [b64_encode (text_bytes ''h''), b64_encode (text_bytes payload), b64_encode (be_bytes 32 1 @ be_bytes 32 1)]"
    using split_three [OF b64_no_dot b64_no_dot b64_no_dot] by (simp add: demo_signed_def)
  have "be_int (be_bytes 32 1) = 1" by (simp add: be_int_be_bytes)
  then show ?thesis
    by (simp add: Jades_Verify_def parts demo_jws_def signing_header_def jws_option_def)
qed

lemma demo_digest: "document_digest_of (nd_engine (demo_node_env p)) c = Inr ''digest''"
  by (simp add: document_digest_of_def demo_node_env_def demo_env_def peer_option_def)

lemma demo_local [simp]: "GetLocalPeer (demo_node_env p) = Inr p"
  by (simp add: GetLocalPeer_def demo_node_env_def demo_did_document_def)

lemma demo_node_store:
  "contracts (pn_store (demo_node st)) = [''c1'' \<mapsto> (demo_contract ''did:web:a'' st)\<lparr>c_responsible := Some demo_parties\<rparr>]"
  "settlements (pn_store (demo_node st)) = []" "withdrawals (pn_store (demo_node st)) = []"
  "history (pn_store (demo_node st)) = []" "outbox (pn_store (demo_node st)) = [demo_settled_event]"
  by (simp_all add: demo_node_def demo_store_def)

lemma demo_built:
  "BuildSettlement (demo_node_env p) 5000000
     (((demo_contract ''did:web:a'' st)\<lparr>c_responsible := Some demo_parties\<rparr>)\<lparr>c_state := st'\<rparr>) p peer = Inr (demo_statement p peer)"
  unfolding BuildSettlement_def demo_digest
  by (simp add: demo_sign lift_jws_def settlement_claim_of_def demo_contract_def demo_statement_def demo_claim_def microsecond_def)

definition demo_credential :: "string \<Rightarrow> json_map" where
  "demo_credential peer = [(''issuer'', JStr peer),
     (''proof'', JObj [(''verificationMethod'', JStr ''#key-1''), (''proofPurpose'', JStr ''assertionMethod'')]),
     (''termsOfUse'', JObj [(''type'', JStr ''TrustFrameworkPolicy''), (''hash'', JStr ''rules'')]),
     (''validFrom'', JStr ''from''), (''validUntil'', JStr ''until'')]"

lemma demo_outside_parts [simp]:
  "out_did (demo_outside peer) p = Some (demo_did_document p)" "out_parse (demo_outside peer) c = Some (JObj (demo_credential peer))"
  "out_proof (demo_outside peer) c k \<longleftrightarrow> k = (1, 2)" "out_rules (demo_outside peer) = ''rules''"
  "out_time (demo_outside peer) = demo_time" "out_policy (demo_outside peer) p d c st = Some 204"
  "trim_space (out_pdp_url (demo_outside peer)) \<noteq> ''''"
proof -
  have "trim_space ''pdp'' \<noteq> ''''" by code_simp
  then show "trim_space (out_pdp_url (demo_outside peer)) \<noteq> ''''" by (simp add: demo_outside_def)
qed (simp_all add: demo_outside_def demo_credential_def)

lemma demo_proof:
  "read_struct ''proof'' (demo_credential peer)
     = Some [(''verificationMethod'', JStr ''#key-1''), (''proofPurpose'', JStr ''assertionMethod'')]"
  by code_simp

lemma demo_proof_parts:
  "read_string ''verificationMethod'' [(''verificationMethod'', JStr ''#key-1''), (''proofPurpose'', JStr ''assertionMethod'')] = Some ''#key-1''"
  "read_string ''proofPurpose'' [(''verificationMethod'', JStr ''#key-1''), (''proofPurpose'', JStr ''assertionMethod'')] = Some ''assertionMethod''"
  "trim_space ''assertionMethod'' = ''assertionMethod''"
  by code_simp+

lemma demo_issuer: "issuerIdentifier (read_raw ''issuer'' (demo_credential peer)) = Some peer"
  by code_simp

lemma demo_terms: "termsOfUseHash (read_raw ''termsOfUse'' (demo_credential peer)) = Some ''rules''"
  by code_simp

lemma demo_in_force: "requireCredentialInForce demo_time (demo_credential peer) 5000000 = Inr ()"
  by code_simp

lemma demo_document_parts [simp]: "dd_id (demo_did_document p) = Some p"
  by (simp add: demo_did_document_def)

lemma demo_distinct:
  "SameDIDWeb p p" "\<not> SameDIDWeb ''did:web:a'' ''did:web:b''" "\<not> SameDIDWeb ''did:web:b'' ''did:web:a''"
  "DIDWebPath ''did:web:a'' = Some (''a'', [])" "DIDWebPath ''did:web:b'' = Some (''b'', [])"
  by (simp add: SameDIDWeb_def) code_simp+

lemma demo_peers:
  "didWebTarget ''did:web:a'' = Some ''https://a''" "didWebTarget ''did:web:b'' = Some ''https://b''"
  "fetchAgreementCredential (demo_outside ''did:web:a'') ''did:web:a'' = Some ''credential''"
  "fetchAgreementCredential (demo_outside ''did:web:b'') ''did:web:b'' = Some ''credential''"
  "AssertionKey (Some (demo_did_document ''did:web:a'')) ''#key-1'' = Some (1, 2)"
  "AssertionKey (Some (demo_did_document ''did:web:b'')) ''#key-1'' = Some (1, 2)"
  by code_simp+

lemma demo_trust [simp]:
  "TrustGate_Check (demo_outside ''did:web:a'') 5000000 ''did:web:a'' dir did st = Inr ()"
  "TrustGate_Check (demo_outside ''did:web:b'') 5000000 ''did:web:b'' dir did st = Inr ()"
proof -
  have "verifyAgreementCredential (demo_outside ''did:web:a'') 5000000 ''did:web:a'' = Inr ''credential''"
      "verifyAgreementCredential (demo_outside ''did:web:b'') 5000000 ''did:web:b'' = Inr ''credential''"
    by (simp_all add: verifyAgreementCredential_def credential_option_def demo_peers demo_proof demo_proof_parts demo_issuer demo_terms
        demo_in_force lift_validity_def requireDocumentIsFor_def demo_document_parts demo_distinct)
  then show "TrustGate_Check (demo_outside ''did:web:a'') 5000000 ''did:web:a'' dir did st = Inr ()"
      "TrustGate_Check (demo_outside ''did:web:b'') 5000000 ''did:web:b'' dir did st = Inr ()"
    by (simp_all add: TrustGate_Check_def consultPolicyEndpoint_def)
qed

lemma demo_settles:
  "sync_handler (demo_node_env ''did:web:a'') demo_sending 5000000 (FromEngine demo_settled_event) (demo_node Submitted)
     = demo_settled ''did:web:a'' ''did:web:b''"
  "sync_handler (demo_node_env ''did:web:b'') demo_sending 5000000 (FromEngine demo_settled_event) (demo_node Submitted)
     = demo_settled ''did:web:b'' ''did:web:a''"
proof -
  let ?c = "(demo_contract ''did:web:a'' Submitted)\<lparr>c_responsible := Some demo_parties\<rparr>"
  have parties: "contract_parties ?c = [''did:web:a'', ''did:web:b'']" by code_simp
  have ids: "c_did ?c = ''c1''" "effective_state 5000000 ?c = Submitted" "pg_time 5000000 = 5000000" by code_simp+
  have event: "settlementFromEvent (SubmitEvent ''c1'' 1 ''alice'' Negotiation (Some Submitted) None) = Inr (''c1'', True)"
    by code_simp
  note steps = event parties ids demo_distinct demo_node_store sync_handler_def demo_settled_event_def shipSettlement_def
    shipSettlementWithdrawals_def pendingSettlementWithdrawals_def GetUndeliveredSettlementWithdrawals_def ReadDataByDID_def
    recordSettlement_def demo_built demo_sending_def deliverSettlement_def sign_challenge_def peer_option_def Let_def newest_def
    demo_settled_def UpsertSettlement_def GetSettlement_def demo_statement_def
  show "sync_handler (demo_node_env ''did:web:a'') demo_sending 5000000 (FromEngine demo_settled_event) (demo_node Submitted)
     = demo_settled ''did:web:a'' ''did:web:b''"
    by (simp add: steps)
  show "sync_handler (demo_node_env ''did:web:b'') demo_sending 5000000 (FromEngine demo_settled_event) (demo_node Submitted)
     = demo_settled ''did:web:b'' ''did:web:a''"
    by (simp add: steps)
qed

text \<open>What \<open>did:web:b\<close> ships to \<open>did:web:a\<close>, and \<open>did:web:a\<close> once it arrived.\<close>

definition demo_shipment :: settlement_request where
  "demo_shipment = settlement_request_of (demo_statement ''did:web:b'' ''did:web:a'') ''s'' ''signed s''"

definition demo_agreed :: peer_node where
  "demo_agreed = (demo_settled ''did:web:a'' ''did:web:b'')\<lparr>pn_store := (pn_store (demo_node Submitted))\<lparr>settlements :=
     [demo_statement ''did:web:a'' ''did:web:b'', (demo_statement ''did:web:b'' ''did:web:a'')\<lparr>st_delivered := Some 5000000\<rparr>]\<rparr>\<rparr>"

lemma demo_parties_of:
  "contract_parties ((demo_contract ''did:web:a'' st)\<lparr>c_responsible := Some demo_parties\<rparr>) = [''did:web:a'', ''did:web:b'']"
  by code_simp

lemma demo_key: "PublishesKeyFor PurposeAssertion (Some (1, 2)) (demo_did_document ''did:web:b'')"
  by code_simp

lemma demo_session:
  "peer_session (demo_node_env ''did:web:a'') (demo_outside ''did:web:b'') ''did:web:b'' ''s'' ''signed s''
     = Inr (demo_did_document ''did:web:b'', ''did:web:a'')"
proof -
  have "VerifyPeerChallenge demo_pki (demo_did_document ''did:web:b'') ''s'' ''signed s'' = Inr ()" by code_simp
  then show ?thesis by (simp add: peer_session_def peer_option_def lift_challenge_def demo_distinct)
qed

lemma demo_decode:
  "decode_settlement (settlement_members demo_wire (demo_claim p peer)) = Some (SettlementType, (demo_claim p peer)\<lparr>sc_at := 0\<rparr>, ''now'')"
  by code_simp

lemma demo_shipped:
  "verifyShippedSettlement demo_wire (st_signature (demo_statement ''did:web:b'' ''did:web:a'')) ''did:web:b'' (demo_did_document ''did:web:b'')
     \<lparr>lc_contract = ''c1'', lc_local_peer = ''did:web:a'', lc_digest = ''digest'', lc_superseded = ds,
      lc_parties = [''did:web:a'', ''did:web:b''], lc_previous = None, lc_now = 5000000\<rparr>
   = Inr ((demo_statement ''did:web:b'' ''did:web:a'')\<lparr>st_delivered := Some 5000000\<rparr>)"
proof -
  let ?c = "demo_claim ''did:web:b'' ''did:web:a''"
  have "signed_members demo_wire (st_signature (demo_statement ''did:web:b'' ''did:web:a'')) (demo_did_document ''did:web:b'')
      = Inr (BuildSettlementPayload demo_wire ?c, settlement_members demo_wire ?c)"
    using demo_wire_faithful
    by (simp add: signed_members_def demo_statement_def demo_verify lift_jws_def demo_key faithful_wire_def peer_option_def)
  moreover have "require_members [(''dcs:contractDid'', ''c1''), (''dcs:contractDocumentDigest'', ''digest''),
      (''dcs:settledBy'', ''did:web:b''), (''dcs:settledWith'', ''did:web:a''), (''dcs:settledAt'', ''now'')] = Inr ()"
    by code_simp
  ultimately show ?thesis
    by (simp add: verifyShippedSettlement_def peer_option_def demo_decode demo_time_def demo_distinct
        settlementClockSkew_def demo_statement_def)
qed

lemma demo_arrives:
  "PostSettlement (demo_node_env ''did:web:a'') (demo_outside ''did:web:b'') 5000000 demo_shipment (demo_settled ''did:web:a'' ''did:web:b'')
     = (Inr ''did:web:a'', demo_agreed)"
proof -
  have held: "GetSettlement ''c1'' ''did:web:b'' (pn_store (demo_settled ''did:web:a'' ''did:web:b'')) = None"
    by (simp add: GetSettlement_def demo_settled_def demo_statement_def settled_by_def)
  have own: "GetSettlement ''c1'' ''did:web:a'' (pn_store (demo_settled ''did:web:a'' ''did:web:b'')) = Some (demo_statement ''did:web:a'' ''did:web:b'')"
    by (simp add: GetSettlement_def newest_def demo_settled_def demo_statement_def settled_by_def)
  have pg: "pg_time 5000000 = 5000000" by code_simp
  have up: "UpsertSettlement ((demo_statement ''did:web:b'' ''did:web:a'')\<lparr>st_delivered := Some 5000000\<rparr>)
      (pn_store (demo_settled ''did:web:a'' ''did:web:b'')) = pn_store demo_agreed"
    by (simp add: UpsertSettlement_def pg same_settlement_def demo_statement_def demo_settled_def demo_agreed_def)
  have row: "contracts (pn_store (demo_settled p peer)) ''c1'' = Some ((demo_contract ''did:web:a'' Submitted)\<lparr>c_responsible := Some demo_parties\<rparr>)"
      "history (pn_store (demo_settled p peer)) = []" for p peer
    by (simp_all add: demo_settled_def demo_node_store)
  have "accept_settlement (demo_node_env ''did:web:a'') 5000000 (demo_did_document ''did:web:b'') ''did:web:a'' demo_shipment
      (pn_store (demo_settled ''did:web:a'' ''did:web:b'')) = Inr (pn_store demo_agreed)"
    using demo_shipped
    by (simp add: accept_settlement_def demo_shipment_def settlement_request_of_def held own supersededDocumentDigests_def demo_digest
        demo_parties_of row ReadDataByDID_def lift_store_def up)
  then show ?thesis
    by (simp add: PostSettlement_def demo_session demo_shipment_def settlement_request_of_def demo_agreed_def)
qed

section \<open>The gate opens\<close>

definition demo_world :: federation where
  "demo_world = \<lparr>fd_nodes = (\<lambda>_. demo_node Submitted), fd_log = []\<rparr>"

definition demo_both_settled :: federation where
  "demo_both_settled = advance ''did:web:b'' (demo_settled ''did:web:b'' ''did:web:a'')
     (advance ''did:web:a'' (demo_settled ''did:web:a'' ''did:web:b'') demo_world)"

definition demo_agreement :: federation where
  "demo_agreement = advance ''did:web:a'' demo_agreed demo_both_settled"

lemma demo_proper: "proper_federation demo_node_env"
  using demo_wire_faithful by (simp add: proper_federation_def)

lemma demo_start: "fed_start demo_world"
  by (simp add: fed_start_def demo_world_def store_wf_def demo_node_store demo_contract_def)

lemma demo_genuine: "genuine demo_wire (issued demo_both_settled) (demo_outside ''did:web:b'') ''did:web:b'' (sr_jades demo_shipment)"
proof -
  have "demo_statement ''did:web:b'' ''did:web:a'' \<in> issued demo_both_settled"
    by (simp add: demo_both_settled_def issued_advance own_settlements_def demo_settled_def)
  moreover have "Jades_Verify demo_jws (sr_jades demo_shipment)
      = Inr (BuildSettlementPayload demo_wire (claim_of (demo_statement ''did:web:b'' ''did:web:a'')), (1, 2))"
    by (simp add: demo_shipment_def settlement_request_of_def demo_statement_def demo_verify claim_of_def demo_claim_def)
  ultimately show ?thesis
    by (auto simp: genuine_def demo_distinct intro!: bexI [of _ "demo_statement ''did:web:b'' ''did:web:a''"])
qed

lemma demo_steps: "(fed_step demo_node_env)\<^sup>*\<^sup>* demo_world demo_agreement"
proof -
  let ?w = "advance ''did:web:a'' (demo_settled ''did:web:a'' ''did:web:b'') demo_world"
  have known: "known_event (FromEngine demo_settled_event) (demo_node Submitted)"
    by (simp add: known_event_def demo_node_store)
  have one: "fed_step demo_node_env demo_world ?w"
    using fed_event [where E = demo_node_env and w = demo_world and p = "''did:web:a''" and sd = demo_sending and now = 5000000
        and evt = "FromEngine demo_settled_event"] known
    by (simp add: demo_world_def demo_settles)
  have two: "fed_step demo_node_env ?w demo_both_settled"
    using fed_event [where E = demo_node_env and w = ?w and p = "''did:web:b''" and sd = demo_sending and now = 5000000
        and evt = "FromEngine demo_settled_event"] known
    by (simp add: demo_world_def demo_both_settled_def demo_settles)
  have three: "fed_step demo_node_env demo_both_settled demo_agreement"
    unfolding demo_agreement_def
    by (rule fed_settlement [where Out = "demo_outside ''did:web:b''" and req = demo_shipment and now = 5000000 and res = "Inr ''did:web:a''"])
      (use demo_genuine demo_arrives in \<open>simp_all add: demo_shipment_def settlement_request_of_def demo_both_settled_def\<close>)
  from one two three show ?thesis by (meson converse_rtranclp_into_rtranclp rtranclp.rtrancl_refl)
qed

lemma demo_held:
  "GetSettlement ''c1'' ''did:web:a'' (pn_store demo_agreed) = Some (demo_statement ''did:web:a'' ''did:web:b'')"
  "GetSettlement ''c1'' ''did:web:b'' (pn_store demo_agreed)
     = Some ((demo_statement ''did:web:b'' ''did:web:a'')\<lparr>st_delivered := Some 5000000\<rparr>)"
  by (simp_all add: GetSettlement_def newest_def demo_agreed_def settled_by_def)

lemma demo_remote: "IsRemotePartyField (party_dids (Some demo_parties)) ''did:web:a'' ''did:web:b''"
  by code_simp

lemma demo_gate:
  "assertCounterpartiesSettled ''c1'' ''did:web:a'' (Some demo_parties) [''did:web:b''] (pn_store demo_agreed) = Inr ()"
  using demo_remote by (simp add: assertCounterpartiesSettled_def demo_held)

lemma demo_agreement_node: "fd_nodes demo_agreement ''did:web:a'' = demo_agreed"
  by (simp add: demo_agreement_def)

theorem open_gate_means_agreement_witness:
  "\<exists>own theirs. own \<in> issued demo_agreement \<and> st_from_peer own = ''did:web:a'' \<and> st_did own = ''c1''
    \<and> backed demo_node_env demo_agreement own
    \<and> theirs \<in> issued demo_agreement \<and> SameDIDWeb (st_from_peer theirs) ''did:web:b'' \<and> st_did theirs = ''c1''
    \<and> backed demo_node_env demo_agreement theirs
    \<and> SameDIDWeb (st_to_peer theirs) ''did:web:a'' \<and> st_digest theirs = st_digest own"
  by (rule open_gate_means_agreement [OF demo_steps demo_start demo_proper, of "''c1''" _ "Some demo_parties" "[''did:web:b'']"])
    (simp_all add: demo_agreement_node demo_gate demo_remote)

section \<open>A document\<close>

definition demo_pdf :: "string \<Rightarrow> pdf_request" where
  "demo_pdf pdf = \<lparr>pr_from = ''did:web:b'', pr_contract = ''c1'', pr_pdf = pdf, pr_secret = ''s'', pr_hash = ''signed s'',
     pr_jades = None, pr_state = None, pr_cek = None, pr_shapes = []\<rparr>"

definition demo_call :: call where
  "demo_call = \<lparr>cl_now = 5000000, cl_adopt = demo_draws 1, cl_put = demo_draws 1, cl_cid = Some ''cid''\<rparr>"

lemma demo_pdf_parts [simp]:
  "pr_from (demo_pdf pdf) = ''did:web:b''" "pr_contract (demo_pdf pdf) = ''c1''" "pr_pdf (demo_pdf pdf) = pdf"
  "pr_secret (demo_pdf pdf) = ''s''" "pr_hash (demo_pdf pdf) = ''signed s''" "pr_jades (demo_pdf pdf) = None"
  "pr_state (demo_pdf pdf) = None" "pr_cek (demo_pdf pdf) = None" "pr_shapes (demo_pdf pdf) = []"
  "cl_now demo_call = 5000000" "cl_put demo_call = demo_draws 1" "cl_cid demo_call = Some ''cid''"
  by (simp_all add: demo_pdf_def demo_call_def)

lemma demo_evidence_accepted:
  "PoAGate_Check demo_poa (assertionKeyOf (demo_outside ''did:web:b'') (demo_did_document ''did:web:a'') ''did:web:a'' ''did:web:b''
     (demo_did_document ''did:web:b'')) ''did:web:b'' ''did:web:a'' ''c1'' [demo_evidence] = Inr ()"
  by code_simp

theorem accepted_evidence_is_bound_witness:
  "\<exists>att sub key. ReadSigningEvidence demo_evidence = Some (att, sub) \<and> es_contract sub = trim_space ''c1''
    \<and> po_proof demo_poa (ev_summary att) key"
  using accepted_evidence_is_bound [OF demo_evidence_accepted, of demo_evidence] by auto

lemma demo_document: "wr_parse demo_wire ''doc'' = Some (JObj [])"
  by code_simp

lemma demo_inspected:
  "pdf \<noteq> '''' \<Longrightarrow> pdf \<noteq> ''forged'' \<Longrightarrow>
    inspect_pdf (demo_node_env p) remote (demo_pdf pdf) = Inr (''doc'', None, [demo_evidence])"
  by (simp add: inspect_pdf_def demo_pdf_core_def peer_option_def)

lemma demo_kept:
  "\<exists>s' kept'. keep_artifact (demo_node_env p) demo_call (receive_cmd_of (demo_node_env p) q payload (demo_pdf ''pdf''))
     Submitted s (empty_keys, \<lambda>_. None) = (Inr s', kept')" if "contracts s ''c1'' = Some c"
proof -
  obtain w where "cek demo_crypto (demo_owner ''a'') (demo_draws 1) (ContractScope ''c1'') True empty_keys
      = Inr (replicate 32 7, remember (ContractScope ''c1'') (replicate 32 7) (empty_keys\<lparr>ks_repo :=
          [\<lparr>rec_scope = ContractScope ''c1'', rec_recipient = ''a'', rec_wrapped = w, rec_created_at = 1, rec_shredded = None\<rparr>]\<rparr>))"
    by (rule demo_create)
  then obtain keys objects where put: "Put demo_crypto (demo_owner ''a'') (demo_draws 1) (ContractScope ''c1'') (str_bytes ''pdf'')
      (Some ''cid'') (empty_keys, \<lambda>_. None) = Inr (''cid'', keys, objects)"
    by (simp add: Put_def store_Encrypt_def Encrypt_def cekLen_def lift_env_def)
  have "ArtifactC2PAState (state_string Submitted) ''pdf'' \<noteq> None" by code_simp
  then obtain c2pa where "ArtifactC2PAState (state_string Submitted) ''pdf'' = Some c2pa" by blast
  moreover have "nd_crypto (demo_node_env p) = demo_crypto" "nd_owner (demo_node_env p) = demo_owner ''a''"
    by (simp_all add: demo_node_env_def)
  ultimately show ?thesis
    using put that by (simp add: keep_artifact_def receive_cmd_of_def ReadDataByDID_def lift_rstore_def)
qed

lemma demo_document_arrives:
  obtains n' where "PostPdf (demo_node_env ''did:web:a'') (demo_outside ''did:web:b'') demo_call (demo_pdf ''pdf'') (demo_node Submitted)
     = (Inr ''did:web:a'', n')"
proof -
  let ?N = "demo_node_env ''did:web:a''" and ?cmd = "receive_cmd_of (demo_node_env ''did:web:a'') ''did:web:a'' ''doc'' (demo_pdf ''pdf'')"
  let ?c = "(demo_contract ''did:web:a'' Submitted)\<lparr>c_responsible := Some demo_parties\<rparr>"
  let ?s1 = "RollForward ''c1'' (c_version ?c) (c_version ?c + 1)
     (RemoteUpdate 5000000 (refreshed_copy (nd_float ?N) 5000000 ?cmd ?c) (pn_store (demo_node Submitted)))"
  have st: "rc_state (refreshed_copy (nd_float ?N) 5000000 ?cmd ?c) = Submitted"
    by (simp add: refreshed_copy_fields receive_cmd_of_def) code_simp
  have up: "upsert_copy (nd_engine ?N) (nd_float ?N) 5000000 ?cmd (pn_store (demo_node Submitted)) = Inr (Submitted, ?s1)"
    using st by (simp add: upsert_copy_def receive_cmd_of_def demo_node_store Let_def)
  have "\<exists>c. contracts ?s1 ''c1'' = Some c"
    by (simp add: RemoteUpdate_def contracts_update_row demo_node_store receive_cmd_of_def)
  then obtain c where "contracts ?s1 ''c1'' = Some c" by blast
  then obtain s' keys objects where kept: "keep_artifact ?N demo_call ?cmd Submitted ?s1 (empty_keys, \<lambda>_. None) = (Inr s', keys, objects)"
    using demo_kept [of ?s1 c "''did:web:a''" "''did:web:a''" "''doc''"] by auto
  have node: "pn_keys (demo_node Submitted) = empty_keys" "pn_objects (demo_node Submitted) = (\<lambda>_. None)"
    by (simp_all add: demo_node_def)
  have "PlanPinnedShapes demo_wire (pn_hub (demo_node Submitted)) ''doc'' [] = Inr []"
    by (simp add: PlanPinnedShapes_def pinnedShapeRefs_def struct_members_def demo_document peer_option_def EffectiveShapeRefs_def
        obj_get_def ReceivedPinnedShapes_def map_filter_def PlanPinnedShapesImport_def)
  moreover obtain n' where "store_pdf ?N demo_call ''did:web:a'' (demo_pdf ''pdf'') ''doc'' None [] (demo_node Submitted) = (Inr ''did:web:a'', n')"
    using up kept by (simp add: store_pdf_def adopt_key_def PeerPdfReceiver_Handle_def Let_def node)
  ultimately show thesis
    using that demo_inspected [of "''pdf''"] demo_evidence_accepted
    by (simp add: PostPdf_def demo_session)
qed


text \<open>A document whose pages do not match, and one from a peer without a credential of its own.\<close>

lemma demo_refused:
  "PostPdf (demo_node_env ''did:web:a'') (demo_outside ''did:web:b'') demo_call (demo_pdf ''forged'') (demo_node Submitted)
      = (Inl ContentMismatch, demo_node Submitted)"
  by (simp add: PostPdf_def demo_session inspect_pdf_def demo_pdf_core_def peer_option_def)

lemma demo_denied:
  "\<exists>n'. PostPdf (demo_node_env ''did:web:a'') (demo_outside ''did:web:a'') demo_call (demo_pdf ''pdf'') (demo_node Submitted)
      = (Inl (GateDenied AgreementFailure ''did:web:b''), n')"
proof -
  have "fetchAgreementCredential (demo_outside ''did:web:a'') ''did:web:b'' = Some ''credential''" by code_simp
  then have "verifyAgreementCredential (demo_outside ''did:web:a'') 5000000 ''did:web:b'' = Inl IssuerIsAnother"
    by (simp add: verifyAgreementCredential_def credential_option_def demo_peers demo_proof demo_proof_parts demo_issuer
        requireDocumentIsFor_def demo_document_parts demo_distinct)
  moreover have "peer_session (demo_node_env ''did:web:a'') (demo_outside ''did:web:a'') ''did:web:b'' ''s'' ''signed s''
      = Inr (demo_did_document ''did:web:b'', ''did:web:a'')"
    using demo_session by (simp add: peer_session_def)
  ultimately show ?thesis by (simp add: PostPdf_def TrustGate_Check_def)
qed


section \<open>Vocabulary\<close>

text \<open>The sender publishes a library of its own, the receiver has none.\<close>

definition demo_pinned :: json_map where
  "demo_pinned = [(''dcs:effectiveShapes'', JArr [JObj [(''@id'', JStr (hubShapesAnchorPath @ ''extra?version=1''))]])]"

definition demo_row :: schema_row where
  "demo_row = \<lparr>sh_name = ''extra'', sh_kind = ShapesKind, sh_version = 1, sh_media = ''text/turtle'', sh_content = ''shapes'',
     sh_active = True, sh_created_by = ''alice''\<rparr>"

definition demo_library :: shipped_shapes where
  "demo_library = \<lparr>pp_name = ''extra'', pp_version = 1, pp_media = ''text/turtle'', pp_content = ''shapes''\<rparr>"

lemma demo_refs: "EffectiveShapeRefs demo_pinned = Inr [(''extra'', 1)]"
  by code_simp

lemma demo_shipped_library:
  "CollectPinnedShapes [demo_row] [(''extra'', 1)] = Inr [demo_library]"
  "PlanPinnedShapesImport [] [(''extra'', 1)] [demo_library] = Inr [demo_library]"
  "StorePinnedShapes ''peer:b'' [demo_library] []
     = (Inr (), [demo_row\<lparr>sh_kind := PeerShapesKind, sh_active := False, sh_created_by := ''peer:b''\<rparr>])"
  by code_simp+

theorem shipped_libraries_agree_witness:
  "\<exists>c. pinnedShapesContent [demo_row] (''extra'', 1) = Inr c
    \<and> pinnedShapesContent [demo_row\<lparr>sh_kind := PeerShapesKind, sh_active := False, sh_created_by := ''peer:b''\<rparr>] (''extra'', 1) = Inr c"
proof -
  have "\<not> IsEnvelopeShapes (fst (''extra'', 1 :: int))" by code_simp
  from shipped_libraries_agree [OF demo_refs demo_shipped_library _ this] show ?thesis by simp
qed

theorem shipped_shapes_stay_apart_witness:
  "pinnedShapesContent [demo_row, demo_row\<lparr>sh_kind := PeerShapesKind, sh_active := False, sh_created_by := ''peer:b''\<rparr>] (''extra'', 1)
     = Inr ''shapes''"
proof -
  have store: "StorePinnedShapes ''peer:b'' [demo_library] [demo_row]
      = (Inr (), [demo_row, demo_row\<lparr>sh_kind := PeerShapesKind, sh_active := False, sh_created_by := ''peer:b''\<rparr>])"
    and held: "pinnedShapesContent [demo_row] (''extra'', 1) = Inr ''shapes''" by code_simp+
  from shipped_shapes_stay_apart [OF store, of "''extra''" 1 "''shapes''"] held show ?thesis by simp
qed

theorem hub_versions_are_immutable_witness:
  "hub_ok [demo_row, demo_row\<lparr>sh_kind := PeerShapesKind, sh_active := False, sh_created_by := ''peer:b''\<rparr>]
   \<and> (\<exists>later. map frozen [demo_row, demo_row\<lparr>sh_kind := PeerShapesKind, sh_active := False, sh_created_by := ''peer:b''\<rparr>]
        = map frozen [demo_row] @ later)"
proof -
  have "StorePinnedShapes ''peer:b'' [demo_library] [demo_row]
      = (Inr (), [demo_row, demo_row\<lparr>sh_kind := PeerShapesKind, sh_active := False, sh_created_by := ''peer:b''\<rparr>])"
    and ok: "hub_ok [demo_row]" by code_simp+
  then have "hub_step\<^sup>*\<^sup>* [demo_row] [demo_row, demo_row\<lparr>sh_kind := PeerShapesKind, sh_active := False, sh_created_by := ''peer:b''\<rparr>]"
    by (intro r_into_rtranclp) (rule hub_import)
  from hub_versions_are_immutable [OF this ok] show ?thesis .
qed

section \<open>A settlement, a withdrawal\<close>

theorem accepted_settlement_is_evidence_witness:
  "\<exists>remote c payload key claim. out_did (demo_outside ''did:web:b'') ''did:web:b'' = Some remote
    \<and> contracts (pn_store (demo_settled ''did:web:a'' ''did:web:b'')) ''c1'' = Some c
    \<and> Jades_Verify demo_jws (sr_jades demo_shipment) = Inr (payload, key)
    \<and> PublishesKeyFor PurposeAssertion (Some key) remote
    \<and> payload = BuildSettlementPayload demo_wire claim \<and> sc_contract claim = ''c1''
    \<and> SameDIDWeb (sc_by claim) ''did:web:b'' \<and> SameDIDWeb (sc_with claim) ''did:web:a''
    \<and> (\<exists>party\<in>set (contract_parties c). SameDIDWeb party (sc_by claim))
    \<and> demo_agreed = (demo_settled ''did:web:a'' ''did:web:b'')\<lparr>pn_store := UpsertSettlement
        \<lparr>st_did = ''c1'', st_from_peer = ''did:web:b'', st_to_peer = ''did:web:a'', st_version = sc_version claim,
         st_digest = sc_digest claim, st_settled_at = sc_at claim, st_signature = sr_jades demo_shipment,
         st_delivered = Some 5000000\<rparr> (pn_store (demo_settled ''did:web:a'' ''did:web:b''))\<rparr>"
proof -
  have req: "sr_from demo_shipment = ''did:web:b''" "sr_contract demo_shipment = ''c1''"
    by (simp_all add: demo_shipment_def settlement_request_of_def)
  show ?thesis
    using accepted_settlement_is_evidence [OF demo_arrives] unfolding req demo_node_parts by blast
qed

text \<open>\<open>did:web:b\<close> takes its settlement back.\<close>

definition demo_withdrawal_claim :: withdrawal_claim where
  "demo_withdrawal_claim = \<lparr>wc_contract = ''c1'', wc_digest = ''digest'', wc_by = ''did:web:b'', wc_from = ''did:web:a'', wc_at = 5000000\<rparr>"

definition demo_withdrawal :: settlement_request where
  "demo_withdrawal = \<lparr>sr_from = ''did:web:b'', sr_contract = ''c1'', sr_secret = ''s'', sr_hash = ''signed s'',
     sr_jades = demo_signed (BuildSettlementWithdrawalPayload demo_wire demo_withdrawal_claim)\<rparr>"

lemma demo_withdrawal_members:
  "struct_members demo_wire (BuildSettlementWithdrawalPayload demo_wire c) = Some (withdrawal_members demo_wire c)"
proof -
  have nine: "(9 :: nat) = Suc (Suc (Suc (Suc (Suc (Suc (Suc (Suc (Suc 0))))))))" by simp
  have "demo_fields 9 (demo_enc a @ demo_enc b @ demo_enc c @ demo_enc d @ demo_enc e @ demo_enc f @ demo_enc g)
      = [a, b, c, d, e, f, g]" for a b c d e f g
    unfolding nine by simp
  then show ?thesis
    by (simp add: struct_members_def BuildSettlementWithdrawalPayload_def demo_wire_def demo_canonical_def
        demo_parse_def withdrawal_members_def statement_context_def)
qed

lemma demo_withdrawn:
  "PostSettlementWithdrawal (demo_node_env ''did:web:a'') (demo_outside ''did:web:b'') 5000000 demo_withdrawal demo_agreed
     = (Inr (''did:web:a'', True), demo_agreed\<lparr>pn_store := DeleteSettlementsBy ''c1'' ''did:web:b'' (pn_store demo_agreed)\<rparr>)"
proof -
  have signed: "signed_members demo_wire (sr_jades demo_withdrawal) (demo_did_document ''did:web:b'')
      = Inr (BuildSettlementWithdrawalPayload demo_wire demo_withdrawal_claim, withdrawal_members demo_wire demo_withdrawal_claim)"
    by (simp add: signed_members_def demo_withdrawal_def demo_verify lift_jws_def demo_key peer_option_def demo_withdrawal_members)
  have decoded: "decode_withdrawal (withdrawal_members demo_wire demo_withdrawal_claim)
      = Some (SettlementWithdrawalType, demo_withdrawal_claim\<lparr>wc_at := 0\<rparr>, ''now'')" by code_simp
  have present: "require_members [(''dcs:contractDid'', ''c1''), (''dcs:contractDocumentDigest'', ''digest''),
      (''dcs:withdrawnBy'', ''did:web:b''), (''dcs:withdrawnFrom'', ''did:web:a''), (''dcs:withdrawnAt'', ''now'')] = Inr ()"
    by code_simp
  have claim: "wc_contract demo_withdrawal_claim = ''c1''" "wc_digest demo_withdrawal_claim = ''digest''"
      "wc_by demo_withdrawal_claim = ''did:web:b''" "wc_from demo_withdrawal_claim = ''did:web:a''"
      "wc_at demo_withdrawal_claim = 5000000" "demo_withdrawal_claim\<lparr>wc_at := 5000000\<rparr> = demo_withdrawal_claim"
    by (simp_all add: demo_withdrawal_claim_def)
  have "verifyShippedWithdrawal demo_wire (sr_jades demo_withdrawal) ''did:web:b'' (demo_did_document ''did:web:b'')
      \<lparr>lw_contract = ''c1'', lw_local_peer = ''did:web:a'', lw_parties = [''did:web:a'', ''did:web:b''], lw_now = 5000000\<rparr>
     = Inr demo_withdrawal_claim"
    by (simp add: verifyShippedWithdrawal_def signed peer_option_def decoded claim present demo_time_def demo_distinct settlementClockSkew_def)
  moreover have "contracts (pn_store demo_agreed) ''c1'' = Some ((demo_contract ''did:web:a'' Submitted)\<lparr>c_responsible := Some demo_parties\<rparr>)"
    by (simp add: demo_agreed_def demo_node_store)
  moreover have "st_settled_at (demo_statement p peer) = 5000000" for p peer by (simp add: demo_statement_def)
  ultimately have "accept_withdrawal (demo_node_env ''did:web:a'') 5000000 (demo_did_document ''did:web:b'') ''did:web:a'' demo_withdrawal
      (pn_store demo_agreed) = Inr (True, DeleteSettlementsBy ''c1'' ''did:web:b'' (pn_store demo_agreed))"
    by (simp add: accept_withdrawal_def demo_withdrawal_def demo_parties_of ReadDataByDID_def lift_store_def demo_held
        withdrawalTakesBack_def claim)
  then show ?thesis by (simp add: PostSettlementWithdrawal_def demo_session demo_withdrawal_def)
qed

theorem applied_withdrawal_closes_gate_witness:
  "assertCounterpartiesSettled ''c1'' ''did:web:a'' (Some demo_parties) [''did:web:b'']
     (DeleteSettlementsBy ''c1'' ''did:web:b'' (pn_store demo_agreed)) \<noteq> Inr ()"
proof -
  have req: "sr_from demo_withdrawal = ''did:web:b''" "sr_contract demo_withdrawal = ''c1''"
    by (simp_all add: demo_withdrawal_def)
  show ?thesis
    using applied_withdrawal_closes_gate [OF demo_withdrawn] demo_remote by (simp add: req)
qed

section \<open>Gates and the retry queue\<close>

theorem trust_gate_fails_closed_witness:
  "\<exists>doc docID credential. out_did (demo_outside ''did:web:b'') ''did:web:b'' = Some doc \<and> dd_id doc = Some docID
    \<and> SameDIDWeb docID ''did:web:b'' \<and> fetchAgreementCredential (demo_outside ''did:web:b'') ''did:web:b'' = Some credential
    \<and> (\<exists>m. out_parse (demo_outside ''did:web:b'') credential = Some (JObj m))"
  using trust_gate_fails_closed [OF demo_trust(2) [of Inbound "''c1''" "[]"]] by blast

theorem credential_standing_ends_witness:
  "(6000000 :: int) - 5000000 \<le> MaxAgreementCredentialLifetime + 2 * credentialClockSkew"
proof -
  have "requireCredentialInForce demo_time (demo_credential ''did:web:b'') 6000000 = Inr ()" by code_simp
  with credential_standing_ends [OF demo_in_force [of "''did:web:b''"]] show ?thesis by blast
qed

end
