(* ===== verification/Spec2Isabelle.thy ===== *)
theory Spec2Isabelle
  imports Creation_Witnesses Merkle Status_Witnesses Extrinsic Audit_Properties Template_Witnesses
    Federation_Witnesses
begin

text \<open>
  A verification library for the FACIS digital contracting service
  (\<open>backend/\<close>).

  \<^bold>\<open>The program.\<close>  Two or more instances of the service negotiate, approve, sign and
  execute contracts.  On each instance the contract workflow engine
  (\<open>internal/contractworkflowengine\<close>) keeps a contract table with its review, approval
  and negotiation tasks, change requests and decisions, settlements and an outbox of
  domain events; every command handler (\<open>command/*.go\<close>) is one database transaction.
  Around it stand the PDF artifacts with their C2PA lifecycle
  (\<open>internal/pdfgeneration\<close>), peer identities (\<open>internal/base/identity\<close>), the audit
  trail that anchors the outbox (\<open>internal/base/event\<close>, \<open>internal/base/merkle.go\<close>), the
  encrypted artifacts and their erasable keys (\<open>internal/base/artifactstore\<close>,
  \<open>internal/base/envelope\<close>), the credential status lists
  (\<open>internal/auth/oid4vp/status/codec\<close>) and the request budget (\<open>internal/middleware\<close>).
  Contracts are derived from the templates of the template repository
  (\<open>internal/templaterepository\<close>), which has tables, tasks and handlers of its own and
  whose trail an audit checks (\<open>internal/base/validation/templateprovenance.go\<close>).
  Instances talk to each other through the synchroniser (\<open>internal/dcstodcs\<close>), which ships
  documents, settlements and their withdrawals, and the endpoints that receive them
  (\<open>internal/service/dcs_to_dcs*.go\<close>, \<open>contractworkflowengine/command/receivepdf.go\<close>); the
  vocabulary a document is judged by travels with it (\<open>internal/semantichub\<close>).

  \<^bold>\<open>The theories.\<close>
  \<^item> \<open>Prelude\<close>: results and error propagation, Go string functions, the interface of a
    string enumeration (locale \<open>string_enum\<close>).
  \<^item> \<open>User_Role\<close>, \<open>Contract_State\<close>, \<open>Task_State\<close>: the enumerations, the role check, the
    transition table (locale \<open>workflow_table\<close>) and its two checks.
  \<^item> \<open>Did_Web\<close>, \<open>Extrinsic\<close>: did:web parsing, comparison and normalisation; the
    peer-facing lifecycle inferred from signature evidence.
  \<^item> \<open>Merkle\<close>, \<open>Status_Codec\<close>: audit checkpoints over an arbitrary hash function; the bit
    reader of status lists at 64-bit width.
  \<^item> \<open>Status_Allocation\<close>, \<open>Status_Interleaving\<close>: the entries of the status list a deployment serves
    (\<open>internal/pdfgeneration/provenance\<close>): allocation over the interface of a store (locale
    \<open>status_store\<close>), the statements of the Postgres store with their outages, and any number of
    allocations and revocations statement by statement (\<open>alloc_step\<close>).
  \<^item> \<open>Status_Publication\<close>, \<open>Status_Served\<close>: the publisher and the queue worker with its faults
    (\<open>publication_step\<close>), the signed token, the endpoint and the references credentials carry.
  \<^item> \<open>Status_Verifier\<close>, \<open>Status_Properties\<close>, \<open>Status_Witnesses\<close>: how a verifier finds, fetches and
    checks a list (\<open>internal/auth/oid4vp/status\<close>), over the collaborators in \<open>verify_env\<close>; what
    publishing, serving and verifying give together, with a small deployment.
  \<^item> \<open>Lifecycle\<close>, \<open>Retry_Budget\<close>, \<open>Rate_Limit\<close>: artifact states and PDF signature
    detection, the regeneration sweep, the request budget.
  \<^item> \<open>Json_Value\<close>, \<open>Contract_Document\<close>: JSON documents and the edits the engine makes.
  \<^item> \<open>Contract_Store\<close>, \<open>Task_Repo\<close>: the tables as one record \<open>store\<close>, the repository
    functions as functions of the store, the views and triggers of the schema, the
    interface of a task repository (locale \<open>task_repo\<close>).
  \<^item> \<open>Engine_Env\<close>: the collaborators that are not modelled, as fields of the record \<open>env\<close>.
  \<^item> \<open>Negotiation_Merge\<close>: merging the accepted change requests of a round.
  \<^item> \<open>Contract_Commands\<close>: the command handlers and the expiry job.
  \<^item> \<open>Contract_Invariants\<close>, \<open>Command_Steps\<close>, \<open>Store_Frames\<close>: what a step may change (locale
    \<open>contract_handler\<close>), one lemma per handler, and which tables an operation leaves
    alone.
  \<^item> \<open>Envelope\<close>, \<open>Key_Store\<close>: wrapping and sealing of content keys over abstract
    primitives (record \<open>crypto\<close>); the key repository, the store with its cache, the
    erasure of a key, and the interleavings of the store's steps (\<open>ks_step\<close>), where a
    goroutine may hold a key it has read.
  \<^item> \<open>Audit_Anchor\<close>, \<open>Audit_Trail\<close>, \<open>Audit_Properties\<close>: the tickers of the outbox
    processor as functions of the state and of what the outside answers during the tick
    (record \<open>tick\<close>), the readers of the trail and the proof query; the histories of the
    trail (\<open>au_step\<close>) with the invariants \<open>chains_ok\<close>, \<open>checkpoints_ok\<close> and
    \<open>attempts_ok\<close>; the properties and a small history.
  \<^item> \<open>Semantic_Bundle\<close>, \<open>Creation\<close>: the versions of the semantic hub a document is pinned to,
    and the two commands that open a contract, creation and renewal.
  \<^item> \<open>Template_State\<close>, \<open>Template_Store\<close>, \<open>Template_Tasks\<close>: the enumerations, tables, triggers
    and repository functions of the template repository (record \<open>tstore\<close>); its review and
    approval tasks interpret the same locale \<open>task_table\<close> the contract engine uses.
  \<^item> \<open>Template_Provenance\<close>, \<open>Template_Commands\<close>: provenance credentials, catalogue documents
    and the command handlers, over the collaborators in \<open>tmpl_env\<close>.
  \<^item> \<open>Template_Lifecycle\<close>, \<open>Template_Invariants\<close>, \<open>Template_Trail\<close>: the abstract lifecycle
    every handler refines, the invariants of the reachable stores, and the events that
    account for every state.
  \<^item> \<open>Template_Audit\<close>, \<open>Template_Audit_Proofs\<close>, \<open>Template_Properties\<close>, \<open>Template_Witnesses\<close>:
    the provenance audit, what it reports on the trail of a reachable store, the
    properties of the repository and a history on which they are exercised.
  \<^item> \<open>Did_Document\<close>, \<open>Jades\<close>, \<open>Settlement_Wire\<close>: the keys an instance publishes and how it
    answers a challenge; signed statements; the statements about a settled document, their
    verification and the signing gate \<open>assertCounterpartiesSettled\<close>.
  \<^item> \<open>Trust_Gate\<close>, \<open>Poa_Gate\<close>: the gate of every interaction with a peer and the gate of shipped evidence, over
    collaborators in the records \<open>outside\<close> and \<open>poa_env\<close>.
  \<^item> \<open>Semantic_Hub\<close>, \<open>Sync_Store\<close>: the vocabulary table with its histories (\<open>hub_step\<close>) and the
    exchange of pinned libraries; the exchange tables of an instance (record \<open>peer_node\<close>).
  \<^item> \<open>Peer_Receive\<close>, \<open>Peer_Service\<close>, \<open>Synchronizer\<close>: receiving a document, the endpoints a peer
    calls, and the event handler, retry pass and erasure that call them on others.
  \<^item> \<open>Evidence_Frames\<close>, \<open>Federation\<close>, \<open>Federation_Run\<close>: which operations leave settlements and
    outbox alone; what each operation may add to them; the runs of several instances
    (\<open>fed_step\<close>) with the invariant \<open>fed_inv\<close> that accounts for every settlement held.
  \<^item> \<open>Peer_Properties\<close>, \<open>Federation_Witnesses\<close>: what the endpoints of one instance promise, and
    a federation of two instances with a wire format on which the properties are exercised.
  \<^item> \<open>Workflow_Properties\<close>, \<open>Hierarchy\<close>, \<open>Witnesses\<close>, \<open>Creation_Witnesses\<close>: the properties of the engine, of the
    parent references, and a small deployment on which they are exercised.

  \<^bold>\<open>Correspondence.\<close>  A handler of the source is a function from the environment, the
  clock, the command and the store to an error or the new store; the rollback of a
  failed transaction is the absence of a store in the error case.  Times are integers
  in nanoseconds; Go integers that cannot overflow at the sizes the code handles are
  \<open>int\<close> or \<open>nat\<close>, those of the status list reader, the indices of status list entries and
  the key wrap counters are words.  Transactions run one after
  the other; a registration and a publication, which read in one transaction and write in
  another, carry the store the first one saw.  A Go map that is iterated
  is an association list, a table with a key is a map.  Fields that only decorate an
  event (holder, comments, time of occurrence) are left out.  The goroutines of an
  anchoring batch write entries of different chains, so their order is fixed to one; the
  identifiers the object store answers with are assumed new, as the nonce in every entry
  makes them.

  \<^bold>\<open>The federation.\<close>  A step of \<open>fed_step\<close> is one command, job, handler or received request
  of one instance.  What an instance sends is any request at all; it arrives at any later
  time, any number of times or never, and the answer a sender sees is chosen freely
  (record \<open>sending\<close>).  Two things are assumed: \<open>faithful_wire\<close>, that the canonical text of a
  settlement can be read back to its members, and \<open>genuine\<close>, that a key published for
  assertions has signed a settlement only if the instance publishing it issued this
  settlement.  Nothing is assumed of withdrawals, documents and erasure requests.  A
  handler is taken as one step, although its transactions and its calls to other instances
  can interleave with those of another handler of the same instance.

  \<^bold>\<open>Loops.\<close>  All loops are total functions with a termination proof, except the walk
  along the parent references and the walk along an audit chain, which are partial
  functions to an option; that the first always returns on a finite table is part of
  \<open>Hierarchy\<close>, that the second does in every reachable state is part of
  \<open>audit_trail_complete\<close>.  The 64 attempts of an allocation are the bound of the source
  (\<open>maxClaimAttempts\<close>); \<open>run_call\<close> counts the statements of one allocation and
  \<open>Allocate_is_a_run\<close> shows how many suffice.  No other fuel is used.

  \<^bold>\<open>Not modelled.\<close>  Transport and API types, rendering and signing of PDF documents and what
  is read out of them (the record \<open>pdf_core\<close>), certificate chains, fetching documents of other
  instances (\<open>pki\<close>, \<open>outside\<close>), credential verification beyond the status lists, the W3C handler of status lists (an
  argument) with its COSE and data integrity envelopes, the signing ceremonies, the semantic
  validation of documents (a parameter), the cryptographic primitives (parameters with their laws),
  compliance reports, the length limits of text columns, and the races two transactions
  of the template repository can have below the serialisable isolation level.
\<close>

end
